(* ===== verification/Prelude.thy ===== *)
theory Prelude
  imports Main "HOL-Library.Word"
begin

text \<open>
  Shared vocabulary of the development: the machine types of an LP64 Linux target, C strings and
  the functions of the C library the sources call (character classes, \<^verbatim>\<open>strchr\<close>,
  \<^verbatim>\<open>strncasecmp\<close>, \<^verbatim>\<open>strtol\<close> and its kin), \<^verbatim>\<open>errno\<close> values, and the lemma
  collections the component theories use.

  A C string is the list of its characters without the terminating NUL; a pointer into it is the
  rest of the list, so reading \<^verbatim>\<open>*p\<close> at the end of the list yields NUL.
\<close>

unbundle bit_operations_syntax

section \<open>Machine types\<close>

type_synonym u8 = "8 word"
type_synonym u16 = "16 word"
type_synonym u32 = "32 word"
type_synonym u64 = "64 word"

text \<open>\<^verbatim>\<open>xid_t\<close>, \<^verbatim>\<open>nid_t\<close> and \<^verbatim>\<open>tag_t\<close> are unsigned 32-bit identifiers.\<close>

type_synonym xid_t = u32

type_synonym cstr = string

named_theorems cstring_simps
named_theorems cnum_simps

section \<open>Arithmetic of the digit loops\<close>

lemma div_loop_decreases [simp]:
  fixes v base :: nat
  assumes "\<not> base < 2" "0 < v div base"
  shows "v div base < v"
proof -
  have "0 < v" using assms(2) by (cases v) auto
  with assms(1) show ?thesis by simp
qed

text \<open>Reading a word as a signed number and negating it in the machine type.\<close>

lemma uint_sint_mod:
  fixes val :: "'w::len word"
  shows "uint val = sint val mod 2 ^ LENGTH('w)"
proof -
  have "uint (word_of_int (sint val) :: 'w word) = sint val mod 2 ^ LENGTH('w)"
    by (rule uint_word_of_int)
  then show ?thesis by simp
qed

lemma uint_uminus_mod:
  fixes val :: "'w::len word"
  shows "uint (- val) = (- sint val) mod 2 ^ LENGTH('w)"
proof -
  have "uint (word_of_int (- sint val) :: 'w word) = (- sint val) mod 2 ^ LENGTH('w)"
    by (rule uint_word_of_int)
  then show ?thesis by simp
qed

lemma sint_abs_less: "- (2 ^ LENGTH('w)) < sint (val :: 'w::len word) \<and> sint val < 2 ^ LENGTH('w)"
proof -
  have "(2::int) ^ (LENGTH('w) - 1) < 2 ^ LENGTH('w)" by simp
  then show ?thesis using sint_ge [of val] sint_lt [of val] by linarith
qed

lemma unat_uminus_sint: "sint val < 0 \<Longrightarrow> unat (- val) = nat (- sint val)"
  using sint_abs_less [of val] uint_uminus_mod [of val] by (simp add: unat_eq_nat_uint)

lemma unat_sint: "0 \<le> sint val \<Longrightarrow> unat val = nat (sint val)"
  using sint_abs_less [of val] uint_sint_mod [of val] by (simp add: unat_eq_nat_uint)

section \<open>errno values the sources compare with or set\<close>

datatype errno = ENOENT | EEXIST | EINTR | EAGAIN | EINVAL | ENOSYS | ESRCH | EBUSY | EBADR | EOTHER nat

section \<open>Characters\<close>

abbreviation code :: "char \<Rightarrow> nat" where
  "code c \<equiv> of_char c"

abbreviation NUL :: char where
  "NUL \<equiv> CHR 0x00"

abbreviation NL :: char where
  "NL \<equiv> CHR 0x0A"

abbreviation TAB :: char where
  "TAB \<equiv> CHR 0x09"

definition isdigit :: "char \<Rightarrow> bool" where
  "isdigit c \<longleftrightarrow> 48 \<le> code c \<and> code c \<le> 57"

definition isupper :: "char \<Rightarrow> bool" where
  "isupper c \<longleftrightarrow> 65 \<le> code c \<and> code c \<le> 90"

definition islower :: "char \<Rightarrow> bool" where
  "islower c \<longleftrightarrow> 97 \<le> code c \<and> code c \<le> 122"

definition isspace :: "char \<Rightarrow> bool" where
  "isspace c \<longleftrightarrow> code c = 32 \<or> (9 \<le> code c \<and> code c \<le> 13)"

definition tolower :: "char \<Rightarrow> char" where
  "tolower c = (if isupper c then char_of (code c + 32) else c)"

text \<open>Bit-level code equations, so that evaluation inside the kernel needs no arithmetic.\<close>

lemma isdigit_code [code]:
  "isdigit (Char b0 b1 b2 b3 b4 b5 b6 b7) \<longleftrightarrow> \<not> b7 \<and> \<not> b6 \<and> b5 \<and> b4 \<and> \<not> (b3 \<and> (b2 \<or> b1))"
  by (cases b0; cases b1; cases b2; cases b3; cases b4; cases b5; cases b6; cases b7)
    (simp_all add: isdigit_def)

lemma isupper_code [code]:
  "isupper (Char b0 b1 b2 b3 b4 b5 b6 b7) \<longleftrightarrow>
     \<not> b7 \<and> b6 \<and> \<not> b5 \<and> (b4 \<or> b3 \<or> b2 \<or> b1 \<or> b0) \<and> \<not> (b4 \<and> b3 \<and> (b2 \<or> b1 \<and> b0))"
  by (cases b0; cases b1; cases b2; cases b3; cases b4; cases b5; cases b6; cases b7)
    (simp_all add: isupper_def)

lemma islower_code [code]:
  "islower (Char b0 b1 b2 b3 b4 b5 b6 b7) \<longleftrightarrow>
     \<not> b7 \<and> b6 \<and> b5 \<and> (b4 \<or> b3 \<or> b2 \<or> b1 \<or> b0) \<and> \<not> (b4 \<and> b3 \<and> (b2 \<or> b1 \<and> b0))"
  by (cases b0; cases b1; cases b2; cases b3; cases b4; cases b5; cases b6; cases b7)
    (simp_all add: islower_def)

lemma tolower_code [code]:
  "tolower (Char b0 b1 b2 b3 b4 b5 b6 b7) =
     (if isupper (Char b0 b1 b2 b3 b4 b5 b6 b7) then Char b0 b1 b2 b3 b4 True b6 b7
      else Char b0 b1 b2 b3 b4 b5 b6 b7)"
  by (cases b0; cases b1; cases b2; cases b3; cases b4; cases b5; cases b6; cases b7)
    (simp_all add: tolower_def isupper_def char_of_def bit_iff_odd)

lemma isdigit_not_isspace [simp]: "isdigit c \<Longrightarrow> \<not> isspace c"
  by (auto simp: isdigit_def isspace_def)

section \<open>Search loops\<close>

text \<open>The index loop \<^verbatim>\<open>for (i=0; i<n; ++i) if (P(a[i])) return i;\<close>.\<close>

fun find_idx :: "('a \<Rightarrow> bool) \<Rightarrow> 'a list \<Rightarrow> nat option" where
  "find_idx P [] = None"
| "find_idx P (x # xs) = (if P x then Some 0 else map_option Suc (find_idx P xs))"

lemma find_idx_Some: "find_idx P xs = Some i \<Longrightarrow> i < length xs \<and> P (xs ! i) \<and> (\<forall>j < i. \<not> P (xs ! j))"
proof (induction xs arbitrary: i)
  case Nil
  then show ?case by simp
next
  case (Cons x xs)
  then show ?case by (cases i) (auto split: if_splits simp: less_Suc_eq_0_disj)
qed

lemma find_idx_None: "find_idx P xs = None \<longleftrightarrow> (\<forall>x \<in> set xs. \<not> P x)"
  by (induction xs) auto

lemma find_idx_unique:
  assumes "i < length xs" "P (xs ! i)" "\<forall>j < length xs. P (xs ! j) \<longrightarrow> j = i"
  shows "find_idx P xs = Some i"
proof (cases "find_idx P xs")
  case None
  then show ?thesis using assms(1,2) by (auto simp: find_idx_None)
next
  case (Some j)
  then show ?thesis using assms(3) find_idx_Some [OF Some] by auto
qed

section \<open>C strings\<close>

text \<open>\<^verbatim>\<open>*p\<close> for a pointer into a string.\<close>

fun deref :: "cstr \<Rightarrow> char" where
  "deref [] = NUL"
| "deref (c # _) = c"

text \<open>A list is a C string when no character of it is the terminator.\<close>

definition is_cstr :: "cstr \<Rightarrow> bool" where
  "is_cstr s \<longleftrightarrow> NUL \<notin> set s"

lemma is_cstr_simps [simp, cstring_simps]:
  "is_cstr []"
  "is_cstr (c # s) \<longleftrightarrow> c \<noteq> NUL \<and> is_cstr s"
  "is_cstr (s @ t) \<longleftrightarrow> is_cstr s \<and> is_cstr t"
  by (auto simp: is_cstr_def)

lemma is_cstr_drop [simp]: "is_cstr s \<Longrightarrow> is_cstr (drop n s)"
  by (auto simp: is_cstr_def dest: in_set_dropD)

lemma is_cstr_take [simp]: "is_cstr s \<Longrightarrow> is_cstr (take n s)"
  by (auto simp: is_cstr_def dest: in_set_takeD)

lemma is_cstr_takeWhile [simp]: "is_cstr s \<Longrightarrow> is_cstr (takeWhile P s)"
  by (induction s) auto

lemma is_cstr_dropWhile [simp]: "is_cstr s \<Longrightarrow> is_cstr (dropWhile P s)"
  by (induction s) auto

lemma is_cstr_tl [simp]: "is_cstr s \<Longrightarrow> is_cstr (tl s)"
  by (cases s) auto

text \<open>The number of characters before the first \<open>c\<close>, as \<^verbatim>\<open>strchr(s,c)-s\<close>.\<close>

fun strchr :: "cstr \<Rightarrow> char \<Rightarrow> nat option" where
  "strchr [] c = None"
| "strchr (d # s) c = (if d = c then Some 0 else map_option Suc (strchr s c))"

lemma strchr_None: "strchr s c = None \<longleftrightarrow> c \<notin> set s"
  by (induction s) auto

lemma strchr_Some:
  "strchr s c = Some i \<longleftrightarrow> i < length s \<and> s ! i = c \<and> c \<notin> set (take i s)"
proof (induction s arbitrary: i)
  case Nil
  then show ?case by simp
next
  case (Cons d s)
  then show ?case by (cases i) auto
qed

lemma strchr_Some_split:
  "strchr s c = Some i \<Longrightarrow> s = take i s @ c # drop (Suc i) s \<and> c \<notin> set (take i s)"
  by (auto simp: strchr_Some id_take_nth_drop)

lemma strchr_append_notin:
  "c \<notin> set a \<Longrightarrow> strchr (a @ b) c = map_option ((+) (length a)) (strchr b c)"
  by (induction a) (cases "strchr b c"; auto)+

lemma strchr_append_hit [simp]: "c \<notin> set a \<Longrightarrow> strchr (a @ c # b) c = Some (length a)"
  by (simp add: strchr_append_notin)

text \<open>The index of the last \<open>c\<close>, as \<^verbatim>\<open>strrchr\<close>.\<close>

fun strrchr :: "cstr \<Rightarrow> char \<Rightarrow> nat option" where
  "strrchr [] c = None"
| "strrchr (d # s) c =
     (case strrchr s c of Some i \<Rightarrow> Some (Suc i) | None \<Rightarrow> if d = c then Some 0 else None)"

text \<open>Lexicographic comparison of at most \<open>n\<close> characters; the terminator counts as code 0.\<close>

fun strncmp :: "nat \<Rightarrow> cstr \<Rightarrow> cstr \<Rightarrow> int" where
  "strncmp 0 _ _ = 0"
| "strncmp (Suc n) [] [] = 0"
| "strncmp (Suc n) [] (d # _) = - int (code d)"
| "strncmp (Suc n) (c # _) [] = int (code c)"
| "strncmp (Suc n) (c # s) (d # t) =
     (if c = d then strncmp n s t else int (code c) - int (code d))"

definition strncasecmp :: "nat \<Rightarrow> cstr \<Rightarrow> cstr \<Rightarrow> int" where
  "strncasecmp n s t = strncmp n (map tolower s) (map tolower t)"

fun strcmp :: "cstr \<Rightarrow> cstr \<Rightarrow> int" where
  "strcmp [] [] = 0"
| "strcmp [] (d # _) = - int (code d)"
| "strcmp (c # _) [] = int (code c)"
| "strcmp (c # s) (d # t) = (if c = d then strcmp s t else int (code c) - int (code d))"

definition strcasecmp :: "cstr \<Rightarrow> cstr \<Rightarrow> int" where
  "strcasecmp s t = strcmp (map tolower s) (map tolower t)"

lemma code_0_iff [simp]: "code c = 0 \<longleftrightarrow> c = NUL"
proof -
  have "code NUL = 0" by simp
  then show ?thesis by (metis of_char_eq_iff)
qed

lemma code_less_256 [simp]: "code c < 256"
  by (rule nat_of_char_less_256)

lemma strcmp_0_iff [simp, cstring_simps]:
  "is_cstr s \<Longrightarrow> is_cstr t \<Longrightarrow> strcmp s t = 0 \<longleftrightarrow> s = t"
  by (induction s t rule: strcmp.induct) auto

lemma strcmp_refl [simp]: "strcmp s s = 0"
  by (induction s) auto

lemma strncmp_0_iff:
  "is_cstr s \<Longrightarrow> is_cstr t \<Longrightarrow> strncmp n s t = 0 \<longleftrightarrow> take n s = take n t"
  by (induction n s t rule: strncmp.induct) auto

lemma tolower_NUL [simp]: "tolower c = NUL \<longleftrightarrow> c = NUL"
proof -
  have "char_of (code c + 32) \<noteq> NUL" if "isupper c"
  proof
    assume "char_of (code c + 32) = NUL"
    then have "code (char_of (code c + 32)) = 0" by simp
    moreover have "code c + 32 < 256" using that by (simp add: isupper_def)
    ultimately show False by (simp add: of_char_of)
  qed
  then show ?thesis by (auto simp: tolower_def isupper_def)
qed

lemma is_cstr_map_tolower [simp]: "is_cstr (map tolower s) = is_cstr s"
  by (induction s) auto

lemma strncasecmp_0_iff [cstring_simps]:
  "is_cstr s \<Longrightarrow> is_cstr t \<Longrightarrow>
   strncasecmp n s t = 0 \<longleftrightarrow> map tolower (take n s) = map tolower (take n t)"
  by (simp add: strncasecmp_def strncmp_0_iff take_map)

lemma strcasecmp_0_iff [cstring_simps]:
  "is_cstr s \<Longrightarrow> is_cstr t \<Longrightarrow>
   strcasecmp s t = 0 \<longleftrightarrow> map tolower s = map tolower t"
  by (simp add: strcasecmp_def)

section \<open>Number parsing of the C library\<close>

definition digit_val :: "char \<Rightarrow> nat option" where
  "digit_val c =
     (if isdigit c then Some (code c - 48)
      else if islower c then Some (code c - 87)
      else if isupper c then Some (code c - 55)
      else None)"

definition is_base_digit :: "nat \<Rightarrow> char \<Rightarrow> bool" where
  "is_base_digit b c = (case digit_val c of Some d \<Rightarrow> d < b | None \<Rightarrow> False)"

text \<open>Accumulates the digits of a base and returns the value with the unread rest.\<close>

fun scan_digits :: "nat \<Rightarrow> nat \<Rightarrow> cstr \<Rightarrow> nat \<times> cstr" where
  "scan_digits b acc [] = (acc, [])"
| "scan_digits b acc (c # s) =
     (if is_base_digit b c then scan_digits b (acc * b + the (digit_val c)) s else (acc, c # s))"

definition has_hex_prefix :: "cstr \<Rightarrow> bool" where
  "has_hex_prefix s =
     (case s of z # x # d # _ \<Rightarrow> z = CHR ''0'' \<and> tolower x = CHR ''x'' \<and> is_base_digit 16 d
      | _ \<Rightarrow> False)"

text \<open>Optional sign, as after the leading white space.\<close>

fun split_sign :: "cstr \<Rightarrow> bool \<times> cstr" where
  "split_sign (c # s) =
     (if c = CHR ''-'' then (True, s) else if c = CHR ''+'' then (False, s) else (False, c # s))"
| "split_sign [] = (False, [])"

text \<open>
  The subject sequence of \<^verbatim>\<open>strtol\<close>: its sign, its magnitude and the unread rest; \<open>None\<close>
  when no digit could be read.
\<close>

definition strto_scan :: "nat \<Rightarrow> cstr \<Rightarrow> (bool \<times> nat \<times> cstr) option" where
  "strto_scan base s =
     (let (neg, s1) = split_sign (dropWhile isspace s);
          hex = has_hex_prefix s1 \<and> (base = 0 \<or> base = 16);
          b = (if hex then 16
               else if base = 0 then (if deref s1 = CHR ''0'' then 8 else 10)
               else base);
          s2 = (if hex then drop 2 s1 else s1)
      in if is_base_digit b (deref s2)
         then (let (v, r) = scan_digits b 0 s2 in Some (neg, v, r)) else None)"

definition LONG_MAX :: int where "LONG_MAX = 2 ^ 63 - 1"
definition LONG_MIN :: int where "LONG_MIN = - (2 ^ 63)"
definition ULONG_MAX :: int where "ULONG_MAX = 2 ^ 64 - 1"

text \<open>
  \<^verbatim>\<open>strtol\<close> and \<^verbatim>\<open>strtoll\<close> (the same function on LP64): the value, the rest of the
  string that \<^verbatim>\<open>endptr\<close> points to, and whether \<^verbatim>\<open>errno\<close> was set to \<^verbatim>\<open>ERANGE\<close>.
\<close>

definition strtol :: "nat \<Rightarrow> cstr \<Rightarrow> int \<times> cstr \<times> bool" where
  "strtol base s =
     (case strto_scan base s of
        None \<Rightarrow> (0, s, False)
      | Some (neg, v, r) \<Rightarrow>
          (let x = (if neg then - int v else int v)
           in if x > LONG_MAX then (LONG_MAX, r, True)
              else if x < LONG_MIN then (LONG_MIN, r, True)
              else (x, r, False)))"

text \<open>\<^verbatim>\<open>strtoul\<close>: a leading minus negates the value in the unsigned type.\<close>

definition strtoul :: "nat \<Rightarrow> cstr \<Rightarrow> int \<times> cstr \<times> bool" where
  "strtoul base s =
     (case strto_scan base s of
        None \<Rightarrow> (0, s, False)
      | Some (neg, v, r) \<Rightarrow>
          if int v > ULONG_MAX then (ULONG_MAX, r, True)
          else ((if neg then (- int v) mod 2 ^ 64 else int v), r, False))"

text \<open>Whether \<^verbatim>\<open>endptr!=str\<close>: some characters were converted.\<close>

definition strto_converted :: "nat \<Rightarrow> cstr \<Rightarrow> bool" where
  "strto_converted base s \<longleftrightarrow> strto_scan base s \<noteq> None"

lemma scan_digits_all:
  "\<forall>c \<in> set s. is_base_digit b c \<Longrightarrow> r = [] \<or> \<not> is_base_digit b (hd r) \<Longrightarrow>
   scan_digits b acc (s @ r) = (foldl (\<lambda>a c. a * b + the (digit_val c)) acc s, r)"
  by (induction s arbitrary: acc) (cases r; auto)+

lemma scan_digits_rest_length: "scan_digits b acc s = (v, r) \<Longrightarrow> length r \<le> length s"
  by (induction b acc s rule: scan_digits.induct) (auto split: if_splits)

lemma is_base_digit_sign [simp]:
  "is_base_digit b c \<Longrightarrow> \<not> isspace c"
  "is_base_digit b c \<Longrightarrow> c \<noteq> CHR ''-''"
  "is_base_digit b c \<Longrightarrow> c \<noteq> CHR ''+''"
  "is_base_digit b c \<Longrightarrow> c \<noteq> NUL"
  by (auto simp: is_base_digit_def digit_val_def isspace_def isdigit_def islower_def isupper_def
      split: if_splits)

lemma hex_prefix_second: "has_hex_prefix s \<Longrightarrow> \<not> (\<forall>c \<in> set (take 2 s). is_base_digit 16 c)"
proof -
  have x: "\<not> is_base_digit 16 c" if "tolower c = CHR ''x''" for c
  proof
    assume d: "is_base_digit 16 c"
    have "code (tolower c) = 120" using that by simp
    moreover have "code (tolower c) = (if isupper c then code c + 32 else code c)"
      by (auto simp: tolower_def isupper_def of_char_of)
    ultimately show False using d
      by (auto simp: is_base_digit_def digit_val_def isdigit_def islower_def isupper_def
          split: if_splits)
  qed
  show "has_hex_prefix s \<Longrightarrow> ?thesis"
    by (auto simp: has_hex_prefix_def x numeral_2_eq_2 split: list.splits)
qed

end
