(* ===== verification/Fmt.thy ===== *)
theory Fmt
  imports Prelude
begin

text \<open>
  The number formatter of \<^verbatim>\<open>ensc_fmt\<close>: the macro \<^verbatim>\<open>FMT_FN\<close> of \<^verbatim>\<open>fmt-internal.h\<close>, the
  functions \<^verbatim>\<open>fmt.hc\<close> and \<^verbatim>\<open>fmtx.hc\<close> instantiate from it at 32 and 64 bits, the decimal
  front ends of \<^verbatim>\<open>fmt.h\<close>, the TAI64N time stamp and \<^verbatim>\<open>WRITE_INT\<close>. A result is the
  returned length with the characters stored at \<^verbatim>\<open>ptr\<close> (none when \<^verbatim>\<open>ptr==0\<close>);
  \<open>None\<close> stands for the runs C leaves undefined or endless: a base below 2, an index outside
  \<^verbatim>\<open>DIGITS\<close> or outside the local buffer. The theorems show that none of these happens for the
  bases 2 to 36, that both modes of the macro agree, and that reading the text back gives the
  number.
\<close>

section \<open>FMT_FN\<close>

definition DIGITS :: cstr where
  "DIGITS = ''0123456789abcdefghijklmnopqrstuvwxyz''"

text \<open>The first loop, taken when \<^verbatim>\<open>ptr==0\<close>; it starts with \<^verbatim>\<open>l==0\<close> and counts divisions.\<close>

function fmt_count :: "nat \<Rightarrow> nat \<Rightarrow> nat \<Rightarrow> nat option" where
  "fmt_count base v l =
     (if base < 2 then None
      else let l' = Suc l; v' = v div base
           in if v' \<noteq> 0 then fmt_count base v' l' else Some l')"
  by pat_completeness auto
termination
  by (relation "measure (\<lambda>(base, v, l). v)") auto

text \<open>The second loop, which fills the local array from its end.\<close>

function fmt_fill :: "nat \<Rightarrow> nat \<Rightarrow> nat \<Rightarrow> cstr \<Rightarrow> (nat \<times> cstr) option" where
  "fmt_fill base v l buf =
     (if base < 2 then None
      else let d = v mod base; v' = v div base; l' = Suc l
           in if length DIGITS < d \<or> length buf < l' then None
              else let buf' = buf[length buf - l' := (DIGITS @ [NUL]) ! d]
                   in if v' \<noteq> 0 then fmt_fill base v' l' buf' else Some (l', buf'))"
  by pat_completeness auto
termination
  by (relation "measure (\<lambda>(base, v, l, buf). v)") auto

declare fmt_count.simps [simp del] fmt_fill.simps [simp del]

definition FMT_FN :: "nat \<Rightarrow> nat \<Rightarrow> bool \<Rightarrow> nat \<Rightarrow> (nat \<times> cstr) option" where
  "FMT_FN base bufsize ptr val =
     (if \<not> ptr then map_option (\<lambda>l. (l, [])) (fmt_count base val 0)
      else case fmt_fill base val 0 (replicate bufsize NUL) of
             None \<Rightarrow> None
           | Some (l, buf) \<Rightarrow> Some (l, take l (drop (length buf - l) buf)))"

text \<open>\<^verbatim>\<open>sizeof(val)\<close> of the instantiated integer type.\<close>

definition sizeof_val :: "'w::len word \<Rightarrow> nat" where
  "sizeof_val v = LENGTH('w) div 8"

definition fmt_xuint :: "bool \<Rightarrow> 'w::len word \<Rightarrow> (nat \<times> cstr) option" where
  "fmt_xuint ptr val = FMT_FN 16 (sizeof_val val * 2) ptr (unat val)"

definition fmt_uint_base :: "bool \<Rightarrow> 'w::len word \<Rightarrow> nat \<Rightarrow> (nat \<times> cstr) option" where
  "fmt_uint_base ptr val base =
     (if base = 16 then fmt_xuint ptr val
      else FMT_FN base (sizeof_val val * 8) ptr (unat val))"

text \<open>
  The signed variants negate in the machine type (so the smallest value stays itself) and store
  the sign before the digits.
\<close>

definition with_sign :: "bool \<Rightarrow> (nat \<times> cstr) option \<Rightarrow> (nat \<times> cstr) option" where
  "with_sign ptr r = map_option (\<lambda>(l, s). (l + 1, if ptr then CHR ''-'' # s else s)) r"

definition fmt_int_base :: "bool \<Rightarrow> 'w::len word \<Rightarrow> nat \<Rightarrow> (nat \<times> cstr) option" where
  "fmt_int_base ptr val base =
     (if sint val < 0 then with_sign ptr (fmt_uint_base ptr (- val) base)
      else fmt_uint_base ptr val base)"

definition fmt_xint :: "bool \<Rightarrow> 'w::len word \<Rightarrow> (nat \<times> cstr) option" where
  "fmt_xint ptr val =
     (if sint val < 0 then with_sign ptr (fmt_xuint ptr (- val)) else fmt_xuint ptr val)"

text \<open>The decimal front ends \<^verbatim>\<open>fmt_uint32\<close>, \<^verbatim>\<open>fmt_uint64\<close>, \<^verbatim>\<open>fmt_ulong\<close>, \<dots>\<close>

definition fmt_uint :: "bool \<Rightarrow> 'w::len word \<Rightarrow> (nat \<times> cstr) option" where
  "fmt_uint ptr val = fmt_uint_base ptr val 10"

definition fmt_int :: "bool \<Rightarrow> 'w::len word \<Rightarrow> (nat \<times> cstr) option" where
  "fmt_int ptr val = fmt_int_base ptr val 10"

text \<open>
  The TAI64N stamp of a \<^verbatim>\<open>struct timeval\<close>; \<open>None\<close> when the \<^verbatim>\<open>assert(l==16)\<close> fails or
  the fraction does not fit its eight columns.
\<close>

definition fmt_tai64n :: "u64 \<Rightarrow> u64 \<Rightarrow> (nat \<times> cstr) option" where
  "fmt_tai64n tv_sec tv_usec =
     (let tai_secs = push_bit 62 1 + tv_sec; nsec = (ucast (tv_usec * 1000) :: u32)
      in case fmt_xuint True tai_secs of
           None \<Rightarrow> None
         | Some (l, secs) \<Rightarrow>
             if l \<noteq> 16 then None
             else case fmt_xuint False nsec of
                    None \<Rightarrow> None
                  | Some (l', _) \<Rightarrow>
                      if 8 < l' then None
                      else case fmt_xuint True nsec of
                             None \<Rightarrow> None
                           | Some (_, frac) \<Rightarrow>
                               Some (1 + 16 + 8,
                                     CHR ''@'' # secs @ replicate (8 - l') CHR ''0'' @ frac))"

text \<open>
  \<^verbatim>\<open>WRITE_INT\<close> formats an \<^verbatim>\<open>int\<close> as a \<^verbatim>\<open>long\<close> into a stack buffer of
  \<^verbatim>\<open>sizeof(num)*3+2\<close> bytes; \<open>None\<close> when the text would not fit.
\<close>

definition WRITE_INT :: "u32 \<Rightarrow> cstr option" where
  "WRITE_INT num =
     (case fmt_int True (scast num :: u64) of
        None \<Rightarrow> None
      | Some (l, s) \<Rightarrow> if sizeof_val num * 3 + 2 < l then None else Some s)"

section \<open>Reference definition: positional digits\<close>

function digits_of :: "nat \<Rightarrow> nat \<Rightarrow> cstr" where
  "digits_of base v =
     (if v < base \<or> base < 2 then [DIGITS ! (v mod base)]
      else digits_of base (v div base) @ [DIGITS ! (v mod base)])"
  by pat_completeness auto
termination
  by (relation "measure snd") auto

declare digits_of.simps [simp del]

lemma length_DIGITS [simp]: "length DIGITS = 36"
  by (simp add: DIGITS_def)

lemma digit_val_DIGITS: "d < 36 \<Longrightarrow> digit_val (DIGITS ! d) = Some d"
proof -
  have "\<forall>d \<in> set [0..<36]. digit_val (DIGITS ! d) = Some d"
    by code_simp
  then show "d < 36 \<Longrightarrow> digit_val (DIGITS ! d) = Some d" by simp
qed

lemma digits_of_small: "v < base \<Longrightarrow> digits_of base v = [DIGITS ! v]"
  by (subst digits_of.simps) simp

lemma digits_of_step:
  "2 \<le> base \<Longrightarrow> base \<le> v \<Longrightarrow>
   digits_of base v = digits_of base (v div base) @ [DIGITS ! (v mod base)]"
  by (subst digits_of.simps) simp

lemma digits_of_induct [consumes 1, case_names small step]:
  assumes "2 \<le> (base::nat)"
    and "\<And>v. v < base \<Longrightarrow> P v"
    and "\<And>v. base \<le> v \<Longrightarrow> v div base < v \<Longrightarrow> P (v div base) \<Longrightarrow> P v"
  shows "P v"
proof (induction v rule: less_induct)
  case (less v)
  show ?case
  proof (cases "v < base")
    case True
    then show ?thesis by (rule assms(2))
  next
    case False
    then have "v div base < v" using assms(1) by (simp add: div_less_dividend)
    then show ?thesis using False less assms(3) by simp
  qed
qed

lemma digits_of_nonempty [simp]: "digits_of base v \<noteq> []"
  by (subst digits_of.simps) simp

lemma length_digits_of:
  "2 \<le> base \<Longrightarrow> v < base ^ k \<Longrightarrow> 0 < k \<Longrightarrow> length (digits_of base v) \<le> k"
proof (induction k arbitrary: v)
  case 0
  then show ?case by simp
next
  case (Suc k)
  show ?case
  proof (cases "v < base")
    case True
    then show ?thesis by (simp add: digits_of_small)
  next
    case False
    with Suc.prems have k: "0 < k" by (cases k) auto
    have "v div base < base ^ k"
      using Suc.prems by (simp add: div_less_iff_less_mult mult.commute)
    with Suc.IH Suc.prems(1) k have "length (digits_of base (v div base)) \<le> k" by blast
    with False Suc.prems(1) show ?thesis by (simp add: digits_of_step)
  qed
qed

lemma power_le_length_digits_of:
  "2 \<le> base \<Longrightarrow> base ^ k \<le> v \<Longrightarrow> k < length (digits_of base v)"
proof (induction k arbitrary: v)
  case 0
  then show ?case by simp
next
  case (Suc k)
  have "base \<le> v"
    by (rule order_trans [OF _ Suc.prems(2)]) (use Suc.prems(1) in simp)
  moreover have "base ^ k \<le> v div base"
    using Suc.prems by (simp add: less_eq_div_iff_mult_less_eq mult.commute)
  ultimately show ?case using Suc by (simp add: digits_of_step)
qed

lemma digits_of_base_digit:
  assumes "2 \<le> base" "base \<le> 36"
  shows "\<forall>c \<in> set (digits_of base v). is_base_digit base c"
  using assms(1)
proof (induction v rule: digits_of_induct)
  case (small v)
  then show ?case using assms by (simp add: digits_of_small is_base_digit_def digit_val_DIGITS)
next
  case (step v)
  have "v mod base < base" using assms(1) by simp
  moreover have "v mod base < 36" using assms by (simp add: order_less_le_trans [OF mod_less_divisor])
  ultimately show ?case using assms step
    by (simp add: digits_of_step is_base_digit_def digit_val_DIGITS)
qed

lemma digits_of_value:
  assumes "2 \<le> base" "base \<le> 36"
  shows "foldl (\<lambda>a c. a * base + the (digit_val c)) 0 (digits_of base v) = v"
  using assms(1)
proof (induction v rule: digits_of_induct)
  case (small v)
  then show ?case using assms by (simp add: digits_of_small digit_val_DIGITS)
next
  case (step v)
  have "v mod base < 36" using assms by (simp add: order_less_le_trans [OF mod_less_divisor])
  then show ?case using assms step
    by (simp add: digits_of_step digit_val_DIGITS)
qed

lemma digits_of_hd_nonzero:
  assumes "2 \<le> base" "base \<le> 36" "0 < v"
  shows "hd (digits_of base v) \<noteq> CHR ''0''"
  using assms(1,3)
proof (induction v rule: digits_of_induct)
  case (small v)
  have "digit_val (DIGITS ! v) = Some v" using small assms by (simp add: digit_val_DIGITS)
  moreover have "digit_val CHR ''0'' = Some 0" by (simp add: digit_val_def isdigit_def)
  ultimately show ?case using small by (auto simp: digits_of_small)
next
  case (step v)
  have "0 < v div base" using step(1) assms(1) by (simp add: div_greater_zero_iff)
  with step show ?case using assms(1) by (simp add: digits_of_step)
qed

section \<open>The macro computes the digits\<close>

lemma fmt_count_digits:
  assumes "2 \<le> base"
  shows "fmt_count base v l = Some (l + length (digits_of base v))"
  using assms
proof (induction v arbitrary: l rule: digits_of_induct)
  case (small v)
  then show ?case using assms by (subst fmt_count.simps) (simp add: digits_of_small)
next
  case (step v)
  have "0 < v div base" using step(1) assms by (simp add: div_greater_zero_iff)
  then show ?case using step assms by (subst fmt_count.simps) (simp add: digits_of_step)
qed

lemma drop_list_update_last:
  assumes "n < length buf"
  shows "drop n (buf[n := x]) = x # drop (Suc n) buf"
  using assms by (simp add: Cons_nth_drop_Suc [symmetric])

lemma fmt_fill_digits:
  assumes "2 \<le> base" "base \<le> 36"
  shows "l + length (digits_of base v) \<le> length buf \<Longrightarrow>
    \<exists>buf'. fmt_fill base v l buf = Some (l + length (digits_of base v), buf') \<and>
      length buf' = length buf \<and>
      drop (length buf - (l + length (digits_of base v))) buf' =
        digits_of base v @ drop (length buf - l) buf"
  using assms(1)
proof (induction v arbitrary: l buf rule: digits_of_induct)
  case (small v)
  then have "Suc l \<le> length buf" by (simp add: digits_of_small)
  moreover have "Suc (length buf - Suc l) = length buf - l"
    using \<open>Suc l \<le> length buf\<close> by simp
  ultimately show ?case using small assms
    by (subst fmt_fill.simps) (auto simp: digits_of_small drop_list_update_last nth_append)
next
  case (step v)
  let ?d = "DIGITS ! (v mod base)" and ?n = "length (digits_of base (v div base))"
  have dig: "digits_of base v = digits_of base (v div base) @ [?d]"
    using step(1) assms(1) by (rule digits_of_step [rotated])
  have pos: "0 < v div base" using step(1) assms(1) by (simp add: div_greater_zero_iff)
  have m: "v mod base < 36" using assms by (simp add: order_less_le_trans [OF mod_less_divisor])
  have len: "Suc l + ?n \<le> length buf" using step.prems by (simp add: dig)
  let ?buf = "buf[length buf - Suc l := ?d]"
  have *: "drop (length buf - Suc l) ?buf = ?d # drop (length buf - l) buf"
    using len drop_list_update_last [of "length buf - Suc l" buf ?d] by (simp add: Suc_diff_Suc)
  have "Suc l + ?n \<le> length ?buf" using len by simp
  from step.IH [OF this] obtain buf' where b:
    "fmt_fill base (v div base) (Suc l) ?buf = Some (Suc l + ?n, buf')"
    "length buf' = length buf"
    "drop (length buf - (Suc l + ?n)) buf' = digits_of base (v div base) @ ?d # drop (length buf - l) buf"
    using * by auto
  have "fmt_fill base v l buf = fmt_fill base (v div base) (Suc l) ?buf"
    using assms pos m len by (subst fmt_fill.simps) (simp add: nth_append)
  with b show ?case by (simp add: dig)
qed

lemma FMT_FN_digits:
  assumes "2 \<le> base" "base \<le> 36" "length (digits_of base v) \<le> bufsize"
  shows "FMT_FN base bufsize ptr v =
    Some (length (digits_of base v), if ptr then digits_of base v else [])"
proof (cases ptr)
  case False
  then show ?thesis using assms by (simp add: FMT_FN_def fmt_count_digits)
next
  case True
  let ?buf = "replicate bufsize NUL"
  have "0 + length (digits_of base v) \<le> length ?buf" using assms by simp
  from fmt_fill_digits [OF assms(1,2) this] obtain buf' where
    "fmt_fill base v 0 ?buf = Some (length (digits_of base v), buf')"
    "length buf' = bufsize"
    "drop (bufsize - length (digits_of base v)) buf' = digits_of base v"
    by auto
  with True show ?thesis by (simp add: FMT_FN_def)
qed

text \<open>The buffers of the two instances hold every number of their type.\<close>

lemma unat_length_digits:
  fixes val :: "'w::len word"
  assumes "2 \<le> base"
  shows "length (digits_of base (unat val)) \<le> LENGTH('w)"
proof (rule length_digits_of [OF assms])
  have "unat val < 2 ^ LENGTH('w)" by (rule unsigned_less)
  also have "\<dots> \<le> base ^ LENGTH('w)" using assms by (rule power_mono) simp
  finally show "unat val < base ^ LENGTH('w)" .
qed simp

lemma unat_length_hex:
  fixes val :: "'w::len word"
  assumes "LENGTH('w) = 4 * k" "0 < k"
  shows "length (digits_of 16 (unat val)) \<le> k"
proof (rule length_digits_of)
  have "unat val < 2 ^ LENGTH('w)" by (rule unsigned_less)
  also have "\<dots> = 16 ^ k" by (simp add: assms(1) power_mult)
  finally show "unat val < 16 ^ k" .
qed (use assms in auto)

text \<open>The result every unsigned formatter returns.\<close>

definition fmt_result :: "bool \<Rightarrow> nat \<Rightarrow> nat \<Rightarrow> (nat \<times> cstr) option" where
  "fmt_result ptr base v =
     Some (length (digits_of base v), if ptr then digits_of base v else [])"

lemma fmt_xuint_result:
  fixes val :: "'w::len word"
  assumes "LENGTH('w) = 8 * k" "0 < k"
  shows "fmt_xuint ptr val = fmt_result ptr 16 (unat val)"
  using unat_length_hex [of "2 * k" val] assms
  by (simp add: fmt_xuint_def fmt_result_def FMT_FN_digits sizeof_val_def)

lemma fmt_uint_base_result:
  fixes val :: "'w::len word"
  assumes "LENGTH('w) = 8 * k" "0 < k" "2 \<le> base" "base \<le> 36"
  shows "fmt_uint_base ptr val base = fmt_result ptr base (unat val)"
proof (cases "base = 16")
  case True
  then show ?thesis using assms by (simp add: fmt_uint_base_def fmt_xuint_result)
next
  case False
  have "length (digits_of base (unat val)) \<le> sizeof_val val * 8"
    using unat_length_digits [OF assms(3), of val] assms(1) by (simp add: sizeof_val_def)
  then show ?thesis
    using False assms by (simp add: fmt_uint_base_def fmt_result_def FMT_FN_digits)
qed

lemma fmt_int_base_result:
  fixes val :: "'w::len word"
  assumes "LENGTH('w) = 8 * k" "0 < k" "2 \<le> base" "base \<le> 36"
  shows "fmt_int_base ptr val base =
    (if sint val < 0 then with_sign ptr (fmt_result ptr base (nat (- sint val)))
     else fmt_result ptr base (nat (sint val)))"
  using assms
  by (simp add: fmt_int_base_def fmt_uint_base_result unat_uminus_sint unat_sint)

section \<open>Reading the text back\<close>

lemma strto_scan_digits:
  assumes "2 \<le> base" "base \<le> 36" "base \<noteq> 16 \<or> r = []"
    and "r = [] \<or> \<not> is_base_digit base (hd r)"
  shows "strto_scan base (digits_of base v @ r) = Some (False, v, r)"
proof -
  let ?s = "digits_of base v @ r"
  obtain c s where cs: "digits_of base v = c # s" by (cases "digits_of base v") auto
  have dig: "\<forall>c \<in> set (digits_of base v). is_base_digit base c"
    using assms by (simp add: digits_of_base_digit)
  then have c: "is_base_digit base c" by (simp add: cs)
  have hex: "\<not> (has_hex_prefix ?s \<and> (base = 0 \<or> base = 16))"
  proof
    assume h: "has_hex_prefix ?s \<and> (base = 0 \<or> base = 16)"
    then have "base = 16" "r = []" using assms by auto
    moreover have "\<forall>c \<in> set (take 2 (digits_of base v)). is_base_digit base c"
      using dig by (auto dest: in_set_takeD)
    ultimately show False using h hex_prefix_second [of ?s] by simp
  qed
  have "scan_digits base 0 ?s = (v, r)"
    using scan_digits_all [OF dig assms(4)] digits_of_value [OF assms(1,2)] by simp
  then show ?thesis using c hex assms(1) by (auto simp: strto_scan_def cs Let_def)
qed

lemma strto_scan_decimal_auto: "strto_scan 0 (digits_of 10 v) = Some (False, v, [])"
proof (cases "v = 0")
  case True
  then show ?thesis by (simp add: digits_of_small DIGITS_def) code_simp
next
  case False
  obtain c s where cs: "digits_of 10 v = c # s" by (cases "digits_of 10 v") auto
  have dig: "\<forall>c \<in> set (digits_of 10 v). is_base_digit 10 c"
    by (simp add: digits_of_base_digit)
  have "c \<noteq> CHR ''0''" using digits_of_hd_nonzero [of 10 v] False by (simp add: cs)
  moreover have "is_base_digit 10 c" using dig by (simp add: cs)
  moreover have "\<not> has_hex_prefix (c # s)"
    using \<open>c \<noteq> CHR ''0''\<close> by (auto simp: has_hex_prefix_def split: list.splits)
  moreover have "scan_digits 10 0 (c # s) = (v, [])"
    using scan_digits_all [OF dig, of "[]" 0] digits_of_value [of 10 v] by (simp add: cs)
  ultimately show ?thesis by (simp add: strto_scan_def cs Let_def)
qed

lemma strto_scan_minus:
  assumes "s = c # t" "is_base_digit 36 c"
  shows "strto_scan base (CHR ''-'' # s) = map_option (\<lambda>(_, v, r). (True, v, r)) (strto_scan base s)"
proof -
  have "\<not> isspace CHR ''-''" by (simp add: isspace_def)
  then show ?thesis using assms by (auto simp: strto_scan_def Let_def split: prod.splits)
qed

lemma strto_scan_minus_digits:
  assumes "2 \<le> base" "base \<le> 36"
  shows "strto_scan base (CHR ''-'' # digits_of base v) = Some (True, v, [])"
proof -
  obtain c s where cs: "digits_of base v = c # s" by (cases "digits_of base v") auto
  have "is_base_digit base c" using digits_of_base_digit [OF assms, of v] by (simp add: cs)
  then have "is_base_digit 36 c" using assms by (auto simp: is_base_digit_def split: option.splits)
  then show ?thesis
    using strto_scan_minus [OF cs] strto_scan_digits [of base "[]" v] assms by simp
qed

lemma strtoul_digits:
  assumes "2 \<le> base" "base \<le> 36" "int v \<le> ULONG_MAX"
  shows "strtoul base (digits_of base v) = (int v, [], False)"
  using strto_scan_digits [of base "[]" v] assms by (simp add: strtoul_def)

lemma is_cstr_digits_of: "is_cstr (digits_of 10 n)"
  using digits_of_base_digit [of 10 n] is_base_digit_sign(4) [of 10] by (fastforce simp: is_cstr_def)

text \<open>The text of a signed number.\<close>

definition signed_digits :: "nat \<Rightarrow> int \<Rightarrow> cstr" where
  "signed_digits base x =
     (if x < 0 then CHR ''-'' # digits_of base (nat (- x)) else digits_of base (nat x))"

lemma fmt_int_base_text:
  fixes val :: "'w::len word"
  assumes "LENGTH('w) = 8 * k" "0 < k" "2 \<le> base" "base \<le> 36"
  shows "fmt_int_base ptr val base =
    Some (length (signed_digits base (sint val)), if ptr then signed_digits base (sint val) else [])"
  using assms by (simp add: fmt_int_base_result fmt_result_def with_sign_def signed_digits_def)

lemma strtol_signed_digits:
  assumes "2 \<le> base" "base \<le> 36" "LONG_MIN \<le> x" "x \<le> LONG_MAX"
  shows "strtol base (signed_digits base x) = (x, [], False)"
  using assms strto_scan_digits [of base "[]"] strto_scan_minus_digits [of base]
  by (auto simp: strtol_def signed_digits_def Let_def)

text \<open>
  The unsigned formatter, in both widths it is compiled for and for every base its digit
  table covers: it never leaves the digit table or its stack buffer, the length reported for
  \<^verbatim>\<open>ptr==0\<close> is the number of characters a second call stores, at most one per bit, and
  \<^verbatim>\<open>strtoul\<close> reads exactly the formatted number back.
\<close>

lemma fmt_uint_roundtrip:
  fixes val :: "'w::len word"
  assumes "LENGTH('w) = 32 \<or> LENGTH('w) = 64" "2 \<le> base" "base \<le> 36"
  shows "\<exists>s. fmt_uint_base True val base = Some (length s, s) \<and>
             fmt_uint_base False val base = Some (length s, []) \<and>
             0 < length s \<and> length s \<le> LENGTH('w) \<and>
             strtoul base s = (uint val, [], False)"
proof -
  have "LENGTH('w) = 8 * (LENGTH('w) div 8)" "0 < LENGTH('w) div 8" using assms(1) by auto
  note r = fmt_uint_base_result [OF this assms(2,3)]
  have "uint val < 2 ^ LENGTH('w)" by (rule unsigned_less)
  also have "(2::int) ^ LENGTH('w) \<le> 2 ^ 64" using assms(1) by auto
  finally have "int (unat val) \<le> ULONG_MAX" by (simp add: ULONG_MAX_def)
  from strtoul_digits [OF assms(2,3) this] show ?thesis
    using unat_length_digits [OF assms(2), of val]
    by (intro exI [of _ "digits_of base (unat val)"]) (simp add: r fmt_result_def)
qed

lemma fmt_uint_roundtrip_example:
  "\<exists>s. fmt_uint_base True (3405691582 :: u32) 7 = Some (length s, s) \<and>
       fmt_uint_base False (3405691582 :: u32) 7 = Some (length s, []) \<and>
       0 < length s \<and> length s \<le> 32 \<and> strtoul 7 s = (3405691582, [], False)"
  using fmt_uint_roundtrip [of 7 "3405691582 :: u32"] by simp

text \<open>
  The signed formatter: for every value of the type, the smallest one included, the stored
  text is read back by \<^verbatim>\<open>strtol\<close> as that value.
\<close>

lemma fmt_int_roundtrip:
  fixes val :: "'w::len word"
  assumes "LENGTH('w) = 32 \<or> LENGTH('w) = 64" "2 \<le> base" "base \<le> 36"
  shows "\<exists>s. fmt_int_base True val base = Some (length s, s) \<and>
             fmt_int_base False val base = Some (length s, []) \<and>
             strtol base s = (sint val, [], False)"
proof -
  have len: "LENGTH('w) = 8 * (LENGTH('w) div 8)" "0 < LENGTH('w) div 8" using assms(1) by auto
  have "(2::int) ^ (LENGTH('w) - 1) \<le> 2 ^ 63" using assms(1) by auto
  then have "LONG_MIN \<le> sint val" "sint val \<le> LONG_MAX"
    using sint_ge [of val] sint_lt [of val] by (simp_all add: LONG_MIN_def LONG_MAX_def)
  from strtol_signed_digits [OF assms(2,3) this] show ?thesis
    using fmt_int_base_text [OF len assms(2,3)] by (intro exI [of _ "signed_digits base (sint val)"]) simp
qed

lemma fmt_int_roundtrip_example:
  "\<exists>s. fmt_int_base True (0x80000000 :: u32) 10 = Some (length s, s) \<and>
       fmt_int_base False (0x80000000 :: u32) 10 = Some (length s, []) \<and>
       strtol 10 s = (- 2147483648, [], False)"
  using fmt_int_roundtrip [of 10 "0x80000000 :: u32"] by simp

lemma zero_padded_hex:
  assumes "v < 16 ^ k" "0 < k"
  shows "foldl (\<lambda>a c. a * 16 + the (digit_val c)) 0
           (replicate (k - length (digits_of 16 v)) CHR ''0'' @ digits_of 16 v) = v"
proof -
  have z: "foldl (\<lambda>a c. a * 16 + the (digit_val c)) 0 (replicate n CHR ''0'') = 0" for n
    by (induction n) (auto simp: digit_val_def isdigit_def)
  show ?thesis by (simp add: z digits_of_value)
qed

text \<open>
  A time stamp with a non-negative second and a microsecond below one million is always
  \<^verbatim>\<open>@\<close> and 24 hexadecimal columns (so the assertion on the 16 columns of the seconds cannot
  fail); the columns hold the seconds plus $2^{62}$ and the nanoseconds.
\<close>

lemma fmt_tai64n_layout:
  assumes "0 \<le> sint tv_sec" "unat tv_usec < 1000000"
  shows "\<exists>secs frac. fmt_tai64n tv_sec tv_usec = Some (25, CHR ''@'' # secs @ frac) \<and>
           length secs = 16 \<and> length frac = 8 \<and>
           foldl (\<lambda>a c. a * 16 + the (digit_val c)) 0 secs = 2 ^ 62 + unat tv_sec \<and>
           foldl (\<lambda>a c. a * 16 + the (digit_val c)) 0 frac = 1000 * unat tv_usec"
proof -
  let ?t = "push_bit 62 1 + tv_sec" and ?n = "ucast (tv_usec * 1000) :: u32"
  have "sint tv_sec < 2 ^ 63" using sint_lt [of tv_sec] by simp
  then have sec: "unat tv_sec < 2 ^ 63" using assms(1) by (simp add: unat_sint nat_less_iff)
  then have t: "unat ?t = 2 ^ 62 + unat tv_sec"
    by (simp add: unat_word_ariths push_bit_eq_mult)
  have n: "unat ?n = 1000 * unat tv_usec"
    using assms(2) by (simp add: unat_word_ariths unsigned_ucast_eq take_bit_nat_eq_self)
  have lt: "length (digits_of 16 (unat ?t)) = 16"
    using power_le_length_digits_of [of 16 15 "unat ?t"] length_digits_of [of 16 "unat ?t" 16] t sec
    by simp
  have ln: "length (digits_of 16 (unat ?n)) \<le> 8"
    using length_digits_of [of 16 "unat ?n" 8] n assms(2) by simp
  have "foldl (\<lambda>a c. a * 16 + the (digit_val c)) 0
      (replicate (8 - length (digits_of 16 (unat ?n))) CHR ''0'' @ digits_of 16 (unat ?n)) = unat ?n"
    using zero_padded_hex [of "unat ?n" 8] n assms(2) by simp
  then show ?thesis using lt ln t n
    by (intro exI [of _ "digits_of 16 (unat ?t)"]
        exI [of _ "replicate (8 - length (digits_of 16 (unat ?n))) CHR ''0'' @ digits_of 16 (unat ?n)"])
      (simp add: fmt_tai64n_def Let_def fmt_xuint_result [of 8] fmt_xuint_result [of 4]
        fmt_result_def digits_of_value)
qed

lemma fmt_tai64n_layout_example:
  "\<exists>secs frac. fmt_tai64n 1066262400 999999 = Some (25, CHR ''@'' # secs @ frac) \<and>
     length secs = 16 \<and> length frac = 8 \<and>
     foldl (\<lambda>a c. a * 16 + the (digit_val c)) 0 secs = 4611686019493650304 \<and>
     foldl (\<lambda>a c. a * 16 + the (digit_val c)) 0 frac = 999999000"
  using fmt_tai64n_layout [of 1066262400 999999] by simp

text \<open>
  \<^verbatim>\<open>WRITE_INT\<close> never overruns its stack buffer: at most 11 of the 14 bytes are used,
  and the text denotes the number.
\<close>

lemma WRITE_INT_fits:
  "\<exists>s. WRITE_INT num = Some s \<and> length s \<le> 11 \<and> strtol 10 s = (sint num, [], False)"
proof -
  let ?v = "scast num :: u64" and ?s = "signed_digits 10 (sint num)"
  have v: "sint ?v = sint num" by (rule sint_up_scast) (simp add: is_up)
  have b: "- (2 ^ 31) \<le> sint num" "sint num < 2 ^ 31"
    using sint_ge [of num] sint_lt [of num] by simp_all
  then have "strtol 10 ?s = (sint num, [], False)"
    by (intro strtol_signed_digits) (simp_all add: LONG_MIN_def LONG_MAX_def)
  moreover have "length ?s \<le> 11"
    using b length_digits_of [of 10 "nat (- sint num)" 10] length_digits_of [of 10 "nat (sint num)" 10]
    by (auto simp: signed_digits_def nat_less_iff)
  ultimately show ?thesis
    by (intro exI [of _ ?s])
      (simp add: WRITE_INT_def fmt_int_def sizeof_val_def fmt_int_base_text [of 8] v)
qed

end
