(* ===== verification/NumParse.thy ===== *)
theory NumParse
  imports Fmt
begin

text \<open>
  Numbers and identifiers on the command line and in configuration files: the checked number
  parsers of \<^verbatim>\<open>lib_internal\<close> (\<^verbatim>\<open>isNumber\<close>, \<^verbatim>\<open>isNumberUnsigned\<close>), limits with their unit
  suffixes, the three identifier options, context types, the kernel version and the feature tests
  of \<^verbatim>\<open>lib/\<close>. Answers of the kernel (\<^verbatim>\<open>uname\<close>, the version and configuration words, the task's
  own context) and the lookup of a guest's configured context are parameters.
\<close>

section \<open>Checked numbers\<close>

text \<open>The \<^verbatim>\<open>switch (*errptr)\<close> of \<^verbatim>\<open>ENSC_DECL_UTIL_ISNUMBER\<close> with its fall-throughs.\<close>

definition unit_suffix :: "cstr \<Rightarrow> nat \<times> cstr" where
  "unit_suffix s =
     (if deref s = CHR ''M'' then (1024 * 1024, tl s)
      else if deref s = CHR ''K'' then (1024, tl s)
      else if deref s = CHR ''m'' then (1000 * 1000, tl s)
      else if deref s = CHR ''k'' then (1000, tl s)
      else (1, s))"

definition checkConstraints_signed :: "int \<Rightarrow> nat \<Rightarrow> bool" where
  "checkConstraints_signed val fac =
     (if val > 0 \<and> LONG_MAX div int fac \<le> val then False
      else if val < 0 \<and> - (- LONG_MIN div int fac) \<ge> val then False
      else True)"

definition checkConstraints_unsigned :: "int \<Rightarrow> nat \<Rightarrow> bool" where
  "checkConstraints_unsigned val fac =
     (if val > LONG_MAX then False
      else if ULONG_MAX div int fac \<le> val then False
      else True)"

text \<open>The macro, with the conversion function and the range check of its two instances.\<close>

definition UTIL_ISNUMBER ::
  "(nat \<Rightarrow> cstr \<Rightarrow> int \<times> cstr \<times> bool) \<Rightarrow> (int \<Rightarrow> nat \<Rightarrow> bool) \<Rightarrow> cstr \<Rightarrow> bool \<Rightarrow> int option" where
  "UTIL_ISNUMBER func check str is_strict =
     (let (val, errptr, erange) = func 0 str
      in if erange then None
         else
           (let (fac, errptr') =
              (if strto_converted 0 str \<and> \<not> is_strict then unit_suffix errptr else (1, errptr))
            in if \<not> check val fac then None
               else if errptr' \<noteq> [] \<or> \<not> strto_converted 0 str then None
               else Some (val * int fac)))"

definition isNumber :: "cstr \<Rightarrow> bool \<Rightarrow> int option" where
  "isNumber = UTIL_ISNUMBER strtol checkConstraints_signed"

definition isNumberUnsigned :: "cstr \<Rightarrow> bool \<Rightarrow> int option" where
  "isNumberUnsigned = UTIL_ISNUMBER strtoul checkConstraints_unsigned"

section \<open>Limits\<close>

definition VC_LIM_INFINITY :: u64 where "VC_LIM_INFINITY = - 1"
definition VC_LIM_KEEP :: u64 where "VC_LIM_KEEP = - 2"

text \<open>The value stored through \<^verbatim>\<open>res\<close> and the return value.\<close>

definition vc_parseLimit :: "cstr \<Rightarrow> u64 \<times> bool" where
  "vc_parseLimit buf =
     (if strncmp 3 buf ''inf'' = 0 then (VC_LIM_INFINITY, True)
      else
        (let (val, errptr, _) = strtol 0 buf;
             (fac, errptr') = (if strto_converted 0 buf then unit_suffix errptr else (1, errptr))
         in (word_of_int val * of_nat fac,
             strto_converted 0 buf \<and> (errptr' = [] \<or> deref errptr' = NL))))"

section \<open>Identifier options\<close>

definition VC_NOCTX :: xid_t where "VC_NOCTX = - 1"
definition VC_SAMECTX :: xid_t where "VC_SAMECTX = - 2"

datatype vcCtxType = vcCTX_XID | vcCTX_NID | vcCTX_TAG

text \<open>
  \<open>task\<close> is the identifier of the calling task and \<open>getctx\<close> stands for \<^verbatim>\<open>vc_getVserverCtx\<close> with
  automatic style; the second component is what is stored through \<^verbatim>\<open>err_info\<close>.
\<close>

definition id_option ::
  "vcCtxType \<Rightarrow> cstr \<Rightarrow> xid_t \<Rightarrow> (cstr \<Rightarrow> bool \<Rightarrow> vcCtxType \<Rightarrow> xid_t) \<Rightarrow> cstr \<Rightarrow> bool \<Rightarrow>
   xid_t \<times> cstr option" where
  "id_option ty self_err task getctx str honor_static =
     (let (res, err) =
        (if strcmp str ''self'' = 0 then (task, self_err)
         else if deref str = CHR '':'' then (getctx (tl str) honor_static ty, ''vc_getVserverCtx'')
         else
           (let (val, endptr, _) = strtol 10 str
            in if strto_converted 10 str \<and> (endptr = [] \<or> deref endptr = NL)
               then (word_of_int val, self_err)
               else (getctx str honor_static ty, ''vc_getVserverCtx'')))
      in (res, if res = VC_NOCTX then Some err else None))"

definition vc_xidopt2xid where
  "vc_xidopt2xid = id_option vcCTX_XID ''vc_get_task_xid()''"

definition vc_nidopt2nid where
  "vc_nidopt2nid = id_option vcCTX_NID ''vc_get_task_nid()''"

definition vc_tagopt2tag where
  "vc_tagopt2tag = id_option vcCTX_TAG ''vc_task_tag()''"

section \<open>Features and context types\<close>

datatype vcFeatureSet =
    vcFEATURE_VKILL | vcFEATURE_IATTR | vcFEATURE_RLIMIT | vcFEATURE_COMPAT | vcFEATURE_MIGRATE
  | vcFEATURE_NAMESPACE | vcFEATURE_SCHED | vcFEATURE_VINFO | vcFEATURE_VHI | vcFEATURE_VSHELPER0
  | vcFEATURE_VSHELPER | vcFEATURE_VWAIT | vcFEATURE_VNET | vcFEATURE_VSTAT | vcFEATURE_PPTAG
  | vcFEATURE_PIDSPACE | vcFEATURE_SPACES | vcFEATURE_PERSISTENT | vcFEATURE_PIVOT_ROOT
  | vcFEATURE_MEMCG | vcFEATURE_DYNAMIC | vcFEATURE_BME

definition VC_VCI_NO_DYNAMIC :: nat where "VC_VCI_NO_DYNAMIC = 0"
definition VC_VCI_SPACES :: nat where "VC_VCI_SPACES = 10"
definition VC_VCI_MEMCG :: nat where "VC_VCI_MEMCG = 12"
definition VC_VCI_PPTAG :: nat where "VC_VCI_PPTAG = 28"

text \<open>The answers of the kernel that the feature test reads.\<close>

record kernel_info =
  k_version :: int
  k_vci :: u64
  k_linux :: int

fun supported :: "int \<Rightarrow> u64 \<Rightarrow> int \<Rightarrow> vcFeatureSet \<Rightarrow> bool" where
  "supported ver conf lin vcFEATURE_COMPAT = True"
| "supported ver conf lin vcFEATURE_VSHELPER0 = (ver \<ge> 0x00010000 \<and> ver < 0x00010010)"
| "supported ver conf lin vcFEATURE_VSHELPER = (ver \<ge> 0x00010000)"
| "supported ver conf lin vcFEATURE_VKILL = (ver \<ge> 0x00010004)"
| "supported ver conf lin vcFEATURE_RLIMIT = (ver \<ge> 0x00010004)"
| "supported ver conf lin vcFEATURE_VINFO = (ver \<ge> 0x00010010)"
| "supported ver conf lin vcFEATURE_VHI = (ver \<ge> 0x00010010)"
| "supported ver conf lin vcFEATURE_IATTR = (ver \<ge> 0x00010011)"
| "supported ver conf lin vcFEATURE_MIGRATE = (ver \<ge> 0x00010012)"
| "supported ver conf lin vcFEATURE_NAMESPACE = (ver \<ge> 0x00010012)"
| "supported ver conf lin vcFEATURE_VWAIT = (ver \<ge> 0x00010025)"
| "supported ver conf lin vcFEATURE_SCHED = (ver \<ge> 0x00020000)"
| "supported ver conf lin vcFEATURE_VNET = (ver \<ge> 0x00020001)"
| "supported ver conf lin vcFEATURE_PERSISTENT = (ver \<ge> 0x00020002)"
| "supported ver conf lin vcFEATURE_VSTAT = (ver \<ge> 0x00020103 \<and> ver < 0x00020306)"
| "supported ver conf lin vcFEATURE_PPTAG = bit conf VC_VCI_PPTAG"
| "supported ver conf lin vcFEATURE_SPACES = bit conf VC_VCI_SPACES"
| "supported ver conf lin vcFEATURE_PIVOT_ROOT = (ver \<ge> 0x00020304)"
| "supported ver conf lin vcFEATURE_PIDSPACE = False"
| "supported ver conf lin vcFEATURE_MEMCG = (ver \<ge> 0x00020306 \<and> bit conf VC_VCI_MEMCG)"
| "supported ver conf lin vcFEATURE_DYNAMIC = (ver < 0x00020300 \<or> \<not> bit conf VC_VCI_NO_DYNAMIC)"
| "supported ver conf lin vcFEATURE_BME = (lin < 0x0002061a)"

definition vc_isSupported :: "kernel_info \<Rightarrow> vcFeatureSet \<Rightarrow> bool" where
  "vc_isSupported k feature =
     (let ver = k_version k; conf = k_vci k; linux_ver = k_linux k
      in if ver = - 1 then False
         else let conf = (if conf = - 1 then 0 else conf)
              in supported ver conf linux_ver feature)"

definition FEATURES :: "(vcFeatureSet \<times> cstr) list" where
  "FEATURES =
     [(vcFEATURE_VKILL, ''VKILL''), (vcFEATURE_IATTR, ''IATTR''),
      (vcFEATURE_RLIMIT, ''RLIMIT''), (vcFEATURE_COMPAT, ''COMPAT''),
      (vcFEATURE_MIGRATE, ''MIGRATE''), (vcFEATURE_NAMESPACE, ''NAMESPACE''),
      (vcFEATURE_SCHED, ''SCHED''), (vcFEATURE_VINFO, ''VINFO''),
      (vcFEATURE_VHI, ''VHI''), (vcFEATURE_VSHELPER0, ''VSHELPER0''),
      (vcFEATURE_VSHELPER, ''VSHELPER''), (vcFEATURE_VWAIT, ''VWAIT''),
      (vcFEATURE_VNET, ''VNET''), (vcFEATURE_VSTAT, ''VSTAT''),
      (vcFEATURE_PPTAG, ''PPTAG''), (vcFEATURE_PIDSPACE, ''PIDSPACE''),
      (vcFEATURE_SPACES, ''SPACES''), (vcFEATURE_PERSISTENT, ''PERSISTENT''),
      (vcFEATURE_PIVOT_ROOT, ''PIVOT_ROOT''), (vcFEATURE_MEMCG, ''MEMCG''),
      (vcFEATURE_DYNAMIC, ''DYNAMIC''), (vcFEATURE_BME, ''BME'')]"

fun search_feature :: "kernel_info \<Rightarrow> cstr \<Rightarrow> (vcFeatureSet \<times> cstr) list \<Rightarrow> bool" where
  "search_feature k str [] = False"
| "search_feature k str ((f, name) # fs) =
     (if strcasecmp name str = 0 then vc_isSupported k f else search_feature k str fs)"

definition vc_isSupportedString :: "kernel_info \<Rightarrow> cstr \<Rightarrow> bool" where
  "vc_isSupportedString k str = search_feature k str FEATURES"

text \<open>
  \<^verbatim>\<open>utilvserver_checkCompatConfig\<close> caches its answer in a static variable; the new value of the
  variable is returned beside the result.
\<close>

definition checkCompatConfig :: "u64 \<Rightarrow> u32 \<Rightarrow> u32 \<times> u32" where
  "checkCompatConfig vci res =
     (let res' = (if res = 0 then (let r = ucast vci :: u32 in if r = - 1 then 0 else r) else res)
      in (res', res'))"

text \<open>\<^verbatim>\<open>utilvserver_checkCompatVersion\<close> likewise; the kernel's answer comes with \<^verbatim>\<open>errno\<close>.\<close>

definition checkCompatVersion :: "bool \<Rightarrow> int \<times> errno \<Rightarrow> int \<times> errno \<Rightarrow> int \<times> (int \<times> errno)" where
  "checkCompatVersion legacy answer st =
     (let (res, v_errno) = st;
          st' = (if res = 0
                 then (let (r, e) = answer
                       in (if legacy \<and> r = - 1 \<and> (e = ENOSYS \<or> e = EINVAL) then 0 else r, e))
                 else (res, v_errno))
      in (fst st', st'))"

datatype vcXidType = vcTYPE_INVALID | vcTYPE_MAIN | vcTYPE_WATCH | vcTYPE_STATIC | vcTYPE_DYNAMIC

definition MAX_S_CONTEXT :: xid_t where "MAX_S_CONTEXT = 65535"

text \<open>\<open>min_d\<close> is the static variable \<^verbatim>\<open>MIN_D_CONTEXT\<close>, initially 0; \<open>config\<close> the compat configuration.\<close>

definition vc_getXIDType :: "u32 \<Rightarrow> xid_t \<Rightarrow> xid_t \<Rightarrow> vcXidType \<times> xid_t" where
  "vc_getXIDType config xid min_d =
     (let min_d' = (if min_d = 0 \<and> \<not> bit config VC_VCI_NO_DYNAMIC then 49152 else MAX_S_CONTEXT + 1)
      in (if xid = 0 then vcTYPE_MAIN
          else if xid = 1 then vcTYPE_WATCH
          else if xid > 1 \<and> xid < min_d' then vcTYPE_STATIC
          else if xid \<ge> min_d' \<and> xid < MAX_S_CONTEXT then vcTYPE_DYNAMIC
          else vcTYPE_INVALID, min_d'))"

definition vc_is_dynamic_xid :: "u32 \<Rightarrow> xid_t \<Rightarrow> xid_t \<Rightarrow> bool \<times> xid_t" where
  "vc_is_dynamic_xid config xid min_d =
     (let (ty, min_d') = vc_getXIDType config xid min_d in (ty = vcTYPE_DYNAMIC, min_d'))"

section \<open>Kernel version\<close>

text \<open>
  The loop over \<^verbatim>\<open>uts.release\<close>: the part number, the number being read and the version
  accumulated so far. The \<^verbatim>\<open>int\<close> variables are kept as their 32-bit patterns.
\<close>

fun kernel_loop :: "nat \<Rightarrow> u32 \<Rightarrow> u32 \<Rightarrow> cstr \<Rightarrow> nat \<times> u32 \<times> u32" where
  "kernel_loop part n ver [] = (part, n, ver)"
| "kernel_loop part n ver (c # p) =
     (if \<not> part < 3 then (part, n, ver)
      else if c = CHR ''.'' then kernel_loop (part + 1) 0 (ver OR push_bit (8 * (2 - part)) n) p
      else if isdigit c then kernel_loop part (n * 10 + of_nat (code c - 48)) ver p
      else (part, n, ver))"

definition kernel_version :: "cstr \<Rightarrow> u32" where
  "kernel_version release =
     (let (part, n, ver) = kernel_loop 0 0 0 release
      in if 0 <s n \<and> part < 3 then ver OR push_bit (8 * (2 - part)) n else ver)"

text \<open>\<^verbatim>\<open>vc_get_kernel\<close> with its static cache; \<open>uname\<close> is \<open>None\<close> when the call fails.\<close>

definition vc_get_kernel :: "cstr option \<Rightarrow> u32 \<Rightarrow> u32 \<times> u32" where
  "vc_get_kernel uname linux_ver =
     (if linux_ver = - 1
      then (case uname of None \<Rightarrow> (- 1, linux_ver)
            | Some release \<Rightarrow> (let v = kernel_version release in (v, v)))
      else (linux_ver, linux_ver))"

section \<open>Insecure capabilities and file contexts\<close>

definition caps_kept :: "kernel_info \<Rightarrow> nat list" where
  "caps_kept k =
     [0, 1, 2, 3, 4, 5, 6, 7, 10, 18, 19, 26, 28, 31] @
     (if vc_isSupported k vcFEATURE_VSHELPER then [22] else []) @
     (if vc_isSupported k vcFEATURE_MIGRATE then [29] else [])"

text \<open>The shifts and the complement are computed in \<^verbatim>\<open>int\<close> and converted to 64 bits at the end.\<close>

definition vc_get_insecurebcaps :: "kernel_info \<Rightarrow> u64" where
  "vc_get_insecurebcaps k =
     scast (NOT (foldr (\<lambda>c m. push_bit c 1 OR m) (caps_kept k) 0) :: u32)"

definition VC_IATTR_XID :: u32 where "VC_IATTR_XID = 0x01000000"

text \<open>\<open>get_iattr\<close> is \<^verbatim>\<open>vc_get_iattr\<close>: nothing on error, else the context and the mask it set.\<close>

definition vc_getfilecontext :: "(cstr \<Rightarrow> u32 \<Rightarrow> (xid_t \<times> u32) option) \<Rightarrow> cstr \<Rightarrow> xid_t" where
  "vc_getfilecontext get_iattr filename =
     (case get_iattr filename VC_IATTR_XID of
        None \<Rightarrow> VC_NOCTX
      | Some (res, m) \<Rightarrow>
          if m AND VC_IATTR_XID \<noteq> 0 \<and> res \<noteq> VC_NOCTX then res else VC_NOCTX)"

section \<open>Reading decimal numbers with a suffix\<close>

text \<open>What may follow a decimal number without being read as part of it.\<close>

definition after_number :: "cstr \<Rightarrow> bool" where
  "after_number r \<longleftrightarrow> r = [] \<or> \<not> is_base_digit 10 (hd r) \<and> tolower (hd r) \<noteq> CHR ''x''"

lemma strto_scan_auto_digits:
  assumes r: "after_number r"
  shows "strto_scan 0 (digits_of 10 v @ r) = Some (False, v, r)"
proof -
  obtain c s where cs: "digits_of 10 v = c # s" by (cases "digits_of 10 v") auto
  have dig: "\<forall>c \<in> set (digits_of 10 v). is_base_digit 10 c" by (simp add: digits_of_base_digit)
  have stop: "r = [] \<or> \<not> is_base_digit 10 (hd r)" using r by (auto simp: after_number_def)
  show ?thesis
  proof (cases "v = 0")
    case True
    have stop8: "r = [] \<or> \<not> is_base_digit 8 (hd r)"
      using stop by (auto simp: is_base_digit_def split: option.splits)
    have "\<not> has_hex_prefix (CHR ''0'' # r)"
      using r by (auto simp: has_hex_prefix_def after_number_def split: list.splits)
    moreover have z: "is_base_digit 8 CHR ''0''" "digit_val CHR ''0'' = Some 0" by code_simp+
    moreover have "scan_digits 8 0 (CHR ''0'' # r) = (0, r)"
      using stop8 z by (cases r) auto
    ultimately show ?thesis using True by (simp add: digits_of_small DIGITS_def strto_scan_def Let_def)
  next
    case False
    have c0: "c \<noteq> CHR ''0''" using digits_of_hd_nonzero [of 10 v] False by (simp add: cs)
    moreover have "is_base_digit 10 c" using dig by (simp add: cs)
    moreover have "\<not> has_hex_prefix (c # s @ r)"
      using c0 by (auto simp: has_hex_prefix_def split: list.splits)
    moreover have "scan_digits 10 0 (c # s @ r) = (v, r)"
      using scan_digits_all [OF dig stop, of 0] digits_of_value [of 10 v] by (simp add: cs)
    ultimately show ?thesis by (simp add: strto_scan_def cs Let_def)
  qed
qed

lemma strto_scan_auto_signed:
  assumes r: "after_number r"
  shows "strto_scan 0 (signed_digits 10 x @ r) = Some (x < 0, nat \<bar>x\<bar>, r)"
proof (cases "x < 0")
  case False
  then show ?thesis using strto_scan_auto_digits [OF r, of "nat x"] by (simp add: signed_digits_def)
next
  case True
  obtain c s where cs: "digits_of 10 (nat (- x)) = c # s" by (cases "digits_of 10 (nat (- x))") auto
  have "is_base_digit 10 c" using digits_of_base_digit [of 10 "nat (- x)"] by (simp add: cs)
  then have "is_base_digit 36 c" by (auto simp: is_base_digit_def split: option.splits)
  then show ?thesis
    using strto_scan_minus [of "c # s @ r" c "s @ r" 0] strto_scan_auto_digits [OF r, of "nat (- x)"] True
    by (simp add: signed_digits_def cs)
qed

lemma strtol_auto_signed:
  assumes "after_number r"
  shows "strtol 0 (signed_digits 10 x @ r) =
    (if x > LONG_MAX then (LONG_MAX, r, True) else if x < LONG_MIN then (LONG_MIN, r, True)
     else (x, r, False))"
  using strto_scan_auto_signed [OF assms, of x] by (auto simp: strtol_def Let_def)

text \<open>The unit suffixes and their factors.\<close>

definition UNITS :: "(cstr \<times> int) list" where
  "UNITS = [([], 1), (''K'', 1024), (''M'', 1024 * 1024), (''k'', 1000), (''m'', 1000 * 1000)]"

lemma unit_letters:
  "\<forall>c \<in> {CHR ''K'', CHR ''M'', CHR ''k'', CHR ''m'', NL}.
     \<not> is_base_digit 10 c \<and> tolower c \<noteq> CHR ''x''"
  by code_simp

lemma UNITS_facts:
  assumes "(u, f) \<in> set UNITS" "nl = [] \<or> nl = [NL]"
  shows "unit_suffix (u @ nl) = (nat f, nl)" "after_number (u @ nl)" "1 \<le> f" "f \<le> 1048576"
  using assms unit_letters by (auto simp: UNITS_def unit_suffix_def after_number_def)

lemma div_mult_less:
  fixes a b c :: int
  assumes "0 < c" "a < b div c"
  shows "a * c < b"
proof -
  have "a * c < b div c * c" using assms by simp
  also have "\<dots> \<le> b" using assms(1) by (simp add: mult.commute minus_mod_eq_mult_div [symmetric])
  finally show ?thesis .
qed

lemma div_le_self_int: "1 \<le> f \<Longrightarrow> 0 \<le> b \<Longrightarrow> b div f \<le> (b::int)"
  using int_div_less_self [of b f] by (cases "b = 0"; cases "f = 1") auto

section \<open>The release string\<close>

lemma isdigit_base10: "is_base_digit 10 c \<longleftrightarrow> isdigit c"
  by (auto simp: is_base_digit_def digit_val_def isdigit_def islower_def isupper_def)

lemma digit_val_isdigit: "isdigit c \<Longrightarrow> the (digit_val c) = code c - 48"
  by (simp add: digit_val_def)

lemma kernel_loop_digits:
  assumes "part < 3" "\<forall>c \<in> set s. isdigit c"
  shows "kernel_loop part (of_nat n) ver (s @ r) =
    kernel_loop part (of_nat (foldl (\<lambda>a c. a * 10 + the (digit_val c)) n s)) ver r"
  using assms(2)
proof (induction s arbitrary: n)
  case Nil
  then show ?case by simp
next
  case (Cons c s)
  have "c \<noteq> CHR ''.''" using Cons.prems by (auto simp: isdigit_def)
  then show ?case
    using Cons.IH [of "n * 10 + the (digit_val c)"] Cons.prems assms(1)
    by (simp add: digit_val_isdigit)
qed

lemma kernel_loop_decimal:
  "part < 3 \<Longrightarrow> kernel_loop part 0 ver (digits_of 10 n @ r) = kernel_loop part (of_nat n) ver r"
  using kernel_loop_digits [of part "digits_of 10 n" 0 ver r] digits_of_base_digit [of 10 n]
    digits_of_value [of 10 n]
  by (simp add: isdigit_base10)

lemma kernel_loop_stop:
  "rest = [] \<or> \<not> isdigit (hd rest) \<and> hd rest \<noteq> CHR ''.'' \<Longrightarrow> kernel_loop part n ver rest = (part, n, ver)"
  by (cases rest) auto

text \<open>Byte-sized parts land in disjoint bytes.\<close>

lemma byte_shift_or:
  assumes "a < 256" "b < 256" "c < 256"
  shows "push_bit 16 (of_nat a) OR push_bit 8 (of_nat b) OR (of_nat c :: u32) =
    of_nat (a * 65536 + b * 256 + c)"
proof -
  have "push_bit 16 a OR push_bit 8 b OR c = a * 65536 + b * 256 + (c::nat)"
  proof -
    have b8: "\<not> bit x n" if "x < 256" "8 \<le> n" for x n :: nat
    proof -
      have "x < 2 ^ n" using that(1) power_increasing [OF that(2), of "2::nat"] by simp
      then show ?thesis by (simp add: bit_iff_odd)
    qed
    have s1: "push_bit 8 b AND c = 0"
      by (rule bit_eqI) (use assms b8 [of c] in \<open>auto simp: bit_simps\<close>)
    have s2: "push_bit 16 a AND (push_bit 8 b OR c) = 0"
      by (rule bit_eqI) (use assms b8 [of c] b8 [of b] in \<open>auto simp: bit_simps\<close>)
    have "push_bit 16 a + (push_bit 8 b + c) = push_bit 16 a OR (push_bit 8 b OR c)"
      using s1 s2 by (simp add: disjunctive_add_eq_or)
    then show ?thesis by (simp add: push_bit_eq_mult or.assoc)
  qed
  then have "(of_nat (push_bit 16 a OR push_bit 8 b OR c) :: u32) = of_nat (a * 65536 + b * 256 + c)"
    by simp
  then show ?thesis by (simp only: of_nat_or_eq of_nat_push_bit)
qed

lemma bit_foldr_or:
  "bit (foldr (\<lambda>c m. push_bit c 1 OR m) cs (0 :: 'w::len word)) n \<longleftrightarrow> n \<in> set cs \<and> n < LENGTH('w)"
  by (induction cs) (auto simp: bit_simps)

lemma caps_kept_31: "31 \<in> set (caps_kept k)"
  by (simp add: caps_kept_def)

section \<open>Properties\<close>

text \<open>
  C30. Soundness of \<^verbatim>\<open>isNumber\<close>: a number it accepts is the exact product of the number that was
  read and the unit factor, the whole string was read, and the product lies strictly inside the
  range of \<^verbatim>\<open>long\<close>; no accepted input overflows.\<close>

theorem isNumber_sound:
  assumes "isNumber str strict = Some x"
  shows "LONG_MIN < x \<and> x < LONG_MAX \<and>
    (\<exists>neg n r fac. strto_scan 0 str = Some (neg, n, r) \<and>
       (if strict then fac = 1 \<and> r = [] else unit_suffix r = (fac, [])) \<and>
       x = (if neg then - int n else int n) * int fac)"
proof -
  obtain neg n r where sc: "strto_scan 0 str = Some (neg, n, r)"
    using assms by (cases "strto_scan 0 str") (auto simp: isNumber_def UTIL_ISNUMBER_def strtol_def
        strto_converted_def Let_def split: if_splits prod.splits)
  let ?v = "if neg then - int n else int n"
  obtain fac r' where fr: "(if strict then (1, r) else unit_suffix r) = (fac, r')" by fastforce
  have v: "strtol 0 str = (?v, r, False)" "checkConstraints_signed ?v fac" "r' = []" "x = ?v * int fac"
    using assms sc fr by (auto simp: isNumber_def UTIL_ISNUMBER_def strtol_def strto_converted_def Let_def
        split: if_splits prod.splits)
  have fac: "1 \<le> fac" using fr by (auto simp: unit_suffix_def split: if_splits)
  have pos: "?v > 0 \<Longrightarrow> ?v * int fac < LONG_MAX"
    using v(2) fac div_mult_less [of "int fac" ?v LONG_MAX] by (auto simp: checkConstraints_signed_def split: if_splits)
  have neg: "?v < 0 \<Longrightarrow> - ?v * int fac < - LONG_MIN"
    using v(2) fac div_mult_less [of "int fac" "- ?v" "- LONG_MIN"]
    by (auto simp: checkConstraints_signed_def split: if_splits)
  have "LONG_MIN < 0" "0 < LONG_MAX" by (simp_all add: LONG_MIN_def LONG_MAX_def)
  moreover have "?v < 0 \<Longrightarrow> ?v * int fac \<le> 0" "?v > 0 \<Longrightarrow> 0 \<le> ?v * int fac" "?v = 0 \<Longrightarrow> ?v * int fac = 0"
    by (auto simp: mult_nonpos_nonneg)
  ultimately have "LONG_MIN < x \<and> x < LONG_MAX"
    unfolding v(4) using pos neg by linarith
  then show ?thesis using sc fr v(3,4) by (auto split: if_splits)
qed

theorem isNumber_sound_witness:
  "isNumber ''-12K'' False = Some (- 12288) \<and> LONG_MIN < (- 12288)"
proof -
  have "isNumber ''-12K'' False = Some (- 12288)" by code_simp
  then show ?thesis using isNumber_sound [of "''-12K''" False "- 12288"] by simp
qed

text \<open>
  Completeness of \<^verbatim>\<open>isNumber\<close>: the decimal text of any integer followed by one of the unit
  suffixes is accepted exactly when the number is below the range divided by the unit, and then
  yields the product.\<close>

lemma isNumber_decimal:
  assumes "(u, f) \<in> set UNITS"
  shows "isNumber (signed_digits 10 x @ u) False =
    (if - (2 ^ 63 div f) < x \<and> x < LONG_MAX div f then Some (x * f) else None)"
proof -
  have U: "unit_suffix u = (nat f, [])" "after_number u" "1 \<le> f" "f \<le> 1048576"
    using UNITS_facts [OF assms, of "[]"] by simp_all
  have conv: "strto_converted 0 (signed_digits 10 x @ u)"
    using strto_scan_auto_signed [OF U(2), of x] by (simp add: strto_converted_def)
  have le: "LONG_MAX div f \<le> LONG_MAX" "(2::int) ^ 63 div f \<le> 2 ^ 63" "0 < LONG_MAX div f" "0 < (2::int) ^ 63 div f"
    using U(3,4) div_le_self_int [of f] by (auto simp: LONG_MAX_def pos_imp_zdiv_pos_iff)
  show ?thesis
    using strtol_auto_signed [OF U(2), of x] U(1,3) conv le
    by (auto simp: isNumber_def UTIL_ISNUMBER_def checkConstraints_signed_def LONG_MIN_def)
qed

lemma isNumber_decimal_example:
  "isNumber (signed_digits 10 7 @ ''M'') False = Some 7340032"
  using isNumber_decimal [of "''M''" "1024 * 1024" 7] by (simp add: UNITS_def LONG_MAX_def)

text \<open>
  \<^verbatim>\<open>vc_parseLimit\<close> reads the decimal text of a limit with an optional unit and an optional
  newline as the product, reduced modulo the 64 bits of a limit: a product that does not fit is
  accepted as its remainder.\<close>

lemma vc_parseLimit_decimal:
  assumes "(u, f) \<in> set UNITS" "nl = [] \<or> nl = [NL]" "int n \<le> LONG_MAX"
  shows "vc_parseLimit (digits_of 10 n @ u @ nl) = (of_nat (n * nat f), True)"
proof -
  have un: "unit_suffix (u @ nl) = (nat f, nl)" "after_number (u @ nl)"
    using UNITS_facts [OF assms(1,2)] by auto
  have sc: "strto_scan 0 (digits_of 10 n @ u @ nl) = Some (False, n, u @ nl)"
    using un(2) by (rule strto_scan_auto_digits)
  obtain c s where cs: "digits_of 10 n = c # s" by (cases "digits_of 10 n") auto
  have "is_base_digit 10 c" using digits_of_base_digit [of 10 n] by (simp add: cs)
  then have "code c \<noteq> 105"
    by (auto simp: is_base_digit_def digit_val_def isdigit_def islower_def isupper_def split: if_splits)
  then have "strncmp 3 (digits_of 10 n @ u @ nl) ''inf'' \<noteq> 0"
    by (auto simp: cs numeral_3_eq_3)
  then show ?thesis using sc un assms(2,3)
    by (auto simp: vc_parseLimit_def strtol_def strto_converted_def LONG_MIN_def Let_def)
qed

lemma vc_parseLimit_decimal_example:
  "vc_parseLimit (digits_of 10 18014398509481984 @ ''K'' @ []) = (0, True)"
  using vc_parseLimit_decimal [of "''K''" 1024 "[]" 18014398509481984]
  by (simp add: UNITS_def LONG_MAX_def)

text \<open>
  A release string of the form a.b.c, whatever follows the third number, is packed into
  one byte per number.\<close>

lemma kernel_version_release:
  assumes "a < 256" "b < 256" "c < 256"
    and "rest = [] \<or> \<not> isdigit (hd rest) \<and> hd rest \<noteq> CHR ''.''"
  shows "vc_get_kernel (Some (digits_of 10 a @ ''.'' @ digits_of 10 b @ ''.'' @ digits_of 10 c @ rest)) (- 1) =
    (let v = of_nat (a * 65536 + b * 256 + c) in (v, v))"
proof -
  let ?rel = "digits_of 10 a @ ''.'' @ digits_of 10 b @ ''.'' @ digits_of 10 c @ rest"
  have l: "kernel_loop 0 0 0 ?rel =
      (2, of_nat c, push_bit 16 (of_nat a) OR push_bit 8 (of_nat b))"
    using kernel_loop_stop [OF assms(4)] by (simp add: kernel_loop_decimal numeral_2_eq_2)
  have "(0 :: u32) <s of_nat c \<longleftrightarrow> c \<noteq> 0"
  proof -
    have "sint (of_nat c :: u32) = int c"
      using assms(3) by (simp add: sint_uint unsigned_of_nat take_bit_nat_eq_self signed_take_bit_int_eq_self of_nat_take_bit)
    then show ?thesis by (simp add: word_sless_alt)
  qed
  then have "kernel_version ?rel = of_nat (a * 65536 + b * 256 + c)"
    using l byte_shift_or [OF assms(1-3)] by (cases "c = 0") (simp_all add: kernel_version_def or.assoc)
  then show ?thesis by (simp add: vc_get_kernel_def)
qed

lemma kernel_version_release_example:
  "vc_get_kernel (Some (digits_of 10 2 @ ''.'' @ digits_of 10 6 @ ''.'' @ digits_of 10 26 @ ''-vs2'')) (- 1) =
     (0x0002061a, 0x0002061a)"
  using kernel_version_release [of 2 6 26 "''-vs2''"] by (simp add: isdigit_def)

text \<open>
  The feature test by name agrees with the feature test by number: every feature has a name,
  and any spelling of it in upper or lower case is answered like the feature itself.\<close>

lemma vc_isSupportedString_agrees:
  "\<exists>name. (f, name) \<in> set FEATURES \<and>
     (\<forall>str. is_cstr str \<and> map tolower str = map tolower name \<longrightarrow>
        vc_isSupportedString k str = vc_isSupported k f)"
proof -
  have found: "search_feature k str fs = vc_isSupported k f"
    if "(f, name) \<in> set fs" "map tolower str = map tolower name" "is_cstr str"
      "\<forall>(g, n) \<in> set fs. is_cstr n" "distinct (map (map tolower \<circ> snd) fs)" for fs str name
    using that
  proof (induction fs)
    case (Cons gn fs)
    obtain g n where gn: "gn = (g, n)" by fastforce
    show ?case
    proof (cases "(f, name) = (g, n)")
      case True
      then show ?thesis using Cons.prems gn by (simp add: strcasecmp_0_iff)
    next
      case False
      then have "(f, name) \<in> set fs" using Cons.prems gn by auto
      moreover from this have "map tolower name \<noteq> map tolower n"
        using Cons.prems(5) gn by (auto simp: image_iff)
      ultimately show ?thesis using Cons gn by (simp add: strcasecmp_0_iff)
    qed
  qed simp
  have names: "\<forall>(g, n) \<in> set FEATURES. is_cstr n" by code_simp
  have dist: "distinct (map (map tolower \<circ> snd) FEATURES)" by code_simp
  have "\<exists>name. (f, name) \<in> set FEATURES" by (cases f) (auto simp: FEATURES_def)
  then obtain name where "(f, name) \<in> set FEATURES" ..
  then show ?thesis using found [OF _ _ _ names dist] by (auto simp: vc_isSupportedString_def)
qed

lemma vc_isSupportedString_agrees_example:
  "\<exists>name. (vcFEATURE_VHI, name) \<in> set FEATURES"
  using vc_isSupportedString_agrees [of vcFEATURE_VHI] by blast

text \<open>
  \<^verbatim>\<open>vc_get_insecurebcaps\<close> reports a capability exactly when it is one of the first 32 and not
  one of those the function keeps. The mask is computed in 32 bits with the highest one cleared, so
  no capability from 32 on is ever reported.\<close>

lemma vc_get_insecurebcaps_bits:
  "bit (vc_get_insecurebcaps k) n \<longleftrightarrow> n < 32 \<and> n \<notin> set (caps_kept k)"
proof -
  let ?m = "NOT (foldr (\<lambda>c m. push_bit c 1 OR m) (caps_kept k) 0) :: u32"
  have m: "bit ?m i \<longleftrightarrow> i < 32 \<and> i \<notin> set (caps_kept k)" for i
    unfolding bit_not_iff bit_foldr_or by (auto simp: possible_bit_def)
  have "bit (scast ?m :: u64) n \<longleftrightarrow> n < 64 \<and> bit ?m (min 31 n)"
    by (auto simp: bit_signed_iff bit_sint_iff min_def not_less possible_bit_def)
  moreover have "n \<ge> 31 \<Longrightarrow> \<not> bit ?m (min 31 n)" using m [of 31] caps_kept_31 [of k] by (simp add: min_def)
  ultimately show ?thesis using m [of n] caps_kept_31 [of k]
    unfolding vc_get_insecurebcaps_def
    by (cases n "31::nat" rule: linorder_cases) (auto simp: min_def)
qed

text \<open>
  The context type depends on the number of earlier calls: on a kernel with dynamic contexts
  the first call classifies the dynamic range as dynamic, but the static variable it leaves behind
  makes every later call classify the same identifiers as static.\<close>

lemma vc_getXIDType_history:
  assumes "\<not> bit config VC_VCI_NO_DYNAMIC" "49152 \<le> xid" "xid < 65535"
  shows "vc_getXIDType config xid 0 = (vcTYPE_DYNAMIC, 49152) \<and>
    (\<forall>m. m \<noteq> 0 \<longrightarrow> vc_getXIDType config xid m = (vcTYPE_STATIC, 65536))"
proof -
  have "1 < xid" "xid \<noteq> 0" "xid < 65536" "\<not> xid < 49152" using assms(2,3) by unat_arith+
  then show ?thesis using assms by (auto simp: vc_getXIDType_def MAX_S_CONTEXT_def Let_def)
qed

lemma vc_getXIDType_history_example:
  "vc_getXIDType 0 50000 0 = (vcTYPE_DYNAMIC, 49152) \<and> vc_getXIDType 0 50000 49152 = (vcTYPE_STATIC, 65536)"
  using vc_getXIDType_history [of 0 50000] by simp

text \<open>
  The identifier options read the decimal text of an identifier as that identifier, without
  consulting the task or the configuration, and report no error for it.\<close>

lemma id_options_decimal:
  assumes "n < 4294967295" "nl = [] \<or> nl = [NL]"
  shows "vc_xidopt2xid task getctx (digits_of 10 n @ nl) honor = (of_nat n, None) \<and>
    vc_nidopt2nid task getctx (digits_of 10 n @ nl) honor = (of_nat n, None) \<and>
    vc_tagopt2tag task getctx (digits_of 10 n @ nl) honor = (of_nat n, None)"
proof -
  let ?s = "digits_of 10 n @ nl"
  obtain c s where cs: "digits_of 10 n = c # s" by (cases "digits_of 10 n") auto
  have c: "isdigit c" using digits_of_base_digit [of 10 n] by (simp add: cs isdigit_base10)
  then have "strcmp ?s ''self'' \<noteq> 0" "deref ?s \<noteq> CHR '':''"
    by (auto simp: cs isdigit_def)
  moreover have "nl = [] \<or> \<not> is_base_digit 10 (hd nl)"
    using assms(2) unit_letters by auto
  then have "strto_scan 10 ?s = Some (False, n, nl)" by (intro strto_scan_digits) auto
  moreover have "(of_nat n :: xid_t) \<noteq> - 1"
  proof
    assume "(of_nat n :: xid_t) = - 1"
    then have "unat (of_nat n :: xid_t) = unat (- 1 :: xid_t)" by simp
    then show False using assms(1) by (simp add: unat_of_nat take_bit_nat_eq_self unsigned_minus_1_eq_mask mask_eq_exp_minus_1)
  qed
  ultimately have "id_option ty err task getctx ?s honor = (of_nat n, None)" for ty err
    using assms by (auto simp: id_option_def strtol_def strto_converted_def LONG_MAX_def LONG_MIN_def
        VC_NOCTX_def Let_def)
  then show ?thesis by (simp add: vc_xidopt2xid_def vc_nidopt2nid_def vc_tagopt2tag_def)
qed

lemma id_options_decimal_example:
  "vc_xidopt2xid 5 (\<lambda>_ _ _. VC_NOCTX) (digits_of 10 49152 @ []) True = (49152, None)"
  using id_options_decimal [of 49152 "[]" 5 "\<lambda>_ _ _. VC_NOCTX" True] by simp

end
