(* ===== verification/VserverH.thy ===== *)
theory VserverH
  imports Prelude
begin

text \<open>
  The constants of the public header \<^verbatim>\<open>lib/vserver.h\<close> that the tables of flag and capability
  names are made of, and its configuration styles.
\<close>

datatype vcCfgStyle = vcCFG_NONE | vcCFG_AUTO | vcCFG_LEGACY | vcCFG_RECENT_SHORT | vcCFG_RECENT_FULL

text \<open>Numbers of the system capabilities.\<close>

definition VC_CAP_CHOWN :: nat where "VC_CAP_CHOWN = 0"
definition VC_CAP_DAC_OVERRIDE :: nat where "VC_CAP_DAC_OVERRIDE = 1"
definition VC_CAP_DAC_READ_SEARCH :: nat where "VC_CAP_DAC_READ_SEARCH = 2"
definition VC_CAP_FOWNER :: nat where "VC_CAP_FOWNER = 3"
definition VC_CAP_FSETID :: nat where "VC_CAP_FSETID = 4"
definition VC_CAP_KILL :: nat where "VC_CAP_KILL = 5"
definition VC_CAP_SETGID :: nat where "VC_CAP_SETGID = 6"
definition VC_CAP_SETUID :: nat where "VC_CAP_SETUID = 7"
definition VC_CAP_SETPCAP :: nat where "VC_CAP_SETPCAP = 8"
definition VC_CAP_LINUX_IMMUTABLE :: nat where "VC_CAP_LINUX_IMMUTABLE = 9"
definition VC_CAP_NET_BIND_SERVICE :: nat where "VC_CAP_NET_BIND_SERVICE = 10"
definition VC_CAP_NET_BROADCAST :: nat where "VC_CAP_NET_BROADCAST = 11"
definition VC_CAP_NET_ADMIN :: nat where "VC_CAP_NET_ADMIN = 12"
definition VC_CAP_NET_RAW :: nat where "VC_CAP_NET_RAW = 13"
definition VC_CAP_IPC_LOCK :: nat where "VC_CAP_IPC_LOCK = 14"
definition VC_CAP_IPC_OWNER :: nat where "VC_CAP_IPC_OWNER = 15"
definition VC_CAP_SYS_MODULE :: nat where "VC_CAP_SYS_MODULE = 16"
definition VC_CAP_SYS_RAWIO :: nat where "VC_CAP_SYS_RAWIO = 17"
definition VC_CAP_SYS_CHROOT :: nat where "VC_CAP_SYS_CHROOT = 18"
definition VC_CAP_SYS_PTRACE :: nat where "VC_CAP_SYS_PTRACE = 19"
definition VC_CAP_SYS_PACCT :: nat where "VC_CAP_SYS_PACCT = 20"
definition VC_CAP_SYS_ADMIN :: nat where "VC_CAP_SYS_ADMIN = 21"
definition VC_CAP_SYS_BOOT :: nat where "VC_CAP_SYS_BOOT = 22"
definition VC_CAP_SYS_NICE :: nat where "VC_CAP_SYS_NICE = 23"
definition VC_CAP_SYS_RESOURCE :: nat where "VC_CAP_SYS_RESOURCE = 24"
definition VC_CAP_SYS_TIME :: nat where "VC_CAP_SYS_TIME = 25"
definition VC_CAP_SYS_TTY_CONFIG :: nat where "VC_CAP_SYS_TTY_CONFIG = 26"
definition VC_CAP_MKNOD :: nat where "VC_CAP_MKNOD = 27"
definition VC_CAP_LEASE :: nat where "VC_CAP_LEASE = 28"
definition VC_CAP_AUDIT_WRITE :: nat where "VC_CAP_AUDIT_WRITE = 29"
definition VC_CAP_AUDIT_CONTROL :: nat where "VC_CAP_AUDIT_CONTROL = 30"
definition VC_CAP_SETFCAP :: nat where "VC_CAP_SETFCAP = 31"
definition VC_CAP_MAC_OVERRIDE :: nat where "VC_CAP_MAC_OVERRIDE = 32"
definition VC_CAP_MAC_ADMIN :: nat where "VC_CAP_MAC_ADMIN = 33"

lemmas vc_cap_defs =
  VC_CAP_CHOWN_def VC_CAP_DAC_OVERRIDE_def VC_CAP_DAC_READ_SEARCH_def
  VC_CAP_FOWNER_def VC_CAP_FSETID_def VC_CAP_KILL_def
  VC_CAP_SETGID_def VC_CAP_SETUID_def VC_CAP_SETPCAP_def
  VC_CAP_LINUX_IMMUTABLE_def VC_CAP_NET_BIND_SERVICE_def VC_CAP_NET_BROADCAST_def
  VC_CAP_NET_ADMIN_def VC_CAP_NET_RAW_def VC_CAP_IPC_LOCK_def
  VC_CAP_IPC_OWNER_def VC_CAP_SYS_MODULE_def VC_CAP_SYS_RAWIO_def
  VC_CAP_SYS_CHROOT_def VC_CAP_SYS_PTRACE_def VC_CAP_SYS_PACCT_def
  VC_CAP_SYS_ADMIN_def VC_CAP_SYS_BOOT_def VC_CAP_SYS_NICE_def
  VC_CAP_SYS_RESOURCE_def VC_CAP_SYS_TIME_def VC_CAP_SYS_TTY_CONFIG_def
  VC_CAP_MKNOD_def VC_CAP_LEASE_def VC_CAP_AUDIT_WRITE_def
  VC_CAP_AUDIT_CONTROL_def VC_CAP_SETFCAP_def VC_CAP_MAC_OVERRIDE_def
  VC_CAP_MAC_ADMIN_def

text \<open>Context flags.\<close>

definition VC_VXF_INFO_LOCK :: u64 where "VC_VXF_INFO_LOCK = 0x00000001"
definition VC_VXF_INFO_NPROC :: u64 where "VC_VXF_INFO_NPROC = 0x00000004"
definition VC_VXF_INFO_PRIVATE :: u64 where "VC_VXF_INFO_PRIVATE = 0x00000008"
definition VC_VXF_INFO_INIT :: u64 where "VC_VXF_INFO_INIT = 0x00000010"
definition VC_VXF_INFO_HIDEINFO :: u64 where "VC_VXF_INFO_HIDEINFO = 0x00000020"
definition VC_VXF_INFO_ULIMIT :: u64 where "VC_VXF_INFO_ULIMIT = 0x00000040"
definition VC_VXF_INFO_NAMESPACE :: u64 where "VC_VXF_INFO_NAMESPACE = 0x00000080"
definition VC_VXF_SCHED_HARD :: u64 where "VC_VXF_SCHED_HARD = 0x00000100"
definition VC_VXF_SCHED_PRIO :: u64 where "VC_VXF_SCHED_PRIO = 0x00000200"
definition VC_VXF_SCHED_PAUSE :: u64 where "VC_VXF_SCHED_PAUSE = 0x00000400"
definition VC_VXF_VIRT_MEM :: u64 where "VC_VXF_VIRT_MEM = 0x00010000"
definition VC_VXF_VIRT_UPTIME :: u64 where "VC_VXF_VIRT_UPTIME = 0x00020000"
definition VC_VXF_VIRT_CPU :: u64 where "VC_VXF_VIRT_CPU = 0x00040000"
definition VC_VXF_VIRT_LOAD :: u64 where "VC_VXF_VIRT_LOAD = 0x00080000"
definition VC_VXF_VIRT_TIME :: u64 where "VC_VXF_VIRT_TIME = 0x00100000"
definition VC_VXF_HIDE_MOUNT :: u64 where "VC_VXF_HIDE_MOUNT = 0x01000000"
definition VC_VXF_HIDE_NETIF :: u64 where "VC_VXF_HIDE_NETIF = 0x02000000"
definition VC_VXF_HIDE_VINFO :: u64 where "VC_VXF_HIDE_VINFO = 0x04000000"
definition VC_VXF_STATE_SETUP :: u64 where "VC_VXF_STATE_SETUP = push_bit 32 1"
definition VC_VXF_STATE_INIT :: u64 where "VC_VXF_STATE_INIT = push_bit 33 1"
definition VC_VXF_STATE_ADMIN :: u64 where "VC_VXF_STATE_ADMIN = push_bit 34 1"
definition VC_VXF_SC_HELPER :: u64 where "VC_VXF_SC_HELPER = push_bit 36 1"
definition VC_VXF_REBOOT_KILL :: u64 where "VC_VXF_REBOOT_KILL = push_bit 37 1"
definition VC_VXF_PERSISTENT :: u64 where "VC_VXF_PERSISTENT = push_bit 38 1"
definition VC_VXF_FORK_RSS :: u64 where "VC_VXF_FORK_RSS = push_bit 48 1"
definition VC_VXF_PROLIFIC :: u64 where "VC_VXF_PROLIFIC = push_bit 49 1"
definition VC_VXF_IGNEG_NICE :: u64 where "VC_VXF_IGNEG_NICE = push_bit 52 1"
definition VC_VXF_IGNEG_IONICE :: u64 where "VC_VXF_IGNEG_IONICE = push_bit 53 1"

lemmas vc_vxf_defs =
  VC_VXF_INFO_LOCK_def VC_VXF_INFO_NPROC_def VC_VXF_INFO_PRIVATE_def
  VC_VXF_INFO_INIT_def VC_VXF_INFO_HIDEINFO_def VC_VXF_INFO_ULIMIT_def
  VC_VXF_INFO_NAMESPACE_def VC_VXF_SCHED_HARD_def VC_VXF_SCHED_PRIO_def
  VC_VXF_SCHED_PAUSE_def VC_VXF_VIRT_MEM_def VC_VXF_VIRT_UPTIME_def
  VC_VXF_VIRT_CPU_def VC_VXF_VIRT_LOAD_def VC_VXF_VIRT_TIME_def
  VC_VXF_HIDE_MOUNT_def VC_VXF_HIDE_NETIF_def VC_VXF_HIDE_VINFO_def
  VC_VXF_STATE_SETUP_def VC_VXF_STATE_INIT_def VC_VXF_STATE_ADMIN_def
  VC_VXF_SC_HELPER_def VC_VXF_REBOOT_KILL_def VC_VXF_PERSISTENT_def
  VC_VXF_FORK_RSS_def VC_VXF_PROLIFIC_def VC_VXF_IGNEG_NICE_def
  VC_VXF_IGNEG_IONICE_def

text \<open>Context capabilities.\<close>

definition VC_VXC_SET_UTSNAME :: u64 where "VC_VXC_SET_UTSNAME = 0x00000001"
definition VC_VXC_SET_RLIMIT :: u64 where "VC_VXC_SET_RLIMIT = 0x00000002"
definition VC_VXC_FS_SECURITY :: u64 where "VC_VXC_FS_SECURITY = 0x00000004"
definition VC_VXC_FS_TRUSTED :: u64 where "VC_VXC_FS_TRUSTED = 0x00000008"
definition VC_VXC_TIOCSTI :: u64 where "VC_VXC_TIOCSTI = 0x00000010"
definition VC_VXC_RAW_ICMP :: u64 where "VC_VXC_RAW_ICMP = 0x00000100"
definition VC_VXC_SYSLOG :: u64 where "VC_VXC_SYSLOG = 0x00001000"
definition VC_VXC_OOM_ADJUST :: u64 where "VC_VXC_OOM_ADJUST = 0x00002000"
definition VC_VXC_AUDIT_CONTROL :: u64 where "VC_VXC_AUDIT_CONTROL = 0x00004000"
definition VC_VXC_SECURE_MOUNT :: u64 where "VC_VXC_SECURE_MOUNT = 0x00010000"
definition VC_VXC_SECURE_REMOUNT :: u64 where "VC_VXC_SECURE_REMOUNT = 0x00020000"
definition VC_VXC_BINARY_MOUNT :: u64 where "VC_VXC_BINARY_MOUNT = 0x00040000"
definition VC_VXC_DEV_MOUNT :: u64 where "VC_VXC_DEV_MOUNT = 0x00080000"
definition VC_VXC_QUOTA_CTL :: u64 where "VC_VXC_QUOTA_CTL = 0x00100000"
definition VC_VXC_ADMIN_MAPPER :: u64 where "VC_VXC_ADMIN_MAPPER = 0x00200000"
definition VC_VXC_ADMIN_CLOOP :: u64 where "VC_VXC_ADMIN_CLOOP = 0x00400000"
definition VC_VXC_KTHREAD :: u64 where "VC_VXC_KTHREAD = 0x01000000"
definition VC_VXC_NAMESPACE :: u64 where "VC_VXC_NAMESPACE = 0x02000000"

lemmas vc_vxc_defs =
  VC_VXC_SET_UTSNAME_def VC_VXC_SET_RLIMIT_def VC_VXC_FS_SECURITY_def
  VC_VXC_FS_TRUSTED_def VC_VXC_TIOCSTI_def VC_VXC_RAW_ICMP_def
  VC_VXC_SYSLOG_def VC_VXC_OOM_ADJUST_def VC_VXC_AUDIT_CONTROL_def
  VC_VXC_SECURE_MOUNT_def VC_VXC_SECURE_REMOUNT_def VC_VXC_BINARY_MOUNT_def
  VC_VXC_DEV_MOUNT_def VC_VXC_QUOTA_CTL_def VC_VXC_ADMIN_MAPPER_def
  VC_VXC_ADMIN_CLOOP_def VC_VXC_KTHREAD_def VC_VXC_NAMESPACE_def

text \<open>Network flags.\<close>

definition VC_NXF_INFO_LOCK :: u64 where "VC_NXF_INFO_LOCK = 0x00000001"
definition VC_NXF_INFO_PRIVATE :: u64 where "VC_NXF_INFO_PRIVATE = 0x00000008"
definition VC_NXF_SINGLE_IP :: u64 where "VC_NXF_SINGLE_IP = 0x00000100"
definition VC_NXF_LBACK_REMAP :: u64 where "VC_NXF_LBACK_REMAP = 0x00000200"
definition VC_NXF_LBACK_ALLOW :: u64 where "VC_NXF_LBACK_ALLOW = 0x00000400"
definition VC_NXF_HIDE_NETIF :: u64 where "VC_NXF_HIDE_NETIF = 0x02000000"
definition VC_NXF_HIDE_LBACK :: u64 where "VC_NXF_HIDE_LBACK = 0x04000000"
definition VC_NXF_STATE_SETUP :: u64 where "VC_NXF_STATE_SETUP = push_bit 32 1"
definition VC_NXF_STATE_ADMIN :: u64 where "VC_NXF_STATE_ADMIN = push_bit 34 1"
definition VC_NXF_SC_HELPER :: u64 where "VC_NXF_SC_HELPER = push_bit 36 1"
definition VC_NXF_PERSISTENT :: u64 where "VC_NXF_PERSISTENT = push_bit 38 1"

lemmas vc_nxf_defs =
  VC_NXF_INFO_LOCK_def VC_NXF_INFO_PRIVATE_def VC_NXF_SINGLE_IP_def
  VC_NXF_LBACK_REMAP_def VC_NXF_LBACK_ALLOW_def VC_NXF_HIDE_NETIF_def
  VC_NXF_HIDE_LBACK_def VC_NXF_STATE_SETUP_def VC_NXF_STATE_ADMIN_def
  VC_NXF_SC_HELPER_def VC_NXF_PERSISTENT_def

text \<open>Network capabilities.\<close>

definition VC_NXC_TUN_CREATE :: u64 where "VC_NXC_TUN_CREATE = 0x00000001"
definition VC_NXC_RAW_ICMP :: u64 where "VC_NXC_RAW_ICMP = 0x00000100"

lemmas vc_nxc_defs =
  VC_NXC_TUN_CREATE_def VC_NXC_RAW_ICMP_def

text \<open>Name space flags, where the system headers lack them.\<close>

definition CLONE_NEWNS :: u64 where "CLONE_NEWNS = 0x00020000"
definition CLONE_NEWUTS :: u64 where "CLONE_NEWUTS = 0x04000000"
definition CLONE_NEWIPC :: u64 where "CLONE_NEWIPC = 0x08000000"
definition CLONE_NEWUSER :: u64 where "CLONE_NEWUSER = 0x10000000"
definition CLONE_NEWPID :: u64 where "CLONE_NEWPID = 0x20000000"
definition CLONE_NEWNET :: u64 where "CLONE_NEWNET = 0x40000000"

lemmas clone_defs =
  CLONE_NEWNS_def CLONE_NEWUTS_def CLONE_NEWIPC_def
  CLONE_NEWUSER_def CLONE_NEWPID_def CLONE_NEWNET_def

text \<open>Flags of the legacy interface.\<close>

definition S_CTX_INFO_LOCK :: u32 where "S_CTX_INFO_LOCK = 1"
definition S_CTX_INFO_SCHED :: u32 where "S_CTX_INFO_SCHED = 2"
definition S_CTX_INFO_NPROC :: u32 where "S_CTX_INFO_NPROC = 4"
definition S_CTX_INFO_PRIVATE :: u32 where "S_CTX_INFO_PRIVATE = 8"
definition S_CTX_INFO_INIT :: u32 where "S_CTX_INFO_INIT = 16"
definition S_CTX_INFO_HIDEINFO :: u32 where "S_CTX_INFO_HIDEINFO = 32"
definition S_CTX_INFO_ULIMIT :: u32 where "S_CTX_INFO_ULIMIT = 64"
definition S_CTX_INFO_NAMESPACE :: u32 where "S_CTX_INFO_NAMESPACE = 128"

lemmas s_ctx_info_defs =
  S_CTX_INFO_LOCK_def S_CTX_INFO_SCHED_def S_CTX_INFO_NPROC_def
  S_CTX_INFO_PRIVATE_def S_CTX_INFO_INIT_def S_CTX_INFO_HIDEINFO_def
  S_CTX_INFO_ULIMIT_def S_CTX_INFO_NAMESPACE_def

end
