(* ===== verification/FlagTables.thy ===== *)
theory FlagTables
  imports VserverH Fmt
begin

text \<open>
  Names of flags and capabilities: the lookups of \<^verbatim>\<open>val2text.hc\<close> in both directions, the tables
  of names with their prefixes, and the parser of comma-separated lists with negation
  (\<^verbatim>\<open>listparser.hc\<close>). A locale states what makes a table of names sound; it is interpreted for every
  table, and the parser and the printer are shown to be inverse to each other for all of them.
\<close>

section \<open>Lookups\<close>

record 'v Mapping =
  map_id :: cstr
  map_len :: nat
  map_val :: 'v

definition DECL :: "cstr \<Rightarrow> 'v \<Rightarrow> 'v Mapping" where
  "DECL str val = \<lparr>map_id = str, map_len = length str, map_val = val\<rparr>"

definition value2text :: "cstr \<Rightarrow> nat \<Rightarrow> 'v Mapping list \<Rightarrow> nat option" where
  "value2text str len vals =
     (let len' = (if len = 0 then length str else len)
      in find_idx (\<lambda>m. len' = map_len m \<and> strncasecmp len' (map_id m) str = 0) vals)"

definition searchValue :: "'v \<Rightarrow> 'v Mapping list \<Rightarrow> nat option" where
  "searchValue val vals = find_idx (\<lambda>m. val = map_val m) vals"

text \<open>The loop that looks for the lowest set bit, with \<open>n\<close> positions left from \<open>i\<close> on.\<close>

fun low_bit :: "nat \<Rightarrow> nat \<Rightarrow> 'w::len word \<Rightarrow> nat" where
  "low_bit i 0 val = i"
| "low_bit i (Suc n) val = (if val AND push_bit i 1 = 0 then low_bit (Suc i) n val else i)"

text \<open>The index found and the new value of \<^verbatim>\<open>*val\<close>.\<close>

definition text2value :: "'w::len word \<Rightarrow> 'w word Mapping list \<Rightarrow> nat option \<times> 'w word" where
  "text2value val vals =
     (if val = 0 then (None, val)
      else
        (let (idx, del_val) =
           (case searchValue val vals of
              Some i \<Rightarrow> (Some i, val)
            | None \<Rightarrow> (let d = push_bit (low_bit 0 LENGTH('w) val) 1 in (searchValue d vals, d)))
         in case idx of None \<Rightarrow> (None, val) | Some i \<Rightarrow> (Some i, val AND NOT del_val)))"

text \<open>\<^verbatim>\<open>removePrefix\<close> of the tables that have one; \<open>pre\<close> is the prefix in lower case.\<close>

definition removePrefix :: "cstr \<Rightarrow> cstr \<Rightarrow> nat \<Rightarrow> cstr \<times> nat" where
  "removePrefix pre str len =
     (if (len = 0 \<or> len > 4) \<and> strncasecmp 4 pre str = 0
      then (drop 4 str, if len > 4 then len - 4 else len)
      else (str, len))"

definition text2val :: "'v::zero Mapping list \<Rightarrow> cstr option \<Rightarrow> cstr \<Rightarrow> nat \<Rightarrow> 'v" where
  "text2val vals pre str len =
     (let (tmp, len') = (case pre of None \<Rightarrow> (str, len) | Some p \<Rightarrow> removePrefix p str len)
      in case value2text tmp len' vals of None \<Rightarrow> 0 | Some i \<Rightarrow> map_val (vals ! i))"

definition lo2text :: "'w::len word Mapping list \<Rightarrow> 'w word \<Rightarrow> cstr option \<times> 'w word" where
  "lo2text vals val =
     (let (idx, val') = text2value val vals
      in (case idx of None \<Rightarrow> None | Some i \<Rightarrow> Some (map_id (vals ! i)), val'))"

section \<open>The tables\<close>

text \<open>\<^verbatim>\<open>CLONE_FS\<close> is a constant of the system's \<^verbatim>\<open>sched.h\<close>.\<close>

definition CLONE_FS :: u64 where "CLONE_FS = 0x00000200"

definition bcap_VALUES :: "u64 Mapping list" where
  "bcap_VALUES =
     [DECL ''CHOWN'' (push_bit VC_CAP_CHOWN 1),
      DECL ''DAC_OVERRIDE'' (push_bit VC_CAP_DAC_OVERRIDE 1),
      DECL ''DAC_READ_SEARCH'' (push_bit VC_CAP_DAC_READ_SEARCH 1),
      DECL ''FOWNER'' (push_bit VC_CAP_FOWNER 1),
      DECL ''FSETID'' (push_bit VC_CAP_FSETID 1),
      DECL ''KILL'' (push_bit VC_CAP_KILL 1),
      DECL ''SETGID'' (push_bit VC_CAP_SETGID 1),
      DECL ''SETUID'' (push_bit VC_CAP_SETUID 1),
      DECL ''SETPCAP'' (push_bit VC_CAP_SETPCAP 1),
      DECL ''LINUX_IMMUTABLE'' (push_bit VC_CAP_LINUX_IMMUTABLE 1),
      DECL ''NET_BIND_SERVICE'' (push_bit VC_CAP_NET_BIND_SERVICE 1),
      DECL ''NET_BROADCAST'' (push_bit VC_CAP_NET_BROADCAST 1),
      DECL ''NET_ADMIN'' (push_bit VC_CAP_NET_ADMIN 1),
      DECL ''NET_RAW'' (push_bit VC_CAP_NET_RAW 1),
      DECL ''IPC_LOCK'' (push_bit VC_CAP_IPC_LOCK 1),
      DECL ''IPC_OWNER'' (push_bit VC_CAP_IPC_OWNER 1),
      DECL ''SYS_MODULE'' (push_bit VC_CAP_SYS_MODULE 1),
      DECL ''SYS_RAWIO'' (push_bit VC_CAP_SYS_RAWIO 1),
      DECL ''SYS_CHROOT'' (push_bit VC_CAP_SYS_CHROOT 1),
      DECL ''SYS_PTRACE'' (push_bit VC_CAP_SYS_PTRACE 1),
      DECL ''SYS_PACCT'' (push_bit VC_CAP_SYS_PACCT 1),
      DECL ''SYS_ADMIN'' (push_bit VC_CAP_SYS_ADMIN 1),
      DECL ''SYS_BOOT'' (push_bit VC_CAP_SYS_BOOT 1),
      DECL ''SYS_NICE'' (push_bit VC_CAP_SYS_NICE 1),
      DECL ''SYS_RESOURCE'' (push_bit VC_CAP_SYS_RESOURCE 1),
      DECL ''SYS_TIME'' (push_bit VC_CAP_SYS_TIME 1),
      DECL ''SYS_TTY_CONFIG'' (push_bit VC_CAP_SYS_TTY_CONFIG 1),
      DECL ''MKNOD'' (push_bit VC_CAP_MKNOD 1),
      DECL ''LEASE'' (push_bit VC_CAP_LEASE 1),
      DECL ''AUDIT_WRITE'' (push_bit VC_CAP_AUDIT_WRITE 1),
      DECL ''AUDIT_CONTROL'' (push_bit VC_CAP_AUDIT_CONTROL 1),
      DECL ''SETFCAP'' (push_bit VC_CAP_SETFCAP 1),
      DECL ''MAC_OVERRIDE'' (push_bit VC_CAP_MAC_OVERRIDE 1),
      DECL ''MAC_ADMIN'' (push_bit VC_CAP_MAC_ADMIN 1)]"

definition ccap_VALUES :: "u64 Mapping list" where
  "ccap_VALUES =
     [DECL ''set_utsname'' VC_VXC_SET_UTSNAME,
      DECL ''set_rlimit'' VC_VXC_SET_RLIMIT,
      DECL ''fs_security'' VC_VXC_FS_SECURITY,
      DECL ''fs_trusted'' VC_VXC_FS_TRUSTED,
      DECL ''tiocsti'' VC_VXC_TIOCSTI,
      DECL ''raw_icmp'' VC_VXC_RAW_ICMP,
      DECL ''syslog'' VC_VXC_SYSLOG,
      DECL ''oom_adjust'' VC_VXC_OOM_ADJUST,
      DECL ''audit_control'' VC_VXC_AUDIT_CONTROL,
      DECL ''secure_mount'' VC_VXC_SECURE_MOUNT,
      DECL ''secure_remount'' VC_VXC_SECURE_REMOUNT,
      DECL ''binary_mount'' VC_VXC_BINARY_MOUNT,
      DECL ''dev_mount'' VC_VXC_DEV_MOUNT,
      DECL ''quota_ctl'' VC_VXC_QUOTA_CTL,
      DECL ''admin_mapper'' VC_VXC_ADMIN_MAPPER,
      DECL ''admin_cloop'' VC_VXC_ADMIN_CLOOP,
      DECL ''kthread'' VC_VXC_KTHREAD,
      DECL ''namespace'' VC_VXC_NAMESPACE,
      DECL ''mount'' VC_VXC_SECURE_MOUNT,
      DECL ''remount'' VC_VXC_SECURE_REMOUNT,
      DECL ''icmp'' VC_VXC_RAW_ICMP,
      DECL ''ping'' VC_VXC_RAW_ICMP,
      DECL ''utsname'' VC_VXC_SET_UTSNAME,
      DECL ''rlimit'' VC_VXC_SET_RLIMIT]"

definition cflag_VALUES :: "u64 Mapping list" where
  "cflag_VALUES =
     [DECL ''lock'' VC_VXF_INFO_LOCK,
      DECL ''nproc'' VC_VXF_INFO_NPROC,
      DECL ''private'' VC_VXF_INFO_PRIVATE,
      DECL ''fakeinit'' VC_VXF_INFO_INIT,
      DECL ''hideinfo'' VC_VXF_INFO_HIDEINFO,
      DECL ''ulimit'' VC_VXF_INFO_ULIMIT,
      DECL ''namespace'' VC_VXF_INFO_NAMESPACE,
      DECL ''sched_hard'' VC_VXF_SCHED_HARD,
      DECL ''sched_prio'' VC_VXF_SCHED_PRIO,
      DECL ''sched_pause'' VC_VXF_SCHED_PAUSE,
      DECL ''virt_mem'' VC_VXF_VIRT_MEM,
      DECL ''virt_uptime'' VC_VXF_VIRT_UPTIME,
      DECL ''virt_cpu'' VC_VXF_VIRT_CPU,
      DECL ''virt_load'' VC_VXF_VIRT_LOAD,
      DECL ''virt_time'' VC_VXF_VIRT_TIME,
      DECL ''hide_mount'' VC_VXF_HIDE_MOUNT,
      DECL ''hide_netif'' VC_VXF_HIDE_NETIF,
      DECL ''hide_vinfo'' VC_VXF_HIDE_VINFO,
      DECL ''state_setup'' VC_VXF_STATE_SETUP,
      DECL ''state_init'' VC_VXF_STATE_INIT,
      DECL ''state_admin'' VC_VXF_STATE_ADMIN,
      DECL ''sc_helper'' VC_VXF_SC_HELPER,
      DECL ''persistent'' VC_VXF_PERSISTENT,
      DECL ''reboot_kill'' VC_VXF_REBOOT_KILL,
      DECL ''fork_rss'' VC_VXF_FORK_RSS,
      DECL ''prolific'' VC_VXF_PROLIFIC,
      DECL ''igneg_nice'' VC_VXF_IGNEG_NICE,
      DECL ''igneg_ionice'' VC_VXF_IGNEG_IONICE,
      DECL ''secure'' VC_VXF_HIDE_NETIF,
      DECL ''default'' (VC_VXF_VIRT_UPTIME OR VC_VXF_SC_HELPER),
      DECL ''info_lock'' VC_VXF_INFO_LOCK,
      DECL ''info_nproc'' VC_VXF_INFO_NPROC,
      DECL ''info_private'' VC_VXF_INFO_PRIVATE,
      DECL ''info_init'' VC_VXF_INFO_INIT,
      DECL ''info_hideinfo'' VC_VXF_INFO_HIDEINFO,
      DECL ''info_ulimit'' VC_VXF_INFO_ULIMIT,
      DECL ''info_namespace'' VC_VXF_INFO_NAMESPACE,
      DECL ''info_nspace'' VC_VXF_INFO_NAMESPACE]"

definition ncap_VALUES :: "u64 Mapping list" where
  "ncap_VALUES =
     [DECL ''tun_create'' VC_NXC_TUN_CREATE,
      DECL ''raw_icmp'' VC_NXC_RAW_ICMP]"

definition nflag_VALUES :: "u64 Mapping list" where
  "nflag_VALUES =
     [DECL ''lock'' VC_NXF_INFO_LOCK,
      DECL ''private'' VC_NXF_INFO_PRIVATE,
      DECL ''single_ip'' VC_NXF_SINGLE_IP,
      DECL ''lback_remap'' VC_NXF_LBACK_REMAP,
      DECL ''remap_lback'' VC_NXF_LBACK_REMAP,
      DECL ''lback_allow'' VC_NXF_LBACK_ALLOW,
      DECL ''hide_netif'' VC_NXF_HIDE_NETIF,
      DECL ''hide_lback'' VC_NXF_HIDE_LBACK,
      DECL ''state_setup'' VC_NXF_STATE_SETUP,
      DECL ''state_admin'' VC_NXF_STATE_ADMIN,
      DECL ''sc_helper'' VC_NXF_SC_HELPER,
      DECL ''persistent'' VC_NXF_PERSISTENT,
      DECL ''info_lock'' VC_NXF_INFO_LOCK,
      DECL ''info_private'' VC_NXF_INFO_PRIVATE]"

definition umask_VALUES :: "u64 Mapping list" where
  "umask_VALUES =
     [DECL ''fs'' CLONE_FS,
      DECL ''newns'' CLONE_NEWNS,
      DECL ''newuts'' CLONE_NEWUTS,
      DECL ''newipc'' CLONE_NEWIPC,
      DECL ''newuser'' CLONE_NEWUSER,
      DECL ''newpid'' CLONE_NEWPID,
      DECL ''newnet'' CLONE_NEWNET]"

definition vc_text2bcap :: "cstr \<Rightarrow> nat \<Rightarrow> u64" where
  "vc_text2bcap = text2val bcap_VALUES (Some ''cap_'')"

definition vc_lobcap2text :: "u64 \<Rightarrow> cstr option \<times> u64" where
  "vc_lobcap2text = lo2text bcap_VALUES"

definition vc_text2ccap :: "cstr \<Rightarrow> nat \<Rightarrow> u64" where
  "vc_text2ccap = text2val ccap_VALUES (Some ''vxc_'')"

definition vc_loccap2text :: "u64 \<Rightarrow> cstr option \<times> u64" where
  "vc_loccap2text = lo2text ccap_VALUES"

definition vc_text2cflag :: "cstr \<Rightarrow> nat \<Rightarrow> u64" where
  "vc_text2cflag = text2val cflag_VALUES (Some ''vxf_'')"

definition vc_locflag2text :: "u64 \<Rightarrow> cstr option \<times> u64" where
  "vc_locflag2text = lo2text cflag_VALUES"

definition vc_text2ncap :: "cstr \<Rightarrow> nat \<Rightarrow> u64" where
  "vc_text2ncap = text2val ncap_VALUES (Some ''nxc_'')"

definition vc_loncap2text :: "u64 \<Rightarrow> cstr option \<times> u64" where
  "vc_loncap2text = lo2text ncap_VALUES"

definition vc_text2nflag :: "cstr \<Rightarrow> nat \<Rightarrow> u64" where
  "vc_text2nflag = text2val nflag_VALUES (Some ''nxf_'')"

definition vc_lonflag2text :: "u64 \<Rightarrow> cstr option \<times> u64" where
  "vc_lonflag2text = lo2text nflag_VALUES"

definition vc_text2umask :: "cstr \<Rightarrow> nat \<Rightarrow> u64" where
  "vc_text2umask = text2val umask_VALUES None"

definition vc_loumask2text :: "u64 \<Rightarrow> cstr option \<times> u64" where
  "vc_loumask2text = lo2text umask_VALUES"

text \<open>
  The personality tables hold the constants the system headers declare; \<open>have\<close> says which and with
  what value.
\<close>

definition declared :: "(cstr \<Rightarrow> u32 option) \<Rightarrow> cstr list \<Rightarrow> u32 Mapping list" where
  "declared have names =
     concat (map (\<lambda>n. case have n of None \<Rightarrow> [] | Some v \<Rightarrow> [DECL n v]) names)"

definition personalityflag_VALUES :: "(cstr \<Rightarrow> u32 option) \<Rightarrow> u32 Mapping list" where
  "personalityflag_VALUES have =
     declared have
       [''MMAP_PAGE_ZERO'',
        ''ADDR_LIMIT_32BIT'',
        ''SHORT_INODE'',
        ''WHOLE_SECONDS'',
        ''STICKY_TIMEOUTS'',
        ''ADDR_LIMIT_3GB'',
        ''UNAME26'']"

definition vc_text2personalityflag :: "(cstr \<Rightarrow> u32 option) \<Rightarrow> cstr \<Rightarrow> nat \<Rightarrow> u32" where
  "vc_text2personalityflag have = text2val (personalityflag_VALUES have) None"

definition vc_lopersonality2text :: "(cstr \<Rightarrow> u32 option) \<Rightarrow> u32 \<Rightarrow> cstr option \<times> u32" where
  "vc_lopersonality2text have = lo2text (personalityflag_VALUES have)"

definition VC_BAD_PERSONALITY :: u32 where "VC_BAD_PERSONALITY = - 1"

definition personalitytype_VALUES :: "(cstr \<Rightarrow> u32 option) \<Rightarrow> u32 Mapping list" where
  "personalitytype_VALUES have =
     declared have
       [''LINUX'',
        ''LINUX_32BIT'',
        ''SVR4'',
        ''SVR3'',
        ''SCOSVR3'',
        ''OSR5'',
        ''WYSEV386'',
        ''ISCR4'',
        ''BSD'',
        ''SUNOS'',
        ''XENIX'',
        ''LINUX32'',
        ''LINUX32_3GB'',
        ''IRIX32'',
        ''IRIXN32'',
        ''IRIX64'',
        ''RISCOS'',
        ''SOLARIS'',
        ''UW7'',
        ''HPUX'',
        ''OSF4'']"

definition vc_str2personalitytype :: "(cstr \<Rightarrow> u32 option) \<Rightarrow> cstr \<Rightarrow> nat \<Rightarrow> u32" where
  "vc_str2personalitytype have str len =
     (let (tmp, len') = removePrefix ''per_'' str len
      in case value2text tmp len' (personalitytype_VALUES have) of
           None \<Rightarrow> VC_BAD_PERSONALITY
         | Some i \<Rightarrow> map_val (personalitytype_VALUES have ! i))"

text \<open>The legacy capability numbers.\<close>

definition CAP2BIT :: "(cstr \<times> nat) list" where
  "CAP2BIT =
     [(''CAP_CHOWN'', 0),
      (''CAP_DAC_OVERRIDE'', 1),
      (''CAP_DAC_READ_SEARCH'', 2),
      (''CAP_FOWNER'', 3),
      (''CAP_FSETID'', 4),
      (''CAP_KILL'', 5),
      (''CAP_SETGID'', 6),
      (''CAP_SETUID'', 7),
      (''CAP_SETPCAP'', 8),
      (''CAP_LINUX_IMMUTABLE'', 9),
      (''CAP_NET_BIND_SERVICE'', 10),
      (''CAP_NET_BROADCAST'', 11),
      (''CAP_NET_ADMIN'', 12),
      (''CAP_NET_RAW'', 13),
      (''CAP_IPC_LOCK'', 14),
      (''CAP_IPC_OWNER'', 15),
      (''CAP_SYS_MODULE'', 16),
      (''CAP_SYS_RAWIO'', 17),
      (''CAP_SYS_CHROOT'', 18),
      (''CAP_SYS_PTRACE'', 19),
      (''CAP_SYS_PACCT'', 20),
      (''CAP_SYS_ADMIN'', 21),
      (''CAP_SYS_BOOT'', 22),
      (''CAP_SYS_NICE'', 23),
      (''CAP_SYS_RESOURCE'', 24),
      (''CAP_SYS_TIME'', 25),
      (''CAP_SYS_TTY_CONFIG'', 26),
      (''CAP_MKNOD'', 27),
      (''CAP_LEASE'', 28),
      (''CAP_QUOTACTL'', 29)]"

definition vc_text2cap :: "cstr \<Rightarrow> nat option" where
  "vc_text2cap str =
     (let str' = (if strncmp 4 str ''CAP_'' = 0 then drop 4 str else str)
      in map_option (\<lambda>i. snd (CAP2BIT ! i))
           (find_idx (\<lambda>(id, b). strcmp (drop 4 id) str' = 0) CAP2BIT))"

definition vc_cap2text :: "nat \<Rightarrow> cstr option" where
  "vc_cap2text bit_nr = (if bit_nr \<ge> length CAP2BIT then None else Some (fst (CAP2BIT ! bit_nr)))"

text \<open>The legacy context flags.\<close>

definition FLAGVALUES :: "u32 Mapping list" where
  "FLAGVALUES =
     [DECL ''lock'' S_CTX_INFO_LOCK,
      DECL ''sched'' S_CTX_INFO_SCHED,
      DECL ''nproc'' S_CTX_INFO_NPROC,
      DECL ''private'' S_CTX_INFO_PRIVATE,
      DECL ''fakeinit'' S_CTX_INFO_INIT,
      DECL ''hideinfo'' S_CTX_INFO_HIDEINFO,
      DECL ''ulimit'' S_CTX_INFO_ULIMIT,
      DECL ''namespace'' S_CTX_INFO_NAMESPACE]"

definition vc_text2cflag_compat :: "cstr \<Rightarrow> nat \<Rightarrow> u32" where
  "vc_text2cflag_compat str len =
     (let len' = (if len = 0 then length str else len)
      in case find_idx (\<lambda>m. len' = map_len m \<and> strncmp len' (map_id m) str = 0) FLAGVALUES of
           None \<Rightarrow> 0
         | Some i \<Rightarrow> map_val (FLAGVALUES ! i))"

text \<open>\<^verbatim>\<open>for (i=S_CTX_INFO_ULIMIT, idx=6; i>0; i/=2, --idx)\<close>\<close>

fun hicflag_loop :: "u32 \<Rightarrow> nat \<Rightarrow> cstr option" where
  "hicflag_loop val 0 = (if val AND 1 \<noteq> 0 then Some (map_id (FLAGVALUES ! 0)) else None)"
| "hicflag_loop val (Suc idx) =
     (if val AND push_bit (Suc idx) 1 \<noteq> 0 then Some (map_id (FLAGVALUES ! Suc idx)) else hicflag_loop val idx)"

definition vc_hicflag2text_compat :: "u32 \<Rightarrow> cstr option" where
  "vc_hicflag2text_compat val = hicflag_loop val 6"

section \<open>The list parser\<close>

text \<open>
  \<^verbatim>\<open>isNumber\<close> of \<^verbatim>\<open>listparser.hc\<close>: whether a number was read, its value, and the new values of
  \<^verbatim>\<open>*str\<close> and \<^verbatim>\<open>*len\<close>, which have moved past a caret even when no number follows. A shift by a count
  outside the width is undefined in C and computed like the hardware's shift here.
\<close>

definition isNumber_lp :: "cstr \<Rightarrow> nat \<Rightarrow> char \<Rightarrow> bool \<times> 'w::len word \<times> cstr \<times> nat" where
  "isNumber_lp str len end_chr =
     (if deref str = CHR ''^'' then
        (let str' = tl str; (v, err_ptr, _) = strtol 0 str'
         in (strto_converted 0 str' \<and> deref err_ptr = end_chr,
             push_bit (nat (v mod int LENGTH('w))) 1, str', len - 1))
      else
        (let (v, err_ptr, _) = strtol 0 str
         in (strto_converted 0 str \<and> deref err_ptr = end_chr, word_of_int v, str, len)))"

text \<open>One list item: whether it failed, its value and where the error would point.\<close>

definition lp_item ::
  "bool \<Rightarrow> (cstr \<Rightarrow> nat \<Rightarrow> 'w::len word \<times> bool) \<Rightarrow> cstr \<Rightarrow> nat \<Rightarrow> bool \<times> 'w word \<times> cstr \<times> nat" where
  "lp_item has_mask func str cnt =
     (if cnt = 0 then (True, 0, str, cnt)
      else if has_mask \<and> (strncasecmp cnt str ''all'' = 0 \<or> strncasecmp cnt str ''any'' = 0)
      then (False, - 1, str, cnt)
      else if has_mask \<and> strncasecmp cnt str ''none'' = 0 then (False, 0, str, cnt)
      else
        (let (ok, v, str', cnt') = isNumber_lp str cnt (deref (drop cnt str))
         in if ok then (False, v, str', cnt')
            else (let (v', failed) = func str' cnt' in (failed, v', str', cnt'))))"

abbreviation is_neg_char :: "char \<Rightarrow> bool" where
  "is_neg_char c \<equiv> c = CHR ''!'' \<or> c = CHR ''~''"

text \<open>
  The loop of \<^verbatim>\<open>utilvserver_listparser\<close>; the result is where and how long the failing item is
  (\<open>None\<close> when there is none) and the new values of \<^verbatim>\<open>*flag\<close> and \<^verbatim>\<open>*mask\<close>.
\<close>

function listparser_loop ::
  "bool \<Rightarrow> (cstr \<Rightarrow> nat \<Rightarrow> 'w::len word \<times> bool) \<Rightarrow> cstr \<Rightarrow> nat \<Rightarrow> 'w word \<Rightarrow> 'w word \<Rightarrow>
   (cstr \<times> nat) option \<times> 'w word \<times> 'w word" where
  "listparser_loop has_mask func str len flag msk =
     (if len = 0 then (None, flag, msk)
      else
        (let ptr = strchr str CHR '','';
             negs = (if has_mask then length (takeWhile is_neg_char (take len str)) else 0);
             is_neg = odd negs;
             str1 = drop negs str;
             len1 = len - negs;
             cnt0 = (case ptr of Some i \<Rightarrow> i - negs | None \<Rightarrow> len1);
             cnt = (if cnt0 \<ge> len1 then len1 else cnt0);
             len2 = (if cnt0 \<ge> len1 then 0 else len1 - (cnt0 + 1));
             (failed, tmp, str2, cnt2) = lp_item has_mask func str1 cnt
         in if failed then (Some (str2, cnt2), flag, msk)
            else
              (let flag' = (if \<not> is_neg then flag OR tmp else flag AND NOT tmp);
                   msk' = (if has_mask then msk OR tmp else msk)
               in case ptr of
                    None \<Rightarrow> (None, flag', msk')
                  | Some i \<Rightarrow> listparser_loop has_mask func (drop (i + 1) str) len2 flag' msk')))"
  by pat_completeness auto
termination
  by (relation "measure (\<lambda>(_, _, _, len, _, _). len)") auto

declare listparser_loop.simps [simp del]

definition listparser ::
  "bool \<Rightarrow> (cstr \<Rightarrow> nat \<Rightarrow> 'w::len word \<times> bool) \<Rightarrow> cstr \<Rightarrow> nat \<Rightarrow> 'w word \<Rightarrow> 'w word \<Rightarrow>
   (cstr \<times> nat) option \<times> 'w word \<times> 'w word" where
  "listparser has_mask func str len flag msk =
     listparser_loop has_mask func str (if len = 0 then length str else len) flag msk"

text \<open>The \<^verbatim>\<open>_err\<close> wrappers report a name without value as a failure.\<close>

definition text2_err :: "(cstr \<Rightarrow> nat \<Rightarrow> 'w::len word) \<Rightarrow> cstr \<Rightarrow> nat \<Rightarrow> 'w word \<times> bool" where
  "text2_err f str len = (let res = f str len in (res, res = 0))"

definition vc_text2bcap_err :: "cstr \<Rightarrow> nat \<Rightarrow> u64 \<times> bool" where
  "vc_text2bcap_err = text2_err vc_text2bcap"

definition vc_list2bcap where
  "vc_list2bcap str len = listparser True vc_text2bcap_err str len"

definition vc_text2ccap_err :: "cstr \<Rightarrow> nat \<Rightarrow> u64 \<times> bool" where
  "vc_text2ccap_err = text2_err vc_text2ccap"

definition vc_list2ccap where
  "vc_list2ccap str len = listparser True vc_text2ccap_err str len"

definition vc_text2cflag_err :: "cstr \<Rightarrow> nat \<Rightarrow> u64 \<times> bool" where
  "vc_text2cflag_err = text2_err vc_text2cflag"

definition vc_list2cflag where
  "vc_list2cflag str len = listparser True vc_text2cflag_err str len"

definition vc_text2ncap_err :: "cstr \<Rightarrow> nat \<Rightarrow> u64 \<times> bool" where
  "vc_text2ncap_err = text2_err vc_text2ncap"

definition vc_list2ncap where
  "vc_list2ncap str len = listparser True vc_text2ncap_err str len"

definition vc_text2nflag_err :: "cstr \<Rightarrow> nat \<Rightarrow> u64 \<times> bool" where
  "vc_text2nflag_err = text2_err vc_text2nflag"

definition vc_list2nflag where
  "vc_list2nflag str len = listparser True vc_text2nflag_err str len"

definition vc_text2umask_err :: "cstr \<Rightarrow> nat \<Rightarrow> u64 \<times> bool" where
  "vc_text2umask_err = text2_err vc_text2umask"

definition vc_list2umask where
  "vc_list2umask str len = listparser True vc_text2umask_err str len"

definition text2personalityflag_err :: "(cstr \<Rightarrow> u32 option) \<Rightarrow> cstr \<Rightarrow> nat \<Rightarrow> u32 \<times> bool" where
  "text2personalityflag_err have = text2_err (vc_text2personalityflag have)"

definition vc_list2personalityflag where
  "vc_list2personalityflag have str len personality =
     (let (err, flag, _) = listparser False (text2personalityflag_err have) str len personality 0 in (err, flag))"

text \<open>The legacy list has no negation, no numbers and stops at the first unknown name.\<close>

function list2cflag_compat_loop :: "cstr \<Rightarrow> nat \<Rightarrow> u32 \<Rightarrow> u32 \<times> (cstr \<times> nat) option" where
  "list2cflag_compat_loop str len res =
     (if len = 0 then (res, None)
      else
        (let ptr = strchr str CHR '','';
             cnt0 = (case ptr of Some i \<Rightarrow> i | None \<Rightarrow> len);
             cnt = (if cnt0 \<ge> len then len else cnt0);
             len' = (if cnt0 \<ge> len then 0 else len - (cnt0 + 1));
             tmp = vc_text2cflag_compat str cnt
         in if tmp \<noteq> 0
            then (case ptr of None \<Rightarrow> (res OR tmp, None)
                  | Some i \<Rightarrow> list2cflag_compat_loop (drop (i + 1) str) len' (res OR tmp))
            else (res, Some (str, cnt))))"
  by pat_completeness auto
termination
  by (relation "measure (\<lambda>(_, len, _). len)") auto

declare list2cflag_compat_loop.simps [simp del]

definition vc_list2cflag_compat :: "cstr \<Rightarrow> nat \<Rightarrow> u32 \<times> (cstr \<times> nat) option" where
  "vc_list2cflag_compat str len = list2cflag_compat_loop str (if len = 0 then length str else len) 0"

section \<open>Sound tables\<close>

definition name_char :: "char \<Rightarrow> bool" where
  "name_char c \<longleftrightarrow> isupper c \<or> islower c \<or> isdigit c \<or> c = CHR ''_''"

text \<open>
  A name the list parser cannot mistake for anything else: it starts with a letter, is not an
  abbreviation of one of the words for all and for no flags, and does not start with the prefix.
\<close>

definition wf_name :: "cstr option \<Rightarrow> cstr \<Rightarrow> bool" where
  "wf_name pre name \<longleftrightarrow>
     name \<noteq> [] \<and> list_all name_char name \<and> (isupper (hd name) \<or> islower (hd name)) \<and>
     list_all (\<lambda>w. map tolower name \<noteq> take (length name) w) [''all'', ''any'', ''none''] \<and>
     (case pre of None \<Rightarrow> True | Some p \<Rightarrow> is_cstr p \<and> map tolower (take 4 p) \<noteq> map tolower (take 4 name))"

definition wf_table :: "cstr option \<Rightarrow> 'v::zero Mapping list \<Rightarrow> bool" where
  "wf_table pre vals \<longleftrightarrow>
     list_all (\<lambda>m. wf_name pre (map_id m) \<and> map_len m = length (map_id m)) vals \<and>
     list_all (\<lambda>m. map_val m \<noteq> 0) vals \<and> distinct (map (map tolower \<circ> map_id) vals)"

lemma name_char_facts:
  assumes "name_char c"
  shows "c \<noteq> NUL" "c \<noteq> CHR '',''" "c \<noteq> CHR ''!''" "c \<noteq> CHR ''~''" "c \<noteq> CHR ''^''"
  using assms by (auto simp: name_char_def isupper_def islower_def isdigit_def)

lemma wf_name_facts:
  assumes "wf_name pre name"
  shows "name \<noteq> []" "is_cstr name" "CHR '','' \<notin> set name" "\<not> is_neg_char (hd name)" "hd name \<noteq> CHR ''^''"
proof -
  have n: "name \<noteq> []" "\<forall>c \<in> set name. name_char c"
    using assms by (auto simp: wf_name_def list_all_iff)
  then have h: "name_char (hd name)" by simp
  show "name \<noteq> []" "is_cstr name" "CHR '','' \<notin> set name" "\<not> is_neg_char (hd name)" "hd name \<noteq> CHR ''^''"
    using n name_char_facts name_char_facts [OF h] by (auto simp: is_cstr_def)
qed

lemma no_number_letter:
  assumes "isupper (hd name) \<or> islower (hd name)" "name \<noteq> []"
  shows "\<not> strto_converted 0 (name @ r)"
proof -
  obtain c s where cs: "name = c # s" using assms(2) by (cases name) auto
  then have c: "isupper c \<or> islower c" using assms(1) by simp
  then have "\<not> isspace c" "c \<noteq> CHR ''-''" "c \<noteq> CHR ''+''" "c \<noteq> CHR ''0''" "\<not> is_base_digit 10 c"
    by (auto simp: isupper_def islower_def isspace_def is_base_digit_def digit_val_def isdigit_def)
  moreover from this have "\<not> has_hex_prefix (c # s @ r)"
    by (auto simp: has_hex_prefix_def split: list.splits)
  ultimately show ?thesis by (simp add: strto_converted_def strto_scan_def cs Let_def)
qed

text \<open>Text of a list of possibly negated names.\<close>

definition item_text :: "bool \<times> cstr \<Rightarrow> cstr" where
  "item_text it = (if fst it then ''!'' else []) @ snd it"

fun items_text :: "(bool \<times> cstr) list \<Rightarrow> cstr" where
  "items_text [] = []"
| "items_text [it] = item_text it"
| "items_text (it # it2 # its) = item_text it @ CHR '','' # items_text (it2 # its)"

lemma is_cstr_items_text: "\<forall>it \<in> set its. is_cstr (snd it) \<Longrightarrow> is_cstr (items_text its)"
  by (induction its rule: items_text.induct) (auto simp: item_text_def)

text \<open>What an item does to the flag word and to the mask.\<close>

definition flag_upd :: "bool \<times> 'w::len word Mapping \<Rightarrow> 'w word \<Rightarrow> 'w word" where
  "flag_upd it f = (if fst it then f AND NOT (map_val (snd it)) else f OR map_val (snd it))"

definition mask_upd :: "bool \<times> 'w::len word Mapping \<Rightarrow> 'w word \<Rightarrow> 'w word" where
  "mask_upd it f = f OR map_val (snd it)"

definition item_names :: "(bool \<times> 'v Mapping) list \<Rightarrow> (bool \<times> cstr) list" where
  "item_names = map (\<lambda>it. (fst it, map_id (snd it)))"

lemma word_lower: "\<forall>wd \<in> {''all'', ''any'', ''none''}. map tolower wd = wd \<and> is_cstr wd"
  by code_simp

locale flag_table =
  fixes vals :: "'w::len word Mapping list" and pre :: "cstr option"
  assumes wf: "wf_table pre vals"
begin

lemma entry_wf:
  assumes "m \<in> set vals"
  shows "wf_name pre (map_id m)" "map_len m = length (map_id m)" "map_val m \<noteq> 0"
  using wf assms by (auto simp: wf_table_def list_all_iff)

lemma entry_unique:
  "i < length vals \<Longrightarrow> j < length vals \<Longrightarrow>
   map tolower (map_id (vals ! i)) = map tolower (map_id (vals ! j)) \<Longrightarrow> i = j"
  using wf by (auto simp: wf_table_def distinct_conv_nth)

text \<open>A name in any capitalisation is found, also at the front of a longer text.\<close>

lemma value2text_name:
  assumes i: "i < length vals" and s: "map tolower s = map tolower (map_id (vals ! i))"
    and c: "is_cstr (s @ r)" and n: "n = length s \<or> n = 0 \<and> r = []"
  shows "value2text (s @ r) n vals = Some i"
proof -
  have ls: "length s = length (map_id (vals ! i))" using s by (metis length_map)
  have ne: "s \<noteq> []" using ls wf_name_facts(1) [OF entry_wf(1)] i nth_mem by fastforce
  have len: "(if n = 0 then length (s @ r) else n) = length s" using n ne by auto
  have cmp: "strncasecmp (length s) (map_id (vals ! j)) (s @ r) = 0 \<and> length s = map_len (vals ! j) \<longleftrightarrow> j = i"
    if j: "j < length vals" for j
  proof -
    have "is_cstr (map_id (vals ! j))" "map_len (vals ! j) = length (map_id (vals ! j))"
      using j entry_wf nth_mem wf_name_facts(2) by blast+
    then have "strncasecmp (length s) (map_id (vals ! j)) (s @ r) = 0 \<and> length s = map_len (vals ! j) \<longleftrightarrow>
        map tolower (map_id (vals ! j)) = map tolower s"
      using c strncasecmp_0_iff [of "map_id (vals ! j)" "s @ r" "length s"]
      by (metis append_eq_conv_conj is_cstr_simps(3) map_eq_imp_length_eq take_all_iff order_refl)
    also have "\<dots> \<longleftrightarrow> j = i" using entry_unique [OF j i] s by auto
    finally show ?thesis .
  qed
  show ?thesis unfolding value2text_def Let_def len
    by (rule find_idx_unique) (use i cmp in auto)
qed

lemma text2val_name:
  assumes m: "m \<in> set vals" and s: "map tolower s = map tolower (map_id m)" and c: "is_cstr (s @ r)"
    and n: "n = length s \<or> n = 0 \<and> r = []"
  shows "text2val vals pre (s @ r) n = map_val m"
proof -
  obtain i where i: "i < length vals" "vals ! i = m" using m by (auto simp: in_set_conv_nth)
  have ne: "s \<noteq> []" using s wf_name_facts(1) [OF entry_wf(1) [OF m]] by auto
  have "removePrefix p (s @ r) n = (s @ r, n)" if p: "pre = Some p" for p
  proof -
    have w: "is_cstr p" "map tolower (take 4 p) \<noteq> map tolower (take 4 s)"
      using entry_wf(1) [OF m] s p by (auto simp: wf_name_def take_map [symmetric])
    show ?thesis
    proof (cases "n > 4 \<or> n = 0")
      case True
      then have "take 4 (s @ r) = take 4 s" using n ne by auto
      then have "strncasecmp 4 p (s @ r) \<noteq> 0" using w c strncasecmp_0_iff [of p "s @ r" 4] by metis
      then show ?thesis by (simp add: removePrefix_def)
    qed (simp add: removePrefix_def)
  qed
  then have "(case pre of None \<Rightarrow> (s @ r, n) | Some p \<Rightarrow> removePrefix p (s @ r) n) = (s @ r, n)"
    by (cases pre) auto
  then show ?thesis
    using value2text_name [OF i(1) _ c n] s i by (simp add: text2val_def)
qed

lemma text2val_prefixed:
  assumes "m \<in> set vals" "pre = Some p" "length p = 4"
  shows "text2val vals pre (p @ map_id m) 0 = map_val m"
proof -
  obtain i where i: "i < length vals" "vals ! i = m" using assms(1) by (auto simp: in_set_conv_nth)
  have w: "is_cstr p" "is_cstr (map_id m)"
    using entry_wf(1) [OF assms(1)] assms(2) wf_name_facts(2) [OF entry_wf(1) [OF assms(1)]]
    by (auto simp: wf_name_def)
  then have "removePrefix p (p @ map_id m) 0 = (map_id m, 0)"
    using assms(3) by (simp add: removePrefix_def strncasecmp_0_iff)
  then show ?thesis
    using value2text_name [OF i(1), of "map_id m" "[]" 0] w i assms(2) by (simp add: text2val_def)
qed

text \<open>The printer removes exactly the value of the name it returns.\<close>

lemma low_bit_set:
  "(\<exists>j. i \<le> j \<and> j < i + n \<and> bit v j) \<Longrightarrow> i + n \<le> LENGTH('v) \<Longrightarrow> bit v (low_bit i n v)"
  for v :: "'v::len word"
proof (induction n arbitrary: i)
  case 0
  then show ?case by auto
next
  case (Suc n)
  have "v AND push_bit i 1 = 0 \<longleftrightarrow> \<not> bit v i"
    by (simp add: and_exp_eq_0_iff_not_bit)
  moreover have "\<exists>j. Suc i \<le> j \<and> j < Suc i + n \<and> bit v j" if "\<not> bit v i"
  proof -
    obtain j where "i \<le> j" "j < i + Suc n" "bit v j" using Suc.prems(1) by blast
    then show ?thesis using that by (intro exI [of _ j]) (cases "j = i"; auto)
  qed
  ultimately show ?case using Suc.IH [of "Suc i"] Suc.prems(2) by auto
qed

lemma lo2text_inverse:
  assumes "lo2text vals v = (Some name, v')"
  shows "text2val vals pre name 0 \<noteq> 0" "v = text2val vals pre name 0 OR v'"
    "text2val vals pre name 0 AND v' = 0"
proof -
  have v0: "v \<noteq> 0" using assms by (auto simp: lo2text_def text2value_def)
  define d where "d = (case searchValue v vals of Some _ \<Rightarrow> v
      | None \<Rightarrow> push_bit (low_bit 0 LENGTH('w) v) 1)"
  obtain i where i: "searchValue d vals = Some i" "name = map_id (vals ! i)" "v' = v AND NOT d"
    using assms v0
    by (auto simp: lo2text_def text2value_def d_def Let_def split: option.splits prod.splits)
  then have il: "i < length vals" "map_val (vals ! i) = d"
    using find_idx_Some [of "\<lambda>m. d = map_val m" vals i] by (auto simp: searchValue_def)
  have "\<exists>j < LENGTH('w). bit v j" using v0 by (auto simp: bit_eq_iff)
  then have low: "bit v (low_bit 0 LENGTH('w) v)" using low_bit_set [of 0 "LENGTH('w)" v] by auto
  have sub: "bit v k" if "bit d k" for k
    using that low by (auto simp: d_def bit_simps split: option.splits)
  have n: "is_cstr name" using i il entry_wf(1) [OF nth_mem] wf_name_facts(2) by blast
  then have t: "text2val vals pre name 0 = d"
    using text2val_name [of "vals ! i" name "[]" 0] i il by simp
  show "text2val vals pre name 0 \<noteq> 0" using t il entry_wf(3) [of "vals ! i"] by auto
  show "v = text2val vals pre name 0 OR v'" "text2val vals pre name 0 AND v' = 0"
    unfolding t i(3) using sub by (auto simp: bit_eq_iff bit_simps)
qed

text \<open>A list of names is parsed into the union of the values, negated names into removals.\<close>

lemma lp_item_name:
  assumes m: "m \<in> set vals" and c: "is_cstr (map_id m @ r)"
  shows "lp_item True (text2_err (text2val vals pre)) (map_id m @ r) (length (map_id m)) =
    (False, map_val m, map_id m @ r, length (map_id m))"
proof -
  let ?n = "map_id m"
  note w = entry_wf [OF m] and f = wf_name_facts [OF entry_wf(1) [OF m]]
  have words: "strncasecmp (length ?n) (?n @ r) wd \<noteq> 0" if wd: "wd \<in> {''all'', ''any'', ''none''}" for wd
  proof -
    have "map tolower ?n \<noteq> take (length ?n) wd" using w(1) wd by (auto simp: wf_name_def)
    moreover have "map tolower wd = wd \<and> is_cstr wd" using wd word_lower by blast
    ultimately show ?thesis using c strncasecmp_0_iff [of "?n @ r" wd "length ?n"]
      by (metis append_eq_conv_conj take_map)
  qed
  have h: "isupper (hd ?n) \<or> islower (hd ?n)" using w(1) by (simp add: wf_name_def)
  have "deref (?n @ r) = hd ?n" using f(1) by (cases ?n) auto
  then have "deref (?n @ r) \<noteq> CHR ''^''" using f(5) by simp
  then have num: "isNumber_lp (?n @ r) (length ?n) e = (False, word_of_int (fst (strtol 0 (?n @ r))) :: 'w word, ?n @ r, length ?n)" for e
    using no_number_letter [OF h f(1), of r] by (simp add: isNumber_lp_def split: prod.splits)
  have "text2val vals pre (?n @ r) (length ?n) = map_val m"
    using text2val_name [OF m refl c, of "length ?n"] by simp
  then show ?thesis using words num f(1) w(3) by (simp add: lp_item_def text2_err_def)
qed

lemma loop_item:
  assumes m: "m \<in> set vals" and r: "r = [] \<or> hd r = CHR '',''" and c: "is_cstr r"
  shows "listparser_loop True (text2_err (text2val vals pre)) (item_text (neg, map_id m) @ r)
      (length (item_text (neg, map_id m) @ r)) flag msk =
    (if r = [] then (None, flag_upd (neg, m) flag, msk OR map_val m)
     else listparser_loop True (text2_err (text2val vals pre)) (tl r) (length (tl r))
       (flag_upd (neg, m) flag) (msk OR map_val m))"
proof -
  let ?n = "map_id m" and ?k = "if neg then 1 else 0 :: nat" and ?str = "item_text (neg, map_id m) @ r"
  note f = wf_name_facts [OF entry_wf(1) [OF m]]
  have k: "length (item_text (neg, ?n)) = ?k + length ?n" by (simp add: item_text_def)
  have comma: "CHR '','' \<notin> set (item_text (neg, ?n))" using f(3) by (auto simp: item_text_def)
  have negs: "length (takeWhile is_neg_char ?str) = ?k" using f(1,4)
    by (cases ?n) (auto simp: item_text_def)
  have d: "drop ?k ?str = ?n @ r" by (simp add: item_text_def)
  have item: "lp_item True (text2_err (text2val vals pre)) (?n @ r) (length ?n) = (False, map_val m, ?n @ r, length ?n)"
    using lp_item_name [OF m] f(2) c by simp
  have odd: "odd ?k = neg" by simp
  show ?thesis
  proof (cases r)
    case Nil
    then have "strchr ?str CHR '','' = None" using comma by (simp add: strchr_None)
    then show ?thesis
      using negs d item k f(1) Nil odd by (subst listparser_loop.simps) (simp add: Let_def flag_upd_def)
  next
    case (Cons x xs)
    then have "strchr ?str CHR '','' = Some (?k + length ?n)" using comma r k by simp
    then show ?thesis
      using negs d item k f(1) Cons odd by (subst listparser_loop.simps) (simp add: Let_def flag_upd_def)
  qed
qed

lemma listparser_items:
  "its \<noteq> [] \<Longrightarrow> \<forall>it \<in> set its. snd it \<in> set vals \<Longrightarrow>
   listparser True (text2_err (text2val vals pre)) (items_text (item_names its)) 0 flag msk =
     (None, fold flag_upd its flag, fold mask_upd its msk)"
proof -
  let ?t = item_names
  have c: "is_cstr (items_text (?t its))" if "\<forall>it \<in> set its. snd it \<in> set vals" for its
    using that wf_name_facts(2) [OF entry_wf(1)] by (intro is_cstr_items_text) (auto simp: item_names_def)
  have "listparser_loop True (text2_err (text2val vals pre)) (items_text (?t its))
      (length (items_text (?t its))) flag msk =
     (None, fold flag_upd its flag, fold mask_upd its msk)"
    if "its \<noteq> []" "\<forall>it \<in> set its. snd it \<in> set vals" for its
    using that
  proof (induction its arbitrary: flag msk rule: induct_list012)
    case (2 it)
    obtain g m where it: "it = (g, m)" by fastforce
    then show ?case using loop_item [of m "[]" g flag msk] 2 by (simp add: item_names_def mask_upd_def)
  next
    case (3 it it2 its)
    obtain g m where it: "it = (g, m)" by fastforce
    have "is_cstr (CHR '','' # items_text (?t (it2 # its)))" using c [of "it2 # its"] 3(4) by simp
    then show ?case
      using loop_item [of m "CHR '','' # items_text (?t (it2 # its))" g flag msk] 3(2,4) it
      by (simp add: item_names_def mask_upd_def)
  qed simp
  then show "its \<noteq> [] \<Longrightarrow> \<forall>it \<in> set its. snd it \<in> set vals \<Longrightarrow> ?thesis"
    by (simp add: listparser_def)
qed

end

interpretation bcap: flag_table bcap_VALUES "Some ''cap_''"
  by unfold_locales code_simp

interpretation ccap: flag_table ccap_VALUES "Some ''vxc_''"
  by unfold_locales code_simp

interpretation cflag: flag_table cflag_VALUES "Some ''vxf_''"
  by unfold_locales code_simp

interpretation ncap: flag_table ncap_VALUES "Some ''nxc_''"
  by unfold_locales code_simp

interpretation nflag: flag_table nflag_VALUES "Some ''nxf_''"
  by unfold_locales code_simp

interpretation umask: flag_table umask_VALUES None
  by unfold_locales code_simp

lemmas list2_defs =
  vc_list2bcap_def vc_list2ccap_def vc_list2cflag_def vc_list2ncap_def vc_list2nflag_def vc_list2umask_def
  vc_text2bcap_err_def vc_text2ccap_err_def vc_text2cflag_err_def vc_text2ncap_err_def
  vc_text2nflag_err_def vc_text2umask_err_def

lemmas text2_defs =
  vc_text2bcap_def vc_text2ccap_def vc_text2cflag_def vc_text2ncap_def vc_text2nflag_def vc_text2umask_def

lemmas lo2text_defs =
  vc_lobcap2text_def vc_loccap2text_def vc_locflag2text_def vc_loncap2text_def vc_lonflag2text_def
  vc_loumask2text_def

section \<open>Properties\<close>

text \<open>
  C27. The list parsers of all six flag tables: a comma-separated list of names from the table, each
  possibly negated with an exclamation mark, is accepted, sets the flags of the plain names, clears
  those of the negated names, in the order of the list, and marks all of them in the mask.\<close>

theorem list2flags_items:
  assumes "its \<noteq> []"
  shows "((\<forall>it \<in> set its. snd it \<in> set bcap_VALUES) \<longrightarrow>
      vc_list2bcap (items_text (item_names its)) 0 flag msk = (None, fold flag_upd its flag, fold mask_upd its msk)) \<and>
     ((\<forall>it \<in> set its. snd it \<in> set ccap_VALUES) \<longrightarrow>
      vc_list2ccap (items_text (item_names its)) 0 flag msk = (None, fold flag_upd its flag, fold mask_upd its msk)) \<and>
     ((\<forall>it \<in> set its. snd it \<in> set cflag_VALUES) \<longrightarrow>
      vc_list2cflag (items_text (item_names its)) 0 flag msk = (None, fold flag_upd its flag, fold mask_upd its msk)) \<and>
     ((\<forall>it \<in> set its. snd it \<in> set ncap_VALUES) \<longrightarrow>
      vc_list2ncap (items_text (item_names its)) 0 flag msk = (None, fold flag_upd its flag, fold mask_upd its msk)) \<and>
     ((\<forall>it \<in> set its. snd it \<in> set nflag_VALUES) \<longrightarrow>
      vc_list2nflag (items_text (item_names its)) 0 flag msk = (None, fold flag_upd its flag, fold mask_upd its msk)) \<and>
     ((\<forall>it \<in> set its. snd it \<in> set umask_VALUES) \<longrightarrow>
      vc_list2umask (items_text (item_names its)) 0 flag msk = (None, fold flag_upd its flag, fold mask_upd its msk))"
  using assms bcap.listparser_items ccap.listparser_items cflag.listparser_items ncap.listparser_items
    nflag.listparser_items umask.listparser_items
  by (simp add: list2_defs text2_defs)

theorem list2flags_items_witness:
  "vc_list2nflag ''!lock,hide_netif'' 0 0xf 0 = (None, 0x0200000e, 0x02000001)"
proof -
  have m: "DECL ''lock'' VC_NXF_INFO_LOCK \<in> set nflag_VALUES" "DECL ''hide_netif'' VC_NXF_HIDE_NETIF \<in> set nflag_VALUES"
    by (simp_all add: nflag_VALUES_def)
  show ?thesis
    using list2flags_items [of "[(True, DECL ''lock'' VC_NXF_INFO_LOCK), (False, DECL ''hide_netif'' VC_NXF_HIDE_NETIF)]"
        "0xf" "0"] m
    by (simp add: item_names_def item_text_def flag_upd_def mask_upd_def DECL_def vc_nxf_defs)
qed

text \<open>
  Printing and parsing of single flags are inverse in all six tables: the name the printer
  returns stands for a non-zero value that is part of the word, and exactly this value is removed
  from the word, so that repeated printing ends and loses nothing.\<close>

lemma lo2text_text2val:
  "(vc_lobcap2text v = (Some name, v') \<longrightarrow>
      (let x = vc_text2bcap name 0 in x \<noteq> 0 \<and> v = x OR v' \<and> x AND v' = 0)) \<and>
     (vc_loccap2text v = (Some name, v') \<longrightarrow>
      (let x = vc_text2ccap name 0 in x \<noteq> 0 \<and> v = x OR v' \<and> x AND v' = 0)) \<and>
     (vc_locflag2text v = (Some name, v') \<longrightarrow>
      (let x = vc_text2cflag name 0 in x \<noteq> 0 \<and> v = x OR v' \<and> x AND v' = 0)) \<and>
     (vc_loncap2text v = (Some name, v') \<longrightarrow>
      (let x = vc_text2ncap name 0 in x \<noteq> 0 \<and> v = x OR v' \<and> x AND v' = 0)) \<and>
     (vc_lonflag2text v = (Some name, v') \<longrightarrow>
      (let x = vc_text2nflag name 0 in x \<noteq> 0 \<and> v = x OR v' \<and> x AND v' = 0)) \<and>
     (vc_loumask2text v = (Some name, v') \<longrightarrow>
      (let x = vc_text2umask name 0 in x \<noteq> 0 \<and> v = x OR v' \<and> x AND v' = 0))"
  using bcap.lo2text_inverse ccap.lo2text_inverse cflag.lo2text_inverse ncap.lo2text_inverse
    nflag.lo2text_inverse umask.lo2text_inverse
  by (simp add: Let_def lo2text_defs text2_defs)

lemma lo2text_text2val_example:
  "vc_lonflag2text 0x0300 = (Some ''single_ip'', 0x0200) \<and> vc_text2nflag ''single_ip'' 0 \<noteq> 0"
proof -
  have e: "vc_lonflag2text 0x0300 = (Some ''single_ip'', 0x0200)" by code_simp
  then show ?thesis using lo2text_text2val [of "0x0300" "''single_ip''" "0x0200"] by (simp add: Let_def)
qed

text \<open>
  The list parser compares only as many characters as the item has with the words for all
  flags and for none, so that every abbreviation of the words counts: a single letter sets every bit.\<close>

lemma list2flags_abbreviations:
  "\<forall>n \<in> {1, 2, 3}. vc_list2bcap (take n ''all'') 0 flag msk = (None, - 1, - 1) \<and>
     vc_list2bcap (take n ''any'') 0 flag msk = (None, - 1, - 1) \<and>
     vc_list2bcap (take n ''none'') 0 flag msk = (None, flag, msk)"
proof -
  have one: "listparser True f w 0 flag msk = (None, flag OR x, msk OR x)"
    if "lp_item True f w (length w) = (False, x, w, length w)" "w \<noteq> []" "CHR '','' \<notin> set w"
      "takeWhile is_neg_char w = []" for f w and x :: u64
    using that by (simp add: listparser_def listparser_loop.simps [of True f w] strchr_None [THEN iffD2] Let_def)
  have A: "\<forall>w \<in> {''a'', ''al'', ''all'', ''an'', ''any''}. w \<noteq> [] \<and> CHR '','' \<notin> set w \<and>
      takeWhile is_neg_char w = [] \<and> (strncasecmp (length w) w ''all'' = 0 \<or> strncasecmp (length w) w ''any'' = 0)"
    by code_simp
  have all: "vc_list2bcap w 0 flag msk = (None, - 1, - 1)"
    if "w \<in> {''a'', ''al'', ''all'', ''an'', ''any''}" for w
    using one [of vc_text2bcap_err w "- 1"] bspec [OF A that] by (simp add: vc_list2bcap_def lp_item_def)
  have N: "\<forall>w \<in> {''n'', ''no'', ''non''}. w \<noteq> [] \<and> CHR '','' \<notin> set w \<and>
      takeWhile is_neg_char w = [] \<and> strncasecmp (length w) w ''all'' \<noteq> 0 \<and>
      strncasecmp (length w) w ''any'' \<noteq> 0 \<and> strncasecmp (length w) w ''none'' = 0"
    by code_simp
  have none: "vc_list2bcap w 0 flag msk = (None, flag, msk)" if "w \<in> {''n'', ''no'', ''non''}" for w
    using one [of vc_text2bcap_err w 0] bspec [OF N that] by (simp add: vc_list2bcap_def lp_item_def)
  show ?thesis by (auto simp: all none numeral_2_eq_2 numeral_3_eq_3)
qed

lemma list2flags_abbreviations_example:
  "vc_list2bcap ''a'' 0 0 0 = (None, - 1, - 1)"
  using list2flags_abbreviations [of 0 0] by simp

text \<open>
  The legacy capability names: every number that has a name is read back from it, with and
  without the prefix.\<close>

lemma cap2text_roundtrip:
  assumes "b < 30"
  shows "\<exists>name. vc_cap2text b = Some name \<and> vc_text2cap name = Some b \<and> vc_text2cap (drop 4 name) = Some b"
proof -
  have "\<forall>b \<in> set [0..<30]. (case vc_cap2text b of None \<Rightarrow> False
      | Some name \<Rightarrow> vc_text2cap name = Some b \<and> vc_text2cap (drop 4 name) = Some b)"
    by code_simp
  moreover have "b \<in> set [0..<30]" using assms by simp
  ultimately have "case vc_cap2text b of None \<Rightarrow> False
      | Some name \<Rightarrow> vc_text2cap name = Some b \<and> vc_text2cap (drop 4 name) = Some b"
    by (rule bspec)
  then show ?thesis by (auto split: option.splits)
qed

lemma cap2text_roundtrip_example: "\<exists>name. vc_cap2text 21 = Some name \<and> vc_text2cap name = Some 21"
  using cap2text_roundtrip [of 21] by auto

text \<open>
  The legacy flag printer looks only at the lowest seven bits, so that it has no name for a
  word that holds only the name space flag, although the table it prints from has one.\<close>

lemma vc_hicflag2text_compat_None:
  "(vc_hicflag2text_compat val = None \<longleftrightarrow> (\<forall>i < 7. \<not> bit val i)) \<and>
   vc_text2cflag_compat ''namespace'' 0 = S_CTX_INFO_NAMESPACE \<and>
   vc_hicflag2text_compat S_CTX_INFO_NAMESPACE = None"
proof (intro conjI)
  have "hicflag_loop val idx = None \<longleftrightarrow> (\<forall>i \<le> idx. \<not> bit val i)" if "idx < 7" for idx
    using that
  proof (induction idx)
    case 0
    have "val AND 1 = 0 \<longleftrightarrow> \<not> bit val 0" using and_exp_eq_0_iff_not_bit [of val 0] by simp
    then show ?case by simp
  next
    case (Suc idx)
    have "val AND push_bit (Suc idx) 1 = 0 \<longleftrightarrow> \<not> bit val (Suc idx)"
      by (simp only: push_bit_of_1 and_exp_eq_0_iff_not_bit)
    then show ?case using Suc by (auto simp: le_Suc_eq)
  qed
  then show "vc_hicflag2text_compat val = None \<longleftrightarrow> (\<forall>i < 7. \<not> bit val i)"
    unfolding vc_hicflag2text_compat_def using less_Suc_eq_le [of _ 6] by simp
qed code_simp+

lemma vc_hicflag2text_compat_None_example: "vc_hicflag2text_compat 128 = None"
  using vc_hicflag2text_compat_None [of 0] by (simp add: s_ctx_info_defs)

end
