(* ===== verification/Vector.thy ===== *)
theory Vector
  imports Prelude "HOL-Library.Multiset"
begin

text \<open>
  The growable array of \<^verbatim>\<open>ensc_vector\<close>, at the level the code works on: a block of bytes, a
  count, an allocation and an element size; elements are slices of the block and are moved by
  \<^verbatim>\<open>memmove\<close>. The relation \<open>vec_rep\<close> says which list of elements a block represents, and each
  operation is shown to implement the list operation it stands for. Fresh memory returned by
  \<^verbatim>\<open>realloc\<close> is the parameter \<open>fresh\<close>; the wrappers end the program when it fails. Sizes are
  natural numbers: a count whose multiples overflow \<^verbatim>\<open>size_t\<close> needs more memory than exists.
  The comparison callbacks and \<^verbatim>\<open>qsort\<close> are parameters.
\<close>

section \<open>The data structure\<close>

type_synonym bytes = "u8 list"
type_synonym compare = "bytes \<Rightarrow> bytes \<Rightarrow> int"

record Vector =
  vdata :: bytes
  vcount :: nat
  vallocated :: nat
  velem_size :: nat

datatype VectorSelfOrgMethod = vecMOVE_FRONT | vecSHIFT_ONCE

definition velem :: "Vector \<Rightarrow> nat \<Rightarrow> bytes" where
  "velem v i = take (velem_size v) (drop (i * velem_size v) (vdata v))"

text \<open>\<^verbatim>\<open>memmove(d+dst, d+src, n)\<close> and \<^verbatim>\<open>memcpy\<close> of foreign bytes into the block.\<close>

definition memmove :: "nat \<Rightarrow> nat \<Rightarrow> nat \<Rightarrow> bytes \<Rightarrow> bytes" where
  "memmove dst src n d = take dst d @ take n (drop src d) @ drop (dst + n) d"

definition poke :: "nat \<Rightarrow> bytes \<Rightarrow> bytes \<Rightarrow> bytes" where
  "poke off x d = take off d @ x @ drop (off + length x) d"

definition Vector_store :: "nat \<Rightarrow> bytes \<Rightarrow> Vector \<Rightarrow> Vector" where
  "Vector_store off x v = v\<lparr>vdata := poke off x (vdata v)\<rparr>"

definition realloc :: "(nat \<Rightarrow> u8) \<Rightarrow> nat \<Rightarrow> bytes \<Rightarrow> bytes" where
  "realloc fresh n d = take n d @ map fresh [length d..<n]"

section \<open>Operations\<close>

definition Vector_init :: "nat \<Rightarrow> Vector" where
  "Vector_init elem_size =
     \<lparr>vdata = [], vcount = 0, vallocated = 0, velem_size = elem_size\<rparr>"

definition Vector_resizeInternal :: "(nat \<Rightarrow> u8) \<Rightarrow> Vector \<Rightarrow> Vector" where
  "Vector_resizeInternal fresh v =
     (let a = vcount v * 20 div 16 + 1
      in v\<lparr>vallocated := a, vdata := realloc fresh (a * velem_size v) (vdata v)\<rparr>)"

definition Vector_resize :: "(nat \<Rightarrow> u8) \<Rightarrow> Vector \<Rightarrow> Vector" where
  "Vector_resize fresh v =
     (if vallocated v * 24 div 16 > vcount v + 1 then Vector_resizeInternal fresh v else v)"

definition Vector_clear :: "Vector \<Rightarrow> Vector" where
  "Vector_clear v = v\<lparr>vcount := 0\<rparr>"

text \<open>Returns the byte offset of the new slot.\<close>

definition Vector_pushback :: "(nat \<Rightarrow> u8) \<Rightarrow> Vector \<Rightarrow> nat \<times> Vector" where
  "Vector_pushback fresh v =
     (let v1 = v\<lparr>vcount := vcount v + 1\<rparr>;
          v2 = (if vallocated v1 < vcount v1 then Vector_resizeInternal fresh v1 else v1)
      in ((vcount v2 - 1) * velem_size v2, v2))"

text \<open>\<open>None\<close> is the failed \<^verbatim>\<open>assert(vec->count>0)\<close>.\<close>

definition Vector_popback :: "Vector \<Rightarrow> Vector option" where
  "Vector_popback v = (if vcount v > 0 then Some (v\<lparr>vcount := vcount v - 1\<rparr>) else None)"

definition Vector_end :: "Vector \<Rightarrow> nat" where
  "Vector_end v = vcount v * velem_size v"

definition Vector_zeroEnd :: "(nat \<Rightarrow> u8) \<Rightarrow> Vector \<Rightarrow> Vector" where
  "Vector_zeroEnd fresh v =
     (let (tmp, v') =
        (if vallocated v \<le> vcount v
         then (let (off, v1) = Vector_pushback fresh v
               in (off, case Vector_popback v1 of Some v2 \<Rightarrow> v2 | None \<Rightarrow> v1))
         else (Vector_end v, v))
      in Vector_store tmp (replicate (velem_size v') 0) v')"

text \<open>The loop of \<^verbatim>\<open>Vector_insert\<close>: \<open>n\<close> slots from slot \<open>i\<close> are left before \<^verbatim>\<open>end_ptr\<close>.\<close>

fun insert_loop :: "compare \<Rightarrow> bytes \<Rightarrow> nat \<Rightarrow> nat \<Rightarrow> nat \<Rightarrow> Vector \<Rightarrow> nat \<times> Vector" where
  "insert_loop cmp key i 0 end_ptr v = (end_ptr, v)"
| "insert_loop cmp key i (Suc n) end_ptr v =
     (if cmp key (velem v i) < 0
      then (let data = i * velem_size v
            in (data, v\<lparr>vdata := memmove (data + velem_size v) data (end_ptr - data) (vdata v)\<rparr>))
      else insert_loop cmp key (Suc i) n end_ptr v)"

definition Vector_insert :: "(nat \<Rightarrow> u8) \<Rightarrow> Vector \<Rightarrow> bytes \<Rightarrow> compare \<Rightarrow> nat \<times> Vector" where
  "Vector_insert fresh v key cmp =
     (let (end_ptr, v') = Vector_pushback fresh v
      in insert_loop cmp key 0 (vcount v' - 1) end_ptr v')"

text \<open>The scan of \<^verbatim>\<open>Vector_searchSelfOrg\<close>: the first of the slots \<open>i, \<dots>, i+n-1\<close> that matches.\<close>

fun selforg_scan :: "compare \<Rightarrow> bytes \<Rightarrow> nat \<Rightarrow> nat \<Rightarrow> Vector \<Rightarrow> nat option" where
  "selforg_scan cmp key i 0 v = None"
| "selforg_scan cmp key i (Suc n) v =
     (if cmp (velem v i) key \<noteq> 0 then selforg_scan cmp key (Suc i) n v else Some i)"

definition Vector_searchSelfOrg ::
  "Vector \<Rightarrow> bytes \<Rightarrow> compare \<Rightarrow> VectorSelfOrgMethod \<Rightarrow> nat option \<times> Vector" where
  "Vector_searchSelfOrg v key cmp meth =
     (case selforg_scan cmp key 0 (vcount v) v of
        None \<Rightarrow> (None, v)
      | Some i \<Rightarrow>
          if 0 < i then
            (let es = velem_size v; ptr = i * es; tmp = velem v i
             in case meth of
                  vecMOVE_FRONT \<Rightarrow>
                    (Some 0, v\<lparr>vdata := poke 0 tmp (memmove es 0 ptr (vdata v))\<rparr>)
                | vecSHIFT_ONCE \<Rightarrow>
                    (Some (ptr - es), v\<lparr>vdata := poke (ptr - es) tmp (memmove ptr (ptr - es) es (vdata v))\<rparr>))
          else (Some 0, v))"

definition Vector_sort :: "(compare \<Rightarrow> bytes list \<Rightarrow> bytes list) \<Rightarrow> Vector \<Rightarrow> compare \<Rightarrow> Vector" where
  "Vector_sort qsort v cmp =
     (if vcount v = 0 then v
      else v\<lparr>vdata := concat (qsort cmp (map (velem v) [0..<vcount v])) @
                      drop (vcount v * velem_size v) (vdata v)\<rparr>)"

text \<open>\<^verbatim>\<open>bsearch\<close> on the slots \<open>l, \<dots>, u-1\<close>, by halving; \<open>el\<close> reads a slot.\<close>

function bsearch_idx :: "('k \<Rightarrow> 'a \<Rightarrow> int) \<Rightarrow> 'k \<Rightarrow> (nat \<Rightarrow> 'a) \<Rightarrow> nat \<Rightarrow> nat \<Rightarrow> nat option" where
  "bsearch_idx cmp key el l u =
     (if l < u
      then let idx = (l + u) div 2; c = cmp key (el idx)
           in if c < 0 then bsearch_idx cmp key el l idx
              else if c > 0 then bsearch_idx cmp key el (Suc idx) u
              else Some idx
      else None)"
  by pat_completeness auto
termination
  by (relation "measure (\<lambda>(cmp, key, el, l, u). u - l)") auto

declare bsearch_idx.simps [simp del]

definition Vector_search :: "Vector \<Rightarrow> bytes \<Rightarrow> compare \<Rightarrow> nat option" where
  "Vector_search v key cmp =
     (if vcount v = 0 then None
      else map_option (\<lambda>i. i * velem_size v) (bsearch_idx cmp key (velem v) 0 (vcount v)))"

text \<open>The inner loop of \<^verbatim>\<open>Vector_unique\<close>, with \<open>n\<close> slots left.\<close>

fun unique_scan :: "compare \<Rightarrow> Vector \<Rightarrow> nat \<Rightarrow> nat \<Rightarrow> nat \<Rightarrow> nat" where
  "unique_scan cmp v idx next 0 = next"
| "unique_scan cmp v idx next (Suc n) =
     (if cmp (velem v idx) (velem v next) = 0 then unique_scan cmp v idx (Suc next) n else next)"

definition unique_step :: "compare \<Rightarrow> nat \<Rightarrow> Vector \<Rightarrow> Vector" where
  "unique_step cmp idx v =
     (let next = unique_scan cmp v idx (idx + 1) (vcount v - (idx + 1)); es = velem_size v
      in if next = vcount v then v\<lparr>vcount := idx + 1\<rparr>
         else if next - idx > 1 then
           v\<lparr>vdata := memmove (idx * es + es) (next * es) ((vcount v - next) * es) (vdata v),
             vcount := vcount v - (next - idx - 1)\<rparr>
         else v)"

lemma unique_scan_range:
  "next \<le> unique_scan cmp v idx next n \<and> unique_scan cmp v idx next n \<le> next + n"
proof (induction n arbitrary: "next")
  case 0
  then show ?case by simp
next
  case (Suc n)
  show ?case using Suc.IH [of "Suc next"] by auto
qed

lemma unique_step_count: "idx + 1 < vcount v \<Longrightarrow> vcount (unique_step cmp idx v) \<le> vcount v"
  using unique_scan_range [of "idx + 1" cmp v idx "vcount v - (idx + 1)"]
  by (auto simp: unique_step_def Let_def)

function unique_loop :: "compare \<Rightarrow> nat \<Rightarrow> Vector \<Rightarrow> Vector" where
  "unique_loop cmp idx v =
     (if idx + 1 < vcount v then unique_loop cmp (idx + 1) (unique_step cmp idx v) else v)"
  by pat_completeness auto
termination
proof (relation "measure (\<lambda>(cmp, idx, v). vcount v - idx)")
  fix cmp :: compare and idx :: nat and v :: Vector
  assume "idx + 1 < vcount v"
  with unique_step_count [OF this, of cmp]
  show "((cmp, idx + 1, unique_step cmp idx v), cmp, idx, v) \<in> measure (\<lambda>(cmp, idx, v). vcount v - idx)"
    by simp
qed simp

declare unique_loop.simps [simp del]

definition Vector_unique :: "Vector \<Rightarrow> compare \<Rightarrow> Vector" where
  "Vector_unique v cmp = (if vcount v < 2 then v else unique_loop cmp 0 v)"

text \<open>\<^verbatim>\<open>Vector_foreach\<close> runs a state transformer over the slots in order.\<close>

fun foreach_loop :: "nat \<Rightarrow> nat \<Rightarrow> Vector \<Rightarrow> (bytes \<Rightarrow> 's \<Rightarrow> 's) \<Rightarrow> 's \<Rightarrow> 's" where
  "foreach_loop i 0 v func s = s"
| "foreach_loop i (Suc n) v func s = foreach_loop (Suc i) n v func (func (velem v i) s)"

definition Vector_foreach :: "Vector \<Rightarrow> (bytes \<Rightarrow> 's \<Rightarrow> 's) \<Rightarrow> 's \<Rightarrow> 's" where
  "Vector_foreach v func s = foreach_loop 0 (vcount v) v func s"

section \<open>Slices of concatenations\<close>

definition all_len :: "nat \<Rightarrow> 'a list list \<Rightarrow> bool" where
  "all_len es xs \<longleftrightarrow> (\<forall>x \<in> set xs. length x = es)"

lemma all_len_simps [simp]:
  "all_len es []"
  "all_len es (x # xs) \<longleftrightarrow> length x = es \<and> all_len es xs"
  "all_len es (xs @ ys) \<longleftrightarrow> all_len es xs \<and> all_len es ys"
  by (auto simp: all_len_def)

lemma all_len_take [simp]: "all_len es xs \<Longrightarrow> all_len es (take n xs)"
  by (auto simp: all_len_def dest: in_set_takeD)

lemma all_len_drop [simp]: "all_len es xs \<Longrightarrow> all_len es (drop n xs)"
  by (auto simp: all_len_def dest: in_set_dropD)

lemma all_len_nth [simp]: "all_len es xs \<Longrightarrow> i < length xs \<Longrightarrow> length (xs ! i) = es"
  by (auto simp: all_len_def)

lemma length_concat_all: "all_len es xs \<Longrightarrow> length (concat xs) = length xs * es"
  by (induction xs) auto

lemma take_concat_all: "all_len es xs \<Longrightarrow> take (i * es) (concat xs) = concat (take i xs)"
proof (induction xs arbitrary: i)
  case Nil
  then show ?case by simp
next
  case (Cons x xs)
  then show ?case by (cases i) auto
qed

lemma drop_concat_all: "all_len es xs \<Longrightarrow> drop (i * es) (concat xs) = concat (drop i xs)"
proof (induction xs arbitrary: i)
  case Nil
  then show ?case by simp
next
  case (Cons x xs)
  then show ?case by (cases i) auto
qed

lemma slice_concat_all:
  assumes "all_len es xs" "i < length xs"
  shows "take es (drop (i * es) (concat xs)) = xs ! i"
proof -
  have "drop i xs = xs ! i # drop (Suc i) xs" using assms(2) by (simp add: Cons_nth_drop_Suc)
  then show ?thesis using assms by (simp add: drop_concat_all)
qed

section \<open>Representation\<close>

definition vec_rep :: "Vector \<Rightarrow> bytes list \<Rightarrow> bool" where
  "vec_rep v xs \<longleftrightarrow>
     0 < velem_size v \<and> all_len (velem_size v) xs \<and> vcount v = length xs \<and>
     vcount v \<le> vallocated v \<and> length (vdata v) = vallocated v * velem_size v \<and>
     take (vcount v * velem_size v) (vdata v) = concat xs"

lemma vec_rep_split:
  assumes "vec_rep v xs"
  obtains rest where "vdata v = concat xs @ rest"
    and "length rest = (vallocated v - vcount v) * velem_size v"
proof -
  have "vdata v = concat xs @ drop (vcount v * velem_size v) (vdata v)"
    by (metis assms append_take_drop_id vec_rep_def)
  moreover have "length (drop (vcount v * velem_size v) (vdata v)) =
      (vallocated v - vcount v) * velem_size v"
    using assms by (simp add: vec_rep_def diff_mult_distrib)
  ultimately show thesis by (rule that)
qed

lemma vec_repI:
  assumes "0 < velem_size v" "all_len (velem_size v) xs" "vcount v = length xs"
    and "vcount v \<le> vallocated v" "length (vdata v) = vallocated v * velem_size v"
    and "vdata v = concat xs @ rest"
  shows "vec_rep v xs"
  using assms length_concat_all [of "velem_size v" xs] by (simp add: vec_rep_def)

lemma concat_split_nth:
  "i < length xs \<Longrightarrow> concat xs = concat (take i xs) @ xs ! i @ concat (drop (Suc i) xs)"
  by (metis concat.simps(2) concat_append id_take_nth_drop)

lemma velem_rep:
  assumes "vec_rep v xs" "i < length xs"
  shows "velem v i = xs ! i"
proof -
  obtain rest where d: "vdata v = concat xs @ rest" using assms(1) by (rule vec_rep_split)
  have l: "all_len (velem_size v) xs" using assms(1) by (simp add: vec_rep_def)
  then have "length (concat (take i xs)) = i * velem_size v"
    using assms(2) length_concat_all [of "velem_size v" "take i xs"] by simp
  then show ?thesis using assms(2) l by (simp add: velem_def d concat_split_nth [of i xs])
qed

lemma vec_rep_init: "0 < es \<Longrightarrow> vec_rep (Vector_init es) []"
  by (simp add: vec_rep_def Vector_init_def)

lemma vec_rep_clear: "vec_rep v xs \<Longrightarrow> vec_rep (Vector_clear v) []"
  by (simp add: vec_rep_def Vector_clear_def)

lemma length_realloc [simp]: "length (realloc fresh n d) = n"
  by (simp add: realloc_def)

lemma realloc_prefix: "k \<le> n \<Longrightarrow> k \<le> length d \<Longrightarrow> take k (realloc fresh n d) = take k d"
  by (simp add: realloc_def)

lemma resizeInternal_sel [simp]:
  "vcount (Vector_resizeInternal fresh v) = vcount v"
  "velem_size (Vector_resizeInternal fresh v) = velem_size v"
  "length (vdata (Vector_resizeInternal fresh v)) =
     vallocated (Vector_resizeInternal fresh v) * velem_size v"
  "vcount v \<le> vallocated (Vector_resizeInternal fresh v)"
  by (simp_all add: Vector_resizeInternal_def Let_def)

lemma resizeInternal_prefix:
  assumes "k \<le> vcount v" "k * velem_size v \<le> length (vdata v)"
  shows "take (k * velem_size v) (vdata (Vector_resizeInternal fresh v)) =
    take (k * velem_size v) (vdata v)"
proof -
  have "k * velem_size v \<le> (vcount v * 20 div 16 + 1) * velem_size v"
    by (rule mult_le_mono1) (use assms(1) in linarith)
  then show ?thesis using assms(2) by (simp add: Vector_resizeInternal_def Let_def realloc_prefix)
qed

lemma vec_rep_resizeInternal:
  assumes "vec_rep v xs"
  shows "vec_rep (Vector_resizeInternal fresh v) xs"
proof -
  have "vcount v * velem_size v \<le> length (vdata v)" using assms by (simp add: vec_rep_def)
  then show ?thesis
    using assms resizeInternal_prefix [of "vcount v" v fresh] resizeInternal_sel(4) [of v fresh]
    by (auto simp: vec_rep_def simp del: resizeInternal_sel(4))
qed

lemma vec_rep_resize: "vec_rep v xs \<Longrightarrow> vec_rep (Vector_resize fresh v) xs"
  by (simp add: Vector_resize_def vec_rep_resizeInternal)

lemma vec_rep_popback:
  assumes "vec_rep v xs" "xs \<noteq> []"
  shows "\<exists>v'. Vector_popback v = Some v' \<and> vec_rep v' (butlast xs)"
proof -
  have l: "all_len (velem_size v) xs" and c: "vcount v = length xs"
    using assms(1) by (auto simp: vec_rep_def)
  have "(length xs - 1) * velem_size v \<le> length xs * velem_size v"
    by (rule mult_le_mono1) simp
  moreover have "concat xs = take (length xs * velem_size v) (vdata v)"
    using assms(1) c by (simp add: vec_rep_def)
  ultimately have "take ((length xs - 1) * velem_size v) (vdata v) =
      take ((length xs - 1) * velem_size v) (concat xs)"
    by (simp only: take_take min_absorb1)
  then have "take ((length xs - 1) * velem_size v) (vdata v) = concat (butlast xs)"
    using l by (simp add: take_concat_all butlast_conv_take)
  then show ?thesis using assms
    by (auto simp: Vector_popback_def vec_rep_def all_len_def dest: in_set_butlastD)
qed

text \<open>What \<^verbatim>\<open>Vector_pushback\<close> guarantees before the caller fills the slot.\<close>

lemma pushback_slot:
  assumes "vec_rep v xs" "Vector_pushback fresh v = (off, v')"
  shows "off = length xs * velem_size v" "velem_size v' = velem_size v"
    "vcount v' = Suc (length xs)" "vcount v' \<le> vallocated v'"
    "length (vdata v') = vallocated v' * velem_size v"
    "take off (vdata v') = concat xs"
proof -
  let ?v1 = "v\<lparr>vcount := vcount v + 1\<rparr>"
  have r: "0 < velem_size v" "all_len (velem_size v) xs" "vcount v = length xs"
    "vcount v \<le> vallocated v" "length (vdata v) = vallocated v * velem_size v"
    "take (vcount v * velem_size v) (vdata v) = concat xs"
    using assms(1) by (auto simp: vec_rep_def)
  have "take (vcount v * velem_size ?v1) (vdata (Vector_resizeInternal fresh ?v1)) =
      take (vcount v * velem_size ?v1) (vdata ?v1)"
    by (rule resizeInternal_prefix) (use r in auto)
  then have p: "take (length xs * velem_size v) (vdata (Vector_resizeInternal fresh ?v1)) = concat xs"
    using r by simp
  show "off = length xs * velem_size v" "velem_size v' = velem_size v"
    "vcount v' = Suc (length xs)" "vcount v' \<le> vallocated v'"
    "length (vdata v') = vallocated v' * velem_size v"
    "take off (vdata v') = concat xs"
    using assms(2) r p resizeInternal_sel(3) [of fresh ?v1] resizeInternal_sel(4) [of ?v1 fresh]
    by (auto simp: Vector_pushback_def Let_def simp del: resizeInternal_sel(3,4) split: if_splits)
qed

lemma slot_in_bounds:
  assumes "Suc n \<le> a" "length d = a * es"
  shows "n * es + es \<le> length (d :: bytes)"
proof -
  have "Suc n * es \<le> a * es" using assms(1) by (rule mult_le_mono1)
  then show ?thesis using assms(2) by simp
qed

lemma length_poke [simp]: "off + length x \<le> length d \<Longrightarrow> length (poke off x d) = length d"
  by (simp add: poke_def)

lemma vec_rep_pushback:
  assumes "vec_rep v xs" "Vector_pushback fresh v = (off, v')" "length x = velem_size v"
  shows "vec_rep (Vector_store off x v') (xs @ [x])"
proof (rule vec_repI)
  note s = pushback_slot [OF assms(1,2)]
  have b: "off + length x \<le> length (vdata v')"
    using slot_in_bounds [of "length xs" "vallocated v'" "vdata v'" "velem_size v"] s assms(3) by simp
  show "vdata (Vector_store off x v') = concat (xs @ [x]) @ drop (off + length x) (vdata v')"
    by (simp add: Vector_store_def poke_def s(6) [symmetric])
  show "length (vdata (Vector_store off x v')) =
      vallocated (Vector_store off x v') * velem_size (Vector_store off x v')"
    using b s by (simp add: Vector_store_def)
qed (use assms pushback_slot [OF assms(1,2)] in \<open>auto simp: Vector_store_def vec_rep_def\<close>)


section \<open>Sorted insertion\<close>

text \<open>The position \<^verbatim>\<open>Vector_insert\<close> chooses: before the first greater element.\<close>

fun ins_pos :: "('k \<Rightarrow> 'a \<Rightarrow> int) \<Rightarrow> 'k \<Rightarrow> 'a list \<Rightarrow> nat" where
  "ins_pos cmp key [] = 0"
| "ins_pos cmp key (x # xs) = (if cmp key x < 0 then 0 else Suc (ins_pos cmp key xs))"

lemma ins_pos_le: "ins_pos cmp key xs \<le> length xs"
  by (induction xs) auto

text \<open>
  The list after the caller has stored \<open>x\<close> into the slot that \<^verbatim>\<open>Vector_insert\<close> opened for \<open>key\<close>.
\<close>

definition ins_list :: "('k \<Rightarrow> 'a \<Rightarrow> int) \<Rightarrow> 'k \<Rightarrow> 'a \<Rightarrow> 'a list \<Rightarrow> 'a list" where
  "ins_list cmp key x xs =
     take (ins_pos cmp key xs) xs @ x # drop (ins_pos cmp key xs) xs"

lemma ins_list_simps [simp]:
  "ins_list cmp key x [] = [x]"
  "ins_list cmp key x (y # ys) = (if cmp key y < 0 then x # y # ys else y # ins_list cmp key x ys)"
  by (auto simp: ins_list_def)

lemma insert_loop_pos:
  assumes "\<And>j. i \<le> j \<Longrightarrow> j < i + n \<Longrightarrow> velem v j = xs ! j" "i + n = length xs"
  shows "insert_loop cmp key i n end_ptr v =
    (let p = i + ins_pos cmp key (drop i xs); es = velem_size v
     in if p = length xs then (end_ptr, v)
        else (p * es, v\<lparr>vdata := memmove (p * es + es) (p * es) (end_ptr - p * es) (vdata v)\<rparr>))"
  using assms
proof (induction n arbitrary: i)
  case 0
  then show ?case by simp
next
  case (Suc n)
  then have i: "i < length xs" by simp
  have d: "drop i xs = xs ! i # drop (Suc i) xs" using i by (simp add: Cons_nth_drop_Suc)
  have "insert_loop cmp key (Suc i) n end_ptr v =
    (let p = Suc i + ins_pos cmp key (drop (Suc i) xs); es = velem_size v
     in if p = length xs then (end_ptr, v)
        else (p * es, v\<lparr>vdata := memmove (p * es + es) (p * es) (end_ptr - p * es) (vdata v)\<rparr>))"
    by (rule Suc.IH) (use Suc.prems in auto)
  then show ?case using Suc.prems(1) [of i] i by (simp add: d Let_def)
qed

lemma memmove_up:
  assumes "d = a @ b @ gap @ rest" "length gap = n"
  shows "memmove (length a + n) (length a) (length b) d = a @ take n (b @ gap) @ b @ rest"
  using assms by (simp add: memmove_def)

lemma vec_rep_insert:
  assumes rep: "vec_rep v xs" and key: "length x = velem_size v"
    and ins: "Vector_insert fresh v key cmp = (off, v')"
  shows "vec_rep (Vector_store off x v') (ins_list cmp key x xs)"
proof -
  obtain e w where pb: "Vector_pushback fresh v = (e, w)" by fastforce
  note s = pushback_slot [OF rep pb]
  let ?es = "velem_size v" and ?p = "ins_pos cmp key xs"
  have all: "all_len ?es xs" and es: "0 < ?es" using rep by (auto simp: vec_rep_def)
  have b: "length xs * ?es + ?es \<le> length (vdata w)"
    using slot_in_bounds [of "length xs" "vallocated w" "vdata w" ?es] s by simp
  define gap where "gap = take ?es (drop (length xs * ?es) (vdata w))"
  define rest where "rest = drop (length xs * ?es + ?es) (vdata w)"
  have gap: "length gap = ?es" using b by (simp add: gap_def)
  have d: "vdata w = concat xs @ gap @ rest"
    using s(1,6) by (metis append_take_drop_id drop_drop gap_def rest_def add.commute)
  have el: "velem w j = xs ! j" if "j < length xs" for j
    using that all s(2) length_concat_all [of ?es "take j xs"]
    by (simp add: velem_def d concat_split_nth [of j xs])
  have ins': "(off, v') = (if ?p = length xs then (e, w)
      else (?p * ?es, w\<lparr>vdata := memmove (?p * ?es + ?es) (?p * ?es) (e - ?p * ?es) (vdata w)\<rparr>))"
    using ins pb s insert_loop_pos [of 0 "length xs" w xs cmp key e] el
    by (simp add: Vector_insert_def Let_def)
  show ?thesis
  proof (cases "?p = length xs")
    case True
    then have "ins_list cmp key x xs = xs @ [x]" by (simp add: ins_list_def)
    moreover have "off = e" "v' = w" using ins' True by auto
    ultimately show ?thesis using vec_rep_pushback [OF rep pb key] by simp
  next
    case False
    then have p: "?p < length xs" using ins_pos_le [of cmp key xs] by simp
    let ?a = "concat (take ?p xs)" and ?b = "concat (drop ?p xs)"
    have la: "length ?a = ?p * ?es" and lb: "length ?b = e - ?p * ?es"
      using p s(1) length_concat_all [of ?es "take ?p xs"] length_concat_all [of ?es "drop ?p xs"] all
      by (simp_all add: diff_mult_distrib)
    have ab: "concat xs = ?a @ ?b" by (metis append_take_drop_id concat_append)
    have "memmove (?p * ?es + ?es) (?p * ?es) (e - ?p * ?es) (vdata w) =
        ?a @ take ?es (?b @ gap) @ ?b @ rest"
      using memmove_up [of "vdata w" ?a ?b gap rest ?es] d ab gap la lb by simp
    then have v': "v' = w\<lparr>vdata := ?a @ take ?es (?b @ gap) @ ?b @ rest\<rparr>" and off: "off = length ?a"
      using ins' False la by auto
    have t: "length (take ?es (?b @ gap)) = ?es" using gap by simp
    have "poke off x (vdata v') = ?a @ x @ ?b @ rest"
      using key t by (simp add: poke_def v' off)
    then have st: "Vector_store off x v' = w\<lparr>vdata := concat (ins_list cmp key x xs) @ rest\<rparr>"
      by (simp add: Vector_store_def v' ins_list_def)
    show ?thesis
    proof (rule vec_repI)
      show "vdata (Vector_store off x v') = concat (ins_list cmp key x xs) @ rest"
        by (simp add: st)
      have "length (concat (ins_list cmp key x xs) @ rest) = length (vdata w)"
        using key gap by (simp add: ins_list_def d ab)
      then show "length (vdata (Vector_store off x v')) =
          vallocated (Vector_store off x v') * velem_size (Vector_store off x v')"
        using s by (simp add: st)
    qed (use all es key s p in \<open>auto simp: st ins_list_def\<close>)
  qed
qed

lemma insert_slot_in_bounds:
  assumes rep: "vec_rep v xs" and ins: "Vector_insert fresh v key cmp = (off, v')"
  shows "off + velem_size v \<le> length (vdata v')"
proof -
  obtain e w where pb: "Vector_pushback fresh v = (e, w)" by fastforce
  note s = pushback_slot [OF rep pb]
  have b: "length xs * velem_size v + velem_size v \<le> length (vdata w)"
    using slot_in_bounds [of "length xs" "vallocated w" "vdata w" "velem_size v"] s by simp
  have "insert_loop cmp key i n e w = (off, v') \<Longrightarrow> i + n = length xs \<Longrightarrow>
      off \<le> e \<and> length (vdata v') = length (vdata w)" for i n
  proof (induction n arbitrary: i)
    case 0
    then show ?case by simp
  next
    case (Suc n)
    have "i * velem_size v + velem_size v \<le> length xs * velem_size v"
      using mult_le_mono1 [of "Suc i" "length xs" "velem_size v"] Suc.prems(2) by simp
    then have le: "i * velem_size v + velem_size v \<le> e" using s(1) by simp
    show ?case
    proof (cases "cmp key (velem w i) < 0")
      case True
      then show ?thesis using Suc.prems le s(1,2) b by (auto simp: Let_def memmove_def)
    next
      case False
      then show ?thesis using Suc.IH [of "Suc i"] Suc.prems by simp
    qed
  qed
  from this [of 0 "length xs"] show ?thesis
    using ins pb s b by (auto simp: Vector_insert_def)
qed

lemma mset_ins_list: "mset (ins_list cmp key x xs) = add_mset x (mset xs)"
  by (induction xs) auto

lemma set_ins_list [simp]: "set (ins_list cmp key x xs) = insert x (set xs)"
  by (induction xs) auto

lemma length_ins_list [simp]: "length (ins_list cmp key x xs) = Suc (length xs)"
  by (induction xs) auto

text \<open>
  Callbacks that compare a key with an element the way a linear order on a key field does; the
  vectors the programs search are kept strictly increasing in that field.
\<close>

definition key_cmp :: "('k \<Rightarrow> 'a \<Rightarrow> int) \<Rightarrow> ('a \<Rightarrow> 'k::linorder) \<Rightarrow> bool" where
  "key_cmp cmp kf \<longleftrightarrow>
     (\<forall>k x. (cmp k x < 0 \<longleftrightarrow> k < kf x) \<and> (cmp k x = 0 \<longleftrightarrow> k = kf x))"

definition key_sorted :: "('a \<Rightarrow> 'k::linorder) \<Rightarrow> 'a list \<Rightarrow> bool" where
  "key_sorted kf xs \<longleftrightarrow> sorted_wrt (\<lambda>x y. kf x < kf y) xs"

lemma key_sorted_simps [simp]:
  "key_sorted kf []"
  "key_sorted kf (x # xs) \<longleftrightarrow> (\<forall>y \<in> set xs. kf x < kf y) \<and> key_sorted kf xs"
  by (auto simp: key_sorted_def)

lemma key_sorted_ins_list:
  assumes cmp: "\<forall>y \<in> set xs. cmp (kf x) y < 0 \<longleftrightarrow> kf x < kf y"
    and new: "kf x \<notin> kf ` set xs" and srt: "key_sorted kf xs"
  shows "key_sorted kf (ins_list cmp (kf x) x xs)"
  using assms
proof (induction xs)
  case Nil
  then show ?case by simp
next
  case (Cons y ys)
  then show ?case using less_trans by (force simp: not_less_iff_gr_or_eq)
qed

section \<open>Self-organising search\<close>

text \<open>The element found moves to the front, or one place towards it.\<close>

definition promote :: "VectorSelfOrgMethod \<Rightarrow> nat \<Rightarrow> 'a list \<Rightarrow> 'a list" where
  "promote meth i xs =
     (if i = 0 then xs
      else case meth of
             vecMOVE_FRONT \<Rightarrow> xs ! i # take i xs @ drop (Suc i) xs
           | vecSHIFT_ONCE \<Rightarrow> take (i - 1) xs @ xs ! i # xs ! (i - 1) # drop (Suc i) xs)"

definition promoted_idx :: "VectorSelfOrgMethod \<Rightarrow> nat \<Rightarrow> nat" where
  "promoted_idx meth i = (case meth of vecMOVE_FRONT \<Rightarrow> 0 | vecSHIFT_ONCE \<Rightarrow> i - 1)"

lemma split_around:
  "0 < i \<Longrightarrow> i < length xs \<Longrightarrow> xs = take (i - 1) xs @ xs ! (i - 1) # xs ! i # drop (Suc i) xs"
proof -
  assume i: "0 < i" "i < length xs"
  then have "drop (i - 1) xs = xs ! (i - 1) # drop i xs"
    using Cons_nth_drop_Suc [of "i - 1" xs] by simp
  also have "drop i xs = xs ! i # drop (Suc i) xs" using i by (simp add: Cons_nth_drop_Suc)
  finally show ?thesis by (metis append_take_drop_id)
qed

lemma mset_promote: "i < length xs \<Longrightarrow> mset (promote meth i xs) = mset xs"
proof (cases "i = 0")
  case False
  assume i: "i < length xs"
  have m: "mset xs = mset (take i xs @ xs ! i # drop (Suc i) xs)"
    using i by (simp add: id_take_nth_drop [symmetric])
  have s: "mset xs = mset (take (i - 1) xs @ xs ! (i - 1) # xs ! i # drop (Suc i) xs)"
    using split_around [of i xs] i False by simp
  show ?thesis using m s False by (cases meth) (simp_all add: promote_def)
qed (simp add: promote_def)

lemma promote_nth: "i < length xs \<Longrightarrow> promote meth i xs ! promoted_idx meth i = xs ! i"
  by (cases meth) (auto simp: promote_def promoted_idx_def nth_append)

lemma length_promote: "i < length xs \<Longrightarrow> length (promote meth i xs) = length xs"
  using mset_promote [of i xs meth] by (metis size_mset)

lemma selforg_scan_find:
  assumes "\<And>j. j < i + n \<Longrightarrow> velem v j = xs ! j" "i + n = length xs"
  shows "selforg_scan cmp key i n v = map_option ((+) i) (find_idx (\<lambda>x. cmp x key = 0) (drop i xs))"
  using assms
proof (induction n arbitrary: i)
  case 0
  then show ?case by simp
next
  case (Suc n)
  then have "drop i xs = xs ! i # drop (Suc i) xs" by (simp add: Cons_nth_drop_Suc)
  moreover have "selforg_scan cmp key (Suc i) n v =
      map_option ((+) (Suc i)) (find_idx (\<lambda>x. cmp x key = 0) (drop (Suc i) xs))"
    by (rule Suc.IH) (use Suc.prems in auto)
  ultimately show ?case using Suc.prems(1) [of i]
    by (cases "find_idx (\<lambda>x. cmp x key = 0) (drop (Suc i) xs)") auto
qed

lemma vec_rep_update:
  assumes "vec_rep v xs" "vdata v = concat xs @ rest" "all_len (velem_size v) ys"
    and "length ys = length xs"
  shows "vec_rep (v\<lparr>vdata := concat ys @ rest\<rparr>) ys"
proof (rule vec_repI)
  have "length (concat ys) = length (concat xs)"
    using assms length_concat_all [of "velem_size v" ys] length_concat_all [of "velem_size v" xs]
    by (simp add: vec_rep_def)
  then show "length (vdata (v\<lparr>vdata := concat ys @ rest\<rparr>)) =
      vallocated (v\<lparr>vdata := concat ys @ rest\<rparr>) * velem_size (v\<lparr>vdata := concat ys @ rest\<rparr>)"
    using assms(1,2) by (simp add: vec_rep_def)
qed (use assms in \<open>auto simp: vec_rep_def\<close>)

lemma move_front_bytes:
  assumes "d = a @ x @ r" "length x = es"
  shows "poke 0 x (memmove es 0 (length a) d) = x @ a @ r"
  using assms by (simp add: memmove_def poke_def)

lemma shift_once_bytes:
  assumes "d = a @ y @ x @ r" "length x = es" "length y = es"
  shows "poke (length a) x (memmove (length a + es) (length a) es d) = a @ x @ y @ r"
  using assms by (simp add: memmove_def poke_def)

lemma vec_rep_searchSelfOrg:
  assumes rep: "vec_rep v xs"
  shows "case find_idx (\<lambda>x. cmp x key = 0) xs of
      None \<Rightarrow> Vector_searchSelfOrg v key cmp meth = (None, v)
    | Some i \<Rightarrow> \<exists>v'. Vector_searchSelfOrg v key cmp meth = (Some (promoted_idx meth i * velem_size v), v') \<and>
        vec_rep v' (promote meth i xs) \<and> velem_size v' = velem_size v"
proof -
  let ?es = "velem_size v" and ?P = "\<lambda>x. cmp x key = 0"
  obtain rest where d: "vdata v = concat xs @ rest" using rep by (rule vec_rep_split)
  have all: "all_len ?es xs" and n: "vcount v = length xs" using rep by (auto simp: vec_rep_def)
  have scan: "selforg_scan cmp key 0 (vcount v) v = find_idx ?P xs"
    using selforg_scan_find [of 0 "length xs" v xs cmp key] velem_rep [OF rep] n
    by (cases "find_idx ?P xs") auto
  show ?thesis
  proof (cases "find_idx ?P xs")
    case None
    then show ?thesis by (simp add: Vector_searchSelfOrg_def scan)
  next
    case (Some i)
    then have i: "i < length xs" by (simp add: find_idx_Some)
    show ?thesis
    proof (cases "i = 0")
      case True
      then show ?thesis using rep Some
        by (cases meth) (auto simp: Vector_searchSelfOrg_def scan promoted_idx_def promote_def)
    next
      case False
      let ?ys = "promote meth i xs"
      have el: "velem v i = xs ! i" using rep i by (rule velem_rep)
      have la: "length (concat (take k xs)) = k * ?es" if "k \<le> length xs" for k
        using that length_concat_all [of ?es "take k xs"] all by simp
      have ys: "all_len ?es ?ys"
        using all i False by (cases meth) (auto simp: promote_def)
      have mf: "poke 0 (xs ! i) (memmove ?es 0 (i * ?es) (vdata v)) =
          concat (promote vecMOVE_FRONT i xs) @ rest"
        using move_front_bytes [of "vdata v" "concat (take i xs)" "xs ! i"
            "concat (drop (Suc i) xs) @ rest" ?es] la [of i] i all False
        by (simp add: d promote_def concat_split_nth [of i xs])
      have "concat xs = concat (take (i - 1) xs) @ xs ! (i - 1) @ xs ! i @ concat (drop (Suc i) xs)"
        using arg_cong [OF split_around [of i xs], of concat] i False by simp
      moreover have "(i - 1) * ?es + ?es = i * ?es" using False by (cases i) auto
      ultimately have so: "poke (i * ?es - ?es) (xs ! i)
            (memmove (i * ?es) (i * ?es - ?es) ?es (vdata v)) =
          concat (promote vecSHIFT_ONCE i xs) @ rest"
        using shift_once_bytes [of "vdata v" "concat (take (i - 1) xs)" "xs ! (i - 1)" "xs ! i"
            "concat (drop (Suc i) xs) @ rest" ?es] la [of "i - 1"] i all False
        by (simp add: d promote_def diff_mult_distrib)
      have "vec_rep (v\<lparr>vdata := concat ?ys @ rest\<rparr>) ?ys"
        using rep d ys length_promote [OF i] by (rule vec_rep_update)
      then show ?thesis using False mf so
        by (cases meth)
          (auto simp: Vector_searchSelfOrg_def scan Some el promoted_idx_def diff_mult_distrib Let_def)
    qed
  qed
qed


section \<open>Removal of adjacent duplicates\<close>

function uniq_list :: "compare \<Rightarrow> bytes list \<Rightarrow> bytes list" where
  "uniq_list cmp [] = []"
| "uniq_list cmp (x # xs) = x # uniq_list cmp (dropWhile (\<lambda>y. cmp x y = 0) xs)"
  by pat_completeness auto
termination
  by (relation "measure (length \<circ> snd)") (auto simp: le_imp_less_Suc length_dropWhile_le)

lemma unique_scan_rep:
  assumes "\<And>j. j < next + n \<Longrightarrow> velem v j = xs ! j" "next + n = length xs" "idx < length xs"
  shows "unique_scan cmp v idx next n =
    next + length (takeWhile (\<lambda>y. cmp (xs ! idx) y = 0) (drop next xs))"
  using assms
proof (induction n arbitrary: "next")
  case 0
  then show ?case by simp
next
  case (Suc n)
  then have d: "drop next xs = xs ! next # drop (Suc next) xs" by (simp add: Cons_nth_drop_Suc)
  have "unique_scan cmp v idx (Suc next) n =
      Suc next + length (takeWhile (\<lambda>y. cmp (xs ! idx) y = 0) (drop (Suc next) xs))"
    by (rule Suc.IH) (use Suc.prems in auto)
  then show ?case using Suc.prems(1) [of idx] Suc.prems(1) [of "next"] Suc.prems by (simp add: d)
qed

lemma memmove_down:
  assumes "d = a @ b @ c @ rest"
  shows "memmove (length a) (length a + length b) (length c) d = a @ c @ drop (length c) (b @ c @ rest)"
  using assms by (simp add: memmove_def)

lemma vec_rep_truncate:
  assumes "vec_rep v (xs @ ys)"
  shows "vec_rep (v\<lparr>vcount := length xs\<rparr>) xs"
proof -
  obtain rest where "vdata v = concat (xs @ ys) @ rest" using assms by (rule vec_rep_split)
  then show ?thesis using assms by (intro vec_repI [where rest = "concat ys @ rest"]) (auto simp: vec_rep_def)
qed

lemma vec_rep_cut:
  assumes rep: "vec_rep v (a @ b @ c)"
  shows "vec_rep (v\<lparr>vdata := memmove (length a * velem_size v) ((length a + length b) * velem_size v)
                               (length c * velem_size v) (vdata v),
                    vcount := length a + length c\<rparr>) (a @ c)"
proof -
  obtain rest where "vdata v = concat (a @ b @ c) @ rest" using rep by (rule vec_rep_split)
  then have d: "vdata v = concat a @ concat b @ concat c @ rest" by simp
  have all: "all_len (velem_size v) a" "all_len (velem_size v) b" "all_len (velem_size v) c"
    using rep by (auto simp: vec_rep_def)
  note lens = all [THEN length_concat_all]
  let ?r = "drop (length (concat c)) (concat b @ concat c @ rest)"
  have mm: "memmove (length a * velem_size v) ((length a + length b) * velem_size v)
      (length c * velem_size v) (vdata v) = concat a @ concat c @ ?r"
    using memmove_down [OF d] by (simp only: lens add_mult_distrib)
  have "length (concat a @ concat c @ ?r) = length (vdata v)" by (simp add: d)
  then show ?thesis using rep all unfolding mm
    by (intro vec_repI [where rest = ?r]) (auto simp: vec_rep_def)
qed

lemma unique_step_rep:
  assumes rep: "vec_rep v xs" and idx: "idx + 1 < length xs"
  shows "vec_rep (unique_step cmp idx v)
           (take (idx + 1) xs @ dropWhile (\<lambda>y. cmp (xs ! idx) y = 0) (drop (idx + 1) xs))"
proof -
  let ?P = "\<lambda>y. cmp (xs ! idx) y = 0"
  define a b c where "a = take (idx + 1) xs" and "b = takeWhile ?P (drop (idx + 1) xs)"
    and "c = dropWhile ?P (drop (idx + 1) xs)"
  have xs: "xs = a @ b @ c" by (simp add: a_def b_def c_def)
  have n: "vcount v = length xs" using rep by (auto simp: vec_rep_def)
  have la: "length a = idx + 1" using idx by (simp add: a_def)
  have len: "length xs = idx + 1 + length b + length c" using la by (simp add: xs)
  have scan: "unique_scan cmp v idx (idx + 1) (vcount v - (idx + 1)) = idx + 1 + length b"
    using unique_scan_rep [of "idx + 1" "length xs - (idx + 1)" v xs idx cmp] velem_rep [OF rep] n idx
    by (simp add: b_def)
  have rep': "vec_rep v (a @ b @ c)" using rep xs by simp
  note cut = vec_rep_cut [OF rep']
  have "vec_rep (unique_step cmp idx v) (a @ c)"
  proof (cases "c = []")
    case True
    then have "unique_step cmp idx v = v\<lparr>vcount := length a\<rparr>"
      using scan len n la by (simp add: unique_step_def)
    then show ?thesis using vec_rep_truncate [OF rep'] True by simp
  next
    case c: False
    show ?thesis
    proof (cases "b = []")
      case True
      then have "unique_step cmp idx v = v" using scan len n c by (simp add: unique_step_def)
      then show ?thesis using rep' True by simp
    next
      case False
      then have "unique_step cmp idx v =
          v\<lparr>vdata := memmove (length a * velem_size v) ((length a + length b) * velem_size v)
                             (length c * velem_size v) (vdata v),
            vcount := length a + length c\<rparr>"
        using scan len n c la by (simp add: unique_step_def Let_def add.commute)
      then show ?thesis using cut by simp
    qed
  qed
  then show ?thesis by (simp only: a_def c_def)
qed

lemma unique_loop_rep:
  "vec_rep v (pre @ ys) \<Longrightarrow> length pre = idx \<Longrightarrow>
   vec_rep (unique_loop cmp idx v) (pre @ uniq_list cmp ys)"
proof (induction cmp idx v arbitrary: pre ys rule: unique_loop.induct)
  case (1 cmp idx v)
  have n: "vcount v = length pre + length ys" using "1.prems" by (simp add: vec_rep_def)
  show ?case
  proof (cases "idx + 1 < vcount v")
    case False
    then have "length ys \<le> 1" using n "1.prems" by simp
    then have "uniq_list cmp ys = ys" by (cases ys) auto
    then show ?thesis using False "1.prems" by (simp add: unique_loop.simps [of cmp idx v])
  next
    case True
    then obtain y zs where ys: "ys = y # zs" using n "1.prems" by (cases ys) auto
    let ?zs = "dropWhile (\<lambda>z. cmp y z = 0) zs"
    have "idx + 1 < length (pre @ ys)" using True n by simp
    from unique_step_rep [OF "1.prems"(1) this, of cmp]
    have "vec_rep (unique_step cmp idx v) ((pre @ [y]) @ ?zs)"
      using "1.prems"(2) by (simp add: ys nth_append)
    from "1.IH" [OF True this] have "vec_rep (unique_loop cmp (idx + 1) (unique_step cmp idx v))
        ((pre @ [y]) @ uniq_list cmp ?zs)"
      using "1.prems"(2) by simp
    then show ?thesis using True by (simp add: unique_loop.simps [of cmp idx v] ys)
  qed
qed

lemma vec_rep_unique: "vec_rep v xs \<Longrightarrow> vec_rep (Vector_unique v cmp) (uniq_list cmp xs)"
proof (cases "length xs < 2")
  case True
  assume rep: "vec_rep v xs"
  have "uniq_list cmp xs = xs" using True by (cases xs; cases "tl xs") auto
  moreover have "vcount v = length xs" using rep by (simp add: vec_rep_def)
  ultimately show ?thesis using True rep by (simp add: Vector_unique_def)
next
  case False
  assume rep: "vec_rep v xs"
  moreover have "vcount v = length xs" using rep by (simp add: vec_rep_def)
  ultimately show ?thesis using False unique_loop_rep [of v "[]" xs 0 cmp]
    by (simp add: Vector_unique_def)
qed

lemma set_dropWhile_subset: "set (dropWhile P xs) \<subseteq> set xs"
  by (auto dest: set_dropWhileD)

lemma set_uniq_list: "set (uniq_list cmp xs) \<subseteq> set xs"
proof (induction cmp xs rule: uniq_list.induct)
  case (1 cmp)
  then show ?case by simp
next
  case (2 cmp x xs)
  then show ?case using set_dropWhile_subset [of "\<lambda>y. cmp x y = 0" xs] by auto
qed

text \<open>
  On a sorted vector the result is strictly sorted and every element dropped compares equal to one
  that stays.
\<close>

definition order_cmp :: "('a \<Rightarrow> 'a \<Rightarrow> int) \<Rightarrow> bool" where
  "order_cmp cmp \<longleftrightarrow>
     (\<forall>x y. cmp x y < 0 \<longleftrightarrow> cmp y x > 0) \<and>
     (\<forall>x y z. cmp x y \<le> 0 \<longrightarrow> cmp y z \<le> 0 \<longrightarrow> cmp x z \<le> 0)"

lemma order_cmp_flip: "order_cmp cmp \<Longrightarrow> cmp x y < 0 \<longleftrightarrow> cmp y x > 0"
  by (simp add: order_cmp_def)

lemma order_cmp_trans: "order_cmp cmp \<Longrightarrow> cmp x y \<le> 0 \<Longrightarrow> cmp y z \<le> 0 \<Longrightarrow> cmp x z \<le> 0"
  unfolding order_cmp_def by blast

lemma order_cmp_refl: "order_cmp cmp \<Longrightarrow> cmp x x = 0"
  using order_cmp_flip [of cmp x x] by linarith

lemma order_cmp_less_le:
  assumes "order_cmp cmp" "cmp x y < 0" "cmp y z \<le> 0"
  shows "cmp x z < 0"
proof (rule ccontr)
  assume "\<not> cmp x z < 0"
  then have "cmp z x \<le> 0" using order_cmp_flip [OF assms(1), of z x] order_cmp_flip [OF assms(1), of x z] by linarith
  then have "cmp y x \<le> 0" using order_cmp_trans [OF assms(1), of y z x] assms(3) by simp
  then show False using order_cmp_flip [OF assms(1), of x y] assms(2) by linarith
qed

lemma sorted_dropWhile: "sorted_wrt R xs \<Longrightarrow> sorted_wrt R (dropWhile P xs)"
  by (induction xs) auto

lemma dropWhile_strict:
  assumes o: "order_cmp cmp" and s: "sorted_wrt (\<lambda>x y. cmp x y \<le> 0) (x # xs)"
    and y: "y \<in> set (dropWhile (\<lambda>y. cmp x y = 0) xs)"
  shows "cmp x y < 0"
  using s y
proof (induction xs)
  case Nil
  then show ?case by simp
next
  case (Cons z zs)
  show ?case
  proof (cases "cmp x z = 0")
    case True
    then show ?thesis using Cons by simp
  next
    case False
    then have "cmp x z < 0" using Cons.prems by simp
    moreover have "y = z \<or> cmp z y \<le> 0" using Cons.prems False by auto
    ultimately show ?thesis using order_cmp_less_le [OF o] by auto
  qed
qed

lemma uniq_list_strict:
  "order_cmp cmp \<Longrightarrow> sorted_wrt (\<lambda>x y. cmp x y \<le> 0) xs \<Longrightarrow>
   sorted_wrt (\<lambda>x y. cmp x y < 0) (uniq_list cmp xs)"
proof (induction cmp xs rule: uniq_list.induct)
  case (1 cmp)
  then show ?case by simp
next
  case (2 cmp x xs)
  have "cmp x y < 0" if "y \<in> set (uniq_list cmp (dropWhile (\<lambda>y. cmp x y = 0) xs))" for y
    using dropWhile_strict [OF 2(2,3)] that set_uniq_list by blast
  moreover have "sorted_wrt (\<lambda>x y. cmp x y < 0) (uniq_list cmp (dropWhile (\<lambda>y. cmp x y = 0) xs))"
    using "2.IH" "2.prems" sorted_dropWhile by auto
  ultimately show ?case by simp
qed

lemma uniq_list_covers:
  "order_cmp cmp \<Longrightarrow> y \<in> set xs \<Longrightarrow> \<exists>x \<in> set (uniq_list cmp xs). cmp x y = 0"
proof (induction cmp xs rule: uniq_list.induct)
  case (1 cmp)
  then show ?case by simp
next
  case (2 cmp x xs)
  show ?case
  proof (cases "y = x \<or> y \<in> set (takeWhile (\<lambda>y. cmp x y = 0) xs)")
    case True
    then show ?thesis using order_cmp_refl [OF "2.prems"(1), of x] by (auto dest: set_takeWhileD)
  next
    case False
    have "set xs = set (takeWhile (\<lambda>y. cmp x y = 0) xs) \<union> set (dropWhile (\<lambda>y. cmp x y = 0) xs)"
      by (metis set_append takeWhile_dropWhile_id)
    with False "2.prems"(2) have "y \<in> set (dropWhile (\<lambda>y. cmp x y = 0) xs)" by auto
    then show ?thesis using "2.IH" "2.prems"(1) by auto
  qed
qed


section \<open>Search, sort, iteration and termination of the block\<close>

lemma bsearch_idx_cong:
  "(\<And>i. i < u \<Longrightarrow> el i = el' i) \<Longrightarrow> bsearch_idx cmp key el l u = bsearch_idx cmp key el' l u"
proof (induction cmp key el l u rule: bsearch_idx.induct)
  case (1 cmp key el l u)
  have "el ((l + u) div 2) = el' ((l + u) div 2)" if "l < u" using that by (intro "1.prems") auto
  then show ?case using 1 by (simp add: bsearch_idx.simps [of cmp key _ l u] Let_def)
qed

lemma bsearch_idx_key:
  assumes "key_sorted kf xs" "u \<le> length xs"
    and "\<forall>y \<in> set xs. (cmp k y < 0 \<longleftrightarrow> k < kf y) \<and> (cmp k y = 0 \<longleftrightarrow> k = kf y)"
  shows "bsearch_idx cmp k ((!) xs) l u = Some i \<longleftrightarrow> l \<le> i \<and> i < u \<and> kf (xs ! i) = k"
  using assms(2)
proof (induction "u - l" arbitrary: l u rule: less_induct)
  case less
  show ?case
  proof (cases "l < u")
    case False
    then show ?thesis by (simp add: bsearch_idx.simps [of cmp k _ l u])
  next
    case True
    let ?m = "(l + u) div 2"
    have m: "l \<le> ?m" "?m < u" using True by auto
    have mono: "kf (xs ! a) < kf (xs ! b)" if "a < b" "b < length xs" for a b
      using assms(1) that unfolding key_sorted_def by (rule sorted_wrt_nth_less)
    have c: "(cmp k (xs ! ?m) < 0 \<longleftrightarrow> k < kf (xs ! ?m)) \<and> (cmp k (xs ! ?m) = 0 \<longleftrightarrow> k = kf (xs ! ?m))"
      using assms(3) m less.prems by simp
    have lo: "?m < i \<Longrightarrow> i < u \<Longrightarrow> kf (xs ! ?m) < kf (xs ! i)" using mono less.prems by simp
    have hi: "i < ?m \<Longrightarrow> kf (xs ! i) < kf (xs ! ?m)" using mono less.prems m by simp
    have IHl: "bsearch_idx cmp k ((!) xs) l ?m = Some i \<longleftrightarrow> l \<le> i \<and> i < ?m \<and> kf (xs ! i) = k"
      using less.hyps [of ?m l] m less.prems by simp
    have IHu: "bsearch_idx cmp k ((!) xs) (Suc ?m) u = Some i \<longleftrightarrow> Suc ?m \<le> i \<and> i < u \<and> kf (xs ! i) = k"
      using less.hyps [of u "Suc ?m"] m less.prems by simp
    consider "k < kf (xs ! ?m)" | "kf (xs ! ?m) < k" | "k = kf (xs ! ?m)" by fastforce
    then show ?thesis
    proof cases
      case 1
      then have "bsearch_idx cmp k ((!) xs) l u = bsearch_idx cmp k ((!) xs) l ?m"
        using c True by (simp add: bsearch_idx.simps [of cmp k _ l u] Let_def)
      moreover have "i < ?m \<longleftrightarrow> i < u" if "kf (xs ! i) = k"
        using that 1 lo m by (metis less_trans nat_neq_iff order_less_irrefl)
      ultimately show ?thesis using IHl by auto
    next
      case 2
      then have "cmp k (xs ! ?m) > 0" using c by auto
      then have "bsearch_idx cmp k ((!) xs) l u = bsearch_idx cmp k ((!) xs) (Suc ?m) u"
        using True by (simp add: bsearch_idx.simps [of cmp k _ l u] Let_def)
      moreover have "Suc ?m \<le> i \<longleftrightarrow> l \<le> i" if "kf (xs ! i) = k"
        using that 2 hi m by (metis Suc_leI Suc_le_lessD le_trans less_imp_le nat_neq_iff not_le order_less_asym)
      ultimately show ?thesis using IHu by auto
    next
      case 3
      then have "cmp k (xs ! ?m) = 0" using c by blast
      then have "bsearch_idx cmp k ((!) xs) l u = Some ?m"
        using True by (simp add: bsearch_idx.simps [of cmp k _ l u] Let_def)
      moreover have "i = ?m" if "kf (xs ! i) = k" "i < u"
        using that 3 lo hi by (metis nat_neq_iff order_less_irrefl)
      ultimately show ?thesis using m 3 by auto
    qed
  qed
qed

lemma bsearch_idx_map:
  "u \<le> length xs \<Longrightarrow> (\<And>y. cmpb kb (enc y) = cmp k y) \<Longrightarrow>
   bsearch_idx cmpb kb ((!) (map enc xs)) l u = bsearch_idx cmp k ((!) xs) l u"
proof (induction "u - l" arbitrary: l u rule: less_induct)
  case less
  have "map enc xs ! ((l + u) div 2) = enc (xs ! ((l + u) div 2))" if "l < u"
    using that less.prems by simp
  then show ?case using less
    by (auto simp: bsearch_idx.simps [of _ _ _ l u] Let_def)
qed

lemma Vector_search_rep:
  assumes "vec_rep v xs"
  shows "Vector_search v key cmp =
    map_option (\<lambda>i. i * velem_size v) (bsearch_idx cmp key ((!) xs) 0 (length xs))"
proof -
  have n: "vcount v = length xs" using assms by (simp add: vec_rep_def)
  have "bsearch_idx cmp key (velem v) 0 (length xs) = bsearch_idx cmp key ((!) xs) 0 (length xs)"
    by (rule bsearch_idx_cong) (rule velem_rep [OF assms])
  then show ?thesis using n
    by (simp add: Vector_search_def bsearch_idx.simps [of cmp key _ 0 0])
qed

lemma map_velem_rep: "vec_rep v xs \<Longrightarrow> map (velem v) [0..<vcount v] = xs"
  by (rule nth_equalityI) (auto simp: velem_rep vec_rep_def)

lemma vec_rep_sort:
  assumes "vec_rep v xs" "mset (qsort cmp xs) = mset xs"
  shows "vec_rep (Vector_sort qsort v cmp) (qsort cmp xs)"
proof (cases "vcount v = 0")
  case True
  then have "xs = []" using assms(1) by (simp add: vec_rep_def)
  then show ?thesis using assms True by (simp add: Vector_sort_def)
next
  case False
  have "all_len (velem_size v) (qsort cmp xs)" "length (qsort cmp xs) = length xs"
    using assms mset_eq_setD [OF assms(2)] mset_eq_length [OF assms(2)]
    by (auto simp: vec_rep_def all_len_def)
  moreover have "vdata v = concat xs @ drop (vcount v * velem_size v) (vdata v)"
    by (metis assms(1) append_take_drop_id vec_rep_def)
  ultimately have "vec_rep (v\<lparr>vdata := concat (qsort cmp xs) @
      drop (vcount v * velem_size v) (vdata v)\<rparr>) (qsort cmp xs)"
    using assms(1) by (intro vec_rep_update [of v xs])
  then show ?thesis using False assms(1) by (simp add: Vector_sort_def map_velem_rep)
qed

lemma foreach_loop_fold:
  "foreach_loop i n v func s = fold func (map (velem v) [i..<i + n]) s"
proof (induction n arbitrary: i s)
  case 0
  then show ?case by simp
next
  case (Suc n)
  have "[i..<i + Suc n] = i # [Suc i..<Suc i + n]" by (simp add: upt_conv_Cons)
  then show ?case using Suc [of "Suc i"] by simp
qed

lemma Vector_foreach_rep: "vec_rep v xs \<Longrightarrow> Vector_foreach v func s = fold func xs s"
  using map_velem_rep [of v xs] by (simp add: Vector_foreach_def foreach_loop_fold)

text \<open>
  \<^verbatim>\<open>Vector_zeroEnd\<close> leaves the elements alone and makes the slot behind them a null element that
  lies inside the block.
\<close>

lemma zeroEnd_slot:
  assumes "vec_rep v xs"
  shows "vec_rep (Vector_zeroEnd fresh v) xs"
    and "vcount v < vallocated (Vector_zeroEnd fresh v)"
    and "velem (Vector_zeroEnd fresh v) (vcount v) = replicate (velem_size v) 0"
proof -
  have store: "vec_rep (Vector_store (length xs * velem_size v) (replicate (velem_size v) 0) w) xs \<and>
      velem (Vector_store (length xs * velem_size v) (replicate (velem_size v) 0) w) (length xs) =
        replicate (velem_size v) 0"
    if w: "vec_rep w xs" "velem_size w = velem_size v" "length xs < vallocated w" for w
  proof -
    let ?es = "velem_size v"
    have b: "length xs * ?es + ?es \<le> length (vdata w)"
      using slot_in_bounds [of "length xs" "vallocated w" "vdata w" ?es] w by (simp add: vec_rep_def)
    have t: "take (length xs * ?es) (vdata w) = concat xs" using w by (metis vec_rep_def)
    have lc: "length (concat xs) = length xs * ?es"
      using w by (simp add: vec_rep_def length_concat_all)
    let ?rest = "replicate ?es 0 @ drop (length xs * ?es + ?es) (vdata w)"
    have d: "poke (length xs * ?es) (replicate ?es 0) (vdata w) = concat xs @ ?rest"
      using t by (simp add: poke_def)
    have "length (concat xs @ ?rest) = length (vdata w)" using b lc by simp
    then have "vec_rep (Vector_store (length xs * ?es) (replicate ?es 0) w) xs"
      using w by (intro vec_repI [where rest = ?rest]) (auto simp: Vector_store_def d vec_rep_def)
    moreover have "take ?es (drop (length xs * ?es) (concat xs @ ?rest)) = replicate ?es 0"
      using lc by simp
    ultimately show ?thesis using w(2) by (simp add: velem_def Vector_store_def d)
  qed
  have n: "vcount v = length xs" using assms by (simp add: vec_rep_def)
  obtain off w where pb: "Vector_pushback fresh v = (off, w)" by fastforce
  note s = pushback_slot [OF assms pb]
  let ?w = "w\<lparr>vcount := length xs\<rparr>"
  have popped: "Vector_popback w = Some ?w" using s by (simp add: Vector_popback_def)
  have wrep: "vec_rep ?w xs" using assms s by (auto simp: vec_rep_def)
  have z: "Vector_zeroEnd fresh v =
      Vector_store (length xs * velem_size v) (replicate (velem_size v) 0)
        (if vallocated v \<le> vcount v then ?w else v)"
    using pb popped s n by (simp add: Vector_zeroEnd_def Vector_end_def)
  show "vec_rep (Vector_zeroEnd fresh v) xs"
    "vcount v < vallocated (Vector_zeroEnd fresh v)"
    "velem (Vector_zeroEnd fresh v) (vcount v) = replicate (velem_size v) 0"
    using store [OF wrep] store [OF assms] s n by (auto simp: z Vector_store_def)
qed


section \<open>Properties\<close>

text \<open>A three-slot block with two two-byte elements, the first byte of each being its key.\<close>

definition sample_vec :: Vector where
  "sample_vec = \<lparr>vdata = [1, 10, 3, 30, 0, 0], vcount = 2, vallocated = 3, velem_size = 2\<rparr>"

definition sample_cmp :: compare where
  "sample_cmp x y = uint (hd x) - uint (hd y)"

lemma sample_rep: "vec_rep sample_vec [[1, 10], [3, 30]]"
  by (simp add: vec_rep_def sample_vec_def)

lemma sample_insert:
  "Vector_insert (\<lambda>_. 0) sample_vec [2] sample_cmp =
     (2, sample_vec\<lparr>vcount := 3, vdata := [1, 10, 3, 30, 3, 30]\<rparr>)"
  "ins_list sample_cmp [2] [2, 20] [[1, 10], [3, 30]] = [[1, 10], [2, 20], [3, 30]]"
  by code_simp+

text \<open>
  C29. \<^verbatim>\<open>Vector_insert\<close> opens a slot that lies inside the block, and once the caller has stored
  the encoding of a struct there, the vector represents the old structs with the new one placed
  before the first struct that is greater than the key; the old structs keep their order and nothing
  is lost.\<close>

theorem Vector_insert_structs:
  assumes "vec_rep v (map enc xs)" "length (enc x) = velem_size v"
    and "\<And>y. cmpb kb (enc y) = cmp k y" "Vector_insert fresh v kb cmpb = (off, v')"
  shows "vec_rep (Vector_store off (enc x) v') (map enc (ins_list cmp k x xs)) \<and>
    off + velem_size v \<le> length (vdata v') \<and> mset (ins_list cmp k x xs) = add_mset x (mset xs)"
proof (intro conjI)
  have p: "ins_pos cmpb kb (map enc xs) = ins_pos cmp k xs"
    using assms(3) by (induction xs) auto
  then have l: "ins_list cmpb kb (enc x) (map enc xs) = map enc (ins_list cmp k x xs)"
    by (simp add: ins_list_def take_map drop_map)
  then show "vec_rep (Vector_store off (enc x) v') (map enc (ins_list cmp k x xs))"
    using vec_rep_insert [OF assms(1,2,4)] by simp
  show "off + velem_size v \<le> length (vdata v')"
    using insert_slot_in_bounds [OF assms(1,4)] .
  show "mset (ins_list cmp k x xs) = add_mset x (mset xs)" by (rule mset_ins_list)
qed

theorem Vector_insert_structs_witness:
  "vec_rep (Vector_store 2 [2, 20] (sample_vec\<lparr>vcount := 3, vdata := [1, 10, 3, 30, 3, 30]\<rparr>))
     [[1, 10], [2, 20], [3, 30]]"
  using Vector_insert_structs [of sample_vec id "[[1, 10], [3, 30]]" "[2, 20]" sample_cmp "[2]"
      sample_cmp "[2]" "\<lambda>_. 0" 2 "sample_vec\<lparr>vcount := 3, vdata := [1, 10, 3, 30, 3, 30]\<rparr>"]
    sample_rep sample_insert
  by (simp add: sample_vec_def)

text \<open>
  \<^verbatim>\<open>Vector_search\<close> on a vector that is strictly increasing in its key finds an element exactly
  when one with the key exists, and then returns that element's offset.\<close>

lemma Vector_search_sorted:
  assumes "vec_rep v (map enc xs)" "key_sorted kf xs"
    and "\<And>y. cmpb kb (enc y) = cmp k y"
    and "\<forall>y \<in> set xs. (cmp k y < 0 \<longleftrightarrow> k < kf y) \<and> (cmp k y = 0 \<longleftrightarrow> k = kf y)"
  shows "Vector_search v kb cmpb = Some off \<longleftrightarrow>
    (\<exists>i < length xs. kf (xs ! i) = k \<and> off = i * velem_size v)"
proof -
  have "bsearch_idx cmpb kb ((!) (map enc xs)) l u = bsearch_idx cmp k ((!) xs) l u"
    if "u \<le> length xs" for l u
    using bsearch_idx_map [OF that, of cmpb kb enc cmp k l] assms(3) by blast
  then show ?thesis
    using bsearch_idx_key [of kf xs "length xs" cmp k 0] assms(2,4)
    by (auto simp: Vector_search_rep [OF assms(1)])
qed

lemma Vector_search_sorted_example:
  "Vector_search sample_vec [3] sample_cmp = Some 2"
  using Vector_search_sorted [of sample_vec id "[[1, 10], [3, 30]]" "\<lambda>x. uint (hd x)" sample_cmp "[3]"
      "\<lambda>k y. k - uint (hd y)" 3 2] sample_rep
  by (auto simp: sample_cmp_def sample_vec_def intro: exI [of _ 1])

text \<open>
  \<^verbatim>\<open>Vector_searchSelfOrg\<close> returns the first element that compares equal, or nothing when there
  is none; it only permutes the vector, and the returned offset holds the element found.\<close>

lemma Vector_searchSelfOrg_spec:
  assumes "vec_rep v xs"
  shows "case Vector_searchSelfOrg v key cmp meth of
      (None, v') \<Rightarrow> v' = v \<and> (\<forall>x \<in> set xs. cmp x key \<noteq> 0)
    | (Some off, v') \<Rightarrow> \<exists>ys i j. vec_rep v' ys \<and> mset ys = mset xs \<and> off = j * velem_size v' \<and>
        j \<le> i \<and> i < length xs \<and> ys ! j = xs ! i \<and> cmp (xs ! i) key = 0 \<and>
        (\<forall>l < i. cmp (xs ! l) key \<noteq> 0)"
proof (cases "find_idx (\<lambda>x. cmp x key = 0) xs")
  case None
  then show ?thesis
    using vec_rep_searchSelfOrg [OF assms, of key cmp meth] find_idx_None [of "\<lambda>x. cmp x key = 0" xs]
    by simp
next
  case (Some i)
  then obtain v' where v': "Vector_searchSelfOrg v key cmp meth = (Some (promoted_idx meth i * velem_size v), v')"
    "vec_rep v' (promote meth i xs)" "velem_size v' = velem_size v"
    using vec_rep_searchSelfOrg [OF assms, of key cmp meth] by auto
  have i: "i < length xs" "cmp (xs ! i) key = 0" "\<forall>l < i. cmp (xs ! l) key \<noteq> 0"
    using find_idx_Some [OF Some] by auto
  have "promoted_idx meth i \<le> i" by (cases meth) (auto simp: promoted_idx_def)
  then show ?thesis
    using v' i mset_promote [OF i(1), of meth] promote_nth [OF i(1), of meth]
    by (simp only: prod.case option.case) blast
qed

lemma Vector_searchSelfOrg_spec_example:
  "\<exists>ys. vec_rep (snd (Vector_searchSelfOrg sample_vec [3, 0] sample_cmp vecMOVE_FRONT)) ys \<and>
     mset ys = mset [[1, 10], [3, 30]]"
proof -
  have "fst (Vector_searchSelfOrg sample_vec [3, 0] sample_cmp vecMOVE_FRONT) = Some 0" by code_simp
  then show ?thesis
    using Vector_searchSelfOrg_spec [OF sample_rep, where key = "[3, 0]" and cmp = sample_cmp and meth = vecMOVE_FRONT]
    by (auto split: prod.splits)
qed

text \<open>
  \<^verbatim>\<open>Vector_unique\<close> on a sorted vector leaves a strictly sorted selection of its elements in
  which every old element still has one that compares equal.\<close>

lemma Vector_unique_spec:
  assumes "vec_rep v xs" "order_cmp cmp" "sorted_wrt (\<lambda>x y. cmp x y \<le> 0) xs"
  shows "\<exists>ys. vec_rep (Vector_unique v cmp) ys \<and> sorted_wrt (\<lambda>x y. cmp x y < 0) ys \<and>
    set ys \<subseteq> set xs \<and> (\<forall>x \<in> set xs. \<exists>y \<in> set ys. cmp y x = 0)"
  using vec_rep_unique [OF assms(1), of cmp] uniq_list_strict [OF assms(2,3)] set_uniq_list
    uniq_list_covers [OF assms(2)] by blast

lemma Vector_unique_spec_example:
  "\<exists>ys. vec_rep (Vector_unique (sample_vec\<lparr>vcount := 3, vdata := [1, 10, 1, 11, 3, 30]\<rparr>) sample_cmp) ys \<and>
     sorted_wrt (\<lambda>x y. sample_cmp x y < 0) ys"
  using Vector_unique_spec [of "sample_vec\<lparr>vcount := 3, vdata := [1, 10, 1, 11, 3, 30]\<rparr>"
      "[[1, 10], [1, 11], [3, 30]]" sample_cmp]
  by (auto simp: vec_rep_def sample_vec_def order_cmp_def sample_cmp_def)

text \<open>
  \<^verbatim>\<open>Vector_zeroEnd\<close> keeps the elements and puts an all-zero element behind the last one,
  inside the allocated block, so that the data can be passed on as a null-terminated array.\<close>

lemma Vector_zeroEnd_spec:
  assumes "vec_rep v xs"
  shows "vec_rep (Vector_zeroEnd fresh v) xs \<and>
    velem (Vector_zeroEnd fresh v) (length xs) = replicate (velem_size v) 0 \<and>
    length xs < vallocated (Vector_zeroEnd fresh v)"
proof -
  have "vcount v = length xs" using assms by (simp add: vec_rep_def)
  then show ?thesis using zeroEnd_slot [OF assms, of fresh] by simp
qed

lemma Vector_zeroEnd_spec_example:
  "velem (Vector_zeroEnd (\<lambda>_. 7) sample_vec) 2 = [0, 0]"
  using Vector_zeroEnd_spec [OF sample_rep, of "\<lambda>_. 7"] by (simp add: sample_vec_def numeral_2_eq_2)

end
