(* ===== verification/KeyedVector.thy ===== *)
theory KeyedVector
  imports Vector
begin

text \<open>
  Vectors of structs that are searched and extended by a key, the way \<^verbatim>\<open>vserver-stat\<close> and
  \<^verbatim>\<open>lsxid\<close> use \<^verbatim>\<open>Vector_search\<close> and \<^verbatim>\<open>Vector_insert\<close>: a binary search, and an insertion when the
  key is missing. The vector is seen as the list of its structs, which the byte level refines. The
  locale collects what a comparison callback has to guarantee; in return the vector behaves like a
  finite map from keys to structs.
\<close>

section \<open>Operations\<close>

text \<open>\<^verbatim>\<open>Vector_search(vec, &key, cmp)\<close> as an index.\<close>

definition kv_search :: "('k \<Rightarrow> 'a \<Rightarrow> int) \<Rightarrow> 'k \<Rightarrow> 'a list \<Rightarrow> nat option" where
  "kv_search cmp k xs = bsearch_idx cmp k ((!) xs) 0 (length xs)"

text \<open>
  The pattern \<^verbatim>\<open>res = Vector_search(..); if (res==0) { res = Vector_insert(..); *res = new; }\<close>:
  the index of the element and the vector.
\<close>

definition find_or_insert :: "('k \<Rightarrow> 'a \<Rightarrow> int) \<Rightarrow> 'k \<Rightarrow> 'a \<Rightarrow> 'a list \<Rightarrow> nat \<times> 'a list" where
  "find_or_insert cmp k new xs =
     (case kv_search cmp k xs of
        Some i \<Rightarrow> (i, xs)
      | None \<Rightarrow> (ins_pos cmp k xs, ins_list cmp k new xs))"

text \<open>\dots followed by an update of the element through the pointer.\<close>

definition upsert :: "('k \<Rightarrow> 'a \<Rightarrow> int) \<Rightarrow> 'k \<Rightarrow> 'a \<Rightarrow> ('a \<Rightarrow> 'a) \<Rightarrow> 'a list \<Rightarrow> 'a list" where
  "upsert cmp k new upd xs =
     (let (i, ys) = find_or_insert cmp k new xs in ys[i := upd (ys ! i)])"

section \<open>The vector as a finite map\<close>

definition kmap :: "('a \<Rightarrow> 'k) \<Rightarrow> 'a list \<Rightarrow> 'k \<Rightarrow> 'a option" where
  "kmap kf xs k = find (\<lambda>x. kf x = k) xs"

lemma kmap_simps [simp]:
  "kmap kf [] = Map.empty"
  "kmap kf (x # xs) k = (if kf x = k then Some x else kmap kf xs k)"
  by (auto simp: kmap_def)

lemma kmap_None: "kmap kf xs k = None \<longleftrightarrow> k \<notin> kf ` set xs"
  by (induction xs) auto

lemma kmap_Some_key: "kmap kf xs k = Some x \<Longrightarrow> x \<in> set xs \<and> kf x = k"
  by (induction xs) (auto split: if_splits)

lemma key_sorted_distinct: "key_sorted kf xs \<Longrightarrow> distinct (map kf xs)"
  by (induction xs) auto

lemma kmap_nth: "distinct (map kf xs) \<Longrightarrow> i < length xs \<Longrightarrow> kmap kf xs (kf (xs ! i)) = Some (xs ! i)"
proof (induction xs arbitrary: i)
  case Nil
  then show ?case by simp
next
  case (Cons x xs)
  then show ?case by (cases i) auto
qed

lemma kmap_update:
  assumes "distinct (map kf xs)" "i < length xs" "kf y = kf (xs ! i)"
  shows "kmap kf (xs[i := y]) = (kmap kf xs)(kf y \<mapsto> y)"
proof
  fix k
  show "kmap kf (xs[i := y]) k = ((kmap kf xs)(kf y \<mapsto> y)) k"
    using assms
  proof (induction xs arbitrary: i)
    case Nil
    then show ?case by simp
  next
    case (Cons x xs)
    then show ?case by (cases i) (auto simp: image_iff)
  qed
qed

lemma ins_list_nth: "ins_list cmp k x xs ! ins_pos cmp k xs = x"
  using ins_pos_le [of cmp k xs] by (simp add: ins_list_def nth_append)

lemma kmap_ins_list:
  "kf x \<notin> kf ` set xs \<Longrightarrow> kmap kf (ins_list cmp k x xs) = (kmap kf xs)(kf x \<mapsto> x)"
  by (rule ext) (induction xs, auto)

lemma key_sorted_update: "key_sorted kf xs \<Longrightarrow> i < length xs \<Longrightarrow> kf y = kf (xs ! i) \<Longrightarrow> key_sorted kf (xs[i := y])"
proof -
  assume a: "key_sorted kf xs" "i < length xs" "kf y = kf (xs ! i)"
  have "map kf (xs[i := y]) = map kf xs" using a(2,3) by (simp add: map_update list_update_same_conv)
  then show ?thesis using a(1) unfolding key_sorted_def sorted_wrt_map [symmetric, of "(<)" kf] by simp
qed

lemma key_sorted_unique_kmap:
  assumes "key_sorted kf xs" "key_sorted kf ys" "kmap kf xs = kmap kf ys"
  shows "xs = ys"
proof -
  have set: "set zs = ran (kmap kf zs)" if "key_sorted kf zs" for zs
    using kmap_Some_key [of kf zs] kmap_nth [OF key_sorted_distinct [OF that]]
    by (auto simp: ran_def in_set_conv_nth) blast
  have "set xs = set ys" using assms set by metis
  moreover have s: "sorted (map kf zs)" if "key_sorted kf zs" for zs
    using that by (induction zs) (auto intro: less_imp_le)
  moreover have "inj_on kf (set xs \<union> set ys)"
    using \<open>set xs = set ys\<close> key_sorted_distinct [OF assms(1)] by (simp add: distinct_map)
  ultimately show ?thesis
    using map_sorted_distinct_set_unique [of kf xs ys] assms key_sorted_distinct by blast
qed

section \<open>The contract of a comparison callback\<close>

text \<open>\<open>okk\<close> is the range of keys in which the callback is faithful.\<close>

locale keyed_vector =
  fixes cmp :: "'k::linorder \<Rightarrow> 'a \<Rightarrow> int" and kf :: "'a \<Rightarrow> 'k" and okk :: "'k \<Rightarrow> bool"
  assumes cmp_less: "okk k \<Longrightarrow> okk (kf x) \<Longrightarrow> cmp k x < 0 \<longleftrightarrow> k < kf x"
    and cmp_eq: "okk k \<Longrightarrow> okk (kf x) \<Longrightarrow> cmp k x = 0 \<longleftrightarrow> k = kf x"
begin

definition inv :: "'a list \<Rightarrow> bool" where
  "inv xs \<longleftrightarrow> key_sorted kf xs \<and> (\<forall>x \<in> set xs. okk (kf x))"

lemma search_spec:
  assumes "inv xs" "okk k"
  shows "kv_search cmp k xs = Some i \<longleftrightarrow> i < length xs \<and> kf (xs ! i) = k"
proof -
  have "\<forall>y \<in> set xs. (cmp k y < 0 \<longleftrightarrow> k < kf y) \<and> (cmp k y = 0 \<longleftrightarrow> k = kf y)"
    using assms cmp_less cmp_eq by (auto simp: inv_def)
  then show ?thesis
    using bsearch_idx_key [of kf xs "length xs" cmp k 0 i] assms(1) by (simp add: inv_def kv_search_def)
qed

lemma search_None:
  assumes "inv xs" "okk k"
  shows "kv_search cmp k xs = None \<longleftrightarrow> k \<notin> kf ` set xs"
proof -
  have "kv_search cmp k xs \<noteq> None \<longleftrightarrow> (\<exists>i < length xs. kf (xs ! i) = k)"
    using search_spec [OF assms] by auto
  also have "\<dots> \<longleftrightarrow> k \<in> kf ` set xs" by (metis (no_types, lifting) image_iff in_set_conv_nth)
  finally show ?thesis by blast
qed

lemma find_or_insert_spec:
  assumes "inv xs" "okk k" "kf new = k" "find_or_insert cmp k new xs = (i, ys)"
  shows "inv ys" "i < length ys" "kf (ys ! i) = k"
    "kmap kf ys = (if k \<in> kf ` set xs then kmap kf xs else (kmap kf xs)(k \<mapsto> new))"
proof -
  have c: "\<forall>y \<in> set xs. cmp (kf new) y < 0 \<longleftrightarrow> kf new < kf y"
    using assms cmp_less by (auto simp: inv_def)
  have "inv ys \<and> i < length ys \<and> kf (ys ! i) = k \<and>
    kmap kf ys = (if k \<in> kf ` set xs then kmap kf xs else (kmap kf xs)(k \<mapsto> new))"
  proof (cases "kv_search cmp k xs")
    case None
    then have "k \<notin> kf ` set xs" using search_None [OF assms(1,2)] by simp
    moreover have "i = ins_pos cmp k xs" "ys = ins_list cmp k new xs"
      using assms(4) None by (auto simp: find_or_insert_def)
    ultimately show ?thesis
      using assms(1-3) key_sorted_ins_list [of xs cmp kf new, OF c] kmap_ins_list [of kf new xs cmp k] ins_pos_le [of cmp k xs]
      by (auto simp: inv_def ins_list_nth)
  next
    case (Some j)
    then have "j < length xs" "kf (xs ! j) = k" using search_spec [OF assms(1,2)] by auto
    moreover from this have "k \<in> kf ` set xs" using nth_mem by blast
    ultimately show ?thesis using Some assms by (auto simp: find_or_insert_def)
  qed
  then show "inv ys" "i < length ys" "kf (ys ! i) = k"
    "kmap kf ys = (if k \<in> kf ` set xs then kmap kf xs else (kmap kf xs)(k \<mapsto> new))" by auto
qed

lemma upsert_spec:
  assumes "inv xs" "okk k" "kf new = k" "\<And>x. kf (upd x) = kf x"
  shows "inv (upsert cmp k new upd xs)"
    "kmap kf (upsert cmp k new upd xs) =
      (kmap kf xs)(k \<mapsto> upd (case kmap kf xs k of Some x \<Rightarrow> x | None \<Rightarrow> new))"
proof -
  obtain i ys where iy: "find_or_insert cmp k new xs = (i, ys)" by fastforce
  note s = find_or_insert_spec [OF assms(1-3) iy]
  have d: "distinct (map kf ys)" using s(1) by (simp add: inv_def key_sorted_distinct)
  have u: "upsert cmp k new upd xs = ys[i := upd (ys ! i)]" by (simp add: upsert_def iy)
  show "inv (upsert cmp k new upd xs)"
    unfolding u using s assms(4) key_sorted_update [of kf ys i "upd (ys ! i)"]
    by (auto simp: inv_def dest!: set_update_subset_insert [THEN subsetD])
  have "kmap kf ys k = Some (ys ! i)" using kmap_nth [OF d s(2)] s(3) by simp
  moreover have "kmap kf xs k = None" if "k \<notin> kf ` set xs" using that by (simp add: kmap_None)
  ultimately have "ys ! i = (case kmap kf xs k of Some x \<Rightarrow> x | None \<Rightarrow> new)"
    using s(4) by (auto split: if_splits)
  then show "kmap kf (upsert cmp k new upd xs) =
      (kmap kf xs)(k \<mapsto> upd (case kmap kf xs k of Some x \<Rightarrow> x | None \<Rightarrow> new))"
    unfolding u using kmap_update [OF d s(2), of "upd (ys ! i)"] s(3,4) assms(4)
    by (auto simp: fun_eq_iff)
qed

lemma inv_Nil: "inv []"
  by (simp add: inv_def)

end

section \<open>Context identifiers as keys\<close>

text \<open>
  The callbacks of both programs return the difference of two context identifiers as an \<^verbatim>\<open>int\<close>:
  this orders identifiers below \<open>2 ^ 31\<close>, and the kernel's are below \<open>2 ^ 16\<close>.
\<close>

definition xid_diff :: "xid_t \<Rightarrow> xid_t \<Rightarrow> int" where
  "xid_diff x y = sint (x - y)"

definition small_xid :: "xid_t \<Rightarrow> bool" where
  "small_xid x \<longleftrightarrow> x < 0x80000000"

lemma xid_diff_small:
  assumes "small_xid x" "small_xid y"
  shows "xid_diff x y = uint x - uint y"
proof -
  have b: "uint x < 2 ^ 31" "uint y < 2 ^ 31" "0 \<le> uint x" "0 \<le> uint y"
    using assms by (simp_all add: small_xid_def word_less_def)
  have "sint (x - y) = signed_take_bit 31 (uint x - uint y)"
    using sint_sbintrunc' [of "uint x - uint y", where ?'a = 32] by simp
  also have "\<dots> = uint x - uint y" using b by (intro signed_take_bit_int_eq_self) linarith+
  finally show ?thesis by (simp add: xid_diff_def)
qed

lemma xid_diff_order:
  assumes "small_xid x" "small_xid y"
  shows "xid_diff x y < 0 \<longleftrightarrow> x < y" "xid_diff x y = 0 \<longleftrightarrow> x = y"
  using xid_diff_small [OF assms] by (auto simp: word_less_def word_uint_eq_iff)

end
