(* ===== verification/VserverStat.thy ===== *)
theory VserverStat
  imports KeyedVector NumParse VserverH
begin

text \<open>
  The program \<^verbatim>\<open>vserver-stat\<close>: it reads the statistics of every process (or, on kernels that keep
  them, of every context), adds them up per context in a vector sorted by context identifier, and
  prints one line of fixed columns per context. What the kernel answers, the contents of the files
  below \<^verbatim>\<open>/proc\<close> and the lookup of guest names are parameters. The program's caching of names for
  files, \<^verbatim>\<open>lsxid\<close>, uses the same vector and is modelled at the end.
\<close>

section \<open>Data\<close>

record XidData =
  xd_xid :: xid_t
  process_count :: u32
  VmSize_total :: u64
  VmRSS_total :: u64
  start_time_oldest :: u64
  stime_total :: u64
  utime_total :: u64
  xd_cfgstyle :: vcCfgStyle
  xd_name :: "cstr option"

record process_info =
  VmSize :: u64
  VmRSS :: u64
  start_time :: u64
  stime :: u64
  utime :: u64
  cstime :: u64
  cutime :: u64
  s_context :: xid_t

section \<open>Time sources\<close>

text \<open>
  \<^verbatim>\<open>getUptime\<close> on what was read from \<^verbatim>\<open>/proc/uptime\<close>; \<open>None\<close> is the exit with an error message.
\<close>

definition strip_nl :: "cstr \<Rightarrow> cstr" where
  "strip_nl s = rev (dropWhile (\<lambda>c. c = NL) (rev s))"

definition msec_mult :: "nat \<Rightarrow> u32" where
  "msec_mult n = (if n = 0 then 1000 else if n = 1 then 100 else if n = 2 then 10 else if n = 3 then 1 else 0)"

definition getUptime :: "cstr \<Rightarrow> u64 option" where
  "getUptime content =
     (if length content \<ge> 64 then None
      else
        (let buffer = strip_nl content;
             (secs, errptr, _) = strtol 10 buffer
         in if deref errptr \<noteq> CHR ''.'' then None
            else
              (let frac = tl errptr;
                   mult = msec_mult (length frac);
                   (v, errptr', _) = strtol 10 frac;
                   msecs = (word_of_int v * mult :: u32)
               in if errptr' \<noteq> [] \<and> deref errptr' \<noteq> CHR '' '' then None
                  else Some (word_of_int secs * 1000 + ucast msecs))))"

definition toMsec :: "u64 \<Rightarrow> u64 \<Rightarrow> u64" where
  "toMsec hertz v = v * 1000 div hertz"

section \<open>Aggregation\<close>

definition cmpData :: "xid_t \<Rightarrow> XidData \<Rightarrow> int" where
  "cmpData xid m = xid_diff xid (xd_xid m)"

text \<open>
  The element after \<^verbatim>\<open>Vector_insert\<close> and the assignments: fields that are not assigned keep what the
  memory of the slot holds, here \<open>slot\<close>.
\<close>

definition new_data :: "XidData \<Rightarrow> process_info \<Rightarrow> XidData" where
  "new_data slot process =
     slot\<lparr>xd_xid := s_context process, process_count := 0, VmSize_total := 0, VmRSS_total := 0,
          utime_total := 0, stime_total := 0, start_time_oldest := start_time process\<rparr>"

definition add_process :: "process_info \<Rightarrow> XidData \<Rightarrow> XidData" where
  "add_process process res =
     res\<lparr>process_count := process_count res + 1,
         VmSize_total := VmSize_total res + VmSize process,
         VmRSS_total := VmRSS_total res + VmRSS process,
         utime_total := utime_total res + (utime process + cutime process),
         stime_total := stime_total res + (stime process + cstime process),
         start_time_oldest := min (start_time_oldest res) (start_time process)\<rparr>"

definition registerXid :: "XidData \<Rightarrow> XidData list \<Rightarrow> process_info \<Rightarrow> XidData list" where
  "registerXid slot vec process =
     upsert cmpData (s_context process) (new_data slot process) (add_process process) vec"

text \<open>
  Statistics the kernel keeps per context: the answers of \<^verbatim>\<open>vc_virt_stat\<close> (the uptime),
  \<^verbatim>\<open>vc_rlimit_stat\<close> (for the three limits) and \<^verbatim>\<open>vc_sched_info\<close> (user and system time of a CPU).
\<close>

datatype rlimit_res = RLIMIT_NPROC | RLIMIT_AS | RLIMIT_RSS

record vstat_kernel =
  vk_virt_stat :: "xid_t \<Rightarrow> u64 option"
  vk_rlimit :: "xid_t \<Rightarrow> rlimit_res \<Rightarrow> u64 option"
  vk_sched :: "xid_t \<Rightarrow> nat \<Rightarrow> (u64 \<times> u64) option"

fun sched_loop :: "(nat \<Rightarrow> (u64 \<times> u64) option) \<Rightarrow> nat \<Rightarrow> nat \<Rightarrow> u64 \<Rightarrow> u64 \<Rightarrow> u64 \<times> u64" where
  "sched_loop sched cpu 0 ut st = (ut, st)"
| "sched_loop sched cpu (Suc n) ut st =
     (case sched cpu of
        None \<Rightarrow> (ut, st)
      | Some (u, s) \<Rightarrow> sched_loop sched (Suc cpu) n (ut + u) (st + s))"

text \<open>\<open>Inl\<close> is the message of an early return.\<close>

definition registerXidVstat ::
  "vstat_kernel \<Rightarrow> u64 \<Rightarrow> u64 \<Rightarrow> XidData \<Rightarrow> XidData list \<Rightarrow> u64 \<Rightarrow> cstr + XidData list" where
  "registerXidVstat k uptime pagesize slot vec xid_l =
     (let xid = ucast xid_l
      in if kv_search cmpData xid vec \<noteq> None then Inl ''Duplicate xid found?!''
         else case vk_virt_stat k xid of None \<Rightarrow> Inl ''vc_virt_stat()''
         | Some up \<Rightarrow> (case vk_rlimit k xid RLIMIT_NPROC of None \<Rightarrow> Inl ''vc_rlimit_stat(RLIMIT_NRPOC)''
         | Some nproc \<Rightarrow> (case vk_rlimit k xid RLIMIT_AS of None \<Rightarrow> Inl ''vc_rlimit_stat(RLIMIT_AS)''
         | Some as \<Rightarrow> (case vk_rlimit k xid RLIMIT_RSS of None \<Rightarrow> Inl ''vc_rlimit_stat(RLIMIT_RSS)''
         | Some rss \<Rightarrow>
             (let (ut, st) = sched_loop (vk_sched k xid) 0 1024 0 0
              in Inr (ins_list cmpData xid
                   (slot\<lparr>xd_xid := xid, process_count := ucast nproc, VmSize_total := as * pagesize,
                         VmRSS_total := rss, start_time_oldest := uptime - up div 1000000,
                         utime_total := ut, stime_total := st\<rparr>) vec))))))"

section \<open>Reading a process\<close>

text \<open>\<^verbatim>\<open>for (idx=0; idx<n && *p!='\0'; ++p) if (*p==' ') ++idx;\<close>\<close>

fun skip_fields :: "nat \<Rightarrow> cstr \<Rightarrow> cstr" where
  "skip_fields 0 p = p"
| "skip_fields (Suc n) [] = []"
| "skip_fields (Suc n) (c # p) = (if c = CHR '' '' then skip_fields n p else skip_fields (Suc n) p)"

text \<open>\<^verbatim>\<open>strtol(p, &p, 10)\<close>\<close>

definition read_long :: "cstr \<Rightarrow> u64 \<times> cstr" where
  "read_long p = (let (v, r, _) = strtol 10 p in (word_of_int v, r))"

text \<open>
  The part of \<^verbatim>\<open>get_process_info\<close> that reads the line of \<^verbatim>\<open>/proc/<pid>/stat\<close>. \<open>None\<close> is the crash
  on a line without a closing parenthesis.
\<close>

definition parse_stat :: "u64 \<Rightarrow> xid_t \<Rightarrow> cstr \<Rightarrow> process_info option" where
  "parse_stat hertz ctx buffer =
     (case strchr buffer CHR '')'' of
        None \<Rightarrow> None
      | Some i \<Rightarrow>
          (let p0 = skip_fields 12 (drop i buffer);
               (ut, p1) = read_long p0;
               (st, p2) = read_long (tl p1);
               (cut, p3) = read_long (tl p2);
               (cst, p4) = read_long (tl p3);
               p5 = skip_fields 5 p4;
               (start, p6) = read_long p5;
               (vsz, p7) = read_long (tl p6);
               (rss, _) = read_long (tl p7)
           in Some \<lparr>VmSize = vsz, VmRSS = rss, start_time = toMsec hertz start,
                    stime = toMsec hertz st, utime = toMsec hertz ut,
                    cstime = toMsec hertz cst, cutime = toMsec hertz cut, s_context = ctx\<rparr>))"

text \<open>
  \<open>task_xid\<close> answers \<^verbatim>\<open>vc_get_task_xid\<close> and \<open>stat\<close> is the content of the process's file; the outer
  \<open>None\<close> is the null pointer the function returns.
\<close>

definition get_process_info ::
  "u64 \<Rightarrow> (cstr \<Rightarrow> xid_t) \<Rightarrow> (cstr \<Rightarrow> cstr option) \<Rightarrow> cstr \<Rightarrow> process_info option option" where
  "get_process_info hertz task_xid stat pid =
     (let ctx = task_xid pid
      in if ctx = VC_NOCTX then None
         else case stat pid of
                None \<Rightarrow> None
              | Some buffer \<Rightarrow> if buffer = [] then None else Some (parse_stat hertz ctx buffer))"

section \<open>Columns\<close>

definition fmt_ulong :: "u64 \<Rightarrow> cstr" where
  "fmt_ulong v = snd (the (fmt_uint True v))"

definition fillUintZero :: "u64 \<Rightarrow> nat \<Rightarrow> cstr" where
  "fillUintZero val cnt =
     (let d = fmt_ulong val; l = length d
      in take cnt (if l < cnt then replicate (cnt - l) CHR ''0'' @ d else d))"

text \<open>\<^verbatim>\<open>memcpy(buf+off, x, len)\<close> into a text buffer.\<close>

definition put :: "nat \<Rightarrow> cstr \<Rightarrow> cstr \<Rightarrow> cstr" where
  "put off x buf = take off buf @ x @ drop (off + length x) buf"

definition SUFFIXES :: "cstr list" where
  "SUFFIXES = ['' '', ''K'', ''M'', ''G'', ''T'', ''+'']"

text \<open>The scaling loop, with \<open>n\<close> rounds left from suffix \<open>i\<close> on.\<close>

fun mem_loop :: "nat \<Rightarrow> nat \<Rightarrow> u64 \<Rightarrow> u64 \<Rightarrow> u64 \<times> u64 \<times> cstr" where
  "mem_loop i 0 val m = (val, m, ''+'')"
| "mem_loop i (Suc n) val m =
     (if val < 1000 then (val, m, SUFFIXES ! i)
      else mem_loop (Suc i) n (drop_bit 10 val) (10 * (val AND 1023) div 1024))"

text \<open>The text that \<^verbatim>\<open>shortenMem\<close> right-aligns in seven columns.\<close>

definition mem_text :: "u64 \<Rightarrow> cstr \<times> cstr" where
  "mem_text val0 =
     (let (val, m, suffix) = mem_loop 0 6 val0 0;
          val' = (if val > 9999 then 9999 else val);
          m' = (if val' \<ge> 1000 then 0 else m)
      in (fmt_ulong val' @ (if m' \<noteq> 0 then CHR ''.'' # fmt_ulong m' else []), suffix))"

definition shortenMem :: "nat \<Rightarrow> u64 \<Rightarrow> cstr \<Rightarrow> cstr" where
  "shortenMem off val buf =
     (let (tmp, suffix) = mem_text val;
          i = 7 - length tmp - length suffix
      in put (off + i + length tmp) suffix (put (off + i) tmp buf))"

definition time_text :: "u64 \<Rightarrow> cstr" where
  "time_text t0 =
     (let ms = t0 mod 1000; t1 = t0 div 1000;
          ss = t1 mod 60; t2 = t1 div 60;
          mm = t2 mod 60; t3 = t2 div 60;
          hh = t3 mod 24; t = t3 div 24
      in if t > 999 * 999 then ''INVALID''
         else if t > 999
         then fmt_ulong (t div 365) @ ''y'' @ fillUintZero (t mod 365) 2 @ ''d'' @ fillUintZero hh 2
         else if t > 0
         then fmt_ulong t @ ''d'' @ fillUintZero hh 2 @ ''h'' @ fillUintZero mm 2
         else if hh > 0
         then fmt_ulong hh @ ''h'' @ fillUintZero mm 2 @ ''m'' @ fillUintZero ss 2
         else fmt_ulong mm @ ''m'' @ fillUintZero ss 2 @ ''s'' @ fillUintZero ms 2)"

definition shortenTime :: "nat \<Rightarrow> u64 \<Rightarrow> cstr \<Rightarrow> cstr" where
  "shortenTime off t buf = (let tmp = time_text t in put (off + (10 - length tmp)) tmp buf)"

definition formatName :: "vcCfgStyle \<Rightarrow> cstr option \<Rightarrow> cstr" where
  "formatName style nm =
     (let name = (case nm of None \<Rightarrow> [] | Some n \<Rightarrow> n)
      in if style = vcCFG_LEGACY then ''['' @ take 18 name @ '']'' else take 20 name)"

text \<open>One line of \<^verbatim>\<open>showContexts\<close>, up to the terminator that is stored after the name.\<close>

definition context_line :: "u64 \<Rightarrow> u64 \<Rightarrow> XidData \<Rightarrow> cstr" where
  "context_line uptime pagesize p =
     (let buf0 = replicate (4 * 3 + 512) CHR '' '';
          buf1 = put 0 (fmt_ulong (ucast (xd_xid p))) buf0;
          tmp = fmt_ulong (ucast (process_count p));
          buf2 = put (10 - length tmp) tmp buf1;
          buf3 = shortenMem 10 (VmSize_total p) buf2;
          buf4 = shortenMem 17 (VmRSS_total p * pagesize) buf3;
          buf5 = shortenTime 24 (utime_total p) buf4;
          buf6 = shortenTime 34 (stime_total p) buf5;
          buf7 = shortenTime 44 (uptime - start_time_oldest p) buf6
      in take 55 buf7 @ formatName (xd_cfgstyle p) (xd_name p))"

definition showContexts :: "u64 \<Rightarrow> u64 \<Rightarrow> XidData list \<Rightarrow> cstr list" where
  "showContexts uptime pagesize vec =
     ''CTX   PROC    VSZ    RSS  userTIME   sysTIME    UPTIME NAME'' # map (context_line uptime pagesize) vec"

text \<open>
  \<open>byctx\<close> stands for \<^verbatim>\<open>vc_getVserverByCtx\<close> (the configuration and its style) and \<open>getname\<close> for
  \<^verbatim>\<open>vc_getVserverName\<close>.
\<close>

definition fillName ::
  "(xid_t \<Rightarrow> (cstr \<times> vcCfgStyle) option) \<Rightarrow> (cstr \<Rightarrow> vcCfgStyle \<Rightarrow> cstr option) \<Rightarrow> XidData \<Rightarrow> XidData" where
  "fillName byctx getname obj =
     (if xd_xid obj = 0 then obj\<lparr>xd_cfgstyle := vcCFG_NONE, xd_name := Some ''root server''\<rparr>
      else if xd_xid obj = 1 then obj\<lparr>xd_cfgstyle := vcCFG_NONE, xd_name := Some ''monitoring server''\<rparr>
      else
        (case byctx (xd_xid obj) of
           None \<Rightarrow> obj\<lparr>xd_name := None, xd_cfgstyle := vcCFG_NONE\<rparr>
         | Some (cfg, style) \<Rightarrow>
             (case getname cfg style of
                None \<Rightarrow> obj\<lparr>xd_name := None, xd_cfgstyle := vcCFG_NONE\<rparr>
              | Some n \<Rightarrow> obj\<lparr>xd_cfgstyle := style, xd_name := Some n\<rparr>)))"

section \<open>The program\<close>

text \<open>
  The loop of \<^verbatim>\<open>main\<close> over the entries of \<^verbatim>\<open>/proc\<close> when the kernel keeps no statistics:
  every entry that starts with a digit and is not the program itself is registered. The crash of a
  malformed line ends the loop with \<open>None\<close>.
\<close>

fun proc_loop ::
  "(cstr \<Rightarrow> process_info option option) \<Rightarrow> XidData \<Rightarrow> (cstr \<Rightarrow> bool) \<Rightarrow> cstr list \<Rightarrow> XidData list \<Rightarrow>
   XidData list option" where
  "proc_loop info slot is_self [] vec = Some vec"
| "proc_loop info slot is_self (d # ds) vec =
     (if \<not> isdigit (deref d) then proc_loop info slot is_self ds vec
      else if is_self d then proc_loop info slot is_self ds vec
      else case info d of
             None \<Rightarrow> proc_loop info slot is_self ds vec
           | Some None \<Rightarrow> None
           | Some (Some p) \<Rightarrow> proc_loop info slot is_self ds (registerXid slot vec p))"

text \<open>The loop over \<^verbatim>\<open>/proc/virtual\<close>; messages go to standard error and the loop continues.\<close>

fun vstat_loop ::
  "vstat_kernel \<Rightarrow> u64 \<Rightarrow> u64 \<Rightarrow> XidData \<Rightarrow> cstr list \<Rightarrow> XidData list \<Rightarrow> XidData list" where
  "vstat_loop k uptime pagesize slot [] vec = vec"
| "vstat_loop k uptime pagesize slot (d # ds) vec =
     (case isNumberUnsigned d False of
        None \<Rightarrow> vstat_loop k uptime pagesize slot ds vec
      | Some x \<Rightarrow>
          (case registerXidVstat k uptime pagesize slot vec (word_of_int x) of
             Inl _ \<Rightarrow> vstat_loop k uptime pagesize slot ds vec
           | Inr vec' \<Rightarrow> vstat_loop k uptime pagesize slot ds vec'))"

section \<open>lsxid\<close>

record XidNameMapping =
  xn_xid :: xid_t
  xn_name :: "cstr option"

definition cmpMap :: "xid_t \<Rightarrow> XidNameMapping \<Rightarrow> int" where
  "cmpMap xid m = xid_diff xid (xn_xid m)"

text \<open>The name that a lookup of the configuration yields.\<close>

definition ctx_name ::
  "(xid_t \<Rightarrow> (cstr \<times> vcCfgStyle) option) \<Rightarrow> (cstr \<Rightarrow> vcCfgStyle \<Rightarrow> cstr option) \<Rightarrow> xid_t \<Rightarrow> cstr option" where
  "ctx_name byctx getname xid =
     (case byctx xid of None \<Rightarrow> None | Some (cfg, style) \<Rightarrow> getname cfg style)"

definition lookupContext ::
  "(xid_t \<Rightarrow> (cstr \<times> vcCfgStyle) option) \<Rightarrow> (cstr \<Rightarrow> vcCfgStyle \<Rightarrow> cstr option) \<Rightarrow> xid_t \<Rightarrow>
   XidNameMapping list \<Rightarrow> cstr option \<times> XidNameMapping list" where
  "lookupContext byctx getname xid vec =
     (let (i, vec') = find_or_insert cmpMap xid \<lparr>xn_xid = xid, xn_name = ctx_name byctx getname xid\<rparr> vec
      in (xn_name (vec' ! i), vec'))"

text \<open>
  \<open>get_iattr\<close> is \<^verbatim>\<open>vc_get_iattr\<close>; on an error, which is only reported, the context and the mask are
  what its wrapper copied from memory it had not filled.
\<close>

definition getFileContext :: "('f \<Rightarrow> u32 \<Rightarrow> (xid_t \<times> u32) option) \<Rightarrow> xid_t \<times> u32 \<Rightarrow> 'f \<Rightarrow> xid_t" where
  "getFileContext get_iattr garbage name =
     (let (res, m) = (case get_iattr name VC_IATTR_XID of None \<Rightarrow> garbage | Some r \<Rightarrow> r)
      in if m AND VC_IATTR_XID \<noteq> 0 then res else VC_NOCTX)"

section \<open>The vector of contexts\<close>

interpretation xv: keyed_vector cmpData xd_xid small_xid
  by unfold_locales (simp_all add: cmpData_def xid_diff_order)

interpretation nv: keyed_vector cmpMap xn_xid small_xid
  by unfold_locales (simp_all add: cmpMap_def xid_diff_order)

text \<open>What the aggregation of a list of processes of one context should be.\<close>

definition summary :: "XidData \<Rightarrow> process_info list \<Rightarrow> XidData" where
  "summary slot ps =
     slot\<lparr>xd_xid := s_context (hd ps), process_count := of_nat (length ps),
          VmSize_total := sum_list (map VmSize ps), VmRSS_total := sum_list (map VmRSS ps),
          utime_total := sum_list (map (\<lambda>p. utime p + cutime p) ps),
          stime_total := sum_list (map (\<lambda>p. stime p + cstime p) ps),
          start_time_oldest := Min (set (map start_time ps))\<rparr>"

definition of_context :: "xid_t \<Rightarrow> process_info list \<Rightarrow> process_info list" where
  "of_context x ps = filter (\<lambda>p. s_context p = x) ps"

lemma add_process_xid [simp]: "xd_xid (add_process p d) = xd_xid d"
  by (simp add: add_process_def)

lemma new_data_xid [simp]: "xd_xid (new_data slot p) = s_context p"
  by (simp add: new_data_def)

lemma summary_snoc:
  assumes "ps \<noteq> []"
  shows "summary slot (ps @ [p]) = add_process p (summary slot ps)"
proof -
  have "Min (insert (start_time p) (start_time ` set ps)) = min (start_time p) (Min (start_time ` set ps))"
    using assms by (intro Min_insert) auto
  then show ?thesis using assms by (simp add: summary_def add_process_def add.commute min.commute)
qed

lemma summary_single: "summary slot [p] = add_process p (new_data slot p)"
  by (simp add: summary_def add_process_def new_data_def)

lemma registerXid_spec:
  assumes "xv.inv vec" "small_xid (s_context p)"
  shows "xv.inv (registerXid slot vec p)"
    "kmap xd_xid (registerXid slot vec p) =
      (kmap xd_xid vec)(s_context p \<mapsto>
         add_process p (case kmap xd_xid vec (s_context p) of Some d \<Rightarrow> d | None \<Rightarrow> new_data slot p))"
  using xv.upsert_spec [OF assms, of "new_data slot p" "add_process p"] by (simp_all add: registerXid_def)

lemma registerXid_all:
  "\<forall>p \<in> set ps. small_xid (s_context p) \<Longrightarrow>
   xv.inv (foldl (registerXid slot) [] ps) \<and>
   kmap xd_xid (foldl (registerXid slot) [] ps) x =
     (if of_context x ps = [] then None else Some (summary slot (of_context x ps)))"
proof (induction ps arbitrary: x rule: rev_induct)
  case Nil
  then show ?case by (simp add: xv.inv_Nil of_context_def)
next
  case (snoc p ps)
  let ?v = "foldl (registerXid slot) [] ps"
  have inv: "xv.inv ?v" and k: "kmap xd_xid ?v y =
      (if of_context y ps = [] then None else Some (summary slot (of_context y ps)))" for y
    using snoc by auto
  have "of_context x (ps @ [p]) = of_context x ps @ (if s_context p = x then [p] else [])"
    by (simp add: of_context_def)
  then show ?case
    using registerXid_spec [OF inv, of p slot] snoc.prems k [of x] k [of "s_context p"]
    by (auto simp: summary_snoc summary_single)
qed

lemma summary_perm:
  assumes "mset ps = mset qs" "ps \<noteq> []" "\<forall>p \<in> set ps. s_context p = x"
  shows "summary slot ps = summary slot qs"
proof -
  have s: "set ps = set qs" and l: "length ps = length qs"
    using assms(1) by (metis mset_eq_setD, metis mset_eq_length)
  have sum: "sum_list (map f ps) = sum_list (map f qs)" for f :: "process_info \<Rightarrow> u64"
    using assms(1) by (metis mset_map sum_mset_sum_list)
  have "qs \<noteq> []" using l assms(2) by auto
  then have "s_context (hd ps) = s_context (hd qs)" using assms(2,3) s by (metis hd_in_set)
  then show ?thesis by (simp add: summary_def s l sum)
qed

section \<open>Columns\<close>

lemma fmt_ulong_digits: "fmt_ulong v = digits_of 10 (unat v)"
  by (simp add: fmt_ulong_def fmt_uint_def fmt_uint_base_result fmt_result_def)

lemma length_fmt_ulong: "unat v < 10 ^ k \<Longrightarrow> 0 < k \<Longrightarrow> length (fmt_ulong v) \<le> k"
  by (simp add: fmt_ulong_digits length_digits_of)

lemma length_fillUintZero [simp]: "length (fillUintZero v cnt) = cnt"
proof -
  have "length (fmt_ulong v) < cnt \<or> cnt \<le> length (fmt_ulong v)" by linarith
  then show ?thesis by (auto simp: fillUintZero_def Let_def)
qed

lemma length_put [simp]: "off + length x \<le> length buf \<Longrightarrow> length (put off x buf) = length buf"
  by (simp add: put_def)

text \<open>The scaled value is the original one shifted by the rounds taken.\<close>

lemma mem_loop_spec:
  assumes "mem_loop i n val m = (v, m', suf)" "m < 10" "i + n = 6"
  shows "m' < 10 \<and> (\<exists>j \<le> n. v = drop_bit (10 * j) val \<and> (if v < 1000 \<and> i + j < 6 then suf = SUFFIXES ! (i + j) else j = n \<and> suf = ''+''))"
  using assms
proof (induction n arbitrary: i val m)
  case 0
  then show ?case by (intro conjI exI [of _ 0]) auto
next
  case (Suc n)
  show ?case
  proof (cases "val < 1000")
    case True
    then show ?thesis using Suc.prems by (intro conjI exI [of _ 0]) auto
  next
    case False
    have "val AND 1023 = take_bit 10 val" by (simp add: take_bit_eq_mask mask_eq_exp_minus_1)
    then have "unat (val AND 1023) < 1024" by (simp add: unsigned_take_bit_eq take_bit_nat_def)
    then have "unat (10 * (val AND 1023) div 1024) < 10"
      by (simp add: unat_div_distrib unat_word_ariths)
    then have m: "10 * (val AND 1023) div 1024 < 10" by (simp add: word_less_nat_alt)
    from Suc.IH [OF _ m, of "Suc i" "drop_bit 10 val"] False Suc.prems
    obtain j where j: "m' < 10" "j \<le> n" "v = drop_bit (10 * j) (drop_bit 10 val)"
      "if v < 1000 \<and> Suc i + j < 6 then suf = SUFFIXES ! (Suc i + j) else j = n \<and> suf = ''+''"
      by auto
    then show ?thesis
      by (intro conjI exI [of _ "Suc j"]) (auto simp: drop_bit_drop_bit add.commute)
  qed
qed

lemma unat_drop_bit: "unat (drop_bit n (v :: 'w::len word)) = unat v div 2 ^ n"
  unfolding unat_drop_bit_eq by (rule drop_bit_eq_div)

lemma mem_text_spec:
  "\<exists>j frac suf. mem_text val = (digits_of 10 (unat val div 1024 ^ j) @ frac, suf) \<and> j \<le> 6 \<and>
     unat val div 1024 ^ j < 1000 \<and> suf = (if j < 6 then SUFFIXES ! j else ''+'') \<and>
     (frac = [] \<or> (\<exists>d. d \<noteq> 0 \<and> d < 10 \<and> frac = CHR ''.'' # digits_of 10 d))"
proof -
  obtain v m suf where l: "mem_loop 0 6 val 0 = (v, m, suf)" using prod_cases3 by blast
  obtain j where j: "m < 10" "j \<le> 6" "v = drop_bit (10 * j) val"
    "if v < 1000 \<and> j < 6 then suf = SUFFIXES ! j else j = 6 \<and> suf = ''+''"
    using mem_loop_spec [OF l] by auto
  have e: "unat v = unat val div 1024 ^ j" by (simp add: j(3) unat_drop_bit power_mult)
  have "unat v < 16" if "j = 6"
  proof -
    have "unat val < 2 ^ 64" using unsigned_less [of val] by simp
    then show ?thesis using that e by (simp add: less_mult_imp_div_less)
  qed
  then have v: "unat v < 1000" using j(4) by (auto split: if_splits simp: word_less_nat_alt)
  then have "\<not> v > 9999" "\<not> v \<ge> 1000" by (simp_all add: word_less_nat_alt word_le_nat_alt)
  then have t: "mem_text val = (digits_of 10 (unat v) @ (if m \<noteq> 0 then CHR ''.'' # digits_of 10 (unat m) else []), suf)"
    by (simp add: mem_text_def l fmt_ulong_digits)
  have "suf = (if j < 6 then SUFFIXES ! j else ''+'')" using j(4) v by (auto split: if_splits simp: word_less_nat_alt)
  moreover have "unat m < 10" "unat m \<noteq> 0 \<longleftrightarrow> m \<noteq> 0"
    using j(1) by (auto simp: word_less_nat_alt unat_eq_0)
  ultimately show ?thesis unfolding t e using j(2) v [unfolded e]
    by (intro exI [of _ j] exI [of _ "if m \<noteq> 0 then CHR ''.'' # digits_of 10 (unat m) else []"] exI [of _ suf])
      (cases "m = 0"; simp; blast)
qed

lemma SUFFIXES_len: "j < 6 \<Longrightarrow> length (SUFFIXES ! j) = 1"
  by (simp add: SUFFIXES_def nth_Cons split: nat.split)

lemma mem_text_width:
  assumes "mem_text val = (tmp, suf)"
  shows "length tmp + length suf \<le> 7" "length suf = 1"
proof -
  obtain j frac where j: "tmp = digits_of 10 (unat val div 1024 ^ j) @ frac" "j \<le> 6"
    "unat val div 1024 ^ j < 1000" "suf = (if j < 6 then SUFFIXES ! j else ''+'')"
    "frac = [] \<or> (\<exists>d. d \<noteq> 0 \<and> d < 10 \<and> frac = CHR ''.'' # digits_of 10 d)"
    using mem_text_spec [of val] assms by auto
  show s: "length suf = 1" using j(4) SUFFIXES_len by auto
  have "length (digits_of 10 (unat val div 1024 ^ j)) \<le> 3" using j(3) by (intro length_digits_of) auto
  moreover have "length frac \<le> 2" using j(5) by (auto simp: digits_of_small)
  ultimately show "length tmp + length suf \<le> 7" using s j(1) by simp
qed

lemma unat_mod_less: "0 < unat b \<Longrightarrow> unat (a mod b) < unat (b :: 'w::len word)"
  by (simp add: unat_mod_distrib)

lemma length_time_text: "length (time_text t0) \<le> 10"
proof -
  have hh: "length (fmt_ulong (x mod 24)) \<le> 2" for x :: u64
    using unat_mod_less [of "24 :: u64" x] by (intro length_fmt_ulong) auto
  have mm: "length (fmt_ulong (x mod 60)) \<le> 2" for x :: u64
    using unat_mod_less [of "60 :: u64" x] by (intro length_fmt_ulong) auto
  have days: "length (fmt_ulong x) \<le> 3" if "\<not> 999 < x" for x :: u64
    using that by (intro length_fmt_ulong) (auto simp: word_less_nat_alt)
  have years: "length (fmt_ulong (x div 365)) \<le> 4" if "\<not> 999 * 999 < x" for x :: u64
  proof -
    have "unat x \<le> 998001" using that by (simp add: word_less_nat_alt)
    then have "unat (x div 365) < 10 ^ 4" by (simp add: unat_div_distrib)
    then show ?thesis by (intro length_fmt_ulong) auto
  qed
  have four: "length (fmt_ulong (x mod 24)) \<le> 4" "length (fmt_ulong (x mod 60)) \<le> 4"
    "\<not> 999 < x \<Longrightarrow> length (fmt_ulong x) \<le> 4" for x :: u64
    using hh [of x] mm [of x] days [of x] by auto
  show ?thesis using four years unfolding time_text_def Let_def by auto
qed

text \<open>Columns of a text buffer.\<close>

definition col :: "nat \<Rightarrow> nat \<Rightarrow> cstr \<Rightarrow> cstr" where
  "col a w buf = take w (drop a buf)"

definition lpad :: "nat \<Rightarrow> cstr \<Rightarrow> cstr" where
  "lpad w s = replicate (w - length s) CHR '' '' @ s"

lemma put_append: "off + length x + length y \<le> length buf \<Longrightarrow>
  put (off + length x) y (put off x buf) = put off (x @ y) buf"
  by (simp add: put_def ac_simps)

lemma col_put_outside:
  "a + w \<le> off \<or> off + length x \<le> a \<Longrightarrow> off + length x \<le> length buf \<Longrightarrow>
   col a w (put off x buf) = col a w buf"
  by (auto simp: col_def put_def drop_take)

lemma col_put_right:
  assumes "col a w buf = replicate w CHR '' ''" "length x \<le> w" "a + w \<le> length buf"
  shows "col a w (put (a + (w - length x)) x buf) = lpad w x"
proof -
  have "take (w - length x) (drop a buf) = take (w - length x) (col a w buf)" by (simp add: col_def)
  then have "take (w - length x) (drop a buf) = replicate (w - length x) CHR '' ''"
    using assms(1) by simp
  then show ?thesis using assms(2,3) by (simp add: col_def put_def lpad_def drop_take)
qed

lemma shortenMem_put:
  assumes "mem_text val = (tmp, suf)" "off + 7 \<le> length buf"
  shows "shortenMem off val buf = put (off + (7 - length (tmp @ suf))) (tmp @ suf) buf"
  using put_append [of "off + (7 - length tmp - length suf)" tmp suf buf] mem_text_width [OF assms(1)] assms
  by (simp add: shortenMem_def)

text \<open>What the two column writers do to the buffer, in the form of the whole-line proof.\<close>

lemma length_shortenMem: "off + 7 \<le> length buf \<Longrightarrow> length (shortenMem off val buf) = length buf"
  using mem_text_width [of val] by (cases "mem_text val") (simp add: shortenMem_put)

lemma length_shortenTime: "off + 10 \<le> length buf \<Longrightarrow> length (shortenTime off t buf) = length buf"
  using length_time_text [of t] by (simp add: shortenTime_def Let_def)

lemma col_shortenMem:
  assumes "off + 7 \<le> length buf"
  shows "a + w \<le> off \<or> off + 7 \<le> a \<Longrightarrow> col a w (shortenMem off val buf) = col a w buf"
    and "col off 7 buf = replicate 7 CHR '' '' \<Longrightarrow>
      col off 7 (shortenMem off val buf) = lpad 7 (fst (mem_text val) @ snd (mem_text val))"
proof -
  obtain tmp suf where t: "mem_text val = (tmp, suf)" by fastforce
  note s = shortenMem_put [OF t assms] and l = mem_text_width(1) [OF t]
  show "a + w \<le> off \<or> off + 7 \<le> a \<Longrightarrow> col a w (shortenMem off val buf) = col a w buf"
    unfolding s using l assms by (intro col_put_outside) auto
  show "col off 7 buf = replicate 7 CHR '' '' \<Longrightarrow>
      col off 7 (shortenMem off val buf) = lpad 7 (fst (mem_text val) @ snd (mem_text val))"
    unfolding s t using col_put_right [of off 7 buf "tmp @ suf"] l assms by simp
qed

lemma col_shortenTime:
  assumes "off + 10 \<le> length buf"
  shows "a + w \<le> off \<or> off + 10 \<le> a \<Longrightarrow> col a w (shortenTime off t buf) = col a w buf"
    and "col off 10 buf = replicate 10 CHR '' '' \<Longrightarrow> col off 10 (shortenTime off t buf) = lpad 10 (time_text t)"
proof -
  note l = length_time_text [of t]
  show "a + w \<le> off \<or> off + 10 \<le> a \<Longrightarrow> col a w (shortenTime off t buf) = col a w buf"
    unfolding shortenTime_def Let_def using l assms by (intro col_put_outside) auto
  show "col off 10 buf = replicate 10 CHR '' '' \<Longrightarrow> col off 10 (shortenTime off t buf) = lpad 10 (time_text t)"
    unfolding shortenTime_def Let_def using col_put_right [of off 10 buf "time_text t"] l assms by simp
qed

lemma length_fmt_ulong_u32: "length (fmt_ulong (ucast (v :: u32))) \<le> 10"
proof -
  have "unat v < 2 ^ 32" using unsigned_less [of v] by simp
  then have "unat (ucast v :: u64) < 10 ^ 10" by (simp add: unsigned_ucast_eq take_bit_nat_eq_self)
  then show ?thesis by (intro length_fmt_ulong) auto
qed

section \<open>Properties\<close>

text \<open>
  C26. The aggregation of \<^verbatim>\<open>vserver-stat\<close>: after any sequence of processes, the vector is strictly
  sorted by context, has an element for exactly the contexts that occur, and each element counts
  the processes of its context, holds the sums of their sizes and times (in the 64 bits of the
  counters) and the oldest start time. Contexts are assumed to be below \<open>2 ^ 31\<close>.\<close>

theorem registerXid_aggregates:
  assumes "\<forall>p \<in> set ps. small_xid (s_context p)"
  shows "key_sorted xd_xid (foldl (registerXid slot) [] ps) \<and>
    (\<forall>x. kmap xd_xid (foldl (registerXid slot) [] ps) x =
       (if of_context x ps = [] then None else Some (summary slot (of_context x ps))))"
  using registerXid_all [OF assms, of slot] by (simp add: xv.inv_def)

definition sample_process :: process_info where
  "sample_process = \<lparr>VmSize = 100, VmRSS = 10, start_time = 7, stime = 1, utime = 2, cstime = 3,
     cutime = 4, s_context = 5\<rparr>"

definition blank_data :: XidData where
  "blank_data = \<lparr>xd_xid = 0, process_count = 0, VmSize_total = 0, VmRSS_total = 0,
     start_time_oldest = 0, stime_total = 0, utime_total = 0, xd_cfgstyle = vcCFG_NONE, xd_name = None\<rparr>"

theorem registerXid_aggregates_witness:
  "kmap xd_xid (foldl (registerXid blank_data) [] [sample_process, sample_process\<lparr>start_time := 3\<rparr>]) 5 =
     Some (blank_data\<lparr>xd_xid := 5, process_count := 2, VmSize_total := 200, VmRSS_total := 20,
       utime_total := 12, stime_total := 8, start_time_oldest := 3\<rparr>)"
  using registerXid_aggregates [of "[sample_process, sample_process\<lparr>start_time := 3\<rparr>]" blank_data]
  by (simp add: sample_process_def small_xid_def of_context_def summary_def blank_data_def)

text \<open>
  The result does not depend on the order in which the directory lists the processes.\<close>

lemma registerXid_order:
  assumes "mset ps = mset qs" "\<forall>p \<in> set ps. small_xid (s_context p)"
  shows "foldl (registerXid slot) [] ps = foldl (registerXid slot) [] qs"
proof -
  have q: "\<forall>p \<in> set qs. small_xid (s_context p)" using assms mset_eq_setD by blast
  note P = registerXid_all [OF assms(2), of slot] and Q = registerXid_all [OF q, of slot]
  have "kmap xd_xid (foldl (registerXid slot) [] ps) x = kmap xd_xid (foldl (registerXid slot) [] qs) x" for x
  proof -
    have m: "mset (of_context x ps) = mset (of_context x qs)"
      using assms(1) by (simp add: of_context_def mset_filter)
    then have "of_context x ps = [] \<longleftrightarrow> of_context x qs = []" by (metis mset_zero_iff_right mset_zero_iff)
    moreover have "summary slot (of_context x ps) = summary slot (of_context x qs)" if "of_context x ps \<noteq> []"
      using summary_perm [OF m that, of x] by (simp add: of_context_def)
    ultimately show ?thesis using P [of x] Q [of x] by auto
  qed
  then show ?thesis using P Q by (intro key_sorted_unique_kmap [of xd_xid]) (auto simp: xv.inv_def)
qed

lemma registerXid_order_example:
  "foldl (registerXid blank_data) [] [sample_process, sample_process\<lparr>s_context := 2\<rparr>] =
   foldl (registerXid blank_data) [] [sample_process\<lparr>s_context := 2\<rparr>, sample_process]"
  using registerXid_order [of "[sample_process, sample_process\<lparr>s_context := 2\<rparr>]"
      "[sample_process\<lparr>s_context := 2\<rparr>, sample_process]" blank_data]
  by (simp add: sample_process_def small_xid_def)

text \<open>
  Layout of a line: whatever the values are, each size is right-aligned in its seven columns,
  each time in its ten, and the name starts at column 55; no column overwrites another.\<close>

lemma context_line_layout:
  "(let line = context_line uptime pagesize p;
        mem = (\<lambda>v. lpad 7 (fst (mem_text v) @ snd (mem_text v)));
        time = (\<lambda>t. lpad 10 (time_text t))
    in col 10 7 line = mem (VmSize_total p) \<and> col 17 7 line = mem (VmRSS_total p * pagesize) \<and>
       col 24 10 line = time (utime_total p) \<and> col 34 10 line = time (stime_total p) \<and>
       col 44 10 line = time (uptime - start_time_oldest p) \<and> col 54 1 line = '' '' \<and>
       drop 55 line = formatName (xd_cfgstyle p) (xd_name p))"
proof -
  define b2 where "b2 = put (10 - length (fmt_ulong (ucast (process_count p))))
    (fmt_ulong (ucast (process_count p)))
    (put 0 (fmt_ulong (ucast (xd_xid p))) (replicate (4 * 3 + 512) CHR '' ''))"
  have l2: "length b2 = 524"
    using length_fmt_ulong_u32 [of "xd_xid p"] length_fmt_ulong_u32 [of "process_count p"]
    by (simp add: b2_def)
  have c2: "col a w b2 = replicate w CHR '' ''" if "10 \<le> a" "a + w \<le> 524" for a w
    using length_fmt_ulong_u32 [of "xd_xid p"] length_fmt_ulong_u32 [of "process_count p"] that
    unfolding b2_def by (subst col_put_outside, simp, simp)+ (simp add: col_def)
  define b7 where "b7 = shortenTime 44 (uptime - start_time_oldest p) (shortenTime 34 (stime_total p)
    (shortenTime 24 (utime_total p) (shortenMem 17 (VmRSS_total p * pagesize) (shortenMem 10 (VmSize_total p) b2))))"
  note L = length_shortenMem length_shortenTime l2
  have line: "context_line uptime pagesize p = take 55 b7 @ formatName (xd_cfgstyle p) (xd_name p)"
    by (simp add: context_line_def Let_def b7_def b2_def)
  have l7: "length b7 = 524" by (simp add: b7_def L)
  have c: "col a w (take 55 b7 @ nm) = col a w b7" if "a + w \<le> 55" for a w nm
    using that l7 by (simp add: col_def drop_take)
  have "drop 55 (take 55 b7 @ nm) = nm" for nm using l7 by simp
  moreover have "col 10 7 b7 = lpad 7 (fst (mem_text (VmSize_total p)) @ snd (mem_text (VmSize_total p)))"
    "col 17 7 b7 = lpad 7 (fst (mem_text (VmRSS_total p * pagesize)) @ snd (mem_text (VmRSS_total p * pagesize)))"
    "col 24 10 b7 = lpad 10 (time_text (utime_total p))" "col 34 10 b7 = lpad 10 (time_text (stime_total p))"
    "col 44 10 b7 = lpad 10 (time_text (uptime - start_time_oldest p))" "col 54 1 b7 = '' ''"
    by (simp_all add: b7_def col_shortenMem col_shortenTime L c2)
  ultimately show ?thesis unfolding line Let_def by (simp add: c)
qed

text \<open>
  The text of a size: it fits its seven columns and shows the size divided by the power of 1024
  its suffix stands for, which is always below a thousand.\<close>

lemma mem_text_value:
  "\<exists>j frac suf. mem_text val = (digits_of 10 (unat val div 1024 ^ j) @ frac, suf) \<and> j \<le> 6 \<and>
     unat val div 1024 ^ j < 1000 \<and> suf = (if j < 6 then SUFFIXES ! j else ''+'') \<and>
     length (digits_of 10 (unat val div 1024 ^ j) @ frac) + length suf \<le> 7"
proof -
  obtain j frac suf where "mem_text val = (digits_of 10 (unat val div 1024 ^ j) @ frac, suf)" "j \<le> 6"
    "unat val div 1024 ^ j < 1000" "suf = (if j < 6 then SUFFIXES ! j else ''+'')"
    using mem_text_spec [of val] by auto
  then show ?thesis using mem_text_width(1) [of val] by blast
qed

text \<open>
  The uptime file holds two numbers, and the length that chooses the scale of the fraction is
  that of the whole rest of the line: with the idle time present the fraction is multiplied by zero
  and the uptime is always a whole number of seconds.\<close>

lemma getUptime_drops_fraction:
  assumes "int s \<le> LONG_MAX" "int f \<le> LONG_MAX" "idle \<noteq> []" "hd idle \<noteq> NL" "last idle \<noteq> NL"
    and "1 \<le> length idle" "2 \<le> length (digits_of 10 f)"
    and "length (digits_of 10 s @ ''.'' @ digits_of 10 f @ '' '' @ idle @ [NL]) < 64"
  shows "getUptime (digits_of 10 s @ ''.'' @ digits_of 10 f @ '' '' @ idle @ [NL]) = Some (of_nat s * 1000)"
proof -
  let ?fr = "digits_of 10 f @ '' '' @ idle"
  have nl: "NL \<noteq> CHR '' ''" by simp
  have "strip_nl (digits_of 10 s @ ''.'' @ ?fr @ [NL]) = digits_of 10 s @ ''.'' @ ?fr"
    using assms(3,5) by (cases idle rule: rev_cases) (auto simp: strip_nl_def)
  then have strip: "strip_nl (digits_of 10 s @ ''.'' @ digits_of 10 f @ '' '' @ idle @ [NL]) = digits_of 10 s @ ''.'' @ ?fr"
    by simp
  have nd: "\<not> is_base_digit 10 CHR ''.''" "\<not> is_base_digit 10 CHR '' ''" by code_simp+
  have "strto_scan 10 (digits_of 10 s @ ''.'' @ ?fr) = Some (False, s, ''.'' @ ?fr)"
    by (rule strto_scan_digits) (use nd in auto)
  then have s1: "strtol 10 (digits_of 10 s @ ''.'' @ ?fr) = (int s, ''.'' @ ?fr, False)"
    using assms(1) by (simp add: strtol_def LONG_MIN_def)
  have "strto_scan 10 ?fr = Some (False, f, '' '' @ idle)"
    by (rule strto_scan_digits) (use nd in auto)
  then have s2: "strtol 10 ?fr = (int f, '' '' @ idle, False)"
    using assms(2) by (simp add: strtol_def LONG_MIN_def)
  have "length ?fr \<ge> 4" using assms(6,7) by simp
  then have "msec_mult (length ?fr) = 0" by (simp add: msec_mult_def)
  then show ?thesis unfolding getUptime_def strip using assms(8) s1 s2 by (simp add: Let_def)
qed

lemma getUptime_drops_fraction_example:
  "getUptime (digits_of 10 12 @ ''.'' @ digits_of 10 99 @ '' '' @ ''7.5'' @ [NL]) = Some 12000"
  using getUptime_drops_fraction [of 12 99 "''7.5''"]
  by (simp add: LONG_MAX_def digits_of_step digits_of_small DIGITS_def)

text \<open>
  Two digits are kept of a number that may have three: above 999 days, ten consecutive days of
  the year are printed alike.\<close>

lemma time_text_truncates_days:
  assumes "k < 10"
  shows "time_text (of_nat (86400000 * (1000 + k))) = ''2y27d00''"
proof -
  have u: "unat (of_nat (86400000 * (1000 + k)) :: u64) = 86400000 * (1000 + k)"
    using assms by (simp add: unat_of_nat take_bit_nat_eq_self del: of_nat_mult of_nat_add)
  let ?t = "of_nat (86400000 * (1000 + k)) :: u64"
  have n: "86400000 * (1000 + k) div 1000 div 60 div 60 = 24 * (1000 + k)" by simp
  have h: "unat (?t div 1000 div 60 div 60) = 24 * (1000 + k)"
    unfolding unat_div_distrib u by (simp add: n [simplified])
  have d1: "?t div 1000 div 60 div 60 div 24 = of_nat (1000 + k)" "?t div 1000 div 60 div 60 mod 24 = 0"
    unfolding word_unat_eq_iff unat_div_distrib [of _ 24] unat_mod_distrib [of _ 24] h
    using assms by (simp_all add: unat_of_nat take_bit_nat_eq_self del: of_nat_add)
  have d2: "(of_nat (1000 + k) :: u64) > 999" "\<not> (of_nat (1000 + k) :: u64) > 999 * 999"
    "(of_nat (1000 + k) :: u64) div 365 = 2" "(of_nat (1000 + k) :: u64) mod 365 = of_nat (270 + k)"
    using assms by (auto simp: word_unat_eq_iff unat_div_distrib unat_mod_distrib unat_of_nat
        take_bit_nat_eq_self word_less_nat_alt div_nat_eqI mod_nat_eqI simp del: of_nat_add)
  have f: "fillUintZero (of_nat (270 + k)) 2 = ''27''"
  proof -
    have "unat (of_nat (270 + k) :: u64) = 270 + k"
      using assms by (simp add: unat_of_nat take_bit_nat_eq_self del: of_nat_add)
    moreover have "(270 + k) div 10 = 27" using assms by linarith
    ultimately have "fmt_ulong (of_nat (270 + k)) = ''27'' @ [DIGITS ! ((270 + k) mod 10)]"
      by (simp add: fmt_ulong_digits digits_of_step digits_of_small DIGITS_def)
    then show ?thesis by (simp add: fillUintZero_def)
  qed
  have z: "fillUintZero 0 2 = ''00''" "fmt_ulong 2 = ''2''"
    by (simp_all add: fillUintZero_def fmt_ulong_digits digits_of_small DIGITS_def)
  show ?thesis unfolding time_text_def Let_def d1 d2 using d2(1,2) f z by simp
qed

lemma time_text_truncates_days_example:
  "time_text (of_nat (86400000 * (1000 + 9))) = ''2y27d00''"
  using time_text_truncates_days [of 9] by simp

text \<open>
  The name cache of \<^verbatim>\<open>lsxid\<close>: along any sequence of lookups, every answer is the one a direct
  look at the configuration would give, and the cache stays sorted.\<close>

lemma lookupContext_cache:
  assumes "nv.inv vec" "\<forall>e \<in> set vec. xn_name e = ctx_name byctx getname (xn_xid e)" "small_xid xid"
    and "lookupContext byctx getname xid vec = (res, vec')"
  shows "res = ctx_name byctx getname xid \<and> nv.inv vec' \<and>
    (\<forall>e \<in> set vec'. xn_name e = ctx_name byctx getname (xn_xid e))"
proof -
  let ?new = "\<lparr>xn_xid = xid, xn_name = ctx_name byctx getname xid\<rparr>"
  obtain i where fi: "find_or_insert cmpMap xid ?new vec = (i, vec')" "res = xn_name (vec' ! i)"
    using assms(4) by (auto simp: lookupContext_def Let_def split: prod.splits)
  note s = nv.find_or_insert_spec [OF assms(1,3) _ fi(1)]
  have "set vec' \<subseteq> insert ?new (set vec)"
    using fi(1) by (auto simp: find_or_insert_def split: option.splits)
  then have all: "\<forall>e \<in> set vec'. xn_name e = ctx_name byctx getname (xn_xid e)" using assms(2) by auto
  have i: "i < length vec'" "xn_xid (vec' ! i) = xid" "nv.inv vec'" using s by auto
  then have "res = ctx_name byctx getname xid" using all fi(2) nth_mem [OF i(1)] by auto
  then show ?thesis using all i(3) by simp
qed

lemma lookupContext_cache_example:
  "fst (lookupContext (\<lambda>x. Some (''/vs'', vcCFG_LEGACY)) (\<lambda>c s. Some ''guest'') 7 []) = Some ''guest''"
proof -
  obtain res vec' where l: "lookupContext (\<lambda>x. Some (''/vs'', vcCFG_LEGACY)) (\<lambda>c s. Some ''guest'') 7 [] = (res, vec')"
    by fastforce
  then show ?thesis
    using lookupContext_cache [OF nv.inv_Nil _ _ l] by (simp add: small_xid_def ctx_name_def)
qed

end
