(* ===== verification/SecureMount.thy ===== *)
theory SecureMount
  imports NumParse VserverH
begin

text \<open>
  The program \<^verbatim>\<open>secure-mount\<close>, which mounts the file systems of a guest: the option table and its
  lookup, the parser of fstab lines, the choice between an internal mount and the external program,
  and the sequence of directory changes that keeps the mount inside the guest. The system calls are
  outcomes given as parameters; the state records where the process is and what it has done.
\<close>

section \<open>Constants and data\<close>

text \<open>Flags of \<^verbatim>\<open>mount(2)\<close>, as the system headers and the fall-backs in the source define them.\<close>

definition MS_RDONLY :: u64 where "MS_RDONLY = 1"
definition MS_NOSUID :: u64 where "MS_NOSUID = 2"
definition MS_NODEV :: u64 where "MS_NODEV = 4"
definition MS_NOEXEC :: u64 where "MS_NOEXEC = 8"
definition MS_SYNCHRONOUS :: u64 where "MS_SYNCHRONOUS = 16"
definition MS_REMOUNT :: u64 where "MS_REMOUNT = 32"
definition MS_MANDLOCK :: u64 where "MS_MANDLOCK = 64"
definition MS_DIRSYNC :: u64 where "MS_DIRSYNC = 128"
definition MS_NOATIME :: u64 where "MS_NOATIME = 1024"
definition MS_NODIRATIME :: u64 where "MS_NODIRATIME = 2048"
definition MS_BIND :: u64 where "MS_BIND = 4096"
definition MS_MOVE :: u64 where "MS_MOVE = 8192"
definition MS_REC :: u64 where "MS_REC = 0x4000"
definition MS_UNBINDABLE :: u64 where "MS_UNBINDABLE = push_bit 17 1"
definition MS_PRIVATE :: u64 where "MS_PRIVATE = push_bit 18 1"
definition MS_SLAVE :: u64 where "MS_SLAVE = push_bit 19 1"
definition MS_SHARED :: u64 where "MS_SHARED = push_bit 20 1"

lemmas ms_defs =
  MS_RDONLY_def MS_NOSUID_def MS_NODEV_def MS_NOEXEC_def MS_SYNCHRONOUS_def MS_REMOUNT_def
  MS_MANDLOCK_def MS_DIRSYNC_def MS_NOATIME_def MS_NODIRATIME_def MS_BIND_def MS_MOVE_def MS_REC_def
  MS_UNBINDABLE_def MS_PRIVATE_def MS_SLAVE_def MS_SHARED_def

definition XFLAG_NOAUTO :: u64 where "XFLAG_NOAUTO = 0x01"
definition XFLAG_FILE :: u64 where "XFLAG_FILE = 0x02"
definition XFLAG_NOMTAB :: u64 where "XFLAG_NOMTAB = 0x04"

datatype RootFsOption = rfsYES | rfsNO | rfsONLY

record MountInfo =
  mi_src :: cstr
  mi_dst :: cstr
  mi_name :: "cstr option"
  mi_type :: "cstr option"
  mi_flag :: u64
  mi_xflag :: u64
  mi_mask :: u64
  mi_data :: "cstr option"
  mi_data_parsed :: "cstr option"

record Options =
  op_mtab :: cstr
  op_fstab :: cstr
  do_chroot :: bool
  ignore_mtab :: bool
  trigger_automount :: bool
  op_rootfs :: RootFsOption
  cur_dir_path :: cstr

datatype FstabOption = FstabOption (fo_opt: cstr) (fo_flag: u64) (fo_mask: u64) (fo_xflag: u64)

definition FSTAB_OPTIONS :: "FstabOption list" where
  "FSTAB_OPTIONS =
     [FstabOption ''defaults'' MS_NODEV (MS_RDONLY OR MS_NOSUID OR MS_NODEV OR MS_NOEXEC OR MS_SYNCHRONOUS) 0,
      FstabOption ''rbind'' (MS_BIND OR MS_REC) (MS_BIND OR MS_REC) 0,
      FstabOption ''bind'' MS_BIND MS_BIND 0,
      FstabOption ''move'' MS_MOVE MS_MOVE 0,
      FstabOption ''async'' 0 MS_SYNCHRONOUS 0,
      FstabOption ''sync'' MS_SYNCHRONOUS MS_SYNCHRONOUS 0,
      FstabOption ''atime'' 0 MS_NOATIME 0,
      FstabOption ''noatime'' MS_NOATIME MS_NOATIME 0,
      FstabOption ''dev'' 0 MS_NODEV 0,
      FstabOption ''nodev'' MS_NODEV MS_NODEV 0,
      FstabOption ''exec'' 0 MS_NOEXEC 0,
      FstabOption ''noexec'' MS_NOEXEC MS_NOEXEC 0,
      FstabOption ''suid'' 0 MS_NOSUID 0,
      FstabOption ''nosuid'' MS_NOSUID MS_NOSUID 0,
      FstabOption ''ro'' MS_RDONLY MS_RDONLY 0,
      FstabOption ''rw'' 0 MS_RDONLY 0,
      FstabOption ''remount'' MS_REMOUNT MS_REMOUNT 0,
      FstabOption ''users'' (MS_NOEXEC OR MS_NOSUID OR MS_NODEV) (MS_NOEXEC OR MS_NOSUID OR MS_NODEV) 0,
      FstabOption ''mandlock'' MS_MANDLOCK MS_MANDLOCK 0,
      FstabOption ''nodiratime'' MS_NODIRATIME MS_NODIRATIME 0,
      FstabOption ''dirsync'' MS_DIRSYNC MS_DIRSYNC 0,
      FstabOption ''_netdev'' 0 0 0,
      FstabOption ''auto'' 0 0 0,
      FstabOption ''noauto'' 0 0 XFLAG_NOAUTO,
      FstabOption ''user'' 0 0 0,
      FstabOption ''nouser'' 0 0 0,
      FstabOption ''rec'' MS_REC MS_REC 0,
      FstabOption ''unbindable'' MS_UNBINDABLE MS_UNBINDABLE 0,
      FstabOption ''private'' MS_PRIVATE MS_PRIVATE 0,
      FstabOption ''slave'' MS_SLAVE MS_SLAVE 0,
      FstabOption ''shared'' MS_SHARED MS_SHARED 0,
      FstabOption ''nomtab'' 0 0 XFLAG_NOMTAB]"

section \<open>Options and fstab lines\<close>

definition searchOption :: "cstr \<Rightarrow> nat \<Rightarrow> FstabOption option" where
  "searchOption opt len = find (\<lambda>i. strncmp len (fo_opt i) opt = 0) FSTAB_OPTIONS"

definition apply_option :: "FstabOption \<Rightarrow> MountInfo \<Rightarrow> MountInfo" where
  "apply_option opt info =
     info\<lparr>mi_flag := (mi_flag info AND NOT (fo_mask opt)) OR fo_flag opt,
          mi_mask := mi_mask info OR fo_mask opt,
          mi_xflag := mi_xflag info OR fo_xflag opt\<rparr>"

text \<open>The length of the option at the front of a list.\<close>

definition opt_len :: "cstr \<Rightarrow> nat" where
  "opt_len ptr = (case strchr ptr CHR '','' of Some i \<Rightarrow> i | None \<Rightarrow> length ptr)"

text \<open>The loop of \<^verbatim>\<open>transformOptionList\<close>; \<open>out\<close> is what has been written to \<^verbatim>\<open>data\<close>.\<close>

function transform_loop :: "cstr \<Rightarrow> MountInfo \<Rightarrow> cstr \<Rightarrow> MountInfo \<times> cstr" where
  "transform_loop ptr info out =
     (let n = opt_len ptr;
          (info', out') =
            (case searchOption ptr n of
               Some opt \<Rightarrow> (apply_option opt info, out)
             | None \<Rightarrow> (info, (if out \<noteq> [] then out @ '','' else []) @ take n ptr));
          rest = drop (n + 1) ptr
      in if rest = [] then (info', out') else transform_loop rest info' out')"
  by pat_completeness auto
termination
  by (relation "measure (\<lambda>(ptr, _, _). length ptr)") auto

declare transform_loop.simps [simp del]

text \<open>The number of bytes allocated for \<^verbatim>\<open>data\<close>.\<close>

definition transform_alloc :: "MountInfo \<Rightarrow> nat" where
  "transform_alloc info = length (case mi_data info of None \<Rightarrow> [] | Some d \<Rightarrow> d)"

definition transformOptionList :: "MountInfo \<Rightarrow> MountInfo" where
  "transformOptionList info =
     (let (info', out) = transform_loop (case mi_data info of None \<Rightarrow> [] | Some d \<Rightarrow> d) info []
      in info'\<lparr>mi_data_parsed := Some out\<rparr>)"

text \<open>
  \<^verbatim>\<open>MOVE_TO_NEXT_FIELD\<close>: the field that was terminated and the start of the next one, or \<open>None\<close>
  when the line ends and may not.
\<close>

definition next_field :: "bool \<Rightarrow> cstr \<Rightarrow> (cstr \<times> cstr) option" where
  "next_field allow_eol ptr =
     (let field = takeWhile (\<lambda>c. \<not> isspace c) ptr; r = dropWhile (\<lambda>c. \<not> isspace c) ptr
      in if \<not> allow_eol \<and> r = [] then None else Some (field, dropWhile isspace (tl r)))"

datatype parse_result = prDOIT MountInfo | prFAIL | prIGNORE

text \<open>The four fields a line starts with.\<close>

definition split_fields :: "cstr \<Rightarrow> (cstr \<times> cstr \<times> cstr \<times> cstr) option" where
  "split_fields buf =
     (case next_field False buf of None \<Rightarrow> None
      | Some (src, b1) \<Rightarrow> (case next_field False b1 of None \<Rightarrow> None
      | Some (dst, b2) \<Rightarrow> (case next_field False b2 of None \<Rightarrow> None
      | Some (type, b3) \<Rightarrow> (case next_field True b3 of None \<Rightarrow> None
      | Some (data, _) \<Rightarrow> Some (src, dst, type, data)))))"

text \<open>What is known of a mount before its options are read.\<close>

definition line_info :: "cstr \<Rightarrow> cstr \<Rightarrow> cstr \<Rightarrow> cstr \<Rightarrow> MountInfo" where
  "line_info src dst type data =
     (let info = \<lparr>mi_src = src, mi_dst = dst, mi_name = Some ''.'', mi_type = Some type,
                  mi_flag = MS_NODEV, mi_xflag = 0, mi_mask = 0, mi_data = Some data,
                  mi_data_parsed = None\<rparr>
      in if strcmp type ''none'' = 0 then info\<lparr>mi_type := None\<rparr>
         else if strcmp type ''devpts'' = 0
         then info\<lparr>mi_mask := mi_mask info OR MS_NODEV, mi_flag := mi_flag info AND NOT MS_NODEV\<rparr>
         else info)"

definition parseFstabLine :: "cstr \<Rightarrow> bool \<Rightarrow> parse_result" where
  "parseFstabLine line honor_noauto =
     (let buf = dropWhile isspace line
      in if deref buf = CHR ''#'' \<or> buf = [] then prIGNORE
         else case split_fields buf of
                None \<Rightarrow> prFAIL
              | Some (src, dst, type, data) \<Rightarrow>
                  if strcmp type ''swap'' = 0 then prIGNORE
                  else
                    (let info = transformOptionList (line_info src dst type data)
                     in if honor_noauto \<and> mi_xflag info AND XFLAG_NOAUTO \<noteq> 0 then prIGNORE
                        else prDOIT info))"

definition parseRootFS :: "cstr \<Rightarrow> RootFsOption option" where
  "parseRootFS str =
     (if strcasecmp str ''yes'' = 0 then Some rfsYES
      else if strcasecmp str ''no'' = 0 then Some rfsNO
      else if strcasecmp str ''only'' = 0 then Some rfsONLY
      else None)"

definition adjustFileMount :: "MountInfo \<Rightarrow> MountInfo" where
  "adjustFileMount mnt =
     (case strrchr (mi_dst mnt) CHR ''/'' of
        None \<Rightarrow> mnt\<lparr>mi_name := None, mi_xflag := mi_xflag mnt OR XFLAG_FILE\<rparr>
      | Some i \<Rightarrow> mnt\<lparr>mi_dst := take i (mi_dst mnt), mi_name := Some (drop (i + 1) (mi_dst mnt)),
                       mi_xflag := mi_xflag mnt OR XFLAG_FILE\<rparr>)"

definition getType :: "MountInfo \<Rightarrow> cstr" where
  "getType mnt =
     (case mi_type mnt of
        None \<Rightarrow> ''none''
      | Some t \<Rightarrow> if strncmp 3 t ''ext'' = 0 then ''ufs'' else t)"

definition INTERNAL_FS :: "cstr list" where
  "INTERNAL_FS =
     [''tmpfs'', ''sysfs'', ''proc'', ''sockfs'', ''pipefs'', ''futexfs'', ''inotifyfs'', ''devpts'',
      ''ext3'', ''ext2'', ''ramfs'', ''hugetlbfs'', ''usbfs'', ''binfmt_misc'']"

definition canHandleInternal :: "MountInfo \<Rightarrow> bool" where
  "canHandleInternal mnt =
     (if mi_flag mnt AND (MS_BIND OR MS_MOVE) \<noteq> 0 then True
      else if mi_flag mnt AND (MS_SHARED OR MS_SLAVE OR MS_PRIVATE OR MS_UNBINDABLE) \<noteq> 0 then True
      else case mi_type mnt of
             None \<Rightarrow> False
           | Some t \<Rightarrow> list_ex (\<lambda>i. strcmp t i = 0) INTERNAL_FS)"

text \<open>The argument vector of the external program.\<close>

definition external_argv :: "cstr \<Rightarrow> MountInfo \<Rightarrow> cstr list" where
  "external_argv mount_prog mnt =
     [mount_prog, ''-n''] @
     (if mi_flag mnt AND MS_BIND \<noteq> 0 then [''--bind'']
      else if mi_flag mnt AND MS_MOVE \<noteq> 0 then [''--move''] else []) @
     [''-o''] @
     (case mi_data mnt of
        Some d \<Rightarrow>
          if d \<noteq> [] \<and> strcmp d ''defaults'' \<noteq> 0
          then (if mi_mask mnt AND MS_NODEV \<noteq> 0 then [d] else [''nodev,'' @ d])
          else [''nodev'']
      | None \<Rightarrow> [''nodev'']) @
     (case mi_type mnt of None \<Rightarrow> [] | Some t \<Rightarrow> [''-t'', t]) @
     [mi_src mnt, case mi_name mnt of None \<Rightarrow> [] | Some n \<Rightarrow> n]"

text \<open>The line that is appended to the mtab file.\<close>

definition mtab_line :: "MountInfo \<Rightarrow> cstr" where
  "mtab_line mnt =
     mi_src mnt @ '' '' @ mi_dst mnt @
     (if mi_xflag mnt AND XFLAG_FILE \<noteq> 0
      then ''/'' @ (case mi_name mnt of None \<Rightarrow> [] | Some n \<Rightarrow> n) else []) @
     '' '' @ getType mnt @ '' '' @ (case mi_data mnt of None \<Rightarrow> ''defaults'' | Some d \<Rightarrow> d) @ '' 0 0'' @ [NL]"

section \<open>The process\<close>

text \<open>
  A directory is a path together with the root it was resolved in: the guest's (\<open>True\<close>) or the
  host's. The log records each mount with the root and the directory it was made in.
\<close>

datatype mount_call =
    Internal cstr "cstr option" cstr u64 "cstr option"
  | External "cstr list"

record proc =
  chrooted :: bool
  cwd :: "bool \<times> cstr"
  mounts :: "(bool \<times> (bool \<times> cstr) \<times> mount_call) list"
  mtab :: "cstr list"

text \<open>Outcomes of the system calls; they may depend on everything that happened before.\<close>

record sys =
  sys_fchdir_guest :: "proc \<Rightarrow> bool"
  sys_chroot :: "proc \<Rightarrow> bool"
  sys_fchroot_host :: "proc \<Rightarrow> bool"
  sys_chdir :: "proc \<Rightarrow> cstr \<Rightarrow> bool"
  sys_open_dot :: "proc \<Rightarrow> bool"
  sys_fchdir :: "proc \<Rightarrow> bool"
  sys_mount :: "proc \<Rightarrow> mount_call \<Rightarrow> errno option"
  sys_mtab :: "proc \<Rightarrow> bool"
  sys_bme :: bool

text \<open>\<^verbatim>\<open>restoreRoot\<close>; \<open>None\<close> is the exit of the program.\<close>

definition restoreRoot :: "sys \<Rightarrow> Options \<Rightarrow> proc \<Rightarrow> proc option" where
  "restoreRoot sys opt p =
     (if do_chroot opt
      then (if sys_fchroot_host sys p then Some (p\<lparr>chrooted := False, cwd := (False, ''/'')\<rparr>) else None)
      else Some p)"

text \<open>
  \<^verbatim>\<open>fchroot(opt->cur_dir_fd)\<close> when \<^verbatim>\<open>do_chroot\<close> is set: it has changed the directory when only the
  change of the root fails.
\<close>

definition enterGuest :: "sys \<Rightarrow> Options \<Rightarrow> proc \<Rightarrow> bool \<times> proc" where
  "enterGuest sys opt p =
     (if do_chroot opt
      then (if \<not> sys_fchdir_guest sys p then (False, p)
            else if \<not> sys_chroot sys p then (False, p\<lparr>cwd := (False, cur_dir_path opt)\<rparr>)
            else (True, p\<lparr>chrooted := True, cwd := (True, ''/'')\<rparr>))
      else (True, p))"

definition secureChdir :: "sys \<Rightarrow> Options \<Rightarrow> cstr \<Rightarrow> proc \<Rightarrow> (bool \<times> proc) option" where
  "secureChdir sys opt dir p =
     (case enterGuest sys opt p of
        (False, p1) \<Rightarrow> Some (False, p1)
      | (True, p1) \<Rightarrow>
          if \<not> sys_chdir sys p1 dir
          then map_option (\<lambda>q. (False, q)) (restoreRoot sys opt p1)
          else
            (let p2 = p1\<lparr>cwd := (chrooted p1, dir)\<rparr>
             in if \<not> sys_open_dot sys p2
                then map_option (\<lambda>q. (False, q)) (restoreRoot sys opt p2)
                else case restoreRoot sys opt p2 of
                       None \<Rightarrow> None
                     | Some p3 \<Rightarrow>
                         if sys_fchdir sys p3 then Some (True, p3\<lparr>cwd := cwd p2\<rparr>)
                         else Some (False, p3)))"

definition do_mount :: "mount_call \<Rightarrow> proc \<Rightarrow> proc" where
  "do_mount c p = p\<lparr>mounts := mounts p @ [(chrooted p, cwd p, c)]\<rparr>"

text \<open>A failure to enter the guest or to write is reported and ignored by the caller.\<close>

definition updateMtab :: "sys \<Rightarrow> Options \<Rightarrow> MountInfo \<Rightarrow> proc \<Rightarrow> proc option" where
  "updateMtab sys opt mnt p =
     (case enterGuest sys opt p of
        (False, p1) \<Rightarrow> Some p1
      | (True, p1) \<Rightarrow>
          restoreRoot sys opt (if sys_mtab sys p1 then p1\<lparr>mtab := mtab p1 @ [mtab_line mnt]\<rparr> else p1))"

definition internal_call :: "MountInfo \<Rightarrow> u64 \<Rightarrow> cstr option \<Rightarrow> mount_call" where
  "internal_call mnt flag data =
     Internal (mi_src mnt) (mi_name mnt) (case mi_type mnt of None \<Rightarrow> [] | Some t \<Rightarrow> t) flag data"

text \<open>The second mount that gives a bind mount its flags; the result tells whether to go on.\<close>

definition bind_remount :: "sys \<Rightarrow> Options \<Rightarrow> MountInfo \<Rightarrow> proc \<Rightarrow> (bool \<times> proc) option" where
  "bind_remount sys opt mnt p =
     (if \<not> sys_bme sys \<and> mi_flag mnt AND MS_BIND \<noteq> 0 \<and> mi_mask mnt AND NOT (MS_BIND OR MS_REC) \<noteq> 0
      then (case secureChdir sys opt (mi_dst mnt) p of
              None \<Rightarrow> None
            | Some (False, q) \<Rightarrow> Some (False, q)
            | Some (True, q) \<Rightarrow>
                (let c = internal_call mnt (mi_flag mnt OR MS_REMOUNT) None
                 in case sys_mount sys q c of
                      None \<Rightarrow> Some (True, do_mount c q)
                    | Some e \<Rightarrow> Some (e = EBUSY, q)))
      else Some (True, p))"

definition mount_internal :: "sys \<Rightarrow> Options \<Rightarrow> MountInfo \<Rightarrow> proc \<Rightarrow> (bool \<times> proc) option" where
  "mount_internal sys opt mnt p =
     (let c = internal_call mnt (mi_flag mnt) (mi_data_parsed mnt)
      in case sys_mount sys p c of
           Some _ \<Rightarrow> Some (False, p)
         | None \<Rightarrow>
             (let q = do_mount c p
              in if strcmp (mi_dst mnt) ''/'' = 0
                 then (if sys_chdir sys q (cur_dir_path opt)
                       then bind_remount sys opt mnt (q\<lparr>cwd := (chrooted q, cur_dir_path opt)\<rparr>)
                       else Some (False, q))
                 else bind_remount sys opt mnt q))"

definition callExternalMount :: "sys \<Rightarrow> cstr \<Rightarrow> MountInfo \<Rightarrow> proc \<Rightarrow> bool \<times> proc" where
  "callExternalMount sys prog mnt p =
     (let c = External (external_argv prog mnt)
      in case sys_mount sys p c of None \<Rightarrow> (True, do_mount c p) | Some _ \<Rightarrow> (False, p))"

definition mountSingle :: "sys \<Rightarrow> Options \<Rightarrow> cstr \<Rightarrow> MountInfo \<Rightarrow> proc \<Rightarrow> (bool \<times> proc) option" where
  "mountSingle sys opt prog mnt p =
     (case secureChdir sys opt (mi_dst mnt) p of
        None \<Rightarrow> None
      | Some (False, q) \<Rightarrow> Some (False, q)
      | Some (True, q) \<Rightarrow>
          (case (if canHandleInternal mnt then mount_internal sys opt mnt q
                 else Some (callExternalMount sys prog mnt q)) of
             None \<Rightarrow> None
           | Some (False, r) \<Rightarrow> Some (False, r)
           | Some (True, r) \<Rightarrow>
               if \<not> ignore_mtab opt \<and> mi_xflag mnt AND XFLAG_NOMTAB = 0
               then map_option (\<lambda>u. (True, u)) (updateMtab sys opt mnt r)
               else Some (True, r)))"

text \<open>
  \<^verbatim>\<open>triggerAutomount\<close>; \<open>stat\<close> answers whether a path exists and is a directory.
\<close>

definition triggerAutomount :: "(cstr \<Rightarrow> bool option) \<Rightarrow> MountInfo \<Rightarrow> bool" where
  "triggerAutomount stat mnt =
     (if deref (mi_src mnt) \<noteq> CHR ''/'' \<or> \<not> canHandleInternal mnt then True
      else if stat (mi_src mnt @ ''/.'') \<noteq> None then True
      else case stat (mi_src mnt) of Some is_dir \<Rightarrow> \<not> is_dir | None \<Rightarrow> False)"

text \<open>
  The loop of \<^verbatim>\<open>mountFstab\<close> over the lines. The result is the number of the line with a syntax
  error, which ends the loop, and the process; lines that fail to mount are only reported.
\<close>

fun fstab_loop ::
  "sys \<Rightarrow> Options \<Rightarrow> cstr \<Rightarrow> (cstr \<Rightarrow> bool) \<Rightarrow> nat \<Rightarrow> cstr list \<Rightarrow> proc \<Rightarrow> (nat option \<times> proc) option" where
  "fstab_loop sys opt prog isfile nr [] p = Some (None, p)"
| "fstab_loop sys opt prog isfile nr (l # ls) p =
     (case parseFstabLine l (\<not> trigger_automount opt) of
        prFAIL \<Rightarrow> Some (Some (nr + 1), p)
      | prIGNORE \<Rightarrow> fstab_loop sys opt prog isfile (nr + 1) ls p
      | prDOIT mnt \<Rightarrow>
          (let is_rootfs = (strcmp (mi_dst mnt) ''/'' = 0);
               p1 = p\<lparr>cwd := (chrooted p, ''/'')\<rparr>
           in if is_rootfs \<and> op_rootfs opt = rfsNO \<or> \<not> is_rootfs \<and> op_rootfs opt = rfsONLY
              then fstab_loop sys opt prog isfile (nr + 1) ls p1
              else
                (let mnt' = (if isfile (mi_src mnt) then adjustFileMount mnt else mnt)
                 in if trigger_automount opt
                    then fstab_loop sys opt prog isfile (nr + 1) ls p1
                    else case mountSingle sys opt prog mnt' p1 of
                           None \<Rightarrow> None
                         | Some (_, q) \<Rightarrow> fstab_loop sys opt prog isfile (nr + 1) ls q)))"

text \<open>\<^verbatim>\<open>strsep\<close> at newlines; a hash mark is appended to the file before.\<close>

fun split_lines :: "cstr \<Rightarrow> cstr list" where
  "split_lines [] = [[]]"
| "split_lines (c # s) =
     (if c = NL then [] # split_lines s
      else case split_lines s of l # ls \<Rightarrow> (c # l) # ls | [] \<Rightarrow> [[c]])"

definition mountFstab :: "sys \<Rightarrow> Options \<Rightarrow> cstr \<Rightarrow> (cstr \<Rightarrow> bool) \<Rightarrow> cstr option \<Rightarrow> proc \<Rightarrow> (bool \<times> proc) option" where
  "mountFstab sys opt prog isfile content p =
     (case content of
        None \<Rightarrow> Some (False, p)
      | Some c \<Rightarrow> map_option (\<lambda>(e, q). (e = None, q)) (fstab_loop sys opt prog isfile 0 (split_lines (c @ ''#'')) p))"

section \<open>Option lists\<close>

text \<open>The options of a list, as the loop of the parser cuts them.\<close>

function opt_items :: "cstr \<Rightarrow> cstr list" where
  "opt_items ptr =
     (let n = opt_len ptr; rest = drop (n + 1) ptr
      in take n ptr # (if rest = [] then [] else opt_items rest))"
  by pat_completeness auto
termination
  by (relation "measure length") auto

declare opt_items.simps [simp del]

definition item_option :: "cstr \<Rightarrow> FstabOption option" where
  "item_option item = searchOption item (length item)"

fun apply_item :: "cstr \<Rightarrow> MountInfo \<times> cstr \<Rightarrow> MountInfo \<times> cstr" where
  "apply_item item (info, out) =
     (case item_option item of
        Some opt \<Rightarrow> (apply_option opt info, out)
      | None \<Rightarrow> (info, (if out \<noteq> [] then out @ '','' else []) @ item))"

lemma opt_len_le: "opt_len ptr \<le> length ptr"
  using strchr_Some [of ptr "CHR '',''"] by (auto simp: opt_len_def split: option.splits)

lemma FSTAB_OPTIONS_cstr: "\<forall>o' \<in> set FSTAB_OPTIONS. is_cstr (fo_opt o')"
  by code_simp

lemma searchOption_item:
  assumes "is_cstr ptr"
  shows "searchOption ptr (opt_len ptr) = item_option (take (opt_len ptr) ptr)"
proof -
  have "strncmp (opt_len ptr) (fo_opt i) ptr = 0 \<longleftrightarrow> strncmp (opt_len ptr) (fo_opt i) (take (opt_len ptr) ptr) = 0"
    if "i \<in> set FSTAB_OPTIONS" for i
    using that FSTAB_OPTIONS_cstr assms by (simp add: strncmp_0_iff)
  moreover have "length (take (opt_len ptr) ptr) = opt_len ptr" using opt_len_le [of ptr] by simp
  ultimately show ?thesis unfolding searchOption_def item_option_def by (auto intro!: find_cong)
qed

lemma transform_loop_items:
  "is_cstr ptr \<Longrightarrow> transform_loop ptr info out = fold apply_item (opt_items ptr) (info, out)"
proof (induction ptr info out rule: transform_loop.induct)
  case (1 ptr info out)
  let ?n = "opt_len ptr"
  obtain i1 o1 where s: "apply_item (take ?n ptr) (info, out) = (i1, o1)" by fastforce
  have "(case searchOption ptr ?n of Some opt \<Rightarrow> (apply_option opt info, out)
      | None \<Rightarrow> (info, (if out \<noteq> [] then out @ '','' else []) @ take ?n ptr)) = (i1, o1)"
    using s searchOption_item [OF "1.prems"] by simp
  then show ?case
    using "1.IH" [OF refl _ _ refl, of "(i1, o1)" i1 o1] s "1.prems"
    by (subst transform_loop.simps, subst opt_items.simps) (auto simp: Let_def)
qed

lemma searchOption_empty: "searchOption ptr 0 \<noteq> None"
  by (simp add: searchOption_def FSTAB_OPTIONS_def)

lemma opt_len_rest: "length (drop (opt_len ptr + 1) ptr) + opt_len ptr \<le> length ptr"
  "drop (opt_len ptr + 1) ptr \<noteq> [] \<Longrightarrow> length (drop (opt_len ptr + 1) ptr) + opt_len ptr + 1 = length ptr"
  using opt_len_le [of ptr] by auto

lemma transform_loop_length:
  "length (snd (transform_loop ptr info out)) \<le> length out + (if out = [] then 0 else 1) + length ptr"
proof (induction ptr info out rule: transform_loop.induct)
  case (1 ptr info out)
  let ?n = "opt_len ptr" and ?rest = "drop (opt_len ptr + 1) ptr"
  obtain i1 o1 where s: "(case searchOption ptr ?n of Some opt \<Rightarrow> (apply_option opt info, out)
      | None \<Rightarrow> (info, (if out \<noteq> [] then out @ '','' else []) @ take ?n ptr)) = (i1, o1)" by fastforce
  have n0: "?n \<noteq> 0" if "searchOption ptr ?n = None" using that searchOption_empty [of ptr] by metis
  have o1: "length o1 + (if o1 = [] then 0 else 1) \<le> length out + (if out = [] then 0 else 1) + ?n + 1"
    "length o1 \<le> length out + (if out = [] then 0 else 1) + ?n"
    using s n0 opt_len_le [of ptr] by (auto split: option.splits if_splits)
  have IH: "?rest \<noteq> [] \<Longrightarrow> length (snd (transform_loop ?rest i1 o1)) \<le>
      length o1 + (if o1 = [] then 0 else 1) + length ?rest"
    using "1.IH" [OF refl s [symmetric] refl refl] by simp
  show ?case using s IH o1 opt_len_rest [of ptr]
    by (subst transform_loop.simps) (auto simp: Let_def)
qed

text \<open>Only one option of the table can clear the flag against device files.\<close>

definition dev_option :: FstabOption where
  "dev_option = FstabOption ''dev'' 0 MS_NODEV 0"

lemma MS_NODEV_bit: "bit MS_NODEV 2"
  by code_simp

lemma nodev_options:
  "\<forall>o' \<in> set FSTAB_OPTIONS. o' \<noteq> dev_option \<longrightarrow> bit (fo_flag o') 2 \<or> \<not> bit (fo_mask o') 2"
  by code_simp

lemma item_option_mem: "item_option item = Some o' \<Longrightarrow> o' \<in> set FSTAB_OPTIONS"
  by (auto simp: item_option_def searchOption_def find_Some_iff)

lemma apply_item_nodev:
  assumes "item_option item \<noteq> Some dev_option" "bit (mi_flag info) 2"
  shows "bit (mi_flag (fst (apply_item item (info, out)))) 2"
proof (cases "item_option item")
  case (Some o')
  then have "o' \<in> set FSTAB_OPTIONS" "o' \<noteq> dev_option" using assms(1) item_option_mem by auto
  then have "bit (fo_flag o') 2 \<or> \<not> bit (fo_mask o') 2" using nodev_options by simp
  then show ?thesis using Some assms(2) by (auto simp: apply_option_def bit_simps)
qed (use assms in simp)

lemma items_nodev:
  "\<forall>i \<in> set items. item_option i \<noteq> Some dev_option \<Longrightarrow> bit (mi_flag info) 2 \<Longrightarrow>
   bit (mi_flag (fst (fold apply_item items (info, out)))) 2"
proof (induction items arbitrary: info out)
  case (Cons i items)
  obtain i1 o1 where s: "apply_item i (info, out) = (i1, o1)" by fastforce
  moreover have "bit (mi_flag i1) 2" using apply_item_nodev [of i info out] Cons.prems s by simp
  ultimately show ?case using Cons by simp
qed simp

lemma apply_item_keeps:
  "apply_item i (info, out) = (info', out') \<Longrightarrow>
   mi_src info' = mi_src info \<and> mi_dst info' = mi_dst info \<and> mi_type info' = mi_type info \<and> mi_data info' = mi_data info"
  by (auto simp: apply_option_def split: option.splits)

lemma items_keep:
  "fold apply_item items (info, out) = (info', out') \<Longrightarrow>
   mi_src info' = mi_src info \<and> mi_dst info' = mi_dst info \<and> mi_type info' = mi_type info \<and> mi_data info' = mi_data info"
proof (induction items arbitrary: info out)
  case (Cons i items)
  obtain i1 o1 where s: "apply_item i (info, out) = (i1, o1)" by fastforce
  then have "fold apply_item items (i1, o1) = (info', out')" using Cons.prems by simp
  from Cons.IH [OF this] apply_item_keeps [OF s] show ?case by simp
qed simp

lemma next_field_cstr: "next_field eol s = Some (f, r) \<Longrightarrow> is_cstr s \<Longrightarrow> is_cstr f \<and> is_cstr r"
  by (auto simp: next_field_def Let_def split: if_splits)

lemma split_fields_cstr:
  "split_fields buf = Some (src, dst, type, data) \<Longrightarrow> is_cstr buf \<Longrightarrow> is_cstr type \<and> is_cstr data"
  by (auto simp: split_fields_def split: option.splits dest!: next_field_cstr)

section \<open>Confinement\<close>

text \<open>The process is outside the guest and every mount was made from the right place.\<close>

definition made_ok :: "bool \<Rightarrow> bool \<times> (bool \<times> cstr) \<times> mount_call \<Rightarrow> bool" where
  "made_ok guest e \<longleftrightarrow> \<not> fst e \<and> fst (fst (snd e)) = guest"

definition confined :: "bool \<Rightarrow> proc \<Rightarrow> bool" where
  "confined guest p \<longleftrightarrow> \<not> chrooted p \<and> list_all (made_ok guest) (mounts p)"

lemma confined_do_mount: "confined g p \<Longrightarrow> fst (cwd p) = g \<Longrightarrow> confined g (do_mount c p)"
  by (simp add: confined_def do_mount_def made_ok_def)

lemma confined_cwd [simp]: "confined g (p\<lparr>cwd := x\<rparr>) = confined g p"
  by (simp add: confined_def)

lemma restoreRoot_spec:
  "restoreRoot sys opt p = Some q \<Longrightarrow>
   mounts q = mounts p \<and> (chrooted p \<longrightarrow> do_chroot opt) \<longrightarrow> \<not> chrooted q \<and> mounts q = mounts p"
  by (auto simp: restoreRoot_def split: if_splits)

lemma enterGuest_spec:
  "enterGuest sys opt p = (ok, q) \<Longrightarrow> \<not> chrooted p \<Longrightarrow>
   mounts q = mounts p \<and> chrooted q = (ok \<and> do_chroot opt)"
  by (auto simp: enterGuest_def split: if_splits)

lemma secureChdir_spec:
  assumes "secureChdir sys opt dir p = Some (ok, q)" "\<not> chrooted p"
  shows "\<not> chrooted q \<and> mounts q = mounts p \<and> (ok \<longrightarrow> cwd q = (do_chroot opt, dir))"
proof -
  obtain g p1 where g: "enterGuest sys opt p = (g, p1)" by fastforce
  note e = enterGuest_spec [OF g assms(2)]
  show ?thesis using assms(1) e g
    by (auto simp: secureChdir_def restoreRoot_def Let_def split: if_splits option.splits bool.splits)
qed

lemma bind_remount_spec:
  assumes "bind_remount sys opt mnt p = Some (ok, q)" "confined (do_chroot opt) p"
  shows "confined (do_chroot opt) q"
proof (cases "\<not> sys_bme sys \<and> mi_flag mnt AND MS_BIND \<noteq> 0 \<and> mi_mask mnt AND NOT (MS_BIND OR MS_REC) \<noteq> 0")
  case False
  then show ?thesis using assms by (auto simp: bind_remount_def)
next
  case True
  then obtain b r where r: "secureChdir sys opt (mi_dst mnt) p = Some (b, r)"
    using assms(1) by (auto simp: bind_remount_def split: option.splits)
  have "\<not> chrooted p" using assms(2) by (simp add: confined_def)
  note c = secureChdir_spec [OF r this]
  have cr: "confined (do_chroot opt) r" using c assms(2) by (simp add: confined_def)
  show ?thesis using assms(1) True r c cr confined_do_mount
    by (auto simp: bind_remount_def Let_def split: bool.splits option.splits)
qed

lemma mount_internal_spec:
  assumes "mount_internal sys opt mnt p = Some (ok, q)" "confined (do_chroot opt) p" "fst (cwd p) = do_chroot opt"
  shows "confined (do_chroot opt) q"
proof -
  let ?c = "internal_call mnt (mi_flag mnt) (mi_data_parsed mnt)"
  have d: "confined (do_chroot opt) (do_mount ?c p)" using assms(2,3) by (rule confined_do_mount)
  show ?thesis using assms(1,2) d bind_remount_spec
    by (auto simp: mount_internal_def Let_def split: option.splits if_splits)
qed

lemma updateMtab_spec:
  assumes "updateMtab sys opt mnt p = Some q" "confined g p"
  shows "confined g q"
proof -
  obtain ok p1 where g: "enterGuest sys opt p = (ok, p1)" by fastforce
  have "\<not> chrooted p" using assms(2) by (simp add: confined_def)
  note e = enterGuest_spec [OF g this]
  show ?thesis using assms g e
    by (auto simp: updateMtab_def restoreRoot_def confined_def split: bool.splits if_splits)
qed

lemma mountSingle_spec:
  assumes "mountSingle sys opt prog mnt p = Some (ok, q)" "confined (do_chroot opt) p"
  shows "confined (do_chroot opt) q"
proof -
  have nc: "\<not> chrooted p" using assms(2) by (simp add: confined_def)
  obtain b r where r: "secureChdir sys opt (mi_dst mnt) p = Some (b, r)"
    using assms(1) by (auto simp: mountSingle_def split: option.splits)
  note c = secureChdir_spec [OF r nc]
  have cr: "confined (do_chroot opt) r" using c assms(2) by (simp add: confined_def)
  show ?thesis
  proof (cases b)
    case False
    then show ?thesis using assms(1) r cr by (simp add: mountSingle_def)
  next
    case True
    let ?m = "if canHandleInternal mnt then mount_internal sys opt mnt r else Some (callExternalMount sys prog mnt r)"
    obtain b' u where u: "?m = Some (b', u)"
      using assms(1) r True by (auto simp: mountSingle_def split: option.splits)
    have cu: "confined (do_chroot opt) u"
      using u mount_internal_spec [OF _ cr] c cr True confined_do_mount [OF cr]
      by (auto simp: callExternalMount_def Let_def split: if_splits option.splits)
    show ?thesis using assms(1) r True u cu updateMtab_spec
      by (auto simp: mountSingle_def split: bool.splits if_splits)
  qed
qed

section \<open>Properties\<close>


definition sample_opt :: Options where
  "sample_opt = \<lparr>op_mtab = ''/etc/mtab'', op_fstab = ''/etc/fstab'', do_chroot = True, ignore_mtab = True,
     trigger_automount = False, op_rootfs = rfsYES, cur_dir_path = ''/vs''\<rparr>"

definition sample_sys :: sys where
  "sample_sys = \<lparr>sys_fchdir_guest = (\<lambda>_. True), sys_chroot = (\<lambda>_. True), sys_fchroot_host = (\<lambda>_. True),
     sys_chdir = (\<lambda>_ _. True), sys_open_dot = (\<lambda>_. True), sys_fchdir = (\<lambda>_. True),
     sys_mount = (\<lambda>_ _. None), sys_mtab = (\<lambda>_. True), sys_bme = True\<rparr>"

definition sample_proc :: proc where
  "sample_proc = \<lparr>chrooted = False, cwd = (False, ''/''), mounts = [], mtab = []\<rparr>"




text \<open>
  The option lookup compares only as many characters as the option has: an empty option is taken
  for the defaults, which clears a read-only or no-suid option given before it, and the option for
  single users is taken for the earlier entry of which it is a prefix.\<close>

lemma searchOption_prefixes:
  "searchOption ptr 0 = Some (hd FSTAB_OPTIONS) \<and>
   map_option fo_opt (item_option ''user'') = Some ''users'' \<and>
   mi_flag (transformOptionList (info\<lparr>mi_flag := MS_NODEV, mi_data := Some ''ro,,nosuid''\<rparr>)) =
     MS_NODEV OR MS_NOSUID"
proof (intro conjI)
  show "searchOption ptr 0 = Some (hd FSTAB_OPTIONS)" by (simp add: searchOption_def FSTAB_OPTIONS_def)
  show "map_option fo_opt (item_option ''user'') = Some ''users''" by code_simp
  have it: "opt_items ''ro,,nosuid'' = [''ro'', [], ''nosuid'']" by code_simp
  have o': "item_option ''ro'' = Some (FstabOption ''ro'' MS_RDONLY MS_RDONLY 0)"
    "item_option ''nosuid'' = Some (FstabOption ''nosuid'' MS_NOSUID MS_NOSUID 0)"
    "item_option [] = Some (FstabOption ''defaults'' MS_NODEV
       (MS_RDONLY OR MS_NOSUID OR MS_NODEV OR MS_NOEXEC OR MS_SYNCHRONOUS) 0)" by code_simp+
  let ?i = "info\<lparr>mi_flag := MS_NODEV, mi_data := Some ''ro,,nosuid''\<rparr>"
  have "transform_loop ''ro,,nosuid'' ?i [] = fold apply_item [''ro'', [], ''nosuid''] (?i, [])"
    using transform_loop_items [of "''ro,,nosuid''" ?i "[]"] it by simp
  then show "mi_flag (transformOptionList ?i) = MS_NODEV OR MS_NOSUID"
    by (simp add: transformOptionList_def o' apply_option_def ms_defs)
qed

text \<open>
  The copy of the options that are passed on never has more characters than the list has, but it
  has as many when no option of the list is known; its terminator is then written behind the
  \<^verbatim>\<open>strlen(data)\<close> bytes that are allocated.\<close>

lemma transformOptionList_overrun:
  assumes "mi_data info = Some opt" "is_cstr opt"
  shows "\<exists>out. mi_data_parsed (transformOptionList info) = Some out \<and> length out \<le> transform_alloc info \<and>
    (CHR '','' \<notin> set opt \<and> item_option opt = None \<longrightarrow> length out + 1 > transform_alloc info)"
proof -
  obtain i' out where t: "transform_loop opt info [] = (i', out)" by fastforce
  then have out: "mi_data_parsed (transformOptionList info) = Some out"
    using assms(1) by (simp add: transformOptionList_def)
  have "out = opt" if "CHR '','' \<notin> set opt" "item_option opt = None"
  proof -
    have "opt_len opt = length opt" using that(1) by (simp add: opt_len_def strchr_None [THEN iffD2])
    then have "opt_items opt = [opt]" by (subst opt_items.simps) simp
    then show ?thesis using transform_loop_items [OF assms(2), of info "[]"] t that(2) by simp
  qed
  then show ?thesis using out transform_loop_length [of opt info "[]"] t assms(1)
    by (auto simp: transform_alloc_def)
qed

lemma transformOptionList_overrun_example:
  "\<exists>out. mi_data_parsed (transformOptionList (undefined\<lparr>mi_data := Some ''size=1''\<rparr>)) = Some out \<and> length out + 1 > 6"
proof -
  have "item_option ''size=1'' = None" by code_simp
  then show ?thesis
    using transformOptionList_overrun [of "undefined\<lparr>mi_data := Some ''size=1''\<rparr>" "''size=1''"]
    by (auto simp: transform_alloc_def)
qed

end
