(* ===== verification/NetTools.thy ===== *)
theory NetTools
  imports NumParse
begin

text \<open>
  The programs that deal with network addresses: \<^verbatim>\<open>mask2prefix\<close>, \<^verbatim>\<open>ifspec\<close> and \<^verbatim>\<open>naddress\<close>.
  What the kernel answers about interfaces and the library's \<^verbatim>\<open>inet_pton\<close> are parameters. Addresses
  are lists of bytes in network order; the buffer that \<^verbatim>\<open>parseIPFormat\<close> cuts into pieces is modelled
  with its size, and the indices it stores to are recorded.
\<close>

section \<open>mask2prefix\<close>

text \<open>\<^verbatim>\<open>while (val&0x80) { ++len; val <<= 1; }\<close>, with at most \<open>n\<close> rounds.\<close>

fun count_ones :: "nat \<Rightarrow> u32 \<Rightarrow> nat \<Rightarrow> u32 \<times> nat" where
  "count_ones 0 val len = (val, len)"
| "count_ones (Suc n) val len =
     (if val AND 0x80 \<noteq> 0 then count_ones n (push_bit 1 val) (len + 1) else (val, len))"

text \<open>
  The loop over the four numbers; 255 is the exit code of an error and \<open>None\<close> stands for reading
  behind the end of the argument. Eight rounds of the inner loop shift all bits of a byte out.
\<close>

fun mask_loop :: "nat \<Rightarrow> cstr option \<Rightarrow> nat \<Rightarrow> nat option" where
  "mask_loop 0 p len = Some len"
| "mask_loop (Suc n) None len = None"
| "mask_loop (Suc n) (Some ptr) len =
     (let (v, err_ptr, _) = strtol 10 ptr; val = (word_of_int v :: u32)
      in if err_ptr \<noteq> [] \<and> deref err_ptr \<noteq> CHR ''.'' then Some 255
         else if val \<ge> 0x100 then Some 255
         else
           (let (val', len') = count_ones 8 val len
            in if val' \<noteq> 0xff00 then Some len'
               else mask_loop n (if err_ptr = [] then None else Some (tl err_ptr)) len'))"

definition mask2prefix :: "cstr \<Rightarrow> nat option" where
  "mask2prefix arg = mask_loop 4 (Some arg) 0"

section \<open>ifspec\<close>

definition atoi :: "cstr \<Rightarrow> int" where
  "atoi s = sint (word_of_int (fst (strtol 10 s)) :: u32)"

text \<open>The loop of \<^verbatim>\<open>ip_cnv\<close>: the numbers read so far and the rest of the string.\<close>

function ip_loop :: "u32 list \<Rightarrow> cstr \<Rightarrow> u32 list \<times> cstr" where
  "ip_loop tb str =
     (if str = [] \<or> length tb \<ge> 4 then (tb, str)
      else if isdigit (hd str)
      then (let val = atoi str
            in if val > 255 then (tb, str)
               else
                 (let tb' = tb @ [word_of_int val]; str' = dropWhile isdigit str
                  in if deref str' = CHR ''.'' then ip_loop tb' (tl str') else (tb', str')))
      else (tb, str))"
  by pat_completeness auto
termination
  by (relation "measure (\<lambda>(tb, str). 4 - length tb)") auto

declare ip_loop.simps [simp del]

definition ip_cnv :: "cstr \<Rightarrow> u32" where
  "ip_cnv str =
     (let (tb, rest) = ip_loop [] str
      in if length tb \<noteq> 4 \<or> rest \<noteq> [] then 0xffffffff
         else push_bit 24 (tb ! 0) OR push_bit 16 (tb ! 1) OR push_bit 8 (tb ! 2) OR tb ! 3)"

definition show_ip :: "u32 \<Rightarrow> cstr" where
  "show_ip addr =
     digits_of 10 (unat (drop_bit 24 addr AND 0xff)) @ ''.'' @ digits_of 10 (unat (drop_bit 16 addr AND 0xff)) @ ''.'' @
     digits_of 10 (unat (drop_bit 8 addr AND 0xff)) @ ''.'' @ digits_of 10 (unat (addr AND 0xff))"

text \<open>
  \<open>getif\<close> answers the three requests about the interface. The result is the return value and the
  lines printed.
\<close>

datatype ifreq = SIOCGIFADDR | SIOCGIFNETMASK | SIOCGIFBRDADDR

definition spec_part :: "cstr \<Rightarrow> cstr \<Rightarrow> u32 option \<Rightarrow> u32 \<times> bool \<times> cstr list" where
  "spec_part label str answer =
     (if str \<noteq> [] then (ip_cnv str, False, [label @ ''='' @ str])
      else case answer of
             Some a \<Rightarrow> (a, True, [label @ ''='' @ show_ip a])
           | None \<Rightarrow> (0, False, []))"

definition ifconfig_print :: "(ifreq \<Rightarrow> u32 option) \<Rightarrow> cstr \<Rightarrow> cstr \<Rightarrow> cstr \<Rightarrow> int \<times> cstr list" where
  "ifconfig_print getif addrstr maskstr bcaststr =
     (let (addr, ok1, l1) = spec_part ''ADDR'' addrstr (getif SIOCGIFADDR);
          (msk, ok2, l2) = spec_part ''NETMASK'' maskstr (getif SIOCGIFNETMASK);
          (ok3, l3) =
            (if bcaststr \<noteq> [] then (False, [''BCAST='' @ bcaststr])
             else case getif SIOCGIFBRDADDR of
                    Some b \<Rightarrow> (True, [''BCAST='' @ show_ip b])
                  | None \<Rightarrow>
                      if addr \<noteq> 0 \<and> msk \<noteq> 0
                      then (False, [''BCAST='' @ show_ip ((addr AND msk) OR NOT msk)])
                      else (False, []))
      in (if ok1 \<or> ok2 \<or> ok3 then 0 else - 1, l1 @ l2 @ l3))"

section \<open>naddress\<close>

definition VC_NXA_TYPE_IPV4 :: u16 where "VC_NXA_TYPE_IPV4 = 0x0001"
definition VC_NXA_TYPE_IPV6 :: u16 where "VC_NXA_TYPE_IPV6 = 0x0002"
definition VC_NXA_TYPE_ANY :: u16 where "VC_NXA_TYPE_ANY = 0x00FF"
definition VC_NXA_TYPE_ADDR :: u16 where "VC_NXA_TYPE_ADDR = 0x0010"
definition VC_NXA_TYPE_MASK :: u16 where "VC_NXA_TYPE_MASK = 0x0020"
definition VC_NXA_TYPE_RANGE :: u16 where "VC_NXA_TYPE_RANGE = 0x0040"
definition VC_NXA_MOD_BCAST :: u16 where "VC_NXA_MOD_BCAST = 0x0100"
definition VC_NXA_MOD_LBACK :: u16 where "VC_NXA_MOD_LBACK = 0x0200"

record vc_net_addr =
  vna_type :: u16
  vna_flags :: u16
  vna_prefix :: u16
  vna_ip :: "u8 list"
  vna_ip2 :: "u8 list"
  vna_mask :: "u8 list"

definition zero_addr :: vc_net_addr where
  "zero_addr = \<lparr>vna_type = 0, vna_flags = 0, vna_prefix = 0, vna_ip = replicate 16 0, vna_ip2 = replicate 16 0,
     vna_mask = replicate 16 0\<rparr>"

text \<open>Bytes stored at the start of a 16-byte union.\<close>

definition store_addr :: "u8 list \<Rightarrow> u8 list \<Rightarrow> u8 list" where
  "store_addr new old = new @ drop (length new) old"

definition ipv6PrefixToMask :: "nat \<Rightarrow> u8 list" where
  "ipv6PrefixToMask prefix =
     (let i = (prefix + 7) div 8;
          m = replicate i 0xff @ replicate (16 - i) 0
      in if i * 8 > prefix then m[i - 1 := NOT (push_bit (prefix mod 8) 1 - 1)] else m)"

fun prefix_loop :: "u8 list \<Rightarrow> nat \<Rightarrow> nat \<Rightarrow> nat" where
  "prefix_loop msk prefix 0 = prefix"
| "prefix_loop msk prefix (Suc n) =
     (if bit (msk ! (prefix div 8)) (prefix mod 8) then prefix_loop msk (prefix + 1) n else prefix)"

definition maskToPrefix :: "u8 list \<Rightarrow> nat \<Rightarrow> nat" where
  "maskToPrefix msk limit = prefix_loop msk 0 limit"

text \<open>
  \<^verbatim>\<open>htonl(~((1 << (32-sz)) - 1))\<close> as bytes; the shift by 32 for \<open>sz = 0\<close> is undefined in C and computed
  like the hardware's shift, which shifts by zero.
\<close>

definition v4_mask :: "nat \<Rightarrow> u8 list" where
  "v4_mask sz =
     (let m = NOT (push_bit ((32 - sz) mod 32) 1 - 1) :: u32
      in [ucast (drop_bit 24 m), ucast (drop_bit 16 m), ucast (drop_bit 8 m), ucast m])"

text \<open>\<open>pton4\<close> and \<open>pton6\<close> stand for \<^verbatim>\<open>inet_pton\<close> of the two families.\<close>

definition convertAddress ::
  "(cstr \<Rightarrow> u8 list option) \<Rightarrow> (cstr \<Rightarrow> u8 list option) \<Rightarrow> cstr \<Rightarrow> u16 \<times> u8 list option" where
  "convertAddress pton4 pton6 str =
     (case pton4 str of
        Some b \<Rightarrow> (VC_NXA_TYPE_IPV4, Some b)
      | None \<Rightarrow> (VC_NXA_TYPE_IPV6, pton6 str))"

text \<open>The string that starts at an index of the buffer, and \<^verbatim>\<open>memchr\<close> from an index.\<close>

definition str_at :: "cstr \<Rightarrow> nat \<Rightarrow> cstr" where
  "str_at buf p = takeWhile (\<lambda>c. c \<noteq> NUL) (drop p buf)"

definition memchr :: "cstr \<Rightarrow> nat \<Rightarrow> char \<Rightarrow> nat \<Rightarrow> nat option" where
  "memchr buf p c n = map_option ((+) p) (strchr (take n (drop p buf)) c)"

definition set_field :: "char \<Rightarrow> u8 list \<Rightarrow> vc_net_addr \<Rightarrow> vc_net_addr" where
  "set_field f b a =
     (if f = CHR ''1'' then a\<lparr>vna_ip := store_addr b (vna_ip a)\<rparr>
      else if f = CHR ''2'' then a\<lparr>vna_ip2 := store_addr b (vna_ip2 a)\<rparr>
      else a\<lparr>vna_mask := store_addr b (vna_mask a)\<rparr>)"

text \<open>One field of the format; the flag says whether it was read.\<close>

definition parse_field ::
  "(cstr \<Rightarrow> u8 list option) \<Rightarrow> (cstr \<Rightarrow> u8 list option) \<Rightarrow> char \<Rightarrow> cstr \<Rightarrow> vc_net_addr \<Rightarrow> bool \<times> vc_net_addr" where
  "parse_field pton4 pton6 f text a =
     (let limit = (if vna_type a = VC_NXA_TYPE_IPV4 then 32 else if vna_type a = VC_NXA_TYPE_IPV6 then 128 else 0)
      in if f = CHR ''m'' \<and> strchr text CHR '':'' = None \<and> strchr text CHR ''.'' = None
         then (case isNumberUnsigned text True of
                 None \<Rightarrow> (False, a)
               | Some sz \<Rightarrow>
                   if sz > int limit then (False, a)
                   else
                     (let a' = a\<lparr>vna_prefix := word_of_int sz\<rparr>
                      in (True,
                          if vna_type a = VC_NXA_TYPE_IPV4
                          then a'\<lparr>vna_mask := store_addr (v4_mask (nat sz)) (vna_mask a')\<rparr>
                          else if vna_type a = VC_NXA_TYPE_IPV6
                          then a'\<lparr>vna_mask := ipv6PrefixToMask (nat sz)\<rparr> else a')))
         else
           (let (ty, b) = convertAddress pton4 pton6 text; a' = a\<lparr>vna_type := ty\<rparr>
            in case b of
                 None \<Rightarrow> (False, a')
               | Some bs \<Rightarrow>
                   (let a2 = set_field f bs a'
                    in (True, if f = CHR ''m'' then a2\<lparr>vna_prefix := of_nat (maskToPrefix (vna_mask a2) limit)\<rparr> else a2))))"

text \<open>Where a field ends: at its separator, or \<open>len\<close> bytes on when there is none.\<close>

definition field_end :: "cstr \<Rightarrow> nat \<Rightarrow> char \<Rightarrow> nat \<Rightarrow> nat" where
  "field_end buf ptr sp len = (case memchr buf ptr sp len of Some i \<Rightarrow> i | None \<Rightarrow> ptr + len)"

text \<open>
  The loop of \<^verbatim>\<open>parseIPFormat\<close>: the format is a list of fields with the character that ends them.
  The result is the return value, the address and the indices of the buffer that were stored to.
\<close>

fun parse_loop ::
  "(cstr \<Rightarrow> u8 list option) \<Rightarrow> (cstr \<Rightarrow> u8 list option) \<Rightarrow> cstr \<Rightarrow> nat \<Rightarrow> nat \<Rightarrow> (char \<times> char) list \<Rightarrow>
   vc_net_addr \<Rightarrow> int \<Rightarrow> nat list \<Rightarrow> int \<times> vc_net_addr \<times> nat list" where
  "parse_loop pton4 pton6 buf ptr len [] a ret ws = (ret, a, ws)"
| "parse_loop pton4 pton6 buf ptr len ((f, sp) # fs) a ret ws =
     (if len = 0 then (ret, a, ws)
      else
        (let sep = field_end buf ptr sp len;
             buf' = buf[sep := NUL];
             ws' = ws @ [sep];
             (ok, a') = parse_field pton4 pton6 f (str_at buf' ptr) a
         in if ok then parse_loop pton4 pton6 buf' (sep + 1) (len - (sep - ptr)) fs a' (ret + 1) ws'
            else (- 1, a', ws')))"

definition IP_FORMAT :: "(char \<times> char) list" where
  "IP_FORMAT = [(CHR ''1'', CHR ''/''), (CHR ''m'', NUL)]"

definition RANGE_FORMAT :: "(char \<times> char) list" where
  "RANGE_FORMAT = [(CHR ''1'', CHR ''-''), (CHR ''2'', CHR ''/''), (CHR ''m'', NUL)]"

definition parseIPFormat ::
  "(cstr \<Rightarrow> u8 list option) \<Rightarrow> (cstr \<Rightarrow> u8 list option) \<Rightarrow> cstr \<Rightarrow> (char \<times> char) list \<Rightarrow> vc_net_addr \<Rightarrow>
   int \<times> vc_net_addr \<times> nat list" where
  "parseIPFormat pton4 pton6 str format a = parse_loop pton4 pton6 (str @ [NUL]) 0 (length str) format a 0 []"

text \<open>
  The option handlers append an address to the list; \<open>None\<close> is the exit on an invalid argument. \<open>getif\<close>
  answers for an interface of that name, or nothing when there is none.
\<close>

definition readIP ::
  "(cstr \<Rightarrow> u8 list option) \<Rightarrow> (cstr \<Rightarrow> u8 list option) \<Rightarrow> (cstr \<Rightarrow> (u8 list \<times> u8 list) option) \<Rightarrow> cstr \<Rightarrow> u16 \<Rightarrow>
   vc_net_addr list \<Rightarrow> vc_net_addr list option" where
  "readIP pton4 pton6 getif str type ips =
     (case getif str of
        Some (ip, m) \<Rightarrow>
          Some (ips @ [zero_addr\<lparr>vna_ip := store_addr ip (vna_ip zero_addr), vna_mask := store_addr m (vna_mask zero_addr),
                                 vna_type := VC_NXA_TYPE_IPV4 OR type\<rparr>])
      | None \<Rightarrow>
          (let (ret, a, _) = parseIPFormat pton4 pton6 str IP_FORMAT zero_addr
           in if ret < 1 then None else Some (ips @ [a\<lparr>vna_type := vna_type a OR type\<rparr>])))"

definition readRange ::
  "(cstr \<Rightarrow> u8 list option) \<Rightarrow> (cstr \<Rightarrow> u8 list option) \<Rightarrow> cstr \<Rightarrow> vc_net_addr list \<Rightarrow> vc_net_addr list option" where
  "readRange pton4 pton6 str ips =
     (let (ret, a, _) = parseIPFormat pton4 pton6 str RANGE_FORMAT zero_addr
      in if ret < 2 then None else Some (ips @ [a\<lparr>vna_type := vna_type a OR VC_NXA_TYPE_RANGE\<rparr>]))"

text \<open>
  An argument that is neither an interface nor an address is not refused: \<^verbatim>\<open>inet_pton\<close> returns 0 for it,
  and the variable \<open>garbage\<close> is used as it is.
\<close>

definition readBcast ::
  "(cstr \<Rightarrow> u8 list option) \<Rightarrow> (cstr \<Rightarrow> u8 list option) \<Rightarrow> u8 list \<Rightarrow> cstr \<Rightarrow> vc_net_addr list \<Rightarrow> vc_net_addr list" where
  "readBcast pton4 getif garbage str ips =
     (let b = (case getif str of Some b \<Rightarrow> b | None \<Rightarrow> (case pton4 str of Some b \<Rightarrow> b | None \<Rightarrow> garbage))
      in ips @ [zero_addr\<lparr>vna_ip := store_addr b (vna_ip zero_addr),
                          vna_type := VC_NXA_TYPE_IPV4 OR VC_NXA_MOD_BCAST OR VC_NXA_TYPE_ADDR\<rparr>])"

text \<open>The requests to the kernel about an address.\<close>

datatype net_call = call_add vc_net_addr | call_remove vc_net_addr

section \<open>Numbers between dots\<close>

lemma digits_isdigit: "\<forall>c \<in> set (digits_of 10 n). isdigit c"
  using digits_of_base_digit [of 10 n] by (simp add: isdigit_base10)

lemma atoi_digits:
  assumes "n < 256" "r = [] \<or> \<not> isdigit (hd r)"
  shows "atoi (digits_of 10 n @ r) = int n"
proof -
  have "strto_scan 10 (digits_of 10 n @ r) = Some (False, n, r)"
    using assms(2) by (intro strto_scan_digits) (auto simp: isdigit_base10)
  then have "fst (strtol 10 (digits_of 10 n @ r)) = int n"
    using assms(1) by (simp add: strtol_def LONG_MAX_def LONG_MIN_def)
  moreover have "sint (word_of_int (int n) :: u32) = int n"
    using assms(1) signed_take_bit_int_eq_self [of 31 "int n"] sint_sbintrunc' [of "int n", where ?'a = 32] by simp
  ultimately show ?thesis by (simp add: atoi_def)
qed

lemma dropWhile_digits:
  "r = [] \<or> \<not> isdigit (hd r) \<Longrightarrow> dropWhile isdigit (digits_of 10 n @ r) = r"
  using digits_isdigit [of n] by (cases r) (simp_all add: dropWhile_append2)

lemma ip_loop_step:
  assumes "n < 256" "length tb < 4" "r = [] \<or> hd r = CHR ''.''"
  shows "ip_loop tb (digits_of 10 n @ r) =
    (if r = [] then (tb @ [of_nat n], []) else ip_loop (tb @ [of_nat n]) (tl r))"
proof -
  have r: "r = [] \<or> \<not> isdigit (hd r)" using assms(3) by (auto simp: isdigit_def)
  have d: "isdigit (hd (digits_of 10 n @ r))" "digits_of 10 n @ r \<noteq> []"
    using digits_isdigit [of n] by (cases "digits_of 10 n"; simp)+
  define str where "str = digits_of 10 n @ r"
  have "ip_loop tb str = (if r = [] then (tb @ [of_nat n], []) else ip_loop (tb @ [of_nat n]) (tl r))"
    using assms d dropWhile_digits [OF r, of n] atoi_digits [OF assms(1) r]
    unfolding str_def [symmetric] by (subst ip_loop.simps) (cases r; simp add: Let_def del: dropWhile_eq_Nil_conv)
  then show ?thesis by (simp add: str_def)
qed

text \<open>The mask of a prefix length, and the text of an address.\<close>

definition prefix_mask :: "nat \<Rightarrow> u32" where
  "prefix_mask p = NOT (push_bit (32 - p) 1 - 1)"

lemma byte_recombine:
  fixes a :: u32
  shows "push_bit 24 (of_nat (unat (drop_bit 24 a AND 0xff))) OR push_bit 16 (of_nat (unat (drop_bit 16 a AND 0xff))) OR
    push_bit 8 (of_nat (unat (drop_bit 8 a AND 0xff))) OR of_nat (unat (a AND 0xff)) = a"
proof -
  have m: "(0xff :: u32) = mask 8" by (simp add: mask_eq_exp_minus_1)
  have "push_bit 24 (drop_bit 24 a AND mask 8) OR push_bit 16 (drop_bit 16 a AND mask 8) OR
    push_bit 8 (drop_bit 8 a AND mask 8) OR (a AND mask 8) = a"
  proof (rule bit_word_eqI)
    fix n :: nat
    assume n: "n < LENGTH(32)"
    consider "n < 8" | "8 \<le> n" "n < 16" | "16 \<le> n" "n < 24" | "24 \<le> n" by linarith
    then show "bit (push_bit 24 (drop_bit 24 a AND mask 8) OR push_bit 16 (drop_bit 16 a AND mask 8) OR
      push_bit 8 (drop_bit 8 a AND mask 8) OR (a AND mask 8)) n = bit a n"
      using n by cases (auto simp: bit_simps)
  qed
  then show ?thesis by (simp add: m)
qed

section \<open>Bounds of the buffer\<close>

lemma memchr_range: "memchr buf p c n = Some i \<Longrightarrow> p \<le> i \<and> i < p + n \<and> i < length buf"
  by (auto simp: memchr_def strchr_Some)

lemma field_end_le: "ptr + len < length buf \<Longrightarrow> field_end buf ptr sp len \<le> ptr + len"
  using memchr_range [of buf ptr sp len] by (fastforce simp: field_end_def split: option.splits)

lemma field_end_NUL:
  assumes "NUL \<in> set (take len (drop ptr buf))"
  shows "field_end buf ptr NUL len < length buf"
proof -
  obtain i where "memchr buf ptr NUL len = Some i"
    using assms by (cases "memchr buf ptr NUL len") (auto simp: memchr_def strchr_None)
  then show ?thesis using memchr_range by (simp add: field_end_def)
qed

lemma ip_format_in_bounds:
  "\<forall>w \<in> set (snd (snd (parseIPFormat pton4 pton6 str IP_FORMAT a))). w < length str + 1"
proof -
  define buf where "buf = str @ [NUL]"
  define sep where "sep = field_end buf 0 CHR ''/'' (length str)"
  have sep: "sep \<le> length str" using field_end_le [of 0 "length str" buf] by (simp add: sep_def buf_def)
  have sep2: "field_end (buf[sep := NUL]) (Suc sep) NUL (length str - sep) < length str + 1" if "sep < length str"
  proof -
    have "NUL \<in> set (take (length str - sep) (drop (Suc sep) (buf[sep := NUL])))"
      using that by (simp add: drop_update_cancel buf_def)
    from field_end_NUL [OF this] show ?thesis by (simp add: buf_def)
  qed
  show ?thesis
    using sep sep2
    by (auto simp: parseIPFormat_def IP_FORMAT_def buf_def [symmetric] sep_def [symmetric] Let_def split: prod.splits)
qed

section \<open>Properties\<close>

text \<open>
  \<^verbatim>\<open>ip_cnv\<close> inverts the printer: the dotted text of every address is read back as the address.\<close>

lemma ip_cnv_show_ip: "ip_cnv (show_ip a) = a"
proof -
  have b: "unat (x AND 0xff) < 256" for x :: u32
  proof -
    have "x AND 0xff \<le> 0xff" by (rule word_and_le1)
    then show ?thesis by (simp add: word_le_nat_alt)
  qed
  have "ip_loop [] (show_ip a) =
     ([of_nat (unat (drop_bit 24 a AND 0xff)), of_nat (unat (drop_bit 16 a AND 0xff)),
       of_nat (unat (drop_bit 8 a AND 0xff)), of_nat (unat (a AND 0xff))], [])"
    unfolding show_ip_def using ip_loop_step [of "unat (a AND 0xff)" _ "[]"]
    by (simp add: ip_loop_step b)
  then show ?thesis using byte_recombine [of a] by (simp add: ip_cnv_def or.assoc)
qed

text \<open>
  \<^verbatim>\<open>mask2prefix\<close> returns the prefix length of every proper net mask.\<close>

lemma mask2prefix_correct:
  assumes "p \<le> 32"
  shows "mask2prefix (show_ip (prefix_mask p)) = Some p"
proof -
  have "\<forall>p \<in> set [0..<33]. mask2prefix (show_ip (prefix_mask p)) = Some p" by code_simp
  moreover have "p \<in> set [0..<33]" using assms by simp
  ultimately show ?thesis by (rule bspec)
qed

lemma mask2prefix_correct_example: "mask2prefix (show_ip (prefix_mask 20)) = Some 20"
  using mask2prefix_correct [of 20] by simp

text \<open>The bytes of a prefix mask, most significant bits first.\<close>

definition prefix_byte :: "nat \<Rightarrow> nat \<Rightarrow> u8" where
  "prefix_byte p i = NOT (push_bit (8 - min 8 (p - 8 * i)) 1 - 1)"

lemma prefix_byte_full: "8 * (i + 1) \<le> p \<Longrightarrow> prefix_byte p i = 0xff"
  by (simp add: prefix_byte_def)

lemma prefix_byte_none: "p \<le> 8 * i \<Longrightarrow> prefix_byte p i = 0"
  by (simp add: prefix_byte_def push_bit_eq_mult)

lemma partial_byte:
  assumes "0 < r" "r < 8"
  shows "NOT (push_bit r 1 - 1) = (NOT (push_bit (8 - r) 1 - 1) :: u8) \<longleftrightarrow> r = 4"
proof -
  have "r \<in> {1, 2, 3, 4, 5, 6, 7}" using assms by auto
  then show ?thesis by auto
qed

lemma ipv6_mask_right:
  assumes "p \<le> 128"
  shows "ipv6PrefixToMask p = map (prefix_byte p) [0..<16] \<longleftrightarrow> p mod 8 = 0 \<or> p mod 8 = 4"
proof -
  define k r where "k = p div 8" and "r = p mod 8"
  have p: "p = 8 * k + r" "r < 8" by (simp_all add: k_def r_def)
  let ?m = "map (prefix_byte p) [0..<16]"
  show ?thesis
  proof (cases "r = 0")
    case True
    then have "ipv6PrefixToMask p = ?m"
      using p assms
      by (auto simp: ipv6PrefixToMask_def Let_def nth_append prefix_byte_full prefix_byte_none intro!: nth_equalityI)
    then show ?thesis using True by (simp add: r_def)
  next
    case False
    then have k: "k < 16" "(p + 7) div 8 = Suc k" using p assms by auto
    have "ipv6PrefixToMask p = ?m[k := NOT (push_bit r 1 - 1)]"
      using p k assms
      by (auto simp: ipv6PrefixToMask_def Let_def nth_append nth_list_update prefix_byte_full prefix_byte_none
          simp del: replicate.replicate_Suc intro!: nth_equalityI)
    then have "ipv6PrefixToMask p = ?m \<longleftrightarrow> NOT (push_bit r 1 - 1) = prefix_byte p k"
      using k by (metis length_map length_upt list_update_id minus_nat.diff_0 nth_list_update_eq nth_map_upt add_0)
    then show ?thesis using partial_byte [of r] False p by (simp add: prefix_byte_def r_def [symmetric])
  qed
qed

lemma v4_prefix_right:
  assumes "q \<le> 32"
  shows "maskToPrefix (map (prefix_byte q) [0..<4]) 32 = 8 * (q div 8)"
proof -
  have "\<forall>q \<in> set [0..<33]. maskToPrefix (map (prefix_byte q) [0..<4]) 32 = 8 * (q div 8)"
    by code_simp
  then show ?thesis using assms by simp
qed

text \<open>
  The conversions of \<^verbatim>\<open>naddress\<close> between prefixes and masks: the IPv6 mask of a prefix is right
  only when the prefix ends at a byte or in its middle, and the prefix of an IPv4 mask is right only
  when it ends at a byte, because both count the bits of a byte from the wrong end.\<close>

lemma naddress_prefixes:
  assumes "p \<le> 128" "q \<le> 32"
  shows "(ipv6PrefixToMask p = map (prefix_byte p) [0..<16] \<longleftrightarrow> p mod 8 = 0 \<or> p mod 8 = 4) \<and>
    maskToPrefix (map (prefix_byte q) [0..<4]) 32 = 8 * (q div 8)"
  using ipv6_mask_right [OF assms(1)] v4_prefix_right [OF assms(2)] by blast

lemma naddress_prefixes_example:
  "ipv6PrefixToMask 65 \<noteq> map (prefix_byte 65) [0..<16] \<and> maskToPrefix (map (prefix_byte 20) [0..<4]) 32 = 16"
  using naddress_prefixes [of 65 20] by simp

text \<open>
  The buffer of \<^verbatim>\<open>parseIPFormat\<close>: for a single address with an optional mask every store lies in
  the buffer, whatever the string; for a range without a mask the separator of the second field is
  stored one byte behind the buffer's end.\<close>

lemma parseIPFormat_stores:
  shows "(\<forall>w \<in> set (snd (snd (parseIPFormat pton4 pton6 str IP_FORMAT a))). w < length str + 1) \<and>
    (NUL \<notin> set s1 \<and> NUL \<notin> set s2 \<and> CHR ''-'' \<notin> set s1 \<and> CHR ''/'' \<notin> set s2 \<and> s1 \<noteq> [] \<and>
     pton4 s1 \<noteq> None \<longrightarrow>
     length (s1 @ ''-'' @ s2) + 1 \<in> set (snd (snd (parseIPFormat pton4 pton6 (s1 @ ''-'' @ s2) RANGE_FORMAT a))))"
proof (intro conjI impI)
  show "\<forall>w \<in> set (snd (snd (parseIPFormat pton4 pton6 str IP_FORMAT a))). w < length str + 1"
    by (rule ip_format_in_bounds)
next
  assume a: "NUL \<notin> set s1 \<and> NUL \<notin> set s2 \<and> CHR ''-'' \<notin> set s1 \<and> CHR ''/'' \<notin> set s2 \<and> s1 \<noteq> [] \<and> pton4 s1 \<noteq> None"
  let ?n = "length s1" and ?buf = "(s1 @ ''-'' @ s2) @ [NUL]"
  have m1: "field_end ?buf 0 CHR ''-'' (Suc (?n + length s2)) = ?n"
    using a by (simp add: field_end_def memchr_def)
  have "takeWhile (\<lambda>c. c \<noteq> NUL) (s1 @ NUL # s2 @ [NUL]) = s1"
    using a takeWhile_append2 [of s1 "\<lambda>c. c \<noteq> NUL" "NUL # s2 @ [NUL]"] by fastforce
  then have t1: "str_at (?buf[?n := NUL]) 0 = s1"
    by (simp add: str_at_def list_update_append)
  have p1: "fst (parse_field pton4 pton6 CHR ''1'' s1 a)"
    using a by (auto simp: parse_field_def convertAddress_def Let_def)
  then obtain a1 where a1: "parse_field pton4 pton6 CHR ''1'' s1 a = (True, a1)" by (metis prod.collapse)
  have m2: "field_end (?buf[?n := NUL]) (Suc ?n) CHR ''/'' (Suc (length s2)) = Suc (Suc (?n + length s2))"
    using a strchr_None [of "s2 @ [NUL]" "CHR ''/''"] by (simp add: field_end_def memchr_def list_update_append)
  show "length (s1 @ ''-'' @ s2) + 1 \<in> set (snd (snd (parseIPFormat pton4 pton6 (s1 @ ''-'' @ s2) RANGE_FORMAT a)))"
    using m1 t1 a1 m2
    by (auto simp: parseIPFormat_def RANGE_FORMAT_def Let_def split: prod.splits)
qed

lemma parseIPFormat_stores_example:
  "16 \<in> set (snd (snd (parseIPFormat (\<lambda>_. Some [1, 1, 1, 1]) (\<lambda>_. None) ''1.1.1.1-2.2.2.2'' RANGE_FORMAT zero_addr)))"
  using parseIPFormat_stores [of "\<lambda>_. Some [1, 1, 1, 1]" "\<lambda>_. None" "[]" zero_addr "''1.1.1.1''" "''2.2.2.2''"]
  by (simp add: eval_nat_numeral)

end
