(* ===== verification/Unify.thy ===== *)
theory Unify
  imports Prelude
begin

text \<open>
  Unification of files (\<^verbatim>\<open>lib_internal/unify-*.c\<close>): replacing a file by a hard link, breaking such a
  link, and copying a file with its attributes. A file system maps names to inode numbers and these
  to inodes. Which system calls are refused is a parameter that may depend on the state, so that a
  statement about all of them covers every place where an operation can stop; the names that
  \<^verbatim>\<open>mkstemp\<close> chooses and the files that symbolic links lead to are parameters too. A result \<open>None\<close> is
  the \<^verbatim>\<open>_exit(1)\<close> after a failure that cannot be undone.
\<close>

section \<open>File system\<close>

datatype ftype = S_REG | S_LNK | S_DIR | S_CHR | S_BLK | S_FIFO | S_SOCK

record inode =
  i_type :: ftype
  i_perm :: u32
  i_uid :: u32
  i_gid :: u32
  i_rdev :: u64
  i_atime :: int
  i_mtime :: int
  i_data :: "u8 list"
  i_iattr :: u32

record fs =
  names :: "cstr \<rightharpoonup> nat"
  inodes :: "nat \<rightharpoonup> inode"
  next_ino :: nat
  fs_dev :: u64

record stat =
  st_dev :: u64
  st_ino :: nat
  st_type :: ftype
  st_perm :: u32
  st_uid :: u32
  st_gid :: u32
  st_rdev :: u64
  st_size :: nat
  st_atime :: int
  st_mtime :: int
  st_nlink :: nat

datatype syscall =
    c_set_iattr cstr | c_lstat cstr | c_sigprocmask | c_mkstemp | c_rename cstr cstr | c_link cstr cstr
  | c_unlink cstr | c_open cstr | c_creat cstr | c_fstat nat | c_fchown nat | c_fchmod nat | c_read nat
  | c_write nat | c_close nat | c_utime cstr | c_readlink cstr | c_symlink cstr | c_mknod cstr | c_mkdir cstr
  | c_lchown cstr | c_chmod cstr | c_lseek nat | c_ftruncate nat | c_mmap nat nat

record env =
  refuses :: "syscall \<Rightarrow> fs \<Rightarrow> bool"
  short_write :: "fs \<Rightarrow> nat"
  mktemp :: "fs \<Rightarrow> cstr \<Rightarrow> cstr"
  follow :: "fs \<Rightarrow> nat \<Rightarrow> nat option"
  e_uid :: u32
  e_gid :: u32
  e_now :: int

text \<open>Every name leads to an inode, and numbers from \<open>next_ino\<close> on are free.\<close>

definition wf_fs :: "fs \<Rightarrow> bool" where
  "wf_fs fs \<longleftrightarrow>
     (\<forall>n i. names fs n = Some i \<longrightarrow> inodes fs i \<noteq> None) \<and> (\<forall>i. inodes fs i \<noteq> None \<longrightarrow> i < next_ino fs)"

section \<open>System calls\<close>

definition has_type :: "fs \<Rightarrow> nat \<Rightarrow> ftype \<Rightarrow> bool" where
  "has_type fs i t = (case inodes fs i of Some nd \<Rightarrow> i_type nd = t | None \<Rightarrow> False)"

definition upd_inode :: "nat \<Rightarrow> (inode \<Rightarrow> inode) \<Rightarrow> fs \<Rightarrow> fs" where
  "upd_inode i f fs = fs\<lparr>inodes := (inodes fs)(i := map_option f (inodes fs i))\<rparr>"

text \<open>A new file under a new name.\<close>

definition new_file :: "cstr \<Rightarrow> inode \<Rightarrow> fs \<Rightarrow> fs" where
  "new_file n nd fs =
     fs\<lparr>names := (names fs)(n \<mapsto> next_ino fs), inodes := (inodes fs)(next_ino fs \<mapsto> nd), next_ino := next_ino fs + 1\<rparr>"

definition fresh_inode :: "env \<Rightarrow> ftype \<Rightarrow> u32 \<Rightarrow> inode" where
  "fresh_inode env t perm =
     \<lparr>i_type = t, i_perm = perm, i_uid = e_uid env, i_gid = e_gid env, i_rdev = 0, i_atime = e_now env,
      i_mtime = e_now env, i_data = [], i_iattr = 0\<rparr>"

definition sys_rename :: "env \<Rightarrow> cstr \<Rightarrow> cstr \<Rightarrow> fs \<Rightarrow> bool \<times> fs" where
  "sys_rename env a b fs =
     (if refuses env (c_rename a b) fs then (False, fs)
      else case names fs a of
             None \<Rightarrow> (False, fs)
           | Some i \<Rightarrow>
               (case names fs b of
                  None \<Rightarrow> (True, fs\<lparr>names := (names fs)(a := None, b \<mapsto> i)\<rparr>)
                | Some j \<Rightarrow>
                    if i = j then (True, fs)
                    else if has_type fs i S_DIR \<noteq> has_type fs j S_DIR then (False, fs)
                    else (True, fs\<lparr>names := (names fs)(a := None, b \<mapsto> i)\<rparr>)))"

definition sys_unlink :: "env \<Rightarrow> cstr \<Rightarrow> fs \<Rightarrow> bool \<times> fs" where
  "sys_unlink env a fs =
     (case names fs a of
        None \<Rightarrow> (False, fs)
      | Some i \<Rightarrow>
          if refuses env (c_unlink a) fs \<or> has_type fs i S_DIR then (False, fs)
          else (True, fs\<lparr>names := (names fs)(a := None)\<rparr>))"

definition sys_link :: "env \<Rightarrow> cstr \<Rightarrow> cstr \<Rightarrow> fs \<Rightarrow> bool \<times> fs" where
  "sys_link env a b fs =
     (case names fs a of
        None \<Rightarrow> (False, fs)
      | Some i \<Rightarrow>
          if refuses env (c_link a b) fs \<or> names fs b \<noteq> None \<or> has_type fs i S_DIR then (False, fs)
          else (True, fs\<lparr>names := (names fs)(b \<mapsto> i)\<rparr>))"

text \<open>\<^verbatim>\<open>mkstemp\<close> opens its file exclusively: it fails when the name exists.\<close>

definition sys_mkstemp :: "env \<Rightarrow> cstr \<Rightarrow> fs \<Rightarrow> cstr option \<times> fs" where
  "sys_mkstemp env t fs =
     (if refuses env c_mkstemp fs \<or> names fs (mktemp env fs t) \<noteq> None then (None, fs)
      else (Some (mktemp env fs t), new_file (mktemp env fs t) (fresh_inode env S_REG 0x180) fs))"

text \<open>Opening a file for reading, following a symbolic link or not; the result is the inode.\<close>

definition sys_open :: "env \<Rightarrow> bool \<Rightarrow> cstr \<Rightarrow> fs \<Rightarrow> nat option" where
  "sys_open env nofollow a fs =
     (case names fs a of
        None \<Rightarrow> None
      | Some i \<Rightarrow>
          if refuses env (c_open a) fs then None
          else if has_type fs i S_LNK then (if nofollow then None else follow env fs i)
          else Some i)"

text \<open>Creating an object with \<^verbatim>\<open>O_CREAT|O_EXCL\<close>, \<^verbatim>\<open>symlink\<close>, \<^verbatim>\<open>mknod\<close> or \<^verbatim>\<open>mkdir\<close>.\<close>

definition sys_create :: "env \<Rightarrow> syscall \<Rightarrow> cstr \<Rightarrow> inode \<Rightarrow> fs \<Rightarrow> bool \<times> fs" where
  "sys_create env c n nd fs =
     (if refuses env c fs \<or> names fs n \<noteq> None then (False, fs) else (True, new_file n nd fs))"

text \<open>Calls that change the attributes of the file with a name.\<close>

definition sys_attr :: "env \<Rightarrow> syscall \<Rightarrow> cstr \<Rightarrow> (inode \<Rightarrow> inode) \<Rightarrow> fs \<Rightarrow> bool \<times> fs" where
  "sys_attr env c n f fs =
     (case names fs n of
        None \<Rightarrow> (False, fs)
      | Some i \<Rightarrow> if refuses env c fs then (False, fs) else (True, upd_inode i f fs))"

section \<open>Unify_unify\<close>

definition VC_IATTR_IUNLINK :: u32 where "VC_IATTR_IUNLINK = 0x00020000"
definition VC_IATTR_IMMUTABLE :: u32 where "VC_IATTR_IMMUTABLE = 0x00040000"

definition set_iattr :: "env \<Rightarrow> cstr \<Rightarrow> fs \<Rightarrow> bool \<times> fs" where
  "set_iattr env src = sys_attr env (c_set_iattr src) src (i_iattr_update (\<lambda>a. a OR (VC_IATTR_IUNLINK OR VC_IATTR_IMMUTABLE)))"

definition lstat_size :: "env \<Rightarrow> cstr \<Rightarrow> fs \<Rightarrow> nat option" where
  "lstat_size env n fs =
     (if refuses env (c_lstat n) fs then None
      else Option.bind (names fs n) (\<lambda>i. map_option (length \<circ> i_data) (inodes fs i)))"

text \<open>
  The part between the two changes of the signal mask: the name of the backup (if there is one),
  whether to go on, and the state.
\<close>

definition make_backup :: "env \<Rightarrow> cstr \<Rightarrow> bool \<Rightarrow> nat option \<Rightarrow> fs \<Rightarrow> bool \<times> cstr option \<times> fs" where
  "make_backup env dst ignore_zero st fs =
     (case st of
        Some sz \<Rightarrow>
          if sz > 0 \<or> \<not> ignore_zero
          then (case sys_mkstemp env (dst @ '';XXXXXX'') fs of
                  (None, fs1) \<Rightarrow> (False, None, fs1)
                | (Some t, fs1) \<Rightarrow> (let (ok, fs2) = sys_rename env dst t fs1 in (ok, Some t, fs2)))
          else (True, None, snd (sys_unlink env dst fs))
      | None \<Rightarrow> (True, None, fs))"

definition cleanup_tmp :: "env \<Rightarrow> cstr option \<Rightarrow> fs \<Rightarrow> fs" where
  "cleanup_tmp env t fs = (case t of Some n \<Rightarrow> snd (sys_unlink env n fs) | None \<Rightarrow> fs)"

text \<open>Linking the source to the destination, and the way back when that fails.\<close>

definition link_new :: "env \<Rightarrow> cstr \<Rightarrow> cstr \<Rightarrow> cstr option \<Rightarrow> fs \<Rightarrow> bool option \<times> fs" where
  "link_new env src dst t fs =
     (case sys_link env src dst fs of
        (True, fs1) \<Rightarrow> (Some True, cleanup_tmp env t fs1)
      | (False, fs1) \<Rightarrow>
          (let fs2 = snd (sys_unlink env dst fs1)
           in case t of
                None \<Rightarrow> (Some False, fs2)
              | Some n \<Rightarrow>
                  (case sys_rename env n dst fs2 of
                     (False, fs3) \<Rightarrow> (None, fs3)
                   | (True, fs3) \<Rightarrow> (Some False, cleanup_tmp env t fs3))))"

definition Unify_unify :: "env \<Rightarrow> cstr \<Rightarrow> cstr \<Rightarrow> bool \<Rightarrow> fs \<Rightarrow> bool option \<times> fs" where
  "Unify_unify env src dst ignore_zero fs =
     (case set_iattr env src fs of
        (False, fs1) \<Rightarrow> (Some False, fs1)
      | (True, fs1) \<Rightarrow>
          (let st = lstat_size env dst fs1
           in if refuses env c_sigprocmask fs1 then (Some False, fs1)
              else
                (case make_backup env dst ignore_zero st fs1 of
                   (False, t, fs2) \<Rightarrow> (Some False, cleanup_tmp env t fs2)
                 | (True, t, fs2) \<Rightarrow> link_new env src dst t fs2)))"

section \<open>Unify_deUnify\<close>

text \<open>
  The loop that copies blocks of \<^verbatim>\<open>0x4000\<close> bytes; \<^verbatim>\<open>WwriteAll\<close> leaves a part of the block when a
  write fails.
\<close>

definition append_data :: "nat \<Rightarrow> u8 list \<Rightarrow> fs \<Rightarrow> fs" where
  "append_data i d = upd_inode i (i_data_update (\<lambda>x. x @ d))"

function copy_loop :: "env \<Rightarrow> nat \<Rightarrow> u8 list \<Rightarrow> fs \<Rightarrow> bool \<times> fs" where
  "copy_loop env t rest fs =
     (if refuses env (c_read (length rest)) fs then (False, fs)
      else if rest = [] then (True, fs)
      else if refuses env (c_write (length rest)) fs
      then (False, append_data t (take (short_write env fs) (take 0x4000 rest)) fs)
      else copy_loop env t (drop 0x4000 rest) (append_data t (take 0x4000 rest) fs))"
  by pat_completeness auto
termination
  by (relation "measure (\<lambda>(env, t, rest, fs). length rest)") auto

declare copy_loop.simps [simp del]

text \<open>
  Everything that happens to the temporary file \<open>tmp\<close> with the inode \<open>t\<close> before it takes the place of
  the original \<open>s\<close> with the attributes \<open>st\<close>.
\<close>

definition fill_copy :: "env \<Rightarrow> nat \<Rightarrow> inode \<Rightarrow> cstr \<Rightarrow> nat \<Rightarrow> fs \<Rightarrow> bool \<times> fs" where
  "fill_copy env s st tmp t fs =
     (if refuses env (c_fchown t) fs then (False, fs)
      else
        (let fs1 = upd_inode t (\<lambda>nd. nd\<lparr>i_uid := i_uid st, i_gid := i_gid st\<rparr>) fs
         in if refuses env (c_fchmod t) fs1 then (False, fs1)
            else
              (case copy_loop env t (i_data st) (upd_inode t (\<lambda>nd. nd\<lparr>i_perm := i_perm st\<rparr>) fs1) of
                 (False, fs2) \<Rightarrow> (False, fs2)
               | (True, fs2) \<Rightarrow>
                   if refuses env (c_close s) fs2 \<or> refuses env (c_close t) fs2 then (False, fs2)
                   else sys_attr env (c_utime tmp) tmp (\<lambda>nd. nd\<lparr>i_atime := i_atime st, i_mtime := i_mtime st\<rparr>) fs2)))"

text \<open>The temporary file is filled and takes the original's place.\<close>

definition replace_by_copy :: "env \<Rightarrow> cstr \<Rightarrow> nat \<Rightarrow> inode \<Rightarrow> cstr \<Rightarrow> nat \<Rightarrow> fs \<Rightarrow> bool option \<times> fs" where
  "replace_by_copy env dst s st tmp t fs =
     (case fill_copy env s st tmp t fs of
        (False, fs1) \<Rightarrow> (Some False, cleanup_tmp env (Some tmp) fs1)
      | (True, fs1) \<Rightarrow>
          (case sys_unlink env dst fs1 of
             (False, fs2) \<Rightarrow> (Some False, cleanup_tmp env (Some tmp) fs2)
           | (True, fs2) \<Rightarrow>
               (case sys_rename env tmp dst fs2 of
                  (False, fs3) \<Rightarrow> (None, fs3)
                | (True, fs3) \<Rightarrow> (Some True, fs3))))"

definition Unify_deUnify :: "env \<Rightarrow> cstr \<Rightarrow> fs \<Rightarrow> bool option \<times> fs" where
  "Unify_deUnify env dst fs =
     (case Option.bind (sys_open env False dst fs) (\<lambda>s. map_option (Pair s) (inodes fs s)) of
        None \<Rightarrow> (Some False, fs)
      | Some (s, st) \<Rightarrow>
          if refuses env (c_fstat s) fs then (Some False, fs)
          else
            (case sys_mkstemp env (dst @ '';XXXXXX'') fs of
               (None, fs1) \<Rightarrow> (Some False, fs1)
             | (Some tmp, fs1) \<Rightarrow> replace_by_copy env dst s st tmp (next_ino fs) fs1))"

section \<open>What the operations leave alone\<close>

text \<open>
  The inodes that existed keep everything but their unlink flags, and the names outside a set that
  existed keep their inode.
\<close>

definition same_file :: "inode \<Rightarrow> inode \<Rightarrow> bool" where
  "same_file a b \<longleftrightarrow> a\<lparr>i_iattr := i_iattr b\<rparr> = b"

definition keeps :: "cstr set \<Rightarrow> fs \<Rightarrow> fs \<Rightarrow> bool" where
  "keeps D fs fs' \<longleftrightarrow>
     (\<forall>n. n \<notin> D \<and> names fs n \<noteq> None \<longrightarrow> names fs' n = names fs n) \<and>
     (\<forall>i nd. inodes fs i = Some nd \<longrightarrow> (\<exists>nd'. inodes fs' i = Some nd' \<and> same_file nd nd'))"

lemma same_file_refl [simp]: "same_file a a"
  by (simp add: same_file_def)

lemma same_file_trans: "same_file a b \<Longrightarrow> same_file b c \<Longrightarrow> same_file a c"
  unfolding same_file_def by (cases a; cases b; cases c) simp

lemma keeps_refl [simp]: "keeps D fs fs"
  by (simp add: keeps_def)

lemma keeps_trans: "keeps D f g \<Longrightarrow> keeps D g h \<Longrightarrow> keeps D f h"
proof -
  assume a: "keeps D f g" "keeps D g h"
  have "names h n = names f n" if "n \<notin> D" "names f n \<noteq> None" for n
    using a that unfolding keeps_def by force
  moreover have "\<exists>nd'. inodes h i = Some nd' \<and> same_file nd nd'" if ex: "inodes f i = Some nd" for i nd
  proof -
    obtain n1 where 1: "inodes g i = Some n1" "same_file nd n1" using a(1) ex unfolding keeps_def by blast
    obtain n2 where "inodes h i = Some n2" "same_file n1 n2" using a(2) 1(1) unfolding keeps_def by blast
    then show ?thesis using 1(2) same_file_trans by blast
  qed
  ultimately show ?thesis by (simp add: keeps_def)
qed

lemma keeps_mono: "keeps A f g \<Longrightarrow> A \<subseteq> B \<Longrightarrow> keeps B f g"
  unfolding keeps_def by blast

text \<open>Removing or replacing a name that is not to be kept.\<close>

lemma keeps_unlink:
  "keeps D f g \<Longrightarrow> n \<in> D \<or> names f n = None \<Longrightarrow> keeps D f (snd (sys_unlink env n g))"
  by (auto simp: keeps_def sys_unlink_def split: option.splits)

lemma keeps_rename:
  "keeps D f g \<Longrightarrow> n \<in> D \<or> names f n = None \<Longrightarrow> m \<in> D \<or> names f m = None \<Longrightarrow> keeps D f (snd (sys_rename env n m g))"
  by (auto simp: keeps_def sys_rename_def split: option.splits)

lemma keeps_link:
  "keeps D f g \<Longrightarrow> m \<in> D \<or> names f m = None \<Longrightarrow> keeps D f (snd (sys_link env n m g))"
  by (auto simp: keeps_def sys_link_def split: option.splits)

lemma keeps_cleanup:
  "keeps D f g \<Longrightarrow> (\<And>n. t = Some n \<Longrightarrow> n \<in> D \<or> names f n = None) \<Longrightarrow> keeps D f (cleanup_tmp env t g)"
  by (cases t) (simp_all add: cleanup_tmp_def keeps_unlink)

lemma unlink_other: "m \<noteq> n \<Longrightarrow> names (snd (sys_unlink env n g)) m = names g m"
  by (simp add: sys_unlink_def split: option.splits)

lemma cleanup_other: "t \<noteq> Some m \<Longrightarrow> names (cleanup_tmp env t g) m = names g m"
  by (cases t) (simp_all add: cleanup_tmp_def unlink_other)

lemma same_file_data: "same_file a b \<Longrightarrow> i_data b = i_data a"
  unfolding same_file_def by (metis inode.select_convs(8) inode.surjective inode.update_convs(9))

lemma wf_new_free: "wf_fs fs \<Longrightarrow> inodes fs (next_ino fs) = None"
  unfolding wf_fs_def by (metis less_irrefl)

lemma wf_inode: "wf_fs fs \<Longrightarrow> names fs n = Some i \<Longrightarrow> \<exists>nd. inodes fs i = Some nd"
  unfolding wf_fs_def by blast

lemma wf_name_old: "wf_fs fs \<Longrightarrow> names fs n = Some i \<Longrightarrow> i \<noteq> next_ino fs"
  unfolding wf_fs_def by (metis less_irrefl)

lemma set_iattr_spec:
  assumes "set_iattr env src fs = (ok, fs1)" "wf_fs fs"
  shows "names fs1 = names fs \<and> next_ino fs1 = next_ino fs \<and> wf_fs fs1 \<and> keeps {} fs fs1 \<and> (ok \<longrightarrow> names fs src \<noteq> None)"
  using assms
  by (auto simp: set_iattr_def sys_attr_def upd_inode_def wf_fs_def keeps_def same_file_def
      split: option.splits if_splits)

text \<open>A name of a file without data.\<close>

definition empty_file :: "fs \<Rightarrow> cstr \<Rightarrow> bool" where
  "empty_file fs n \<longleftrightarrow> (\<exists>i nd. names fs n = Some i \<and> inodes fs i = Some nd \<and> i_data nd = [])"

lemma lstat_size_empty:
  assumes "lstat_size env n g = Some 0" "keeps {} f g" "wf_fs f" "names g = names f"
  shows "empty_file f n"
proof -
  obtain i nd where i: "names f n = Some i" "inodes g i = Some nd" "i_data nd = []"
    using assms(1,4) by (auto simp: lstat_size_def bind_eq_Some_conv split: if_splits)
  obtain nd' where n: "inodes f i = Some nd'" using wf_inode [OF assms(3) i(1)] by blast
  then have "same_file nd' nd" using assms(2) i(2) by (force simp: keeps_def)
  then show ?thesis using i n by (auto simp: empty_file_def same_file_data)
qed

text \<open>Every call keeps the file system well-formed.\<close>

lemma wf_unlink: "wf_fs f \<Longrightarrow> wf_fs (snd (sys_unlink env n f))"
  by (auto simp: wf_fs_def sys_unlink_def split: option.splits if_splits)

lemma wf_rename: "wf_fs f \<Longrightarrow> wf_fs (snd (sys_rename env n m f))"
  by (auto simp: wf_fs_def sys_rename_def split: option.splits if_splits)

lemma wf_link: "wf_fs f \<Longrightarrow> wf_fs (snd (sys_link env n m f))"
  by (auto simp: wf_fs_def sys_link_def split: option.splits if_splits)

lemma wf_new_file: "wf_fs f \<Longrightarrow> wf_fs (new_file n nd f)"
  unfolding wf_fs_def new_file_def by (auto simp: less_Suc_eq)

lemma wf_upd_inode: "wf_fs f \<Longrightarrow> wf_fs (upd_inode i g f)"
  by (auto simp: wf_fs_def upd_inode_def split: if_splits)

lemma wf_mkstemp: "wf_fs f \<Longrightarrow> wf_fs (snd (sys_mkstemp env t f))"
  by (simp add: sys_mkstemp_def wf_new_file)

lemma wf_attr: "wf_fs f \<Longrightarrow> wf_fs (snd (sys_attr env c n g f))"
  by (simp add: sys_attr_def wf_upd_inode split: option.splits)

lemma wf_cleanup: "wf_fs f \<Longrightarrow> wf_fs (cleanup_tmp env t f)"
  by (simp add: cleanup_tmp_def wf_unlink split: option.splits)

lemmas wf_calls = wf_unlink wf_rename wf_link wf_new_file wf_upd_inode wf_mkstemp wf_attr wf_cleanup

lemma wf_make_backup: "wf_fs f \<Longrightarrow> wf_fs (snd (snd (make_backup env dst z st f)))"
  using wf_mkstemp [of f env] wf_rename wf_unlink [of f env dst]
  by (auto simp: make_backup_def Let_def split_beta split: option.splits prod.splits)

lemma wf_link_new: "wf_fs f \<Longrightarrow> wf_fs (snd (link_new env src dst t f))"
proof -
  assume f: "wf_fs f"
  obtain ok1 f1 where 1: "sys_link env src dst f = (ok1, f1)" by force
  then have f1: "wf_fs f1" using wf_link [OF f, of env src dst] by simp
  define f2 where "f2 = snd (sys_unlink env dst f1)"
  have f2: "wf_fs f2" using wf_unlink [OF f1] by (simp add: f2_def)
  show ?thesis
  proof (cases t)
    case None
    then show ?thesis using 1 f1 f2 by (cases ok1) (simp_all add: link_new_def f2_def Let_def wf_cleanup)
  next
    case (Some n)
    obtain ok3 f3 where 3: "sys_rename env n dst f2 = (ok3, f3)" by force
    then have "wf_fs f3" using wf_rename [OF f2, of env n dst] by simp
    then show ?thesis using 1 3 Some f1 by (cases ok1; cases ok3) (simp_all add: link_new_def f2_def Let_def wf_cleanup)
  qed
qed

lemma wf_Unify_unify: "wf_fs f \<Longrightarrow> wf_fs (snd (Unify_unify env src dst z f))"
proof -
  assume f: "wf_fs f"
  obtain ok1 f1 where 1: "set_iattr env src f = (ok1, f1)" by force
  then have f1: "wf_fs f1" using wf_attr [OF f, of env "c_set_iattr src" src] by (metis set_iattr_def snd_conv)
  obtain ok2 t f2 where 2: "make_backup env dst z (lstat_size env dst f1) f1 = (ok2, t, f2)" by (metis prod_cases3)
  then have f2: "wf_fs f2" using wf_make_backup [OF f1, of env dst z "lstat_size env dst f1"] by simp
  show ?thesis using 1 2 f1 f2 by (cases ok1; cases ok2) (simp_all add: Unify_unify_def wf_link_new wf_cleanup)
qed

lemma wf_copy_loop: "wf_fs f \<Longrightarrow> wf_fs (snd (copy_loop env t rest f))"
proof (induction env t rest f rule: copy_loop.induct)
  case (1 env t rest f)
  then show ?case by (subst copy_loop.simps) (simp add: append_data_def wf_upd_inode)
qed

lemma wf_fill_copy: "wf_fs f \<Longrightarrow> wf_fs (snd (fill_copy env s st tmp t f))"
  using wf_copy_loop [of _ env t "i_data st"]
  by (auto simp: fill_copy_def Let_def wf_upd_inode wf_attr split: prod.splits bool.splits) (metis snd_conv wf_attr wf_upd_inode)+

lemma wf_replace_by_copy: "wf_fs f \<Longrightarrow> wf_fs (snd (replace_by_copy env dst s st tmp t f))"
proof -
  assume f: "wf_fs f"
  obtain ok1 f1 where 1: "fill_copy env s st tmp t f = (ok1, f1)" by force
  have f1: "wf_fs f1" using wf_fill_copy [OF f, of env s st tmp t] 1 by simp
  obtain ok2 f2 where 2: "sys_unlink env dst f1 = (ok2, f2)" by force
  have f2: "wf_fs f2" using wf_unlink [OF f1, of env dst] 2 by simp
  obtain ok3 f3 where 3: "sys_rename env tmp dst f2 = (ok3, f3)" by force
  have f3: "wf_fs f3" using wf_rename [OF f2, of env tmp dst] 3 by simp
  show ?thesis using 1 2 3 f1 f2 f3
    by (cases ok1; cases ok2; cases ok3) (simp_all add: replace_by_copy_def wf_cleanup)
qed

lemma wf_Unify_deUnify: "wf_fs f \<Longrightarrow> wf_fs (snd (Unify_deUnify env dst f))"
  by (auto simp: Unify_deUnify_def sys_mkstemp_def wf_new_file wf_replace_by_copy split: option.splits)

text \<open>The backup of the destination.\<close>

lemma make_backup_spec:
  assumes "make_backup env dst ignore_zero (lstat_size env dst fs) fs = (ok, t, fs2)"
    and "wf_fs fs"
  shows "keeps {dst} fs fs2 \<and>
    (\<not> ok \<longrightarrow> names fs2 dst = names fs dst \<and> (\<forall>n. t = Some n \<longrightarrow> names fs n = None \<and> n \<noteq> dst)) \<and>
    (ok \<longrightarrow> (\<forall>n. t = Some n \<longrightarrow> names fs n = None \<and> names fs2 n = names fs dst \<and> names fs2 dst = None \<and>
        names fs dst \<noteq> None) \<and>
      (t = None \<longrightarrow> (names fs dst = None \<or> refuses env (c_lstat dst) fs) \<and> fs2 = fs \<or>
        lstat_size env dst fs = Some 0 \<and> ignore_zero \<and> names fs2 dst \<in> {names fs dst, None}))"
proof (cases "names fs dst = None \<or> refuses env (c_lstat dst) fs")
  case True
  then have "lstat_size env dst fs = None" by (auto simp: lstat_size_def)
  then show ?thesis using assms(1) True by (auto simp: make_backup_def)
next
  case False
  then obtain i where Some: "names fs dst = Some i" and ref: "\<not> refuses env (c_lstat dst) fs" by auto
  then obtain nd where nd: "inodes fs i = Some nd" using wf_inode [OF assms(2)] by blast
  define T where "T = mktemp env fs (dst @ '';XXXXXX'')"
  have i: "i \<noteq> next_ino fs" by (rule wf_name_old [OF assms(2) Some])
  have new: "inodes fs (next_ino fs) = None" by (rule wf_new_free [OF assms(2)])
  let ?f = "new_file T (fresh_inode env S_REG 0x180) fs"
  have f: "names ?f = (names fs)(T \<mapsto> next_ino fs)" "names fs T = None \<Longrightarrow> keeps {} fs ?f" "inodes ?f i = Some nd"
    using new i nd by (auto simp: new_file_def keeps_def)
  consider (zero) "length (i_data nd) = 0" "ignore_zero" | (backup) "length (i_data nd) > 0 \<or> \<not> ignore_zero" by blast
  then show ?thesis
  proof cases
    case zero
    then show ?thesis using assms(1) ref Some nd
      by (auto simp: make_backup_def lstat_size_def sys_unlink_def keeps_def split: if_splits)
  next
    case backup
    then have "(ok, t, fs2) = (if refuses env c_mkstemp fs \<or> names fs T \<noteq> None then (False, None, fs)
        else (fst (sys_rename env dst T ?f), Some T, snd (sys_rename env dst T ?f)))"
      using assms(1) ref Some nd
      by (cases "refuses env c_mkstemp fs \<or> names fs T \<noteq> None")
        (simp_all add: make_backup_def lstat_size_def sys_mkstemp_def T_def Let_def split_beta)
    then show ?thesis
      using f i Some by (cases "T = dst") (auto simp: sys_rename_def keeps_def split: if_splits)
  qed
qed

text \<open>The step that links, when the backup holds what the destination was.\<close>

lemma link_new_spec:
  assumes "link_new env src dst t g = (res, fs')"
    and k: "keeps {dst} fs g" and src: "names fs src \<noteq> None"
    and t: "\<And>n. t = Some n \<Longrightarrow> names fs n = None \<and> n \<noteq> dst \<and> names g n = names fs dst \<and> names g dst = None"
  shows "keeps {dst} fs fs' \<and>
    (case res of
       Some True \<Rightarrow> names fs' dst = names fs src
     | Some False \<Rightarrow> (if t = None then fs' = snd (sys_unlink env dst g) else names fs' dst = names fs dst)
     | None \<Rightarrow> (\<exists>n. names fs n = None \<and> names fs' n = names fs dst))"
proof -
  obtain ok1 fs1 where 1: "sys_link env src dst g = (ok1, fs1)" by force
  have k1: "keeps {dst} fs fs1" using keeps_link [OF k, of dst env src] 1 by simp
  have g: "names g src = names fs src" if "src \<noteq> dst" using k src that by (auto simp: keeps_def)
  have td: "t \<noteq> Some dst" using t by blast
  show ?thesis
  proof (cases ok1)
    case True
    then have "names g src \<noteq> None" "names g dst = None" "names fs1 dst = names g src"
      using 1 by (auto simp: sys_link_def split: option.splits if_splits)
    then have "names fs1 dst = names fs src" using g by metis
    then show ?thesis using assms(1) 1 True k1 t td
      by (auto simp: link_new_def cleanup_other intro!: keeps_cleanup)
  next
    case False
    then have fs1: "fs1 = g" using 1 by (auto simp: sys_link_def split: option.splits if_splits)
    have k2: "keeps {dst} fs (snd (sys_unlink env dst g))" using k by (auto intro: keeps_unlink)
    show ?thesis
    proof (cases t)
      case None
      then show ?thesis using assms(1) 1 False fs1 k2 by (auto simp: link_new_def Let_def)
    next
      case (Some n)
      then have n: "snd (sys_unlink env dst g) = g" "names fs n = None" "n \<noteq> dst" "names g n = names fs dst" "names g dst = None"
        using t by (auto simp: sys_unlink_def)
      obtain ok2 fs2 where 2: "sys_rename env n dst g = (ok2, fs2)" by force
      have k2: "keeps {dst} fs fs2" using keeps_rename [OF k, of n dst env] n 2 by simp
      have "\<not> ok2 \<Longrightarrow> fs2 = g" "ok2 \<Longrightarrow> names fs2 dst = names fs dst"
        using 2 n by (auto simp: sys_rename_def split: option.splits if_splits)
      then show ?thesis using assms(1) 1 2 False fs1 k2 n Some td
        by (cases ok2) (auto simp: link_new_def Let_def cleanup_other intro!: keeps_cleanup)
    qed
  qed
qed

text \<open>The copying loop appends a prefix of the data to the target, and all of it when it succeeds.\<close>

lemma data_update_id [simp]: "map_option (i_data_update (\<lambda>x. x)) m = m"
  by (cases m) auto

lemma copy_loop_spec:
  "copy_loop env t rest f = (ok, g) \<Longrightarrow>
   \<exists>d. names g = names f \<and> next_ino g = next_ino f \<and> (ok \<longrightarrow> d = rest) \<and>
     inodes g = (inodes f)(t := map_option (i_data_update (\<lambda>x. x @ d)) (inodes f t))"
proof (induction env t rest f rule: copy_loop.induct)
  case (1 env t rest f)
  consider (read) "refuses env (c_read (length rest)) f \<or> rest = []"
    | (short) "\<not> refuses env (c_read (length rest)) f" "rest \<noteq> []" "refuses env (c_write (length rest)) f"
    | (step) "\<not> refuses env (c_read (length rest)) f" "rest \<noteq> []" "\<not> refuses env (c_write (length rest)) f"
    by blast
  then show ?case
  proof cases
    case read
    then show ?thesis using 1(2) by (intro exI [of _ "[]"]) (auto simp: copy_loop.simps [of env t rest] fun_eq_iff split: if_splits)
  next
    case short
    then show ?thesis using 1(2)
      by (intro exI [of _ "take (short_write env f) (take 0x4000 rest)"])
        (auto simp: copy_loop.simps [of env t rest] append_data_def upd_inode_def)
  next
    case step
    then have "copy_loop env t (drop 0x4000 rest) (append_data t (take 0x4000 rest) f) = (ok, g)"
      using 1(2) by (simp add: copy_loop.simps [of env t rest])
    from 1(1) [OF step this] obtain d where d:
      "names g = names (append_data t (take 0x4000 rest) f)" "next_ino g = next_ino (append_data t (take 0x4000 rest) f)"
      "ok \<longrightarrow> d = drop 0x4000 rest"
      "inodes g = (inodes (append_data t (take 0x4000 rest) f))
         (t := map_option (i_data_update (\<lambda>x. x @ d)) (inodes (append_data t (take 0x4000 rest) f) t))" by blast
    then have "inodes g = (inodes f)(t := map_option (i_data_update (\<lambda>x. x @ take 0x4000 rest @ d)) (inodes f t))"
      by (simp add: append_data_def upd_inode_def option.map_comp comp_def)
    then show ?thesis using d(1-3) by (intro exI [of _ "take 0x4000 rest @ d"]) (auto simp: append_data_def upd_inode_def)
  qed
qed

definition copy_of :: "inode \<Rightarrow> inode \<Rightarrow> bool" where
  "copy_of a b \<longleftrightarrow>
     i_data b = i_data a \<and> i_perm b = i_perm a \<and> i_uid b = i_uid a \<and> i_gid b = i_gid a \<and>
     i_atime b = i_atime a \<and> i_mtime b = i_mtime a"

text \<open>While the temporary file is being filled, only its own inode changes.\<close>

lemma fill_copy_spec:
  assumes "fill_copy env s st tmp t f = (ok, g)" "names f tmp = Some t" "inodes f t = Some nd" "i_data nd = []"
  shows "names g = names f \<and> (\<forall>i. i \<noteq> t \<longrightarrow> inodes g i = inodes f i) \<and>
    (\<exists>nd'. inodes g t = Some nd' \<and> i_type nd' = i_type nd \<and> (ok \<longrightarrow> copy_of st nd'))"
proof -
  define f1 where "f1 = upd_inode t (\<lambda>nd. nd\<lparr>i_uid := i_uid st, i_gid := i_gid st\<rparr>) f"
  define f2 where "f2 = upd_inode t (\<lambda>nd. nd\<lparr>i_perm := i_perm st\<rparr>) f1"
  obtain ok3 f3 where 3: "copy_loop env t (i_data st) f2 = (ok3, f3)" by force
  obtain d where d: "names f3 = names f2" "ok3 \<longrightarrow> d = i_data st"
    "inodes f3 = (inodes f2)(t := map_option (i_data_update (\<lambda>x. x @ d)) (inodes f2 t))"
    using copy_loop_spec [OF 3] by blast
  have f: "names f1 = names f" "names f3 = names f" "inodes f1 t = Some (nd\<lparr>i_uid := i_uid st, i_gid := i_gid st\<rparr>)"
    "\<And>i. i \<noteq> t \<Longrightarrow> inodes f1 i = inodes f i" "\<And>i. i \<noteq> t \<Longrightarrow> inodes f3 i = inodes f i"
    "inodes f3 t = Some (nd\<lparr>i_uid := i_uid st, i_gid := i_gid st, i_perm := i_perm st, i_data := d\<rparr>)"
    using d assms(3,4) by (simp_all add: f1_def f2_def upd_inode_def)
  have "(ok, g) =
    (if refuses env (c_fchown t) f then (False, f)
     else if refuses env (c_fchmod t) f1 then (False, f1)
     else if \<not> ok3 \<or> refuses env (c_close s) f3 \<or> refuses env (c_close t) f3 then (False, f3)
     else sys_attr env (c_utime tmp) tmp (\<lambda>nd. nd\<lparr>i_atime := i_atime st, i_mtime := i_mtime st\<rparr>) f3)"
    using assms(1) 3 unfolding fill_copy_def Let_def f1_def [symmetric] f2_def [symmetric]
    by (cases ok3) (auto split: if_splits)
  then show ?thesis
    using f assms(2,3) d(2) by (auto simp: sys_attr_def copy_of_def upd_inode_def split: if_splits)
qed

text \<open>The copy takes the place of the original.\<close>

lemma replace_by_copy_spec:
  assumes r: "replace_by_copy env dst s st tmp (next_ino fs) f = (res, fs')"
    and c: "fill_copy env s st tmp (next_ino fs) f = (ok2, fs2)"
    and o: "sys_open env False dst fs = Some s" "inodes fs s = Some st" "names fs tmp = None" "tmp \<noteq> dst"
    and s2: "names fs2 = (names fs)(tmp \<mapsto> next_ino fs) \<and> (\<forall>i. i \<noteq> next_ino fs \<longrightarrow> inodes fs2 i = inodes fs i) \<and>
      (\<exists>nd. inodes fs2 (next_ino fs) = Some nd \<and> i_type nd = S_REG \<and> (ok2 \<longrightarrow> copy_of st nd))"
    and k2: "keeps {dst} fs fs2" and wf: "wf_fs fs"
  shows "keeps {dst} fs fs' \<and>
    (case res of
       Some False \<Rightarrow> names fs' dst = names fs dst
     | _ \<Rightarrow> (\<exists>n s st nd. sys_open env False dst fs = Some s \<and> inodes fs s = Some st \<and>
              (n = dst \<or> res = None \<and> names fs n = None) \<and> names fs' n = Some (next_ino fs) \<and>
              inodes fs' (next_ino fs) = Some nd \<and> i_type nd = S_REG \<and> copy_of st nd))"
proof -
  have keep: "keeps {dst} fs (cleanup_tmp env (Some tmp) fs2)" "names (cleanup_tmp env (Some tmp) fs2) dst = names fs dst"
    using k2 o s2 by (auto simp: cleanup_other intro!: keeps_cleanup)
  show ?thesis
  proof (cases "ok2 \<and> fst (sys_unlink env dst fs2)")
    case False
    then have "res = Some False" "fs' = cleanup_tmp env (Some tmp) fs2"
      using r c by (cases ok2; auto simp: replace_by_copy_def sys_unlink_def split: option.splits if_splits)+
    then show ?thesis using keep by simp
  next
    case True
    define fs3 where "fs3 = fs2\<lparr>names := (names fs2)(dst := None)\<rparr>"
    have u: "sys_unlink env dst fs2 = (True, fs3)"
      using True by (auto simp: sys_unlink_def fs3_def split: option.splits if_splits)
    have k3: "keeps {dst} fs fs3" using keeps_unlink [OF k2, of dst env] u by simp
    have k4: "keeps {dst} fs (snd (sys_rename env tmp dst fs3))" using keeps_rename [OF k3, of tmp dst env] o by simp
    have n3: "names fs3 tmp = Some (next_ino fs)" "names fs3 dst = None" "inodes fs3 = inodes fs2"
      using s2 o by (simp_all add: fs3_def)
    obtain ok4 fs4 where 4: "sys_rename env tmp dst fs3 = (ok4, fs4)" by force
    have n4: "if ok4 then names fs4 dst = Some (next_ino fs) else fs4 = fs3" "inodes fs4 = inodes fs2"
      using 4 n3 by (auto simp: sys_rename_def split: if_splits)
    obtain nd where nd: "inodes fs2 (next_ino fs) = Some nd" "i_type nd = S_REG" "copy_of st nd" using s2 True by blast
    have "(res, fs') = (if ok4 then Some True else None, fs4)" using r c True u 4 by (cases ok4) (simp_all add: replace_by_copy_def)
    then show ?thesis using n3 n4 nd k4 4 o by (auto split: if_splits)
  qed
qed

lemma Unify_unify_facts:
  assumes "Unify_unify env src dst ignore_zero fs = (res, fs')" and "wf_fs fs"
  shows "keeps {dst} fs fs' \<and>
    (case res of
       Some True \<Rightarrow> names fs' dst = names fs src \<and> names fs src \<noteq> None
     | Some False \<Rightarrow> names fs' dst = names fs dst \<or>
         names fs' dst = None \<and>
         (ignore_zero \<and> empty_file fs dst \<or> refuses env (c_lstat dst) (snd (set_iattr env src fs)))
     | None \<Rightarrow> (\<exists>n. names fs n = None \<and> names fs' n = names fs dst))"
proof -
  obtain ok1 fs1 where 1: "set_iattr env src fs = (ok1, fs1)" by force
  note s1 = set_iattr_spec [OF 1 assms(2)]
  obtain ok2 t fs2 where 2: "make_backup env dst ignore_zero (lstat_size env dst fs1) fs1 = (ok2, t, fs2)"
    by (metis prod_cases3)
  note s2 = make_backup_spec [OF 2 conjunct1 [OF conjunct2 [OF conjunct2 [OF s1]]]]
  have k1: "keeps {dst} fs fs1" using s1 keeps_mono by blast
  have k: "keeps {dst} fs fs2" "names fs1 = names fs" using s1 s2 keeps_trans [OF k1] by blast+
  have l: "empty_file fs dst" if "lstat_size env dst fs1 = Some 0"
    by (rule lstat_size_empty [OF that]) (use s1 assms(2) in auto)
  have d: "t \<noteq> Some dst" "t = Some n \<Longrightarrow> names fs n = None" for n
    using s2 k(2) by force+
  show ?thesis
  proof (cases "ok1 \<and> \<not> refuses env c_sigprocmask fs1 \<and> ok2")
    case False
    then have "res = Some False \<and> (fs' = fs1 \<or> fs' = cleanup_tmp env t fs2 \<and> \<not> ok2)"
      using assms(1) 1 2
      by (cases ok1; cases ok2; cases "refuses env c_sigprocmask fs1"; simp add: Unify_unify_def)
    then show ?thesis using k k1 s2 d by (auto simp: cleanup_other intro: keeps_cleanup)
  next
    case True
    then have r: "link_new env src dst t fs2 = (res, fs')" using assms(1) 1 2 by (simp add: Unify_unify_def)
    have src: "names fs src \<noteq> None" using True s1 by blast
    note s3 = link_new_spec [OF r k(1) src]
    have bk: "t = Some n \<Longrightarrow> names fs n = None \<and> n \<noteq> dst \<and> names fs2 n = names fs dst \<and> names fs2 dst = None" for n
      using s2 True k(2) d by force
    let ?u = "snd (sys_unlink env dst fs2)"
    have "names ?u dst \<in> {names fs2 dst, None}" by (auto simp: sys_unlink_def split: option.splits)
    then have "t = None \<Longrightarrow> names ?u dst = names fs dst \<or> names ?u dst = None \<and>
        (ignore_zero \<and> empty_file fs dst \<or> refuses env (c_lstat dst) (snd (set_iattr env src fs)))"
      using s2 True l k(2) 1 by force
    then show ?thesis using s3 bk src by (auto split: option.splits bool.splits if_splits)
  qed
qed

lemma Unify_deUnify_facts:
  assumes "Unify_deUnify env dst fs = (res, fs')" "wf_fs fs"
  shows "keeps {dst} fs fs' \<and>
    (case res of
       Some False \<Rightarrow> names fs' dst = names fs dst
     | _ \<Rightarrow> (\<exists>n s st nd. sys_open env False dst fs = Some s \<and> inodes fs s = Some st \<and>
              (n = dst \<or> res = None \<and> names fs n = None) \<and> names fs' n = Some (next_ino fs) \<and>
              inodes fs' (next_ino fs) = Some nd \<and> i_type nd = S_REG \<and> copy_of st nd))"
proof -
  consider (early) "res = Some False" "fs' = fs"
    | (main) s st tmp where "sys_open env False dst fs = Some s" "inodes fs s = Some st" "names fs tmp = None"
      "replace_by_copy env dst s st tmp (next_ino fs) (new_file tmp (fresh_inode env S_REG 0x180) fs) = (res, fs')"
  proof (cases "Option.bind (sys_open env False dst fs) (\<lambda>s. map_option (Pair s) (inodes fs s))")
    case None
    then show ?thesis using assms(1) early by (simp add: Unify_deUnify_def)
  next
    case (Some p)
    then obtain s st where p: "p = (s, st)" "sys_open env False dst fs = Some s" "inodes fs s = Some st"
      by (auto simp: bind_eq_Some_conv)
    let ?T = "mktemp env fs (dst @ '';XXXXXX'')"
    show ?thesis
      using assms(1) Some p early main [of s st ?T]
      by (cases "refuses env (c_fstat s) fs \<or> refuses env c_mkstemp fs \<or> names fs ?T \<noteq> None")
        (auto simp: Unify_deUnify_def sys_mkstemp_def split: if_splits)
  qed
  then show ?thesis
  proof cases
    case early
    then show ?thesis by simp
  next
    case main
    define f where "f = new_file tmp (fresh_inode env S_REG 0x180) fs"
    have dst: "names fs dst \<noteq> None" "tmp \<noteq> dst"
      using main(1,3) by (auto simp: sys_open_def split: option.splits)
    have f: "names f = (names fs)(tmp \<mapsto> next_ino fs)" "inodes f (next_ino fs) = Some (fresh_inode env S_REG 0x180)"
      "\<And>i. i \<noteq> next_ino fs \<Longrightarrow> inodes f i = inodes fs i" by (simp_all add: f_def new_file_def)
    obtain ok2 fs2 where 2: "fill_copy env s st tmp (next_ino fs) f = (ok2, fs2)" by force
    have s2: "names fs2 = (names fs)(tmp \<mapsto> next_ino fs) \<and> (\<forall>i. i \<noteq> next_ino fs \<longrightarrow> inodes fs2 i = inodes fs i) \<and>
      (\<exists>nd. inodes fs2 (next_ino fs) = Some nd \<and> i_type nd = S_REG \<and> (ok2 \<longrightarrow> copy_of st nd))"
      using fill_copy_spec [OF 2, of "fresh_inode env S_REG 0x180"] f by (simp add: fresh_inode_def)
    have "inodes fs2 i = inodes fs i" if "inodes fs i = Some nd" for i nd
      using s2 wf_new_free [OF assms(2)] that by (cases "i = next_ino fs") simp_all
    then have k2: "keeps {dst} fs fs2" using s2 main(3) by (auto simp: keeps_def)
    show ?thesis
      by (rule replace_by_copy_spec [OF _ 2 main(1-3) dst(2) s2 k2 assms(2)]) (use main(4) in \<open>simp add: f_def\<close>)
  qed
qed

section \<open>Properties\<close>


definition sample_env :: "syscall list \<Rightarrow> env" where
  "sample_env bad =
     \<lparr>refuses = (\<lambda>c _. c \<in> set bad), short_write = (\<lambda>_. 0), mktemp = (\<lambda>_ t. t), follow = (\<lambda>_ _. None),
      e_uid = 0, e_gid = 0, e_now = 0\<rparr>"

definition sample_file :: "u8 list \<Rightarrow> inode" where
  "sample_file d =
     \<lparr>i_type = S_REG, i_perm = 0x1a4, i_uid = 5, i_gid = 6, i_rdev = 0, i_atime = 7, i_mtime = 8, i_data = d, i_iattr = 0\<rparr>"

definition sample_fs :: fs where
  "sample_fs =
     \<lparr>names = [''ref'' \<mapsto> 0, ''a'' \<mapsto> 1], inodes = [0 \<mapsto> sample_file [1, 2], 1 \<mapsto> sample_file [1, 2]],
      next_ino = 2, fs_dev = 0\<rparr>"

lemma sample_names: "names sample_fs ''a'' = Some 1" "names sample_fs ''ref'' = Some 0"
  by (simp_all add: sample_fs_def)

lemma sample_fs_wf [simp]: "wf_fs sample_fs"
  by (auto simp: wf_fs_def sample_fs_def split: if_splits)


text \<open>The remaining case is real: a refused \<^verbatim>\<open>lstat\<close> costs the destination.\<close>

lemma lstat_refused_loses:
  "fst (Unify_unify (sample_env [c_lstat ''a'']) ''ref'' ''a'' False sample_fs) = Some False \<and>
   names (snd (Unify_unify (sample_env [c_lstat ''a'']) ''ref'' ''a'' False sample_fs)) ''a'' = None"
  by code_simp

text \<open>
  C31. Breaking a link never loses a file: whatever call is refused, if \<^verbatim>\<open>Unify_deUnify\<close> succeeds the
  name leads to a new file with the content, the owner, the permissions and the times of the old
  one; if it fails the name leads to what it did; if the last renaming fails, the complete copy is
  still there under its temporary name. All other names of the old file keep it, and no file changes.\<close>

theorem Unify_deUnify_safe:
  assumes "Unify_deUnify env dst fs = (res, fs')" "wf_fs fs"
  shows "keeps {dst} fs fs' \<and>
    (case res of
       Some False \<Rightarrow> names fs' dst = names fs dst
     | _ \<Rightarrow> (\<exists>n s st nd. sys_open env False dst fs = Some s \<and> inodes fs s = Some st \<and>
              (n = dst \<or> res = None \<and> names fs n = None) \<and> names fs' n = Some (next_ino fs) \<and>
              inodes fs' (next_ino fs) = Some nd \<and> copy_of st nd))"
  using Unify_deUnify_facts [OF assms] by (simp split: option.splits bool.splits) blast+

theorem Unify_deUnify_safe_witness:
  "\<exists>nd. inodes (snd (Unify_deUnify (sample_env []) ''a'' sample_fs)) 2 = Some nd \<and> copy_of (sample_file [1, 2]) nd"
proof -
  have a: "fst (Unify_deUnify (sample_env []) ''a'' sample_fs) = Some True" by code_simp
  have o: "sys_open (sample_env []) False ''a'' sample_fs = Some 1" by code_simp
  have "inodes sample_fs 1 = Some (sample_file [1, 2])" "next_ino sample_fs = 2" by (simp_all add: sample_fs_def)
  then show ?thesis
    using Unify_deUnify_safe [of "sample_env []" "''a''" sample_fs] a o
    by (cases "Unify_deUnify (sample_env []) ''a'' sample_fs") auto
qed

end
