(* ===== verification/UnifyCopy.thy ===== *)
theory UnifyCopy
  imports Unify
begin

text \<open>
  Copying a file with its attributes (\<^verbatim>\<open>lib_internal/unify-copy.c\<close>) over the file system of theory
  \<open>Unify\<close>, and the comparisons of \<^verbatim>\<open>lib_internal/unify.h\<close>. Regular files are copied through memory maps
  block by block, and words that are zero are not written so that the new file stays sparse.
\<close>

section \<open>Copying memory\<close>

text \<open>
  \<^verbatim>\<open>copyMem\<close> goes over the memory in steps of an \<^verbatim>\<open>int\<close> and writes an \<^verbatim>\<open>int\<close> only when it is not
  zero, and does the same with the remaining bytes.
\<close>

fun copy_rest :: "u8 list \<Rightarrow> u8 list \<Rightarrow> u8 list" where
  "copy_rest (d # dst) (s # src) = (if s \<noteq> 0 then s else d) # copy_rest dst src"
| "copy_rest dst _ = dst"

fun copy_ints :: "nat \<Rightarrow> u8 list \<Rightarrow> u8 list \<Rightarrow> u8 list" where
  "copy_ints 0 dst src = copy_rest dst src"
| "copy_ints (Suc n) dst src =
     (if take 4 src \<noteq> replicate 4 0 then take 4 src else take 4 dst) @ copy_ints n (drop 4 dst) (drop 4 src)"

definition copyMem :: "u8 list \<Rightarrow> u8 list \<Rightarrow> u8 list" where
  "copyMem dst src = copy_ints (length src div 4) dst src"

definition MMAP_BLOCKSIZE :: nat where "MMAP_BLOCKSIZE = 16 * 1024 * 1024"

text \<open>
  The loop over the blocks of the file, with the content of the output file. \<open>bad\<close> tells at which
  offsets an \<^verbatim>\<open>mmap\<close> fails or the \<^verbatim>\<open>SIGBUS\<close> of a file that was truncated meanwhile ends the loop.
\<close>

function mmap_loop :: "(nat \<Rightarrow> bool) \<Rightarrow> u8 list \<Rightarrow> u8 list \<Rightarrow> nat \<Rightarrow> bool \<times> u8 list" where
  "mmap_loop bad inp out offset =
     (if offset < length inp
      then
        (let buf_size = min (length inp - offset) MMAP_BLOCKSIZE
         in if bad offset then (False, out)
            else
              mmap_loop bad inp
                (take offset out @ copyMem (take buf_size (drop offset out)) (take buf_size (drop offset inp)) @
                 drop (offset + buf_size) out)
                (offset + buf_size))
      else (True, out))"
  by pat_completeness auto
termination
  by (relation "measure (\<lambda>(bad, inp, out, offset). length inp - offset)") (auto simp: MMAP_BLOCKSIZE_def)

declare mmap_loop.simps [simp del]

text \<open>\<open>out\<close> is the inode of the new file, which is empty until \<^verbatim>\<open>ftruncate\<close> fills it with zeros.\<close>

definition copyMMap :: "env \<Rightarrow> u8 list \<Rightarrow> nat \<Rightarrow> fs \<Rightarrow> bool \<times> fs" where
  "copyMMap env inp out fs =
     (if refuses env (c_lseek out) fs then (False, fs)
      else if inp \<noteq> [] \<and> refuses env (c_ftruncate out) fs then (False, fs)
      else
        (let (ok, data) = mmap_loop (\<lambda>off. refuses env (c_mmap out off) fs) inp (replicate (length inp) 0) 0
         in (ok, upd_inode out (i_data_update (\<lambda>_. data)) fs)))"

section \<open>Copying objects\<close>

definition verifySource :: "env \<Rightarrow> fs \<Rightarrow> nat \<Rightarrow> stat \<Rightarrow> bool" where
  "verifySource env fs i exp \<longleftrightarrow> \<not> refuses env (c_fstat i) fs \<and> fs_dev fs = st_dev exp \<and> i = st_ino exp"

definition copyReg :: "env \<Rightarrow> cstr \<Rightarrow> stat \<Rightarrow> cstr \<Rightarrow> fs \<Rightarrow> bool \<times> fs" where
  "copyReg env src st dst fs =
     (case Option.bind (sys_open env True src fs) (\<lambda>i. map_option (Pair i) (inodes fs i)) of
        None \<Rightarrow> (False, fs)
      | Some (i, nd) \<Rightarrow>
          (case sys_create env (c_creat dst) dst (fresh_inode env S_REG 0x80) fs of
             (False, fs1) \<Rightarrow> (False, fs1)
           | (True, fs1) \<Rightarrow>
               if \<not> verifySource env fs1 i st then (False, fs1)
               else
                 (let (ok, fs2) = copyMMap env (i_data nd) (next_ino fs) fs1
                  in (ok \<and> \<not> refuses env (c_close (next_ino fs)) fs2 \<and> \<not> refuses env (c_close i) fs2, fs2))))"

text \<open>
  \<^verbatim>\<open>copyLnk\<close> doubles its buffer of 1024 bytes until the target of the link fits with a byte to spare;
  \<open>k\<close> counts the doublings.
\<close>

function readlink_loop :: "bool \<Rightarrow> u8 list \<Rightarrow> nat \<Rightarrow> u8 list option" where
  "readlink_loop bad target k =
     (let len = 1024 * 2 ^ k; got = take (len - 1) target
      in if bad then None
         else if length got \<ge> len - 1 then readlink_loop bad target (k + 1)
         else Some got)"
  by pat_completeness auto
termination
proof (relation "measure (\<lambda>(bad, target, k). length target + 1 - k)")
  fix bad :: bool and target :: "u8 list" and k len :: nat and got
  assume "len = 1024 * 2 ^ k" "got = take (len - 1) target" "len - 1 \<le> length got"
  then have "1024 * 2 ^ k - 1 \<le> length target" by simp
  moreover have "k < 2 ^ k" by (rule less_exp)
  ultimately have "k < length target + 1" by linarith
  then show "((bad, target, k + 1), bad, target, k) \<in> measure (\<lambda>(bad, target, k). length target + 1 - k)" by simp
qed simp

declare readlink_loop.simps [simp del]

definition copyLnk :: "env \<Rightarrow> cstr \<Rightarrow> cstr \<Rightarrow> fs \<Rightarrow> bool \<times> fs" where
  "copyLnk env src dst fs =
     (case Option.bind (names fs src) (inodes fs) of
        None \<Rightarrow> (False, fs)
      | Some nd \<Rightarrow>
          if i_type nd \<noteq> S_LNK then (False, fs)
          else
            (case readlink_loop (refuses env (c_readlink src) fs) (i_data nd) 0 of
               None \<Rightarrow> (False, fs)
             | Some t \<Rightarrow> sys_create env (c_symlink dst) dst ((fresh_inode env S_LNK 0x1ff)\<lparr>i_data := t\<rparr>) fs))"

definition copyNode :: "env \<Rightarrow> stat \<Rightarrow> cstr \<Rightarrow> fs \<Rightarrow> bool \<times> fs" where
  "copyNode env st dst =
     sys_create env (c_mknod dst) dst ((fresh_inode env (st_type st) (st_perm st AND 0x80))\<lparr>i_rdev := st_rdev st\<rparr>)"

definition copyDir :: "env \<Rightarrow> cstr \<Rightarrow> fs \<Rightarrow> bool \<times> fs" where
  "copyDir env dst = sys_create env (c_mkdir dst) dst (fresh_inode env S_DIR 0x1c0)"

definition setModes :: "env \<Rightarrow> cstr \<Rightarrow> stat \<Rightarrow> fs \<Rightarrow> bool \<times> fs" where
  "setModes env path st fs =
     (case sys_attr env (c_lchown path) path (\<lambda>nd. nd\<lparr>i_uid := st_uid st, i_gid := st_gid st\<rparr>) fs of
        (False, fs1) \<Rightarrow> (False, fs1)
      | (True, fs1) \<Rightarrow>
          if st_type st = S_LNK then (True, fs1)
          else sys_attr env (c_chmod path) path (\<lambda>nd. nd\<lparr>i_perm := st_perm st\<rparr>) fs1)"

definition Unify_setTime :: "env \<Rightarrow> cstr \<Rightarrow> stat \<Rightarrow> fs \<Rightarrow> bool \<times> fs" where
  "Unify_setTime env dst st fs =
     (if st_type st = S_LNK then (True, fs)
      else sys_attr env (c_utime dst) dst (\<lambda>nd. nd\<lparr>i_atime := st_atime st, i_mtime := st_mtime st\<rparr>) fs)"

definition copy_object :: "env \<Rightarrow> cstr \<Rightarrow> stat \<Rightarrow> cstr \<Rightarrow> fs \<Rightarrow> bool \<times> fs" where
  "copy_object env src st dst fs =
     (case st_type st of
        S_LNK \<Rightarrow> copyLnk env src dst fs
      | S_REG \<Rightarrow> copyReg env src st dst fs
      | S_DIR \<Rightarrow> copyDir env dst fs
      | S_SOCK \<Rightarrow> (False, fs)
      | _ \<Rightarrow> copyNode env st dst fs)"

definition Unify_copy :: "env \<Rightarrow> cstr \<Rightarrow> stat \<Rightarrow> cstr \<Rightarrow> fs \<Rightarrow> bool \<times> fs" where
  "Unify_copy env src st dst fs =
     (if st_type st = S_SOCK then (True, fs)
      else
        (case copy_object env src st dst fs of
           (False, fs1) \<Rightarrow> (False, fs1)
         | (True, fs1) \<Rightarrow>
             (case setModes env dst st fs1 of
                (False, fs2) \<Rightarrow> (False, fs2)
              | (True, fs2) \<Rightarrow> Unify_setTime env dst st fs2)))"

section \<open>Comparing files\<close>

datatype UnifyStatus = unifyUNSUPPORTED | unifyUINLINKABLE | unifyBUSY

text \<open>\<open>get_iattr\<close> answers the flags and the mask of the flags the kernel knows about.\<close>

definition Unify_isIUnlinkable :: "(cstr \<Rightarrow> (u32 \<times> u32) option) \<Rightarrow> cstr \<Rightarrow> UnifyStatus" where
  "Unify_isIUnlinkable get_iattr filename =
     (let v = VC_IATTR_IUNLINK OR VC_IATTR_IMMUTABLE
      in case get_iattr filename of
           None \<Rightarrow> unifyUNSUPPORTED
         | Some (flags, msk) \<Rightarrow>
             if msk AND v \<noteq> v then unifyUNSUPPORTED else if flags AND v = v then unifyBUSY else unifyUINLINKABLE)"

definition Unify_isUnified :: "stat \<Rightarrow> stat \<Rightarrow> bool" where
  "Unify_isUnified lhs rhs \<longleftrightarrow> st_dev lhs = st_dev rhs \<and> st_ino lhs = st_ino rhs"

definition Unify_isUnifyable :: "bool \<Rightarrow> stat \<Rightarrow> stat \<Rightarrow> bool" where
  "Unify_isUnifyable ignore_mtime lhs rhs \<longleftrightarrow>
     st_dev lhs = st_dev rhs \<and> st_ino lhs \<noteq> st_ino rhs \<and> st_type lhs = st_type rhs \<and> st_perm lhs = st_perm rhs \<and>
     st_uid lhs = st_uid rhs \<and> st_gid lhs = st_gid rhs \<and> st_size lhs = st_size rhs \<and>
     (ignore_mtime \<or> st_mtime lhs = st_mtime rhs)"

section \<open>The copied bytes\<close>

lemma copy_rest_zeros: "copy_rest (replicate (length src) 0) src = src"
  by (induction src) auto

lemma copy_ints_zeros: "n \<le> length src div 4 \<Longrightarrow> copy_ints n (replicate (length src) 0) src = src"
proof (induction n arbitrary: src)
  case 0
  then show ?case by (simp add: copy_rest_zeros)
next
  case (Suc n)
  have "copy_ints n (drop 4 (replicate (length src) 0)) (drop 4 src) = drop 4 src"
    using Suc.IH [of "drop 4 src"] Suc.prems by simp
  moreover have "(if take 4 src \<noteq> replicate 4 0 then take 4 src else take 4 (replicate (length src) 0)) = take 4 src"
    using Suc.prems by (auto simp: min_def)
  ultimately show ?case by (simp only: copy_ints.simps append_take_drop_id)
qed

lemma copyMem_zeros: "copyMem (replicate (length src) 0) src = src"
  by (simp add: copyMem_def copy_ints_zeros)

lemma mmap_loop_copies:
  "mmap_loop bad inp (take offset inp @ replicate (length inp - offset) 0) offset = (ok, out) \<Longrightarrow> ok \<Longrightarrow> out = inp"
proof (induction "length inp - offset" arbitrary: offset rule: less_induct)
  case less
  let ?out = "take offset inp @ replicate (length inp - offset) 0"
  show ?case
  proof (cases "offset < length inp")
    case False
    then show ?thesis using less.prems by (subst (asm) mmap_loop.simps) auto
  next
    case True
    define b where "b = min (length inp - offset) MMAP_BLOCKSIZE"
    have b: "0 < b" "offset + b \<le> length inp" using True by (auto simp: b_def MMAP_BLOCKSIZE_def)
    have "copyMem (take b (drop offset ?out)) (take b (drop offset inp)) = take b (drop offset inp)"
    proof -
      have "min b (length inp - offset) = b" using b by simp
      then show ?thesis using copyMem_zeros [of "take b (drop offset inp)"] b by simp
    qed
    then have "take offset ?out @ copyMem (take b (drop offset ?out)) (take b (drop offset inp)) @ drop (offset + b) ?out =
      take (offset + b) inp @ replicate (length inp - (offset + b)) 0"
      using b by (simp add: take_add)
    then have "mmap_loop bad inp ?out offset =
      (if bad offset then (False, ?out)
       else mmap_loop bad inp (take (offset + b) inp @ replicate (length inp - (offset + b)) 0) (offset + b))"
      by (subst mmap_loop.simps) (simp only: True if_True Let_def b_def [symmetric])
    then have "mmap_loop bad inp (take (offset + b) inp @ replicate (length inp - (offset + b)) 0) (offset + b) = (ok, out)"
      using less.prems by (simp split: if_splits)
    then show ?thesis using less.hyps [of "offset + b"] less.prems(2) b by auto
  qed
qed

lemma mmap_loop_total: "(\<And>x. \<not> bad x) \<Longrightarrow> fst (mmap_loop bad inp out offset)"
  by (induction bad inp out offset rule: mmap_loop.induct) (subst mmap_loop.simps, simp add: Let_def)

lemma readlink_loop_total: "readlink_loop False target k = Some target"
proof (induction "False" target k rule: readlink_loop.induct)
  case (1 target k)
  show ?case
  proof (cases "length (take (1024 * 2 ^ k - 1) target) \<ge> 1024 * 2 ^ k - 1")
    case True
    then show ?thesis using 1 by (subst readlink_loop.simps) (simp add: Let_def)
  next
    case False
    then show ?thesis by (subst readlink_loop.simps) (simp add: Let_def)
  qed
qed

lemma readlink_loop_bad: "readlink_loop True target k = None"
  by (subst readlink_loop.simps) (simp add: Let_def)

section \<open>New files\<close>

text \<open>
  A file that the copy has made: a fresh inode under a name that did not exist, and everything else
  as before.
\<close>

definition made :: "fs \<Rightarrow> cstr \<Rightarrow> inode \<Rightarrow> fs \<Rightarrow> bool" where
  "made fs dst nd f \<longleftrightarrow>
     names fs dst = None \<and> names f = (names fs)(dst \<mapsto> next_ino fs) \<and> inodes f = (inodes fs)(next_ino fs \<mapsto> nd)"

lemma made_keeps: "made fs dst nd f \<Longrightarrow> wf_fs fs \<Longrightarrow> keeps {} fs f"
  using wf_new_free [of fs] by (auto simp: made_def keeps_def)

lemma made_create:
  "sys_create env c dst nd fs = (ok, f) \<Longrightarrow> if ok then made fs dst nd f else f = fs"
  by (auto simp: sys_create_def made_def new_file_def split: if_splits)

lemma made_attr:
  "made fs dst nd f \<Longrightarrow> sys_attr env c dst g f = (ok, f') \<Longrightarrow> if ok then made fs dst (g nd) f' else f' = f"
  by (auto simp: made_def sys_attr_def upd_inode_def split: if_splits)

lemma made_upd: "made fs dst nd f \<Longrightarrow> made fs dst (g nd) (upd_inode (next_ino fs) g f)"
  by (auto simp: made_def upd_inode_def)

lemma copyMMap_spec:
  assumes "copyMMap env inp (next_ino fs) f = (ok, f')" "made fs dst nd f"
  shows "(\<exists>d. made fs dst (nd\<lparr>i_data := d\<rparr>) f') \<and> (ok \<longrightarrow> made fs dst (nd\<lparr>i_data := inp\<rparr>) f') \<or> \<not> ok \<and> f' = f"
proof (cases "refuses env (c_lseek (next_ino fs)) f \<or> inp \<noteq> [] \<and> refuses env (c_ftruncate (next_ino fs)) f")
  case True
  then show ?thesis using assms(1) by (auto simp: copyMMap_def split: if_splits)
next
  case False
  obtain ok' d where m: "mmap_loop (\<lambda>off. refuses env (c_mmap (next_ino fs) off) f) inp (replicate (length inp) 0) 0 = (ok', d)"
    by force
  then have "ok' \<Longrightarrow> d = inp" using mmap_loop_copies [where offset = 0 and inp = inp] by simp
  then show ?thesis
    using False m assms made_upd [OF assms(2), of "i_data_update (\<lambda>_. d)"] by (auto simp: copyMMap_def)
qed

text \<open>What the first step of the copy makes: an object of the right type with the right content.\<close>

definition same_object :: "inode \<Rightarrow> inode \<Rightarrow> bool" where
  "same_object a b \<longleftrightarrow> i_type b = i_type a \<and>
     (i_type a \<in> {S_REG, S_LNK} \<longrightarrow> i_data b = i_data a) \<and>
     (i_type a \<in> {S_CHR, S_BLK, S_FIFO} \<longrightarrow> i_rdev b = i_rdev a)"

definition describes :: "stat \<Rightarrow> fs \<Rightarrow> nat \<Rightarrow> inode \<Rightarrow> bool" where
  "describes st fs i nd \<longleftrightarrow>
     st_dev st = fs_dev fs \<and> st_ino st = i \<and> st_type st = i_type nd \<and> st_perm st = i_perm nd \<and> st_uid st = i_uid nd \<and>
     st_gid st = i_gid nd \<and> st_rdev st = i_rdev nd \<and> st_atime st = i_atime nd \<and> st_mtime st = i_mtime nd"

lemma copyReg_spec:
  assumes "copyReg env src st dst fs = (ok, f)" "names fs src = Some i" "inodes fs i = Some nd" "i_type nd = S_REG"
  shows "(\<exists>nd'. made fs dst nd' f \<and> (ok \<longrightarrow> same_object nd nd')) \<or> \<not> ok \<and> f = fs"
proof (cases "refuses env (c_open src) fs")
  case True
  then show ?thesis using assms(1,2) by (simp add: copyReg_def sys_open_def)
next
  case False
  then have o: "Option.bind (sys_open env True src fs) (\<lambda>i. map_option (Pair i) (inodes fs i)) = Some (i, nd)"
    using assms by (simp add: sys_open_def has_type_def)
  obtain ok1 f1 where 1: "sys_create env (c_creat dst) dst (fresh_inode env S_REG 0x80) fs = (ok1, f1)" by force
  note m1 = made_create [OF 1]
  obtain ok2 f2 where 2: "copyMMap env (i_data nd) (next_ino fs) f1 = (ok2, f2)" by force
  show ?thesis
  proof (cases "ok1 \<and> verifySource env f1 i st")
    case False
    then show ?thesis using assms(1) o 1 m1 by (cases ok1) (auto simp: copyReg_def)
  next
    case True
    then have m: "made fs dst (fresh_inode env S_REG 0x80) f1" using m1 by simp
    have "f = f2" "ok \<Longrightarrow> ok2" using assms(1) o 1 2 True by (auto simp: copyReg_def)
    then show ?thesis using copyMMap_spec [OF 2 m] m assms(4) by (fastforce simp: same_object_def fresh_inode_def)
  qed
qed

lemma copy_object_spec:
  assumes "copy_object env src st dst fs = (ok, f)" "names fs src = Some i" "inodes fs i = Some nd" "describes st fs i nd"
  shows "(\<exists>nd'. made fs dst nd' f \<and> (ok \<longrightarrow> same_object nd nd')) \<or> \<not> ok \<and> f = fs"
proof -
  have cr: "(\<exists>nd'. made fs dst nd' f \<and> (ok \<longrightarrow> same_object nd nd')) \<or> \<not> ok \<and> f = fs"
    if "sys_create env c dst n fs = (ok, f)" "same_object nd n" for c n
    using made_create [OF that(1)] that(2) by (cases ok) auto
  have t: "st_type st = i_type nd" "st_rdev st = i_rdev nd" using assms(4) by (simp_all add: describes_def)
  have dir: ?thesis if "i_type nd = S_DIR"
    by (rule cr [of "c_mkdir dst" "fresh_inode env S_DIR 0x1c0"])
      (use assms(1) t that in \<open>simp_all add: copy_object_def copyDir_def same_object_def fresh_inode_def\<close>)
  have node: ?thesis if "i_type nd \<in> {S_CHR, S_BLK, S_FIFO}"
    by (rule cr [of "c_mknod dst" "(fresh_inode env (st_type st) (st_perm st AND 0x80))\<lparr>i_rdev := st_rdev st\<rparr>"])
      (use assms(1) t that in \<open>auto simp: copy_object_def copyNode_def same_object_def fresh_inode_def\<close>)
  show ?thesis
  proof (cases "i_type nd")
    case S_REG
    then show ?thesis using assms(1-3) t copyReg_spec by (simp add: copy_object_def)
  next
    case S_LNK
    show ?thesis
    proof (cases "refuses env (c_readlink src) fs")
      case True
      then show ?thesis using assms(1-3) S_LNK t by (simp add: copy_object_def copyLnk_def readlink_loop_bad)
    next
      case False
      then have "sys_create env (c_symlink dst) dst ((fresh_inode env S_LNK 0x1ff)\<lparr>i_data := i_data nd\<rparr>) fs = (ok, f)"
        using assms(1-3) S_LNK t by (simp add: copy_object_def copyLnk_def readlink_loop_total)
      then show ?thesis by (rule cr) (simp add: same_object_def fresh_inode_def S_LNK)
    qed
  next
    case S_SOCK
    then show ?thesis using assms(1) t by (simp add: copy_object_def)
  qed (use dir node in simp_all)
qed

section \<open>Properties\<close>

text \<open>The copy of a file, as far as its type allows.\<close>

definition is_copy :: "inode \<Rightarrow> inode \<Rightarrow> bool" where
  "is_copy a b \<longleftrightarrow> same_object a b \<and> i_uid b = i_uid a \<and> i_gid b = i_gid a \<and>
     (i_type a \<noteq> S_LNK \<longrightarrow> i_perm b = i_perm a \<and> i_atime b = i_atime a \<and> i_mtime b = i_mtime a)"

lemma set_attributes_spec:
  assumes "(case setModes env dst st f of (False, g) \<Rightarrow> (False, g) | (True, g) \<Rightarrow> Unify_setTime env dst st g) = (ok, f')"
    and m: "made fs dst n f" "same_object nd n" and d: "describes st fs i nd"
  shows "\<exists>n'. made fs dst n' f' \<and> (ok \<longrightarrow> is_copy nd n')"
proof -
  let ?own = "\<lambda>nd. nd\<lparr>i_uid := st_uid st, i_gid := st_gid st\<rparr>" and ?mode = "\<lambda>nd. nd\<lparr>i_perm := st_perm st\<rparr>"
    and ?time = "\<lambda>nd. nd\<lparr>i_atime := st_atime st, i_mtime := st_mtime st\<rparr>"
  obtain ok1 f1 where 1: "sys_attr env (c_lchown dst) dst ?own f = (ok1, f1)" by force
  obtain ok2 f2 where 2: "sys_attr env (c_chmod dst) dst ?mode f1 = (ok2, f2)" by force
  obtain ok3 f3 where 3: "sys_attr env (c_utime dst) dst ?time f2 = (ok3, f3)" by force
  have "(ok, f') = (if \<not> ok1 then (False, f1) else if st_type st = S_LNK then (True, f1)
      else if \<not> ok2 then (False, f2) else (ok3, f3))"
    using assms(1) 1 2 3 by (cases ok1; cases ok2) (auto simp: setModes_def Unify_setTime_def split: if_splits)
  moreover have "if ok1 then made fs dst (?own n) f1 else f1 = f" by (rule made_attr [OF m(1) 1])
  moreover have "if ok2 then made fs dst (?mode (?own n)) f2 else f2 = f1" if "made fs dst (?own n) f1"
    by (rule made_attr [OF that 2])
  moreover have "if ok3 then made fs dst (?time (?mode (?own n))) f3 else f3 = f2" if "made fs dst (?mode (?own n)) f2"
    by (rule made_attr [OF that 3])
  moreover have "same_object nd (?own n)" "same_object nd (?time (?mode (?own n)))"
    using m(2) by (simp_all add: same_object_def)
  ultimately show ?thesis
    using m d by (auto simp: is_copy_def describes_def split: if_splits)
qed

lemma Unify_copy_facts:
  assumes "Unify_copy env src st dst fs = (ok, fs')" "wf_fs fs"
    and "names fs src = Some i" "inodes fs i = Some nd" "describes st fs i nd"
  shows "keeps {} fs fs' \<and> (names fs dst \<noteq> None \<longrightarrow> fs' = fs) \<and>
    (ok \<and> i_type nd \<noteq> S_SOCK \<longrightarrow> (\<exists>nd'. made fs dst nd' fs' \<and> is_copy nd nd'))"
proof -
  have d: "st_type st = i_type nd" using assms(5) by (simp add: describes_def)
  obtain ok1 f1 where 1: "copy_object env src st dst fs = (ok1, f1)" by force
  note s1 = copy_object_spec [OF 1 assms(3-5)]
  show ?thesis
  proof (cases "i_type nd = S_SOCK \<or> \<not> ok1")
    case True
    then have "fs' = fs \<and> (ok \<longrightarrow> i_type nd = S_SOCK) \<or> fs' = f1 \<and> \<not> ok"
      using assms(1) 1 d by (cases "i_type nd = S_SOCK") (auto simp: Unify_copy_def)
    then show ?thesis using s1 made_keeps [OF _ assms(2)] by (auto simp: made_def)
  next
    case False
    then obtain n1 where m1: "made fs dst n1 f1" "same_object nd n1" using s1 by auto
    have r: "(case setModes env dst st f1 of (False, f2) \<Rightarrow> (False, f2) | (True, f2) \<Rightarrow> Unify_setTime env dst st f2) = (ok, fs')"
      using assms(1) 1 d False by (simp add: Unify_copy_def)
    obtain n' where "made fs dst n' fs'" "ok \<longrightarrow> is_copy nd n'"
      using set_attributes_spec [OF r m1 assms(5)] by blast
    then show ?thesis using made_keeps [OF _ assms(2)] by (auto simp: made_def)
  qed
qed

lemma wf_create: "wf_fs f \<Longrightarrow> wf_fs (snd (sys_create env c n nd f))"
  by (simp add: sys_create_def wf_new_file)

lemma wf_copyMMap: "wf_fs f \<Longrightarrow> wf_fs (snd (copyMMap env inp out f))"
  by (simp add: copyMMap_def split_beta wf_upd_inode)

lemma wf_copyReg: "wf_fs f \<Longrightarrow> wf_fs (snd (copyReg env src st dst f))"
proof -
  assume f: "wf_fs f"
  obtain ok1 f1 where 1: "sys_create env (c_creat dst) dst (fresh_inode env S_REG 0x80) f = (ok1, f1)" by force
  have f1: "wf_fs f1" using wf_create [OF f, of env "c_creat dst" dst "fresh_inode env S_REG 0x80"] 1 by simp
  show ?thesis using f f1 1
    by (cases ok1) (auto simp: copyReg_def wf_copyMMap split_beta split: option.splits)
qed

lemma wf_copy_object: "wf_fs f \<Longrightarrow> wf_fs (snd (copy_object env src st dst f))"
  by (auto simp: copy_object_def copyLnk_def copyDir_def copyNode_def wf_create wf_copyReg split: ftype.splits option.splits)

lemma wf_setModes: "wf_fs f \<Longrightarrow> wf_fs (snd (setModes env dst st f))"
proof -
  assume f: "wf_fs f"
  obtain ok1 f1 where 1: "sys_attr env (c_lchown dst) dst (\<lambda>nd. nd\<lparr>i_uid := st_uid st, i_gid := st_gid st\<rparr>) f = (ok1, f1)" by force
  have "wf_fs f1" using wf_attr [OF f] 1 by (metis snd_conv)
  then show ?thesis using 1 by (cases ok1) (simp_all add: setModes_def wf_attr)
qed

lemma wf_Unify_copy: "wf_fs f \<Longrightarrow> wf_fs (snd (Unify_copy env src st dst f))"
proof -
  assume f: "wf_fs f"
  obtain ok1 f1 where 1: "copy_object env src st dst f = (ok1, f1)" by force
  have f1: "wf_fs f1" using wf_copy_object [OF f] 1 by (metis snd_conv)
  obtain ok2 f2 where 2: "setModes env dst st f1 = (ok2, f2)" by force
  have f2: "wf_fs f2" using wf_setModes [OF f1] 2 by (metis snd_conv)
  show ?thesis using f f1 f2 1 2
    by (cases ok1; cases ok2) (simp_all add: Unify_copy_def Unify_setTime_def wf_attr)
qed


definition sample_stat :: stat where
  "sample_stat = \<lparr>st_dev = 0, st_ino = 1, st_type = S_REG, st_perm = 0x1a4, st_uid = 5, st_gid = 6, st_rdev = 0,
     st_size = 2, st_atime = 7, st_mtime = 8, st_nlink = 1\<rparr>"


end
