(* ===== verification/MatchList.thy ===== *)
theory MatchList
  imports Prelude
begin

text \<open>
  Paths (\<^verbatim>\<open>lib_internal/pathinfo-append.c\<close>, \<^verbatim>\<open>util-dotfile.h\<close>, \<^verbatim>\<open>util-canonify.c\<close>) and the lists of
  included, excluded and skipped files that steer unification (\<^verbatim>\<open>lib_internal/matchlist-*.c\<close>). The
  matching function \<^verbatim>\<open>fnmatch\<close>, the contents of files and the answers of the configuration are
  parameters.
\<close>

section \<open>Paths\<close>

definition isDotfile :: "cstr \<Rightarrow> bool" where
  "isDotfile d \<longleftrightarrow>
     deref d = CHR ''.'' \<and>
     (deref (drop 1 d) = NUL \<or> deref (drop 1 d) = CHR ''.'' \<and> deref (drop 2 d) = NUL)"

text \<open>\<^verbatim>\<open>while (lhs->l>1 && lhs->d[lhs->l-1]=='/') --lhs->l;\<close>\<close>

function strip_slashes :: "cstr \<Rightarrow> cstr" where
  "strip_slashes s = (if length s > 1 \<and> last s = CHR ''/'' then strip_slashes (butlast s) else s)"
  by pat_completeness auto
termination
  by (relation "measure length") auto

declare strip_slashes.simps [simp del]

text \<open>The path of \<^verbatim>\<open>lhs\<close> after the call; the lengths in a \<^verbatim>\<open>PathInfo\<close> are those of its strings.\<close>

definition PathInfo_append :: "cstr \<Rightarrow> cstr \<Rightarrow> cstr" where
  "PathInfo_append lhs rhs =
     (let l = strip_slashes lhs
      in if length l > 0
         then l @ (if last l \<noteq> CHR ''/'' then ''/'' else []) @ dropWhile (\<lambda>c. c = CHR ''/'') rhs
         else rhs)"

definition ENSC_PI_APPSZ :: "cstr \<Rightarrow> cstr \<Rightarrow> nat" where
  "ENSC_PI_APPSZ p1 p2 = length p1 + 2 + length p2"

definition canonifyVserverName :: "cstr \<Rightarrow> cstr \<times> nat" where
  "canonifyVserverName name =
     (let out = filter (\<lambda>c. islower c \<or> isupper c \<or> isdigit c) name in (out, length out))"

section \<open>Match lists\<close>

datatype MatchType = stINCLUDE | stEXCLUDE | stSKIP

text \<open>\<open>item_cmp\<close> tells whether the item's comparison function is set; it is then \<^verbatim>\<open>fnmatchWrap\<close>.\<close>

record MatchItem =
  item_type :: MatchType
  item_name :: cstr
  item_cmp :: bool

text \<open>An item that was allocated but not filled yet is \<open>None\<close>.\<close>

record MatchList =
  skip_depth :: nat
  ml_root :: cstr
  ml_id :: cstr
  ml_data :: "MatchItem option list"

record MatchVserverInfo =
  mv_name :: cstr
  mv_vdir :: cstr
  mv_appdir :: cstr
  mv_use_pkgmgmt :: bool

definition MatchList_init :: "cstr \<Rightarrow> nat \<Rightarrow> MatchList" where
  "MatchList_init root count = \<lparr>skip_depth = 0, ml_root = root, ml_id = [], ml_data = replicate count None\<rparr>"

definition auto_item :: "cstr \<Rightarrow> MatchItem" where
  "auto_item file =
     (if deref file = CHR ''+'' then \<lparr>item_type = stINCLUDE, item_name = tl file, item_cmp = True\<rparr>
      else if deref file = CHR ''~'' then \<lparr>item_type = stSKIP, item_name = tl file, item_cmp = True\<rparr>
      else if deref file = CHR ''-'' then \<lparr>item_type = stEXCLUDE, item_name = tl file, item_cmp = True\<rparr>
      else \<lparr>item_type = stEXCLUDE, item_name = file, item_cmp = True\<rparr>)"

definition fixed_item :: "cstr \<Rightarrow> MatchItem" where
  "fixed_item file = \<lparr>item_type = stEXCLUDE, item_name = file, item_cmp = False\<rparr>"

fun append_loop :: "(cstr \<Rightarrow> MatchItem) \<Rightarrow> nat \<Rightarrow> cstr list \<Rightarrow> MatchItem option list \<Rightarrow> MatchItem option list" where
  "append_loop f idx [] dat = dat"
| "append_loop f idx (file # files) dat = append_loop f (idx + 1) files (dat[idx := Some (f file)])"

text \<open>\<open>None\<close> is the failing assertion that the items fit.\<close>

definition MatchList_appendFiles :: "MatchList \<Rightarrow> nat \<Rightarrow> cstr list \<Rightarrow> bool \<Rightarrow> MatchList option" where
  "MatchList_appendFiles lst idx files auto_type =
     (if idx + length files \<le> length (ml_data lst)
      then Some (lst\<lparr>ml_data := append_loop (if auto_type then auto_item else fixed_item) idx files (ml_data lst)\<rparr>)
      else None)"

text \<open>\<open>fnmatch p s\<close> is the result of \<^verbatim>\<open>fnmatch(p, s, 0)\<close>, zero for a match.\<close>

definition item_matches :: "(cstr \<Rightarrow> cstr \<Rightarrow> int) \<Rightarrow> cstr \<Rightarrow> MatchItem option \<Rightarrow> bool" where
  "item_matches fnmatch path it =
     (case it of
        None \<Rightarrow> False
      | Some i \<Rightarrow> if item_cmp i then fnmatch (item_name i) path = 0 else strcmp (item_name i) path = 0)"

fun compare_loop :: "(cstr \<Rightarrow> cstr \<Rightarrow> int) \<Rightarrow> cstr \<Rightarrow> MatchItem option list \<Rightarrow> MatchType option" where
  "compare_loop fnmatch path [] = None"
| "compare_loop fnmatch path (it # its) =
     (if item_matches fnmatch path it then map_option item_type it else compare_loop fnmatch path its)"

definition MatchList_compare :: "(cstr \<Rightarrow> cstr \<Rightarrow> int) \<Rightarrow> MatchList \<Rightarrow> cstr \<Rightarrow> MatchType" where
  "MatchList_compare fnmatch lst path =
     (case compare_loop fnmatch path (ml_data lst) of
        Some t \<Rightarrow> t
      | None \<Rightarrow> if skip_depth lst > 0 then stEXCLUDE else stINCLUDE)"

section \<open>Reading the lists\<close>

text \<open>
  The end of a line without its trailing blanks: \<^verbatim>\<open>do { *tmp-- = 0; } while (tmp>ptr && *tmp==' ');\<close> with
  \<open>k\<close> the offset of \<^verbatim>\<open>tmp\<close> from the start of the line after the first round.
\<close>

fun trim_end :: "cstr \<Rightarrow> nat \<Rightarrow> nat" where
  "trim_end line 0 = 0"
| "trim_end line (Suc k) = (if line ! Suc k = CHR '' '' then trim_end line k else Suc k)"

definition line_entry :: "cstr \<Rightarrow> cstr option" where
  "line_entry line =
     (if line = [] \<or> hd line = CHR ''#'' then None
      else (let tmp = trim_end line (length line - 1) in if tmp > 0 then Some (take (tmp + 1) line) else None))"

text \<open>The loop over the lines; a last line without a newline is not read.\<close>

function exclude_loop :: "cstr \<Rightarrow> cstr list" where
  "exclude_loop ptr =
     (if ptr = [] then []
      else case strchr ptr NL of
             None \<Rightarrow> []
           | Some n \<Rightarrow>
               (case line_entry (take n ptr) of None \<Rightarrow> [] | Some f \<Rightarrow> [f]) @ exclude_loop (drop (n + 1) ptr))"
  by pat_completeness auto
termination
  by (relation "measure length") (auto simp: strchr_Some)

declare exclude_loop.simps [simp del]

text \<open>\<open>content\<close> is what the file has up to its first null byte; \<open>None\<close> is a file that cannot be opened.\<close>

definition readExcludeList :: "cstr option \<Rightarrow> cstr list" where
  "readExcludeList content = (case content of None \<Rightarrow> [] | Some c \<Rightarrow> exclude_loop c)"

text \<open>
  \<open>conffiles\<close> is the output of the package management (\<open>None\<close> when it fails, which ends the program),
  \<open>file\<close> the content of a file. A list of a directory has no \<^verbatim>\<open>vserver\<close>.
\<close>

definition MatchList_initManually ::
  "(cstr \<Rightarrow> cstr option) \<Rightarrow> (cstr \<Rightarrow> cstr option) \<Rightarrow> bool \<Rightarrow> MatchVserverInfo option \<Rightarrow> cstr \<Rightarrow> cstr \<Rightarrow> MatchList option" where
  "MatchList_initManually conffiles file do_renew vserver vdir exclude_file =
     (let root = (case vserver of Some v \<Rightarrow> mv_vdir v | None \<Rightarrow> vdir);
          fixed = (case vserver of
                     None \<Rightarrow> Some []
                   | Some v \<Rightarrow> if mv_use_pkgmgmt v \<and> do_renew then map_option exclude_loop (conffiles (mv_name v)) else Some []);
          expr = (if exclude_file \<noteq> [] then readExcludeList (file exclude_file) else [])
      in case fixed of
           None \<Rightarrow> None
         | Some fs \<Rightarrow>
             Option.bind (MatchList_appendFiles (MatchList_init root (length fs + length expr)) 0 fs False)
               (\<lambda>l. MatchList_appendFiles l (length fs) expr True))"

text \<open>\<open>readable\<close> is \<^verbatim>\<open>access(path, R_OK)\<close>; the last file is taken without a test.\<close>

definition MatchList_initByVserver ::
  "(cstr \<Rightarrow> bool) \<Rightarrow> (cstr \<Rightarrow> cstr option) \<Rightarrow> (cstr \<Rightarrow> cstr option) \<Rightarrow> bool \<Rightarrow> cstr \<Rightarrow> cstr \<Rightarrow> MatchVserverInfo \<Rightarrow> MatchList option" where
  "MatchList_initByVserver readable conffiles file do_renew confdir pkgdatadir vserver =
     (let e0 = mv_appdir vserver @ ''/exclude'';
          e1 = (if readable e0 then e0 else confdir @ ''/.defaults/apps/vunify/exclude'');
          e2 = (if readable e1 then e1 else pkgdatadir @ ''/defaults/vunify-exclude'')
      in MatchList_initManually conffiles file do_renew (Some vserver) [] e2)"

text \<open>\<open>vdir\<close> and \<open>appdir\<close> are the answers of the configuration for the name.\<close>

definition MatchVserverInfo_init ::
  "(cstr \<Rightarrow> cstr option) \<Rightarrow> (cstr \<Rightarrow> cstr option) \<Rightarrow> (cstr \<Rightarrow> bool) \<Rightarrow> cstr \<Rightarrow> cstr \<Rightarrow> bool \<Rightarrow> MatchVserverInfo option" where
  "MatchVserverInfo_init vdir appdir readable confdir name use_pkgmgmt =
     (case (vdir name, appdir name) of
        (Some v, Some a) \<Rightarrow>
          Some \<lparr>mv_name = name, mv_vdir = v, mv_appdir = a,
            mv_use_pkgmgmt =
              (if readable (a @ ''/pkgmgmt-ignore'') then False
               else if readable (a @ ''/pkgmgmt-force'') then True
               else if readable (confdir @ ''/.defaults/apps/vunify/pkgmgmt-ignore'') then False
               else if readable (confdir @ ''/.defaults/apps/vunify/pkgmgmt-force'') then True
               else use_pkgmgmt)\<rparr>
      | _ \<Rightarrow> None)"

definition selectRefserver :: "cstr \<Rightarrow> bool" where
  "selectRefserver name \<longleftrightarrow> strncmp 10 name ''refserver.'' = 0"

fun init_refs :: "(cstr \<Rightarrow> MatchList option) \<Rightarrow> cstr list \<Rightarrow> MatchList list option" where
  "init_refs f [] = Some []"
| "init_refs f (n # ns) =
     (case f (''./'' @ n) of None \<Rightarrow> None | Some l \<Rightarrow> map_option (Cons l) (init_refs f ns))"

text \<open>\<open>entries\<close> are the names of the directory in the order of \<^verbatim>\<open>alphasort\<close>; \<open>None\<close> ends the program.\<close>

definition MatchList_initRefserverList ::
  "(cstr \<Rightarrow> MatchVserverInfo option) \<Rightarrow> (MatchVserverInfo \<Rightarrow> MatchList option) \<Rightarrow> cstr list \<Rightarrow> MatchList list option" where
  "MatchList_initRefserverList info init entries =
     (let sel = filter selectRefserver entries
      in if sel = [] then None else init_refs (\<lambda>vname. Option.bind (info vname) init) sel)"

text \<open>The strings written, each with its descriptor.\<close>

definition MatchList_printId :: "MatchList \<Rightarrow> nat \<Rightarrow> (nat \<times> cstr) list" where
  "MatchList_printId l fd =
     (if ml_id l \<noteq> [] then [(fd, [CHR 0x27]), (fd, ml_id l), (1, [CHR 0x27])]
      else if ml_root l \<noteq> [] then [(fd, ml_root l)]
      else [(fd, ''???'')])"

section \<open>Facts about paths\<close>

lemma strip_slashes_length: "length (strip_slashes s) \<le> length s"
proof (induction s rule: strip_slashes.induct)
  case (1 s)
  then show ?case
    by (cases "1 < length s \<and> last s = CHR ''/''"; subst strip_slashes.simps; auto)
qed

lemma strip_slashes_end: "strip_slashes s = [] \<or> length (strip_slashes s) = 1 \<or> last (strip_slashes s) \<noteq> CHR ''/''"
proof (induction s rule: strip_slashes.induct)
  case (1 s)
  show ?case
  proof (cases "1 < length s \<and> last s = CHR ''/''")
    case True
    then have "strip_slashes s = strip_slashes (butlast s)" by (subst strip_slashes.simps) simp
    then show ?thesis using 1 True by metis
  next
    case False
    then have "strip_slashes s = s" by (subst strip_slashes.simps) auto
    then show ?thesis using False by (cases s) (auto simp: Suc_lessI)
  qed
qed

lemma strip_slashes_keep: "s = [] \<or> length s = 1 \<or> last s \<noteq> CHR ''/'' \<Longrightarrow> strip_slashes s = s"
  by (subst strip_slashes.simps) auto

lemma PathInfo_append_fits: "length (PathInfo_append lhs rhs) + 1 \<le> ENSC_PI_APPSZ lhs rhs"
proof -
  have "length (dropWhile (\<lambda>c. c = CHR ''/'') rhs) \<le> length rhs" by (rule length_dropWhile_le)
  then show ?thesis using strip_slashes_length [of lhs] by (auto simp: PathInfo_append_def ENSC_PI_APPSZ_def Let_def)
qed

section \<open>Facts about the lists\<close>

lemma length_append_loop [simp]: "length (append_loop f idx files dat) = length dat"
  by (induction f idx files dat rule: append_loop.induct) auto

lemma append_loop_spec:
  "idx + length files \<le> length dat \<Longrightarrow>
   append_loop f idx files dat = take idx dat @ map (Some \<circ> f) files @ drop (idx + length files) dat"
proof (induction f idx files dat rule: append_loop.induct)
  case (2 f idx x xs dat)
  then have "append_loop f (idx + 1) xs (dat[idx := Some (f x)]) =
    take (idx + 1) (dat[idx := Some (f x)]) @ map (Some \<circ> f) xs @ drop (idx + 1 + length xs) (dat[idx := Some (f x)])"
    by simp
  also have "take (idx + 1) (dat[idx := Some (f x)]) = take idx dat @ [Some (f x)]"
    using 2(2) by (simp add: take_Suc_conv_app_nth)
  finally show ?case by (simp add: drop_update_cancel)
qed simp

text \<open>The configuration files and the patterns a list is made of.\<close>

definition fixed_files :: "(cstr \<Rightarrow> cstr option) \<Rightarrow> bool \<Rightarrow> MatchVserverInfo option \<Rightarrow> cstr list" where
  "fixed_files conffiles do_renew vserver =
     (case vserver of
        Some v \<Rightarrow> if mv_use_pkgmgmt v \<and> do_renew then readExcludeList (conffiles (mv_name v)) else []
      | None \<Rightarrow> [])"

definition expr_files :: "(cstr \<Rightarrow> cstr option) \<Rightarrow> cstr \<Rightarrow> cstr list" where
  "expr_files file exclude_file = (if exclude_file \<noteq> [] then readExcludeList (file exclude_file) else [])"

lemma initManually_data:
  assumes "MatchList_initManually conffiles file do_renew vserver vdir exclude_file = Some l"
  shows "ml_data l = map Some (map fixed_item (fixed_files conffiles do_renew vserver) @ map auto_item (expr_files file exclude_file)) \<and>
    skip_depth l = 0"
proof -
  obtain root where "Option.bind (MatchList_appendFiles (MatchList_init root
      (length (fixed_files conffiles do_renew vserver) + length (expr_files file exclude_file))) 0 (fixed_files conffiles do_renew vserver) False)
    (\<lambda>l. MatchList_appendFiles l (length (fixed_files conffiles do_renew vserver)) (expr_files file exclude_file) True) = Some l"
    using assms unfolding MatchList_initManually_def expr_files_def [symmetric] Let_def
    by (auto simp: fixed_files_def readExcludeList_def split: option.splits if_splits)
  then show ?thesis
    by (auto simp: MatchList_appendFiles_def MatchList_init_def append_loop_spec split: if_splits)
qed

text \<open>The first match decides.\<close>

lemma compare_loop_first:
  "compare_loop fnmatch path (map Some its) =
   map_option item_type (List.find (\<lambda>i. item_matches fnmatch path (Some i)) its)"
  by (induction its) auto

section \<open>Properties\<close>

definition unlines :: "cstr list \<Rightarrow> cstr" where
  "unlines ls = concat (map (\<lambda>l. l @ [NL]) ls)"

lemma exclude_loop_step: "NL \<notin> set l \<Longrightarrow> exclude_loop (l @ NL # r) = (case line_entry l of None \<Rightarrow> [] | Some f \<Rightarrow> [f]) @ exclude_loop r"
  by (subst exclude_loop.simps) simp

lemma exclude_loop_lines:
  "NL \<notin> set rest \<Longrightarrow> \<forall>l \<in> set ls. NL \<notin> set l \<Longrightarrow> exclude_loop (unlines ls @ rest) = List.map_filter line_entry ls"
proof (induction ls)
  case Nil
  then have "strchr rest NL = None" using strchr_None [of rest NL] by simp
  then show ?case by (subst exclude_loop.simps) (simp add: unlines_def List.map_filter_def)
next
  case (Cons l ls)
  then have "exclude_loop (l @ NL # (unlines ls @ rest)) =
    (case line_entry l of None \<Rightarrow> [] | Some f \<Rightarrow> [f]) @ List.map_filter line_entry ls"
    by (simp add: exclude_loop_step)
  then show ?case by (simp add: unlines_def List.map_filter_def split: option.splits)
qed

lemma trim_end_blanks:
  "length p \<ge> 1 \<Longrightarrow> trim_end (p @ replicate k CHR '' '') (length p + k - 1) = trim_end p (length p - 1)"
proof (induction k)
  case 0
  then show ?case by simp
next
  case (Suc k)
  have c: "trim_end (p @ replicate (Suc k) CHR '' '') n = trim_end (p @ replicate k CHR '' '') n" if "n < length p + k" for n
    using that by (induction n) (auto simp: nth_append replicate_append_same [symmetric])
  obtain m where m: "length p + k = Suc m" using Suc.prems by (cases "length p + k") auto
  have "(p @ replicate (Suc k) CHR '' '') ! Suc m = CHR '' ''"
    using m by (simp add: nth_append nth_Cons')
  then have "trim_end (p @ replicate (Suc k) CHR '' '') (Suc m) = trim_end (p @ replicate (Suc k) CHR '' '') m"
    by (simp del: replicate.replicate_Suc)
  then show ?case using m c [of m] Suc by simp
qed

lemma line_entry_pattern:
  assumes "length p \<ge> 2" "hd p \<noteq> CHR ''#''" "last p \<noteq> CHR '' ''"
  shows "line_entry (p @ replicate k CHR '' '') = Some p"
proof -
  obtain m where m: "length p = Suc (Suc m)" using assms(1) by (metis One_nat_def Suc_1 add_2_eq_Suc le_Suc_ex)
  have "p \<noteq> []" using assms(1) by auto
  then have "p ! Suc m \<noteq> CHR '' ''" using assms(3) m by (simp add: last_conv_nth)
  then have "trim_end p (Suc m) = Suc m" by simp
  then show ?thesis
    using trim_end_blanks [of p k] assms m \<open>p \<noteq> []\<close> by (simp add: line_entry_def Let_def)
qed

text \<open>
  An exclude file is read line by line: of a file whose lines are patterns of at least two
  characters with blanks behind them, or comments, exactly the patterns are returned in their order;
  what follows the last newline is not read.\<close>

lemma exclude_file_patterns:
  assumes "\<forall>l \<in> set ls. NL \<notin> set l \<and> (hd l = CHR ''#'' \<or> length (pat l) \<ge> 2 \<and> hd l \<noteq> CHR ''#'' \<and>
      last (pat l) \<noteq> CHR '' '' \<and> (\<exists>k. l = pat l @ replicate k CHR '' ''))"
    and "NL \<notin> set rest"
  shows "readExcludeList (Some (unlines ls @ rest)) = map pat (filter (\<lambda>l. hd l \<noteq> CHR ''#'') ls)"
proof -
  have "readExcludeList (Some (unlines ls @ rest)) = List.map_filter line_entry ls"
    using assms by (simp add: readExcludeList_def exclude_loop_lines)
  also have "\<dots> = map pat (filter (\<lambda>l. hd l \<noteq> CHR ''#'') ls)"
    using assms(1)
  proof (induction ls)
    case (Cons l ls)
    show ?case
    proof (cases "hd l = CHR ''#''")
      case True
      then show ?thesis using Cons by (simp add: List.map_filter_def line_entry_def)
    next
      case False
      then have "line_entry l = Some (pat l)"
      proof -
        obtain k where k: "l = pat l @ replicate k CHR '' ''" "length (pat l) \<ge> 2" "last (pat l) \<noteq> CHR '' ''"
          using Cons.prems False by auto
        then have "hd (pat l) = hd l" by (metis hd_append2 list.size(3) not_numeral_le_zero)
        then show ?thesis using line_entry_pattern [of "pat l" k] k False by metis
      qed
      then show ?thesis using Cons False by (simp add: List.map_filter_def)
    qed
  qed (simp add: List.map_filter_def)
  finally show ?thesis .
qed

lemma exclude_file_patterns_example:
  "readExcludeList (Some (unlines [''# list'', ''/etc/*  '', ''+/usr''] @ ''/tail'')) = [''/etc/*'', ''+/usr'']"
proof -
  let ?pat = "\<lambda>l. if l = ''/etc/*  '' then ''/etc/*'' else (l :: cstr)"
  have "''/etc/*  '' = ''/etc/*'' @ replicate 2 CHR '' ''" "''+/usr'' = ''+/usr'' @ replicate 0 CHR '' ''"
    by (simp_all add: numeral_2_eq_2)
  then show ?thesis
    using exclude_file_patterns [of "[''# list'', ''/etc/*  '', ''+/usr'']" ?pat "''/tail''"]
    by fastforce
qed

text \<open>A pattern of a single character is never read.\<close>

lemma line_entry_single: "line_entry (c # replicate k CHR '' '') = None"
  using trim_end_blanks [of "[c]" k] by (simp add: line_entry_def Let_def)

text \<open>
  The decision of a list: the configuration files that the package management names are
  excluded, then the first pattern of the exclude file that matches decides, and everything else is
  included, as long as no missing directory is being skipped.\<close>

lemma MatchList_decision:
  assumes "MatchList_initManually conffiles file do_renew vserver vdir exclude_file = Some l"
  shows "MatchList_compare fnmatch l path =
    (if \<exists>f \<in> set (fixed_files conffiles do_renew vserver). strcmp f path = 0 then stEXCLUDE
     else case List.find (\<lambda>i. fnmatch (item_name i) path = 0) (map auto_item (expr_files file exclude_file)) of
            Some i \<Rightarrow> item_type i
          | None \<Rightarrow> stINCLUDE)"
proof -
  define fixed expr where "fixed = fixed_files conffiles do_renew vserver" and "expr = expr_files file exclude_file"
  have d: "ml_data l = map Some (map fixed_item fixed @ map auto_item expr)" "skip_depth l = 0"
    using initManually_data [OF assms] by (simp_all add: fixed_def expr_def)
  have a: "List.find (\<lambda>i. item_matches fnmatch path (Some i)) (map auto_item expr) =
      List.find (\<lambda>i. fnmatch (item_name i) path = 0) (map auto_item expr)"
    by (rule find_cong) (auto simp: item_matches_def auto_item_def)
  have x: "List.find (\<lambda>i. item_matches fnmatch path (Some i)) (map fixed_item fs @ r) =
      (if \<exists>f \<in> set fs. strcmp f path = 0 then map_option fixed_item (List.find (\<lambda>f. strcmp f path = 0) fs)
       else List.find (\<lambda>i. item_matches fnmatch path (Some i)) r)" for fs r
    by (induction fs) (auto simp: item_matches_def fixed_item_def [abs_def] cong: map_option_cong)
  have t: "map_option item_type (map_option fixed_item (List.find (\<lambda>f. strcmp f path = 0) fixed)) = Some stEXCLUDE"
    if "\<exists>f \<in> set fixed. strcmp f path = 0"
    using that by (cases "List.find (\<lambda>f. strcmp f path = 0) fixed") (auto simp: fixed_item_def find_None_iff)
  show ?thesis
    unfolding MatchList_compare_def d compare_loop_first x a fixed_def [symmetric] expr_def [symmetric]
    using t by (cases "\<exists>f \<in> set fixed. strcmp f path = 0") (auto split: option.splits)
qed

definition sample_excludes :: cstr where
  "sample_excludes = unlines [''+/usr/lib'', ''~/dev/*'', ''/etc/*'']"

lemma MatchList_decision_example:
  "map_option (\<lambda>l. MatchList_compare (\<lambda>p s. if p = ''/etc/*'' then 0 else 1) l ''/etc/passwd'')
     (MatchList_initManually (\<lambda>_. None) (\<lambda>_. Some sample_excludes) True None ''/vdir'' ''excl'') = Some stEXCLUDE"
proof -
  let ?m = "MatchList_initManually (\<lambda>_. None) (\<lambda>_. Some sample_excludes) True None ''/vdir'' ''excl''"
  have "?m \<noteq> None" by code_simp
  then obtain l where l: "?m = Some l" by blast
  have "readExcludeList (Some sample_excludes) = [''+/usr/lib'', ''~/dev/*'', ''/etc/*'']" by code_simp
  then show ?thesis
    using MatchList_decision [OF l, of "\<lambda>p s. if p = ''/etc/*'' then 0 else 1" "''/etc/passwd''"] l
    by (simp add: auto_item_def fixed_files_def expr_files_def)
qed

end
