(* ===== verification/Vunify.thy ===== *)
theory Vunify
  imports UnifyCopy MatchList
begin

text \<open>
  The programs \<^verbatim>\<open>vunify\<close> and \<^verbatim>\<open>vcopy\<close>: which files of a vserver are linked to which reference server,
  and the walk through the directories that does it. The answers of \<^verbatim>\<open>lstat\<close>, the directory entries and
  the matching function are parameters; the operations on files are those of the theories \<open>Unify\<close>
  and \<open>UnifyCopy\<close>. Paths are those inside the vserver; where the program uses a name relative to its
  current directory, the model uses the full path. Messages are left out.
\<close>

section \<open>vunify\<close>

datatype skip_reason =
    rsDOTFILE | rsEXCL_DST | rsEXCL_SRC | rsFSTAT | rsNOEXISTS | rsSYMLINK | rsUNIFIED | rsSPECIAL | rsDIFFERENT

record world =
  w_fnmatch :: "cstr \<Rightarrow> cstr \<Rightarrow> int"
  w_lstat :: "cstr \<Rightarrow> stat option"
  w_here :: "fs \<Rightarrow> cstr \<Rightarrow> stat option"
  w_readdir :: "cstr \<Rightarrow> cstr list"
  w_chdir :: "cstr \<Rightarrow> bool"
  w_env :: env

record vunify_args =
  do_revert :: bool
  do_dry_run :: bool

text \<open>
  \<^verbatim>\<open>checkFstat\<close> on the file \<open>path\<close> of the vserver and of the reference server; the result has the reason
  it leaves behind and what was found out about both files.
\<close>

definition checkFstat ::
  "world \<Rightarrow> vunify_args \<Rightarrow> fs \<Rightarrow> MatchList \<Rightarrow> cstr \<Rightarrow> bool \<times> skip_reason \<times> (stat \<times> stat) option" where
  "checkFstat w args fs mlist path =
     (case w_here w fs path of
        None \<Rightarrow> (False, rsFSTAT, None)
      | Some dst \<Rightarrow>
          (case w_lstat w (PathInfo_append (ml_root mlist) path) of
             None \<Rightarrow> (False, rsNOEXISTS, None)
           | Some src \<Rightarrow>
               if st_type dst = S_DIR \<and> st_type src = S_DIR then (True, rsNOEXISTS, Some (dst, src))
               else if \<not> do_revert args \<and> \<not> Unify_isUnifyable False dst src \<or>
                       do_revert args \<and> \<not> Unify_isUnified dst src
               then (False, rsDIFFERENT, Some (dst, src))
               else (True, rsDIFFERENT, Some (dst, src))))"

text \<open>The loop over the reference servers; the result is a server's index with both files, or the reason.\<close>

fun check_lists ::
  "world \<Rightarrow> vunify_args \<Rightarrow> fs \<Rightarrow> cstr \<Rightarrow> nat \<Rightarrow> MatchList list \<Rightarrow> skip_reason \<Rightarrow> skip_reason + (nat \<times> stat \<times> stat)" where
  "check_lists w args fs path n [] r = Inl r"
| "check_lists w args fs path n (m # ms) r =
     (if MatchList_compare (w_fnmatch w) m path = stINCLUDE
      then (case checkFstat w args fs m path of
              (True, _, Some (dst, src)) \<Rightarrow>
                if st_type dst = S_LNK then Inl rsSYMLINK
                else if st_type dst \<noteq> S_REG \<and> st_type dst \<noteq> S_DIR then Inl rsSPECIAL
                else Inr (n, dst, src)
            | (_, r', Some (dst, src)) \<Rightarrow>
                if \<not> do_revert args \<and> r' = rsDIFFERENT \<and> Unify_isUnified dst src then Inl rsUNIFIED
                else check_lists w args fs path (n + 1) ms r'
            | (_, r', None) \<Rightarrow> check_lists w args fs path (n + 1) ms r')
      else check_lists w args fs path (n + 1) ms rsEXCL_SRC)"

definition checkDirEntry ::
  "world \<Rightarrow> vunify_args \<Rightarrow> MatchList \<Rightarrow> MatchList list \<Rightarrow> fs \<Rightarrow> cstr \<Rightarrow> skip_reason + (nat \<times> stat \<times> stat)" where
  "checkDirEntry w args dst_list mls fs path =
     (if MatchList_compare (w_fnmatch w) dst_list path \<noteq> stINCLUDE then Inl rsEXCL_DST
      else check_lists w args fs path 0 mls rsEXCL_DST)"

definition update_one :: "world \<Rightarrow> cstr \<Rightarrow> bool \<Rightarrow> MatchList \<Rightarrow> bool \<times> MatchList" where
  "update_one w path walk_down m =
     (if skip_depth m > 0
      then (False, m\<lparr>skip_depth := if walk_down then skip_depth m + 1 else skip_depth m - 1\<rparr>)
      else if walk_down
      then (case w_lstat w (PathInfo_append (ml_root m) path) of
              Some _ \<Rightarrow> (True, m)
            | None \<Rightarrow> (False, m\<lparr>skip_depth := skip_depth m + 1\<rparr>))
      else (False, m))"

definition updateSkipDepth :: "world \<Rightarrow> cstr \<Rightarrow> bool \<Rightarrow> MatchList list \<Rightarrow> bool \<times> MatchList list" where
  "updateSkipDepth w path walk_down mls =
     (let rs = map (update_one w path walk_down) mls in (list_ex fst rs, map snd rs))"

text \<open>\<^verbatim>\<open>doit\<close>: \<open>None\<close> is the exit of the program inside the operation.\<close>

definition vunify_doit :: "world \<Rightarrow> vunify_args \<Rightarrow> cstr \<Rightarrow> cstr \<Rightarrow> cstr \<Rightarrow> fs \<Rightarrow> bool option \<times> fs" where
  "vunify_doit w args src_root dst_root path fs =
     (if do_dry_run args then (Some True, fs)
      else if do_revert args then Unify_deUnify (w_env w) (PathInfo_append dst_root path) fs
      else Unify_unify (w_env w) (PathInfo_append src_root path) (PathInfo_append dst_root path) False fs)"

text \<open>The state of a walk: the number of failures, the lists and the file system, or an early end.\<close>

datatype walk = Walked nat "MatchList list" fs | Died fs | OutOfFuel

definition visitDirEntry ::
  "world \<Rightarrow> vunify_args \<Rightarrow> MatchList \<Rightarrow> (cstr \<Rightarrow> cstr \<Rightarrow> MatchList list \<Rightarrow> fs \<Rightarrow> walk) \<Rightarrow>
   cstr \<Rightarrow> cstr \<Rightarrow> MatchList list \<Rightarrow> fs \<Rightarrow> walk" where
  "visitDirEntry w args dst_list visit state dirname mls fs =
     (let path = PathInfo_append state dirname
      in if isDotfile dirname then Walked 0 mls fs
         else
           (case checkDirEntry w args dst_list mls fs path of
              Inl _ \<Rightarrow> Walked 0 mls fs
            | Inr (j, dst, src) \<Rightarrow>
                if st_type dst = S_DIR
                then
                  (case updateSkipDepth w path True mls of
                     (True, l1) \<Rightarrow>
                       (case visit state dirname l1 fs of
                          Walked r l2 f \<Rightarrow> Walked r (snd (updateSkipDepth w path False l2)) f
                        | e \<Rightarrow> e)
                   | (False, l1) \<Rightarrow> Walked 0 l1 fs)
                else
                  (case vunify_doit w args (ml_root (mls ! j)) (ml_root dst_list) path fs of
                     (None, f) \<Rightarrow> Died f
                   | (Some ok, f) \<Rightarrow> Walked (if ok then 0 else 1) mls f)))"

fun visit_loop :: "(cstr \<Rightarrow> MatchList list \<Rightarrow> fs \<Rightarrow> walk) \<Rightarrow> cstr list \<Rightarrow> nat \<Rightarrow> MatchList list \<Rightarrow> fs \<Rightarrow> walk" where
  "visit_loop f [] res mls fs = Walked res mls fs"
| "visit_loop f (e # es) res mls fs =
     (case f e mls fs of
        Walked r l g \<Rightarrow> visit_loop f es (res + r) l g
      | x \<Rightarrow> x)"

text \<open>The number bounds the depth of the directories.\<close>

primrec visitDir ::
  "nat \<Rightarrow> world \<Rightarrow> vunify_args \<Rightarrow> MatchList \<Rightarrow> cstr \<Rightarrow> cstr \<Rightarrow> MatchList list \<Rightarrow> fs \<Rightarrow> walk" where
  "visitDir 0 = (\<lambda>w args dst_list state name mls fs. OutOfFuel)"
| "visitDir (Suc n) =
     (\<lambda>w args dst_list state name mls fs.
        let state' = PathInfo_append state name
        in if \<not> w_chdir w state' then Died fs
           else visit_loop (visitDirEntry w args dst_list (visitDir n w args dst_list) state') (w_readdir w state') 0 mls fs)"

definition vunify :: "nat \<Rightarrow> world \<Rightarrow> vunify_args \<Rightarrow> MatchList \<Rightarrow> MatchList list \<Rightarrow> fs \<Rightarrow> walk" where
  "vunify n w args dst_list mls fs = visitDir n w args dst_list [] ''/'' mls fs"

section \<open>vcopy\<close>

datatype Operation = opUNIFY | opCOPY | opDIR | opSKIP

definition MAX_type :: "MatchType \<Rightarrow> MatchType \<Rightarrow> MatchType" where
  "MAX_type a b =
     (if a = stSKIP \<or> b = stSKIP then stSKIP else if a = stEXCLUDE \<or> b = stEXCLUDE then stEXCLUDE else stINCLUDE)"

definition vcopy_checkDirEntry :: "(cstr \<Rightarrow> cstr \<Rightarrow> int) \<Rightarrow> MatchList \<Rightarrow> MatchList \<Rightarrow> cstr \<Rightarrow> stat \<Rightarrow> Operation" where
  "vcopy_checkDirEntry fnmatch dst_list src_list path st =
     (let r1 = MatchList_compare fnmatch dst_list path;
          res = (if r1 \<noteq> stSKIP then MAX_type r1 (MatchList_compare fnmatch src_list path) else r1)
      in if res \<noteq> stSKIP \<and> st_type st = S_DIR then opDIR
         else if res \<noteq> stSKIP \<and> st_type st = S_LNK then opCOPY
         else if res = stSKIP \<or> st_type st \<noteq> S_REG then opSKIP
         else (case res of stINCLUDE \<Rightarrow> opUNIFY | _ \<Rightarrow> opCOPY))"

definition vcopy_doit :: "env \<Rightarrow> bool \<Rightarrow> Operation \<Rightarrow> cstr \<Rightarrow> cstr \<Rightarrow> stat \<Rightarrow> fs \<Rightarrow> bool option \<times> fs" where
  "vcopy_doit env dry_run op dst_path src_path st fs =
     (if dry_run \<or> op = opSKIP then (Some True, fs)
      else if op = opUNIFY then Unify_unify env src_path dst_path False fs
      else (let (ok, f) = Unify_copy env src_path st dst_path fs in (Some ok, f)))"

text \<open>The walk of \<^verbatim>\<open>vcopy\<close>; a directory gets its times again after its entries have been made.\<close>

definition vcopy_visitDirEntry ::
  "world \<Rightarrow> bool \<Rightarrow> MatchList \<Rightarrow> MatchList \<Rightarrow> (cstr \<Rightarrow> cstr \<Rightarrow> MatchList list \<Rightarrow> fs \<Rightarrow> walk) \<Rightarrow>
   cstr \<Rightarrow> cstr \<Rightarrow> MatchList list \<Rightarrow> fs \<Rightarrow> walk" where
  "vcopy_visitDirEntry w dry_run dst_list src_list visit state dirname mls fs =
     (if isDotfile dirname then Walked 0 mls fs
      else
        (let path = PathInfo_append state dirname
         in case w_here w fs path of
              None \<Rightarrow> Walked 1 mls fs
            | Some st \<Rightarrow>
                (let op = vcopy_checkDirEntry (w_fnmatch w) dst_list src_list path st;
                     dst_path = PathInfo_append (ml_root dst_list) path;
                     src_path = PathInfo_append (ml_root src_list) path
                 in case vcopy_doit (w_env w) dry_run op dst_path src_path st fs of
                      (None, f) \<Rightarrow> Died f
                    | (Some False, f) \<Rightarrow> Walked 1 mls f
                    | (Some True, f) \<Rightarrow>
                        if op = opDIR
                        then
                          (case visit state dirname mls f of
                             Walked r l g \<Rightarrow>
                               Walked r l (if dry_run then g else snd (Unify_setTime (w_env w) dst_path st g))
                           | e \<Rightarrow> e)
                        else Walked 0 mls f)))"

primrec vcopy_visitDir ::
  "nat \<Rightarrow> world \<Rightarrow> bool \<Rightarrow> MatchList \<Rightarrow> MatchList \<Rightarrow> cstr \<Rightarrow> cstr \<Rightarrow> MatchList list \<Rightarrow> fs \<Rightarrow> walk" where
  "vcopy_visitDir 0 = (\<lambda>w dry_run dst_list src_list state name mls fs. OutOfFuel)"
| "vcopy_visitDir (Suc n) =
     (\<lambda>w dry_run dst_list src_list state name mls fs.
        let state' = PathInfo_append state name
        in if \<not> w_chdir w state' then Died fs
           else visit_loop (vcopy_visitDirEntry w dry_run dst_list src_list (vcopy_visitDir n w dry_run dst_list src_list) state')
                  (w_readdir w state') 0 mls fs)"

section \<open>The choice of the reference server\<close>

lemma checkFstat_True:
  assumes "checkFstat w a f m path = (True, r, x)"
  shows "\<exists>dst src. x = Some (dst, src) \<and> w_here w f path = Some dst \<and>
    w_lstat w (PathInfo_append (ml_root m) path) = Some src \<and>
    (st_type dst = S_DIR \<and> st_type src = S_DIR \<or>
     (if do_revert a then Unify_isUnified dst src else Unify_isUnifyable False dst src))"
  using assms by (auto simp: checkFstat_def split: option.splits if_splits)

lemma check_lists_sound:
  "check_lists w a f path n mls r = Inr (j, dst, src) \<Longrightarrow>
   n \<le> j \<and> j - n < length mls \<and> MatchList_compare (w_fnmatch w) (mls ! (j - n)) path = stINCLUDE \<and>
   (\<exists>r'. checkFstat w a f (mls ! (j - n)) path = (True, r', Some (dst, src))) \<and> st_type dst \<in> {S_REG, S_DIR} \<and>
   (\<forall>i < j - n. \<not> (MatchList_compare (w_fnmatch w) (mls ! i) path = stINCLUDE \<and> fst (checkFstat w a f (mls ! i) path)))"
proof (induction mls arbitrary: n r)
  case (Cons m ms)
  obtain b r' x where c: "checkFstat w a f m path = (b, r', x)" by (metis prod_cases3)
  show ?case
  proof (cases "MatchList_compare (w_fnmatch w) m path = stINCLUDE \<and> b")
    case True
    then obtain d s where "x = Some (d, s)" using checkFstat_True [of w a f m path r' x] c by auto
    then show ?thesis using Cons.prems True c by (auto split: if_splits)
  next
    case False
    then have "\<exists>r''. check_lists w a f path (n + 1) ms r'' = Inr (j, dst, src)"
      using Cons.prems c by (auto split: if_splits option.splits bool.splits)
    then obtain r'' where "check_lists w a f path (n + 1) ms r'' = Inr (j, dst, src)" ..
    note ih = Cons.IH [OF this]
    then have "j - n = Suc (j - (n + 1))" by auto
    then show ?thesis using ih False c by (auto simp: less_Suc_eq_0_disj)
  qed
qed simp

text \<open>
  Only fitting files are touched: when \<^verbatim>\<open>checkDirEntry\<close> chooses a reference server, the file is
  included by the list of the vserver and by the list of that server, both files exist, they are two
  directories or (without the option to revert) different inodes of one device that agree in mode,
  owner, size and time, the file is a regular file or a directory, and no earlier server fits.\<close>

lemma checkDirEntry_sound:
  assumes "checkDirEntry w a dst_list mls fs path = Inr (j, dst, src)"
  shows "MatchList_compare (w_fnmatch w) dst_list path = stINCLUDE \<and>
    j < length mls \<and> MatchList_compare (w_fnmatch w) (mls ! j) path = stINCLUDE \<and>
    w_here w fs path = Some dst \<and> w_lstat w (PathInfo_append (ml_root (mls ! j)) path) = Some src \<and>
    st_type dst \<in> {S_REG, S_DIR} \<and>
    (st_type dst = S_DIR \<and> st_type src = S_DIR \<or>
     (if do_revert a then Unify_isUnified dst src else Unify_isUnifyable False dst src)) \<and>
    (\<forall>i < j. \<not> (MatchList_compare (w_fnmatch w) (mls ! i) path = stINCLUDE \<and> fst (checkFstat w a fs (mls ! i) path)))"
proof -
  have c: "MatchList_compare (w_fnmatch w) dst_list path = stINCLUDE"
    "check_lists w a fs path 0 mls rsEXCL_DST = Inr (j, dst, src)"
    using assms by (auto simp: checkDirEntry_def split: if_splits)
  note s = check_lists_sound [OF c(2)]
  then obtain r' where "checkFstat w a fs (mls ! j) path = (True, r', Some (dst, src))" by auto
  from checkFstat_True [OF this] show ?thesis using c(1) s by simp
qed

lemma update_one_root [simp]: "ml_root (snd (update_one w path b m)) = ml_root m"
  by (simp add: update_one_def split: option.splits)

lemma updateSkipDepth_roots: "map ml_root (snd (updateSkipDepth w path b mls)) = map ml_root mls"
  by (simp add: updateSkipDepth_def Let_def comp_def)

section \<open>What every walk keeps\<close>

text \<open>
  A statement \<open>I\<close> about the state that every operation on a chosen file keeps, and a statement \<open>J\<close>
  that holds when the program ends inside such an operation, hold at the end of every walk.
\<close>

locale file_walk =
  fixes I J :: "fs \<Rightarrow> world \<Rightarrow> vunify_args \<Rightarrow> MatchList \<Rightarrow> cstr list \<Rightarrow> fs \<Rightarrow> bool"
  assumes stop: "I f0 w a dl roots f \<Longrightarrow> J f0 w a dl roots f"
    and step: "I f0 w a dl (map ml_root mls) f \<Longrightarrow> checkDirEntry w a dl mls f path = Inr (j, dst, src) \<Longrightarrow>
      st_type dst \<noteq> S_DIR \<Longrightarrow> vunify_doit w a (ml_root (mls ! j)) (ml_root dl) path f = (r, g) \<Longrightarrow>
      if r = None then J f0 w a dl (map ml_root mls) g else I f0 w a dl (map ml_root mls) g"
begin

lemma entry:
  assumes "I f0 w a dl (map ml_root mls) f"
    and "\<And>st nm m x. I f0 w a dl (map ml_root m) x \<Longrightarrow>
      (case visit st nm m x of
         Walked r l y \<Rightarrow> map ml_root l = map ml_root m \<and> I f0 w a dl (map ml_root m) y
       | Died y \<Rightarrow> J f0 w a dl (map ml_root m) y
       | OutOfFuel \<Rightarrow> True)"
  shows "case visitDirEntry w a dl visit state dirname mls f of
      Walked r l g \<Rightarrow> map ml_root l = map ml_root mls \<and> I f0 w a dl (map ml_root mls) g
    | Died g \<Rightarrow> J f0 w a dl (map ml_root mls) g
    | OutOfFuel \<Rightarrow> True"
proof (cases "isDotfile dirname \<or> isl (checkDirEntry w a dl mls f (PathInfo_append state dirname))")
  case True
  then show ?thesis using assms(1) by (auto simp: visitDirEntry_def Let_def isl_def)
next
  case False
  let ?p = "PathInfo_append state dirname"
  obtain j dst src where c: "checkDirEntry w a dl mls f ?p = Inr (j, dst, src)"
    using False by (cases "checkDirEntry w a dl mls f ?p") auto
  show ?thesis
  proof (cases "st_type dst = S_DIR")
    case True
    obtain b l1 where l1: "updateSkipDepth w ?p True mls = (b, l1)" by force
    then have m1: "map ml_root l1 = map ml_root mls" using updateSkipDepth_roots [of w ?p True mls] by simp
    show ?thesis
      using assms(2) [of l1 f state dirname] assms(1) False c True l1 m1
      by (cases b) (auto simp: visitDirEntry_def Let_def updateSkipDepth_roots split: walk.splits)
  next
    case reg: False
    obtain r g where r: "vunify_doit w a (ml_root (mls ! j)) (ml_root dl) ?p f = (r, g)" by force
    show ?thesis
      using step [OF assms(1) c reg r] False c reg r by (cases r) (auto simp: visitDirEntry_def Let_def)
  qed
qed

lemma loop:
  assumes "\<And>e m x. I f0 w a dl (map ml_root m) x \<Longrightarrow>
      (case f e m x of
         Walked r l y \<Rightarrow> map ml_root l = map ml_root m \<and> I f0 w a dl (map ml_root m) y
       | Died y \<Rightarrow> J f0 w a dl (map ml_root m) y
       | OutOfFuel \<Rightarrow> True)"
  shows "I f0 w a dl (map ml_root m) x \<Longrightarrow>
    (case visit_loop f es res m x of
       Walked r l y \<Rightarrow> map ml_root l = map ml_root m \<and> I f0 w a dl (map ml_root m) y
     | Died y \<Rightarrow> J f0 w a dl (map ml_root m) y
     | OutOfFuel \<Rightarrow> True)"
proof (induction es arbitrary: res m x)
  case (Cons e es)
  show ?case
  proof (cases "f e m x")
    case (Walked r l y)
    then have "map ml_root l = map ml_root m" "I f0 w a dl (map ml_root l) y" using assms [OF Cons.prems, of e] by simp_all
    then show ?thesis using Cons.IH [of l y "res + r"] Walked by (auto split: walk.splits)
  qed (use assms [OF Cons.prems, of e] in simp_all)
qed simp

lemma walk:
  "I f0 w a dl (map ml_root mls) f \<Longrightarrow>
   (case visitDir n w a dl state name mls f of
      Walked r l g \<Rightarrow> map ml_root l = map ml_root mls \<and> I f0 w a dl (map ml_root mls) g
    | Died g \<Rightarrow> J f0 w a dl (map ml_root mls) g
    | OutOfFuel \<Rightarrow> True)"
proof (induction n arbitrary: state name mls f)
  case (Suc n)
  let ?s = "PathInfo_append state name"
  show ?case
  proof (cases "w_chdir w ?s")
    case False
    then show ?thesis using stop [OF Suc.prems] by (simp add: Let_def)
  next
    case True
    have "case visit_loop (visitDirEntry w a dl (visitDir n w a dl) ?s) (w_readdir w ?s) 0 mls f of
        Walked r l g \<Rightarrow> map ml_root l = map ml_root mls \<and> I f0 w a dl (map ml_root mls) g
      | Died g \<Rightarrow> J f0 w a dl (map ml_root mls) g
      | OutOfFuel \<Rightarrow> True"
      by (rule loop [OF _ Suc.prems]) (rule entry, assumption, rule Suc.IH)
    then show ?thesis using True by (simp add: Let_def)
  qed
qed simp

end

text \<open>What \<^verbatim>\<open>lstat\<close> tells about a name is so.\<close>

definition true_stat :: "fs \<Rightarrow> cstr \<Rightarrow> stat \<Rightarrow> bool" where
  "true_stat f n st \<longleftrightarrow>
     (\<exists>i nd. names f n = Some i \<and> inodes f i = Some nd \<and> st_type st = i_type nd \<and> st_perm st = i_perm nd \<and>
        st_uid st = i_uid nd \<and> st_gid st = i_gid nd \<and> st_mtime st = i_mtime nd \<and>
        (i_type nd = S_REG \<longrightarrow> st_size st = length (i_data nd)))"

text \<open>
  The answers about the vserver are true at all times and those about the reference servers at the
  start; no path is both inside the vserver and inside a reference server.
\<close>

definition true_world :: "world \<Rightarrow> cstr \<Rightarrow> cstr list \<Rightarrow> fs \<Rightarrow> bool" where
  "true_world w dst_root roots fs \<longleftrightarrow>
     (\<forall>f p st. w_here w f p = Some st \<longrightarrow> true_stat f (PathInfo_append dst_root p) st) \<and>
     (\<forall>r \<in> set roots. \<forall>p st. w_lstat w (PathInfo_append r p) = Some st \<longrightarrow> true_stat fs (PathInfo_append r p) st) \<and>
     (\<forall>r \<in> set roots. \<forall>p q. PathInfo_append r p \<noteq> PathInfo_append dst_root q)"

text \<open>The attributes that a link to another file must not change, as \<^verbatim>\<open>Unify_isUnifyable\<close> demands.\<close>

definition looks_same :: "inode \<Rightarrow> inode \<Rightarrow> bool" where
  "looks_same a b \<longleftrightarrow> i_type b = i_type a \<and> i_perm b = i_perm a \<and> i_uid b = i_uid a \<and> i_gid b = i_gid a \<and>
     i_mtime b = i_mtime a \<and> (i_type a = S_REG \<longrightarrow> length (i_data b) = length (i_data a))"

text \<open>
  What the name \<open>b\<close> leads to in the state \<open>f\<close>, for a name \<open>n\<close> that led to the inode \<open>i\<close> with the data
  \<open>nd\<close> at the start: the same inode; or \<open>n\<close> is a path of the vserver and \<open>b\<close> leads to the file that a
  reference server had under the same path, which looks the same; or, when links are broken, to a
  copy. Where the \<^verbatim>\<open>lstat\<close> of the destination inside \<^verbatim>\<open>Unify_unify\<close> can be refused nothing is promised.
\<close>

definition found :: "fs \<Rightarrow> world \<Rightarrow> vunify_args \<Rightarrow> MatchList \<Rightarrow> cstr list \<Rightarrow> fs \<Rightarrow> cstr \<Rightarrow> cstr \<Rightarrow> nat \<Rightarrow> inode \<Rightarrow> bool" where
  "found f0 w a dl roots f b n i nd \<longleftrightarrow>
     names f b = Some i \<or>
     (\<exists>p. n = PathInfo_append (ml_root dl) p \<and>
        (if do_revert a
         then (\<exists>k nd'. names f b = Some k \<and> inodes f k = Some nd' \<and> i_type nd' = S_REG \<and> i_type nd = S_REG \<and> copy_of nd nd')
         else (\<exists>k nd' r. names f b = Some k \<and> inodes f k = Some nd' \<and> looks_same nd nd' \<and>
                 r \<in> set roots \<and> names f0 (PathInfo_append r p) = Some k) \<or>
              (\<exists>g. refuses (w_env w) (c_lstat n) g)))"

definition files_kept :: "fs \<Rightarrow> fs \<Rightarrow> bool" where
  "files_kept f g \<longleftrightarrow> (\<forall>i nd. inodes f i = Some nd \<longrightarrow> (\<exists>nd'. inodes g i = Some nd' \<and> same_file nd nd'))"

definition safe_state :: "fs \<Rightarrow> world \<Rightarrow> vunify_args \<Rightarrow> MatchList \<Rightarrow> cstr list \<Rightarrow> fs \<Rightarrow> bool" where
  "safe_state f0 w a dl roots f \<longleftrightarrow>
     true_world w (ml_root dl) roots f0 \<and> wf_fs f \<and> files_kept f0 f \<and>
     (\<forall>r \<in> set roots. \<forall>p k. names f0 (PathInfo_append r p) = Some k \<longrightarrow> names f (PathInfo_append r p) = Some k) \<and>
     (\<forall>n i nd. names f0 n = Some i \<and> inodes f0 i = Some nd \<longrightarrow> found f0 w a dl roots f n n i nd)"

text \<open>After an exit in the middle one file may be under another name, that of its backup.\<close>

definition safe_end :: "fs \<Rightarrow> world \<Rightarrow> vunify_args \<Rightarrow> MatchList \<Rightarrow> cstr list \<Rightarrow> fs \<Rightarrow> bool" where
  "safe_end f0 w a dl roots f \<longleftrightarrow>
     wf_fs f \<and> files_kept f0 f \<and>
     (\<exists>d b. \<forall>n i nd. names f0 n = Some i \<and> inodes f0 i = Some nd \<longrightarrow>
        found f0 w a dl roots f n n i nd \<or> n = d \<and> found f0 w a dl roots f b n i nd)"

lemma files_kept_trans: "files_kept f g \<Longrightarrow> files_kept g h \<Longrightarrow> files_kept f h"
  unfolding files_kept_def by (meson same_file_trans)

lemma keeps_files: "keeps D f g \<Longrightarrow> files_kept f g"
  by (simp add: keeps_def files_kept_def)

lemma same_file_fields:
  assumes "same_file a b"
  shows "looks_same a b" "copy_of a b" "i_type b = i_type a"
  using assms unfolding same_file_def looks_same_def copy_of_def by (cases a; cases b; auto)+

lemma looks_same_trans: "looks_same a b \<Longrightarrow> looks_same b c \<Longrightarrow> looks_same a c"
  by (auto simp: looks_same_def)

lemma copy_of_trans: "copy_of a b \<Longrightarrow> copy_of b c \<Longrightarrow> copy_of a c"
  by (auto simp: copy_of_def)

lemma found_carry:
  assumes "found f0 w a dl roots f b n i nd" "names g b' = names f b" "files_kept f g"
  shows "found f0 w a dl roots g b' n i nd"
proof -
  have t: "\<exists>y. inodes g k = Some y \<and> looks_same x y \<and> copy_of x y \<and> i_type y = i_type x" if "inodes f k = Some x" for k x
    using assms(3) that same_file_fields unfolding files_kept_def by meson
  show ?thesis
  proof (cases "names f b = Some i")
    case False
    then obtain p where p: "n = PathInfo_append (ml_root dl) p"
      "if do_revert a
       then (\<exists>k nd'. names f b = Some k \<and> inodes f k = Some nd' \<and> i_type nd' = S_REG \<and> i_type nd = S_REG \<and> copy_of nd nd')
       else (\<exists>k nd' r. names f b = Some k \<and> inodes f k = Some nd' \<and> looks_same nd nd' \<and>
               r \<in> set roots \<and> names f0 (PathInfo_append r p) = Some k) \<or> (\<exists>g. refuses (w_env w) (c_lstat n) g)"
      using assms(1) unfolding found_def by blast
    show ?thesis
    proof (cases "do_revert a")
      case True
      then obtain k x where x: "names f b = Some k" "inodes f k = Some x" "i_type x = S_REG" "i_type nd = S_REG" "copy_of nd x"
        using p(2) by auto
      obtain y where "inodes g k = Some y" "copy_of x y" "i_type y = i_type x" using t [OF x(2)] by blast
      then show ?thesis using x assms(2) True p(1) copy_of_trans unfolding found_def by auto
    next
      case nr: False
      show ?thesis
      proof (cases "\<exists>g. refuses (w_env w) (c_lstat n) g")
        case True
        then show ?thesis using nr p(1) unfolding found_def by auto
      next
        case False
        then obtain k x r where x: "names f b = Some k" "inodes f k = Some x" "looks_same nd x"
          "r \<in> set roots" "names f0 (PathInfo_append r p) = Some k" using p(2) nr by auto
        obtain y where "inodes g k = Some y" "looks_same x y" using t [OF x(2)] by blast
        then show ?thesis using x assms(2) nr p(1) looks_same_trans unfolding found_def by auto
      qed
    qed
  qed (use assms(2) in \<open>simp add: found_def\<close>)
qed

text \<open>What is found under a name has the attributes that the name had at the start, or links are not promised.\<close>

lemma found_looks:
  assumes "found f0 w a dl roots f n n i nd" "names f n = Some k" "inodes f k = Some x" "inodes f0 i = Some nd" "files_kept f0 f"
  shows "if do_revert a then copy_of nd x \<and> (i_type x = i_type nd) else looks_same nd x \<or> (\<exists>g. refuses (w_env w) (c_lstat n) g)"
proof -
  have "looks_same nd x \<and> copy_of nd x \<and> i_type x = i_type nd" if "k = i"
    using assms(3-5) that same_file_fields unfolding files_kept_def by (metis option.inject)
  then show ?thesis using assms(1-3) unfolding found_def by (auto split: if_splits)
qed

text \<open>One operation on a chosen file.\<close>

lemma unify_step:
  assumes s: "safe_state f0 w a dl (map ml_root mls) f" and c: "checkDirEntry w a dl mls f path = Inr (j, dst, src)"
    and t: "st_type dst \<noteq> S_DIR" and nr: "\<not> do_revert a"
    and u: "Unify_unify (w_env w) (PathInfo_append (ml_root (mls ! j)) path) (PathInfo_append (ml_root dl) path) False f = (r, g)"
  shows "if r = None then safe_end f0 w a dl (map ml_root mls) g else safe_state f0 w a dl (map ml_root mls) g"
proof -
  let ?d = "PathInfo_append (ml_root dl) path" and ?s = "PathInfo_append (ml_root (mls ! j)) path" and ?R = "map ml_root mls"
  have wf: "wf_fs f" and tw: "true_world w (ml_root dl) ?R f0" and fk: "files_kept f0 f" using s by (simp_all add: safe_state_def)
  note o = checkDirEntry_sound [OF c]
  have root: "ml_root (mls ! j) \<in> set ?R" using o by simp
  obtain id nd where d: "names f ?d = Some id" "inodes f id = Some nd" "i_type nd = S_REG" "st_type dst = i_type nd"
    "st_perm dst = i_perm nd" "st_uid dst = i_uid nd" "st_gid dst = i_gid nd" "st_mtime dst = i_mtime nd" "st_size dst = length (i_data nd)"
    using tw o t unfolding true_world_def true_stat_def by (metis insertE singletonD)
  obtain si ns where s0: "names f0 ?s = Some si" "inodes f0 si = Some ns" "true_stat f0 ?s src"
    using tw o root unfolding true_world_def true_stat_def by metis
  obtain ns' where s1: "inodes f si = Some ns'" "same_file ns ns'" using fk s0(2) unfolding files_kept_def by blast
  have s2: "names f ?s = Some si" using s s0(1) root unfolding safe_state_def by blast
  have look: "looks_same nd ns'"
  proof -
    have "Unify_isUnifyable False dst src" using o t nr by auto
    then have "looks_same nd ns" using d s0 by (auto simp: Unify_isUnifyable_def looks_same_def true_stat_def)
    then show ?thesis using looks_same_trans same_file_fields(1) [OF s1(2)] by blast
  qed
  have wg: "wf_fs g" using wf_Unify_unify [OF wf, of "w_env w" ?s ?d False] u by simp
  note F = Unify_unify_facts [OF u wf]
  have k: "keeps {?d} f g" "files_kept f g" using F keeps_files by blast+
  have fkg: "files_kept f0 g" using files_kept_trans fk k(2) by blast
  have srcs: "names g (PathInfo_append q p) = Some m" if "q \<in> set ?R" "names f0 (PathInfo_append q p) = Some m" for q p m
  proof -
    have "names f (PathInfo_append q p) = Some m" "PathInfo_append q p \<noteq> ?d"
      using s tw that unfolding safe_state_def true_world_def by blast+
    then show ?thesis using k(1) unfolding keeps_def by (metis option.distinct(1) singletonD)
  qed
  have fnd: "found f0 w a dl ?R f n n i x" if "names f0 n = Some i" "inodes f0 i = Some x" for n i x
    using s that unfolding safe_state_def by blast
  have other: "found f0 w a dl ?R g n n i x" if n: "names f0 n = Some i" "inodes f0 i = Some x" "n \<noteq> ?d" for n i x
  proof (cases "names f n = None")
    case True
    then show ?thesis using fnd [OF n(1,2)] nr by (auto simp: found_def)
  next
    case False
    then show ?thesis using found_carry [OF fnd [OF n(1,2)] _ k(2)] k(1) n(3) unfolding keeps_def by blast
  qed
  have dest: "found f0 w a dl ?R g ?d ?d i x" if n: "names f0 ?d = Some i" "inodes f0 i = Some x" and r: "r = Some ok" for i x ok
  proof (cases ok)
    case True
    then have g: "names g ?d = Some si" using F r s2 by simp
    obtain x' where x': "inodes g si = Some x'" "same_file ns' x'" using k(2) s1(1) unfolding files_kept_def by blast
    have "looks_same x nd \<or> (\<exists>h. refuses (w_env w) (c_lstat ?d) h)"
      using found_looks [OF fnd [OF n] d(1,2) n(2) fk] nr by simp
    moreover have "looks_same nd x'" using looks_same_trans [OF look] same_file_fields(1) [OF x'(2)] by blast
    ultimately show ?thesis using g x'(1) s0(1) root nr looks_same_trans unfolding found_def by auto
  next
    case False
    then consider "names g ?d = names f ?d" | "refuses (w_env w) (c_lstat ?d) (snd (set_iattr (w_env w) ?s f))"
      using F r by auto
    then show ?thesis
    proof cases
      case 1
      then show ?thesis using found_carry [OF fnd [OF n] _ k(2)] by blast
    next
      case 2
      then show ?thesis using nr unfolding found_def by auto
    qed
  qed
  show ?thesis
  proof (cases r)
    case None
    then obtain b where b: "names g b = names f ?d" using F by auto
    have "found f0 w a dl ?R g n n i x \<or> n = ?d \<and> found f0 w a dl ?R g b n i x" if n: "names f0 n = Some i" "inodes f0 i = Some x" for n i x
      using other [OF n] found_carry [OF fnd [OF n] _ k(2), of b] b by blast
    then show ?thesis using None wg fkg unfolding safe_end_def by simp blast
  next
    case (Some ok)
    have "found f0 w a dl ?R g n n i x" if "names f0 n = Some i" "inodes f0 i = Some x" for n i x
      using that other dest Some by blast
    then show ?thesis using Some wg fkg tw srcs unfolding safe_state_def by simp
  qed
qed

lemma deunify_step:
  assumes s: "safe_state f0 w a dl (map ml_root mls) f" and c: "checkDirEntry w a dl mls f path = Inr (j, dst, src)"
    and t: "st_type dst \<noteq> S_DIR" and rv: "do_revert a"
    and u: "Unify_deUnify (w_env w) (PathInfo_append (ml_root dl) path) f = (r, g)"
  shows "if r = None then safe_end f0 w a dl (map ml_root mls) g else safe_state f0 w a dl (map ml_root mls) g"
proof -
  let ?d = "PathInfo_append (ml_root dl) path" and ?R = "map ml_root mls"
  have wf: "wf_fs f" and tw: "true_world w (ml_root dl) ?R f0" and fk: "files_kept f0 f" using s by (simp_all add: safe_state_def)
  note o = checkDirEntry_sound [OF c]
  obtain id nd where d: "names f ?d = Some id" "inodes f id = Some nd" "i_type nd = S_REG"
    using tw o t unfolding true_world_def true_stat_def by (metis insertE singletonD)
  have op: "id' = id" if "sys_open (w_env w) False ?d f = Some id'" for id'
    using that d by (auto simp: sys_open_def has_type_def split: if_splits)
  have wg: "wf_fs g" using wf_Unify_deUnify [OF wf, of "w_env w" ?d] u by simp
  note F = Unify_deUnify_facts [OF u wf]
  have k: "keeps {?d} f g" "files_kept f g" using F keeps_files by blast+
  have fkg: "files_kept f0 g" using files_kept_trans fk k(2) by blast
  have srcs: "names g (PathInfo_append q p) = Some m" if "q \<in> set ?R" "names f0 (PathInfo_append q p) = Some m" for q p m
  proof -
    have "names f (PathInfo_append q p) = Some m" "PathInfo_append q p \<noteq> ?d"
      using s tw that unfolding safe_state_def true_world_def by blast+
    then show ?thesis using k(1) unfolding keeps_def by (metis option.distinct(1) singletonD)
  qed
  have fnd: "found f0 w a dl ?R f n n i x" if "names f0 n = Some i" "inodes f0 i = Some x" for n i x
    using s that unfolding safe_state_def by blast
  have other: "found f0 w a dl ?R g n n i x" if n: "names f0 n = Some i" "inodes f0 i = Some x" "n \<noteq> ?d" for n i x
  proof -
    have "names f n \<noteq> None" using fnd [OF n(1,2)] rv by (auto simp: found_def)
    then show ?thesis using found_carry [OF fnd [OF n(1,2)] _ k(2)] k(1) n(3) unfolding keeps_def by blast
  qed
  have copied: "found f0 w a dl ?R g b ?d i x"
    if n: "names f0 ?d = Some i" "inodes f0 i = Some x" and b: "names g b = Some m" "inodes g m = Some y" "i_type y = S_REG" "copy_of nd y"
    for i x b m y
  proof -
    have "copy_of x nd \<and> i_type nd = i_type x" using found_looks [OF fnd [OF n] d(1,2) n(2) fk] rv by simp
    then have "copy_of x y" "i_type x = S_REG" using b(4) d(3) copy_of_trans by auto
    then show ?thesis using rv b unfolding found_def by auto
  qed
  have new: "\<exists>b m y. names g b = Some m \<and> inodes g m = Some y \<and> i_type y = S_REG \<and> copy_of nd y \<and> (b = ?d \<or> r = None)"
    if "r \<noteq> Some False"
  proof -
    have "\<exists>b s st y. sys_open (w_env w) False ?d f = Some s \<and> inodes f s = Some st \<and> (b = ?d \<or> r = None \<and> names f b = None) \<and>
        names g b = Some (next_ino f) \<and> inodes g (next_ino f) = Some y \<and> i_type y = S_REG \<and> copy_of st y"
      using F that by (auto split: option.splits bool.splits)
    then obtain b s' st y where "sys_open (w_env w) False ?d f = Some s'" "inodes f s' = Some st" "b = ?d \<or> r = None"
      "names g b = Some (next_ino f)" "inodes g (next_ino f) = Some y" "i_type y = S_REG" "copy_of st y" by blast
    then show ?thesis using op d(2) by (metis option.inject)
  qed
  show ?thesis
  proof (cases "r = None")
    case True
    then obtain b m y where b: "names g b = Some m" "inodes g m = Some y" "i_type y = S_REG" "copy_of nd y" using new by auto
    have "found f0 w a dl ?R g n n i x \<or> n = ?d \<and> found f0 w a dl ?R g b n i x" if n: "names f0 n = Some i" "inodes f0 i = Some x" for n i x
      using other [OF n] copied [OF _ _ b] n by blast
    then show ?thesis using True wg fkg unfolding safe_end_def by simp blast
  next
    case False
    have dest: "found f0 w a dl ?R g ?d ?d i x" if n: "names f0 ?d = Some i" "inodes f0 i = Some x" for i x
    proof (cases "r = Some False")
      case True
      then show ?thesis using F found_carry [OF fnd [OF n] _ k(2)] by auto
    next
      case rt: False
      then show ?thesis using new [OF rt] False copied [OF n] by auto
    qed
    have "found f0 w a dl ?R g n n i x" if "names f0 n = Some i" "inodes f0 i = Some x" for n i x
      using that other dest by blast
    then show ?thesis using False wg fkg tw srcs unfolding safe_state_def by auto
  qed
qed

interpretation safe: file_walk safe_state safe_end
proof
  show "safe_end f0 w a dl roots f" if "safe_state f0 w a dl roots f" for f0 w a dl roots f
    using that unfolding safe_state_def safe_end_def by blast
  show "if r = None then safe_end f0 w a dl (map ml_root mls) g else safe_state f0 w a dl (map ml_root mls) g"
    if "safe_state f0 w a dl (map ml_root mls) f" "checkDirEntry w a dl mls f path = Inr (j, dst, src)"
      "st_type dst \<noteq> S_DIR" "vunify_doit w a (ml_root (mls ! j)) (ml_root dl) path f = (r, g)"
    for f0 w a dl mls f path j dst src r g
    using that unify_step [OF that(1-3)] deunify_step [OF that(1-3)]
    by (cases "do_dry_run a"; cases "do_revert a") (auto simp: vunify_doit_def)
qed

interpretation dry: file_walk "\<lambda>f0 w a dl roots f. do_dry_run a \<longrightarrow> f = f0" "\<lambda>f0 w a dl roots f. do_dry_run a \<longrightarrow> f = f0"
  by unfold_locales (auto simp: vunify_doit_def)

section \<open>Skipped directories\<close>

text \<open>A file exists only where its directory does.\<close>

definition parents_exist :: "world \<Rightarrow> bool" where
  "parents_exist w \<longleftrightarrow>
     (\<forall>root p e. w_lstat w (PathInfo_append root (PathInfo_append p e)) \<noteq> None \<longrightarrow> w_lstat w (PathInfo_append root p) \<noteq> None)"

text \<open>A server is skipped only below a directory that it does not have.\<close>

definition skip_inv :: "world \<Rightarrow> cstr \<Rightarrow> MatchList list \<Rightarrow> bool" where
  "skip_inv w path mls \<longleftrightarrow> (\<forall>m \<in> set mls. skip_depth m > 0 \<longrightarrow> w_lstat w (PathInfo_append (ml_root m) path) = None)"

lemma update_one_back: "snd (update_one w path False (snd (update_one w path True m))) = m"
  by (cases m) (auto simp: update_one_def split: option.splits)

lemma updateSkipDepth_back: "snd (updateSkipDepth w path False (snd (updateSkipDepth w path True mls))) = mls"
  by (simp add: updateSkipDepth_def Let_def update_one_back comp_def)

lemma skip_inv_down:
  assumes "parents_exist w" "skip_inv w state mls"
  shows "skip_inv w (PathInfo_append state e) (snd (updateSkipDepth w (PathInfo_append state e) True mls))"
proof -
  let ?p = "PathInfo_append state e"
  have "w_lstat w (PathInfo_append (ml_root m) ?p) = None"
    if "m \<in> set mls" "skip_depth (snd (update_one w ?p True m)) > 0" for m
    using assms that unfolding parents_exist_def skip_inv_def
    by (fastforce simp: update_one_def split: if_splits option.splits)
  then show ?thesis by (auto simp: skip_inv_def updateSkipDepth_def Let_def)
qed

lemma entry_restores:
  assumes "visitDirEntry w a dl visit state dirname mls f = Walked r l g" "parents_exist w" "skip_inv w state mls"
    and visit: "\<And>m x r l y. visit state dirname m x = Walked r l y \<Longrightarrow> skip_inv w (PathInfo_append state dirname) m \<Longrightarrow> l = m"
  shows "l = mls"
proof -
  let ?p = "PathInfo_append state dirname"
  have found: "fst (updateSkipDepth w ?p True mls)" if c: "checkDirEntry w a dl mls f ?p = Inr (j, dst, src)" for j dst src
  proof -
    have j: "j < length mls" "w_lstat w (PathInfo_append (ml_root (mls ! j)) ?p) \<noteq> None"
      using c check_lists_sound [of w a f ?p 0 mls rsEXCL_DST j dst src] checkFstat_True [of w a f "mls ! j" ?p]
      by (fastforce simp: checkDirEntry_def split: if_splits)+
    then have "w_lstat w (PathInfo_append (ml_root (mls ! j)) state) \<noteq> None"
      using assms(2) unfolding parents_exist_def by blast
    then have "skip_depth (mls ! j) = 0" using assms(3) j(1) unfolding skip_inv_def by (metis gr0I nth_mem)
    then have "fst (update_one w ?p True (mls ! j))" using j(2) by (auto simp: update_one_def)
    then show ?thesis using j(1) by (auto simp: updateSkipDepth_def Let_def list_ex_iff)
  qed
  show ?thesis
  proof (cases "checkDirEntry w a dl mls f ?p")
    case (Inl r')
    then show ?thesis using assms(1) by (auto simp: visitDirEntry_def Let_def split: if_splits)
  next
    case (Inr x)
    obtain j dst src where x: "x = (j, dst, src)" by (metis prod_cases3)
    obtain l1 where l1: "updateSkipDepth w ?p True mls = (True, l1)"
      using found Inr x by (metis prod.collapse)
    have inv: "skip_inv w ?p l1" using skip_inv_down [OF assms(2,3), of dirname] l1 by simp
    have bk: "snd (updateSkipDepth w ?p False l1) = mls" using updateSkipDepth_back [of w ?p mls] l1 by simp
    show ?thesis
      using assms(1) Inr x l1 visit [OF _ inv] bk
      by (auto simp: visitDirEntry_def Let_def split: if_splits prod.splits option.splits walk.splits)
  qed
qed

lemma loop_restores:
  assumes "\<And>e x r l y. e \<in> set es \<Longrightarrow> f e mls x = Walked r l y \<Longrightarrow> l = mls"
  shows "visit_loop f es res mls x = Walked r l y \<Longrightarrow> l = mls"
  using assms
proof (induction es arbitrary: res x)
  case (Cons e es)
  then obtain r' l' y' where e: "f e mls x = Walked r' l' y'" "visit_loop f es (res + r') l' y' = Walked r l y"
    by (auto split: walk.splits)
  then have "l' = mls" using Cons.prems(2) [of e x r' l' y'] by simp
  show ?case
  proof (rule Cons.IH)
    show "visit_loop f es (res + r') mls y' = Walked r l y" using e(2) \<open>l' = mls\<close> by simp
    show "l = mls" if "e \<in> set es" "f e mls x = Walked r l y" for e x r l y
      using that Cons.prems(2) by (meson list.set_intros(2))
  qed
qed simp

lemma visitDir_restores:
  "visitDir n w a dl state name mls f = Walked r l g \<Longrightarrow> parents_exist w \<Longrightarrow> skip_inv w (PathInfo_append state name) mls \<Longrightarrow> l = mls"
proof (induction n arbitrary: state name mls f r l g)
  case (Suc n)
  have "visit_loop (visitDirEntry w a dl (visitDir n w a dl) (PathInfo_append state name))
      (w_readdir w (PathInfo_append state name)) 0 mls f = Walked r l g"
    using Suc.prems(1) by (simp add: Let_def split: if_splits)
  then show ?case
    by (rule loop_restores [rotated]) (use Suc.prems(2,3) in \<open>blast intro: entry_restores Suc.IH\<close>)
qed simp

section \<open>Depth of the walk\<close>

text \<open>A measure of the directories that falls along the walk.\<close>

definition falls :: "world \<Rightarrow> (cstr \<Rightarrow> nat) \<Rightarrow> bool" where
  "falls w rank \<longleftrightarrow>
     (\<forall>state e f st. e \<in> set (w_readdir w state) \<and> \<not> isDotfile e \<and> w_here w f (PathInfo_append state e) = Some st \<and>
        st_type st = S_DIR \<longrightarrow> rank (PathInfo_append state e) < rank state)"

lemma loop_has_fuel:
  "(\<And>e m x. e \<in> set es \<Longrightarrow> f e m x \<noteq> OutOfFuel) \<Longrightarrow> visit_loop f es res m x \<noteq> OutOfFuel"
  by (induction es arbitrary: res m x) (auto split: walk.splits)

lemma visitDir_has_fuel:
  "falls w rank \<Longrightarrow> rank (PathInfo_append state name) < n \<Longrightarrow> visitDir n w a dl state name mls f \<noteq> OutOfFuel"
proof (induction n arbitrary: state name mls f)
  case (Suc n)
  let ?s = "PathInfo_append state name"
  have "visitDirEntry w a dl (visitDir n w a dl) ?s e m x \<noteq> OutOfFuel" if e: "e \<in> set (w_readdir w ?s)" for e m x
  proof (cases "isDotfile e")
    case True
    then show ?thesis by (simp add: visitDirEntry_def Let_def)
  next
    case False
    have rec: "visitDir n w a dl ?s e m' x \<noteq> OutOfFuel"
      if c: "checkDirEntry w a dl m x (PathInfo_append ?s e) = Inr (j, dst, src)" and d: "st_type dst = S_DIR" for j dst src m'
    proof -
      have "w_here w x (PathInfo_append ?s e) = Some dst"
        using c check_lists_sound [of w a x "PathInfo_append ?s e" 0 m rsEXCL_DST j dst src] checkFstat_True
        by (fastforce simp: checkDirEntry_def split: if_splits)
      then have "rank (PathInfo_append ?s e) < rank ?s" using Suc.prems(1) e False d unfolding falls_def by blast
      then show ?thesis using Suc.IH [OF Suc.prems(1), of ?s e m' x] Suc.prems(2) by linarith
    qed
    show ?thesis
    proof (cases "checkDirEntry w a dl m x (PathInfo_append ?s e)")
      case (Inl r')
      then show ?thesis by (simp add: visitDirEntry_def Let_def)
    next
      case (Inr y)
      obtain j dst src where "y = (j, dst, src)" by (metis prod_cases3)
      then show ?thesis using Inr rec [of j dst src]
        by (auto simp: visitDirEntry_def Let_def split: prod.splits bool.splits option.splits walk.splits)
    qed
  qed
  then show ?case using loop_has_fuel by (simp add: Let_def)
qed simp

section \<open>Decisions of vcopy\<close>

text \<open>
  Something is skipped when one of the lists says so or when it is neither a file, a link nor a
  directory; a file is linked only when both lists include it.
\<close>

lemma vcopy_decision:
  "vcopy_checkDirEntry fnmatch dl sl path st = opSKIP \<longleftrightarrow>
     MatchList_compare fnmatch dl path = stSKIP \<or> MatchList_compare fnmatch sl path = stSKIP \<or>
     st_type st \<notin> {S_REG, S_LNK, S_DIR}"
  "vcopy_checkDirEntry fnmatch dl sl path st = opUNIFY \<longleftrightarrow>
     MatchList_compare fnmatch dl path = stINCLUDE \<and> MatchList_compare fnmatch sl path = stINCLUDE \<and> st_type st = S_REG"
  by (cases "MatchList_compare fnmatch dl path"; cases "MatchList_compare fnmatch sl path"; cases "st_type st";
      simp add: vcopy_checkDirEntry_def MAX_type_def Let_def)+

section \<open>A small vserver\<close>

text \<open>One file that the vserver and the reference server have.\<close>

definition file_stat :: "nat \<Rightarrow> stat" where
  "file_stat i = \<lparr>st_dev = 0, st_ino = i, st_type = S_REG, st_perm = 0x1a4, st_uid = 5, st_gid = 6, st_rdev = 0,
     st_size = 2, st_atime = 7, st_mtime = 8, st_nlink = 1\<rparr>"

definition small_world :: "syscall list \<Rightarrow> world" where
  "small_world bad =
     \<lparr>w_fnmatch = (\<lambda>_ _. 1), w_lstat = (\<lambda>_. Some (file_stat 0)),
      w_here = (\<lambda>_ p. if p = ''/a'' then Some (file_stat 1) else None),
      w_readdir = (\<lambda>_. [''.'', ''..'', ''a'']), w_chdir = (\<lambda>_. True), w_env = sample_env bad\<rparr>"

definition small_fs :: fs where
  "small_fs = \<lparr>names = [''/r/a'' \<mapsto> 0, ''/v/a'' \<mapsto> 1], inodes = [0 \<mapsto> sample_file [1, 2], 1 \<mapsto> sample_file [1, 2]],
     next_ino = 2, fs_dev = 0\<rparr>"

definition small_args :: vunify_args where
  "small_args = \<lparr>do_revert = False, do_dry_run = False\<rparr>"

definition small_run :: "syscall list \<Rightarrow> walk" where
  "small_run bad = vunify 1 (small_world bad) small_args (MatchList_init ''/v'' 0) [MatchList_init ''/r'' 0] small_fs"

definition walk_fs :: "walk \<Rightarrow> fs option" where
  "walk_fs x = (case x of Walked _ _ f \<Rightarrow> Some f | Died f \<Rightarrow> Some f | OutOfFuel \<Rightarrow> None)"

lemma small_walks:
  "case small_run [] of Walked _ _ f \<Rightarrow> names f ''/v/a'' = Some 0 | _ \<Rightarrow> False"
  "case small_run [c_link ''/r/a'' ''/v/a''] of Walked _ _ f \<Rightarrow> names f ''/v/a'' = Some 1 | _ \<Rightarrow> False"
  by code_simp+

lemma small_wf: "wf_fs small_fs"
  by (auto simp: wf_fs_def small_fs_def split: if_splits)

text \<open>The same vserver, with an \<^verbatim>\<open>lstat\<close> that tells what is there.\<close>

definition tell :: "fs \<Rightarrow> cstr \<Rightarrow> stat option" where
  "tell f n =
     (case names f n of
        None \<Rightarrow> None
      | Some i \<Rightarrow> map_option (\<lambda>nd. \<lparr>st_dev = fs_dev f, st_ino = i, st_type = i_type nd, st_perm = i_perm nd, st_uid = i_uid nd,
          st_gid = i_gid nd, st_rdev = i_rdev nd, st_size = length (i_data nd), st_atime = i_atime nd, st_mtime = i_mtime nd,
          st_nlink = 1\<rparr>) (inodes f i))"

definition told_world :: "syscall list \<Rightarrow> world" where
  "told_world bad = (small_world bad)\<lparr>w_lstat := tell small_fs, w_here := \<lambda>f p. tell f (PathInfo_append ''/v'' p)\<rparr>"

definition told_run :: "syscall list \<Rightarrow> walk" where
  "told_run bad = vunify 1 (told_world bad) small_args (MatchList_init ''/v'' 0) [MatchList_init ''/r'' 0] small_fs"

lemma told_walks:
  "case told_run [] of Walked _ _ f \<Rightarrow> names f ''/v/a'' = Some 0 | _ \<Rightarrow> False"
  "case told_run [c_link ''/r/a'' ''/v/a''] of Walked _ _ f \<Rightarrow> names f ''/v/a'' = Some 1 | _ \<Rightarrow> False"
  "case told_run [c_link ''/r/a'' ''/v/a'', c_rename ''/v/a;XXXXXX'' ''/v/a''] of
     Died f \<Rightarrow> names f ''/v/a'' = None \<and> names f ''/v/a;XXXXXX'' = Some 1 | _ \<Rightarrow> False"
  by code_simp+

lemma tell_true: "tell f n = Some st \<Longrightarrow> true_stat f n st"
  by (auto simp: tell_def true_stat_def split: option.splits)

lemma told_true: "true_world (told_world bad) ''/v'' [''/r''] small_fs"
proof -
  have "PathInfo_append ''/r'' p \<noteq> PathInfo_append ''/v'' q" for p q
    by (simp add: PathInfo_append_def Let_def strip_slashes_keep)
  then show ?thesis by (simp add: true_world_def told_world_def tell_true)
qed

section \<open>Properties\<close>



text \<open>
  C33. The skip depths are balanced: when no reference server was being skipped at the start, and a
  server has a file only where it has the directory, the walk leaves all match lists as they were, so
  a directory that is missing in one server never hides its files in a later directory.\<close>

theorem vunify_skip_balanced:
  assumes "vunify n w a dst_list mls fs = Walked r l fs'" "parents_exist w" "\<forall>m \<in> set mls. skip_depth m = 0"
  shows "l = mls"
  using assms visitDir_restores unfolding vunify_def by (auto simp: skip_inv_def)

theorem vunify_skip_balanced_witness:
  "\<exists>r f. small_run [] = Walked r [MatchList_init ''/r'' 0] f"
proof -
  obtain r l f where f: "small_run [] = Walked r l f" using small_walks(1) by (cases "small_run []") auto
  have "parents_exist (small_world [])" by (simp add: parents_exist_def small_world_def)
  then show ?thesis
    using vunify_skip_balanced [OF f [unfolded small_run_def]] f by (simp add: MatchList_init_def)
qed

text \<open>
  C38. The walk ends: in a directory tree of limited depth (a measure of the directories falls from a
  directory to its subdirectories), \<^verbatim>\<open>vunify\<close> ends with the bound of that depth.\<close>

theorem vunify_terminates:
  assumes "falls w rank" "rank ''/'' < n"
  shows "vunify n w a dst_list mls fs \<noteq> OutOfFuel"
proof -
  have "PathInfo_append [] ''/'' = ''/''" by (simp add: PathInfo_append_def strip_slashes_keep)
  then show ?thesis using visitDir_has_fuel [OF assms(1), of "[]" "''/''"] assms(2) by (simp add: vunify_def)
qed

theorem vunify_terminates_witness: "small_run [] \<noteq> OutOfFuel"
proof -
  have "falls (small_world []) (\<lambda>_. 0)" by (auto simp: falls_def small_world_def file_stat_def split: if_splits)
  then show ?thesis using vunify_terminates [of "small_world []" "\<lambda>_. 0" 1] by (simp add: small_run_def)
qed

lemma checkDirEntry_sound_example:
  "Unify_isUnifyable False (file_stat 1) (file_stat 0) \<and>
   checkDirEntry (small_world []) small_args (MatchList_init ''/v'' 0) [MatchList_init ''/r'' 0] small_fs ''/a'' =
     Inr (0, file_stat 1, file_stat 0)"
proof -
  have c: "checkDirEntry (small_world []) small_args (MatchList_init ''/v'' 0) [MatchList_init ''/r'' 0] small_fs ''/a'' =
     Inr (0, file_stat 1, file_stat 0)" by code_simp
  show ?thesis using checkDirEntry_sound [OF c] c by (simp add: small_args_def file_stat_def)
qed

end
