(* ===== verification/Vhashify.thy ===== *)
theory Vhashify
  imports Vunify Vector Fmt
begin

text \<open>
  The program \<^verbatim>\<open>vhashify\<close>: files are linked to a collection of reference files whose names are hashes
  of content and attributes. The hash function is a parameter given by its steps, the answers of
  \<^verbatim>\<open>lstat\<close> and \<^verbatim>\<open>vc_get_iattr\<close> are parameters, and the operations on files are those of the theories
  \<open>Unify\<close> and \<open>UnifyCopy\<close>. Messages are left out.
\<close>

section \<open>Hash directories\<close>

record HashDirInfo =
  hd_path :: cstr
  hd_device :: u64

text \<open>The difference of two 64-bit numbers is returned as an \<^verbatim>\<open>int\<close>.\<close>

definition HashDirInfo_compareDevice :: "HashDirInfo \<Rightarrow> u64 \<Rightarrow> int" where
  "HashDirInfo_compareDevice lhs rhs = sint (ucast (hd_device lhs - rhs) :: u32)"

text \<open>The search moves the directory that was found one place to the front.\<close>

definition HashDirInfo_findDevice :: "HashDirInfo list \<Rightarrow> u64 \<Rightarrow> cstr option \<times> HashDirInfo list" where
  "HashDirInfo_findDevice coll dev =
     (case find_idx (\<lambda>h. HashDirInfo_compareDevice h dev = 0) coll of
        None \<Rightarrow> (None, coll)
      | Some i \<Rightarrow> (Some (hd_path (coll ! i)), promote vecSHIFT_ONCE i coll))"

section \<open>Which files\<close>

datatype hash_skip =
    hsDOTFILE | hsEXCL | hsTOOSMALL | hsUNSUPPORTED | hsFSTAT | hsSYMLINK | hsUNIFIED | hsWRONGDEV | hsSPECIAL | hsGENERAL

definition HASH_MINSIZE :: nat where "HASH_MINSIZE = 0x10"
definition HASH_BLOCKSIZE :: nat where "HASH_BLOCKSIZE = 0x10000000"
definition HASH_MAXBITS :: nat where "HASH_MAXBITS = 256"

text \<open>The size of the type \<^verbatim>\<open>HashPath\<close>.\<close>

definition HASHPATH_SIZE :: nat where
  "HASHPATH_SIZE = HASH_MAXBITS div 4 + HASH_MAXBITS div 4 div 2 + 4 * 2 + 3"

definition hash_checkFstat :: "bool \<Rightarrow> (cstr \<Rightarrow> (u32 \<times> u32) option) \<Rightarrow> cstr \<Rightarrow> stat option \<Rightarrow> hash_skip + stat" where
  "hash_checkFstat do_refresh get_iattr path lst =
     (case lst of
        None \<Rightarrow> Inl hsFSTAT
      | Some st \<Rightarrow>
          if st_type st = S_DIR then Inr st
          else if st_type st = S_LNK then Inl hsSYMLINK
          else if st_type st \<noteq> S_REG \<and> st_type st \<noteq> S_DIR then Inl hsSPECIAL
          else if st_size st < HASH_MINSIZE then Inl hsTOOSMALL
          else
            (case Unify_isIUnlinkable get_iattr path of
               unifyUNSUPPORTED \<Rightarrow> Inl hsUNSUPPORTED
             | unifyBUSY \<Rightarrow> if st_nlink st > 1 \<and> \<not> do_refresh then Inl hsUNIFIED else Inr st
             | unifyUINLINKABLE \<Rightarrow> Inr st))"

section \<open>The name of the reference file\<close>

definition HEX_DIGIT :: cstr where "HEX_DIGIT = ''0123456789abcdef''"

definition hex_byte :: "u8 \<Rightarrow> cstr" where
  "hex_byte b = [HEX_DIGIT ! unat (drop_bit 4 b), HEX_DIGIT ! unat (b AND 0x0f)]"

text \<open>The loop of \<^verbatim>\<open>convertDigest\<close>; \<open>i\<close> is the variable \<^verbatim>\<open>in\<close>.\<close>

fun convert_loop :: "u8 list \<Rightarrow> nat \<Rightarrow> cstr \<Rightarrow> cstr" where
  "convert_loop [] i out = out"
| "convert_loop (b # bs) i out =
     (if length out + 1 < HASHPATH_SIZE - (4 * 2 + 2)
      then
        convert_loop bs (i + 1)
          (out @ (if (i + 254) mod (if i \<le> 2 then 1 else 256) = 0 \<and> i > 0 then ''/'' else []) @ hex_byte b)
      else out)"

definition convertDigest :: "u8 list option \<Rightarrow> cstr option" where
  "convertDigest digest = map_option (\<lambda>d. convert_loop d 0 []) digest"

text \<open>The attributes that are hashed first, as bytes of a little-endian machine.\<close>

definition le_bytes :: "nat \<Rightarrow> nat \<Rightarrow> u8 list" where
  "le_bytes n v = map (\<lambda>i. of_nat (v div 256 ^ i)) [0..<n]"

definition stat_mode :: "stat \<Rightarrow> nat" where
  "stat_mode st =
     (case st_type st of
        S_REG \<Rightarrow> 0x8000 | S_LNK \<Rightarrow> 0xa000 | S_DIR \<Rightarrow> 0x4000 | S_CHR \<Rightarrow> 0x2000 | S_BLK \<Rightarrow> 0x6000 | S_FIFO \<Rightarrow> 0x1000
      | S_SOCK \<Rightarrow> 0xc000) + unat (st_perm st)"

definition addStatHash :: "bool \<Rightarrow> stat \<Rightarrow> u8 list" where
  "addStatHash ignore_mtime st =
     le_bytes 4 (stat_mode st) @ le_bytes 4 (unat (st_uid st)) @ le_bytes 4 (unat (st_gid st)) @
     le_bytes 8 (unat (st_rdev st)) @ le_bytes 8 (st_size st) @
     le_bytes 8 (if ignore_mtime then 0 else nat (st_mtime st mod 2 ^ 64))"

text \<open>
  \<open>upd\<close> feeds bytes into the hash context, which may fail; \<open>bad\<close> tells where an \<^verbatim>\<open>mmap\<close> fails or the
  file turns out to be shorter.
\<close>

function hash_loop :: "('c \<Rightarrow> u8 list \<Rightarrow> 'c option) \<Rightarrow> (nat \<Rightarrow> bool) \<Rightarrow> u8 list \<Rightarrow> nat \<Rightarrow> 'c \<Rightarrow> 'c option" where
  "hash_loop upd bad content offset ctx =
     (if offset < length content
      then
        (let buf_size = min (length content - offset) HASH_BLOCKSIZE
         in if bad offset then None
            else case upd ctx (take buf_size (drop offset content)) of
                   None \<Rightarrow> None
                 | Some ctx' \<Rightarrow> hash_loop upd bad content (offset + buf_size) ctx')
      else Some ctx)"
  by pat_completeness auto
termination
  by (relation "measure (\<lambda>(upd, bad, content, offset, ctx). length content - offset)") (auto simp: HASH_BLOCKSIZE_def)

declare hash_loop.simps [simp del]

definition calculateHashFromFD ::
  "('c \<Rightarrow> u8 list \<Rightarrow> 'c option) \<Rightarrow> ('c \<Rightarrow> u8 list option) \<Rightarrow> 'c \<Rightarrow> (nat \<Rightarrow> bool) \<Rightarrow> bool \<Rightarrow> stat \<Rightarrow> u8 list \<Rightarrow> cstr option" where
  "calculateHashFromFD upd digest ctx0 bad ignore_mtime st content =
     (case upd ctx0 (addStatHash ignore_mtime st) of
        None \<Rightarrow> None
      | Some c \<Rightarrow> Option.bind (hash_loop upd bad content 0 c) (\<lambda>c'. convertDigest (digest c')))"

text \<open>The file must still be the one that was examined; \<open>now\<close> is what \<^verbatim>\<open>fstat\<close> of the open file says.\<close>

definition calculateHash :: "stat option \<Rightarrow> (stat \<Rightarrow> cstr option) \<Rightarrow> stat \<Rightarrow> cstr option" where
  "calculateHash now hash st =
     (case now of
        None \<Rightarrow> None
      | Some f \<Rightarrow> if st_dev f \<noteq> st_dev st \<or> st_ino f \<noteq> st_ino st then None else hash st)"

section \<open>Collisions\<close>

definition collision_name :: "cstr \<Rightarrow> cstr \<Rightarrow> u32 \<Rightarrow> cstr" where
  "collision_name root d_path idx =
     root @ d_path @ ''-'' @ replicate (8 - length (digits_of 16 (unat idx))) CHR ''0'' @ digits_of 16 (unat idx)"

datatype resolved = Fresh cstr | Reuse cstr stat | Skip hash_skip

text \<open>
  \<open>lst\<close> answers \<^verbatim>\<open>lstat\<close> (\<open>Inl\<close> the error), \<open>mk\<close> whether the new empty file and its directories could be
  made. The counter is an \<^verbatim>\<open>unsigned int\<close>; the first argument bounds the rounds.
\<close>

fun resolve_loop ::
  "nat \<Rightarrow> (cstr \<Rightarrow> errno + stat) \<Rightarrow> (cstr \<Rightarrow> bool) \<Rightarrow> bool \<Rightarrow> bool \<Rightarrow> cstr \<Rightarrow> cstr \<Rightarrow> stat \<Rightarrow> u32 \<Rightarrow> resolved option" where
  "resolve_loop 0 lst mk dry_run ignore_mtime root d_path st idx = None"
| "resolve_loop (Suc n) lst mk dry_run ignore_mtime root d_path st idx =
     (let result = collision_name root d_path idx
      in case lst result of
           Inl e \<Rightarrow>
             if dry_run \<and> e \<noteq> ENOENT then Some (Skip hsGENERAL)
             else if \<not> dry_run \<and> \<not> mk result then Some (Skip hsGENERAL)
             else Some (Fresh result)
         | Inr h \<Rightarrow>
             if Unify_isUnified st h then Some (Skip hsUNIFIED)
             else if \<not> Unify_isUnifyable ignore_mtime st h
             then resolve_loop n lst mk dry_run ignore_mtime root d_path st (idx + 1)
             else Some (Reuse result h))"

definition resolveCollisions ::
  "(cstr \<Rightarrow> errno + stat) \<Rightarrow> (cstr \<Rightarrow> bool) \<Rightarrow> bool \<Rightarrow> bool \<Rightarrow> cstr \<Rightarrow> cstr \<Rightarrow> stat \<Rightarrow> resolved option" where
  "resolveCollisions lst mk dry_run ignore_mtime root d_path st =
     resolve_loop (2 ^ 32) lst mk dry_run ignore_mtime root d_path st 0"

definition hash_checkDirEntry ::
  "(cstr \<Rightarrow> cstr \<Rightarrow> int) \<Rightarrow> MatchList \<Rightarrow> (stat option \<Rightarrow> hash_skip + stat) \<Rightarrow> HashDirInfo list \<Rightarrow> (stat \<Rightarrow> cstr option) \<Rightarrow>
   (cstr \<Rightarrow> cstr \<Rightarrow> stat \<Rightarrow> resolved option) \<Rightarrow> cstr \<Rightarrow> stat option \<Rightarrow> (hash_skip + stat \<times> resolved option) option" where
  "hash_checkDirEntry fnmatch dst_list check dirs hash resolve path lst =
     (if MatchList_compare fnmatch dst_list path \<noteq> stINCLUDE then Some (Inl hsEXCL)
      else case check lst of
             Inl r \<Rightarrow> Some (Inl r)
           | Inr st \<Rightarrow>
               if st_type st = S_DIR then Some (Inr (st, None))
               else case fst (HashDirInfo_findDevice dirs (st_dev st)) of
                      None \<Rightarrow> Some (Inl hsWRONGDEV)
                    | Some root \<Rightarrow>
                        (case hash st of
                           None \<Rightarrow> Some (Inl hsGENERAL)
                         | Some d_path \<Rightarrow>
                             (case resolve root d_path st of
                                None \<Rightarrow> None
                              | Some (Skip r) \<Rightarrow> Some (Inl r)
                              | Some x \<Rightarrow> Some (Inr (st, Some x)))))"

section \<open>Linking\<close>

text \<open>
  \<^verbatim>\<open>doit\<close>: \<open>fresh\<close> is the test \<^verbatim>\<open>dst_st->st_size==0\<close>, \<open>running\<close> is \<^verbatim>\<open>Global_isVserverRunning()\<close>. A result
  \<open>None\<close> is the exit of the program inside \<^verbatim>\<open>Unify_unify\<close>.
\<close>

definition hash_cleanup :: "env \<Rightarrow> cstr \<Rightarrow> bool option \<times> fs \<Rightarrow> bool option \<times> fs" where
  "hash_cleanup env dst r =
     (case r of
        (Some False, f) \<Rightarrow> (Some False, snd (sys_unlink env dst f))
      | _ \<Rightarrow> r)"

definition vhashify_doit :: "env \<Rightarrow> bool \<Rightarrow> bool \<Rightarrow> bool \<Rightarrow> cstr \<Rightarrow> cstr \<Rightarrow> stat \<Rightarrow> fs \<Rightarrow> bool option \<times> fs" where
  "vhashify_doit env dry_run running fresh src dst src_st fs =
     (if dry_run then (Some True, fs)
      else if fresh
      then hash_cleanup env dst
             (if running
              then (case Unify_copy env src src_st dst (snd (sys_unlink env dst fs)) of
                      (False, f) \<Rightarrow> (Some False, f)
                    | (True, f) \<Rightarrow> Unify_unify env dst src False f)
              else Unify_unify env src dst True fs)
      else Unify_unify env dst src False fs)"

section \<open>Facts about the names\<close>

lemma hex_byte_inj: "hex_byte a = hex_byte b \<Longrightarrow> a = b"
proof -
  assume h: "hex_byte a = hex_byte b"
  have inj: "i = j" if "HEX_DIGIT ! i = HEX_DIGIT ! j" "i < 16" "j < 16" for i j
  proof -
    have "distinct HEX_DIGIT" "length HEX_DIGIT = 16" by (simp_all add: HEX_DIGIT_def)
    then show ?thesis using that nth_eq_iff_index_eq by metis
  qed
  have hi: "unat (drop_bit 4 x) < 16" for x :: u8
  proof -
    have "unat x < 2 ^ 8" using unsigned_less [of x] by simp
    then show ?thesis unfolding unat_drop_bit_eq by (simp add: drop_bit_eq_div)
  qed
  have lo: "unat (x AND 0x0f) < 16" for x :: u8
  proof -
    have "x AND 0x0f \<le> 0x0f" by (rule word_and_le1)
    then show ?thesis by (simp add: word_le_nat_alt)
  qed
  have "drop_bit 4 a = drop_bit 4 b" "a AND 0x0f = b AND 0x0f"
    using h inj [OF _ hi hi] inj [OF _ lo lo] by (simp_all add: hex_byte_def word_unat_eq_iff)
  moreover have "x = push_bit 4 (drop_bit 4 x) OR (x AND 0x0f)" for x :: u8
  proof -
    have m: "(0x0f :: u8) = mask 4" by (simp add: mask_eq_exp_minus_1)
    show ?thesis unfolding m by (rule bit_word_eqI) (auto simp: bit_simps)
  qed
  ultimately show ?thesis by metis
qed

lemma length_hex_byte [simp]: "length (hex_byte b) = 2"
  by (simp add: hex_byte_def)

text \<open>How many characters the loop has written before a byte.\<close>

definition out_len :: "nat \<Rightarrow> nat" where
  "out_len i = 2 * i + min i 3 - min i 1"

lemma slash_cond: "(i :: nat) < 100 \<Longrightarrow> ((i + 254) mod (if i \<le> 2 then 1 else 256) = 0 \<and> i > 0) \<longleftrightarrow> i = 1 \<or> i = 2"
  by (auto simp: mod_if)

lemma out_len_step: "out_len (i + 1) = out_len i + 2 + (if i = 1 \<or> i = 2 then 1 else 0)"
  by (auto simp: out_len_def min_def)

lemma out_len_room: "out_len i + 1 < HASHPATH_SIZE - 10 \<longleftrightarrow> i < 47"
  by (auto simp: out_len_def HASHPATH_SIZE_def HASH_MAXBITS_def min_def)

lemma convert_loop_length:
  "length out = out_len i \<Longrightarrow> i \<le> 47 \<Longrightarrow> length (convert_loop bs i out) \<le> 96"
proof (induction bs i out rule: convert_loop.induct)
  case (1 i out)
  then show ?case by (simp add: out_len_def min_def split: if_splits)
next
  case (2 b bs i out)
  show ?case
  proof (cases "i < 47")
    case True
    then have r: "length out + 1 < HASHPATH_SIZE - (4 * 2 + 2)" using 2(2) out_len_room [of i] by simp
    then show ?thesis using 2 True slash_cond [of i] out_len_step [of i] by auto
  next
    case False
    then have "\<not> length out + 1 < HASHPATH_SIZE - (4 * 2 + 2)" using 2(2) out_len_room [of i] by simp
    then show ?thesis using 2(2,3) by (auto simp: out_len_def min_def split: if_splits)
  qed
qed

lemma convert_loop_inj:
  "length bs = length bs' \<Longrightarrow> length out = out_len i \<Longrightarrow> length out' = length out \<Longrightarrow> i + length bs \<le> 47 \<Longrightarrow>
   convert_loop bs i out = convert_loop bs' i out' \<Longrightarrow> out = out' \<and> bs = bs'"
proof (induction bs bs' arbitrary: i out out' rule: list_induct2)
  case (Cons b bs b' bs')
  let ?s = "if i = 1 \<or> i = 2 then ''/'' else []"
  have i: "i < 47" using Cons.prems(3) by simp
  then have r: "length out + 1 < HASHPATH_SIZE - (4 * 2 + 2)" using Cons.prems(1) out_len_room [of i] by simp
  have c: "convert_loop (x # xs) i o1 = convert_loop xs (i + 1) (o1 @ ?s @ hex_byte x)" if "length o1 = length out" for x xs o1
    using that r slash_cond [of i] i by simp
  have "out @ ?s @ hex_byte b = out' @ ?s @ hex_byte b' \<and> bs = bs'"
    using Cons.prems c [of out b bs] c [of out' b' bs'] out_len_step [of i]
    by (intro Cons.IH [of _ "i + 1"]) auto
  then show ?case using Cons.prems(2) hex_byte_inj [of b b'] by auto
qed simp

lemma collision_name_inj: "collision_name root d i = collision_name root d j \<Longrightarrow> i = j"
proof -
  assume "collision_name root d i = collision_name root d j"
  then have "replicate (8 - length (digits_of 16 (unat i))) CHR ''0'' @ digits_of 16 (unat i) =
    replicate (8 - length (digits_of 16 (unat j))) CHR ''0'' @ digits_of 16 (unat j)"
    by (simp add: collision_name_def)
  moreover have "unat x < 16 ^ 8" for x :: u32 using unsigned_less [of x] by simp
  ultimately have "unat i = unat j" using zero_padded_hex [of _ 8] by (metis zero_less_numeral)
  then show ?thesis by (simp add: word_unat_eq_iff)
qed

text \<open>Hashing block by block is hashing at once, when feeding two pieces is feeding both together.\<close>

lemma hash_loop_whole:
  assumes "\<And>c x y. upd c (x @ y) = Option.bind (upd c x) (\<lambda>c'. upd c' y)" "\<And>c. upd c [] = Some c" "\<And>n. \<not> bad n"
  shows "hash_loop upd bad content offset c = upd c (drop offset content)"
proof (induction "length content - offset" arbitrary: offset c rule: less_induct)
  case less
  show ?case
  proof (cases "offset < length content")
    case False
    then show ?thesis using assms(2) by (subst hash_loop.simps) simp
  next
    case True
    define b where "b = min (length content - offset) HASH_BLOCKSIZE"
    have b: "0 < b" "offset + b \<le> length content" using True by (auto simp: b_def HASH_BLOCKSIZE_def)
    have "hash_loop upd bad content offset c =
      Option.bind (upd c (take b (drop offset content))) (hash_loop upd bad content (offset + b))"
      using True assms(3) by (subst hash_loop.simps) (simp add: Let_def b_def [symmetric] split: option.splits)
    also have "\<dots> = Option.bind (upd c (take b (drop offset content))) (\<lambda>c'. upd c' (drop (offset + b) content))"
      using less [of "offset + b"] b True by (cases "upd c (take b (drop offset content))") simp_all
    also have "\<dots> = upd c (take b (drop offset content) @ drop (offset + b) content)" by (simp add: assms(1))
    also have "take b (drop offset content) @ drop (offset + b) content = drop offset content"
      by (metis append_take_drop_id drop_drop add.commute)
    finally show ?thesis .
  qed
qed

section \<open>Collisions\<close>

definition stops :: "(cstr \<Rightarrow> errno + stat) \<Rightarrow> bool \<Rightarrow> cstr \<Rightarrow> cstr \<Rightarrow> stat \<Rightarrow> nat \<Rightarrow> bool" where
  "stops lst ignore_mtime root d_path st k =
     (case lst (collision_name root d_path (of_nat k)) of
        Inl _ \<Rightarrow> True
      | Inr h \<Rightarrow> Unify_isUnified st h \<or> Unify_isUnifyable ignore_mtime st h)"

lemma resolve_loop_first:
  assumes "stops lst im root d st k" "\<forall>i < k. \<not> stops lst im root d st i" "j \<le> k" "k < j + n"
  shows "resolve_loop n lst mk dry im root d st (of_nat j) = resolve_loop 1 lst mk dry im root d st (of_nat k)"
  using assms(3,4)
proof (induction n arbitrary: j)
  case (Suc n)
  show ?case
  proof (cases "j = k")
    case True
    then show ?thesis using assms(1) by (auto simp: stops_def Let_def split: sum.splits)
  next
    case False
    then have "\<not> stops lst im root d st j" using assms(2) Suc.prems by simp
    then have "resolve_loop (Suc n) lst mk dry im root d st (of_nat j) = resolve_loop n lst mk dry im root d st (of_nat (Suc j))"
      by (auto simp: stops_def Let_def add.commute split: sum.splits)
    then show ?thesis using Suc.IH [of "Suc j"] Suc.prems False by simp
  qed
qed simp

section \<open>Properties\<close>

definition file_at :: "fs \<Rightarrow> cstr \<Rightarrow> inode option" where
  "file_at fs n = Option.bind (names fs n) (inodes fs)"

lemma same_file_copy: "same_file a b \<Longrightarrow> is_copy a b"
  unfolding same_file_def is_copy_def same_object_def by (cases a; cases b) auto

lemma copy_same_file: "is_copy a b \<Longrightarrow> same_file b c \<Longrightarrow> is_copy a c"
  unfolding same_file_def is_copy_def same_object_def by (cases a; cases b; cases c) auto

lemma keeps_file_at:
  assumes "keeps D f g" "n \<notin> D" "file_at f n = Some nd"
  shows "\<exists>nd'. file_at g n = Some nd' \<and> same_file nd nd'"
proof -
  obtain i where i: "names f n = Some i" "inodes f i = Some nd" using assms(3) by (auto simp: file_at_def bind_eq_Some_conv)
  then obtain nd' where "inodes g i = Some nd'" "same_file nd nd'" using assms(1) unfolding keeps_def by blast
  moreover have "names g n = Some i" using assms(1,2) i(1) unfolding keeps_def by (metis option.distinct(1))
  ultimately show ?thesis by (simp add: file_at_def)
qed

text \<open>
  What is left of the file \<open>nd\<close> of the name \<open>src\<close> after \<^verbatim>\<open>Unify_unify\<close> to a reference file: the name leads
  to the file or to the reference, the file is under the name of its backup after an exit, or the name
  is gone because an \<^verbatim>\<open>lstat\<close> was refused.
\<close>

definition name_lost :: "env \<Rightarrow> cstr \<Rightarrow> bool option \<Rightarrow> fs \<Rightarrow> bool" where
  "name_lost env src res g \<longleftrightarrow> res = Some False \<and> names g src = None \<and> (\<exists>h. refuses env (c_lstat src) h)"

lemma unify_to_reference:
  assumes "Unify_unify env ref src False f = (res, g)" "wf_fs f" "file_at f src = Some nd"
  shows "keeps {src} f g \<and>
    ((\<exists>n x. file_at g n = Some x \<and> same_file nd x \<and> (n = src \<or> res = None)) \<or>
     res = Some True \<and> names g src = names f ref \<and> names f ref \<noteq> None \<or> name_lost env src res g)"
proof -
  note F = Unify_unify_facts [OF assms(1,2)]
  obtain i where i: "names f src = Some i" "inodes f i = Some nd" using assms(3) by (auto simp: file_at_def bind_eq_Some_conv)
  then obtain x where x: "inodes g i = Some x" "same_file nd x" using F unfolding keeps_def by blast
  have at: "file_at g n = Some x" if "names g n = names f src" for n using that x i by (simp add: file_at_def)
  show ?thesis
  proof (cases res)
    case None
    then show ?thesis using F at x(2) by auto
  next
    case (Some ok)
    then show ?thesis using F at x(2) by (cases ok) (auto simp: name_lost_def)
  qed
qed

text \<open>Linking the source to a reference file that is a copy of it.\<close>

lemma unify_with_copy:
  assumes "Unify_unify env ref src False f = (res, g)" "wf_fs f" "file_at f src = Some nd" "file_at f ref = Some nd'" "is_copy nd nd'"
  shows "(\<exists>n x. file_at g n = Some x \<and> is_copy nd x \<and> (n = src \<or> res = None)) \<or> name_lost env src res g"
proof -
  note U = unify_to_reference [OF assms(1-3)]
  obtain r where r: "names f ref = Some r" "inodes f r = Some nd'"
    using assms(4) by (auto simp: file_at_def bind_eq_Some_conv)
  then obtain x where "inodes g r = Some x" "same_file nd' x" using U unfolding keeps_def by blast
  then have "file_at g src = Some x \<and> is_copy nd x" if "names g src = names f ref"
    using that r copy_same_file [OF assms(5)] by (simp add: file_at_def)
  then show ?thesis using U same_file_copy by blast
qed

text \<open>Making the reference file of a running vserver and linking to it.\<close>

lemma running_keeps_content:
  assumes r: "(case Unify_copy env src st dst f of (False, g) \<Rightarrow> (Some False, g) | (True, g) \<Rightarrow> Unify_unify env dst src False g) = (res, g)"
    and "wf_fs f" "names f src = Some i" "inodes f i = Some nd" "describes st f i nd" "i_type nd = S_REG"
  shows "keeps {src} f g \<and>
    ((\<exists>n x. file_at g n = Some x \<and> is_copy nd x \<and> (n = src \<or> res = None)) \<or> name_lost env src res g)"
proof -
  obtain ok1 f1 where 1: "Unify_copy env src st dst f = (ok1, f1)" by force
  note c = Unify_copy_facts [OF 1 assms(2-5)]
  have w1: "wf_fs f1" using wf_Unify_copy [OF assms(2), of env src st dst] 1 by simp
  have k1: "keeps {src} f f1" using c keeps_mono by blast
  have s0: "file_at f src = Some nd" using assms(3,4) by (simp add: file_at_def)
  obtain x where x: "file_at f1 src = Some x" "same_file nd x" using keeps_file_at [OF _ _ s0, of "{}" f1] c by auto
  show ?thesis
  proof (cases ok1)
    case False
    then show ?thesis using r 1 x k1 same_file_copy by auto
  next
    case True
    then obtain n' where n': "made f dst n' f1" "is_copy nd n'" using c assms(6) by auto
    have x': "x = nd"
    proof -
      have "inodes f1 i = inodes f i" using n'(1) wf_name_old [OF assms(2,3)] by (simp add: made_def)
      moreover have "names f1 src = names f src" using n'(1) assms(3) by (auto simp: made_def)
      ultimately show ?thesis using x(1) assms(3,4) by (simp add: file_at_def)
    qed
    have d: "file_at f1 dst = Some n'" using n'(1) by (simp add: file_at_def made_def)
    have u: "Unify_unify env dst src False f1 = (res, g)" using r 1 True by simp
    have "keeps {src} f g" using keeps_trans [OF k1] unify_to_reference [OF u w1 x(1)] by blast
    then show ?thesis using unify_with_copy [OF u w1 x(1) d] x' n'(2) by simp
  qed
qed

lemma hash_cleanup_result:
  assumes "hash_cleanup env dst (r, g) = (res, f)"
  shows "res = r" "f = g \<or> r = Some False \<and> f = snd (sys_unlink env dst g)"
  using assms by (auto simp: hash_cleanup_def split: option.splits bool.splits)



text \<open>
  C35. The name of a reference file determines the digest: for digests of up to 47 bytes (the longest
  hash in use has 32) two digests of the same length get different names, and with the number that
  resolves collisions the name always fits the buffer.\<close>

theorem convertDigest_names:
  assumes "convertDigest (Some d) = Some p" "convertDigest (Some d') = Some p'"
    and "length d = length d'" "length d \<le> 47"
  shows "(p = p' \<longrightarrow> d = d') \<and> length (collision_name [] p idx) + 1 < HASHPATH_SIZE"
proof -
  have p: "p = convert_loop d 0 []" "p' = convert_loop d' 0 []" using assms(1,2) by (simp_all add: convertDigest_def)
  have "length p \<le> 96" using convert_loop_length [of "[]" 0 d] by (simp add: p out_len_def)
  moreover have "length (digits_of 16 (unat idx)) \<le> 8"
    using length_digits_of [of 16 "unat idx" 8] unsigned_less [of idx] by simp
  ultimately have "length (collision_name [] p idx) + 1 < HASHPATH_SIZE"
    by (simp add: collision_name_def HASHPATH_SIZE_def HASH_MAXBITS_def)
  moreover have "d = d'" if "p = p'"
    using convert_loop_inj [of d d' "[]" 0 "[]"] assms(3,4) that by (simp add: p out_len_def)
  ultimately show ?thesis by blast
qed

theorem convertDigest_names_witness:
  "convertDigest (Some [0xab, 0xcd, 0x01, 0x02]) = Some ''ab/cd/0102'' \<and>
   length (collision_name [] ''ab/cd/0102'' 5) + 1 < HASHPATH_SIZE"
proof -
  have "convertDigest (Some [0xab, 0xcd, 0x01, 0x02]) = Some ''ab/cd/0102''"
    by (simp add: convertDigest_def HASHPATH_SIZE_def HASH_MAXBITS_def hex_byte_def HEX_DIGIT_def)
  from convertDigest_names [OF this this, of 5] this show ?thesis by auto
qed

text \<open>
  The search for a free number ends at the first one whose name is unused, already linked to the
  file, or has a fitting file; the loop then returns what this number gives. Only when all \<open>2^32\<close>
  numbers are taken by other files does it not end.\<close>

lemma resolveCollisions_first:
  assumes "stops lst ignore_mtime root d_path st k" "\<forall>i < k. \<not> stops lst ignore_mtime root d_path st i" "k < 2 ^ 32"
  shows "resolveCollisions lst mk dry_run ignore_mtime root d_path st =
    (let name = collision_name root d_path (of_nat k)
     in case lst name of
          Inl e \<Rightarrow> Some (if (if dry_run then e = ENOENT else mk name) then Fresh name else Skip hsGENERAL)
        | Inr h \<Rightarrow> Some (if Unify_isUnified st h then Skip hsUNIFIED else Reuse name h))"
proof -
  have "resolveCollisions lst mk dry_run ignore_mtime root d_path st =
    resolve_loop 1 lst mk dry_run ignore_mtime root d_path st (of_nat k)"
    unfolding resolveCollisions_def using resolve_loop_first [OF assms(1,2), of 0 "2 ^ 32"] assms(3) by simp
  then show ?thesis using assms(1) by (auto simp: stops_def Let_def split: sum.splits)
qed

lemma resolveCollisions_first_example:
  "resolveCollisions (\<lambda>n. if n = ''/h/ab-00000000'' then Inr (file_stat 7\<lparr>st_size := 99\<rparr>) else Inl ENOENT) (\<lambda>_. True)
     False False ''/h/'' ''ab'' (file_stat 1) = Some (Fresh ''/h/ab-00000001'')"
proof -
  let ?l = "\<lambda>n. if n = ''/h/ab-00000000'' then Inr (file_stat 7\<lparr>st_size := 99\<rparr>) else Inl ENOENT"
  have n: "collision_name ''/h/'' ''ab'' (of_nat 0) = ''/h/ab-00000000''"
    "collision_name ''/h/'' ''ab'' (of_nat 1) = ''/h/ab-00000001''" by code_simp+
  have "stops ?l False ''/h/'' ''ab'' (file_stat 1) 1" "\<not> stops ?l False ''/h/'' ''ab'' (file_stat 1) 0"
    using n by (simp_all add: stops_def Unify_isUnified_def Unify_isUnifyable_def file_stat_def)
  then show ?thesis
    using resolveCollisions_first [of ?l False "''/h/''" "''ab''" "file_stat 1" 1 "\<lambda>_. True" False] n by simp
qed

text \<open>Devices whose numbers agree in the lower 32 bits are taken for the same.\<close>

lemma compareDevice_truncates: "HashDirInfo_compareDevice h (hd_device h + push_bit 32 x) = 0"
proof -
  have "hd_device h - (hd_device h + push_bit 32 x) = push_bit 32 (- x)" by (simp add: push_bit_eq_mult)
  moreover have "(ucast (push_bit 32 (- x)) :: u32) = 0" by (rule bit_word_eqI) (simp add: bit_simps)
  ultimately show ?thesis by (simp add: HashDirInfo_compareDevice_def)
qed

end
