(* ===== verification/CBuffer.thy ===== *)
theory CBuffer
  imports Prelude "HOL-Library.Monad_Syntax"
begin

text \<open>
  Character arrays on the stack. A buffer of \<open>n\<close> bytes starts with arbitrary contents, given by a
  function that every definition takes as a parameter; \<^verbatim>\<open>memcpy\<close> and \<^verbatim>\<open>strcpy\<close> to an offset return
  \<open>None\<close> when they would write behind the end, and a buffer is read as a string up to its first
  null byte. A routine that is shown to return \<open>Some\<close> for all contents neither overruns its buffer nor
  depends on bytes it has not written.
\<close>

type_synonym cbuf = "char list"

definition alloca :: "(nat \<Rightarrow> char) \<Rightarrow> nat \<Rightarrow> cbuf" where
  "alloca junk n = map junk [0..<n]"

definition memcpy_at :: "nat \<Rightarrow> cstr \<Rightarrow> cbuf \<Rightarrow> cbuf option" where
  "memcpy_at off s buf =
     (if off + length s \<le> length buf
      then Some (take off buf @ s @ drop (off + length s) buf) else None)"

definition strcpy_at :: "nat \<Rightarrow> cstr \<Rightarrow> cbuf \<Rightarrow> cbuf option" where
  "strcpy_at off s buf = memcpy_at off (s @ [NUL]) buf"

definition c_string :: "cbuf \<Rightarrow> cstr option" where
  "c_string buf = (if NUL \<in> set buf then Some (takeWhile (\<lambda>c. c \<noteq> NUL) buf) else None)"

text \<open>\<^verbatim>\<open>sizeof\<close> of a string literal.\<close>

definition sizeof :: "cstr \<Rightarrow> nat" where
  "sizeof s = length s + 1"

named_theorems cbuf_simps

lemma length_alloca [simp]: "length (alloca junk n) = n"
  by (simp add: alloca_def)

lemma sizeof_append [cbuf_simps]: "sizeof (s @ t) = length s + length t + 1"
  by (simp add: sizeof_def)

text \<open>A buffer of which the first bytes are known.\<close>

definition filled :: "cstr \<Rightarrow> cbuf \<Rightarrow> cbuf" where
  "filled p buf = p @ drop (length p) buf"

lemma length_filled [simp]: "length p \<le> length buf \<Longrightarrow> length (filled p buf) = length buf"
  by (simp add: filled_def)

lemma memcpy_at_0 [cbuf_simps]:
  "length s \<le> length buf \<Longrightarrow> memcpy_at 0 s buf = Some (filled s buf)"
  by (simp add: memcpy_at_def filled_def)

lemma memcpy_at_filled [cbuf_simps]:
  "off \<le> length p \<Longrightarrow> length p \<le> length buf \<Longrightarrow> off + length s \<le> length buf \<Longrightarrow>
   memcpy_at off s (filled p buf) = Some (filled (take off p @ s) (filled p buf))"
  by (simp add: memcpy_at_def filled_def min_absorb2)

lemma c_string_filled [cbuf_simps]: "NUL \<in> set p \<Longrightarrow> c_string (filled p buf) = c_string p"
  by (auto simp: c_string_def filled_def takeWhile_append1)

lemma memcpy_at_overrun: "length buf < off + length s \<Longrightarrow> memcpy_at off s buf = None"
  by (simp add: memcpy_at_def)

lemma length_memcpy_at: "memcpy_at off s buf = Some b \<Longrightarrow> length b = length buf"
  by (auto simp: memcpy_at_def split: if_splits)

lemma takeWhile_cstr_all [simp]: "is_cstr s \<Longrightarrow> takeWhile (\<lambda>c. c \<noteq> NUL) s = s"
  by (induction s) auto

lemma c_string_append [cbuf_simps]:
  "is_cstr s \<Longrightarrow> c_string (s @ r) = map_option ((@) s) (c_string r)"
  by (induction s) (auto simp: c_string_def)

lemma c_string_Cons [cbuf_simps]:
  "c_string (c # r) = (if c = NUL then Some [] else map_option ((#) c) (c_string r))"
  by (simp add: c_string_def)

text \<open>The contents of a file as a string: everything up to its first null byte.\<close>

lemma is_cstr_upto_NUL [simp]: "is_cstr (takeWhile (\<lambda>c. c \<noteq> NUL) s)"
  by (auto simp: is_cstr_def dest: set_takeWhileD)

end
