(* ===== verification/VserverCfg.thy ===== *)
theory VserverCfg
  imports CBuffer NumParse VserverH Unify
begin

text \<open>
  Configurations of vservers: \<^verbatim>\<open>lib/getvservercfgstyle.c\<close>, \<^verbatim>\<open>getvserverctx.c\<close>,
  \<^verbatim>\<open>getvservername.c\<close>, \<^verbatim>\<open>getvservervdir.c\<close>, \<^verbatim>\<open>getvserverappdir.c\<close>, \<^verbatim>\<open>getvservercfgdir.c\<close>,
  \<^verbatim>\<open>getvserverbyctx.c\<close> with its two implementations, \<^verbatim>\<open>comparevserverbyid.c\<close> and the file tests
  \<^verbatim>\<open>isdirectory.c\<close>, \<^verbatim>\<open>isfile.c\<close>, \<^verbatim>\<open>islink.c\<close>.

  A vserver is named by an identifier and a style; the functions build path names in arrays on the
  stack and ask the host for files. The answers of the host and the directories that are chosen when
  the package is configured are the record \<open>host\<close>. A result \<open>None\<close> of a definition that works on a
  buffer is a write behind the end of the buffer, the use of a null pointer, or an abort.
\<close>

section \<open>The host\<close>

fun style_num :: "vcCfgStyle \<Rightarrow> int" where
  "style_num vcCFG_NONE = 0"
| "style_num vcCFG_AUTO = 1"
| "style_num vcCFG_LEGACY = 2"
| "style_num vcCFG_RECENT_SHORT = 3"
| "style_num vcCFG_RECENT_FULL = 4"

record host =
  CONFDIR :: cstr
  DEFAULT_VSERVERDIR :: cstr
  DEFAULT_PKGSTATEDIR :: cstr
  DEFAULT_PKGSTATEREVDIR :: cstr
  api_compat :: bool
  h_stat :: "cstr \<Rightarrow> stat option"
  h_lstat :: "cstr \<Rightarrow> stat option"
  h_access :: "cstr \<Rightarrow> bool"
  h_open :: "cstr \<Rightarrow> bool"
  h_end :: "cstr \<Rightarrow> int"
  h_rewind :: "cstr \<Rightarrow> bool"
  h_read :: "cstr \<Rightarrow> nat \<Rightarrow> cstr option"
  h_realpath :: "cstr \<Rightarrow> cstr option"
  h_open_dot :: bool
  h_chdir_getcwd :: "cstr \<Rightarrow> cstr option"
  h_fchdir :: bool
  h_opendir :: "cstr \<Rightarrow> cstr list option"
  h_kernel :: kernel_info
  h_no_context :: "xid_t \<Rightarrow> bool"
  h_vhi_name :: "xid_t \<Rightarrow> cstr option"

text \<open>The directories with the slash that the literals append to them.\<close>

definition conf_dir :: "host \<Rightarrow> cstr" where
  "conf_dir h = CONFDIR h @ ''/''"

definition vserver_dir :: "host \<Rightarrow> cstr" where
  "vserver_dir h = DEFAULT_VSERVERDIR h @ ''/''"

definition host_paths :: "host \<Rightarrow> bool" where
  "host_paths h \<longleftrightarrow> is_cstr (CONFDIR h) \<and> is_cstr (DEFAULT_VSERVERDIR h) \<and>
     is_cstr (DEFAULT_PKGSTATEDIR h) \<and> is_cstr (DEFAULT_PKGSTATEREVDIR h)"

section \<open>File tests\<close>

definition utilvserver_isDirectory :: "host \<Rightarrow> cstr \<Rightarrow> bool \<Rightarrow> bool" where
  "utilvserver_isDirectory h path follow_link =
     (case (if follow_link then h_stat h path else h_lstat h path) of
        None \<Rightarrow> False
      | Some st \<Rightarrow> st_type st = S_DIR)"

definition utilvserver_isFile :: "host \<Rightarrow> cstr \<Rightarrow> bool \<Rightarrow> bool" where
  "utilvserver_isFile h path follow_link =
     (case (if follow_link then h_stat h path else h_lstat h path) of
        None \<Rightarrow> False
      | Some st \<Rightarrow> st_type st = S_REG)"

definition utilvserver_isLink :: "host \<Rightarrow> cstr \<Rightarrow> bool" where
  "utilvserver_isLink h path =
     (case h_lstat h path of None \<Rightarrow> False | Some st \<Rightarrow> st_type st = S_LNK)"

section \<open>The style of a configuration\<close>

definition isRelPath :: "cstr \<Rightarrow> bool" where
  "isRelPath p \<longleftrightarrow>
     deref p = CHR ''.'' \<and>
     (deref (drop 1 p) = CHR ''/'' \<or> deref (drop 1 p) = CHR ''.'' \<and> deref (drop 2 p) = CHR ''/'')"

definition isAbsPath :: "cstr \<Rightarrow> bool" where
  "isAbsPath p \<longleftrightarrow> deref p = CHR ''/''"

text \<open>The last step: a configuration with an entry \<^verbatim>\<open>legacy\<close> is a legacy one.\<close>

definition legacy_marker :: "host \<Rightarrow> nat \<Rightarrow> vcCfgStyle \<Rightarrow> cbuf \<Rightarrow> vcCfgStyle option" where
  "legacy_marker h marker res buf =
     (if res = vcCFG_RECENT_FULL \<or> res = vcCFG_RECENT_SHORT
      then do {
        buf \<leftarrow> strcpy_at marker ''/legacy'' buf;
        p \<leftarrow> c_string buf;
        Some (if h_access h p then vcCFG_LEGACY else res)
      }
      else Some res)"

definition short_style :: "host \<Rightarrow> cstr \<Rightarrow> cbuf \<Rightarrow> (vcCfgStyle \<times> nat \<times> cbuf) option" where
  "short_style h vid buf = do {
     let l1 = length vid;
     buf \<leftarrow> strcpy_at 0 (conf_dir h) buf;
     buf \<leftarrow> strcpy_at (sizeof (conf_dir h) - 1) vid buf;
     let marker = sizeof (conf_dir h) + l1 - 1;
     buf \<leftarrow> strcpy_at marker ''/vdir'' buf;
     p \<leftarrow> c_string buf;
     if utilvserver_isDirectory h p True then Some (vcCFG_RECENT_SHORT, marker, buf)
     else do {
       buf \<leftarrow> strcpy_at 0 (vserver_dir h) buf;
       buf \<leftarrow> strcpy_at (sizeof (DEFAULT_VSERVERDIR h) + 1 - 1) vid buf;
       p \<leftarrow> c_string buf;
       if utilvserver_isDirectory h p True
       then do {
         buf \<leftarrow> strcpy_at 0 (conf_dir h) buf;
         buf \<leftarrow> strcpy_at (sizeof (conf_dir h) - 1) vid buf;
         buf \<leftarrow> strcpy_at (sizeof (conf_dir h) + l1 - 1) ''.conf'' buf;
         p \<leftarrow> c_string buf;
         Some (if utilvserver_isFile h p True then vcCFG_LEGACY else vcCFG_NONE, marker, buf)
       }
       else Some (vcCFG_NONE, marker, buf)
     }
   }"

definition vc_getVserverCfgStyle :: "host \<Rightarrow> (nat \<Rightarrow> char) \<Rightarrow> cstr \<Rightarrow> vcCfgStyle option" where
  "vc_getVserverCfgStyle h junk vid = do {
     let l1 = length vid;
     let buf = alloca junk (l1 + max (sizeof (conf_dir h)) (sizeof (vserver_dir h)) +
                            max (sizeof ''/legacy'') (sizeof ''.conf'') - 1);
     buf \<leftarrow> strcpy_at 0 vid buf;
     buf \<leftarrow> strcpy_at l1 ''/vdir'' buf;
     p \<leftarrow> c_string buf;
     let is_path = isAbsPath p \<or> isRelPath p;
     if is_path \<and> (utilvserver_isDirectory h p True \<or> utilvserver_isLink h p)
     then legacy_marker h l1 vcCFG_RECENT_FULL buf
     else if \<not> is_path
     then do {
       (res, marker, buf) \<leftarrow> short_style h vid buf;
       legacy_marker h marker res buf
     }
     else Some vcCFG_NONE
   }"

definition resolve_style :: "host \<Rightarrow> (nat \<Rightarrow> char) \<Rightarrow> cstr \<Rightarrow> vcCfgStyle \<Rightarrow> vcCfgStyle option" where
  "resolve_style h junk vid style =
     (if style = vcCFG_NONE \<or> style = vcCFG_AUTO then vc_getVserverCfgStyle h junk vid else Some style)"

section \<open>Reading the context\<close>

definition strstr :: "cstr \<Rightarrow> cstr \<Rightarrow> nat option" where
  "strstr s t = find_idx (\<lambda>i. take (length t) (drop i s) = t) [0..<length s + 1]"

text \<open>\<^verbatim>\<open>atoi\<close> followed by the conversion to the unsigned type of contexts.\<close>

definition atoi_xid :: "cstr \<Rightarrow> xid_t" where
  "atoi_xid s = word_of_int (fst (strtol 10 s))"

definition extractLegacyXID :: "host \<Rightarrow> (nat \<Rightarrow> char) \<Rightarrow> cstr \<Rightarrow> cstr \<Rightarrow> xid_t option" where
  "extractLegacyXID h junk dir basename =
     (if \<not> api_compat h then Some VC_NOCTX
      else do {
        let path = alloca junk (length dir + length basename + sizeof ''/.ctx'');
        path \<leftarrow> memcpy_at 0 dir path;
        path \<leftarrow> memcpy_at (length dir) ''/'' path;
        path \<leftarrow> memcpy_at (length dir + 1) basename path;
        path \<leftarrow> memcpy_at (length dir + 1 + length basename) (''.ctx'' @ [NUL]) path;
        p \<leftarrow> c_string path;
        if \<not> h_open h p then Some VC_NOCTX
        else if h_end h p \<noteq> - 1 \<and> h_rewind h p
        then (let len = nat (h_end h p)
              in case h_read h p (len + 1) of
                   None \<Rightarrow> None
                 | Some d \<Rightarrow>
                     if length d \<noteq> len then None
                     else (let buf = takeWhile (\<lambda>c. c \<noteq> NUL) (NL # d)
                           in case strstr buf (NL # ''S_CONTEXT='') of
                                None \<Rightarrow> None
                              | Some i \<Rightarrow>
                                  (let pos = drop (i + 11) buf
                                   in Some (if isdigit (deref pos) \<and> deref pos \<noteq> CHR ''0''
                                            then atoi_xid pos else VC_NOCTX))))
        else Some VC_NOCTX
      })"

definition getCtxFromFile :: "host \<Rightarrow> cstr \<Rightarrow> xid_t" where
  "getCtxFromFile h pathname =
     (if \<not> h_open h pathname then VC_NOCTX
      else
        (let len = h_end h pathname
         in if len = - 1 \<or> len > 50 \<or> \<not> h_rewind h pathname then VC_NOCTX
            else
              (case h_read h pathname (nat len + 1) of
                 None \<Rightarrow> VC_NOCTX
               | Some d \<Rightarrow>
                   if int (length d) \<noteq> len then VC_NOCTX
                   else
                     (let (res, errptr, _) = strtol 10 (takeWhile (\<lambda>c. c \<noteq> NUL) d)
                      in if deref errptr \<noteq> NUL \<and> deref errptr \<noteq> NL then VC_NOCTX
                         else word_of_int res))))"

section \<open>Comparing vservers\<close>

definition completePath :: "host \<Rightarrow> (nat \<Rightarrow> char) \<Rightarrow> cstr \<Rightarrow> vcCfgStyle \<Rightarrow> cstr option option" where
  "completePath h junk vid style =
     (case style of
        vcCFG_RECENT_FULL \<Rightarrow> Some (Some vid)
      | vcCFG_RECENT_SHORT \<Rightarrow> do {
          let buf = alloca junk (sizeof (CONFDIR h @ ''//'') + length vid);
          buf \<leftarrow> memcpy_at 0 (conf_dir h) buf;
          buf \<leftarrow> memcpy_at (sizeof (conf_dir h) - 1) (vid @ [NUL]) buf;
          p \<leftarrow> c_string buf;
          Some (Some p)
        }
      | _ \<Rightarrow> Some None)"

text \<open>The difference of the device and inode numbers, computed in 64 bits and returned as \<^verbatim>\<open>int\<close>.\<close>

definition stat_difference :: "stat \<Rightarrow> stat \<Rightarrow> int" where
  "stat_difference l r =
     sint (ucast ((st_dev l - st_dev r) + (of_nat (st_ino l) - of_nat (st_ino r)) :: u64) :: u32)"

definition vc_compareVserverById ::
  "host \<Rightarrow> (nat \<Rightarrow> char) \<Rightarrow> cstr \<Rightarrow> vcCfgStyle \<Rightarrow> cstr \<Rightarrow> vcCfgStyle \<Rightarrow> int option" where
  "vc_compareVserverById h junk lhs lhs_style rhs rhs_style = do {
     lhs_style \<leftarrow> resolve_style h junk lhs lhs_style;
     rhs_style \<leftarrow> resolve_style h junk rhs rhs_style;
     if lhs_style = vcCFG_LEGACY \<or> rhs_style = vcCFG_LEGACY
     then Some (if lhs_style \<noteq> rhs_style then style_num lhs_style - style_num rhs_style else strcmp lhs rhs)
     else do {
       path_lhs \<leftarrow> completePath h junk lhs lhs_style;
       path_rhs \<leftarrow> (if path_lhs = None then Some None else completePath h junk rhs rhs_style);
       Some
         (case (path_lhs, path_rhs) of
            (None, _) \<Rightarrow> strcmp lhs rhs
          | (Some _, None) \<Rightarrow> 1
          | (Some l, Some r) \<Rightarrow>
              (case (h_stat h l, h_stat h r) of
                 (Some sl, Some sr) \<Rightarrow> stat_difference sl sr
               | _ \<Rightarrow> strcmp lhs rhs))
     }
   }"

section \<open>From a context to its vserver\<close>

text \<open>
  The functions in this section and the one that reads the context of a vserver call each other. The
  call back is an argument here. A pointer to a style is an option, \<open>None\<close> for the null pointer; the
  results are the name, when there is one, and the style behind the pointer.
\<close>

type_synonym get_ctx = "cstr \<Rightarrow> vcCfgStyle \<Rightarrow> bool \<Rightarrow> vcCtxType \<Rightarrow> (xid_t \<times> bool) option"

definition vc_getVserverByCtx_v13 ::
  "host \<Rightarrow> get_ctx \<Rightarrow> xid_t \<Rightarrow> vcCfgStyle option \<Rightarrow> bool \<Rightarrow> (cstr option \<times> vcCfgStyle option) option" where
  "vc_getVserverByCtx_v13 h get_ctx ctx style validate_result =
     (case h_vhi_name h ctx of
        None \<Rightarrow> Some (None, style)
      | Some buf \<Rightarrow>
          if \<not> validate_result then Some (Some buf, map_option (\<lambda>_. vcCFG_RECENT_FULL) style)
          else do {
            (x, _) \<leftarrow> get_ctx buf vcCFG_RECENT_FULL False vcCTX_XID;
            Some (if x = ctx then (Some buf, map_option (\<lambda>_. vcCFG_RECENT_FULL) style) else (None, style))
          })"

fun legacy_loop :: "get_ctx \<Rightarrow> xid_t \<Rightarrow> cstr list \<Rightarrow> cstr option option" where
  "legacy_loop get_ctx xid [] = Some None"
| "legacy_loop get_ctx xid (name # rest) =
     (let l = length name
      in if l \<le> 4 \<or> strcmp (drop (l - 4) name) ''.ctx'' \<noteq> 0 then legacy_loop get_ctx xid rest
         else do {
           (cur_xid, _) \<leftarrow> get_ctx (take (l - 4) name) vcCFG_LEGACY False vcCTX_XID;
           if cur_xid \<noteq> xid then legacy_loop get_ctx xid rest else Some (Some (take (l - 4) name))
         })"

definition handleLegacy :: "host \<Rightarrow> get_ctx \<Rightarrow> xid_t \<Rightarrow> cstr option option" where
  "handleLegacy h get_ctx xid =
     (if \<not> api_compat h then Some None
      else case h_opendir h (DEFAULT_PKGSTATEDIR h) of
             None \<Rightarrow> Some None
           | Some ep \<Rightarrow> legacy_loop get_ctx xid ep)"

definition rev_path :: "(nat \<Rightarrow> char) \<Rightarrow> cstr \<Rightarrow> xid_t \<Rightarrow> cstr option" where
  "rev_path junk revdir ctx = do {
     let l = length revdir;
     let path = alloca junk (l + 4 * 3 + 3);
     path \<leftarrow> strcpy_at 0 revdir path;
     path \<leftarrow> memcpy_at l ''/'' path;
     (l1, txt) \<leftarrow> fmt_uint True ctx;
     path \<leftarrow> memcpy_at (l + 1) txt path;
     path \<leftarrow> memcpy_at (l + 1 + l1) [NUL] path;
     c_string path
   }"

definition vc_getVserverByCtx_compat ::
  "host \<Rightarrow> (nat \<Rightarrow> char) \<Rightarrow> get_ctx \<Rightarrow> xid_t \<Rightarrow> vcCfgStyle option \<Rightarrow> cstr option \<Rightarrow> bool \<Rightarrow>
   (cstr option \<times> vcCfgStyle option) option" where
  "vc_getVserverByCtx_compat h junk get_ctx ctx style revdir validate_result = do {
     let revdir = (case revdir of None \<Rightarrow> DEFAULT_PKGSTATEREVDIR h | Some d \<Rightarrow> d);
     path \<leftarrow> rev_path junk revdir ctx;
     let cur_style = (if style = None \<or> style = Some vcCFG_AUTO
                      then (if h_access h path then vcCFG_RECENT_FULL else vcCFG_LEGACY)
                      else the style);
     (case cur_style of
        vcCFG_LEGACY \<Rightarrow> do {
          tmp \<leftarrow> handleLegacy h get_ctx ctx;
          Some (tmp, if tmp \<noteq> None then map_option (\<lambda>_. vcCFG_LEGACY) style else style)
        }
      | vcCFG_NONE \<Rightarrow> Some (None, style)
      | vcCFG_AUTO \<Rightarrow> Some (None, style)
      | _ \<Rightarrow>
          if \<not> validate_result then Some (Some path, map_option (\<lambda>_. vcCFG_RECENT_FULL) style)
          else do {
            (x, _) \<leftarrow> get_ctx path vcCFG_RECENT_FULL False vcCTX_XID;
            Some (if x \<noteq> ctx then (None, style) else (Some path, map_option (\<lambda>_. vcCFG_RECENT_FULL) style))
          })
   }"

definition vc_getVserverByCtx_Internal ::
  "host \<Rightarrow> (nat \<Rightarrow> char) \<Rightarrow> get_ctx \<Rightarrow> xid_t \<Rightarrow> vcCfgStyle option \<Rightarrow> cstr option \<Rightarrow> bool \<Rightarrow>
   (cstr option \<times> vcCfgStyle option) option" where
  "vc_getVserverByCtx_Internal h junk get_ctx ctx style revdir validate_result = do {
     (ret, style) \<leftarrow> (if vc_isSupported (h_kernel h) vcFEATURE_MIGRATE
                      then vc_getVserverByCtx_v13 h get_ctx ctx style validate_result
                      else Some (None, style));
     (case ret of
        Some r \<Rightarrow> Some (Some r, style)
      | None \<Rightarrow> vc_getVserverByCtx_compat h junk get_ctx ctx style revdir validate_result)
   }"

section \<open>The context of a vserver\<close>

definition static_file :: "vcCtxType \<Rightarrow> cstr" where
  "static_file type = (case type of vcCTX_XID \<Rightarrow> ''/context'' | vcCTX_NID \<Rightarrow> ''/ncontext'' | vcCTX_TAG \<Rightarrow> ''/tag'')"

text \<open>The label \<^verbatim>\<open>check_static\<close>: the other types fall back to the context file.\<close>

definition check_static :: "host \<Rightarrow> nat \<Rightarrow> vcCtxType \<Rightarrow> cbuf \<Rightarrow> xid_t option" where
  "check_static h idx type buf = do {
     buf \<leftarrow> memcpy_at idx (static_file type @ [NUL]) buf;
     p \<leftarrow> c_string buf;
     let res = getCtxFromFile h p;
     if res = VC_NOCTX \<and> type \<noteq> vcCTX_XID
     then do {
       buf \<leftarrow> memcpy_at idx (static_file vcCTX_XID @ [NUL]) buf;
       p \<leftarrow> c_string buf;
       Some (getCtxFromFile h p)
     }
     else Some res
   }"

text \<open>
  The check that a context read from the file \<^verbatim>\<open>run\<close> is alive and belongs to this vserver. The
  style is a recent one here and the result is not validated, so no call back is made; it would be a
  failure.
\<close>

definition verify_running ::
  "host \<Rightarrow> (nat \<Rightarrow> char) \<Rightarrow> vcCfgStyle \<Rightarrow> cstr \<Rightarrow> xid_t \<Rightarrow> xid_t option" where
  "verify_running h junk style dir res = do {
     (cur_name, _) \<leftarrow> (if h_no_context h res then Some (None, Some style)
                       else vc_getVserverByCtx_Internal h junk (\<lambda>_ _ _ _. None) res (Some style) None False);
     (case cur_name of
        None \<Rightarrow> Some VC_NOCTX
      | Some n \<Rightarrow> do {
          c \<leftarrow> vc_compareVserverById h junk dir vcCFG_RECENT_FULL n vcCFG_RECENT_FULL;
          Some (if c = 0 then res else VC_NOCTX)
        })
   }"

definition recent_ctx ::
  "host \<Rightarrow> (nat \<Rightarrow> char) \<Rightarrow> cstr \<Rightarrow> vcCfgStyle \<Rightarrow> bool \<Rightarrow> vcCtxType \<Rightarrow> (xid_t \<times> bool) option" where
  "recent_ctx h junk vid style honor_static type = do {
     let buf = alloca junk (sizeof (CONFDIR h @ ''//'') + length vid + sizeof ''/ncontext'');
     buf \<leftarrow> (if style = vcCFG_RECENT_SHORT then memcpy_at 0 (conf_dir h) buf else Some buf);
     let idx = (if style = vcCFG_RECENT_SHORT then sizeof (conf_dir h) - 1 else 0);
     buf \<leftarrow> memcpy_at idx vid buf;
     let idx = idx + length vid;
     buf \<leftarrow> memcpy_at idx (''/run'' @ [NUL]) buf;
     p \<leftarrow> c_string buf;
     let res = getCtxFromFile h p;
     (res, running, buf) \<leftarrow>
       (if res \<noteq> VC_NOCTX \<and> type = vcCTX_XID
        then do {
          buf \<leftarrow> memcpy_at idx [NUL] buf;
          dir \<leftarrow> c_string buf;
          res \<leftarrow> verify_running h junk style dir res;
          Some (res, res \<noteq> VC_NOCTX, buf)
        }
        else Some (res, False, buf));
     res \<leftarrow> (if res = VC_NOCTX \<and> honor_static then check_static h idx type buf else Some res);
     Some (res, running)
   }"

definition vc_getVserverCtx :: "host \<Rightarrow> (nat \<Rightarrow> char) \<Rightarrow> get_ctx" where
  "vc_getVserverCtx h junk vid style honor_static type = do {
     style \<leftarrow> resolve_style h junk vid style;
     (case style of
        vcCFG_LEGACY \<Rightarrow> map_option (\<lambda>x. (x, False)) (extractLegacyXID h junk (DEFAULT_PKGSTATEDIR h) vid)
      | vcCFG_RECENT_SHORT \<Rightarrow> recent_ctx h junk vid style honor_static type
      | vcCFG_RECENT_FULL \<Rightarrow> recent_ctx h junk vid style honor_static type
      | _ \<Rightarrow> Some (VC_NOCTX, False))
   }"

definition vc_getVserverByCtx ::
  "host \<Rightarrow> (nat \<Rightarrow> char) \<Rightarrow> xid_t \<Rightarrow> vcCfgStyle option \<Rightarrow> cstr option \<Rightarrow> (cstr option \<times> vcCfgStyle option) option" where
  "vc_getVserverByCtx h junk ctx style revdir =
     vc_getVserverByCtx_Internal h junk (vc_getVserverCtx h junk) ctx style revdir True"

section \<open>Name and directories\<close>

text \<open>\<^verbatim>\<open>basename\<close> of the C library.\<close>

definition basename :: "cstr \<Rightarrow> cstr" where
  "basename p =
     (let q = rev (dropWhile (\<lambda>c. c = CHR ''/'') (rev p))
      in if p = [] then ''.'' else if q = [] then ''/''
         else rev (takeWhile (\<lambda>c. c \<noteq> CHR ''/'') (rev q)))"

definition VC_LIMIT_VSERVER_NAME_LEN :: int where
  "VC_LIMIT_VSERVER_NAME_LEN = 1024"

text \<open>A name file of acceptable size without a name makes \<^verbatim>\<open>strdup\<close> read a null pointer.\<close>

definition getRecentName :: "host \<Rightarrow> nat \<Rightarrow> cbuf \<Rightarrow> cstr option" where
  "getRecentName h end_pos buf = do {
     buf \<leftarrow> strcpy_at end_pos ''/name'' buf;
     start \<leftarrow> c_string buf;
     let len = h_end h start;
     if h_open h start \<and> len \<noteq> - 1 \<and> len < VC_LIMIT_VSERVER_NAME_LEN \<and> h_rewind h start
     then
       (case h_read h start (nat len + 1) of
          None \<Rightarrow> None
        | Some d \<Rightarrow>
            if int (length d) \<noteq> len then None
            else (let name = rev (dropWhile (\<lambda>c. c = NL) (rev d))
                  in if name = [] then None else Some (takeWhile (\<lambda>c. c \<noteq> NUL) name)))
     else do {
       buf \<leftarrow> memcpy_at end_pos [NUL] buf;
       start \<leftarrow> c_string buf;
       Some (basename (case h_realpath h start of None \<Rightarrow> start | Some r \<Rightarrow> r))
     }
   }"

definition vc_getVserverName :: "host \<Rightarrow> (nat \<Rightarrow> char) \<Rightarrow> cstr \<Rightarrow> vcCfgStyle \<Rightarrow> cstr option option" where
  "vc_getVserverName h junk vid style = do {
     style \<leftarrow> resolve_style h junk vid style;
     (case style of
        vcCFG_LEGACY \<Rightarrow> Some (Some vid)
      | vcCFG_RECENT_SHORT \<Rightarrow> do {
          let buf = alloca junk (sizeof (conf_dir h) + length vid + sizeof ''/name'' - 1);
          buf \<leftarrow> strcpy_at 0 (conf_dir h) buf;
          buf \<leftarrow> strcpy_at (sizeof (conf_dir h) - 1) vid buf;
          map_option Some (getRecentName h (sizeof (conf_dir h) + length vid - 1) buf)
        }
      | vcCFG_RECENT_FULL \<Rightarrow> do {
          let buf = alloca junk (length vid + sizeof ''/name'');
          buf \<leftarrow> strcpy_at 0 vid buf;
          map_option Some (getRecentName h (length vid) buf)
        }
      | _ \<Rightarrow> Some None)
   }"

definition getDir :: "host \<Rightarrow> cstr \<Rightarrow> bool \<Rightarrow> cstr option option" where
  "getDir h dir physical =
     (if \<not> physical then Some (Some dir)
      else if \<not> h_open_dot h then Some None
      else if \<not> h_fchdir h then None
      else Some (h_chdir_getcwd h dir))"

definition existing_dir :: "host \<Rightarrow> cstr \<Rightarrow> cstr option" where
  "existing_dir h dir = (if utilvserver_isDirectory h dir True then Some dir else None)"

definition vc_getVserverVdir ::
  "host \<Rightarrow> (nat \<Rightarrow> char) \<Rightarrow> cstr \<Rightarrow> vcCfgStyle \<Rightarrow> bool \<Rightarrow> cstr option option" where
  "vc_getVserverVdir h junk vid style physical = do {
     style \<leftarrow> resolve_style h junk vid style;
     let l1 = length vid;
     dir \<leftarrow>
       (case style of
          vcCFG_LEGACY \<Rightarrow> do {
            let buf = alloca junk (sizeof (vserver_dir h) + l1);
            buf \<leftarrow> strcpy_at 0 (vserver_dir h) buf;
            buf \<leftarrow> strcpy_at (sizeof (vserver_dir h) - 1) vid buf;
            map_option Some (c_string buf)
          }
        | vcCFG_RECENT_SHORT \<Rightarrow> do {
            let buf = alloca junk (sizeof (CONFDIR h) + l1 + sizeof ''//vdir'' - 1);
            buf \<leftarrow> strcpy_at 0 (conf_dir h) buf;
            buf \<leftarrow> strcpy_at (sizeof (conf_dir h) - 1) vid buf;
            buf \<leftarrow> strcpy_at (sizeof (conf_dir h) + l1 - 1) ''/vdir'' buf;
            map_option Some (c_string buf)
          }
        | vcCFG_RECENT_FULL \<Rightarrow> do {
            let buf = alloca junk (l1 + sizeof ''/vdir'');
            buf \<leftarrow> strcpy_at 0 vid buf;
            buf \<leftarrow> strcpy_at l1 ''/vdir'' buf;
            map_option Some (c_string buf)
          }
        | _ \<Rightarrow> Some None);
     (case dir of
        None \<Rightarrow> Some None
      | Some d \<Rightarrow> do {
          res \<leftarrow> getDir h d physical;
          Some (if \<not> physical then Option.bind res (existing_dir h) else res)
        })
   }"

definition vc_getVserverAppDir ::
  "host \<Rightarrow> (nat \<Rightarrow> char) \<Rightarrow> cstr \<Rightarrow> vcCfgStyle \<Rightarrow> cstr \<Rightarrow> cstr option option" where
  "vc_getVserverAppDir h junk vid style app = do {
     style \<leftarrow> resolve_style h junk vid style;
     if style = vcCFG_RECENT_FULL \<or> style = vcCFG_RECENT_SHORT
     then do {
       let buf = alloca junk (sizeof (CONFDIR h) + length vid + length app + sizeof ''//apps/'' - 1);
       buf \<leftarrow> (if style = vcCFG_RECENT_FULL then Some buf else memcpy_at 0 (conf_dir h) buf);
       let ptr = (if style = vcCFG_RECENT_FULL then 0 else sizeof (conf_dir h) - 1);
       buf \<leftarrow> memcpy_at ptr vid buf;
       buf \<leftarrow> memcpy_at (ptr + length vid) ''/apps/'' buf;
       buf \<leftarrow> memcpy_at (ptr + length vid + 6) app buf;
       buf \<leftarrow> memcpy_at (ptr + length vid + 6 + length app) [NUL] buf;
       p \<leftarrow> c_string buf;
       Some (existing_dir h p)
     }
     else Some None
   }"

definition vc_getVserverCfgDir :: "host \<Rightarrow> (nat \<Rightarrow> char) \<Rightarrow> cstr \<Rightarrow> vcCfgStyle \<Rightarrow> cstr option option" where
  "vc_getVserverCfgDir h junk vid style = do {
     style \<leftarrow> resolve_style h junk vid style;
     (case style of
        vcCFG_RECENT_FULL \<Rightarrow> Some (existing_dir h vid)
      | vcCFG_RECENT_SHORT \<Rightarrow> do {
          let buf = alloca junk (sizeof (CONFDIR h) + length vid + sizeof ''/'' - 1);
          buf \<leftarrow> strcpy_at 0 (conf_dir h) buf;
          buf \<leftarrow> strcpy_at (sizeof (conf_dir h) - 1) vid buf;
          p \<leftarrow> c_string buf;
          Some (existing_dir h p)
        }
      | _ \<Rightarrow> Some None)
   }"

section \<open>New configurations\<close>

text \<open>
  \<^verbatim>\<open>createskeleton.c\<close> makes directories and symbolic links. The calls are recorded in their order; whether a
  call succeeds is a parameter that may depend on the calls before it. \<open>Crash\<close> is the use of a null pointer.
\<close>

datatype skel_call = Mkdir cstr nat | SetIattr cstr | Symlink cstr cstr

datatype skel_result = Skel int | Crash

definition vcSKEL_INTERFACES :: u32 where "vcSKEL_INTERFACES = 1"
definition vcSKEL_PKGMGMT :: u32 where "vcSKEL_PKGMGMT = 2"
definition vcSKEL_FILESYSTEM :: u32 where "vcSKEL_FILESYSTEM = 4"

definition concat_two :: "cstr \<Rightarrow> cstr option \<Rightarrow> cstr option" where
  "concat_two lhs rhs = map_option (\<lambda>r. if length r > 0 then lhs @ ''/'' @ r else lhs) rhs"

text \<open>Calls in a row until one fails; a call whose arguments cannot be built is \<open>None\<close>.\<close>

fun skel_calls ::
  "(skel_call list \<Rightarrow> skel_call \<Rightarrow> bool) \<Rightarrow> skel_call option list \<Rightarrow> skel_call list \<Rightarrow> skel_result \<times> skel_call list" where
  "skel_calls ok [] tr = (Skel 0, tr)"
| "skel_calls ok (None # cs) tr = (Crash, tr)"
| "skel_calls ok (Some c # cs) tr = (if ok tr c then skel_calls ok cs (tr @ [c]) else (Skel (- 1), tr))"

text \<open>The directory from the defaults, or the one of the configuration, when it exists.\<close>

definition default_dir :: "host \<Rightarrow> cstr \<Rightarrow> cstr \<Rightarrow> cstr option" where
  "default_dir h preferred dflt =
     (if utilvserver_isDirectory h preferred True then Some preferred
      else if utilvserver_isDirectory h dflt True then Some dflt
      else None)"

definition link_to :: "cstr \<Rightarrow> cstr option \<Rightarrow> cstr \<Rightarrow> cstr \<Rightarrow> skel_call option" where
  "link_to basedir name vid entry = map_option (\<lambda>old. Symlink old (vid @ ''/'' @ entry)) (concat_two basedir name)"

definition vc_createSkeleton_full ::
  "host \<Rightarrow> cstr \<Rightarrow> (skel_call list \<Rightarrow> skel_call \<Rightarrow> bool) \<Rightarrow> cstr \<Rightarrow> cstr option \<Rightarrow> u32 \<Rightarrow> skel_result \<times> skel_call list" where
  "vc_createSkeleton_full h pkgdir ok vid name flags =
     skel_calls ok
       ([Some (Mkdir vid 493), Some (Mkdir (vid @ ''/apps'') 493)] @
        (if flags AND vcSKEL_INTERFACES \<noteq> 0 then [Some (Mkdir (vid @ ''/interfaces'') 755)] else []) @
        (if flags AND vcSKEL_PKGMGMT \<noteq> 0 then [Some (Mkdir (vid @ ''/apps/pkgmgmt'') 493)] else []) @
        (case default_dir h (CONFDIR h @ ''/.defaults/run'') (DEFAULT_PKGSTATEDIR h) of
           None \<Rightarrow> []
         | Some d \<Rightarrow> [link_to d name vid ''run'']) @
        (case (if flags AND vcSKEL_PKGMGMT \<noteq> 0
               then default_dir h (CONFDIR h @ ''/.defaults/apps/pkgmgmt/base'') pkgdir else None) of
           None \<Rightarrow> []
         | Some d \<Rightarrow> [map_option (\<lambda>p. Mkdir p 493) (concat_two d name), link_to d name vid ''apps/pkgmgmt/base'']) @
        (case (if flags AND vcSKEL_FILESYSTEM \<noteq> 0
               then default_dir h (CONFDIR h @ ''/.defaults/vdirbase'') (DEFAULT_VSERVERDIR h) else None) of
           None \<Rightarrow> []
         | Some d \<Rightarrow> [map_option (\<lambda>p. Mkdir p 493) (concat_two d name), map_option SetIattr (concat_two d name),
                      link_to d name vid ''vdir''])) []"

definition vc_createSkeleton ::
  "host \<Rightarrow> cstr \<Rightarrow> (skel_call list \<Rightarrow> skel_call \<Rightarrow> bool) \<Rightarrow> cstr \<Rightarrow> vcCfgStyle \<Rightarrow> u32 \<Rightarrow> skel_result \<times> skel_call list" where
  "vc_createSkeleton h pkgdir ok vid style flags =
     (let style = (if style = vcCFG_NONE \<or> style = vcCFG_AUTO
                   then (if CHR ''/'' \<in> set vid then vcCFG_RECENT_FULL else vcCFG_RECENT_SHORT) else style)
      in case style of
           vcCFG_RECENT_SHORT \<Rightarrow> vc_createSkeleton_full h pkgdir ok (conf_dir h @ vid) (Some vid) flags
         | vcCFG_RECENT_FULL \<Rightarrow> vc_createSkeleton_full h pkgdir ok vid None flags
         | _ \<Rightarrow> (Skel (- 1), []))"

section \<open>Reference definition of the style\<close>

definition is_path_name :: "cstr \<Rightarrow> bool" where
  "is_path_name vid \<longleftrightarrow> (\<exists>p \<in> {''/'', ''./'', ''../''}. take (length p) (vid @ ''/'') = p)"

definition cfg_style :: "host \<Rightarrow> cstr \<Rightarrow> vcCfgStyle" where
  "cfg_style h vid =
     (let full = is_path_name vid; base = (if full then vid else conf_dir h @ vid)
      in if utilvserver_isDirectory h (base @ ''/vdir'') True \<or>
            full \<and> utilvserver_isLink h (base @ ''/vdir'')
         then (if h_access h (base @ ''/legacy'') then vcCFG_LEGACY
               else if full then vcCFG_RECENT_FULL else vcCFG_RECENT_SHORT)
         else if \<not> full \<and> utilvserver_isDirectory h (vserver_dir h @ vid) True \<and>
                 utilvserver_isFile h (base @ ''.conf'') True
         then vcCFG_LEGACY
         else vcCFG_NONE)"

lemma path_test:
  "isAbsPath (vid @ ''/vdir'') \<or> isRelPath (vid @ ''/vdir'') \<longleftrightarrow> is_path_name vid"
  by (cases vid; cases "tl vid"; cases "tl (tl vid)")
     (auto simp: isAbsPath_def isRelPath_def is_path_name_def)

lemma is_cstr_dirs [simp]:
  "host_paths h \<Longrightarrow> is_cstr (conf_dir h)" "host_paths h \<Longrightarrow> is_cstr (vserver_dir h)"
  by (auto simp: host_paths_def conf_dir_def vserver_dir_def)

lemma length_dirs [cbuf_simps]:
  "length (conf_dir h) = Suc (length (CONFDIR h))"
  "length (vserver_dir h) = Suc (length (DEFAULT_VSERVERDIR h))"
  by (auto simp: conf_dir_def vserver_dir_def)

lemma legacy_marker_result:
  assumes "marker = length p" "length p \<le> length q" "length q \<le> length buf" "length p + 8 \<le> length buf"
    "take (length p) q = p" "is_cstr p" "res = vcCFG_RECENT_FULL \<or> res = vcCFG_RECENT_SHORT"
  shows "legacy_marker h marker res (filled q buf) =
    Some (if h_access h (p @ ''/legacy'') then vcCFG_LEGACY else res)"
  using assms by (auto simp: legacy_marker_def strcpy_at_def cbuf_simps)

lemma cfg_style_full:
  assumes "host_paths h" "is_cstr vid" "is_path_name vid"
  shows "vc_getVserverCfgStyle h junk vid = Some (cfg_style h vid)"
  using assms path_test [of vid]
  by (simp add: vc_getVserverCfgStyle_def strcpy_at_def cbuf_simps sizeof_def
      legacy_marker_result [of _ vid] cfg_style_def Let_def)

lemma cfg_style_short:
  assumes "host_paths h" "is_cstr vid" "\<not> is_path_name vid"
  shows "vc_getVserverCfgStyle h junk vid = Some (cfg_style h vid)"
  using assms path_test [of vid]
  by (simp add: vc_getVserverCfgStyle_def short_style_def strcpy_at_def cbuf_simps sizeof_def
      legacy_marker_result [of _ "conf_dir h @ vid"] cfg_style_def Let_def legacy_marker_def)

lemma resolve_style_result:
  assumes "host_paths h" "is_cstr vid"
  shows "resolve_style h junk vid style =
    Some (if style = vcCFG_NONE \<or> style = vcCFG_AUTO then cfg_style h vid else style)"
  using cfg_style_full [OF assms] cfg_style_short [OF assms]
  by (cases "is_path_name vid") (auto simp: resolve_style_def)

section \<open>Directories without buffers\<close>

text \<open>Where the files of a configuration are.\<close>

definition base_path :: "host \<Rightarrow> vcCfgStyle \<Rightarrow> cstr \<Rightarrow> cstr" where
  "base_path h style vid = (if style = vcCFG_RECENT_SHORT then conf_dir h @ vid else vid)"

definition is_recent :: "vcCfgStyle \<Rightarrow> bool" where
  "is_recent style \<longleftrightarrow> style = vcCFG_RECENT_SHORT \<or> style = vcCFG_RECENT_FULL"

lemma vdir_result:
  assumes "host_paths h" "is_cstr vid" "style \<noteq> vcCFG_NONE" "style \<noteq> vcCFG_AUTO"
  defines "dir \<equiv> (if style = vcCFG_LEGACY then vserver_dir h @ vid else base_path h style vid @ ''/vdir'')"
  shows "vc_getVserverVdir h junk vid style False = Some (existing_dir h dir)"
    and "vc_getVserverVdir h junk vid style True = getDir h dir True"
  using assms
  by (cases style; simp add: vc_getVserverVdir_def resolve_style_def strcpy_at_def cbuf_simps sizeof_def
      getDir_def base_path_def)+

lemma appdir_result:
  assumes "host_paths h" "is_cstr vid" "is_cstr app" "is_recent style"
  shows "vc_getVserverAppDir h junk vid style app =
    Some (existing_dir h (base_path h style vid @ ''/apps/'' @ app))"
  using assms
  by (auto simp: vc_getVserverAppDir_def resolve_style_def cbuf_simps sizeof_def
      base_path_def is_recent_def)

lemma cfgdir_result:
  assumes "host_paths h" "is_cstr vid" "is_recent style"
  shows "vc_getVserverCfgDir h junk vid style = Some (existing_dir h (base_path h style vid))"
  using assms
  by (auto simp: vc_getVserverCfgDir_def resolve_style_def cbuf_simps sizeof_def strcpy_at_def
      base_path_def is_recent_def)

text \<open>A file that can be read as a whole.\<close>

definition serves :: "host \<Rightarrow> cstr \<Rightarrow> cstr \<Rightarrow> bool" where
  "serves h path d \<longleftrightarrow>
     h_open h path \<and> h_end h path = int (length d) \<and> h_rewind h path \<and>
     h_read h path (length d + 1) = Some d"

lemma getRecentName_result:
  assumes "length p \<le> length q" "length q \<le> length buf" "length p + 6 \<le> length buf"
    "take (length p) q = p" "is_cstr p"
  shows "getRecentName h (length p) (filled q buf) =
    (let start = p @ ''/name''; len = h_end h start
     in if h_open h start \<and> len \<noteq> - 1 \<and> len < VC_LIMIT_VSERVER_NAME_LEN \<and> h_rewind h start
        then (case h_read h start (nat len + 1) of
                None \<Rightarrow> None
              | Some d \<Rightarrow>
                  if int (length d) \<noteq> len then None
                  else (let name = rev (dropWhile (\<lambda>c. c = NL) (rev d))
                        in if name = [] then None else Some (takeWhile (\<lambda>c. c \<noteq> NUL) name)))
        else Some (basename (case h_realpath h p of None \<Rightarrow> p | Some r \<Rightarrow> r)))"
  using assms by (simp add: getRecentName_def strcpy_at_def cbuf_simps Let_def)

definition recent_name :: "host \<Rightarrow> cstr \<Rightarrow> cstr option" where
  "recent_name h p = getRecentName h (length p) (filled p (alloca (\<lambda>_. NUL) (length p + 6)))"

lemma vserver_name_result:
  assumes "host_paths h" "is_cstr vid" "is_recent style"
  shows "vc_getVserverName h junk vid style = map_option Some (recent_name h (base_path h style vid))"
  using assms getRecentName_result [of "conf_dir h @ vid"] getRecentName_result [of vid]
  by (auto simp: recent_name_def vc_getVserverName_def resolve_style_def strcpy_at_def cbuf_simps
      sizeof_def is_recent_def base_path_def)

lemma recent_name_serves:
  assumes "serves h (p @ ''/name'') (d @ replicate k NL)" "length d + k < 1024" "d = [] \<or> last d \<noteq> NL"
    "is_cstr p" "is_cstr d"
  shows "recent_name h p = (if d = [] then None else Some d)"
proof -
  have "rev (dropWhile (\<lambda>c. c = NL) (rev (d @ replicate k NL))) = d"
    using assms(3) by (cases d rule: rev_cases) (auto simp: dropWhile_append)
  then show ?thesis
    using assms getRecentName_result [of p p "alloca (\<lambda>_. NUL) (length p + 6)" h]
    by (auto simp: recent_name_def serves_def VC_LIMIT_VSERVER_NAME_LEN_def nat_int_add)
qed

section \<open>Contexts without buffers\<close>

definition rev_name :: "host \<Rightarrow> xid_t \<Rightarrow> cstr" where
  "rev_name h ctx = DEFAULT_PKGSTATEREVDIR h @ ''/'' @ digits_of 10 (unat ctx)"

text \<open>The name under which a living context is known.\<close>

definition current_name :: "host \<Rightarrow> xid_t \<Rightarrow> cstr" where
  "current_name h ctx =
     (case (if vc_isSupported (h_kernel h) vcFEATURE_MIGRATE then h_vhi_name h ctx else None) of
        Some n \<Rightarrow> n
      | None \<Rightarrow> rev_name h ctx)"

definition same_vserver :: "host \<Rightarrow> cstr \<Rightarrow> cstr \<Rightarrow> bool" where
  "same_vserver h a b \<longleftrightarrow>
     (case (h_stat h a, h_stat h b) of
        (Some s, Some t) \<Rightarrow> stat_difference s t = 0
      | _ \<Rightarrow> strcmp a b = 0)"

definition owns_context :: "host \<Rightarrow> cstr \<Rightarrow> xid_t \<Rightarrow> bool" where
  "owns_context h dir ctx \<longleftrightarrow> \<not> h_no_context h ctx \<and> same_vserver h dir (current_name h ctx)"

definition static_ctx :: "host \<Rightarrow> cstr \<Rightarrow> vcCtxType \<Rightarrow> xid_t" where
  "static_ctx h dir type =
     (let x = getCtxFromFile h (dir @ static_file type)
      in if x = VC_NOCTX then getCtxFromFile h (dir @ ''/context'') else x)"

definition ctx_of :: "host \<Rightarrow> cstr \<Rightarrow> bool \<Rightarrow> vcCtxType \<Rightarrow> xid_t \<times> bool" where
  "ctx_of h dir honor_static type =
     (let run = getCtxFromFile h (dir @ ''/run'');
          x = (if type = vcCTX_XID \<and> \<not> owns_context h dir run then VC_NOCTX else run)
      in (if x = VC_NOCTX \<and> honor_static then static_ctx h dir type else x,
          type = vcCTX_XID \<and> x \<noteq> VC_NOCTX))"

lemma fmt_uint_u32:
  fixes x :: u32
  shows "fmt_uint True x = Some (length (digits_of 10 (unat x)), digits_of 10 (unat x))"
    and "length (digits_of 10 (unat x)) \<le> 10"
proof -
  show "fmt_uint True x = Some (length (digits_of 10 (unat x)), digits_of 10 (unat x))"
    using fmt_uint_base_result [of 4 10 True x] by (simp add: fmt_uint_def fmt_result_def)
  have "unat x < 2 ^ 32" using unsigned_less [of x] by simp
  then have "unat x < 10 ^ 10" by simp
  then show "length (digits_of 10 (unat x)) \<le> 10" by (intro length_digits_of) auto
qed

lemma rev_path_result:
  assumes "is_cstr dir"
  shows "rev_path junk dir ctx = Some (dir @ ''/'' @ digits_of 10 (unat ctx))"
  using assms fmt_uint_u32 [of ctx]
  by (auto simp: rev_path_def strcpy_at_def cbuf_simps is_cstr_digits_of)

lemma verify_running_result:
  assumes "host_paths h" "is_recent style"
  shows "verify_running h junk style dir res = Some (if owns_context h dir res then res else VC_NOCTX)"
proof -
  obtain c where "vc_compareVserverById h junk dir vcCFG_RECENT_FULL (current_name h res) vcCFG_RECENT_FULL = Some c"
    and "c = 0 \<longleftrightarrow> same_vserver h dir (current_name h res)"
    by (auto simp: vc_compareVserverById_def resolve_style_def completePath_def same_vserver_def
        split: option.splits)
  moreover have "vc_getVserverByCtx_Internal h junk (\<lambda>_ _ _ _. None) res (Some style) None False =
      Some (Some (current_name h res), Some vcCFG_RECENT_FULL)"
    using assms rev_path_result [of "DEFAULT_PKGSTATEREVDIR h" junk res]
    by (auto simp: vc_getVserverByCtx_Internal_def vc_getVserverByCtx_v13_def vc_getVserverByCtx_compat_def
        current_name_def rev_name_def is_recent_def host_paths_def split: option.splits)
  ultimately show ?thesis by (simp add: verify_running_def owns_context_def)
qed

lemma recent_ctx_result:
  assumes "host_paths h" "is_cstr vid" "is_recent style"
  shows "recent_ctx h junk vid style honor type = Some (ctx_of h (base_path h style vid) honor type)"
  using assms verify_running_result [OF assms(1,3)]
  by (auto simp: recent_ctx_def cbuf_simps sizeof_def is_recent_def base_path_def ctx_of_def static_ctx_def
      check_static_def static_file_def Let_def split: vcCtxType.splits)

lemma getCtxFromFile_serves:
  assumes "serves h p d" "length d \<le> 50" "is_cstr d"
  shows "getCtxFromFile h p =
    (let (x, r, _) = strtol 10 d in if deref r \<noteq> NUL \<and> deref r \<noteq> NL then VC_NOCTX else word_of_int x)"
  using assms by (simp add: getCtxFromFile_def serves_def)

lemma strtol_decimal:
  assumes "int n \<le> LONG_MAX" "r = [] \<or> \<not> is_base_digit 10 (hd r)"
  shows "strtol 10 (digits_of 10 n @ r) = (int n, r, False)"
  using assms strto_scan_digits [of 10 r n] by (simp add: strtol_def LONG_MIN_def)

lemma legacy_loop_sound:
  "legacy_loop get xid ns = Some (Some name) \<Longrightarrow> \<exists>r. get name vcCFG_LEGACY False vcCTX_XID = Some (xid, r)"
  by (induction ns) (auto simp: Let_def bind_eq_Some_conv split: if_splits)

lemma handleLegacy_sound:
  "handleLegacy h get xid = Some (Some name) \<Longrightarrow> \<exists>r. get name vcCFG_LEGACY False vcCTX_XID = Some (xid, r)"
  by (auto simp: handleLegacy_def dest: legacy_loop_sound split: if_splits option.splits)

lemma v13_sound:
  "vc_getVserverByCtx_v13 h get ctx style True = Some (ret, st) \<Longrightarrow>
   (case ret of None \<Rightarrow> st = style
    | Some name \<Rightarrow> st = map_option (\<lambda>_. vcCFG_RECENT_FULL) style \<and>
        (\<exists>r. get name vcCFG_RECENT_FULL False vcCTX_XID = Some (ctx, r)))"
  by (auto simp: vc_getVserverByCtx_v13_def bind_eq_Some_conv split: if_splits option.splits)

lemma compat_sound:
  "vc_getVserverByCtx_compat h junk get ctx style revdir True = Some (Some name, st) \<Longrightarrow>
   \<exists>s r. st = map_option (\<lambda>_. s) style \<and> get name s False vcCTX_XID = Some (ctx, r)"
  by (auto simp: vc_getVserverByCtx_compat_def bind_eq_Some_conv Let_def dest!: handleLegacy_sound
      split: if_splits option.splits vcCfgStyle.splits)

text \<open>A difference of 64-bit numbers keeps its lower half when it is returned as \<^verbatim>\<open>int\<close>.\<close>

lemma inode_difference:
  assumes "a < 2 ^ 32" "b < 2 ^ 32"
  shows "sint (ucast (of_nat a - of_nat b :: u64) :: u32) = 0 \<longleftrightarrow> a = b"
proof -
  have "(of_nat a - of_nat b :: u64) = word_of_int (int a - int b)" by simp
  then have "uint (of_nat a - of_nat b :: u64) = (int a - int b) mod 2 ^ 64"
    by (simp only: uint_word_of_int) simp
  then have "uint (ucast (of_nat a - of_nat b :: u64) :: u32) = (int a - int b) mod 2 ^ 64 mod 2 ^ 32"
    by (simp add: unsigned_ucast_eq take_bit_eq_mod)
  also have "\<dots> = (int a - int b) mod 2 ^ 32" by (rule mod_mod_cancel) simp
  finally have u: "uint (ucast (of_nat a - of_nat b :: u64) :: u32) = (int a - int b) mod 2 ^ 32" .
  have "sint (ucast (of_nat a - of_nat b :: u64) :: u32) = 0 \<longleftrightarrow> uint (ucast (of_nat a - of_nat b :: u64) :: u32) = 0"
    by (simp add: signed_eq_0_iff unsigned_eq_0_iff)
  also have "\<dots> \<longleftrightarrow> (int a - int b) mod 2 ^ 32 = 0" using u by simp
  also have "\<dots> \<longleftrightarrow> a = b"
    using assms zdvd_imp_le [of "2 ^ 32" "int a - int b"] zdvd_imp_le [of "2 ^ 32" "int b - int a"]
    by (cases a b rule: linorder_cases) (auto simp: mod_eq_0_iff_dvd dvd_diff_commute)
  finally show ?thesis .
qed

lemma skel_calls_all:
  assumes "\<And>tr c. ok tr c"
  shows "fst (skel_calls ok cs tr) = (if None \<in> set cs then Crash else Skel 0)"
    and "None \<notin> set cs \<Longrightarrow> snd (skel_calls ok cs tr) = tr @ map the cs"
  using assms by (induction ok cs tr rule: skel_calls.induct) auto

section \<open>Properties\<close>

text \<open>A host with one vserver, whose context 42 is alive.\<close>

definition sample_stat_of :: "nat \<Rightarrow> ftype \<Rightarrow> stat" where
  "sample_stat_of ino type =
     \<lparr>st_dev = 5, st_ino = ino, st_type = type, st_perm = 493, st_uid = 0, st_gid = 0, st_rdev = 0, st_size = 0,
      st_atime = 0, st_mtime = 0, st_nlink = 2\<rparr>"

definition sample_stats :: "cstr \<Rightarrow> stat option" where
  "sample_stats p =
     (if p = ''/etc/vservers/web'' \<or> p = ''/run/vservers.rev/42'' then Some (sample_stat_of 7 S_DIR)
      else if p = ''/etc/vservers/web/vdir'' \<or> p = ''/vservers/web'' then Some (sample_stat_of 8 S_DIR)
      else None)"

definition sample_host :: host where
  "sample_host =
     \<lparr>CONFDIR = ''/etc/vservers'', DEFAULT_VSERVERDIR = ''/vservers'', DEFAULT_PKGSTATEDIR = ''/run/vservers'',
      DEFAULT_PKGSTATEREVDIR = ''/run/vservers.rev'', api_compat = True,
      h_stat = sample_stats, h_lstat = sample_stats, h_access = (\<lambda>p. sample_stats p \<noteq> None),
      h_open = (\<lambda>p. p = ''/etc/vservers/web/run'' \<or> p = ''/run/vservers.rev/42/run''), h_end = (\<lambda>p. 3), h_rewind = (\<lambda>p. True),
      h_read = (\<lambda>p n. Some [CHR ''4'', CHR ''2'', NL]), h_realpath = Some, h_open_dot = True,
      h_chdir_getcwd = Some, h_fchdir = True, h_opendir = (\<lambda>p. None),
      h_kernel = \<lparr>k_version = 0x00010004, k_vci = 0, k_linux = 0x00020620\<rparr>,
      h_no_context = (\<lambda>x. x \<noteq> 42), h_vhi_name = (\<lambda>x. None)\<rparr>"

lemma sample_host_paths: "host_paths sample_host"
  by code_simp

text \<open>
  C37. The routine that finds out the style of a configuration never writes behind its buffer, does not depend on
  the old contents of the buffer, and gives the style that the files on the host determine.
\<close>
theorem vc_getVserverCfgStyle_correct:
  assumes "host_paths h" "is_cstr vid"
  shows "vc_getVserverCfgStyle h junk vid = Some (cfg_style h vid)"
  using cfg_style_full [OF assms] cfg_style_short [OF assms] by blast

theorem vc_getVserverCfgStyle_correct_witness:
  "vc_getVserverCfgStyle sample_host (\<lambda>_. CHR ''?'') ''web'' = Some vcCFG_RECENT_SHORT"
proof -
  have "vc_getVserverCfgStyle sample_host (\<lambda>_. CHR ''?'') ''web'' = Some (cfg_style sample_host ''web'')"
    by (rule vc_getVserverCfgStyle_correct [OF sample_host_paths]) simp
  moreover have "cfg_style sample_host ''web'' = vcCFG_RECENT_SHORT" by code_simp
  ultimately show ?thesis by simp
qed

text \<open>
  The directories of a vserver: for a given style, the routines build exactly the path of the style in their buffers
  and return it when it is a directory; no buffer is overrun.
\<close>
lemma vserver_directories:
  assumes "host_paths h" "is_cstr vid" "is_cstr app" "is_recent style"
  shows "vc_getVserverVdir h junk vid style False = Some (existing_dir h (base_path h style vid @ ''/vdir'')) \<and>
    vc_getVserverAppDir h junk vid style app = Some (existing_dir h (base_path h style vid @ ''/apps/'' @ app)) \<and>
    vc_getVserverCfgDir h junk vid style = Some (existing_dir h (base_path h style vid)) \<and>
    vc_getVserverVdir h junk vid vcCFG_LEGACY False = Some (existing_dir h (vserver_dir h @ vid))"
  using vdir_result(1) [OF assms(1,2), of style] vdir_result(1) [OF assms(1,2), of vcCFG_LEGACY]
    appdir_result [OF assms] cfgdir_result [OF assms(1,2,4)] assms(4)
  by (auto simp: is_recent_def)

lemma vserver_directories_example:
  "vc_getVserverVdir sample_host (\<lambda>_. CHR ''?'') ''web'' vcCFG_RECENT_SHORT False = Some (Some ''/etc/vservers/web/vdir'') \<and>
   vc_getVserverAppDir sample_host (\<lambda>_. CHR ''?'') ''web'' vcCFG_RECENT_SHORT ''init'' = Some None"
proof -
  have r: "is_recent vcCFG_RECENT_SHORT" "is_cstr ''web''" "is_cstr ''init''" by (auto simp: is_recent_def)
  have "existing_dir sample_host (base_path sample_host vcCFG_RECENT_SHORT ''web'' @ ''/vdir'') = Some ''/etc/vservers/web/vdir''"
    "existing_dir sample_host (base_path sample_host vcCFG_RECENT_SHORT ''web'' @ ''/apps/'' @ ''init'') = None"
    by code_simp+
  then show ?thesis
    using vserver_directories [OF sample_host_paths r(2,3,1), of "\<lambda>_. CHR ''?''"] by simp
qed

text \<open>
  The name of a vserver with a recent configuration is the text of its name file without the newlines at
  the end; without a name file it is the last component of the directory. A name file that is empty or holds newlines
  only makes the library read a null pointer.
\<close>
lemma vc_getVserverName_recent:
  assumes "host_paths h" "is_cstr vid" "is_recent style"
  defines "f \<equiv> base_path h style vid @ ''/name''"
  shows "(\<forall>d k. serves h f (d @ replicate k NL) \<and> length d + k < 1024 \<and> is_cstr d \<and> (d = [] \<or> last d \<noteq> NL) \<longrightarrow>
      vc_getVserverName h junk vid style = (if d = [] then None else Some (Some d))) \<and>
    (\<not> h_open h f \<longrightarrow>
      vc_getVserverName h junk vid style =
        Some (Some (basename (case h_realpath h (base_path h style vid) of
                                None \<Rightarrow> base_path h style vid | Some r \<Rightarrow> r))))"
proof -
  have p: "is_cstr (base_path h style vid)" using assms(1,2) by (simp add: base_path_def)
  have absent: "vc_getVserverName h junk vid style =
      Some (Some (basename (case h_realpath h (base_path h style vid) of None \<Rightarrow> base_path h style vid | Some r \<Rightarrow> r)))"
    if "\<not> h_open h f"
    using that p vserver_name_result [OF assms(1-3), of junk]
      getRecentName_result [of "base_path h style vid" "base_path h style vid" "alloca (\<lambda>_. NUL) (length (base_path h style vid) + 6)" h]
    by (simp add: recent_name_def f_def)
  have named: "vc_getVserverName h junk vid style = (if d = [] then None else Some (Some d))"
    if "serves h f (d @ replicate k NL)" "length d + k < 1024" "d = [] \<or> last d \<noteq> NL" "is_cstr d" for d k
    using recent_name_serves [OF that(1) [unfolded f_def] that(2,3) p that(4)]
      vserver_name_result [OF assms(1-3), of junk] by simp
  show ?thesis
    by (intro conjI allI impI; (elim conjE)?) (erule (3) named, erule absent)
qed

lemma vc_getVserverName_recent_example:
  "vc_getVserverName sample_host (\<lambda>_. CHR ''?'') ''web'' vcCFG_RECENT_SHORT = Some (Some ''web'')"
proof -
  have r: "is_recent vcCFG_RECENT_SHORT" "is_cstr ''web''" by (auto simp: is_recent_def)
  have "\<not> h_open sample_host (base_path sample_host vcCFG_RECENT_SHORT ''web'' @ ''/name'')"
    "basename (the (h_realpath sample_host (base_path sample_host vcCFG_RECENT_SHORT ''web''))) = ''web''"
    "h_realpath sample_host (base_path sample_host vcCFG_RECENT_SHORT ''web'') \<noteq> None"
    by code_simp+
  then show ?thesis
    using vc_getVserverName_recent [OF sample_host_paths r(2,1), of "\<lambda>_. CHR ''?''"] by auto
qed



text \<open>
  The decimal text of a context, with or without a newline, is read back from a context file as this context. An empty
  file is read as the context 0 of the host.
\<close>
lemma getCtxFromFile_decimal:
  assumes "nl = [] \<or> nl = [NL]"
  shows "(serves h p (digits_of 10 (unat x) @ nl) \<longrightarrow> getCtxFromFile h p = x) \<and>
    (serves h p nl \<longrightarrow> getCtxFromFile h p = 0)"
proof -
  have s: "is_cstr nl" "nl = [] \<or> \<not> is_base_digit 10 (hd nl)" "length nl \<le> 1"
    using assms unit_letters by auto
  have "int (unat x) \<le> LONG_MAX" using uint_lt2p [of x] by (simp add: LONG_MAX_def)
  then have "strtol 10 (digits_of 10 (unat x) @ nl) = (int (unat x), nl, False)" using s(2) by (rule strtol_decimal)
  moreover have "strtol 10 nl = (0, nl, False)"
    using assms by (auto simp: strtol_def strto_scan_def is_base_digit_def digit_val_def isdigit_def islower_def isupper_def)
  moreover have "length (digits_of 10 (unat x) @ nl) \<le> 50" using fmt_uint_u32(2) [of x] s(3) by simp
  moreover have "deref nl = NUL \<or> deref nl = NL" using assms by auto
  ultimately show ?thesis
    using getCtxFromFile_serves [of h p "digits_of 10 (unat x) @ nl"] getCtxFromFile_serves [of h p nl] s
    by (auto simp: is_cstr_digits_of)
qed

lemma getCtxFromFile_decimal_example:
  "getCtxFromFile sample_host ''/etc/vservers/web/run'' = 42"
proof -
  have "digits_of 10 (unat (42::u32)) @ [NL] = [CHR ''4'', CHR ''2'', NL]"
    by (simp add: digits_of_step digits_of_small DIGITS_def)
  moreover have "serves sample_host ''/etc/vservers/web/run'' [CHR ''4'', CHR ''2'', NL]" by code_simp
  ultimately show ?thesis
    using getCtxFromFile_decimal [of "[NL]" sample_host "''/etc/vservers/web/run''" 42] by simp
qed

text \<open>
  A vserver that is found for a context has this context: asking for the context of the returned name in the
  returned style gives the context the search began with.
\<close>
lemma vc_getVserverByCtx_sound:
  assumes "vc_getVserverByCtx h junk ctx (Some style) revdir = Some (Some name, st)"
  shows "\<exists>s r. st = Some s \<and> vc_getVserverCtx h junk name s False vcCTX_XID = Some (ctx, r)"
  using assms unfolding vc_getVserverByCtx_def vc_getVserverByCtx_Internal_def
  by (auto simp: bind_eq_Some_conv dest!: v13_sound compat_sound split: if_splits option.splits)

lemma vc_getVserverByCtx_sound_example:
  "\<exists>s r. Some vcCFG_RECENT_FULL = Some s \<and>
     vc_getVserverCtx sample_host (\<lambda>_. CHR ''?'') ''/run/vservers.rev/42'' s False vcCTX_XID = Some (42, r)"
proof (rule vc_getVserverByCtx_sound)
  show "vc_getVserverByCtx sample_host (\<lambda>_. CHR ''?'') 42 (Some vcCFG_AUTO) None =
    Some (Some ''/run/vservers.rev/42'', Some vcCFG_RECENT_FULL)"
    by code_simp
qed

text \<open>
  On one device with inode numbers below \<open>2\<^sup>3\<^sup>2\<close>, two recent configurations are equal exactly when
  their directories are the same. In general the sum of the two differences is compared, so directories of different
  devices can be taken for the same.
\<close>
lemma vc_compareVserverById_inode:
  assumes "h_stat h a = Some sa" "h_stat h b = Some sb"
  shows "(st_dev sa = st_dev sb \<and> st_ino sa < 2 ^ 32 \<and> st_ino sb < 2 ^ 32 \<longrightarrow>
      (vc_compareVserverById h junk a vcCFG_RECENT_FULL b vcCFG_RECENT_FULL = Some 0 \<longleftrightarrow> st_ino sa = st_ino sb)) \<and>
    (st_dev sa = st_dev sb + 1 \<and> st_ino sb = st_ino sa + 1 \<longrightarrow>
      vc_compareVserverById h junk a vcCFG_RECENT_FULL b vcCFG_RECENT_FULL = Some 0)"
proof -
  have c: "vc_compareVserverById h junk a vcCFG_RECENT_FULL b vcCFG_RECENT_FULL = Some (stat_difference sa sb)"
    using assms by (simp add: vc_compareVserverById_def resolve_style_def completePath_def)
  have "stat_difference sa sb = 0 \<longleftrightarrow> st_ino sa = st_ino sb"
    if "st_dev sa = st_dev sb" "st_ino sa < 2 ^ 32" "st_ino sb < 2 ^ 32"
    using that inode_difference [of "st_ino sa" "st_ino sb"] by (simp add: stat_difference_def)
  moreover have "stat_difference sa sb = 0" if "st_dev sa = st_dev sb + 1" "st_ino sb = st_ino sa + 1"
    using that by (simp add: stat_difference_def)
  ultimately show ?thesis using c by auto
qed

lemma vc_compareVserverById_inode_example:
  "vc_compareVserverById sample_host (\<lambda>_. CHR ''?'') ''/etc/vservers/web'' vcCFG_RECENT_FULL
     ''/run/vservers.rev/42'' vcCFG_RECENT_FULL = Some 0 \<and>
   vc_compareVserverById sample_host (\<lambda>_. CHR ''?'') ''/etc/vservers/web'' vcCFG_RECENT_FULL
     ''/vservers/web'' vcCFG_RECENT_FULL \<noteq> Some 0"
proof -
  have s: "h_stat sample_host ''/etc/vservers/web'' = Some (sample_stat_of 7 S_DIR)"
    "h_stat sample_host ''/run/vservers.rev/42'' = Some (sample_stat_of 7 S_DIR)"
    "h_stat sample_host ''/vservers/web'' = Some (sample_stat_of 8 S_DIR)"
    by (simp_all add: sample_host_def sample_stats_def)
  show ?thesis
    using vc_compareVserverById_inode [OF s(1,2), of "\<lambda>_. CHR ''?''"]
      vc_compareVserverById_inode [OF s(1,3), of "\<lambda>_. CHR ''?''"]
    by (simp add: sample_stat_of_def)
qed

text \<open>
  Making a configuration when no call is refused. In the short style everything is made, with the link to the state
  directory of the vserver. For an identifier with a slash, which selects the full style, no name is passed on and the library
  reads a null pointer as soon as there is a state directory.
\<close>
lemma vc_createSkeleton_outcome:
  assumes "\<And>tr c. ok tr c" "default_dir h (CONFDIR h @ ''/.defaults/run'') (DEFAULT_PKGSTATEDIR h) = Some d" "vid \<noteq> []"
  shows "if CHR ''/'' \<in> set vid then fst (vc_createSkeleton h pkgdir ok vid vcCFG_AUTO flags) = Crash
    else fst (vc_createSkeleton h pkgdir ok vid vcCFG_AUTO flags) = Skel 0 \<and>
      Symlink (d @ ''/'' @ vid) (conf_dir h @ vid @ ''/run'') \<in> set (snd (vc_createSkeleton h pkgdir ok vid vcCFG_AUTO flags))"
  using assms(2,3)
  by (simp add: vc_createSkeleton_def vc_createSkeleton_full_def skel_calls_all [OF assms(1)] assms(1) link_to_def concat_two_def
      split: option.splits)

lemma vc_createSkeleton_outcome_example:
  "fst (vc_createSkeleton (sample_host\<lparr>DEFAULT_PKGSTATEDIR := ''/vservers/web''\<rparr>) [] (\<lambda>_ _. True) ''./web'' vcCFG_AUTO 7) = Crash"
  using vc_createSkeleton_outcome [of "\<lambda>_ _. True" "sample_host\<lparr>DEFAULT_PKGSTATEDIR := ''/vservers/web''\<rparr>" "''/vservers/web''" "''./web''" "[]" 7]
  by (simp add: default_dir_def utilvserver_isDirectory_def sample_host_def sample_stats_def sample_stat_of_def)

end
