(* ===== verification/Mkdir.thy ===== *)
theory Mkdir
  imports Unify
begin

text \<open>
  Making a directory with all directories above it: \<^verbatim>\<open>lib_internal/mkdir.c\<close>. The routine first
  walks from the end of the path towards the root until a directory can be made or exists, then makes the
  missing ones on the way back. Pointers into the path are indices; the system call is an argument, and the
  locales state what is known about it. They are interpreted on the file system of theory \<open>Unify\<close>.
\<close>

section \<open>The routine\<close>

type_synonym 's mkdir_call = "cstr \<Rightarrow> 's \<Rightarrow> errno option \<times> 's"

datatype mkdir_result = mkdirFAIL | mkdirSUCCESS | mkdirSKIP

definition mkdirSingle ::
  "'s mkdir_call \<Rightarrow> cstr \<Rightarrow> nat \<Rightarrow> errno option \<Rightarrow> 's \<Rightarrow> mkdir_result \<times> 's" where
  "mkdirSingle mkdir path end_ptr good_err s =
     (case mkdir (take end_ptr path) s of
        (None, s') \<Rightarrow> (mkdirSUCCESS, s')
      | (Some e, s') \<Rightarrow>
          (if e = EEXIST then mkdirSUCCESS else if Some e = good_err then mkdirSKIP else mkdirFAIL, s'))"

text \<open>Runs below the string when the character is missing.\<close>

fun rstrchr :: "cstr \<Rightarrow> char \<Rightarrow> nat \<Rightarrow> nat option" where
  "rstrchr str c 0 = (if str ! 0 = c then Some 0 else None)"
| "rstrchr str c (Suc i) = (if str ! Suc i = c then Some (Suc i) else rstrchr str c i)"

lemma rstrchr_le: "rstrchr str c i = Some j \<Longrightarrow> j \<le> i"
  by (induction i) (auto split: if_splits)

text \<open>The first loop; the pointer may end one position before the path.\<close>

function down_loop :: "'s mkdir_call \<Rightarrow> cstr \<Rightarrow> int \<Rightarrow> 's \<Rightarrow> int option \<times> 's" where
  "down_loop mkdir path ptr s =
     (if ptr > 0
      then
        (case rstrchr path CHR ''/'' (nat ptr) of
           None \<Rightarrow> (None, s)
         | Some i \<Rightarrow>
             (case mkdirSingle mkdir path i (Some ENOENT) s of
                (mkdirSUCCESS, s') \<Rightarrow> (Some (int i), s')
              | (mkdirSKIP, s') \<Rightarrow> down_loop mkdir path (int i - 1) s'
              | (mkdirFAIL, s') \<Rightarrow> (None, s')))
      else (Some ptr, s))"
  by pat_completeness auto
termination
  by (relation "measure (\<lambda>(_, _, ptr, _). nat ptr)") (auto dest!: rstrchr_le)

function up_loop :: "'s mkdir_call \<Rightarrow> cstr \<Rightarrow> nat \<Rightarrow> 's \<Rightarrow> bool \<times> 's" where
  "up_loop mkdir path ptr s =
     (case strchr (drop ptr path) CHR ''/'' of
        None \<Rightarrow> (True, s)
      | Some k \<Rightarrow>
          (case mkdirSingle mkdir path (ptr + k) None s of
             (mkdirSUCCESS, s') \<Rightarrow> up_loop mkdir path (ptr + k + 1) s'
           | (_, s') \<Rightarrow> (False, s')))"
  by pat_completeness auto
termination
  by (relation "measure (\<lambda>(_, path, ptr, _). length path - ptr)") (auto simp: strchr_Some)

definition mkdirRecursive :: "'s mkdir_call \<Rightarrow> cstr \<Rightarrow> 's \<Rightarrow> bool \<times> 's" where
  "mkdirRecursive mkdir path s =
     (if deref path \<noteq> CHR ''/'' then (False, s)
      else
        (case down_loop mkdir path (int (length path) - 1) s of
           (None, s') \<Rightarrow> (False, s')
         | (Some ptr, s') \<Rightarrow> up_loop mkdir path (nat (ptr + 1)) s'))"

declare down_loop.simps [simp del] up_loop.simps [simp del]

section \<open>The system call\<close>

text \<open>The part of a name before its last slash.\<close>

definition parent_dir :: "cstr \<Rightarrow> cstr" where
  "parent_dir p = (case strrchr p CHR ''/'' of None \<Rightarrow> [] | Some i \<Rightarrow> take i p)"

definition sys_mkdir :: "env \<Rightarrow> fs mkdir_call" where
  "sys_mkdir env p fs =
     (if p = [] then (Some ENOENT, fs)
      else if names fs p \<noteq> None then (Some EEXIST, fs)
      else if parent_dir p \<noteq> [] \<and> names fs (parent_dir p) = None then (Some ENOENT, fs)
      else if parent_dir p \<noteq> [] \<and> \<not> has_type fs (the (names fs (parent_dir p))) S_DIR then (Some (EOTHER 20), fs)
      else if refuses env (c_mkdir p) fs then (Some (EOTHER 0), fs)
      else (None, new_file p (fresh_inode env S_DIR 448) fs))"

section \<open>What is known of the call\<close>

lemma strrchr_None: "strrchr s c = None \<longleftrightarrow> c \<notin> set s"
  by (induction s) (auto split: option.splits)

lemma strrchr_Some:
  "strrchr s c = Some i \<Longrightarrow> i < length s \<and> s ! i = c \<and> c \<notin> set (drop (Suc i) s)"
  by (induction s arbitrary: i) (auto simp: strrchr_None split: option.splits if_splits)

lemma strrchr_split: "c \<notin> set b \<Longrightarrow> strrchr (a @ c # b) c = Some (length a)"
  by (induction a) (simp_all add: strrchr_None [THEN iffD2])

text \<open>The positions of the slashes above the last component, without the root.\<close>

definition slash_at :: "cstr \<Rightarrow> nat \<Rightarrow> bool" where
  "slash_at path i \<longleftrightarrow> 0 < i \<and> i < length path \<and> path ! i = CHR ''/''"

lemma rstrchr_slash:
  assumes "rstrchr path CHR ''/'' n = Some i" "n < length path"
  shows "i \<le> n" "path ! i = CHR ''/''" "\<forall>j. slash_at path j \<and> j \<le> n \<longrightarrow> j \<le> i"
  using assms by (induction n) (auto simp: slash_at_def le_Suc_eq split: if_splits)

lemma rstrchr_root: "path ! 0 = CHR ''/'' \<Longrightarrow> \<exists>i. rstrchr path CHR ''/'' n = Some i"
  by (induction n) auto

locale mkdir_world =
  fixes mkdir :: "'s mkdir_call" and exists_at :: "'s \<Rightarrow> cstr \<Rightarrow> bool" and inv :: "'s \<Rightarrow> bool"
  assumes inv_mkdir: "inv s \<Longrightarrow> inv (snd (mkdir p s))"
    and made: "fst (mkdir p s) = None \<or> fst (mkdir p s) = Some EEXIST \<Longrightarrow> exists_at (snd (mkdir p s)) p"
    and kept: "exists_at s q \<Longrightarrow> exists_at (snd (mkdir p s)) q"
    and above: "inv s \<Longrightarrow> exists_at s (p @ CHR ''/'' # q) \<Longrightarrow> p \<noteq> [] \<Longrightarrow> exists_at s p"
begin

lemma single_facts:
  assumes "mkdirSingle mkdir path i e s = (r, s')" "inv s"
  shows "inv s'" "exists_at s q \<Longrightarrow> exists_at s' q" "r = mkdirSUCCESS \<Longrightarrow> exists_at s' (take i path)"
  using assms inv_mkdir [of s "take i path"] made [of "take i path" s] kept [of s q "take i path"]
  by (auto simp: mkdirSingle_def split: prod.splits option.splits if_splits)

lemma above_take:
  assumes "inv s" "exists_at s (take i path)" "slash_at path j" "j < i"
  shows "exists_at s (take j path)"
proof -
  have "take i path = take j path @ CHR ''/'' # drop (Suc j) (take i path)"
    using assms(3,4) id_take_nth_drop [of j "take i path"] by (simp add: slash_at_def min_absorb1)
  moreover have "take j path \<noteq> []" using assms(3) by (auto simp: slash_at_def)
  ultimately show ?thesis using assms(1,2) above by metis
qed

lemma down_facts:
  assumes "down_loop mkdir path ptr s = (Some p, s')" "inv s" "ptr < int (length path)"
  shows "inv s' \<and> (\<forall>j. slash_at path j \<and> int j \<le> p \<longrightarrow> exists_at s' (take j path))"
  using assms
proof (induction ptr arbitrary: s rule: measure_induct_rule [where f = nat])
  case (less ptr)
  show ?case
  proof (cases "ptr > 0")
    case False
    then show ?thesis using less.prems by (auto simp: slash_at_def down_loop.simps)
  next
    case True
    then obtain i where i: "rstrchr path CHR ''/'' (nat ptr) = Some i"
      using less.prems(1) by (auto simp: down_loop.simps split: option.splits)
    obtain r t where r: "mkdirSingle mkdir path i (Some ENOENT) s = (r, t)" by fastforce
    note f = single_facts [OF r less.prems(2)]
    have le: "i \<le> nat ptr" using rstrchr_le [OF i] .
    show ?thesis
    proof (cases r)
      case mkdirFAIL
      then show ?thesis using less.prems(1) True i r by (simp add: down_loop.simps)
    next
      case mkdirSUCCESS
      then have "p = int i" "s' = t" using less.prems(1) True i r by (auto simp: down_loop.simps)
      then show ?thesis
        using f(1,3) above_take [OF f(1), of i path] mkdirSUCCESS by (auto simp: le_less)
    next
      case mkdirSKIP
      then have "down_loop mkdir path (int i - 1) t = (Some p, s')"
        using less.prems(1) True i r by (simp add: down_loop.simps)
      then show ?thesis using less.IH [of "int i - 1" t] f(1) le True less.prems(3) by auto
    qed
  qed
qed

lemma up_facts:
  assumes "up_loop mkdir path ptr s = (True, s')" "inv s"
    "\<forall>j. slash_at path j \<and> j < ptr \<longrightarrow> exists_at s (take j path)"
  shows "\<forall>j. slash_at path j \<longrightarrow> exists_at s' (take j path)"
  using assms
proof (induction "length path - ptr" arbitrary: ptr s rule: less_induct)
  case less
  show ?case
  proof (cases "strchr (drop ptr path) CHR ''/''")
    case None
    then have none: "CHR ''/'' \<notin> set (drop ptr path)" by (simp add: strchr_None)
    have "j < ptr" if "slash_at path j" for j
    proof (rule ccontr)
      assume "\<not> j < ptr"
      then have "path ! j \<in> set (drop ptr path)"
        using that nth_mem [of "j - ptr" "drop ptr path"] by (simp add: slash_at_def diff_less_mono)
      then show False using none that by (simp add: slash_at_def)
    qed
    then show ?thesis using less.prems(1,3) None by (simp add: up_loop.simps)
  next
    case (Some k)
    obtain r t where r: "mkdirSingle mkdir path (ptr + k) None s = (r, t)" by fastforce
    note f = single_facts [OF r less.prems(2)]
    have ok: "r = mkdirSUCCESS" "up_loop mkdir path (ptr + k + 1) t = (True, s')"
      using less.prems(1) Some r by (auto simp: up_loop.simps split: mkdir_result.splits)
    have "k < length (drop ptr path)" "CHR ''/'' \<notin> set (take k (drop ptr path))"
      using Some by (simp_all add: strchr_Some)
    then have gap: "\<not> slash_at path j" if "ptr \<le> j" "j < ptr + k" for j
      using that nth_mem [of "j - ptr" "take k (drop ptr path)"]
      by (auto simp: slash_at_def less_diff_conv2 add.commute)
    have "exists_at t (take j path)" if "slash_at path j" "j < ptr + k + 1" for j
    proof (cases "j < ptr")
      case True
      then show ?thesis using that less.prems(3) f(2) by blast
    next
      case False
      then have "j = ptr + k" using gap [of j] that by linarith
      then show ?thesis using f(3) ok(1) by simp
    qed
    then show ?thesis
      using less.hyps [OF _ ok(2)] f(1) \<open>k < length (drop ptr path)\<close> by auto
  qed
qed

lemma mkdirRecursive_makes:
  assumes "mkdirRecursive mkdir path s = (True, s')" "inv s" "slash_at path j"
  shows "exists_at s' (take j path)"
proof -
  obtain p t where d: "down_loop mkdir path (int (length path) - 1) s = (Some p, t)"
    and u: "up_loop mkdir path (nat (p + 1)) t = (True, s')"
    using assms(1) by (auto simp: mkdirRecursive_def split: if_splits prod.splits option.splits)
  have "inv t" "\<forall>j. slash_at path j \<and> j < nat (p + 1) \<longrightarrow> exists_at t (take j path)"
    using down_facts [OF d assms(2)] by auto
  then show ?thesis using up_facts [OF u] assms(3) by blast
qed

end

text \<open>A world in which making a directory fails only for want of the directory above it.\<close>

locale mkdir_free = mkdir_world +
  assumes free: "inv s \<Longrightarrow> p \<noteq> [] \<Longrightarrow> parent_dir p = [] \<or> exists_at s (parent_dir p) \<Longrightarrow>
      fst (mkdir p s) = None \<or> fst (mkdir p s) = Some EEXIST"
    and missing: "inv s \<Longrightarrow> parent_dir p \<noteq> [] \<Longrightarrow> \<not> exists_at s (parent_dir p) \<Longrightarrow> fst (mkdir p s) = Some ENOENT"
begin

lemma single_free:
  assumes "inv s" "0 < i" "i < length path" "parent_dir (take i path) = [] \<or> exists_at s (parent_dir (take i path))"
  shows "fst (mkdirSingle mkdir path i e s) = mkdirSUCCESS"
proof -
  have "take i path \<noteq> []" using assms(2,3) by auto
  then have "fst (mkdir (take i path) s) = None \<or> fst (mkdir (take i path) s) = Some EEXIST"
    using free [OF assms(1) _ assms(4)] by simp
  then show ?thesis by (cases "mkdir (take i path) s") (auto simp: mkdirSingle_def)
qed

lemma down_free:
  assumes "inv s" "ptr < int (length path)" "path ! 0 = CHR ''/''" "slash_at path j" "int j \<le> ptr"
  shows "\<exists>i s'. down_loop mkdir path ptr s = (Some (int i), s') \<and> slash_at path i \<and> exists_at s' (take i path)"
  using assms
proof (induction ptr arbitrary: s j rule: measure_induct_rule [where f = nat])
  case (less ptr)
  have pos: "ptr > 0" "nat ptr < length path" using less.prems(2,4,5) by (auto simp: slash_at_def)
  obtain i where i: "rstrchr path CHR ''/'' (nat ptr) = Some i" using rstrchr_root [OF less.prems(3)] by blast
  note at = rstrchr_slash [OF i pos(2)]
  have "j \<le> i" using at(3) less.prems(4,5) by auto
  then have si: "slash_at path i" using at(1,2) pos(2) less.prems(4) by (auto simp: slash_at_def)
  obtain r t where r: "mkdirSingle mkdir path i (Some ENOENT) s = (r, t)" by fastforce
  note f = single_facts [OF r less.prems(1)]
  show ?case
  proof (cases "parent_dir (take i path) = [] \<or> exists_at s (parent_dir (take i path))")
    case True
    then have "r = mkdirSUCCESS" 
      using single_free [OF less.prems(1), of i path "Some ENOENT"] si r by (simp add: slash_at_def)
    then show ?thesis using pos(1) i r si f(3) by (auto simp: down_loop.simps)
  next
    case False
    then have "r = mkdirSKIP"
      using missing [OF less.prems(1), of "take i path"] r
      by (cases "mkdir (take i path) s") (auto simp: mkdirSingle_def)
    then have step: "down_loop mkdir path ptr s = down_loop mkdir path (int i - 1) t"
      using pos(1) i r by (simp add: down_loop.simps)
    obtain k where "strrchr (take i path) CHR ''/'' = Some k" "take k (take i path) \<noteq> []"
      using False by (auto simp: parent_dir_def split: option.splits)
    then have "slash_at path k" "k < i" by (auto simp: slash_at_def dest!: strrchr_Some)
    then show ?thesis
      using less.IH [of "int i - 1" t k] step f(1) at(1) pos less.prems(3) by auto
  qed
qed

lemma up_free:
  assumes "inv s" "slash_at path p" "exists_at s (take p path)" "path ! 0 = CHR ''/''"
  shows "fst (up_loop mkdir path (Suc p) s)"
  using assms
proof (induction "length path - p" arbitrary: p s rule: less_induct)
  case less
  show ?case
  proof (cases "strchr (drop (Suc p) path) CHR ''/''")
    case None
    then show ?thesis by (simp add: up_loop.simps)
  next
    case (Some k)
    let ?i = "Suc p + k"
    have k: "?i < length path" "path ! ?i = CHR ''/''" "CHR ''/'' \<notin> set (take k (drop (Suc p) path))"
      using Some by (auto simp: strchr_Some)
    have "take ?i path = take p path @ CHR ''/'' # take k (drop (Suc p) path)"
      using less.prems(2) take_add [of "Suc p" k path] take_Suc_conv_app_nth [of p path]
      by (simp add: slash_at_def)
    then have "parent_dir (take ?i path) = take p path"
      using k(3) less.prems(2) by (simp add: parent_dir_def strrchr_split slash_at_def)
    then have "fst (mkdirSingle mkdir path ?i None s) = mkdirSUCCESS"
      using single_free [OF less.prems(1), of ?i path None] less.prems(3) k(1) by simp
    then obtain t where t: "mkdirSingle mkdir path ?i None s = (mkdirSUCCESS, t)"
      by (cases "mkdirSingle mkdir path ?i None s") auto
    note f = single_facts [OF t less.prems(1)]
    have "fst (up_loop mkdir path (Suc ?i) t)"
      using less.hyps [of ?i t] f(1,3) k less.prems(2,4) by (auto simp: slash_at_def)
    then show ?thesis using Some t by (simp add: up_loop.simps)
  qed
qed

lemma mkdirRecursive_succeeds:
  assumes "inv s" "path ! 0 = CHR ''/''" "slash_at path j"
  shows "fst (mkdirRecursive mkdir path s)"
proof -
  obtain i t where d: "down_loop mkdir path (int (length path) - 1) s = (Some (int i), t)"
    and i: "slash_at path i" "exists_at t (take i path)"
    using down_free [OF assms(1) _ assms(2,3), of "int (length path) - 1"] assms(3) by (auto simp: slash_at_def)
  have "inv t" using down_facts [OF d assms(1)] by simp
  then have "fst (up_loop mkdir path (Suc i) t)" using up_free i assms(2) by blast
  moreover have "deref path = CHR ''/''" using assms(2,3) by (cases path) (auto simp: slash_at_def)
  ultimately show ?thesis using d by (simp add: mkdirRecursive_def nat_add_distrib)
qed

end

section \<open>The file system\<close>

definition tree_fs :: "fs \<Rightarrow> bool" where
  "tree_fs fs \<longleftrightarrow> (\<forall>p q. p \<noteq> [] \<and> names fs (p @ CHR ''/'' # q) \<noteq> None \<longrightarrow> names fs p \<noteq> None)"

definition all_dirs :: "fs \<Rightarrow> bool" where
  "all_dirs fs \<longleftrightarrow> (\<forall>p n. names fs p = Some n \<longrightarrow> has_type fs n S_DIR)"

lemma parent_dir_cases:
  assumes "p @ CHR ''/'' # q = d"
  shows "parent_dir d = p \<or> (\<exists>r. parent_dir d = p @ CHR ''/'' # r)"
proof (cases "strrchr q CHR ''/''")
  case None
  then show ?thesis using assms strrchr_split [of "CHR ''/''" q p] by (auto simp: parent_dir_def strrchr_None)
next
  case (Some i)
  have "strrchr (p @ CHR ''/'' # q) CHR ''/'' = Some (length p + 1 + i)" using Some by (induction p) auto
  then show ?thesis using assms by (auto simp: parent_dir_def)
qed

lemma parent_dir_split: "parent_dir p \<noteq> [] \<Longrightarrow> \<exists>q. p = parent_dir p @ CHR ''/'' # q"
  using strrchr_Some [of p "CHR ''/''"] id_take_nth_drop [of _ p]
  by (fastforce simp: parent_dir_def split: option.splits)

lemma parent_dir_Nil: "parent_dir [] = []"
  by (simp add: parent_dir_def)

lemma tree_fsD: "tree_fs fs \<Longrightarrow> names fs (p @ CHR ''/'' # q) \<noteq> None \<Longrightarrow> p \<noteq> [] \<Longrightarrow> names fs p \<noteq> None"
  unfolding tree_fs_def by blast

lemma sys_mkdir_cases:
  "snd (sys_mkdir env d fs) = fs \<or>
   snd (sys_mkdir env d fs) = new_file d (fresh_inode env S_DIR 448) fs \<and>
   (parent_dir d = [] \<or> names fs (parent_dir d) \<noteq> None)"
  by (auto simp: sys_mkdir_def)

lemma tree_fs_mkdir:
  assumes t: "tree_fs fs"
  shows "tree_fs (snd (sys_mkdir env d fs))"
  using sys_mkdir_cases [of env d fs]
proof
  assume made: "snd (sys_mkdir env d fs) = new_file d (fresh_inode env S_DIR 448) fs \<and>
    (parent_dir d = [] \<or> names fs (parent_dir d) \<noteq> None)"
  have "names fs p \<noteq> None" if "p @ CHR ''/'' # q = d" "p \<noteq> []" for p q
    using parent_dir_cases [OF that(1)] that(2) made tree_fsD [OF t _ that(2)] by (metis Nil_is_append_conv)
  then have "names (new_file d nd fs) p \<noteq> None"
    if "names (new_file d nd fs) (p @ CHR ''/'' # q) \<noteq> None" "p \<noteq> []" for p q nd
    using that tree_fsD [OF t, of p q] by (cases "p @ CHR ''/'' # q = d") (auto simp: new_file_def)
  then show ?thesis using made unfolding tree_fs_def by metis
qed (use t in simp)

lemma all_dirs_mkdir:
  "wf_fs fs \<and> all_dirs fs \<Longrightarrow> wf_fs (snd (sys_mkdir env d fs)) \<and> all_dirs (snd (sys_mkdir env d fs))"
  by (auto simp: sys_mkdir_def all_dirs_def new_file_def has_type_def fresh_inode_def wf_fs_def less_Suc_eq
      split: option.splits)

interpretation um: mkdir_world "sys_mkdir env" "\<lambda>fs p. names fs p \<noteq> None" tree_fs for env
proof
  show "tree_fs s \<Longrightarrow> tree_fs (snd (sys_mkdir env p s))" for s p by (rule tree_fs_mkdir)
  show "fst (sys_mkdir env p s) = None \<or> fst (sys_mkdir env p s) = Some EEXIST \<Longrightarrow>
      names (snd (sys_mkdir env p s)) p \<noteq> None" for s p
    by (auto simp: sys_mkdir_def new_file_def split: if_splits)
  show "names s q \<noteq> None \<Longrightarrow> names (snd (sys_mkdir env p s)) q \<noteq> None" for s p q
    by (auto simp: sys_mkdir_def new_file_def)
  show "tree_fs s \<Longrightarrow> names s (p @ CHR ''/'' # q) \<noteq> None \<Longrightarrow> p \<noteq> [] \<Longrightarrow> names s p \<noteq> None" for s p q
    by (rule tree_fsD)
qed

interpretation uf: mkdir_free "sys_mkdir (env\<lparr>refuses := \<lambda>_ _. False\<rparr>)" "\<lambda>fs p. names fs p \<noteq> None"
  "\<lambda>fs. tree_fs fs \<and> wf_fs fs \<and> all_dirs fs" for env
proof
  let ?e = "env\<lparr>refuses := \<lambda>_ _. False\<rparr>"
  let ?inv = "\<lambda>fs. tree_fs fs \<and> wf_fs fs \<and> all_dirs fs"
  show "?inv s \<Longrightarrow> ?inv (snd (sys_mkdir ?e p s))" for s p
    using tree_fs_mkdir all_dirs_mkdir by blast
  show "?inv s \<Longrightarrow> names s (p @ CHR ''/'' # q) \<noteq> None \<Longrightarrow> p \<noteq> [] \<Longrightarrow> names s p \<noteq> None" for s p q
    using tree_fsD by blast
  show "?inv s \<Longrightarrow> p \<noteq> [] \<Longrightarrow> parent_dir p = [] \<or> names s (parent_dir p) \<noteq> None \<Longrightarrow>
      fst (sys_mkdir ?e p s) = None \<or> fst (sys_mkdir ?e p s) = Some EEXIST" for s p
    by (auto simp: sys_mkdir_def all_dirs_def)
  show "?inv s \<Longrightarrow> parent_dir p \<noteq> [] \<Longrightarrow> \<not> names s (parent_dir p) \<noteq> None \<Longrightarrow>
      fst (sys_mkdir ?e p s) = Some ENOENT" for s p
    using parent_dir_split [of p] tree_fsD [of s "parent_dir p"]
    by (cases "names s p") (auto simp: sys_mkdir_def, metis option.distinct(1))
qed (use um.made um.kept in auto)

lemma mkdirRecursive_below_root:
  assumes "path ! 0 = CHR ''/''" "length path > 1" "\<not> (\<exists>j. slash_at path j)"
  shows "\<not> fst (mkdirRecursive (sys_mkdir env) path fs)"
proof -
  let ?n = "length path - 1"
  obtain i where i: "rstrchr path CHR ''/'' ?n = Some i" using rstrchr_root [OF assms(1)] by blast
  have "?n < length path" using assms(2) by simp
  note at = rstrchr_slash [OF i this]
  have "i = 0"
  proof (rule ccontr)
    assume "i \<noteq> 0"
    then have "slash_at path i" using at(1,2) \<open>?n < length path\<close> by (auto simp: slash_at_def)
    then show False using assms(3) by blast
  qed
  moreover have root: "mkdirSingle (sys_mkdir env) path 0 e fs = (if e = Some ENOENT then mkdirSKIP else mkdirFAIL, fs)" for e
    by (auto simp: mkdirSingle_def sys_mkdir_def)
  moreover have "nat (int (length path) - 1) = ?n" by simp
  ultimately have "down_loop (sys_mkdir env) path (int (length path) - 1) fs = (Some (- 1), fs)"
    using i assms(2) by (simp add: down_loop.simps)
  moreover have "strchr path CHR ''/'' = Some 0" using assms(1,2) by (cases path) auto
  ultimately show ?thesis
    using root [of None] by (simp add: mkdirRecursive_def up_loop.simps)
qed

section \<open>Properties\<close>

text \<open>
  Whatever system call is refused: when the routine reports success, every directory above the last component of
  the path exists.
\<close>
lemma mkdirRecursive_parents:
  assumes "mkdirRecursive (sys_mkdir env) path fs = (True, fs')" "tree_fs fs" "slash_at path j"
  shows "names fs' (take j path) \<noteq> None"
  using um.mkdirRecursive_makes [OF assms] .

text \<open>
  The routine succeeds on every absolute path with at least two components when nothing is refused and nothing but
  directories is in the way. A path directly below the root is refused, because the routine asks for the directory with
  the empty name.
\<close>
lemma mkdirRecursive_free:
  assumes "tree_fs fs" "wf_fs fs" "all_dirs fs" "path ! 0 = CHR ''/''" "length path > 1"
  shows "fst (mkdirRecursive (sys_mkdir (env\<lparr>refuses := \<lambda>_ _. False\<rparr>)) path fs) \<longleftrightarrow> (\<exists>j. slash_at path j)"
proof
  show "fst (mkdirRecursive (sys_mkdir (env\<lparr>refuses := \<lambda>_ _. False\<rparr>)) path fs)" if "\<exists>j. slash_at path j"
    using that uf.mkdirRecursive_succeeds assms(1-4) by blast
  show "\<exists>j. slash_at path j" if "fst (mkdirRecursive (sys_mkdir (env\<lparr>refuses := \<lambda>_ _. False\<rparr>)) path fs)"
    using that mkdirRecursive_below_root [OF assms(4,5)] by blast
qed

text \<open>An empty file system and a path of three components.\<close>

definition root_env :: env where
  "root_env =
     \<lparr>refuses = (\<lambda>_ _. False), short_write = (\<lambda>_. 0), mktemp = (\<lambda>_ t. t), follow = (\<lambda>_ _. None),
      e_uid = 0, e_gid = 0, e_now = 0\<rparr>"

definition root_fs :: fs where
  "root_fs = \<lparr>names = Map.empty, inodes = Map.empty, next_ino = 1, fs_dev = 1\<rparr>"

lemma root_fs_facts: "tree_fs root_fs" "wf_fs root_fs" "all_dirs root_fs" "root_env\<lparr>refuses := \<lambda>_ _. False\<rparr> = root_env"
  by (auto simp: root_fs_def tree_fs_def wf_fs_def all_dirs_def root_env_def)

lemma mkdirRecursive_free_example:
  "fst (mkdirRecursive (sys_mkdir root_env) ''/a/b/c'' root_fs)"
proof -
  have "slash_at ''/a/b/c'' 2" by (simp add: slash_at_def)
  then show ?thesis
    using mkdirRecursive_free [OF root_fs_facts(1-3), of "''/a/b/c''" root_env] by (auto simp: root_fs_facts(4))
qed

lemma mkdirRecursive_parents_example:
  "names (snd (mkdirRecursive (sys_mkdir root_env) ''/a/b/c'' root_fs)) ''/a/b'' \<noteq> None"
proof -
  have "slash_at ''/a/b/c'' 4" by (simp add: slash_at_def)
  moreover have "fst (mkdirRecursive (sys_mkdir root_env) ''/a/b/c'' root_fs)" by code_simp
  ultimately show ?thesis
    using mkdirRecursive_parents [OF _ root_fs_facts(1), of root_env "''/a/b/c''" _ 4]
    by (cases "mkdirRecursive (sys_mkdir root_env) ''/a/b/c'' root_fs") auto
qed

end
