(* ===== verification/ConfigFiles.thy ===== *)
theory ConfigFiles
  imports VserverCfg MatchList
begin

text \<open>
  Configuration files: \<^verbatim>\<open>lib_internal/filecfg-readentrystr.c\<close>, \<^verbatim>\<open>filecfg-readentryflag.c\<close> and
  \<^verbatim>\<open>filecfg-iteratemultiline.c\<close>. The handler of the lines is a function on an arbitrary state that also says
  whether to go on.
\<close>

section \<open>Reading an entry\<close>

definition FILECFG_MAX_FILESIZE :: int where
  "FILECFG_MAX_FILESIZE = 0x100000"

definition entry_text :: "bool \<Rightarrow> cstr \<Rightarrow> cstr" where
  "entry_text allow_multiline buf =
     takeWhile (\<lambda>c. c \<noteq> NUL)
       (if \<not> allow_multiline
        then (case strchr (takeWhile (\<lambda>c. c \<noteq> NUL) buf) NL of None \<Rightarrow> buf | Some pos \<Rightarrow> take pos buf)
        else rev (dropWhile (\<lambda>c. c = NL) (rev buf)))"

definition FileCfg_readEntryStr ::
  "host \<Rightarrow> cstr \<Rightarrow> cstr \<Rightarrow> bool \<Rightarrow> cstr option \<Rightarrow> cstr option" where
  "FileCfg_readEntryStr h base entry allow_multiline dflt =
     (let path = PathInfo_append base entry; sz = h_end h path;
          res = (if \<not> h_open h path then None
                 else if sz = - 1 \<or> \<not> h_rewind h path then None
                 else if sz > 0 \<and> sz < FILECFG_MAX_FILESIZE
                 then (case h_read h path (nat sz + 1) of
                         None \<Rightarrow> None
                       | Some buf \<Rightarrow>
                           if int (length buf) \<noteq> sz then None else Some (entry_text allow_multiline buf))
                 else None)
      in if res = None then dflt else res)"

definition FileCfg_readEntryFlag :: "host \<Rightarrow> cstr \<Rightarrow> cstr \<Rightarrow> bool \<Rightarrow> bool" where
  "FileCfg_readEntryFlag h base entry dflt \<longleftrightarrow> h_stat h (PathInfo_append base entry) \<noteq> None \<or> dflt"

section \<open>Iterating over lines\<close>

definition is_blank :: "char \<Rightarrow> bool" where
  "is_blank c \<longleftrightarrow> c = CHR '' '' \<or> c = TAB"

text \<open>The loop that takes blanks off the end.\<close>

fun right_trim :: "cstr \<Rightarrow> nat \<Rightarrow> nat" where
  "right_trim ptr 0 = 0"
| "right_trim ptr (Suc n) = (if is_blank (ptr ! n) then right_trim ptr n else Suc n)"

function FileCfg_iterateOverMultiLine :: "(cstr \<Rightarrow> 's \<Rightarrow> bool \<times> 's) \<Rightarrow> cstr \<Rightarrow> 's \<Rightarrow> bool \<times> 's" where
  "FileCfg_iterateOverMultiLine handler str data =
     (if str = [] then (True, data)
      else
        (let ptr = dropWhile is_blank str;
             eol = (case strchr ptr NL of None \<Rightarrow> length ptr | Some i \<Rightarrow> i);
             len = right_trim ptr eol;
             (ok, data') = (if deref ptr \<noteq> CHR ''#'' \<and> len > 0 then handler (take len ptr) data else (True, data))
         in if \<not> ok then (False, data')
            else FileCfg_iterateOverMultiLine handler (drop (eol + 1) ptr) data'))"
  by pat_completeness auto
termination
proof (relation "measure (\<lambda>(_, str, _). length str)", goal_cases)
  case (2 handler str data ptr eol len z ok data')
  have "length ptr \<le> length str" unfolding \<open>ptr = _\<close> by (rule length_dropWhile_le)
  then show ?case using 2(1) by (cases ptr) (auto simp: less_Suc_eq_le)
qed simp

declare FileCfg_iterateOverMultiLine.simps [simp del]

section \<open>Lines\<close>

text \<open>The text of a line that the handler sees, if any, and the handler applied to a list of texts.\<close>

definition strip :: "cstr \<Rightarrow> cstr" where
  "strip l = rev (dropWhile is_blank (rev (dropWhile is_blank l)))"

definition line_text :: "cstr \<Rightarrow> cstr option" where
  "line_text l = (if strip l = [] \<or> hd (strip l) = CHR ''#'' then None else Some (strip l))"

fun handle_all :: "(cstr \<Rightarrow> 's \<Rightarrow> bool \<times> 's) \<Rightarrow> cstr list \<Rightarrow> 's \<Rightarrow> bool \<times> 's" where
  "handle_all handler [] data = (True, data)"
| "handle_all handler (t # ts) data =
     (let (ok, data') = handler t data in if ok then handle_all handler ts data' else (False, data'))"

lemma right_trim_take: "n \<le> length p \<Longrightarrow> take (right_trim p n) p = rev (dropWhile is_blank (rev (take n p)))"
  by (induction n) (auto simp: take_Suc_conv_app_nth)

lemma right_trim_le: "right_trim p n \<le> n"
  by (induction n) (auto simp: le_Suc_eq)

lemma right_trim_append: "n \<le> length p \<Longrightarrow> right_trim (p @ r) n = right_trim p n"
  by (induction n) (auto simp: nth_append)

lemma iterate_line:
  assumes "NL \<notin> set l" "rest = [] \<or> rest = NL # r" "l @ rest \<noteq> []"
  shows "FileCfg_iterateOverMultiLine handler (l @ rest) data =
    (case line_text l of
       None \<Rightarrow> FileCfg_iterateOverMultiLine handler (tl rest) data
     | Some t \<Rightarrow> (let (ok, data') = handler t data
                 in if ok then FileCfg_iterateOverMultiLine handler (tl rest) data' else (False, data')))"
proof -
  let ?p = "dropWhile is_blank l"
  have nl: "NL \<notin> set ?p" using assms(1) by (auto dest: set_dropWhileD)
  have "\<not> is_blank NL" by (simp add: is_blank_def)
  then have p: "dropWhile is_blank (l @ rest) = ?p @ rest"
    using assms(2) by (induction l) auto
  have eol: "(case strchr (?p @ rest) NL of None \<Rightarrow> length (?p @ rest) | Some i \<Rightarrow> i) = length ?p"
    using assms(2) nl strchr_None [of ?p NL] by auto
  let ?n = "right_trim ?p (length ?p)"
  have s: "take ?n ?p = strip l" "?n \<le> length ?p"
    using right_trim_take [of "length ?p" ?p] right_trim_le [of ?p "length ?p"] by (simp_all add: strip_def)
  have n: "?n = length (strip l)" using s by (metis length_take min_absorb2)
  have "strip l \<noteq> [] \<Longrightarrow> hd (strip l) = deref (?p @ rest)"
    unfolding s(1) [symmetric] by (cases ?p; cases ?n) auto
  then have "deref (?p @ rest) \<noteq> CHR ''#'' \<and> ?n > 0 \<longleftrightarrow> line_text l \<noteq> None"
    unfolding n by (auto simp: line_text_def)
  moreover have "take ?n (?p @ rest) = strip l" using s by simp
  moreover have "line_text l \<noteq> None \<longrightarrow> line_text l = Some (strip l)" by (simp add: line_text_def)
  moreover have "drop (length ?p + 1) (?p @ rest) = tl rest" using assms(2) by auto
  ultimately show ?thesis
    using assms(3) p eol
    by (subst FileCfg_iterateOverMultiLine.simps)
       (auto simp: Let_def right_trim_append split: prod.splits)
qed

lemma iterate_lines:
  assumes "\<forall>l \<in> set ls. NL \<notin> set l" "NL \<notin> set rest"
  shows "FileCfg_iterateOverMultiLine handler (unlines ls @ rest) data =
    handle_all handler (List.map_filter line_text (ls @ [rest])) data"
  using assms(1)
proof (induction ls arbitrary: data)
  case Nil
  have "FileCfg_iterateOverMultiLine handler [] d = (True, d)" for d by (simp add: FileCfg_iterateOverMultiLine.simps)
  moreover have "line_text [] = None" by (simp add: line_text_def strip_def)
  ultimately show ?case
    using iterate_line [OF assms(2), of "[]" _ handler data]
    by (cases "rest = []") (auto simp: unlines_def List.map_filter_def split: option.splits prod.splits)
next
  case (Cons l ls)
  then show ?case
    using iterate_line [of l "NL # unlines ls @ rest" "unlines ls @ rest" handler data]
    by (auto simp: unlines_def List.map_filter_def split: option.splits prod.splits)
qed

lemma readEntryStr_serves:
  assumes "serves h (PathInfo_append base entry) d" "d \<noteq> []" "length d < 0x100000"
  shows "FileCfg_readEntryStr h base entry multi dflt = Some (entry_text multi d)"
  using assms by (simp add: FileCfg_readEntryStr_def serves_def FILECFG_MAX_FILESIZE_def)

section \<open>Properties\<close>

text \<open>
  The handler gets exactly the lines that are neither empty nor comments, in their order and without the blanks around
  them, until it refuses one; it does not matter whether the last line ends with a newline.
\<close>
lemma FileCfg_lines:
  assumes "\<forall>l \<in> set ls. NL \<notin> set l" "NL \<notin> set rest"
  shows "FileCfg_iterateOverMultiLine handler (unlines ls @ rest) data =
    handle_all handler (List.map_filter line_text (ls @ [rest])) data"
  by (rule iterate_lines [OF assms])

lemma FileCfg_lines_example:
  "FileCfg_iterateOverMultiLine (\<lambda>t d. (True, d @ [t])) (''  a b '' @ [NL] @ ''# no'' @ [NL, TAB, NL] @ ''c'') [] =
     (True, [''a b'', ''c''])"
proof -
  have "FileCfg_iterateOverMultiLine (\<lambda>t d. (True, d @ [t])) (unlines [''  a b '', ''# no'', [TAB]] @ ''c'') [] =
    handle_all (\<lambda>t d. (True, d @ [t])) (List.map_filter line_text ([''  a b '', ''# no'', [TAB]] @ [''c''])) []"
    by (rule FileCfg_lines) auto
  moreover have "handle_all (\<lambda>t d. (True, d @ [t])) (List.map_filter line_text ([''  a b '', ''# no'', [TAB]] @ [''c''])) [] =
    (True, [''a b'', ''c''])"
    by code_simp
  ultimately show ?thesis by (simp add: unlines_def)
qed

text \<open>
  A single-line entry is the text before the first newline, a multi-line entry the whole text without the newlines at its
  end; the default is used when the file is empty, too large or cannot be read.
\<close>
lemma FileCfg_readEntryStr_text:
  fixes base entry :: cstr
  assumes "is_cstr l" "NL \<notin> set l" "is_cstr t" "t \<noteq> []" "last t \<noteq> NL"
  defines "path \<equiv> PathInfo_append base entry"
  shows "(serves h path (l @ NL # r) \<and> length (l @ NL # r) < 0x100000 \<longrightarrow>
      FileCfg_readEntryStr h base entry False dflt = Some l) \<and>
    (serves h path (t @ replicate k NL) \<and> length (t @ replicate k NL) < 0x100000 \<longrightarrow>
      FileCfg_readEntryStr h base entry True dflt = Some t) \<and>
    (\<not> h_open h path \<or> h_end h path \<le> 0 \<or> h_end h path \<ge> 0x100000 \<longrightarrow>
      FileCfg_readEntryStr h base entry multi dflt = dflt)"
proof -
  have "takeWhile (\<lambda>c. c \<noteq> NUL) (l @ NL # r) = l @ NL # takeWhile (\<lambda>c. c \<noteq> NUL) r"
    using assms(1) by (induction l) auto
  then have "entry_text False (l @ NL # r) = l" using assms(1,2) by (simp add: entry_text_def)
  moreover have "rev (dropWhile (\<lambda>c. c = NL) (rev (t @ replicate k NL))) = t"
    using assms(4,5) by (cases t rule: rev_cases) (auto simp: dropWhile_append)
  then have "entry_text True (t @ replicate k NL) = t" using assms(3) by (simp add: entry_text_def)
  moreover have "FileCfg_readEntryStr h base entry multi dflt = dflt"
    if "\<not> h_open h path \<or> h_end h path \<le> 0 \<or> h_end h path \<ge> 0x100000"
    using that by (auto simp: FileCfg_readEntryStr_def path_def FILECFG_MAX_FILESIZE_def Let_def)
  ultimately show ?thesis
    using assms(4) readEntryStr_serves [of h base entry "l @ NL # r"]
      readEntryStr_serves [of h base entry "t @ replicate k NL"]
    by (auto simp: path_def)
qed

lemma FileCfg_readEntryStr_text_example:
  "FileCfg_readEntryStr sample_host ''/etc/vservers/web'' ''run'' False None = Some ''42'' \<and>
   FileCfg_readEntryStr sample_host ''/etc/vservers/web'' ''nice'' False (Some ''0'') = Some ''0''"
proof -
  have "serves sample_host (PathInfo_append ''/etc/vservers/web'' ''run'') (''42'' @ NL # [])" by code_simp
  moreover have "\<not> h_open sample_host (PathInfo_append ''/etc/vservers/web'' ''nice'')" by code_simp
  ultimately show ?thesis
    using FileCfg_readEntryStr_text [of "''42''" "''42''" sample_host "''/etc/vservers/web''" "''run''" "[]"]
      FileCfg_readEntryStr_text [of "''42''" "''42''" sample_host "''/etc/vservers/web''" "''nice''" "[]" "Some ''0''" 0 False]
    by simp
qed

end
