(* ===== verification/Limits.thy ===== *)
theory Limits
  imports NumParse CBuffer
begin

text \<open>
  Resource limits (\<^verbatim>\<open>src/vlimit.c\<close>) and disk limits (\<^verbatim>\<open>src/vdlimit.c\<close>) of contexts. The command
  line is the list of options that \<^verbatim>\<open>getopt_long\<close> reports, one constructor for each, with the rest of the
  arguments; texts of messages are left out. A left value is the exit code of the program.
\<close>

section \<open>Resource limits: data\<close>

record vc_rlimit =
  rl_min :: u64
  rl_soft :: u64
  rl_hard :: u64

text \<open>The numbers of the resources with a name; the others are holes of the table.\<close>

definition LIMIT_STR :: "cstr option list" where
  "LIMIT_STR =
     [Some ''CPU'', Some ''FSIZE'', Some ''DATA'', Some ''STACK'', Some ''CORE'', Some ''RSS'', Some ''NPROC'',
      Some ''NOFILE'', Some ''MEMLOCK'', Some ''AS'', Some ''LOCKS'', None, Some ''MSGQUEUE'', None, None, None,
      Some ''NSOCK'', Some ''OPENFD'', Some ''ANON'', Some ''SHMEM'', Some ''SEMARY'', Some ''NSEMS'', Some ''DENTRY'']"

datatype vlimit_opt =
    OptHelp | OptVersion | OptAll | OptNoResolve | OptDecimal | OptDir cstr | OptMissingok | OptXid cstr
  | OptMin | OptSoft | OptHard | OptLimit nat cstr | OptUnknown

record vlimit_state =
  lim_mask :: u32
  set_mask :: u32
  limits :: "vc_rlimit list"
  show_all :: bool
  vl_ctx :: xid_t
  vl_dir :: "cstr option"
  missing_ok :: bool
  do_resolve :: bool
  decimal :: bool

text \<open>The answers of the host: the context of the task, the contexts of vservers, files and the kernel.\<close>

record vlimit_host =
  vh_task :: xid_t
  vh_getctx :: "cstr \<Rightarrow> bool \<Rightarrow> vcCtxType \<Rightarrow> xid_t"
  vh_stat :: "cstr \<Rightarrow> errno option"
  vh_open :: "cstr \<Rightarrow> bool"
  vh_read :: "cstr \<Rightarrow> nat \<Rightarrow> cstr option"
  vh_rlimit_mask :: "xid_t \<Rightarrow> (u32 \<times> u32 \<times> u32) option"
  vh_rlimit :: "xid_t \<Rightarrow> nat \<Rightarrow> vc_rlimit option"

definition vlimit_exit_code :: int where
  "vlimit_exit_code = 255"

section \<open>Resource limits: the command line\<close>

definition keep_limit :: vc_rlimit where
  "keep_limit = \<lparr>rl_min = VC_LIM_KEEP, rl_soft = VC_LIM_KEEP, rl_hard = VC_LIM_KEEP\<rparr>"

definition vlimit_init :: vlimit_state where
  "vlimit_init =
     \<lparr>lim_mask = 0, set_mask = 0, limits = replicate 32 keep_limit, show_all = False, vl_ctx = VC_NOCTX,
      vl_dir = None, missing_ok = False, do_resolve = True, decimal = False\<rparr>"

definition store_limit :: "u32 \<Rightarrow> u64 \<Rightarrow> vc_rlimit \<Rightarrow> vc_rlimit" where
  "store_limit msk val lim =
     (let l1 = (if bit msk 0 then lim\<lparr>rl_min := val\<rparr> else lim);
          l2 = (if bit msk 1 then l1\<lparr>rl_soft := val\<rparr> else l1)
      in if bit msk 2 then l2\<lparr>rl_hard := val\<rparr> else l2)"

definition set_option :: "nat \<Rightarrow> cstr \<Rightarrow> vlimit_state \<Rightarrow> int + vlimit_state" where
  "set_option i arg st =
     (let (val, ok) = vc_parseLimit arg
      in if \<not> ok then Inl vlimit_exit_code
         else
           (let msk = (if set_mask st = 0 then 4 else set_mask st)
            in Inr (st\<lparr>limits := (limits st)[i := store_limit msk val (limits st ! i)],
                       lim_mask := lim_mask st OR push_bit i 1, set_mask := 0\<rparr>)))"

fun vlimit_option :: "vlimit_host \<Rightarrow> vlimit_opt \<Rightarrow> vlimit_state \<Rightarrow> int + vlimit_state" where
  "vlimit_option h OptHelp st = Inl 0"
| "vlimit_option h OptVersion st = Inl 0"
| "vlimit_option h OptAll st = Inr (st\<lparr>show_all := True\<rparr>)"
| "vlimit_option h OptNoResolve st = Inr (st\<lparr>do_resolve := False\<rparr>)"
| "vlimit_option h OptDecimal st = Inr (st\<lparr>decimal := True\<rparr>)"
| "vlimit_option h (OptDir d) st = Inr (st\<lparr>vl_dir := Some d\<rparr>)"
| "vlimit_option h OptMissingok st = Inr (st\<lparr>missing_ok := True\<rparr>)"
| "vlimit_option h (OptXid s) st =
     (let (x, err) = vc_xidopt2xid (vh_task h) (vh_getctx h) s True
      in if err = None then Inr (st\<lparr>vl_ctx := x\<rparr>) else Inl vlimit_exit_code)"
| "vlimit_option h OptMin st = Inr (st\<lparr>set_mask := set_mask st OR 1\<rparr>)"
| "vlimit_option h OptSoft st = Inr (st\<lparr>set_mask := set_mask st OR 2\<rparr>)"
| "vlimit_option h OptHard st = Inr (st\<lparr>set_mask := set_mask st OR 4\<rparr>)"
| "vlimit_option h (OptLimit i arg) st = set_option i arg st"
| "vlimit_option h OptUnknown st = Inl vlimit_exit_code"

fun vlimit_options :: "vlimit_host \<Rightarrow> vlimit_opt list \<Rightarrow> vlimit_state \<Rightarrow> int + vlimit_state" where
  "vlimit_options h [] st = Inr st"
| "vlimit_options h (opt # opts) st =
     (case vlimit_option h opt st of Inl e \<Rightarrow> Inl e | Inr st' \<Rightarrow> vlimit_options h opts st')"

section \<open>Resource limits: the directory\<close>

definition readValue :: "vlimit_host \<Rightarrow> cstr \<Rightarrow> int + u64" where
  "readValue h file =
     (case vh_read h file 127 of
        None \<Rightarrow> Inl vlimit_exit_code
      | Some buf \<Rightarrow>
          (let (res, ok) = vc_parseLimit (takeWhile (\<lambda>c. c \<noteq> NUL) buf)
           in if ok then Inr res else Inl vlimit_exit_code))"

text \<open>\<open>None\<close> on the right means that the file does not exist.\<close>

definition readFile :: "vlimit_host \<Rightarrow> cstr \<Rightarrow> cstr \<Rightarrow> int + u64 option" where
  "readFile h base suffix =
     (if vh_open h (base @ suffix)
      then (case readValue h (base @ suffix) of Inl e \<Rightarrow> Inl e | Inr v \<Rightarrow> Inr (Some v))
      else Inr None)"

definition dir_prefix :: "cstr \<Rightarrow> cstr" where
  "dir_prefix pathname = (if pathname \<noteq> [] \<and> last pathname \<noteq> CHR ''/'' then pathname @ ''/'' else pathname)"

text \<open>One step of the sequence of files: what the found value does to the limits and to the mask.\<close>

definition read_step ::
  "vlimit_host \<Rightarrow> cstr \<Rightarrow> nat \<Rightarrow> cstr \<Rightarrow> (u64 \<Rightarrow> vc_rlimit \<Rightarrow> vc_rlimit) \<Rightarrow>
   vc_rlimit list \<times> u32 \<Rightarrow> int + vc_rlimit list \<times> u32" where
  "read_step h base i suffix upd s =
     (case readFile h base suffix of
        Inl e \<Rightarrow> Inl e
      | Inr None \<Rightarrow> Inr s
      | Inr (Some v) \<Rightarrow> (case s of (ls, msk) \<Rightarrow> Inr (ls[i := upd v (ls ! i)], msk OR push_bit i 1)))"

definition bind_sum :: "'e + 'a \<Rightarrow> ('a \<Rightarrow> 'e + 'b) \<Rightarrow> 'e + 'b" where
  "bind_sum x f = (case x of Inl e \<Rightarrow> Inl e | Inr a \<Rightarrow> f a)"

definition read_resource ::
  "vlimit_host \<Rightarrow> cstr \<Rightarrow> nat \<Rightarrow> vc_rlimit list \<times> u32 \<Rightarrow> int + vc_rlimit list \<times> u32" where
  "read_resource h base i s =
     bind_sum (read_step h base i [] (\<lambda>v l. l\<lparr>rl_min := v, rl_soft := v, rl_hard := v\<rparr>) s)
       (\<lambda>s. bind_sum (read_step h base i ''.min'' (\<lambda>v l. l\<lparr>rl_min := v\<rparr>) s)
         (\<lambda>s. bind_sum (read_step h base i ''.soft'' (\<lambda>v l. l\<lparr>rl_soft := v\<rparr>) s)
           (\<lambda>s. read_step h base i ''.hard'' (\<lambda>v l. l\<lparr>rl_hard := v\<rparr>) s)))"

fun readdir_loop ::
  "vlimit_host \<Rightarrow> cstr \<Rightarrow> nat \<Rightarrow> cstr option list \<Rightarrow> vc_rlimit list \<times> u32 \<Rightarrow> int + vc_rlimit list \<times> u32" where
  "readdir_loop h dir i [] s = Inr s"
| "readdir_loop h dir i (n # ns) s =
     (case n of
        None \<Rightarrow> readdir_loop h dir (Suc i) ns s
      | Some name \<Rightarrow>
          if bit (snd s) i then readdir_loop h dir (Suc i) ns s
          else bind_sum (read_resource h (dir @ map tolower name) i s) (readdir_loop h dir (Suc i) ns))"

definition readFromDir ::
  "vlimit_host \<Rightarrow> cstr \<Rightarrow> bool \<Rightarrow> vc_rlimit list \<times> u32 \<Rightarrow> int + vc_rlimit list \<times> u32" where
  "readFromDir h pathname missing s =
     (case vh_stat h pathname of
        Some e \<Rightarrow> if e = ENOENT \<and> missing then Inr s else Inl vlimit_exit_code
      | None \<Rightarrow> readdir_loop h (dir_prefix pathname) 0 LIMIT_STR s)"

section \<open>Resource limits: setting and showing\<close>

definition setLimits :: "vc_rlimit list \<Rightarrow> u32 \<Rightarrow> (nat \<times> vc_rlimit) list" where
  "setLimits ls msk = map (\<lambda>i. (i, ls ! i)) (filter (\<lambda>i. bit msk i) [0..<32])"

definition fmt_limit :: "bool \<Rightarrow> u64 \<Rightarrow> cstr" where
  "fmt_limit dec lim = (if dec then snd (the (fmt_uint True lim)) else ''0x'' @ snd (the (fmt_xuint True lim)))"

definition appendLimit :: "bool \<Rightarrow> nat \<Rightarrow> bool \<Rightarrow> u64 \<Rightarrow> cbuf \<Rightarrow> (nat \<times> cbuf) option" where
  "appendLimit dec ptr do_it lim buf = do {
     buf \<leftarrow> memcpy_at ptr ''  '' buf;
     if do_it
     then (if lim = VC_LIM_INFINITY
           then do { buf \<leftarrow> memcpy_at (ptr + 2) ''inf'' buf; Some (ptr + 5, buf) }
           else do {
             let txt = fmt_limit dec lim;
             buf \<leftarrow> memcpy_at (ptr + 2) txt buf;
             buf \<leftarrow> memcpy_at (ptr + 2 + length txt) '' '' buf;
             Some (ptr + 2 + length txt, buf)
           })
     else do { buf \<leftarrow> memcpy_at (ptr + 2) ''N/A'' buf; Some (ptr + 5, buf) }
   }"

text \<open>The name of a resource; a hole of the table is a null pointer.\<close>

definition limit_name :: "bool \<Rightarrow> nat \<Rightarrow> cstr option" where
  "limit_name resolve i =
     (if resolve \<and> i < length LIMIT_STR then LIMIT_STR ! i
      else Some (snd (the (fmt_uint True (of_nat i :: u32)))))"

definition limit_line :: "bool \<Rightarrow> bool \<Rightarrow> nat \<Rightarrow> u32 \<times> u32 \<times> u32 \<Rightarrow> vc_rlimit \<Rightarrow> cstr option" where
  "limit_line resolve dec i masks lim = do {
     let (mmin, msoft, mhard) = masks;
     let buf = replicate 128 CHR '' '';
     name \<leftarrow> limit_name resolve i;
     buf \<leftarrow> memcpy_at 0 name buf;
     (_, buf) \<leftarrow> appendLimit dec 10 (bit mmin i) (rl_min lim) buf;
     (_, buf) \<leftarrow> appendLimit dec 30 (bit msoft i) (rl_soft lim) buf;
     (ptr, buf) \<leftarrow> appendLimit dec 50 (bit mhard i) (rl_hard lim) buf;
     buf \<leftarrow> memcpy_at ptr [NL] buf;
     Some (take (ptr + 1) buf)
   }"

fun show_loop ::
  "vlimit_host \<Rightarrow> xid_t \<Rightarrow> bool \<Rightarrow> bool \<Rightarrow> u32 \<times> u32 \<times> u32 \<Rightarrow> nat list \<Rightarrow> cstr list option" where
  "show_loop h ctx resolve dec masks [] = Some []"
| "show_loop h ctx resolve dec masks (i # is) =
     (case masks of (a, b, c) \<Rightarrow>
        if \<not> bit (a OR b OR c) i then show_loop h ctx resolve dec masks is
        else case vh_rlimit h ctx i of
               None \<Rightarrow> show_loop h ctx resolve dec masks is
             | Some lim \<Rightarrow> do {
                 l \<leftarrow> limit_line resolve dec i masks lim;
                 ls \<leftarrow> show_loop h ctx resolve dec masks is;
                 Some (l # ls)
               })"

text \<open>The requests to the kernel, what is printed, and how the program ends.\<close>

datatype ending = Exits int | Execs "cstr list" | Crashes

record vlimit_run =
  vr_requests :: "(xid_t \<times> nat \<times> vc_rlimit) list"
  vr_output :: "cstr list"
  vr_end :: ending

definition failed_run :: "int \<Rightarrow> vlimit_run" where
  "failed_run e = \<lparr>vr_requests = [], vr_output = [], vr_end = Exits e\<rparr>"

definition vlimit_apply :: "vlimit_host \<Rightarrow> vlimit_state \<Rightarrow> cstr list \<Rightarrow> vlimit_run" where
  "vlimit_apply h st args =
     (let ctx = (if vl_ctx st = VC_NOCTX then vh_task h else vl_ctx st);
          res = (case vl_dir st of
                   None \<Rightarrow> Inr (limits st, lim_mask st)
                 | Some d \<Rightarrow> readFromDir h d (missing_ok st) (limits st, lim_mask st))
      in if ctx = VC_NOCTX then failed_run vlimit_exit_code
         else case res of
           Inl e \<Rightarrow> failed_run e
         | Inr (ls, msk) \<Rightarrow>
             (let reqs = map (Pair ctx) (setLimits ls msk);
                  done = (if args = [] then Exits 0 else Execs args)
              in if \<not> show_all st then \<lparr>vr_requests = reqs, vr_output = [], vr_end = done\<rparr>
                 else case vh_rlimit_mask h ctx of
                        None \<Rightarrow> \<lparr>vr_requests = reqs, vr_output = [], vr_end = Exits vlimit_exit_code\<rparr>
                      | Some masks \<Rightarrow>
                          (case show_loop h ctx (do_resolve st) (decimal st) masks [0..<32] of
                             None \<Rightarrow> \<lparr>vr_requests = reqs, vr_output = [], vr_end = Crashes\<rparr>
                           | Some out \<Rightarrow> \<lparr>vr_requests = reqs, vr_output = out, vr_end = done\<rparr>)))"

definition vlimit :: "vlimit_host \<Rightarrow> vlimit_opt list \<Rightarrow> cstr list \<Rightarrow> vlimit_run" where
  "vlimit h opts args =
     (case vlimit_options h opts vlimit_init of Inl e \<Rightarrow> failed_run e | Inr st \<Rightarrow> vlimit_apply h st args)"

section \<open>Columns of the output\<close>

definition cell :: "nat \<Rightarrow> cstr \<Rightarrow> cstr" where
  "cell w s = s @ replicate (w - length s) CHR '' ''"

definition limit_text :: "bool \<Rightarrow> bool \<Rightarrow> u64 \<Rightarrow> cstr" where
  "limit_text dec do_it lim =
     (if \<not> do_it then ''N/A'' else if lim = VC_LIM_INFINITY then ''inf'' else fmt_limit dec lim)"

lemma length_cell [simp]: "length s \<le> w \<Longrightarrow> length (cell w s) = w"
  by (simp add: cell_def)

lemma memcpy_at_blank:
  assumes "length p = off" "length s \<le> m"
  shows "memcpy_at off s (p @ replicate m CHR '' '') = Some ((p @ s) @ replicate (m - length s) CHR '' '')"
  using assms by (simp add: memcpy_at_def)

lemma appendLimit_cell:
  assumes "length p = off" "length (limit_text dec do_it lim) \<le> 20" "30 \<le> m"
  shows "appendLimit dec off do_it lim (p @ replicate m CHR '' '') =
    Some (off + 2 + length (limit_text dec do_it lim),
      (p @ ''  '' @ limit_text dec do_it lim) @ replicate (m - 2 - length (limit_text dec do_it lim)) CHR '' '')"
proof -
  have m: "m - 2 - n = Suc (m - 3 - n)" if "n \<le> 20" for n using assms(3) that by simp
  have "memcpy_at (off + 2 + length s) '' '' ((p @ ''  '' @ s) @ replicate (m - 2 - length s) CHR '' '') =
      Some ((p @ ''  '' @ s) @ replicate (m - 2 - length s) CHR '' '')" if "length s \<le> 20" for s
    using memcpy_at_blank [of "p @ ''  '' @ s" "off + 2 + length s" "'' ''" "m - 2 - length s"] assms(1,3) that m [OF that]
    by simp
  moreover have "memcpy_at (off + 2) s ((p @ ''  '') @ replicate (m - 2) CHR '' '') =
      Some ((p @ ''  '' @ s) @ replicate (m - 2 - length s) CHR '' '')" if "length s \<le> 20" for s
    using memcpy_at_blank [of "p @ ''  ''" "off + 2" s "m - 2"] assms(1,3) that by simp
  moreover have "memcpy_at off ''  '' (p @ replicate m CHR '' '') = Some ((p @ ''  '') @ replicate (m - 2) CHR '' '')"
    using memcpy_at_blank [of p off "''  ''" m] assms(1,3) by simp
  ultimately show ?thesis
    using assms(2) unfolding appendLimit_def limit_text_def by (simp add: Let_def split: if_splits)
qed

lemma cell_pad: "length s \<le> w \<Longrightarrow> w \<le> length s + m \<Longrightarrow>
  s @ replicate m CHR '' '' = cell w s @ replicate (length s + m - w) CHR '' ''"
  by (simp add: cell_def flip: replicate_add)

lemma limit_line_columns:
  assumes "limit_name resolve i = Some name" "length name \<le> 10" "masks = (a, b, c)"
    "length (limit_text dec (bit a i) (rl_min lim)) \<le> 18" "length (limit_text dec (bit b i) (rl_soft lim)) \<le> 18"
    "length (limit_text dec (bit c i) (rl_hard lim)) \<le> 20"
  shows "limit_line resolve dec i masks lim =
    Some (cell 10 name @ cell 20 (''  '' @ limit_text dec (bit a i) (rl_min lim)) @
      cell 20 (''  '' @ limit_text dec (bit b i) (rl_soft lim)) @
      ''  '' @ limit_text dec (bit c i) (rl_hard lim) @ [NL])"
proof -
  let ?b = "CHR '' ''"
  define x y z where "x = limit_text dec (bit a i) (rl_min lim)" and "y = limit_text dec (bit b i) (rl_soft lim)"
    and "z = limit_text dec (bit c i) (rl_hard lim)"
  note len = assms(4-6) [folded x_def y_def z_def]
  let ?p1 = "cell 10 name" let ?p2 = "?p1 @ cell 20 (''  '' @ x)" let ?p3 = "?p2 @ cell 20 (''  '' @ y)"
  have n: "memcpy_at 0 name (replicate 128 ?b) = Some (?p1 @ replicate 118 ?b)"
    using memcpy_at_blank [of "[]" 0 name 128] cell_pad [of name 10 "128 - length name"] assms(2) by simp
  have s1: "appendLimit dec 10 (bit a i) (rl_min lim) (?p1 @ replicate 118 ?b) = Some (12 + length x, ?p2 @ replicate 98 ?b)"
    using appendLimit_cell [of ?p1 10 dec "bit a i" "rl_min lim" 118] cell_pad [of "''  '' @ x" 20 "116 - length x"] assms(2) len
    by (simp add: x_def)
  have s2: "appendLimit dec 30 (bit b i) (rl_soft lim) (?p2 @ replicate 98 ?b) = Some (32 + length y, ?p3 @ replicate 78 ?b)"
    using appendLimit_cell [of ?p2 30 dec "bit b i" "rl_soft lim" 98] cell_pad [of "''  '' @ y" 20 "96 - length y"] assms(2) len
    by (simp add: y_def)
  have s3: "appendLimit dec 50 (bit c i) (rl_hard lim) (?p3 @ replicate 78 ?b) =
      Some (52 + length z, (?p3 @ ''  '' @ z) @ replicate (76 - length z) ?b)"
    using appendLimit_cell [of ?p3 50 dec "bit c i" "rl_hard lim" 78] assms(2) len by (simp add: z_def)
  have s4: "memcpy_at (52 + length z) [NL] ((?p3 @ ''  '' @ z) @ replicate (76 - length z) ?b) =
      Some ((?p3 @ ''  '' @ z @ [NL]) @ replicate (75 - length z) ?b)"
    using memcpy_at_blank [of "?p3 @ ''  '' @ z" "52 + length z" "[NL]" "76 - length z"] assms(2) len by simp
  have t: "take (3 + length z) (?b # ?b # z @ NL # r) = ?b # ?b # z @ [NL]" for r by (simp add: numeral_3_eq_3)
  show ?thesis
    using assms(1-3) len t
    by (simp add: limit_line_def n [simplified] s1 [simplified] s2 [simplified] s3 [simplified] s4 [simplified] x_def [symmetric] y_def [symmetric] z_def [symmetric])
qed

lemma limit_name_length: "i < 32 \<Longrightarrow> limit_name resolve i = Some name \<Longrightarrow> length name \<le> 10"
proof -
  have "\<forall>n \<in> set LIMIT_STR. case n of None \<Rightarrow> True | Some s \<Rightarrow> length s \<le> 10" by code_simp
  then have "i < length LIMIT_STR \<Longrightarrow> LIMIT_STR ! i = Some s \<Longrightarrow> length s \<le> 10" for s
    using nth_mem [of i LIMIT_STR] by fastforce
  moreover have "length (digits_of 10 (unat x)) \<le> 10" for x :: u32
  proof (rule length_digits_of)
    have "unat x < 2 ^ 32" using unsigned_less [of x] by simp
    then show "unat x < 10 ^ 10" by simp
  qed auto
  ultimately show "i < 32 \<Longrightarrow> limit_name resolve i = Some name \<Longrightarrow> length name \<le> 10"
    using fmt_uint_base_result [of 4 10 True "of_nat i :: u32"]
    by (auto simp: limit_name_def fmt_uint_def fmt_result_def split: if_splits)
qed

lemma fmt_limit_hex: "fmt_limit False lim = ''0x'' @ digits_of 16 (unat lim)" "length (fmt_limit False lim) \<le> 18"
proof -
  show h: "fmt_limit False lim = ''0x'' @ digits_of 16 (unat lim)"
    using fmt_xuint_result [of 8 True lim] by (simp add: fmt_limit_def fmt_result_def)
  show "length (fmt_limit False lim) \<le> 18" using unat_length_hex [of 16 lim] unfolding h by simp
qed

lemma fmt_limit_dec: "fmt_limit True lim = digits_of 10 (unat lim)" "length (fmt_limit True lim) \<le> 20"
proof -
  show h: "fmt_limit True lim = digits_of 10 (unat lim)"
    using fmt_uint_base_result [of 8 10 True lim] by (simp add: fmt_limit_def fmt_uint_def fmt_result_def)
  have "unat lim < 2 ^ 64" using unsigned_less [of lim] by simp
  then have "unat lim < 10 ^ 20" by simp
  then show "length (fmt_limit True lim) \<le> 20" unfolding h by (rule length_digits_of [rotated]) auto
qed

section \<open>Limits from a directory\<close>

definition file_value :: "vlimit_host \<Rightarrow> cstr \<Rightarrow> u64 option" where
  "file_value h file =
     (if vh_open h file then (case readValue h file of Inr v \<Rightarrow> Some v | Inl _ \<Rightarrow> None) else None)"

fun first_some :: "'a option list \<Rightarrow> 'a \<Rightarrow> 'a" where
  "first_some [] d = d"
| "first_some (None # xs) d = first_some xs d"
| "first_some (Some x # xs) d = x"

text \<open>The limits of a resource whose files start with \<open>base\<close>.\<close>

definition dir_limit :: "vlimit_host \<Rightarrow> cstr \<Rightarrow> vc_rlimit \<Rightarrow> vc_rlimit" where
  "dir_limit h base old =
     \<lparr>rl_min = first_some [file_value h (base @ ''.min''), file_value h base] (rl_min old),
      rl_soft = first_some [file_value h (base @ ''.soft''), file_value h base] (rl_soft old),
      rl_hard = first_some [file_value h (base @ ''.hard''), file_value h base] (rl_hard old)\<rparr>"

definition has_file :: "vlimit_host \<Rightarrow> cstr \<Rightarrow> bool" where
  "has_file h base \<longleftrightarrow> (\<exists>suffix \<in> {[], ''.min'', ''.soft'', ''.hard''}. vh_open h (base @ suffix))"

lemma bit_set_one: "i < 32 \<Longrightarrow> bit (msk OR 2 ^ i :: u32) j \<longleftrightarrow> bit msk j \<or> j = i"
  by (auto simp: bit_simps)

lemma read_step_result:
  assumes "read_step h base i suffix upd (ls, msk) = Inr s"
  shows "s = (case file_value h (base @ suffix) of None \<Rightarrow> (ls, msk)
      | Some v \<Rightarrow> (ls[i := upd v (ls ! i)], msk OR push_bit i 1))"
    and "vh_open h (base @ suffix) \<longleftrightarrow> file_value h (base @ suffix) \<noteq> None"
  using assms
  by (auto simp: read_step_def readFile_def file_value_def split: if_splits sum.splits option.splits)

lemma bind_sum_Inr: "bind_sum x f = Inr b \<longleftrightarrow> (\<exists>a. x = Inr a \<and> f a = Inr b)"
  by (cases x) (auto simp: bind_sum_def)

lemma read_resource_result:
  assumes "read_resource h base i (ls, msk) = Inr s" "i < length ls"
  shows "s = (ls[i := dir_limit h base (ls ! i)], if has_file h base then msk OR push_bit i 1 else msk)"
proof -
  obtain l1 m1 l2 m2 l3 m3 where
      s1: "read_step h base i [] (\<lambda>v l. l\<lparr>rl_min := v, rl_soft := v, rl_hard := v\<rparr>) (ls, msk) = Inr (l1, m1)"
    and s2: "read_step h base i ''.min'' (\<lambda>v l. l\<lparr>rl_min := v\<rparr>) (l1, m1) = Inr (l2, m2)"
    and s3: "read_step h base i ''.soft'' (\<lambda>v l. l\<lparr>rl_soft := v\<rparr>) (l2, m2) = Inr (l3, m3)"
    and s4: "read_step h base i ''.hard'' (\<lambda>v l. l\<lparr>rl_hard := v\<rparr>) (l3, m3) = Inr s"
    using assms(1) by (auto simp: read_resource_def bind_sum_Inr)
  have hf: "has_file h base \<longleftrightarrow> file_value h base \<noteq> None \<or> file_value h (base @ ''.min'') \<noteq> None \<or>
      file_value h (base @ ''.soft'') \<noteq> None \<or> file_value h (base @ ''.hard'') \<noteq> None"
    using read_step_result(2) [OF s1] read_step_result(2) [OF s2] read_step_result(2) [OF s3] read_step_result(2) [OF s4]
    by (simp add: has_file_def)
  obtain x y z where li: "ls ! i = \<lparr>rl_min = x, rl_soft = y, rl_hard = z\<rparr>" by (cases "ls ! i")
  have "ls[i := \<lparr>rl_min = x, rl_soft = y, rl_hard = z\<rparr>] = ls" unfolding li [symmetric] by simp
  then show ?thesis
    using li read_step_result(1) [OF s1] read_step_result(1) [OF s2] read_step_result(1) [OF s3]
      read_step_result(1) [OF s4] assms(2)
    unfolding hf dir_limit_def
    by (cases "file_value h base"; cases "file_value h (base @ ''.min'')"; cases "file_value h (base @ ''.soft'')";
        cases "file_value h (base @ ''.hard'')") (simp_all add: or.assoc)
qed

text \<open>The limits and the mask bit of a resource after its files have been read.\<close>

definition dir_result :: "vlimit_host \<Rightarrow> cstr \<Rightarrow> cstr option \<Rightarrow> vc_rlimit \<times> bool \<Rightarrow> vc_rlimit \<times> bool" where
  "dir_result h dir n s =
     (case n of
        None \<Rightarrow> s
      | Some name \<Rightarrow>
          if snd s then s else (dir_limit h (dir @ map tolower name) (fst s), has_file h (dir @ map tolower name)))"

lemma readdir_loop_result:
  assumes "readdir_loop h dir i ns (ls, msk) = Inr (ls', msk')" "i + length ns \<le> 32" "length ls = 32"
  shows "length ls' = 32 \<and>
    (\<forall>j < 32. (ls' ! j, bit msk' j) =
      (if i \<le> j \<and> j < i + length ns then dir_result h dir (ns ! (j - i)) (ls ! j, bit msk j) else (ls ! j, bit msk j)))"
  using assms
proof (induction ns arbitrary: i ls msk)
  case Nil
  then show ?case by auto
next
  case (Cons n ns)
  define r where "r = dir_result h dir n (ls ! i, bit msk i)"
  obtain l m where step: "readdir_loop h dir (Suc i) ns (l, m) = Inr (ls', msk')" "length l = 32"
    and one: "\<forall>j < 32. (l ! j, bit m j) = (if j = i then r else (ls ! j, bit msk j))"
  proof (cases "n = None \<or> bit msk i")
    case True
    then show ?thesis
      using Cons.prems that [of ls msk] by (auto simp: r_def dir_result_def split: option.splits)
  next
    case False
    then obtain name where n: "n = Some name" "\<not> bit msk i" by auto
    let ?b = "dir @ map tolower name"
    obtain s where s: "read_resource h ?b i (ls, msk) = Inr s" "readdir_loop h dir (Suc i) ns s = Inr (ls', msk')"
      using Cons.prems(1) n by (auto simp: bind_sum_Inr)
    have "s = (ls[i := dir_limit h ?b (ls ! i)], if has_file h ?b then msk OR push_bit i 1 else msk)"
      using read_resource_result [OF s(1)] Cons.prems(2,3) by simp
    moreover from this have "\<forall>j < 32. (fst s ! j, bit (snd s) j) = (if j = i then r else (ls ! j, bit msk j))"
      using n Cons.prems(2,3) by (auto simp: r_def dir_result_def nth_list_update bit_set_one)
    ultimately show ?thesis using s(2) that [of "fst s" "snd s"] Cons.prems(3) by simp
  qed
  have IH: "length ls' = 32" "\<forall>j < 32. (ls' ! j, bit msk' j) =
      (if Suc i \<le> j \<and> j < Suc i + length ns then dir_result h dir (ns ! (j - Suc i)) (l ! j, bit m j) else (l ! j, bit m j))"
    using Cons.IH [OF step(1)] step(2) Cons.prems(2) by auto
  have "(ls' ! j, bit msk' j) = (if i \<le> j \<and> j < i + length (n # ns)
      then dir_result h dir ((n # ns) ! (j - i)) (ls ! j, bit msk j) else (ls ! j, bit msk j))" if "j < 32" for j
  proof (cases "j = i")
    case True
    then show ?thesis using IH(2) one that by (auto simp: r_def)
  next
    case False
    have "(n # ns) ! (j - i) = ns ! (j - Suc i)" if "i \<le> j"
    proof -
      have "j - i = Suc (j - Suc i)" using that False by simp
      then show ?thesis by simp
    qed
    then show ?thesis using IH(2) one that False by (auto simp: le_less Suc_le_eq)
  qed
  then show ?case using IH(1) by blast
qed

section \<open>Options\<close>

text \<open>What the options keep: only resources named by an option are marked, and the others keep their limits.\<close>

definition option_inv :: "vlimit_opt list \<Rightarrow> vlimit_state \<Rightarrow> bool" where
  "option_inv opts st \<longleftrightarrow>
     length (limits st) = 32 \<and>
     (\<forall>i < 32. bit (lim_mask st) i \<longleftrightarrow> (\<exists>arg. OptLimit i arg \<in> set opts)) \<and>
     (\<forall>i < 32. (\<forall>arg. OptLimit i arg \<notin> set opts) \<longrightarrow> limits st ! i = keep_limit) \<and>
     (\<forall>d. vl_dir st = Some d \<longrightarrow> OptDir d \<in> set opts)"

lemma option_inv_step:
  assumes "option_inv opts st" "vlimit_option h opt st = Inr st'" "\<And>i arg. opt = OptLimit i arg \<Longrightarrow> i < 32"
  shows "option_inv (opts @ [opt]) st'"
proof (cases "\<exists>i arg. opt = OptLimit i arg")
  case True
  then obtain i arg where o: "opt = OptLimit i arg" "i < 32" using assms(3) by blast
  then show ?thesis
    using assms(1,2)
    by (auto simp: option_inv_def set_option_def bit_set_one Let_def nth_list_update split: prod.splits if_splits)
next
  case False
  then have "limits st' = limits st" "lim_mask st' = lim_mask st" "vl_dir st' = vl_dir st \<or> (\<exists>d. opt = OptDir d \<and> vl_dir st' = Some d)"
    using assms(2) by (cases opt; auto simp: Let_def split: prod.splits if_splits)+
  then show ?thesis using assms(1) False by (auto simp: option_inv_def)
qed

lemma vlimit_options_inv:
  assumes "vlimit_options h opts st = Inr st'" "option_inv pre st" "\<forall>i arg. OptLimit i arg \<in> set opts \<longrightarrow> i < 32"
  shows "option_inv (pre @ opts) st'"
  using assms
proof (induction opts arbitrary: st pre)
  case Nil
  then show ?case by simp
next
  case (Cons opt opts)
  then obtain st1 where s: "vlimit_option h opt st = Inr st1" "vlimit_options h opts st1 = Inr st'"
    by (auto split: sum.splits)
  have "option_inv (pre @ [opt]) st1" using option_inv_step [OF Cons.prems(2) s(1)] Cons.prems(3) by auto
  then show ?case using Cons.IH [OF s(2), of "pre @ [opt]"] Cons.prems(3) by auto
qed

lemma option_inv_init: "option_inv [] vlimit_init"
  by (simp add: option_inv_def vlimit_init_def)

lemma readFromDir_facts:
  assumes "readFromDir h d missing (ls, msk) = Inr (ls', msk')" "vh_stat h d = None" "length ls = 32" "i < 32"
  shows "(ls' ! i, bit msk' i) =
    (if i < 23 \<and> \<not> bit msk i \<and> LIMIT_STR ! i \<noteq> None
     then (let base = dir_prefix d @ map tolower (the (LIMIT_STR ! i)) in (dir_limit h base (ls ! i), has_file h base))
     else (ls ! i, bit msk i))"
proof -
  have n: "length LIMIT_STR = 23" by code_simp
  have "readdir_loop h (dir_prefix d) 0 LIMIT_STR (ls, msk) = Inr (ls', msk')"
    using assms(1,2) by (simp add: readFromDir_def)
  from readdir_loop_result [OF this] show ?thesis
    using assms(3,4) by (auto simp: n dir_result_def Let_def split: option.splits)
qed

lemma setLimits_facts:
  "sorted_wrt (<) (map fst (setLimits ls msk))"
  "(i, l) \<in> set (setLimits ls msk) \<Longrightarrow> i < 32 \<and> bit msk i"
  by (auto simp: setLimits_def comp_def sorted_wrt_filter)

text \<open>The requests are those of some final mask.\<close>

lemma apply_requests:
  "vr_requests (vlimit_apply h st args) = [] \<or>
   (\<exists>ctx ls msk. ctx \<noteq> VC_NOCTX \<and> vr_requests (vlimit_apply h st args) = map (Pair ctx) (setLimits ls msk) \<and>
      (case vl_dir st of None \<Rightarrow> (ls, msk) = (limits st, lim_mask st)
       | Some d \<Rightarrow> readFromDir h d (missing_ok st) (limits st, lim_mask st) = Inr (ls, msk)))"
  by (auto simp: vlimit_apply_def failed_run_def Let_def split: option.splits sum.splits prod.splits)

lemma apply_requests_sorted: "sorted_wrt (<) (map (\<lambda>(_, i, _). i) (vr_requests (vlimit_apply h st args)))"
proof -
  have "(\<lambda>(_, i, _). i) \<circ> Pair (c::xid_t) = (fst :: nat \<times> vc_rlimit \<Rightarrow> nat)" for c by auto
  then show ?thesis using apply_requests [of h st args] setLimits_facts(1) by fastforce
qed

lemma apply_requests_marked:
  assumes "option_inv opts st" "(x, i, l) \<in> set (vr_requests (vlimit_apply h st args))"
  shows "i < 32 \<and> x \<noteq> VC_NOCTX \<and>
    ((\<exists>arg. OptLimit i arg \<in> set opts) \<or>
     (\<exists>d n. OptDir d \<in> set opts \<and> i < 23 \<and> LIMIT_STR ! i = Some n \<and> has_file h (dir_prefix d @ map tolower n)))"
proof -
  obtain ls msk where m: "x \<noteq> VC_NOCTX" "(i, l) \<in> set (setLimits ls msk)"
    and src: "case vl_dir st of None \<Rightarrow> (ls, msk) = (limits st, lim_mask st)
       | Some d \<Rightarrow> readFromDir h d (missing_ok st) (limits st, lim_mask st) = Inr (ls, msk)"
    using apply_requests [of h st args] assms(2) by auto
  have i: "i < 32" "bit msk i" using setLimits_facts(2) [OF m(2)] by auto
  have "(\<exists>arg. OptLimit i arg \<in> set opts) \<or>
     (\<exists>d n. OptDir d \<in> set opts \<and> i < 23 \<and> LIMIT_STR ! i = Some n \<and> has_file h (dir_prefix d @ map tolower n))"
  proof (cases "bit (lim_mask st) i")
    case True
    then show ?thesis using assms(1) i(1) by (auto simp: option_inv_def)
  next
    case False
    then obtain d where d: "vl_dir st = Some d" "readFromDir h d (missing_ok st) (limits st, lim_mask st) = Inr (ls, msk)"
      using src i(2) by (auto split: option.splits)
    have "vh_stat h d = None"
      using d(2) False i(2) by (auto simp: readFromDir_def split: option.splits if_splits)
    then show ?thesis
      using readFromDir_facts [OF d(2) _ _ i(1)] d(1) False i assms(1)
      by (auto simp: option_inv_def Let_def split: if_splits)
  qed
  then show ?thesis using m(1) i(1) by blast
qed

section \<open>Properties\<close>

text \<open>
  Reading limits from a directory. Resources that were set on the command line and resources without a name
  keep their limits. For every other resource the files with the suffixes \<^verbatim>\<open>.min\<close>, \<^verbatim>\<open>.soft\<close> and
  \<^verbatim>\<open>.hard\<close> override the file without suffix, which overrides the old value; the resource is marked exactly when
  one of its files exists.
\<close>
lemma readFromDir_limits:
  assumes "readFromDir h d missing (ls, msk) = Inr (ls', msk')" "vh_stat h d = None" "length ls = 32" "i < 32"
  shows "(ls' ! i, bit msk' i) =
    (if i < 23 \<and> \<not> bit msk i \<and> LIMIT_STR ! i \<noteq> None
     then (let base = dir_prefix d @ map tolower (the (LIMIT_STR ! i)) in (dir_limit h base (ls ! i), has_file h base))
     else (ls ! i, bit msk i))"
  by (rule readFromDir_facts [OF assms])

text \<open>A host with a directory that has two files for the resource 6.\<close>

definition limit_host :: vlimit_host where
  "limit_host =
     \<lparr>vh_task = 7, vh_getctx = (\<lambda>_ _ _. VC_NOCTX), vh_stat = (\<lambda>_. None),
      vh_open = (\<lambda>f. f = ''/l/nproc'' \<or> f = ''/l/nproc.hard''),
      vh_read = (\<lambda>f n. Some (if f = ''/l/nproc'' then ''10'' else ''20'')),
      vh_rlimit_mask = (\<lambda>_. None), vh_rlimit = (\<lambda>_ _. None)\<rparr>"

lemma readFromDir_limits_example:
  "\<exists>ls msk. readFromDir limit_host ''/l'' False (replicate 32 keep_limit, 0) = Inr (ls, msk) \<and>
     (ls ! 6, bit msk 6) = (\<lparr>rl_min = 10, rl_soft = 10, rl_hard = 20\<rparr>, True)"
proof -
  have "case readFromDir limit_host ''/l'' False (replicate 32 keep_limit, 0) of Inr _ \<Rightarrow> True | Inl _ \<Rightarrow> False" by code_simp
  then obtain ls msk where r: "readFromDir limit_host ''/l'' False (replicate 32 keep_limit, 0) = Inr (ls, msk)"
    by (cases "readFromDir limit_host ''/l'' False (replicate 32 keep_limit, 0)") auto
  have "vh_stat limit_host ''/l'' = None" by (simp add: limit_host_def)
  moreover have "dir_prefix ''/l'' @ map tolower (the (LIMIT_STR ! 6)) = ''/l/nproc''" "LIMIT_STR ! 6 \<noteq> None" by code_simp+
  ultimately have "(ls ! 6, bit msk 6) = (dir_limit limit_host ''/l/nproc'' keep_limit, has_file limit_host ''/l/nproc'')"
    using readFromDir_limits [OF r, of 6] by (simp add: Let_def)
  moreover have "dir_limit limit_host ''/l/nproc'' keep_limit = \<lparr>rl_min = 10, rl_soft = 10, rl_hard = 20\<rparr>" by code_simp
  moreover have "has_file limit_host ''/l/nproc''" by code_simp
  ultimately show ?thesis using r by simp
qed

text \<open>
  C39. The program asks the kernel only for resources that an option names or that have a file in the directory, each at most
  once and in ascending order; a resource without a mark is never touched.
\<close>
theorem vlimit_requests:
  assumes "\<forall>i arg. OptLimit i arg \<in> set opts \<longrightarrow> i < 32"
  shows "sorted_wrt (<) (map (\<lambda>(_, i, _). i) (vr_requests (vlimit h opts args))) \<and>
    (\<forall>(x, i, l) \<in> set (vr_requests (vlimit h opts args)). i < 32 \<and> x \<noteq> VC_NOCTX \<and>
       ((\<exists>arg. OptLimit i arg \<in> set opts) \<or>
        (\<exists>d n. OptDir d \<in> set opts \<and> i < 23 \<and> LIMIT_STR ! i = Some n \<and> has_file h (dir_prefix d @ map tolower n))))"
proof (cases "vlimit_options h opts vlimit_init")
  case (Inl e)
  then show ?thesis by (simp add: vlimit_def failed_run_def)
next
  case (Inr st)
  then have inv: "option_inv opts st" using vlimit_options_inv [OF Inr option_inv_init] assms by simp
  have r: "vr_requests (vlimit h opts args) = vr_requests (vlimit_apply h st args)" using Inr by (simp add: vlimit_def)
  show ?thesis
    using apply_requests_sorted [of h st args] apply_requests_marked [OF inv, of _ _ _ h args] unfolding r by blast
qed

theorem vlimit_requests_witness:
  "vr_requests (vlimit limit_host [OptLimit 9 ''5'', OptDir ''/l''] []) =
     [(7, 6, \<lparr>rl_min = 10, rl_soft = 10, rl_hard = 20\<rparr>), (7, 9, \<lparr>rl_min = VC_LIM_KEEP, rl_soft = VC_LIM_KEEP, rl_hard = 5\<rparr>)] \<and>
   sorted_wrt (<) (map (\<lambda>(_, i, _). i) (vr_requests (vlimit limit_host [OptLimit 9 ''5'', OptDir ''/l''] [])))"
proof
  show "vr_requests (vlimit limit_host [OptLimit 9 ''5'', OptDir ''/l''] []) =
     [(7, 6, \<lparr>rl_min = 10, rl_soft = 10, rl_hard = 20\<rparr>), (7, 9, \<lparr>rl_min = VC_LIM_KEEP, rl_soft = VC_LIM_KEEP, rl_hard = 5\<rparr>)]"
    by code_simp
  show "sorted_wrt (<) (map (\<lambda>(_, i, _). i) (vr_requests (vlimit limit_host [OptLimit 9 ''5'', OptDir ''/l''] [])))"
    using vlimit_requests [of "[OptLimit 9 ''5'', OptDir ''/l'']" limit_host "[]"] by simp
qed

text \<open>
  The columns of the hexadecimal output never overlap. A hole of the table is a null pointer.
\<close>

lemma limit_line_hex:
  assumes "i < 32"
  shows "limit_line resolve False i (a, b, c) lim =
    (case limit_name resolve i of
       None \<Rightarrow> None
     | Some name \<Rightarrow>
         Some (cell 10 name @ cell 20 (''  '' @ limit_text False (bit a i) (rl_min lim)) @
           cell 20 (''  '' @ limit_text False (bit b i) (rl_soft lim)) @
           ''  '' @ limit_text False (bit c i) (rl_hard lim) @ [NL]))"
proof (cases "limit_name resolve i")
  case None
  then show ?thesis by (simp add: limit_line_def)
next
  case (Some name)
  have "length (limit_text False d x) \<le> 18" for d x
    using fmt_limit_hex(2) [of x] by (simp add: limit_text_def)
  then show ?thesis
    using Some limit_line_columns [OF Some limit_name_length [OF assms Some] refl] by (simp add: le_trans [of _ 18 20])
qed

text \<open>With decimal output a limit of nineteen digits loses its last digit to the next column.\<close>

lemma limit_line_decimal_overlap:
  "limit_line True True 0 (1, 0, 0) \<lparr>rl_min = 1234567890123456789, rl_soft = 0, rl_hard = 0\<rparr> =
     Some (cell 10 ''CPU'' @ cell 20 (''  '' @ ''123456789012345678'') @ cell 20 (''  '' @ ''N/A'') @ ''  '' @ ''N/A'' @ [NL])"
proof -
  have d: "fmt_limit True 1234567890123456789 = ''1234567890123456789''"
    unfolding fmt_limit_dec(1) by (simp add: digits_of_step digits_of_small DIGITS_def)
  have "(1234567890123456789::u64) \<noteq> VC_LIM_INFINITY" by (simp add: VC_LIM_INFINITY_def)
  then show ?thesis
    by (simp add: limit_line_def limit_name_def LIMIT_STR_def appendLimit_def memcpy_at_def d cell_def
        numeral_eq_Suc)
qed

end
