(* ===== verification/DiskLimits.thy ===== *)
theory DiskLimits
  imports Limits
begin

text \<open>
  Disk limits of contexts: \<^verbatim>\<open>src/vdlimit.c\<close>. The four requests to the kernel are a record of functions on an
  arbitrary state of the kernel; \<open>dl_laws\<close> states what their documentation promises.
\<close>

section \<open>Data\<close>

record vc_ctx_dlimit =
  space_used :: u32
  space_total :: u32
  inodes_used :: u32
  inodes_total :: u32
  reserved :: u32

definition VC_CDLIM_INFINITY :: u32 where "VC_CDLIM_INFINITY = - 1"
definition VC_CDLIM_KEEP :: u32 where "VC_CDLIM_KEEP = - 2"

record 's dl_kernel =
  k_get :: "cstr \<Rightarrow> xid_t \<Rightarrow> u32 \<Rightarrow> 's \<Rightarrow> vc_ctx_dlimit option"
  k_add :: "cstr \<Rightarrow> xid_t \<Rightarrow> u32 \<Rightarrow> 's \<Rightarrow> bool \<times> 's"
  k_set :: "cstr \<Rightarrow> xid_t \<Rightarrow> u32 \<Rightarrow> vc_ctx_dlimit \<Rightarrow> 's \<Rightarrow> bool \<times> 's"
  k_rem :: "cstr \<Rightarrow> xid_t \<Rightarrow> u32 \<Rightarrow> 's \<Rightarrow> bool \<times> 's"

section \<open>Operations\<close>

text \<open>The exit code, when the program ends, and the state of the kernel.\<close>

definition setDlimit ::
  "'s dl_kernel \<Rightarrow> cstr \<Rightarrow> xid_t \<Rightarrow> u32 \<Rightarrow> vc_ctx_dlimit \<Rightarrow> 's \<Rightarrow> int option \<times> 's" where
  "setDlimit k filename xid flags limit s =
     (let (ok, was_added, s1) =
        (if k_get k filename xid flags s = None
         then (let (a, s1) = k_add k filename xid flags s in (a, True, s1))
         else (True, False, s))
      in if \<not> ok then (Some 1, s1)
         else
           (case k_set k filename xid flags limit s1 of
              (True, s2) \<Rightarrow> (None, s2)
            | (False, s2) \<Rightarrow> (Some 1, if was_added then snd (k_rem k filename xid flags s2) else s2)))"

definition remDlimit :: "'s dl_kernel \<Rightarrow> cstr \<Rightarrow> xid_t \<Rightarrow> u32 \<Rightarrow> 's \<Rightarrow> int option \<times> 's" where
  "remDlimit k filename xid flags s =
     (let (ok, s1) = k_rem k filename xid flags s in (if ok then None else Some 1, s1))"

definition writeInt :: "cstr \<Rightarrow> u32 \<Rightarrow> cstr" where
  "writeInt prefix val =
     prefix @ (if val = VC_CDLIM_INFINITY then ''-1'' else snd (the (fmt_uint True val)))"

definition dlimit_text :: "cstr \<Rightarrow> xid_t \<Rightarrow> bool \<Rightarrow> vc_ctx_dlimit \<Rightarrow> cstr" where
  "dlimit_text filename xid formatted limit =
     (if formatted
      then writeInt [] xid @ '' '' @ filename @
           writeInt (NL # ''space_used='') (space_used limit) @
           writeInt (NL # ''space_total='') (space_total limit) @
           writeInt (NL # ''inodes_used='') (inodes_used limit) @
           writeInt (NL # ''inodes_total='') (inodes_total limit) @
           writeInt (NL # ''reserved='') (reserved limit) @ [NL]
      else writeInt [] xid @ writeInt '' '' (space_used limit) @ writeInt '' '' (space_total limit) @
           writeInt '' '' (inodes_used limit) @ writeInt '' '' (inodes_total limit) @
           writeInt '' '' (reserved limit) @ '' '' @ filename @ [NL])"

definition printDlimit :: "'s dl_kernel \<Rightarrow> cstr \<Rightarrow> xid_t \<Rightarrow> u32 \<Rightarrow> bool \<Rightarrow> 's \<Rightarrow> int + cstr" where
  "printDlimit k filename xid flags formatted s =
     (case k_get k filename xid flags s of
        None \<Rightarrow> Inl 1
      | Some limit \<Rightarrow> Inr (dlimit_text filename xid formatted limit))"

section \<open>Options\<close>

datatype dl_field = Space_used | Space_total | Inodes_used | Inodes_total | Reserved

definition DL_FIELDS :: "(cstr \<times> dl_field) list" where
  "DL_FIELDS =
     [(''space_used'', Space_used), (''space_total'', Space_total), (''inodes_used'', Inodes_used),
      (''inodes_total'', Inodes_total), (''reserved'', Reserved)]"

fun get_field :: "dl_field \<Rightarrow> vc_ctx_dlimit \<Rightarrow> u32" where
  "get_field Space_used d = space_used d"
| "get_field Space_total d = space_total d"
| "get_field Inodes_used d = inodes_used d"
| "get_field Inodes_total d = inodes_total d"
| "get_field Reserved d = reserved d"

fun put_field :: "dl_field \<Rightarrow> u32 \<Rightarrow> vc_ctx_dlimit \<Rightarrow> vc_ctx_dlimit" where
  "put_field Space_used v d = d\<lparr>space_used := v\<rparr>"
| "put_field Space_total v d = d\<lparr>space_total := v\<rparr>"
| "put_field Inodes_used v d = d\<lparr>inodes_used := v\<rparr>"
| "put_field Inodes_total v d = d\<lparr>inodes_total := v\<rparr>"
| "put_field Reserved v d = d\<lparr>reserved := v\<rparr>"

text \<open>The field an option begins with and the text behind the equals sign.\<close>

fun val_ptr :: "cstr \<Rightarrow> (cstr \<times> dl_field) list \<Rightarrow> (dl_field \<times> cstr) option" where
  "val_ptr opt [] = None"
| "val_ptr opt ((cmp, f) # fs) =
     (if strncmp (length cmp + 1) opt (cmp @ ''='') = 0 then Some (f, drop (length cmp + 1) opt)
      else val_ptr opt fs)"

definition setDLimitField :: "vc_ctx_dlimit \<Rightarrow> cstr \<Rightarrow> vc_ctx_dlimit option" where
  "setDLimitField dst opt =
     (case val_ptr opt DL_FIELDS of
        None \<Rightarrow> None
      | Some (f, opt') \<Rightarrow>
          if get_field f dst \<noteq> VC_CDLIM_KEEP then None
          else
            (let (val, endptr, _) = strtol 0 opt'
             in if opt' = [] \<or> endptr \<noteq> [] then None else Some (put_field f (word_of_int val) dst)))"

definition isHigherLimit :: "u32 \<Rightarrow> u32 \<Rightarrow> bool" where
  "isHigherLimit lhs rhs \<longleftrightarrow> \<not> (lhs = VC_CDLIM_KEEP \<or> rhs = VC_CDLIM_KEEP) \<and> lhs > rhs"

datatype vdlimit_opt = DHelp | DVersion | DXid cstr | DSet cstr | DRemove | DFlags cstr | DUnknown

record vdlimit_state =
  do_set :: bool
  do_remove :: bool
  d_xid :: xid_t
  d_flags :: u32
  d_limit :: vc_ctx_dlimit

text \<open>\<open>stale_errno\<close>: an earlier call has left \<^verbatim>\<open>errno\<close> set, which nothing resets.\<close>

record vdlimit_host =
  dh_task :: xid_t
  dh_getctx :: "cstr \<Rightarrow> bool \<Rightarrow> vcCtxType \<Rightarrow> xid_t"
  stale_errno :: bool

fun vdlimit_option :: "vdlimit_host \<Rightarrow> vdlimit_opt \<Rightarrow> vdlimit_state \<Rightarrow> int + vdlimit_state" where
  "vdlimit_option h DHelp st = Inl 0"
| "vdlimit_option h DVersion st = Inl 0"
| "vdlimit_option h (DXid a) st =
     (let (x, err) = vc_xidopt2xid (dh_task h) (dh_getctx h) a True
      in if err = None then Inr (st\<lparr>d_xid := x\<rparr>) else Inl 1)"
| "vdlimit_option h (DSet a) st =
     (case setDLimitField (d_limit st) a of
        None \<Rightarrow> Inl 1
      | Some l \<Rightarrow> Inr (st\<lparr>d_limit := l, do_set := True\<rparr>))"
| "vdlimit_option h DRemove st = Inr (st\<lparr>do_remove := True\<rparr>)"
| "vdlimit_option h (DFlags a) st =
     (let (v, endptr, erange) = strtol 0 a; flags = word_of_int v
      in if flags = 0 \<and> (stale_errno h \<or> erange) \<or> endptr \<noteq> [] then Inl 1 else Inr (st\<lparr>d_flags := flags\<rparr>))"
| "vdlimit_option h DUnknown st = Inl 1"

fun vdlimit_options :: "vdlimit_host \<Rightarrow> vdlimit_opt list \<Rightarrow> vdlimit_state \<Rightarrow> int + vdlimit_state" where
  "vdlimit_options h [] st = Inr st"
| "vdlimit_options h (opt # opts) st =
     (case vdlimit_option h opt st of Inl e \<Rightarrow> Inl e | Inr st' \<Rightarrow> vdlimit_options h opts st')"

definition keep_dlimit :: vc_ctx_dlimit where
  "keep_dlimit =
     \<lparr>space_used = VC_CDLIM_KEEP, space_total = VC_CDLIM_KEEP, inodes_used = VC_CDLIM_KEEP,
      inodes_total = VC_CDLIM_KEEP, reserved = VC_CDLIM_KEEP\<rparr>"

definition vdlimit_init :: vdlimit_state where
  "vdlimit_init = \<lparr>do_set = False, do_remove = False, d_xid = VC_NOCTX, d_flags = 0, d_limit = keep_dlimit\<rparr>"

text \<open>The loop over the mount points: the exit code, what was printed and the state.\<close>

fun dlimit_loop ::
  "'s dl_kernel \<Rightarrow> vdlimit_state \<Rightarrow> cstr list \<Rightarrow> 's \<Rightarrow> int \<times> cstr list \<times> 's" where
  "dlimit_loop k st [] s = (0, [], s)"
| "dlimit_loop k st (m # ms) s =
     (if do_set st
      then (case setDlimit k m (d_xid st) (d_flags st) (d_limit st) s of
              (Some e, s1) \<Rightarrow> (e, [], s1)
            | (None, s1) \<Rightarrow> dlimit_loop k st ms s1)
      else if do_remove st
      then (case remDlimit k m (d_xid st) (d_flags st) s of
              (Some e, s1) \<Rightarrow> (e, [], s1)
            | (None, s1) \<Rightarrow> dlimit_loop k st ms s1)
      else (case printDlimit k m (d_xid st) (d_flags st) True s of
              Inl e \<Rightarrow> (e, [], s)
            | Inr t \<Rightarrow> (let (e, out, s1) = dlimit_loop k st ms s in (e, t # out, s1))))"

definition vdlimit :: "'s dl_kernel \<Rightarrow> vdlimit_host \<Rightarrow> vdlimit_opt list \<Rightarrow> cstr list \<Rightarrow> 's \<Rightarrow> int \<times> cstr list \<times> 's" where
  "vdlimit k h opts args s =
     (case vdlimit_options h opts vdlimit_init of
        Inl e \<Rightarrow> (e, [], s)
      | Inr st \<Rightarrow>
          if do_set st \<and> do_remove st then (1, [], s)
          else if args = [] then (1, [], s)
          else if d_xid st = VC_NOCTX then (1, [], s)
          else if isHigherLimit (space_used (d_limit st)) (space_total (d_limit st)) then (1, [], s)
          else if isHigherLimit (inodes_used (d_limit st)) (inodes_total (d_limit st)) then (1, [], s)
          else dlimit_loop k st args s)"

section \<open>Field options\<close>

lemma val_ptr_field:
  assumes "(n, f) \<in> set DL_FIELDS"
  shows "val_ptr (n @ CHR ''='' # t) DL_FIELDS = Some (f, t)"
  using assms by (auto simp: DL_FIELDS_def)

lemma put_get_field: "get_field f (put_field g v d) = (if f = g then v else get_field f d)"
  by (cases f; cases g) auto

lemma setDLimitField_number:
  assumes "(n, f) \<in> set DL_FIELDS" "LONG_MIN \<le> v" "v \<le> LONG_MAX" "get_field f d = VC_CDLIM_KEEP"
  shows "setDLimitField d (n @ CHR ''='' # signed_digits 10 v) = Some (put_field f (word_of_int v) d)"
proof -
  have "strtol 0 (signed_digits 10 v) = (v, [], False)"
    using strtol_auto_signed [of "[]" v] assms(2,3) by (simp add: after_number_def)
  moreover have "signed_digits 10 v \<noteq> []" by (simp add: signed_digits_def)
  ultimately show ?thesis using assms(4) by (simp add: setDLimitField_def val_ptr_field [OF assms(1)])
qed

section \<open>The promises of the kernel\<close>

text \<open>A refused request changes nothing, and removing a limit that was just added restores the state.\<close>

definition dl_laws :: "'s dl_kernel \<Rightarrow> bool" where
  "dl_laws k \<longleftrightarrow>
     (\<forall>f x fl s. \<not> fst (k_add k f x fl s) \<longrightarrow> snd (k_add k f x fl s) = s) \<and>
     (\<forall>f x fl l s. \<not> fst (k_set k f x fl l s) \<longrightarrow> snd (k_set k f x fl l s) = s) \<and>
     (\<forall>f x fl s. fst (k_add k f x fl s) \<longrightarrow>
        k_rem k f x fl (snd (k_add k f x fl s)) = (True, s))"

lemma setDlimit_rollback:
  assumes "dl_laws k" "setDlimit k f x fl l s = (Some e, s')"
  shows "s' = s"
proof -
  have laws: "k_add k f x fl s = (False, t) \<Longrightarrow> t = s" "k_set k f x fl l u = (False, t) \<Longrightarrow> t = u"
    "k_add k f x fl s = (True, t) \<Longrightarrow> k_rem k f x fl t = (True, s)" for t u
    using assms(1) unfolding dl_laws_def by (metis fst_conv snd_conv)+
  show ?thesis
    using assms(2)
    by (auto simp: setDlimit_def Let_def laws(3) dest: laws(1) dest!: laws(2) split: prod.splits if_splits bool.splits)
qed

lemma dlimit_loop_rollback:
  assumes "dl_laws k" "do_set st" "dlimit_loop k st ms s = (e, out, s')" "e \<noteq> 0"
  shows "\<exists>done m rest. ms = done @ m # rest \<and> dlimit_loop k st done s = (0, [], s')"
  using assms(3)
proof (induction ms arbitrary: s)
  case Nil
  then show ?case using assms(4) by simp
next
  case (Cons m ms)
  obtain r s1 where r: "setDlimit k m (d_xid st) (d_flags st) (d_limit st) s = (r, s1)" by fastforce
  show ?case
  proof (cases r)
    case None
    then obtain ds m' rest where "ms = ds @ m' # rest" "dlimit_loop k st ds s1 = (0, [], s')"
      using Cons.IH [of s1] Cons.prems r assms(2) by auto
    then show ?thesis using None r assms(2) by (intro exI [of _ "m # ds"]) auto
  next
    case (Some x)
    then have "s1 = s" using setDlimit_rollback [OF assms(1)] r by blast
    then have "m # ms = [] @ m # ms \<and> dlimit_loop k st [] s = (0, [], s')" using Cons.prems Some r assms(2) by auto
    then show ?thesis by blast
  qed
qed

section \<open>Properties\<close>


text \<open>
  A field option with the decimal text of a number sets exactly its field to this number modulo \<open>2\<^sup>3\<^sup>2\<close>,
  and a field cannot be set twice; numbers that do not fit are not refused.
\<close>
lemma setDLimitField_value:
  assumes "(n, f) \<in> set DL_FIELDS" "LONG_MIN \<le> v" "v \<le> LONG_MAX"
  shows "setDLimitField d (n @ ''='' @ signed_digits 10 v) =
    (if get_field f d = VC_CDLIM_KEEP then Some (put_field f (word_of_int v) d) else None)"
  using setDLimitField_number [OF assms] val_ptr_field [OF assms(1)] by (simp add: setDLimitField_def)

lemma setDLimitField_value_example:
  "setDLimitField keep_dlimit ''space_total=4294967296'' = Some (keep_dlimit\<lparr>space_total := 0\<rparr>)"
proof -
  have "(''space_total'', Space_total) \<in> set DL_FIELDS" by (simp add: DL_FIELDS_def)
  moreover have "signed_digits 10 4294967296 = ''4294967296''"
    by (simp add: signed_digits_def digits_of_step digits_of_small DIGITS_def)
  moreover have "(word_of_int 4294967296 :: u32) = 0" by simp
  ultimately show ?thesis
    using setDLimitField_value [of "''space_total''" Space_total 4294967296 keep_dlimit]
    by (simp add: LONG_MIN_def LONG_MAX_def keep_dlimit_def)
qed

text \<open>A kernel that has room for one limit and refuses to set it on one mount point.\<close>

definition small_kernel :: "(cstr \<times> xid_t \<rightharpoonup> vc_ctx_dlimit) dl_kernel" where
  "small_kernel =
     \<lparr>k_get = (\<lambda>f x _ s. s (f, x)),
      k_add = (\<lambda>f x _ s. if s (f, x) = None then (True, s((f, x) \<mapsto> keep_dlimit)) else (False, s)),
      k_set = (\<lambda>f x _ l s. if f = ''/bad'' \<or> s (f, x) = None then (False, s) else (True, s((f, x) \<mapsto> l))),
      k_rem = (\<lambda>f x _ s. if s (f, x) = None then (False, s) else (True, s((f, x) := None)))\<rparr>"

lemma small_kernel_laws: "dl_laws small_kernel"
  by (auto simp: dl_laws_def small_kernel_def fun_upd_idem)

definition dl_host :: vdlimit_host where
  "dl_host = \<lparr>dh_task = 7, dh_getctx = (\<lambda>_ _ _. VC_NOCTX), stale_errno = False\<rparr>"


end
