(* ===== verification/Attributes.thy ===== *)
theory Attributes
  imports FlagTables Limits
begin

text \<open>
  Attributes of contexts: \<^verbatim>\<open>src/vattribute.c\<close>, \<^verbatim>\<open>src/nattribute.c\<close> and the printer of flag words in
  \<^verbatim>\<open>src/attribute-util.h\<close>. The printer names the flags it knows with the tables of theory \<open>FlagTables\<close> and
  writes the rest as bit numbers; the list parsers read both. The command line is the list of options that
  \<^verbatim>\<open>getopt_long\<close> reports; the kernel's answers are parameters.
\<close>

section \<open>Printing flag words\<close>

lemma finite_bits: "finite {k. bit (v::'w::len word) k}"
  by (rule finite_subset [of _ "{..<LENGTH('w)}"]) (auto dest: bit_imp_le_length)

lemma text2value_removes:
  fixes v :: "'w::len word"
  assumes "text2value v vals = (Some i, v')"
  shows "card {k. bit v' k} < card {k. bit v k}"
proof -
  have v0: "v \<noteq> 0" using assms by (auto simp: text2value_def)
  have "\<exists>j < LENGTH('w). bit v j" using v0 by (auto simp: bit_eq_iff)
  then have low: "bit v (low_bit 0 LENGTH('w) v)" by (intro FlagTables.bcap.low_bit_set) auto
  define d where "d = (case searchValue v vals of Some _ \<Rightarrow> v | None \<Rightarrow> push_bit (low_bit 0 LENGTH('w) v) 1)"
  have v': "v' = v AND NOT d"
    using assms v0 by (auto simp: text2value_def d_def Let_def split: option.splits prod.splits)
  have l: "low_bit 0 LENGTH('w) v < LENGTH('w)" using low by (rule bit_imp_le_length)
  then have "bit d (low_bit 0 LENGTH('w) v)" using low by (auto simp: d_def bit_simps split: option.splits)
  then have "{k. bit v' k} \<subset> {k. bit v k}"
    using low l unfolding v' by (auto simp: bit_simps)
  then show ?thesis by (rule psubset_card_mono [OF finite_bits])
qed

text \<open>The first loop of the printer: names until the table has none for what is left.\<close>

function print_names :: "'w::len word Mapping list \<Rightarrow> 'w word \<Rightarrow> cstr list \<times> 'w word" where
  "print_names vals v =
     (case lo2text vals v of
        (None, v') \<Rightarrow> ([], v')
      | (Some n, v') \<Rightarrow> (let (ns, r) = print_names vals v' in (n # ns, r)))"
  by pat_completeness auto
termination
  by (relation "measure (\<lambda>(_, v). card {k. bit v k})")
     (auto simp: lo2text_def intro!: text2value_removes split: prod.splits option.splits)

definition ffsull :: "u64 \<Rightarrow> nat" where
  "ffsull w = (let b = low_bit 0 64 w in if b = 64 then 0 else b)"

lemma low_bit_least: "i \<le> k \<Longrightarrow> k < low_bit i n v \<Longrightarrow> \<not> bit v k"
proof (induction i n v rule: low_bit.induct)
  case (2 i n v)
  have "\<not> bit v i" using 2(2,3) by (auto simp: and_exp_eq_0_iff_not_bit split: if_splits)
  then show ?case using 2 by (cases "k = i") (auto simp: and_exp_eq_0_iff_not_bit)
qed simp

lemma ffsull_set:
  assumes "w \<noteq> 0"
  shows "bit w (ffsull w)" "ffsull w < 64" "k < ffsull w \<Longrightarrow> \<not> bit w k"
proof -
  have "\<exists>j < 64. bit w j" using assms by (auto simp: bit_eq_iff)
  then have b: "bit w (low_bit 0 64 w)" using bcap.low_bit_set [of 0 64 w] by auto
  then have "low_bit 0 64 w < 64" using bit_imp_le_length [of w] by simp
  then show "bit w (ffsull w)" "ffsull w < 64" "k < ffsull w \<Longrightarrow> \<not> bit w k"
    using b low_bit_least [of 0 k 64 w] by (auto simp: ffsull_def Let_def)
qed

lemma clear_bit_smaller: "bit v b \<Longrightarrow> card {k. bit (v AND NOT (2 ^ b)) k} < card {k. bit (v::u64) k}"
  by (rule psubset_card_mono [OF finite_bits]) (auto simp: bit_simps)

text \<open>The second loop: numbers of bits, until bit 0 is the lowest one.\<close>

function print_bits :: "u64 \<Rightarrow> nat list \<times> u64" where
  "print_bits v =
     (if v = 0 then ([], v)
      else
        (let b = ffsull v
         in if b = 0 then ([], v)
            else (let (bs, r) = print_bits (v AND NOT (push_bit b 1)) in (b # bs, r))))"
  by pat_completeness auto
termination
  by (relation "measure (\<lambda>v. card {k. bit v k})") (auto intro!: clear_bit_smaller [simplified] ffsull_set)

declare print_names.simps [simp del] print_bits.simps [simp del]

fun join_comma :: "cstr list \<Rightarrow> cstr" where
  "join_comma [] = []"
| "join_comma [t] = t"
| "join_comma (t # t2 # ts) = t @ CHR '','' # join_comma (t2 # ts)"

definition bit_text :: "nat \<Rightarrow> cstr" where
  "bit_text b = CHR ''^'' # the (WRITE_INT (of_nat b))"

definition bitfield_items :: "u64 Mapping list \<Rightarrow> u64 \<Rightarrow> cstr list" where
  "bitfield_items vals v =
     (let (ns, r) = print_names vals v in ns @ map bit_text (fst (print_bits r)))"

definition print_bitfield :: "cstr \<Rightarrow> u64 Mapping list \<Rightarrow> u64 \<Rightarrow> cstr" where
  "print_bitfield name vals v = name @ '':'' @ [NL] @ join_comma (bitfield_items vals v) @ [NL]"

section \<open>Reading the printed text\<close>

text \<open>Text that the list parser reads as one item with a given value.\<close>

definition reads_as :: "(cstr \<Rightarrow> nat \<Rightarrow> 'w::len word \<times> bool) \<Rightarrow> cstr \<Rightarrow> 'w word \<Rightarrow> bool" where
  "reads_as func t v \<longleftrightarrow>
     t \<noteq> [] \<and> is_cstr t \<and> CHR '','' \<notin> set t \<and> \<not> is_neg_char (hd t) \<and>
     (\<forall>r. is_cstr r \<and> (r = [] \<or> hd r = CHR '','') \<longrightarrow>
        fst (lp_item True func (t @ r) (length t)) = False \<and> fst (snd (lp_item True func (t @ r) (length t))) = v)"

lemma loop_reads:
  assumes t: "reads_as func t v" and r: "r = [] \<or> hd r = CHR '',''" and c: "is_cstr r"
  shows "listparser_loop True func (t @ r) (length (t @ r)) flag msk =
    (if r = [] then (None, flag OR v, msk OR v)
     else listparser_loop True func (tl r) (length (tl r)) (flag OR v) (msk OR v))"
proof -
  note f = t [unfolded reads_as_def]
  have negs: "takeWhile is_neg_char (t @ r) = []" using f by (cases t) auto
  obtain s n where item: "lp_item True func (t @ r) (length t) = (False, v, s, n)"
    using f r c by (metis prod.collapse)
  show ?thesis
  proof (cases r)
    case Nil
    then have "strchr (t @ r) CHR '','' = None" using f by (simp add: strchr_None)
    then show ?thesis
      using negs item f Nil by (subst listparser_loop.simps) (simp add: Let_def)
  next
    case (Cons x xs)
    then have "strchr (t @ r) CHR '','' = Some (length t)" using f r by simp
    then show ?thesis
      using negs item f Cons by (subst listparser_loop.simps) (simp add: Let_def)
  qed
qed

lemma is_cstr_join: "\<forall>t \<in> set ts. is_cstr t \<Longrightarrow> is_cstr (join_comma ts)"
  by (induction ts rule: join_comma.induct) auto

lemma reads_cstr: "list_all2 (reads_as func) ts vs \<Longrightarrow> \<forall>t \<in> set ts. is_cstr t"
  by (induction rule: list_all2_induct) (auto simp: reads_as_def)

lemma listparser_reads:
  assumes "list_all2 (reads_as func) ts vs" "ts \<noteq> []"
  shows "listparser True func (join_comma ts) 0 flag msk = (None, fold (OR) vs flag, fold (OR) vs msk)"
proof -
  have "listparser_loop True func (join_comma ts) (length (join_comma ts)) flag msk =
      (None, fold (OR) vs flag, fold (OR) vs msk)"
    using assms
  proof (induction ts arbitrary: vs flag msk rule: induct_list012)
    case (2 t)
    then obtain v where "vs = [v]" "reads_as func t v" by (auto simp: list_all2_Cons1)
    then show ?case using loop_reads [of func t v "[]" flag msk] by (simp add: or.commute)
  next
    case (3 t t2 ts)
    then obtain v vs' where v: "vs = v # vs'" "reads_as func t v" "list_all2 (reads_as func) (t2 # ts) vs'"
      by (auto simp: list_all2_Cons1)
    have "\<forall>t \<in> set (t2 # ts). is_cstr t" using reads_cstr [OF v(3)] .
    then have c: "is_cstr (CHR '','' # join_comma (t2 # ts))" using is_cstr_join [of "t2 # ts"] by simp
    show ?case
      using loop_reads [OF v(2) _ c, of flag msk] 3(2) [OF v(3)] v(1) by (simp add: or.commute)
  qed simp
  moreover have "join_comma ts \<noteq> []"
    using assms by (cases ts rule: join_comma.cases) (auto simp: list_all2_Cons1 reads_as_def)
  ultimately show ?thesis by (simp add: listparser_def)
qed

lemma WRITE_INT_bit:
  assumes "b < 64"
  shows "WRITE_INT (of_nat b) = Some (digits_of 10 b)"
proof -
  let ?n = "of_nat b :: u32" and ?v = "scast (of_nat b :: u32) :: u64"
  have "sint ?n = int b" using assms by (simp add: sint_uint unat_of_nat uint_nat signed_take_bit_int_eq_self)
  moreover have "sint ?v = sint ?n" by (rule sint_up_scast) (simp add: is_up)
  ultimately have v: "sint ?v = int b" by simp
  have "length (digits_of 10 b) \<le> 2" using assms by (intro length_digits_of) auto
  then show ?thesis
    by (simp add: WRITE_INT_def fmt_int_def sizeof_val_def fmt_int_base_text [of 8] v signed_digits_def)
qed

lemma bit_text_reads:
  assumes "b < 64"
  shows "reads_as func (bit_text b) (push_bit b 1 :: u64)"
proof -
  let ?d = "digits_of 10 b" and ?t = "bit_text b"
  have t: "?t = CHR ''^'' # ?d" using WRITE_INT_bit [OF assms] by (simp add: bit_text_def)
  have dig: "\<forall>c \<in> set ?d. is_base_digit 10 c" using digits_of_base_digit [of 10 b] by simp
  have "\<not> is_base_digit 10 CHR '',''" by code_simp
  then have c: "is_cstr ?t" "CHR '','' \<notin> set ?t" using dig is_cstr_digits_of [of b] by (auto simp: t)
  have "fst (lp_item True func (?t @ r) (length ?t)) = False \<and>
      fst (snd (lp_item True func (?t @ r) (length ?t))) = push_bit b 1"
    if r: "is_cstr r" "r = [] \<or> hd r = CHR '',''" for r
  proof -
    have words: "strncasecmp (length ?t) (?t @ r) wd \<noteq> 0" if "wd \<in> {''all'', ''any'', ''none''}" for wd
    proof -
      have "tolower CHR ''^'' = CHR ''^''" by code_simp
      then have "hd (map tolower (take (length ?t) (?t @ r))) = CHR ''^''" by (simp add: t)
      moreover have "hd (map tolower (take (length ?t) wd)) \<noteq> CHR ''^''"
      proof -
        have "\<forall>wd \<in> {''all'', ''any'', ''none''}. tolower (hd wd) \<noteq> CHR ''^'' \<and> wd \<noteq> []" by code_simp
        then show ?thesis using that by (auto simp: t)
      qed
      moreover have "is_cstr wd" using that by auto
      ultimately show ?thesis using strncasecmp_0_iff [of "?t @ r" wd "length ?t"] c(1) r(1) by auto
    qed
    have "tolower CHR '','' \<noteq> CHR ''x''" "\<not> is_base_digit 10 CHR '',''" by code_simp+
    then have an: "after_number r" using r(2) by (auto simp: after_number_def)
    have "strtol 0 (?d @ r) = (int b, r, False)"
      using strtol_auto_signed [OF an, of "int b"] assms by (simp add: signed_digits_def LONG_MAX_def LONG_MIN_def)
    moreover have "strto_converted 0 (?d @ r)" using strto_scan_auto_digits [OF an, of b] by (simp add: strto_converted_def)
    ultimately have "isNumber_lp (?t @ r) (length ?t) (deref r) = (True, push_bit b 1 :: u64, ?d @ r, length ?d)"
      using assms by (simp add: isNumber_lp_def t)
    then show ?thesis using words by (simp add: lp_item_def t)
  qed
  then show ?thesis unfolding reads_as_def using c by (auto simp: t)
qed

lemma fold_or: "fold (OR) vs x = x OR fold (OR) vs (0 :: 'w::len word)"
proof (induction vs arbitrary: x)
  case (Cons v vs)
  have "fold (OR) (v # vs) x = (v OR x) OR fold (OR) vs 0" using Cons [of "v OR x"] by simp
  also have "\<dots> = x OR (v OR 0 OR fold (OR) vs 0)" by (simp add: or.assoc or.left_commute or.commute)
  also have "v OR 0 OR fold (OR) vs 0 = fold (OR) (v # vs) 0" using Cons [of "v OR 0"] by simp
  finally show ?case .
qed simp

lemma lo2text_entry:
  fixes v :: "'w::len word"
  assumes "lo2text vals v = (Some name, v')"
  shows "\<exists>m \<in> set vals. name = map_id m \<and> v = map_val m OR v'"
proof -
  have v0: "v \<noteq> 0" using assms by (auto simp: lo2text_def text2value_def)
  define d where "d = (case searchValue v vals of Some _ \<Rightarrow> v | None \<Rightarrow> push_bit (low_bit 0 LENGTH('w) v) 1)"
  obtain i where i: "searchValue d vals = Some i" "name = map_id (vals ! i)" "v' = v AND NOT d"
    using assms v0 by (auto simp: lo2text_def text2value_def d_def Let_def split: option.splits prod.splits)
  have "\<exists>j < LENGTH('w). bit v j" using v0 by (auto simp: bit_eq_iff)
  then have low: "bit v (low_bit 0 LENGTH('w) v)" by (intro bcap.low_bit_set) auto
  have "bit v k" if "bit d k" for k using that low by (auto simp: d_def bit_simps split: option.splits)
  then have "v = d OR v'" unfolding i(3) by (auto simp: bit_eq_iff bit_simps)
  moreover have "i < length vals" "map_val (vals ! i) = d"
    using find_idx_Some [of "\<lambda>m. d = map_val m" vals i] i(1) by (auto simp: searchValue_def)
  ultimately show ?thesis using i(2) by (intro bexI [of _ "vals ! i"]) auto
qed

text \<open>The printed names stand for entries of the table, which together with the rest make up the word.\<close>

lemma print_names_entries:
  fixes v :: "'w::len word"
  assumes "print_names vals v = (ns, r)"
  shows "\<exists>ms. set ms \<subseteq> set vals \<and> ns = map map_id ms \<and> v = fold (OR) (map map_val ms) 0 OR r \<and> lo2text vals r = (None, r)"
  using assms
proof (induction vals v arbitrary: ns r rule: print_names.induct)
  case (1 vals v)
  obtain n v' where l: "lo2text vals v = (n, v')" by fastforce
  show ?case
  proof (cases n)
    case None
    then have "v' = v" using l by (auto simp: lo2text_def text2value_def Let_def split: option.splits prod.splits if_splits)
    then show ?thesis using "1.prems" l None by (simp add: print_names.simps)
  next
    case (Some name)
    obtain ns' r' where p: "print_names vals v' = (ns', r')" by fastforce
    obtain ms where ms: "set ms \<subseteq> set vals" "ns' = map map_id ms" "v' = fold (OR) (map map_val ms) 0 OR r'"
      "lo2text vals r' = (None, r')"
      using "1.IH" [OF l [symmetric] Some p] by blast
    have o: "ns = name # ns'" "r = r'" using "1.prems" l Some p by (auto simp: print_names.simps)
    obtain m where m: "m \<in> set vals" "name = map_id m" "v = map_val m OR v'"
      using lo2text_entry [of vals v name v'] l Some by blast
    have "v = fold (OR) (map map_val (m # ms)) 0 OR r"
      using m(3) ms(3) o(2) fold_or [of "map map_val ms" "map_val m"] by (simp add: or.assoc)
    then show ?thesis using ms m o by (intro exI [of _ "m # ms"]) auto
  qed
qed

lemma print_bits_word:
  "print_bits v = (bs, r) \<Longrightarrow>
   v = fold (OR) (map (\<lambda>b. push_bit b 1) bs) 0 OR r \<and> (\<forall>b \<in> set bs. b < 64) \<and> (r = 0 \<or> r = v \<and> bit v 0) \<and> (bit v 0 \<longrightarrow> bs = [])"
proof (induction v arbitrary: bs r rule: print_bits.induct)
  case (1 v)
  show ?case
  proof (cases "v = 0 \<or> ffsull v = 0")
    case True
    then have "print_bits v = ([], v)" by (subst print_bits.simps) (auto simp: Let_def)
    then have "bs = []" "r = v" using 1(2) by auto
    moreover have "v = 0 \<or> bit v 0" using True ffsull_set(1) [of v] by (cases "v = 0") auto
    ultimately show ?thesis by auto
  next
    case False
    let ?b = "ffsull v" let ?v = "v AND NOT (push_bit ?b 1)"
    obtain bs' r' where p: "print_bits ?v = (bs', r')" by fastforce
    have o: "bs = ?b # bs'" "r = r'" using 1(2) False p by (auto simp: print_bits.simps [of v] Let_def)
    have b: "bit v ?b" "?b < 64" "\<not> bit v 0" using ffsull_set [of v] False by auto
    then have "\<not> bit ?v 0" by (simp add: bit_simps)
    then have IH: "?v = fold (OR) (map (\<lambda>b. push_bit b 1) bs') 0 OR r'" "\<forall>b \<in> set bs'. b < 64" "r' = 0"
      using 1(1) [OF _ refl _ p] False by auto
    have "v = push_bit ?b 1 OR ?v" using b(1) by (intro bit_word_eqI) (auto simp: bit_simps)
    also have "\<dots> = push_bit ?b 1 OR (fold (OR) (map (\<lambda>b. push_bit b 1) bs') 0 OR r')" using IH(1) by simp
    also have "\<dots> = fold (OR) (map (\<lambda>b. push_bit b 1) bs) 0 OR r"
      using o fold_or [of "map (\<lambda>b. push_bit b 1) bs'" "push_bit ?b (1::u64)"] by (simp add: or.assoc)
    finally show ?thesis using o IH b by auto
  qed
qed

context flag_table
begin

lemma name_reads:
  assumes "m \<in> set vals"
  shows "reads_as (text2_err (text2val vals pre)) (map_id m) (map_val m)"
proof -
  note f = wf_name_facts [OF entry_wf(1) [OF assms]]
  show ?thesis unfolding reads_as_def using f lp_item_name [OF assms] by auto
qed

end

text \<open>A table with an entry for bit 0 never leaves bit 0 to the second loop.\<close>

lemma rest_without_bit0:
  fixes r :: "'w::len word"
  assumes "lo2text vals r = (None, r)" "m \<in> set vals" "map_val m = 1"
  shows "\<not> bit r 0"
proof
  assume b: "bit r 0"
  then have "low_bit 0 LENGTH('w) r = 0" using low_bit_least [of 0 0 "LENGTH('w)" r] by auto
  moreover have "r \<noteq> 0" using b by auto
  ultimately have "searchValue (1::'w word) vals = None"
    using assms(1) by (auto simp: lo2text_def text2value_def Let_def split: option.splits prod.splits if_splits)
  then show False using assms(2,3) by (auto simp: searchValue_def find_idx_None)
qed

lemma bitfield_read:
  assumes t: "flag_table vals pre" and v: "v \<noteq> 0" and z: "\<not> bit (snd (print_names vals v)) 0"
  shows "listparser True (text2_err (text2val vals pre)) (join_comma (bitfield_items vals v)) 0 flag msk =
    (None, flag OR v, msk OR v)"
proof -
  obtain ns r where n: "print_names vals v = (ns, r)" by fastforce
  obtain bs r' where b: "print_bits r = (bs, r')" by fastforce
  obtain ms where ms: "set ms \<subseteq> set vals" "ns = map map_id ms" "v = fold (OR) (map map_val ms) 0 OR r"
    using print_names_entries [OF n] by blast
  let ?vs = "map map_val ms @ map (\<lambda>b. push_bit b 1) bs"
  have r: "r = fold (OR) (map (\<lambda>b. push_bit b 1) bs) 0" "\<forall>b \<in> set bs. b < 64"
    using print_bits_word [OF b] z n by auto
  have items: "bitfield_items vals v = map map_id ms @ map bit_text bs"
    using n b ms(2) by (simp add: bitfield_items_def)
  have "list_all2 (reads_as (text2_err (text2val vals pre))) (map map_id ms) (map map_val ms)"
    using ms(1) flag_table.name_reads [OF t] by (auto simp: list_all2_conv_all_nth subset_iff)
  moreover have "list_all2 (reads_as (text2_err (text2val vals pre))) (map bit_text bs) (map (\<lambda>b. push_bit b 1) bs)"
    using r(2) bit_text_reads by (auto simp: list_all2_conv_all_nth simp del: push_bit_of_1)
  ultimately have rd: "list_all2 (reads_as (text2_err (text2val vals pre))) (bitfield_items vals v) ?vs"
    unfolding items by (rule list_all2_appendI)
  have word: "fold (OR) ?vs x = x OR v" for x
    using ms(3) r(1) fold_or [of ?vs x] fold_or [of "map (\<lambda>b. push_bit b 1) bs" "fold (OR) (map map_val ms) 0"] by simp
  have "bitfield_items vals v \<noteq> []" using word [of 0] v unfolding items by auto
  from listparser_reads [OF rd this, of flag msk] show ?thesis by (simp only: word)
qed

section \<open>Setting and showing attributes\<close>

record vc_ctx_flags =
  cf_flagword :: u64
  cf_mask :: u64

record vc_ctx_caps =
  cc_bcaps :: u64
  cc_bmask :: u64
  cc_ccaps :: u64
  cc_cmask :: u64

record vc_umask =
  um_umask :: u64
  um_mask :: u64

record vc_net_flags =
  nf_flagword :: u64
  nf_mask :: u64

record vc_net_caps =
  nc_ncaps :: u64
  nc_cmask :: u64

definition vc_get_insecureccaps :: u64 where
  "vc_get_insecureccaps = NOT (VC_VXC_SET_UTSNAME OR VC_VXC_RAW_ICMP OR VC_VXC_AUDIT_CONTROL)"

datatype attr_mode = CMD_SET | CMD_GET

datatype attr_opt =
    AtHelp | AtVersion | AtSet | AtGet | AtXid cstr | AtNid cstr | AtFlag cstr | AtCcap cstr | AtBcap cstr | AtNcap cstr
  | AtSecure | AtUmask cstr | AtUnknown

datatype attr_request =
    Set_ccaps xid_t vc_ctx_caps | Set_cflags xid_t vc_ctx_flags | Set_umask xid_t vc_umask
  | Set_ncaps xid_t vc_net_caps | Set_nflags xid_t vc_net_flags

text \<open>The host: the task's identifiers, those of vservers, the kernel, which requests it accepts and its answers.\<close>

record attr_host =
  ah_xid :: xid_t
  ah_nid :: xid_t
  ah_getctx :: "cstr \<Rightarrow> bool \<Rightarrow> vcCtxType \<Rightarrow> xid_t"
  ah_kernel :: kernel_info
  ah_accepts :: "attr_request \<Rightarrow> bool"
  ah_cflags :: "xid_t \<Rightarrow> vc_ctx_flags option"
  ah_ccaps :: "xid_t \<Rightarrow> vc_ctx_caps option"
  ah_umask :: "xid_t \<Rightarrow> vc_umask option"
  ah_nflags :: "xid_t \<Rightarrow> vc_net_flags option"
  ah_ncaps :: "xid_t \<Rightarrow> vc_net_caps option"

text \<open>What a run asks the kernel, prints, and how it ends.\<close>

record attr_run =
  ar_requests :: "attr_request list"
  ar_output :: cstr
  ar_end :: ending

definition attr_exits :: "int \<Rightarrow> attr_run" where
  "attr_exits e = \<lparr>ar_requests = [], ar_output = [], ar_end = Exits e\<rparr>"

definition wrapper_exit_code :: int where
  "wrapper_exit_code = 1"

definition EXIT_SUCCESS :: int where "EXIT_SUCCESS = 0"
definition EXIT_FAILURE :: int where "EXIT_FAILURE = 1"

text \<open>An identifier option, and a list option that stores what it read.\<close>

definition id_arg :: "xid_t \<times> cstr option \<Rightarrow> (xid_t \<Rightarrow> 'a) \<Rightarrow> int + 'a" where
  "id_arg res store = (if fst res = VC_NOCTX then Inl wrapper_exit_code else Inr (store (fst res)))"

definition list_arg :: "(cstr \<times> nat) option \<times> u64 \<times> u64 \<Rightarrow> (u64 \<Rightarrow> u64 \<Rightarrow> 'a) \<Rightarrow> int + 'a" where
  "list_arg res store = (case res of (Some _, _, _) \<Rightarrow> Inl wrapper_exit_code | (None, f, m) \<Rightarrow> Inr (store f m))"

text \<open>The chain of requests: those that are wanted, up to the first one that is refused.\<close>

fun request_chain :: "(attr_request \<Rightarrow> bool) \<Rightarrow> (bool \<times> attr_request) list \<Rightarrow> attr_request list \<times> bool" where
  "request_chain ok [] = ([], True)"
| "request_chain ok ((wanted, r) # rs) =
     (if \<not> wanted then request_chain ok rs
      else if \<not> ok r then ([r], False)
      else (let (ms, good) = request_chain ok rs in (r # ms, good)))"

definition chain_run :: "attr_request list \<times> bool \<Rightarrow> cstr list \<Rightarrow> attr_run" where
  "chain_run res args =
     \<lparr>ar_requests = fst res, ar_output = [],
      ar_end = (if \<not> snd res then Exits EXIT_FAILURE else if args \<noteq> [] then Execs args else Exits EXIT_SUCCESS)\<rparr>"

definition print_run :: "cstr option \<Rightarrow> cstr list \<Rightarrow> attr_run" where
  "print_run out args =
     (case out of
        None \<Rightarrow> attr_exits wrapper_exit_code
      | Some t \<Rightarrow> \<lparr>ar_requests = [], ar_output = t, ar_end = (if args \<noteq> [] then Execs args else Exits EXIT_SUCCESS)\<rparr>)"

subsection \<open>Contexts\<close>

record vattr_args =
  va_xid :: xid_t
  va_flags :: vc_ctx_flags
  va_caps :: vc_ctx_caps
  va_umask :: vc_umask
  va_mode :: attr_mode

definition vattr_init :: vattr_args where
  "vattr_init =
     \<lparr>va_xid = VC_NOCTX, va_flags = \<lparr>cf_flagword = 0, cf_mask = 0\<rparr>,
      va_caps = \<lparr>cc_bcaps = 0, cc_bmask = 0, cc_ccaps = 0, cc_cmask = 0\<rparr>,
      va_umask = \<lparr>um_umask = 0, um_mask = 0\<rparr>, va_mode = CMD_SET\<rparr>"

definition parseFlags :: "cstr \<Rightarrow> vc_ctx_flags \<Rightarrow> int + vc_ctx_flags" where
  "parseFlags str fl =
     list_arg (vc_list2cflag str 0 (cf_flagword fl) (cf_mask fl)) (\<lambda>f m. fl\<lparr>cf_flagword := f, cf_mask := m\<rparr>)"

definition parseBCaps :: "cstr \<Rightarrow> vc_ctx_caps \<Rightarrow> int + vc_ctx_caps" where
  "parseBCaps str c =
     list_arg (vc_list2bcap str 0 (cc_bcaps c) (cc_bmask c)) (\<lambda>f m. c\<lparr>cc_bcaps := f, cc_bmask := m\<rparr>)"

definition parseCCaps :: "cstr \<Rightarrow> vc_ctx_caps \<Rightarrow> int + vc_ctx_caps" where
  "parseCCaps str c =
     list_arg (vc_list2ccap str 0 (cc_ccaps c) (cc_cmask c)) (\<lambda>f m. c\<lparr>cc_ccaps := f, cc_cmask := m\<rparr>)"

definition parseUMask :: "cstr \<Rightarrow> vc_umask \<Rightarrow> int + vc_umask" where
  "parseUMask str u =
     list_arg (vc_list2umask str 0 (um_umask u) (um_mask u)) (\<lambda>f m. u\<lparr>um_umask := f, um_mask := m\<rparr>)"

definition parseSecure :: "kernel_info \<Rightarrow> vattr_args \<Rightarrow> vattr_args" where
  "parseSecure k a =
     a\<lparr>va_caps := \<lparr>cc_bcaps = NOT (vc_get_insecurebcaps k), cc_bmask = NOT 0,
                   cc_ccaps = NOT vc_get_insecureccaps, cc_cmask = NOT 0\<rparr>,
       va_flags := \<lparr>cf_flagword = VC_VXF_HIDE_NETIF, cf_mask = VC_VXF_HIDE_NETIF\<rparr>\<rparr>"

fun vattr_option :: "attr_host \<Rightarrow> attr_opt \<Rightarrow> vattr_args \<Rightarrow> int + vattr_args" where
  "vattr_option h AtHelp a = Inl 0"
| "vattr_option h AtVersion a = Inl 0"
| "vattr_option h AtSet a = Inr (a\<lparr>va_mode := CMD_SET\<rparr>)"
| "vattr_option h AtGet a = Inr (a\<lparr>va_mode := CMD_GET\<rparr>)"
| "vattr_option h (AtXid s) a =
     id_arg (vc_xidopt2xid (ah_xid h) (ah_getctx h) s True) (\<lambda>x. a\<lparr>va_xid := x\<rparr>)"
| "vattr_option h (AtFlag s) a = map_sum id (\<lambda>f. a\<lparr>va_flags := f\<rparr>) (parseFlags s (va_flags a))"
| "vattr_option h (AtCcap s) a = map_sum id (\<lambda>c. a\<lparr>va_caps := c\<rparr>) (parseCCaps s (va_caps a))"
| "vattr_option h (AtBcap s) a = map_sum id (\<lambda>c. a\<lparr>va_caps := c\<rparr>) (parseBCaps s (va_caps a))"
| "vattr_option h AtSecure a = Inr (parseSecure (ah_kernel h) a)"
| "vattr_option h (AtUmask s) a = map_sum id (\<lambda>u. a\<lparr>va_umask := u\<rparr>) (parseUMask s (va_umask a))"
| "vattr_option h _ a = Inl 255"

fun run_options :: "('o \<Rightarrow> 'a \<Rightarrow> int + 'a) \<Rightarrow> 'o list \<Rightarrow> 'a \<Rightarrow> int + 'a" where
  "run_options step [] a = Inr a"
| "run_options step (opt # opts) a = (case step opt a of Inl e \<Rightarrow> Inl e | Inr a' \<Rightarrow> run_options step opts a')"

definition vattr_printAttrs :: "attr_host \<Rightarrow> xid_t \<Rightarrow> cstr option" where
  "vattr_printAttrs h xid =
     do {
       flags \<leftarrow> ah_cflags h xid;
       caps \<leftarrow> ah_ccaps h xid;
       Some (print_bitfield ''bcapabilities'' bcap_VALUES (cc_bcaps caps) @
             print_bitfield ''ccapabilities'' ccap_VALUES (cc_ccaps caps) @
             print_bitfield ''flags'' cflag_VALUES (cf_flagword flags) @
             (case ah_umask h xid of
                None \<Rightarrow> []
              | Some u \<Rightarrow> print_bitfield ''umask'' umask_VALUES (um_umask u)))
     }"

definition vattr_requests :: "xid_t \<Rightarrow> vattr_args \<Rightarrow> (bool \<times> attr_request) list" where
  "vattr_requests xid a =
     [(cc_cmask (va_caps a) \<noteq> 0 \<or> cc_bmask (va_caps a) \<noteq> 0, Set_ccaps xid (va_caps a)),
      (cf_mask (va_flags a) \<noteq> 0, Set_cflags xid (va_flags a)),
      (um_mask (va_umask a) \<noteq> 0, Set_umask xid (va_umask a))]"

definition vattribute :: "attr_host \<Rightarrow> attr_opt list \<Rightarrow> cstr list \<Rightarrow> attr_run" where
  "vattribute h opts args =
     (case run_options (vattr_option h) opts vattr_init of
        Inl e \<Rightarrow> attr_exits e
      | Inr a \<Rightarrow>
          (let xid = (if va_xid a = VC_NOCTX then ah_xid h else va_xid a)
           in if xid = VC_NOCTX then attr_exits wrapper_exit_code
              else case va_mode a of
                     CMD_SET \<Rightarrow> chain_run (request_chain (ah_accepts h) (vattr_requests xid a)) args
                   | CMD_GET \<Rightarrow> print_run (vattr_printAttrs h xid) args))"

subsection \<open>Network contexts\<close>

record nattr_args =
  na_mode :: attr_mode
  na_nid :: xid_t
  na_flags :: vc_net_flags
  na_caps :: vc_net_caps

definition nattr_init :: nattr_args where
  "nattr_init =
     \<lparr>na_mode = CMD_SET, na_nid = VC_NOCTX, na_flags = \<lparr>nf_flagword = 0, nf_mask = 0\<rparr>,
      na_caps = \<lparr>nc_ncaps = 0, nc_cmask = 0\<rparr>\<rparr>"

definition nattr_parseFlags :: "cstr \<Rightarrow> vc_net_flags \<Rightarrow> int + vc_net_flags" where
  "nattr_parseFlags str fl =
     list_arg (vc_list2nflag str 0 (nf_flagword fl) (nf_mask fl)) (\<lambda>f m. fl\<lparr>nf_flagword := f, nf_mask := m\<rparr>)"

definition parseNCaps :: "cstr \<Rightarrow> vc_net_caps \<Rightarrow> int + vc_net_caps" where
  "parseNCaps str c =
     list_arg (vc_list2ncap str 0 (nc_ncaps c) (nc_cmask c)) (\<lambda>f m. c\<lparr>nc_ncaps := f, nc_cmask := m\<rparr>)"

definition nattr_parseSecure :: "nattr_args \<Rightarrow> nattr_args" where
  "nattr_parseSecure a =
     a\<lparr>na_caps := \<lparr>nc_ncaps = VC_NXC_RAW_ICMP, nc_cmask = VC_NXC_RAW_ICMP\<rparr>,
       na_flags := \<lparr>nf_flagword = VC_NXF_HIDE_NETIF, nf_mask = VC_NXF_HIDE_NETIF\<rparr>\<rparr>"

fun nattr_option :: "attr_host \<Rightarrow> attr_opt \<Rightarrow> nattr_args \<Rightarrow> int + nattr_args" where
  "nattr_option h AtHelp a = Inl 0"
| "nattr_option h AtVersion a = Inl 0"
| "nattr_option h AtSet a = Inr (a\<lparr>na_mode := CMD_SET\<rparr>)"
| "nattr_option h AtGet a = Inr (a\<lparr>na_mode := CMD_GET\<rparr>)"
| "nattr_option h (AtNid s) a =
     id_arg (vc_nidopt2nid (ah_nid h) (ah_getctx h) s True) (\<lambda>x. a\<lparr>na_nid := x\<rparr>)"
| "nattr_option h (AtFlag s) a = map_sum id (\<lambda>f. a\<lparr>na_flags := f\<rparr>) (nattr_parseFlags s (na_flags a))"
| "nattr_option h (AtNcap s) a = map_sum id (\<lambda>c. a\<lparr>na_caps := c\<rparr>) (parseNCaps s (na_caps a))"
| "nattr_option h AtSecure a = Inr (nattr_parseSecure a)"
| "nattr_option h _ a = Inl 255"

definition nattr_printAttrs :: "attr_host \<Rightarrow> xid_t \<Rightarrow> cstr option" where
  "nattr_printAttrs h nid =
     do {
       flags \<leftarrow> ah_nflags h nid;
       caps \<leftarrow> ah_ncaps h nid;
       Some (print_bitfield ''ncapabilities'' ncap_VALUES (nc_ncaps caps) @
             print_bitfield ''nflags'' nflag_VALUES (nf_flagword flags))
     }"

definition nattr_requests :: "xid_t \<Rightarrow> nattr_args \<Rightarrow> (bool \<times> attr_request) list" where
  "nattr_requests nid a =
     [(nc_cmask (na_caps a) \<noteq> 0, Set_ncaps nid (na_caps a)),
      (nf_mask (na_flags a) \<noteq> 0, Set_nflags nid (na_flags a))]"

definition nattribute :: "attr_host \<Rightarrow> attr_opt list \<Rightarrow> cstr list \<Rightarrow> attr_run" where
  "nattribute h opts args =
     (case run_options (nattr_option h) opts nattr_init of
        Inl e \<Rightarrow> attr_exits e
      | Inr a \<Rightarrow>
          (let nid = (if na_nid a = VC_NOCTX then ah_nid h else na_nid a)
           in if nid = VC_NOCTX then attr_exits wrapper_exit_code
              else case na_mode a of
                     CMD_SET \<Rightarrow> chain_run (request_chain (ah_accepts h) (nattr_requests nid a)) args
                   | CMD_GET \<Rightarrow> print_run (nattr_printAttrs h nid) args))"

section \<open>What is requested is covered by its mask\<close>

definition covered :: "u64 \<Rightarrow> u64 \<Rightarrow> bool" where
  "covered f m \<longleftrightarrow> f AND NOT m = 0"

lemma covered_bits: "covered f m \<longleftrightarrow> (\<forall>n. bit f n \<longrightarrow> bit m n)"
  unfolding covered_def using bit_imp_le_length [of f] by (auto simp: bit_eq_iff bit_simps)

fun request_ok :: "attr_request \<Rightarrow> bool" where
  "request_ok (Set_ccaps x c) \<longleftrightarrow>
     x \<noteq> VC_NOCTX \<and> (cc_bmask c \<noteq> 0 \<or> cc_cmask c \<noteq> 0) \<and> covered (cc_bcaps c) (cc_bmask c) \<and> covered (cc_ccaps c) (cc_cmask c)"
| "request_ok (Set_cflags x f) \<longleftrightarrow> x \<noteq> VC_NOCTX \<and> cf_mask f \<noteq> 0 \<and> covered (cf_flagword f) (cf_mask f)"
| "request_ok (Set_umask x u) \<longleftrightarrow> x \<noteq> VC_NOCTX \<and> um_mask u \<noteq> 0 \<and> covered (um_umask u) (um_mask u)"
| "request_ok (Set_ncaps x c) \<longleftrightarrow> x \<noteq> VC_NOCTX \<and> nc_cmask c \<noteq> 0 \<and> covered (nc_ncaps c) (nc_cmask c)"
| "request_ok (Set_nflags x f) \<longleftrightarrow> x \<noteq> VC_NOCTX \<and> nf_mask f \<noteq> 0 \<and> covered (nf_flagword f) (nf_mask f)"

lemma listparser_loop_covered:
  fixes flag msk :: u64
  assumes "covered flag msk" "listparser_loop True func str len flag msk = (e, f, m)"
  shows "covered f m"
  using assms
proof (induction True func str len flag msk arbitrary: f m rule: listparser_loop.induct)
  case (1 func str len flag msk)
  have "covered (flag OR tmp) (msk OR tmp)" "covered (flag AND NOT tmp) (msk OR tmp)" for tmp :: u64
    using "1.prems"(1) by (auto simp: covered_bits bit_simps)
  then show ?case
    using "1.prems" "1.hyps"
    by (subst (asm) listparser_loop.simps) (auto simp: Let_def split: if_splits prod.splits option.splits)
qed

lemma listparser_covered:
  "covered flag msk \<Longrightarrow> listparser True func str len flag msk = (e, f, m) \<Longrightarrow> covered f m"
  by (auto simp: listparser_def intro: listparser_loop_covered)

lemma list_arg_Inr: "list_arg res store = Inr a \<longleftrightarrow> (\<exists>f m. res = (None, f, m) \<and> a = store f m)"
  by (cases res) (auto simp: list_arg_def split: option.splits)

lemma map_sum_Inr: "map_sum id f x = Inr b \<longleftrightarrow> (\<exists>a. x = Inr a \<and> b = f a)"
  by (cases x) auto

definition vattr_inv :: "vattr_args \<Rightarrow> bool" where
  "vattr_inv a \<longleftrightarrow>
     covered (cf_flagword (va_flags a)) (cf_mask (va_flags a)) \<and> covered (cc_bcaps (va_caps a)) (cc_bmask (va_caps a)) \<and>
     covered (cc_ccaps (va_caps a)) (cc_cmask (va_caps a)) \<and> covered (um_umask (va_umask a)) (um_mask (va_umask a))"

definition nattr_inv :: "nattr_args \<Rightarrow> bool" where
  "nattr_inv a \<longleftrightarrow>
     covered (nf_flagword (na_flags a)) (nf_mask (na_flags a)) \<and> covered (nc_ncaps (na_caps a)) (nc_cmask (na_caps a))"

lemma vattr_option_inv: "vattr_inv a \<Longrightarrow> vattr_option h opt a = Inr a' \<Longrightarrow> vattr_inv a'"
  by (cases opt)
     (auto simp: vattr_inv_def id_arg_def map_sum_Inr parseFlags_def parseCCaps_def parseBCaps_def parseUMask_def
        list_arg_Inr list2_defs parseSecure_def covered_def dest: listparser_covered [unfolded covered_def] split: if_splits)

lemma nattr_option_inv: "nattr_inv a \<Longrightarrow> nattr_option h opt a = Inr a' \<Longrightarrow> nattr_inv a'"
  by (cases opt)
     (auto simp: nattr_inv_def id_arg_def map_sum_Inr nattr_parseFlags_def parseNCaps_def
        list_arg_Inr list2_defs nattr_parseSecure_def covered_def dest: listparser_covered [unfolded covered_def] split: if_splits)

lemma run_options_inv:
  assumes "\<And>opt a a'. I a \<Longrightarrow> step opt a = Inr a' \<Longrightarrow> I a'"
  shows "I a \<Longrightarrow> run_options step opts a = Inr a' \<Longrightarrow> I a'"
  by (induction opts arbitrary: a) (auto split: sum.splits intro: assms)

text \<open>A run that keeps to its contract: covered requests, nothing after a refusal, success only without one.\<close>

definition run_contract :: "(attr_request \<Rightarrow> bool) \<Rightarrow> attr_run \<Rightarrow> bool" where
  "run_contract ok run \<longleftrightarrow>
     list_all request_ok (ar_requests run) \<and> list_all ok (butlast (ar_requests run)) \<and>
     (ar_end run = Exits EXIT_SUCCESS \<or> (\<exists>p. ar_end run = Execs p) \<longrightarrow> list_all ok (ar_requests run))"

lemma request_chain_facts:
  assumes "\<forall>(w, r) \<in> set rs. w \<longrightarrow> request_ok r" "request_chain ok rs = (ms, good)"
  shows "list_all request_ok ms \<and> list_all ok (butlast ms) \<and> (good \<longrightarrow> ms = map snd (filter fst rs) \<and> list_all ok ms) \<and>
    (\<not> good \<longrightarrow> ms \<noteq> [] \<and> \<not> ok (last ms))"
  using assms
proof (induction ok rs arbitrary: ms good rule: request_chain.induct)
  case (2 ok wanted r rs)
  then show ?case by (auto split: if_splits prod.splits)
qed simp

lemma chain_contract:
  "\<forall>(w, r) \<in> set rs. w \<longrightarrow> request_ok r \<Longrightarrow> run_contract ok (chain_run (request_chain ok rs) args)"
  using request_chain_facts [of rs ok "fst (request_chain ok rs)" "snd (request_chain ok rs)"]
  by (auto simp: run_contract_def chain_run_def EXIT_SUCCESS_def EXIT_FAILURE_def)

lemma quiet_contract: "run_contract ok (attr_exits e)" "run_contract ok (print_run out args)"
  by (auto simp: run_contract_def attr_exits_def print_run_def split: option.splits)

text \<open>Bit 0 is left over only by the table of name spaces, which has no name for it.\<close>

lemma print_names_rest:
  fixes v :: "'w::len word"
  assumes p: "print_names vals v = (ns, r)" and b: "bit r k"
  shows "bit v k"
proof -
  obtain ms :: "'w word Mapping list" where "v = fold (OR) (map map_val ms) 0 OR r" using print_names_entries [OF p] by blast
  then show "bit v k" using b by (simp add: bit_or_iff)
qed

lemma bit0_named:
  assumes "\<exists>m \<in> set vals. map_val m = 1"
  shows "\<not> bit (snd (print_names vals v)) 0"
  using assms rest_without_bit0 print_names_entries [of vals v "fst (print_names vals v)" "snd (print_names vals v)"]
  by auto

lemma tables_bit0:
  "\<exists>m \<in> set bcap_VALUES. map_val m = 1" "\<exists>m \<in> set ccap_VALUES. map_val m = 1"
  "\<exists>m \<in> set cflag_VALUES. map_val m = 1" "\<exists>m \<in> set ncap_VALUES. map_val m = 1"
  "\<exists>m \<in> set nflag_VALUES. map_val m = 1"
  by code_simp+

text \<open>
  A name space word with bit 0 is not printed at all: no entry has that bit, and the second loop ends at once.
\<close>

lemma umask_bit0_unprinted:
  assumes "bit v 0"
  shows "bitfield_items umask_VALUES v = []"
proof -
  have u: "list_all (\<lambda>m. \<not> bit (map_val m) 0) umask_VALUES" by code_simp
  have none: "searchValue d umask_VALUES = None" if "bit d 0" for d
  proof -
    have "\<forall>m \<in> set umask_VALUES. d \<noteq> map_val m" using u that by (auto simp: list_all_iff)
    then show ?thesis by (simp add: searchValue_def find_idx_None)
  qed
  have z: "low_bit 0 64 v = 0"
    using low_bit_least [of 0 0 64 v] assms by auto
  have "v \<noteq> 0" using assms by auto
  then have "lo2text umask_VALUES v = (None, v)"
    using none [OF assms] none [of 1] z by (simp add: lo2text_def text2value_def)
  moreover have "ffsull v = 0" using z by (simp add: ffsull_def)
  ultimately show ?thesis by (simp add: bitfield_items_def print_names.simps print_bits.simps)
qed

section \<open>Properties\<close>



text \<open>
  C6. Whatever the command line, \<^verbatim>\<open>vattribute\<close> and \<^verbatim>\<open>nattribute\<close> keep to one contract: every request names an
  existing identifier, has a mask that is not empty and sets only flags inside its mask; after a request that the kernel
  refuses there is no other one; and the program is started, or success is returned, only when no request was
  refused.
\<close>

theorem attribute_contract:
  "run_contract (ah_accepts h) (vattribute h opts args) \<and> run_contract (ah_accepts h) (nattribute h opts args)"
proof -
  have v: "run_contract (ah_accepts h) (vattribute h opts args)"
  proof (cases "run_options (vattr_option h) opts vattr_init")
    case (Inr a)
    have "vattr_inv a"
      by (rule run_options_inv [OF vattr_option_inv _ Inr]) (auto simp: vattr_inv_def vattr_init_def covered_def)
    then have "run_contract (ah_accepts h) (chain_run (request_chain (ah_accepts h) (vattr_requests x a)) args)"
      if "x \<noteq> VC_NOCTX" for x
      using that by (intro chain_contract) (auto simp: vattr_requests_def vattr_inv_def)
    then show ?thesis using Inr by (auto simp: vattribute_def Let_def quiet_contract split: attr_mode.splits)
  qed (simp add: vattribute_def quiet_contract)
  have "run_contract (ah_accepts h) (nattribute h opts args)"
  proof (cases "run_options (nattr_option h) opts nattr_init")
    case (Inr a)
    have "nattr_inv a"
      by (rule run_options_inv [OF nattr_option_inv _ Inr]) (auto simp: nattr_inv_def nattr_init_def covered_def)
    then have "run_contract (ah_accepts h) (chain_run (request_chain (ah_accepts h) (nattr_requests x a)) args)"
      if "x \<noteq> VC_NOCTX" for x
      using that by (intro chain_contract) (auto simp: nattr_requests_def nattr_inv_def)
    then show ?thesis using Inr by (auto simp: nattribute_def Let_def quiet_contract split: attr_mode.splits)
  qed (simp add: nattribute_def quiet_contract)
  with v show ?thesis ..
qed

text \<open>So of the name space word with the bits 0 and 1 nothing is shown.\<close>

lemma print_bitfield_bit0: "bitfield_items umask_VALUES 3 = []"
  by (rule umask_bit0_unprinted) simp

end
