(* ===== verification/FsTool.thy ===== *)
theory FsTool
  imports VserverStat Unify
begin

text \<open>
  The file tools: the walk through directories of \<^verbatim>\<open>src/fstool.c\<close> and the four programs that are linked
  with it, \<^verbatim>\<open>setattr\<close>, \<^verbatim>\<open>showattr\<close>, \<^verbatim>\<open>chxid\<close> and \<^verbatim>\<open>lsxid\<close>.
  A location is the list of the names that lead to a file, the argument of the command line first. The walk keeps the
  working directory explicitly, since it works with names relative to it. What the kernel answers about the tree is a
  parameter and does not change during the walk; the function that handles one file is another one, as in the code.
\<close>

section \<open>The tree as the kernel shows it\<close>

type_synonym loc = "cstr list"

record fstat =
  fs_isdir :: bool
  fs_dev :: u64
  fs_ino :: u64

text \<open>
  \<open>t_lstat\<close> looks at a name from outside, \<open>t_dot\<close> at the working directory; \<open>t_reads\<close> tells whether
  the directory can be read to its end and \<open>t_garbage\<close> stands for a field that was not filled.
\<close>

record tree =
  t_lstat :: "loc \<Rightarrow> fstat option"
  t_dot :: "loc \<Rightarrow> fstat option"
  t_opendir :: "loc \<Rightarrow> bool"
  t_names :: "loc \<Rightarrow> cstr list"
  t_reads :: "loc \<Rightarrow> bool"
  t_open :: "loc \<Rightarrow> bool"
  t_chdir :: "loc \<Rightarrow> bool"
  t_fchdir :: "loc \<Rightarrow> bool"
  t_garbage :: u64

record fs_args =
  do_recurse :: bool
  do_display_dot :: bool
  do_display_dir :: bool
  do_mapping :: bool
  ctx_str :: "cstr option"
  fs_ctx :: xid_t
  local_fs :: bool
  no_unified :: bool
  fs_set_mask :: u32
  fs_del_mask :: u32

text \<open>Handling one file: where it is and how it is shown; whether it worked.\<close>

type_synonym 's handler = "loc \<Rightarrow> cstr \<Rightarrow> 's \<Rightarrow> bool \<times> 's"

text \<open>The end of a walk: the number of errors and the working directory, a fatal error, or not enough fuel.\<close>

datatype 's fswalk = FsDone u64 loc 's | FsDied 's | FsNoFuel

section \<open>The walk\<close>

definition isSpecialDir :: "fs_args \<Rightarrow> cstr \<Rightarrow> bool" where
  "isSpecialDir a d \<longleftrightarrow>
     deref d = CHR ''.'' \<and> \<not> do_display_dot a \<or>
     deref d = CHR ''.'' \<and> (tl d = [] \<or> deref (tl d) = CHR ''.'' \<and> tl (tl d) = [])"

definition strip_trailing :: "cstr \<Rightarrow> cstr" where
  "strip_trailing path = rev (dropWhile (\<lambda>c. c = CHR ''/'') (rev path))"

definition CONCAT_PATHS :: "cstr \<Rightarrow> cstr \<Rightarrow> cstr" where
  "CONCAT_PATHS lhs rhs = lhs @ CHR ''/'' # rhs"

definition safeChdir :: "tree \<Rightarrow> loc \<Rightarrow> cstr \<Rightarrow> fstat \<Rightarrow> bool \<times> loc" where
  "safeChdir t cwd path exp_stat =
     (if CHR ''/'' \<in> set path then (False, cwd)
      else if \<not> t_chdir t (cwd @ [path]) then (False, cwd)
      else case t_dot t (cwd @ [path]) of
             None \<Rightarrow> (False, cwd @ [path])
           | Some now \<Rightarrow> (fs_dev exp_stat = fs_dev now \<and> fs_ino exp_stat = fs_ino now, cwd @ [path]))"

definition count_if :: "bool \<Rightarrow> u64" where
  "count_if ok = (if ok then 0 else 1)"

text \<open>The first pass over a directory: everything but directories that are to be entered.\<close>

fun files_loop ::
  "fs_args \<Rightarrow> tree \<Rightarrow> 's handler \<Rightarrow> cstr \<Rightarrow> loc \<Rightarrow> cstr list \<Rightarrow> bool \<Rightarrow> u64 \<Rightarrow> 's \<Rightarrow> bool \<times> u64 \<times> 's" where
  "files_loop a t hf path cwd [] again err s = (again, err, s)"
| "files_loop a t hf path cwd (ent # ents) again err s =
     (if isSpecialDir a ent then files_loop a t hf path cwd ents again err s
      else case t_lstat t (cwd @ [ent]) of
             None \<Rightarrow> files_loop a t hf path cwd ents again (err + 1) s
           | Some st \<Rightarrow>
               if fs_isdir st \<and> do_recurse a then files_loop a t hf path cwd ents True err s
               else (let (ok, s') = hf (cwd @ [ent]) (CONCAT_PATHS path ent) s
                     in files_loop a t hf path cwd ents again (err + count_if ok) s'))"

text \<open>
  The second pass enters directories; \<open>home\<close> is the directory that \<^verbatim>\<open>cur_dir\<close> was opened in. After a failed
  \<^verbatim>\<open>safeChdir\<close> the loop goes on from wherever the process is.
\<close>

fun dirs_loop ::
  "(cstr \<Rightarrow> loc \<Rightarrow> 's \<Rightarrow> 's fswalk) \<Rightarrow> fs_args \<Rightarrow> tree \<Rightarrow> loc \<Rightarrow> u64 \<Rightarrow> cstr \<Rightarrow> cstr list \<Rightarrow> loc \<Rightarrow> u64 \<Rightarrow> 's \<Rightarrow> 's fswalk" where
  "dirs_loop enter a t home dev path [] cwd err s = FsDone err cwd s"
| "dirs_loop enter a t home dev path (ent # ents) cwd err s =
     (if isSpecialDir a ent then dirs_loop enter a t home dev path ents cwd err s
      else case t_lstat t (cwd @ [ent]) of
             None \<Rightarrow> dirs_loop enter a t home dev path ents cwd (err + 1) s
           | Some st \<Rightarrow>
               if \<not> fs_isdir st \<or> local_fs a \<and> fs_dev st \<noteq> dev
               then dirs_loop enter a t home dev path ents cwd err s
               else
                 (let (ok, cwd') = safeChdir t cwd ent st
                  in if \<not> ok then dirs_loop enter a t home dev path ents cwd' (err + 1) s
                     else case enter (CONCAT_PATHS path ent) cwd' s of
                            FsDone e _ s' \<Rightarrow>
                              if t_fchdir t home then dirs_loop enter a t home dev path ents home (err + e) s'
                              else FsDied s'
                          | FsDied s' \<Rightarrow> FsDied s'
                          | FsNoFuel \<Rightarrow> FsNoFuel))"

primrec iterateFilesystem ::
  "nat \<Rightarrow> fs_args \<Rightarrow> tree \<Rightarrow> 's handler \<Rightarrow> cstr \<Rightarrow> loc \<Rightarrow> 's \<Rightarrow> 's fswalk" where
  "iterateFilesystem 0 a t hf path cwd s = FsNoFuel"
| "iterateFilesystem (Suc n) a t hf path cwd s =
     (if \<not> t_opendir t cwd then FsDone 1 cwd s
      else
        (let (err0, s0) =
               (case t_dot t cwd of
                  None \<Rightarrow> (0, s)
                | Some _ \<Rightarrow> (let (ok, s') = hf cwd path s in (count_if ok, s')));
             dev = (case t_dot t cwd of None \<Rightarrow> t_garbage t | Some st \<Rightarrow> fs_dev st);
             p = strip_trailing path;
             (again, err1, s1) = files_loop a t hf p cwd (t_names t cwd) False err0 s0
         in if \<not> t_reads t cwd then FsDied s1
            else if \<not> again then FsDone err1 cwd s1
            else if \<not> t_open t cwd then FsDied s1
            else dirs_loop (iterateFilesystem n a t hf) a t cwd dev p (t_names t cwd) cwd err1 s1))"

definition processFile :: "nat \<Rightarrow> fs_args \<Rightarrow> tree \<Rightarrow> 's handler \<Rightarrow> cstr \<Rightarrow> 's \<Rightarrow> 's fswalk" where
  "processFile n a t hf path s =
     (case t_lstat t [path] of
        None \<Rightarrow> FsDone 1 [] s
      | Some st \<Rightarrow>
          if fs_isdir st \<and> \<not> do_display_dir a then
            (if \<not> t_open t [] \<or> \<not> t_chdir t [path] then FsDied s
             else case iterateFilesystem n a t hf path [path] s of
                    FsDone e _ s' \<Rightarrow> if t_fchdir t [] then FsDone e [] s' else FsDied s'
                  | r \<Rightarrow> r)
          else (let (ok, s') = hf [path] path s in FsDone (count_if ok) [] s'))"

fun processFiles :: "nat \<Rightarrow> fs_args \<Rightarrow> tree \<Rightarrow> 's handler \<Rightarrow> cstr list \<Rightarrow> u64 \<Rightarrow> 's \<Rightarrow> 's fswalk" where
  "processFiles n a t hf [] err s = FsDone err [] s"
| "processFiles n a t hf (p # ps) err s =
     (case processFile n a t hf p s of
        FsDone e _ s' \<Rightarrow> processFiles n a t hf ps (err + e) s'
      | r \<Rightarrow> r)"

section \<open>The files of a tree that does not fail\<close>

text \<open>A tree whose answers agree: nothing fails and a directory is the same from outside and inside.\<close>

definition dots :: "cstr \<Rightarrow> bool" where
  "dots e \<longleftrightarrow> e = ''.'' \<or> e = ''..''"

lemma dots_special: "dots e \<Longrightarrow> isSpecialDir a e"
  by (auto simp: dots_def isSpecialDir_def)

definition calm :: "tree \<Rightarrow> bool" where
  "calm t \<longleftrightarrow>
     (\<forall>l. t_opendir t l \<and> t_reads t l \<and> t_open t l \<and> t_chdir t l \<and> t_fchdir t l \<and> t_dot t l \<noteq> None \<and>
        distinct (t_names t l) \<and>
        (\<forall>e \<in> set (t_names t l). e \<noteq> [] \<and> CHR ''/'' \<notin> set e \<and>
           (\<exists>st. t_lstat t (l @ [e]) = Some st \<and> (fs_isdir st \<and> \<not> dots e \<longrightarrow> t_dot t (l @ [e]) = Some st))))"

text \<open>Directories lie less deep than what they hold; so a tree has no loops.\<close>

definition tree_depth :: "tree \<Rightarrow> (loc \<Rightarrow> nat) \<Rightarrow> bool" where
  "tree_depth t h \<longleftrightarrow>
     (\<forall>l e st. e \<in> set (t_names t l) \<and> \<not> dots e \<and> t_lstat t (l @ [e]) = Some st \<and> fs_isdir st \<longrightarrow> h (l @ [e]) < h l)"

definition is_dir :: "tree \<Rightarrow> loc \<Rightarrow> bool" where
  "is_dir t l \<longleftrightarrow> (case t_lstat t l of None \<Rightarrow> False | Some st \<Rightarrow> fs_isdir st)"

definition dev_of :: "tree \<Rightarrow> loc \<Rightarrow> u64" where
  "dev_of t l = (case t_dot t l of None \<Rightarrow> t_garbage t | Some st \<Rightarrow> fs_dev st)"

text \<open>Entries that the first pass handles, and those that the second pass enters.\<close>

definition handles :: "fs_args \<Rightarrow> tree \<Rightarrow> loc \<Rightarrow> cstr \<Rightarrow> bool" where
  "handles a t d e \<longleftrightarrow> \<not> isSpecialDir a e \<and> \<not> (is_dir t (d @ [e]) \<and> do_recurse a)"

definition enters :: "fs_args \<Rightarrow> tree \<Rightarrow> loc \<Rightarrow> cstr \<Rightarrow> bool" where
  "enters a t d e \<longleftrightarrow>
     \<not> isSpecialDir a e \<and> is_dir t (d @ [e]) \<and> do_recurse a \<and> \<not> (local_fs a \<and> dev_of t (d @ [e]) \<noteq> dev_of t d)"

primrec visits :: "nat \<Rightarrow> fs_args \<Rightarrow> tree \<Rightarrow> cstr \<Rightarrow> loc \<Rightarrow> (loc \<times> cstr) list" where
  "visits 0 a t path d = []"
| "visits (Suc n) a t path d =
     (let p = strip_trailing path
      in (d, path) # map (\<lambda>e. (d @ [e], CONCAT_PATHS p e)) (filter (handles a t d) (t_names t d)) @
         concat (map (\<lambda>e. visits n a t (CONCAT_PATHS p e) (d @ [e])) (filter (enters a t d) (t_names t d))))"

fun run_all :: "'s handler \<Rightarrow> (loc \<times> cstr) list \<Rightarrow> 's \<Rightarrow> u64 \<times> 's" where
  "run_all hf [] s = (0, s)"
| "run_all hf ((l, d) # vs) s =
     (let (ok, s1) = hf l d s; (e, s2) = run_all hf vs s1 in (count_if ok + e, s2))"

lemma run_all_append:
  "run_all hf (xs @ ys) s =
     (let (e1, s1) = run_all hf xs s; (e2, s2) = run_all hf ys s1 in (e1 + e2, s2))"
  by (induction hf xs s rule: run_all.induct) (auto simp: Let_def split: prod.splits)

lemma calm_facts:
  assumes "calm t"
  shows "t_opendir t l" "t_reads t l" "t_open t l" "t_chdir t l" "t_fchdir t l" "\<exists>st. t_dot t l = Some st" "distinct (t_names t l)"
  using assms by (auto simp: calm_def)

lemma calm_entry:
  assumes "calm t" "e \<in> set (t_names t l)"
  shows "e \<noteq> []" "CHR ''/'' \<notin> set e"
    "\<exists>st. t_lstat t (l @ [e]) = Some st \<and> (fs_isdir st \<and> \<not> dots e \<longrightarrow> t_dot t (l @ [e]) = Some st)"
  using assms by (auto simp: calm_def)

lemma calm_files_loop:
  "calm t \<Longrightarrow> set ents \<subseteq> set (t_names t d) \<Longrightarrow>
   files_loop a t hf p d ents again err s =
     (let (e, s') = run_all hf (map (\<lambda>e. (d @ [e], CONCAT_PATHS p e)) (filter (handles a t d) ents)) s
      in (again \<or> (\<exists>e \<in> set ents. \<not> isSpecialDir a e \<and> is_dir t (d @ [e]) \<and> do_recurse a), err + e, s'))"
proof (induction ents arbitrary: again err s)
  case (Cons e ents)
  obtain st where st: "t_lstat t (d @ [e]) = Some st" using calm_entry(3) [OF Cons(2), of e d] Cons(3) by auto
  then have "is_dir t (d @ [e]) = fs_isdir st" by (simp add: is_dir_def)
  then show ?case using Cons st by (auto simp: handles_def Let_def algebra_simps split: prod.splits)
qed simp

lemma calm_dirs_loop:
  assumes c: "calm t" and "set ents \<subseteq> set (t_names t d)" "do_recurse a"
    and "\<And>e s. e \<in> set ents \<Longrightarrow> enters a t d e \<Longrightarrow>
      enter (CONCAT_PATHS p e) (d @ [e]) s =
        (let (k, s') = run_all hf (f e) s in FsDone k (d @ [e]) s')"
  shows "dirs_loop enter a t d (dev_of t d) p ents d err s =
    (let (k, s') = run_all hf (concat (map f (filter (enters a t d) ents))) s in FsDone (err + k) d s')"
  using assms(2,4)
proof (induction ents arbitrary: err s)
  case (Cons e ents)
  have e: "e \<in> set (t_names t d)" using Cons(2) by simp
  obtain st where st: "t_lstat t (d @ [e]) = Some st" "fs_isdir st \<and> \<not> dots e \<longrightarrow> t_dot t (d @ [e]) = Some st"
    using calm_entry(3) [OF c e] by auto
  have dir: "is_dir t (d @ [e]) = fs_isdir st" using st by (simp add: is_dir_def)
  have dev: "fs_isdir st \<Longrightarrow> \<not> isSpecialDir a e \<Longrightarrow> dev_of t (d @ [e]) = fs_dev st"
    using st dots_special by (auto simp: dev_of_def)
  have rest: "dirs_loop enter a t d (dev_of t d) p ents d err' s1 =
      (let (k, s') = run_all hf (concat (map f (filter (enters a t d) ents))) s1 in FsDone (err' + k) d s')" for err' s1
    using Cons by simp
  show ?case
  proof (cases "enters a t d e")
    case True
    then have "\<not> isSpecialDir a e" "fs_isdir st" "\<not> (local_fs a \<and> fs_dev st \<noteq> dev_of t d)"
      using dir dev by (auto simp: enters_def)
    moreover from this have "\<not> dots e" using dots_special by blast
    then have "safeChdir t d e st = (True, d @ [e])"
      using calm_entry(2) [OF c e] calm_facts(4) [OF c] st \<open>fs_isdir st\<close> by (simp add: safeChdir_def)
    ultimately show ?thesis
      using st True Cons(3) [of e s] rest calm_facts(5) [OF c, of d]
      by (auto simp: Let_def run_all_append algebra_simps split: prod.splits)
  next
    case False
    then have "isSpecialDir a e \<or> \<not> fs_isdir st \<or> local_fs a \<and> fs_dev st \<noteq> dev_of t d"
      using dir dev assms(3) by (auto simp: enters_def)
    then show ?thesis using st rest False by auto
  qed
qed simp

lemma deeper:
  assumes "tree_depth t h" "e \<in> set (t_names t d)" "enters a t d e"
  shows "h (d @ [e]) < h d"
  using assms dots_special [of e a] by (auto simp: tree_depth_def enters_def is_dir_def split: option.splits)

lemma calm_iterate:
  assumes c: "calm t" and h: "tree_depth t h"
  shows "h d < n \<Longrightarrow>
    iterateFilesystem n a t hf path d s = (let (e, s') = run_all hf (visits n a t path d) s in FsDone e d s')"
proof (induction n arbitrary: path d s)
  case (Suc n)
  let ?p = "strip_trailing path" and ?ns = "t_names t d"
  obtain st where st: "t_dot t d = Some st" using calm_facts(6) [OF c] by blast
  have dev: "dev_of t d = fs_dev st" using st by (simp add: dev_of_def)
  have IH: "iterateFilesystem n a t hf (CONCAT_PATHS ?p e) (d @ [e]) s =
      (let (k, s') = run_all hf (visits n a t (CONCAT_PATHS ?p e) (d @ [e])) s in FsDone k (d @ [e]) s')"
    if "e \<in> set ?ns" "enters a t d e" for e s
  proof (rule Suc.IH)
    show "h (d @ [e]) < n" using deeper [OF h that] Suc.prems by simp
  qed
  show ?case
  proof (cases "do_recurse a \<and> (\<exists>e \<in> set ?ns. \<not> isSpecialDir a e \<and> is_dir t (d @ [e]))")
    case True
    then show ?thesis
      using st dev calm_facts(1,2,3) [OF c, of d]
        calm_dirs_loop [of t ?ns d a _ ?p hf "\<lambda>e. visits n a t (CONCAT_PATHS ?p e) (d @ [e])", OF c subset_refl _ IH]
      by (auto simp: Let_def calm_files_loop [OF c] run_all_append algebra_simps split: prod.splits)
  next
    case False
    then have "filter (enters a t d) ?ns = []" by (auto simp: enters_def filter_empty_conv)
    then show ?thesis
      using False st calm_facts(1,2) [OF c, of d]
      by (auto simp: Let_def calm_files_loop [OF c] run_all_append algebra_simps split: prod.splits)
  qed
qed simp

text \<open>The directories that are entered, and what is shown for a location.\<close>

inductive in_tree :: "fs_args \<Rightarrow> tree \<Rightarrow> loc \<Rightarrow> loc \<Rightarrow> bool" for a t r where
  root: "in_tree a t r r"
| step: "in_tree a t r d \<Longrightarrow> e \<in> set (t_names t d) \<Longrightarrow> enters a t d e \<Longrightarrow> in_tree a t r (d @ [e])"

definition in_scope :: "fs_args \<Rightarrow> tree \<Rightarrow> loc \<Rightarrow> loc \<Rightarrow> bool" where
  "in_scope a t r l \<longleftrightarrow>
     in_tree a t r l \<or> (\<exists>d e. in_tree a t r d \<and> e \<in> set (t_names t d) \<and> handles a t d e \<and> l = d @ [e])"

definition shown :: "cstr \<Rightarrow> loc \<Rightarrow> cstr" where
  "shown path es = (if es = [] then path else strip_trailing path @ concat (map ((#) CHR ''/'') es))"

lemma in_tree_trans: "in_tree a t d l \<Longrightarrow> in_tree a t r d \<Longrightarrow> in_tree a t r l"
  by (induction rule: in_tree.induct) (auto intro: in_tree.step)

lemma in_tree_below: "in_tree a t r l \<Longrightarrow> \<exists>es. l = r @ es"
  by (induction rule: in_tree.induct) auto

lemma in_scope_below: "in_scope a t r l \<Longrightarrow> \<exists>es. l = r @ es"
  by (auto simp: in_scope_def dest!: in_tree_below)

lemma in_tree_first: "in_tree a t r l \<Longrightarrow> l = r \<or> (\<exists>e. e \<in> set (t_names t r) \<and> enters a t r e \<and> in_tree a t (r @ [e]) l)"
proof (induction rule: in_tree.induct)
  case (step d e)
  then show ?case using in_tree.root in_tree.step by blast
qed simp

lemma in_scope_first:
  "in_scope a t r l \<longleftrightarrow>
     l = r \<or> (\<exists>e \<in> set (t_names t r). handles a t r e \<and> l = r @ [e]) \<or>
     (\<exists>e \<in> set (t_names t r). enters a t r e \<and> in_scope a t (r @ [e]) l)" (is "_ = ?R")
proof
  assume "in_scope a t r l"
  then show ?R unfolding in_scope_def using in_tree_first by blast
next
  have down: "in_tree a t r (r @ [e])" if "e \<in> set (t_names t r)" "enters a t r e" for e
    using that by (intro in_tree.step in_tree.root)
  assume ?R
  then show "in_scope a t r l"
    unfolding in_scope_def using in_tree_trans [OF _ down] in_tree.root by blast
qed

lemma visits_fst:
  "fst ` set (visits (Suc n) a t path d) =
     {d} \<union> (\<lambda>e. d @ [e]) ` {e \<in> set (t_names t d). handles a t d e} \<union>
     (\<Union>e \<in> {e \<in> set (t_names t d). enters a t d e}. fst ` set (visits n a t (CONCAT_PATHS (strip_trailing path) e) (d @ [e])))"
  by (simp add: Let_def image_Un image_UN image_image)

declare visits.simps(2) [simp del]

lemma visits_locs:
  "tree_depth t h \<Longrightarrow> h d < n \<Longrightarrow> l \<in> fst ` set (visits n a t path d) \<longleftrightarrow> in_scope a t d l"
proof (induction n arbitrary: path d)
  case (Suc n)
  have "l \<in> fst ` set (visits n a t p (d @ [e])) \<longleftrightarrow> in_scope a t (d @ [e]) l"
    if "e \<in> set (t_names t d)" "enters a t d e" for e p
    using deeper [OF Suc.prems(1) that] Suc.prems by (intro Suc.IH) auto
  then show ?case unfolding visits_fst in_scope_first [of a t d] by auto
qed simp

lemma strip_trailing_entry: "e \<noteq> [] \<Longrightarrow> CHR ''/'' \<notin> set e \<Longrightarrow> strip_trailing (p @ CHR ''/'' # e) = p @ CHR ''/'' # e"
  by (cases e rule: rev_cases) (auto simp: strip_trailing_def)

lemma visits_shown:
  "calm t \<Longrightarrow> (l, v) \<in> set (visits n a t path d) \<Longrightarrow> \<exists>es. l = d @ es \<and> v = shown path es"
proof (induction n arbitrary: path d)
  case (Suc n)
  consider "l = d" "v = path"
    | e where "e \<in> set (t_names t d)" "l = d @ [e]" "v = CONCAT_PATHS (strip_trailing path) e"
    | e where "e \<in> set (t_names t d)" "(l, v) \<in> set (visits n a t (CONCAT_PATHS (strip_trailing path) e) (d @ [e]))"
    using Suc.prems(2) by (auto simp: visits.simps(2) Let_def)
  then show ?case
  proof cases
    case 1
    then show ?thesis by (simp add: shown_def)
  next
    case 2
    then show ?thesis by (auto simp: shown_def CONCAT_PATHS_def)
  next
    case (3 e)
    then obtain es where "l = (d @ [e]) @ es" "v = shown (CONCAT_PATHS (strip_trailing path) e) es"
      using Suc by blast
    then show ?thesis
      using strip_trailing_entry [OF calm_entry(1,2) [OF Suc.prems(1) 3(1)], of "strip_trailing path"]
      by (intro exI [of _ "e # es"]) (auto simp: shown_def CONCAT_PATHS_def)
  qed
qed simp

lemma visits_below: "l \<in> fst ` set (visits n a t path d) \<Longrightarrow> \<exists>es. l = d @ es"
proof (induction n arbitrary: path d)
  case (Suc n)
  then show ?case unfolding visits_fst by fastforce
qed simp

text \<open>No location is handled twice.\<close>

lemma distinct_concat_keyed:
  assumes "distinct xs" "\<And>x. x \<in> set xs \<Longrightarrow> distinct (f x)"
    and "\<And>x y. x \<in> set xs \<Longrightarrow> y \<in> set xs \<Longrightarrow> x \<noteq> y \<Longrightarrow> set (f x) \<inter> set (f y) = {}"
  shows "distinct (concat (map f xs))"
  using assms
proof (induction xs)
  case (Cons x xs)
  have "distinct (concat (map f xs))" using Cons by simp
  moreover have "set (f x) \<inter> set (f y) = {}" if "y \<in> set xs" for y
    using Cons.prems(1) Cons.prems(3) [of x y] that by auto
  ultimately show ?case using Cons.prems(2) [of x] by auto
qed simp

lemma distinct_visits: "calm t \<Longrightarrow> distinct (map fst (visits n a t path d))"
proof (induction n arbitrary: path d)
  case (Suc n)
  let ?ns = "t_names t d" and ?v = "\<lambda>e. map fst (visits n a t (CONCAT_PATHS (strip_trailing path) e) (d @ [e]))"
  have ns: "distinct ?ns" using calm_facts(7) [OF Suc.prems] .
  have below: "\<exists>es. l = d @ e # es" if "l \<in> set (?v e)" for l e
    using visits_below [of l n a t "CONCAT_PATHS (strip_trailing path) e" "d @ [e]"] that by auto
  have subs: "distinct (concat (map ?v (filter (enters a t d) ?ns)))"
  proof (rule distinct_concat_keyed)
    show "set (?v e) \<inter> set (?v e') = {}" if "e \<noteq> e'" for e e'
    proof (rule equals0I)
      fix l assume "l \<in> set (?v e) \<inter> set (?v e')"
      then have "\<exists>es. l = d @ e # es" "\<exists>es. l = d @ e' # es" using below by blast+
      then show False using that by auto
    qed
  qed (use ns Suc in simp_all)
  have files: "distinct (map (\<lambda>e. d @ [e]) (filter (handles a t d) ?ns))"
    using ns by (simp add: distinct_map inj_on_def)
  have "d @ [e] \<notin> set (?v e')" if "handles a t d e" "enters a t d e'" for e e'
  proof
    assume "d @ [e] \<in> set (?v e')"
    then have "e = e'" using below [of "d @ [e]" e'] by auto
    then show False using that by (auto simp: handles_def enters_def)
  qed
  then have "set (map (\<lambda>e. d @ [e]) (filter (handles a t d) ?ns)) \<inter> set (concat (map ?v (filter (enters a t d) ?ns))) = {}"
    by auto
  moreover have "d \<notin> set (concat (map ?v (filter (enters a t d) ?ns)))" using below by fastforce
  ultimately show ?case using subs files by (auto simp: visits.simps(2) Let_def o_def map_concat)
qed simp

section \<open>What every walk keeps, also when calls fail\<close>

text \<open>
  Where the process works and what it handles, whatever the kernel answers. The names on its way are no \<^verbatim>\<open>.\<close>
  or \<^verbatim>\<open>..\<close> and have no slash; a directory is listed only when it was found to be the one that was looked at before.
  (A directory that fails this test can be on the way to others, since the process stays in it.)
\<close>

definition same_dir :: "tree \<Rightarrow> loc \<Rightarrow> bool" where
  "same_dir t l \<longleftrightarrow>
     (\<exists>st now. t_lstat t l = Some st \<and> fs_isdir st \<and> t_dot t l = Some now \<and> fs_dev st = fs_dev now \<and> fs_ino st = fs_ino now)"

definition work_dir :: "cstr list \<Rightarrow> loc \<Rightarrow> bool" where
  "work_dir files d \<longleftrightarrow> (\<exists>p es. d = p # es \<and> p \<in> set files \<and> (\<forall>e \<in> set es. \<not> dots e \<and> CHR ''/'' \<notin> set e))"

definition listed_dir :: "tree \<Rightarrow> cstr list \<Rightarrow> loc \<Rightarrow> bool" where
  "listed_dir t files d \<longleftrightarrow> work_dir files d \<and> (length d > 1 \<longrightarrow> same_dir t d)"

definition placed :: "tree \<Rightarrow> cstr list \<Rightarrow> loc \<Rightarrow> bool" where
  "placed t files l \<longleftrightarrow> listed_dir t files l \<or> (\<exists>d e. listed_dir t files d \<and> \<not> dots e \<and> l = d @ [e])"

lemma work_dir_down: "work_dir files d \<Longrightarrow> \<not> dots e \<Longrightarrow> CHR ''/'' \<notin> set e \<Longrightarrow> work_dir files (d @ [e])"
  by (auto simp: work_dir_def)

lemma listed_argument: "p \<in> set files \<Longrightarrow> listed_dir t files [p]"
  by (auto simp: listed_dir_def work_dir_def)

lemma placed_rules:
  "listed_dir t files c \<Longrightarrow> placed t files c \<and> work_dir files c"
  "listed_dir t files c \<Longrightarrow> \<not> dots e \<Longrightarrow> placed t files (c @ [e])"
  "work_dir files c \<Longrightarrow> \<not> dots e \<Longrightarrow> CHR ''/'' \<notin> set e \<Longrightarrow> same_dir t (c @ [e]) \<Longrightarrow> listed_dir t files (c @ [e])"
  unfolding placed_def listed_dir_def using work_dir_down by blast+

text \<open>
  Two ways to handle files that cannot be told apart: related states stay related, and both succeed or fail
  together, at every location that is all right. Whatever the tree answers, the walks then end alike. \<open>okd\<close> holds
  of the directories the process is in, \<open>okh\<close> of those that it lists and \<open>okl\<close> of what it handles.
\<close>

fun walk_rel :: "('s \<Rightarrow> 'u \<Rightarrow> bool) \<Rightarrow> (loc \<Rightarrow> bool) \<Rightarrow> 's fswalk \<Rightarrow> 'u fswalk \<Rightarrow> bool" where
  "walk_rel R okl (FsDone e c s) (FsDone e' c' u) \<longleftrightarrow> e = e' \<and> c = c' \<and> okl c \<and> R s u"
| "walk_rel R okl (FsDied s) (FsDied u) \<longleftrightarrow> R s u"
| "walk_rel R okl FsNoFuel FsNoFuel \<longleftrightarrow> True"
| "walk_rel R okl _ _ \<longleftrightarrow> False"

lemma walk_rel_cases:
  "walk_rel R okl x y \<longleftrightarrow>
     (\<exists>e c s u. x = FsDone e c s \<and> y = FsDone e c u \<and> okl c \<and> R s u) \<or>
     (\<exists>s u. x = FsDied s \<and> y = FsDied u \<and> R s u) \<or> x = FsNoFuel \<and> y = FsNoFuel"
  by (cases x; cases y) auto

locale handler_sim =
  fixes hf :: "'s handler" and hg :: "'u handler" and R :: "'s \<Rightarrow> 'u \<Rightarrow> bool"
    and okl okd okh :: "loc \<Rightarrow> bool" and t :: tree
  assumes sim: "R s u \<Longrightarrow> okl l \<Longrightarrow> fst (hf l d s) = fst (hg l d u) \<and> R (snd (hf l d s)) (snd (hg l d u))"
    and listed: "okh c \<Longrightarrow> okl c \<and> okd c"
    and inside: "okh c \<Longrightarrow> \<not> dots e \<Longrightarrow> okl (c @ [e])"
    and down: "okd c \<Longrightarrow> \<not> dots e \<Longrightarrow> CHR ''/'' \<notin> set e \<Longrightarrow> okd (c @ [e])"
    and checked: "okd c \<Longrightarrow> \<not> dots e \<Longrightarrow> CHR ''/'' \<notin> set e \<Longrightarrow> same_dir t (c @ [e]) \<Longrightarrow> okh (c @ [e])"
begin

lemma sim_step:
  assumes "R s u" "okl l"
  obtains k s' u' where "hf l d s = (k, s')" "hg l d u = (k, u')" "R s' u'"
proof -
  obtain k s' where h: "hf l d s = (k, s')" by fastforce
  obtain k' u' where g: "hg l d u = (k', u')" by fastforce
  show thesis by (rule that [of k s' u']) (use sim [OF assms, of d] h g in auto)
qed

lemma files:
  assumes "R s u" "okh cwd"
  shows "\<exists>again' err' s' u'. files_loop a t hf p cwd ents again err s = (again', err', s') \<and>
    files_loop a t hg p cwd ents again err u = (again', err', u') \<and> R s' u'"
  using assms(1)
proof (induction ents arbitrary: again err s u)
  case (Cons e ents)
  show ?case
  proof (cases "isSpecialDir a e")
    case True
    then show ?thesis using Cons by simp
  next
    case False
    then have "okl (cwd @ [e])" using inside [OF assms(2)] dots_special by blast
    then obtain k s' u' where "hf (cwd @ [e]) (CONCAT_PATHS p e) s = (k, s')" "hg (cwd @ [e]) (CONCAT_PATHS p e) u = (k, u')"
      "R s' u'" using sim_step [OF Cons.prems] by blast
    then show ?thesis using Cons by (auto split: option.splits)
  qed
qed simp

lemma dirs:
  assumes enter: "\<And>p c s u. R s u \<Longrightarrow> okh c \<Longrightarrow> walk_rel R okd (enter p c s) (enter' p c u)"
    and "R s u" "okd home" "okd cwd"
  shows "walk_rel R okd (dirs_loop enter a t home dev p ents cwd err s) (dirs_loop enter' a t home dev p ents cwd err u)"
  using assms(2,4)
proof (induction ents arbitrary: cwd err s u)
  case (Cons e ents)
  have ch: "okd (snd (safeChdir t cwd e st))" if "\<not> dots e" for st
    using Cons.prems(2) down that by (auto simp: safeChdir_def split: option.splits)
  have good: "okh (snd (safeChdir t cwd e st))"
    if "\<not> dots e" "t_lstat t (cwd @ [e]) = Some st" "fs_isdir st" "fst (safeChdir t cwd e st)" for st
    using checked [OF Cons.prems(2)] that by (auto simp: safeChdir_def same_dir_def split: option.splits if_splits)
  show ?case
  proof (cases "isSpecialDir a e \<or> t_lstat t (cwd @ [e]) = None")
    case True
    then show ?thesis using Cons by auto
  next
    case False
    then obtain st where st: "t_lstat t (cwd @ [e]) = Some st" by auto
    obtain ok c where sc: "safeChdir t cwd e st = (ok, c)" by fastforce
    have nd: "\<not> dots e" using False dots_special by blast
    then have c: "okd c" using ch [of st] sc by simp
    show ?thesis
    proof (cases "\<not> fs_isdir st \<or> local_fs a \<and> fs_dev st \<noteq> dev \<or> \<not> ok")
      case True
      then show ?thesis using Cons False st sc c by auto
    next
      case go: False
      then have "okh c" using good [OF nd st] sc by simp
      then have "walk_rel R okd (enter (CONCAT_PATHS p e) c s) (enter' (CONCAT_PATHS p e) c u)"
        by (rule enter [OF Cons.prems(1)])
      then consider k d s' u' where "enter (CONCAT_PATHS p e) c s = FsDone k d s'" "enter' (CONCAT_PATHS p e) c u = FsDone k d u'" "R s' u'"
        | s' u' where "enter (CONCAT_PATHS p e) c s = FsDied s'" "enter' (CONCAT_PATHS p e) c u = FsDied u'" "R s' u'"
        | "enter (CONCAT_PATHS p e) c s = FsNoFuel" "enter' (CONCAT_PATHS p e) c u = FsNoFuel"
        unfolding walk_rel_cases by blast
      then show ?thesis
        using False st go sc Cons.IH assms(3) by cases auto
    qed
  qed
qed simp

lemma walk: "R s u \<Longrightarrow> okh cwd \<Longrightarrow> walk_rel R okd (iterateFilesystem n a t hf p cwd s) (iterateFilesystem n a t hg p cwd u)"
proof (induction n arbitrary: p cwd s u)
  case (Suc n)
  let ?p = "strip_trailing p"
  obtain e0 s0 u0 where first:
    "(case t_dot t cwd of None \<Rightarrow> (0, s) | Some _ \<Rightarrow> (let (ok, s') = hf cwd p s in (count_if ok, s'))) = (e0, s0)"
    "(case t_dot t cwd of None \<Rightarrow> (0, u) | Some _ \<Rightarrow> (let (ok, s') = hg cwd p u in (count_if ok, s'))) = (e0, u0)"
    "R s0 u0"
  proof (cases "t_dot t cwd")
    case (Some st)
    obtain k s' u' where "hf cwd p s = (k, s')" "hg cwd p u = (k, u')" "R s' u'"
      using sim_step [OF Suc.prems(1)] listed [OF Suc.prems(2)] by blast
    then show thesis using that Some by simp
  qed (use that Suc.prems(1) in simp)
  obtain again e1 s1 u1 where pass: "files_loop a t hf ?p cwd (t_names t cwd) False e0 s0 = (again, e1, s1)"
    "files_loop a t hg ?p cwd (t_names t cwd) False e0 u0 = (again, e1, u1)" "R s1 u1"
    using files [OF first(3) Suc.prems(2)] by blast
  have "walk_rel R okd (dirs_loop (iterateFilesystem n a t hf) a t cwd dev ?p (t_names t cwd) cwd e1 s1)
      (dirs_loop (iterateFilesystem n a t hg) a t cwd dev ?p (t_names t cwd) cwd e1 u1)" for dev
    using listed [OF Suc.prems(2)] by (intro dirs [OF Suc.IH pass(3)]) auto
  then show ?case using Suc.prems listed [OF Suc.prems(2)] first pass by (simp add: Let_def)
qed simp

lemma process:
  assumes "R s u" and p: "okh [p]"
  shows "walk_rel R (\<lambda>c. c = []) (processFile n a t hf p s) (processFile n a t hg p u)"
proof -
  obtain k s' u' where h: "hf [p] p s = (k, s')" "hg [p] p u = (k, u')" "R s' u'"
    using sim_step [OF assms(1)] listed [OF p] by blast
  show ?thesis
    using walk [OF assms(1) p, of n a p] h assms
    by (cases "t_fchdir t []") (auto simp: processFile_def walk_rel_cases split: option.splits)
qed

lemma process_all:
  "R s u \<Longrightarrow> \<forall>p \<in> set ps. okh [p] \<Longrightarrow>
   walk_rel R (\<lambda>c. c = []) (processFiles n a t hf ps err s) (processFiles n a t hg ps err u)"
proof (induction ps arbitrary: err s u)
  case (Cons p ps)
  have "okh [p]" using Cons.prems(2) by simp
  then show ?case
    using process [OF Cons.prems(1), of p n a] Cons.IH Cons.prems(2)
    by (auto simp: walk_rel_cases [of _ _ "processFile n a t hf p s"])
qed simp

end

end
