(* ===== verification/FsTools.thy ===== *)
theory FsTools
  imports FsTool
begin

text \<open>
  The programs that use the walk of theory \<open>FsTool\<close>: their options (\<^verbatim>\<open>main\<close> of \<^verbatim>\<open>src/fstool.c\<close>),
  \<^verbatim>\<open>src/setattr.c\<close>, \<^verbatim>\<open>src/chxid.c\<close>, \<^verbatim>\<open>src/showattr.c\<close> and \<^verbatim>\<open>src/lsxid.c\<close>. The requests to the kernel and the
  output are the state that the handlers change; the attributes of files are parameters.
\<close>

section \<open>Options\<close>

definition VC_IATTR_ADMIN :: u32 where "VC_IATTR_ADMIN = 0x00000001"
definition VC_IATTR_WATCH :: u32 where "VC_IATTR_WATCH = 0x00000002"
definition VC_IATTR_HIDE :: u32 where "VC_IATTR_HIDE = 0x00000004"
definition VC_IATTR_WRITE :: u32 where "VC_IATTR_WRITE = 0x00000008"
definition VC_IATTR_BARRIER :: u32 where "VC_IATTR_BARRIER = 0x00010000"
definition VC_IATTR_COW :: u32 where "VC_IATTR_COW = 0x00080000"

datatype fs_attr = A_IMMU | A_IMMUX | A_IMMUTABLE | A_ADMIN | A_WATCH | A_HIDE | A_BARRIER | A_WRITE | A_COW

fun attr_bits :: "fs_attr \<Rightarrow> u32" where
  "attr_bits A_IMMU = VC_IATTR_IMMUTABLE OR VC_IATTR_IUNLINK"
| "attr_bits A_IMMUX = VC_IATTR_IUNLINK"
| "attr_bits A_IMMUTABLE = VC_IATTR_IMMUTABLE"
| "attr_bits A_ADMIN = VC_IATTR_ADMIN"
| "attr_bits A_WATCH = VC_IATTR_WATCH"
| "attr_bits A_HIDE = VC_IATTR_HIDE"
| "attr_bits A_BARRIER = VC_IATTR_BARRIER"
| "attr_bits A_WRITE = VC_IATTR_WRITE"
| "attr_bits A_COW = VC_IATTR_COW"

datatype fs_opt =
    FoHelp | FoVersion | FoSetAttr fs_attr | FoUnsetAttr fs_attr | FoFlags bool cstr | FoRecurse | FoAll | FoDirs
  | FoNoMapping | FoCtx cstr | FoLocal | FoNoUnified | FoUnknown

definition fs_init :: fs_args where
  "fs_init =
     \<lparr>do_recurse = False, do_display_dot = False, do_display_dir = False, do_mapping = True, ctx_str = None,
      fs_ctx = VC_NOCTX, local_fs = False, no_unified = False, fs_set_mask = 0, fs_del_mask = 0\<rparr>"

definition fs_exit_code :: int where
  "fs_exit_code = 1"

text \<open>\<open>stale\<close>: some earlier call has left an error in \<^verbatim>\<open>errno\<close>.\<close>

fun fs_option :: "bool \<Rightarrow> fs_opt \<Rightarrow> fs_args \<Rightarrow> int + fs_args" where
  "fs_option stale FoHelp a = Inl 0"
| "fs_option stale FoVersion a = Inl 0"
| "fs_option stale (FoSetAttr x) a = Inr (a\<lparr>fs_set_mask := fs_set_mask a OR attr_bits x\<rparr>)"
| "fs_option stale (FoUnsetAttr x) a = Inr (a\<lparr>fs_del_mask := fs_del_mask a OR attr_bits x\<rparr>)"
| "fs_option stale (FoFlags set_them arg) a =
     (let (flags, endptr, _) = strtoul 0 arg
      in if flags = 0 \<and> stale \<or> endptr \<noteq> [] then Inl fs_exit_code
         else if set_them then Inr (a\<lparr>fs_set_mask := fs_set_mask a OR word_of_int flags\<rparr>)
         else Inr (a\<lparr>fs_del_mask := fs_del_mask a OR word_of_int flags\<rparr>))"
| "fs_option stale FoRecurse a = Inr (a\<lparr>do_recurse := True\<rparr>)"
| "fs_option stale FoAll a = Inr (a\<lparr>do_display_dot := True\<rparr>)"
| "fs_option stale FoDirs a = Inr (a\<lparr>do_display_dir := True\<rparr>)"
| "fs_option stale FoNoMapping a = Inr (a\<lparr>do_mapping := False\<rparr>)"
| "fs_option stale (FoCtx s) a = Inr (a\<lparr>ctx_str := Some s\<rparr>)"
| "fs_option stale FoLocal a = Inr (a\<lparr>local_fs := True\<rparr>)"
| "fs_option stale FoNoUnified a = Inr (a\<lparr>no_unified := True\<rparr>)"
| "fs_option stale FoUnknown a = Inl fs_exit_code"

fun fs_options :: "bool \<Rightarrow> fs_opt list \<Rightarrow> fs_args \<Rightarrow> int + fs_args" where
  "fs_options stale [] a = Inr a"
| "fs_options stale (opt # opts) a =
     (case fs_option stale opt a of Inl e \<Rightarrow> Inl e | Inr a' \<Rightarrow> fs_options stale opts a')"

text \<open>
  The program: \<open>fixup\<close> is its \<^verbatim>\<open>fixupParams\<close> for the number of files and \<open>hf\<close> its \<^verbatim>\<open>handleFile\<close>. The
  result is the exit code and the state; \<open>None\<close> when the fuel ran out.
\<close>

definition fstool ::
  "nat \<Rightarrow> tree \<Rightarrow> (fs_args \<Rightarrow> 's handler) \<Rightarrow> (fs_args \<Rightarrow> cstr list \<Rightarrow> int + fs_args) \<Rightarrow> bool \<Rightarrow> fs_opt list \<Rightarrow> cstr list \<Rightarrow> 's \<Rightarrow>
   (int \<times> 's) option" where
  "fstool n t hf fixup stale opts files s =
     (case fs_options stale opts fs_init of
        Inl e \<Rightarrow> Some (e, s)
      | Inr a \<Rightarrow>
          (case fixup a files of
             Inl e \<Rightarrow> Some (e, s)
           | Inr b \<Rightarrow>
               (case processFiles n b t (hf b) (if files = [] then [''.''] else files) 0 s of
                  FsDone err _ s' \<Rightarrow> Some (if err > 0 then 1 else 0, s')
                | FsDied s' \<Rightarrow> Some (fs_exit_code, s')
                | FsNoFuel \<Rightarrow> None)))"

section \<open>setattr and chxid\<close>

type_synonym iattr_request = "loc \<times> xid_t \<times> u32 \<times> u32"

definition set_fixup :: "fs_args \<Rightarrow> cstr list \<Rightarrow> int + fs_args" where
  "set_fixup a files =
     (if files = [] then Inl 1 else Inr (a\<lparr>do_display_dir := \<not> do_recurse a, do_display_dot := True\<rparr>))"

definition setattr_handleFile :: "(iattr_request \<Rightarrow> bool) \<Rightarrow> fs_args \<Rightarrow> iattr_request list handler" where
  "setattr_handleFile accepts a l display s =
     (let r = (l, 0, fs_set_mask a AND NOT (fs_del_mask a), fs_set_mask a OR fs_del_mask a) in (accepts r, s @ [r]))"

definition isUnified :: "(loc \<Rightarrow> u32 \<Rightarrow> (u32 \<times> u32) option) \<Rightarrow> loc \<Rightarrow> bool" where
  "isUnified get_iattr l =
     (let v = VC_IATTR_IUNLINK OR VC_IATTR_IMMUTABLE
      in case get_iattr l v of
           None \<Rightarrow> False
         | Some (flags, m) \<Rightarrow> if m AND v \<noteq> v then False else flags AND v = v)"

definition chxid_handleFile ::
  "(loc \<Rightarrow> u32 \<Rightarrow> (u32 \<times> u32) option) \<Rightarrow> (iattr_request \<Rightarrow> bool) \<Rightarrow> fs_args \<Rightarrow> iattr_request list handler" where
  "chxid_handleFile get_iattr accepts a l display s =
     (if \<not> no_unified a \<or> \<not> isUnified get_iattr l
      then (let r = (l, fs_ctx a, 0, VC_IATTR_XID) in (accepts r, s @ [r]))
      else (True, s))"

definition chxid_fixup ::
  "xid_t \<Rightarrow> (cstr \<Rightarrow> bool \<Rightarrow> vcCtxType \<Rightarrow> xid_t) \<Rightarrow> fs_args \<Rightarrow> cstr list \<Rightarrow> int + fs_args" where
  "chxid_fixup task getctx a files =
     (if files = [] then Inl 1
      else case ctx_str a of
             None \<Rightarrow> Inl 1
           | Some c \<Rightarrow>
               Inr (a\<lparr>fs_ctx := fst (vc_tagopt2tag task getctx c True), do_display_dir := \<not> do_recurse a,
                      do_display_dot := True\<rparr>))"

section \<open>showattr\<close>

definition show_fixup :: "fs_args \<Rightarrow> cstr list \<Rightarrow> int + fs_args" where
  "show_fixup a files = Inr a"

definition toupper :: "char \<Rightarrow> char" where
  "toupper c = (if islower c then char_of (code c - 32) else c)"

definition MARKER :: cstr where
  "MARKER = ''.......x....ciub............mhwa''"

definition used_attrs :: u32 where
  "used_attrs =
     VC_IATTR_XID OR VC_IATTR_ADMIN OR VC_IATTR_WATCH OR VC_IATTR_HIDE OR VC_IATTR_BARRIER OR VC_IATTR_IUNLINK OR
     VC_IATTR_IMMUTABLE OR VC_IATTR_WRITE OR VC_IATTR_COW"

text \<open>The loop over the bits \<open>i\<close> to 31, which shifts all three words.\<close>

fun mark_loop :: "nat \<Rightarrow> nat \<Rightarrow> u32 \<Rightarrow> u32 \<Rightarrow> u32 \<Rightarrow> cstr" where
  "mark_loop 0 i used flags msk = []"
| "mark_loop (Suc n) i used flags msk =
     (if used AND 1 \<noteq> 0
      then [if msk AND 1 = 0 then CHR ''-''
            else if flags AND 1 \<noteq> 0 then toupper (MARKER ! (31 - i)) else MARKER ! (31 - i)]
      else []) @
     mark_loop n (i + 1) (drop_bit 1 used) (drop_bit 1 flags) (drop_bit 1 msk)"

text \<open>\<open>behind\<close> is the byte of memory behind the literal that is copied for files without attributes.\<close>

definition showattr_handleFile ::
  "(loc \<Rightarrow> u32 \<Rightarrow> (u32 \<times> u32) option) \<Rightarrow> char \<Rightarrow> fs_args \<Rightarrow> cstr handler" where
  "showattr_handleFile get_iattr behind a l display out =
     (let blank = replicate 40 CHR '' '';
          (res, buf) =
            (case get_iattr l (NOT 0) of
               Some (flags, m) \<Rightarrow> (let ms = mark_loop 32 0 used_attrs flags m in (True, ms @ drop (length ms) blank))
             | None \<Rightarrow> (False, ''ERR    '' @ [NUL, behind] @ drop 9 blank))
      in (res, out @ take 10 buf @ display @ [NL]))"

section \<open>lsxid\<close>

record lsxid_host =
  lh_byctx :: "xid_t \<Rightarrow> (cstr \<times> vcCfgStyle) option"
  lh_name :: "cstr \<Rightarrow> vcCfgStyle \<Rightarrow> cstr option"
  lh_iattr :: "loc \<Rightarrow> u32 \<Rightarrow> (xid_t \<times> u32) option"
  lh_garbage :: "xid_t \<times> u32"

definition blanks :: "nat \<Rightarrow> cstr" where
  "blanks l = (if l < 20 then replicate (20 - l) CHR '' '' else [])"

definition number_text :: "xid_t \<Rightarrow> cstr" where
  "number_text ctx = (case fmt_uint True (ucast ctx :: u64) of None \<Rightarrow> [] | Some (l, text) \<Rightarrow> blanks l @ text)"

definition lsxid_handleFile :: "lsxid_host \<Rightarrow> fs_args \<Rightarrow> (XidNameMapping list \<times> cstr) handler" where
  "lsxid_handleFile h a l display s =
     (let ctx = getFileContext (lh_iattr h) (lh_garbage h) l;
          (vec, cell) =
            (if ctx = VC_NOCTX then (fst s, ''!!ERR!!'' @ replicate 13 CHR '' '')
             else if do_mapping a then
               (case lookupContext (lh_byctx h) (lh_name h) ctx (fst s) of
                  (Some vname, vec) \<Rightarrow> (vec, blanks (length vname) @ vname)
                | (None, vec) \<Rightarrow> (vec, number_text ctx))
             else (fst s, number_text ctx))
      in (ctx \<noteq> VC_NOCTX, (vec, snd s @ cell @ ''  '' @ display @ [NL])))"

section \<open>What the tools do to any tree\<close>

definition setattr_ok :: "tree \<Rightarrow> fs_args \<Rightarrow> cstr list \<Rightarrow> iattr_request list \<Rightarrow> bool" where
  "setattr_ok t a files reqs \<longleftrightarrow>
     (\<forall>(l, x, f, m) \<in> set reqs. placed t files l \<and> x = 0 \<and> f = fs_set_mask a AND NOT (fs_del_mask a) \<and>
        m = fs_set_mask a OR fs_del_mask a)"

definition chxid_ok ::
  "tree \<Rightarrow> (loc \<Rightarrow> u32 \<Rightarrow> (u32 \<times> u32) option) \<Rightarrow> fs_args \<Rightarrow> cstr list \<Rightarrow> iattr_request list \<Rightarrow> bool" where
  "chxid_ok t get_iattr a files reqs \<longleftrightarrow>
     (\<forall>(l, x, f, m) \<in> set reqs. placed t files l \<and> x = fs_ctx a \<and> f = 0 \<and> m = VC_IATTR_XID \<and>
        (no_unified a \<longrightarrow> \<not> isUnified get_iattr l))"

text \<open>The program that looks up every name anew.\<close>

definition plain_handleFile :: "lsxid_host \<Rightarrow> fs_args \<Rightarrow> cstr handler" where
  "plain_handleFile h a l display out =
     (let ctx = getFileContext (lh_iattr h) (lh_garbage h) l
      in (ctx \<noteq> VC_NOCTX,
          out @ (if ctx = VC_NOCTX then ''!!ERR!!'' @ replicate 13 CHR '' ''
                 else case (if do_mapping a then ctx_name (lh_byctx h) (lh_name h) ctx else None) of
                        Some vname \<Rightarrow> blanks (length vname) @ vname
                      | None \<Rightarrow> number_text ctx) @ ''  '' @ display @ [NL]))"

definition cache_ok :: "lsxid_host \<Rightarrow> XidNameMapping list \<Rightarrow> bool" where
  "cache_ok h vec \<longleftrightarrow> nv.inv vec \<and> (\<forall>e \<in> set vec. xn_name e = ctx_name (lh_byctx h) (lh_name h) (xn_xid e))"

definition file_ctx :: "lsxid_host \<Rightarrow> loc \<Rightarrow> xid_t" where
  "file_ctx h = getFileContext (lh_iattr h) (lh_garbage h)"

lemma lsxid_sim:
  assumes "cache_ok h (fst s)" "snd s = out" "file_ctx h l = VC_NOCTX \<or> small_xid (file_ctx h l)"
  shows "fst (lsxid_handleFile h a l d s) = fst (plain_handleFile h a l d out) \<and>
    cache_ok h (fst (snd (lsxid_handleFile h a l d s))) \<and>
    snd (snd (lsxid_handleFile h a l d s)) = snd (plain_handleFile h a l d out)"
proof -
  let ?x = "file_ctx h l"
  obtain res vec where r: "lookupContext (lh_byctx h) (lh_name h) ?x (fst s) = (res, vec)" by fastforce
  have "?x \<noteq> VC_NOCTX \<Longrightarrow> res = ctx_name (lh_byctx h) (lh_name h) ?x \<and> cache_ok h vec"
    using lookupContext_cache [of "fst s" "lh_byctx h" "lh_name h" ?x res vec] assms r by (auto simp: cache_ok_def)
  then show ?thesis
    using assms r
    by (auto simp: lsxid_handleFile_def plain_handleFile_def file_ctx_def [symmetric] Let_def split: option.splits)
qed

interpretation sa: handler_sim "setattr_handleFile accepts a" "setattr_handleFile accepts a"
    "\<lambda>s u. s = u \<and> setattr_ok t a files s" "placed t files" "work_dir files" "listed_dir t files" t for accepts a files t
  by (unfold_locales; (rule placed_rules work_dir_down; assumption)?) (simp add: setattr_handleFile_def setattr_ok_def Let_def)

interpretation cx: handler_sim "chxid_handleFile get_iattr accepts a" "chxid_handleFile get_iattr accepts a"
    "\<lambda>s u. s = u \<and> chxid_ok t get_iattr a files s" "placed t files" "work_dir files" "listed_dir t files" t
    for get_iattr accepts a files t
  by (unfold_locales; (rule placed_rules work_dir_down; assumption)?) (auto simp: chxid_handleFile_def chxid_ok_def Let_def)

interpretation lx: handler_sim "lsxid_handleFile h a" "plain_handleFile h a"
    "\<lambda>s u. cache_ok h (fst s) \<and> snd s = u \<and> (\<forall>l. file_ctx h l = VC_NOCTX \<or> small_xid (file_ctx h l))" "\<lambda>_. True" "\<lambda>_. True" "\<lambda>_. True" t for h a t
  by unfold_locales (auto simp: lsxid_sim)

section \<open>Marks\<close>

lemma mark_loop_bits:
  "mark_loop n i used flags msk =
     concat (map (\<lambda>k. if bit used k
        then [if \<not> bit msk k then CHR ''-''
              else if bit flags k then toupper (MARKER ! (31 - (i + k))) else MARKER ! (31 - (i + k))]
        else []) [0..<n])"
proof (induction n arbitrary: i used flags msk)
  case (Suc n)
  have b: "(w AND 1 = 0) = (\<not> bit w 0)" for w :: u32 by (simp add: and_one_eq even_iff_mod_2_eq_zero bit_0)
  have "[0..<Suc n] = 0 # map Suc [0..<n]" by (simp add: upt_conv_Cons map_Suc_upt del: upt_Suc)
  moreover have "bit (drop_bit (Suc 0) w) k = bit w (Suc k)" for w :: u32 and k by (simp add: bit_drop_bit_eq)
  ultimately show ?case by (simp add: Suc b o_def del: upt_Suc cong: if_cong)
qed simp

lemma concat_if: "concat (map (\<lambda>k. if P k then [f k] else []) xs) = map f (filter P xs)"
  by (induction xs) auto

definition mark :: "u32 \<Rightarrow> u32 \<Rightarrow> nat \<Rightarrow> char \<Rightarrow> char" where
  "mark flags msk k c = (if \<not> bit msk k then CHR ''-'' else if bit flags k then toupper c else c)"

lemma marks_text:
  "mark_loop 32 0 used_attrs flags msk =
     [mark flags msk 0 CHR ''a'', mark flags msk 1 CHR ''w'', mark flags msk 2 CHR ''h'', mark flags msk 3 CHR ''m'',
      mark flags msk 16 CHR ''b'', mark flags msk 17 CHR ''u'', mark flags msk 18 CHR ''i'', mark flags msk 19 CHR ''c'',
      mark flags msk 24 CHR ''x'']"
proof -
  have used: "filter (bit used_attrs) [0..<32] = [0, 1, 2, 3, 16, 17, 18, 19, 24]" by code_simp
  have "mark_loop 32 0 used_attrs flags msk =
      map (\<lambda>k. mark flags msk k (MARKER ! (31 - k))) (filter (bit used_attrs) [0..<32])"
    unfolding mark_loop_bits concat_if mark_def by simp
  moreover have "map (\<lambda>k. MARKER ! (31 - k)) [0, 1, 2, 3, 16, 17, 18, 19, 24] = ''awhmbuicx''" by code_simp
  ultimately show ?thesis by (simp add: used)
qed

text \<open>How a run ends, for options and parameters that were accepted.\<close>

lemma fstool_state:
  assumes "fs_options stale opts fs_init = Inr a" "fstool n t hf fixup stale opts files s = Some (rc, s')"
  shows "s' = s \<or> (\<exists>b r. fixup a files = Inr b \<and>
      r = processFiles n b t (hf b) (if files = [] then [''.''] else files) 0 s \<and>
      ((\<exists>e c. r = FsDone e c s') \<or> r = FsDied s'))"
  using assms by (auto simp: fstool_def split: sum.splits fswalk.splits)

lemma setattr_facts:
  assumes "fs_options stale opts fs_init = Inr a"
    and "fstool n t (setattr_handleFile accepts) set_fixup stale opts files [] = Some (rc, reqs)"
  shows "setattr_ok t a files reqs"
proof (cases "reqs = []")
  case False
  then obtain b r where b: "set_fixup a files = Inr b"
      "r = processFiles n b t (setattr_handleFile accepts b) (if files = [] then [''.''] else files) 0 []"
      "(\<exists>e c. r = FsDone e c reqs) \<or> r = FsDied reqs"
    using fstool_state [OF assms] by auto
  then have f: "files \<noteq> []" "fs_set_mask b = fs_set_mask a" "fs_del_mask b = fs_del_mask a"
    by (auto simp: set_fixup_def split: if_splits)
  have "walk_rel (\<lambda>s u. s = u \<and> setattr_ok t b files s) (\<lambda>c. c = []) r r"
    unfolding b(2) using f(1) by (simp, intro sa.process_all) (auto simp: setattr_ok_def listed_argument)
  then have "setattr_ok t b files reqs" using b(3) by auto
  then show ?thesis using f by (simp add: setattr_ok_def)
qed (simp add: setattr_ok_def)

lemma chxid_facts:
  assumes "fs_options stale opts fs_init = Inr a"
    and "fstool n t (chxid_handleFile get_iattr accepts) (chxid_fixup task getctx) stale opts files [] = Some (rc, reqs)"
  shows "reqs = [] \<or> (\<exists>c. ctx_str a = Some c \<and>
    chxid_ok t get_iattr (a\<lparr>fs_ctx := fst (vc_tagopt2tag task getctx c True)\<rparr>) files reqs)"
proof (cases "reqs = []")
  case False
  then obtain b r where b: "chxid_fixup task getctx a files = Inr b"
      "r = processFiles n b t (chxid_handleFile get_iattr accepts b) (if files = [] then [''.''] else files) 0 []"
      "(\<exists>e c. r = FsDone e c reqs) \<or> r = FsDied reqs"
    using fstool_state [OF assms] by auto
  then obtain c where f: "files \<noteq> []" "ctx_str a = Some c" "fs_ctx b = fst (vc_tagopt2tag task getctx c True)"
      "no_unified b = no_unified a"
    by (auto simp: chxid_fixup_def split: if_splits option.splits)
  have "walk_rel (\<lambda>s u. s = u \<and> chxid_ok t get_iattr b files s) (\<lambda>c. c = []) r r"
    unfolding b(2) using f(1) by (simp, intro cx.process_all) (auto simp: chxid_ok_def listed_argument)
  then have "chxid_ok t get_iattr b files reqs" using b(3) by auto
  then show ?thesis using f by (auto simp: chxid_ok_def)
qed simp

text \<open>The line that \<^verbatim>\<open>showattr\<close> writes.\<close>

lemma showattr_line:
  assumes "get_iattr l (NOT 0) = Some (flags, msk)"
  shows "showattr_handleFile get_iattr behind a l display out =
    (True, out @ mark_loop 32 0 used_attrs flags msk @ CHR '' '' # display @ [NL])"
proof -
  have len: "length (mark_loop 32 0 used_attrs flags msk) = 9" by (simp add: marks_text)
  have "replicate 31 CHR '' '' = CHR '' '' # replicate 30 CHR '' ''" by (simp flip: replicate_Suc)
  then show ?thesis using assms len by (simp add: showattr_handleFile_def Let_def)
qed

section \<open>Properties\<close>

text \<open>A small tree for the examples: a directory with a file and a directory that holds another file.\<close>

definition dir_stat :: "u64 \<Rightarrow> fstat" where
  "dir_stat i = \<lparr>fs_isdir = True, fs_dev = 1, fs_ino = i\<rparr>"

definition file_fstat :: "u64 \<Rightarrow> fstat" where
  "file_fstat i = \<lparr>fs_isdir = False, fs_dev = 1, fs_ino = i\<rparr>"

definition sample_tree :: tree where
  "sample_tree =
     \<lparr>t_lstat = (\<lambda>l. if l = [''d''] \<or> l = [''d'', ''.''] then Some (dir_stat 1) else if l = [''d'', ''s''] then Some (dir_stat 2)
                     else Some (file_fstat 3)),
      t_dot = (\<lambda>l. if l = [''d''] then Some (dir_stat 1) else Some (dir_stat 2)),
      t_opendir = (\<lambda>_. True),
      t_names = (\<lambda>l. if l = [''d''] then [''.'', ''s'', ''f''] else if l = [''d'', ''s''] then [''g''] else []),
      t_reads = (\<lambda>_. True), t_open = (\<lambda>_. True), t_chdir = (\<lambda>_. True), t_fchdir = (\<lambda>_. True), t_garbage = 0\<rparr>"






text \<open>
  C9. The cache of names in \<^verbatim>\<open>lsxid\<close> is transparent: on every tree and for every command line the program
  ends and prints exactly as a program that looks up the configuration anew for every file. The contexts of the files
  are assumed to be in the range in which the comparison by difference is an order.
\<close>

theorem lsxid_cache_transparent:
  assumes "\<forall>l. file_ctx h l = VC_NOCTX \<or> small_xid (file_ctx h l)"
  shows "map_option (\<lambda>(rc, s). (rc, snd s)) (fstool n t (lsxid_handleFile h) show_fixup stale opts files ([], out)) =
    fstool n t (plain_handleFile h) show_fixup stale opts files out"
proof (cases "fs_options stale opts fs_init")
  case (Inr a)
  let ?fs = "if files = [] then [''.''] else files"
  have "walk_rel (\<lambda>s u. cache_ok h (fst s) \<and> snd s = u \<and> (\<forall>l. file_ctx h l = VC_NOCTX \<or> small_xid (file_ctx h l)))
      (\<lambda>c. c = []) (processFiles n a t (lsxid_handleFile h a) ?fs 0 ([], out)) (processFiles n a t (plain_handleFile h a) ?fs 0 out)"
    using assms by (intro lx.process_all) (auto simp: cache_ok_def nv.inv_Nil)
  then show ?thesis
    using Inr by (auto simp: fstool_def show_fixup_def walk_rel_cases)
qed (simp add: fstool_def)

definition sample_lsxid :: lsxid_host where
  "sample_lsxid =
     \<lparr>lh_byctx = (\<lambda>x. if x = 7 then Some (''/vs'', vcCFG_LEGACY) else None), lh_name = (\<lambda>c s. Some ''guest''),
      lh_iattr = (\<lambda>l m. Some (if length l < 3 then 7 else 8, VC_IATTR_XID)), lh_garbage = (0, 0)\<rparr>"

theorem lsxid_cache_transparent_witness:
  "map_option (\<lambda>(rc, s). (rc, snd s))
     (fstool 3 sample_tree (lsxid_handleFile sample_lsxid) show_fixup False [FoRecurse] [''d''] ([], [])) =
   fstool 3 sample_tree (plain_handleFile sample_lsxid) show_fixup False [FoRecurse] [''d''] []"
proof (rule lsxid_cache_transparent)
  show "\<forall>l. file_ctx sample_lsxid l = VC_NOCTX \<or> small_xid (file_ctx sample_lsxid l)"
    by (auto simp: file_ctx_def getFileContext_def sample_lsxid_def small_xid_def VC_IATTR_XID_def)
qed

text \<open>
  After a directory was exchanged between \<^verbatim>\<open>lstat\<close> and \<^verbatim>\<open>chdir\<close>, \<^verbatim>\<open>safeChdir\<close> fails but the process stays in
  the directory it has entered: what follows is looked up there, while it is shown as if it were in the old one.
\<close>

definition swapped_tree :: tree where
  "swapped_tree =
     \<lparr>t_lstat = (\<lambda>l. if last l = ''a'' then Some (dir_stat 5) else Some (dir_stat (of_nat (length l)))),
      t_dot = (\<lambda>l. if last l = ''a'' then Some (dir_stat 6) else Some (dir_stat (of_nat (length l)))),
      t_opendir = (\<lambda>_. True), t_names = (\<lambda>l. if l = [''d''] then [''a'', ''b''] else []),
      t_reads = (\<lambda>_. True), t_open = (\<lambda>_. True), t_chdir = (\<lambda>_. True), t_fchdir = (\<lambda>_. True), t_garbage = 0\<rparr>"

lemma wrong_directory_after_race:
  "processFile 3 (fs_init\<lparr>do_recurse := True\<rparr>) swapped_tree (\<lambda>l d s. (True, s @ [(l, d)])) ''d'' [] =
     FsDone 1 [] [([''d''], ''d''), ([''d'', ''a'', ''b''], ''d/b'')]"
  by code_simp

text \<open>A directory that cannot be looked at is left out without being counted as an error.\<close>

lemma unreadable_dot_not_counted:
  "processFile 3 fs_init (swapped_tree\<lparr>t_dot := (\<lambda>_. None), t_names := (\<lambda>_. [])\<rparr>) (\<lambda>l d s. (True, s @ [(l, d)])) ''d'' [] =
     FsDone 0 [] []"
  by code_simp

end
