(* ===== verification/KernelCmd.thy ===== *)
theory KernelCmd
  imports Prelude
begin

text \<open>
  The interface to the kernel, after the headers in \<^verbatim>\<open>kernel/\<close>: the numbers of the commands of the
  \<^verbatim>\<open>vserver\<close> system call and the structures that go with them, their fields in the order of the headers.
  Addresses are lists of bytes; the two rates and intervals of the last scheduler structure are pairs.
\<close>

unbundle bit_operations_syntax

datatype (plugins only: code size) kdata =
    D_null
  | D_vx_info u32 u32
  | D_nx_info u32
  | D_ctx_stat u32 u32
  | D_ctx_create u64
  | D_ctx_migrate u64
  | D_ctx_flags u64 u64
  | D_net_flags u64 u64
  | D_ctx_caps_v0 u64 u64 u64
  | D_ctx_caps_v1 u64 u64
  | D_net_caps u64 u64
  | D_bcaps u64 u64
  | D_umask u64 u64
  | D_badness u64
  | D_vhi_name u32 cstr
  | D_virt_stat u64 u64 "u32 list" "u32 list"
  | D_mapping cstr cstr u32
  | D_dlimit_base cstr u32
  | D_dlimit cstr u32 u32 u32 u32 u32 u32
  | D_iattr cstr u32 u32 u32
  | D_fiattr u32 u32 u32
  | D_rlimit u32 u64 u64 u64
  | D_rlimit_mask u32 u32 u32
  | D_rlimit_stat u32 u32 u64 u64 u64
  | D_net_addr_v0 u16 u16 "u8 list list" "u8 list list"
  | D_net_ipv4 u16 u16 "u8 list" "u8 list"
  | D_net_ipv6 u16 u16 u32 "u8 list" "u8 list"
  | D_sched_v2 u32 u32 u32 u32 u32 u64
  | D_sched_v3 u32 u32 u32 u32 u32 u32 u32
  | D_sched_v4 u32 u32 u32 u32 u32 u32 u32 u32 u32
  | D_sched_v5 u32 u32 u32 "u32 \<times> u32" "u32 \<times> u32" u32 u32 u32 u32
  | D_sched_info u32 u32 u64 u64 u64 u32 u32
  | D_ctx_kill u32 u32
  | D_wait_exit u32 u32
  | D_space_v1 u64
  | D_space_v2 u64 u32
  | D_new_s_context u32 u32
  | D_ipv4root u32 "(u32 \<times> u32) list"

text \<open>The kinds of structures, and the kind of a value.\<close>

datatype (plugins only: code size) kstruct =
    S_null | S_vx_info | S_nx_info | S_ctx_stat | S_ctx_create | S_ctx_migrate | S_ctx_flags | S_net_flags |
    S_ctx_caps_v0 | S_ctx_caps_v1 | S_net_caps | S_bcaps | S_umask | S_badness | S_vhi_name | S_virt_stat |
    S_mapping | S_dlimit_base | S_dlimit | S_iattr | S_fiattr | S_rlimit | S_rlimit_mask | S_rlimit_stat |
    S_net_addr_v0 | S_net_ipv4 | S_net_ipv6 | S_sched_v2 | S_sched_v3 | S_sched_v4 | S_sched_v5 |
    S_sched_info | S_ctx_kill | S_wait_exit | S_space_v1 | S_space_v2 | S_new_s_context | S_ipv4root

fun kind :: "kdata \<Rightarrow> kstruct" where
  "kind D_null = S_null"
| "kind (D_vx_info _ _) = S_vx_info"
| "kind (D_nx_info _) = S_nx_info"
| "kind (D_ctx_stat _ _) = S_ctx_stat"
| "kind (D_ctx_create _) = S_ctx_create"
| "kind (D_ctx_migrate _) = S_ctx_migrate"
| "kind (D_ctx_flags _ _) = S_ctx_flags"
| "kind (D_net_flags _ _) = S_net_flags"
| "kind (D_ctx_caps_v0 _ _ _) = S_ctx_caps_v0"
| "kind (D_ctx_caps_v1 _ _) = S_ctx_caps_v1"
| "kind (D_net_caps _ _) = S_net_caps"
| "kind (D_bcaps _ _) = S_bcaps"
| "kind (D_umask _ _) = S_umask"
| "kind (D_badness _) = S_badness"
| "kind (D_vhi_name _ _) = S_vhi_name"
| "kind (D_virt_stat _ _ _ _) = S_virt_stat"
| "kind (D_mapping _ _ _) = S_mapping"
| "kind (D_dlimit_base _ _) = S_dlimit_base"
| "kind (D_dlimit _ _ _ _ _ _ _) = S_dlimit"
| "kind (D_iattr _ _ _ _) = S_iattr"
| "kind (D_fiattr _ _ _) = S_fiattr"
| "kind (D_rlimit _ _ _ _) = S_rlimit"
| "kind (D_rlimit_mask _ _ _) = S_rlimit_mask"
| "kind (D_rlimit_stat _ _ _ _ _) = S_rlimit_stat"
| "kind (D_net_addr_v0 _ _ _ _) = S_net_addr_v0"
| "kind (D_net_ipv4 _ _ _ _) = S_net_ipv4"
| "kind (D_net_ipv6 _ _ _ _ _) = S_net_ipv6"
| "kind (D_sched_v2 _ _ _ _ _ _) = S_sched_v2"
| "kind (D_sched_v3 _ _ _ _ _ _ _) = S_sched_v3"
| "kind (D_sched_v4 _ _ _ _ _ _ _ _ _) = S_sched_v4"
| "kind (D_sched_v5 _ _ _ _ _ _ _ _ _) = S_sched_v5"
| "kind (D_sched_info _ _ _ _ _ _ _) = S_sched_info"
| "kind (D_ctx_kill _ _) = S_ctx_kill"
| "kind (D_wait_exit _ _) = S_wait_exit"
| "kind (D_space_v1 _) = S_space_v1"
| "kind (D_space_v2 _ _) = S_space_v2"
| "kind (D_new_s_context _ _) = S_new_s_context"
| "kind (D_ipv4root _ _) = S_ipv4root"

definition VC_CMD :: "u32 \<Rightarrow> u32 \<Rightarrow> u32 \<Rightarrow> u32" where
  "VC_CMD c i v = (push_bit 24 (c AND 0x3F) OR push_bit 16 (i AND 0xFF)) OR (v AND 0xFFF)"

definition VC_CATEGORY :: "u32 \<Rightarrow> u32" where "VC_CATEGORY c = drop_bit 24 c AND 0x3F"
definition VC_COMMAND :: "u32 \<Rightarrow> u32" where "VC_COMMAND c = drop_bit 16 c AND 0xFF"
definition VC_VERSION :: "u32 \<Rightarrow> u32" where "VC_VERSION c = c AND 0xFFF"

definition VC_CAT_VERSION :: u32 where "VC_CAT_VERSION = 0"
definition VC_CAT_VHOST :: u32 where "VC_CAT_VHOST = 2"
definition VC_CAT_DEVICE :: u32 where "VC_CAT_DEVICE = 6"
definition VC_CAT_VPROC :: u32 where "VC_CAT_VPROC = 9"
definition VC_CAT_PROCALT :: u32 where "VC_CAT_PROCALT = 10"
definition VC_CAT_PROCMIG :: u32 where "VC_CAT_PROCMIG = 11"
definition VC_CAT_PROCTRL :: u32 where "VC_CAT_PROCTRL = 12"
definition VC_CAT_SCHED :: u32 where "VC_CAT_SCHED = 14"
definition VC_CAT_MEMCTRL :: u32 where "VC_CAT_MEMCTRL = 20"
definition VC_CAT_VNET :: u32 where "VC_CAT_VNET = 25"
definition VC_CAT_NETALT :: u32 where "VC_CAT_NETALT = 26"
definition VC_CAT_NETMIG :: u32 where "VC_CAT_NETMIG = 27"
definition VC_CAT_TAGMIG :: u32 where "VC_CAT_TAGMIG = 35"
definition VC_CAT_DLIMIT :: u32 where "VC_CAT_DLIMIT = 36"
definition VC_CAT_INODE :: u32 where "VC_CAT_INODE = 38"
definition VC_CAT_VSTAT :: u32 where "VC_CAT_VSTAT = 40"
definition VC_CAT_VINFO :: u32 where "VC_CAT_VINFO = 46"
definition VC_CAT_EVENT :: u32 where "VC_CAT_EVENT = 48"
definition VC_CAT_FLAGS :: u32 where "VC_CAT_FLAGS = 52"
definition VC_CAT_VSPACE :: u32 where "VC_CAT_VSPACE = 54"
definition VC_CAT_RLIMIT :: u32 where "VC_CAT_RLIMIT = 60"
definition VC_CAT_COMPAT :: u32 where "VC_CAT_COMPAT = 63"

definition VCMD_get_version :: u32 where "VCMD_get_version = VC_CMD VC_CAT_VERSION 0 0"
definition VCMD_get_vci :: u32 where "VCMD_get_vci = VC_CMD VC_CAT_VERSION 1 0"
definition VCMD_task_xid :: u32 where "VCMD_task_xid = VC_CMD VC_CAT_VINFO 1 0"
definition VCMD_vx_info :: u32 where "VCMD_vx_info = VC_CMD VC_CAT_VINFO 5 0"
definition VCMD_ctx_stat :: u32 where "VCMD_ctx_stat = VC_CMD VC_CAT_VSTAT 0 0"
definition VCMD_ctx_create_v0 :: u32 where "VCMD_ctx_create_v0 = VC_CMD VC_CAT_VPROC 1 0"
definition VCMD_ctx_create_v1 :: u32 where "VCMD_ctx_create_v1 = VC_CMD VC_CAT_VPROC 1 1"
definition VCMD_ctx_migrate_v0 :: u32 where "VCMD_ctx_migrate_v0 = VC_CMD VC_CAT_PROCMIG 1 0"
definition VCMD_ctx_migrate_v1 :: u32 where "VCMD_ctx_migrate_v1 = VC_CMD VC_CAT_PROCMIG 1 1"
definition VCMD_get_cflags :: u32 where "VCMD_get_cflags = VC_CMD VC_CAT_FLAGS 1 0"
definition VCMD_set_cflags :: u32 where "VCMD_set_cflags = VC_CMD VC_CAT_FLAGS 2 0"
definition VCMD_get_ccaps_v0 :: u32 where "VCMD_get_ccaps_v0 = VC_CMD VC_CAT_FLAGS 3 0"
definition VCMD_set_ccaps_v0 :: u32 where "VCMD_set_ccaps_v0 = VC_CMD VC_CAT_FLAGS 4 0"
definition VCMD_get_ccaps :: u32 where "VCMD_get_ccaps = VC_CMD VC_CAT_FLAGS 3 1"
definition VCMD_set_ccaps :: u32 where "VCMD_set_ccaps = VC_CMD VC_CAT_FLAGS 4 1"
definition VCMD_get_bcaps :: u32 where "VCMD_get_bcaps = VC_CMD VC_CAT_FLAGS 9 0"
definition VCMD_set_bcaps :: u32 where "VCMD_set_bcaps = VC_CMD VC_CAT_FLAGS 10 0"
definition VCMD_get_umask :: u32 where "VCMD_get_umask = VC_CMD VC_CAT_FLAGS 13 0"
definition VCMD_set_umask :: u32 where "VCMD_set_umask = VC_CMD VC_CAT_FLAGS 14 0"
definition VCMD_get_badness :: u32 where "VCMD_get_badness = VC_CMD VC_CAT_MEMCTRL 5 0"
definition VCMD_set_badness :: u32 where "VCMD_set_badness = VC_CMD VC_CAT_MEMCTRL 6 0"
definition VCMD_set_vhi_name :: u32 where "VCMD_set_vhi_name = VC_CMD VC_CAT_VHOST 1 0"
definition VCMD_get_vhi_name :: u32 where "VCMD_get_vhi_name = VC_CMD VC_CAT_VHOST 2 0"
definition VCMD_virt_stat :: u32 where "VCMD_virt_stat = VC_CMD VC_CAT_VSTAT 3 0"
definition VCMD_set_mapping :: u32 where "VCMD_set_mapping = VC_CMD VC_CAT_DEVICE 1 0"
definition VCMD_unset_mapping :: u32 where "VCMD_unset_mapping = VC_CMD VC_CAT_DEVICE 2 0"
definition VCMD_add_dlimit :: u32 where "VCMD_add_dlimit = VC_CMD VC_CAT_DLIMIT 1 0"
definition VCMD_rem_dlimit :: u32 where "VCMD_rem_dlimit = VC_CMD VC_CAT_DLIMIT 2 0"
definition VCMD_set_dlimit :: u32 where "VCMD_set_dlimit = VC_CMD VC_CAT_DLIMIT 5 0"
definition VCMD_get_dlimit :: u32 where "VCMD_get_dlimit = VC_CMD VC_CAT_DLIMIT 6 0"
definition VCMD_get_iattr :: u32 where "VCMD_get_iattr = VC_CMD VC_CAT_INODE 1 1"
definition VCMD_set_iattr :: u32 where "VCMD_set_iattr = VC_CMD VC_CAT_INODE 2 1"
definition VCMD_fget_iattr :: u32 where "VCMD_fget_iattr = VC_CMD VC_CAT_INODE 3 0"
definition VCMD_fset_iattr :: u32 where "VCMD_fset_iattr = VC_CMD VC_CAT_INODE 4 0"
definition VCMD_get_rlimit :: u32 where "VCMD_get_rlimit = VC_CMD VC_CAT_RLIMIT 1 0"
definition VCMD_set_rlimit :: u32 where "VCMD_set_rlimit = VC_CMD VC_CAT_RLIMIT 2 0"
definition VCMD_get_rlimit_mask :: u32 where "VCMD_get_rlimit_mask = VC_CMD VC_CAT_RLIMIT 3 0"
definition VCMD_reset_minmax :: u32 where "VCMD_reset_minmax = VC_CMD VC_CAT_RLIMIT 9 0"
definition VCMD_rlimit_stat :: u32 where "VCMD_rlimit_stat = VC_CMD VC_CAT_VSTAT 1 0"
definition VCMD_task_nid :: u32 where "VCMD_task_nid = VC_CMD VC_CAT_VINFO 2 0"
definition VCMD_nx_info :: u32 where "VCMD_nx_info = VC_CMD VC_CAT_VINFO 6 0"
definition VCMD_net_create :: u32 where "VCMD_net_create = VC_CMD VC_CAT_VNET 1 1"
definition VCMD_net_migrate :: u32 where "VCMD_net_migrate = VC_CMD VC_CAT_NETMIG 1 0"
definition VCMD_net_add_v0 :: u32 where "VCMD_net_add_v0 = VC_CMD VC_CAT_NETALT 1 0"
definition VCMD_net_remove_v0 :: u32 where "VCMD_net_remove_v0 = VC_CMD VC_CAT_NETALT 2 0"
definition VCMD_net_add_ipv4_v1 :: u32 where "VCMD_net_add_ipv4_v1 = VC_CMD VC_CAT_NETALT 1 1"
definition VCMD_net_remove_ipv4_v1 :: u32 where "VCMD_net_remove_ipv4_v1 = VC_CMD VC_CAT_NETALT 2 1"
definition VCMD_net_add_ipv6 :: u32 where "VCMD_net_add_ipv6 = VC_CMD VC_CAT_NETALT 3 1"
definition VCMD_net_remove_ipv6 :: u32 where "VCMD_net_remove_ipv6 = VC_CMD VC_CAT_NETALT 4 1"
definition VCMD_get_nflags :: u32 where "VCMD_get_nflags = VC_CMD VC_CAT_FLAGS 5 0"
definition VCMD_set_nflags :: u32 where "VCMD_set_nflags = VC_CMD VC_CAT_FLAGS 6 0"
definition VCMD_get_ncaps :: u32 where "VCMD_get_ncaps = VC_CMD VC_CAT_FLAGS 7 0"
definition VCMD_set_ncaps :: u32 where "VCMD_set_ncaps = VC_CMD VC_CAT_FLAGS 8 0"
definition VCMD_set_sched_v2 :: u32 where "VCMD_set_sched_v2 = VC_CMD VC_CAT_SCHED 1 2"
definition VCMD_set_sched_v3 :: u32 where "VCMD_set_sched_v3 = VC_CMD VC_CAT_SCHED 1 3"
definition VCMD_set_sched_v4 :: u32 where "VCMD_set_sched_v4 = VC_CMD VC_CAT_SCHED 1 4"
definition VCMD_set_sched :: u32 where "VCMD_set_sched = VC_CMD VC_CAT_SCHED 1 5"
definition VCMD_get_sched :: u32 where "VCMD_get_sched = VC_CMD VC_CAT_SCHED 2 5"
definition VCMD_sched_info :: u32 where "VCMD_sched_info = VC_CMD VC_CAT_SCHED 3 0"
definition VCMD_ctx_kill :: u32 where "VCMD_ctx_kill = VC_CMD VC_CAT_PROCTRL 1 0"
definition VCMD_wait_exit :: u32 where "VCMD_wait_exit = VC_CMD VC_CAT_EVENT 99 0"
definition VCMD_enter_space_v0 :: u32 where "VCMD_enter_space_v0 = VC_CMD VC_CAT_PROCALT 1 0"
definition VCMD_enter_space_v1 :: u32 where "VCMD_enter_space_v1 = VC_CMD VC_CAT_PROCALT 1 1"
definition VCMD_enter_space :: u32 where "VCMD_enter_space = VC_CMD VC_CAT_PROCALT 1 2"
definition VCMD_cleanup_namespace :: u32 where "VCMD_cleanup_namespace = VC_CMD VC_CAT_PROCALT 2 0"
definition VCMD_set_space_v0 :: u32 where "VCMD_set_space_v0 = VC_CMD VC_CAT_PROCALT 3 0"
definition VCMD_set_space_v1 :: u32 where "VCMD_set_space_v1 = VC_CMD VC_CAT_PROCALT 3 1"
definition VCMD_set_space :: u32 where "VCMD_set_space = VC_CMD VC_CAT_PROCALT 3 2"
definition VCMD_get_space_mask_v0 :: u32 where "VCMD_get_space_mask_v0 = VC_CMD VC_CAT_PROCALT 4 0"
definition VCMD_get_space_mask :: u32 where "VCMD_get_space_mask = VC_CMD VC_CAT_VSPACE 0 1"
definition VCMD_get_space_default :: u32 where "VCMD_get_space_default = VC_CMD VC_CAT_VSPACE 1 0"
definition VCMD_task_tag :: u32 where "VCMD_task_tag = VC_CMD VC_CAT_VINFO 3 0"
definition VCMD_tag_migrate :: u32 where "VCMD_tag_migrate = VC_CMD VC_CAT_TAGMIG 1 0"
definition VCMD_new_s_context :: u32 where "VCMD_new_s_context = VC_CMD VC_CAT_COMPAT 1 1"
definition VCMD_set_ipv4root :: u32 where "VCMD_set_ipv4root = VC_CMD VC_CAT_COMPAT 2 3"

text \<open>The structure that each command takes.\<close>

definition COMMANDS :: "(u32 \<times> kstruct) list" where
  "COMMANDS =
     [(VCMD_get_version, S_null),
      (VCMD_get_vci, S_null),
      (VCMD_task_xid, S_null),
      (VCMD_vx_info, S_vx_info),
      (VCMD_ctx_stat, S_ctx_stat),
      (VCMD_ctx_create_v0, S_null),
      (VCMD_ctx_create_v1, S_ctx_create),
      (VCMD_ctx_migrate_v0, S_null),
      (VCMD_ctx_migrate_v1, S_ctx_migrate),
      (VCMD_get_cflags, S_ctx_flags),
      (VCMD_set_cflags, S_ctx_flags),
      (VCMD_get_ccaps_v0, S_ctx_caps_v0),
      (VCMD_set_ccaps_v0, S_ctx_caps_v0),
      (VCMD_get_ccaps, S_ctx_caps_v1),
      (VCMD_set_ccaps, S_ctx_caps_v1),
      (VCMD_get_bcaps, S_bcaps),
      (VCMD_set_bcaps, S_bcaps),
      (VCMD_get_umask, S_umask),
      (VCMD_set_umask, S_umask),
      (VCMD_get_badness, S_badness),
      (VCMD_set_badness, S_badness),
      (VCMD_set_vhi_name, S_vhi_name),
      (VCMD_get_vhi_name, S_vhi_name),
      (VCMD_virt_stat, S_virt_stat),
      (VCMD_set_mapping, S_mapping),
      (VCMD_unset_mapping, S_mapping),
      (VCMD_add_dlimit, S_dlimit_base),
      (VCMD_rem_dlimit, S_dlimit_base),
      (VCMD_set_dlimit, S_dlimit),
      (VCMD_get_dlimit, S_dlimit),
      (VCMD_get_iattr, S_iattr),
      (VCMD_set_iattr, S_iattr),
      (VCMD_fget_iattr, S_fiattr),
      (VCMD_fset_iattr, S_fiattr),
      (VCMD_get_rlimit, S_rlimit),
      (VCMD_set_rlimit, S_rlimit),
      (VCMD_get_rlimit_mask, S_rlimit_mask),
      (VCMD_reset_minmax, S_null),
      (VCMD_rlimit_stat, S_rlimit_stat),
      (VCMD_task_nid, S_null),
      (VCMD_nx_info, S_nx_info),
      (VCMD_net_create, S_null),
      (VCMD_net_migrate, S_null),
      (VCMD_net_add_v0, S_net_addr_v0),
      (VCMD_net_remove_v0, S_net_addr_v0),
      (VCMD_net_add_ipv4_v1, S_net_ipv4),
      (VCMD_net_remove_ipv4_v1, S_net_ipv4),
      (VCMD_net_add_ipv6, S_net_ipv6),
      (VCMD_net_remove_ipv6, S_net_ipv6),
      (VCMD_get_nflags, S_net_flags),
      (VCMD_set_nflags, S_net_flags),
      (VCMD_get_ncaps, S_net_caps),
      (VCMD_set_ncaps, S_net_caps),
      (VCMD_set_sched_v2, S_sched_v2),
      (VCMD_set_sched_v3, S_sched_v3),
      (VCMD_set_sched_v4, S_sched_v4),
      (VCMD_set_sched, S_sched_v5),
      (VCMD_get_sched, S_sched_v5),
      (VCMD_sched_info, S_sched_info),
      (VCMD_ctx_kill, S_ctx_kill),
      (VCMD_wait_exit, S_wait_exit),
      (VCMD_enter_space_v0, S_null),
      (VCMD_enter_space_v1, S_space_v1),
      (VCMD_enter_space, S_space_v2),
      (VCMD_cleanup_namespace, S_null),
      (VCMD_set_space_v0, S_null),
      (VCMD_set_space_v1, S_space_v1),
      (VCMD_set_space, S_space_v2),
      (VCMD_get_space_mask_v0, S_space_v1),
      (VCMD_get_space_mask, S_space_v1),
      (VCMD_get_space_default, S_space_v1),
      (VCMD_task_tag, S_null),
      (VCMD_tag_migrate, S_null),
      (VCMD_new_s_context, S_new_s_context),
      (VCMD_set_ipv4root, S_ipv4root)]"

lemmas command_defs =
  VC_CMD_def VC_CAT_VERSION_def VC_CAT_VHOST_def VC_CAT_DEVICE_def VC_CAT_VPROC_def VC_CAT_PROCALT_def
  VC_CAT_PROCMIG_def VC_CAT_PROCTRL_def VC_CAT_SCHED_def VC_CAT_MEMCTRL_def VC_CAT_VNET_def VC_CAT_NETALT_def
  VC_CAT_NETMIG_def VC_CAT_TAGMIG_def VC_CAT_DLIMIT_def VC_CAT_INODE_def VC_CAT_VSTAT_def VC_CAT_VINFO_def
  VC_CAT_EVENT_def VC_CAT_FLAGS_def VC_CAT_VSPACE_def VC_CAT_RLIMIT_def VC_CAT_COMPAT_def
  VCMD_get_version_def VCMD_get_vci_def VCMD_task_xid_def VCMD_vx_info_def VCMD_ctx_stat_def
  VCMD_ctx_create_v0_def VCMD_ctx_create_v1_def VCMD_ctx_migrate_v0_def VCMD_ctx_migrate_v1_def
  VCMD_get_cflags_def VCMD_set_cflags_def VCMD_get_ccaps_v0_def VCMD_set_ccaps_v0_def VCMD_get_ccaps_def
  VCMD_set_ccaps_def VCMD_get_bcaps_def VCMD_set_bcaps_def VCMD_get_umask_def VCMD_set_umask_def
  VCMD_get_badness_def VCMD_set_badness_def VCMD_set_vhi_name_def VCMD_get_vhi_name_def VCMD_virt_stat_def
  VCMD_set_mapping_def VCMD_unset_mapping_def VCMD_add_dlimit_def VCMD_rem_dlimit_def VCMD_set_dlimit_def
  VCMD_get_dlimit_def VCMD_get_iattr_def VCMD_set_iattr_def VCMD_fget_iattr_def VCMD_fset_iattr_def
  VCMD_get_rlimit_def VCMD_set_rlimit_def VCMD_get_rlimit_mask_def VCMD_reset_minmax_def VCMD_rlimit_stat_def
  VCMD_task_nid_def VCMD_nx_info_def VCMD_net_create_def VCMD_net_migrate_def VCMD_net_add_v0_def
  VCMD_net_remove_v0_def VCMD_net_add_ipv4_v1_def VCMD_net_remove_ipv4_v1_def VCMD_net_add_ipv6_def
  VCMD_net_remove_ipv6_def VCMD_get_nflags_def VCMD_set_nflags_def VCMD_get_ncaps_def VCMD_set_ncaps_def
  VCMD_set_sched_v2_def VCMD_set_sched_v3_def VCMD_set_sched_v4_def VCMD_set_sched_def VCMD_get_sched_def
  VCMD_sched_info_def VCMD_ctx_kill_def VCMD_wait_exit_def VCMD_enter_space_v0_def VCMD_enter_space_v1_def
  VCMD_enter_space_def VCMD_cleanup_namespace_def VCMD_set_space_v0_def VCMD_set_space_v1_def
  VCMD_set_space_def VCMD_get_space_mask_v0_def VCMD_get_space_mask_def VCMD_get_space_default_def
  VCMD_task_tag_def VCMD_tag_migrate_def VCMD_new_s_context_def VCMD_set_ipv4root_def

lemma command_numbers:
  "VCMD_get_version = 0x0"
  "VCMD_get_vci = 0x10000"
  "VCMD_task_xid = 0x2e010000"
  "VCMD_vx_info = 0x2e050000"
  "VCMD_ctx_stat = 0x28000000"
  "VCMD_ctx_create_v0 = 0x9010000"
  "VCMD_ctx_create_v1 = 0x9010001"
  "VCMD_ctx_migrate_v0 = 0xb010000"
  "VCMD_ctx_migrate_v1 = 0xb010001"
  "VCMD_get_cflags = 0x34010000"
  "VCMD_set_cflags = 0x34020000"
  "VCMD_get_ccaps_v0 = 0x34030000"
  "VCMD_set_ccaps_v0 = 0x34040000"
  "VCMD_get_ccaps = 0x34030001"
  "VCMD_set_ccaps = 0x34040001"
  "VCMD_get_bcaps = 0x34090000"
  "VCMD_set_bcaps = 0x340a0000"
  "VCMD_get_umask = 0x340d0000"
  "VCMD_set_umask = 0x340e0000"
  "VCMD_get_badness = 0x14050000"
  "VCMD_set_badness = 0x14060000"
  "VCMD_set_vhi_name = 0x2010000"
  "VCMD_get_vhi_name = 0x2020000"
  "VCMD_virt_stat = 0x28030000"
  "VCMD_set_mapping = 0x6010000"
  "VCMD_unset_mapping = 0x6020000"
  "VCMD_add_dlimit = 0x24010000"
  "VCMD_rem_dlimit = 0x24020000"
  "VCMD_set_dlimit = 0x24050000"
  "VCMD_get_dlimit = 0x24060000"
  "VCMD_get_iattr = 0x26010001"
  "VCMD_set_iattr = 0x26020001"
  "VCMD_fget_iattr = 0x26030000"
  "VCMD_fset_iattr = 0x26040000"
  "VCMD_get_rlimit = 0x3c010000"
  "VCMD_set_rlimit = 0x3c020000"
  "VCMD_get_rlimit_mask = 0x3c030000"
  "VCMD_reset_minmax = 0x3c090000"
  "VCMD_rlimit_stat = 0x28010000"
  "VCMD_task_nid = 0x2e020000"
  "VCMD_nx_info = 0x2e060000"
  "VCMD_net_create = 0x19010001"
  "VCMD_net_migrate = 0x1b010000"
  "VCMD_net_add_v0 = 0x1a010000"
  "VCMD_net_remove_v0 = 0x1a020000"
  "VCMD_net_add_ipv4_v1 = 0x1a010001"
  "VCMD_net_remove_ipv4_v1 = 0x1a020001"
  "VCMD_net_add_ipv6 = 0x1a030001"
  "VCMD_net_remove_ipv6 = 0x1a040001"
  "VCMD_get_nflags = 0x34050000"
  "VCMD_set_nflags = 0x34060000"
  "VCMD_get_ncaps = 0x34070000"
  "VCMD_set_ncaps = 0x34080000"
  "VCMD_set_sched_v2 = 0xe010002"
  "VCMD_set_sched_v3 = 0xe010003"
  "VCMD_set_sched_v4 = 0xe010004"
  "VCMD_set_sched = 0xe010005"
  "VCMD_get_sched = 0xe020005"
  "VCMD_sched_info = 0xe030000"
  "VCMD_ctx_kill = 0xc010000"
  "VCMD_wait_exit = 0x30630000"
  "VCMD_enter_space_v0 = 0xa010000"
  "VCMD_enter_space_v1 = 0xa010001"
  "VCMD_enter_space = 0xa010002"
  "VCMD_cleanup_namespace = 0xa020000"
  "VCMD_set_space_v0 = 0xa030000"
  "VCMD_set_space_v1 = 0xa030001"
  "VCMD_set_space = 0xa030002"
  "VCMD_get_space_mask_v0 = 0xa040000"
  "VCMD_get_space_mask = 0x36000001"
  "VCMD_get_space_default = 0x36010000"
  "VCMD_task_tag = 0x2e030000"
  "VCMD_tag_migrate = 0x23010000"
  "VCMD_new_s_context = 0x3f010001"
  "VCMD_set_ipv4root = 0x3f020003"
  by (simp_all add: command_defs)

lemma COMMANDS_numbers:
  "COMMANDS =
     [(0x0, S_null),
      (0x10000, S_null),
      (0x2e010000, S_null),
      (0x2e050000, S_vx_info),
      (0x28000000, S_ctx_stat),
      (0x9010000, S_null),
      (0x9010001, S_ctx_create),
      (0xb010000, S_null),
      (0xb010001, S_ctx_migrate),
      (0x34010000, S_ctx_flags),
      (0x34020000, S_ctx_flags),
      (0x34030000, S_ctx_caps_v0),
      (0x34040000, S_ctx_caps_v0),
      (0x34030001, S_ctx_caps_v1),
      (0x34040001, S_ctx_caps_v1),
      (0x34090000, S_bcaps),
      (0x340a0000, S_bcaps),
      (0x340d0000, S_umask),
      (0x340e0000, S_umask),
      (0x14050000, S_badness),
      (0x14060000, S_badness),
      (0x2010000, S_vhi_name),
      (0x2020000, S_vhi_name),
      (0x28030000, S_virt_stat),
      (0x6010000, S_mapping),
      (0x6020000, S_mapping),
      (0x24010000, S_dlimit_base),
      (0x24020000, S_dlimit_base),
      (0x24050000, S_dlimit),
      (0x24060000, S_dlimit),
      (0x26010001, S_iattr),
      (0x26020001, S_iattr),
      (0x26030000, S_fiattr),
      (0x26040000, S_fiattr),
      (0x3c010000, S_rlimit),
      (0x3c020000, S_rlimit),
      (0x3c030000, S_rlimit_mask),
      (0x3c090000, S_null),
      (0x28010000, S_rlimit_stat),
      (0x2e020000, S_null),
      (0x2e060000, S_nx_info),
      (0x19010001, S_null),
      (0x1b010000, S_null),
      (0x1a010000, S_net_addr_v0),
      (0x1a020000, S_net_addr_v0),
      (0x1a010001, S_net_ipv4),
      (0x1a020001, S_net_ipv4),
      (0x1a030001, S_net_ipv6),
      (0x1a040001, S_net_ipv6),
      (0x34050000, S_net_flags),
      (0x34060000, S_net_flags),
      (0x34070000, S_net_caps),
      (0x34080000, S_net_caps),
      (0xe010002, S_sched_v2),
      (0xe010003, S_sched_v3),
      (0xe010004, S_sched_v4),
      (0xe010005, S_sched_v5),
      (0xe020005, S_sched_v5),
      (0xe030000, S_sched_info),
      (0xc010000, S_ctx_kill),
      (0x30630000, S_wait_exit),
      (0xa010000, S_null),
      (0xa010001, S_space_v1),
      (0xa010002, S_space_v2),
      (0xa020000, S_null),
      (0xa030000, S_null),
      (0xa030001, S_space_v1),
      (0xa030002, S_space_v2),
      (0xa040000, S_space_v1),
      (0x36000001, S_space_v1),
      (0x36010000, S_space_v1),
      (0x2e030000, S_null),
      (0x23010000, S_null),
      (0x3f010001, S_new_s_context),
      (0x3f020003, S_ipv4root)]"
  by (simp add: COMMANDS_def command_numbers)

lemma command_structs [simp]:
  "map_of COMMANDS VCMD_get_version = Some S_null"
  "map_of COMMANDS VCMD_get_vci = Some S_null"
  "map_of COMMANDS VCMD_task_xid = Some S_null"
  "map_of COMMANDS VCMD_vx_info = Some S_vx_info"
  "map_of COMMANDS VCMD_ctx_stat = Some S_ctx_stat"
  "map_of COMMANDS VCMD_ctx_create_v0 = Some S_null"
  "map_of COMMANDS VCMD_ctx_create_v1 = Some S_ctx_create"
  "map_of COMMANDS VCMD_ctx_migrate_v0 = Some S_null"
  "map_of COMMANDS VCMD_ctx_migrate_v1 = Some S_ctx_migrate"
  "map_of COMMANDS VCMD_get_cflags = Some S_ctx_flags"
  "map_of COMMANDS VCMD_set_cflags = Some S_ctx_flags"
  "map_of COMMANDS VCMD_get_ccaps_v0 = Some S_ctx_caps_v0"
  "map_of COMMANDS VCMD_set_ccaps_v0 = Some S_ctx_caps_v0"
  "map_of COMMANDS VCMD_get_ccaps = Some S_ctx_caps_v1"
  "map_of COMMANDS VCMD_set_ccaps = Some S_ctx_caps_v1"
  "map_of COMMANDS VCMD_get_bcaps = Some S_bcaps"
  "map_of COMMANDS VCMD_set_bcaps = Some S_bcaps"
  "map_of COMMANDS VCMD_get_umask = Some S_umask"
  "map_of COMMANDS VCMD_set_umask = Some S_umask"
  "map_of COMMANDS VCMD_get_badness = Some S_badness"
  "map_of COMMANDS VCMD_set_badness = Some S_badness"
  "map_of COMMANDS VCMD_set_vhi_name = Some S_vhi_name"
  "map_of COMMANDS VCMD_get_vhi_name = Some S_vhi_name"
  "map_of COMMANDS VCMD_virt_stat = Some S_virt_stat"
  "map_of COMMANDS VCMD_set_mapping = Some S_mapping"
  "map_of COMMANDS VCMD_unset_mapping = Some S_mapping"
  "map_of COMMANDS VCMD_add_dlimit = Some S_dlimit_base"
  "map_of COMMANDS VCMD_rem_dlimit = Some S_dlimit_base"
  "map_of COMMANDS VCMD_set_dlimit = Some S_dlimit"
  "map_of COMMANDS VCMD_get_dlimit = Some S_dlimit"
  "map_of COMMANDS VCMD_get_iattr = Some S_iattr"
  "map_of COMMANDS VCMD_set_iattr = Some S_iattr"
  "map_of COMMANDS VCMD_fget_iattr = Some S_fiattr"
  "map_of COMMANDS VCMD_fset_iattr = Some S_fiattr"
  "map_of COMMANDS VCMD_get_rlimit = Some S_rlimit"
  "map_of COMMANDS VCMD_set_rlimit = Some S_rlimit"
  "map_of COMMANDS VCMD_get_rlimit_mask = Some S_rlimit_mask"
  "map_of COMMANDS VCMD_reset_minmax = Some S_null"
  "map_of COMMANDS VCMD_rlimit_stat = Some S_rlimit_stat"
  "map_of COMMANDS VCMD_task_nid = Some S_null"
  "map_of COMMANDS VCMD_nx_info = Some S_nx_info"
  "map_of COMMANDS VCMD_net_create = Some S_null"
  "map_of COMMANDS VCMD_net_migrate = Some S_null"
  "map_of COMMANDS VCMD_net_add_v0 = Some S_net_addr_v0"
  "map_of COMMANDS VCMD_net_remove_v0 = Some S_net_addr_v0"
  "map_of COMMANDS VCMD_net_add_ipv4_v1 = Some S_net_ipv4"
  "map_of COMMANDS VCMD_net_remove_ipv4_v1 = Some S_net_ipv4"
  "map_of COMMANDS VCMD_net_add_ipv6 = Some S_net_ipv6"
  "map_of COMMANDS VCMD_net_remove_ipv6 = Some S_net_ipv6"
  "map_of COMMANDS VCMD_get_nflags = Some S_net_flags"
  "map_of COMMANDS VCMD_set_nflags = Some S_net_flags"
  "map_of COMMANDS VCMD_get_ncaps = Some S_net_caps"
  "map_of COMMANDS VCMD_set_ncaps = Some S_net_caps"
  "map_of COMMANDS VCMD_set_sched_v2 = Some S_sched_v2"
  "map_of COMMANDS VCMD_set_sched_v3 = Some S_sched_v3"
  "map_of COMMANDS VCMD_set_sched_v4 = Some S_sched_v4"
  "map_of COMMANDS VCMD_set_sched = Some S_sched_v5"
  "map_of COMMANDS VCMD_get_sched = Some S_sched_v5"
  "map_of COMMANDS VCMD_sched_info = Some S_sched_info"
  "map_of COMMANDS VCMD_ctx_kill = Some S_ctx_kill"
  "map_of COMMANDS VCMD_wait_exit = Some S_wait_exit"
  "map_of COMMANDS VCMD_enter_space_v0 = Some S_null"
  "map_of COMMANDS VCMD_enter_space_v1 = Some S_space_v1"
  "map_of COMMANDS VCMD_enter_space = Some S_space_v2"
  "map_of COMMANDS VCMD_cleanup_namespace = Some S_null"
  "map_of COMMANDS VCMD_set_space_v0 = Some S_null"
  "map_of COMMANDS VCMD_set_space_v1 = Some S_space_v1"
  "map_of COMMANDS VCMD_set_space = Some S_space_v2"
  "map_of COMMANDS VCMD_get_space_mask_v0 = Some S_space_v1"
  "map_of COMMANDS VCMD_get_space_mask = Some S_space_v1"
  "map_of COMMANDS VCMD_get_space_default = Some S_space_v1"
  "map_of COMMANDS VCMD_task_tag = Some S_null"
  "map_of COMMANDS VCMD_tag_migrate = Some S_null"
  "map_of COMMANDS VCMD_new_s_context = Some S_new_s_context"
  "map_of COMMANDS VCMD_set_ipv4root = Some S_ipv4root"
  by (simp_all add: COMMANDS_numbers command_numbers)

end
