(* ===== verification/SysCall.thy ===== *)
theory SysCall
  imports KernelCmd NumParse "HOL-Library.State_Monad"
begin

text \<open>
  The way from the library to the kernel, after \<^verbatim>\<open>lib/vserver-internal.h\<close>: the conversions of identifiers and
  special values, the \<^verbatim>\<open>vserver\<close> system call and the macro \<^verbatim>\<open>CALL_VC\<close>, which selects the newest interface
  that was compiled in and that the running kernel knows. A wrapper is a state monad; the state holds \<^verbatim>\<open>errno\<close>, the
  kernel's own state and, for the statements, the list of calls that were made.
\<close>

section \<open>Identifiers and special values\<close>

definition VC_DYNAMIC_XID :: xid_t where "VC_DYNAMIC_XID = - 1"
definition VC_NONID :: xid_t where "VC_NONID = - 1"
definition VC_DYNAMIC_NID :: xid_t where "VC_DYNAMIC_NID = - 1"

definition CTX_KERNEL2USER :: "u32 \<Rightarrow> xid_t" where
  "CTX_KERNEL2USER x = (if x = - 1 then VC_NOCTX else if x = - 2 then VC_SAMECTX else x)"

definition CTX_USER2KERNEL :: "xid_t \<Rightarrow> u32" where
  "CTX_USER2KERNEL x = (if x = VC_DYNAMIC_XID then - 1 else if x = VC_SAMECTX then - 2 else x)"

definition TAG_KERNEL2USER :: "u32 \<Rightarrow> xid_t" where
  "TAG_KERNEL2USER x = (if x = - 1 then VC_NOCTX else if x = - 2 then VC_SAMECTX else x)"

definition TAG_USER2KERNEL :: "xid_t \<Rightarrow> u32" where
  "TAG_USER2KERNEL x = (if x = VC_DYNAMIC_XID then - 1 else if x = VC_SAMECTX then - 2 else x)"

definition NID_KERNEL2USER :: "u32 \<Rightarrow> xid_t" where
  "NID_KERNEL2USER x = (if x = - 1 then VC_NONID else x)"

definition NID_USER2KERNEL :: "xid_t \<Rightarrow> u32" where
  "NID_USER2KERNEL x = (if x = VC_DYNAMIC_NID then - 1 else x)"

lemma id_conversions [simp]:
  "CTX_KERNEL2USER x = x" "CTX_USER2KERNEL x = x" "TAG_KERNEL2USER x = x" "TAG_USER2KERNEL x = x"
  "NID_KERNEL2USER x = x" "NID_USER2KERNEL x = x"
  by (simp_all add: CTX_KERNEL2USER_def CTX_USER2KERNEL_def TAG_KERNEL2USER_def TAG_USER2KERNEL_def NID_KERNEL2USER_def
      NID_USER2KERNEL_def VC_NOCTX_def VC_SAMECTX_def VC_DYNAMIC_XID_def VC_NONID_def VC_DYNAMIC_NID_def)

definition EFAULT :: errno where "EFAULT = EOTHER 14"
definition E2BIG :: errno where "E2BIG = EOTHER 7"

section \<open>The system call\<close>

record 'k sst =
  sst_errno :: errno
  kst :: 'k
  sent :: "(u32 \<times> u32 \<times> kdata) list"

text \<open>The interfaces that \<^verbatim>\<open>configure\<close> may enable, and those that a wrapper may name.\<close>

datatype build = B_COMPAT | B_LEGACY | B_V11 | B_V13 | B_V13OBS | B_V21 | B_V22 | B_V23 | B_NET | B_NETV2 | B_FSCOMPAT
  | B_OLDPROC | B_OLDUTS

datatype api = A_COMPAT | A_LEGACY | A_V11 | A_V13 | A_V13A | A_V13B | A_V13OBS | A_V21 | A_SPACES | A_TAG | A_V22 | A_V23
  | A_V23P | A_NET | A_NETV2 | A_FSCOMPAT | A_OLDPROC | A_OLDUTS

text \<open>
  The surroundings of a wrapper: the kernel, which returns a value, an error number that counts only for \<open>-1\<close>, the
  structure and its new state; what is in a structure that was not filled; the answers of \<open>checkCompatVersion\<close> and
  \<open>checkCompatConfig\<close>; and what was compiled in.
\<close>

record 'k sysenv =
  se_kernel :: "u32 \<Rightarrow> u32 \<Rightarrow> kdata \<Rightarrow> 'k \<Rightarrow> int \<times> errno \<times> kdata \<times> 'k"
  se_uninit :: "kstruct \<Rightarrow> kdata"
  se_version :: "int \<times> errno"
  se_config :: u64
  se_built :: "build \<Rightarrow> bool"

definition set_errno :: "errno \<Rightarrow> ('k sst, unit) state" where
  "set_errno e = State (\<lambda>s. ((), s\<lparr>sst_errno := e\<rparr>))"

definition vserver :: "'k sysenv \<Rightarrow> u32 \<Rightarrow> u32 \<Rightarrow> kdata \<Rightarrow> ('k sst, int \<times> kdata) state" where
  "vserver h cmd ident data =
     State (\<lambda>s.
       (let (rc, e, d, k) = se_kernel h cmd ident data (kst s)
        in ((rc, d), s\<lparr>sst_errno := (if rc = - 1 then e else sst_errno s), kst := k, sent := sent s @ [(cmd, ident, data)]\<rparr>)))"

text \<open>A call whose structure is not read afterwards.\<close>

definition vserver_in :: "'k sysenv \<Rightarrow> u32 \<Rightarrow> u32 \<Rightarrow> kdata \<Rightarrow> ('k sst, int) state" where
  "vserver_in h cmd ident data = do { (rc, _) \<leftarrow> vserver h cmd ident data; State_Monad.return rc }"

definition fail :: "errno \<Rightarrow> 'a \<Rightarrow> ('k sst, 'a) state" where
  "fail e r = do { set_errno e; State_Monad.return r }"

section \<open>The choice of an interface\<close>

fun api_built :: "(build \<Rightarrow> bool) \<Rightarrow> api \<Rightarrow> bool" where
  "api_built b A_COMPAT = b B_COMPAT"
| "api_built b A_LEGACY = b B_LEGACY"
| "api_built b A_V11 = b B_V11"
| "api_built b A_V13 = b B_V13"
| "api_built b A_V13A = b B_V13"
| "api_built b A_V13B = b B_V13"
| "api_built b A_V13OBS = b B_V13OBS"
| "api_built b A_V21 = b B_V21"
| "api_built b A_SPACES = (b B_V21 \<or> b B_V22 \<or> b B_V23)"
| "api_built b A_TAG = b B_V23"
| "api_built b A_V22 = b B_V22"
| "api_built b A_V23 = b B_V23"
| "api_built b A_V23P = b B_V23"
| "api_built b A_NET = b B_NET"
| "api_built b A_NETV2 = b B_NETV2"
| "api_built b A_FSCOMPAT = b B_FSCOMPAT"
| "api_built b A_OLDPROC = b B_OLDPROC"
| "api_built b A_OLDUTS = b B_OLDUTS"

definition VC_VCI_NETV2 :: nat where "VC_VCI_NETV2 = 11"

fun api_selected :: "int \<Rightarrow> u64 \<Rightarrow> api \<Rightarrow> bool" where
  "api_selected ver conf A_COMPAT = (ver \<ge> 0x00010000)"
| "api_selected ver conf A_LEGACY = (ver \<ge> 0x00000000)"
| "api_selected ver conf A_V11 = (ver \<ge> 0x00010000)"
| "api_selected ver conf A_V13 = (ver \<ge> 0x00010011)"
| "api_selected ver conf A_V13A = (ver \<ge> 0x00010012)"
| "api_selected ver conf A_V13B = (ver \<ge> 0x00010021)"
| "api_selected ver conf A_V13OBS = (ver \<ge> 0x00010011)"
| "api_selected ver conf A_V21 = (ver \<ge> 0x00020100)"
| "api_selected ver conf A_SPACES = (conf AND 2 ^ VC_VCI_SPACES = 2 ^ VC_VCI_SPACES)"
| "api_selected ver conf A_TAG = (conf AND 2 ^ VC_VCI_PPTAG = 2 ^ VC_VCI_PPTAG)"
| "api_selected ver conf A_V22 = (ver \<ge> 0x00020200)"
| "api_selected ver conf A_V23 = (ver \<ge> 0x00020300)"
| "api_selected ver conf A_V23P = (ver \<ge> 0x00020304)"
| "api_selected ver conf A_NET = (ver \<ge> 0x00010016)"
| "api_selected ver conf A_NETV2 = (conf AND 2 ^ VC_VCI_NETV2 = 2 ^ VC_VCI_NETV2)"
| "api_selected ver conf A_FSCOMPAT = (ver \<ge> 0x00010000)"
| "api_selected ver conf A_OLDPROC = (ver \<ge> 0x00000000)"
| "api_selected ver conf A_OLDUTS = (ver \<ge> 0x00000000)"

fun call_alts :: "(api \<Rightarrow> bool) \<Rightarrow> (api \<times> ('k sst, 'a) state) list \<Rightarrow> 'a \<Rightarrow> ('k sst, 'a) state" where
  "call_alts ok [] bad = fail ENOSYS bad"
| "call_alts ok ((a, f) # alts) bad = (if ok a then f else call_alts ok alts bad)"

text \<open>
  \<^verbatim>\<open>CALL_VC\<close>. Files that know only one interface are compiled without \<^verbatim>\<open>VC_MULTIVERSION_SYSCALL\<close> and do not
  look at the version; \<open>multi\<close> tells which case it is. The argument \<open>bad\<close> is the \<open>-1\<close> of the wrapper's type.
\<close>

definition CALL_VC :: "'k sysenv \<Rightarrow> bool \<Rightarrow> (api \<times> ('k sst, 'a) state) list \<Rightarrow> 'a \<Rightarrow> ('k sst, 'a) state" where
  "CALL_VC h multi alts bad =
     (if multi then
        do {
          set_errno (snd (se_version h));
          if fst (se_version h) = - 1 then State_Monad.return bad
          else call_alts (\<lambda>a. api_built (se_built h) a \<and> api_selected (fst (se_version h)) (se_config h) a) alts bad
        }
      else call_alts (api_built (se_built h)) alts bad)"

end
