(* ===== verification/SysCtx.thy ===== *)
theory SysCtx
  imports SysCall Attributes DiskLimits
begin

text \<open>
  The wrappers of the system calls for contexts: the files \<^verbatim>\<open>lib/syscall_*.c\<close>, which choose the interface, and
  \<^verbatim>\<open>lib/syscall_*.hc\<close>, one per interface, which fill the structures and read the answers. Null pointers are
  \<open>None\<close>; a wrapper with an output parameter returns its new contents beside the value.
\<close>

abbreviation ret :: "'a \<Rightarrow> ('s, 'a) state" where
  "ret \<equiv> State_Monad.return"

text \<open>A getter whose output must not be null, and its result when the interface is missing.\<close>

definition bad_out :: "'o option \<Rightarrow> int \<times> 'o option" where
  "bad_out p = (- 1, p)"

section \<open>Capabilities and flags\<close>

fun caps_v0_of :: "kdata \<Rightarrow> u64 \<times> u64 \<times> u64" where "caps_v0_of (D_ctx_caps_v0 b c m) = (b, c, m)"
fun caps_v1_of :: "kdata \<Rightarrow> u64 \<times> u64" where "caps_v1_of (D_ctx_caps_v1 c m) = (c, m)"
fun bcaps_of :: "kdata \<Rightarrow> u64 \<times> u64" where "bcaps_of (D_bcaps b m) = (b, m)"
fun ctx_flags_of :: "kdata \<Rightarrow> u64 \<times> u64" where "ctx_flags_of (D_ctx_flags f m) = (f, m)"
fun umask_of :: "kdata \<Rightarrow> u64 \<times> u64" where "umask_of (D_umask u m) = (u, m)"

definition vc_get_ccaps_v13 :: "'k sysenv \<Rightarrow> xid_t \<Rightarrow> vc_ctx_caps \<Rightarrow> ('k sst, int \<times> vc_ctx_caps) state" where
  "vc_get_ccaps_v13 h xid caps =
     do {
       (res, k) \<leftarrow> vserver h VCMD_get_ccaps_v0 (CTX_USER2KERNEL xid) (se_uninit h S_ctx_caps_v0);
       let (b, c, m) = caps_v0_of k;
       ret (res, caps\<lparr>cc_bcaps := b, cc_bmask := NOT 0, cc_ccaps := c, cc_cmask := m\<rparr>)
     }"

definition vc_get_ccaps_v21 :: "'k sysenv \<Rightarrow> xid_t \<Rightarrow> vc_ctx_caps \<Rightarrow> ('k sst, int \<times> vc_ctx_caps) state" where
  "vc_get_ccaps_v21 h xid caps =
     do {
       (res, k_ccaps) \<leftarrow> vserver h VCMD_get_ccaps (CTX_USER2KERNEL xid) (se_uninit h S_ctx_caps_v1);
       if res \<noteq> 0 then ret (res, caps)
       else
         do {
           (res, k_bcaps) \<leftarrow> vserver h VCMD_get_bcaps (CTX_USER2KERNEL xid) (se_uninit h S_bcaps);
           if res \<noteq> 0 then ret (res, caps)
           else ret (res, caps\<lparr>cc_bcaps := fst (bcaps_of k_bcaps), cc_bmask := snd (bcaps_of k_bcaps),
                               cc_ccaps := fst (caps_v1_of k_ccaps), cc_cmask := snd (caps_v1_of k_ccaps)\<rparr>)
         }
     }"

definition vc_get_ccaps :: "'k sysenv \<Rightarrow> bool \<Rightarrow> xid_t \<Rightarrow> vc_ctx_caps option \<Rightarrow> ('k sst, int \<times> vc_ctx_caps option) state" where
  "vc_get_ccaps h multi xid caps =
     (case caps of
        None \<Rightarrow> fail EFAULT (bad_out caps)
      | Some c \<Rightarrow>
          CALL_VC h multi
            [(A_V21, do { (r, c') \<leftarrow> vc_get_ccaps_v21 h xid c; ret (r, Some c') }),
             (A_V13A, do { (r, c') \<leftarrow> vc_get_ccaps_v13 h xid c; ret (r, Some c') })] (bad_out caps))"

definition vc_set_ccaps_v13 :: "'k sysenv \<Rightarrow> xid_t \<Rightarrow> vc_ctx_caps \<Rightarrow> ('k sst, int) state" where
  "vc_set_ccaps_v13 h xid caps =
     vserver_in h VCMD_set_ccaps_v0 (CTX_USER2KERNEL xid)
       (D_ctx_caps_v0 (cc_bcaps caps AND cc_bmask caps OR NOT (cc_bmask caps)) (cc_ccaps caps) (cc_cmask caps))"

definition vc_set_ccaps_v21 :: "'k sysenv \<Rightarrow> xid_t \<Rightarrow> vc_ctx_caps \<Rightarrow> ('k sst, int) state" where
  "vc_set_ccaps_v21 h xid caps =
     do {
       r \<leftarrow> vserver_in h VCMD_set_ccaps (CTX_USER2KERNEL xid) (D_ctx_caps_v1 (cc_ccaps caps) (cc_cmask caps));
       if r \<noteq> 0 then ret r
       else vserver_in h VCMD_set_bcaps (CTX_USER2KERNEL xid) (D_bcaps (cc_bcaps caps) (cc_bmask caps))
     }"

definition vc_set_ccaps :: "'k sysenv \<Rightarrow> bool \<Rightarrow> xid_t \<Rightarrow> vc_ctx_caps option \<Rightarrow> ('k sst, int) state" where
  "vc_set_ccaps h multi xid caps =
     (case caps of
        None \<Rightarrow> fail EFAULT (- 1)
      | Some c \<Rightarrow> CALL_VC h multi [(A_V21, vc_set_ccaps_v21 h xid c), (A_V13A, vc_set_ccaps_v13 h xid c)] (- 1))"

definition vc_get_cflags_v13 :: "'k sysenv \<Rightarrow> xid_t \<Rightarrow> vc_ctx_flags option \<Rightarrow> ('k sst, int \<times> vc_ctx_flags option) state" where
  "vc_get_cflags_v13 h xid flags =
     (case flags of
        None \<Rightarrow> fail EFAULT (bad_out flags)
      | Some f \<Rightarrow>
          do {
            (res, k) \<leftarrow> vserver h VCMD_get_cflags (CTX_USER2KERNEL xid) (se_uninit h S_ctx_flags);
            ret (res, Some (f\<lparr>cf_flagword := fst (ctx_flags_of k), cf_mask := snd (ctx_flags_of k)\<rparr>))
          })"

definition vc_get_cflags :: "'k sysenv \<Rightarrow> xid_t \<Rightarrow> vc_ctx_flags option \<Rightarrow> ('k sst, int \<times> vc_ctx_flags option) state" where
  "vc_get_cflags h xid flags = CALL_VC h False [(A_V13A, vc_get_cflags_v13 h xid flags)] (bad_out flags)"

definition vc_set_cflags_v13 :: "'k sysenv \<Rightarrow> xid_t \<Rightarrow> vc_ctx_flags option \<Rightarrow> ('k sst, int) state" where
  "vc_set_cflags_v13 h xid flags =
     (case flags of
        None \<Rightarrow> fail EFAULT (- 1)
      | Some f \<Rightarrow> vserver_in h VCMD_set_cflags (CTX_USER2KERNEL xid) (D_ctx_flags (cf_flagword f) (cf_mask f)))"

definition vc_set_cflags :: "'k sysenv \<Rightarrow> xid_t \<Rightarrow> vc_ctx_flags option \<Rightarrow> ('k sst, int) state" where
  "vc_set_cflags h xid flags =
     (case flags of
        None \<Rightarrow> fail EFAULT (- 1)
      | Some f \<Rightarrow> CALL_VC h False [(A_V13A, vc_set_cflags_v13 h xid flags)] (- 1))"

definition vc_get_umask_v23 :: "'k sysenv \<Rightarrow> xid_t \<Rightarrow> vc_umask \<Rightarrow> ('k sst, int \<times> vc_umask) state" where
  "vc_get_umask_v23 h xid u =
     do {
       (res, k) \<leftarrow> vserver h VCMD_get_umask (CTX_USER2KERNEL xid) (se_uninit h S_umask);
       ret (res, u\<lparr>um_umask := fst (umask_of k), um_mask := snd (umask_of k)\<rparr>)
     }"

definition vc_get_umask :: "'k sysenv \<Rightarrow> xid_t \<Rightarrow> vc_umask option \<Rightarrow> ('k sst, int \<times> vc_umask option) state" where
  "vc_get_umask h xid u =
     (case u of
        None \<Rightarrow> fail EFAULT (bad_out u)
      | Some v \<Rightarrow> CALL_VC h False [(A_V23, do { (r, v') \<leftarrow> vc_get_umask_v23 h xid v; ret (r, Some v') })] (bad_out u))"

definition vc_set_umask_v23 :: "'k sysenv \<Rightarrow> xid_t \<Rightarrow> vc_umask \<Rightarrow> ('k sst, int) state" where
  "vc_set_umask_v23 h xid u = vserver_in h VCMD_set_umask (CTX_USER2KERNEL xid) (D_umask (um_umask u) (um_mask u))"

definition vc_set_umask :: "'k sysenv \<Rightarrow> xid_t \<Rightarrow> vc_umask option \<Rightarrow> ('k sst, int) state" where
  "vc_set_umask h xid u =
     (case u of None \<Rightarrow> fail EFAULT (- 1) | Some v \<Rightarrow> CALL_VC h False [(A_V23, vc_set_umask_v23 h xid v)] (- 1))"

section \<open>Creating, entering and watching contexts\<close>

definition vc_ctx_create_v13 :: "'k sysenv \<Rightarrow> xid_t \<Rightarrow> vc_ctx_flags option \<Rightarrow> ('k sst, xid_t) state" where
  "vc_ctx_create_v13 h xid flags =
     do {
       res \<leftarrow> vserver_in h VCMD_ctx_create_v0 (CTX_USER2KERNEL xid) D_null;
       _ \<leftarrow> (case flags of None \<Rightarrow> ret 0 | Some f \<Rightarrow> vc_set_cflags h xid flags);
       ret (CTX_KERNEL2USER (word_of_int res))
     }"

definition vc_ctx_create_v21 :: "'k sysenv \<Rightarrow> xid_t \<Rightarrow> vc_ctx_flags option \<Rightarrow> ('k sst, xid_t) state" where
  "vc_ctx_create_v21 h xid flags =
     do {
       let flagword = (case flags of
                         None \<Rightarrow> VC_VXF_STATE_SETUP OR VC_VXF_STATE_ADMIN OR VC_VXF_STATE_INIT
                       | Some f \<Rightarrow> cf_flagword f AND cf_mask f);
       res \<leftarrow> vserver_in h VCMD_ctx_create_v1 (CTX_USER2KERNEL xid) (D_ctx_create flagword);
       ret (CTX_KERNEL2USER (word_of_int res))
     }"

definition vc_ctx_create :: "'k sysenv \<Rightarrow> bool \<Rightarrow> xid_t \<Rightarrow> vc_ctx_flags option \<Rightarrow> ('k sst, xid_t) state" where
  "vc_ctx_create h multi xid flags =
     CALL_VC h multi [(A_V21, vc_ctx_create_v21 h xid flags), (A_V13A, vc_ctx_create_v13 h xid flags)] (- 1)"

definition vc_ctx_migrate_v13 :: "'k sysenv \<Rightarrow> xid_t \<Rightarrow> ('k sst, int) state" where
  "vc_ctx_migrate_v13 h xid = vserver_in h VCMD_ctx_migrate_v0 (CTX_USER2KERNEL xid) D_null"

definition vc_ctx_migrate_spaces :: "'k sysenv \<Rightarrow> xid_t \<Rightarrow> u64 \<Rightarrow> ('k sst, int) state" where
  "vc_ctx_migrate_spaces h xid flags = vserver_in h VCMD_ctx_migrate_v1 (CTX_USER2KERNEL xid) (D_ctx_migrate flags)"

definition vc_ctx_migrate :: "'k sysenv \<Rightarrow> bool \<Rightarrow> xid_t \<Rightarrow> u64 \<Rightarrow> ('k sst, int) state" where
  "vc_ctx_migrate h multi xid flags =
     CALL_VC h multi [(A_SPACES, vc_ctx_migrate_spaces h xid flags), (A_V13A, vc_ctx_migrate_v13 h xid)] (- 1)"

record vc_ctx_stat_struct =
  cs_usecnt :: u32
  cs_tasks :: u32

fun ctx_stat_of :: "kdata \<Rightarrow> u32 \<times> u32" where "ctx_stat_of (D_ctx_stat u t) = (u, t)"

definition vc_ctx_stat_v21 :: "'k sysenv \<Rightarrow> xid_t \<Rightarrow> vc_ctx_stat_struct \<Rightarrow> ('k sst, int \<times> vc_ctx_stat_struct) state" where
  "vc_ctx_stat_v21 h ctx st =
     do {
       (r, k) \<leftarrow> vserver h VCMD_ctx_stat (CTX_USER2KERNEL ctx) (se_uninit h S_ctx_stat);
       if r \<noteq> 0 then ret (r, st)
       else ret (0, st\<lparr>cs_usecnt := fst (ctx_stat_of k), cs_tasks := snd (ctx_stat_of k)\<rparr>)
     }"

definition vc_ctx_stat :: "'k sysenv \<Rightarrow> xid_t \<Rightarrow> vc_ctx_stat_struct \<Rightarrow> ('k sst, int \<times> vc_ctx_stat_struct) state" where
  "vc_ctx_stat h ctx st = CALL_VC h False [(A_V21, vc_ctx_stat_v21 h ctx st)] (- 1, st)"

record vc_vx_info =
  vi_xid :: xid_t
  vi_initpid :: u32

fun vx_info_of :: "kdata \<Rightarrow> u32 \<times> u32" where "vx_info_of (D_vx_info x p) = (x, p)"

definition vc_get_vx_info_v13 :: "'k sysenv \<Rightarrow> xid_t \<Rightarrow> vc_vx_info \<Rightarrow> ('k sst, int \<times> vc_vx_info) state" where
  "vc_get_vx_info_v13 h xid info =
     (if xid = 0 \<or> xid = 1 then ret (0, info\<lparr>vi_xid := xid, vi_initpid := - 1\<rparr>)
      else
        do {
          (rc, k) \<leftarrow> vserver h VCMD_vx_info (CTX_USER2KERNEL xid) (se_uninit h S_vx_info);
          if rc = - 1 then ret (- 1, info)
          else ret (rc, info\<lparr>vi_xid := CTX_KERNEL2USER (fst (vx_info_of k)), vi_initpid := snd (vx_info_of k)\<rparr>)
        })"

definition vc_get_vx_info_oldproc :: "vc_vx_info \<Rightarrow> ('k sst, int \<times> vc_vx_info) state" where
  "vc_get_vx_info_oldproc info = fail ENOSYS (- 1, info)"

definition vc_get_vx_info :: "'k sysenv \<Rightarrow> bool \<Rightarrow> xid_t \<Rightarrow> vc_vx_info option \<Rightarrow> ('k sst, int \<times> vc_vx_info option) state" where
  "vc_get_vx_info h multi xid info =
     (case info of
        None \<Rightarrow> fail EFAULT (bad_out info)
      | Some i \<Rightarrow>
          CALL_VC h multi
            [(A_V13, do { (r, i') \<leftarrow> vc_get_vx_info_v13 h xid i; ret (r, Some i') }),
             (A_OLDPROC, do { (r, i') \<leftarrow> vc_get_vx_info_oldproc i; ret (r, Some i') })] (bad_out info))"

definition vc_get_task_xid_v13 :: "'k sysenv \<Rightarrow> u32 \<Rightarrow> ('k sst, xid_t) state" where
  "vc_get_task_xid_v13 h pid =
     do { res \<leftarrow> vserver_in h VCMD_task_xid pid D_null; ret (CTX_KERNEL2USER (word_of_int res)) }"

definition vc_get_version :: "'k sysenv \<Rightarrow> ('k sst, int) state" where
  "vc_get_version h = vserver_in h VCMD_get_version VC_CAT_COMPAT D_null"

definition vc_ctx_kill_v11 :: "'k sysenv \<Rightarrow> xid_t \<Rightarrow> u32 \<Rightarrow> u32 \<Rightarrow> ('k sst, int) state" where
  "vc_ctx_kill_v11 h ctx pid sig = vserver_in h VCMD_ctx_kill (CTX_USER2KERNEL ctx) (D_ctx_kill pid sig)"

definition vc_ctx_kill :: "'k sysenv \<Rightarrow> xid_t \<Rightarrow> u32 \<Rightarrow> u32 \<Rightarrow> ('k sst, int) state" where
  "vc_ctx_kill h ctx pid sig =
     CALL_VC h False [(A_V11, vc_ctx_kill_v11 h ctx pid sig), (A_V13, vc_ctx_kill_v11 h ctx pid sig)] (- 1)"

definition vc_wait_exit_v13b :: "'k sysenv \<Rightarrow> xid_t \<Rightarrow> ('k sst, int) state" where
  "vc_wait_exit_v13b h ctx = vserver_in h VCMD_wait_exit (CTX_USER2KERNEL ctx) (D_wait_exit 0 0)"

definition vc_wait_exit :: "'k sysenv \<Rightarrow> xid_t \<Rightarrow> ('k sst, int) state" where
  "vc_wait_exit h ctx = CALL_VC h False [(A_V13B, vc_wait_exit_v13b h ctx)] (- 1)"

definition vc_get_vci_v21 :: "'k sysenv \<Rightarrow> ('k sst, u64) state" where
  "vc_get_vci_v21 h = do { r \<leftarrow> vserver_in h VCMD_get_vci 0 D_null; ret (word_of_int r) }"

definition vc_get_vci :: "'k sysenv \<Rightarrow> ('k sst, u64) state" where
  "vc_get_vci h = CALL_VC h False [(A_V21, vc_get_vci_v21 h)] (- 1)"

definition vc_reset_minmax_v21 :: "'k sysenv \<Rightarrow> xid_t \<Rightarrow> ('k sst, int) state" where
  "vc_reset_minmax_v21 h ctx = vserver_in h VCMD_reset_minmax (CTX_USER2KERNEL ctx) D_null"

definition vc_reset_minmax :: "'k sysenv \<Rightarrow> xid_t \<Rightarrow> ('k sst, int) state" where
  "vc_reset_minmax h ctx = CALL_VC h False [(A_V21, vc_reset_minmax_v21 h ctx)] (- 1)"

end
