(* ===== verification/SysMisc.thy ===== *)
theory SysMisc
  imports SysCtx
begin

text \<open>
  The wrappers for limits, the scheduler, disk limits, names of the virtual host, name spaces, device mappings and
  tags (\<^verbatim>\<open>lib/syscall_*\<close>). Signed fields of the structures are kept as words of their width.
\<close>

section \<open>Resource limits\<close>

definition CRLIM_INFINITY :: u64 where "CRLIM_INFINITY = NOT 0"
definition CRLIM_KEEP :: u64 where "CRLIM_KEEP = NOT 1"

definition KERN2USR :: "u64 \<Rightarrow> u64" where
  "KERN2USR l = (if l = CRLIM_INFINITY then VC_LIM_INFINITY else if l = CRLIM_KEEP then VC_LIM_KEEP else l)"

definition USR2KERN :: "u64 \<Rightarrow> u64" where
  "USR2KERN l = (if l = VC_LIM_INFINITY then CRLIM_INFINITY else if l = VC_LIM_KEEP then CRLIM_KEEP else l)"

fun rlimit_of :: "kdata \<Rightarrow> u64 \<times> u64 \<times> u64" where "rlimit_of (D_rlimit i m s x) = (m, s, x)"
fun rlimit_mask_of :: "kdata \<Rightarrow> u32 \<times> u32 \<times> u32" where "rlimit_mask_of (D_rlimit_mask m s x) = (m, s, x)"

text \<open>A structure that was not filled, but for its identifier.\<close>

fun with_id :: "u32 \<Rightarrow> kdata \<Rightarrow> kdata" where
  "with_id i (D_rlimit j m s x) = D_rlimit i m s x"
| "with_id i (D_rlimit_stat j a b c d) = D_rlimit_stat i a b c d"
| "with_id i d = d"

definition vc_get_rlimit_v11 :: "'k sysenv \<Rightarrow> xid_t \<Rightarrow> u32 \<Rightarrow> vc_rlimit \<Rightarrow> ('k sst, int \<times> vc_rlimit) state" where
  "vc_get_rlimit_v11 h ctx resource lim =
     do {
       (rc, k) \<leftarrow> vserver h VCMD_get_rlimit (CTX_USER2KERNEL ctx) (with_id resource (se_uninit h S_rlimit));
       let (m, s, x) = rlimit_of k;
       ret (rc, lim\<lparr>rl_min := KERN2USR m, rl_soft := KERN2USR s, rl_hard := KERN2USR x\<rparr>)
     }"

definition vc_get_rlimit :: "'k sysenv \<Rightarrow> xid_t \<Rightarrow> u32 \<Rightarrow> vc_rlimit \<Rightarrow> ('k sst, int \<times> vc_rlimit) state" where
  "vc_get_rlimit h ctx resource lim =
     CALL_VC h False [(A_V11, vc_get_rlimit_v11 h ctx resource lim), (A_V13, vc_get_rlimit_v11 h ctx resource lim)] (- 1, lim)"

definition vc_set_rlimit_v11 :: "'k sysenv \<Rightarrow> xid_t \<Rightarrow> u32 \<Rightarrow> vc_rlimit \<Rightarrow> ('k sst, int) state" where
  "vc_set_rlimit_v11 h ctx resource lim =
     vserver_in h VCMD_set_rlimit (CTX_USER2KERNEL ctx)
       (D_rlimit resource (USR2KERN (rl_min lim)) (USR2KERN (rl_soft lim)) (USR2KERN (rl_hard lim)))"

definition vc_set_rlimit :: "'k sysenv \<Rightarrow> xid_t \<Rightarrow> u32 \<Rightarrow> vc_rlimit \<Rightarrow> ('k sst, int) state" where
  "vc_set_rlimit h ctx resource lim =
     CALL_VC h False [(A_V11, vc_set_rlimit_v11 h ctx resource lim), (A_V13, vc_set_rlimit_v11 h ctx resource lim)] (- 1)"

record vc_rlimit_mask =
  rm_min :: u32
  rm_soft :: u32
  rm_hard :: u32

definition vc_get_rlimit_mask_v11 :: "'k sysenv \<Rightarrow> xid_t \<Rightarrow> vc_rlimit_mask \<Rightarrow> ('k sst, int \<times> vc_rlimit_mask) state" where
  "vc_get_rlimit_mask_v11 h ctx lim =
     do {
       (rc, k) \<leftarrow> vserver h VCMD_get_rlimit_mask (CTX_USER2KERNEL ctx) (se_uninit h S_rlimit_mask);
       let (m, s, x) = rlimit_mask_of k;
       ret (rc, lim\<lparr>rm_min := m, rm_soft := s, rm_hard := x\<rparr>)
     }"

definition vc_get_rlimit_mask :: "'k sysenv \<Rightarrow> xid_t \<Rightarrow> vc_rlimit_mask \<Rightarrow> ('k sst, int \<times> vc_rlimit_mask) state" where
  "vc_get_rlimit_mask h ctx lim =
     CALL_VC h False [(A_V11, vc_get_rlimit_mask_v11 h ctx lim), (A_V13, vc_get_rlimit_mask_v11 h ctx lim)] (- 1, lim)"

record vc_rlimit_stat_struct =
  rs_hits :: u32
  rs_value :: u64
  rs_minimum :: u64
  rs_maximum :: u64

fun rlimit_stat_of :: "kdata \<Rightarrow> u32 \<times> u64 \<times> u64 \<times> u64" where
  "rlimit_stat_of (D_rlimit_stat i h v m x) = (h, v, m, x)"

definition vc_rlimit_stat_v21 :: "'k sysenv \<Rightarrow> xid_t \<Rightarrow> u32 \<Rightarrow> vc_rlimit_stat_struct \<Rightarrow> ('k sst, int \<times> vc_rlimit_stat_struct) state" where
  "vc_rlimit_stat_v21 h ctx resource st =
     do {
       (r, k) \<leftarrow> vserver h VCMD_rlimit_stat (CTX_USER2KERNEL ctx) (D_rlimit_stat resource 0 0 0 0);
       if r \<noteq> 0 then ret (r, st)
       else
         (let (hits, v, m, x) = rlimit_stat_of k
          in ret (0, st\<lparr>rs_hits := hits, rs_value := v, rs_minimum := m, rs_maximum := x\<rparr>))
     }"

definition vc_rlimit_stat :: "'k sysenv \<Rightarrow> xid_t \<Rightarrow> u32 \<Rightarrow> vc_rlimit_stat_struct \<Rightarrow> ('k sst, int \<times> vc_rlimit_stat_struct) state" where
  "vc_rlimit_stat h ctx resource st = CALL_VC h False [(A_V21, vc_rlimit_stat_v21 h ctx resource st)] (- 1, st)"

section \<open>The scheduler\<close>

record vc_set_sched_struct =
  vs_set_mask :: u32
  vs_fill_rate :: u32
  vs_interval :: u32
  vs_fill_rate2 :: u32
  vs_interval2 :: u32
  vs_tokens :: u32
  vs_tokens_min :: u32
  vs_tokens_max :: u32
  vs_priority_bias :: u32
  vs_cpu_id :: u32
  vs_bucket_id :: u32

definition VC_VXSM_FILL_RATE :: u32 where "VC_VXSM_FILL_RATE = 0x0001"
definition VC_VXSM_INTERVAL :: u32 where "VC_VXSM_INTERVAL = 0x0002"
definition VC_VXSM_FILL_RATE2 :: u32 where "VC_VXSM_FILL_RATE2 = 0x0004"
definition VC_VXSM_INTERVAL2 :: u32 where "VC_VXSM_INTERVAL2 = 0x0008"
definition VC_VXSM_TOKENS :: u32 where "VC_VXSM_TOKENS = 0x0010"
definition VC_VXSM_TOKENS_MIN :: u32 where "VC_VXSM_TOKENS_MIN = 0x0020"
definition VC_VXSM_TOKENS_MAX :: u32 where "VC_VXSM_TOKENS_MAX = 0x0040"
definition VC_VXSM_PRIO_BIAS :: u32 where "VC_VXSM_PRIO_BIAS = 0x0100"
definition VC_VXSM_IDLE_TIME :: u32 where "VC_VXSM_IDLE_TIME = 0x0200"
definition VC_VXSM_FORCE :: u32 where "VC_VXSM_FORCE = 0x0400"
definition VC_VXSM_CPU_ID :: u32 where "VC_VXSM_CPU_ID = 0x1000"
definition VC_VXSM_BUCKET_ID :: u32 where "VC_VXSM_BUCKET_ID = 0x2000"
definition VC_VXSM_MSEC :: u32 where "VC_VXSM_MSEC = 0x4000"
definition VC_VXSM_V3_MASK :: u32 where "VC_VXSM_V3_MASK = 0x0173"
definition SCHED_KEEP :: u32 where "SCHED_KEEP = - 2"

definition VCGET :: "vc_set_sched_struct \<Rightarrow> u32 \<Rightarrow> u32 \<Rightarrow> u32" where
  "VCGET data msk val = (if vs_set_mask data AND msk \<noteq> 0 then val else SCHED_KEEP)"

definition vc_set_sched_v13obs :: "'k sysenv \<Rightarrow> xid_t \<Rightarrow> vc_set_sched_struct \<Rightarrow> ('k sst, int) state" where
  "vc_set_sched_v13obs h xid data =
     vserver_in h VCMD_set_sched_v2 (CTX_USER2KERNEL xid)
       (D_sched_v2 (VCGET data VC_VXSM_FILL_RATE (vs_fill_rate data)) (VCGET data VC_VXSM_INTERVAL (vs_interval data))
         (VCGET data VC_VXSM_TOKENS (vs_tokens data)) (VCGET data VC_VXSM_TOKENS_MIN (vs_tokens_min data))
         (VCGET data VC_VXSM_TOKENS_MAX (vs_tokens_max data)) 0)"

definition vc_set_sched_v13b :: "'k sysenv \<Rightarrow> xid_t \<Rightarrow> vc_set_sched_struct \<Rightarrow> ('k sst, int) state" where
  "vc_set_sched_v13b h xid data =
     vserver_in h VCMD_set_sched_v3 (CTX_USER2KERNEL xid)
       (D_sched_v3 (vs_set_mask data AND VC_VXSM_V3_MASK) (vs_fill_rate data) (vs_interval data) (vs_tokens data)
         (vs_tokens_min data) (vs_tokens_max data) (vs_priority_bias data))"

definition sched_v4 :: "vc_set_sched_struct \<Rightarrow> u32 \<Rightarrow> u32 \<Rightarrow> u32 \<Rightarrow> kdata" where
  "sched_v4 data msk rate interval =
     D_sched_v4 msk rate interval (vs_tokens data) (vs_tokens_min data) (vs_tokens_max data) (vs_priority_bias data)
       (vs_cpu_id data) (vs_bucket_id data)"

definition vc_set_sched_v21 :: "'k sysenv \<Rightarrow> xid_t \<Rightarrow> vc_set_sched_struct \<Rightarrow> ('k sst, int) state" where
  "vc_set_sched_v21 h xid data =
     (let m = vs_set_mask data; second = VC_VXSM_FILL_RATE2 OR VC_VXSM_INTERVAL2 OR VC_VXSM_FORCE
      in if m AND VC_VXSM_FILL_RATE2 \<noteq> 0 \<and> vs_fill_rate data \<noteq> vs_fill_rate2 data \<or>
            m AND VC_VXSM_INTERVAL2 \<noteq> 0 \<and> vs_interval data \<noteq> vs_interval2 data
         then
           do {
             r \<leftarrow> vserver_in h VCMD_set_sched_v4 (CTX_USER2KERNEL xid)
                   (sched_v4 data (m AND NOT second) (vs_fill_rate data) (vs_interval data));
             if r \<noteq> 0 then ret r
             else vserver_in h VCMD_set_sched_v4 (CTX_USER2KERNEL xid)
                    (sched_v4 data (m AND (second OR VC_VXSM_IDLE_TIME OR VC_VXSM_CPU_ID OR VC_VXSM_BUCKET_ID))
                      (vs_fill_rate2 data) (vs_interval2 data))
           }
         else vserver_in h VCMD_set_sched_v4 (CTX_USER2KERNEL xid)
                (sched_v4 data m (vs_fill_rate data) (vs_interval data)))"

definition vc_set_sched_v22 :: "'k sysenv \<Rightarrow> xid_t \<Rightarrow> vc_set_sched_struct \<Rightarrow> ('k sst, int) state" where
  "vc_set_sched_v22 h xid data =
     vserver_in h VCMD_set_sched (CTX_USER2KERNEL xid)
       (D_sched_v5 (vs_set_mask data) (vs_cpu_id data) (vs_bucket_id data) (vs_fill_rate data, vs_fill_rate2 data)
         (vs_interval data, vs_interval2 data) (vs_tokens data) (vs_tokens_min data) (vs_tokens_max data)
         (vs_priority_bias data))"

definition vc_set_sched :: "'k sysenv \<Rightarrow> xid_t \<Rightarrow> vc_set_sched_struct \<Rightarrow> ('k sst, int) state" where
  "vc_set_sched h xid data =
     CALL_VC h True
       [(A_V22, vc_set_sched_v22 h xid data), (A_V21, vc_set_sched_v21 h xid data),
        (A_V13B, vc_set_sched_v13b h xid data), (A_V13OBS, vc_set_sched_v13obs h xid data)] (- 1)"

fun sched_v5_of :: "kdata \<Rightarrow> vc_set_sched_struct" where
  "sched_v5_of (D_sched_v5 m c b (f1, f2) (i1, i2) t tmin tmax p) =
     \<lparr>vs_set_mask = m, vs_fill_rate = f1, vs_interval = i1, vs_fill_rate2 = f2, vs_interval2 = i2, vs_tokens = t,
      vs_tokens_min = tmin, vs_tokens_max = tmax, vs_priority_bias = p, vs_cpu_id = c, vs_bucket_id = b\<rparr>"

definition vc_get_sched_v21 :: "'k sysenv \<Rightarrow> xid_t \<Rightarrow> vc_set_sched_struct \<Rightarrow> ('k sst, int \<times> vc_set_sched_struct) state" where
  "vc_get_sched_v21 h xid data =
     do {
       (r, k) \<leftarrow> vserver h VCMD_get_sched xid
                  (D_sched_v5 (vs_set_mask data) (vs_cpu_id data) (vs_bucket_id data) (0, 0) (0, 0) 0 0 0 0);
       ret (r, sched_v5_of k)
     }"

definition vc_get_sched :: "'k sysenv \<Rightarrow> xid_t \<Rightarrow> vc_set_sched_struct \<Rightarrow> ('k sst, int \<times> vc_set_sched_struct) state" where
  "vc_get_sched h xid data = CALL_VC h False [(A_V21, vc_get_sched_v21 h xid data)] (- 1, data)"

record vc_sched_info_struct =
  si_cpu_id :: u32
  si_bucket_id :: u32
  si_user_msec :: u64
  si_sys_msec :: u64
  si_hold_msec :: u64
  si_token_usec :: u32
  si_vavavoom :: u32

fun sched_info_of :: "kdata \<Rightarrow> u64 \<times> u64 \<times> u64 \<times> u32 \<times> u32" where
  "sched_info_of (D_sched_info c b u s ho t v) = (u, s, ho, t, v)"

definition vc_sched_info_v21 :: "'k sysenv \<Rightarrow> xid_t \<Rightarrow> vc_sched_info_struct \<Rightarrow> ('k sst, int \<times> vc_sched_info_struct) state" where
  "vc_sched_info_v21 h ctx info =
     do {
       (r, k) \<leftarrow> vserver h VCMD_sched_info (CTX_USER2KERNEL ctx)
                  (D_sched_info (si_cpu_id info) (si_bucket_id info) 0 0 0 0 0);
       if r \<noteq> 0 then ret (r, info)
       else
         (let (u, s, ho, t, v) = sched_info_of k
          in ret (0, info\<lparr>si_user_msec := u, si_sys_msec := s, si_hold_msec := ho, si_token_usec := t, si_vavavoom := v\<rparr>))
     }"

definition vc_sched_info :: "'k sysenv \<Rightarrow> xid_t \<Rightarrow> vc_sched_info_struct \<Rightarrow> ('k sst, int \<times> vc_sched_info_struct) state" where
  "vc_sched_info h ctx info = CALL_VC h False [(A_V21, vc_sched_info_v21 h ctx info)] (- 1, info)"

section \<open>Disk limits\<close>

definition CDLIM_UNSET :: u32 where "CDLIM_UNSET = 0"
definition CDLIM_INFINITY :: u32 where "CDLIM_INFINITY = NOT 0"
definition CDLIM_KEEP :: u32 where "CDLIM_KEEP = NOT 1"
definition VC_CDLIM_UNSET :: u32 where "VC_CDLIM_UNSET = 0"

definition CDLIM_USER2KERNEL :: "u32 \<Rightarrow> u32" where
  "CDLIM_USER2KERNEL x =
     (if x = VC_CDLIM_UNSET then CDLIM_UNSET else if x = VC_CDLIM_INFINITY then CDLIM_INFINITY
      else if x = VC_CDLIM_KEEP then CDLIM_KEEP else x)"

definition CDLIM_KERNEL2USER :: "u32 \<Rightarrow> u32" where
  "CDLIM_KERNEL2USER x =
     (if x = CDLIM_UNSET then VC_CDLIM_UNSET else if x = CDLIM_INFINITY then VC_CDLIM_INFINITY
      else if x = CDLIM_KEEP then VC_CDLIM_KEEP else x)"

definition vc_add_dlimit_v13b :: "'k sysenv \<Rightarrow> cstr \<Rightarrow> xid_t \<Rightarrow> u32 \<Rightarrow> ('k sst, int) state" where
  "vc_add_dlimit_v13b h name xid flags = vserver_in h VCMD_add_dlimit (CTX_USER2KERNEL xid) (D_dlimit_base name flags)"

definition vc_add_dlimit :: "'k sysenv \<Rightarrow> cstr \<Rightarrow> xid_t \<Rightarrow> u32 \<Rightarrow> ('k sst, int) state" where
  "vc_add_dlimit h name xid flags = CALL_VC h False [(A_V13B, vc_add_dlimit_v13b h name xid flags)] (- 1)"

definition vc_rem_dlimit_v13b :: "'k sysenv \<Rightarrow> cstr \<Rightarrow> xid_t \<Rightarrow> u32 \<Rightarrow> ('k sst, int) state" where
  "vc_rem_dlimit_v13b h name xid flags = vserver_in h VCMD_rem_dlimit (CTX_USER2KERNEL xid) (D_dlimit_base name flags)"

definition vc_rem_dlimit :: "'k sysenv \<Rightarrow> cstr \<Rightarrow> xid_t \<Rightarrow> u32 \<Rightarrow> ('k sst, int) state" where
  "vc_rem_dlimit h name xid flags = CALL_VC h False [(A_V13B, vc_rem_dlimit_v13b h name xid flags)] (- 1)"

definition vc_set_dlimit_v13b :: "'k sysenv \<Rightarrow> cstr \<Rightarrow> xid_t \<Rightarrow> u32 \<Rightarrow> vc_ctx_dlimit \<Rightarrow> ('k sst, int) state" where
  "vc_set_dlimit_v13b h name xid flags l =
     vserver_in h VCMD_set_dlimit (CTX_USER2KERNEL xid)
       (D_dlimit name (CDLIM_USER2KERNEL (space_used l)) (CDLIM_USER2KERNEL (space_total l))
         (CDLIM_USER2KERNEL (inodes_used l)) (CDLIM_USER2KERNEL (inodes_total l)) (CDLIM_USER2KERNEL (reserved l)) flags)"

definition vc_set_dlimit :: "'k sysenv \<Rightarrow> cstr \<Rightarrow> xid_t \<Rightarrow> u32 \<Rightarrow> vc_ctx_dlimit \<Rightarrow> ('k sst, int) state" where
  "vc_set_dlimit h name xid flags l = CALL_VC h False [(A_V13B, vc_set_dlimit_v13b h name xid flags l)] (- 1)"

fun dlimit_of :: "kdata \<Rightarrow> vc_ctx_dlimit" where
  "dlimit_of (D_dlimit n su st iu it r f) =
     \<lparr>space_used = CDLIM_KERNEL2USER su, space_total = CDLIM_KERNEL2USER st, inodes_used = CDLIM_KERNEL2USER iu,
      inodes_total = CDLIM_KERNEL2USER it, reserved = CDLIM_KERNEL2USER r\<rparr>"

definition vc_get_dlimit_v13b ::
  "'k sysenv \<Rightarrow> cstr \<Rightarrow> xid_t \<Rightarrow> u32 \<Rightarrow> vc_ctx_dlimit option \<Rightarrow> ('k sst, int \<times> vc_ctx_dlimit option) state" where
  "vc_get_dlimit_v13b h name xid flags lims =
     do {
       (rc, k) \<leftarrow> vserver h VCMD_get_dlimit (CTX_USER2KERNEL xid) (D_dlimit name 0 0 0 0 0 flags);
       ret (rc, map_option (\<lambda>_. dlimit_of k) lims)
     }"

definition vc_get_dlimit ::
  "'k sysenv \<Rightarrow> cstr \<Rightarrow> xid_t \<Rightarrow> u32 \<Rightarrow> vc_ctx_dlimit option \<Rightarrow> ('k sst, int \<times> vc_ctx_dlimit option) state" where
  "vc_get_dlimit h name xid flags lims =
     CALL_VC h False [(A_V13B, vc_get_dlimit_v13b h name xid flags lims)] (bad_out lims)"

section \<open>Splitting a request for the scheduler\<close>

lemma sched_bits:
  "x AND VC_VXSM_FILL_RATE = 0 \<longleftrightarrow> \<not> bit x 0" "x AND VC_VXSM_INTERVAL = 0 \<longleftrightarrow> \<not> bit x 1"
  "x AND VC_VXSM_FILL_RATE2 = 0 \<longleftrightarrow> \<not> bit x 2" "x AND VC_VXSM_INTERVAL2 = 0 \<longleftrightarrow> \<not> bit x 3"
  "bit VC_VXSM_FILL_RATE2 k \<longleftrightarrow> k = 2" "bit VC_VXSM_INTERVAL2 k \<longleftrightarrow> k = 3" "bit VC_VXSM_IDLE_TIME k \<longleftrightarrow> k = 9"
  "bit VC_VXSM_FORCE k \<longleftrightarrow> k = 10" "bit VC_VXSM_CPU_ID k \<longleftrightarrow> k = 12" "bit VC_VXSM_BUCKET_ID k \<longleftrightarrow> k = 13"
proof -
  have n: "VC_VXSM_FILL_RATE = 2 ^ 0" "VC_VXSM_INTERVAL = 2 ^ 1" "VC_VXSM_FILL_RATE2 = 2 ^ 2" "VC_VXSM_INTERVAL2 = 2 ^ 3"
    "VC_VXSM_IDLE_TIME = 2 ^ 9" "VC_VXSM_FORCE = 2 ^ 10" "VC_VXSM_CPU_ID = 2 ^ 12" "VC_VXSM_BUCKET_ID = 2 ^ 13"
    by (simp_all add: VC_VXSM_FILL_RATE_def VC_VXSM_INTERVAL_def VC_VXSM_FILL_RATE2_def VC_VXSM_INTERVAL2_def
        VC_VXSM_IDLE_TIME_def VC_VXSM_FORCE_def VC_VXSM_CPU_ID_def VC_VXSM_BUCKET_ID_def)
  show "x AND VC_VXSM_FILL_RATE = 0 \<longleftrightarrow> \<not> bit x 0" "x AND VC_VXSM_INTERVAL = 0 \<longleftrightarrow> \<not> bit x 1"
    "x AND VC_VXSM_FILL_RATE2 = 0 \<longleftrightarrow> \<not> bit x 2" "x AND VC_VXSM_INTERVAL2 = 0 \<longleftrightarrow> \<not> bit x 3"
    by (simp_all only: n and_exp_eq_0_iff_not_bit)
  show "bit VC_VXSM_FILL_RATE2 k \<longleftrightarrow> k = 2" "bit VC_VXSM_INTERVAL2 k \<longleftrightarrow> k = 3" "bit VC_VXSM_IDLE_TIME k \<longleftrightarrow> k = 9"
    "bit VC_VXSM_FORCE k \<longleftrightarrow> k = 10" "bit VC_VXSM_CPU_ID k \<longleftrightarrow> k = 12" "bit VC_VXSM_BUCKET_ID k \<longleftrightarrow> k = 13"
    by (simp_all only: n bit_exp_iff) auto
qed

lemma run_vserver_in:
  "run_state (vserver_in h cmd ident d) s = (rc, t) \<Longrightarrow> sent t = sent s @ [(cmd, ident, d)]"
  by (auto simp: vserver_in_def vserver_def Let_def split: prod.splits)

text \<open>The requests that the values of \<open>data\<close> allow: a mask, a rate and an interval.\<close>

definition sched_request_ok :: "vc_set_sched_struct \<Rightarrow> u32 \<times> u32 \<times> u32 \<Rightarrow> bool" where
  "sched_request_ok data r \<longleftrightarrow>
     (case r of (msk, rate, interval) \<Rightarrow>
        (msk AND VC_VXSM_FILL_RATE \<noteq> 0 \<longrightarrow> rate = vs_fill_rate data) \<and>
        (msk AND VC_VXSM_INTERVAL \<noteq> 0 \<longrightarrow> interval = vs_interval data) \<and>
        (msk AND VC_VXSM_FILL_RATE2 \<noteq> 0 \<longrightarrow> rate = vs_fill_rate2 data) \<and>
        (msk AND VC_VXSM_INTERVAL2 \<noteq> 0 \<longrightarrow> interval = vs_interval2 data))"

text \<open>
  The kernels of the 2.1 series take one rate and one interval per call, the library's caller gives two of
  each. \<^verbatim>\<open>vc_set_sched\<close> splits such a request: every call it makes carries, for each of the four
  values that its mask names, the value the caller gave for it, and when the result is 0, the masks of the calls made
  are together the caller's mask, so that no requested change is lost and none is invented.
\<close>

lemma sched_split:
  assumes "run_state (vc_set_sched_v21 h xid data) s = (rc, t)"
  shows "\<exists>rs. sent t = sent s @ map (\<lambda>(msk, rate, interval). (VCMD_set_sched_v4, xid, sched_v4 data msk rate interval)) rs \<and>
    list_all (sched_request_ok data) rs \<and> (rc = 0 \<longrightarrow> fold (OR) (map fst rs) 0 = vs_set_mask data)"
proof -
  define m where "m = vs_set_mask data"
  define second where "second = VC_VXSM_FILL_RATE2 OR VC_VXSM_INTERVAL2 OR VC_VXSM_FORCE"
  define rest where "rest = second OR VC_VXSM_IDLE_TIME OR VC_VXSM_CPU_ID OR VC_VXSM_BUCKET_ID"
  define r1 where "r1 = (m AND NOT second, vs_fill_rate data, vs_interval data)"
  define r2 where "r2 = (m AND rest, vs_fill_rate2 data, vs_interval2 data)"
  have ok: "sched_request_ok data r1" "sched_request_ok data r2"
    unfolding sched_request_ok_def r1_def r2_def rest_def second_def prod.case sched_bits bit_and_iff bit_or_iff bit_not_iff
    by simp_all
  have both: "fold (OR) (map fst [r1, r2]) 0 = m"
    by (rule bit_eqI) (auto simp: r1_def r2_def rest_def bit_or_iff bit_and_iff bit_not_iff)
  consider (split) "m AND VC_VXSM_FILL_RATE2 \<noteq> 0 \<and> vs_fill_rate data \<noteq> vs_fill_rate2 data \<or>
      m AND VC_VXSM_INTERVAL2 \<noteq> 0 \<and> vs_interval data \<noteq> vs_interval2 data"
    | (one) "sched_request_ok data (m, vs_fill_rate data, vs_interval data)"
      "\<not> (m AND VC_VXSM_FILL_RATE2 \<noteq> 0 \<and> vs_fill_rate data \<noteq> vs_fill_rate2 data \<or>
      m AND VC_VXSM_INTERVAL2 \<noteq> 0 \<and> vs_interval data \<noteq> vs_interval2 data)"
    by (auto simp: sched_request_ok_def)
  then show ?thesis
  proof cases
    case one
    then have "run_state (vserver_in h VCMD_set_sched_v4 xid (sched_v4 data m (vs_fill_rate data) (vs_interval data))) s = (rc, t)"
      using assms unfolding vc_set_sched_v21_def Let_def m_def by (simp only: if_False id_conversions)
    then show ?thesis
      using one(1) by (intro exI [of _ "[(m, vs_fill_rate data, vs_interval data)]"]) (simp add: run_vserver_in m_def)
  next
    case split
    obtain c u where u: "run_state (vserver_in h VCMD_set_sched_v4 xid
        (sched_v4 data (m AND NOT second) (vs_fill_rate data) (vs_interval data))) s = (c, u)" by fastforce
    have "c \<noteq> 0 \<and> rc = c \<and> t = u \<or> c = 0 \<and>
      run_state (vserver_in h VCMD_set_sched_v4 xid (sched_v4 data (m AND rest) (vs_fill_rate2 data) (vs_interval2 data))) u = (rc, t)"
      using assms split u unfolding vc_set_sched_v21_def Let_def m_def [symmetric] second_def [symmetric] rest_def
      by (auto split: if_splits)
    then show ?thesis
    proof (elim disjE conjE)
      assume "c \<noteq> 0" "rc = c" "t = u"
      then show ?thesis using run_vserver_in [OF u] ok by (intro exI [of _ "[r1]"]) (simp add: r1_def)
    next
      assume "run_state (vserver_in h VCMD_set_sched_v4 xid (sched_v4 data (m AND rest) (vs_fill_rate2 data) (vs_interval2 data))) u
        = (rc, t)"
      from run_vserver_in [OF this] show ?thesis
        using run_vserver_in [OF u] ok both by (intro exI [of _ "[r1, r2]"]) (simp add: r1_def r2_def m_def)
    qed
  qed
qed

definition sched_kernel :: "unit sysenv" where
  "sched_kernel =
     \<lparr>se_kernel = (\<lambda>cmd ident d k. (0, ENOSYS, d, k)), se_uninit = (\<lambda>_. D_null), se_version = (0x00020100, ENOSYS), se_config = 0,
      se_built = (\<lambda>_. True)\<rparr>"

definition sched_data :: vc_set_sched_struct where
  "sched_data =
     \<lparr>vs_set_mask = 0x0005, vs_fill_rate = 10, vs_interval = 0, vs_fill_rate2 = 20, vs_interval2 = 0, vs_tokens = 0,
      vs_tokens_min = 0, vs_tokens_max = 0, vs_priority_bias = 0, vs_cpu_id = 0, vs_bucket_id = 0\<rparr>"

lemma sched_split_witness:
  "\<exists>rs. sent (snd (run_state (vc_set_sched_v21 sched_kernel 5 sched_data) \<lparr>sst_errno = ENOSYS, kst = (), sent = []\<rparr>)) =
      map (\<lambda>(msk, rate, interval). (VCMD_set_sched_v4, 5, sched_v4 sched_data msk rate interval)) rs \<and>
    list_all (sched_request_ok sched_data) rs \<and> fold (OR) (map fst rs) 0 = 5"
proof -
  let ?r = "run_state (vc_set_sched_v21 sched_kernel 5 sched_data) \<lparr>sst_errno = ENOSYS, kst = (), sent = []\<rparr>"
  have "fst ?r = 0" by code_simp
  then have r: "?r = (0, snd ?r)" by (metis prod.collapse)
  from sched_split [OF r] show ?thesis by (simp add: sched_data_def)
qed

end
