(* ===== verification/SysSpace.thy ===== *)
theory SysSpace
  imports SysCtx
begin

text \<open>
  The wrappers for the names of the virtual host, name spaces, the badness of a context, its virtual statistics,
  device mappings and tags, and the obsolete calls of \<^verbatim>\<open>lib/syscall.c\<close>. Pointers that the code does not check
  are taken to be valid.
\<close>

section \<open>Names of the virtual host\<close>

datatype vc_uts_type = vcVHI_CONTEXT | vcVHI_SYSNAME | vcVHI_NODENAME | vcVHI_RELEASE | vcVHI_VERSION | vcVHI_MACHINE
  | vcVHI_DOMAINNAME

datatype vhi_name_field = VHIN_CONTEXT | VHIN_SYSNAME | VHIN_NODENAME | VHIN_RELEASE | VHIN_VERSION | VHIN_MACHINE
  | VHIN_DOMAINNAME

fun VHI_USER2KERNEL :: "vc_uts_type \<Rightarrow> vhi_name_field" where
  "VHI_USER2KERNEL vcVHI_CONTEXT = VHIN_CONTEXT"
| "VHI_USER2KERNEL vcVHI_SYSNAME = VHIN_SYSNAME"
| "VHI_USER2KERNEL vcVHI_NODENAME = VHIN_NODENAME"
| "VHI_USER2KERNEL vcVHI_RELEASE = VHIN_RELEASE"
| "VHI_USER2KERNEL vcVHI_VERSION = VHIN_VERSION"
| "VHI_USER2KERNEL vcVHI_MACHINE = VHIN_MACHINE"
| "VHI_USER2KERNEL vcVHI_DOMAINNAME = VHIN_DOMAINNAME"

fun vhin_number :: "vhi_name_field \<Rightarrow> u32" where
  "vhin_number VHIN_CONTEXT = 0"
| "vhin_number VHIN_SYSNAME = 1"
| "vhin_number VHIN_NODENAME = 2"
| "vhin_number VHIN_RELEASE = 3"
| "vhin_number VHIN_VERSION = 4"
| "vhin_number VHIN_MACHINE = 5"
| "vhin_number VHIN_DOMAINNAME = 6"

text \<open>
  The name in the structure is an array of 65 bytes. \<open>val\<close> has \<open>len\<close> bytes; of a name it holds as many as fit,
  padded with NUL up to the size of the array.
\<close>

definition VHI_SIZE :: nat where "VHI_SIZE = 65"

fun vhi_name_of :: "kdata \<Rightarrow> char list" where "vhi_name_of (D_vhi_name f n) = n"

definition strncpy :: "char list \<Rightarrow> cstr \<Rightarrow> nat \<Rightarrow> char list" where
  "strncpy dst src n =
     (let s = takeWhile (\<lambda>c. c \<noteq> NUL) src in take n (s @ replicate n NUL) @ drop n dst)"

fun with_field :: "u32 \<Rightarrow> kdata \<Rightarrow> kdata" where
  "with_field f (D_vhi_name g n) = D_vhi_name f n"
| "with_field f d = d"

definition vc_set_vhi_name_v13 :: "'k sysenv \<Rightarrow> xid_t \<Rightarrow> vc_uts_type \<Rightarrow> char list \<Rightarrow> nat \<Rightarrow> ('k sst, int) state" where
  "vc_set_vhi_name_v13 h xid type val len =
     (if len \<ge> VHI_SIZE then fail E2BIG (- 1)
      else
        (let old = vhi_name_of (se_uninit h S_vhi_name)
         in vserver_in h VCMD_set_vhi_name (CTX_USER2KERNEL xid)
              (D_vhi_name (vhin_number (VHI_USER2KERNEL type)) (take len val @ NUL # drop (Suc len) old))))"

definition vc_get_vhi_name_v13 ::
  "'k sysenv \<Rightarrow> xid_t \<Rightarrow> vc_uts_type \<Rightarrow> char list \<Rightarrow> nat \<Rightarrow> ('k sst, int \<times> char list) state" where
  "vc_get_vhi_name_v13 h xid type val len =
     do {
       (rc, k) \<leftarrow> vserver h VCMD_get_vhi_name (CTX_USER2KERNEL xid)
                   (with_field (vhin_number (VHI_USER2KERNEL type)) (se_uninit h S_vhi_name));
       if rc = - 1 then ret (- 1, val)
       else ret (0, strncpy val (vhi_name_of k) (min VHI_SIZE len))
     }"

text \<open>
  Before the kernel knew virtual hosts: the names of the caller's own host. \<open>getname\<close> and \<open>setname\<close> stand for
  \<^verbatim>\<open>gethostname\<close> and \<^verbatim>\<open>sethostname\<close> (\<open>True\<close>) and for the same calls on the domain name.
\<close>

definition vc_set_vhi_name_olduts ::
  "(bool \<Rightarrow> char list \<Rightarrow> nat \<Rightarrow> ('k sst, int) state) \<Rightarrow> xid_t \<Rightarrow> vc_uts_type \<Rightarrow> char list \<Rightarrow> nat \<Rightarrow> ('k sst, int) state" where
  "vc_set_vhi_name_olduts setname xid type val len =
     (if xid \<noteq> VC_SAMECTX then fail ESRCH (- 1)
      else if type = vcVHI_NODENAME then setname True val len
      else if type = vcVHI_DOMAINNAME then setname False val len
      else fail ENOENT (- 1))"

definition vc_get_vhi_name_olduts ::
  "(bool \<Rightarrow> char list \<Rightarrow> nat \<Rightarrow> ('k sst, int \<times> char list) state) \<Rightarrow> xid_t \<Rightarrow> vc_uts_type \<Rightarrow> char list \<Rightarrow> nat \<Rightarrow>
   ('k sst, int \<times> char list) state" where
  "vc_get_vhi_name_olduts getname xid type val len =
     (if xid \<noteq> VC_SAMECTX then fail ESRCH (- 1, val)
      else if type = vcVHI_NODENAME then getname True val len
      else if type = vcVHI_DOMAINNAME then getname False val len
      else fail ENOENT (- 1, val))"

text \<open>A length of \<^verbatim>\<open>(size_t)-1\<close> is \<open>None\<close>.\<close>

definition vc_set_vhi_name ::
  "'k sysenv \<Rightarrow> (bool \<Rightarrow> char list \<Rightarrow> nat \<Rightarrow> ('k sst, int) state) \<Rightarrow> bool \<Rightarrow> xid_t \<Rightarrow> vc_uts_type \<Rightarrow> char list \<Rightarrow> nat option \<Rightarrow>
   ('k sst, int) state" where
  "vc_set_vhi_name h setname multi xid type val len =
     (let n = (case len of None \<Rightarrow> length (takeWhile (\<lambda>c. c \<noteq> NUL) val) | Some n \<Rightarrow> n)
      in CALL_VC h multi
           [(A_V13, vc_set_vhi_name_v13 h xid type val n), (A_OLDUTS, vc_set_vhi_name_olduts setname xid type val n)] (- 1))"

definition vc_get_vhi_name ::
  "'k sysenv \<Rightarrow> (bool \<Rightarrow> char list \<Rightarrow> nat \<Rightarrow> ('k sst, int \<times> char list) state) \<Rightarrow> bool \<Rightarrow> xid_t \<Rightarrow> vc_uts_type \<Rightarrow> char list \<Rightarrow>
   nat \<Rightarrow> ('k sst, int \<times> char list) state" where
  "vc_get_vhi_name h getname multi xid type val len =
     CALL_VC h multi
       [(A_V13, vc_get_vhi_name_v13 h xid type val len), (A_OLDUTS, vc_get_vhi_name_olduts getname xid type val len)]
       (- 1, val)"

section \<open>Name spaces\<close>

fun space_v1_of :: "kdata \<Rightarrow> u64" where "space_v1_of (D_space_v1 m) = m"

definition vc_enter_namespace_v13 :: "'k sysenv \<Rightarrow> xid_t \<Rightarrow> u64 \<Rightarrow> u32 \<Rightarrow> ('k sst, int) state" where
  "vc_enter_namespace_v13 h xid m index =
     (if m AND (CLONE_NEWNS OR CLONE_FS) = 0 then ret 0
      else if index \<noteq> 0 then fail EINVAL (- 1)
      else vserver_in h VCMD_enter_space_v0 (CTX_USER2KERNEL xid) D_null)"

definition vc_enter_namespace_spaces :: "'k sysenv \<Rightarrow> xid_t \<Rightarrow> u64 \<Rightarrow> u32 \<Rightarrow> ('k sst, int) state" where
  "vc_enter_namespace_spaces h xid m index =
     (if index \<noteq> 0 then fail EINVAL (- 1)
      else vserver_in h VCMD_enter_space_v1 (CTX_USER2KERNEL xid) (D_space_v1 m))"

definition vc_enter_namespace_v23 :: "'k sysenv \<Rightarrow> xid_t \<Rightarrow> u64 \<Rightarrow> u32 \<Rightarrow> ('k sst, int) state" where
  "vc_enter_namespace_v23 h xid m index =
     vserver_in h VCMD_enter_space (CTX_USER2KERNEL xid) (D_space_v2 m index)"

definition vc_enter_namespace :: "'k sysenv \<Rightarrow> xid_t \<Rightarrow> u64 \<Rightarrow> u32 \<Rightarrow> ('k sst, int) state" where
  "vc_enter_namespace h xid m index =
     CALL_VC h True
       [(A_V23P, vc_enter_namespace_v23 h xid m index), (A_SPACES, vc_enter_namespace_spaces h xid m index),
        (A_V13, vc_enter_namespace_v13 h xid m index)] (- 1)"

definition vc_set_namespace_v13 :: "'k sysenv \<Rightarrow> xid_t \<Rightarrow> u64 \<Rightarrow> u32 \<Rightarrow> ('k sst, int) state" where
  "vc_set_namespace_v13 h xid m index =
     (if m AND (CLONE_NEWNS OR CLONE_FS) = 0 then ret 0
      else if index \<noteq> 0 then fail EINVAL (- 1)
      else vserver_in h VCMD_set_space_v0 (CTX_USER2KERNEL xid) D_null)"

definition vc_set_namespace_spaces :: "'k sysenv \<Rightarrow> xid_t \<Rightarrow> u64 \<Rightarrow> u32 \<Rightarrow> ('k sst, int) state" where
  "vc_set_namespace_spaces h xid m index =
     (if index \<noteq> 0 then fail EINVAL (- 1)
      else vserver_in h VCMD_set_space_v1 (CTX_USER2KERNEL xid) (D_space_v1 m))"

definition vc_set_namespace_v23 :: "'k sysenv \<Rightarrow> xid_t \<Rightarrow> u64 \<Rightarrow> u32 \<Rightarrow> ('k sst, int) state" where
  "vc_set_namespace_v23 h xid m index =
     vserver_in h VCMD_set_space (CTX_USER2KERNEL xid) (D_space_v2 m index)"

definition vc_set_namespace :: "'k sysenv \<Rightarrow> xid_t \<Rightarrow> u64 \<Rightarrow> u32 \<Rightarrow> ('k sst, int) state" where
  "vc_set_namespace h xid m index =
     CALL_VC h True
       [(A_V23P, vc_set_namespace_v23 h xid m index), (A_SPACES, vc_set_namespace_spaces h xid m index),
        (A_V13, vc_set_namespace_v13 h xid m index)] (- 1)"

definition vc_cleanup_namespace_v13 :: "'k sysenv \<Rightarrow> ('k sst, int) state" where
  "vc_cleanup_namespace_v13 h = vserver_in h VCMD_cleanup_namespace 0 D_null"

definition vc_cleanup_namespace :: "'k sysenv \<Rightarrow> ('k sst, int) state" where
  "vc_cleanup_namespace h = CALL_VC h False [(A_V13, vc_cleanup_namespace_v13 h)] (- 1)"

definition vc_get_space_mask_spaces :: "'k sysenv \<Rightarrow> ('k sst, u64) state" where
  "vc_get_space_mask_spaces h =
     do {
       (r, k) \<leftarrow> vserver h VCMD_get_space_mask_v0 0 (D_space_v1 0);
       if r \<noteq> 0 then ret (word_of_int r) else ret (space_v1_of k AND NOT (CLONE_NEWNS OR CLONE_FS))
     }"

definition vc_get_space_mask_v23 :: "'k sysenv \<Rightarrow> ('k sst, u64) state" where
  "vc_get_space_mask_v23 h =
     do {
       (r, k) \<leftarrow> vserver h VCMD_get_space_mask 0 (D_space_v1 0);
       if r \<noteq> 0 then ret (word_of_int r) else ret (space_v1_of k AND NOT (CLONE_NEWNS OR CLONE_FS))
     }"

definition vc_get_space_mask :: "'k sysenv \<Rightarrow> bool \<Rightarrow> ('k sst, u64) state" where
  "vc_get_space_mask h multi =
     CALL_VC h multi [(A_V23P, vc_get_space_mask_v23 h), (A_SPACES, vc_get_space_mask_spaces h)] (- 1)"

definition vc_get_space_default_v23 :: "'k sysenv \<Rightarrow> ('k sst, u64) state" where
  "vc_get_space_default_v23 h =
     do {
       (r, k) \<leftarrow> vserver h VCMD_get_space_default 0 (D_space_v1 0);
       if r \<noteq> 0 then ret (word_of_int r) else ret (space_v1_of k AND NOT (CLONE_NEWNS OR CLONE_FS))
     }"

definition vc_get_space_default :: "'k sysenv \<Rightarrow> ('k sst, u64) state" where
  "vc_get_space_default h = CALL_VC h False [(A_V23P, vc_get_space_default_v23 h)] (- 1)"

section \<open>Badness, virtual statistics, device mappings, tags\<close>

fun badness_of :: "kdata \<Rightarrow> u64" where "badness_of (D_badness b) = b"

definition vc_get_badness_v23 :: "'k sysenv \<Rightarrow> xid_t \<Rightarrow> u64 \<Rightarrow> ('k sst, int \<times> u64) state" where
  "vc_get_badness_v23 h xid badness =
     do {
       (r, k) \<leftarrow> vserver h VCMD_get_badness xid (se_uninit h S_badness);
       if r \<noteq> 0 then ret (r, badness) else ret (0, badness_of k)
     }"

definition vc_get_badness :: "'k sysenv \<Rightarrow> xid_t \<Rightarrow> u64 \<Rightarrow> ('k sst, int \<times> u64) state" where
  "vc_get_badness h xid badness = CALL_VC h False [(A_V23, vc_get_badness_v23 h xid badness)] (- 1, badness)"

definition vc_set_badness_v23 :: "'k sysenv \<Rightarrow> xid_t \<Rightarrow> u64 \<Rightarrow> ('k sst, int) state" where
  "vc_set_badness_v23 h xid badness = vserver_in h VCMD_set_badness xid (D_badness badness)"

definition vc_set_badness :: "'k sysenv \<Rightarrow> xid_t \<Rightarrow> u64 \<Rightarrow> ('k sst, int) state" where
  "vc_set_badness h xid badness = CALL_VC h False [(A_V23, vc_set_badness_v23 h xid badness)] (- 1)"

record vc_virt_stat_struct =
  vs_offset :: u64
  vs_uptime :: u64
  vs_nr :: "u32 list"
  vs_load :: "u32 list"

fun virt_stat_of :: "kdata \<Rightarrow> vc_virt_stat_struct" where
  "virt_stat_of (D_virt_stat off up nr load) = \<lparr>vs_offset = off, vs_uptime = up, vs_nr = nr, vs_load = load\<rparr>"

definition vc_virt_stat_v21 :: "'k sysenv \<Rightarrow> xid_t \<Rightarrow> vc_virt_stat_struct \<Rightarrow> ('k sst, int \<times> vc_virt_stat_struct) state" where
  "vc_virt_stat_v21 h ctx st =
     do {
       (r, k) \<leftarrow> vserver h VCMD_virt_stat (CTX_USER2KERNEL ctx) (se_uninit h S_virt_stat);
       if r \<noteq> 0 then ret (r, st) else ret (0, virt_stat_of k)
     }"

definition vc_virt_stat :: "'k sysenv \<Rightarrow> xid_t \<Rightarrow> vc_virt_stat_struct \<Rightarrow> ('k sst, int \<times> vc_virt_stat_struct) state" where
  "vc_virt_stat h ctx st = CALL_VC h False [(A_V21, vc_virt_stat_v21 h ctx st)] (- 1, st)"

definition vc_set_mapping_v21 :: "'k sysenv \<Rightarrow> xid_t \<Rightarrow> cstr \<Rightarrow> cstr \<Rightarrow> u32 \<Rightarrow> ('k sst, int) state" where
  "vc_set_mapping_v21 h xid device target flags = vserver_in h VCMD_set_mapping xid (D_mapping device target flags)"

definition vc_set_mapping :: "'k sysenv \<Rightarrow> xid_t \<Rightarrow> cstr \<Rightarrow> cstr \<Rightarrow> u32 \<Rightarrow> ('k sst, int) state" where
  "vc_set_mapping h xid device target flags = CALL_VC h False [(A_V21, vc_set_mapping_v21 h xid device target flags)] (- 1)"

definition vc_unset_mapping_v21 :: "'k sysenv \<Rightarrow> xid_t \<Rightarrow> cstr \<Rightarrow> cstr \<Rightarrow> u32 \<Rightarrow> ('k sst, int) state" where
  "vc_unset_mapping_v21 h xid device target flags = vserver_in h VCMD_unset_mapping xid (D_mapping device target flags)"

definition vc_unset_mapping :: "'k sysenv \<Rightarrow> xid_t \<Rightarrow> cstr \<Rightarrow> cstr \<Rightarrow> u32 \<Rightarrow> ('k sst, int) state" where
  "vc_unset_mapping h xid device target flags =
     CALL_VC h False [(A_V21, vc_unset_mapping_v21 h xid device target flags)] (- 1)"

text \<open>
  The wrapper's own type is \<^verbatim>\<open>int\<close>: the identifier is converted to it. \<^verbatim>\<open>vc_tag_create\<close> names
  \<^verbatim>\<open>vc_tag_migrate\<close>, so it migrates.
\<close>

definition vc_tag_migrate_tag :: "'k sysenv \<Rightarrow> xid_t \<Rightarrow> ('k sst, int) state" where
  "vc_tag_migrate_tag h tag =
     do { res \<leftarrow> vserver_in h VCMD_tag_migrate (TAG_USER2KERNEL tag) D_null; ret (sint (TAG_KERNEL2USER (word_of_int res))) }"

definition vc_tag_migrate :: "'k sysenv \<Rightarrow> xid_t \<Rightarrow> ('k sst, int) state" where
  "vc_tag_migrate h tag = CALL_VC h False [(A_TAG, vc_tag_migrate_tag h tag)] (- 1)"

definition vc_tag_create :: "'k sysenv \<Rightarrow> xid_t \<Rightarrow> ('k sst, int) state" where
  "vc_tag_create h tag = CALL_VC h False [(A_TAG, vc_tag_migrate_tag h tag)] (- 1)"

definition vc_get_task_tag_tag :: "'k sysenv \<Rightarrow> u32 \<Rightarrow> ('k sst, xid_t) state" where
  "vc_get_task_tag_tag h pid = do { res \<leftarrow> vserver_in h VCMD_task_tag pid D_null; ret (word_of_int res) }"

definition vc_get_task_tag :: "'k sysenv \<Rightarrow> u32 \<Rightarrow> ('k sst, xid_t) state" where
  "vc_get_task_tag h pid = CALL_VC h False [(A_TAG, vc_get_task_tag_tag h pid)] (- 1)"

section \<open>The obsolete calls\<close>

definition NB_IPV4ROOT :: nat where "NB_IPV4ROOT = 16"

definition vc_new_s_context_compat :: "'k sysenv \<Rightarrow> xid_t \<Rightarrow> u32 \<Rightarrow> u32 \<Rightarrow> ('k sst, xid_t) state" where
  "vc_new_s_context_compat h ctx remove_cap flags =
     do { r \<leftarrow> vserver_in h VCMD_new_s_context (CTX_USER2KERNEL ctx) (D_new_s_context remove_cap flags); ret (word_of_int r) }"

text \<open>The error number is negated a second time: \<open>EBADOVERFLOW\<close> stands for \<^verbatim>\<open>-EOVERFLOW\<close>.\<close>

definition vc_set_ipv4root_compat :: "'k sysenv \<Rightarrow> errno \<Rightarrow> u32 \<Rightarrow> (u32 \<times> u32) list \<Rightarrow> ('k sst, int) state" where
  "vc_set_ipv4root_compat h EBADOVERFLOW bcast ips =
     (if length ips > NB_IPV4ROOT then fail EBADOVERFLOW (- 1)
      else vserver_in h VCMD_set_ipv4root (of_nat (length ips)) (D_ipv4root bcast ips))"

section \<open>Names of the virtual host are read back\<close>

text \<open>
  What the wrappers rely on: the kernel keeps the array of a successful \<open>VCMD_set_vhi_name\<close> per context and field
  and \<open>VCMD_get_vhi_name\<close> returns it.
\<close>

definition names_kernel :: "'k sysenv \<Rightarrow> (u32 \<Rightarrow> u32 \<Rightarrow> 'k \<Rightarrow> char list) \<Rightarrow> bool" where
  "names_kernel h nm \<longleftrightarrow>
     (\<forall>c f n k. case se_kernel h VCMD_set_vhi_name c (D_vhi_name f n) k of (rc, e, d, k') \<Rightarrow> rc = 0 \<longrightarrow> nm c f k' = n) \<and>
     (\<forall>c f n k. case se_kernel h VCMD_get_vhi_name c (D_vhi_name f n) k of
        (rc, e, d, k') \<Rightarrow> rc = 0 \<and> d = D_vhi_name f (nm c f k))"

definition v13_available :: "'k sysenv \<Rightarrow> bool \<Rightarrow> bool" where
  "v13_available h multi \<longleftrightarrow> se_built h B_V13 \<and> (multi \<longrightarrow> fst (se_version h) \<ge> 0x00010011)"

lemma CALL_VC_first:
  "\<lbrakk>se_built h B_V13; multi \<Longrightarrow> fst (se_version h) \<ge> 0x00010011\<rbrakk> \<Longrightarrow>
   run_state (CALL_VC h multi ((A_V13, f) # alts) bad) s =
     run_state f (if multi then s\<lparr>sst_errno := snd (se_version h)\<rparr> else s)"
  by (auto simp: CALL_VC_def set_errno_def)

lemma takeWhile_cstr: "is_cstr v \<Longrightarrow> takeWhile (\<lambda>c. c \<noteq> NUL) (v @ NUL # r) = v" "is_cstr v \<Longrightarrow> takeWhile (\<lambda>c. c \<noteq> NUL) v = v"
  by (auto simp: is_cstr_def takeWhile_append takeWhile_eq_all_conv)

lemma uninit_vhi_name:
  assumes "kind (se_uninit h S_vhi_name) = S_vhi_name"
  obtains f n where "se_uninit h S_vhi_name = D_vhi_name f n"
  using assms by (cases "se_uninit h S_vhi_name") simp_all

lemma names_kernel_get:
  assumes "names_kernel h nm"
  obtains e k' where "se_kernel h VCMD_get_vhi_name c (D_vhi_name f n) k = (0, e, D_vhi_name f (nm c f k), k')"
proof -
  obtain rc e d k' where r: "se_kernel h VCMD_get_vhi_name c (D_vhi_name f n) k = (rc, e, d, k')" by (metis prod_cases4)
  have "case se_kernel h VCMD_get_vhi_name c (D_vhi_name f n) k of (rc, e, d, k') \<Rightarrow> rc = 0 \<and> d = D_vhi_name f (nm c f k)"
    using assms by (simp add: names_kernel_def)
  then show thesis using r that by simp
qed

text \<open>
  A name that was set for a virtual host is the name that is read back: the buffer receives the name, padded with
  NUL, as far as it and the 65 bytes of the structure reach, and keeps its bytes beyond. A name of 65 characters or more
  is refused with \<^verbatim>\<open>E2BIG\<close>, before any call is made, so that a stored name always ends in the structure.
\<close>

lemma vhi_roundtrip:
  assumes "names_kernel h nm" "kind (se_uninit h S_vhi_name) = S_vhi_name" "v13_available h multi" "is_cstr val"
    and "run_state (vc_set_vhi_name h setname multi xid type val None) s = (rc, t)"
  shows "if length val \<ge> VHI_SIZE then rc = - 1 \<and> sst_errno t = E2BIG \<and> sent t = sent s
    else rc = 0 \<longrightarrow>
      fst (run_state (vc_get_vhi_name h getname multi xid type buf len) t) =
        (0, take (min VHI_SIZE len) (val @ replicate VHI_SIZE NUL) @ drop (min VHI_SIZE len) buf)"
proof -
  define s' where "s' = (if multi then s\<lparr>sst_errno := snd (se_version h)\<rparr> else s)"
  define t' where "t' = (if multi then t\<lparr>sst_errno := snd (se_version h)\<rparr> else t)"
  let ?f = "vhin_number (VHI_USER2KERNEL type)"
  obtain f0 n0 where u: "se_uninit h S_vhi_name = D_vhi_name f0 n0" using uninit_vhi_name [OF assms(2)] .
  have set: "run_state (vc_set_vhi_name_v13 h xid type val (length val)) s' = (rc, t)"
    using assms(3-5) by (simp add: vc_set_vhi_name_def Let_def CALL_VC_first v13_available_def takeWhile_cstr s'_def)
  have get: "run_state (vc_get_vhi_name h getname multi xid type buf len) t = run_state (vc_get_vhi_name_v13 h xid type buf len) t'"
    using assms(3) by (simp add: vc_get_vhi_name_def CALL_VC_first v13_available_def t'_def)
  show ?thesis
  proof (cases "length val \<ge> VHI_SIZE")
    case True
    then show ?thesis using set by (auto simp: vc_set_vhi_name_v13_def fail_def set_errno_def s'_def)
  next
    case False
    have "nm xid ?f (kst t) = val @ NUL # drop (Suc (length val)) n0" if "rc = 0"
      using assms(1) set False that
      by (auto simp: vc_set_vhi_name_v13_def u vserver_in_def vserver_def names_kernel_def split: prod.splits)
    moreover have "kst t' = kst t" by (simp add: t'_def)
    moreover have "fst (run_state (vc_get_vhi_name_v13 h xid type buf len) t') =
        (0, strncpy buf (nm xid ?f (kst t')) (min VHI_SIZE len))"
      by (rule names_kernel_get [OF assms(1), of xid ?f n0 "kst t'"]) (simp add: vc_get_vhi_name_v13_def u vserver_def)
    moreover have "min (a - b) a = a - b" for a b :: nat by simp
    ultimately show ?thesis
      using False assms(4) by (simp add: get strncpy_def takeWhile_cstr)
  qed
qed

definition name_store :: "char list sysenv" where
  "name_store =
     \<lparr>se_kernel = (\<lambda>cmd ident d k.
        case d of D_vhi_name f n \<Rightarrow> if cmd = VCMD_set_vhi_name then (0, ENOSYS, d, n) else (0, ENOSYS, D_vhi_name f k, k)
        | _ \<Rightarrow> (- 1, ENOSYS, d, k)),
      se_uninit = (\<lambda>_. D_vhi_name 0 (replicate 65 (CHR ''x''))), se_version = (0x00020300, ENOSYS), se_config = 0,
      se_built = (\<lambda>_. True)\<rparr>"

lemma vhi_roundtrip_witness:
  "fst (run_state (vc_get_vhi_name name_store (\<lambda>b v n. ret (0, v)) True 5 vcVHI_NODENAME ''abcdef'' 5)
      (snd (run_state (vc_set_vhi_name name_store (\<lambda>b v n. ret 0) True 5 vcVHI_NODENAME ''vs'' None)
        \<lparr>sst_errno = ENOSYS, kst = [], sent = []\<rparr>))) = (0, ''vs'' @ [NUL, NUL, NUL] @ ''f'')"
proof -
  let ?r = "run_state (vc_set_vhi_name name_store (\<lambda>b v n. ret 0) True 5 vcVHI_NODENAME ''vs'' None)
    \<lparr>sst_errno = ENOSYS, kst = [], sent = []\<rparr>"
  have "VCMD_get_vhi_name \<noteq> VCMD_set_vhi_name" by (simp add: command_numbers)
  then have k: "names_kernel name_store (\<lambda>c f k. k)" by (simp add: names_kernel_def name_store_def)
  have "fst ?r = 0" by code_simp
  then have r: "?r = (0, snd ?r)" by (metis prod.collapse)
  have "v13_available name_store True" "is_cstr ''vs''" "kind (se_uninit name_store S_vhi_name) = S_vhi_name"
    by (simp_all add: v13_available_def name_store_def is_cstr_def)
  from vhi_roundtrip [OF k this(3,1,2) r, where getname = "\<lambda>b v n. ret (0, v)" and buf = "''abcdef''" and len = 5]
  show ?thesis by (simp add: VHI_SIZE_def numeral_eq_Suc)
qed

end
