(* ===== verification/SysNet.thy ===== *)
theory SysNet
  imports SysCtx NetTools
begin

text \<open>
  The wrappers of the system calls for network contexts (\<^verbatim>\<open>lib/syscall_net*\<close>, \<^verbatim>\<open>lib/syscall_*n*-net.hc\<close>). Addresses are
  the bytes in network order; an IPv4 address is the first four bytes of the union of \<^verbatim>\<open>struct vc_net_addr\<close>.
\<close>

section \<open>Creating and entering\<close>

definition vc_net_create_net :: "'k sysenv \<Rightarrow> xid_t \<Rightarrow> ('k sst, xid_t) state" where
  "vc_net_create_net h nid =
     do { res \<leftarrow> vserver_in h VCMD_net_create (NID_USER2KERNEL nid) D_null; ret (NID_KERNEL2USER (word_of_int res)) }"

definition vc_net_create :: "'k sysenv \<Rightarrow> xid_t \<Rightarrow> ('k sst, xid_t) state" where
  "vc_net_create h nid = CALL_VC h False [(A_NET, vc_net_create_net h nid)] (- 1)"

definition vc_net_migrate_net :: "'k sysenv \<Rightarrow> xid_t \<Rightarrow> ('k sst, int) state" where
  "vc_net_migrate_net h nid = vserver_in h VCMD_net_migrate (NID_USER2KERNEL nid) D_null"

definition vc_net_migrate :: "'k sysenv \<Rightarrow> xid_t \<Rightarrow> ('k sst, int) state" where
  "vc_net_migrate h nid = CALL_VC h False [(A_NET, vc_net_migrate_net h nid)] (- 1)"

definition vc_get_task_nid_net :: "'k sysenv \<Rightarrow> u32 \<Rightarrow> ('k sst, xid_t) state" where
  "vc_get_task_nid_net h pid =
     do { res \<leftarrow> vserver_in h VCMD_task_nid pid D_null; ret (NID_KERNEL2USER (word_of_int res)) }"

definition vc_get_task_nid :: "'k sysenv \<Rightarrow> u32 \<Rightarrow> ('k sst, xid_t) state" where
  "vc_get_task_nid h pid = CALL_VC h False [(A_NET, vc_get_task_nid_net h pid)] (- 1)"

section \<open>Flags, capabilities, information\<close>

fun net_flags_of :: "kdata \<Rightarrow> u64 \<times> u64" where "net_flags_of (D_net_flags f m) = (f, m)"
fun net_caps_of :: "kdata \<Rightarrow> u64 \<times> u64" where "net_caps_of (D_net_caps c m) = (c, m)"
fun nx_info_of :: "kdata \<Rightarrow> u32" where "nx_info_of (D_nx_info n) = n"

definition vc_get_nflags_net :: "'k sysenv \<Rightarrow> xid_t \<Rightarrow> vc_net_flags \<Rightarrow> ('k sst, int \<times> vc_net_flags) state" where
  "vc_get_nflags_net h nid flags =
     do {
       (res, k) \<leftarrow> vserver h VCMD_get_nflags (NID_USER2KERNEL nid) (se_uninit h S_net_flags);
       ret (res, flags\<lparr>nf_flagword := fst (net_flags_of k), nf_mask := snd (net_flags_of k)\<rparr>)
     }"

definition vc_get_nflags :: "'k sysenv \<Rightarrow> xid_t \<Rightarrow> vc_net_flags option \<Rightarrow> ('k sst, int \<times> vc_net_flags option) state" where
  "vc_get_nflags h nid flags =
     (case flags of
        None \<Rightarrow> fail EFAULT (bad_out flags)
      | Some f \<Rightarrow> CALL_VC h False [(A_NET, do { (r, f') \<leftarrow> vc_get_nflags_net h nid f; ret (r, Some f') })] (bad_out flags))"

definition vc_set_nflags_net :: "'k sysenv \<Rightarrow> xid_t \<Rightarrow> vc_net_flags option \<Rightarrow> ('k sst, int) state" where
  "vc_set_nflags_net h nid flags =
     (case flags of
        None \<Rightarrow> fail EFAULT (- 1)
      | Some f \<Rightarrow> vserver_in h VCMD_set_nflags (NID_USER2KERNEL nid) (D_net_flags (nf_flagword f) (nf_mask f)))"

definition vc_set_nflags :: "'k sysenv \<Rightarrow> xid_t \<Rightarrow> vc_net_flags option \<Rightarrow> ('k sst, int) state" where
  "vc_set_nflags h nid flags =
     (case flags of
        None \<Rightarrow> fail EFAULT (- 1)
      | Some f \<Rightarrow> CALL_VC h False [(A_NET, vc_set_nflags_net h nid flags)] (- 1))"

definition vc_get_ncaps_net :: "'k sysenv \<Rightarrow> xid_t \<Rightarrow> vc_net_caps \<Rightarrow> ('k sst, int \<times> vc_net_caps) state" where
  "vc_get_ncaps_net h nid caps =
     do {
       (res, k) \<leftarrow> vserver h VCMD_get_ncaps (NID_USER2KERNEL nid) (se_uninit h S_net_caps);
       ret (res, caps\<lparr>nc_ncaps := fst (net_caps_of k), nc_cmask := snd (net_caps_of k)\<rparr>)
     }"

definition vc_get_ncaps :: "'k sysenv \<Rightarrow> xid_t \<Rightarrow> vc_net_caps option \<Rightarrow> ('k sst, int \<times> vc_net_caps option) state" where
  "vc_get_ncaps h nid caps =
     (case caps of
        None \<Rightarrow> fail EFAULT (bad_out caps)
      | Some c \<Rightarrow> CALL_VC h False [(A_NET, do { (r, c') \<leftarrow> vc_get_ncaps_net h nid c; ret (r, Some c') })] (bad_out caps))"

definition vc_set_ncaps_net :: "'k sysenv \<Rightarrow> xid_t \<Rightarrow> vc_net_caps \<Rightarrow> ('k sst, int) state" where
  "vc_set_ncaps_net h nid caps = vserver_in h VCMD_set_ncaps (NID_USER2KERNEL nid) (D_net_caps (nc_ncaps caps) (nc_cmask caps))"

definition vc_set_ncaps :: "'k sysenv \<Rightarrow> xid_t \<Rightarrow> vc_net_caps option \<Rightarrow> ('k sst, int) state" where
  "vc_set_ncaps h nid caps =
     (case caps of None \<Rightarrow> fail EFAULT (- 1) | Some c \<Rightarrow> CALL_VC h False [(A_NET, vc_set_ncaps_net h nid c)] (- 1))"

definition vc_get_nx_info_net :: "'k sysenv \<Rightarrow> xid_t \<Rightarrow> xid_t \<Rightarrow> ('k sst, int \<times> xid_t) state" where
  "vc_get_nx_info_net h nid info =
     do {
       (rc, k) \<leftarrow> vserver h VCMD_nx_info (NID_USER2KERNEL nid) (se_uninit h S_nx_info);
       if rc = - 1 then ret (- 1, info) else ret (rc, NID_KERNEL2USER (nx_info_of k))
     }"

definition vc_get_nx_info :: "'k sysenv \<Rightarrow> xid_t \<Rightarrow> xid_t option \<Rightarrow> ('k sst, int \<times> xid_t option) state" where
  "vc_get_nx_info h nid info =
     (case info of
        None \<Rightarrow> fail EFAULT (bad_out info)
      | Some i \<Rightarrow> CALL_VC h False [(A_NET, do { (r, i') \<leftarrow> vc_get_nx_info_net h nid i; ret (r, Some i') })] (bad_out info))"

section \<open>Addresses\<close>

text \<open>An IPv4 address out of the union, and a number stored where an address belongs (on a little-endian machine).\<close>

definition v4_of :: "u8 list \<Rightarrow> u8 list" where "v4_of b = take 4 b"

definition s_addr_of_number :: "u32 \<Rightarrow> u8 list" where
  "s_addr_of_number n = [ucast n, ucast (drop_bit 8 n), ucast (drop_bit 16 n), ucast (drop_bit 24 n)]"

definition v6_words :: "u8 list \<Rightarrow> u8 list list" where
  "v6_words b = [take 4 b, take 4 (drop 4 b), take 4 (drop 8 b), take 4 (drop 12 b)]"

text \<open>The old structure: what is not assigned is as it was.\<close>

fun net_v0_v4 :: "u16 \<Rightarrow> u16 \<Rightarrow> vc_net_addr \<Rightarrow> kdata \<Rightarrow> kdata" where
  "net_v0_v4 ty n a (D_net_addr_v0 t c ips ms) =
     D_net_addr_v0 ty n (ips[0 := v4_of (vna_ip a)]) (ms[0 := v4_of (vna_mask a)])"

fun net_v0_v6 :: "u16 \<Rightarrow> u16 \<Rightarrow> vc_net_addr \<Rightarrow> kdata \<Rightarrow> kdata" where
  "net_v0_v6 ty n a (D_net_addr_v0 t c ips ms) =
     D_net_addr_v0 ty n (v6_words (vna_ip a)) (ms[0 := s_addr_of_number (ucast (vna_prefix a))])"

fun net_v0_type :: "u16 \<Rightarrow> u16 \<Rightarrow> kdata \<Rightarrow> kdata" where
  "net_v0_type ty n (D_net_addr_v0 t c ips ms) = D_net_addr_v0 ty n ips ms"

fun with_type :: "u16 \<Rightarrow> kdata \<Rightarrow> kdata" where
  "with_type ty (D_net_ipv4 t f i m) = D_net_ipv4 ty f i m"
| "with_type ty (D_net_ipv6 t f p i m) = D_net_ipv6 ty f p i m"
| "with_type ty d = d"

definition vc_net_add_net :: "'k sysenv \<Rightarrow> xid_t \<Rightarrow> vc_net_addr \<Rightarrow> ('k sst, int) state" where
  "vc_net_add_net h nid info =
     (let ty = vna_type info AND (VC_NXA_TYPE_IPV4 OR VC_NXA_TYPE_IPV6 OR VC_NXA_MOD_BCAST);
          u = se_uninit h S_net_addr_v0
      in if ty OR VC_NXA_TYPE_ADDR \<noteq> vna_type info then fail EINVAL (- 1)
         else
           vserver_in h VCMD_net_add_v0 (NID_USER2KERNEL nid)
             (if ty = VC_NXA_TYPE_IPV4 \<or> ty = VC_NXA_TYPE_IPV4 OR VC_NXA_MOD_BCAST then net_v0_v4 ty 1 info u
              else if ty = VC_NXA_TYPE_IPV6 then net_v0_v6 ty 1 info u
              else net_v0_type ty 1 u))"

definition vc_net_add_netv2 :: "'k sysenv \<Rightarrow> xid_t \<Rightarrow> vc_net_addr \<Rightarrow> ('k sst, int) state" where
  "vc_net_add_netv2 h nid info =
     (let family = vna_type info AND (VC_NXA_TYPE_IPV4 OR VC_NXA_TYPE_IPV6)
      in if family = VC_NXA_TYPE_IPV4 then
           vserver_in h VCMD_net_add_ipv4_v1 (NID_USER2KERNEL nid)
             (if v4_of (vna_ip info) = [0, 0, 0, 0]
              then D_net_ipv4 VC_NXA_TYPE_MASK (vna_flags info) (v4_of (vna_ip info)) [0, 0, 0, 0]
              else D_net_ipv4 (vna_type info AND NOT VC_NXA_TYPE_IPV4) (vna_flags info) (v4_of (vna_ip info))
                     (v4_of (vna_mask info)))
         else if family = VC_NXA_TYPE_IPV6 then
           vserver_in h VCMD_net_add_ipv6 (NID_USER2KERNEL nid)
             (D_net_ipv6 (vna_type info AND NOT VC_NXA_TYPE_IPV6) (vna_flags info) (ucast (vna_prefix info)) (vna_ip info)
               (vna_mask info))
         else fail EINVAL (- 1))"

definition vc_net_add :: "'k sysenv \<Rightarrow> bool \<Rightarrow> xid_t \<Rightarrow> vc_net_addr option \<Rightarrow> ('k sst, int) state" where
  "vc_net_add h multi nid info =
     (case info of
        None \<Rightarrow> fail EFAULT (- 1)
      | Some a \<Rightarrow> CALL_VC h multi [(A_NETV2, vc_net_add_netv2 h nid a), (A_NET, vc_net_add_net h nid a)] (- 1))"

definition vc_net_remove_net :: "'k sysenv \<Rightarrow> xid_t \<Rightarrow> vc_net_addr \<Rightarrow> ('k sst, int) state" where
  "vc_net_remove_net h nid info =
     (let ty = vna_type info AND (VC_NXA_TYPE_IPV4 OR VC_NXA_TYPE_IPV6);
          u = se_uninit h S_net_addr_v0;
          send = vserver_in h VCMD_net_remove_v0 (NID_USER2KERNEL nid)
      in if vna_type info = VC_NXA_TYPE_IPV4 OR VC_NXA_TYPE_ADDR then send (net_v0_v4 ty 1 info u)
         else if vna_type info = VC_NXA_TYPE_IPV6 OR VC_NXA_TYPE_ADDR then send (net_v0_v6 ty 1 info u)
         else if vna_type info = VC_NXA_TYPE_ANY then send (net_v0_type (- 1) (- 1) u)
         else fail EINVAL (- 1))"

text \<open>All addresses are removed by two calls; a kernel without IPv6 may not know the first one.\<close>

definition vc_net_remove_netv2 :: "'k sysenv \<Rightarrow> xid_t \<Rightarrow> vc_net_addr \<Rightarrow> ('k sst, int) state" where
  "vc_net_remove_netv2 h nid info =
     (if vna_type info = VC_NXA_TYPE_ANY then
        do {
          r \<leftarrow> vserver_in h VCMD_net_remove_ipv6 (NID_USER2KERNEL nid) (with_type VC_NXA_TYPE_ANY (se_uninit h S_net_ipv6));
          e \<leftarrow> State (\<lambda>s. (sst_errno s, s));
          if r = - 1 \<and> e \<noteq> ENOSYS then ret (- 1)
          else vserver_in h VCMD_net_remove_ipv4_v1 (NID_USER2KERNEL nid)
                 (with_type VC_NXA_TYPE_ANY (se_uninit h S_net_ipv4))
        }
      else
        (let family = vna_type info AND (VC_NXA_TYPE_IPV4 OR VC_NXA_TYPE_IPV6)
         in if family = VC_NXA_TYPE_IPV4 then
              vserver_in h VCMD_net_remove_ipv4_v1 (NID_USER2KERNEL nid)
                (D_net_ipv4 (vna_type info AND NOT VC_NXA_TYPE_IPV4) (vna_flags info) (v4_of (vna_ip info)) (v4_of (vna_mask info)))
            else if family = VC_NXA_TYPE_IPV6 then
              vserver_in h VCMD_net_remove_ipv6 (NID_USER2KERNEL nid)
                (D_net_ipv6 (vna_type info AND NOT VC_NXA_TYPE_IPV6) (vna_flags info) (ucast (vna_prefix info)) (vna_ip info)
                  (vna_mask info))
            else fail EINVAL (- 1)))"

definition vc_net_remove :: "'k sysenv \<Rightarrow> bool \<Rightarrow> xid_t \<Rightarrow> vc_net_addr option \<Rightarrow> ('k sst, int) state" where
  "vc_net_remove h multi nid info =
     (case info of
        None \<Rightarrow> fail EFAULT (- 1)
      | Some a \<Rightarrow> CALL_VC h multi [(A_NETV2, vc_net_remove_netv2 h nid a), (A_NET, vc_net_remove_net h nid a)] (- 1))"

end
