(* ===== verification/SysAttr.thy ===== *)
theory SysAttr
  imports SysCtx FsTools
begin

text \<open>
  Attributes of files: the wrappers around \<^verbatim>\<open>VCMD_get_iattr\<close> and its kin, and the older way through
  \<^verbatim>\<open>ioctl\<close> (\<^verbatim>\<open>lib/syscall_*iattr-fscompat.hc\<close>, \<^verbatim>\<open>lib/ioctl-*.hc\<close>). The calls on files
  are operations on the kernel's state that return a value or an error number; \<^verbatim>\<open>ENSC_FIX_IOCTL\<close> does nothing
  outside dietlibc.
\<close>

datatype attr_ftype = F_REG | F_DIR | F_OTHER

record 'k fileops =
  fo_lstat :: "cstr \<Rightarrow> 'k \<Rightarrow> errno + attr_ftype \<times> u32"
  fo_open :: "cstr \<Rightarrow> 'k \<Rightarrow> errno + int \<times> 'k"
  fo_close :: "int \<Rightarrow> 'k \<Rightarrow> errno option \<times> 'k"
  fo_fstat :: "int \<Rightarrow> 'k \<Rightarrow> errno + attr_ftype \<times> u32"
  fo_fchmod :: "int \<Rightarrow> u32 \<Rightarrow> 'k \<Rightarrow> errno + 'k"
  fo_getctx :: "int \<Rightarrow> 'k \<Rightarrow> errno + u32"
  fo_setctx :: "int \<Rightarrow> u32 \<Rightarrow> 'k \<Rightarrow> errno + 'k"
  fo_getflags :: "int \<Rightarrow> 'k \<Rightarrow> errno + u64"
  fo_setflags :: "int \<Rightarrow> u64 \<Rightarrow> 'k \<Rightarrow> errno + 'k"
  fo_getxflg :: "int \<Rightarrow> 'k \<Rightarrow> errno + u64"
  fo_setxflg :: "int \<Rightarrow> u64 \<Rightarrow> 'k \<Rightarrow> errno + 'k"

text \<open>A call that reads, and one that changes the state: an error is recorded in \<^verbatim>\<open>errno\<close>.\<close>

definition file_read :: "('k \<Rightarrow> errno + 'a) \<Rightarrow> ('k sst, 'a option) state" where
  "file_read f = State (\<lambda>s. case f (kst s) of Inl e \<Rightarrow> (None, s\<lparr>sst_errno := e\<rparr>) | Inr v \<Rightarrow> (Some v, s))"

definition file_write :: "('k \<Rightarrow> errno + 'k) \<Rightarrow> ('k sst, bool) state" where
  "file_write f = State (\<lambda>s. case f (kst s) of Inl e \<Rightarrow> (False, s\<lparr>sst_errno := e\<rparr>) | Inr k \<Rightarrow> (True, s\<lparr>kst := k\<rparr>))"

definition file_open :: "('k \<Rightarrow> errno + int \<times> 'k) \<Rightarrow> ('k sst, int option) state" where
  "file_open f =
     State (\<lambda>s. case f (kst s) of Inl e \<Rightarrow> (None, s\<lparr>sst_errno := e\<rparr>) | Inr (fd, k) \<Rightarrow> (Some fd, s\<lparr>kst := k\<rparr>))"

definition file_close :: "'k fileops \<Rightarrow> int \<Rightarrow> ('k sst, unit) state" where
  "file_close fo fd =
     State (\<lambda>s.
       (let (e, k) = fo_close fo fd (kst s)
        in ((), s\<lparr>sst_errno := (case e of None \<Rightarrow> sst_errno s | Some x \<Rightarrow> x), kst := k\<rparr>)))"

section \<open>The flags of the file system\<close>

definition VC_IMMUTABLE_FILE_FL :: u64 where "VC_IMMUTABLE_FILE_FL = 0x0000010"
definition VC_IMMUTABLE_LINK_FL :: u64 where "VC_IMMUTABLE_LINK_FL = 0x0008000"
definition EXT2_IMMUTABLE_FILE_FL :: u64 where "EXT2_IMMUTABLE_FILE_FL = 0x00000010"
definition EXT2_IMMUTABLE_LINK_FL :: u64 where "EXT2_IMMUTABLE_LINK_FL = 0x00008000"

definition EXT2FLAGS_USER2KERNEL :: "u64 \<Rightarrow> u64" where
  "EXT2FLAGS_USER2KERNEL x =
     ((x AND NOT (VC_IMMUTABLE_FILE_FL OR VC_IMMUTABLE_LINK_FL)) OR
      (if x AND VC_IMMUTABLE_FILE_FL \<noteq> 0 then EXT2_IMMUTABLE_FILE_FL else 0) OR
      (if x AND VC_IMMUTABLE_LINK_FL \<noteq> 0 then EXT2_IMMUTABLE_LINK_FL else 0))"

definition EXT2FLAGS_KERNEL2USER :: "u64 \<Rightarrow> u64" where
  "EXT2FLAGS_KERNEL2USER x =
     ((x AND NOT (EXT2_IMMUTABLE_FILE_FL OR EXT2_IMMUTABLE_LINK_FL)) OR
      (if x AND EXT2_IMMUTABLE_FILE_FL \<noteq> 0 then VC_IMMUTABLE_FILE_FL else 0) OR
      (if x AND EXT2_IMMUTABLE_LINK_FL \<noteq> 0 then VC_IMMUTABLE_LINK_FL else 0))"

definition vc_X_get_ext2flags :: "'k fileops \<Rightarrow> int \<Rightarrow> ('k sst, u64 option) state" where
  "vc_X_get_ext2flags fo fd =
     do { r \<leftarrow> file_read (fo_getflags fo fd); ret (map_option EXT2FLAGS_KERNEL2USER r) }"

definition vc_X_set_ext2flags :: "'k fileops \<Rightarrow> int \<Rightarrow> u64 \<Rightarrow> u64 \<Rightarrow> ('k sst, bool) state" where
  "vc_X_set_ext2flags fo fd set_flags del_flags =
     (let set_flags = EXT2FLAGS_USER2KERNEL set_flags; del_flags = EXT2FLAGS_USER2KERNEL del_flags
      in if del_flags \<noteq> - 1 then
           do {
             r \<leftarrow> file_read (fo_getflags fo fd);
             (case r of
                None \<Rightarrow> ret False
              | Some old_flags \<Rightarrow> file_write (fo_setflags fo fd (old_flags AND NOT del_flags OR set_flags)))
           }
         else file_write (fo_setflags fo fd set_flags))"

definition vc_X_get_filecontext :: "'k fileops \<Rightarrow> int \<Rightarrow> ('k sst, xid_t) state" where
  "vc_X_get_filecontext fo fd =
     do { r \<leftarrow> file_read (fo_getctx fo fd); ret (case r of None \<Rightarrow> VC_NOCTX | Some c \<Rightarrow> c) }"

definition vc_X_set_filecontext :: "'k fileops \<Rightarrow> int \<Rightarrow> xid_t \<Rightarrow> ('k sst, bool) state" where
  "vc_X_set_filecontext fo fd ctx = file_write (fo_setctx fo fd ctx)"

definition vc_X_get_xflg :: "'k fileops \<Rightarrow> int \<Rightarrow> ('k sst, u64 option) state" where
  "vc_X_get_xflg fo fd = file_read (fo_getxflg fo fd)"

definition vc_X_set_xflg :: "'k fileops \<Rightarrow> int \<Rightarrow> u64 \<Rightarrow> ('k sst, bool) state" where
  "vc_X_set_xflg fo fd flags = file_write (fo_setxflg fo fd flags)"

section \<open>Setting attributes through the file system\<close>

text \<open>The label \<^verbatim>\<open>err\<close>: the file is closed and \<^verbatim>\<open>errno\<close> kept.\<close>

definition iattr_err :: "'k fileops \<Rightarrow> int \<Rightarrow> ('k sst, int) state" where
  "iattr_err fo fd =
     do { old_errno \<leftarrow> State (\<lambda>s. (sst_errno s, s)); file_close fo fd; set_errno old_errno; ret (- 1) }"

text \<open>The four steps, each of which tells whether to go on.\<close>

definition set_iunlink :: "'k fileops \<Rightarrow> int \<Rightarrow> u32 \<Rightarrow> u32 \<Rightarrow> ('k sst, bool) state" where
  "set_iunlink fo fd flags m =
     (if m AND VC_IATTR_IUNLINK = 0 then ret True
      else
        (let tmp = VC_IMMUTABLE_FILE_FL OR VC_IMMUTABLE_LINK_FL; on = (flags AND VC_IATTR_IUNLINK \<noteq> 0)
         in vc_X_set_ext2flags fo fd (if on then tmp else 0) (if on then 0 else tmp)))"

definition set_barrier :: "'k fileops \<Rightarrow> int \<Rightarrow> u32 \<Rightarrow> u32 \<Rightarrow> ('k sst, bool) state" where
  "set_barrier fo fd flags m =
     (if m AND VC_IATTR_BARRIER = 0 then ret True
      else
        (let on = (flags AND VC_IATTR_BARRIER \<noteq> 0)
         in do {
              ok \<leftarrow> vc_X_set_ext2flags fo fd (if on then VC_IMMUTABLE_LINK_FL else 0) (if on then 0 else VC_IMMUTABLE_LINK_FL);
              if ok then file_write (fo_fchmod fo fd (if on then 0 else 0x140)) else ret False
            }))"

definition set_xid :: "'k fileops \<Rightarrow> int \<Rightarrow> xid_t \<Rightarrow> u32 \<Rightarrow> ('k sst, bool) state" where
  "set_xid fo fd xid m = (if m AND VC_IATTR_XID = 0 then ret True else vc_X_set_filecontext fo fd xid)"

definition set_xflg :: "'k fileops \<Rightarrow> int \<Rightarrow> u32 \<Rightarrow> u32 \<Rightarrow> ('k sst, bool) state" where
  "set_xflg fo fd flags m =
     (if m AND (VC_IATTR_HIDE OR VC_IATTR_WATCH) = 0 then ret True
      else
        do {
          r \<leftarrow> vc_X_get_xflg fo fd;
          (case r of
             None \<Rightarrow> ret False
           | Some tmp \<Rightarrow>
               vc_X_set_xflg fo fd
                 ((tmp AND NOT ((if m AND VC_IATTR_HIDE \<noteq> 0 then 1 else 0) OR (if m AND VC_IATTR_WATCH \<noteq> 0 then 2 else 0))) OR
                  ((if flags AND VC_IATTR_HIDE \<noteq> 0 then 1 else 0) OR (if flags AND VC_IATTR_WATCH \<noteq> 0 then 2 else 0))))
        })"

text \<open>What runs between \<^verbatim>\<open>open\<close> and \<^verbatim>\<open>close\<close> when setting.\<close>

definition set_all :: "'k fileops \<Rightarrow> int \<Rightarrow> xid_t \<Rightarrow> u32 \<Rightarrow> u32 \<Rightarrow> ('k sst, bool) state" where
  "set_all fo fd xid flags m =
     do {
       st \<leftarrow> file_read (fo_fstat fo fd);
       ok \<leftarrow> (if st = None then ret False else set_iunlink fo fd flags m);
       ok \<leftarrow> (if ok then set_barrier fo fd flags m else ret False);
       ok \<leftarrow> (if ok then set_xid fo fd xid m else ret False);
       if ok then set_xflg fo fd flags m else ret False
     }"

definition vc_set_iattr_fscompat :: "'k fileops \<Rightarrow> cstr \<Rightarrow> xid_t \<Rightarrow> u32 \<Rightarrow> u32 \<Rightarrow> ('k sst, int) state" where
  "vc_set_iattr_fscompat fo filename xid flags m =
     do {
       r \<leftarrow> file_open (fo_open fo filename);
       (case r of
          None \<Rightarrow> ret (- 1)
        | Some fd \<Rightarrow>
            do { ok \<leftarrow> set_all fo fd xid flags m; if ok then do { file_close fo fd; ret 0 } else iattr_err fo fd })
     }"

section \<open>Reading attributes through the file system\<close>

text \<open>
  The output parameters as a tuple: the context, the flags and the mask of what could be read. A pointer that is null
  is never written, as the caller checked them against the mask.
\<close>

definition get_xid :: "'k fileops \<Rightarrow> int \<Rightarrow> u32 \<Rightarrow> xid_t \<times> u32 \<times> u32 \<Rightarrow> ('k sst, xid_t \<times> u32 \<times> u32) state" where
  "get_xid fo fd old_mask out =
     (case out of (xid, flags, m) \<Rightarrow>
        if old_mask AND VC_IATTR_XID = 0 then ret out
        else
          do {
            c \<leftarrow> vc_X_get_filecontext fo fd;
            ret (c, flags, if c \<noteq> VC_NOCTX then m OR VC_IATTR_XID else m)
          })"

definition get_iunlink :: "'k fileops \<Rightarrow> int \<Rightarrow> u32 \<Rightarrow> xid_t \<times> u32 \<times> u32 \<Rightarrow> ('k sst, xid_t \<times> u32 \<times> u32) state" where
  "get_iunlink fo fd old_mask out =
     (case out of (xid, flags, m) \<Rightarrow>
        if old_mask AND VC_IATTR_IUNLINK = 0 then ret out
        else
          do {
            r \<leftarrow> vc_X_get_ext2flags fo fd;
            ret (case r of
                   None \<Rightarrow> out
                 | Some tmp \<Rightarrow>
                     (xid, if tmp AND (VC_IMMUTABLE_FILE_FL OR VC_IMMUTABLE_LINK_FL) \<noteq> 0 then flags OR VC_IATTR_IUNLINK else flags,
                      m OR VC_IATTR_IUNLINK))
          })"

definition get_barrier ::
  "'k fileops \<Rightarrow> int \<Rightarrow> attr_ftype \<times> u32 \<Rightarrow> u32 \<Rightarrow> xid_t \<times> u32 \<times> u32 \<Rightarrow> ('k sst, xid_t \<times> u32 \<times> u32) state" where
  "get_barrier fo fd st old_mask out =
     (case out of (xid, flags, m) \<Rightarrow>
        if old_mask AND VC_IATTR_BARRIER = 0 \<or> fst st \<noteq> F_DIR then ret out
        else if snd st AND 0x1FF \<noteq> 0 then ret (xid, flags, m OR VC_IATTR_BARRIER)
        else
          do {
            r \<leftarrow> vc_X_get_ext2flags fo fd;
            ret (xid,
                 case r of
                   None \<Rightarrow> flags
                 | Some fl \<Rightarrow> if fl AND VC_IMMUTABLE_LINK_FL \<noteq> 0 then flags OR VC_IATTR_BARRIER else flags,
                 m OR VC_IATTR_BARRIER)
          })"

definition get_xflg :: "'k fileops \<Rightarrow> int \<Rightarrow> u32 \<Rightarrow> xid_t \<times> u32 \<times> u32 \<Rightarrow> ('k sst, xid_t \<times> u32 \<times> u32) state" where
  "get_xflg fo fd old_mask out =
     (case out of (xid, flags, m) \<Rightarrow>
        if old_mask AND (VC_IATTR_WATCH OR VC_IATTR_HIDE) = 0 then ret out
        else
          do {
            r \<leftarrow> vc_X_get_xflg fo fd;
            ret (case r of
                   None \<Rightarrow> out
                 | Some tmp \<Rightarrow>
                     (let flags = (if tmp AND 1 \<noteq> 0 then flags OR VC_IATTR_HIDE else flags);
                          flags = (if tmp AND 2 \<noteq> 0 then flags OR VC_IATTR_WATCH else flags)
                      in (xid, flags, m OR (VC_IATTR_WATCH OR VC_IATTR_HIDE))))
          })"

definition get_all ::
  "'k fileops \<Rightarrow> int \<Rightarrow> attr_ftype \<times> u32 \<Rightarrow> u32 \<Rightarrow> xid_t \<times> u32 \<times> u32 \<Rightarrow> ('k sst, xid_t \<times> u32 \<times> u32) state" where
  "get_all fo fd st old_mask out =
     do {
       o1 \<leftarrow> get_xid fo fd old_mask out;
       o2 \<leftarrow> get_iunlink fo fd old_mask o1;
       o3 \<leftarrow> get_barrier fo fd st old_mask o2;
       get_xflg fo fd old_mask o3
     }"

definition vc_get_iattr_fscompat ::
  "'k fileops \<Rightarrow> cstr \<Rightarrow> xid_t \<times> u32 \<times> u32 \<Rightarrow> ('k sst, int \<times> xid_t \<times> u32 \<times> u32) state" where
  "vc_get_iattr_fscompat fo filename out =
     (case out of (xid, flags, old_mask) \<Rightarrow>
        do {
          st \<leftarrow> file_read (fo_lstat fo filename);
          (case st of
             None \<Rightarrow> ret (- 1, xid, flags, 0)
           | Some (F_OTHER, _) \<Rightarrow> ret (0, xid, flags, 0)
           | Some _ \<Rightarrow>
               do {
                 r \<leftarrow> file_open (fo_open fo filename);
                 (case r of
                    None \<Rightarrow> ret (- 1, xid, flags, 0)
                  | Some fd \<Rightarrow>
                      do {
                        st \<leftarrow> file_read (fo_fstat fo fd);
                        (case st of
                           None \<Rightarrow> do { e \<leftarrow> iattr_err fo fd; ret (e, xid, flags, 0) }
                         | Some st \<Rightarrow>
                             do {
                               res \<leftarrow> get_all fo fd st old_mask (xid, flags, 0);
                               file_close fo fd;
                               ret (0, res)
                             })
                      })
               })
        })"

section \<open>No descriptor is left open, and the error number is kept\<close>

text \<open>
  \<open>I\<close> is the set of the open descriptors: a successful \<^verbatim>\<open>open\<close> adds one that was not open, \<^verbatim>\<open>close\<close> takes
  its own one away whatever it answers (as on Linux; closing what is not open changes nothing), and nothing else
  changes the set. \<open>E\<close> holds of the errors of all calls but \<^verbatim>\<open>close\<close>.
\<close>

definition fd_laws :: "'k fileops \<Rightarrow> ('k \<Rightarrow> int set) \<Rightarrow> (errno \<Rightarrow> bool) \<Rightarrow> bool" where
  "fd_laws fo I E \<longleftrightarrow>
     (\<forall>n k e. fo_open fo n k = Inl e \<longrightarrow> E e) \<and> (\<forall>n k fd k'. fo_open fo n k = Inr (fd, k') \<longrightarrow> fd \<notin> I k \<and> I k' = insert fd (I k)) \<and>
     (\<forall>fd k. I (snd (fo_close fo fd k)) = I k - {fd}) \<and>
     (\<forall>n k e. fo_lstat fo n k = Inl e \<longrightarrow> E e) \<and>
     (\<forall>fd k e. fo_fstat fo fd k = Inl e \<or> fo_getctx fo fd k = Inl e \<or> fo_getflags fo fd k = Inl e \<or>
        fo_getxflg fo fd k = Inl e \<longrightarrow> E e) \<and>
     (\<forall>fd v k e. fo_fchmod fo fd v k = Inl e \<longrightarrow> E e) \<and> (\<forall>fd v k k'. fo_fchmod fo fd v k = Inr k' \<longrightarrow> I k' = I k) \<and>
     (\<forall>fd v k e. fo_setctx fo fd v k = Inl e \<longrightarrow> E e) \<and> (\<forall>fd v k k'. fo_setctx fo fd v k = Inr k' \<longrightarrow> I k' = I k) \<and>
     (\<forall>fd v k e. fo_setflags fo fd v k = Inl e \<longrightarrow> E e) \<and> (\<forall>fd v k k'. fo_setflags fo fd v k = Inr k' \<longrightarrow> I k' = I k) \<and>
     (\<forall>fd v k e. fo_setxflg fo fd v k = Inl e \<longrightarrow> E e) \<and> (\<forall>fd v k k'. fo_setxflg fo fd v k = Inr k' \<longrightarrow> I k' = I k)"

text \<open>A step with an open descriptor: the set stays, and when it says no, \<^verbatim>\<open>errno\<close> is set.\<close>

definition fd_step :: "('k \<Rightarrow> int set) \<Rightarrow> (errno \<Rightarrow> bool) \<Rightarrow> ('a \<Rightarrow> bool) \<Rightarrow> ('k sst, 'a) state \<Rightarrow> bool" where
  "fd_step I E no m \<longleftrightarrow>
     (\<forall>s. case run_state m s of (x, t) \<Rightarrow> I (kst t) = I (kst s) \<and> (no x \<longrightarrow> E (sst_errno t)))"

lemma fd_stepD: "\<lbrakk>fd_step I E no m; run_state m s = (x, t)\<rbrakk> \<Longrightarrow> I (kst t) = I (kst s) \<and> (no x \<longrightarrow> E (sst_errno t))"
  by (auto simp: fd_step_def dest: spec [of _ s])

named_theorems fd_intros

lemma fd_return [fd_intros]: "\<not> no x \<Longrightarrow> fd_step I E no (ret x)"
  by (simp add: fd_step_def)

lemma fd_weaken: "fd_step I E no m \<Longrightarrow> fd_step I E (\<lambda>_. False) m"
  by (auto simp: fd_step_def split: prod.splits)

lemma fd_bind:
  assumes m: "fd_step I E no' m" and f: "\<And>x. \<not> no' x \<Longrightarrow> fd_step I E no (f x)"
    and stop: "\<And>x. no' x \<Longrightarrow> \<exists>y. f x = ret y"
  shows "fd_step I E no (State_Monad.bind m f)"
  unfolding fd_step_def
proof
  fix s
  obtain x t where mt: "run_state m s = (x, t)" by fastforce
  show "case run_state (State_Monad.bind m f) s of (y, u) \<Rightarrow> I (kst u) = I (kst s) \<and> (no y \<longrightarrow> E (sst_errno u))"
  proof (cases "no' x")
    case True
    then obtain y where "f x = ret y" using stop by blast
    then show ?thesis using mt fd_stepD [OF m mt] True by simp
  next
    case False
    then show ?thesis using mt fd_stepD [OF m mt] f [OF False] unfolding fd_step_def by (fastforce split: prod.splits)
  qed
qed

lemma fd_calls [fd_intros]:
  assumes "fd_laws fo I E"
  shows "fd_step I E (\<lambda>r. r = None) (file_read (fo_fstat fo fd))"
    "fd_step I E (\<lambda>r. r = None) (file_read (fo_getctx fo fd))"
    "fd_step I E (\<lambda>r. r = None) (file_read (fo_getflags fo fd))"
    "fd_step I E (\<lambda>r. r = None) (file_read (fo_getxflg fo fd))"
    "fd_step I E (\<lambda>ok. \<not> ok) (file_write (fo_fchmod fo fd v))"
    "fd_step I E (\<lambda>ok. \<not> ok) (file_write (fo_setctx fo fd c))"
    "fd_step I E (\<lambda>ok. \<not> ok) (file_write (fo_setflags fo fd w))"
    "fd_step I E (\<lambda>ok. \<not> ok) (file_write (fo_setxflg fo fd w))"
  using assms by (auto simp: fd_laws_def fd_step_def file_read_def file_write_def split: sum.splits)

text \<open>The steps of the two functions, put together.\<close>

lemma fd_calls_get:
  assumes "fd_laws fo I E"
  shows "fd_step I E (\<lambda>_. False) (file_read (fo_getctx fo fd))"
    "fd_step I E (\<lambda>_. False) (file_read (fo_getflags fo fd))"
    "fd_step I E (\<lambda>_. False) (file_read (fo_getxflg fo fd))"
  by (rule fd_weaken, rule fd_calls [OF assms])+

lemma set_steps:
  assumes "fd_laws fo I E"
  shows "fd_step I E (\<lambda>ok. \<not> ok) (set_iunlink fo fd flags m)"
    "fd_step I E (\<lambda>ok. \<not> ok) (set_barrier fo fd flags m)"
    "fd_step I E (\<lambda>ok. \<not> ok) (set_xid fo fd xid m)"
    "fd_step I E (\<lambda>ok. \<not> ok) (set_xflg fo fd flags m)"
proof -
  note calls = fd_calls [OF assms]
  have flags: "fd_step I E (\<lambda>ok. \<not> ok) (vc_X_set_ext2flags fo fd a b)" for a b
    unfolding vc_X_set_ext2flags_def Let_def using calls(7) by (auto intro!: fd_bind [OF calls(3)] split: option.splits)
  show "fd_step I E (\<lambda>ok. \<not> ok) (set_iunlink fo fd flags m)"
    unfolding set_iunlink_def Let_def using flags by (auto intro: fd_return)
  show "fd_step I E (\<lambda>ok. \<not> ok) (set_barrier fo fd flags m)"
    unfolding set_barrier_def Let_def using calls(5) by (auto intro!: fd_return fd_bind [OF flags])
  show "fd_step I E (\<lambda>ok. \<not> ok) (set_xid fo fd xid m)"
    unfolding set_xid_def vc_X_set_filecontext_def using calls(6) by (auto intro: fd_return)
  show "fd_step I E (\<lambda>ok. \<not> ok) (set_xflg fo fd flags m)"
    unfolding set_xflg_def vc_X_get_xflg_def vc_X_set_xflg_def using calls(8)
    by (auto intro!: fd_return fd_bind [OF calls(4)] split: option.splits)
qed

lemma get_steps:
  assumes "fd_laws fo I E"
  shows "fd_step I E (\<lambda>_. False) (get_xid fo fd old out)"
    "fd_step I E (\<lambda>_. False) (get_iunlink fo fd old out)"
    "fd_step I E (\<lambda>_. False) (get_barrier fo fd st old out)"
    "fd_step I E (\<lambda>_. False) (get_xflg fo fd old out)"
proof -
  note calls = fd_calls_get [OF assms]
  have ctx: "fd_step I E (\<lambda>_. False) (vc_X_get_filecontext fo fd)"
    and fl: "fd_step I E (\<lambda>_. False) (vc_X_get_ext2flags fo fd)"
    unfolding vc_X_get_filecontext_def vc_X_get_ext2flags_def
    by (auto intro!: fd_return fd_bind [OF calls(1)] fd_bind [OF calls(2)])
  show "fd_step I E (\<lambda>_. False) (get_xid fo fd old out)"
    unfolding get_xid_def by (auto intro!: fd_return fd_bind [OF ctx] split: prod.splits)
  show "fd_step I E (\<lambda>_. False) (get_iunlink fo fd old out)"
    unfolding get_iunlink_def by (auto intro!: fd_return fd_bind [OF fl] split: prod.splits)
  show "fd_step I E (\<lambda>_. False) (get_barrier fo fd st old out)"
    unfolding get_barrier_def by (auto intro!: fd_return fd_bind [OF fl] split: prod.splits)
  show "fd_step I E (\<lambda>_. False) (get_xflg fo fd old out)"
    unfolding get_xflg_def vc_X_get_xflg_def by (auto intro!: fd_return fd_bind [OF calls(3)] split: prod.splits)
qed

lemma chain_step:
  "\<lbrakk>fd_step I E (\<lambda>ok. \<not> ok) m; fd_step I E (\<lambda>ok. \<not> ok) (f True); f False = ret False\<rbrakk>
   \<Longrightarrow> fd_step I E (\<lambda>ok. \<not> ok) (State_Monad.bind m f)"
  by (rule fd_bind [where no' = Not]) auto

lemma set_all_step:
  assumes "fd_laws fo I E"
  shows "fd_step I E (\<lambda>ok. \<not> ok) (set_all fo fd xid flags m)"
proof -
  note steps = set_steps [OF assms]
  have xflg: "fd_step I E (\<lambda>ok. \<not> ok)
      (do { ok \<leftarrow> set_xid fo fd xid m; if ok then set_xflg fo fd flags m else ret False })"
    by (rule chain_step [OF steps(3)]) (simp_all only: if_True if_False, rule steps(4))
  have xid: "fd_step I E (\<lambda>ok. \<not> ok)
      (do { ok \<leftarrow> set_barrier fo fd flags m; ok \<leftarrow> (if ok then set_xid fo fd xid m else ret False);
            if ok then set_xflg fo fd flags m else ret False })"
    by (rule chain_step [OF steps(2)]) (simp_all only: if_True if_False bind_left_identity, rule xflg)
  have "fd_step I E (\<lambda>ok. \<not> ok)
      (do { ok \<leftarrow> set_iunlink fo fd flags m; ok \<leftarrow> (if ok then set_barrier fo fd flags m else ret False);
            ok \<leftarrow> (if ok then set_xid fo fd xid m else ret False);
            if ok then set_xflg fo fd flags m else ret False })"
    by (rule chain_step [OF steps(1)]) (simp_all only: if_True if_False bind_left_identity, rule xid)
  then show ?thesis
    unfolding set_all_def by (intro fd_bind [OF fd_calls(1) [OF assms]]) auto
qed

lemma get_all_step:
  assumes "fd_laws fo I E"
  shows "fd_step I E (\<lambda>_. False) (get_all fo fd st old out)"
  unfolding get_all_def
  by (rule fd_bind [OF get_steps(1) [OF assms]], rule fd_bind [OF get_steps(2) [OF assms]],
      rule fd_bind [OF get_steps(3) [OF assms]], rule get_steps(4) [OF assms]) simp_all

lemma run_file_calls [simp]:
  "run_state (file_read f) s = (case f (kst s) of Inl e \<Rightarrow> (None, s\<lparr>sst_errno := e\<rparr>) | Inr v \<Rightarrow> (Some v, s))"
  "run_state (file_write g) s = (case g (kst s) of Inl e \<Rightarrow> (False, s\<lparr>sst_errno := e\<rparr>) | Inr k \<Rightarrow> (True, s\<lparr>kst := k\<rparr>))"
  "run_state (file_open op) s =
     (case op (kst s) of Inl e \<Rightarrow> (None, s\<lparr>sst_errno := e\<rparr>) | Inr (fd, k) \<Rightarrow> (Some fd, s\<lparr>kst := k\<rparr>))"
  "run_state (file_close fo fd) s =
     ((), s\<lparr>sst_errno := (case fst (fo_close fo fd (kst s)) of None \<Rightarrow> sst_errno s | Some x \<Rightarrow> x),
            kst := snd (fo_close fo fd (kst s))\<rparr>)"
  "run_state (set_errno e) s = ((), s\<lparr>sst_errno := e\<rparr>)"
  by (simp_all add: file_read_def file_write_def file_open_def file_close_def set_errno_def Let_def split: prod.splits)

lemma iattr_err_run: "run_state (iattr_err fo fd) s = (- 1, s\<lparr>kst := snd (fo_close fo fd (kst s))\<rparr>)"
  by (simp add: iattr_err_def)

lemma fd_laws_facts:
  assumes "fd_laws fo I E"
  shows "fo_open fo n k = Inr (fd, k') \<Longrightarrow> fd \<notin> I k \<and> I k' = insert fd (I k)" "fo_open fo n k = Inl e \<Longrightarrow> E e"
    "I (snd (fo_close fo fd k)) = I k - {fd}" "fo_lstat fo n k = Inl e \<Longrightarrow> E e" "fo_fstat fo fd k = Inl e \<Longrightarrow> E e"
  using assms unfolding fd_laws_def by - metis+

lemma set_cleanup:
  assumes l: "fd_laws fo I E" and r: "run_state (vc_set_iattr_fscompat fo filename xid flags m) s = (rc, t)"
  shows "rc \<in> {0, - 1} \<and> I (kst t) = I (kst s) \<and> (rc = - 1 \<longrightarrow> E (sst_errno t))"
proof (cases "fo_open fo filename (kst s)")
  case (Inl e)
  then show ?thesis using r fd_laws_facts(2) [OF l] by (auto simp: vc_set_iattr_fscompat_def)
next
  case (Inr p)
  obtain fd k where p: "p = (fd, k)" by (cases p)
  obtain ok u where u: "run_state (set_all fo fd xid flags m) (s\<lparr>kst := k\<rparr>) = (ok, u)" by fastforce
  have "I (kst u) = I k" "\<not> ok \<longrightarrow> E (sst_errno u)" using fd_stepD [OF set_all_step [OF l] u] by simp_all
  moreover have "fd \<notin> I (kst s)" "I k = insert fd (I (kst s))" using fd_laws_facts(1) [OF l] Inr p by auto
  ultimately show ?thesis
    using r Inr p u by (auto simp: vc_set_iattr_fscompat_def iattr_err_run fd_laws_facts(3) [OF l] split: if_splits)
qed

lemma get_cleanup:
  assumes l: "fd_laws fo I E" and r: "run_state (vc_get_iattr_fscompat fo filename out) s = ((rc, res), t)"
  shows "rc \<in> {0, - 1} \<and> I (kst t) = I (kst s) \<and> (rc = - 1 \<longrightarrow> E (sst_errno t))"
proof (cases "\<exists>ty m fd k. fo_lstat fo filename (kst s) = Inr (ty, m) \<and> ty \<noteq> F_OTHER \<and> fo_open fo filename (kst s) = Inr (fd, k)")
  case False
  then show ?thesis
    using r fd_laws_facts(2,4) [OF l]
    by (auto simp: vc_get_iattr_fscompat_def split: sum.splits prod.splits attr_ftype.splits)
next
  case True
  then obtain ty m fd k where st: "fo_lstat fo filename (kst s) = Inr (ty, m)" "ty \<noteq> F_OTHER" and
    fd: "fo_open fo filename (kst s) = Inr (fd, k)" by blast
  have k: "fd \<notin> I (kst s)" "I k = insert fd (I (kst s))" using fd_laws_facts(1) [OF l fd] by auto
  obtain x f old where out: "out = (x, f, old)" by (cases out)
  show ?thesis
  proof (cases "fo_fstat fo fd k")
    case (Inl e)
    then show ?thesis
      using r st fd k fd_laws_facts(5) [OF l Inl]
      by (cases ty) (auto simp: vc_get_iattr_fscompat_def out iattr_err_run fd_laws_facts(3) [OF l])
  next
    case (Inr a)
    obtain res' u where u: "run_state (get_all fo fd a old (x, f, 0)) (s\<lparr>kst := k\<rparr>) = (res', u)" by fastforce
    have "I (kst u) = I k" using fd_stepD [OF get_all_step [OF l] u] by simp
    then show ?thesis
      using r st fd k u Inr by (cases ty) (auto simp: vc_get_iattr_fscompat_def out fd_laws_facts(3) [OF l])
  qed
qed

text \<open>
  C12. The way through the file system closes what it opens, in setting and in reading: with any result, the
  open descriptors are those that were open before. When the result is \<open>-1\<close>, \<^verbatim>\<open>errno\<close> tells why a call before
  \<^verbatim>\<open>close\<close> failed, whatever \<^verbatim>\<open>close\<close> itself answered.
\<close>

theorem fscompat_cleanup:
  assumes "fd_laws fo I E"
  shows "(case run_state (vc_set_iattr_fscompat fo filename xid flags m) s of
            (rc, t) \<Rightarrow> rc \<in> {0, - 1} \<and> I (kst t) = I (kst s) \<and> (rc = - 1 \<longrightarrow> E (sst_errno t))) \<and>
         (case run_state (vc_get_iattr_fscompat fo filename out) s of
            ((rc, _), t) \<Rightarrow> rc \<in> {0, - 1} \<and> I (kst t) = I (kst s) \<and> (rc = - 1 \<longrightarrow> E (sst_errno t)))"
  using set_cleanup [OF assms] get_cleanup [OF assms] by (simp split: prod.splits)

text \<open>
  A file with its attributes, and the calls on it; \<^verbatim>\<open>close\<close> always reports an error. The state is the file and the set of
  the open descriptors.
\<close>

record file_state =
  in_type :: attr_ftype
  in_mode :: u32
  in_ctx :: u32
  in_flags :: u64
  in_xflg :: u64

definition on_fd :: "int \<Rightarrow> (file_state \<Rightarrow> errno + 'a) \<Rightarrow> file_state \<times> int set \<Rightarrow> errno + 'a" where
  "on_fd fd f k = (if fd \<in> snd k then f (fst k) else Inl ENOENT)"

definition put_fd :: "int \<Rightarrow> (file_state \<Rightarrow> file_state) \<Rightarrow> file_state \<times> int set \<Rightarrow> errno + file_state \<times> int set" where
  "put_fd fd g k = (if fd \<in> snd k then Inr (g (fst k), snd k) else Inl ENOENT)"

definition one_file :: "cstr \<Rightarrow> (file_state \<times> int set) fileops" where
  "one_file name =
     \<lparr>fo_lstat = (\<lambda>n k. if n = name then Inr (in_type (fst k), in_mode (fst k)) else Inl ENOENT),
      fo_open = (\<lambda>n k. if n = name \<and> 3 \<notin> snd k then Inr (3, fst k, insert 3 (snd k)) else Inl ENOENT),
      fo_close = (\<lambda>fd k. (Some EINTR, fst k, snd k - {fd})),
      fo_fstat = (\<lambda>fd. on_fd fd (\<lambda>i. Inr (in_type i, in_mode i))),
      fo_fchmod = (\<lambda>fd v. put_fd fd (in_mode_update (\<lambda>_. v))),
      fo_getctx = (\<lambda>fd. on_fd fd (\<lambda>i. Inr (in_ctx i))),
      fo_setctx = (\<lambda>fd v. put_fd fd (in_ctx_update (\<lambda>_. v))),
      fo_getflags = (\<lambda>fd. on_fd fd (\<lambda>i. Inr (in_flags i))),
      fo_setflags = (\<lambda>fd v. put_fd fd (in_flags_update (\<lambda>_. v))),
      fo_getxflg = (\<lambda>fd. on_fd fd (\<lambda>i. Inr (in_xflg i))),
      fo_setxflg = (\<lambda>fd v k. if in_type (fst k) = F_REG then Inl ENOSYS else put_fd fd (in_xflg_update (\<lambda>_. v)) k)\<rparr>"

lemma one_file_fd_laws: "fd_laws (one_file name) snd (\<lambda>e. e \<noteq> EINTR)"
  by (auto simp: fd_laws_def one_file_def on_fd_def put_fd_def split: if_splits)

lemma fscompat_cleanup_witness:
  "case run_state (vc_set_iattr_fscompat (one_file ''f'') ''f'' 5 0 VC_IATTR_HIDE)
          \<lparr>sst_errno = ESRCH, kst = (\<lparr>in_type = F_REG, in_mode = 0, in_ctx = 0, in_flags = 0, in_xflg = 0\<rparr>, {0}), sent = []\<rparr> of
     (rc, t) \<Rightarrow> rc \<in> {0, - 1} \<and> snd (kst t) = {0} \<and> (rc = - 1 \<longrightarrow> sst_errno t \<noteq> EINTR)"
  using fscompat_cleanup [OF one_file_fd_laws, where filename = "''f''" and xid = 5 and flags = 0 and m = VC_IATTR_HIDE and
      s = "\<lparr>sst_errno = ESRCH, kst = (\<lparr>in_type = F_REG, in_mode = 0, in_ctx = 0, in_flags = 0, in_xflg = 0\<rparr>, {0}), sent = []\<rparr>"]
  by (simp split: prod.splits)

section \<open>What was set is read back\<close>

text \<open>
  The calls on the file \<open>n\<close>, whose attributes in a state are \<open>ino\<close>; \<open>at k fd\<close> tells that the descriptor is
  open on this file. Every call may fail; when one with such a descriptor succeeds, reading tells the attributes and a change
  changes what it names. Nothing is said about other descriptors.
\<close>

definition file_laws :: "'k fileops \<Rightarrow> cstr \<Rightarrow> ('k \<Rightarrow> file_state) \<Rightarrow> ('k \<Rightarrow> int \<Rightarrow> bool) \<Rightarrow> bool" where
  "file_laws fo n ino at \<longleftrightarrow>
     (\<forall>k fd k'. fo_open fo n k = Inr (fd, k') \<longrightarrow> at k' fd \<and> ino k' = ino k) \<and>
     (\<forall>fd k. at k fd \<longrightarrow> ino (snd (fo_close fo fd k)) = ino k) \<and>
     (\<forall>fd k r. at k fd \<and> fo_fstat fo fd k = Inr r \<longrightarrow> r = (in_type (ino k), in_mode (ino k))) \<and>
     (\<forall>fd k r. at k fd \<and> fo_getctx fo fd k = Inr r \<longrightarrow> r = in_ctx (ino k)) \<and>
     (\<forall>fd k r. at k fd \<and> fo_getflags fo fd k = Inr r \<longrightarrow> r = in_flags (ino k)) \<and>
     (\<forall>fd k r. at k fd \<and> fo_getxflg fo fd k = Inr r \<longrightarrow> r = in_xflg (ino k)) \<and>
     (\<forall>fd v k k'. at k fd \<and> fo_fchmod fo fd v k = Inr k' \<longrightarrow> at k' fd \<and> ino k' = ino k\<lparr>in_mode := v\<rparr>) \<and>
     (\<forall>fd v k k'. at k fd \<and> fo_setctx fo fd v k = Inr k' \<longrightarrow> at k' fd \<and> ino k' = ino k\<lparr>in_ctx := v\<rparr>) \<and>
     (\<forall>fd v k k'. at k fd \<and> fo_setflags fo fd v k = Inr k' \<longrightarrow> at k' fd \<and> ino k' = ino k\<lparr>in_flags := v\<rparr>) \<and>
     (\<forall>fd v k k'. at k fd \<and> fo_setxflg fo fd v k = Inr k' \<longrightarrow> at k' fd \<and> ino k' = ino k\<lparr>in_xflg := v\<rparr>)"

text \<open>In the state \<open>k\<close> the file can be read: the name leads to it, it can be opened, and no reading call fails.\<close>

definition readable :: "'k fileops \<Rightarrow> cstr \<Rightarrow> ('k \<Rightarrow> file_state) \<Rightarrow> 'k \<Rightarrow> bool" where
  "readable fo n ino k \<longleftrightarrow>
     fo_lstat fo n k = Inr (in_type (ino k), in_mode (ino k)) \<and> in_type (ino k) \<noteq> F_OTHER \<and>
     (\<exists>fd k' st c f x. fo_open fo n k = Inr (fd, k') \<and> fo_fstat fo fd k' = Inr st \<and> fo_getctx fo fd k' = Inr c \<and>
        fo_getflags fo fd k' = Inr f \<and> fo_getxflg fo fd k' = Inr x)"

text \<open>The attributes after each step of setting, as a function of those before.\<close>

definition ino_iunlink :: "u32 \<Rightarrow> u32 \<Rightarrow> file_state \<Rightarrow> file_state" where
  "ino_iunlink flags m i =
     (if m AND VC_IATTR_IUNLINK = 0 then i
      else if flags AND VC_IATTR_IUNLINK \<noteq> 0 then i\<lparr>in_flags := in_flags i OR (VC_IMMUTABLE_FILE_FL OR VC_IMMUTABLE_LINK_FL)\<rparr>
      else i\<lparr>in_flags := in_flags i AND NOT (VC_IMMUTABLE_FILE_FL OR VC_IMMUTABLE_LINK_FL)\<rparr>)"

definition ino_barrier :: "u32 \<Rightarrow> u32 \<Rightarrow> file_state \<Rightarrow> file_state" where
  "ino_barrier flags m i =
     (if m AND VC_IATTR_BARRIER = 0 then i
      else if flags AND VC_IATTR_BARRIER \<noteq> 0 then i\<lparr>in_flags := in_flags i OR VC_IMMUTABLE_LINK_FL, in_mode := 0\<rparr>
      else i\<lparr>in_flags := in_flags i AND NOT VC_IMMUTABLE_LINK_FL, in_mode := 0x140\<rparr>)"

definition ino_xid :: "xid_t \<Rightarrow> u32 \<Rightarrow> file_state \<Rightarrow> file_state" where
  "ino_xid xid m i = (if m AND VC_IATTR_XID = 0 then i else i\<lparr>in_ctx := xid\<rparr>)"

definition ino_xflg :: "u32 \<Rightarrow> u32 \<Rightarrow> file_state \<Rightarrow> file_state" where
  "ino_xflg flags m i =
     (if m AND (VC_IATTR_HIDE OR VC_IATTR_WATCH) = 0 then i
      else i\<lparr>in_xflg :=
                (in_xflg i AND NOT ((if m AND VC_IATTR_HIDE \<noteq> 0 then 1 else 0) OR (if m AND VC_IATTR_WATCH \<noteq> 0 then 2 else 0))) OR
                ((if flags AND VC_IATTR_HIDE \<noteq> 0 then 1 else 0) OR (if flags AND VC_IATTR_WATCH \<noteq> 0 then 2 else 0))\<rparr>)"

lemma ext2_same: "EXT2_IMMUTABLE_FILE_FL = VC_IMMUTABLE_FILE_FL" "EXT2_IMMUTABLE_LINK_FL = VC_IMMUTABLE_LINK_FL"
  by (simp_all add: VC_IMMUTABLE_FILE_FL_def VC_IMMUTABLE_LINK_FL_def EXT2_IMMUTABLE_FILE_FL_def EXT2_IMMUTABLE_LINK_FL_def)

lemma ext2_bits:
  "x AND VC_IMMUTABLE_FILE_FL = 0 \<longleftrightarrow> \<not> bit x 4" "x AND VC_IMMUTABLE_LINK_FL = 0 \<longleftrightarrow> \<not> bit x 15"
  "x AND (VC_IMMUTABLE_FILE_FL OR VC_IMMUTABLE_LINK_FL) = 0 \<longleftrightarrow> \<not> bit x 4 \<and> \<not> bit x 15"
  "bit VC_IMMUTABLE_FILE_FL k \<longleftrightarrow> k = 4" "bit VC_IMMUTABLE_LINK_FL k \<longleftrightarrow> k = 15"
proof -
  have n: "VC_IMMUTABLE_FILE_FL = 2 ^ 4" "VC_IMMUTABLE_LINK_FL = 2 ^ 15"
    by (simp_all add: VC_IMMUTABLE_FILE_FL_def VC_IMMUTABLE_LINK_FL_def)
  show b: "x AND VC_IMMUTABLE_FILE_FL = 0 \<longleftrightarrow> \<not> bit x 4" "x AND VC_IMMUTABLE_LINK_FL = 0 \<longleftrightarrow> \<not> bit x 15"
    by (simp_all only: n and_exp_eq_0_iff_not_bit)
  show "bit VC_IMMUTABLE_FILE_FL k \<longleftrightarrow> k = 4" "bit VC_IMMUTABLE_LINK_FL k \<longleftrightarrow> k = 15"
    by (simp_all only: n bit_exp_iff) auto
  show "x AND (VC_IMMUTABLE_FILE_FL OR VC_IMMUTABLE_LINK_FL) = 0 \<longleftrightarrow> \<not> bit x 4 \<and> \<not> bit x 15"
    by (simp only: bit.conj_disj_distrib or_eq_0_iff b)
qed

lemma EXT2FLAGS_id: "EXT2FLAGS_KERNEL2USER x = x" "EXT2FLAGS_USER2KERNEL x = x"
  by (rule bit_eqI,
      auto simp: EXT2FLAGS_KERNEL2USER_def EXT2FLAGS_USER2KERNEL_def ext2_same ext2_bits bit_or_iff bit_and_iff bit_not_iff)+

lemma ext2_not_all: "VC_IMMUTABLE_FILE_FL OR VC_IMMUTABLE_LINK_FL \<noteq> - 1" "VC_IMMUTABLE_LINK_FL \<noteq> - 1"
  by (simp_all add: VC_IMMUTABLE_FILE_FL_def VC_IMMUTABLE_LINK_FL_def)

lemma iattr_bits:
  fixes x :: u32
  shows "x AND VC_IATTR_WATCH = 0 \<longleftrightarrow> \<not> bit x 1" "x AND VC_IATTR_HIDE = 0 \<longleftrightarrow> \<not> bit x 2"
    "x AND VC_IATTR_BARRIER = 0 \<longleftrightarrow> \<not> bit x 16" "x AND VC_IATTR_IUNLINK = 0 \<longleftrightarrow> \<not> bit x 17"
    "x AND VC_IATTR_XID = 0 \<longleftrightarrow> \<not> bit x 24"
    "bit VC_IATTR_WATCH k \<longleftrightarrow> k = 1" "bit VC_IATTR_HIDE k \<longleftrightarrow> k = 2" "bit VC_IATTR_BARRIER k \<longleftrightarrow> k = 16"
    "bit VC_IATTR_IUNLINK k \<longleftrightarrow> k = 17" "bit VC_IATTR_XID k \<longleftrightarrow> k = 24"
proof -
  have n: "VC_IATTR_WATCH = 2 ^ 1" "VC_IATTR_HIDE = 2 ^ 2" "VC_IATTR_BARRIER = 2 ^ 16" "VC_IATTR_IUNLINK = 2 ^ 17"
    "VC_IATTR_XID = 2 ^ 24"
    by (simp_all add: VC_IATTR_WATCH_def VC_IATTR_HIDE_def VC_IATTR_BARRIER_def VC_IATTR_IUNLINK_def VC_IATTR_XID_def)
  show "x AND VC_IATTR_WATCH = 0 \<longleftrightarrow> \<not> bit x 1" "x AND VC_IATTR_HIDE = 0 \<longleftrightarrow> \<not> bit x 2"
    "x AND VC_IATTR_BARRIER = 0 \<longleftrightarrow> \<not> bit x 16" "x AND VC_IATTR_IUNLINK = 0 \<longleftrightarrow> \<not> bit x 17"
    "x AND VC_IATTR_XID = 0 \<longleftrightarrow> \<not> bit x 24"
    by (simp_all only: n and_exp_eq_0_iff_not_bit)
  show "bit VC_IATTR_WATCH k \<longleftrightarrow> k = 1" "bit VC_IATTR_HIDE k \<longleftrightarrow> k = 2" "bit VC_IATTR_BARRIER k \<longleftrightarrow> k = 16"
    "bit VC_IATTR_IUNLINK k \<longleftrightarrow> k = 17" "bit VC_IATTR_XID k \<longleftrightarrow> k = 24"
    by (simp_all only: n bit_exp_iff) auto
qed

lemma iattr_pair: "m AND (VC_IATTR_HIDE OR VC_IATTR_WATCH) = 0 \<longleftrightarrow> \<not> bit m 1 \<and> \<not> bit m 2"
  "m AND (VC_IATTR_WATCH OR VC_IATTR_HIDE) = 0 \<longleftrightarrow> \<not> bit m 1 \<and> \<not> bit m 2"
  by (auto simp: bit.conj_disj_distrib or_eq_0_iff iattr_bits)

lemma file_laws_facts:
  assumes "file_laws fo n ino at"
  shows "fo_open fo n k = Inr (fd, k') \<Longrightarrow> at k' fd \<and> ino k' = ino k"
    "at k fd \<Longrightarrow> ino (snd (fo_close fo fd k)) = ino k"
    "at k fd \<Longrightarrow> fo_fstat fo fd k = Inr st \<Longrightarrow> st = (in_type (ino k), in_mode (ino k))"
    "at k fd \<Longrightarrow> fo_getctx fo fd k = Inr c \<Longrightarrow> c = in_ctx (ino k)"
    "at k fd \<Longrightarrow> fo_getflags fo fd k = Inr f \<Longrightarrow> f = in_flags (ino k)"
    "at k fd \<Longrightarrow> fo_getxflg fo fd k = Inr f \<Longrightarrow> f = in_xflg (ino k)"
    "at k fd \<Longrightarrow> fo_fchmod fo fd c k = Inr k' \<Longrightarrow> at k' fd \<and> ino k' = ino k\<lparr>in_mode := c\<rparr>"
    "at k fd \<Longrightarrow> fo_setctx fo fd c k = Inr k' \<Longrightarrow> at k' fd \<and> ino k' = ino k\<lparr>in_ctx := c\<rparr>"
    "at k fd \<Longrightarrow> fo_setflags fo fd f k = Inr k' \<Longrightarrow> at k' fd \<and> ino k' = ino k\<lparr>in_flags := f\<rparr>"
    "at k fd \<Longrightarrow> fo_setxflg fo fd f k = Inr k' \<Longrightarrow> at k' fd \<and> ino k' = ino k\<lparr>in_xflg := f\<rparr>"
  using assms unfolding file_laws_def by - metis+

text \<open>A step of setting: when it says yes the descriptor is still open on the file, which has changed by \<open>g\<close>.\<close>

definition ino_step :: "('k \<Rightarrow> file_state) \<Rightarrow> ('k \<Rightarrow> int \<Rightarrow> bool) \<Rightarrow> int \<Rightarrow> (file_state \<Rightarrow> file_state) \<Rightarrow> ('k sst, bool) state \<Rightarrow> bool" where
  "ino_step ino at fd g m \<longleftrightarrow>
     (\<forall>s t. at (kst s) fd \<and> run_state m s = (True, t) \<longrightarrow> at (kst t) fd \<and> ino (kst t) = g (ino (kst s)))"

lemma ino_stepD:
  "\<lbrakk>ino_step ino at fd g m; at (kst s) fd; run_state m s = (True, t)\<rbrakk> \<Longrightarrow> at (kst t) fd \<and> ino (kst t) = g (ino (kst s))"
  unfolding ino_step_def by blast

lemma flags_step:
  assumes l: "file_laws fo n ino at" and d: "EXT2FLAGS_USER2KERNEL b \<noteq> - 1"
  shows "ino_step ino at fd (\<lambda>i. i\<lparr>in_flags := in_flags i AND NOT (EXT2FLAGS_USER2KERNEL b) OR EXT2FLAGS_USER2KERNEL a\<rparr>)
    (vc_X_set_ext2flags fo fd a b)"
  unfolding ino_step_def
proof (intro allI impI, elim conjE)
  fix s t assume at: "at (kst s) fd" and r: "run_state (vc_X_set_ext2flags fo fd a b) s = (True, t)"
  then obtain v k where v: "fo_getflags fo fd (kst s) = Inr v"
    "fo_setflags fo fd (v AND NOT (EXT2FLAGS_USER2KERNEL b) OR EXT2FLAGS_USER2KERNEL a) (kst s) = Inr k" "kst t = k"
    using d by (auto simp: vc_X_set_ext2flags_def Let_def split: sum.splits)
  show "at (kst t) fd \<and> ino (kst t) = ino (kst s)\<lparr>in_flags := in_flags (ino (kst s)) AND NOT (EXT2FLAGS_USER2KERNEL b) OR EXT2FLAGS_USER2KERNEL a\<rparr>"
    using file_laws_facts(9) [OF l at v(2)] file_laws_facts(5) [OF l at v(1)] v(3) by simp
qed

lemma set_run_steps:
  assumes l: "file_laws fo n ino at"
  shows "ino_step ino at fd (ino_iunlink flags m) (set_iunlink fo fd flags m)"
    "ino_step ino at fd (ino_barrier flags m) (set_barrier fo fd flags m)"
    "ino_step ino at fd (ino_xid xid m) (set_xid fo fd xid m)"
    "ino_step ino at fd (ino_xflg flags m) (set_xflg fo fd flags m)"
proof -
  have z: "EXT2FLAGS_USER2KERNEL b \<noteq> - 1" if "b \<in> {0, VC_IMMUTABLE_FILE_FL OR VC_IMMUTABLE_LINK_FL, VC_IMMUTABLE_LINK_FL}" for b
    using that ext2_not_all by (auto simp: EXT2FLAGS_id)
  note fs = flags_step [OF l, simplified EXT2FLAGS_id]
  show "ino_step ino at fd (ino_iunlink flags m) (set_iunlink fo fd flags m)"
  proof (cases "m AND VC_IATTR_IUNLINK = 0")
    case False
    then show ?thesis
      using fs [of 0 fd "VC_IMMUTABLE_FILE_FL OR VC_IMMUTABLE_LINK_FL"] fs [of "VC_IMMUTABLE_FILE_FL OR VC_IMMUTABLE_LINK_FL" fd 0] ext2_not_all
      by (cases "flags AND VC_IATTR_IUNLINK = 0") (simp_all add: set_iunlink_def ino_iunlink_def [abs_def])
  qed (simp add: set_iunlink_def ino_iunlink_def ino_step_def)
  show "ino_step ino at fd (ino_barrier flags m) (set_barrier fo fd flags m)"
  proof (cases "m AND VC_IATTR_BARRIER = 0")
    case False
    show ?thesis
      unfolding ino_step_def
    proof (intro allI impI, elim conjE)
      fix s t assume at: "at (kst s) fd" and r: "run_state (set_barrier fo fd flags m) s = (True, t)"
      define on where "on = (flags AND VC_IATTR_BARRIER \<noteq> 0)"
      define mode :: u32 where "mode = (if on then 0 else 0x140)"
      define a where "a = (if on then VC_IMMUTABLE_LINK_FL else 0)"
      define b where "b = (if on then 0 else VC_IMMUTABLE_LINK_FL)"
      obtain u where u: "run_state (vc_X_set_ext2flags fo fd a b) s = (True, u)"
        "run_state (file_write (fo_fchmod fo fd mode)) u = (True, t)"
      proof -
        obtain ok u where u: "run_state (vc_X_set_ext2flags fo fd a b) s = (ok, u)" by fastforce
        then have "ok" "run_state (file_write (fo_fchmod fo fd mode)) u = (True, t)"
          using r False by (auto simp: set_barrier_def on_def [symmetric] mode_def a_def b_def Let_def split: if_splits)
        then show ?thesis using that u by simp
      qed
      have "b \<noteq> - 1" using ext2_not_all by (simp add: b_def)
      then have 1: "at (kst u) fd" "ino (kst u) = ino (kst s)\<lparr>in_flags := in_flags (ino (kst s)) AND NOT b OR a\<rparr>"
        using ino_stepD [OF fs [of b fd a] at u(1)] by simp_all
      obtain k where k: "fo_fchmod fo fd mode (kst u) = Inr k" "kst t = k" using u(2) by (auto split: sum.splits)
      show "at (kst t) fd \<and> ino (kst t) = ino_barrier flags m (ino (kst s))"
        using file_laws_facts(7) [OF l 1(1) k(1)] k(2) 1(2) False
        by (simp add: ino_barrier_def on_def [symmetric] mode_def a_def b_def)
    qed
  qed (simp add: set_barrier_def ino_barrier_def ino_step_def)
  show "ino_step ino at fd (ino_xid xid m) (set_xid fo fd xid m)"
    using file_laws_facts(8) [OF l] unfolding ino_step_def
    by (auto simp: set_xid_def ino_xid_def vc_X_set_filecontext_def split: if_splits sum.splits)
  show "ino_step ino at fd (ino_xflg flags m) (set_xflg fo fd flags m)"
  proof (cases "m AND (VC_IATTR_HIDE OR VC_IATTR_WATCH) = 0")
    case False
    show ?thesis
      unfolding ino_step_def
    proof (intro allI impI, elim conjE)
      fix s t assume at: "at (kst s) fd" and r: "run_state (set_xflg fo fd flags m) s = (True, t)"
      define w :: "u64 \<Rightarrow> u64" where "w tmp = (tmp AND NOT ((if m AND VC_IATTR_HIDE \<noteq> 0 then 1 else 0) OR (if m AND VC_IATTR_WATCH \<noteq> 0 then 2 else 0))) OR
          ((if flags AND VC_IATTR_HIDE \<noteq> 0 then 1 else 0) OR (if flags AND VC_IATTR_WATCH \<noteq> 0 then 2 else 0))" for tmp
      have "run_state (set_xflg fo fd flags m) s =
          (case fo_getxflg fo fd (kst s) of
             Inl e \<Rightarrow> (False, s\<lparr>sst_errno := e\<rparr>)
           | Inr v \<Rightarrow> run_state (file_write (fo_setxflg fo fd (w v))) s)"
        unfolding set_xflg_def vc_X_get_xflg_def vc_X_set_xflg_def w_def using False
        by (simp only: if_False) (simp split: sum.splits)
      then obtain v k where v: "fo_getxflg fo fd (kst s) = Inr v" "fo_setxflg fo fd (w v) (kst s) = Inr k" "kst t = k"
        using r by (auto split: sum.splits)
      show "at (kst t) fd \<and> ino (kst t) = ino_xflg flags m (ino (kst s))"
        using file_laws_facts(10) [OF l at v(2)] file_laws_facts(6) [OF l at v(1)] v(3) False
        unfolding ino_xflg_def w_def by (simp only: if_False)
    qed
  qed (auto simp: set_xflg_def ino_xflg_def ino_step_def)
qed

lemma bind_runE:
  assumes "run_state (m \<bind> f) s = (y, t)"
  obtains x u where "run_state m s = (x, u)" "run_state (f x) u = (y, t)"
  using assms by (cases "run_state m s") (simp add: run_state_bind)

lemma guarded_run:
  assumes "run_state (if ok then m else ret False) s = (True, t)"
  shows "ok \<and> run_state m s = (True, t)"
  using assms by (cases ok) simp_all

lemma set_all_run:
  assumes l: "file_laws fo n ino at" and a: "at (kst s) fd" and r: "run_state (set_all fo fd xid flags m) s = (True, t)"
  shows "at (kst t) fd \<and> ino (kst t) = ino_xflg flags m (ino_xid xid m (ino_barrier flags m (ino_iunlink flags m (ino (kst s)))))"
proof -
  obtain st s0 where 0: "run_state (file_read (fo_fstat fo fd)) s = (st, s0)"
    and r0: "run_state (do {
       ok \<leftarrow> (if st = None then ret False else set_iunlink fo fd flags m);
       ok \<leftarrow> (if ok then set_barrier fo fd flags m else ret False);
       ok \<leftarrow> (if ok then set_xid fo fd xid m else ret False);
       if ok then set_xflg fo fd flags m else ret False }) s0 = (True, t)"
    using r unfolding set_all_def by (rule bind_runE)
  obtain a1 t1 where 1: "run_state (if st = None then ret False else set_iunlink fo fd flags m) s0 = (a1, t1)"
    and r1: "run_state (do {
       ok \<leftarrow> (if a1 then set_barrier fo fd flags m else ret False);
       ok \<leftarrow> (if ok then set_xid fo fd xid m else ret False);
       if ok then set_xflg fo fd flags m else ret False }) t1 = (True, t)"
    using r0 by (rule bind_runE)
  obtain b t2 where 2: "run_state (if a1 then set_barrier fo fd flags m else ret False) t1 = (b, t2)"
    and r2: "run_state (do {
       ok \<leftarrow> (if b then set_xid fo fd xid m else ret False);
       if ok then set_xflg fo fd flags m else ret False }) t2 = (True, t)"
    using r1 by (rule bind_runE)
  obtain c t3 where 3: "run_state (if b then set_xid fo fd xid m else ret False) t2 = (c, t3)"
    and r3: "run_state (if c then set_xflg fo fd flags m else ret False) t3 = (True, t)"
    using r2 by (rule bind_runE)
  have k0: "kst s0 = kst s" using 0 by (cases "fo_fstat fo fd (kst s)") auto
  have 4: "c" "run_state (set_xflg fo fd flags m) t3 = (True, t)" using guarded_run [OF r3] by simp_all
  have 5: "b" "run_state (set_xid fo fd xid m) t2 = (True, t3)" using guarded_run [OF 3 [unfolded eqTrueI [OF 4(1)]]] by simp_all
  have 6: "a1" "run_state (set_barrier fo fd flags m) t1 = (True, t2)" using guarded_run [OF 2 [unfolded eqTrueI [OF 5(1)]]] by simp_all
  have 7: "run_state (set_iunlink fo fd flags m) s0 = (True, t1)"
    using 1 unfolding eqTrueI [OF 6(1)] by (cases "st = None") simp_all
  have a0: "at (kst s0) fd" using a k0 by simp
  note x1 = ino_stepD [OF set_run_steps(1) [OF l] a0 7]
  note x2 = ino_stepD [OF set_run_steps(2) [OF l] conjunct1 [OF x1] 6(2)]
  note x3 = ino_stepD [OF set_run_steps(3) [OF l] conjunct1 [OF x2] 5(2)]
  note x4 = ino_stepD [OF set_run_steps(4) [OF l] conjunct1 [OF x3] 4(2)]
  show ?thesis using x1 x2 x3 x4 k0 by (simp only:)
qed

text \<open>What the reading steps find, in terms of the answers to the four reading calls.\<close>

definition got :: "('a \<Rightarrow> bool) \<Rightarrow> errno + 'a \<Rightarrow> bool" where
  "got P r \<longleftrightarrow> (case r of Inl _ \<Rightarrow> False | Inr v \<Rightarrow> P v)"

lemma get_all_run:
  fixes fo :: "'k fileops" and s :: "'k sst" and fd :: int
  defines "c \<equiv> fo_getctx fo fd (kst s)" and "g \<equiv> fo_getflags fo fd (kst s)" and "y \<equiv> fo_getxflg fo fd (kst s)"
  assumes r: "run_state (get_all fo fd (ty, mode) m (x, f, 0)) s = ((x', f', m'), t)"
  shows "kst t = kst s \<and> x' = (if bit m 24 then (case c of Inl _ \<Rightarrow> VC_NOCTX | Inr v \<Rightarrow> v) else x) \<and>
    f' = (((f OR (if bit m 17 \<and> got (\<lambda>v. bit v 4 \<or> bit v 15) g then VC_IATTR_IUNLINK else 0)) OR
        (if bit m 16 \<and> ty = F_DIR \<and> mode AND 0x1FF = 0 \<and> got (\<lambda>v. bit v 15) g then VC_IATTR_BARRIER else 0)) OR
        (if (bit m 1 \<or> bit m 2) \<and> got (\<lambda>v. bit v 0) y then VC_IATTR_HIDE else 0)) OR
        (if (bit m 1 \<or> bit m 2) \<and> got (\<lambda>v. bit v 1) y then VC_IATTR_WATCH else 0) \<and>
    m' = (((if bit m 24 \<and> got (\<lambda>v. v \<noteq> VC_NOCTX) c then VC_IATTR_XID else 0) OR
        (if bit m 17 \<and> got (\<lambda>_. True) g then VC_IATTR_IUNLINK else 0)) OR
        (if bit m 16 \<and> ty = F_DIR then VC_IATTR_BARRIER else 0)) OR
        (if (bit m 1 \<or> bit m 2) \<and> got (\<lambda>_. True) y then VC_IATTR_WATCH OR VC_IATTR_HIDE else 0)"
proof -
  have b: "v AND 1 = 0 \<longleftrightarrow> \<not> bit v 0" "v AND 2 = 0 \<longleftrightarrow> \<not> bit v 1" for v :: u64
    using and_exp_eq_0_iff_not_bit [of v 0] and_exp_eq_0_iff_not_bit [of v 1] by simp_all
  have 1: "\<exists>s1. kst s1 = kst s \<and> run_state (get_xid fo fd m (x, f, 0)) s =
    ((if bit m 24 then (case c of Inl _ \<Rightarrow> VC_NOCTX | Inr v \<Rightarrow> v) else x, f,
      if bit m 24 \<and> got (\<lambda>v. v \<noteq> VC_NOCTX) c then VC_IATTR_XID else 0), s1)"
    by (cases c) (auto simp: get_xid_def vc_X_get_filecontext_def c_def got_def iattr_bits)
  have 2: "\<exists>s2. kst s2 = kst s1 \<and> run_state (get_iunlink fo fd m (x, f, k)) s1 =
    ((x, f OR (if bit m 17 \<and> got (\<lambda>v. bit v 4 \<or> bit v 15) g then VC_IATTR_IUNLINK else 0),
      k OR (if bit m 17 \<and> got (\<lambda>_. True) g then VC_IATTR_IUNLINK else 0)), s2)" if "kst s1 = kst s" for x f k s1
    using that by (cases g) (auto simp: get_iunlink_def vc_X_get_ext2flags_def g_def got_def iattr_bits EXT2FLAGS_id ext2_bits)
  have 3: "\<exists>s2. kst s2 = kst s1 \<and> run_state (get_barrier fo fd (ty, mode) m (x, f, k)) s1 =
    ((x, f OR (if bit m 16 \<and> ty = F_DIR \<and> mode AND 0x1FF = 0 \<and> got (\<lambda>v. bit v 15) g then VC_IATTR_BARRIER else 0),
      k OR (if bit m 16 \<and> ty = F_DIR then VC_IATTR_BARRIER else 0)), s2)" if "kst s1 = kst s" for x f k s1
    using that by (cases g) (auto simp: get_barrier_def vc_X_get_ext2flags_def g_def got_def iattr_bits EXT2FLAGS_id ext2_bits)
  have 4: "\<exists>s2. kst s2 = kst s1 \<and> run_state (get_xflg fo fd m (x, f, k)) s1 =
    ((x, (f OR (if (bit m 1 \<or> bit m 2) \<and> got (\<lambda>v. bit v 0) y then VC_IATTR_HIDE else 0)) OR
         (if (bit m 1 \<or> bit m 2) \<and> got (\<lambda>v. bit v 1) y then VC_IATTR_WATCH else 0),
      k OR (if (bit m 1 \<or> bit m 2) \<and> got (\<lambda>_. True) y then VC_IATTR_WATCH OR VC_IATTR_HIDE else 0)), s2)"
    if "kst s1 = kst s" for x f k s1
    using that by (cases y) (auto simp: get_xflg_def vc_X_get_xflg_def y_def got_def iattr_pair b Let_def)
  let ?x = "if bit m 24 then (case c of Inl _ \<Rightarrow> VC_NOCTX | Inr v \<Rightarrow> v) else x"
  let ?k1 = "if bit m 24 \<and> got (\<lambda>v. v \<noteq> VC_NOCTX) c then VC_IATTR_XID else 0"
  let ?k2 = "?k1 OR (if bit m 17 \<and> got (\<lambda>_. True) g then VC_IATTR_IUNLINK else 0)"
  let ?k3 = "?k2 OR (if bit m 16 \<and> ty = F_DIR then VC_IATTR_BARRIER else 0)"
  let ?f2 = "f OR (if bit m 17 \<and> got (\<lambda>v. bit v 4 \<or> bit v 15) g then VC_IATTR_IUNLINK else 0)"
  let ?f3 = "?f2 OR (if bit m 16 \<and> ty = F_DIR \<and> mode AND 0x1FF = 0 \<and> got (\<lambda>v. bit v 15) g then VC_IATTR_BARRIER else 0)"
  obtain s1 where s1: "kst s1 = kst s" "run_state (get_xid fo fd m (x, f, 0)) s = ((?x, f, ?k1), s1)" using 1 by blast
  obtain s2 where s2: "kst s2 = kst s1" "run_state (get_iunlink fo fd m (?x, f, ?k1)) s1 = ((?x, ?f2, ?k2), s2)"
    using 2 [OF s1(1), of ?x f ?k1] by blast
  have e2: "kst s2 = kst s" using s1(1) s2(1) by simp
  obtain s3 where s3: "kst s3 = kst s2" "run_state (get_barrier fo fd (ty, mode) m (?x, ?f2, ?k2)) s2 = ((?x, ?f3, ?k3), s3)"
    using 3 [OF e2, of ?x ?f2 ?k2] by blast
  have e3: "kst s3 = kst s" using s3(1) e2 by simp
  obtain s4 where s4: "kst s4 = kst s3" "run_state (get_xflg fo fd m (?x, ?f3, ?k3)) s3 =
      ((?x, (?f3 OR (if (bit m 1 \<or> bit m 2) \<and> got (\<lambda>v. bit v 0) y then VC_IATTR_HIDE else 0)) OR
         (if (bit m 1 \<or> bit m 2) \<and> got (\<lambda>v. bit v 1) y then VC_IATTR_WATCH else 0),
      ?k3 OR (if (bit m 1 \<or> bit m 2) \<and> got (\<lambda>_. True) y then VC_IATTR_WATCH OR VC_IATTR_HIDE else 0)), s4)"
    using 4 [OF e3, of ?x ?f3 ?k3] by blast
  have run: "run_state (get_all fo fd (ty, mode) m (x, f, 0)) s = run_state (get_xflg fo fd m (?x, ?f3, ?k3)) s3"
    unfolding get_all_def run_state_bind s1(2) s2(2) s3(2) prod.case by (rule refl)
  show ?thesis using r e3 s4(1) unfolding run s4(2) prod.inject by simp
qed

definition ino_set :: "xid_t \<Rightarrow> u32 \<Rightarrow> u32 \<Rightarrow> file_state \<Rightarrow> file_state" where
  "ino_set xid flags m i = ino_xflg flags m (ino_xid xid m (ino_barrier flags m (ino_iunlink flags m i)))"

lemma xflg_bits: "bit (1 :: u64) k \<longleftrightarrow> k = 0" "bit (2 :: u64) k \<longleftrightarrow> k = 1"
proof -
  have "bit (2 ^ 1 :: u64) k \<longleftrightarrow> k = 1" by (simp only: bit_exp_iff) auto
  then show "bit (2 :: u64) k \<longleftrightarrow> k = 1" by simp
  show "bit (1 :: u64) k \<longleftrightarrow> k = 0" by (simp add: bit_1_iff)
qed

lemma ino_set_fields:
  fixes i :: file_state and xid :: xid_t and flags m :: u32
  defines "j \<equiv> ino_set xid flags m i"
  shows "in_type j = in_type i"
    "bit m 24 \<Longrightarrow> in_ctx j = xid"
    "bit m 17 \<Longrightarrow> bit (in_flags j) 4 \<or> bit (in_flags j) 15 \<longleftrightarrow> bit flags 17 \<or> bit m 16 \<and> bit flags 16"
    "bit m 16 \<Longrightarrow> in_mode j AND 0x1FF = 0 \<and> bit (in_flags j) 15 \<longleftrightarrow> bit flags 16"
    "bit m 2 \<Longrightarrow> bit (in_xflg j) 0 \<longleftrightarrow> bit flags 2"
    "bit m 1 \<Longrightarrow> bit (in_xflg j) 1 \<longleftrightarrow> bit flags 1"
  unfolding j_def ino_set_def ino_xflg_def ino_xid_def ino_barrier_def ino_iunlink_def
  by (auto simp: iattr_bits iattr_pair ext2_bits bit_or_iff bit_and_iff bit_not_iff xflg_bits)

lemma set_run:
  assumes l: "file_laws fo n ino at" and r: "run_state (vc_set_iattr_fscompat fo n xid flags m) s = (0, t)"
  shows "ino (kst t) = ino_set xid flags m (ino (kst s))"
proof -
  obtain fd k where fd: "fo_open fo n (kst s) = Inr (fd, k)" using r by (auto simp: vc_set_iattr_fscompat_def split: sum.splits)
  have k: "at k fd" "ino k = ino (kst s)" using file_laws_facts(1) [OF l fd] by simp_all
  obtain ok u where u: "run_state (set_all fo fd xid flags m) (s\<lparr>kst := k\<rparr>) = (ok, u)" by fastforce
  then have ok: ok and t: "kst t = snd (fo_close fo fd (kst u))"
    using r fd by (auto simp: vc_set_iattr_fscompat_def iattr_err_run split: if_splits)
  have "run_state (set_all fo fd xid flags m) (s\<lparr>kst := k\<rparr>) = (True, u)" using u ok by simp
  from set_all_run [OF l _ this] have "at (kst u) fd" "ino (kst u) = ino_set xid flags m (ino k)"
    using k by (simp_all add: ino_set_def)
  then show ?thesis using t k file_laws_facts(2) [OF l] by simp
qed

text \<open>A reading run that succeeds: nothing was read, or the steps ran on a descriptor of the file.\<close>

lemma get_run:
  assumes l: "file_laws fo n ino at" and r: "run_state (vc_get_iattr_fscompat fo n (x, f, m)) t = ((rc, x', f', m'), u)"
  shows "rc \<in> {0, - 1} \<and> (x' = x \<and> f' = f \<and> m' = 0 \<and> \<not> (readable fo n ino (kst t)) \<or>
    (\<exists>fd v w. rc = 0 \<and> at (kst v) fd \<and> ino (kst v) = ino (kst t) \<and>
       run_state (get_all fo fd (in_type (ino (kst t)), in_mode (ino (kst t))) m (x, f, 0)) v = ((x', f', m'), w) \<and>
       (readable fo n ino (kst t) \<longrightarrow> (\<exists>c g y. fo_getctx fo fd (kst v) = Inr c \<and> fo_getflags fo fd (kst v) = Inr g \<and>
          fo_getxflg fo fd (kst v) = Inr y))))"
proof (cases "\<exists>ty mode fd k st. fo_lstat fo n (kst t) = Inr (ty, mode) \<and> ty \<noteq> F_OTHER \<and> fo_open fo n (kst t) = Inr (fd, k) \<and>
    fo_fstat fo fd k = Inr st")
  case False
  have "\<not> readable fo n ino (kst t)" using False unfolding readable_def by (metis (no_types))
  moreover have "rc \<in> {0, - 1} \<and> x' = x \<and> f' = f \<and> m' = 0"
  proof (cases "fo_lstat fo n (kst t)")
    case (Inl e)
    then show ?thesis using r by (simp add: vc_get_iattr_fscompat_def)
  next
    case (Inr a)
    obtain ty mode where a: "a = (ty, mode)" by (cases a)
    show ?thesis
    proof (cases "ty = F_OTHER")
      case True
      then show ?thesis using r Inr a by (simp add: vc_get_iattr_fscompat_def)
    next
      case nf: False
      show ?thesis
      proof (cases "fo_open fo n (kst t)")
        case (Inl e)
        then show ?thesis using r Inr a nf by (cases ty) (simp_all add: vc_get_iattr_fscompat_def)
      next
        case o: (Inr b)
        obtain fd k where b: "b = (fd, k)" by (cases b)
        have "\<exists>e. fo_fstat fo fd k = Inl e" using False Inr a nf o b by (cases "fo_fstat fo fd k") auto
        then show ?thesis using r Inr a nf o b by (cases ty) (auto simp: vc_get_iattr_fscompat_def iattr_err_run)
      qed
    qed
  qed
  ultimately show ?thesis by blast
next
  case True
  then obtain ty mode fd k st where o: "fo_lstat fo n (kst t) = Inr (ty, mode)" "ty \<noteq> F_OTHER" "fo_open fo n (kst t) = Inr (fd, k)"
    "fo_fstat fo fd k = Inr st" by blast
  have k: "at k fd" "ino k = ino (kst t)" using file_laws_facts(1) [OF l o(3)] by simp_all
  have st: "st = (in_type (ino (kst t)), in_mode (ino (kst t)))" using file_laws_facts(3) [OF l k(1) o(4)] k(2) by simp
  obtain res w where w: "run_state (get_all fo fd st m (x, f, 0)) (t\<lparr>kst := k\<rparr>) = (res, w)" by fastforce
  have "rc = 0 \<and> (x', f', m') = res" using r o w by (cases ty) (auto simp: vc_get_iattr_fscompat_def)
  moreover have "readable fo n ino (kst t) \<longrightarrow> (\<exists>c g y. fo_getctx fo fd k = Inr c \<and> fo_getflags fo fd k = Inr g \<and> fo_getxflg fo fd k = Inr y)"
    using o(3) unfolding readable_def by auto
  ultimately show ?thesis using k st w by (intro conjI disjI2 exI [of _ fd] exI [of _ "t\<lparr>kst := k\<rparr>"] exI [of _ w]) auto
qed


lemma one_file_laws: "file_laws (one_file n) n fst (\<lambda>k fd. fd \<in> snd k)"
  by (auto simp: file_laws_def one_file_def on_fd_def put_fd_def split: if_splits)

definition dir_state :: "(file_state \<times> int set) sst" where
  "dir_state =
     \<lparr>sst_errno = ESRCH, kst = (\<lparr>in_type = F_DIR, in_mode = 0x1ED, in_ctx = 0, in_flags = 0, in_xflg = 0\<rparr>, {}), sent = []\<rparr>"


section \<open>The system calls\<close>

fun iattr_of :: "kdata \<Rightarrow> u32 \<times> u32 \<times> u32" where "iattr_of (D_iattr n x f m) = (x, f, m)"
fun fiattr_of :: "kdata \<Rightarrow> u32 \<times> u32 \<times> u32" where "fiattr_of (D_fiattr x f m) = (x, f, m)"

fun with_name :: "cstr \<Rightarrow> kdata \<Rightarrow> kdata" where
  "with_name n (D_iattr old x f m) = D_iattr n x f m"
| "with_name n d = d"

definition vc_set_iattr_v13 :: "'k sysenv \<Rightarrow> cstr \<Rightarrow> xid_t \<Rightarrow> u32 \<Rightarrow> u32 \<Rightarrow> ('k sst, int) state" where
  "vc_set_iattr_v13 h filename xid flags m =
     vserver_in h VCMD_set_iattr 0 (D_iattr filename (CTX_USER2KERNEL xid) flags m)"

definition vc_get_iattr_v13 ::
  "'k sysenv \<Rightarrow> cstr \<Rightarrow> xid_t option \<times> u32 option \<times> u32 option \<Rightarrow>
   ('k sst, int \<times> xid_t option \<times> u32 option \<times> u32 option) state" where
  "vc_get_iattr_v13 h filename out =
     (case out of (xid, flags, m) \<Rightarrow>
        do {
          (rc, k) \<leftarrow> vserver h VCMD_get_iattr 0 (with_name filename (se_uninit h S_iattr));
          let (x, f, ms) = iattr_of k;
          ret (rc, map_option (\<lambda>_. CTX_KERNEL2USER x) xid, map_option (\<lambda>_. f) flags, map_option (\<lambda>_. ms) m)
        })"

definition vc_set_iattr :: "'k sysenv \<Rightarrow> 'k fileops \<Rightarrow> bool \<Rightarrow> cstr \<Rightarrow> xid_t \<Rightarrow> u32 \<Rightarrow> u32 \<Rightarrow> ('k sst, int) state" where
  "vc_set_iattr h fo multi filename xid flags m =
     CALL_VC h multi
       [(A_V13, vc_set_iattr_v13 h filename xid flags m), (A_FSCOMPAT, vc_set_iattr_fscompat fo filename xid flags m)] (- 1)"

text \<open>The second alternative with pointers: a null pointer is not read where the mask does not ask for it.\<close>

definition iattr_pointers ::
  "xid_t option \<times> u32 option \<times> u32 option \<Rightarrow> int \<times> xid_t \<times> u32 \<times> u32 \<Rightarrow> int \<times> xid_t option \<times> u32 option \<times> u32 option" where
  "iattr_pointers out r =
     (case out of (xid, flags, m) \<Rightarrow> case r of (rc, x, f, ms) \<Rightarrow>
        (rc, map_option (\<lambda>_. x) xid, map_option (\<lambda>_. f) flags, map_option (\<lambda>_. ms) m))"

definition vc_get_iattr ::
  "'k sysenv \<Rightarrow> 'k fileops \<Rightarrow> bool \<Rightarrow> cstr \<Rightarrow> xid_t option \<times> u32 option \<times> u32 option \<Rightarrow>
   ('k sst, int \<times> xid_t option \<times> u32 option \<times> u32 option) state" where
  "vc_get_iattr h fo multi filename out =
     (case out of
        (xid, flags, None) \<Rightarrow> fail EFAULT (- 1, out)
      | (xid, flags, Some m) \<Rightarrow>
          if m AND VC_IATTR_XID \<noteq> 0 \<and> xid = None \<or> m AND NOT VC_IATTR_XID \<noteq> 0 \<and> flags = None
          then fail EFAULT (- 1, out)
          else
            (let out = (xid, map_option (\<lambda>f. f AND NOT m) flags, Some m)
             in CALL_VC h multi
                  [(A_V13, vc_get_iattr_v13 h filename out),
                   (A_FSCOMPAT,
                    do {
                      r \<leftarrow> vc_get_iattr_fscompat fo filename
                             (case xid of None \<Rightarrow> 0 | Some x \<Rightarrow> x, case flags of None \<Rightarrow> 0 | Some f \<Rightarrow> f AND NOT m, m);
                      ret (iattr_pointers out r)
                    })] (- 1, out)))"

definition vc_fget_iattr_v22 ::
  "'k sysenv \<Rightarrow> u32 \<Rightarrow> xid_t option \<times> u32 option \<times> u32 option \<Rightarrow>
   ('k sst, int \<times> xid_t option \<times> u32 option \<times> u32 option) state" where
  "vc_fget_iattr_v22 h fd out =
     (case out of (ctx, flags, m) \<Rightarrow>
        do {
          (r, k) \<leftarrow> vserver h VCMD_fget_iattr fd (D_fiattr 0 0 (case m of None \<Rightarrow> 0 | Some v \<Rightarrow> v));
          if r \<noteq> 0 then ret (r, out)
          else
            (let (x, f, ms) = fiattr_of k
             in ret (0, map_option (\<lambda>_. x) ctx, map_option (\<lambda>_. f) flags, map_option (\<lambda>_. ms) m))
        })"

definition vc_fget_iattr ::
  "'k sysenv \<Rightarrow> u32 \<Rightarrow> xid_t option \<times> u32 option \<times> u32 option \<Rightarrow>
   ('k sst, int \<times> xid_t option \<times> u32 option \<times> u32 option) state" where
  "vc_fget_iattr h fd out = CALL_VC h False [(A_V22, vc_fget_iattr_v22 h fd out)] (- 1, out)"

definition vc_fset_iattr_v22 :: "'k sysenv \<Rightarrow> u32 \<Rightarrow> xid_t \<Rightarrow> u32 \<Rightarrow> u32 \<Rightarrow> ('k sst, int) state" where
  "vc_fset_iattr_v22 h fd ctx flags m = vserver_in h VCMD_fset_iattr fd (D_fiattr ctx flags m)"

definition vc_fset_iattr :: "'k sysenv \<Rightarrow> u32 \<Rightarrow> xid_t \<Rightarrow> u32 \<Rightarrow> u32 \<Rightarrow> ('k sst, int) state" where
  "vc_fset_iattr h fd ctx flags m = CALL_VC h False [(A_V22, vc_fset_iattr_v22 h fd ctx flags m)] (- 1)"

end
