(* ===== verification/SysContract.thy ===== *)
theory SysContract
  imports SysMisc SysSpace SysNet SysAttr
begin

text \<open>
  What all wrappers have in common: the calls they make. \<open>only P m\<close> states that \<open>m\<close> makes only calls with the
  property \<open>P\<close>, whatever the state is.
\<close>

type_synonym call = "u32 \<times> u32 \<times> kdata"

definition only :: "(call \<Rightarrow> bool) \<Rightarrow> ('k sst, 'a) state \<Rightarrow> bool" where
  "only P m \<longleftrightarrow> (\<forall>s. \<exists>cs. sent (snd (run_state m s)) = sent s @ cs \<and> list_all P cs)"

text \<open>The structure is the one that the header prescribes for the command.\<close>

fun typed_call :: "call \<Rightarrow> bool" where
  "typed_call (cmd, ident, d) \<longleftrightarrow> map_of COMMANDS cmd = Some (kind d)"

definition uninit_ok :: "'k sysenv \<Rightarrow> bool" where
  "uninit_ok h \<longleftrightarrow> (\<forall>k. kind (se_uninit h k) = k)"

named_theorems only_intros

lemma onlyD: "only P m \<Longrightarrow> \<exists>cs. sent (snd (run_state m s)) = sent s @ cs \<and> list_all P cs"
  by (simp add: only_def)

lemma only_quiet: "(\<And>s. sent (snd (run_state m s)) = sent s) \<Longrightarrow> only P m"
  by (auto simp: only_def)

lemma only_return [only_intros]: "only P (ret x)"
  by (rule only_quiet) simp

lemma only_set_errno [only_intros]: "only P (set_errno e)"
  by (rule only_quiet) (simp add: set_errno_def)

lemma only_read_state [only_intros]: "only P (State (\<lambda>s. (f s, s)))"
  by (rule only_quiet) simp

lemma only_bind [only_intros]:
  assumes "only P m" "\<And>x. only P (f x)"
  shows "only P (State_Monad.bind m f)"
  unfolding only_def
proof
  fix s
  obtain x t where m: "run_state m s = (x, t)" by fastforce
  obtain cs where cs: "sent t = sent s @ cs" "list_all P cs" using onlyD [OF assms(1), of s] m by auto
  obtain ds where ds: "sent (snd (run_state (f x) t)) = sent t @ ds" "list_all P ds" using onlyD [OF assms(2), of x t] by auto
  show "\<exists>cs. sent (snd (run_state (State_Monad.bind m f) s)) = sent s @ cs \<and> list_all P cs"
    using m cs ds by (intro exI [of _ "cs @ ds"]) simp
qed

lemma only_vserver [only_intros]: "P (cmd, ident, d) \<Longrightarrow> only P (vserver h cmd ident d)"
  by (auto simp: only_def vserver_def Let_def split: prod.splits)

lemma only_fail [only_intros]: "only P (fail e r)"
  unfolding fail_def by (intro only_intros)

lemma only_case_prod [only_intros]: "(\<And>a b. x = (a, b) \<Longrightarrow> only P (f a b)) \<Longrightarrow> only P (case x of (a, b) \<Rightarrow> f a b)"
  by (cases x) simp

lemma only_vserver_in [only_intros]: "P (cmd, ident, d) \<Longrightarrow> only P (vserver_in h cmd ident d)"
  unfolding vserver_in_def by (intro only_intros)

lemma only_Let [only_intros]: "only P (f x) \<Longrightarrow> only P (Let x f)"
  by simp

lemma only_if [only_intros]: "\<lbrakk>c \<Longrightarrow> only P m; \<not> c \<Longrightarrow> only P n\<rbrakk> \<Longrightarrow> only P (if c then m else n)"
  by simp

lemma only_case_option [only_intros]:
  "\<lbrakk>x = None \<Longrightarrow> only P m; \<And>y. x = Some y \<Longrightarrow> only P (f y)\<rbrakk> \<Longrightarrow> only P (case x of None \<Rightarrow> m | Some y \<Rightarrow> f y)"
  by (cases x) simp_all

lemma only_call_alts:
  "(\<And>a f. (a, f) \<in> set alts \<Longrightarrow> ok a \<Longrightarrow> only P f) \<Longrightarrow> only P (call_alts ok alts bad)"
  by (induction ok alts bad rule: call_alts.induct) (auto intro: only_intros)

lemma only_CALL_VC:
  assumes "\<And>a f. \<lbrakk>(a, f) \<in> set alts; api_built (se_built h) a;
      multi \<Longrightarrow> fst (se_version h) \<noteq> - 1 \<and> api_selected (fst (se_version h)) (se_config h) a\<rbrakk> \<Longrightarrow> only P f"
  shows "only P (CALL_VC h multi alts bad)"
  unfolding CALL_VC_def using assms by (auto intro!: only_intros only_call_alts)

text \<open>
  What is known when an alternative of \<^verbatim>\<open>CALL_VC\<close> runs: its interface was compiled in and, where the version
  is checked, the check has succeeded and the kernel's version or configuration announces the interface.
\<close>

definition available :: "'k sysenv \<Rightarrow> bool \<Rightarrow> api \<Rightarrow> bool" where
  "available h multi a \<longleftrightarrow>
     api_built (se_built h) a \<and> (multi \<longrightarrow> fst (se_version h) \<noteq> - 1 \<and> api_selected (fst (se_version h)) (se_config h) a)"

definition sound :: "'k sysenv \<Rightarrow> bool \<Rightarrow> call \<Rightarrow> bool" where
  "sound h multi c \<longleftrightarrow> typed_call c \<and> (\<exists>a. available h multi a)"

lemma sound_call: "\<lbrakk>available h multi a; map_of COMMANDS cmd = Some (kind d)\<rbrakk> \<Longrightarrow> sound h multi (cmd, ident, d)"
  by (auto simp: sound_def)

definition alts_only :: "(call \<Rightarrow> bool) \<Rightarrow> 'k sysenv \<Rightarrow> bool \<Rightarrow> (api \<times> ('k sst, 'a) state) list \<Rightarrow> bool" where
  "alts_only P h multi alts \<longleftrightarrow> list_all (\<lambda>(a, f). available h multi a \<longrightarrow> only P f) alts"

lemma alts_only_intros [only_intros]:
  "alts_only P h multi []"
  "\<lbrakk>available h multi a \<Longrightarrow> only P f; alts_only P h multi alts\<rbrakk> \<Longrightarrow> alts_only P h multi ((a, f) # alts)"
  by (auto simp: alts_only_def)

lemma only_alts [only_intros]: "alts_only P h multi alts \<Longrightarrow> only P (CALL_VC h multi alts bad)"
  by (rule only_CALL_VC) (auto simp: alts_only_def available_def list_all_iff)

lemma uninit_kind [simp]: "uninit_ok h \<Longrightarrow> kind (se_uninit h k) = k"
  by (simp add: uninit_ok_def)

lemma kind_updates [simp]:
  "kind d = S_rlimit \<Longrightarrow> kind (with_id i d) = S_rlimit"
  "kind d = S_vhi_name \<Longrightarrow> kind (with_field f d) = S_vhi_name"
  "kind d = S_iattr \<Longrightarrow> kind (with_name n d) = S_iattr"
  "kind d = S_net_ipv4 \<Longrightarrow> kind (with_type ty d) = S_net_ipv4"
  "kind d = S_net_ipv6 \<Longrightarrow> kind (with_type ty d) = S_net_ipv6"
  "kind d = S_net_addr_v0 \<Longrightarrow> kind (net_v0_v4 ty c a d) = S_net_addr_v0"
  "kind d = S_net_addr_v0 \<Longrightarrow> kind (net_v0_v6 ty c a d) = S_net_addr_v0"
  "kind d = S_net_addr_v0 \<Longrightarrow> kind (net_v0_type ty c d) = S_net_addr_v0"
  by (cases d; simp)+

text \<open>Calls on files are no calls of \<^verbatim>\<open>vserver\<close>.\<close>

lemma only_file_calls [only_intros]:
  "only P (file_read f)" "only P (file_write g)" "only P (file_open op)" "only P (file_close fo fd)"
  by (auto intro!: only_quiet split: sum.splits)

lemma only_fscompat [only_intros]:
  "only P (vc_set_iattr_fscompat fo filename xid flags m)" "only P (vc_get_iattr_fscompat fo filename out)"
  unfolding vc_set_iattr_fscompat_def set_all_def vc_get_iattr_fscompat_def get_all_def set_iunlink_def set_barrier_def set_xid_def set_xflg_def
    get_xid_def get_iunlink_def get_barrier_def get_xflg_def vc_X_get_ext2flags_def vc_X_set_ext2flags_def
    vc_X_get_filecontext_def vc_X_set_filecontext_def vc_X_get_xflg_def vc_X_set_xflg_def iattr_err_def
  by (auto intro!: only_intros split: option.splits attr_ftype.splits)

lemmas ctx_call_defs =
  vc_get_ccaps_v13_def vc_get_ccaps_v21_def vc_get_ccaps_def vc_set_ccaps_v13_def vc_set_ccaps_v21_def
  vc_set_ccaps_def vc_get_cflags_v13_def vc_get_cflags_def vc_set_cflags_v13_def vc_set_cflags_def
  vc_get_umask_v23_def vc_get_umask_def vc_set_umask_v23_def vc_set_umask_def vc_ctx_create_v13_def
  vc_ctx_create_v21_def vc_ctx_create_def vc_ctx_migrate_v13_def vc_ctx_migrate_spaces_def vc_ctx_migrate_def
  vc_ctx_stat_v21_def vc_ctx_stat_def vc_get_vx_info_v13_def vc_get_vx_info_oldproc_def vc_get_vx_info_def
  vc_get_task_xid_v13_def vc_ctx_kill_v11_def vc_ctx_kill_def vc_wait_exit_v13b_def vc_wait_exit_def
  vc_get_vci_v21_def vc_get_vci_def vc_reset_minmax_v21_def vc_reset_minmax_def

lemma ctx_calls:
  assumes "uninit_ok h"
  shows
    "only (sound h multi) (vc_get_ccaps h multi xid caps)"
    "only (sound h multi) (vc_set_ccaps h multi xid caps)"
    "only (sound h False) (vc_get_cflags h xid flags)"
    "only (sound h False) (vc_set_cflags h xid flags)"
    "only (sound h False) (vc_get_umask h xid u)"
    "only (sound h False) (vc_set_umask h xid u)"
    "only (sound h multi) (vc_ctx_create h multi xid flags)"
    "only (sound h multi) (vc_ctx_migrate h multi xid mflags)"
    "only (sound h False) (vc_ctx_stat h ctx cst)"
    "only (sound h multi) (vc_get_vx_info h multi xid info)"
    "only (sound h False) (vc_ctx_kill h ctx pid sig)"
    "only (sound h False) (vc_wait_exit h ctx)"
    "only (sound h False) (vc_get_vci h)"
    "only (sound h False) (vc_reset_minmax h ctx)"
    "only typed_call (vc_get_version h)"
    "only typed_call (vc_get_task_xid_v13 h pid)"
  unfolding ctx_call_defs vc_get_version_def using assms
  by - (intro only_intros; ((erule sound_call; simp) | simp))+

lemmas resource_call_defs =
  vc_get_rlimit_v11_def vc_get_rlimit_def vc_set_rlimit_v11_def vc_set_rlimit_def vc_get_rlimit_mask_v11_def
  vc_get_rlimit_mask_def vc_rlimit_stat_v21_def vc_rlimit_stat_def vc_set_sched_v13obs_def
  vc_set_sched_v13b_def sched_v4_def vc_set_sched_v21_def vc_set_sched_v22_def vc_set_sched_def
  vc_get_sched_v21_def vc_get_sched_def vc_sched_info_v21_def vc_sched_info_def vc_add_dlimit_v13b_def
  vc_add_dlimit_def vc_rem_dlimit_v13b_def vc_rem_dlimit_def vc_set_dlimit_v13b_def vc_set_dlimit_def
  vc_get_dlimit_v13b_def vc_get_dlimit_def

lemma resource_calls:
  assumes "uninit_ok h"
  shows
    "only (sound h False) (vc_get_rlimit h ctx resource lim)"
    "only (sound h False) (vc_set_rlimit h ctx resource lim)"
    "only (sound h False) (vc_get_rlimit_mask h ctx lm)"
    "only (sound h False) (vc_rlimit_stat h ctx resource st)"
    "only (sound h True) (vc_set_sched h xid data)"
    "only (sound h False) (vc_get_sched h xid data)"
    "only (sound h False) (vc_sched_info h ctx sinfo)"
    "only (sound h False) (vc_add_dlimit h name xid flags)"
    "only (sound h False) (vc_rem_dlimit h name xid flags)"
    "only (sound h False) (vc_set_dlimit h name xid flags l)"
    "only (sound h False) (vc_get_dlimit h name xid flags lims)"
  unfolding resource_call_defs using assms
  by - (intro only_intros; ((erule sound_call; simp) | simp))+

lemmas space_call_defs =
  vc_set_vhi_name_v13_def vc_get_vhi_name_v13_def vc_set_vhi_name_olduts_def vc_get_vhi_name_olduts_def
  vc_set_vhi_name_def vc_get_vhi_name_def vc_enter_namespace_v13_def vc_enter_namespace_spaces_def
  vc_enter_namespace_v23_def vc_enter_namespace_def vc_set_namespace_v13_def vc_set_namespace_spaces_def
  vc_set_namespace_v23_def vc_set_namespace_def vc_cleanup_namespace_v13_def vc_cleanup_namespace_def
  vc_get_space_mask_spaces_def vc_get_space_mask_v23_def vc_get_space_mask_def vc_get_space_default_v23_def
  vc_get_space_default_def vc_get_badness_v23_def vc_get_badness_def vc_set_badness_v23_def vc_set_badness_def
  vc_virt_stat_v21_def vc_virt_stat_def vc_set_mapping_v21_def vc_set_mapping_def vc_unset_mapping_v21_def
  vc_unset_mapping_def vc_tag_migrate_tag_def vc_tag_migrate_def vc_tag_create_def vc_get_task_tag_tag_def
  vc_get_task_tag_def vc_new_s_context_compat_def vc_set_ipv4root_compat_def

lemma space_calls:
  assumes "uninit_ok h" "\<And>b v n. only (sound h multi) (setname b v n)" "\<And>b v n. only (sound h multi) (getname b v n)"
  shows
    "only (sound h multi) (vc_set_vhi_name h setname multi xid type val len)"
    "only (sound h multi) (vc_get_vhi_name h getname multi xid type val n)"
    "only (sound h True) (vc_enter_namespace h xid m index)"
    "only (sound h True) (vc_set_namespace h xid m index)"
    "only (sound h False) (vc_cleanup_namespace h)"
    "only (sound h multi) (vc_get_space_mask h multi)"
    "only (sound h False) (vc_get_space_default h)"
    "only (sound h False) (vc_get_badness h xid badness)"
    "only (sound h False) (vc_set_badness h xid badness)"
    "only (sound h False) (vc_virt_stat h ctx vst)"
    "only (sound h False) (vc_set_mapping h xid device target flags)"
    "only (sound h False) (vc_unset_mapping h xid device target flags)"
    "only (sound h False) (vc_tag_migrate h tag)"
    "only (sound h False) (vc_tag_create h tag)"
    "only (sound h False) (vc_get_task_tag h pid)"
    "only typed_call (vc_new_s_context_compat h ctx remove_cap cflags)"
    "only typed_call (vc_set_ipv4root_compat h eo bcast ips)"
  unfolding space_call_defs using assms
  by - (intro only_intros; ((erule sound_call; simp) | simp))+

lemmas net_call_defs =
  vc_net_create_net_def vc_net_create_def vc_net_migrate_net_def vc_net_migrate_def vc_get_task_nid_net_def
  vc_get_task_nid_def vc_get_nflags_net_def vc_get_nflags_def vc_set_nflags_net_def vc_set_nflags_def
  vc_get_ncaps_net_def vc_get_ncaps_def vc_set_ncaps_net_def vc_set_ncaps_def vc_get_nx_info_net_def
  vc_get_nx_info_def vc_net_add_net_def vc_net_add_netv2_def vc_net_add_def vc_net_remove_net_def
  vc_net_remove_netv2_def vc_net_remove_def

lemma net_calls:
  assumes "uninit_ok h"
  shows
    "only (sound h False) (vc_net_create h nid)"
    "only (sound h False) (vc_net_migrate h nid)"
    "only (sound h False) (vc_get_task_nid h pid)"
    "only (sound h False) (vc_get_nflags h nid flags)"
    "only (sound h False) (vc_set_nflags h nid flags)"
    "only (sound h False) (vc_get_ncaps h nid caps)"
    "only (sound h False) (vc_set_ncaps h nid caps)"
    "only (sound h False) (vc_get_nx_info h nid ninfo)"
    "only (sound h multi) (vc_net_add h multi nid info)"
    "only (sound h multi) (vc_net_remove h multi nid info)"
  unfolding net_call_defs using assms
  by - (intro only_intros; ((erule sound_call; simp) | simp))+

lemmas iattr_call_defs =
  vc_set_iattr_v13_def vc_get_iattr_v13_def vc_set_iattr_def vc_get_iattr_def vc_fget_iattr_v22_def vc_fget_iattr_def
  vc_fset_iattr_v22_def vc_fset_iattr_def

lemma iattr_calls:
  assumes "uninit_ok h"
  shows
    "only (sound h multi) (vc_set_iattr h fo multi filename xid flags m)"
    "only (sound h multi) (vc_get_iattr h fo multi filename out)"
    "only (sound h False) (vc_fget_iattr h fd out)"
    "only (sound h False) (vc_fset_iattr h fd ctx flags m)"
  unfolding iattr_call_defs using assms
  by - (intro only_intros; ((erule sound_call; simp) | simp))+


text \<open>Structures of zeros, and a kernel of the version 2.3.0 that gives back what it gets.\<close>

fun blank :: "kstruct \<Rightarrow> kdata" where
  "blank S_null = D_null"
| "blank S_vx_info = D_vx_info 0 0"
| "blank S_nx_info = D_nx_info 0"
| "blank S_ctx_stat = D_ctx_stat 0 0"
| "blank S_ctx_create = D_ctx_create 0"
| "blank S_ctx_migrate = D_ctx_migrate 0"
| "blank S_ctx_flags = D_ctx_flags 0 0"
| "blank S_net_flags = D_net_flags 0 0"
| "blank S_ctx_caps_v0 = D_ctx_caps_v0 0 0 0"
| "blank S_ctx_caps_v1 = D_ctx_caps_v1 0 0"
| "blank S_net_caps = D_net_caps 0 0"
| "blank S_bcaps = D_bcaps 0 0"
| "blank S_umask = D_umask 0 0"
| "blank S_badness = D_badness 0"
| "blank S_vhi_name = D_vhi_name 0 []"
| "blank S_virt_stat = D_virt_stat 0 0 [0, 0, 0] [0, 0, 0]"
| "blank S_mapping = D_mapping [] [] 0"
| "blank S_dlimit_base = D_dlimit_base [] 0"
| "blank S_dlimit = D_dlimit [] 0 0 0 0 0 0"
| "blank S_iattr = D_iattr [] 0 0 0"
| "blank S_fiattr = D_fiattr 0 0 0"
| "blank S_rlimit = D_rlimit 0 0 0 0"
| "blank S_rlimit_mask = D_rlimit_mask 0 0 0"
| "blank S_rlimit_stat = D_rlimit_stat 0 0 0 0 0"
| "blank S_net_addr_v0 = D_net_addr_v0 0 0 (replicate 4 [0, 0, 0, 0]) (replicate 4 [0, 0, 0, 0])"
| "blank S_net_ipv4 = D_net_ipv4 0 0 [0, 0, 0, 0] [0, 0, 0, 0]"
| "blank S_net_ipv6 = D_net_ipv6 0 0 0 [0, 0, 0, 0] [0, 0, 0, 0]"
| "blank S_sched_v2 = D_sched_v2 0 0 0 0 0 0"
| "blank S_sched_v3 = D_sched_v3 0 0 0 0 0 0 0"
| "blank S_sched_v4 = D_sched_v4 0 0 0 0 0 0 0 0 0"
| "blank S_sched_v5 = D_sched_v5 0 0 0 (0, 0) (0, 0) 0 0 0 0"
| "blank S_sched_info = D_sched_info 0 0 0 0 0 0 0"
| "blank S_ctx_kill = D_ctx_kill 0 0"
| "blank S_wait_exit = D_wait_exit 0 0"
| "blank S_space_v1 = D_space_v1 0"
| "blank S_space_v2 = D_space_v2 0 0"
| "blank S_new_s_context = D_new_s_context 0 0"
| "blank S_ipv4root = D_ipv4root 0 []"

lemma kind_blank: "kind (blank k) = k"
  by (cases k) simp_all

definition echo_kernel :: "u64 \<Rightarrow> unit sysenv" where
  "echo_kernel conf =
     \<lparr>se_kernel = (\<lambda>cmd ident d k. (0, ENOSYS, d, k)), se_uninit = blank, se_version = (0x00020300, ENOSYS), se_config = conf,
      se_built = (\<lambda>_. True)\<rparr>"


end
