(* ===== verification/Process.thy ===== *)
theory Process
  imports Prelude "HOL-Library.Sublist"
begin

text \<open>
  Programs that change the state of their own process and then execute a command. A program is the tree of the system
  calls it makes: after each call the tree goes on with what the code does for that answer, so a statement about all
  paths of the tree is one about all answers of the kernel. Calls whose answer the code ignores go on in one way.
\<close>

datatype answer = Done int | Failed errno

datatype (plugins only: code size) 'a prog =
    End int
  | Exec "cstr list" "'a prog"
  | Call 'a "answer \<Rightarrow> 'a prog"

text \<open>How a process leaves the program: it exits, or another program runs in its place.\<close>

datatype outcome = Exited int | Running "cstr list"

text \<open>
  The runs: the calls with their answers, and the end. \<^verbatim>\<open>execvp\<close> may fail; then the rest is performed.
\<close>

primrec performs :: "'a prog \<Rightarrow> ('a \<times> answer) list \<Rightarrow> outcome \<Rightarrow> bool" where
  "performs (End c) t e \<longleftrightarrow> t = [] \<and> e = Exited c"
| "performs (Exec argv p) t e \<longleftrightarrow> t = [] \<and> e = Running argv \<or> performs p t e"
| "performs (Call a f) t e \<longleftrightarrow> (case t of [] \<Rightarrow> False | (b, r) # u \<Rightarrow> b = a \<and> performs (f r) u e)"

text \<open>A run with given answers: the first argument answers each call, looking at the calls before.\<close>

primrec run_prog :: "'a prog \<Rightarrow> (('a \<times> answer) list \<Rightarrow> 'a \<Rightarrow> answer) \<Rightarrow> bool \<Rightarrow> ('a \<times> answer) list \<Rightarrow> ('a \<times> answer) list \<times> outcome" where
  "run_prog (End c) env found t = (t, Exited c)"
| "run_prog (Exec argv p) env found t = (if found then (t, Running argv) else run_prog p env found t)"
| "run_prog (Call a f) env found t = run_prog (f (env t a)) env found (t @ [(a, env t a)])"

lemma run_prog_performs: "run_prog p env found t = (u, e) \<Longrightarrow> \<exists>v. u = t @ v \<and> performs p v e"
proof (induction p arbitrary: t)
  case (Call a f)
  from Call.IH [OF rangeI, of "env t a" "t @ [(a, env t a)]"] Call.prems
  obtain v where "u = (t @ [(a, env t a)]) @ v" "performs (f (env t a)) v e" by auto
  then show ?case by (intro exI [of _ "(a, env t a) # v"]) simp
qed (auto split: if_splits)

section \<open>The wrappers that end the program on an error\<close>

definition must :: "int \<Rightarrow> 'a \<Rightarrow> 'a prog \<Rightarrow> 'a prog" where
  "must ec a k = Call a (\<lambda>r. case r of Done _ \<Rightarrow> k | Failed _ \<Rightarrow> End ec)"

definition must_get :: "int \<Rightarrow> 'a \<Rightarrow> (int \<Rightarrow> 'a prog) \<Rightarrow> 'a prog" where
  "must_get ec a k = Call a (\<lambda>r. case r of Done n \<Rightarrow> k n | Failed _ \<Rightarrow> End ec)"

definition ignore :: "'a \<Rightarrow> 'a prog \<Rightarrow> 'a prog" where
  "ignore a k = Call a (\<lambda>_. k)"

text \<open>A step that is only done on request.\<close>

definition when_do :: "bool \<Rightarrow> ('a prog \<Rightarrow> 'a prog) \<Rightarrow> 'a prog \<Rightarrow> 'a prog" where
  "when_do b step k = (if b then step k else k)"

named_theorems performs_simps

lemma performs_call [performs_simps]:
  "performs (Call a f) t e \<longleftrightarrow>
     (\<exists>n u. t = (a, Done n) # u \<and> performs (f (Done n)) u e) \<or>
     (\<exists>err u. t = (a, Failed err) # u \<and> performs (f (Failed err)) u e)"
  by (auto split: list.splits) (metis answer.exhaust)+

declare performs.simps(3) [simp del]

lemma performs_must [performs_simps]:
  "performs (must c a k) t e \<longleftrightarrow>
     (\<exists>n u. t = (a, Done n) # u \<and> performs k u e) \<or> (\<exists>err. t = [(a, Failed err)] \<and> e = Exited c)"
  by (auto simp: must_def performs_call)

lemma performs_must_get [performs_simps]:
  "performs (must_get c a k) t e \<longleftrightarrow>
     (\<exists>n u. t = (a, Done n) # u \<and> performs (k n) u e) \<or> (\<exists>err. t = [(a, Failed err)] \<and> e = Exited c)"
  by (auto simp: must_get_def performs_call)

lemma performs_ignore [performs_simps]: "performs (ignore a k) t e \<longleftrightarrow> (\<exists>r u. t = (a, r) # u \<and> performs k u e)"
  unfolding ignore_def performs_call by (metis answer.exhaust)

section \<open>Duties\<close>

text \<open>
  The calls of a run that succeeded, as far as \<open>sel\<close> selects them. A step of a program \<open>adds\<close> one of the lists
  \<open>D\<close> when every run either ends in it with 255, having done an initial part of such a list, or goes on after all of it.
\<close>

fun done_calls :: "('a \<Rightarrow> 'b option) \<Rightarrow> ('a \<times> answer) list \<Rightarrow> 'b list" where
  "done_calls sel [] = []"
| "done_calls sel ((a, Failed e) # t) = done_calls sel t"
| "done_calls sel ((a, Done n) # t) = (case sel a of None \<Rightarrow> done_calls sel t | Some d \<Rightarrow> d # done_calls sel t)"

lemma done_calls_append [simp]: "done_calls sel (t @ u) = done_calls sel t @ done_calls sel u"
  by (induction sel t rule: done_calls.induct) (auto split: option.splits)

definition adds :: "('a \<Rightarrow> 'b option) \<Rightarrow> 'b list set \<Rightarrow> ('a prog \<Rightarrow> 'a prog) \<Rightarrow> bool" where
  "adds sel D S \<longleftrightarrow> D \<noteq> {} \<and>
     (\<forall>k t e. performs (S k) t e \<longrightarrow>
        e = Exited 255 \<and> (\<exists>d \<in> D. prefix (done_calls sel t) d) \<or>
        (\<exists>u v. t = u @ v \<and> done_calls sel u \<in> D \<and> performs k v e))"

definition joined :: "'b list set \<Rightarrow> 'b list set \<Rightarrow> 'b list set" where
  "joined D E = {d @ e |d e. d \<in> D \<and> e \<in> E}"

lemma in_joined [simp]: "x \<in> joined D E \<longleftrightarrow> (\<exists>d e. x = d @ e \<and> d \<in> D \<and> e \<in> E)"
  by (auto simp: joined_def)

lemma joined_singles [simp]: "joined {d} {e} = {d @ e}"
  by (auto simp: joined_def)

named_theorems adds_intros

lemma adds_nothing [adds_intros]: "adds sel {[]} (\<lambda>k. k)"
  unfolding adds_def by (auto intro: exI [of _ "[]"])

lemma adds_comp [adds_intros]:
  assumes "adds sel D S" "adds sel E T"
  shows "adds sel (joined D E) (\<lambda>k. S (T k))"
  unfolding adds_def
proof (intro conjI allI impI)
  show "joined D E \<noteq> {}" using assms by (force simp: adds_def joined_def)
next
  fix k t e
  assume run: "performs (S (T k)) t e"
  from assms(2) obtain e0 where e0: "e0 \<in> E" by (auto simp: adds_def)
  from assms(1) run consider (stop) d where "e = Exited 255" "d \<in> D" "prefix (done_calls sel t) d"
    | (go) u v where "t = u @ v" "done_calls sel u \<in> D" "performs (T k) v e"
    unfolding adds_def by meson
  then show "e = Exited 255 \<and> (\<exists>d \<in> joined D E. prefix (done_calls sel t) d) \<or>
      (\<exists>u v. t = u @ v \<and> done_calls sel u \<in> joined D E \<and> performs k v e)"
  proof cases
    case stop
    then show ?thesis using e0 by (intro disjI1 conjI bexI [of _ "d @ e0"]) (auto intro: prefix_prefix)
  next
    case go
    from assms(2) go(3) consider (stop') d where "e = Exited 255" "d \<in> E" "prefix (done_calls sel v) d"
      | (go') v1 v2 where "v = v1 @ v2" "done_calls sel v1 \<in> E" "performs k v2 e"
      unfolding adds_def by meson
    then show ?thesis
    proof cases
      case stop'
      then show ?thesis using go(1,2) by (intro disjI1 conjI bexI [of _ "done_calls sel u @ d"]) auto
    next
      case go'
      then show ?thesis using go(1,2)
        by (intro disjI2 exI [of _ "u @ v1"] exI [of _ v2]) auto
    qed
  qed
qed

lemma adds_must: "sel a = Some d \<Longrightarrow> adds sel {[d]} (must 255 a)"
  unfolding adds_def performs_must
proof (intro conjI allI impI; (elim disjE exE conjE)?)
  fix k t e n u
  assume "sel a = Some d" "t = (a, Done n) # u" "performs k u e"
  then show "e = Exited 255 \<and> (\<exists>d \<in> {[d]}. prefix (done_calls sel t) d) \<or>
      (\<exists>v w. t = v @ w \<and> done_calls sel v \<in> {[d]} \<and> performs k w e)"
    by (intro disjI2 exI [of _ "[(a, Done n)]"] exI [of _ u]) simp
qed auto

lemma adds_must_none: "sel a = None \<Longrightarrow> adds sel {[]} (must 255 a)"
  unfolding adds_def performs_must
proof (intro conjI allI impI; (elim disjE exE conjE)?)
  fix k t e n u
  assume "sel a = None" "t = (a, Done n) # u" "performs k u e"
  then show "e = Exited 255 \<and> (\<exists>d \<in> {[]}. prefix (done_calls sel t) d) \<or>
      (\<exists>v w. t = v @ w \<and> done_calls sel v \<in> {[]} \<and> performs k w e)"
    by (intro disjI2 exI [of _ "[(a, Done n)]"] exI [of _ u]) simp
qed auto

lemma adds_ignore: "sel a = None \<Longrightarrow> adds sel {[]} (ignore a)"
proof -
  assume none: "sel a = None"
  then have "done_calls sel [(a, r)] = []" for r by (cases r) auto
  then show ?thesis
    unfolding adds_def by (fastforce simp: performs_simps intro: exI [of _ "[(a, _)]"])
qed

lemma adds_when: "adds sel D S \<Longrightarrow> adds sel (if b then D else {[]}) (when_do b S)"
  unfolding when_do_def [abs_def] by (cases b) (simp_all add: adds_nothing)

lemma adds_end: "adds sel {[]} (\<lambda>k. End 255)"
  by (auto simp: adds_def)

lemma addsD:
  assumes "adds sel D S" "performs (S k) t e"
  shows "e = Exited 255 \<and> (\<exists>d \<in> D. prefix (done_calls sel t) d) \<or>
    (\<exists>u v. t = u @ v \<and> done_calls sel u \<in> D \<and> performs k v e)"
  using assms unfolding adds_def by blast

lemma adds_mono:
  assumes "adds sel D S" "D \<subseteq> E"
  shows "adds sel E S"
  unfolding adds_def
proof (intro conjI allI impI)
  show "E \<noteq> {}" using assms by (auto simp: adds_def)
next
  fix k t e
  assume "performs (S k) t e"
  from addsD [OF assms(1) this] assms(2)
  show "e = Exited 255 \<and> (\<exists>d \<in> E. prefix (done_calls sel t) d) \<or>
      (\<exists>u v. t = u @ v \<and> done_calls sel u \<in> E \<and> performs k v e)" by blast
qed

lemma adds_stop: "D \<noteq> {} \<Longrightarrow> adds sel D (\<lambda>k. End 255)"
  by (auto simp: adds_def)

lemma adds_if: "adds sel D S \<Longrightarrow> adds sel D T \<Longrightarrow> adds sel D (\<lambda>k. if b then S k else T k)"
  by (cases b) simp_all

text \<open>A call that does not count, whatever comes after its answers.\<close>

lemma adds_call:
  assumes "sel a = None" "\<And>r. adds sel D (\<lambda>k. f k r)"
  shows "adds sel D (\<lambda>k. Call a (f k))"
  unfolding adds_def
proof (intro conjI allI impI)
  show "D \<noteq> {}" using assms(2) by (auto simp: adds_def)
next
  fix k t e
  assume "performs (Call a (f k)) t e"
  then obtain r u where t: "t = (a, r) # u" "performs (f k r) u e" by (auto simp: performs_call)
  have skip: "done_calls sel ((a, r) # v) = done_calls sel v" for v using assms(1) by (cases r) auto
  from addsD [OF assms(2) t(2)]
  show "e = Exited 255 \<and> (\<exists>d \<in> D. prefix (done_calls sel t) d) \<or>
      (\<exists>u v. t = u @ v \<and> done_calls sel u \<in> D \<and> performs k v e)"
  proof (elim disjE exE conjE)
    fix v w
    assume "u = v @ w" "done_calls sel v \<in> D" "performs k w e"
    then show ?thesis using t(1) skip by (intro disjI2 exI [of _ "(a, r) # v"] exI [of _ w]) simp
  qed (use t(1) skip in auto)
qed

text \<open>A call that counts when it succeeds, and is replaced by something else when it fails.\<close>

lemma adds_either:
  assumes "sel a = Some d" "adds sel D S"
  shows "adds sel (insert [d] D) (\<lambda>k. Call a (\<lambda>r. case r of Done _ \<Rightarrow> k | Failed _ \<Rightarrow> S k))"
  unfolding adds_def
proof (intro conjI allI impI)
  fix k t e
  assume "performs (Call a (\<lambda>r. case r of Done _ \<Rightarrow> k | Failed _ \<Rightarrow> S k)) t e"
  then consider (ok) n u where "t = (a, Done n) # u" "performs k u e"
    | (failed) err u where "t = (a, Failed err) # u" "performs (S k) u e"
    by (auto simp: performs_call)
  then show "e = Exited 255 \<and> (\<exists>d \<in> insert [d] D. prefix (done_calls sel t) d) \<or>
      (\<exists>u v. t = u @ v \<and> done_calls sel u \<in> insert [d] D \<and> performs k v e)"
  proof cases
    case ok
    then show ?thesis using assms(1) by (intro disjI2 exI [of _ "[(a, Done n)]"] exI [of _ u]) simp
  next
    case failed
    from addsD [OF assms(2) failed(2)] show ?thesis
    proof (elim disjE exE conjE)
      fix v w
      assume "u = v @ w" "done_calls sel v \<in> D" "performs k w e"
      then show ?thesis using failed(1) by (intro disjI2 exI [of _ "(a, Failed err) # v"] exI [of _ w]) simp
    qed (use failed(1) in auto)
  qed
qed simp

section \<open>What a whole tree does\<close>

text \<open>All its calls satisfy \<open>P\<close> and it ends in one of the outcomes \<open>E\<close>.\<close>

primrec stays :: "('a \<Rightarrow> bool) \<Rightarrow> outcome set \<Rightarrow> 'a prog \<Rightarrow> bool" where
  "stays P E (End c) \<longleftrightarrow> Exited c \<in> E"
| "stays P E (Exec argv p) \<longleftrightarrow> Running argv \<in> E \<and> stays P E p"
| "stays P E (Call a f) \<longleftrightarrow> P a \<and> (\<forall>r. stays P E (f r))"

lemma stays_performs: "stays P E p \<Longrightarrow> performs p t e \<Longrightarrow> e \<in> E \<and> (\<forall>(a, r) \<in> set t. P a)"
proof (induction p arbitrary: t)
  case (Call a f)
  from Call.prems obtain r u where "t = (a, r) # u" "performs (f r) u e" by (auto simp: performs_call)
  with Call.IH [OF rangeI _ \<open>performs (f r) u e\<close>] Call.prems(1) show ?case by auto
qed auto

lemma done_calls_none: "\<forall>(a, r) \<in> set t. sel a = None \<Longrightarrow> done_calls sel t = []"
  by (induction sel t rule: done_calls.induct) auto

text \<open>The exit status is the one that belongs to the last call and its answer, and 255 without any call.\<close>

primrec exit_ok :: "('a \<Rightarrow> answer \<Rightarrow> int) \<Rightarrow> 'a prog \<Rightarrow> int \<Rightarrow> bool" where
  "exit_ok status (End c) f \<longleftrightarrow> c = f"
| "exit_ok status (Exec argv p) f \<longleftrightarrow> f = 255 \<and> exit_ok status p f"
| "exit_ok status (Call a g) f \<longleftrightarrow> f = 255 \<and> (\<forall>r. exit_ok status (g r) (status a r))"

lemma exit_ok_performs:
  "exit_ok status p f \<Longrightarrow> performs p t (Exited c) \<Longrightarrow>
     c = (if t = [] then f else status (fst (last t)) (snd (last t)))"
proof (induction p arbitrary: t f)
  case (Call a g)
  from Call.prems obtain r u where t: "t = (a, r) # u" and u: "performs (g r) u (Exited c)" by (auto simp: performs_call)
  from Call.prems(1) have "exit_ok status (g r) (status a r)" by simp
  from Call.IH [OF rangeI this u] show ?case by (simp add: t)
next
  case (Exec argv p)
  from Exec.IH [of f t] Exec.prems show ?case by auto
qed auto

text \<open>Exit codes where one call, refused because of what exists, has its own.\<close>

definition create_code :: "'a \<Rightarrow> 'a \<Rightarrow> answer \<Rightarrow> int" where
  "create_code create a r = (if a = create \<and> r = Failed EEXIST then 254 else 255)"

named_theorems tree_simps

lemma all_answers: "(\<forall>r. Q r) \<longleftrightarrow> (\<forall>n. Q (Done n)) \<and> (\<forall>e. Q (Failed e))"
  by (metis answer.exhaust)

lemma stays_call [tree_simps]:
  "stays P E (Call a f) \<longleftrightarrow> P a \<and> (\<forall>n. stays P E (f (Done n))) \<and> (\<forall>e. stays P E (f (Failed e)))"
  by (simp add: all_answers)

lemma exit_ok_call [tree_simps]:
  "exit_ok status (Call a g) f \<longleftrightarrow>
     f = 255 \<and> (\<forall>n. exit_ok status (g (Done n)) (status a (Done n))) \<and> (\<forall>e. exit_ok status (g (Failed e)) (status a (Failed e)))"
  by (simp add: all_answers)

declare stays.simps(3) [simp del] exit_ok.simps(3) [simp del]

lemma stays_must [tree_simps]: "stays P E (must c a k) \<longleftrightarrow> P a \<and> stays P E k \<and> Exited c \<in> E"
  by (auto simp: must_def stays_call)

lemma stays_ignore [tree_simps]: "stays P E (ignore a k) \<longleftrightarrow> P a \<and> stays P E k"
  by (auto simp: ignore_def stays_call)

lemma stays_must_get [tree_simps]: "stays P E (must_get c a k) \<longleftrightarrow> P a \<and> (\<forall>n. stays P E (k n)) \<and> Exited c \<in> E"
  by (auto simp: must_get_def stays_call)

lemma exit_ok_must [tree_simps]:
  "(\<And>r. status a r = 255) \<Longrightarrow> exit_ok status (must c a k) f \<longleftrightarrow> f = 255 \<and> c = 255 \<and> exit_ok status k 255"
  by (auto simp: must_def exit_ok_call)

lemma exit_ok_ignore [tree_simps]:
  "(\<And>r. status a r = 255) \<Longrightarrow> exit_ok status (ignore a k) f \<longleftrightarrow> f = 255 \<and> exit_ok status k 255"
  by (auto simp: ignore_def exit_ok_call)

lemma exit_ok_when [tree_simps]:
  "exit_ok status (when_do b S k) f \<longleftrightarrow> (if b then exit_ok status (S k) f else exit_ok status k f)"
  by (simp add: when_do_def)

end
