(* ===== verification/ContextSync.thy ===== *)
theory ContextSync
  imports Process
begin

text \<open>
  The protocol of \<^verbatim>\<open>src/context-sync.hc\<close>, by which \<^verbatim>\<open>vcontext\<close>, \<^verbatim>\<open>ncontext\<close> and
  \<^verbatim>\<open>chcontext\<close> start a command in the background: the parent waits until it knows whether the command runs.
  Two pipes connect parent and child; both processes take steps in any order.
\<close>

section \<open>The child's side\<close>

text \<open>The calls of a child: those on the two pipes, and its own.\<close>

datatype 'a sync_action = Sync_read | Sync_write char | Act 'a

text \<open>\<open>doSyncStage0\<close>: wait for the parent; what was read is not looked at.\<close>

definition doSyncStage0 :: "bool \<Rightarrow> 'a sync_action prog \<Rightarrow> 'a sync_action prog" where
  "doSyncStage0 do_disconnect k = (if do_disconnect then must 255 Sync_read k else k)"

text \<open>
  \<open>doSyncStage1\<close>: leave the terminal, then tell the parent that the setup is done. The three calls are the
  argument; opening and duplicating \<^verbatim>\<open>/dev/null\<close> must succeed, \<^verbatim>\<open>setsid\<close> need not.
\<close>

definition doSyncStage1 :: "'a \<times> 'a \<times> 'a \<Rightarrow> bool \<Rightarrow> 'a sync_action prog \<Rightarrow> 'a sync_action prog" where
  "doSyncStage1 io do_disconnect k =
     (case io of (open_null, set_sid, dup_null) \<Rightarrow>
        if do_disconnect
        then must 255 (Act open_null) (ignore (Act set_sid) (must 255 (Act dup_null) (must 255 (Sync_write (CHR ''.'')) k)))
        else k)"

text \<open>\<open>doSyncStage2\<close>: the command could not be executed.\<close>

definition doSyncStage2 :: "bool \<Rightarrow> 'a sync_action prog \<Rightarrow> 'a sync_action prog" where
  "doSyncStage2 do_disconnect k = (if do_disconnect then must 255 (Sync_write (CHR ''X'')) k else k)"

text \<open>
  The order in which a child uses the pipes, that it executes the command \<open>argv\<close> or nothing, and that it never exits
  with 0.
\<close>

datatype stage = S_start | S_setup | S_ready | S_failed | S_over

primrec follows :: "cstr list \<Rightarrow> 'a sync_action prog \<Rightarrow> stage \<Rightarrow> bool" where
  "follows argv (End c) st \<longleftrightarrow> c \<noteq> 0 \<and> st \<noteq> S_ready \<and> st \<noteq> S_failed"
| "follows argv (Exec cmd p) st \<longleftrightarrow> cmd = argv \<and> st = S_ready \<and> follows argv p S_failed"
| "follows argv (Call a f) st \<longleftrightarrow>
     (case a of
        Sync_read \<Rightarrow> st = S_start \<and> (\<forall>n. follows argv (f (Done n)) S_setup)
      | Sync_write c \<Rightarrow>
          (if st = S_setup then \<forall>n. follows argv (f (Done n)) S_ready
           else st = S_failed \<and> (\<forall>n. follows argv (f (Done n)) S_over))
      | Act _ \<Rightarrow> st \<noteq> S_ready \<and> st \<noteq> S_failed \<and> (\<forall>r. follows argv (f r) st))"

section \<open>The two processes\<close>

datatype 'a child = C_run "'a sync_action prog" | C_command "cstr list" | C_exit int | C_killed

text \<open>
  The places of \<open>waitOnSync\<close>: before \<open>jailIntoTempDir\<close>, before the write, before the first and the second read,
  in \<open>vc_exitLikeProcess\<close>; and the ends: \<open>P_exit\<close> with a status, \<open>P_jail_failed\<close> with the
  status 255, \<open>P_killed\<close> by \<^verbatim>\<open>SIGPIPE\<close>.
\<close>

datatype parent = P_jail | P_write | P_read1 | P_read2 | P_like | P_exit int | P_jail_failed | P_killed

fun parent_ended :: "parent \<Rightarrow> bool" where
  "parent_ended (P_exit c) = True"
| "parent_ended P_jail_failed = True"
| "parent_ended P_killed = True"
| "parent_ended w = False"

fun child_gone :: "'a child \<Rightarrow> bool" where
  "child_gone (C_run p) = False"
| "child_gone c = True"

definition waitOnSync_start :: "bool \<Rightarrow> parent" where
  "waitOnSync_start is_prevent_race = (if is_prevent_race then P_jail else P_write)"

text \<open>
  A state: the child, the parent, what is in the pipe to the child and in the pipe to the parent. The child's end of the
  second pipe closes when it exits or executes the command; the parent's ends close when it ends.
\<close>

type_synonym 'a sync_state = "'a child \<times> parent \<times> char list \<times> char list"

inductive sync_step :: "'a sync_state \<Rightarrow> 'a sync_state \<Rightarrow> bool" where
  child_call: "sync_step (C_run (Call (Act a) f), w, p0, p1) (C_run (f r), w, p0, p1)"
| child_read: "sync_step (C_run (Call Sync_read f), w, c # p0, p1) (C_run (f (Done 1)), w, p0, p1)"
| child_read_eof: "parent_ended w \<Longrightarrow> sync_step (C_run (Call Sync_read f), w, [], p1) (C_run (f (Done 0)), w, [], p1)"
| child_write:
    "\<not> parent_ended w \<Longrightarrow> sync_step (C_run (Call (Sync_write c) f), w, p0, p1) (C_run (f (Done 1)), w, p0, p1 @ [c])"
| child_sigpipe: "parent_ended w \<Longrightarrow> sync_step (C_run (Call (Sync_write c) f), w, p0, p1) (C_killed, w, p0, p1)"
| child_exec: "sync_step (C_run (Exec argv p), w, p0, p1) (C_command argv, w, p0, p1)"
| child_exec_fails: "sync_step (C_run (Exec argv p), w, p0, p1) (C_run p, w, p0, p1)"
| child_exit: "sync_step (C_run (End c), w, p0, p1) (C_exit c, w, p0, p1)"
| parent_jail: "sync_step (ch, P_jail, p0, p1) (ch, P_write, p0, p1)"
| parent_jail_fails: "sync_step (ch, P_jail, p0, p1) (ch, P_jail_failed, p0, p1)"
| parent_write: "\<not> child_gone ch \<Longrightarrow> sync_step (ch, P_write, p0, p1) (ch, P_read1, p0 @ [CHR ''X''], p1)"
| parent_sigpipe: "child_gone ch \<Longrightarrow> sync_step (ch, P_write, p0, p1) (ch, P_killed, p0, p1)"
| parent_read1: "sync_step (ch, P_read1, p0, c # p1) (ch, P_read2, p0, p1)"
| parent_read1_eof: "child_gone ch \<Longrightarrow> sync_step (ch, P_read1, p0, []) (ch, P_like, p0, [])"
| parent_read2: "sync_step (ch, P_read2, p0, c # p1) (ch, P_like, p0, p1)"
| parent_read2_eof: "child_gone ch \<Longrightarrow> sync_step (ch, P_read2, p0, []) (ch, P_exit 0, p0, [])"
| parent_like: "sync_step (C_exit c, P_like, p0, p1) (C_exit c, P_exit c, p0, p1)"
| parent_like_signal: "sync_step (C_killed, P_like, p0, p1) (C_killed, P_killed, p0, p1)"

definition sync_start :: "'a sync_action prog \<Rightarrow> bool \<Rightarrow> 'a sync_state" where
  "sync_start p is_prevent_race = (C_run p, waitOnSync_start is_prevent_race, [], [])"

inductive_cases sync_stepE: "sync_step (ch, w, p0, p1) s"

section \<open>The invariant\<close>

fun run_inv :: "stage \<Rightarrow> parent \<Rightarrow> char list \<Rightarrow> char list \<Rightarrow> bool" where
  "run_inv st P_jail p0 p1 \<longleftrightarrow> st = S_start \<and> p0 = [] \<and> p1 = []"
| "run_inv st P_write p0 p1 \<longleftrightarrow> st = S_start \<and> p0 = [] \<and> p1 = []"
| "run_inv st P_read1 p0 p1 \<longleftrightarrow>
     (case st of
        S_start \<Rightarrow> length p0 = 1 \<and> p1 = []
      | S_setup \<Rightarrow> p0 = [] \<and> p1 = []
      | S_ready \<Rightarrow> p0 = [] \<and> length p1 = 1
      | S_failed \<Rightarrow> p0 = [] \<and> length p1 = 1
      | S_over \<Rightarrow> p0 = [] \<and> length p1 = 2)"
| "run_inv st P_read2 p0 p1 \<longleftrightarrow>
     p0 = [] \<and> ((st = S_ready \<or> st = S_failed) \<and> p1 = [] \<or> st = S_over \<and> length p1 = 1)"
| "run_inv st P_like p0 p1 \<longleftrightarrow> st = S_over"
| "run_inv st (P_exit c) p0 p1 \<longleftrightarrow> False"
| "run_inv st P_jail_failed p0 p1 \<longleftrightarrow> (st = S_start \<or> st = S_setup) \<and> p0 = []"
| "run_inv st P_killed p0 p1 \<longleftrightarrow> False"

fun exit_inv :: "int \<Rightarrow> parent \<Rightarrow> char list \<Rightarrow> bool" where
  "exit_inv c P_jail p1 \<longleftrightarrow> p1 = []"
| "exit_inv c P_write p1 \<longleftrightarrow> p1 = []"
| "exit_inv c P_read1 p1 \<longleftrightarrow> p1 = [] \<or> length p1 = 2"
| "exit_inv c P_read2 p1 \<longleftrightarrow> length p1 = 1"
| "exit_inv c (P_exit d) p1 \<longleftrightarrow> d = c"
| "exit_inv c w p1 \<longleftrightarrow> True"

fun sync_inv :: "cstr list \<Rightarrow> 'a sync_state \<Rightarrow> bool" where
  "sync_inv argv (C_run p, w, p0, p1) \<longleftrightarrow> (\<exists>st. follows argv p st \<and> run_inv st w p0 p1)"
| "sync_inv argv (C_exit c, w, p0, p1) \<longleftrightarrow> c \<noteq> 0 \<and> exit_inv c w p1"
| "sync_inv argv (C_command cmd, w, p0, p1) \<longleftrightarrow>
     cmd = argv \<and> (w = P_read1 \<and> length p1 = 1 \<or> w = P_read2 \<and> p1 = [] \<or> w = P_exit 0)"
| "sync_inv argv (C_killed, w, p0, p1) \<longleftrightarrow> w = P_jail_failed"

lemma sync_start_inv: "follows argv p S_start \<Longrightarrow> sync_inv argv (sync_start p b)"
  by (auto simp: sync_start_def waitOnSync_start_def)

lemma run_step_inv:
  assumes "sync_step (C_run p, w, p0, p1) s" "follows argv p st" "run_inv st w p0 p1"
  shows "sync_inv argv s"
  using assms
  by (cases rule: sync_step.cases) (cases w; cases st; auto simp: length_Suc_conv split: if_splits; fail)+

lemma gone_step_inv:
  assumes "sync_step (ch, w, p0, p1) s" "child_gone ch" "sync_inv argv (ch, w, p0, p1)"
  shows "sync_inv argv s"
  using assms by (cases rule: sync_step.cases) (cases ch; auto; fail)+

lemma sync_step_inv:
  assumes "sync_step s t" "sync_inv argv s"
  shows "sync_inv argv t"
proof -
  obtain ch w p0 p1 where s: "s = (ch, w, p0, p1)" by (cases s)
  show ?thesis
  proof (cases "child_gone ch")
    case True
    show ?thesis using assms(1) True assms(2) unfolding s by (rule gone_step_inv)
  next
    case False
    then obtain p where ch: "ch = C_run p" by (cases ch) auto
    from assms(2) obtain st where "follows argv p st" "run_inv st w p0 p1" unfolding s ch by auto
    with assms(1) show ?thesis unfolding s ch by (rule run_step_inv)
  qed
qed

lemma sync_reachable_inv:
  assumes "sync_step\<^sup>*\<^sup>* (sync_start p b) s" "follows argv p S_start"
  shows "sync_inv argv s"
  using assms(1)
proof (induction rule: rtranclp_induct)
  case base
  from assms(2) show ?case by (rule sync_start_inv)
next
  case (step s t)
  then show ?case by (auto intro: sync_step_inv)
qed

text \<open>What an end of the parent says of the child.\<close>

lemma sync_inv_ends:
  assumes "sync_inv argv (ch, w, p0, p1)"
  shows "w = P_exit 0 \<Longrightarrow> ch = C_command argv"
    and "w = P_exit c \<Longrightarrow> c \<noteq> 0 \<Longrightarrow> ch = C_exit c"
    and "w = P_jail_failed \<Longrightarrow> ch \<noteq> C_command cmd"
    and "w = P_killed \<Longrightarrow> \<exists>d. d \<noteq> 0 \<and> ch = C_exit d"
  using assms by (cases ch; auto)+

section \<open>The two processes end\<close>

text \<open>In a state with the invariant somebody can go on, unless both processes are through.\<close>

lemma sync_progress:
  assumes "sync_inv argv (ch, w, p0, p1)" "\<not> (parent_ended w \<and> child_gone ch)"
  shows "\<exists>s. sync_step (ch, w, p0, p1) s"
proof (cases ch)
  case (C_run p)
  show ?thesis
  proof (cases p)
    case (Call a f)
    from C_run Call assms(1) show ?thesis
      by (cases a; cases w; cases p0) (force intro: sync_step.intros)+
  qed (use C_run in \<open>blast intro: sync_step.intros\<close>)+
next
  case (C_command cmd)
  with assms have "w = P_read1 \<and> p1 \<noteq> [] \<or> w = P_read2 \<and> p1 = []" by auto
  then show ?thesis using C_command by (cases p1) (blast intro: sync_step.intros child_gone.simps [THEN iffD2])+
next
  case (C_exit c)
  then have "child_gone ch" by simp
  with assms C_exit show ?thesis by (cases w; cases p1) (blast intro: sync_step.intros | simp)+
next
  case C_killed
  with assms show ?thesis by auto
qed

text \<open>Every step takes the child down its tree, or the parent on in its list of places.\<close>

inductive_set subtree :: "('a prog \<times> 'a prog) set" where
  subtree_call: "(f r, Call a f) \<in> subtree"
| subtree_exec: "(p, Exec cmd p) \<in> subtree"

inductive_cases subtree_End: "(q, End c) \<in> subtree"
inductive_cases subtree_Exec: "(q, Exec cmd p) \<in> subtree"
inductive_cases subtree_Call: "(q, Call a f) \<in> subtree"

lemma wf_subtree: "wf (subtree :: ('a prog \<times> 'a prog) set)"
  unfolding wf_def
proof (intro allI impI)
  fix P :: "'a prog \<Rightarrow> bool" and p
  assume step: "\<forall>p. (\<forall>q. (q, p) \<in> subtree \<longrightarrow> P q) \<longrightarrow> P p"
  show "P p"
  proof (induction p)
    case (End c)
    show ?case by (rule step [rule_format]) (erule subtree_End)
  next
    case (Exec cmd p)
    show ?case by (rule step [rule_format]) (erule subtree_Exec, simp add: Exec.IH)
  next
    case (Call a f)
    show ?case by (rule step [rule_format]) (erule subtree_Call, simp add: Call.IH)
  qed
qed

definition child_order :: "('a child \<times> 'a child) set" where
  "child_order = {(C_run q, C_run p) |q p. (q, p) \<in> subtree} \<union> {(c, C_run p) |c p. child_gone c}"

lemma wf_child_order: "wf child_order"
  unfolding wf_def
proof (intro allI impI)
  fix P :: "'a child \<Rightarrow> bool" and ch
  assume step: "\<forall>x. (\<forall>y. (y, x) \<in> child_order \<longrightarrow> P y) \<longrightarrow> P x"
  have gone: "P c" if "child_gone c" for c
    using that by - (rule step [rule_format], auto simp: child_order_def)
  have "P (C_run p)" for p
    using wf_subtree
  proof (induction p rule: wf_induct_rule)
    case (less p)
    show ?case
    proof (rule step [rule_format])
      fix y
      assume "(y, C_run p) \<in> child_order"
      then consider q where "y = C_run q" "(q, p) \<in> subtree" | "child_gone y" unfolding child_order_def by blast
      then show "P y"
      proof cases
        case 1
        from less [OF 1(2)] show ?thesis unfolding 1(1) .
      qed (rule gone)
    qed
  qed
  with gone show "P ch" by (cases ch) auto
qed

fun parent_rank :: "parent \<Rightarrow> nat" where
  "parent_rank P_jail = 5"
| "parent_rank P_write = 4"
| "parent_rank P_read1 = 3"
| "parent_rank P_read2 = 2"
| "parent_rank P_like = 1"
| "parent_rank w = 0"

definition sync_order :: "('a sync_state \<times> 'a sync_state) set" where
  "sync_order = inv_image (child_order <*lex*> measure parent_rank) (\<lambda>(ch, w, p0, p1). (ch, w))"

lemma sync_step_order: "sync_step s t \<Longrightarrow> (t, s) \<in> sync_order"
  by (induction rule: sync_step.induct)
    (auto simp: sync_order_def child_order_def intro: subtree.intros)

lemma sync_terminates: "wf {(t, s). sync_step s t}"
proof (rule wf_subset)
  show "wf sync_order" by (simp add: sync_order_def wf_child_order wf_lex_prod)
  show "{(t, s). sync_step s t} \<subseteq> sync_order" by (auto intro: sync_step_order)
qed

section \<open>The stages of a program\<close>

named_theorems follows_simps

lemma follows_must [follows_simps]:
  "c \<noteq> 0 \<Longrightarrow> follows argv (must c (Act a) k) st \<longleftrightarrow> st \<noteq> S_ready \<and> st \<noteq> S_failed \<and> follows argv k st"
  by (auto simp: must_def split: answer.splits)

lemma follows_ignore [follows_simps]:
  "follows argv (ignore (Act a) k) st \<longleftrightarrow> st \<noteq> S_ready \<and> st \<noteq> S_failed \<and> follows argv k st"
  by (auto simp: ignore_def)

lemma follows_call [follows_simps]:
  "follows argv (Call (Act a) f) st \<longleftrightarrow>
     st \<noteq> S_ready \<and> st \<noteq> S_failed \<and> (\<forall>n. follows argv (f (Done n)) st) \<and> (\<forall>e. follows argv (f (Failed e)) st)"
  by (auto elim: answer.exhaust) (metis answer.exhaust)

lemma follows_when [follows_simps]:
  "follows argv (when_do b S k) st \<longleftrightarrow> (if b then follows argv (S k) st else follows argv k st)"
  by (simp add: when_do_def)

lemma follows_stage0 [follows_simps]:
  "follows argv (doSyncStage0 True k) S_start \<longleftrightarrow> follows argv k S_setup"
  by (auto simp: doSyncStage0_def must_def)

lemma follows_stage1 [follows_simps]:
  "follows argv (doSyncStage1 io True k) S_setup \<longleftrightarrow> follows argv k S_ready"
  by (auto simp: doSyncStage1_def follows_simps split: prod.splits) (auto simp: must_def)

lemma follows_stage2 [follows_simps]: "c \<noteq> 0 \<Longrightarrow> follows argv (doSyncStage2 True (End c)) S_failed"
  by (auto simp: doSyncStage2_def must_def)

declare follows.simps(3) [simp del]

section \<open>Steps of the wrappers\<close>

lemma step_must: "sync_step (C_run (must ec (Act a) k), w, p0, p1) (C_run k, w, p0, p1)"
  using child_call [of a "\<lambda>r. case r of Done _ \<Rightarrow> k | Failed _ \<Rightarrow> End ec" w p0 p1 "Done 0"] by (simp add: must_def)

lemma step_ignore: "sync_step (C_run (ignore (Act a) k), w, p0, p1) (C_run k, w, p0, p1)"
  using child_call [of a "\<lambda>_. k" w p0 p1 "Done 0"] by (simp add: ignore_def)

lemma step_read: "sync_step (C_run (must ec Sync_read k), w, c # p0, p1) (C_run k, w, p0, p1)"
  using child_read [of "\<lambda>r. case r of Done _ \<Rightarrow> k | Failed _ \<Rightarrow> End ec"] by (simp add: must_def)

lemma step_write: "\<not> parent_ended w \<Longrightarrow> sync_step (C_run (must ec (Sync_write c) k), w, p0, p1) (C_run k, w, p0, p1 @ [c])"
  using child_write [of w c "\<lambda>r. case r of Done _ \<Rightarrow> k | Failed _ \<Rightarrow> End ec"] by (simp add: must_def)

end
