(* ===== verification/Contexts.thy ===== *)
theory Contexts
  imports ContextSync Attributes SysCall
begin

text \<open>
  The programs \<^verbatim>\<open>vcontext\<close> and \<^verbatim>\<open>ncontext\<close>, which create or enter a context and execute a command in
  it. Each is split as in the code: the options, the checks of \<^verbatim>\<open>main\<close>, and the tree of calls that ends in the
  command. The options \<^verbatim>\<open>getopt_long\<close> finds are a list; messages on standard error are left out.
\<close>

datatype (plugins only: code size) ctx_call =
    Ctx_create xid_t | Ctx_migrate xid_t | Set_context_flags xid_t vc_ctx_flags
  | Net_create xid_t | Net_migrate xid_t
  | Tag_create xid_t | Tag_migrate xid_t
  | New_s_context xid_t u32 u32
  | Set_namespace xid_t u64 u32 | Enter_namespace xid_t u64 u32 | Unshare u64
  | Chroot cstr | Mkdir cstr | Pivot_root cstr cstr | Umount_detach cstr | Rmdir cstr
  | Initgroups cstr u32 | Setgid u32 | Setuid u32 | Getuid | Personality u32
  | Sethostname cstr | Setdomainname cstr
  | Socket_sync | Connect_sync cstr | Send_sync cstr | Shutdown_sync | Recv_sync | Close_sync
  | Close_fds | Open_null | Setsid | Dup_null | Print cstr
  | Isatty int | Tcgetattr | Tcsetattr_raw | Openpty | Fork | Set_ctty | Dup_slave int | Relay_terminal
  | Clone u32 | Exit_like_process int

abbreviation do_act :: "ctx_call \<Rightarrow> ctx_call sync_action prog \<Rightarrow> ctx_call sync_action prog" where
  "do_act a \<equiv> must 255 (Act a)"

abbreviation null_io :: "ctx_call \<times> ctx_call \<times> ctx_call" where
  "null_io \<equiv> (Open_null, Setsid, Dup_null)"

text \<open>
  What the programs read of the system: the contexts of the caller (\<^verbatim>\<open>VC_NOCTX\<close> when the kernel refuses), the
  contexts of configured vservers, the personalities of the system headers, whether dietlibc is the C library, the users it
  knows, and what the uninitialised \<^verbatim>\<open>res\<close> of \<^verbatim>\<open>parsePersonalityFlags\<close> holds.
\<close>

record ctx_host =
  ch_xid :: xid_t
  ch_nid :: xid_t
  ch_getctx :: "cstr \<Rightarrow> bool \<Rightarrow> vcCtxType \<Rightarrow> xid_t"
  ch_have :: "cstr \<Rightarrow> u32 option"
  ch_dietlibc :: bool
  ch_getpwnam :: "cstr \<Rightarrow> (u32 \<times> u32) option"
  ch_junk :: u32

text \<open>\<^verbatim>\<open>Evc_xidopt2xid\<close> and its siblings end the program with 255.\<close>

definition Eidopt :: "xid_t \<times> cstr option \<Rightarrow> (xid_t \<Rightarrow> 'a) \<Rightarrow> int + 'a" where
  "Eidopt res store = (if fst res = VC_NOCTX then Inl 255 else Inr (store (fst res)))"

section \<open>Steps shared by the programs\<close>

text \<open>
  \<open>connectExternalSync\<close> and \<open>doExternalSync\<close>: the socket is there iff a name was given, which is cut to the size of
  \<^verbatim>\<open>sun_path\<close>. After the message the other side must close without a word: \<^verbatim>\<open>recv\<close> yields 0.
\<close>

definition SUN_PATH_SIZE :: nat where "SUN_PATH_SIZE = 108"

definition connectExternalSync :: "cstr option \<Rightarrow> ctx_call sync_action prog \<Rightarrow> ctx_call sync_action prog" where
  "connectExternalSync filename k =
     (case filename of
        None \<Rightarrow> k
      | Some f \<Rightarrow> do_act Socket_sync (do_act (Connect_sync (take (SUN_PATH_SIZE - 1) f)) k))"

definition doExternalSync :: "cstr option \<Rightarrow> cstr \<Rightarrow> ctx_call sync_action prog \<Rightarrow> ctx_call sync_action prog" where
  "doExternalSync filename msg k =
     (if filename = None then k
      else
        do_act (Send_sync msg) (do_act Shutdown_sync
          (Call (Act Recv_sync) (\<lambda>r. if r = Done 0 then do_act Close_sync k else End 255))))"

definition tell :: "cstr \<Rightarrow> xid_t \<Rightarrow> bool \<Rightarrow> ctx_call sync_action prog \<Rightarrow> ctx_call sync_action prog" where
  "tell what ctx do_it =
     when_do do_it (ignore (Act (Print (what @ snd (the (fmt_int True (ucast ctx :: u64))) @ [NL]))))"

text \<open>The creation of a context, with the exit code 254 when it exists; the given one otherwise.\<close>

definition create_step ::
  "(xid_t \<Rightarrow> ctx_call) \<Rightarrow> cstr \<Rightarrow> bool \<Rightarrow> bool \<Rightarrow> xid_t \<Rightarrow> (xid_t \<Rightarrow> ctx_call sync_action prog) \<Rightarrow> ctx_call sync_action prog" where
  "create_step create what do_create loud ctx k =
     (if do_create
      then Call (Act (create ctx))
        (\<lambda>r. case r of
               Failed e \<Rightarrow> (if e = EEXIST then End 254 else End 255)
             | Done n \<Rightarrow> tell what (word_of_int n) loud (k (word_of_int n)))
      else k ctx)"

section \<open>vcontext\<close>

datatype (plugins only: code size) vcontext_opt =
    XHelp | XVersion | XCreate | XMigrate | XMigrateSelf | XInitpid | XEndsetup | XDisconnect | XSilent | XSilentexist
  | XXid cstr | XUid cstr | XChroot | XNamespace | XSyncsock cstr | XSyncmsg cstr | XPerstype cstr | XPersflag cstr
  | XVlogin | XPivotRoot | XClosefd | XOther

record vcontext_args =
  do_create :: bool
  do_migrate :: bool
  do_migrateself :: bool
  do_disconnect :: bool
  do_endsetup :: bool
  is_initpid :: bool
  is_silentexist :: bool
  set_namespace :: bool
  use_vlogin :: bool
  personality_flags :: u32
  personality_type :: u32
  verbosity :: int
  do_chroot :: bool
  do_pivot_root :: bool
  do_close_fd :: bool
  uid :: "cstr option"
  xid :: xid_t
  sync_sock :: "cstr option"
  sync_msg :: cstr

definition vcontext_init :: vcontext_args where
  "vcontext_init =
     \<lparr>do_create = False, do_migrate = False, do_migrateself = False, do_disconnect = False, do_endsetup = False,
      is_initpid = False, is_silentexist = False, set_namespace = False, use_vlogin = False,
      personality_flags = 0, personality_type = VC_BAD_PERSONALITY, verbosity = 1,
      do_chroot = False, do_pivot_root = False, do_close_fd = False, uid = None, xid = VC_DYNAMIC_XID,
      sync_sock = None, sync_msg = ''ok''\<rparr>"

definition parsePersonalityType :: "ctx_host \<Rightarrow> cstr \<Rightarrow> int + u32" where
  "parsePersonalityType h str =
     (let res = vc_str2personalitytype (ch_have h) str 0 in if res = VC_BAD_PERSONALITY then Inl 255 else Inr res)"

text \<open>The flags are added to what \<^verbatim>\<open>res\<close> held before.\<close>

definition parsePersonalityFlags :: "ctx_host \<Rightarrow> cstr \<Rightarrow> int + u32" where
  "parsePersonalityFlags h str =
     (case vc_list2personalityflag (ch_have h) str 0 (ch_junk h) of
        (Some err, _) \<Rightarrow> Inl 255
      | (None, res) \<Rightarrow> Inr res)"

fun vcontext_option :: "ctx_host \<Rightarrow> vcontext_opt \<Rightarrow> vcontext_args \<Rightarrow> int + vcontext_args" where
  "vcontext_option h XHelp a = Inl 0"
| "vcontext_option h XVersion a = Inl 0"
| "vcontext_option h XCreate a = Inr (a\<lparr>do_create := True\<rparr>)"
| "vcontext_option h XMigrate a = Inr (a\<lparr>do_migrate := True\<rparr>)"
| "vcontext_option h XDisconnect a = Inr (a\<lparr>do_disconnect := True\<rparr>)"
| "vcontext_option h XEndsetup a = Inr (a\<lparr>do_endsetup := True\<rparr>)"
| "vcontext_option h XVlogin a = Inr (a\<lparr>use_vlogin := True\<rparr>)"
| "vcontext_option h XInitpid a = Inr (a\<lparr>is_initpid := True\<rparr>)"
| "vcontext_option h XChroot a = Inr (a\<lparr>do_chroot := True\<rparr>)"
| "vcontext_option h XPivotRoot a = Inr (a\<lparr>do_pivot_root := True\<rparr>)"
| "vcontext_option h XNamespace a = Inr (a\<lparr>set_namespace := True\<rparr>)"
| "vcontext_option h XSilentexist a = Inr (a\<lparr>is_silentexist := True\<rparr>)"
| "vcontext_option h XClosefd a = Inr (a\<lparr>do_close_fd := True\<rparr>)"
| "vcontext_option h (XSyncsock s) a = Inr (a\<lparr>sync_sock := Some s\<rparr>)"
| "vcontext_option h (XSyncmsg s) a = Inr (a\<lparr>sync_msg := s\<rparr>)"
| "vcontext_option h (XUid s) a = Inr (a\<lparr>uid := Some s\<rparr>)"
| "vcontext_option h (XXid s) a =
     Eidopt (vc_xidopt2xid (ch_xid h) (ch_getctx h) s True) (\<lambda>x. a\<lparr>xid := x\<rparr>)"
| "vcontext_option h XSilent a = Inr (a\<lparr>verbosity := verbosity a - 1\<rparr>)"
| "vcontext_option h (XPerstype s) a =
     map_sum id (\<lambda>t. a\<lparr>personality_type := t\<rparr>) (parsePersonalityType h s)"
| "vcontext_option h (XPersflag s) a =
     map_sum id (\<lambda>f. a\<lparr>personality_flags := personality_flags a OR f\<rparr>) (parsePersonalityFlags h s)"
| "vcontext_option h XMigrateSelf a = Inr (a\<lparr>do_migrate := True, do_migrateself := True\<rparr>)"
| "vcontext_option h XOther a = Inl 255"

text \<open>\<open>Inl\<close> is an exit code; \<open>Inr\<close> are the arguments \<open>doit\<close> is called with.\<close>

definition vcontext_checks :: "vcontext_args \<Rightarrow> cstr list \<Rightarrow> int + vcontext_args" where
  "vcontext_checks a argv =
     (if \<not> do_create a \<and> \<not> do_migrate a then Inl 255
      else if do_create a \<and> do_migrate a then Inl 255
      else if \<not> do_migrate a \<and> is_initpid a then Inl 255
      else if \<not> do_create a \<and> xid a = VC_DYNAMIC_XID then Inl 255
      else if argv = [] then Inl 255
      else Inr a)"

definition vcontext_main :: "ctx_host \<Rightarrow> vcontext_opt list \<Rightarrow> cstr list \<Rightarrow> int + vcontext_args" where
  "vcontext_main h opts argv =
     (case run_options (vcontext_option h) opts vcontext_init of
        Inl c \<Rightarrow> Inl c
      | Inr a \<Rightarrow>
          if do_migrateself a
          then if ch_xid h = VC_NOCTX then Inl 255 else vcontext_checks (a\<lparr>xid := ch_xid h\<rparr>) argv
          else vcontext_checks a argv)"

text \<open>The child of \<open>doit\<close>, or the process itself without \<^verbatim>\<open>--disconnect\<close>.\<close>

definition SPACE_FS :: u64 where "SPACE_FS = CLONE_NEWNS OR CLONE_FS"

definition pivot_step :: "xid_t \<Rightarrow> ctx_call sync_action prog \<Rightarrow> ctx_call sync_action prog" where
  "pivot_step ctx k =
     Call (Act (Enter_namespace ctx SPACE_FS 1))
       (\<lambda>r. case r of
              Done _ \<Rightarrow> k
            | Failed _ \<Rightarrow>
                do_act (Unshare CLONE_NEWNS)
                  (Call (Act (Mkdir ''./.oldroot''))
                    (\<lambda>r. if (case r of Failed e \<Rightarrow> e \<noteq> EEXIST | Done _ \<Rightarrow> False) then End 255
                         else
                           do_act (Pivot_root ''.'' ''./.oldroot'')
                             (do_act (Umount_detach ''/.oldroot'')
                               (when_do (r \<noteq> Failed EEXIST) (do_act (Rmdir ''/.oldroot''))
                                 (do_act (Set_namespace ctx SPACE_FS 1) k))))))"

definition root_step :: "vcontext_args \<Rightarrow> xid_t \<Rightarrow> ctx_call sync_action prog \<Rightarrow> ctx_call sync_action prog" where
  "root_step a ctx k =
     (if do_chroot a
      then do_act (Chroot ''.'')
        (when_do (set_namespace a)
          (if do_migrateself a then do_act (Set_namespace ctx SPACE_FS 0)
           else when_do (do_migrate a) (do_act (Enter_namespace ctx SPACE_FS 0))) k)
      else when_do (do_pivot_root a) (pivot_step ctx) k)"

definition flags_mask :: "vcontext_args \<Rightarrow> u64" where
  "flags_mask a =
     (if is_initpid a then VC_VXF_STATE_INIT else 0) OR (if do_endsetup a then VC_VXF_STATE_SETUP else 0)"

definition vcontext_setFlags :: "vcontext_args \<Rightarrow> xid_t \<Rightarrow> ctx_call sync_action prog \<Rightarrow> ctx_call sync_action prog" where
  "vcontext_setFlags a ctx =
     when_do (flags_mask a \<noteq> 0) (do_act (Set_context_flags ctx \<lparr>cf_flagword = 0, cf_mask = flags_mask a\<rparr>))"

text \<open>The user: a number is cut to the width of \<^verbatim>\<open>uid_t\<close>; names are known with dietlibc only.\<close>

definition become_user :: "u32 \<Rightarrow> ctx_call sync_action prog \<Rightarrow> ctx_call sync_action prog" where
  "become_user u k =
     do_act (Setuid u) (Call (Act Getuid) (\<lambda>r. if r = Done (uint u) then k else End 255))"

definition uid_step :: "ctx_host \<Rightarrow> vcontext_args \<Rightarrow> ctx_call sync_action prog \<Rightarrow> ctx_call sync_action prog" where
  "uid_step h a k =
     (case uid a of
        None \<Rightarrow> k
      | Some name \<Rightarrow>
          (case isNumberUnsigned name False of
             Some n \<Rightarrow> become_user (word_of_int n) k
           | None \<Rightarrow>
               (if \<not> ch_dietlibc h then End 255
                else case ch_getpwnam h name of
                       None \<Rightarrow> End 255
                     | Some (u, g) \<Rightarrow> do_act (Initgroups name g) (do_act (Setgid g) (become_user u k)))))"

definition personality_step :: "vcontext_args \<Rightarrow> ctx_call sync_action prog \<Rightarrow> ctx_call sync_action prog" where
  "personality_step a =
     when_do (personality_type a \<noteq> VC_BAD_PERSONALITY)
       (do_act (Personality (personality_type a OR personality_flags a)))"

text \<open>
  \<open>do_vlogin\<close>: without a terminal the command is executed directly. Otherwise a forked child gets a new terminal and
  executes it, and the process relays between the two terminals until it exits with the status of the child; the loop of the
  relay is one call here.
\<close>

definition do_vlogin :: "cstr list \<Rightarrow> ctx_call sync_action prog \<Rightarrow> ctx_call sync_action prog" where
  "do_vlogin argv k =
     Call (Act (Isatty 0)) (\<lambda>r0. if r0 \<noteq> Done 1 then Exec argv k else
       Call (Act (Isatty 1)) (\<lambda>r1. if r1 \<noteq> Done 1 then Exec argv k else
         do_act Tcgetattr (do_act Tcsetattr_raw (must 1 (Act Openpty) (must_get 255 (Act Fork)
           (\<lambda>pid. if pid = 0
                  then do_act Setsid (do_act Set_ctty (do_act (Dup_slave 0) (do_act (Dup_slave 1) (do_act (Dup_slave 2)
                         (Exec argv (End 255))))))
                  else must_get 255 (Act Relay_terminal) End))))))"

definition run_step :: "vcontext_args \<Rightarrow> cstr list \<Rightarrow> ctx_call sync_action prog" where
  "run_step a argv =
     (let k = doSyncStage2 (do_disconnect a) (End 255) in if use_vlogin a then do_vlogin argv k else Exec argv k)"

definition context_steps ::
  "ctx_host \<Rightarrow> vcontext_args \<Rightarrow> xid_t \<Rightarrow> ctx_call sync_action prog \<Rightarrow> ctx_call sync_action prog" where
  "context_steps h a ctx k =
     root_step a ctx
       (vcontext_setFlags a ctx
         (when_do (do_migrate a \<and> \<not> do_migrateself a) (do_act (Ctx_migrate ctx))
           (uid_step h a (personality_step a (doExternalSync (sync_sock a) (sync_msg a) k)))))"

definition vcontext_child :: "ctx_host \<Rightarrow> vcontext_args \<Rightarrow> cstr list \<Rightarrow> ctx_call sync_action prog" where
  "vcontext_child h a argv =
     connectExternalSync (sync_sock a)
       (doSyncStage0 (do_disconnect a)
         (when_do (do_close_fd a) (ignore (Act Close_fds))
           (create_step Ctx_create ''New security context is '' (do_create a) (verbosity a \<ge> 1) (xid a)
             (\<lambda>ctx. context_steps h a ctx (doSyncStage1 null_io (do_disconnect a) (run_step a argv))))))"

text \<open>The race the parent prevents with \<open>jailIntoTempDir\<close>: somebody else in the context could trace it.\<close>

definition vcontext_race :: "vcontext_args \<Rightarrow> bool" where
  "vcontext_race a \<longleftrightarrow> xid a \<noteq> VC_DYNAMIC_XID \<and> do_migrate a"

section \<open>ncontext\<close>

datatype (plugins only: code size) ncontext_opt =
    NHelp | NVersion | NCreate | NMigrate | NMigrateSelf | NDisconnect | NSilent | NSilentexist
  | NNid cstr | NSyncsock cstr | NSyncmsg cstr | NOther

record ncontext_args =
  nc_create :: bool
  nc_migrate :: bool
  nc_migrateself :: bool
  nc_disconnect :: bool
  nc_silentexist :: bool
  nc_verbosity :: int
  nc_nid :: xid_t
  nc_sync_sock :: "cstr option"
  nc_sync_msg :: cstr

definition ncontext_init :: ncontext_args where
  "ncontext_init =
     \<lparr>nc_create = False, nc_migrate = False, nc_migrateself = False, nc_disconnect = False, nc_silentexist = False,
      nc_verbosity = 1, nc_nid = VC_DYNAMIC_XID, nc_sync_sock = None, nc_sync_msg = ''ok''\<rparr>"

fun ncontext_option :: "ctx_host \<Rightarrow> ncontext_opt \<Rightarrow> ncontext_args \<Rightarrow> int + ncontext_args" where
  "ncontext_option h NHelp a = Inl 0"
| "ncontext_option h NVersion a = Inl 0"
| "ncontext_option h NCreate a = Inr (a\<lparr>nc_create := True\<rparr>)"
| "ncontext_option h NMigrate a = Inr (a\<lparr>nc_migrate := True\<rparr>)"
| "ncontext_option h NDisconnect a = Inr (a\<lparr>nc_disconnect := True\<rparr>)"
| "ncontext_option h NSilentexist a = Inr (a\<lparr>nc_silentexist := True\<rparr>)"
| "ncontext_option h (NSyncsock s) a = Inr (a\<lparr>nc_sync_sock := Some s\<rparr>)"
| "ncontext_option h (NSyncmsg s) a = Inr (a\<lparr>nc_sync_msg := s\<rparr>)"
| "ncontext_option h (NNid s) a =
     Eidopt (vc_nidopt2nid (ch_nid h) (ch_getctx h) s True) (\<lambda>x. a\<lparr>nc_nid := x\<rparr>)"
| "ncontext_option h NSilent a = Inr (a\<lparr>nc_verbosity := nc_verbosity a - 1\<rparr>)"
| "ncontext_option h NMigrateSelf a = Inr (a\<lparr>nc_migrate := True, nc_migrateself := True\<rparr>)"
| "ncontext_option h NOther a = Inl 255"

definition ncontext_checks :: "ncontext_args \<Rightarrow> cstr list \<Rightarrow> int + ncontext_args" where
  "ncontext_checks a argv =
     (if \<not> nc_create a \<and> \<not> nc_migrate a then Inl 255
      else if nc_create a \<and> nc_migrate a then Inl 255
      else if \<not> nc_create a \<and> nc_nid a = VC_DYNAMIC_XID then Inl 255
      else if argv = [] then Inl 255
      else Inr a)"

definition ncontext_main :: "ctx_host \<Rightarrow> ncontext_opt list \<Rightarrow> cstr list \<Rightarrow> int + ncontext_args" where
  "ncontext_main h opts argv =
     (case run_options (ncontext_option h) opts ncontext_init of
        Inl c \<Rightarrow> Inl c
      | Inr a \<Rightarrow>
          if nc_migrateself a
          then if ch_nid h = VC_NOCTX then Inl 255 else ncontext_checks (a\<lparr>nc_nid := ch_nid h\<rparr>) argv
          else ncontext_checks a argv)"

definition ncontext_child :: "ncontext_args \<Rightarrow> cstr list \<Rightarrow> ctx_call sync_action prog" where
  "ncontext_child a argv =
     connectExternalSync (nc_sync_sock a)
       (doSyncStage0 (nc_disconnect a)
         (create_step Net_create ''New network context is '' (nc_create a) (nc_verbosity a \<ge> 1) (nc_nid a)
           (\<lambda>ctx. when_do (nc_migrate a \<and> \<not> nc_migrateself a) (do_act (Net_migrate ctx))
              (doExternalSync (nc_sync_sock a) (nc_sync_msg a)
                (doSyncStage1 null_io (nc_disconnect a)
                  (Exec argv (doSyncStage2 (nc_disconnect a) (End 255))))))))"

definition ncontext_race :: "ncontext_args \<Rightarrow> bool" where
  "ncontext_race a \<longleftrightarrow> nc_nid a \<noteq> VC_DYNAMIC_XID \<and> nc_migrate a"

end
