(* ===== verification/ContextTools.thy ===== *)
theory ContextTools
  imports Contexts
begin

text \<open>
  The other programs that start a command in a context: \<^verbatim>\<open>chcontext\<close> of the legacy interface,
  \<^verbatim>\<open>vtag\<close> for file system tags and \<^verbatim>\<open>vspace\<close> for name spaces.
\<close>

section \<open>chcontext\<close>

datatype (plugins only: code size) chcontext_opt =
    CHelp | CVersion | CDisconnect | CSilent | CDomainname cstr | CHostname cstr | CCap cstr | CSecure | CFlag cstr
  | CCtx cstr | COther

record chcontext_args =
  cc_ctxs :: "xid_t list"
  cc_disconnect :: bool
  cc_silent :: bool
  cc_flags :: u32
  cc_remove_caps :: u32
  cc_add_caps :: u32
  cc_hostname :: "cstr option"
  cc_domainname :: "cstr option"

definition chcontext_init :: chcontext_args where
  "chcontext_init =
     \<lparr>cc_ctxs = [], cc_disconnect = False, cc_silent = False, cc_flags = 0, cc_remove_caps = 0, cc_add_caps = 0,
      cc_hostname = None, cc_domainname = None\<rparr>"

definition DIM_OF_ctxs :: nat where "DIM_OF_ctxs = 16"

definition setCap :: "cstr \<Rightarrow> chcontext_args \<Rightarrow> int + chcontext_args" where
  "setCap str a =
     (if deref str \<noteq> CHR ''!''
      then (case vc_text2cap str of
              None \<Rightarrow> Inl 255
            | Some b \<Rightarrow> Inr (a\<lparr>cc_add_caps := cc_add_caps a OR push_bit b 1\<rparr>))
      else (case vc_text2cap (tl str) of
              None \<Rightarrow> Inl 255
            | Some b \<Rightarrow> Inr (a\<lparr>cc_remove_caps := cc_remove_caps a OR push_bit b 1\<rparr>)))"

text \<open>A list of flags replaces the one before.\<close>

definition chcontext_setFlags :: "cstr \<Rightarrow> chcontext_args \<Rightarrow> int + chcontext_args" where
  "chcontext_setFlags str a =
     (let (flags, err) = vc_list2cflag_compat str 0
      in if err \<noteq> None then Inl 255 else Inr (a\<lparr>cc_flags := flags\<rparr>))"

fun chcontext_option :: "ctx_host \<Rightarrow> kernel_info \<Rightarrow> chcontext_opt \<Rightarrow> chcontext_args \<Rightarrow> int + chcontext_args" where
  "chcontext_option h ki CHelp a = Inl 0"
| "chcontext_option h ki CVersion a = Inl 0"
| "chcontext_option h ki CDisconnect a = Inr (a\<lparr>cc_disconnect := True\<rparr>)"
| "chcontext_option h ki CSilent a = Inr (a\<lparr>cc_silent := True\<rparr>)"
| "chcontext_option h ki (CDomainname s) a = Inr (a\<lparr>cc_domainname := Some s\<rparr>)"
| "chcontext_option h ki (CHostname s) a = Inr (a\<lparr>cc_hostname := Some s\<rparr>)"
| "chcontext_option h ki (CCap s) a = setCap s a"
| "chcontext_option h ki CSecure a =
     Inr (a\<lparr>cc_remove_caps := cc_remove_caps a OR ucast (vc_get_insecurebcaps ki)\<rparr>)"
| "chcontext_option h ki (CFlag s) a = chcontext_setFlags s a"
| "chcontext_option h ki (CCtx s) a =
     (if length (cc_ctxs a) \<ge> DIM_OF_ctxs then Inl 255
      else Eidopt (vc_xidopt2xid (ch_xid h) (ch_getctx h) s True) (\<lambda>x. a\<lparr>cc_ctxs := cc_ctxs a @ [x]\<rparr>))"
| "chcontext_option h ki COther a = Inl 255"

definition setHostname :: "chcontext_args \<Rightarrow> ctx_call sync_action prog \<Rightarrow> ctx_call sync_action prog" where
  "setHostname a k =
     (case cc_hostname a of
        None \<Rightarrow> k
      | Some name \<Rightarrow>
          do_act (Sethostname name)
            (when_do (\<not> cc_silent a) (ignore (Act (Print (''Host name is now '' @ name @ [NL])))) k))"

definition setDomainname :: "chcontext_args \<Rightarrow> ctx_call sync_action prog \<Rightarrow> ctx_call sync_action prog" where
  "setDomainname a k =
     (case cc_domainname a of
        None \<Rightarrow> k
      | Some name \<Rightarrow>
          do_act (Setdomainname name)
            (when_do (\<not> cc_silent a) (ignore (Act (Print (''Domain name is now '' @ name @ [NL])))) k))"

text \<open>What \<open>main\<close> does to the arguments once the options are read.\<close>

definition chcontext_main :: "ctx_host \<Rightarrow> kernel_info \<Rightarrow> chcontext_opt list \<Rightarrow> cstr list \<Rightarrow> int + chcontext_args" where
  "chcontext_main h ki opts argv =
     (case run_options (chcontext_option h ki) opts chcontext_init of
        Inl c \<Rightarrow> Inl c
      | Inr a \<Rightarrow>
          if argv = [] then Inl 255
          else Inr (a\<lparr>cc_domainname := (if cc_domainname a = Some ''none'' then Some [] else cc_domainname a),
                      cc_ctxs := (if cc_ctxs a = [] then [VC_DYNAMIC_XID] else cc_ctxs a)\<rparr>))"

definition chcontext_child :: "chcontext_args \<Rightarrow> cstr list \<Rightarrow> ctx_call sync_action prog" where
  "chcontext_child a argv =
     (let xflags = cc_flags a AND S_CTX_INFO_INIT;
          flags = cc_flags a AND NOT S_CTX_INFO_INIT;
          ctx = hd (cc_ctxs a);
          remove = cc_remove_caps a AND NOT (cc_add_caps a)
      in doSyncStage0 (cc_disconnect a)
           (must_get 255 (Act (New_s_context ctx 0 flags))
             (\<lambda>newctx. setHostname a (setDomainname a
                (when_do (remove \<noteq> 0 \<or> xflags \<noteq> 0) (do_act (New_s_context VC_SAMECTX remove xflags))
                  (tell ''New security context is '' (if ctx = VC_DYNAMIC_XID then word_of_int newctx else ctx) (\<not> cc_silent a)
                    (doSyncStage1 null_io (cc_disconnect a)
                      (Exec argv (doSyncStage2 (cc_disconnect a) (End 255))))))))))"

definition chcontext_race :: "chcontext_args \<Rightarrow> bool" where
  "chcontext_race a \<longleftrightarrow> hd (cc_ctxs a) \<noteq> VC_DYNAMIC_XID"

section \<open>vtag\<close>

datatype (plugins only: code size) vtag_opt =
    THelp | TVersion | TCreate | TMigrate | TSilentexist | TTag cstr | TSilent | TOther

record vtag_args =
  vt_create :: bool
  vt_migrate :: bool
  vt_silentexist :: bool
  vt_verbosity :: int
  vt_tag :: xid_t

definition vtag_init :: vtag_args where
  "vtag_init =
     \<lparr>vt_create = False, vt_migrate = False, vt_silentexist = False, vt_verbosity = 1, vt_tag = VC_DYNAMIC_XID\<rparr>"

text \<open>\<open>task\<close> is \<^verbatim>\<open>vc_get_task_tag\<close> of the caller.\<close>

fun vtag_option :: "ctx_host \<Rightarrow> xid_t \<Rightarrow> vtag_opt \<Rightarrow> vtag_args \<Rightarrow> int + vtag_args" where
  "vtag_option h task THelp a = Inl 0"
| "vtag_option h task TVersion a = Inl 0"
| "vtag_option h task TCreate a = Inr (a\<lparr>vt_create := True\<rparr>)"
| "vtag_option h task TMigrate a = Inr (a\<lparr>vt_migrate := True\<rparr>)"
| "vtag_option h task TSilentexist a = Inr (a\<lparr>vt_silentexist := True\<rparr>)"
| "vtag_option h task (TTag s) a = Eidopt (vc_tagopt2tag task (ch_getctx h) s True) (\<lambda>x. a\<lparr>vt_tag := x\<rparr>)"
| "vtag_option h task TSilent a = Inr (a\<lparr>vt_verbosity := vt_verbosity a - 1\<rparr>)"
| "vtag_option h task TOther a = Inl 255"

definition vtag_doit :: "kernel_info \<Rightarrow> vtag_args \<Rightarrow> cstr list \<Rightarrow> ctx_call prog" where
  "vtag_doit ki a argv =
     (let run = Exec argv (End 255);
          migrate = (\<lambda>tag. when_do (vt_migrate a) (must 255 (Tag_migrate tag)) run)
      in if \<not> vc_isSupported ki vcFEATURE_PPTAG then if vt_verbosity a \<ge> 1 then End 255 else run
         else if vt_tag a = VC_DYNAMIC_XID then if vt_verbosity a \<ge> 1 then End 255 else run
         else if vt_create a
         then Call (Tag_create (vt_tag a))
                (\<lambda>r. case r of
                       Failed e \<Rightarrow> (if e = EEXIST then End 254 else End 255)
                     | Done tag \<Rightarrow> migrate (word_of_int tag))
         else migrate (vt_tag a))"

definition vtag :: "ctx_host \<Rightarrow> xid_t \<Rightarrow> kernel_info \<Rightarrow> vtag_opt list \<Rightarrow> cstr list \<Rightarrow> ctx_call prog" where
  "vtag h task ki opts argv =
     (case run_options (vtag_option h task) opts vtag_init of
        Inl c \<Rightarrow> End c
      | Inr a \<Rightarrow>
          if \<not> vt_create a \<and> \<not> vt_migrate a then End 255
          else if vt_create a \<and> vt_migrate a then End 255
          else if argv = [] then End 255
          else vtag_doit ki a argv)"

section \<open>vspace\<close>

text \<open>The spaces of the options; each also has a form with \<^verbatim>\<open>~\<close> that takes it away.\<close>

datatype space = Sp_mount | Sp_fs | Sp_ipc | Sp_uts | Sp_user | Sp_pid | Sp_net | Sp_default

datatype (plugins only: code size) vspace_opt =
    SHelp | SVersion | SNew | SSet | SEnter cstr | SIndex cstr | SMask cstr | SSpace bool space | SOther

record vspace_args =
  vs_new :: bool
  vs_enter :: bool
  vs_set :: bool
  vs_mask :: u64
  vs_index :: u32
  vs_xid :: xid_t

definition vspace_init :: vspace_args where
  "vspace_init = \<lparr>vs_new = False, vs_enter = False, vs_set = False, vs_mask = 0, vs_index = 0, vs_xid = VC_NOCTX\<rparr>"

text \<open>\<open>dflt\<close> and \<open>known\<close> are what the kernel answers for the default spaces and for all it knows; \<open>- 1\<close> is an error.\<close>

fun space_bits :: "u64 \<Rightarrow> u64 \<Rightarrow> space \<Rightarrow> u64" where
  "space_bits dflt known Sp_mount = CLONE_NEWNS"
| "space_bits dflt known Sp_fs = CLONE_FS"
| "space_bits dflt known Sp_ipc = CLONE_NEWIPC"
| "space_bits dflt known Sp_uts = CLONE_NEWUTS"
| "space_bits dflt known Sp_user = CLONE_NEWUSER"
| "space_bits dflt known Sp_pid = CLONE_NEWPID"
| "space_bits dflt known Sp_net = CLONE_NEWNET"
| "space_bits dflt known Sp_default = (if dflt = - 1 then if known = - 1 then 0 else known else dflt)"

record vspace_host =
  vh_ctx :: ctx_host
  vh_dflt :: u64
  vh_mask :: u64
  vh_ndebug :: bool

fun vspace_option :: "vspace_host \<Rightarrow> vspace_opt \<Rightarrow> vspace_args \<Rightarrow> int + vspace_args" where
  "vspace_option h SHelp a = Inl 0"
| "vspace_option h SVersion a = Inl 0"
| "vspace_option h SNew a = Inr (a\<lparr>vs_new := True\<rparr>)"
| "vspace_option h SSet a = Inr (a\<lparr>vs_set := True\<rparr>)"
| "vspace_option h (SEnter s) a =
     Eidopt (vc_xidopt2xid (ch_xid (vh_ctx h)) (ch_getctx (vh_ctx h)) s True) (\<lambda>x. a\<lparr>vs_enter := True, vs_xid := x\<rparr>)"
| "vspace_option h (SIndex s) a =
     (case isNumberUnsigned s True of None \<Rightarrow> Inl 255 | Some n \<Rightarrow> Inr (a\<lparr>vs_index := word_of_int n\<rparr>))"
| "vspace_option h (SMask s) a =
     (case isNumberUnsigned s True of None \<Rightarrow> Inl 255 | Some n \<Rightarrow> Inr (a\<lparr>vs_mask := word_of_int n\<rparr>))"
| "vspace_option h (SSpace away sp) a =
     (let bits = space_bits (vh_dflt h) (vh_mask h) sp
      in Inr (a\<lparr>vs_mask := (if away then vs_mask a AND NOT bits else vs_mask a OR bits)\<rparr>))"
| "vspace_option h SOther a = Inl 255"

definition SIGCHLD :: u32 where "SIGCHLD = 17"
definition CLONE_VFORK :: u32 where "CLONE_VFORK = 0x4000"

definition clone_flags :: "bool \<Rightarrow> u64 \<Rightarrow> u32" where
  "clone_flags ndebug spaces =
     ucast (spaces AND NOT CLONE_FS) OR (if ndebug then CLONE_VFORK OR SIGCHLD else SIGCHLD)"

text \<open>The parent of the clone waits for it and ends the way it does.\<close>

definition newSpaces :: "bool \<Rightarrow> u64 \<Rightarrow> ctx_call prog \<Rightarrow> ctx_call prog" where
  "newSpaces ndebug spaces k =
     must_get 255 (Clone (clone_flags ndebug spaces))
       (\<lambda>pid. if pid = 0 then k else must_get 255 (Exit_like_process pid) End)"

definition vspace_sum :: "vspace_args \<Rightarrow> nat" where
  "vspace_sum a = (if vs_new a then 1 else 0) + (if vs_enter a then 1 else 0) + (if vs_set a then 1 else 0)"

definition vspace :: "vspace_host \<Rightarrow> vspace_opt list \<Rightarrow> cstr list \<Rightarrow> ctx_call prog" where
  "vspace h opts argv =
     (case run_options (vspace_option h) opts vspace_init of
        Inl c \<Rightarrow> End c
      | Inr a \<Rightarrow>
          (let run = (if argv \<noteq> [] then Exec argv (End 255) else End 0)
           in if vspace_sum a = 0 then End 255
              else if vspace_sum a > 1 then End 255
              else if argv = [] \<and> (vs_new a \<or> vs_enter a) then End 255
              else if vs_new a then newSpaces (vh_ndebug h) (vs_mask a) run
              else if vs_set a then must 255 (Set_namespace VC_SAMECTX (vs_mask a) (vs_index a)) run
              else must 255 (Enter_namespace (vs_xid a) (vs_mask a) (vs_index a)) run))"

end
