(* ===== verification/ContextRuns.thy ===== *)
theory ContextRuns
  imports ContextTools
begin

text \<open>
  What the programs that start a command in a context guarantee: in which order the process is confined before the command
  runs, which exit code means what, and that a start in the background is reported truthfully.
\<close>

section \<open>The calls that confine the process\<close>

fun confines :: "ctx_call sync_action \<Rightarrow> ctx_call option" where
  "confines (Act (Ctx_create x)) = Some (Ctx_create x)"
| "confines (Act (Ctx_migrate x)) = Some (Ctx_migrate x)"
| "confines (Act (Net_create x)) = Some (Net_create x)"
| "confines (Act (Net_migrate x)) = Some (Net_migrate x)"
| "confines (Act (Set_context_flags x f)) = Some (Set_context_flags x f)"
| "confines (Act (Set_namespace x m i)) = Some (Set_namespace x m i)"
| "confines (Act (Enter_namespace x m i)) = Some (Enter_namespace x m i)"
| "confines (Act (Unshare m)) = Some (Unshare m)"
| "confines (Act (Chroot d)) = Some (Chroot d)"
| "confines (Act (Pivot_root a b)) = Some (Pivot_root a b)"
| "confines (Act (Umount_detach d)) = Some (Umount_detach d)"
| "confines (Act (Initgroups s g)) = Some (Initgroups s g)"
| "confines (Act (Setgid g)) = Some (Setgid g)"
| "confines (Act (Setuid u)) = Some (Setuid u)"
| "confines (Act (Personality p)) = Some (Personality p)"
| "confines _ = None"

text \<open>What a call of \<^verbatim>\<open>vcontext\<close> asks for. A new root by \<open>pivot_root\<close> comes in two ways.\<close>

definition opt_list :: "bool \<Rightarrow> 'a list \<Rightarrow> 'a list" where
  "opt_list b xs = (if b then xs else [])"

definition root_duties :: "vcontext_args \<Rightarrow> xid_t \<Rightarrow> ctx_call list set" where
  "root_duties a ctx =
     (if do_chroot a
      then {Chroot ''.'' #
            opt_list (set_namespace a)
              (if do_migrateself a then [Set_namespace ctx SPACE_FS 0]
               else opt_list (do_migrate a) [Enter_namespace ctx SPACE_FS 0])}
      else if do_pivot_root a
      then {[Enter_namespace ctx SPACE_FS 1],
            [Unshare CLONE_NEWNS, Pivot_root ''.'' ''./.oldroot'', Umount_detach ''/.oldroot'', Set_namespace ctx SPACE_FS 1]}
      else {[]})"

definition uid_duties :: "ctx_host \<Rightarrow> vcontext_args \<Rightarrow> ctx_call list" where
  "uid_duties h a =
     (case uid a of
        None \<Rightarrow> []
      | Some name \<Rightarrow>
          (case isNumberUnsigned name False of
             Some n \<Rightarrow> [Setuid (word_of_int n)]
           | None \<Rightarrow>
               (case ch_getpwnam h name of
                  None \<Rightarrow> []
                | Some (u, g) \<Rightarrow> opt_list (ch_dietlibc h) [Initgroups name g, Setgid g, Setuid u])))"

definition context_duties :: "ctx_host \<Rightarrow> vcontext_args \<Rightarrow> xid_t \<Rightarrow> ctx_call list set" where
  "context_duties h a ctx =
     {root @
      opt_list (flags_mask a \<noteq> 0) [Set_context_flags ctx \<lparr>cf_flagword = 0, cf_mask = flags_mask a\<rparr>] @
      opt_list (do_migrate a \<and> \<not> do_migrateself a) [Ctx_migrate ctx] @
      uid_duties h a @
      opt_list (personality_type a \<noteq> VC_BAD_PERSONALITY) [Personality (personality_type a OR personality_flags a)]
      |root. root \<in> root_duties a ctx}"

section \<open>What each step adds\<close>

lemma adds_do [adds_intros]:
  "confines (Act a) = Some d \<Longrightarrow> adds confines {[d]} (do_act a)"
  by (rule adds_must)

lemma adds_do_none [adds_intros]: "confines (Act a) = None \<Longrightarrow> adds confines {[]} (do_act a)"
  by (rule adds_must_none)

lemma adds_connect: "adds confines {[]} (connectExternalSync f)"
proof (cases f)
  case None
  then show ?thesis by (simp add: connectExternalSync_def [abs_def] adds_nothing)
next
  case (Some s)
  have "adds confines {[]} (\<lambda>k. do_act Socket_sync (do_act (Connect_sync (take (SUN_PATH_SIZE - 1) s)) k))"
    using adds_comp [OF adds_do_none [of Socket_sync] adds_do_none] by simp
  then show ?thesis by (simp add: Some connectExternalSync_def [abs_def])
qed

lemma adds_external: "adds confines {[]} (doExternalSync f msg)"
proof (cases f)
  case None
  then show ?thesis by (simp add: doExternalSync_def [abs_def] adds_nothing)
next
  case (Some s)
  have recv: "adds confines {[]} (\<lambda>k. Call (Act Recv_sync) (\<lambda>r. if r = Done 0 then do_act Close_sync k else End 255))"
    by (rule adds_call) (auto intro!: adds_if adds_do_none adds_stop)
  have "adds confines {[]} (doExternalSync (Some s) msg)"
    using adds_comp [OF adds_do_none [of "Send_sync msg"] adds_comp [OF adds_do_none [of Shutdown_sync] recv]]
    by (simp add: doExternalSync_def [abs_def])
  then show ?thesis by (simp add: Some)
qed

lemma adds_tell: "adds confines {[]} (tell what ctx b)"
  unfolding tell_def using adds_when [OF adds_ignore, of confines _ b] by simp

lemma adds_stage0: "adds confines {[]} (doSyncStage0 b)"
  unfolding doSyncStage0_def [abs_def] by (cases b) (simp_all add: adds_nothing adds_must_none)

lemma adds_pivot:
  "adds confines
     {[Enter_namespace ctx SPACE_FS 1],
      [Unshare CLONE_NEWNS, Pivot_root ''.'' ''./.oldroot'', Umount_detach ''/.oldroot'', Set_namespace ctx SPACE_FS 1]}
     (pivot_step ctx)"
proof -
  let ?move = "[Pivot_root ''.'' ''./.oldroot'', Umount_detach ''/.oldroot'', Set_namespace ctx SPACE_FS 1]"
  have move: "adds confines {?move}
      (\<lambda>k. do_act (Pivot_root ''.'' ''./.oldroot'') (do_act (Umount_detach ''/.oldroot'')
        (when_do b (do_act (Rmdir ''/.oldroot'')) (do_act (Set_namespace ctx SPACE_FS 1) k))))" for b
    using adds_comp [OF adds_do adds_comp [OF adds_do adds_comp [OF adds_when [OF adds_do_none, of "Rmdir ''/.oldroot''" b] adds_do]],
        of "Pivot_root ''.'' ''./.oldroot''" _ "Umount_detach ''/.oldroot''" _ "Set_namespace ctx SPACE_FS 1"]
    by simp
  have "adds confines {?move}
      (\<lambda>k. Call (Act (Mkdir ''./.oldroot''))
        (\<lambda>r. if (case r of Failed e \<Rightarrow> e \<noteq> EEXIST | Done _ \<Rightarrow> False) then End 255
             else do_act (Pivot_root ''.'' ''./.oldroot'') (do_act (Umount_detach ''/.oldroot'')
               (when_do (r \<noteq> Failed EEXIST) (do_act (Rmdir ''/.oldroot'')) (do_act (Set_namespace ctx SPACE_FS 1) k)))))"
    by (rule adds_call) (auto intro!: adds_if adds_stop move)
  from adds_either [OF _ adds_comp [OF adds_do [of "Unshare CLONE_NEWNS"] this],
      of "Act (Enter_namespace ctx SPACE_FS 1)" "Enter_namespace ctx SPACE_FS 1"]
  show ?thesis by (simp add: pivot_step_def [abs_def])
qed

lemma adds_root: "adds confines (root_duties a ctx) (root_step a ctx)"
proof (cases "do_chroot a")
  case True
  have "adds confines {opt_list (set_namespace a) (if do_migrateself a then [Set_namespace ctx SPACE_FS 0]
        else opt_list (do_migrate a) [Enter_namespace ctx SPACE_FS 0])}
      (when_do (set_namespace a) (if do_migrateself a then do_act (Set_namespace ctx SPACE_FS 0)
         else when_do (do_migrate a) (do_act (Enter_namespace ctx SPACE_FS 0))))"
    by (auto simp: when_do_def [abs_def] opt_list_def intro: adds_do adds_nothing)
  from adds_comp [OF adds_do [of "Chroot ''.''"] this] True show ?thesis
    by (simp add: root_step_def [abs_def] root_duties_def)
next
  case False
  then show ?thesis
    using adds_when [OF adds_pivot [of ctx], of "do_pivot_root a"]
    by (simp add: root_step_def [abs_def] root_duties_def)
qed

lemma adds_setFlags:
  "adds confines {opt_list (flags_mask a \<noteq> 0) [Set_context_flags ctx \<lparr>cf_flagword = 0, cf_mask = flags_mask a\<rparr>]}
     (vcontext_setFlags a ctx)"
  by (auto simp: vcontext_setFlags_def [abs_def] when_do_def [abs_def] opt_list_def intro: adds_do adds_nothing)

lemma adds_become: "adds confines {[Setuid u]} (become_user u)"
proof -
  have "adds confines {[]} (\<lambda>k. Call (Act Getuid) (\<lambda>r. if r = Done (uint u) then k else End 255))"
    by (rule adds_call) (auto intro!: adds_if adds_nothing adds_stop)
  from adds_comp [OF adds_do [of "Setuid u"] this] show ?thesis by (simp add: become_user_def [abs_def])
qed

lemma adds_uid: "adds confines {uid_duties h a} (uid_step h a)"
proof -
  have "adds confines {[Initgroups name g, Setgid g, Setuid u]}
      (\<lambda>k. do_act (Initgroups name g) (do_act (Setgid g) (become_user u k)))" for name g u
    using adds_comp [OF adds_do adds_comp [OF adds_do adds_become], of "Initgroups name g" _ "Setgid g"] by simp
  then show ?thesis
    by (cases "uid a"; cases "isNumberUnsigned (the (uid a)) False"; cases "ch_getpwnam h (the (uid a))"; cases "ch_dietlibc h")
      (auto simp: uid_step_def [abs_def] uid_duties_def opt_list_def intro!: adds_end adds_nothing adds_become)
qed

lemma adds_personality:
  "adds confines
     {opt_list (personality_type a \<noteq> VC_BAD_PERSONALITY) [Personality (personality_type a OR personality_flags a)]}
     (personality_step a)"
  by (auto simp: personality_step_def [abs_def] when_do_def [abs_def] opt_list_def intro: adds_do adds_nothing)

lemma adds_migrate:
  "adds confines {opt_list b [Ctx_migrate ctx]} (when_do b (do_act (Ctx_migrate ctx)))"
  by (auto simp: when_do_def [abs_def] opt_list_def intro: adds_do adds_nothing)

lemma adds_context: "adds confines (context_duties h a ctx) (context_steps h a ctx)"
  unfolding context_steps_def [abs_def]
  by (rule adds_mono, rule adds_comp [OF adds_root adds_comp [OF adds_setFlags adds_comp [OF adds_migrate
        adds_comp [OF adds_uid adds_comp [OF adds_personality adds_external]]]]])
    (auto simp: context_duties_def)

section \<open>vcontext confines the process before the command runs\<close>

lemma stays_end:
  "stays (\<lambda>c. confines c = None) ({Running argv} \<union> range Exited) (doSyncStage1 null_io d (run_step a argv))"
  by (auto simp: doSyncStage1_def run_step_def do_vlogin_def doSyncStage2_def Let_def tree_simps)

text \<open>
  C4. When \<^verbatim>\<open>vcontext\<close> comes to the command, it has confined itself exactly as asked and in the
  right order: with \<^verbatim>\<open>--create\<close> a context was created and everything else is about that one, otherwise
  about the given one; the successful confining calls of the run are, in this order, the creation, the new root (chroot with
  its name space, or one of the two ways of \<open>pivot_root\<close>), the flags, the migration, the user and the
  personality, each one iff it was asked for. Any refused call ends the program instead.\<close>

theorem vcontext_confined:
  assumes "performs (vcontext_child h a argv) t (Running cmd)"
  shows "cmd = argv \<and>
    (\<exists>ctx. (if do_create a then \<exists>n. (Act (Ctx_create (xid a)), Done n) \<in> set t \<and> ctx = word_of_int n else ctx = xid a) \<and>
       (\<exists>d \<in> context_duties h a ctx. done_calls confines t = opt_list (do_create a) [Ctx_create (xid a)] @ d))"
proof -
  let ?k = "\<lambda>ctx. context_steps h a ctx (doSyncStage1 null_io (do_disconnect a) (run_step a argv))"
  have close: "adds confines {[]} (when_do (do_close_fd a) (ignore (Act Close_fds)))"
    using adds_when [OF adds_ignore [of confines "Act Close_fds"], of "do_close_fd a"] by simp
  from addsD [OF adds_comp [OF adds_connect adds_comp [OF adds_stage0 close]]
      assms [unfolded vcontext_child_def]]
  obtain u v where t: "t = u @ v" and u: "done_calls confines u = []"
    and v: "performs (create_step Ctx_create ''New security context is '' (do_create a) (1 \<le> verbosity a) (xid a) ?k) v
      (Running cmd)" by auto
  have rest: "cmd = argv \<and> (\<exists>d \<in> context_duties h a ctx. done_calls confines w = d)"
    if "performs (?k ctx) w (Running cmd)" for ctx w
  proof -
    from addsD [OF adds_context that] obtain w1 w2 where w: "w = w1 @ w2" "done_calls confines w1 \<in> context_duties h a ctx"
      and fin: "performs (doSyncStage1 null_io (do_disconnect a) (run_step a argv)) w2 (Running cmd)" by auto
    from stays_performs [OF stays_end fin] done_calls_none [of w2 confines] w show ?thesis by auto
  qed
  show ?thesis
  proof (cases "do_create a")
    case False
    with v rest [of "xid a" v] show ?thesis by (simp add: create_step_def opt_list_def t u)
  next
    case True
    with v obtain n w where vw: "v = (Act (Ctx_create (xid a)), Done n) # w"
      and "performs (tell ''New security context is '' (word_of_int n) (1 \<le> verbosity a) (?k (word_of_int n))) w (Running cmd)"
      by (auto simp: create_step_def performs_call split: if_splits)
    from addsD [OF adds_tell this(2)]
    obtain w1 w2 where "w = w1 @ w2" "done_calls confines w1 = []" "performs (?k (word_of_int n)) w2 (Running cmd)"
      by (auto split: if_splits)
    with rest [of "word_of_int n" w2] True show ?thesis by (auto simp: opt_list_def t u vw)
  qed
qed

theorem vcontext_confined_witness:
  "\<forall>h. \<exists>a t. vcontext_main h [XCreate, XSilent, XChroot] [''sh''] = Inr a \<and>
     performs (vcontext_child h a [''sh'']) t (Running [''sh'']) \<and>
     (\<exists>d \<in> context_duties h a 7. done_calls confines t = Ctx_create (- 1) # d)"
proof
  fix h
  let ?a = "vcontext_init\<lparr>do_create := True, verbosity := 0, do_chroot := True\<rparr>"
  let ?t = "[(Act (Ctx_create (- 1)), Done 7), (Act (Chroot ''.''), Done 0)]"
  have main: "vcontext_main h [XCreate, XSilent, XChroot] [''sh''] = Inr ?a"
    by (simp add: vcontext_main_def vcontext_checks_def vcontext_init_def)
  have run: "performs (vcontext_child h ?a [''sh'']) ?t (Running [''sh''])"
    by (simp add: vcontext_child_def vcontext_init_def connectExternalSync_def doSyncStage0_def create_step_def tell_def
        context_steps_def root_step_def vcontext_setFlags_def flags_mask_def uid_step_def personality_step_def
        doExternalSync_def doSyncStage1_def run_step_def when_do_def performs_simps VC_DYNAMIC_XID_def)
  have "\<exists>d \<in> context_duties h ?a 7. done_calls confines ?t = Ctx_create (- 1) # d"
    using vcontext_confined [OF run] by (auto simp: vcontext_init_def opt_list_def VC_DYNAMIC_XID_def)
  with main run
  show "\<exists>a t. vcontext_main h [XCreate, XSilent, XChroot] [''sh''] = Inr a \<and>
     performs (vcontext_child h a [''sh'']) t (Running [''sh'']) \<and>
     (\<exists>d \<in> context_duties h a 7. done_calls confines t = Ctx_create (- 1) # d)" by blast
qed

section \<open>Exit codes\<close>

text \<open>The calls that can have an exit code of their own; the codes with a terminal.\<close>

fun special :: "ctx_call sync_action \<Rightarrow> bool" where
  "special (Act (Ctx_create x)) = True"
| "special (Act (Net_create x)) = True"
| "special (Act Openpty) = True"
| "special (Act Relay_terminal) = True"
| "special c = False"

definition usual :: "(ctx_call sync_action \<Rightarrow> answer \<Rightarrow> int) \<Rightarrow> bool" where
  "usual status \<longleftrightarrow> (\<forall>a r. \<not> special a \<longrightarrow> status a r = 255)"

fun terminal_code :: "ctx_call sync_action \<Rightarrow> answer \<Rightarrow> int" where
  "terminal_code (Act Openpty) (Failed e) = 1"
| "terminal_code (Act Relay_terminal) (Done n) = n"
| "terminal_code a r = 255"

definition vcontext_code :: "vcontext_args \<Rightarrow> ctx_call sync_action \<Rightarrow> answer \<Rightarrow> int" where
  "vcontext_code a call r =
     (if call = Act (Ctx_create (xid a)) \<and> r = Failed EEXIST then 254 else if use_vlogin a then terminal_code call r else 255)"

lemma usualD [tree_simps]: "usual status \<Longrightarrow> \<not> special a \<Longrightarrow> status a r = 255"
  by (simp add: usual_def)

lemma usual_codes: "usual (vcontext_code a)" "usual (create_code (Act (Ctx_create x)))" "usual (create_code (Act (Net_create x)))"
proof -
  have "terminal_code c r = 255" if "\<not> special c" for c r
    using that by (cases "(c, r)" rule: terminal_code.cases) auto
  then show "usual (vcontext_code a)" by (auto simp: usual_def vcontext_code_def)
qed (auto simp: usual_def create_code_def)

lemma exit_ok_connect: "usual status \<Longrightarrow> exit_ok status k 255 \<Longrightarrow> exit_ok status (connectExternalSync f k) 255"
  by (auto simp: connectExternalSync_def tree_simps split: option.splits)

lemma exit_ok_external: "usual status \<Longrightarrow> exit_ok status k 255 \<Longrightarrow> exit_ok status (doExternalSync f msg k) 255"
  by (auto simp: doExternalSync_def tree_simps)

lemma exit_ok_stage0: "usual status \<Longrightarrow> exit_ok status k 255 \<Longrightarrow> exit_ok status (doSyncStage0 d k) 255"
  by (auto simp: doSyncStage0_def tree_simps)

lemma exit_ok_stage1: "usual status \<Longrightarrow> exit_ok status k 255 \<Longrightarrow> exit_ok status (doSyncStage1 null_io d k) 255"
  by (auto simp: doSyncStage1_def tree_simps)

lemma exit_ok_exec: "usual status \<Longrightarrow> exit_ok status (Exec argv (doSyncStage2 d (End 255))) 255"
  by (auto simp: doSyncStage2_def tree_simps)

lemma exit_ok_create:
  "\<lbrakk>usual status; \<And>n. status (Act (create ctx)) (Done n) = 255; \<And>e. status (Act (create ctx)) (Failed e) = (if e = EEXIST then 254 else 255);
    \<And>x. exit_ok status (k x) 255\<rbrakk> \<Longrightarrow> exit_ok status (create_step create what b loud ctx k) 255"
  by (auto simp: create_step_def tell_def tree_simps)

lemma exit_ok_root: "usual status \<Longrightarrow> exit_ok status k 255 \<Longrightarrow> exit_ok status (root_step a ctx k) 255"
  by (auto simp: root_step_def pivot_step_def tree_simps)

lemma exit_ok_uid: "usual status \<Longrightarrow> exit_ok status k 255 \<Longrightarrow> exit_ok status (uid_step h a k) 255"
  by (auto simp: uid_step_def become_user_def tree_simps split: option.splits)

lemma exit_ok_context: "usual status \<Longrightarrow> exit_ok status k 255 \<Longrightarrow> exit_ok status (context_steps h a ctx k) 255"
  unfolding context_steps_def
  by (intro exit_ok_root) (auto simp: vcontext_setFlags_def personality_step_def tree_simps
      intro!: exit_ok_uid exit_ok_external)

lemmas exit_ok_steps =
  exit_ok_connect exit_ok_external exit_ok_stage0 exit_ok_stage1 exit_ok_exec exit_ok_create exit_ok_context

lemma exit_ok_vlogin:
  assumes "use_vlogin a" "exit_ok (vcontext_code a) k 255"
  shows "exit_ok (vcontext_code a) (do_vlogin argv k) 255"
proof -
  have "vcontext_code a (Act Openpty) (Failed e) = 1" "vcontext_code a (Act Openpty) (Done n) = 255"
    "vcontext_code a (Act Relay_terminal) (Done n) = n" "vcontext_code a (Act Relay_terminal) (Failed e) = 255" for e n
    using assms(1) by (simp_all add: vcontext_code_def)
  then show ?thesis
    using assms(2) usual_codes(1) [of a] by (auto simp: do_vlogin_def must_def must_get_def tree_simps)
qed

lemma vcontext_exit_ok: "exit_ok (vcontext_code a) (vcontext_child h a argv) 255"
proof -
  have "exit_ok (vcontext_code a) (run_step a argv) 255"
  proof (cases "use_vlogin a")
    case True
    have "exit_ok (vcontext_code a) (doSyncStage2 (do_disconnect a) (End 255)) 255"
      using exit_ok_exec [OF usual_codes(1), of a argv "do_disconnect a"] by simp
    then show ?thesis using True exit_ok_vlogin by (simp add: run_step_def)
  qed (simp add: run_step_def Let_def exit_ok_exec [OF usual_codes(1)] del: exit_ok.simps)
  then show ?thesis
    unfolding vcontext_child_def
    by (intro exit_ok_connect exit_ok_stage0)
      (auto simp: usual_codes tree_simps vcontext_code_def [of a "Act (Ctx_create (xid a))"] intro!: exit_ok_steps)
qed

lemma ncontext_exit_ok: "exit_ok (create_code (Act (Net_create (nc_nid a)))) (ncontext_child a argv) 255"
  unfolding ncontext_child_def
  by (intro exit_ok_connect exit_ok_stage0)
    (auto simp: usual_codes tree_simps create_code_def [of "Act (Net_create (nc_nid a))" "Act (Net_create (nc_nid a))"] intro!: exit_ok_steps)

lemma vtag_exit_ok: "exit_ok (create_code (Tag_create (vt_tag a))) (vtag_doit ki a argv) 255"
  by (auto simp: vtag_doit_def Let_def tree_simps create_code_def)



section \<open>The start in the background\<close>

lemma follows_connect [follows_simps]: "follows argv k S_start \<Longrightarrow> follows argv (connectExternalSync f k) S_start"
  by (auto simp: connectExternalSync_def follows_simps split: option.splits)

lemma follows_external [follows_simps]: "follows argv k S_setup \<Longrightarrow> follows argv (doExternalSync f msg k) S_setup"
  by (auto simp: doExternalSync_def follows_simps)

lemma follows_create [follows_simps]:
  "(\<And>x. follows argv (k x) S_setup) \<Longrightarrow> follows argv (create_step create what b loud ctx k) S_setup"
  by (auto simp: create_step_def tell_def follows_simps)

lemma follows_root: "follows argv k S_setup \<Longrightarrow> follows argv (root_step a ctx k) S_setup"
  by (auto simp: root_step_def pivot_step_def follows_simps)

lemma follows_uid: "follows argv k S_setup \<Longrightarrow> follows argv (uid_step h a k) S_setup"
  by (auto simp: uid_step_def become_user_def follows_simps split: option.splits)

lemma follows_context: "follows argv k S_setup \<Longrightarrow> follows argv (context_steps h a ctx k) S_setup"
  unfolding context_steps_def
  by (intro follows_root) (auto simp: vcontext_setFlags_def personality_step_def follows_simps
      intro!: follows_uid follows_external)

lemma vcontext_follows:
  "do_disconnect a \<Longrightarrow> \<not> use_vlogin a \<Longrightarrow> follows argv (vcontext_child h a argv) S_start"
  by (auto simp: vcontext_child_def run_step_def follows_simps intro!: follows_connect follows_create follows_context)

lemma ncontext_follows: "nc_disconnect a \<Longrightarrow> follows argv (ncontext_child a argv) S_start"
  by (auto simp: ncontext_child_def follows_simps intro!: follows_connect follows_create follows_external)

lemma chcontext_follows: "cc_disconnect a \<Longrightarrow> follows argv (chcontext_child a argv) S_start"
  by (auto simp: chcontext_child_def setHostname_def setDomainname_def tell_def Let_def must_get_def follows_simps
      split: option.splits)

text \<open>The programs with their arguments, and whether the parent leaves to a jail first.\<close>

inductive background :: "ctx_call sync_action prog \<Rightarrow> bool \<Rightarrow> cstr list \<Rightarrow> bool" where
  bg_vcontext: "do_disconnect a \<Longrightarrow> \<not> use_vlogin a \<Longrightarrow> background (vcontext_child h a argv) (vcontext_race a) argv"
| bg_ncontext: "nc_disconnect a \<Longrightarrow> background (ncontext_child a argv) (ncontext_race a) argv"
| bg_chcontext: "cc_disconnect a \<Longrightarrow> background (chcontext_child a argv) (chcontext_race a) argv"

lemma background_follows: "background p race argv \<Longrightarrow> follows argv p S_start"
  by (induction rule: background.induct) (auto intro: vcontext_follows ncontext_follows chcontext_follows)

text \<open>
  C3. The start in the background (\<^verbatim>\<open>--disconnect\<close> of \<^verbatim>\<open>vcontext\<close>,
  \<^verbatim>\<open>ncontext\<close> and \<^verbatim>\<open>chcontext\<close>) is reported truthfully, for every interleaving
  of parent and child and all answers of the kernel: the parent exits with 0 only if the child runs the given command; it
  exits with another code only if the child exited with that code; and when it could not leave to the temporary directory,
  or was killed by \<^verbatim>\<open>SIGPIPE\<close>, the command does not run.\<close>

theorem background_truthful:
  assumes "background p race argv" "sync_step\<^sup>*\<^sup>* (sync_start p race) (ch, w, p0, p1)"
  shows "(w = P_exit 0 \<longrightarrow> ch = C_command argv) \<and>
    (\<forall>c. c \<noteq> 0 \<longrightarrow> w = P_exit c \<longrightarrow> ch = C_exit c) \<and>
    (w = P_jail_failed \<longrightarrow> (\<forall>cmd. ch \<noteq> C_command cmd)) \<and>
    (w = P_killed \<longrightarrow> (\<exists>c. c \<noteq> 0 \<and> ch = C_exit c))"
  using sync_inv_ends [OF sync_reachable_inv [OF assms(2) background_follows [OF assms(1)]]] by blast

text \<open>
  C13. The start in the background ends: no run is infinite, and as long as the parent has not
  ended or the child neither runs the command nor ended, one of them can go on; the two never wait for each other.\<close>

theorem background_ends:
  assumes "background p race argv"
  shows "wf {(t, s). sync_step s t \<and> sync_step\<^sup>*\<^sup>* (sync_start p race) s} \<and>
    (\<forall>ch w p0 p1. sync_step\<^sup>*\<^sup>* (sync_start p race) (ch, w, p0, p1) \<longrightarrow>
       (\<nexists>s. sync_step (ch, w, p0, p1) s) \<longrightarrow> parent_ended w \<and> child_gone ch)"
proof (intro conjI allI impI)
  show "wf {(t, s). sync_step s t \<and> sync_step\<^sup>*\<^sup>* (sync_start p race) s}"
    by (rule wf_subset [OF sync_terminates]) auto
next
  fix ch w p0 p1
  assume run: "sync_step\<^sup>*\<^sup>* (sync_start p race) (ch, w, p0, p1)" and stuck: "\<nexists>s. sync_step (ch, w, p0, p1) s"
  from sync_reachable_inv [OF run background_follows [OF assms]] have "sync_inv argv (ch, w, p0, p1)" .
  from sync_progress [OF this] stuck show "parent_ended w" "child_gone ch" by blast+
qed

text \<open>A run in the background: \<^verbatim>\<open>ncontext --disconnect --migrate-self\<close> in the network context 5.\<close>

definition bg_args :: ncontext_args where
  "bg_args = ncontext_init\<lparr>nc_disconnect := True, nc_migrate := True, nc_migrateself := True, nc_nid := 5\<rparr>"

lemma bg_args_background: "background (ncontext_child bg_args [''sh'']) True [''sh'']"
proof -
  have "ncontext_race bg_args" by (simp add: ncontext_race_def bg_args_def VC_DYNAMIC_XID_def)
  then show ?thesis using bg_ncontext [of bg_args "[''sh'']"] by (simp add: bg_args_def)
qed

lemma bg_args_run:
  "sync_step\<^sup>*\<^sup>* (sync_start (ncontext_child bg_args [''sh'']) True) (C_command [''sh''], P_exit 0, [], [])"
proof -
  let ?cmd = "Exec [''sh''] (doSyncStage2 True (End 255))"
  let ?dot = "must 255 (Sync_write CHR ''.'') ?cmd"
  let ?prep = "must 255 (Act Open_null) (ignore (Act Setsid) (must 255 (Act Dup_null) ?dot))"
  have child: "ncontext_child bg_args [''sh''] = must 255 Sync_read ?prep"
    by (simp add: ncontext_child_def bg_args_def ncontext_init_def connectExternalSync_def doSyncStage0_def create_step_def
        when_do_def doExternalSync_def doSyncStage1_def)
  have "sync_step (C_run (must 255 Sync_read ?prep), P_write, [], []) (C_run (must 255 Sync_read ?prep), P_read1, ''X'', [])"
    using parent_write [of "C_run (must 255 Sync_read ?prep)" "[]" "[]"] by simp
  then have 1: "sync_step\<^sup>*\<^sup>* (C_run (must 255 Sync_read ?prep), P_jail, [], []) (C_run ?prep, P_read1, [], [])"
    using parent_jail step_read by (meson converse_rtranclp_into_rtranclp rtranclp.rtrancl_refl)
  have 2: "sync_step\<^sup>*\<^sup>* (C_run ?prep, P_read1, [], []) (C_run ?dot, P_read1, [], [])"
    using step_must step_ignore by (meson converse_rtranclp_into_rtranclp rtranclp.rtrancl_refl)
  have "sync_step (C_run ?dot, P_read1, [], []) (C_run ?cmd, P_read1, [], ''.'')"
    using step_write [of P_read1 255 "CHR ''.''" ?cmd "[]" "[]"] by simp
  moreover have "sync_step (C_command [''sh''], P_read2, [], []) (C_command [''sh''], P_exit 0, [], [])"
    by (rule parent_read2_eof) simp
  ultimately have "sync_step\<^sup>*\<^sup>* (C_run ?dot, P_read1, [], []) (C_command [''sh''], P_exit 0, [], [])"
    using parent_read1 child_exec by (meson converse_rtranclp_into_rtranclp rtranclp.rtrancl_refl)
  with 1 2 show ?thesis unfolding sync_start_def waitOnSync_start_def child by (auto intro: rtranclp_trans)
qed

theorem background_truthful_witness:
  "\<exists>ch. sync_step\<^sup>*\<^sup>* (sync_start (ncontext_child bg_args [''sh'']) True) (ch, P_exit 0, [], []) \<and>
     ch = C_command [''sh'']"
  using background_truthful [OF bg_args_background bg_args_run] bg_args_run by blast

theorem background_ends_witness:
  "\<nexists>run :: nat \<Rightarrow> ctx_call sync_state. run 0 = sync_start (ncontext_child bg_args [''sh'']) True \<and>
     (\<forall>i. sync_step (run i) (run (Suc i)))"
proof
  let ?R = "{(t, s). sync_step s t \<and> sync_step\<^sup>*\<^sup>* (sync_start (ncontext_child bg_args [''sh'']) True) s}"
  assume "\<exists>run. run 0 = sync_start (ncontext_child bg_args [''sh'']) True \<and> (\<forall>i. sync_step (run i) (run (Suc i)))"
  then obtain run where run: "run 0 = sync_start (ncontext_child bg_args [''sh'']) True"
    "\<And>i. sync_step (run i) (run (Suc i))" by blast
  have "sync_step\<^sup>*\<^sup>* (run 0) (run i)" for i
    by (induction i) (auto intro: run(2) rtranclp.rtrancl_into_rtrancl)
  then have "(run (Suc i), run i) \<in> ?R" for i using run by simp
  moreover from background_ends [OF bg_args_background] have "wf ?R" by blast
  ultimately show False by (auto simp: wf_iff_no_infinite_down_chain)
qed

section \<open>chcontext takes the right capabilities\<close>

lemma setCap_bits:
  assumes "setCap s a = Inr b"
  shows "bit (cc_add_caps b) n \<longleftrightarrow>
      bit (cc_add_caps a) n \<or> n < 32 \<and> deref s \<noteq> CHR ''!'' \<and> vc_text2cap s = Some n"
    and "bit (cc_remove_caps b) n \<longleftrightarrow>
      bit (cc_remove_caps a) n \<or> n < 32 \<and> deref s = CHR ''!'' \<and> vc_text2cap (tl s) = Some n"
  using assms
  by (auto simp: setCap_def bit_or_iff bit_exp_iff split: if_splits option.splits)

text \<open>The capabilities an option names.\<close>

fun opt_adds :: "nat \<Rightarrow> chcontext_opt \<Rightarrow> bool" where
  "opt_adds n (CCap s) = (deref s \<noteq> CHR ''!'' \<and> vc_text2cap s = Some n)"
| "opt_adds n opt = False"

fun opt_removes :: "kernel_info \<Rightarrow> nat \<Rightarrow> chcontext_opt \<Rightarrow> bool" where
  "opt_removes ki n (CCap s) = (deref s = CHR ''!'' \<and> vc_text2cap (tl s) = Some n)"
| "opt_removes ki n CSecure = bit (vc_get_insecurebcaps ki) n"
| "opt_removes ki n opt = False"

lemma chcontext_option_caps:
  assumes "chcontext_option h ki opt a = Inr b" "n < 32"
  shows "bit (cc_add_caps b) n \<longleftrightarrow> bit (cc_add_caps a) n \<or> opt_adds n opt"
    and "bit (cc_remove_caps b) n \<longleftrightarrow> bit (cc_remove_caps a) n \<or> opt_removes ki n opt"
  using assms setCap_bits
  by (cases opt; auto simp: chcontext_setFlags_def Eidopt_def bit_or_iff bit_ucast_iff split: if_splits prod.splits)+

lemma chcontext_options_caps:
  assumes "run_options (chcontext_option h ki) opts a = Inr b" "n < 32"
  shows "bit (cc_add_caps b) n \<longleftrightarrow> bit (cc_add_caps a) n \<or> (\<exists>opt \<in> set opts. opt_adds n opt)"
    and "bit (cc_remove_caps b) n \<longleftrightarrow> bit (cc_remove_caps a) n \<or> (\<exists>opt \<in> set opts. opt_removes ki n opt)"
  using assms(1)
  by (induction opts arbitrary: a)
    (auto split: sum.splits dest: chcontext_option_caps [OF _ assms(2)])

text \<open>The calls of the legacy interface: context, capabilities to take away, flags.\<close>

fun legacy_call :: "ctx_call sync_action \<Rightarrow> (xid_t \<times> u32 \<times> u32) option" where
  "legacy_call (Act (New_s_context x r f)) = Some (x, r, f)"
| "legacy_call _ = None"

lemma adds_hostname: "adds legacy_call {[]} (setHostname a)"
proof (cases "cc_hostname a")
  case None
  then show ?thesis by (simp add: setHostname_def [abs_def] adds_nothing)
next
  case (Some s)
  then show ?thesis
    using adds_comp [OF adds_must_none adds_when [OF adds_ignore, of _ _ "\<not> cc_silent a"],
        of legacy_call "Act (Sethostname s)" "Act (Print (''Host name is now '' @ s @ [NL]))"]
    by (simp add: setHostname_def [abs_def])
qed

lemma adds_domainname: "adds legacy_call {[]} (setDomainname a)"
proof (cases "cc_domainname a")
  case None
  then show ?thesis by (simp add: setDomainname_def [abs_def] adds_nothing)
next
  case (Some s)
  then show ?thesis
    using adds_comp [OF adds_must_none adds_when [OF adds_ignore, of _ _ "\<not> cc_silent a"],
        of legacy_call "Act (Setdomainname s)" "Act (Print (''Domain name is now '' @ s @ [NL]))"]
    by (simp add: setDomainname_def [abs_def])
qed

lemma adds_tell_legacy: "adds legacy_call {[]} (tell what ctx b)"
  unfolding tell_def using adds_when [OF adds_ignore, of legacy_call _ b] by simp

lemma adds_stage0_legacy: "adds legacy_call {[]} (doSyncStage0 b)"
  unfolding doSyncStage0_def [abs_def] by (cases b) (simp_all add: adds_nothing adds_must_none)

lemma stays_exec:
  "stays (\<lambda>c. legacy_call c = None) ({Running argv} \<union> range Exited)
     (doSyncStage1 null_io d (Exec argv (doSyncStage2 d (End 255))))"
  by (auto simp: doSyncStage1_def doSyncStage2_def tree_simps)

lemma chcontext_calls:
  assumes "performs (chcontext_child a argv) t (Running cmd)"
  defines "remove \<equiv> cc_remove_caps a AND NOT (cc_add_caps a)"
    and "xflags \<equiv> cc_flags a AND S_CTX_INFO_INIT"
  shows "cmd = argv \<and>
    done_calls legacy_call t =
      (hd (cc_ctxs a), 0, cc_flags a AND NOT S_CTX_INFO_INIT) #
      opt_list (remove \<noteq> 0 \<or> xflags \<noteq> 0) [(VC_SAMECTX, remove, xflags)]"
proof -
  let ?ctx = "hd (cc_ctxs a)" and ?flags = "cc_flags a AND NOT S_CTX_INFO_INIT"
  let ?run = "doSyncStage1 null_io (cc_disconnect a) (Exec argv (doSyncStage2 (cc_disconnect a) (End 255)))"
  let ?steps = "\<lambda>x k. setHostname a (setDomainname a
    (when_do (remove \<noteq> 0 \<or> xflags \<noteq> 0) (do_act (New_s_context VC_SAMECTX remove xflags))
      (tell ''New security context is '' (if ?ctx = VC_DYNAMIC_XID then word_of_int x else ?ctx) (\<not> cc_silent a) k)))"
  have steps: "adds legacy_call {opt_list (remove \<noteq> 0 \<or> xflags \<noteq> 0) [(VC_SAMECTX, remove, xflags)]} (?steps x)" for x
  proof -
    have "adds legacy_call {opt_list (remove \<noteq> 0 \<or> xflags \<noteq> 0) [(VC_SAMECTX, remove, xflags)]}
        (when_do (remove \<noteq> 0 \<or> xflags \<noteq> 0) (do_act (New_s_context VC_SAMECTX remove xflags)))"
      by (auto simp: when_do_def [abs_def] opt_list_def intro: adds_must adds_nothing)
    from adds_comp [OF adds_hostname [of a] adds_comp [OF adds_domainname [of a] adds_comp [OF this
        adds_tell_legacy [of "''New security context is ''" "if ?ctx = VC_DYNAMIC_XID then word_of_int x else ?ctx" "\<not> cc_silent a"]]]]
    show ?thesis by simp
  qed
  from assms(1) have "performs (doSyncStage0 (cc_disconnect a)
      (must_get 255 (Act (New_s_context ?ctx 0 ?flags)) (\<lambda>x. ?steps x ?run))) t (Running cmd)"
    unfolding chcontext_child_def Let_def remove_def xflags_def .
  from addsD [OF adds_stage0_legacy this]
  obtain u v where t: "t = u @ v" "done_calls legacy_call u = []"
    and "performs (must_get 255 (Act (New_s_context ?ctx 0 ?flags)) (\<lambda>x. ?steps x ?run)) v (Running cmd)" by auto
  then obtain n w where v: "v = (Act (New_s_context ?ctx 0 ?flags), Done n) # w" and "performs (?steps n ?run) w (Running cmd)"
    by (auto simp: performs_must_get)
  from addsD [OF steps this(2)] obtain w1 w2 where w: "w = w1 @ w2"
      "done_calls legacy_call w1 = opt_list (remove \<noteq> 0 \<or> xflags \<noteq> 0) [(VC_SAMECTX, remove, xflags)]"
    and fin: "performs ?run w2 (Running cmd)" by auto
  from stays_performs [OF stays_exec fin] done_calls_none [of w2 legacy_call] show ?thesis by (auto simp: t v w)
qed

text \<open>
  C15. Capabilities of \<^verbatim>\<open>chcontext\<close>: when the command runs, a capability has
  been taken away iff an option \<^verbatim>\<open>--secure\<close> or \<^verbatim>\<open>--cap !name\<close> removes it and no option
  \<^verbatim>\<open>--cap name\<close> adds it, whatever the order and number of the options.\<close>

theorem chcontext_capabilities:
  assumes "chcontext_main h ki opts argv = Inr a" "performs (chcontext_child a argv) t (Running cmd)" "n < 32"
  shows "cmd = argv \<and>
    ((\<exists>(ctx, remove, flags) \<in> set (done_calls legacy_call t). bit remove n) \<longleftrightarrow>
     (\<exists>opt \<in> set opts. opt_removes ki n opt) \<and> \<not> (\<exists>opt \<in> set opts. opt_adds n opt))"
proof -
  from assms(1) obtain b where b: "run_options (chcontext_option h ki) opts chcontext_init = Inr b"
    and a: "cc_add_caps a = cc_add_caps b" "cc_remove_caps a = cc_remove_caps b"
    by (auto simp: chcontext_main_def split: sum.splits if_splits)
  have add: "bit (cc_add_caps a) n \<longleftrightarrow> (\<exists>opt \<in> set opts. opt_adds n opt)"
    using chcontext_options_caps(1) [OF b assms(3)] by (simp add: a chcontext_init_def)
  have remove: "bit (cc_remove_caps a) n \<longleftrightarrow> (\<exists>opt \<in> set opts. opt_removes ki n opt)"
    using chcontext_options_caps(2) [OF b assms(3)] by (simp add: a chcontext_init_def)
  have "bit (cc_remove_caps a AND NOT (cc_add_caps a)) n \<longleftrightarrow> bit (cc_remove_caps a) n \<and> \<not> bit (cc_add_caps a) n"
    using assms(3) by (simp add: bit_and_iff bit_not_iff)
  with chcontext_calls [OF assms(2)] add remove show ?thesis by (auto simp: opt_list_def)
qed

theorem chcontext_capabilities_witness:
  "\<forall>h ki. chcontext_main h ki [CCap ''!KILL'', CCap ''CHOWN'', CSilent] [''sh''] =
     Inr (chcontext_init\<lparr>cc_add_caps := 1, cc_remove_caps := 32, cc_silent := True, cc_ctxs := [- 1]\<rparr>) \<and>
   ((\<exists>(ctx, remove, flags) \<in> set (done_calls legacy_call
        [(Act (New_s_context (- 1) 0 0), Done 7), (Act (New_s_context (- 2) 32 0), Done 7)]). bit remove 5) \<longleftrightarrow>
     (\<exists>opt \<in> set [CCap ''!KILL'', CCap ''CHOWN'', CSilent]. opt_removes ki 5 opt) \<and>
     \<not> (\<exists>opt \<in> set [CCap ''!KILL'', CCap ''CHOWN'', CSilent]. opt_adds 5 opt))"
proof (intro allI)
  fix h ki
  let ?a = "chcontext_init\<lparr>cc_add_caps := 1, cc_remove_caps := 32, cc_silent := True, cc_ctxs := [- 1]\<rparr>"
  have caps: "vc_text2cap ''KILL'' = Some 5" "vc_text2cap ''CHOWN'' = Some 0" by code_simp+
  have main: "chcontext_main h ki [CCap ''!KILL'', CCap ''CHOWN'', CSilent] [''sh''] = Inr ?a"
    by (simp add: chcontext_main_def chcontext_init_def setCap_def caps VC_DYNAMIC_XID_def)
  have run: "performs (chcontext_child ?a [''sh''])
      [(Act (New_s_context (- 1) 0 0), Done 7), (Act (New_s_context (- 2) 32 0), Done 7)] (Running [''sh''])"
    by (simp add: chcontext_child_def chcontext_init_def Let_def doSyncStage0_def setHostname_def setDomainname_def
        when_do_def tell_def doSyncStage1_def performs_simps VC_SAMECTX_def)
  from main chcontext_capabilities [OF main run, of 5] show "chcontext_main h ki [CCap ''!KILL'', CCap ''CHOWN'', CSilent] [''sh''] = Inr ?a \<and>
   ((\<exists>(ctx, remove, flags) \<in> set (done_calls legacy_call
        [(Act (New_s_context (- 1) 0 0), Done 7), (Act (New_s_context (- 2) 32 0), Done 7)]). bit remove 5) \<longleftrightarrow>
     (\<exists>opt \<in> set [CCap ''!KILL'', CCap ''CHOWN'', CSilent]. opt_removes ki 5 opt) \<and>
     \<not> (\<exists>opt \<in> set [CCap ''!KILL'', CCap ''CHOWN'', CSilent]. opt_adds 5 opt))" by simp
qed

section \<open>vtag and vspace\<close>

lemma vtag_strict:
  assumes "performs (vtag h task ki opts argv) t (Running cmd)"
  obtains a where "run_options (vtag_option h task) opts vtag_init = Inr a" "cmd = argv"
    "vt_verbosity a \<ge> 1 \<Longrightarrow>
       vc_isSupported ki vcFEATURE_PPTAG \<and> vt_tag a \<noteq> VC_DYNAMIC_XID \<and>
       (\<exists>n. t = [(if vt_create a then Tag_create (vt_tag a) else Tag_migrate (vt_tag a), Done n)])"
  using assms
  by (auto simp: vtag_def vtag_doit_def Let_def when_do_def performs_simps split: sum.splits if_splits)

text \<open>Only one call comes before the command, and \<^verbatim>\<open>CLONE_FS\<close> is never asked of \<^verbatim>\<open>clone\<close>.\<close>

lemma clone_flags_no_fs: "\<not> bit (clone_flags ndebug spaces) 9"
proof -
  have "bit CLONE_FS 9" by (simp add: CLONE_FS_def bit_numeral_rec)
  then have "\<not> bit (spaces AND NOT CLONE_FS) 9" by (auto simp: bit_and_iff bit_not_iff)
  then show ?thesis by (simp add: clone_flags_def bit_or_iff bit_ucast_iff CLONE_VFORK_def SIGCHLD_def bit_numeral_rec)
qed

lemma vspace_one_call:
  assumes "performs (vspace h opts argv) t (Running cmd)"
  obtains a call n where "run_options (vspace_option h) opts vspace_init = Inr a" "cmd = argv" "t = [(call, Done n)]"
    "vspace_sum a = 1"
    "vs_new a \<Longrightarrow> n = 0 \<and> call = Clone (clone_flags (vh_ndebug h) (vs_mask a))"
    "vs_set a \<Longrightarrow> call = Set_namespace VC_SAMECTX (vs_mask a) (vs_index a)"
    "vs_enter a \<Longrightarrow> call = Enter_namespace (vs_xid a) (vs_mask a) (vs_index a)"
proof -
  obtain a where a: "run_options (vspace_option h) opts vspace_init = Inr a"
    using assms by (auto simp: vspace_def split: sum.splits)
  with assms have "vspace_sum a = 1"
    by (auto simp: vspace_def Let_def vspace_sum_def split: if_splits)
  with a assms show ?thesis
    by (cases "vs_new a"; cases "vs_set a"; cases "vs_enter a"; cases "argv = []")
      (auto simp: vspace_def Let_def vspace_sum_def newSpaces_def performs_simps split: if_splits
        intro!: that [OF a])
qed

section \<open>Three surprises\<close>

text \<open>A user number is cut to the width of \<^verbatim>\<open>uid_t\<close> without a check: a multiple of its range is root.\<close>

lemma uid_number_cut:
  assumes "int n \<le> LONG_MAX"
  shows "uid_duties h (a\<lparr>uid := Some (digits_of 10 n)\<rparr>) = [Setuid (of_nat n)]"
proof -
  have "isNumberUnsigned (digits_of 10 n) False = Some (int n)"
    using strto_scan_auto_digits [of "[]" n] assms
    by (simp add: isNumberUnsigned_def UTIL_ISNUMBER_def strtoul_def strto_converted_def after_number_def
        unit_suffix_def checkConstraints_unsigned_def ULONG_MAX_def LONG_MAX_def)
  then show ?thesis by (simp add: uid_duties_def)
qed

lemma uid_number_root: "uid_duties h (a\<lparr>uid := Some (digits_of 10 4294967296)\<rparr>) = [Setuid 0]"
  using uid_number_cut [of 4294967296] by (simp add: LONG_MAX_def)

text \<open>What the uninitialised variable holds is part of the personality.\<close>

lemma personality_junk: "parsePersonalityFlags h [] = Inr (ch_junk h)"
  by (simp add: parsePersonalityFlags_def vc_list2personalityflag_def listparser_def)
    (subst listparser_loop.simps, simp)

text \<open>The flags of the last \<^verbatim>\<open>--flag\<close> are the only ones.\<close>

lemma chcontext_last_flag:
  "chcontext_setFlags s a = Inr b \<Longrightarrow> chcontext_setFlags s (a\<lparr>cc_flags := f\<rparr>) = Inr b"
  by (auto simp: chcontext_setFlags_def Let_def split: if_splits prod.splits)

end
