(* ===== verification/Signals.thy ===== *)
theory Signals
  imports Process Attributes NetTools
begin

text \<open>
  \<^verbatim>\<open>vkill\<close>, which sends a signal to processes in contexts, and \<^verbatim>\<open>vwait\<close>, which waits for
  the end of a context. As in the theories before, the calls are trees over the answers of the kernel; the clock and the
  answers a wait gets one after the other are a list.
\<close>

section \<open>vkill\<close>

datatype kill_call =
    K_task_xid int | K_ctx_kill xid_t int int | K_get_version | K_fork | K_wait int

definition SIGNALS :: "cstr list" where
  "SIGNALS =
     [''UNUSED'', ''HUP'', ''INT'', ''QUIT'', ''ILL'', ''TRAP'', ''ABRT'', ''UNUSED'',
      ''FPE'', ''KILL'', ''USR1'', ''SEGV'', ''USR2'', ''PIPE'', ''ALRM'', ''TERM'',
      ''STKFLT'', ''CHLD'', ''CONT'', ''STOP'', ''TSTP'', ''TTIN'', ''TTOU'', ''IO'',
      ''XCPU'', ''XFSZ'', ''VTALRM'', ''PROF'', ''WINCH'']"

definition SIGTERM :: int where "SIGTERM = 15"

text \<open>\<^verbatim>\<open>int res = strtol(...)\<close> and \<^verbatim>\<open>atoi\<close> cut a \<^verbatim>\<open>long\<close> to 32 bits.\<close>

definition int_of_long :: "int \<Rightarrow> int" where
  "int_of_long v = sint (word_of_int v :: 32 word)"

fun find_name :: "cstr list \<Rightarrow> cstr \<Rightarrow> int \<Rightarrow> int" where
  "find_name [] str i = - 1"
| "find_name (s # ss) str i = (if strcmp s str = 0 then i else find_name ss str (i + 1))"

definition str2sig :: "cstr \<Rightarrow> int" where
  "str2sig str =
     (let (val, errptr, _) = strtol 10 str;
          res = (if errptr \<noteq> [] then - 1 else int_of_long val);
          str1 = (if res = - 1 \<and> strncmp 3 str ''SIG'' = 0 then drop 3 str else str)
      in if res = - 1 then find_name SIGNALS str1 0 else res)"

text \<open>
  \<open>legacy\<close> says whether the old interface was compiled in and \<open>junk\<close> is what the uninitialised \<^verbatim>\<open>tmp\<close>
  holds. \<open>k\<close> goes on with what the function returns. In \<open>kill_wrapper_legacy\<close> the result of \<^verbatim>\<open>wait4\<close>, which is the
  process, is compared with 0; its loop on interrupted waits is one call.
\<close>

definition kill_wrapper_legacy :: "cstr \<Rightarrow> (int \<Rightarrow> kill_call prog) \<Rightarrow> kill_call prog" where
  "kill_wrapper_legacy proc k =
     must_get 1 K_fork
       (\<lambda>pid. if pid > 0 then Call (K_wait pid) (\<lambda>r. if r = Done 0 then k 0 else k 1)
              else Exec [''legacy/vkill'', proc] (End 1))"

definition kill_wrapper :: "bool \<Rightarrow> int \<Rightarrow> xid_t \<Rightarrow> cstr \<Rightarrow> int \<Rightarrow> (int \<Rightarrow> kill_call prog) \<Rightarrow> kill_call prog" where
  "kill_wrapper legacy junk xid pid_s sig k =
     (let pid = int_of_long (case isNumber pid_s True of Some n \<Rightarrow> n | None \<Rightarrow> junk);
          send = (\<lambda>x. Call (K_ctx_kill x pid sig)
                    (\<lambda>r. case r of
                           Done _ \<Rightarrow> k 0
                         | Failed _ \<Rightarrow>
                             if legacy
                             then Call K_get_version (\<lambda>v. case v of Failed _ \<Rightarrow> kill_wrapper_legacy pid_s k | Done _ \<Rightarrow> k 1)
                             else k 1))
      in if xid = VC_NOCTX
         then Call (K_task_xid pid) (\<lambda>r. case r of Done x \<Rightarrow> send (word_of_int x) | Failed _ \<Rightarrow> send VC_NOCTX)
         else send xid)"

datatype kill_opt = KHelp | KVersion | KXid cstr | KSig cstr | KOther

record kill_args =
  ka_xid :: xid_t
  ka_sig :: int

fun kill_option :: "xid_t \<Rightarrow> (cstr \<Rightarrow> bool \<Rightarrow> vcCtxType \<Rightarrow> xid_t) \<Rightarrow> kill_opt \<Rightarrow> kill_args \<Rightarrow> int + kill_args" where
  "kill_option task getctx KHelp a = Inl 0"
| "kill_option task getctx KVersion a = Inl 0"
| "kill_option task getctx (KXid s) a = id_arg (vc_xidopt2xid task getctx s True) (\<lambda>x. a\<lparr>ka_xid := x\<rparr>)"
| "kill_option task getctx (KSig s) a = Inr (a\<lparr>ka_sig := str2sig s\<rparr>)"
| "kill_option task getctx KOther a = Inl 1"

fun kill_all :: "bool \<Rightarrow> int \<Rightarrow> kill_args \<Rightarrow> cstr list \<Rightarrow> int \<Rightarrow> kill_call prog" where
  "kill_all legacy junk a [] n = End (if n = 0 then 0 else 1)"
| "kill_all legacy junk a (p # ps) n =
     kill_wrapper legacy junk (ka_xid a) p (ka_sig a) (\<lambda>r. kill_all legacy junk a ps (n + r))"

definition vkill ::
  "bool \<Rightarrow> int \<Rightarrow> xid_t \<Rightarrow> (cstr \<Rightarrow> bool \<Rightarrow> vcCtxType \<Rightarrow> xid_t) \<Rightarrow> kill_opt list \<Rightarrow> cstr list \<Rightarrow> kill_call prog" where
  "vkill legacy junk task getctx opts pids =
     (case run_options (kill_option task getctx) opts \<lparr>ka_xid = VC_NOCTX, ka_sig = SIGTERM\<rparr> of
        Inl c \<Rightarrow> End c
      | Inr a \<Rightarrow>
          if ka_sig a = - 1 then End 1
          else if ka_xid a = VC_NOCTX \<and> pids = [] then End 1
          else kill_all legacy junk a (if pids = [] then [''0''] else pids) 0)"

section \<open>What vkill sends\<close>

text \<open>The signals of a run, with the answers.\<close>

fun kills :: "(kill_call \<times> answer) list \<Rightarrow> (xid_t \<times> int \<times> int \<times> bool) list" where
  "kills [] = []"
| "kills ((K_ctx_kill x p s, r) # t) = (x, p, s, case r of Done _ \<Rightarrow> True | Failed _ \<Rightarrow> False) # kills t"
| "kills (c # t) = kills t"

text \<open>The process an argument names.\<close>

definition pid_arg :: "int \<Rightarrow> cstr \<Rightarrow> int" where
  "pid_arg junk p = int_of_long (case isNumber p True of Some n \<Rightarrow> n | None \<Rightarrow> junk)"

lemma kill_send:
  assumes "performs (Call (K_ctx_kill y p sig) (\<lambda>r. case r of Done _ \<Rightarrow> k 0 | Failed _ \<Rightarrow> k 1)) t e"
  shows "\<exists>ok u. kills t = (y, p, sig, ok) # kills u \<and> performs (k (if ok then 0 else 1)) u e"
  using assms
proof (simp only: performs_call, elim disjE exE conjE)
  fix n u
  assume "t = (K_ctx_kill y p sig, Done n) # u" "performs (case Done n of Done _ \<Rightarrow> k 0 | Failed _ \<Rightarrow> k 1) u e"
  then show ?thesis by (intro exI [of _ True] exI [of _ u]) auto
next
  fix err u
  assume "t = (K_ctx_kill y p sig, Failed err) # u" "performs (case Failed err of Done _ \<Rightarrow> k 0 | Failed _ \<Rightarrow> k 1) u e"
  then show ?thesis by (intro exI [of _ False] exI [of _ u]) auto
qed

lemma kill_wrapper_run:
  assumes "performs (kill_wrapper False junk x p sig k) t e"
  shows "\<exists>y ok u. kills t = (y, pid_arg junk p, sig, ok) # kills u \<and> (x \<noteq> VC_NOCTX \<longrightarrow> y = x) \<and>
    performs (k (if ok then 0 else 1)) u e"
proof -
  let ?send = "\<lambda>y. Call (K_ctx_kill y (pid_arg junk p) sig) (\<lambda>r. case r of Done _ \<Rightarrow> k 0 | Failed _ \<Rightarrow> k 1)"
  have "\<exists>y u. performs (?send y) u e \<and> kills t = kills u \<and> (x \<noteq> VC_NOCTX \<longrightarrow> y = x)"
  proof (cases "x = VC_NOCTX")
    case True
    with assms show ?thesis
      unfolding kill_wrapper_def pid_arg_def Let_def
      by (simp add: performs_call [of "K_task_xid _"]) fastforce
  next
    case False
    with assms show ?thesis unfolding kill_wrapper_def pid_arg_def Let_def by auto
  qed
  with kill_send show ?thesis by metis
qed

lemma kill_all_run:
  assumes "performs (kill_all False junk a pids n) t e" "0 \<le> n"
  shows "map (\<lambda>(x, p, s, ok). (p, s)) (kills t) = map (\<lambda>p. (pid_arg junk p, ka_sig a)) pids \<and>
    (ka_xid a \<noteq> VC_NOCTX \<longrightarrow> (\<forall>(x, p, s, ok) \<in> set (kills t). x = ka_xid a)) \<and>
    e = Exited (if n = 0 \<and> (\<forall>(x, p, s, ok) \<in> set (kills t). ok) then 0 else 1)"
  using assms
proof (induction pids arbitrary: t n)
  case Nil
  then show ?case by auto
next
  case (Cons p ps)
  from kill_wrapper_run [OF Cons.prems(1) [unfolded kill_all.simps]] obtain y ok u
    where t: "kills t = (y, pid_arg junk p, ka_sig a, ok) # kills u" "ka_xid a \<noteq> VC_NOCTX \<longrightarrow> y = ka_xid a"
    and u: "performs (kill_all False junk a ps (n + (if ok then 0 else 1))) u e" by blast
  from Cons.IH [OF u] Cons.prems(2) t show ?case by (cases ok) auto
qed

text \<open>
  Without the legacy interface, \<^verbatim>\<open>vkill\<close> sends the signal exactly once for each argument, in order, to the
  given context if there is one, goes on when one is refused, and succeeds iff all were accepted.
\<close>

lemma vkill_sends:
  assumes "run_options (kill_option task getctx) opts \<lparr>ka_xid = VC_NOCTX, ka_sig = SIGTERM\<rparr> = Inr a"
    "ka_sig a \<noteq> - 1" "pids \<noteq> []"
    "performs (vkill False junk task getctx opts pids) t e"
  shows "map (\<lambda>(x, p, s, ok). (p, s)) (kills t) = map (\<lambda>p. (pid_arg junk p, ka_sig a)) pids \<and>
    (ka_xid a \<noteq> VC_NOCTX \<longrightarrow> (\<forall>(x, p, s, ok) \<in> set (kills t). x = ka_xid a)) \<and>
    e = Exited (if \<forall>(x, p, s, ok) \<in> set (kills t). ok then 0 else 1)"
  using kill_all_run [of junk a pids 0 t e] assms by (simp add: vkill_def)

text \<open>An argument that is no number is reported, but a signal is sent all the same: to the process \<open>junk\<close> names.\<close>

lemma vkill_junk: "performs (kill_all False 4711 \<lparr>ka_xid = 5, ka_sig = 9\<rparr> [''init''] 0) [(K_ctx_kill 5 4711 9, Done 0)] (Exited 0)"
proof -
  have "isNumber ''init'' True = None" by code_simp
  moreover have "int_of_long 4711 = 4711" by (simp add: int_of_long_def)
  ultimately show ?thesis by (simp add: kill_wrapper_def VC_NOCTX_def performs_call)
qed

text \<open>Every name of the table but the two placeholders is read as its index, with and without the prefix.\<close>

lemma str2sig_names:
  "i < length SIGNALS \<Longrightarrow> i \<noteq> 7 \<Longrightarrow> str2sig (SIGNALS ! i) = int i \<and> str2sig (''SIG'' @ SIGNALS ! i) = int i"
proof -
  have "\<forall>i \<in> set [0..<29]. i \<noteq> 7 \<longrightarrow> str2sig (SIGNALS ! i) = int i \<and> str2sig (''SIG'' @ SIGNALS ! i) = int i"
    by code_simp
  then show "i < length SIGNALS \<Longrightarrow> i \<noteq> 7 \<Longrightarrow> str2sig (SIGNALS ! i) = int i \<and> str2sig (''SIG'' @ SIGNALS ! i) = int i"
    by (simp add: SIGNALS_def)
qed

text \<open>The table says 23 for \<^verbatim>\<open>SIGIO\<close>, which is \<^verbatim>\<open>SIGURG\<close> on Linux; and the empty string is the signal 0.\<close>

lemma str2sig_io: "str2sig ''IO'' = 23 \<and> str2sig [] = 0 \<and> str2sig ''BUS'' = - 1"
  by code_simp

section \<open>vwait\<close>

datatype wait_status = St_error errno | St_finished int | St_killed | St_timeout

record wait_args =
  wa_xid :: xid_t
  wa_timeout :: int
  wa_status_fd :: int
  wa_terminate :: bool

text \<open>
  The loop of \<open>doit\<close>. Each element of the list is an answer of \<^verbatim>\<open>vc_wait_exit\<close> with the time that is
  read when the wait was interrupted; \<open>None\<close> means that the next wait has not returned.
\<close>

fun wait_loop :: "wait_args \<Rightarrow> int \<Rightarrow> (answer \<times> int) list \<Rightarrow> wait_status option" where
  "wait_loop a end_time [] = None"
| "wait_loop a end_time ((Done rc, now) # es) = Some (St_finished rc)"
| "wait_loop a end_time ((Failed e, now) # es) =
     (if e \<noteq> EAGAIN \<and> e \<noteq> EINTR then Some (St_error e)
      else if wa_timeout a > 0 \<and> now \<ge> end_time then Some (if wa_terminate a then St_killed else St_timeout)
      else wait_loop a end_time es)"

definition wait_doit :: "wait_args \<Rightarrow> int \<Rightarrow> (answer \<times> int) list \<Rightarrow> wait_status option" where
  "wait_doit a start es = wait_loop a (if wa_timeout a > 0 then start + wa_timeout a else 0) es"

text \<open>The kills of a timeout: the init process of the context first, then all of it.\<close>

definition wait_kills :: "wait_args \<Rightarrow> wait_status \<Rightarrow> (xid_t \<times> int \<times> int) list" where
  "wait_kills a st = (if st = St_killed then [(wa_xid a, 1, 9), (wa_xid a, 0, 9)] else [])"

text \<open>\<open>writeStatus\<close>: what is written to the descriptor and the exit code; \<open>errno_number\<close> numbers the errors.\<close>

definition status_line :: "cstr \<Rightarrow> int option \<Rightarrow> cstr" where
  "status_line str rc =
     str @ (case rc of None \<Rightarrow> [] | Some n \<Rightarrow> CHR '' '' # snd (the (fmt_int True (word_of_int n :: 64 word)))) @ [NL]"

fun status_text :: "(errno \<Rightarrow> int) \<Rightarrow> wait_status \<Rightarrow> cstr \<times> int" where
  "status_text errno_number (St_error e) = (status_line ''ERROR'' (Some (errno_number e)), 127)"
| "status_text errno_number (St_finished rc) = (status_line ''FINISHED'' (Some rc), 0)"
| "status_text errno_number St_killed = (status_line ''KILLED'' None, 1)"
| "status_text errno_number St_timeout = (status_line ''TIMEOUT'' None, 2)"

definition writeStatus :: "(errno \<Rightarrow> int) \<Rightarrow> int \<Rightarrow> wait_status \<Rightarrow> cstr \<times> int" where
  "writeStatus errno_number fd st =
     (case status_text errno_number st of (text, c) \<Rightarrow> (if fd = - 1 then [] else text, c))"

datatype wait_opt = WHelp | WVersion | WTerminate | WTimeout cstr | WStatusFd cstr | WOther

fun wait_option :: "wait_opt \<Rightarrow> wait_args \<Rightarrow> int + wait_args" where
  "wait_option WHelp a = Inl 0"
| "wait_option WVersion a = Inl 0"
| "wait_option WTerminate a = Inr (a\<lparr>wa_terminate := True\<rparr>)"
| "wait_option (WTimeout s) a = Inr (a\<lparr>wa_timeout := atoi s\<rparr>)"
| "wait_option (WStatusFd s) a = Inr (a\<lparr>wa_status_fd := atoi s\<rparr>)"
| "wait_option WOther a = Inl 1"

definition vwait ::
  "xid_t \<Rightarrow> (cstr \<Rightarrow> bool \<Rightarrow> vcCtxType \<Rightarrow> xid_t) \<Rightarrow> (errno \<Rightarrow> int) \<Rightarrow> wait_opt list \<Rightarrow> cstr list \<Rightarrow> int \<Rightarrow>
   (answer \<times> int) list \<Rightarrow> ((xid_t \<times> int \<times> int) list \<times> cstr \<times> int) option" where
  "vwait task getctx errno_number opts args start es =
     (case run_options wait_option opts \<lparr>wa_xid = VC_NOCTX, wa_timeout = - 1, wa_status_fd = - 1, wa_terminate = False\<rparr> of
        Inl c \<Rightarrow> Some ([], [], c)
      | Inr a \<Rightarrow>
          (case args of
             [s] \<Rightarrow>
               (case id_arg (vc_xidopt2xid task getctx s True) (\<lambda>x. a\<lparr>wa_xid := x\<rparr>) of
                  Inl c \<Rightarrow> Some ([], [], c)
                | Inr b \<Rightarrow>
                    map_option (\<lambda>st. (wait_kills b st, writeStatus errno_number (wa_status_fd b) st)) (wait_doit b start es))
           | _ \<Rightarrow> Some ([], [], 1)))"

text \<open>An answer after which the loop does not wait again.\<close>

fun wait_decides :: "wait_args \<Rightarrow> int \<Rightarrow> answer \<times> int \<Rightarrow> bool" where
  "wait_decides a end_time (Done rc, now) = True"
| "wait_decides a end_time (Failed e, now) \<longleftrightarrow> e \<noteq> EAGAIN \<and> e \<noteq> EINTR \<or> wa_timeout a > 0 \<and> now \<ge> end_time"

lemma wait_loop_first:
  "wait_loop a end_time es =
     (case dropWhile (\<lambda>x. \<not> wait_decides a end_time x) es of [] \<Rightarrow> None | x # xs \<Rightarrow> wait_loop a end_time [x])"
  by (induction a end_time es rule: wait_loop.induct) auto

text \<open>With a timeout the loop ends as soon as a wait is interrupted after the time, and never says so before.\<close>

lemma wait_timeout:
  assumes "wa_timeout a > 0" "\<exists>(r, now) \<in> set es. now \<ge> start + wa_timeout a"
  shows "wait_doit a start es \<noteq> None"
  using assms unfolding wait_doit_def
  by (induction a "start + wa_timeout a" es rule: wait_loop.induct) auto

lemma wait_timeout_after:
  assumes "wait_doit a start es = Some st" "st = St_timeout \<or> st = St_killed"
  shows "wa_timeout a > 0 \<and> (\<exists>(r, now) \<in> set es. now \<ge> start + wa_timeout a)"
  using assms unfolding wait_doit_def
  by (induction a "if wa_timeout a > 0 then start + wa_timeout a else 0" es rule: wait_loop.induct)
    (auto split: if_splits)

lemma wait_exit_codes:
  "snd (writeStatus errno_number fd st) = 0 \<longleftrightarrow> (\<exists>rc. st = St_finished rc)"
  by (cases st) (auto simp: writeStatus_def)

end
