(* ===== verification/SchedTool.thy ===== *)
theory SchedTool
  imports Process Attributes SysMisc
begin

text \<open>
  \<^verbatim>\<open>vsched\<close>: scheduler settings of a context from options or from a directory, whose files are named after
  the settings and whose subdirectories hold the settings of single CPUs.
\<close>

section \<open>Settings\<close>

datatype sched_field =
    F_fill_rate | F_interval | F_tokens | F_tokens_min | F_tokens_max | F_priority_bias | F_fill_rate2 | F_interval2
  | F_cpu_id | F_bucket_id | F_set_mask

text \<open>\<open>FILE_OPTIONS\<close>; the offset of the member is the name of the field.\<close>

definition FILE_OPTIONS :: "(cstr \<times> u32 \<times> sched_field) list" where
  "FILE_OPTIONS =
     [(''fill-rate'', VC_VXSM_FILL_RATE, F_fill_rate),
      (''interval'', VC_VXSM_INTERVAL, F_interval),
      (''tokens'', VC_VXSM_TOKENS, F_tokens),
      (''tokens-min'', VC_VXSM_TOKENS_MIN, F_tokens_min),
      (''tokens-max'', VC_VXSM_TOKENS_MAX, F_tokens_max),
      (''prio-bias'', VC_VXSM_PRIO_BIAS, F_priority_bias),
      (''priority-bias'', VC_VXSM_PRIO_BIAS, F_priority_bias),
      (''fill-rate2'', VC_VXSM_FILL_RATE2 OR VC_VXSM_IDLE_TIME, F_fill_rate2),
      (''interval2'', VC_VXSM_INTERVAL2 OR VC_VXSM_IDLE_TIME, F_interval2),
      (''cpu-id'', VC_VXSM_CPU_ID, F_cpu_id),
      (''bucket-id'', VC_VXSM_BUCKET_ID, F_bucket_id),
      (''idle-time'', VC_VXSM_IDLE_TIME, F_set_mask)]"

fun sched_put :: "sched_field \<Rightarrow> u32 \<Rightarrow> vc_set_sched_struct \<Rightarrow> vc_set_sched_struct" where
  "sched_put F_fill_rate v s = s\<lparr>vs_fill_rate := v\<rparr>"
| "sched_put F_interval v s = s\<lparr>vs_interval := v\<rparr>"
| "sched_put F_tokens v s = s\<lparr>vs_tokens := v\<rparr>"
| "sched_put F_tokens_min v s = s\<lparr>vs_tokens_min := v\<rparr>"
| "sched_put F_tokens_max v s = s\<lparr>vs_tokens_max := v\<rparr>"
| "sched_put F_priority_bias v s = s\<lparr>vs_priority_bias := v\<rparr>"
| "sched_put F_fill_rate2 v s = s\<lparr>vs_fill_rate2 := v\<rparr>"
| "sched_put F_interval2 v s = s\<lparr>vs_interval2 := v\<rparr>"
| "sched_put F_cpu_id v s = s\<lparr>vs_cpu_id := v\<rparr>"
| "sched_put F_bucket_id v s = s\<lparr>vs_bucket_id := v\<rparr>"
| "sched_put F_set_mask v s = s\<lparr>vs_set_mask := v\<rparr>"

text \<open>The value of a file: at most 127 characters, up to the first newline, a number without unit, cut to 32 bits.\<close>

definition sched_value :: "cstr \<Rightarrow> u32 option" where
  "sched_value content = map_option word_of_int (isNumber (takeWhile (\<lambda>c. c \<noteq> NUL \<and> c \<noteq> NL) (take 127 content)) True)"

text \<open>\<open>do_dir_entry\<close>; \<open>None\<close> is a file that cannot be read. \<open>Inl\<close> is an exit code.\<close>

definition do_dir_entry :: "cstr \<Rightarrow> cstr option \<Rightarrow> vc_set_sched_struct \<Rightarrow> int + vc_set_sched_struct" where
  "do_dir_entry name content s =
     (case map_of FILE_OPTIONS name of
        None \<Rightarrow> Inr s
      | Some (msk, f) \<Rightarrow>
          map_sum id (\<lambda>s. s\<lparr>vs_set_mask := vs_set_mask s OR msk\<rparr>)
            (if f = F_set_mask then Inr s
             else case content of
                    None \<Rightarrow> Inl 255
                  | Some c \<Rightarrow> (case sched_value c of None \<Rightarrow> Inl 1 | Some v \<Rightarrow> Inr (sched_put f v s))))"

section \<open>Directories\<close>

text \<open>A directory as \<^verbatim>\<open>readdir\<close> yields it, without the two dot entries; \<open>SDir None\<close> cannot be entered.\<close>

datatype sched_entry = SFile "cstr option" | SDir "(cstr \<times> sched_entry) list option"

fun dir_files :: "(cstr \<times> sched_entry) list \<Rightarrow> vc_set_sched_struct \<Rightarrow> int + vc_set_sched_struct" where
  "dir_files [] s = Inr s"
| "dir_files ((name, SDir d) # es) s = dir_files es s"
| "dir_files ((name, SFile c) # es) s = (case do_dir_entry name c s of Inl e \<Rightarrow> Inl e | Inr s' \<Rightarrow> dir_files es s')"

datatype sched_call = Set_sched xid_t vc_set_sched_struct

text \<open>
  \<open>do_dir\<close> for the directory of one CPU: files, then the call. The second loop of the outer call uses one structure for all
  CPUs, of which only the mask is set anew.
\<close>

definition do_dir_cpu ::
  "xid_t \<Rightarrow> (cstr \<times> sched_entry) list option \<Rightarrow> vc_set_sched_struct \<Rightarrow> (vc_set_sched_struct \<Rightarrow> sched_call prog) \<Rightarrow>
   sched_call prog" where
  "do_dir_cpu xid d s k =
     (case d of
        None \<Rightarrow> End 255
      | Some es \<Rightarrow> (case dir_files es s of Inl e \<Rightarrow> End e | Inr s' \<Rightarrow> must 1 (Set_sched xid s') (k s')))"

fun do_cpus ::
  "xid_t \<Rightarrow> u32 \<Rightarrow> (cstr \<times> sched_entry) list \<Rightarrow> vc_set_sched_struct \<Rightarrow> sched_call prog \<Rightarrow> sched_call prog" where
  "do_cpus xid msk [] s k = k"
| "do_cpus xid msk ((name, SFile c) # es) s k = do_cpus xid msk es s k"
| "do_cpus xid msk ((name, SDir d) # es) s k =
     do_dir_cpu xid d (s\<lparr>vs_set_mask := msk AND (VC_VXSM_IDLE_TIME OR VC_VXSM_FORCE)\<rparr>) (\<lambda>s'. do_cpus xid msk es s' k)"

text \<open>The outer call; \<open>junk\<close> is the uninitialised structure for the CPUs.\<close>

definition do_dir ::
  "vc_set_sched_struct \<Rightarrow> xid_t \<Rightarrow> vc_set_sched_struct \<Rightarrow> (cstr \<times> sched_entry) list option \<Rightarrow> bool \<Rightarrow> sched_call prog \<Rightarrow>
   sched_call prog" where
  "do_dir junk xid s d missing k =
     (case d of
        None \<Rightarrow> if missing then k else End 255
      | Some es \<Rightarrow>
          (case dir_files es s of
             Inl e \<Rightarrow> End e
           | Inr s' \<Rightarrow> must 1 (Set_sched xid s') (do_cpus xid (vs_set_mask s') es junk k)))"

section \<open>Options and main\<close>

datatype (plugins only: code size) sched_opt =
    ScHelp | ScVersion | ScXid cstr | ScSet cstr cstr | ScCpuMask cstr | ScDir cstr | ScMissing | ScForce | ScIdle
  | ScOther

text \<open>The options that set a member, with the bits they set.\<close>

definition SET_OPTIONS :: "(cstr \<times> sched_field \<times> u32) list" where
  "SET_OPTIONS =
     [(''fill-rate'', F_fill_rate, VC_VXSM_FILL_RATE), (''interval'', F_interval, VC_VXSM_INTERVAL),
      (''tokens'', F_tokens, VC_VXSM_TOKENS),
      (''tokens_min'', F_tokens_min, VC_VXSM_TOKENS_MIN), (''tokens-min'', F_tokens_min, VC_VXSM_TOKENS_MIN),
      (''tokens_max'', F_tokens_max, VC_VXSM_TOKENS_MAX), (''tokens-max'', F_tokens_max, VC_VXSM_TOKENS_MAX),
      (''prio_bias'', F_priority_bias, VC_VXSM_PRIO_BIAS), (''prio-bias'', F_priority_bias, VC_VXSM_PRIO_BIAS),
      (''priority_bias'', F_priority_bias, VC_VXSM_PRIO_BIAS), (''priority-bias'', F_priority_bias, VC_VXSM_PRIO_BIAS),
      (''fill-rate2'', F_fill_rate2, VC_VXSM_FILL_RATE2), (''interval2'', F_interval2, VC_VXSM_INTERVAL2),
      (''cpu-id'', F_cpu_id, VC_VXSM_CPU_ID), (''bucket-id'', F_bucket_id, VC_VXSM_BUCKET_ID)]"

record sched_args =
  sa_xid :: xid_t
  sa_sched :: vc_set_sched_struct
  sa_dir :: "cstr option"
  sa_missing_ok :: bool

definition zero_sched :: vc_set_sched_struct where
  "zero_sched =
     \<lparr>vs_set_mask = 0, vs_fill_rate = 0, vs_interval = 0, vs_fill_rate2 = 0, vs_interval2 = 0, vs_tokens = 0,
      vs_tokens_min = 0, vs_tokens_max = 0, vs_priority_bias = 0, vs_cpu_id = 0, vs_bucket_id = 0\<rparr>"

definition sched_init :: sched_args where
  "sched_init = \<lparr>sa_xid = VC_NOCTX, sa_sched = zero_sched, sa_dir = None, sa_missing_ok = False\<rparr>"

definition SETVAL :: "sched_field \<Rightarrow> u32 \<Rightarrow> cstr \<Rightarrow> sched_args \<Rightarrow> int + sched_args" where
  "SETVAL f msk optarg a =
     (case isNumber optarg False of
        None \<Rightarrow> Inl 255
      | Some n \<Rightarrow>
          (let s = sched_put f (word_of_int n) (sa_sched a)
           in Inr (a\<lparr>sa_sched := s\<lparr>vs_set_mask := vs_set_mask s OR msk\<rparr>\<rparr>)))"

definition add_mask :: "u32 \<Rightarrow> sched_args \<Rightarrow> sched_args" where
  "add_mask msk a = a\<lparr>sa_sched := (sa_sched a)\<lparr>vs_set_mask := vs_set_mask (sa_sched a) OR msk\<rparr>\<rparr>"

fun sched_option :: "xid_t \<Rightarrow> (cstr \<Rightarrow> bool \<Rightarrow> vcCtxType \<Rightarrow> xid_t) \<Rightarrow> sched_opt \<Rightarrow> sched_args \<Rightarrow> int + sched_args" where
  "sched_option task getctx ScHelp a = Inl 0"
| "sched_option task getctx ScVersion a = Inl 0"
| "sched_option task getctx (ScXid s) a =
     (let (x, err) = vc_xidopt2xid task getctx s True in if x = VC_NOCTX then Inl 255 else Inr (a\<lparr>sa_xid := x\<rparr>))"
| "sched_option task getctx (ScSet name s) a =
     (case map_of SET_OPTIONS name of None \<Rightarrow> Inl 1 | Some (f, msk) \<Rightarrow> SETVAL f msk s a)"
| "sched_option task getctx (ScCpuMask s) a = Inr a"
| "sched_option task getctx (ScDir s) a = Inr (a\<lparr>sa_dir := Some s\<rparr>)"
| "sched_option task getctx ScMissing a = Inr (a\<lparr>sa_missing_ok := True\<rparr>)"
| "sched_option task getctx ScForce a = Inr (add_mask VC_VXSM_FORCE a)"
| "sched_option task getctx ScIdle a = Inr (add_mask VC_VXSM_IDLE_TIME a)"
| "sched_option task getctx ScOther a = Inl 1"

definition sched_run ::
  "vc_set_sched_struct \<Rightarrow> (cstr \<Rightarrow> (cstr \<times> sched_entry) list option) \<Rightarrow> xid_t \<Rightarrow> sched_args \<Rightarrow> cstr list \<Rightarrow> sched_call prog" where
  "sched_run junk dirs xid a argv =
     (let run = (if argv \<noteq> [] then Exec argv (End 255) else End 0); m = vs_set_mask (sa_sched a)
      in case sa_dir a of
           Some d \<Rightarrow> do_dir junk xid (sa_sched a) (dirs d) (sa_missing_ok a) run
         | None \<Rightarrow> if m \<noteq> 0 \<and> m \<noteq> VC_VXSM_FORCE then must 255 (Set_sched xid (sa_sched a)) run else run)"

definition vsched ::
  "xid_t \<Rightarrow> (cstr \<Rightarrow> bool \<Rightarrow> vcCtxType \<Rightarrow> xid_t) \<Rightarrow> vc_set_sched_struct \<Rightarrow> (cstr \<Rightarrow> (cstr \<times> sched_entry) list option) \<Rightarrow>
   sched_opt list \<Rightarrow> cstr list \<Rightarrow> sched_call prog" where
  "vsched task getctx junk dirs opts argv =
     (case run_options (sched_option task getctx) opts sched_init of
        Inl c \<Rightarrow> End c
      | Inr a \<Rightarrow>
          if sa_xid a = VC_NOCTX \<and> argv = [] then End 255
          else if vs_set_mask (sa_sched a) = 0 \<and> sa_dir a = None \<and> argv = [] then End 255
          else if sa_xid a = VC_NOCTX
          then if task = VC_NOCTX then End 255 else sched_run junk dirs task a argv
          else sched_run junk dirs (sa_xid a) a argv)"

section \<open>The settings of one CPU do not leak to another\<close>

fun sched_get :: "sched_field \<Rightarrow> vc_set_sched_struct \<Rightarrow> u32" where
  "sched_get F_fill_rate s = vs_fill_rate s"
| "sched_get F_interval s = vs_interval s"
| "sched_get F_tokens s = vs_tokens s"
| "sched_get F_tokens_min s = vs_tokens_min s"
| "sched_get F_tokens_max s = vs_tokens_max s"
| "sched_get F_priority_bias s = vs_priority_bias s"
| "sched_get F_fill_rate2 s = vs_fill_rate2 s"
| "sched_get F_interval2 s = vs_interval2 s"
| "sched_get F_cpu_id s = vs_cpu_id s"
| "sched_get F_bucket_id s = vs_bucket_id s"
| "sched_get F_set_mask s = vs_set_mask s"

text \<open>The bit of the mask that says that a member counts.\<close>

fun field_bit :: "sched_field \<Rightarrow> nat option" where
  "field_bit F_fill_rate = Some 0"
| "field_bit F_interval = Some 1"
| "field_bit F_fill_rate2 = Some 2"
| "field_bit F_interval2 = Some 3"
| "field_bit F_tokens = Some 4"
| "field_bit F_tokens_min = Some 5"
| "field_bit F_tokens_max = Some 6"
| "field_bit F_priority_bias = Some 8"
| "field_bit F_cpu_id = Some 12"
| "field_bit F_bucket_id = Some 13"
| "field_bit F_set_mask = None"

definition from_dir :: "(cstr \<times> sched_entry) list \<Rightarrow> vc_set_sched_struct \<Rightarrow> bool" where
  "from_dir es s \<longleftrightarrow>
     (\<forall>f b. field_bit f = Some b \<longrightarrow> bit (vs_set_mask s) b \<longrightarrow>
        (\<exists>name c msk. (name, SFile (Some c)) \<in> set es \<and> map_of FILE_OPTIONS name = Some (msk, f) \<and>
           sched_value c = Some (sched_get f s)))"

lemma vxsm_bits:
  "bit VC_VXSM_FILL_RATE k \<longleftrightarrow> k = 0" "bit VC_VXSM_INTERVAL k \<longleftrightarrow> k = 1" "bit VC_VXSM_FILL_RATE2 k \<longleftrightarrow> k = 2"
  "bit VC_VXSM_INTERVAL2 k \<longleftrightarrow> k = 3" "bit VC_VXSM_TOKENS k \<longleftrightarrow> k = 4" "bit VC_VXSM_TOKENS_MIN k \<longleftrightarrow> k = 5"
  "bit VC_VXSM_TOKENS_MAX k \<longleftrightarrow> k = 6" "bit VC_VXSM_PRIO_BIAS k \<longleftrightarrow> k = 8" "bit VC_VXSM_IDLE_TIME k \<longleftrightarrow> k = 9"
  "bit VC_VXSM_FORCE k \<longleftrightarrow> k = 10" "bit VC_VXSM_CPU_ID k \<longleftrightarrow> k = 12" "bit VC_VXSM_BUCKET_ID k \<longleftrightarrow> k = 13"
proof -
  have n: "VC_VXSM_FILL_RATE = 2 ^ 0" "VC_VXSM_INTERVAL = 2 ^ 1" "VC_VXSM_FILL_RATE2 = 2 ^ 2" "VC_VXSM_INTERVAL2 = 2 ^ 3"
    "VC_VXSM_TOKENS = 2 ^ 4" "VC_VXSM_TOKENS_MIN = 2 ^ 5" "VC_VXSM_TOKENS_MAX = 2 ^ 6" "VC_VXSM_PRIO_BIAS = 2 ^ 8"
    "VC_VXSM_IDLE_TIME = 2 ^ 9" "VC_VXSM_FORCE = 2 ^ 10" "VC_VXSM_CPU_ID = 2 ^ 12" "VC_VXSM_BUCKET_ID = 2 ^ 13"
    by (simp_all add: VC_VXSM_FILL_RATE_def VC_VXSM_INTERVAL_def VC_VXSM_FILL_RATE2_def VC_VXSM_INTERVAL2_def
        VC_VXSM_TOKENS_def VC_VXSM_TOKENS_MIN_def VC_VXSM_TOKENS_MAX_def VC_VXSM_PRIO_BIAS_def VC_VXSM_IDLE_TIME_def
        VC_VXSM_FORCE_def VC_VXSM_CPU_ID_def VC_VXSM_BUCKET_ID_def)
  show "bit VC_VXSM_FILL_RATE k \<longleftrightarrow> k = 0" "bit VC_VXSM_INTERVAL k \<longleftrightarrow> k = 1" "bit VC_VXSM_FILL_RATE2 k \<longleftrightarrow> k = 2"
    "bit VC_VXSM_INTERVAL2 k \<longleftrightarrow> k = 3" "bit VC_VXSM_TOKENS k \<longleftrightarrow> k = 4" "bit VC_VXSM_TOKENS_MIN k \<longleftrightarrow> k = 5"
    "bit VC_VXSM_TOKENS_MAX k \<longleftrightarrow> k = 6" "bit VC_VXSM_PRIO_BIAS k \<longleftrightarrow> k = 8" "bit VC_VXSM_IDLE_TIME k \<longleftrightarrow> k = 9"
    "bit VC_VXSM_FORCE k \<longleftrightarrow> k = 10" "bit VC_VXSM_CPU_ID k \<longleftrightarrow> k = 12" "bit VC_VXSM_BUCKET_ID k \<longleftrightarrow> k = 13"
    by (simp_all only: n bit_exp_iff) auto
qed

lemma FILE_OPTIONS_bits:
  assumes "map_of FILE_OPTIONS name = Some (msk, f)"
  shows "bit msk b \<longleftrightarrow> field_bit f = Some b \<or> b = 9 \<and> f \<in> {F_fill_rate2, F_interval2, F_set_mask}"
  using map_of_SomeD [OF assms] by (auto simp: FILE_OPTIONS_def bit_or_iff vxsm_bits)

lemma sched_get_put: "f \<noteq> F_set_mask \<Longrightarrow> g \<noteq> F_set_mask \<Longrightarrow> sched_get g (sched_put f v s) = (if g = f then v else sched_get g s)"
  by (cases f; cases g) auto

lemma sched_put_mask: "f \<noteq> F_set_mask \<Longrightarrow> vs_set_mask (sched_put f v s) = vs_set_mask s"
  by (cases f) auto

lemma sched_get_mask: "g \<noteq> F_set_mask \<Longrightarrow> sched_get g (s\<lparr>vs_set_mask := m\<rparr>) = sched_get g s"
  by (cases g) auto

lemma field_bit_inj: "field_bit f = Some b \<Longrightarrow> field_bit g = Some b \<Longrightarrow> f = g"
  by (cases f; cases g) auto

lemma field_bit_not_9: "field_bit f \<noteq> Some 9"
  by (cases f) auto

text \<open>One file: either it sets one member and its bit, or it leaves all members that count.\<close>

lemma do_dir_entry_sets:
  assumes "do_dir_entry name content s = Inr s'" "field_bit g = Some b" "bit (vs_set_mask s') b"
  shows "bit (vs_set_mask s) b \<and> sched_get g s' = sched_get g s \<or>
    (\<exists>c msk. content = Some c \<and> map_of FILE_OPTIONS name = Some (msk, g) \<and> sched_value c = Some (sched_get g s'))"
proof (cases "map_of FILE_OPTIONS name")
  case None
  with assms show ?thesis by (simp add: do_dir_entry_def)
next
  case (Some mf)
  obtain msk f where mf: "mf = (msk, f)" by (cases mf)
  have g: "g \<noteq> F_set_mask" using assms(2) by auto
  note bits = FILE_OPTIONS_bits [OF Some [unfolded mf], of b]
  have b9: "b \<noteq> 9" using assms(2) field_bit_not_9 [of g] by auto
  show ?thesis
  proof (cases "f = F_set_mask")
    case True
    then show ?thesis using assms Some b9 bits g by (auto simp: do_dir_entry_def mf bit_or_iff sched_get_mask)
  next
    case False
    with assms(1) Some obtain c v where c: "content = Some c" "sched_value c = Some v"
      and s': "s' = (sched_put f v s)\<lparr>vs_set_mask := vs_set_mask (sched_put f v s) OR msk\<rparr>"
      by (auto simp: do_dir_entry_def mf split: option.splits)
    show ?thesis
    proof (cases "f = g")
      case True
      then show ?thesis using c Some g by (simp add: mf s' sched_get_mask sched_get_put)
    next
      case ne: False
      then have "\<not> bit msk b" using bits b9 assms(2) field_bit_inj by blast
      then show ?thesis using assms(3) False g ne
        by (simp add: s' sched_get_mask sched_get_put sched_put_mask bit_or_iff)
    qed
  qed
qed

lemma dir_files_from:
  assumes "dir_files es s = Inr s'" "field_bit g = Some b" "bit (vs_set_mask s') b"
  shows "bit (vs_set_mask s) b \<and> sched_get g s' = sched_get g s \<or>
    (\<exists>name c msk. (name, SFile (Some c)) \<in> set es \<and> map_of FILE_OPTIONS name = Some (msk, g) \<and>
       sched_value c = Some (sched_get g s'))"
  using assms(1)
proof (induction es s rule: dir_files.induct)
  case (1 s)
  with assms(3) show ?case by simp
next
  case (2 name d es s)
  then show ?case by auto
next
  case (3 name c es s)
  then obtain t where t: "do_dir_entry name c s = Inr t" "dir_files es t = Inr s'" by (auto split: sum.splits)
  from 3(1) [OF t] consider "bit (vs_set_mask t) b" "sched_get g s' = sched_get g t" |
      name' c' msk where "(name', SFile (Some c')) \<in> set es" "map_of FILE_OPTIONS name' = Some (msk, g)"
        "sched_value c' = Some (sched_get g s')" by blast
  then show ?case
  proof cases
    case 1
    from do_dir_entry_sets [OF t(1) assms(2) 1(1)] 1(2) show ?thesis by auto
  next
    case 2
    then show ?thesis by auto
  qed
qed

definition cpu_dirs :: "(cstr \<times> sched_entry) list \<Rightarrow> (cstr \<times> sched_entry) list set" where
  "cpu_dirs es = {d. \<exists>name. (name, SDir (Some d)) \<in> set es}"

lemma cpu_dirs_simps [simp]:
  "cpu_dirs [] = {}" "cpu_dirs ((name, SFile c) # es) = cpu_dirs es" "cpu_dirs ((name, SDir None) # es) = cpu_dirs es"
  "cpu_dirs ((name, SDir (Some d)) # es) = insert d (cpu_dirs es)"
  by (auto simp: cpu_dirs_def)

text \<open>
  In a request for a CPU every value that counts was read from a file of the directory of that CPU: nothing of the options,
  of the outer directory or of another CPU is left in it.
\<close>

lemma do_cpus_requests:
  assumes "performs (do_cpus xid m es s k) t e" "\<And>t e. performs k t e \<Longrightarrow> t = []"
  shows "\<forall>(c, r) \<in> set t. \<exists>d \<in> cpu_dirs es. \<exists>s'. c = Set_sched xid s' \<and> from_dir d s'"
  using assms
proof (induction xid m es s k arbitrary: t rule: do_cpus.induct)
  case (1 xid msk s k)
  then have "t = []" by simp
  then show ?case by simp
next
  case (2 xid msk name c es s k)
  from 2(1) [OF 2(2) [unfolded do_cpus.simps] 2(3)] show ?case by fastforce
next
  case (3 xid msk name d es s k)
  show ?case
  proof (cases d)
    case None
    with 3 show ?thesis by (simp add: do_dir_cpu_def)
  next
    case (Some fs)
    let ?s = "s\<lparr>vs_set_mask := msk AND (VC_VXSM_IDLE_TIME OR VC_VXSM_FORCE)\<rparr>"
    show ?thesis
    proof (cases "dir_files fs ?s")
      case (Inl c)
      with 3 Some show ?thesis by (simp add: do_dir_cpu_def)
    next
      case (Inr s')
      have "from_dir fs s'"
        unfolding from_dir_def
      proof (intro allI impI)
        fix f b
        assume f: "field_bit f = Some b" "bit (vs_set_mask s') b"
        have "b \<noteq> 9" "b \<noteq> 10" using f(1) field_bit_not_9 [of f] by (auto, cases f, auto)
        then have "\<not> bit (vs_set_mask ?s) b" by (simp add: bit_and_iff bit_or_iff vxsm_bits)
        with dir_files_from [OF Inr f]
        show "\<exists>name c msk. (name, SFile (Some c)) \<in> set fs \<and> map_of FILE_OPTIONS name = Some (msk, f) \<and>
            sched_value c = Some (sched_get f s')" by blast
      qed
      then have here: "\<exists>d \<in> cpu_dirs ((name, SDir (Some fs)) # es). \<exists>s''. Set_sched xid s' = Set_sched xid s'' \<and> from_dir d s''"
        by auto
      from 3(2) have "performs (must 1 (Set_sched xid s') (do_cpus xid msk es s' k)) t e"
        by (simp add: do_dir_cpu_def Some Inr)
      then consider n u where "t = (Set_sched xid s', Done n) # u" "performs (do_cpus xid msk es s' k) u e"
        | err where "t = [(Set_sched xid s', Failed err)]" by (auto simp: performs_must)
      then show ?thesis
      proof cases
        case 1
        from 3(1) [OF 1(2) 3(3)] have "\<forall>(c, r) \<in> set u. \<exists>d \<in> cpu_dirs ((name, SDir (Some fs)) # es).
            \<exists>s'. c = Set_sched xid s' \<and> from_dir d s'" by fastforce
        with here 1(1) show ?thesis unfolding Some by (simp del: cpu_dirs_simps)
      next
        case 2
        with here show ?thesis unfolding Some by (simp del: cpu_dirs_simps)
      qed
    qed
  qed
qed

text \<open>
  C24. When \<^verbatim>\<open>vsched\<close> reads a directory, every request after the first is for a CPU, and each of its values that
  counts was read from a file of the directory of that CPU: nothing of the options, of the outer directory or of another
  CPU is left in it.
\<close>

theorem vsched_cpu_requests:
  assumes "run_options (sched_option task getctx) opts sched_init = Inr a" "sa_dir a = Some d" "dirs d = Some es"
    "performs (vsched task getctx junk dirs opts argv) t e"
  shows "\<forall>(c, r) \<in> set (tl t). \<exists>d' \<in> cpu_dirs es. \<exists>x s'. c = Set_sched x s' \<and> from_dir d' s'"
proof -
  let ?run = "if argv \<noteq> [] then Exec argv (End 255) else End 0"
  have quiet: "performs ?run t e \<Longrightarrow> t = []" for t e by (auto split: if_splits)
  from assms consider "t = []" | x where "performs (do_dir junk x (sa_sched a) (Some es) (sa_missing_ok a) ?run) t e"
    by (auto simp: vsched_def sched_run_def Let_def split: if_splits)
  then show ?thesis
  proof cases
    case 1
    then show ?thesis by simp
  next
    case 2
    show ?thesis
    proof (cases "dir_files es (sa_sched a)")
      case (Inl c)
      with 2 show ?thesis by (simp add: do_dir_def)
    next
      case (Inr s')
      with 2 consider err where "t = [(Set_sched x s', Failed err)]"
        | n u where "t = (Set_sched x s', Done n) # u" "performs (do_cpus x (vs_set_mask s') es junk ?run) u e"
        by (auto simp: do_dir_def performs_must)
      then show ?thesis
      proof cases
        case 1
        then show ?thesis by simp
      next
        case 2
        from do_cpus_requests [OF 2(2) quiet] 2(1) show ?thesis by fastforce
      qed
    qed
  qed
qed

theorem vsched_cpu_requests_witness:
  "\<exists>t. performs (vsched 1 (\<lambda>_ _ _. VC_NOCTX) zero_sched (\<lambda>_. Some [(''cpu0'', SDir (Some [(''tokens'', SFile (Some ''7''))]))])
      [ScDir ''d''] [''c'']) t (Running [''c'']) \<and> length t = 2 \<and>
    (\<forall>(c, r) \<in> set (tl t). \<exists>d' \<in> cpu_dirs [(''cpu0'', SDir (Some [(''tokens'', SFile (Some ''7''))]))].
       \<exists>x s'. c = Set_sched x s' \<and> from_dir d' s')"
proof -
  let ?es = "[(''cpu0'', SDir (Some [(''tokens'', SFile (Some ''7''))]))]"
  let ?p = "vsched 1 (\<lambda>_ _ _. VC_NOCTX) zero_sched (\<lambda>_. Some ?es) [ScDir ''d''] [''c'']"
  have v: "sched_value ''7'' = Some 7" by code_simp
  have "\<exists>t. run_prog ?p (\<lambda>_ _. Done 0) True [] = (t, Running [''c'']) \<and> length t = 2"
    by (simp add: vsched_def sched_init_def zero_sched_def VC_NOCTX_def sched_run_def do_dir_def do_dir_cpu_def
        do_dir_entry_def FILE_OPTIONS_def v must_def)
  then obtain t where t: "performs ?p t (Running [''c''])" "length t = 2" using run_prog_performs by fastforce
  have opts: "run_options (sched_option 1 (\<lambda>_ _ _. VC_NOCTX)) [ScDir ''d''] sched_init = Inr (sched_init\<lparr>sa_dir := Some ''d''\<rparr>)"
    by (simp add: sched_init_def)
  from vsched_cpu_requests [OF opts _ _ t(1), of "''d''" ?es] t show ?thesis by fastforce
qed

end
