(* ===== verification/UnameTool.thy ===== *)
theory UnameTool
  imports Contexts "HOL-Library.AList"
begin

text \<open>
  \<^verbatim>\<open>vuname\<close>, which shows and sets the host information of a context: from options, from a directory with one
  file per entry, or on standard output.
\<close>

section \<open>Tags\<close>

text \<open>\<open>UTS_STRINGS\<close>, in the order of \<^verbatim>\<open>vc_uts_type\<close>.\<close>

definition UTS_STRINGS :: "cstr list" where
  "UTS_STRINGS = [''CONTEXT'', ''SYSNAME'', ''NODENAME'', ''RELEASE'', ''VERSION'', ''MACHINE'', ''DOMAINNAME'']"

text \<open>\<open>str\<close> is the tag; \<^verbatim>\<open>strncasecmp\<close> looks at no more characters than it has.\<close>

definition findUtsIdx :: "cstr \<Rightarrow> nat option" where
  "findUtsIdx str = find_idx (\<lambda>s. strncasecmp (length str) s str = 0) UTS_STRINGS"

text \<open>The values set so far, by index.\<close>

type_synonym uts_tags = "(nat \<times> cstr) list"

definition registerValue :: "cstr \<Rightarrow> uts_tags \<Rightarrow> uts_tags option" where
  "registerValue str tags =
     (let name = takeWhile (\<lambda>c. c \<noteq> CHR ''='') str; rest = dropWhile (\<lambda>c. c \<noteq> CHR ''='') str
      in map_option (\<lambda>i. AList.update i (tl rest) tags) (findUtsIdx name))"

section \<open>The program\<close>

datatype uname_call = Un_set_vhi xid_t nat cstr | Un_print cstr

text \<open>
  What is read of the system: whether \<^verbatim>\<open>stat\<close> finds the directory, the files that can be opened, and the
  entries of the context.
\<close>

record uname_host =
  uh_stat :: "cstr \<Rightarrow> errno option"
  uh_file :: "cstr \<Rightarrow> cstr option"
  uh_vhi :: "xid_t \<Rightarrow> nat \<Rightarrow> cstr option"
  uh_task :: xid_t
  uh_getctx :: "cstr \<Rightarrow> bool \<Rightarrow> vcCtxType \<Rightarrow> xid_t"

definition dir_slash :: "cstr \<Rightarrow> cstr" where
  "dir_slash pathname = (if pathname \<noteq> [] \<and> last pathname \<noteq> CHR ''/'' then pathname @ ''/'' else pathname)"

definition strip_newlines :: "cstr \<Rightarrow> cstr" where
  "strip_newlines s = rev (dropWhile (\<lambda>c. c = NL) (rev s))"

fun uts_files :: "uname_host \<Rightarrow> cstr \<Rightarrow> xid_t \<Rightarrow> nat \<Rightarrow> cstr list \<Rightarrow> uname_call prog \<Rightarrow> uname_call prog" where
  "uts_files h dir ctx i [] k = k"
| "uts_files h dir ctx i (s # ss) k =
     (case uh_file h (dir @ map tolower s) of
        None \<Rightarrow> uts_files h dir ctx (i + 1) ss k
      | Some c \<Rightarrow> must 255 (Un_set_vhi ctx i (strip_newlines c)) (uts_files h dir ctx (i + 1) ss k))"

definition uname_setFromDir :: "uname_host \<Rightarrow> cstr \<Rightarrow> bool \<Rightarrow> xid_t \<Rightarrow> uname_call prog \<Rightarrow> uname_call prog" where
  "uname_setFromDir h pathname missing ctx k =
     (case uh_stat h pathname of
        Some e \<Rightarrow> if e = ENOENT \<and> missing then k else End 255
      | None \<Rightarrow> uts_files h (dir_slash pathname) ctx 0 UTS_STRINGS k)"

definition printUtsValue :: "uname_host \<Rightarrow> xid_t \<Rightarrow> nat \<Rightarrow> uname_call prog \<Rightarrow> uname_call prog" where
  "printUtsValue h ctx i = ignore (Un_print (case uh_vhi h ctx i of None \<Rightarrow> ''???'' | Some v \<Rightarrow> v))"

text \<open>The loops of \<^verbatim>\<open>main\<close>: the values of all options, of all entries, and of the entries the arguments name.\<close>

fun set_tags :: "xid_t \<Rightarrow> nat list \<Rightarrow> uts_tags \<Rightarrow> uname_call prog \<Rightarrow> uname_call prog" where
  "set_tags ctx [] tags k = k"
| "set_tags ctx (i # is) tags k =
     (case map_of tags i of
        None \<Rightarrow> set_tags ctx is tags k
      | Some v \<Rightarrow> must 255 (Un_set_vhi ctx i v) (set_tags ctx is tags k))"

fun print_all :: "uname_host \<Rightarrow> xid_t \<Rightarrow> cstr \<Rightarrow> nat list \<Rightarrow> uname_call prog" where
  "print_all h ctx delim [] = ignore (Un_print [NL]) (End 0)"
| "print_all h ctx delim (i # is) = ignore (Un_print delim) (printUtsValue h ctx i (print_all h ctx '' '' is))"

fun print_named :: "uname_host \<Rightarrow> xid_t \<Rightarrow> cstr \<Rightarrow> cstr list \<Rightarrow> uname_call prog" where
  "print_named h ctx delim [] = ignore (Un_print [NL]) (End 0)"
| "print_named h ctx delim (s # ss) =
     (case findUtsIdx s of
        None \<Rightarrow> End 255
      | Some i \<Rightarrow> ignore (Un_print delim) (printUtsValue h ctx i (print_named h ctx '' '' ss)))"

datatype uname_opt = UnHelp | UnVersion | UnDir cstr | UnMissing | UnGet | UnSet | UnXid cstr | UnTag cstr | UnOther

record uname_args =
  ua_tags :: uts_tags
  ua_xid :: xid_t
  ua_set :: bool
  ua_dir :: "cstr option"
  ua_missing :: bool

definition uname_init :: uname_args where
  "uname_init = \<lparr>ua_tags = [], ua_xid = VC_NOCTX, ua_set = False, ua_dir = None, ua_missing = False\<rparr>"

fun uname_option :: "uname_host \<Rightarrow> uname_opt \<Rightarrow> uname_args \<Rightarrow> int + uname_args" where
  "uname_option h UnHelp a = Inl 0"
| "uname_option h UnVersion a = Inl 0"
| "uname_option h (UnDir s) a = Inr (a\<lparr>ua_dir := Some s\<rparr>)"
| "uname_option h UnMissing a = Inr (a\<lparr>ua_missing := True\<rparr>)"
| "uname_option h UnGet a = Inr (a\<lparr>ua_set := False\<rparr>)"
| "uname_option h UnSet a = Inr (a\<lparr>ua_set := True\<rparr>)"
| "uname_option h (UnXid s) a = Eidopt (vc_xidopt2xid (uh_task h) (uh_getctx h) s True) (\<lambda>x. a\<lparr>ua_xid := x\<rparr>)"
| "uname_option h (UnTag s) a =
     (case registerValue s (ua_tags a) of None \<Rightarrow> Inl 255 | Some t \<Rightarrow> Inr (a\<lparr>ua_tags := t\<rparr>))"
| "uname_option h UnOther a = Inl 1"

definition vuname :: "uname_host \<Rightarrow> uname_opt list \<Rightarrow> cstr list \<Rightarrow> uname_call prog" where
  "vuname h opts argv =
     (case run_options (uname_option h) opts uname_init of
        Inl c \<Rightarrow> End c
      | Inr a \<Rightarrow>
          (let run = (if argv \<noteq> [] then Exec argv (End 255) else End 0); all = [0..<length UTS_STRINGS]
           in if ua_xid a = VC_NOCTX then End 255
              else case ua_dir a of
                     Some d \<Rightarrow> uname_setFromDir h d (ua_missing a) (ua_xid a) run
                   | None \<Rightarrow>
                       if ua_set a then set_tags (ua_xid a) all (ua_tags a) run
                       else if argv = [] then print_all h (ua_xid a) [] all
                       else print_named h (ua_xid a) [] argv))"

section \<open>Names of entries\<close>

text \<open>Every entry is found under its own name, in upper or lower case; shorter texts name the first entry they begin.\<close>

lemma findUtsIdx_names:
  assumes "i < length UTS_STRINGS"
  shows "findUtsIdx (UTS_STRINGS ! i) = Some i \<and> findUtsIdx (map tolower (UTS_STRINGS ! i)) = Some i"
proof -
  have "\<forall>i \<in> set [0..<7]. findUtsIdx (UTS_STRINGS ! i) = Some i \<and> findUtsIdx (map tolower (UTS_STRINGS ! i)) = Some i"
    by code_simp
  with assms show ?thesis by (simp add: UTS_STRINGS_def)
qed

lemma findUtsIdx_short: "findUtsIdx '''' = Some 0 \<and> findUtsIdx ''n'' = Some 2 \<and> findUtsIdx ''nodenames'' = None"
  by code_simp

text \<open>The entry found is the first one whose name the text begins, whatever the case.\<close>

lemma findUtsIdx_first:
  assumes "is_cstr str" "findUtsIdx str = Some i"
  shows "i < 7 \<and> prefix (map tolower str) (map tolower (UTS_STRINGS ! i)) \<and>
    (\<forall>j<i. \<not> prefix (map tolower str) (map tolower (UTS_STRINGS ! j)))"
proof -
  have names: "\<forall>s \<in> set UTS_STRINGS. is_cstr s" by code_simp
  have eq: "strncasecmp (length str) s str = 0 \<longleftrightarrow> prefix (map tolower str) (map tolower s)" if "is_cstr s" for s
  proof -
    have "strncasecmp (length str) s str = 0 \<longleftrightarrow> take (length str) (map tolower s) = map tolower str"
      using assms(1) that by (simp add: strncasecmp_0_iff take_map)
    also have "\<dots> \<longleftrightarrow> prefix (map tolower str) (map tolower s)"
      by (metis append_eq_conv_conj length_map prefix_def)
    finally show ?thesis .
  qed
  from find_idx_Some [OF assms(2) [unfolded findUtsIdx_def]] names eq
  have "i < length UTS_STRINGS" "prefix (map tolower str) (map tolower (UTS_STRINGS ! i))"
    "\<forall>j<i. \<not> prefix (map tolower str) (map tolower (UTS_STRINGS ! j))" by auto
  then show ?thesis by (simp add: UTS_STRINGS_def)
qed

section \<open>What is set\<close>

text \<open>The requests for the given values, and for the files of a directory.\<close>

definition tag_requests :: "xid_t \<Rightarrow> nat list \<Rightarrow> uts_tags \<Rightarrow> uname_call list" where
  "tag_requests ctx is tags = concat (map (\<lambda>i. case map_of tags i of None \<Rightarrow> [] | Some v \<Rightarrow> [Un_set_vhi ctx i v]) is)"

definition file_requests :: "uname_host \<Rightarrow> cstr \<Rightarrow> xid_t \<Rightarrow> nat list \<Rightarrow> uname_call list" where
  "file_requests h dir ctx is =
     concat (map (\<lambda>i. case uh_file h (dir @ map tolower (UTS_STRINGS ! i)) of
                        None \<Rightarrow> [] | Some c \<Rightarrow> [Un_set_vhi ctx i (strip_newlines c)]) is)"

lemma set_tags_adds: "adds Some {tag_requests ctx is tags} (set_tags ctx is tags)"
proof (induction "is")
  case Nil
  show ?case by (simp add: tag_requests_def adds_nothing)
next
  case (Cons i "is")
  show ?case
  proof (cases "map_of tags i")
    case None
    with Cons show ?thesis by (simp add: tag_requests_def)
  next
    case (Some v)
    from adds_comp [OF adds_must [of Some, OF refl, of "Un_set_vhi ctx i v"] Cons] Some
    show ?thesis by (simp add: tag_requests_def)
  qed
qed

lemma uts_files_adds:
  "i + length ss = length UTS_STRINGS \<Longrightarrow> ss = drop i UTS_STRINGS \<Longrightarrow>
   adds Some {file_requests h dir ctx [i..<length UTS_STRINGS]} (uts_files h dir ctx i ss)"
proof (induction ss arbitrary: i)
  case Nil
  then show ?case by (simp add: file_requests_def adds_nothing)
next
  case (Cons s ss)
  from Cons.prems(1) have len: "i < length UTS_STRINGS" by (simp del: diff_add_inverse)
  with Cons.prems(2) have "s # ss = UTS_STRINGS ! i # drop (Suc i) UTS_STRINGS" by (simp add: Cons_nth_drop_Suc)
  with len have i: "i < length UTS_STRINGS" "s = UTS_STRINGS ! i" "ss = drop (Suc i) UTS_STRINGS" by simp_all
  have IH: "adds Some {file_requests h dir ctx [Suc i..<length UTS_STRINGS]} (uts_files h dir ctx (Suc i) ss)"
    using Cons i by simp
  have upt: "[i..<length UTS_STRINGS] = i # [Suc i..<length UTS_STRINGS]" using i(1) by (rule upt_conv_Cons)
  show ?case
  proof (cases "uh_file h (dir @ map tolower s)")
    case None
    with IH show ?thesis by (simp add: upt file_requests_def i(2) [symmetric])
  next
    case (Some c)
    from adds_comp [OF adds_must [of Some, OF refl, of "Un_set_vhi ctx i (strip_newlines c)"] IH] Some
    show ?thesis by (simp add: upt file_requests_def i(2) [symmetric])
  qed
qed

lemma quiet_end: "performs (if argv \<noteq> [] then Exec argv (End 255) else End 0) v e \<Longrightarrow> v = []"
  by (auto split: if_splits)

text \<open>
  With \<^verbatim>\<open>--set\<close>, and with \<^verbatim>\<open>--dir\<close>, a run either ends in an error after some of the requests, or performs
  exactly one request per given value or file, in the order of the entries.
\<close>

lemma vuname_requests:
  assumes "run_options (uname_option h) opts uname_init = Inr a" "ua_xid a \<noteq> VC_NOCTX"
    "ua_dir a = None \<and> ua_set a \<and> want = tag_requests (ua_xid a) [0..<7] (ua_tags a) \<or>
     (\<exists>d. ua_dir a = Some d \<and> uh_stat h d = None \<and> want = file_requests h (dir_slash d) (ua_xid a) [0..<7])"
    "performs (vuname h opts argv) t e"
  shows "e = Exited 255 \<and> prefix (done_calls Some t) want \<or>
    done_calls Some t = want \<and> e \<in> {Exited 0, Running argv, Exited 255}"
proof -
  let ?run = "if argv \<noteq> [] then Exec argv (End 255) else End 0"
  have len: "length UTS_STRINGS = 7" by (simp add: UTS_STRINGS_def)
  obtain S where S: "adds Some {want} S" "performs (S ?run) t e"
    using assms(3)
  proof (elim disjE exE conjE)
    assume "ua_dir a = None" "ua_set a" "want = tag_requests (ua_xid a) [0..<7] (ua_tags a)"
    then show ?thesis using assms(1,2,4) set_tags_adds [of "ua_xid a" "[0..<7]" "ua_tags a"]
      by (intro that [of "set_tags (ua_xid a) [0..<7] (ua_tags a)"]) (simp_all add: vuname_def len Let_def)
  next
    fix d
    assume "ua_dir a = Some d" "uh_stat h d = None" "want = file_requests h (dir_slash d) (ua_xid a) [0..<7]"
    then show ?thesis using assms(1,2,4) uts_files_adds [of 0 UTS_STRINGS h "dir_slash d" "ua_xid a"]
      by (intro that [of "uts_files h (dir_slash d) (ua_xid a) 0 UTS_STRINGS"])
        (simp_all add: vuname_def uname_setFromDir_def len Let_def)
  qed
  from addsD [OF S] show ?thesis
  proof (elim disjE exE conjE)
    fix u v
    assume "t = u @ v" "done_calls Some u \<in> {want}" "performs ?run v e"
    with quiet_end [OF this(3)] show ?thesis by (auto split: if_splits)
  qed auto
qed

text \<open>The value of a file has no newlines at its end, and is otherwise unchanged.\<close>

lemma strip_newlines_spec:
  "\<exists>n. s = strip_newlines s @ replicate n NL \<and> (strip_newlines s = [] \<or> last (strip_newlines s) \<noteq> NL)"
proof -
  define n where "n = length (takeWhile (\<lambda>c. c = NL) (rev s))"
  have "takeWhile (\<lambda>c. c = NL) (rev s) = replicate n NL"
    unfolding n_def by (rule replicate_length_same [symmetric]) (auto dest: set_takeWhileD)
  then have "rev s = replicate n NL @ dropWhile (\<lambda>c. c = NL) (rev s)" by (metis takeWhile_dropWhile_id)
  then have "rev (rev s) = rev (replicate n NL @ dropWhile (\<lambda>c. c = NL) (rev s))" by (rule arg_cong)
  then have "s = strip_newlines s @ replicate n NL" by (simp add: strip_newlines_def)
  moreover have "strip_newlines s = [] \<or> last (strip_newlines s) \<noteq> NL"
    using hd_dropWhile [of "\<lambda>c. c = NL" "rev s"]
    by (cases "dropWhile (\<lambda>c. c = NL) (rev s) = []") (simp_all add: strip_newlines_def last_rev del: dropWhile_eq_Nil_conv)
  ultimately show ?thesis by blast
qed

end
