(* ===== verification/ExecTools.thy ===== *)
theory ExecTools
  imports Contexts
begin

text \<open>
  Programs that change one thing of their process and then execute a command: \<^verbatim>\<open>exec-ulimit\<close> (resource limits
  from a directory), \<^verbatim>\<open>exec-cd\<close> (a directory entered without leaving it), \<^verbatim>\<open>exec-remount\<close>,
  \<^verbatim>\<open>vsysctl\<close>, \<^verbatim>\<open>capchroot\<close> and \<^verbatim>\<open>reducecap\<close>.
\<close>

section \<open>exec-ulimit\<close>

record rlimit =
  rlim_cur :: u64
  rlim_max :: u64

definition RLIM_INFINITY :: u64 where "RLIM_INFINITY = NOT 0"
definition OLD_RLIM_INFINITY :: u64 where "OLD_RLIM_INFINITY = drop_bit 1 (NOT 0)"

text \<open>The codes are those of the headers of Linux.\<close>

definition RLIMIT_NOFILE :: nat where "RLIMIT_NOFILE = 7"

definition LIMITS :: "(cstr \<times> nat) list" where
  "LIMITS =
     [(''core'', 4), (''cpu'', 0), (''data'', 2), (''fsize'', 1), (''locks'', 10), (''memlock'', 8),
      (''nofile'', RLIMIT_NOFILE), (''nproc'', 6), (''rss'', 5), (''stack'', 3)]"

text \<open>
  \<open>ulimit_readValue\<close> on what is read of a file, at most 127 characters; \<open>None\<close> is the exit with 255. The product is
  computed in 64 bits.
\<close>

definition ulimit_readValue :: "cstr \<Rightarrow> u64 option" where
  "ulimit_readValue content =
     (let buf = takeWhile (\<lambda>c. c \<noteq> NUL) (take 127 content)
      in if strncmp 3 buf ''inf'' = 0 then Some RLIM_INFINITY
         else
           (let (res, errptr, _) = strtol 0 buf;
                (fac, rest) = (if strto_converted 0 buf then unit_suffix errptr else (1, errptr))
            in if \<not> strto_converted 0 buf \<or> rest \<noteq> [] \<and> hd rest \<noteq> NL then None
               else Some (word_of_int (res * int fac))))"

definition read_limit_file :: "(cstr \<Rightarrow> cstr option) \<Rightarrow> cstr \<Rightarrow> (u64 \<Rightarrow> rlimit \<Rightarrow> rlimit) \<Rightarrow> rlimit \<times> bool \<Rightarrow> (rlimit \<times> bool) option" where
  "read_limit_file files fname store lm =
     (case files fname of
        None \<Rightarrow> Some lm
      | Some c \<Rightarrow> map_option (\<lambda>v. (store v (fst lm), True)) (ulimit_readValue c))"

definition clamp_limit :: "rlimit \<Rightarrow> rlimit" where
  "clamp_limit l =
     (if rlim_max l \<noteq> RLIM_INFINITY \<and> (rlim_cur l = RLIM_INFINITY \<or> rlim_cur l > rlim_max l)
      then l\<lparr>rlim_cur := rlim_max l\<rparr> else l)"

definition readSingleLimit :: "(cstr \<Rightarrow> cstr option) \<Rightarrow> rlimit \<Rightarrow> cstr \<Rightarrow> (rlimit \<times> bool) option" where
  "readSingleLimit files lim fname =
     do {
       l1 \<leftarrow> read_limit_file files fname (\<lambda>v l. l\<lparr>rlim_cur := v, rlim_max := v\<rparr>) (lim, False);
       l2 \<leftarrow> read_limit_file files (fname @ ''.hard'') (\<lambda>v l. l\<lparr>rlim_max := v\<rparr>) l1;
       l3 \<leftarrow> read_limit_file files (fname @ ''.soft'') (\<lambda>v l. l\<lparr>rlim_cur := v\<rparr>) l2;
       Some (if snd l3 then (clamp_limit (fst l3), True) else l3)
     }"

datatype ulimit_call = Open_cwd | Setrlimit nat rlimit | Back_to_cwd | Close_cwd

text \<open>
  One round of the loop of \<^verbatim>\<open>main\<close>. \<open>getrlimit\<close> answers for the limits before; \<open>files\<close> are those of
  the directory, if it could be entered.
\<close>

definition start_limit :: "rlimit \<Rightarrow> rlimit" where
  "start_limit l = (if rlim_cur l = OLD_RLIM_INFINITY then l\<lparr>rlim_cur := RLIM_INFINITY\<rparr> else l)"

definition wanted_limit :: "(cstr \<Rightarrow> cstr option) option \<Rightarrow> rlimit \<Rightarrow> cstr \<Rightarrow> (rlimit \<times> bool) option" where
  "wanted_limit files l fname = (case files of None \<Rightarrow> Some (l, False) | Some fs \<Rightarrow> readSingleLimit fs l fname)"

definition ulimit_step ::
  "(nat \<Rightarrow> rlimit option) \<Rightarrow> (cstr \<Rightarrow> cstr option) option \<Rightarrow> cstr \<times> nat \<Rightarrow> ulimit_call prog \<Rightarrow> ulimit_call prog" where
  "ulimit_step getrlimit files lim k =
     (case lim of (fname, res) \<Rightarrow>
        (case getrlimit res of
           None \<Rightarrow> End 255
         | Some l0 \<Rightarrow>
             (case wanted_limit files (start_limit l0) fname of
                None \<Rightarrow> End 255
              | Some (l, True) \<Rightarrow> must 255 (Setrlimit res l) k
              | Some (l, False) \<Rightarrow>
                  if res \<noteq> RLIMIT_NOFILE then must 255 (Setrlimit res (l\<lparr>rlim_max := RLIM_INFINITY\<rparr>)) k
                  else ignore (Setrlimit res (l\<lparr>rlim_max := 1024 * 1024\<rparr>)) k)))"

fun ulimit_loop ::
  "(nat \<Rightarrow> rlimit option) \<Rightarrow> (cstr \<Rightarrow> cstr option) option \<Rightarrow> (cstr \<times> nat) list \<Rightarrow> ulimit_call prog \<Rightarrow> ulimit_call prog" where
  "ulimit_loop getrlimit files [] k = k"
| "ulimit_loop getrlimit files (l # ls) k = ulimit_step getrlimit files l (ulimit_loop getrlimit files ls k)"

definition exec_ulimit ::
  "(nat \<Rightarrow> rlimit option) \<Rightarrow> (cstr \<Rightarrow> (cstr \<Rightarrow> cstr option) option) \<Rightarrow> cstr list \<Rightarrow> ulimit_call prog" where
  "exec_ulimit getrlimit dirs args =
     must 255 Open_cwd
      (if args = [''--help''] \<or> args = [''--version''] then End 0
       else case args of
              d # cmd # argv \<Rightarrow>
                ulimit_loop getrlimit (dirs d) LIMITS
                  (when_do (dirs d \<noteq> None) (must 255 Back_to_cwd) (must 255 Close_cwd (Exec (cmd # argv) (End 255))))
            | _ \<Rightarrow> End 255)"

text \<open>A limit that was read from files is consistent, whatever they hold, and is taken over iff there is one.\<close>

lemma clamp_limit_le: "rlim_cur (clamp_limit l) \<le> rlim_max (clamp_limit l)"
proof -
  have "x \<le> RLIM_INFINITY" for x by (simp add: RLIM_INFINITY_def)
  then show ?thesis by (auto simp: clamp_limit_def not_less)
qed

lemma read_limit_file_modified:
  "read_limit_file files f store lm = Some lm' \<Longrightarrow> snd lm' \<longleftrightarrow> snd lm \<or> files f \<noteq> None"
  by (auto simp: read_limit_file_def split: option.splits)

lemma read_limit_file_same: "read_limit_file files f store lm = Some lm' \<Longrightarrow> files f = None \<Longrightarrow> lm' = lm"
  by (simp add: read_limit_file_def)

lemma readSingleLimit_sound:
  assumes "readSingleLimit files l f = Some (l', m)"
  shows "m \<longleftrightarrow> (\<exists>suffix \<in> {'''', ''.hard'', ''.soft''}. files (f @ suffix) \<noteq> None)"
    "m \<Longrightarrow> rlim_cur l' \<le> rlim_max l'" "\<not> m \<Longrightarrow> l' = l"
proof -
  from assms obtain l1 l2 l3 where
    r: "read_limit_file files f (\<lambda>v l. l\<lparr>rlim_cur := v, rlim_max := v\<rparr>) (l, False) = Some l1"
       "read_limit_file files (f @ ''.hard'') (\<lambda>v l. l\<lparr>rlim_max := v\<rparr>) l1 = Some l2"
       "read_limit_file files (f @ ''.soft'') (\<lambda>v l. l\<lparr>rlim_cur := v\<rparr>) l2 = Some l3"
    and l': "(l', m) = (if snd l3 then (clamp_limit (fst l3), True) else l3)"
    by (auto simp: readSingleLimit_def bind_eq_Some_conv)
  have m: "m = snd l3" using l' by (auto split: if_splits)
  with r [THEN read_limit_file_modified]
  show "m \<longleftrightarrow> (\<exists>suffix \<in> {'''', ''.hard'', ''.soft''}. files (f @ suffix) \<noteq> None)" by auto
  show "m \<Longrightarrow> rlim_cur l' \<le> rlim_max l'" using l' m clamp_limit_le by (auto split: if_splits)
  show "\<not> m \<Longrightarrow> l' = l"
    using l' m r [THEN read_limit_file_modified] r [THEN read_limit_file_same] by auto
qed

text \<open>
  The limit that the files ask for, as a relation: a file for both values, and files for each; without any, the soft limit
  stays and the hard one goes as far as it can.
\<close>

definition limit_given :: "(cstr \<Rightarrow> cstr option) option \<Rightarrow> cstr \<Rightarrow> bool" where
  "limit_given files f \<longleftrightarrow> (\<exists>fs. files = Some fs \<and> (\<exists>sfx \<in> {'''', ''.hard'', ''.soft''}. fs (f @ sfx) \<noteq> None))"

definition file_limit :: "(cstr \<Rightarrow> cstr option) \<Rightarrow> cstr \<Rightarrow> cstr \<Rightarrow> u64 \<Rightarrow> u64" where
  "file_limit fs f sfx old =
     (case Option.bind (fs (f @ sfx)) ulimit_readValue of
        Some v \<Rightarrow> v
      | None \<Rightarrow> (case Option.bind (fs f) ulimit_readValue of Some v \<Rightarrow> v | None \<Rightarrow> old))"

definition limit_asked :: "(cstr \<Rightarrow> cstr option) option \<Rightarrow> rlimit \<Rightarrow> cstr \<times> nat \<Rightarrow> rlimit \<Rightarrow> bool" where
  "limit_asked files old lim l \<longleftrightarrow>
     (if limit_given files (fst lim)
      then rlim_max l = file_limit (the files) (fst lim) ''.hard'' (rlim_max old) \<and>
        rlim_cur l = min (file_limit (the files) (fst lim) ''.soft'' (rlim_cur old)) (rlim_max l)
      else rlim_cur l = rlim_cur old \<and> rlim_max l = (if snd lim = RLIMIT_NOFILE then 1024 * 1024 else RLIM_INFINITY))"

lemma clamp_limit_min: "rlim_max (clamp_limit l) = rlim_max l" "rlim_cur (clamp_limit l) = min (rlim_cur l) (rlim_max l)"
proof -
  have "x \<le> RLIM_INFINITY" "RLIM_INFINITY \<le> x \<longleftrightarrow> x = RLIM_INFINITY" for x
    by (simp_all add: RLIM_INFINITY_def word_order.extremum_unique)
  then show "rlim_max (clamp_limit l) = rlim_max l" "rlim_cur (clamp_limit l) = min (rlim_cur l) (rlim_max l)"
    by (auto simp: clamp_limit_def min_def not_less)
qed

lemma readSingleLimit_asked:
  assumes "readSingleLimit fs old f = Some (l, m)"
  shows "m \<longleftrightarrow> limit_given (Some fs) f" "m \<Longrightarrow> limit_asked (Some fs) old (f, res) l"
proof -
  show m: "m \<longleftrightarrow> limit_given (Some fs) f" using readSingleLimit_sound(1) [OF assms] by (simp add: limit_given_def)
  from assms obtain l1 l2 l3 where
    r: "read_limit_file fs f (\<lambda>v l. l\<lparr>rlim_cur := v, rlim_max := v\<rparr>) (old, False) = Some l1"
       "read_limit_file fs (f @ ''.hard'') (\<lambda>v l. l\<lparr>rlim_max := v\<rparr>) l1 = Some l2"
       "read_limit_file fs (f @ ''.soft'') (\<lambda>v l. l\<lparr>rlim_cur := v\<rparr>) l2 = Some l3"
    and l: "(l, m) = (if snd l3 then (clamp_limit (fst l3), True) else l3)"
    by (auto simp: readSingleLimit_def bind_eq_Some_conv)
  have 1: "rlim_max (fst l3) = file_limit fs f ''.hard'' (rlim_max old)" "rlim_cur (fst l3) = file_limit fs f ''.soft'' (rlim_cur old)"
    using r by (auto simp: read_limit_file_def file_limit_def split: option.splits)
  assume "m"
  then have "l = clamp_limit (fst l3)" using l by (auto split: if_splits)
  then show "limit_asked (Some fs) old (f, res) l" using \<open>m\<close> m 1 by (simp add: limit_asked_def clamp_limit_min)
qed

text \<open>The requests for limits of a run.\<close>

fun limit_requests :: "(ulimit_call \<times> answer) list \<Rightarrow> (nat \<times> answer) list" where
  "limit_requests [] = []"
| "limit_requests ((Setrlimit res l, r) # t) = (res, r) # limit_requests t"
| "limit_requests ((c, r) # t) = limit_requests t"

text \<open>A request that is what the files ask for, with a soft limit that is not above the hard one where it can be.\<close>

definition good_request :: "(nat \<Rightarrow> rlimit option) \<Rightarrow> (cstr \<Rightarrow> cstr option) option \<Rightarrow> (cstr \<times> nat) list \<Rightarrow> ulimit_call \<Rightarrow> bool" where
  "good_request getrlimit files ls c \<longleftrightarrow>
     (\<forall>res l. c = Setrlimit res l \<longrightarrow>
        (\<exists>f old. (f, res) \<in> set ls \<and> getrlimit res = Some old \<and> limit_asked files (start_limit old) (f, res) l \<and>
           (rlim_cur l \<le> rlim_max l \<or> res = RLIMIT_NOFILE \<and> \<not> limit_given files f \<and> rlim_max l = 1024 * 1024)))"

lemma ulimit_step_run:
  assumes "performs (ulimit_step getrlimit files (f, res) k) t e"
  shows "t = [] \<and> e = Exited 255 \<or>
    (\<exists>l r u. t = (Setrlimit res l, r) # u \<and> good_request getrlimit files [(f, res)] (Setrlimit res l) \<and>
       (performs k u e \<and> (\<exists>n. r = Done n \<or> res = RLIMIT_NOFILE \<and> \<not> limit_given files f) \<or> u = [] \<and> e = Exited 255))"
proof (cases "getrlimit res")
  case None
  then show ?thesis using assms by (simp add: ulimit_step_def)
next
  case (Some old)
  have inf: "x \<le> RLIM_INFINITY" for x by (simp add: RLIM_INFINITY_def)
  show ?thesis
  proof (cases "wanted_limit files (start_limit old) f")
    case None
    then show ?thesis using assms Some by (simp add: ulimit_step_def)
  next
    case w: (Some lm)
    obtain l m where lm: "lm = (l, m)" by (cases lm)
    have given: "m \<longleftrightarrow> limit_given files f" "m \<Longrightarrow> limit_asked files (start_limit old) (f, res) l" "\<not> m \<Longrightarrow> l = start_limit old"
      using w lm readSingleLimit_asked readSingleLimit_sound(3)
      by (fastforce simp: wanted_limit_def limit_given_def split: option.splits)+
    define x where "x = (if m then l else l\<lparr>rlim_max := (if res = RLIMIT_NOFILE then 1024 * 1024 else RLIM_INFINITY)\<rparr>)"
    have good: "good_request getrlimit files [(f, res)] (Setrlimit res x)"
      using given Some inf by (auto simp: good_request_def x_def limit_asked_def)
    have step: "ulimit_step getrlimit files (f, res) k =
        (if m \<or> res \<noteq> RLIMIT_NOFILE then must 255 (Setrlimit res x) k else ignore (Setrlimit res x) k)"
      by (cases m) (simp_all add: ulimit_step_def Some w lm x_def)
    show ?thesis
      using assms good given(1) unfolding step by (auto simp: performs_must performs_ignore split: if_splits)
  qed
qed

lemma good_request_more: "good_request getrlimit files ls c \<Longrightarrow> set ls \<subseteq> set ls' \<Longrightarrow> good_request getrlimit files ls' c"
  unfolding good_request_def by blast

lemma limit_requests_append: "limit_requests (t @ u) = limit_requests t @ limit_requests u"
  by (induction t rule: limit_requests.induct) auto

definition limits_accepted :: "(cstr \<Rightarrow> cstr option) option \<Rightarrow> (cstr \<times> nat) list \<Rightarrow> (ulimit_call \<times> answer) list \<Rightarrow> bool" where
  "limits_accepted files ls t \<longleftrightarrow>
     list_all2 (\<lambda>(f, res) (res', r). res' = res \<and> ((\<exists>n. r = Done n) \<or> res = RLIMIT_NOFILE \<and> \<not> limit_given files f)) ls (limit_requests t)"

lemma ulimit_loop_run:
  assumes "performs (ulimit_loop getrlimit files ls k) t e"
  shows "\<exists>u v. t = u @ v \<and> (\<forall>(c, r) \<in> set u. good_request getrlimit files ls c) \<and>
    (v = [] \<and> e = Exited 255 \<or> performs k v e \<and> limits_accepted files ls u)"
  using assms
proof (induction ls arbitrary: t)
  case Nil
  then show ?case by (intro exI [of _ "[]"] exI [of _ t]) (simp add: limits_accepted_def)
next
  case (Cons lim ls)
  obtain f res where lim: "lim = (f, res)" by (cases lim)
  from Cons.prems have "performs (ulimit_step getrlimit files (f, res) (ulimit_loop getrlimit files ls k)) t e" by (simp add: lim)
  from ulimit_step_run [OF this]
  consider (stop) "t = []" "e = Exited 255"
    | (last) l r where "t = [(Setrlimit res l, r)]" "good_request getrlimit files [(f, res)] (Setrlimit res l)" "e = Exited 255"
    | (more) l r u where "t = (Setrlimit res l, r) # u" "good_request getrlimit files [(f, res)] (Setrlimit res l)"
        "performs (ulimit_loop getrlimit files ls k) u e" "\<exists>n. r = Done n \<or> res = RLIMIT_NOFILE \<and> \<not> limit_given files f"
    by blast
  then show ?case
  proof cases
    case stop
    then show ?thesis by (intro exI [of _ "[]"]) simp
  next
    case last
    then show ?thesis
      using good_request_more [OF last(2), of "lim # ls"] by (intro exI [of _ t] exI [of _ "[]"]) (simp add: lim)
  next
    case more
    from Cons.IH [OF more(3)] obtain v w where vw: "u = v @ w" "\<forall>(c, r) \<in> set v. good_request getrlimit files ls c"
      "w = [] \<and> e = Exited 255 \<or> performs k w e \<and> limits_accepted files ls v" by blast
    have "\<forall>(c, r) \<in> set ((Setrlimit res l, r) # v). good_request getrlimit files (lim # ls) c"
      using vw(2) good_request_more [OF more(2), of "lim # ls"] good_request_more [of getrlimit files ls _ "lim # ls"] by (auto simp: lim)
    moreover have "limits_accepted files ls v \<Longrightarrow> limits_accepted files (lim # ls) ((Setrlimit res l, r) # v)"
      using more(4) by (auto simp: limits_accepted_def lim)
    ultimately show ?thesis
      using vw(1,3) more(1) by (intro exI [of _ "(Setrlimit res l, r) # v"] exI [of _ w]) (simp only: append_Cons, blast)
  qed
qed



section \<open>exec-cd\<close>

text \<open>
  The root of the process is where it was called, while it enters the directory, so no link leads out of it.
\<close>

datatype cd_call =
    Cd_open_root | Cd_chroot_here | Cd_chdir cstr | Cd_open_here | Cd_fchdir_root | Cd_fchdir_cur | Cd_close_cur | Cd_close_root

definition exec_cd :: "cstr list \<Rightarrow> cd_call prog" where
  "exec_cd args =
     must 255 Cd_open_root
      (if args \<noteq> [] \<and> hd args \<in> {''--help'', ''--version''} then End 0
       else case (if args \<noteq> [] \<and> hd args = ''--'' then tl args else args) of
              d # cmd # argv \<Rightarrow>
                must 255 Cd_chroot_here (must 255 (Cd_chdir d) (must 255 Cd_open_here
                  (must 255 Cd_fchdir_root (must 255 Cd_chroot_here (must 255 Cd_fchdir_cur
                    (must 255 Cd_close_cur (must 255 Cd_close_root (Exec (cmd # argv) (End 255)))))))))
            | _ \<Rightarrow> End 255)"

text \<open>
  What the calls do to the place of the process, with \<open>resolve root cwd path\<close> as the kernel's resolution of paths.
\<close>

type_synonym place = "cstr list"

record cd_state =
  cd_root :: place
  cd_cwd :: place
  cd_fd_root :: place
  cd_fd_cur :: place

fun cd_effect :: "(place \<Rightarrow> place \<Rightarrow> cstr \<Rightarrow> place) \<Rightarrow> cd_call \<Rightarrow> cd_state \<Rightarrow> cd_state" where
  "cd_effect resolve Cd_open_root s = s\<lparr>cd_fd_root := cd_root s\<rparr>"
| "cd_effect resolve Cd_chroot_here s = s\<lparr>cd_root := cd_cwd s\<rparr>"
| "cd_effect resolve (Cd_chdir d) s = s\<lparr>cd_cwd := resolve (cd_root s) (cd_cwd s) d\<rparr>"
| "cd_effect resolve Cd_open_here s = s\<lparr>cd_fd_cur := cd_cwd s\<rparr>"
| "cd_effect resolve Cd_fchdir_root s = s\<lparr>cd_cwd := cd_fd_root s\<rparr>"
| "cd_effect resolve Cd_fchdir_cur s = s\<lparr>cd_cwd := cd_fd_cur s\<rparr>"
| "cd_effect resolve Cd_close_cur s = s"
| "cd_effect resolve Cd_close_root s = s"

fun cd_effects :: "(place \<Rightarrow> place \<Rightarrow> cstr \<Rightarrow> place) \<Rightarrow> (cd_call \<times> answer) list \<Rightarrow> cd_state \<Rightarrow> cd_state" where
  "cd_effects resolve [] s = s"
| "cd_effects resolve ((c, Done n) # t) s = cd_effects resolve t (cd_effect resolve c s)"
| "cd_effects resolve ((c, Failed e) # t) s = cd_effects resolve t s"

text \<open>The command runs with the root of the caller, in a directory of the tree that was the caller's current one.\<close>

lemma exec_cd_confined:
  assumes "\<And>root cwd path. prefix root cwd \<Longrightarrow> prefix root (resolve root cwd path)"
    "performs (exec_cd args) t (Running argv)" "cd_effects resolve t s = s'"
  shows "cd_root s' = cd_root s \<and> prefix (cd_cwd s) (cd_cwd s')"
  using assms(2) assms(3)
  by (auto simp: exec_cd_def performs_must split: if_splits list.splits intro!: assms(1))

section \<open>exec-remount\<close>

datatype remount_call = Umount_lazy cstr | Mount_fs cstr cstr cstr

definition do_remount :: "cstr \<Rightarrow> remount_call prog \<Rightarrow> remount_call prog" where
  "do_remount mnt k =
     (if strcmp mnt ''/proc'' = 0 then must 255 (Mount_fs ''proc'' ''proc'' ''proc'') k
      else if strcmp mnt ''/sys'' = 0 then must 255 (Mount_fs ''sysfs'' ''sys'' ''sysfs'') k
      else k)"

fun remount_loop :: "bool \<Rightarrow> cstr list \<Rightarrow> remount_call prog" where
  "remount_loop pidspace [] = End 1"
| "remount_loop pidspace (m # ms) =
     (if strcmp m ''--'' = 0 then (case ms of [] \<Rightarrow> End 255 | _ \<Rightarrow> Exec ms (End 255))
      else if pidspace
      then Call (Umount_lazy (tl m)) (\<lambda>r. case r of Done _ \<Rightarrow> do_remount m (remount_loop pidspace ms) | Failed _ \<Rightarrow> remount_loop pidspace ms)
      else remount_loop pidspace ms)"

datatype remount_opt = ReHelp | ReVersion | ReMtab cstr | ReOther

fun remount_option :: "remount_opt \<Rightarrow> cstr \<Rightarrow> int + cstr" where
  "remount_option ReHelp m = Inl 0"
| "remount_option ReVersion m = Inl 0"
| "remount_option (ReMtab s) m = Inr s"
| "remount_option ReOther m = Inl 1"

definition exec_remount :: "kernel_info \<Rightarrow> remount_opt list \<Rightarrow> cstr list \<Rightarrow> remount_call prog" where
  "exec_remount k opts args =
     (case run_options remount_option opts ''/etc/mtab'' of
        Inl c \<Rightarrow> End c
      | Inr m \<Rightarrow> remount_loop (vc_isSupported k vcFEATURE_PIDSPACE) args)"

section \<open>vsysctl\<close>

text \<open>
  \<open>handle_setting\<close>: the two files of a setting, each shorter than 128 bytes; the dots of the name become slashes.
\<close>

definition setting_size :: nat where "setting_size = 128"

definition setting_file :: "cstr \<Rightarrow> cstr" where
  "setting_file setting =
     takeWhile (\<lambda>c. c \<noteq> NL) (map (\<lambda>c. if c = CHR ''.'' then CHR ''/'' else c) (takeWhile (\<lambda>c. c \<noteq> NUL) setting))"

datatype sysctl_call = Write_setting cstr cstr

definition handle_setting :: "cstr option \<Rightarrow> cstr option \<Rightarrow> sysctl_call prog \<Rightarrow> sysctl_call prog" where
  "handle_setting setting val k =
     (case (setting, val) of
        (Some s, Some v) \<Rightarrow>
          if length s \<ge> setting_size \<or> length v \<ge> setting_size then End 1
          else must 1 (Write_setting (setting_file s) v) k
      | _ \<Rightarrow> End 1)"

fun settings_loop :: "(cstr \<times> cstr option \<times> cstr option) list \<Rightarrow> sysctl_call prog \<Rightarrow> sysctl_call prog" where
  "settings_loop [] k = k"
| "settings_loop ((name, s, v) # es) k =
     (if deref name = CHR ''.'' then settings_loop es k else handle_setting s v (settings_loop es k))"

datatype sysctl_opt = SyHelp | SyVersion | SyXid cstr | SyDir cstr | SyMissing | SyOther

record sysctl_args =
  sy_xid :: xid_t
  sy_dir :: "cstr option"
  sy_missing :: bool

fun sysctl_option :: "xid_t \<Rightarrow> (cstr \<Rightarrow> bool \<Rightarrow> vcCtxType \<Rightarrow> xid_t) \<Rightarrow> sysctl_opt \<Rightarrow> sysctl_args \<Rightarrow> int + sysctl_args" where
  "sysctl_option task getctx SyHelp a = Inl 0"
| "sysctl_option task getctx SyVersion a = Inl 0"
| "sysctl_option task getctx (SyXid s) a = id_arg (vc_xidopt2xid task getctx s True) (\<lambda>x. a\<lparr>sy_xid := x\<rparr>)"
| "sysctl_option task getctx (SyDir s) a = Inr (a\<lparr>sy_dir := Some s\<rparr>)"
| "sysctl_option task getctx SyMissing a = Inr (a\<lparr>sy_missing := True\<rparr>)"
| "sysctl_option task getctx SyOther a = Inl 1"

text \<open>\<open>proc_sys\<close> says whether the directory of the settings can be entered; the context is read and not used.\<close>

definition vsysctl ::
  "xid_t \<Rightarrow> (cstr \<Rightarrow> bool \<Rightarrow> vcCtxType \<Rightarrow> xid_t) \<Rightarrow> bool \<Rightarrow> (cstr \<Rightarrow> (cstr \<times> cstr option \<times> cstr option) list option) \<Rightarrow>
   sysctl_opt list \<Rightarrow> cstr list \<Rightarrow> sysctl_call prog" where
  "vsysctl task getctx proc_sys dirs opts argv =
     (case run_options (sysctl_option task getctx) opts \<lparr>sy_xid = VC_NOCTX, sy_dir = None, sy_missing = False\<rparr> of
        Inl c \<Rightarrow> End c
      | Inr a \<Rightarrow>
          (let run = (if argv = [] then End 1 else Exec argv (End 1))
           in case sy_dir a of
                None \<Rightarrow> run
              | Some d \<Rightarrow>
                  if \<not> proc_sys then run
                  else case dirs d of
                         None \<Rightarrow> if sy_missing a then run else End 1
                       | Some es \<Rightarrow> settings_loop es run))"

text \<open>
  No name that is written leads upwards, whatever the file holds: it has no dots. It may be absolute, though, since a dot
  at its start becomes a slash.
\<close>

lemma setting_file_chars: "set (setting_file s) \<inter> {CHR ''.'', NUL, NL} = {}"
proof -
  have "\<forall>c \<in> set (setting_file s). c \<noteq> CHR ''.'' \<and> c \<noteq> NUL \<and> c \<noteq> NL"
    unfolding setting_file_def by (auto dest!: set_takeWhileD)
  then show ?thesis by auto
qed

lemma setting_file_absolute: "setting_file ''.etc.passwd'' = ''/etc/passwd''"
  by code_simp

end
