(* ===== verification/CapTools.thy ===== *)
theory CapTools
  imports Contexts NetTools Fmt
begin

text \<open>
  \<^verbatim>\<open>capchroot\<close> and \<^verbatim>\<open>reducecap\<close>, which run a command with fewer capabilities, and \<^verbatim>\<open>vmemctrl\<close>
  and \<^verbatim>\<open>vdevmap\<close>, which set one thing of a context. All are compiled with the old interfaces.
\<close>

section \<open>capchroot\<close>

datatype (plugins only: code size) cap_call =
    Cap_chroot cstr | Cap_new_s_context xid_t u32 u32 | Cap_setgroups u32 | Cap_setgid u32 | Cap_setuid u32
  | Cap_getuid | Cap_getgid | Cap_capget int | Cap_print cstr

text \<open>The ids that come back must be those that were set; \<open>users\<close> is the user database.\<close>

definition setUser :: "(cstr \<Rightarrow> (u32 \<times> u32) option) \<Rightarrow> cstr option \<Rightarrow> cap_call prog \<Rightarrow> cap_call prog" where
  "setUser users user k =
     (case user of
        None \<Rightarrow> k
      | Some u \<Rightarrow>
          if u = ''root'' \<or> u = ''0'' then k
          else
            (case users u of
               None \<Rightarrow> End 255
             | Some (u_id, g_id) \<Rightarrow>
                 must 255 (Cap_setgroups g_id) (must 255 (Cap_setgid g_id) (must 255 (Cap_setuid u_id)
                   (Call Cap_getuid (\<lambda>ru. if ru \<noteq> Done (uint u_id) then End 255
                      else Call Cap_getgid (\<lambda>rg. if rg \<noteq> Done (uint g_id) then End 255 else k)))))))"

datatype capchroot_opt = CrHelp | CrVersion | CrNochroot | CrSuid cstr | CrOther

fun capchroot_option :: "capchroot_opt \<Rightarrow> bool \<times> cstr option \<Rightarrow> int + bool \<times> cstr option" where
  "capchroot_option CrHelp a = Inl 0"
| "capchroot_option CrVersion a = Inl 0"
| "capchroot_option CrNochroot a = Inr (True, snd a)"
| "capchroot_option (CrSuid s) a = Inr (fst a, Some s)"
| "capchroot_option CrOther a = Inl 1"

definition capchroot :: "(cstr \<Rightarrow> (u32 \<times> u32) option) \<Rightarrow> capchroot_opt list \<Rightarrow> cstr list \<Rightarrow> cap_call prog" where
  "capchroot users opts args =
     (case run_options capchroot_option opts (False, None) of
        Inl c \<Rightarrow> End c
      | Inr (nochroot, suid_user) \<Rightarrow>
          (case args of
             dir # cmd # argv \<Rightarrow>
               must 255 (Cap_chroot dir)
                 (when_do nochroot (must 255 (Cap_new_s_context VC_SAMECTX (push_bit VC_CAP_SYS_CHROOT 1) 0))
                   (setUser users suid_user (Exec (cmd # argv) (End 255))))
           | _ \<Rightarrow> End 1))"

text \<open>
  The command only runs with the new root, with the capability removed when that was asked for, and as the user that was
  asked for: the ids were set in the order that keeps the right to set the next, and were read back.
\<close>

fun cap_duty :: "cap_call \<Rightarrow> cap_call option" where
  "cap_duty Cap_getuid = None"
| "cap_duty Cap_getgid = None"
| "cap_duty (Cap_capget p) = None"
| "cap_duty (Cap_print s) = None"
| "cap_duty c = Some c"

definition user_duty :: "(cstr \<Rightarrow> (u32 \<times> u32) option) \<Rightarrow> cstr option \<Rightarrow> cap_call list" where
  "user_duty users user =
     (case user of
        None \<Rightarrow> []
      | Some u \<Rightarrow>
          if u = ''root'' \<or> u = ''0'' then []
          else (case users u of None \<Rightarrow> [] | Some (u_id, g_id) \<Rightarrow> [Cap_setgroups g_id, Cap_setgid g_id, Cap_setuid u_id]))"

lemma setUser_runs:
  assumes "performs (setUser users user (Exec argv (End 255))) t (Running a)"
  shows "a = argv \<and> done_calls cap_duty t = user_duty users user \<and>
    (\<forall>u. user = Some u \<longrightarrow> u \<notin> {''root'', ''0''} \<longrightarrow>
      (\<exists>u_id g_id. users u = Some (u_id, g_id) \<and> (Cap_getuid, Done (uint u_id)) \<in> set t \<and> (Cap_getgid, Done (uint g_id)) \<in> set t))"
proof (cases user)
  case None
  with assms show ?thesis by (simp add: setUser_def user_duty_def)
next
  case (Some u)
  show ?thesis
  proof (cases "u = ''root'' \<or> u = ''0''")
    case True
    with assms Some show ?thesis by (auto simp: setUser_def user_duty_def)
  next
    case False
    with assms Some show ?thesis
      by (auto simp: setUser_def user_duty_def performs_must performs_call split: option.splits prod.splits if_splits)
  qed
qed

lemma capchroot_runs:
  assumes "run_options capchroot_option opts (False, None) = Inr (nochroot, user)"
    "performs (capchroot users opts args) t (Running a)"
  shows "\<exists>dir. args = dir # a \<and>
    done_calls cap_duty t =
      Cap_chroot dir # (if nochroot then [Cap_new_s_context VC_SAMECTX (push_bit VC_CAP_SYS_CHROOT 1) 0] else []) @
      user_duty users user"
proof -
  from assms obtain dir cmd argv where args: "args = dir # cmd # argv"
    by (auto simp: capchroot_def split: list.splits)
  with assms obtain n u where t: "t = (Cap_chroot dir, Done n) # u"
    and u: "performs (when_do nochroot (must 255 (Cap_new_s_context VC_SAMECTX (push_bit VC_CAP_SYS_CHROOT 1) 0))
        (setUser users user (Exec (cmd # argv) (End 255)))) u (Running a)"
    by (auto simp: capchroot_def performs_must)
  show ?thesis
  proof (cases nochroot)
    case True
    with u obtain m v where "u = (Cap_new_s_context VC_SAMECTX (push_bit VC_CAP_SYS_CHROOT 1) 0, Done m) # v"
      "performs (setUser users user (Exec (cmd # argv) (End 255))) v (Running a)"
      by (auto simp: when_do_def performs_must)
    with setUser_runs [OF this(2)] args t True show ?thesis by simp
  next
    case False
    with u setUser_runs [of users user "cmd # argv" u a] args t show ?thesis by (simp add: when_do_def)
  qed
qed

section \<open>reducecap\<close>

text \<open>
  \<open>getCap\<close>: a capability is only accepted when its number is 0. \<open>None\<close> of \<open>vc_text2cap\<close> is -1.
\<close>

definition getCap :: "cstr \<Rightarrow> u32 option" where
  "getCap cap = (if vc_text2cap cap \<noteq> Some 0 then None else Some 1)"

definition OBSOLETE_MAPPING :: "cstr list" where
  "OBSOLETE_MAPPING =
     [''CHOWN'', ''DAC_OVERRIDE'', ''DAC_READ_SEARCH'', ''FOWNER'', ''FSETID'', ''KILL'', ''SETGID'', ''SETUID'',
      ''SETPCAP'', ''SYS_TTY_CONFIG'', ''LEASE'', ''SYS_CHROOT'', ''LINUX_IMMUTABLE'', ''NET_BIND_SERVICE'',
      ''NET_BROADCAST'', ''NET_ADMIN'', ''NET_RAW'', ''IPC_LOCK'', ''IPC_OWNER'', ''SYS_MODULE'', ''SYS_RAWIO'',
      ''SYS_PACCT'', ''SYS_ADMIN'', ''SYS_BOOT'', ''SYS_NICE'', ''SYS_RESOURCE'', ''SYS_TIME'', ''MKNOD'', ''QUOTACTL'']"

text \<open>\<open>RcOther\<close> is an option \<^verbatim>\<open>getopt_long\<close> does not know, which the code ignores.\<close>

datatype reducecap_opt = RcHelp | RcVersion | RcShow | RcPid cstr | RcSecure | RcCap cstr | RcFlag cstr | RcObsolete nat | RcOther

record reducecap_args =
  rc_remove :: u32
  rc_show :: bool
  rc_flags :: u32
  rc_pid :: int

definition set_remove :: "cstr \<Rightarrow> reducecap_args \<Rightarrow> int + reducecap_args" where
  "set_remove s a = (case getCap s of None \<Rightarrow> Inl 255 | Some m \<Rightarrow> Inr (a\<lparr>rc_remove := m\<rparr>))"

fun reducecap_option :: "kernel_info \<Rightarrow> reducecap_opt \<Rightarrow> reducecap_args \<Rightarrow> int + reducecap_args" where
  "reducecap_option ki RcHelp a = Inl 0"
| "reducecap_option ki RcVersion a = Inl 0"
| "reducecap_option ki RcShow a = Inr (a\<lparr>rc_show := True\<rparr>)"
| "reducecap_option ki (RcPid s) a = Inr (a\<lparr>rc_pid := atoi s\<rparr>)"
| "reducecap_option ki RcSecure a = Inr (a\<lparr>rc_remove := ucast (vc_get_insecurebcaps ki)\<rparr>)"
| "reducecap_option ki (RcCap s) a = set_remove s a"
| "reducecap_option ki (RcFlag s) a =
     (let (flags, err) = vc_list2cflag_compat s 0 in if err \<noteq> None then Inl 255 else Inr (a\<lparr>rc_flags := flags\<rparr>))"
| "reducecap_option ki (RcObsolete i) a = set_remove (OBSOLETE_MAPPING ! i) a"
| "reducecap_option ki RcOther a = Inr a"

text \<open>
  \<open>printReducecap\<close>: one line of 49 characters for each capability there is a name for. \<open>caps\<close> is what
  \<^verbatim>\<open>capget\<close> wrote: effective, permitted, inheritable.
\<close>

definition cap_line :: "u32 \<times> u32 \<times> u32 \<Rightarrow> nat \<Rightarrow> cstr \<Rightarrow> cstr" where
  "cap_line caps i text =
     (case caps of (e, p, h) \<Rightarrow>
        (let buf = replicate 48 CHR '' '' @ [NL];
             name = take 22 text;
             mark = (\<lambda>w. if bit w i then CHR ''X'' else CHR '' '')
         in ((name @ drop (length name) buf)[27 := mark e])[37 := mark p, 47 := mark h]))"

fun cap_lines :: "u32 \<times> u32 \<times> u32 \<Rightarrow> nat \<Rightarrow> nat \<Rightarrow> cstr" where
  "cap_lines caps i 0 = []"
| "cap_lines caps i (Suc n) =
     (case vc_cap2text i of None \<Rightarrow> [] | Some text \<Rightarrow> cap_line caps i text @ cap_lines caps (i + 1) n)"

definition printReducecap :: "u32 \<times> u32 \<times> u32 \<Rightarrow> cstr" where
  "printReducecap caps =
     ''            Capability Effective  Permitted  Inheritable'' @ [NL] @ cap_lines caps 0 (Suc (length CAP2BIT))"

definition show_caps :: "(int \<Rightarrow> (u32 \<times> u32 \<times> u32) option) \<Rightarrow> int \<Rightarrow> cap_call prog \<Rightarrow> cap_call prog" where
  "show_caps capget pid k =
     (case capget pid of None \<Rightarrow> End 255 | Some caps \<Rightarrow> ignore (Cap_print (printReducecap caps)) k)"

definition reducecap ::
  "kernel_info \<Rightarrow> (int \<Rightarrow> (u32 \<times> u32 \<times> u32) option) \<Rightarrow> reducecap_opt list \<Rightarrow> cstr list \<Rightarrow> cap_call prog" where
  "reducecap ki capget opts argv =
     (case run_options (reducecap_option ki) opts \<lparr>rc_remove = 0, rc_show = False, rc_flags = 0, rc_pid = 0\<rparr> of
        Inl c \<Rightarrow> End c
      | Inr a \<Rightarrow>
          if \<not> rc_show a \<and> argv = [] then End 255
          else if \<not> rc_show a \<and> rc_pid a \<noteq> 0 then End 255
          else if rc_show a \<and> argv = [] then show_caps capget (rc_pid a) (End 0)
          else must 255 (Cap_new_s_context VC_SAMECTX (rc_remove a) (rc_flags a))
                 (when_do (rc_show a) (show_caps capget (rc_pid a)) (Exec argv (End 255))))"

text \<open>
  Of the names of capabilities only those of the first one are accepted, so the program removes either the
  insecure capabilities or \<^verbatim>\<open>CAP_CHOWN\<close> or nothing, as the last option says.
\<close>

lemma getCap_only_chown: "getCap s = Some m \<longleftrightarrow> vc_text2cap s = Some 0 \<and> m = 1"
  by (auto simp: getCap_def)

lemma getCap_names: "b < 30 \<Longrightarrow> vc_cap2text b = Some name \<Longrightarrow> getCap name \<noteq> None \<longleftrightarrow> b = 0"
  using cap2text_roundtrip [of b] by (auto simp: getCap_def)

section \<open>vmemctrl\<close>

datatype mem_opt = MeHelp | MeVersion | MeSet | MeGet | MeXid cstr | MeBadness cstr | MeOther

definition MEM_SET :: u32 where "MEM_SET = 0x2000"
definition MEM_GET :: u32 where "MEM_GET = 0x2001"
definition MEM_XID :: u32 where "MEM_XID = 0x4000"
definition MEM_BADNESS :: u32 where "MEM_BADNESS = 0x4001"

record mem_args =
  me_xid :: xid_t
  me_badness :: int
  me_set :: bool
  me_get :: bool
  me_mask :: u32

definition hasArg :: "mem_args \<Rightarrow> u32 \<Rightarrow> bool" where
  "hasArg a arg \<longleftrightarrow> me_mask a AND arg = arg"

definition add_arg :: "u32 \<Rightarrow> mem_args \<Rightarrow> mem_args" where
  "add_arg c a = a\<lparr>me_mask := me_mask a OR c\<rparr>"

fun mem_option :: "xid_t \<Rightarrow> (cstr \<Rightarrow> bool \<Rightarrow> vcCtxType \<Rightarrow> xid_t) \<Rightarrow> mem_opt \<Rightarrow> mem_args \<Rightarrow> int + mem_args" where
  "mem_option task getctx MeHelp a = Inl 0"
| "mem_option task getctx MeVersion a = Inl 0"
| "mem_option task getctx MeSet a = Inr (add_arg MEM_SET (a\<lparr>me_set := True\<rparr>))"
| "mem_option task getctx MeGet a = Inr (add_arg MEM_GET (a\<lparr>me_get := True\<rparr>))"
| "mem_option task getctx (MeXid s) a = Eidopt (vc_xidopt2xid task getctx s True) (\<lambda>x. add_arg MEM_XID (a\<lparr>me_xid := x\<rparr>))"
| "mem_option task getctx (MeBadness s) a =
     (case strtol 0 s of (v, endptr, _) \<Rightarrow>
        if endptr \<noteq> [] then Inl 255 else Inr (add_arg MEM_BADNESS (a\<lparr>me_badness := v\<rparr>)))"
| "mem_option task getctx MeOther a = Inl 255"

datatype mem_call = Mem_set_badness xid_t int | Mem_print cstr

definition mem_init :: mem_args where
  "mem_init = \<lparr>me_xid = VC_NOCTX, me_badness = 0, me_set = False, me_get = False, me_mask = 0\<rparr>"

definition mem_doset :: "mem_args \<Rightarrow> mem_call prog \<Rightarrow> mem_call prog" where
  "mem_doset a = when_do (hasArg a MEM_BADNESS) (must 255 (Mem_set_badness (me_xid a) (me_badness a)))"

text \<open>\<open>get_badness\<close> is what the kernel says of a context.\<close>

definition mem_doget :: "(xid_t \<Rightarrow> int option) \<Rightarrow> mem_args \<Rightarrow> mem_call prog \<Rightarrow> mem_call prog" where
  "mem_doget get_badness a k =
     (case get_badness (me_xid a) of
        None \<Rightarrow> End 255
      | Some b \<Rightarrow> ignore (Mem_print (snd (the (fmt_int True (word_of_int b :: 64 word))))) (ignore (Mem_print [NL]) k))"

definition vmemctrl ::
  "xid_t \<Rightarrow> (cstr \<Rightarrow> bool \<Rightarrow> vcCtxType \<Rightarrow> xid_t) \<Rightarrow> (xid_t \<Rightarrow> int option) \<Rightarrow> mem_opt list \<Rightarrow> cstr list \<Rightarrow> mem_call prog" where
  "vmemctrl task getctx get_badness opts argv =
     (case run_options (mem_option task getctx) opts mem_init of
        Inl c \<Rightarrow> End c
      | Inr a0 \<Rightarrow>
          (let a = (if me_xid a0 = VC_NOCTX then a0\<lparr>me_xid := task\<rparr> else a0);
               run = (if argv \<noteq> [] then Exec argv (End 255) else End 0)
           in if me_xid a = VC_NOCTX then End 255
              else if me_set a = me_get a then End 255
              else if me_set a then mem_doset a run
              else mem_doget get_badness a run))"

text \<open>
  The numbers of the options share bits, so \<open>hasArg\<close> can be wrong: it is when \<^verbatim>\<open>--get\<close> and \<^verbatim>\<open>--xid\<close> were
  given. But then \<open>doset\<close> is not reached, and when it is, the answer is right.
\<close>

definition gave_badness :: "mem_opt list \<Rightarrow> bool" where
  "gave_badness opts \<longleftrightarrow> (\<exists>s. MeBadness s \<in> set opts)"

lemma mem_options_bit0:
  assumes "run_options (mem_option task getctx) opts a = Inr b"
  shows "(bit (me_mask b) 0 \<longleftrightarrow> bit (me_mask a) 0 \<or> gave_badness opts \<or> MeGet \<in> set opts) \<and>
    (bit (me_mask b) 14 \<longleftrightarrow> bit (me_mask a) 14 \<or> gave_badness opts \<or> (\<exists>s. MeXid s \<in> set opts)) \<and>
    (me_get b \<longleftrightarrow> me_get a \<or> MeGet \<in> set opts)"
  using assms
proof (induction opts arbitrary: a)
  case Nil
  then show ?case by (simp add: gave_badness_def)
next
  case (Cons opt opts)
  then obtain c where c: "mem_option task getctx opt a = Inr c" "run_options (mem_option task getctx) opts c = Inr b"
    by (auto split: sum.splits)
  have bits: "bit (0x2000 :: u32) 0 = False" "bit (0x2001 :: u32) 0 = True" "bit (0x4000 :: u32) 0 = False"
    "bit (0x4001 :: u32) 0 = True" "bit (0x2000 :: u32) 14 = False" "bit (0x2001 :: u32) 14 = False"
    "bit (0x4000 :: u32) 14 = True" "bit (0x4001 :: u32) 14 = True" by simp_all
  from Cons.IH [OF c(2)] c(1) show ?case
    by (cases opt) (auto simp: gave_badness_def add_arg_def bit_or_iff MEM_SET_def MEM_GET_def MEM_XID_def MEM_BADNESS_def
        Eidopt_def bits split: prod.splits if_splits)
qed

lemma hasArg_badness: "hasArg a MEM_BADNESS \<longleftrightarrow> bit (me_mask a) 0 \<and> bit (me_mask a) 14"
proof -
  have eq: "MEM_BADNESS = 2 ^ 14 OR 2 ^ 0" by (simp add: MEM_BADNESS_def)
  have b: "bit MEM_BADNESS n \<longleftrightarrow> n = 0 \<or> n = 14" for n
    by (simp only: eq bit_or_iff bit_exp_iff) auto
  have "hasArg a MEM_BADNESS \<longleftrightarrow> (\<forall>n. bit MEM_BADNESS n \<longrightarrow> bit (me_mask a) n)"
    unfolding hasArg_def bit_eq_iff bit_and_iff using bit_imp_le_length [of MEM_BADNESS] by auto
  then show ?thesis by (auto simp: b)
qed

lemma vmemctrl_sets:
  assumes "run_options (mem_option task getctx) opts mem_init = Inr a" "me_set a" "\<not> me_get a"
  shows "hasArg a MEM_BADNESS \<longleftrightarrow> gave_badness opts"
  using mem_options_bit0 [OF assms(1)] assms(3) by (auto simp: hasArg_badness mem_init_def)

section \<open>vdevmap\<close>

definition VC_DATTR_CREATE :: u32 where "VC_DATTR_CREATE = 0x00000001"
definition VC_DATTR_OPEN :: u32 where "VC_DATTR_OPEN = 0x00000002"
definition VC_DATTR_REMAP :: u32 where "VC_DATTR_REMAP = 0x00000010"

datatype (plugins only: code size) dev_opt =
    DeHelp | DeVersion | DeXid cstr | DeOpen | DeCreate | DeRemap | DeDevice cstr | DeTarget cstr | DeSet | DeUnset
  | DeFlags cstr | DeOther

record dev_args =
  de_xid :: xid_t
  de_open :: bool
  de_create :: bool
  de_remap :: bool
  de_flags :: u32
  de_device :: "cstr option"
  de_target :: "cstr option"
  de_set :: bool

definition dev_init :: dev_args where
  "dev_init =
     \<lparr>de_xid = VC_NOCTX, de_open = False, de_create = False, de_remap = False, de_flags = 0, de_device = None,
      de_target = None, de_set = True\<rparr>"

fun devmap_option :: "xid_t \<Rightarrow> (cstr \<Rightarrow> bool \<Rightarrow> vcCtxType \<Rightarrow> xid_t) \<Rightarrow> dev_opt \<Rightarrow> dev_args \<Rightarrow> int + dev_args" where
  "devmap_option task getctx DeHelp a = Inl 0"
| "devmap_option task getctx DeVersion a = Inl 0"
| "devmap_option task getctx (DeXid s) a = id_arg (vc_xidopt2xid task getctx s True) (\<lambda>x. a\<lparr>de_xid := x\<rparr>)"
| "devmap_option task getctx DeOpen a = Inr (a\<lparr>de_open := True\<rparr>)"
| "devmap_option task getctx DeCreate a = Inr (a\<lparr>de_create := True\<rparr>)"
| "devmap_option task getctx DeRemap a = Inr (a\<lparr>de_remap := True\<rparr>)"
| "devmap_option task getctx (DeDevice s) a = Inr (a\<lparr>de_device := Some s\<rparr>)"
| "devmap_option task getctx (DeTarget s) a = Inr (a\<lparr>de_target := Some s\<rparr>)"
| "devmap_option task getctx DeSet a = Inr (a\<lparr>de_set := True\<rparr>)"
| "devmap_option task getctx DeUnset a = Inr (a\<lparr>de_set := False\<rparr>)"
| "devmap_option task getctx (DeFlags s) a =
     (case isNumberUnsigned s False of None \<Rightarrow> Inl 1 | Some n \<Rightarrow> Inr (a\<lparr>de_flags := de_flags a OR word_of_int n\<rparr>))"
| "devmap_option task getctx DeOther a = Inl 1"

datatype dev_call =
    Set_mapping xid_t "cstr option" "cstr option" u32 | Unset_mapping xid_t "cstr option" "cstr option" u32

definition dev_flags :: "dev_args \<Rightarrow> u32" where
  "dev_flags a =
     de_flags a OR (if de_open a then VC_DATTR_OPEN else 0) OR (if de_create a then VC_DATTR_CREATE else 0) OR
     (if de_remap a then VC_DATTR_REMAP else 0)"

definition vdevmap ::
  "xid_t \<Rightarrow> (cstr \<Rightarrow> bool \<Rightarrow> vcCtxType \<Rightarrow> xid_t) \<Rightarrow> dev_opt list \<Rightarrow> cstr list \<Rightarrow> dev_call prog" where
  "vdevmap task getctx opts args =
     (case run_options (devmap_option task getctx) opts dev_init of
        Inl c \<Rightarrow> End c
      | Inr a \<Rightarrow>
          if de_target a = None \<and> de_remap a then End 1
          else if de_xid a = VC_NOCTX then End 1
          else if args \<noteq> [] then End 1
          else if de_device a = None \<and> de_target a = None then End 1
          else must 1 ((if de_set a then Set_mapping else Unset_mapping) (de_xid a) (de_device a) (de_target a) (dev_flags a))
                 (End 0))"

text \<open>It succeeds iff exactly one request was made and accepted; a request to remap names a target.\<close>

lemma vdevmap_success:
  assumes "performs (vdevmap task getctx opts args) t (Exited 0)"
    "run_options (devmap_option task getctx) opts dev_init = Inr a"
  shows "\<exists>n. t = [((if de_set a then Set_mapping else Unset_mapping) (de_xid a) (de_device a) (de_target a) (dev_flags a), Done n)] \<and>
    de_xid a \<noteq> VC_NOCTX \<and> (de_remap a \<longrightarrow> de_target a \<noteq> None)"
  using assms by (auto simp: vdevmap_def performs_must split: if_splits)

end
