(* ===== verification/RebootMgr.thy ===== *)
theory RebootMgr
  imports Contexts "HOL-Library.Sublist"
begin

text \<open>
  \<^verbatim>\<open>rebootmgr\<close>, a daemon with one socket per vserver that restarts or stops the vserver whose socket it gets
  the request on: the arguments, the sockets, and the loop around \<^verbatim>\<open>select\<close> as a transition system over the
  connections it holds in an array.
\<close>

section \<open>Arguments\<close>

text \<open>
  The scan of \<^verbatim>\<open>main\<close>: where the names of vservers start, and the files for the process number. \<open>None\<close> is
  \<^verbatim>\<open>--pidfile\<close> without a name, which the code passes to \<^verbatim>\<open>fopen\<close> as a null pointer.
\<close>

fun mgr_scan :: "nat \<Rightarrow> nat \<Rightarrow> cstr list \<Rightarrow> (nat \<times> cstr list) option" where
  "mgr_scan i start [] = Some (start, [])"
| "mgr_scan i start (arg # args) =
     (if strcmp arg ''--pidfile'' = 0
      then (case args of
              [] \<Rightarrow> None
            | f # rest \<Rightarrow> map_option (\<lambda>(st, fs). (st, f # fs)) (mgr_scan (i + 2) (i + 2) rest))
      else if strcmp arg ''--'' = 0 then Some (i + 1, [])
      else mgr_scan (i + 1) start args)"

section \<open>The sockets\<close>

datatype mgr_call = Mg_socket | Mg_unlink cstr | Mg_bind cstr | Mg_chmod cstr | Mg_listen cstr | Mg_pidfile cstr

text \<open>\<open>k\<close> goes on with the descriptor, or with \<open>None\<close> for -1. \<open>dir\<close> is \<^verbatim>\<open>DEFAULT_VSERVERDIR\<close>.\<close>

definition mgr_path :: "cstr \<Rightarrow> cstr \<Rightarrow> cstr" where
  "mgr_path dir vname = dir @ ''/'' @ vname @ ''/dev/reboot''"

definition rebootmgr_opensocket :: "cstr \<Rightarrow> cstr \<Rightarrow> (int option \<Rightarrow> mgr_call prog) \<Rightarrow> mgr_call prog" where
  "rebootmgr_opensocket dir vname k =
     (let sockn = mgr_path dir vname
      in Call Mg_socket (\<lambda>r. ignore (Mg_unlink sockn)
           (case r of
              Failed e \<Rightarrow> k None
            | Done fd \<Rightarrow>
                Call (Mg_bind sockn) (\<lambda>b. case b of
                    Failed e \<Rightarrow> k None
                  | Done _ \<Rightarrow>
                      ignore (Mg_chmod sockn)
                        (Call (Mg_listen sockn) (\<lambda>l. case l of Failed e \<Rightarrow> k None | Done _ \<Rightarrow> k (Some fd)))))))"

fun mgr_sockets ::
  "cstr \<Rightarrow> cstr list \<Rightarrow> (int \<times> cstr) list \<Rightarrow> bool \<Rightarrow> ((int \<times> cstr) list \<Rightarrow> bool \<Rightarrow> mgr_call prog) \<Rightarrow> mgr_call prog" where
  "mgr_sockets dir [] socks err k = k socks err"
| "mgr_sockets dir (v # vs) socks err k =
     rebootmgr_opensocket dir v (\<lambda>fd.
       case fd of None \<Rightarrow> mgr_sockets dir vs socks True k | Some n \<Rightarrow> mgr_sockets dir vs (socks @ [(n, v)]) err k)"

fun mgr_pidfiles :: "cstr list \<Rightarrow> mgr_call prog \<Rightarrow> mgr_call prog" where
  "mgr_pidfiles [] k = k"
| "mgr_pidfiles (f # fs) k = ignore (Mg_pidfile f) (mgr_pidfiles fs k)"

text \<open>
  \<open>loop\<close> stands for the loop below, started with its sockets; the program returns -1 when that ends, and in every other
  case. \<open>None\<close> is the null pointer.
\<close>

definition rebootmgr :: "cstr \<Rightarrow> cstr list \<Rightarrow> ((int \<times> cstr) list \<Rightarrow> mgr_call prog) \<Rightarrow> mgr_call prog option" where
  "rebootmgr dir argv loop =
     (if length argv < 2 then Some (End 255)
      else map_option
             (\<lambda>(start, fs). mgr_pidfiles fs (mgr_sockets dir (drop start argv) [] False
                (\<lambda>socks err. if err then End 255 else loop socks)))
             (mgr_scan 0 1 argv))"

text \<open>The loop is only entered when there is a socket for every name, in the order of the names.\<close>

lemma opensocket_calls:
  assumes "performs (rebootmgr_opensocket dir v k) t e"
  shows "\<exists>fd u w. t = u @ w \<and> performs (k fd) w e \<and>
    (fd \<noteq> None \<longrightarrow> map fst u = [Mg_socket, Mg_unlink (mgr_path dir v), Mg_bind (mgr_path dir v), Mg_chmod (mgr_path dir v),
       Mg_listen (mgr_path dir v)] \<and> snd (hd u) = Done (the fd))"
proof -
  let ?p = "mgr_path dir v"
  from assms obtain r0 r1 u1 where t: "t = (Mg_socket, r0) # (Mg_unlink ?p, r1) # u1"
    and u1: "performs (case r0 of Failed e \<Rightarrow> k None | Done fd \<Rightarrow> Call (Mg_bind ?p) (\<lambda>b. case b of Failed e \<Rightarrow> k None
        | Done _ \<Rightarrow> ignore (Mg_chmod ?p) (Call (Mg_listen ?p) (\<lambda>l. case l of Failed e \<Rightarrow> k None | Done _ \<Rightarrow> k (Some fd))))) u1 e"
    unfolding rebootmgr_opensocket_def Let_def by (auto simp: performs_call [of Mg_socket] performs_ignore)
  show ?thesis
  proof (cases r0)
    case (Failed err)
    with u1 t show ?thesis by (intro exI [of _ None] exI [of _ "[(Mg_socket, r0), (Mg_unlink ?p, r1)]"] exI [of _ u1]) simp
  next
    case (Done fd)
    with u1 obtain r2 u2 where u2: "u1 = (Mg_bind ?p, r2) # u2"
      and p2: "performs (case r2 of Failed e \<Rightarrow> k None
        | Done _ \<Rightarrow> ignore (Mg_chmod ?p) (Call (Mg_listen ?p) (\<lambda>l. case l of Failed e \<Rightarrow> k None | Done _ \<Rightarrow> k (Some fd)))) u2 e"
      by (auto simp: performs_call [of "Mg_bind _"])
    show ?thesis
    proof (cases r2)
      case (Failed err)
      with p2 u2 t show ?thesis
        by (intro exI [of _ None] exI [of _ "[(Mg_socket, r0), (Mg_unlink ?p, r1), (Mg_bind ?p, r2)]"] exI [of _ u2]) simp
    next
      case (Done n)
      with p2 obtain r3 r4 u4 where u4: "u2 = (Mg_chmod ?p, r3) # (Mg_listen ?p, r4) # u4"
        and p4: "performs (case r4 of Failed e \<Rightarrow> k None | Done _ \<Rightarrow> k (Some fd)) u4 e"
        by (auto simp: performs_call [of "Mg_listen _"] performs_ignore)
      let ?u = "[(Mg_socket, r0), (Mg_unlink ?p, r1), (Mg_bind ?p, r2), (Mg_chmod ?p, r3), (Mg_listen ?p, r4)]"
      show ?thesis
        by (cases r4) (use p4 u4 u2 t \<open>r0 = Done fd\<close> in
          \<open>intro exI [of _ "case r4 of Failed e \<Rightarrow> None | Done _ \<Rightarrow> Some fd"] exI [of _ ?u] exI [of _ u4], simp\<close>)+
    qed
  qed
qed

lemma mgr_sockets_complete:
  assumes "performs (mgr_sockets dir vs socks err k) t e"
  shows "\<exists>socks' err' w. performs (k socks' err') w e \<and> (err \<longrightarrow> err') \<and> (\<not> err' \<longrightarrow> map snd socks' = map snd socks @ vs)"
  using assms
proof (induction vs arbitrary: socks err t)
  case Nil
  then show ?case by auto
next
  case (Cons v vs)
  from opensocket_calls [OF Cons.prems [unfolded mgr_sockets.simps]] obtain fd w
    where "performs (case fd of None \<Rightarrow> mgr_sockets dir vs socks True k | Some n \<Rightarrow> mgr_sockets dir vs (socks @ [(n, v)]) err k) w e"
    by blast
  then show ?case
  proof (cases fd)
    case None
    with \<open>performs _ w e\<close> have "performs (mgr_sockets dir vs socks True k) w e" by simp
    from Cons.IH [OF this] show ?thesis by blast
  next
    case (Some n)
    with \<open>performs _ w e\<close> have "performs (mgr_sockets dir vs (socks @ [(n, v)]) err k) w e" by simp
    from Cons.IH [OF this] show ?thesis by fastforce
  qed
qed

section \<open>One round of the loop\<close>

datatype mgr_action = Restart cstr | Stop cstr | Invalid cstr

text \<open>
  \<open>rebootmgr_process\<close> on what \<^verbatim>\<open>read\<close> yields, at most 99 bytes; \<open>None\<close> is an error. The result says whether
  the connection is kept.
\<close>

definition message :: "cstr \<Rightarrow> cstr" where
  "message s = takeWhile (\<lambda>c. c \<noteq> NUL) (take 99 s)"

definition rebootmgr_process :: "cstr option \<Rightarrow> cstr \<Rightarrow> bool \<times> mgr_action list" where
  "rebootmgr_process received vname =
     (case received of
        None \<Rightarrow> (False, [])
      | Some s \<Rightarrow>
          if s = [] then (False, [])
          else
            (let buf = message s
             in if strcmp buf (''reboot'' @ [NL]) = 0 then (True, [Restart vname])
                else if strcmp buf (''halt'' @ [NL]) = 0 then (True, [Stop vname])
                else (False, [Invalid vname])))"

text \<open>
  New connections: \<open>acc\<close> answers \<^verbatim>\<open>accept\<close> on each socket. When the array is full all connections are closed first.
  \<open>op\<close> are the descriptors that are open.
\<close>

fun accept_phase ::
  "nat \<Rightarrow> (int \<Rightarrow> int option) \<Rightarrow> int set \<Rightarrow> (int \<times> cstr) list \<Rightarrow> (int \<times> cstr) list \<times> int set \<Rightarrow> (int \<times> cstr) list \<times> int set" where
  "accept_phase maxhandles acc ready [] s = s"
| "accept_phase maxhandles acc ready ((fd, v) # socks) (hs, op) =
     (if fd \<notin> ready then accept_phase maxhandles acc ready socks (hs, op)
      else case acc fd of
             None \<Rightarrow> accept_phase maxhandles acc ready socks (hs, op)
           | Some n \<Rightarrow>
               if length hs = maxhandles
               then accept_phase maxhandles acc ready socks ([(n, v)], insert n op - set (map fst hs))
               else accept_phase maxhandles acc ready socks (hs @ [(n, v)], insert n op))"

text \<open>The kernel hands out descriptors that are not in use.\<close>

fun accept_fresh ::
  "nat \<Rightarrow> (int \<Rightarrow> int option) \<Rightarrow> int set \<Rightarrow> (int \<times> cstr) list \<Rightarrow> (int \<times> cstr) list \<times> int set \<Rightarrow> bool" where
  "accept_fresh maxhandles acc ready [] s \<longleftrightarrow> True"
| "accept_fresh maxhandles acc ready ((fd, v) # socks) (hs, op) \<longleftrightarrow>
     (if fd \<notin> ready then accept_fresh maxhandles acc ready socks (hs, op)
      else case acc fd of
             None \<Rightarrow> accept_fresh maxhandles acc ready socks (hs, op)
           | Some n \<Rightarrow>
               n \<notin> op \<and>
               (if length hs = maxhandles
                then accept_fresh maxhandles acc ready socks ([(n, v)], insert n op - set (map fst hs))
                else accept_fresh maxhandles acc ready socks (hs @ [(n, v)], insert n op)))"

text \<open>Requests: the array is compacted while it is read.\<close>

fun process_phase ::
  "(int \<Rightarrow> cstr option) \<Rightarrow> int set \<Rightarrow> (int \<times> cstr) list \<Rightarrow> int set \<Rightarrow> (int \<times> cstr) list \<times> int set \<times> mgr_action list" where
  "process_phase rd ready [] op = ([], op, [])"
| "process_phase rd ready ((fd, v) # hs) op =
     (let (keep, acts) = (if fd \<in> ready then rebootmgr_process (rd fd) v else (True, []));
          (hs', op', acts') = process_phase rd ready hs (if keep then op else op - {fd})
      in (if keep then (fd, v) # hs' else hs', op', acts @ acts'))"

text \<open>The states: the connections, the open descriptors, and what was done so far.\<close>

type_synonym mgr_state = "(int \<times> cstr) list \<times> int set \<times> mgr_action list"

inductive mgr_step :: "nat \<Rightarrow> (int \<times> cstr) list \<Rightarrow> mgr_state \<Rightarrow> mgr_state \<Rightarrow> bool"
  for maxhandles :: nat and socks :: "(int \<times> cstr) list" where
  round: "ready \<subseteq> set (map fst socks) \<union> set (map fst hs) \<Longrightarrow>
     accept_fresh maxhandles acc ready socks (hs, op) \<Longrightarrow>
     accept_phase maxhandles acc ready socks (hs, op) = (hs1, op1) \<Longrightarrow>
     process_phase rd ready hs1 op1 = (hs2, op2, acts) \<Longrightarrow>
     mgr_step maxhandles socks (hs, op, done) (hs2, op2, done @ acts)"

definition mgr_start :: "(int \<times> cstr) list \<Rightarrow> mgr_state" where
  "mgr_start socks = ([], set (map fst socks), [])"

section \<open>The array of connections\<close>

text \<open>
  It never overflows, its descriptors are distinct, and they are, with the sockets, exactly the open ones: none is leaked
  and none is closed twice. Every connection belongs to the vserver of one of the sockets.
\<close>

definition mgr_inv :: "nat \<Rightarrow> (int \<times> cstr) list \<Rightarrow> (int \<times> cstr) list \<times> int set \<Rightarrow> bool" where
  "mgr_inv maxhandles socks s \<longleftrightarrow>
     (case s of (hs, op) \<Rightarrow>
        length hs \<le> maxhandles \<and> distinct (map fst hs) \<and> set (map fst hs) \<inter> set (map fst socks) = {} \<and>
        op = set (map fst socks) \<union> set (map fst hs) \<and> set (map snd hs) \<subseteq> set (map snd socks))"

lemma accept_phase_inv:
  assumes "0 < maxhandles" "mgr_inv maxhandles all s" "accept_fresh maxhandles acc ready socks s" "set socks \<subseteq> set all"
  shows "mgr_inv maxhandles all (accept_phase maxhandles acc ready socks s)"
  using assms
proof (induction maxhandles acc ready socks s rule: accept_phase.induct)
  case (1 maxhandles acc ready s)
  then show ?case by simp
next
  case (2 m acc ready fd v socks hs op)
  show ?case
  proof (cases "fd \<in> ready \<and> acc fd \<noteq> None")
    case False
    with 2 show ?thesis by (cases "acc fd") auto
  next
    case True
    then obtain n where n: "fd \<in> ready" "acc fd = Some n" by auto
    with "2.prems"(3) have fresh: "n \<notin> op" by simp
    have v: "v \<in> set (map snd all)" using "2.prems"(4) by force
    show ?thesis
    proof (cases "length hs = m")
      case True
      have "mgr_inv m all ([(n, v)], insert n op - set (map fst hs))"
        using "2.prems"(1,2) fresh v True by (auto simp: mgr_inv_def)
      with "2.IH"(3) [OF _ n(2) True] "2.prems" n True show ?thesis by simp
    next
      case False
      have "mgr_inv m all (hs @ [(n, v)], insert n op)"
        using "2.prems"(1,2) fresh v False by (auto simp: mgr_inv_def)
      with "2.IH"(4) [OF _ n(2) False] "2.prems" n False show ?thesis by simp
    qed
  qed
qed

lemma process_phase_keeps:
  assumes "process_phase rd ready hs op = (hs', op', acts)" "distinct (map fst hs)"
  shows "set hs' \<subseteq> set hs \<and> length hs' \<le> length hs \<and> distinct (map fst hs') \<and> op' = op - (set (map fst hs) - set (map fst hs'))"
  using assms
proof (induction rd ready hs op arbitrary: hs' op' acts rule: process_phase.induct)
  case (1 rd ready op)
  then show ?case by simp
next
  case (2 rd ready fd v hs op)
  obtain keep a where k: "(if fd \<in> ready then rebootmgr_process (rd fd) v else (True, [])) = (keep, a)" by fastforce
  obtain hs1 op1 a1 where r: "process_phase rd ready hs (if keep then op else op - {fd}) = (hs1, op1, a1)"
    by (metis prod_cases3)
  from 2(1) [OF k [symmetric] refl r] 2(3)
  have IH: "set hs1 \<subseteq> set hs" "length hs1 \<le> length hs" "distinct (map fst hs1)"
    "op1 = (if keep then op else op - {fd}) - (set (map fst hs) - set (map fst hs1))" by auto
  from 2(2) have "hs' = (if keep then (fd, v) # hs1 else hs1)" "op' = op1" using k r by (auto simp: Let_def split: if_splits)
  with IH 2(3) show ?case by (cases keep) auto
qed

lemma process_phase_inv:
  assumes "mgr_inv maxhandles all (hs, op)" "process_phase rd ready hs op = (hs', op', acts)"
  shows "mgr_inv maxhandles all (hs', op')"
proof -
  from assms(1) have "distinct (map fst hs)" by (simp add: mgr_inv_def)
  from process_phase_keeps [OF assms(2) this] assms(1) image_mono [of "set hs'" "set hs" fst]
  have "snd ` set hs' \<subseteq> snd ` set hs" "fst ` set hs' \<subseteq> fst ` set hs"
    "length hs' \<le> length hs" "distinct (map fst hs')" "op' = op - (fst ` set hs - fst ` set hs')" by auto
  moreover have "snd ` set hs \<subseteq> snd ` set all" "length hs \<le> maxhandles" "fst ` set hs \<inter> fst ` set all = {}"
    "op = fst ` set all \<union> fst ` set hs" using assms(1) by (simp_all add: mgr_inv_def)
  ultimately have i: "snd ` set hs' \<subseteq> snd ` set all" "length hs' \<le> maxhandles" "fst ` set hs' \<inter> fst ` set all = {}"
    and o: "op' = fst ` set all \<union> fst ` set hs - (fst ` set hs - fst ` set hs')" "fst ` set hs' \<subseteq> fst ` set hs"
      "fst ` set hs \<inter> fst ` set all = {}" and d: "distinct (map fst hs')" by (blast, linarith, blast, simp+)
  from o(2,3) have "op' = fst ` set all \<union> fst ` set hs'" unfolding o(1) by blast
  with i d show ?thesis by (simp add: mgr_inv_def)
qed

text \<open>Restarts and stops are those that were asked for, on the connections that are there.\<close>

lemma message_cstr: "is_cstr (message s)"
  unfolding message_def is_cstr_def by (auto dest: set_takeWhileD)

lemma process_acts:
  "Restart w \<in> set (snd (rebootmgr_process r v)) \<longleftrightarrow> w = v \<and> (\<exists>s. r = Some s \<and> message s = ''reboot'' @ [NL])"
  "Stop w \<in> set (snd (rebootmgr_process r v)) \<longleftrightarrow> w = v \<and> (\<exists>s. r = Some s \<and> message s = ''halt'' @ [NL])"
proof -
  have c: "is_cstr (''reboot'' @ [NL])" "is_cstr (''halt'' @ [NL])" by code_simp+
  have e: "message [] = []" by (simp add: message_def)
  show "Restart w \<in> set (snd (rebootmgr_process r v)) \<longleftrightarrow> w = v \<and> (\<exists>s. r = Some s \<and> message s = ''reboot'' @ [NL])"
    "Stop w \<in> set (snd (rebootmgr_process r v)) \<longleftrightarrow> w = v \<and> (\<exists>s. r = Some s \<and> message s = ''halt'' @ [NL])"
    using c e strcmp_0_iff [OF message_cstr c(1)] strcmp_0_iff [OF message_cstr c(2)]
    by (auto simp: rebootmgr_process_def Let_def simp del: append_Cons split: option.splits)
qed

lemma process_phase_acts:
  assumes "process_phase rd ready hs op = (hs', op', acts)"
  shows "Restart w \<in> set acts \<longleftrightarrow> (\<exists>fd s. (fd, w) \<in> set hs \<and> fd \<in> ready \<and> rd fd = Some s \<and> message s = ''reboot'' @ [NL])"
    "Stop w \<in> set acts \<longleftrightarrow> (\<exists>fd s. (fd, w) \<in> set hs \<and> fd \<in> ready \<and> rd fd = Some s \<and> message s = ''halt'' @ [NL])"
    "a \<in> set acts \<Longrightarrow> \<exists>v \<in> set (map snd hs). a \<in> {Restart v, Stop v, Invalid v}"
proof -
  have mem: "x \<in> set acts \<longleftrightarrow> (\<exists>fd v. (fd, v) \<in> set hs \<and> fd \<in> ready \<and> x \<in> set (snd (rebootmgr_process (rd fd) v)))" for x
    using assms
  proof (induction rd ready hs op arbitrary: hs' op' acts rule: process_phase.induct)
    case (1 rd ready op)
    then show ?case by simp
  next
    case (2 rd ready fd v hs op)
    obtain keep a where k: "(if fd \<in> ready then rebootmgr_process (rd fd) v else (True, [])) = (keep, a)" by fastforce
    obtain hs1 op1 a1 where r: "process_phase rd ready hs (if keep then op else op - {fd}) = (hs1, op1, a1)"
      by (metis prod_cases3)
    from 2(2) have "acts = a @ a1" using k r by (auto simp: Let_def split: if_splits)
    moreover have "set a = (if fd \<in> ready then set (snd (rebootmgr_process (rd fd) v)) else {})"
      using k by (cases "fd \<in> ready") auto
    ultimately show ?case using 2(1) [OF k [symmetric] refl r] by auto
  qed
  show "Restart w \<in> set acts \<longleftrightarrow> (\<exists>fd s. (fd, w) \<in> set hs \<and> fd \<in> ready \<and> rd fd = Some s \<and> message s = ''reboot'' @ [NL])"
    "Stop w \<in> set acts \<longleftrightarrow> (\<exists>fd s. (fd, w) \<in> set hs \<and> fd \<in> ready \<and> rd fd = Some s \<and> message s = ''halt'' @ [NL])"
    unfolding mem process_acts by blast+
  have any: "a \<in> set (snd (rebootmgr_process r v)) \<Longrightarrow> a \<in> {Restart v, Stop v, Invalid v}" for a r v
    by (auto simp: rebootmgr_process_def Let_def split: option.splits if_splits)
  show "a \<in> set acts \<Longrightarrow> \<exists>v \<in> set (map snd hs). a \<in> {Restart v, Stop v, Invalid v}"
  proof -
    assume "a \<in> set acts"
    with mem obtain fd v where "(fd, v) \<in> set hs" "a \<in> set (snd (rebootmgr_process (rd fd) v))" by blast
    with any [OF this(2)] show ?thesis by (intro bexI [of _ v]) (auto intro: rev_image_eqI)
  qed
qed

lemma mgr_reachable_inv:
  assumes "(mgr_step maxhandles socks)\<^sup>*\<^sup>* (mgr_start socks) (hs, op, done)" "0 < maxhandles"
  shows "mgr_inv maxhandles socks (hs, op) \<and> (\<forall>a \<in> set done. \<exists>v \<in> set (map snd socks). a \<in> {Restart v, Stop v, Invalid v})"
  using assms(1)
proof (induction "(hs, op, done)" arbitrary: hs op "done" rule: rtranclp_induct)
  case base
  then show ?case by (simp add: mgr_start_def mgr_inv_def)
next
  case (step s)
  obtain hs0 op0 d0 where s: "s = (hs0, op0, d0)" by (metis prod_cases3)
  from step(3) [OF s] have inv: "mgr_inv maxhandles socks (hs0, op0)"
    and old: "\<forall>a \<in> set d0. \<exists>v \<in> set (map snd socks). a \<in> {Restart v, Stop v, Invalid v}" by auto
  from step(2) [unfolded s] show ?case
  proof cases
    case (round ready acc hs1 op1 rd acts)
    from accept_phase_inv [OF assms(2) inv round(3) order_refl] round(4)
    have i1: "mgr_inv maxhandles socks (hs1, op1)" by simp
    have "\<exists>v \<in> set (map snd socks). a \<in> {Restart v, Stop v, Invalid v}" if "a \<in> set acts" for a
      using process_phase_acts(3) [OF round(5) that] i1 by (auto simp: mgr_inv_def)
    with process_phase_inv [OF i1 round(5)] old round(1) show ?thesis by auto
  qed
qed

text \<open>
  C16. In every state the reboot manager can come to, the array of connections has not overflowed, its descriptors are
  distinct and are, with the sockets, exactly the open ones (none is leaked or closed twice), and every vserver that was
  restarted or stopped is one of those it was started for.
\<close>

theorem mgr_reachable:
  assumes "(mgr_step maxhandles socks)\<^sup>*\<^sup>* (mgr_start socks) (hs, op, done)" "0 < maxhandles"
  shows "length hs \<le> maxhandles \<and> distinct (map fst hs) \<and> set (map fst hs) \<inter> set (map fst socks) = {} \<and>
    op = set (map fst socks) \<union> set (map fst hs) \<and>
    (\<forall>a \<in> set done. \<exists>v \<in> set (map snd socks). a \<in> {Restart v, Stop v, Invalid v})"
  using mgr_reachable_inv [OF assms] by (simp add: mgr_inv_def)

theorem mgr_reachable_witness:
  "(mgr_step 4 [(3, ''a'')])\<^sup>*\<^sup>* (mgr_start [(3, ''a'')]) ([(7, ''a'')], {3, 7}, []) \<and>
   {3, 7} = set (map fst [(3 :: int, ''a'')]) \<union> set (map fst [(7, ''a'')])"
proof -
  have "mgr_step 4 [(3, ''a'')] ([], {3}, []) ([(7, ''a'')], {7, 3}, [] @ [])"
    by (rule mgr_step.round [of "{3}" _ _ _ "\<lambda>_. Some 7" _ "[(7, ''a'')]" "{7, 3}" "\<lambda>_. None"]) auto
  then have r: "(mgr_step 4 [(3, ''a'')])\<^sup>*\<^sup>* (mgr_start [(3, ''a'')]) ([(7, ''a'')], {3, 7}, [])"
    by (simp add: mgr_start_def insert_commute)
  from r mgr_reachable [OF r] show ?thesis by simp
qed

end
