(* ===== verification/NetAddress.thy ===== *)
theory NetAddress
  imports NetTools Contexts VserverCfg "HOL-Library.Sublist"
begin

text \<open>
  The rest of \<^verbatim>\<open>naddress\<close>, whose parsing is in theory NetTools, and \<^verbatim>\<open>chbind\<close>, which binds a command to
  addresses with the old interface: the lookup of interfaces, the options, and the calls.
\<close>

section \<open>Interfaces\<close>

text \<open>The buffer is doubled until the file does not fill it.\<close>

function read_size :: "nat \<Rightarrow> nat \<Rightarrow> nat" where
  "read_size len sz = (if 0 < sz \<and> sz \<le> len then read_size len (2 * sz) else sz)"
  by pat_completeness auto
termination
  by (relation "measure (\<lambda>(len, sz). Suc len - sz)") auto

declare read_size.simps [simp del]

text \<open>
  \<open>existsDevice\<close> on the text of \<^verbatim>\<open>/proc/net/dev\<close>. The buffer is not terminated: \<open>junk\<close> is what stands behind
  the text.
\<close>

definition existsDevice :: "cstr option \<Rightarrow> cstr \<Rightarrow> cstr \<Rightarrow> bool" where
  "existsDevice file junk dev =
     (case file of
        None \<Rightarrow> False
      | Some c \<Rightarrow>
          (let buf = takeWhile (\<lambda>c. c \<noteq> NUL) (c @ take (read_size (length c) 8192 - length c) junk)
           in case strstr buf (dev @ '':'') of
                None \<Rightarrow> False
              | Some pos \<Rightarrow> pos = 0 \<or> buf ! (pos - 1) = CHR '' '' \<or> buf ! (pos - 1) = NL))"

lemma read_size_fits: "0 < sz \<Longrightarrow> len < read_size len sz \<and> sz \<le> read_size len sz"
proof (induction len sz rule: read_size.induct)
  case (1 len sz)
  then show ?case by (subst (1 2) read_size.simps) (auto split: if_splits)
qed

lemma strstr_prefix:
  assumes "strstr s t = Some i"
  shows "prefix t (drop i s)"
proof -
  note f = find_idx_Some [OF assms [unfolded strstr_def]]
  have "i < length s + 1" using f by (simp del: upt_Suc)
  then have "[0..<length s + 1] ! i = i" using nth_upt [of 0 i "length s + 1"] by (simp del: upt_Suc)
  with f have "take (length t) (drop i s) = t" by metis
  then show ?thesis by (metis take_is_prefix)
qed

text \<open>
  A device that is found stands in the text at the start of a word. The converse fails: only the first place where the name
  occurs is looked at.
\<close>

lemma existsDevice_sound:
  assumes "existsDevice (Some c) junk dev"
  shows "\<exists>pos buf. prefix (takeWhile (\<lambda>c. c \<noteq> NUL) c) buf \<and> prefix (dev @ '':'') (drop pos buf) \<and>
    (pos = 0 \<or> buf ! (pos - 1) \<in> {CHR '' '', NL})"
proof -
  define buf where "buf = takeWhile (\<lambda>c. c \<noteq> NUL) (c @ take (read_size (length c) 8192 - length c) junk)"
  from assms obtain pos where pos: "strstr buf (dev @ '':'') = Some pos" "pos = 0 \<or> buf ! (pos - 1) \<in> {CHR '' '', NL}"
    by (auto simp: existsDevice_def buf_def [symmetric] Let_def split: option.splits)
  moreover have "prefix (takeWhile (\<lambda>c. c \<noteq> NUL) c) buf"
    unfolding buf_def by (auto simp: takeWhile_append prefix_def takeWhile_eq_all_conv [THEN iffD2])
  ultimately show ?thesis using strstr_prefix [OF pos(1)] by blast
qed

lemma existsDevice_hidden:
  "existsDevice (Some ('' veth0: 1'' @ [NL] @ '' eth0: 2'' @ [NL])) [NUL] ''eth0'' = False"
proof -
  have "read_size 20 8192 = 8192" by (simp add: read_size.simps)
  then show ?thesis by (simp add: existsDevice_def strstr_def upt_rec)
qed

section \<open>naddress\<close>

text \<open>
  What the program reads of the system: the device table, the stack, whether a socket can be had, the answers about an
  interface, the conversions of addresses, and the contexts.
\<close>

record net_host =
  nh_table :: "cstr option"
  nh_junk :: cstr
  nh_socket :: bool
  nh_ioctl :: "cstr \<Rightarrow> ifreq \<Rightarrow> u8 list option"
  nh_pton4 :: "cstr \<Rightarrow> u8 list option"
  nh_pton6 :: "cstr \<Rightarrow> u8 list option"
  nh_ntop :: "bool \<Rightarrow> u8 list \<Rightarrow> cstr option"
  nh_garbage :: "u8 list"
  nh_task :: xid_t
  nh_getctx :: "cstr \<Rightarrow> bool \<Rightarrow> vcCtxType \<Rightarrow> xid_t"

text \<open>
  \<open>ifconfig_getaddr\<close> for the members that are asked for; a member the kernel does not answer keeps its value, and it is
  enough that one is answered.
\<close>

definition ifconfig_getaddr :: "net_host \<Rightarrow> cstr \<Rightarrow> ifreq list \<Rightarrow> (ifreq \<Rightarrow> u8 list option) option" where
  "ifconfig_getaddr h ifname wanted =
     (if existsDevice (nh_table h) (nh_junk h) ifname \<and> nh_socket h \<and> (\<exists>r \<in> set wanted. nh_ioctl h ifname r \<noteq> None)
      then Some (\<lambda>r. if r \<in> set wanted then nh_ioctl h ifname r else None) else None)"

definition getif_ip :: "net_host \<Rightarrow> cstr \<Rightarrow> (u8 list \<times> u8 list) option" where
  "getif_ip h str =
     map_option (\<lambda>f. (case f SIOCGIFADDR of Some b \<Rightarrow> b | None \<Rightarrow> replicate 4 0,
                      case f SIOCGIFNETMASK of Some b \<Rightarrow> b | None \<Rightarrow> replicate 4 0))
       (ifconfig_getaddr h str [SIOCGIFADDR, SIOCGIFNETMASK])"

definition getif_bcast :: "net_host \<Rightarrow> cstr \<Rightarrow> u8 list option" where
  "getif_bcast h str = Option.bind (ifconfig_getaddr h str [SIOCGIFBRDADDR]) (\<lambda>f. f SIOCGIFBRDADDR)"

datatype (plugins only: code size) naddress_opt =
    NaHelp | NaVersion | NaSilent | NaNid cstr | NaAdd | NaRemove | NaSet | NaIp cstr | NaMask cstr | NaRange cstr
  | NaBcast cstr | NaLback cstr | NaOther

record naddress_args =
  ad_nid :: xid_t
  ad_ips :: "vc_net_addr list"
  ad_silent :: bool
  ad_add :: bool
  ad_remove :: bool
  ad_set :: bool

definition naddress_init :: naddress_args where
  "naddress_init = \<lparr>ad_nid = VC_NOCTX, ad_ips = [], ad_silent = False, ad_add = False, ad_remove = False, ad_set = False\<rparr>"

definition na_list :: "vc_net_addr list option \<Rightarrow> naddress_args \<Rightarrow> int + naddress_args" where
  "na_list ips a = (case ips of None \<Rightarrow> Inl 255 | Some l \<Rightarrow> Inr (a\<lparr>ad_ips := l\<rparr>))"

fun naddress_option :: "net_host \<Rightarrow> naddress_opt \<Rightarrow> naddress_args \<Rightarrow> int + naddress_args" where
  "naddress_option h NaHelp a = Inl 0"
| "naddress_option h NaVersion a = Inl 0"
| "naddress_option h NaSilent a = Inr (a\<lparr>ad_silent := True\<rparr>)"
| "naddress_option h (NaNid s) a = Eidopt (vc_nidopt2nid (nh_task h) (nh_getctx h) s True) (\<lambda>x. a\<lparr>ad_nid := x\<rparr>)"
| "naddress_option h NaAdd a = Inr (a\<lparr>ad_add := True\<rparr>)"
| "naddress_option h NaRemove a = Inr (a\<lparr>ad_remove := True\<rparr>)"
| "naddress_option h NaSet a = Inr (a\<lparr>ad_set := True\<rparr>)"
| "naddress_option h (NaIp s) a = na_list (readIP (nh_pton4 h) (nh_pton6 h) (getif_ip h) s VC_NXA_TYPE_ADDR (ad_ips a)) a"
| "naddress_option h (NaMask s) a = na_list (readIP (nh_pton4 h) (nh_pton6 h) (getif_ip h) s VC_NXA_TYPE_MASK (ad_ips a)) a"
| "naddress_option h (NaRange s) a = na_list (readRange (nh_pton4 h) (nh_pton6 h) s (ad_ips a)) a"
| "naddress_option h (NaBcast s) a = Inr (a\<lparr>ad_ips := readBcast (nh_pton4 h) (getif_bcast h) (nh_garbage h) s (ad_ips a)\<rparr>)"
| "naddress_option h (NaLback s) a =
     na_list (readIP (nh_pton4 h) (nh_pton6 h) (getif_ip h) s (VC_NXA_TYPE_ADDR OR VC_NXA_MOD_LBACK) (ad_ips a)) a"
| "naddress_option h NaOther a = Inl 255"

datatype naddress_call = Na_net xid_t net_call | Na_print cstr

definition tellAddress :: "net_host \<Rightarrow> vc_net_addr \<Rightarrow> bool \<Rightarrow> naddress_call prog \<Rightarrow> naddress_call prog" where
  "tellAddress h a silent k =
     (let ty = vna_type a AND (VC_NXA_TYPE_IPV4 OR VC_NXA_TYPE_IPV6);
          text = (\<lambda>b. case b of None \<Rightarrow> ignore (Na_print '' <conversion failed>'') k
                              | Some s \<Rightarrow> ignore (Na_print '' '') (ignore (Na_print s) k))
      in if silent then k
         else if ty = VC_NXA_TYPE_IPV4 then text (nh_ntop h False (vna_ip a))
         else if ty = VC_NXA_TYPE_IPV6 then text (nh_ntop h True (vna_ip a))
         else ignore (Na_print '' <unknown address type>'') k)"

text \<open>One request for an address; before the program ends in an error the line is completed.\<close>

definition na_request :: "bool \<Rightarrow> naddress_call \<Rightarrow> naddress_call prog \<Rightarrow> naddress_call prog" where
  "na_request silent c k =
     Call c (\<lambda>r. case r of Done _ \<Rightarrow> k | Failed _ \<Rightarrow> when_do (\<not> silent) (ignore (Na_print [NL])) (End 255))"

fun na_requests ::
  "net_host \<Rightarrow> bool \<Rightarrow> (vc_net_addr \<Rightarrow> naddress_call) \<Rightarrow> vc_net_addr list \<Rightarrow> naddress_call prog \<Rightarrow> naddress_call prog" where
  "na_requests h silent f [] k = k"
| "na_requests h silent f (a # as) k = tellAddress h a silent (na_request silent (f a) (na_requests h silent f as k))"

definition na_list_step ::
  "net_host \<Rightarrow> naddress_args \<Rightarrow> cstr \<Rightarrow> (vc_net_addr \<Rightarrow> net_call) \<Rightarrow> naddress_call prog \<Rightarrow> naddress_call prog" where
  "na_list_step h a what f k =
     when_do (\<not> ad_silent a) (ignore (Na_print what))
       (na_requests h (ad_silent a) (\<lambda>x. Na_net (ad_nid a) (f x)) (ad_ips a)
         (when_do (\<not> ad_silent a) (ignore (Na_print [NL])) k))"

definition naddress_doit :: "net_host \<Rightarrow> naddress_args \<Rightarrow> naddress_call prog \<Rightarrow> naddress_call prog" where
  "naddress_doit h a k =
     when_do (ad_set a) (must 255 (Na_net (ad_nid a) (call_remove (zero_addr\<lparr>vna_type := VC_NXA_TYPE_ANY\<rparr>))))
       (if ad_add a \<or> ad_set a then na_list_step h a ''Adding'' call_add k
        else if ad_remove a then na_list_step h a ''Removing'' call_remove k
        else k)"

definition with_nid :: "net_host \<Rightarrow> naddress_args \<Rightarrow> naddress_args" where
  "with_nid h a = (if ad_nid a = VC_NOCTX then a\<lparr>ad_nid := nh_task h\<rparr> else a)"

definition naddress :: "net_host \<Rightarrow> naddress_opt list \<Rightarrow> cstr list \<Rightarrow> naddress_call prog" where
  "naddress h opts argv =
     (case run_options (naddress_option h) opts naddress_init of
        Inl c \<Rightarrow> End c
      | Inr a0 \<Rightarrow>
          (let a = with_nid h a0;
               ops = length (filter id [ad_add a, ad_remove a, ad_set a])
           in if ad_nid a = VC_NOCTX \<or> ops \<noteq> 1 then End 255
              else naddress_doit h a (if argv \<noteq> [] then Exec argv (End 255) else End 0)))"

section \<open>The requests of naddress\<close>

fun net_request :: "naddress_call \<Rightarrow> (xid_t \<times> net_call) option" where
  "net_request (Na_net x c) = Some (x, c)"
| "net_request (Na_print s) = None"

text \<open>
  What the options ask for, written over the text of their arguments. An argument is cut at its separators; the part
  with the address is read in one of the two families, and a mask is a number of bits or an address of its own, whose
  family then is that of the request. (Masks and prefixes are converted as the code does, see \<open>naddress_prefixes\<close> of theory
  NetTools.)
\<close>

definition cut :: "char \<Rightarrow> cstr \<Rightarrow> cstr \<times> cstr option" where
  "cut c s = (case strchr s c of None \<Rightarrow> (s, None) | Some i \<Rightarrow> (take i s, Some (drop (Suc i) s)))"

definition read_family :: "net_host \<Rightarrow> cstr \<Rightarrow> (u16 \<times> u8 list) option" where
  "read_family h u =
     (case nh_pton4 h u of Some b \<Rightarrow> Some (VC_NXA_TYPE_IPV4, b) | None \<Rightarrow> map_option (Pair VC_NXA_TYPE_IPV6) (nh_pton6 h u))"

definition masked :: "net_host \<Rightarrow> vc_net_addr \<Rightarrow> cstr option \<Rightarrow> vc_net_addr option" where
  "masked h a part =
     (case part of
        None \<Rightarrow> Some a
      | Some m \<Rightarrow>
          (let bits = (if vna_type a = VC_NXA_TYPE_IPV4 then 32 else 128)
           in if CHR '':'' \<in> set m \<or> CHR ''.'' \<in> set m
              then map_option (\<lambda>(ty, b). a\<lparr>vna_type := ty, vna_mask := store_addr b (vna_mask a),
                                            vna_prefix := of_nat (maskToPrefix (store_addr b (vna_mask a)) bits)\<rparr>) (read_family h m)
              else case isNumberUnsigned m True of
                     None \<Rightarrow> None
                   | Some n \<Rightarrow>
                       if n > int bits then None
                       else Some (a\<lparr>vna_prefix := word_of_int n,
                                    vna_mask := (if bits = 32 then store_addr (v4_mask (nat n)) (vna_mask a)
                                                 else ipv6PrefixToMask (nat n))\<rparr>)))"

definition ip_meaning :: "net_host \<Rightarrow> cstr \<Rightarrow> vc_net_addr option" where
  "ip_meaning h s =
     (if s = [] then None
      else case cut CHR ''/'' s of
             (u, m) \<Rightarrow>
               Option.bind (read_family h u)
                 (\<lambda>(ty, b). masked h (zero_addr\<lparr>vna_type := ty, vna_ip := store_addr b (vna_ip zero_addr)\<rparr>) m))"

definition range_meaning :: "net_host \<Rightarrow> cstr \<Rightarrow> vc_net_addr option" where
  "range_meaning h s =
     (case cut CHR ''-'' s of
        (u, None) \<Rightarrow> None
      | (u, Some r) \<Rightarrow>
          (case cut CHR ''/'' r of
             (v, m) \<Rightarrow>
               Option.bind (read_family h u)
                 (\<lambda>(_, b). Option.bind (read_family h v)
                    (\<lambda>(ty, c). masked h (zero_addr\<lparr>vna_type := ty, vna_ip := store_addr b (vna_ip zero_addr),
                                                    vna_ip2 := store_addr c (vna_ip2 zero_addr)\<rparr>) m))))"

definition asks_ip :: "net_host \<Rightarrow> u16 \<Rightarrow> cstr \<Rightarrow> vc_net_addr \<Rightarrow> bool" where
  "asks_ip h what s x \<longleftrightarrow>
     (case getif_ip h s of
        Some (ip, m) \<Rightarrow> x = zero_addr\<lparr>vna_ip := store_addr ip (vna_ip zero_addr), vna_mask := store_addr m (vna_mask zero_addr),
                                     vna_type := VC_NXA_TYPE_IPV4 OR what\<rparr>
      | None \<Rightarrow> (\<exists>a. ip_meaning h s = Some a \<and> x = a\<lparr>vna_type := vna_type a OR what\<rparr>))"

text \<open>An option and the address that it stands for; of an invalid broadcast address only the kind is known.\<close>

fun asks :: "net_host \<Rightarrow> naddress_opt \<Rightarrow> vc_net_addr \<Rightarrow> bool" where
  "asks h (NaIp s) x = asks_ip h VC_NXA_TYPE_ADDR s x"
| "asks h (NaMask s) x = asks_ip h VC_NXA_TYPE_MASK s x"
| "asks h (NaLback s) x = asks_ip h (VC_NXA_TYPE_ADDR OR VC_NXA_MOD_LBACK) s x"
| "asks h (NaRange s) x = (\<exists>a. range_meaning h s = Some a \<and> x = a\<lparr>vna_type := vna_type a OR VC_NXA_TYPE_RANGE\<rparr>)"
| "asks h (NaBcast s) x =
     (\<exists>b. x = zero_addr\<lparr>vna_ip := store_addr b (vna_ip zero_addr),
                         vna_type := VC_NXA_TYPE_IPV4 OR VC_NXA_MOD_BCAST OR VC_NXA_TYPE_ADDR\<rparr> \<and>
        (case getif_bcast h s of Some c \<Rightarrow> b = c | None \<Rightarrow> (\<forall>c. nh_pton4 h s = Some c \<longrightarrow> b = c)))"
| "asks h opt x = False"

fun names_address :: "naddress_opt \<Rightarrow> bool" where
  "names_address (NaIp s) = True"
| "names_address (NaMask s) = True"
| "names_address (NaLback s) = True"
| "names_address (NaRange s) = True"
| "names_address (NaBcast s) = True"
| "names_address opt = False"

fun opt_text :: "naddress_opt \<Rightarrow> cstr" where
  "opt_text (NaIp s) = s"
| "opt_text (NaMask s) = s"
| "opt_text (NaLback s) = s"
| "opt_text (NaRange s) = s"
| "opt_text opt = []"

fun given_nids :: "net_host \<Rightarrow> naddress_opt list \<Rightarrow> xid_t list" where
  "given_nids h [] = []"
| "given_nids h (opt # opts) =
     (case opt of NaNid s \<Rightarrow> [fst (vc_nidopt2nid (nh_task h) (nh_getctx h) s True)] | _ \<Rightarrow> []) @ given_nids h opts"

definition asked_nid :: "net_host \<Rightarrow> naddress_opt list \<Rightarrow> xid_t" where
  "asked_nid h opts = last (nh_task h # given_nids h opts)"

definition asked_requests :: "naddress_opt list \<Rightarrow> xid_t \<Rightarrow> vc_net_addr list \<Rightarrow> (xid_t \<times> net_call) list" where
  "asked_requests opts nid xs =
     map (Pair nid)
       (if NaSet \<in> set opts then call_remove (zero_addr\<lparr>vna_type := VC_NXA_TYPE_ANY\<rparr>) # map call_add xs
        else if NaAdd \<in> set opts then map call_add xs
        else map call_remove xs)"

text \<open>The requests of arguments that were read.\<close>

definition wanted_requests :: "naddress_args \<Rightarrow> (xid_t \<times> net_call) list" where
  "wanted_requests a =
     map (Pair (ad_nid a))
       ((if ad_set a then [call_remove (zero_addr\<lparr>vna_type := VC_NXA_TYPE_ANY\<rparr>)] else []) @
        (if ad_add a \<or> ad_set a then map call_add (ad_ips a)
         else if ad_remove a then map call_remove (ad_ips a) else []))"

lemma tell_adds: "adds net_request {[]} (tellAddress h a silent)"
proof -
  have p: "adds net_request {[]} (ignore (Na_print s))" for s by (rule adds_ignore) simp
  have pp: "adds net_request {[]} (\<lambda>k. ignore (Na_print s) (ignore (Na_print u) k))" for s u
    using adds_comp [OF p p, of s u] by simp
  show ?thesis
    unfolding tellAddress_def [abs_def] Let_def
    by (cases silent; cases "nh_ntop h False (vna_ip a)"; cases "nh_ntop h True (vna_ip a)")
      (simp_all add: adds_nothing adds_if p pp)
qed

lemma na_request_adds: "net_request c = Some d \<Longrightarrow> adds net_request {[d]} (na_request silent c)"
proof -
  assume c: "net_request c = Some d"
  show ?thesis
    unfolding adds_def na_request_def performs_call
  proof (intro conjI allI impI; (elim disjE exE conjE)?)
    fix k t e n u
    assume "t = (c, Done n) # u" "performs (case Done n of Done _ \<Rightarrow> k
      | Failed _ \<Rightarrow> when_do (\<not> silent) (ignore (Na_print [NL])) (End 255)) u e"
    then show "e = Exited 255 \<and> (\<exists>d \<in> {[d]}. prefix (done_calls net_request t) d) \<or>
        (\<exists>v w. t = v @ w \<and> done_calls net_request v \<in> {[d]} \<and> performs k w e)"
      using c by (intro disjI2 exI [of _ "[(c, Done n)]"] exI [of _ u]) simp
  next
    fix k t e err u
    assume t: "t = (c, Failed err) # u" "performs (case Failed err of Done _ \<Rightarrow> k
      | Failed _ \<Rightarrow> when_do (\<not> silent) (ignore (Na_print [NL])) (End 255)) u e"
    then have "e = Exited 255 \<and> done_calls net_request u = []"
      by (auto simp: when_do_def performs_ignore split: if_splits) (metis done_calls.simps answer.exhaust net_request.simps(2) option.simps(4))+
    with t show "e = Exited 255 \<and> (\<exists>d \<in> {[d]}. prefix (done_calls net_request t) d) \<or>
        (\<exists>v w. t = v @ w \<and> done_calls net_request v \<in> {[d]} \<and> performs k w e)" by simp
  qed simp
qed

lemma na_requests_adds: "adds net_request {map (\<lambda>a. (x, f a)) as} (na_requests h silent (\<lambda>a. Na_net x (f a)) as)"
proof (induction as)
  case Nil
  show ?case by (simp add: adds_nothing)
next
  case (Cons a as)
  from adds_comp [OF tell_adds adds_comp [OF na_request_adds [of "Na_net x (f a)", OF net_request.simps(1)] Cons]]
  show ?case by simp
qed

lemma na_list_step_adds: "adds net_request {map (\<lambda>x. (ad_nid a, f x)) (ad_ips a)} (na_list_step h a what f)"
proof -
  have p: "adds net_request {[]} (when_do b (ignore (Na_print s)))" for b s
    using adds_when [OF adds_ignore [of net_request "Na_print s"], of b] by simp
  from adds_comp [OF p adds_comp [OF na_requests_adds p]]
  show ?thesis unfolding na_list_step_def [abs_def] by simp
qed

lemma naddress_doit_adds: "adds net_request {wanted_requests a} (naddress_doit h a)"
proof -
  let ?clear = "call_remove (zero_addr\<lparr>vna_type := VC_NXA_TYPE_ANY\<rparr>)"
  have c: "adds net_request {if ad_set a then [(ad_nid a, ?clear)] else []}
      (when_do (ad_set a) (must 255 (Na_net (ad_nid a) ?clear)))"
  proof -
    have "when_do True S = S" "when_do False S = (\<lambda>k. k)" for S :: "naddress_call prog \<Rightarrow> naddress_call prog"
      by (simp_all add: when_do_def fun_eq_iff)
    then show ?thesis by (cases "ad_set a") (simp_all add: adds_must adds_nothing)
  qed
  show ?thesis
    using adds_comp [OF c na_list_step_adds [of a call_add h "''Adding''"]]
      adds_comp [OF c na_list_step_adds [of a call_remove h "''Removing''"]] c
    unfolding naddress_doit_def [abs_def] wanted_requests_def
    by (cases "ad_add a \<or> ad_set a"; cases "ad_remove a") (auto simp: comp_def)
qed

text \<open>The parser of the buffer reads what the text means.\<close>

lemma str_at_middle: "NUL \<notin> set u \<Longrightarrow> length p = n \<Longrightarrow> str_at (p @ u @ NUL # r) n = u"
  by (auto simp: str_at_def takeWhile_append takeWhile_eq_all_conv [THEN iffD2])

lemma cut_cases:
  obtains (whole) "c \<notin> set s" "cut c s = (s, None)"
  | (parts) u r where "s = u @ c # r" "c \<notin> set u" "cut c s = (u, Some r)"
proof (cases "strchr s c")
  case None
  then show thesis using strchr_None [of s c] by (intro that(1)) (simp_all add: cut_def)
next
  case (Some i)
  from strchr_Some_split [OF this] show thesis by (intro that(2)) (simp_all add: cut_def Some)
qed

lemma parse_field_address:
  "f \<noteq> CHR ''m'' \<Longrightarrow> parse_field (nh_pton4 h) (nh_pton6 h) f u a =
     (case read_family h u of
        None \<Rightarrow> (False, a\<lparr>vna_type := VC_NXA_TYPE_IPV6\<rparr>)
      | Some (ty, b) \<Rightarrow> (True, set_field f b (a\<lparr>vna_type := ty\<rparr>)))"
  by (auto simp: parse_field_def convertAddress_def read_family_def Let_def split: option.splits)

lemma read_family_type: "read_family h u = Some (ty, b) \<Longrightarrow> ty \<in> {VC_NXA_TYPE_IPV4, VC_NXA_TYPE_IPV6}"
  by (auto simp: read_family_def split: option.splits)

lemma parse_field_mask:
  assumes "vna_type a \<in> {VC_NXA_TYPE_IPV4, VC_NXA_TYPE_IPV6}"
  shows "(case parse_field (nh_pton4 h) (nh_pton6 h) CHR ''m'' m a of (ok, a') \<Rightarrow> if ok then Some a' else None) = masked h a (Some m)"
proof -
  have ty: "VC_NXA_TYPE_IPV6 \<noteq> VC_NXA_TYPE_IPV4" by (simp add: VC_NXA_TYPE_IPV4_def VC_NXA_TYPE_IPV6_def)
  show ?thesis
    using assms ty
    by (auto simp: parse_field_def masked_def strchr_None convertAddress_def read_family_def set_field_def Let_def split: option.splits)
qed

lemma first_field:
  assumes "NUL \<notin> set s" "s = u @ c # r" "c \<notin> set u"
  shows "field_end (s @ [NUL]) 0 c (length s) = length u" "str_at ((s @ [NUL])[length u := NUL]) 0 = u"
    "(s @ [NUL])[length u := NUL] = u @ NUL # r @ [NUL]"
proof -
  show "field_end (s @ [NUL]) 0 c (length s) = length u" using assms(2,3) by (simp add: field_end_def memchr_def)
  show e: "(s @ [NUL])[length u := NUL] = u @ NUL # r @ [NUL]" by (simp add: assms(2))
  show "str_at ((s @ [NUL])[length u := NUL]) 0 = u" unfolding e using str_at_middle [of u "[]" 0 "r @ [NUL]"] assms(1,2) by simp
qed

lemma only_field:
  assumes "NUL \<notin> set s" "c \<notin> set s"
  shows "field_end (s @ [NUL]) 0 c (length s) = length s" "str_at ((s @ [NUL])[length s := NUL]) 0 = s"
proof -
  show "field_end (s @ [NUL]) 0 c (length s) = length s" using assms(2) strchr_None [of s c] by (simp add: field_end_def memchr_def)
  show "str_at ((s @ [NUL])[length s := NUL]) 0 = s" using str_at_middle [of s "[]" 0 "[]"] assms(1) by simp
qed

text \<open>The last field, up to the end of the string.\<close>

lemma mask_field:
  assumes "NUL \<notin> set m" "length p = n" "Suc (length m) \<le> l"
  shows "field_end (p @ m @ [NUL]) n NUL l = n + length m" "(p @ m @ [NUL])[n + length m := NUL] = p @ m @ [NUL]"
    "str_at (p @ m @ [NUL]) n = m"
proof -
  have "take l (m @ [NUL]) = m @ [NUL]" using assms(3) by simp
  then show "field_end (p @ m @ [NUL]) n NUL l = n + length m" using assms(1,2) by (simp add: field_end_def memchr_def)
  show "(p @ m @ [NUL])[n + length m := NUL] = p @ m @ [NUL]"
    using list_update_length [of "p @ m" NUL "[]" NUL] assms(2) by simp
  show "str_at (p @ m @ [NUL]) n = m" using str_at_middle [OF assms(1,2), of "[]"] by simp
qed

lemma parse_ip:
  assumes "NUL \<notin> set s"
  shows "(case parseIPFormat (nh_pton4 h) (nh_pton6 h) s IP_FORMAT zero_addr of (ret, a, ws) \<Rightarrow> if ret < 1 then None else Some a) =
    ip_meaning h s"
proof (cases "s = []")
  case True
  then show ?thesis by (simp add: parseIPFormat_def IP_FORMAT_def ip_meaning_def)
next
  case ne: False
  show ?thesis
  proof (cases rule: cut_cases [of "CHR ''/''" s])
    case whole
    then show ?thesis
      using ne only_field [OF assms, of "CHR ''/''"]
      by (auto simp: parseIPFormat_def IP_FORMAT_def ip_meaning_def Let_def parse_field_address masked_def set_field_def
          split: option.splits)
  next
    case (parts u m)
    note f = first_field [OF assms parts(1,2)]
    have m: "NUL \<notin> set m" using assms parts(1) by simp
    note g = mask_field [OF m, of "u @ [NUL]" "Suc (length u)" "length s - length u"]
    have l: "length s - length u = Suc (length m)" using parts(1) by simp
    show ?thesis
    proof (cases "read_family h u")
      case None
      then show ?thesis
        using ne f parts(3) by (simp add: parseIPFormat_def IP_FORMAT_def ip_meaning_def Let_def parse_field_address)
    next
      case (Some tb)
      obtain ty b where tb: "tb = (ty, b)" by (cases tb)
      define a where "a = zero_addr\<lparr>vna_type := ty, vna_ip := store_addr b (vna_ip zero_addr)\<rparr>"
      have a: "set_field CHR ''1'' b (zero_addr\<lparr>vna_type := ty\<rparr>) = a" by (simp add: a_def set_field_def)
      have ty: "vna_type a \<in> {VC_NXA_TYPE_IPV4, VC_NXA_TYPE_IPV6}" using read_family_type Some tb by (simp add: a_def)
      obtain ok a' where p: "parse_field (nh_pton4 h) (nh_pton6 h) CHR ''m'' m a = (ok, a')" by fastforce
      have "ip_meaning h s = (if ok then Some a' else None)"
        using parse_field_mask [OF ty, of h m] ne parts(3) Some tb p by (simp add: ip_meaning_def a_def)
      then show ?thesis
        using ne f g l Some tb a p by (simp add: parseIPFormat_def IP_FORMAT_def Let_def parse_field_address)
    qed
  qed
qed

lemma masked_parse:
  assumes "vna_type a \<in> {VC_NXA_TYPE_IPV4, VC_NXA_TYPE_IPV6}"
  obtains ok a' where "parse_field (nh_pton4 h) (nh_pton6 h) CHR ''m'' m a = (ok, a')" "masked h a (Some m) = (if ok then Some a' else None)"
proof -
  obtain ok a' where p: "parse_field (nh_pton4 h) (nh_pton6 h) CHR ''m'' m a = (ok, a')" by fastforce
  with parse_field_mask [OF assms, of h m] that show thesis by simp
qed

lemma parse_step:
  assumes "len \<noteq> 0" "field_end buf ptr sp len = e" "buf[e := NUL] = buf'" "str_at buf' ptr = u"
    "parse_field pton4 pton6 f u a = (True, a')"
  shows "parse_loop pton4 pton6 buf ptr len ((f, sp) # fs) a ret ws =
    parse_loop pton4 pton6 buf' (e + 1) (len - (e - ptr)) fs a' (ret + 1) (ws @ [e])"
  using assms by (simp add: Let_def)

text \<open>The second field of a range; without a mask its end is searched one byte too far, which changes nothing here.\<close>

lemma second_field:
  assumes "NUL \<notin> set r" "length p = n" "r = v @ c # m" "c \<notin> set v"
  shows "field_end (p @ r @ [NUL]) n c (Suc (length r)) = n + length v" "str_at ((p @ r @ [NUL])[n + length v := NUL]) n = v"
    "(p @ r @ [NUL])[n + length v := NUL] = (p @ v @ [NUL]) @ m @ [NUL]"
proof -
  show "field_end (p @ r @ [NUL]) n c (Suc (length r)) = n + length v" using assms(2-4) by (simp add: field_end_def memchr_def)
  show e: "(p @ r @ [NUL])[n + length v := NUL] = (p @ v @ [NUL]) @ m @ [NUL]"
    using list_update_length [of "p @ v" c "m @ [NUL]" NUL] assms(2,3) by simp
  show "str_at ((p @ r @ [NUL])[n + length v := NUL]) n = v"
    unfolding e using str_at_middle [of v p n "m @ [NUL]"] assms(1-3) by simp
qed

lemma second_field_open:
  assumes "NUL \<notin> set r" "length p = n" "c \<notin> set r" "c \<noteq> NUL"
  shows "field_end (p @ r @ [NUL]) n c (Suc (length r)) = n + Suc (length r)" "(p @ r @ [NUL])[n + Suc (length r) := NUL] = p @ r @ [NUL]"
    "str_at (p @ r @ [NUL]) n = r"
proof -
  show "field_end (p @ r @ [NUL]) n c (Suc (length r)) = n + Suc (length r)"
    using assms(2-4) strchr_None [of "r @ [NUL]" c] by (simp add: field_end_def memchr_def)
  show "(p @ r @ [NUL])[n + Suc (length r) := NUL] = p @ r @ [NUL]" using assms(2) by (simp add: list_update_beyond)
  show "str_at (p @ r @ [NUL]) n = r" using str_at_middle [OF assms(1,2), of "[]"] by simp
qed

lemma parse_range:
  assumes "NUL \<notin> set s"
  shows "(case parseIPFormat (nh_pton4 h) (nh_pton6 h) s RANGE_FORMAT zero_addr of (ret, a, ws) \<Rightarrow> if ret < 2 then None else Some a) =
    range_meaning h s"
proof (cases rule: cut_cases [of "CHR ''-''" s])
  case whole
  then show ?thesis
    using only_field [OF assms, of "CHR ''-''"]
    by (auto simp: parseIPFormat_def RANGE_FORMAT_def range_meaning_def Let_def parse_field_address split: option.splits)
next
  case (parts u r)
  note f = first_field [OF assms parts(1,2)]
  have r: "NUL \<notin> set r" using assms parts(1) by simp
  have l: "s \<noteq> []" "length s - length u = Suc (length r)" using parts(1) by simp_all
  have e: "u @ NUL # r @ [NUL] = (u @ [NUL]) @ r @ [NUL]" "length (u @ [NUL]) = Suc (length u)" by simp_all
  show ?thesis
  proof (cases "read_family h u")
    case None
    then show ?thesis
      using l f parts(3) by (simp add: parseIPFormat_def RANGE_FORMAT_def range_meaning_def Let_def parse_field_address split: prod.splits)
  next
    case (Some tb)
    obtain ty0 b where tb: "tb = (ty0, b)" by (cases tb)
    define a1 where "a1 = set_field CHR ''1'' b (zero_addr\<lparr>vna_type := ty0\<rparr>)"
    have run1: "parseIPFormat (nh_pton4 h) (nh_pton6 h) s RANGE_FORMAT zero_addr =
        parse_loop (nh_pton4 h) (nh_pton6 h) ((u @ [NUL]) @ r @ [NUL]) (Suc (length u)) (Suc (length r))
          [(CHR ''2'', CHR ''/''), (CHR ''m'', NUL)] a1 1 [length u]"
      using l f Some by (simp add: parseIPFormat_def RANGE_FORMAT_def Let_def parse_field_address tb a1_def)
    define a2 where "a2 ty c = zero_addr\<lparr>vna_type := ty, vna_ip := store_addr b (vna_ip zero_addr), vna_ip2 := store_addr c (vna_ip2 zero_addr)\<rparr>" for ty c
    have a2: "set_field CHR ''2'' c (a1\<lparr>vna_type := ty\<rparr>) = a2 ty c" for ty c by (simp add: a1_def a2_def set_field_def)
    show ?thesis
    proof (cases rule: cut_cases [of "CHR ''/''" r])
      case whole
      note g = second_field_open [OF r e(2) whole(1)]
      show ?thesis
        unfolding run1 using g parts(3) whole(2) Some
        by (auto simp: range_meaning_def Let_def parse_field_address tb a2 masked_def a2_def [symmetric] split: option.splits)
    next
      case cut: (parts v m)
      note g = second_field [OF r e(2) cut(1,2)]
      have m: "NUL \<notin> set m" using r cut(1) by simp
      have lm: "Suc (length r) - length v = Suc (Suc (length m))" using cut(1) by simp
      have e3: "length ((u @ [NUL]) @ v @ [NUL]) = Suc (Suc (length u + length v))" by simp
      note k = mask_field [OF m e3, of "Suc (Suc (length m))"]
      show ?thesis
      proof (cases "read_family h v")
        case None
        then show ?thesis
          unfolding run1 using g(1,2) parts(3) cut(3) Some
          by (simp add: range_meaning_def Let_def parse_field_address tb split: prod.splits)
      next
        case two: (Some tc)
        obtain ty c where tc: "tc = (ty, c)" by (cases tc)
        have ty: "vna_type (a2 ty c) \<in> {VC_NXA_TYPE_IPV4, VC_NXA_TYPE_IPV6}" using read_family_type two tc by (simp add: a2_def)
        obtain ok a' where p: "parse_field (nh_pton4 h) (nh_pton6 h) CHR ''m'' m (a2 ty c) = (ok, a')"
          "masked h (a2 ty c) (Some m) = (if ok then Some a' else None)" using masked_parse [OF ty] by blast
        have "range_meaning h s = (if ok then Some a' else None)"
          using p(2) parts(3) cut(3) Some two by (simp add: range_meaning_def tb tc a2_def)
        moreover have "parseIPFormat (nh_pton4 h) (nh_pton6 h) s RANGE_FORMAT zero_addr =
          parse_loop (nh_pton4 h) (nh_pton6 h) (((u @ [NUL]) @ v @ [NUL]) @ m @ [NUL]) (Suc (Suc (length u + length v)))
            (Suc (Suc (length m))) [(CHR ''m'', NUL)] (a2 ty c) 2 [length u, Suc (length u + length v)]"
          unfolding run1 using parse_step [OF _ g(1) g(3) g(2) [unfolded g(3)], of "nh_pton4 h" "nh_pton6 h" "CHR ''2''" a1 "a2 ty c"] two lm
          by (simp add: parse_field_address tc a2 del: append_assoc parse_loop.simps)
        ultimately show ?thesis using k p(1) by (simp add: Let_def del: append_assoc)
      qed
    qed
  qed
qed

text \<open>The options.\<close>

lemma readIP_asks:
  assumes "NUL \<notin> set s" "readIP (nh_pton4 h) (nh_pton6 h) (getif_ip h) s ty ips = Some l"
  shows "\<exists>x. l = ips @ [x] \<and> asks_ip h ty s x"
proof (cases "getif_ip h s")
  case None
  obtain ret a ws where p: "parseIPFormat (nh_pton4 h) (nh_pton6 h) s IP_FORMAT zero_addr = (ret, a, ws)" by (metis prod.collapse)
  with assms(2) None have "\<not> ret < 1" "l = ips @ [a\<lparr>vna_type := vna_type a OR ty\<rparr>]" by (auto simp: readIP_def split: if_splits)
  moreover from this(1) have "ip_meaning h s = Some a" using parse_ip [OF assms(1), of h] p by simp
  ultimately show ?thesis using None by (auto simp: asks_ip_def)
next
  case (Some im)
  with assms(2) show ?thesis by (cases im) (auto simp: readIP_def asks_ip_def)
qed

lemma readRange_asks:
  assumes "NUL \<notin> set s" "readRange (nh_pton4 h) (nh_pton6 h) s ips = Some l"
  shows "\<exists>x. l = ips @ [x] \<and> asks h (NaRange s) x"
proof -
  obtain ret a ws where p: "parseIPFormat (nh_pton4 h) (nh_pton6 h) s RANGE_FORMAT zero_addr = (ret, a, ws)" by (metis prod.collapse)
  with assms(2) have "\<not> ret < 2" "l = ips @ [a\<lparr>vna_type := vna_type a OR VC_NXA_TYPE_RANGE\<rparr>]"
    by (auto simp: readRange_def split: if_splits)
  moreover from this(1) have "range_meaning h s = Some a" using parse_range [OF assms(1), of h] p by simp
  ultimately show ?thesis by auto
qed

lemma readBcast_asks:
  "\<exists>x. readBcast (nh_pton4 h) (getif_bcast h) (nh_garbage h) s ips = ips @ [x] \<and> asks h (NaBcast s) x"
  by (cases "getif_bcast h s"; cases "nh_pton4 h s") (auto simp: readBcast_def Let_def)

text \<open>What an option adds to the arguments.\<close>

definition na_adds :: "net_host \<Rightarrow> naddress_opt list \<Rightarrow> naddress_args \<Rightarrow> naddress_args \<Rightarrow> bool" where
  "na_adds h opts a c \<longleftrightarrow>
     (\<exists>xs. ad_ips c = ad_ips a @ xs \<and> list_all2 (asks h) (filter names_address opts) xs) \<and>
     ad_add c = (ad_add a \<or> NaAdd \<in> set opts) \<and> ad_remove c = (ad_remove a \<or> NaRemove \<in> set opts) \<and>
     ad_set c = (ad_set a \<or> NaSet \<in> set opts) \<and> ad_nid c = last (ad_nid a # given_nids h opts) \<and>
     (\<forall>x \<in> set (given_nids h opts). x \<noteq> VC_NOCTX)"

lemma na_option_adds:
  assumes "naddress_option h opt a = Inr c" "NUL \<notin> set (opt_text opt)"
  shows "na_adds h [opt] a c"
proof (cases opt)
  case (NaNid s)
  with assms show ?thesis by (auto simp: na_adds_def Eidopt_def split: if_splits)
next
  case (NaIp s)
  then obtain l where "readIP (nh_pton4 h) (nh_pton6 h) (getif_ip h) s VC_NXA_TYPE_ADDR (ad_ips a) = Some l" "c = a\<lparr>ad_ips := l\<rparr>"
    using assms(1) by (auto simp: na_list_def split: option.splits)
  with readIP_asks [OF _ this(1)] assms(2) NaIp show ?thesis by (auto simp: na_adds_def)
next
  case (NaMask s)
  then obtain l where "readIP (nh_pton4 h) (nh_pton6 h) (getif_ip h) s VC_NXA_TYPE_MASK (ad_ips a) = Some l" "c = a\<lparr>ad_ips := l\<rparr>"
    using assms(1) by (auto simp: na_list_def split: option.splits)
  with readIP_asks [OF _ this(1)] assms(2) NaMask show ?thesis by (auto simp: na_adds_def)
next
  case (NaLback s)
  then obtain l where "readIP (nh_pton4 h) (nh_pton6 h) (getif_ip h) s (VC_NXA_TYPE_ADDR OR VC_NXA_MOD_LBACK) (ad_ips a) = Some l"
    "c = a\<lparr>ad_ips := l\<rparr>"
    using assms(1) by (auto simp: na_list_def split: option.splits)
  with readIP_asks [OF _ this(1)] assms(2) NaLback show ?thesis by (auto simp: na_adds_def)
next
  case (NaRange s)
  then obtain l where l: "readRange (nh_pton4 h) (nh_pton6 h) s (ad_ips a) = Some l" "c = a\<lparr>ad_ips := l\<rparr>"
    using assms(1) by (auto simp: na_list_def split: option.splits)
  then obtain x where "l = ad_ips a @ [x]" "asks h (NaRange s) x" using readRange_asks [OF _ l(1)] assms(2) NaRange by auto
  then show ?thesis using l NaRange by (simp add: na_adds_def)
next
  case (NaBcast s)
  obtain x where "readBcast (nh_pton4 h) (getif_bcast h) (nh_garbage h) s (ad_ips a) = ad_ips a @ [x]" "asks h (NaBcast s) x"
    using readBcast_asks by blast
  with assms(1) NaBcast show ?thesis by (auto simp: na_adds_def simp del: asks.simps)
qed (use assms(1) in \<open>auto simp: na_adds_def\<close>)

lemma given_nids_append: "given_nids h (opts @ opts') = given_nids h opts @ given_nids h opts'"
  by (induction opts) auto

lemma na_adds_trans: "na_adds h opts a b \<Longrightarrow> na_adds h opts' b c \<Longrightarrow> na_adds h (opts @ opts') a c"
proof -
  assume 1: "na_adds h opts a b" and 2: "na_adds h opts' b c"
  from 1 obtain xs where xs: "ad_ips b = ad_ips a @ xs" "list_all2 (asks h) (filter names_address opts) xs"
    unfolding na_adds_def by blast
  from 2 obtain ys where ys: "ad_ips c = ad_ips b @ ys" "list_all2 (asks h) (filter names_address opts') ys"
    unfolding na_adds_def by blast
  have "ad_ips c = ad_ips a @ (xs @ ys) \<and> list_all2 (asks h) (filter names_address (opts @ opts')) (xs @ ys)"
    using xs ys list_all2_appendI by simp
  moreover have "ad_nid c = last (ad_nid a # given_nids h (opts @ opts'))"
  proof -
    have "ad_nid b = last (ad_nid a # given_nids h opts)" using 1 unfolding na_adds_def by blast
    moreover have "ad_nid c = last (ad_nid b # given_nids h opts')" using 2 unfolding na_adds_def by blast
    ultimately show ?thesis by (simp add: given_nids_append last_append)
  qed
  moreover have "\<forall>x \<in> set (given_nids h (opts @ opts')). x \<noteq> VC_NOCTX"
  proof -
    have "\<forall>x \<in> set (given_nids h opts). x \<noteq> VC_NOCTX" using 1 unfolding na_adds_def by blast
    moreover have "\<forall>x \<in> set (given_nids h opts'). x \<noteq> VC_NOCTX" using 2 unfolding na_adds_def by blast
    ultimately show ?thesis unfolding given_nids_append by auto
  qed
  moreover have "ad_add c = (ad_add a \<or> NaAdd \<in> set (opts @ opts')) \<and> ad_remove c = (ad_remove a \<or> NaRemove \<in> set (opts @ opts')) \<and>
    ad_set c = (ad_set a \<or> NaSet \<in> set (opts @ opts'))"
  proof -
    have "ad_add b = (ad_add a \<or> NaAdd \<in> set opts) \<and> ad_remove b = (ad_remove a \<or> NaRemove \<in> set opts) \<and>
      ad_set b = (ad_set a \<or> NaSet \<in> set opts)" using 1 unfolding na_adds_def by blast
    moreover have "ad_add c = (ad_add b \<or> NaAdd \<in> set opts') \<and> ad_remove c = (ad_remove b \<or> NaRemove \<in> set opts') \<and>
      ad_set c = (ad_set b \<or> NaSet \<in> set opts')" using 2 unfolding na_adds_def by blast
    ultimately show ?thesis by auto
  qed
  ultimately show ?thesis unfolding na_adds_def by blast
qed

lemma na_options_adds:
  assumes "run_options (naddress_option h) opts a = Inr b" "\<forall>opt \<in> set opts. NUL \<notin> set (opt_text opt)"
  shows "na_adds h opts a b"
  using assms
proof (induction opts arbitrary: a)
  case Nil
  then show ?case by (simp add: na_adds_def)
next
  case (Cons opt opts)
  then obtain c where c: "naddress_option h opt a = Inr c" "run_options (naddress_option h) opts c = Inr b"
    by (auto split: sum.splits)
  from na_adds_trans [OF na_option_adds [OF c(1)] Cons.IH [OF c(2)]] Cons.prems(2) show ?case by simp
qed

lemma na_options_refused:
  "run_options (naddress_option h) opts a = Inl c \<Longrightarrow> c = 255 \<or> c = 0 \<and> (NaHelp \<in> set opts \<or> NaVersion \<in> set opts)"
proof (induction opts arbitrary: a)
  case (Cons opt opts)
  then show ?case
    by (cases opt) (auto simp: na_list_def Eidopt_def split: sum.splits option.splits if_splits)
qed simp


definition sample_net_host :: net_host where
  "sample_net_host =
     \<lparr>nh_table = None, nh_junk = [], nh_socket = True, nh_ioctl = (\<lambda>_ _. None), nh_pton4 = (\<lambda>_. Some [10, 0, 0, 1]),
      nh_pton6 = (\<lambda>_. None), nh_ntop = (\<lambda>_ _. None), nh_garbage = [], nh_task = 5, nh_getctx = (\<lambda>_ _ _. VC_NOCTX)\<rparr>"


section \<open>chbind\<close>

text \<open>
  Addresses are in the order of the host here; \<open>ch_byname\<close> stands for \<^verbatim>\<open>gethostbyname\<close>. A lookup yields whether it
  succeeded and what address, mask and broadcast address are afterwards: on a known device the first and the last are set
  before the kernel is asked.
\<close>

record bind_host =
  bh_table :: "cstr option"
  bh_junk :: cstr
  bh_socket :: bool
  bh_ioctl :: "cstr \<Rightarrow> ifreq \<Rightarrow> u32 option"
  bh_byname :: "cstr \<Rightarrow> u32 option"
  bh_ntoa :: "u32 \<Rightarrow> cstr"
  bh_nb :: nat
  bh_mask_junk :: u32

definition bind_getaddr :: "bind_host \<Rightarrow> cstr \<Rightarrow> u32 \<times> u32 \<times> u32 \<Rightarrow> bool \<times> u32 \<times> u32 \<times> u32" where
  "bind_getaddr h ifname old =
     (case old of (addr, msk, bcast) \<Rightarrow>
        if existsDevice (bh_table h) (bh_junk h) ifname
        then
          (let ask = (\<lambda>r old. if bh_socket h then (case bh_ioctl h ifname r of Some v \<Rightarrow> v | None \<Rightarrow> old) else old)
           in (bh_socket h \<and> (\<exists>r. bh_ioctl h ifname r \<noteq> None),
               ask SIOCGIFADDR 0, ask SIOCGIFNETMASK msk, ask SIOCGIFBRDADDR 0xffffffff))
        else (False, addr, msk, bcast))"

text \<open>\<^verbatim>\<open>for (mask=0; sz>0; --sz) { mask >>= 1; mask |= 0x80000000; }\<close>\<close>

fun size_mask :: "nat \<Rightarrow> u32 \<Rightarrow> u32" where
  "size_mask 0 m = m"
| "size_mask (Suc n) m = size_mask n (drop_bit 1 m OR 0x80000000)"

definition mask_of_text :: "bind_host \<Rightarrow> cstr option \<Rightarrow> u32 option" where
  "mask_of_text h pt =
     (case pt of
        None \<Rightarrow> Some 0xffffff00
      | Some m \<Rightarrow> if strchr m CHR ''.'' = None then Some (size_mask (nat (atoi m)) 0) else bh_byname h m)"

text \<open>\<open>None\<close> is the exit on an invalid argument; else the pair and the broadcast address.\<close>

definition bind_readIP :: "bind_host \<Rightarrow> cstr \<Rightarrow> u32 \<Rightarrow> ((u32 \<times> u32) \<times> u32) option" where
  "bind_readIP h str bcast =
     (let (found, addr, msk, bcast') = bind_getaddr h str (0, bh_mask_junk h, bcast)
      in if found then Some ((addr, msk), bcast')
         else
           (let (host, pt) = (case strchr str CHR ''/'' of None \<Rightarrow> (str, None) | Some i \<Rightarrow> (take i str, Some (drop (i + 1) str)))
            in case mask_of_text h pt of
                 None \<Rightarrow> None
               | Some m \<Rightarrow> map_option (\<lambda>ip. ((ip, m), bcast')) (bh_byname h host)))"

definition bind_readBcast :: "bind_host \<Rightarrow> cstr \<Rightarrow> u32 \<Rightarrow> u32 option" where
  "bind_readBcast h str bcast =
     (let (found, addr, msk, bcast') = bind_getaddr h str (0, 0, bcast)
      in if found then Some bcast' else bh_byname h str)"

datatype bind_opt = BiHelp | BiVersion | BiSilent | BiBcast cstr | BiNid | BiIp cstr | BiOther

record bind_args =
  bi_silent :: bool
  bi_ips :: "(u32 \<times> u32) list"
  bi_bcast :: u32

fun bind_option :: "bind_host \<Rightarrow> bind_opt \<Rightarrow> bind_args \<Rightarrow> int + bind_args" where
  "bind_option h BiHelp a = Inl 0"
| "bind_option h BiVersion a = Inl 0"
| "bind_option h BiSilent a = Inr (a\<lparr>bi_silent := True\<rparr>)"
| "bind_option h (BiBcast s) a =
     (case bind_readBcast h s (bi_bcast a) of None \<Rightarrow> Inl 255 | Some b \<Rightarrow> Inr (a\<lparr>bi_bcast := b\<rparr>))"
| "bind_option h BiNid a = Inr a"
| "bind_option h (BiIp s) a =
     (if length (bi_ips a) \<ge> bh_nb h then Inl 255
      else case bind_readIP h s (bi_bcast a) of
             None \<Rightarrow> Inl 255
           | Some (ip, b) \<Rightarrow> Inr (a\<lparr>bi_ips := bi_ips a @ [ip], bi_bcast := b\<rparr>))"
| "bind_option h BiOther a = Inl 255"

datatype bind_call = Set_ipv4root u32 "(u32 \<times> u32) list" | Bind_print cstr

fun print_ips :: "bind_host \<Rightarrow> (u32 \<times> u32) list \<Rightarrow> bind_call prog \<Rightarrow> bind_call prog" where
  "print_ips h [] k = k"
| "print_ips h ((ip, m) # ips) k = ignore (Bind_print '' '') (ignore (Bind_print (bh_ntoa h ip)) (print_ips h ips k))"

definition chbind :: "bind_host \<Rightarrow> bind_opt list \<Rightarrow> cstr list \<Rightarrow> bind_call prog" where
  "chbind h opts argv =
     (case run_options (bind_option h) opts \<lparr>bi_silent = False, bi_ips = [], bi_bcast = 0xffffffff\<rparr> of
        Inl c \<Rightarrow> End c
      | Inr a \<Rightarrow>
          if argv = [] then End 255
          else
            must 255 (Set_ipv4root (bi_bcast a) (bi_ips a))
              (when_do (\<not> bi_silent a)
                (\<lambda>k. ignore (Bind_print ''ipv4root is now'') (print_ips h (bi_ips a) (ignore (Bind_print [NL]) k)))
                (Exec argv (End 255))))"

text \<open>The mask of a size has that many leading ones, all 32 from that size on.\<close>

lemma size_mask_bits:
  "bit (size_mask n m) i \<longleftrightarrow> i < 32 \<and> (32 \<le> i + n \<or> bit m (i + n))"
proof (induction n arbitrary: m)
  case 0
  then show ?case using bit_imp_le_length [of m i] by auto
next
  case (Suc n)
  have top: "(0x80000000 :: u32) = 2 ^ 31" by simp
  have step: "bit (drop_bit 1 m OR 0x80000000) j \<longleftrightarrow> bit m (Suc j) \<or> j = 31" for j
    by (simp only: top bit_or_iff bit_drop_bit_eq bit_exp_iff) auto
  have "32 \<le> Suc (i + n) \<longleftrightarrow> 32 \<le> i + n \<or> i + n = 31" by linarith
  then show ?case unfolding size_mask.simps Suc.IH step add_Suc_right by blast
qed

lemma size_mask_prefix: "bit (size_mask n 0) i \<longleftrightarrow> i < 32 \<and> 32 \<le> i + n"
  by (simp add: size_mask_bits)

text \<open>No more addresses are stored than the kernel takes, which is the size of the array.\<close>

lemma bind_options_bound:
  assumes "run_options (bind_option h) opts a = Inr b" "length (bi_ips a) \<le> bh_nb h"
  shows "length (bi_ips b) \<le> bh_nb h"
  using assms
proof (induction opts arbitrary: a)
  case Nil
  then show ?case by simp
next
  case (Cons opt opts)
  then obtain c where c: "bind_option h opt a = Inr c" "run_options (bind_option h) opts c = Inr b"
    by (auto split: sum.splits)
  have "length (bi_ips c) \<le> bh_nb h"
    using c(1) Cons.prems(2) by (cases opt) (auto split: option.splits if_splits)
  with Cons.IH c(2) show ?case by blast
qed

lemma print_ips_quiet: "performs (print_ips h ips k) t e \<Longrightarrow> \<exists>u v. t = u @ v \<and> (\<forall>(c, r) \<in> set u. \<exists>s. c = Bind_print s) \<and> performs k v e"
proof (induction ips arbitrary: t)
  case Nil
  then show ?case by (intro exI [of _ "[]"] exI [of _ t]) simp
next
  case (Cons ip ips)
  obtain i m where ip: "ip = (i, m)" by (cases ip)
  from Cons.prems obtain r0 r1 u where t: "t = (Bind_print '' '', r0) # (Bind_print (bh_ntoa h i), r1) # u"
    and u: "performs (print_ips h ips k) u e" by (auto simp: ip performs_ignore)
  from Cons.IH [OF u] obtain v w where "u = v @ w" "\<forall>(c, r) \<in> set v. \<exists>s. c = Bind_print s" "performs k w e" by blast
  then show ?case
    by (intro exI [of _ "(Bind_print '' '', r0) # (Bind_print (bh_ntoa h i), r1) # v"] exI [of _ w]) (simp add: t)
qed

text \<open>The command only runs once the addresses of the options were accepted.\<close>

lemma chbind_runs:
  assumes "performs (chbind h opts argv) t (Running a)"
  shows "\<exists>args n u. run_options (bind_option h) opts \<lparr>bi_silent = False, bi_ips = [], bi_bcast = 0xffffffff\<rparr> = Inr args \<and>
    a = argv \<and> t = (Set_ipv4root (bi_bcast args) (bi_ips args), Done n) # u \<and> length (bi_ips args) \<le> bh_nb h"
proof -
  from assms obtain args where args: "run_options (bind_option h) opts \<lparr>bi_silent = False, bi_ips = [], bi_bcast = 0xffffffff\<rparr> = Inr args"
    by (auto simp: chbind_def split: sum.splits)
  with assms obtain n u where t: "t = (Set_ipv4root (bi_bcast args) (bi_ips args), Done n) # u"
    and u: "performs (when_do (\<not> bi_silent args)
        (\<lambda>k. ignore (Bind_print ''ipv4root is now'') (print_ips h (bi_ips args) (ignore (Bind_print [NL]) k)))
        (Exec argv (End 255))) u (Running a)"
    by (auto simp: chbind_def performs_must split: if_splits)
  have "a = argv"
  proof (cases "bi_silent args")
    case True
    with u show ?thesis by (simp add: when_do_def)
  next
    case False
    with u obtain r w where "performs (print_ips h (bi_ips args) (ignore (Bind_print [NL]) (Exec argv (End 255)))) w (Running a)"
      by (auto simp: when_do_def performs_ignore)
    from print_ips_quiet [OF this] show ?thesis by (auto simp: performs_ignore)
  qed
  moreover have "length (bi_ips args) \<le> bh_nb h" using bind_options_bound [OF args] by simp
  ultimately show ?thesis using args t by blast
qed

end
