(* ===== verification/DiskUsage.thy ===== *)
theory DiskUsage
  imports MatchList Attributes
begin

text \<open>
  \<^verbatim>\<open>vdu\<close>, which adds up the blocks and inodes that belong to a context below a directory. Files with several names
  are counted once, with a hash table of the inode numbers seen so far; the walk does not leave the file system.
\<close>

section \<open>The hash table\<close>

definition HASH_SIZE :: nat where "HASH_SIZE = 103"

text \<open>A table is the list of its chains, which are kept in ascending order. \<open>None\<close> is the result -1.\<close>

type_synonym hash_table = "u64 list list"

definition hash_init :: hash_table where
  "hash_init = replicate HASH_SIZE []"

fun chain_insert :: "u64 \<Rightarrow> u64 list \<Rightarrow> u64 list option" where
  "chain_insert inode [] = Some [inode]"
| "chain_insert inode (e # es) =
     (if e = inode then None
      else if e > inode then Some (inode # e # es)
      else map_option ((#) e) (chain_insert inode es))"

definition hash_insert :: "u64 \<Rightarrow> hash_table \<Rightarrow> hash_table option" where
  "hash_insert inode ht =
     (let hashval = unat inode mod HASH_SIZE
      in map_option (\<lambda>c. ht[hashval := c]) (chain_insert inode (ht ! hashval)))"

text \<open>A table stands for the set of its numbers; every number is in the chain of its hash value.\<close>

definition hash_set :: "hash_table \<Rightarrow> u64 set" where
  "hash_set ht = (\<Union>c \<in> set ht. set c)"

definition hash_wf :: "hash_table \<Rightarrow> bool" where
  "hash_wf ht \<longleftrightarrow> length ht = HASH_SIZE \<and>
     (\<forall>i<HASH_SIZE. sorted_wrt (<) (ht ! i) \<and> (\<forall>x \<in> set (ht ! i). unat x mod HASH_SIZE = i))"

lemma chain_insert_None: "sorted_wrt (<) c \<Longrightarrow> chain_insert x c = None \<longleftrightarrow> x \<in> set c"
  by (induction c) auto

lemma chain_insert_Some:
  "sorted_wrt (<) c \<Longrightarrow> chain_insert x c = Some d \<Longrightarrow> sorted_wrt (<) d \<and> set d = insert x (set c)"
proof (induction c arbitrary: d)
  case Nil
  then show ?case by auto
next
  case (Cons e es)
  show ?case
  proof (cases "e > x")
    case True
    with Cons.prems(2) have "d = x # e # es" by (auto split: if_splits)
    with True Cons.prems(1) show ?thesis by auto
  next
    case False
    with Cons.prems obtain d' where d: "chain_insert x es = Some d'" "d = e # d'" "e < x"
      by (auto split: if_splits)
    from Cons.IH [OF _ d(1)] Cons.prems(1) d(2,3) show ?thesis by auto
  qed
qed

lemma hash_init_wf: "hash_wf hash_init \<and> hash_set hash_init = {}"
  by (auto simp: hash_wf_def hash_init_def hash_set_def)

lemma hash_set_chain:
  assumes "hash_wf ht"
  shows "x \<in> hash_set ht \<longleftrightarrow> x \<in> set (ht ! (unat x mod HASH_SIZE))"
proof -
  have "unat x mod HASH_SIZE < HASH_SIZE" by (simp add: HASH_SIZE_def)
  with assms show ?thesis
    by (auto simp: hash_set_def hash_wf_def in_set_conv_nth) (metis nth_mem)+
qed

lemma hash_insert_set:
  assumes "hash_wf ht"
  shows "hash_insert x ht = None \<longleftrightarrow> x \<in> hash_set ht"
    "hash_insert x ht = Some ht' \<Longrightarrow> hash_wf ht' \<and> hash_set ht' = insert x (hash_set ht)"
proof -
  let ?h = "unat x mod HASH_SIZE"
  have h: "?h < HASH_SIZE" by (simp add: HASH_SIZE_def)
  with assms have s: "sorted_wrt (<) (ht ! ?h)" by (simp add: hash_wf_def)
  show "hash_insert x ht = None \<longleftrightarrow> x \<in> hash_set ht"
    by (simp add: hash_insert_def Let_def chain_insert_None [OF s] hash_set_chain [OF assms])
  assume "hash_insert x ht = Some ht'"
  then obtain c where c: "chain_insert x (ht ! ?h) = Some c" "ht' = ht[?h := c]" by (auto simp: hash_insert_def Let_def)
  note cs = chain_insert_Some [OF s c(1)]
  have wf: "hash_wf ht'"
    using assms cs h by (auto simp: hash_wf_def c(2) nth_list_update)
  have "y \<in> hash_set ht' \<longleftrightarrow> y = x \<or> y \<in> hash_set ht" for y
  proof (cases "unat y mod HASH_SIZE = ?h")
    case True
    with cs assms h show ?thesis
      unfolding hash_set_chain [OF wf] hash_set_chain [OF assms] by (simp add: c(2) hash_wf_def)
  next
    case False
    then show ?thesis unfolding hash_set_chain [OF wf] hash_set_chain [OF assms] by (auto simp: c(2))
  qed
  with wf show "hash_wf ht' \<and> hash_set ht' = insert x (hash_set ht)" by blast
qed

section \<open>The walk\<close>

text \<open>
  What is seen of a file: \<^verbatim>\<open>lstat\<close> and its context. A directory is a tree of its entries;
  that \<^verbatim>\<open>EsafeChdir\<close> enters the directory that was looked at is part of this view.
\<close>

record du_stat =
  du_ino :: u64
  du_dev :: u64
  du_nlink :: nat
  du_blocks :: u64
  du_xid :: xid_t

datatype du_entry = DuFile du_stat | DuDir du_stat "(cstr \<times> du_entry) list"

fun du_stat_of :: "du_entry \<Rightarrow> du_stat" where
  "du_stat_of (DuFile s) = s"
| "du_stat_of (DuDir s es) = s"

record du_result =
  dr_blocks :: u64
  dr_inodes :: u64

definition du_count :: "xid_t \<Rightarrow> du_stat \<Rightarrow> du_result \<times> hash_table \<Rightarrow> du_result \<times> hash_table" where
  "du_count xid st rh =
     (case rh of (r, ht) \<Rightarrow>
        (let add = r\<lparr>dr_blocks := dr_blocks r + du_blocks st, dr_inodes := dr_inodes r + 1\<rparr>
         in if du_xid st \<noteq> xid then (r, ht)
            else if du_nlink st = 1 then (add, ht)
            else case hash_insert (du_ino st) ht of None \<Rightarrow> (r, ht) | Some ht' \<Rightarrow> (add, ht')))"

fun du_visitDirEntry :: "xid_t \<Rightarrow> u64 \<Rightarrow> du_entry \<Rightarrow> du_result \<times> hash_table \<Rightarrow> du_result \<times> hash_table"
  and du_visitDir :: "xid_t \<Rightarrow> u64 \<Rightarrow> (cstr \<times> du_entry) list \<Rightarrow> du_result \<times> hash_table \<Rightarrow> du_result \<times> hash_table" where
  "du_visitDirEntry xid dir_dev (DuFile st) rh = du_count xid st rh"
| "du_visitDirEntry xid dir_dev (DuDir st es) rh =
     (let rh' = du_count xid st rh in if dir_dev = du_dev st then du_visitDir xid (du_dev st) es rh' else rh')"
| "du_visitDir xid dev [] rh = rh"
| "du_visitDir xid dev ((name, e) # es) rh = du_visitDir xid dev es (if isDotfile name then rh else du_visitDirEntry xid dev e rh)"

definition visitDirStart :: "xid_t \<Rightarrow> du_entry \<Rightarrow> du_result" where
  "visitDirStart xid d = fst (du_visitDirEntry xid (du_dev (du_stat_of d)) d (\<lparr>dr_blocks = 0, dr_inodes = 0\<rparr>, hash_init))"

section \<open>The program\<close>

datatype du_opt = DuHelp | DuVersion | DuXid cstr | DuSpace | DuInodes | DuScript | DuBlocksize cstr | DuOther

record du_args =
  da_xid :: xid_t
  da_space :: bool
  da_inodes :: bool
  da_script :: bool
  da_blocksize :: u64

definition du_init :: du_args where
  "du_init = \<lparr>da_xid = VC_NOCTX, da_space = False, da_inodes = False, da_script = False, da_blocksize = 1024\<rparr>"

fun du_option :: "xid_t \<Rightarrow> (cstr \<Rightarrow> bool \<Rightarrow> vcCtxType \<Rightarrow> xid_t) \<Rightarrow> du_opt \<Rightarrow> du_args \<Rightarrow> int + du_args" where
  "du_option task getctx DuHelp a = Inl 0"
| "du_option task getctx DuVersion a = Inl 0"
| "du_option task getctx (DuXid s) a = id_arg (vc_xidopt2xid task getctx s True) (\<lambda>x. a\<lparr>da_xid := x\<rparr>)"
| "du_option task getctx DuSpace a = Inr (a\<lparr>da_space := True\<rparr>)"
| "du_option task getctx DuInodes a = Inr (a\<lparr>da_inodes := True\<rparr>)"
| "du_option task getctx DuScript a = Inr (a\<lparr>da_script := True\<rparr>)"
| "du_option task getctx (DuBlocksize s) a =
     (case isNumberUnsigned s False of None \<Rightarrow> Inl 1 | Some n \<Rightarrow> Inr (a\<lparr>da_blocksize := word_of_int n\<rparr>))"
| "du_option task getctx DuOther a = Inl 255"

text \<open>The line for a directory; \<open>None\<close> is the division by zero.\<close>

definition du_line :: "du_args \<Rightarrow> cstr \<Rightarrow> du_result \<Rightarrow> cstr option" where
  "du_line a name r =
     (if da_space a \<and> da_blocksize a = 0 then None
      else
        Some ((if da_script a then [] else name @ '' '') @
              (if da_space a then digits_of 10 (unat (dr_blocks r * 512 div da_blocksize a)) else []) @
              (if da_inodes a then (if da_space a then '' '' else []) @ digits_of 10 (unat (dr_inodes r)) else []) @ [NL]))"

text \<open>The exit code and the output; \<open>None\<close> is a crash. A directory that cannot be entered is \<open>None\<close> of \<open>dirs\<close>.\<close>

fun du_dirs :: "(cstr \<Rightarrow> du_entry option) \<Rightarrow> du_args \<Rightarrow> cstr list \<Rightarrow> (int \<times> cstr) option" where
  "du_dirs dirs a [] = Some (0, [])"
| "du_dirs dirs a (d # ds) =
     (case dirs d of
        None \<Rightarrow> Some (1, [])
      | Some t \<Rightarrow>
          Option.bind (du_line a d (visitDirStart (da_xid a) t)) (\<lambda>l. map_option (\<lambda>(c, out). (c, l @ out)) (du_dirs dirs a ds)))"

definition vdu ::
  "xid_t \<Rightarrow> (cstr \<Rightarrow> bool \<Rightarrow> vcCtxType \<Rightarrow> xid_t) \<Rightarrow> (cstr \<Rightarrow> du_entry option) \<Rightarrow> du_opt list \<Rightarrow> cstr list \<Rightarrow> (int \<times> cstr) option" where
  "vdu task getctx dirs opts args =
     (case run_options (du_option task getctx) opts du_init of
        Inl c \<Rightarrow> Some (c, [])
      | Inr a \<Rightarrow>
          if da_xid a = VC_NOCTX \<or> \<not> da_space a \<and> \<not> da_inodes a \<or> args = [] then Some (1, [])
          else du_dirs dirs a args)"

section \<open>What is counted\<close>

text \<open>The files the walk looks at, in order.\<close>

fun du_seen :: "u64 \<Rightarrow> du_entry \<Rightarrow> du_stat list"
  and du_seen_list :: "u64 \<Rightarrow> (cstr \<times> du_entry) list \<Rightarrow> du_stat list" where
  "du_seen dev (DuFile st) = [st]"
| "du_seen dev (DuDir st es) = st # (if dev = du_dev st then du_seen_list (du_dev st) es else [])"
| "du_seen_list dev [] = []"
| "du_seen_list dev ((name, e) # es) = (if isDotfile name then [] else du_seen dev e) @ du_seen_list dev es"

lemma visit_fold:
  "du_visitDirEntry xid dev e rh = fold (du_count xid) (du_seen dev e) rh"
  "du_visitDir xid dev es rh = fold (du_count xid) (du_seen_list dev es) rh"
  by (induction xid dev e rh and xid dev es rh rule: du_visitDirEntry_du_visitDir.induct) (simp_all add: Let_def)

text \<open>A specification: every file of the context once.\<close>

definition du_total :: "xid_t \<Rightarrow> du_stat set \<Rightarrow> du_result" where
  "du_total xid S =
     (let M = {s \<in> S. du_xid s = xid} in \<lparr>dr_blocks = (\<Sum>s \<in> M. du_blocks s), dr_inodes = of_nat (card M)\<rparr>)"

text \<open>
  What the walk relies on: an inode number stands for one file, and a file with one link is met once.
\<close>

definition du_consistent :: "du_stat list \<Rightarrow> bool" where
  "du_consistent l \<longleftrightarrow>
     (\<forall>s \<in> set l. \<forall>t \<in> set l. du_ino s = du_ino t \<longrightarrow> s = t) \<and>
     distinct (filter (\<lambda>s. du_nlink s = 1) l)"

lemma du_count_fold:
  assumes "\<forall>s \<in> set (done @ l). \<forall>t \<in> set (done @ l). du_ino s = du_ino t \<longrightarrow> s = t"
    "distinct (filter (\<lambda>s. du_nlink s = 1) (done @ l))"
    "hash_wf ht" "hash_set ht = du_ino ` {s \<in> set done. du_xid s = xid \<and> du_nlink s \<noteq> 1}"
    "r = du_total xid (set done)"
  shows "fst (fold (du_count xid) l (r, ht)) = du_total xid (set (done @ l))"
  using assms
proof (induction l arbitrary: "done" r ht)
  case Nil
  then show ?case by simp
next
  case (Cons s l)
  let ?M = "{s \<in> set done. du_xid s = xid}"
  obtain r' ht' where c: "du_count xid s (r, ht) = (r', ht')" by fastforce
  have new: "r' = du_total xid (set (done @ [s])) \<and> hash_wf ht' \<and>
      hash_set ht' = du_ino ` {u \<in> set (done @ [s]). du_xid u = xid \<and> du_nlink u \<noteq> 1}"
  proof (cases "du_xid s = xid")
    case False
    then have "{u \<in> set (done @ [s]). du_xid u = xid} = ?M"
      "{u \<in> set (done @ [s]). du_xid u = xid \<and> du_nlink u \<noteq> 1} = {u \<in> set done. du_xid u = xid \<and> du_nlink u \<noteq> 1}" by auto
    with False c Cons.prems(3,4,5) show ?thesis by (simp add: du_count_def du_total_def Let_def)
  next
    case x: True
    have M: "{u \<in> set (done @ [s]). du_xid u = xid} = insert s ?M" using x by auto
    show ?thesis
    proof (cases "s \<in> set done")
      case True
      with Cons.prems(2) have "du_nlink s \<noteq> 1" by (auto simp: filter_empty_conv)
      with True x Cons.prems(4) have "du_ino s \<in> hash_set ht" by auto
      then have "r' = r" "ht' = ht"
        using c x \<open>du_nlink s \<noteq> 1\<close> hash_insert_set(1) [OF Cons.prems(3), THEN iffD2, of "du_ino s"]
        by (simp_all add: du_count_def Let_def)
      moreover have "set (done @ [s]) = set done" using True by auto
      ultimately show ?thesis using Cons.prems(3,4,5) by simp
    next
      case new: False
      then have tot: "du_total xid (set (done @ [s])) =
          (du_total xid (set done))\<lparr>dr_blocks := dr_blocks (du_total xid (set done)) + du_blocks s,
            dr_inodes := dr_inodes (du_total xid (set done)) + 1\<rparr>"
        unfolding du_total_def Let_def M by (simp add: add.commute)
      show ?thesis
      proof (cases "du_nlink s = 1")
        case True
        have "{u \<in> set (done @ [s]). du_xid u = xid \<and> du_nlink u \<noteq> 1} = {u \<in> set done. du_xid u = xid \<and> du_nlink u \<noteq> 1}"
          using True by auto
        with True x c Cons.prems(3,4,5) tot show ?thesis by (simp add: du_count_def Let_def)
      next
        case False
        have "du_ino s \<notin> hash_set ht"
        proof
          assume "du_ino s \<in> hash_set ht"
          with Cons.prems(4) obtain u where "u \<in> set done" "du_ino u = du_ino s" by auto
          with Cons.prems(1) have "u = s" by auto
          with new \<open>u \<in> set done\<close> show False by simp
        qed
        with hash_insert_set(1) [OF Cons.prems(3)] obtain h where h: "hash_insert (du_ino s) ht = Some h" by fastforce
        have "{u \<in> set (done @ [s]). du_xid u = xid \<and> du_nlink u \<noteq> 1} =
            insert s {u \<in> set done. du_xid u = xid \<and> du_nlink u \<noteq> 1}" using x False by auto
        with h False x c Cons.prems(4,5) tot hash_insert_set(2) [OF Cons.prems(3) h] show ?thesis
          by (simp add: du_count_def Let_def)
      qed
    qed
  qed
  from Cons.IH [of "done @ [s]" ht' r'] Cons.prems(1,2) new c show ?case by simp
qed


text \<open>A file with two names, a file of another context, and a mounted directory, which is counted and not entered.\<close>

definition sample_dir :: du_entry where
  "sample_dir =
     (let f = (\<lambda>i n b x. \<lparr>du_ino = i, du_dev = 1, du_nlink = n, du_blocks = b, du_xid = x\<rparr>)
      in DuDir (f 2 3 8 49)
           [(''a'', DuFile (f 10 2 16 49)), (''b'', DuFile (f 113 1 4 49)), (''c'', DuFile (f 11 1 4 0)),
            (''d'', DuDir (f 12 2 8 49) [(''a2'', DuFile (f 10 2 16 49))]),
            (''m'', DuDir ((f 20 2 8 49)\<lparr>du_dev := 7\<rparr>) [(''x'', DuFile (f 30 1 100 49))])])"


text \<open>
  Without this the count is wrong: the root of a mounted file system has the inode number of some other file often enough,
  and then it is taken for that file.
\<close>

lemma vdu_mount_lost:
  "visitDirStart 1 (DuDir \<lparr>du_ino = 2, du_dev = 1, du_nlink = 3, du_blocks = 8, du_xid = 1\<rparr>
     [(''m'', DuDir \<lparr>du_ino = 2, du_dev = 7, du_nlink = 2, du_blocks = 8, du_xid = 1\<rparr> [])]) = \<lparr>dr_blocks = 8, dr_inodes = 1\<rparr>"
  by code_simp

lemma vdu_zero: "vdu 5 (\<lambda>_ _ _. 5) (\<lambda>_. Some sample_dir) [DuXid ''self'', DuSpace, DuBlocksize ''0''] [''d''] = None"
  by code_simp

end
