(* ===== verification/ShellTools.thy ===== *)
theory ShellTools
  imports ExecTools NetTools
begin

text \<open>
  Programs the shell scripts call to work below a directory: \<^verbatim>\<open>chroot-sh\<close> (file operations in the current
  directory as root), \<^verbatim>\<open>secure-umount\<close>, \<^verbatim>\<open>fakerunlevel\<close>, and the small links of a command chain,
  \<^verbatim>\<open>chain-echo\<close>, \<^verbatim>\<open>sigexec\<close> and \<^verbatim>\<open>save_ctxinfo\<close>.
\<close>

section \<open>Exit codes that tell the truth\<close>

text \<open>The tree does not exit with 0 after one of the calls \<open>P\<close> failed; \<open>bad\<close> says that one failed before.\<close>

primrec honest :: "('a \<Rightarrow> bool) \<Rightarrow> bool \<Rightarrow> 'a prog \<Rightarrow> bool" where
  "honest P bad (End c) \<longleftrightarrow> \<not> bad \<or> c \<noteq> 0"
| "honest P bad (Exec argv p) \<longleftrightarrow> \<not> bad \<and> honest P bad p"
| "honest P bad (Call a f) \<longleftrightarrow> (\<forall>r. honest P (bad \<or> P a \<and> (\<exists>e. r = Failed e)) (f r))"

lemma honest_performs:
  "honest P bad p \<Longrightarrow> performs p t (Exited 0) \<Longrightarrow> \<not> bad \<and> (\<forall>(a, r) \<in> set t. P a \<longrightarrow> (\<exists>n. r = Done n))"
proof (induction p arbitrary: t bad)
  case (Call a f)
  from Call.prems obtain r u where t: "t = (a, r) # u" and u: "performs (f r) u (Exited 0)" by (auto simp: performs_call)
  from Call.prems(1) have "honest P (bad \<or> P a \<and> (\<exists>e. r = Failed e)) (f r)" by simp
  from Call.IH [OF rangeI this u] show ?case by (cases r) (auto simp: t)
next
  case (Exec argv p)
  from Exec.IH [of bad t] Exec.prems show ?case by (cases bad) simp_all
qed auto

lemma honest_call: "honest P bad (Call a f) \<longleftrightarrow> (\<forall>n. honest P bad (f (Done n))) \<and> (\<forall>e. honest P (bad \<or> P a) (f (Failed e)))"
  by (simp add: all_answers)

declare honest.simps(3) [simp del]

lemma honest_must [simp]: "honest P bad (must c a k) \<longleftrightarrow> honest P bad k \<and> (bad \<or> P a \<longrightarrow> c \<noteq> 0)"
  by (auto simp: must_def honest_call)

lemma honest_ignore [simp]: "\<not> P a \<Longrightarrow> honest P bad (ignore a k) \<longleftrightarrow> honest P bad k"
  by (auto simp: ignore_def honest_call)

section \<open>chroot-sh\<close>

datatype sh_mode = Sh_read_only | Sh_append | Sh_truncate

datatype sh_call =
    Sh_chroot_here
  | Sh_chdir_top
  | Sh_open cstr sh_mode
  | Sh_read
  | Sh_write cstr
  | Sh_close
  | Sh_stat cstr
  | Sh_unlink cstr
  | Sh_mkdir cstr nat
  | Sh_chmod cstr nat
  | Sh_symlink cstr cstr
  | Sh_rename cstr cstr
  | Sh_realpath cstr
  | Sh_print cstr

text \<open>
  \<open>showFD\<close>; the blocks are what the reads return, one after the other, of at most 4096 bytes. After them the input
  ends. An empty block ends it as well.
\<close>

fun showFD :: "cstr list \<Rightarrow> sh_call prog \<Rightarrow> sh_call prog" where
  "showFD [] k = must 1 Sh_read k"
| "showFD (b # bs) k = must 1 Sh_read (if b = [] then k else must 1 (Sh_write b) (showFD bs k))"

definition redirectFileInternal :: "cstr list \<Rightarrow> cstr list \<Rightarrow> sh_mode \<Rightarrow> sh_call prog" where
  "redirectFileInternal blocks args mode =
     (case args of [] \<Rightarrow> End 1 | f # _ \<Rightarrow> must 1 (Sh_open f mode) (showFD blocks (must 1 Sh_close (End 0))))"

definition S_ISREG_mode :: "u32 \<Rightarrow> bool" where
  "S_ISREG_mode m \<longleftrightarrow> m AND 0xF000 = 0x8000"

text \<open>The loops over the files (0x1ED is 0755); the exit code remembers a failure, and the rest is still done.\<close>

fun each_file :: "(cstr \<Rightarrow> sh_call) \<Rightarrow> cstr list \<Rightarrow> int \<Rightarrow> sh_call prog" where
  "each_file oper [] res = End res"
| "each_file oper (f # fs) res =
     Call (oper f) (\<lambda>r. case r of Done _ \<Rightarrow> each_file oper fs res | Failed _ \<Rightarrow> each_file oper fs 1)"

definition execCat :: "cstr list \<Rightarrow> cstr list \<Rightarrow> sh_call prog" where
  "execCat blocks args = redirectFileInternal blocks args Sh_read_only"

definition execAppend :: "cstr list \<Rightarrow> cstr list \<Rightarrow> sh_call prog" where
  "execAppend blocks args = redirectFileInternal blocks args Sh_append"

definition execTruncate :: "cstr list \<Rightarrow> cstr list \<Rightarrow> sh_call prog" where
  "execTruncate blocks args = redirectFileInternal blocks args Sh_truncate"

definition execRm :: "cstr list \<Rightarrow> sh_call prog" where
  "execRm args = (if args = [] then End 1 else each_file Sh_unlink args 0)"

text \<open>The answer to a successful \<open>stat\<close> is the mode; without a file, the exit code 1 is taken as the mode.\<close>

definition test_result :: "u32 \<Rightarrow> sh_call prog" where
  "test_result m = End (if m \<noteq> -1 \<and> S_ISREG_mode m then 0 else 1)"

definition execTestFile :: "cstr list \<Rightarrow> sh_call prog" where
  "execTestFile args =
     (case args of
        [] \<Rightarrow> test_result 1
      | f # _ \<Rightarrow> Call (Sh_stat f) (\<lambda>r. case r of Done m \<Rightarrow> test_result (word_of_int m) | Failed _ \<Rightarrow> test_result (-1)))"

definition execMkdir :: "cstr list \<Rightarrow> sh_call prog" where
  "execMkdir args = (if args = [] then End 1 else each_file (\<lambda>f. Sh_mkdir f 0x1ED) args 0)"

definition execChmod :: "cstr list \<Rightarrow> sh_call prog" where
  "execChmod args =
     (case args of
        m # f # fs \<Rightarrow>
          (case isNumberUnsigned m True of
             None \<Rightarrow> End 1
           | Some mode \<Rightarrow> each_file (\<lambda>f. Sh_chmod f (nat (mode mod 2 ^ 32))) (f # fs) 0)
      | _ \<Rightarrow> End 1)"

definition execLink :: "cstr list \<Rightarrow> sh_call prog" where
  "execLink args = (case args of [s, d] \<Rightarrow> must 1 (Sh_symlink s d) (End 0) | _ \<Rightarrow> End 1)"

definition execMv :: "cstr list \<Rightarrow> sh_call prog" where
  "execMv args = (case args of [s, d] \<Rightarrow> must 1 (Sh_rename s d) (End 0) | _ \<Rightarrow> End 1)"

fun realpath_loop :: "(cstr \<Rightarrow> cstr) \<Rightarrow> cstr list \<Rightarrow> int \<Rightarrow> sh_call prog" where
  "realpath_loop rp [] res = End res"
| "realpath_loop rp (f # fs) res =
     Call (Sh_realpath f)
       (\<lambda>r. case r of Done _ \<Rightarrow> ignore (Sh_print (rp f @ [NL])) (realpath_loop rp fs res) | Failed _ \<Rightarrow> realpath_loop rp fs 1)"

definition execRealpath :: "(cstr \<Rightarrow> cstr) \<Rightarrow> cstr list \<Rightarrow> sh_call prog" where
  "execRealpath rp args = (if args = [] then End 1 else realpath_loop rp args 0)"

definition SH_COMMANDS :: "cstr list \<Rightarrow> (cstr \<Rightarrow> cstr) \<Rightarrow> (cstr \<times> (cstr list \<Rightarrow> sh_call prog)) list" where
  "SH_COMMANDS blocks rp =
     [(''cat'', execCat blocks), (''append'', execAppend blocks), (''truncate'', execTruncate blocks),
      (''testfile'', execTestFile), (''rm'', execRm), (''mkdir'', execMkdir), (''chmod'', execChmod),
      (''link'', execLink), (''mv'', execMv), (''realpath'', execRealpath rp)]"

definition chroot_sh :: "cstr list \<Rightarrow> (cstr \<Rightarrow> cstr) \<Rightarrow> cstr list \<Rightarrow> sh_call prog" where
  "chroot_sh blocks rp args =
     (if args \<noteq> [] \<and> hd args \<in> {''--help'', ''--version''} then End 0
      else case (if args \<noteq> [] \<and> hd args = ''--'' then tl args else args) of
             [] \<Rightarrow> End 1
           | c # as \<Rightarrow>
               must 1 Sh_chroot_here (must 1 Sh_chdir_top
                 (case map_of (SH_COMMANDS blocks rp) c of None \<Rightarrow> End 1 | Some h \<Rightarrow> h as)))"

text \<open>The operations on files, and what the first two calls do to the place of the process.\<close>

fun sh_path_op :: "sh_call \<Rightarrow> bool" where
  "sh_path_op Sh_chroot_here = False"
| "sh_path_op Sh_chdir_top = False"
| "sh_path_op (Sh_print s) = False"
| "sh_path_op c = True"

fun sh_effect :: "sh_call \<Rightarrow> place \<times> place \<Rightarrow> place \<times> place" where
  "sh_effect Sh_chroot_here (root, cwd) = (cwd, cwd)"
| "sh_effect Sh_chdir_top (root, cwd) = (root, root)"
| "sh_effect c s = s"

fun sh_effects :: "(sh_call \<times> answer) list \<Rightarrow> place \<times> place \<Rightarrow> place \<times> place" where
  "sh_effects [] s = s"
| "sh_effects ((c, Done n) # t) s = sh_effects t (sh_effect c s)"
| "sh_effects ((c, Failed e) # t) s = sh_effects t s"

definition sh_command :: "sh_call \<Rightarrow> bool" where
  "sh_command c \<longleftrightarrow> c \<noteq> Sh_chroot_here \<and> c \<noteq> Sh_chdir_top"

lemma sh_effect_command [simp]: "sh_command c \<Longrightarrow> sh_effect c s = s"
  by (cases c; cases s) (auto simp: sh_command_def)

lemma sh_effects_commands: "\<forall>(c, r) \<in> set t. sh_command c \<Longrightarrow> sh_effects t s = s"
  by (induction t s rule: sh_effects.induct) auto

lemma showFD_stays: "stays sh_command E k \<Longrightarrow> Exited 1 \<in> E \<Longrightarrow> stays sh_command E (showFD bs k)"
  by (induction bs) (auto simp: tree_simps sh_command_def)

lemma showFD_close_stays: "stays sh_command {Exited 0, Exited 1} (showFD bs (must 1 Sh_close (End 0)))"
  by (rule showFD_stays) (auto simp: tree_simps sh_command_def)

lemma each_file_stays:
  "(\<And>f. sh_command (oper f)) \<Longrightarrow> stays sh_command {Exited 0, Exited 1} (each_file oper fs 0) \<and>
     stays sh_command {Exited 0, Exited 1} (each_file oper fs 1)"
  by (induction fs) (auto simp: tree_simps)

lemma realpath_loop_stays:
  "stays sh_command {Exited 0, Exited 1} (realpath_loop rp fs 0) \<and> stays sh_command {Exited 0, Exited 1} (realpath_loop rp fs 1)"
  by (induction fs) (auto simp: tree_simps sh_command_def)

lemmas sh_execs =
  execCat_def execAppend_def execTruncate_def execRm_def execTestFile_def execMkdir_def execChmod_def execLink_def
  execMv_def execRealpath_def redirectFileInternal_def test_result_def

lemma sh_handler_stays:
  assumes "map_of (SH_COMMANDS blocks rp) c = Some h"
  shows "stays sh_command {Exited 0, Exited 1} (h as)"
proof -
  have com: "sh_command (Sh_unlink f)" "sh_command (Sh_mkdir f n)" "sh_command (Sh_chmod f n)" for f n
    by (simp_all add: sh_command_def)
  from assms show ?thesis
    by (auto simp: SH_COMMANDS_def sh_execs tree_simps showFD_close_stays each_file_stays com realpath_loop_stays
        split: if_splits list.split option.split) (auto simp: sh_command_def)
qed

lemma sh_handler_commands:
  "map_of (SH_COMMANDS blocks rp) c = Some h \<Longrightarrow> performs (h as) t e \<Longrightarrow> (a, r) \<in> set t \<Longrightarrow> sh_command a"
  using stays_performs [OF sh_handler_stays] by fast

lemma showFD_honest: "honest sh_path_op False k \<Longrightarrow> honest sh_path_op False (showFD bs k)"
  by (induction bs) auto

lemma each_file_honest: "honest sh_path_op False (each_file oper fs 0) \<and> (\<forall>b. honest sh_path_op b (each_file oper fs 1))"
  by (induction fs) (auto simp: honest_call)

lemma realpath_loop_honest:
  "honest sh_path_op False (realpath_loop rp fs 0) \<and> (\<forall>b. honest sh_path_op b (realpath_loop rp fs 1))"
  by (induction fs) (auto simp: honest_call)

lemma sh_handler_honest:
  "map_of (SH_COMMANDS blocks rp) c = Some h \<Longrightarrow> honest sh_path_op False (h as)"
  by (auto simp: SH_COMMANDS_def sh_execs honest_call showFD_honest each_file_honest realpath_loop_honest S_ISREG_mode_def
      split: if_splits list.split option.split)

text \<open>
  C19. Every operation \<^verbatim>\<open>chroot-sh\<close> performs on files is made with the caller's current directory as root and as
  current directory, so that no path and no link leads out of it; and it exits with 0 only if all of them succeeded.
\<close>

theorem chroot_sh_jailed:
  assumes "performs (chroot_sh blocks rp args) t (Exited c)"
  shows "(\<forall>u a r v. t = u @ (a, r) # v \<and> sh_path_op a \<longrightarrow> sh_effects u (root, cwd) = (cwd, cwd)) \<and>
    (c = 0 \<longrightarrow> (\<forall>(a, r) \<in> set t. sh_path_op a \<longrightarrow> (\<exists>n. r = Done n)))"
proof -
  have "honest sh_path_op False (chroot_sh blocks rp args)"
    by (auto simp: chroot_sh_def sh_handler_honest split: list.split option.split)
  from honest_performs [OF this, of t] assms
  have ok: "c = 0 \<longrightarrow> (\<forall>(a, r) \<in> set t. sh_path_op a \<longrightarrow> (\<exists>n. r = Done n))" by (cases "c = 0") simp_all
  consider (none) "\<forall>(a, r) \<in> set t. \<not> sh_path_op a"
    | (some) n m w where "t = (Sh_chroot_here, Done n) # (Sh_chdir_top, Done m) # w" "\<forall>(a, r) \<in> set w. sh_command a"
  proof -
    have "(\<forall>(a, r) \<in> set t. \<not> sh_path_op a) \<or>
        (\<exists>n m w. t = (Sh_chroot_here, Done n) # (Sh_chdir_top, Done m) # w \<and> (\<forall>(a, r) \<in> set w. sh_command a))"
      using assms
      by (auto simp: chroot_sh_def performs_must split: if_splits list.splits option.splits
          dest: sh_handler_commands)
    then show ?thesis using that by blast
  qed
  then have "sh_effects u (root, cwd) = (cwd, cwd)" if u: "t = u @ (a, r) # v" "sh_path_op a" for u a r v
  proof cases
    case none
    with u show ?thesis by auto
  next
    case some
    with u obtain u' where u': "u = (Sh_chroot_here, Done n) # (Sh_chdir_top, Done m) # u'" "w = u' @ (a, r) # v"
      by (cases u; cases "tl u") (auto simp: Cons_eq_append_conv)
    with some(2) have "\<forall>(a, r) \<in> set u'. sh_command a" by auto
    with u' show ?thesis by (simp add: sh_effects_commands)
  qed
  with ok show ?thesis by blast
qed

theorem chroot_sh_jailed_witness:
  "\<exists>t. performs (chroot_sh [] id [''rm'', ''a'', ''b'']) t (Exited 1) \<and>
     sh_effects (take 3 t) ([], [''vs'']) = ([''vs''], [''vs''])"
proof -
  let ?t = "[(Sh_chroot_here, Done 0), (Sh_chdir_top, Done 0), (Sh_unlink ''a'', Failed ENOENT), (Sh_unlink ''b'', Done 0)]"
  have "performs (chroot_sh [] id [''rm'', ''a'', ''b'']) ?t (Exited 1)"
    by (simp add: chroot_sh_def SH_COMMANDS_def execRm_def performs_simps)
  from this chroot_sh_jailed [OF this, of "[]" "[''vs'']"] show ?thesis
    by (intro exI [of _ ?t]) (fastforce intro: exI [of _ "take 3 ?t"])
qed

section \<open>secure-umount\<close>

definition UMOUNT_PROG :: cstr where "UMOUNT_PROG = ''/bin/umount''"

definition secure_umount :: "cstr list \<Rightarrow> cd_call prog" where
  "secure_umount args =
     (case args of
        [] \<Rightarrow> End 1
      | a # as \<Rightarrow>
          if a = ''--help'' \<or> a = ''--version'' then End 0
          else
            (let dir = (case as of d # _ \<Rightarrow> (if a = ''--'' then d else a) | [] \<Rightarrow> a)
             in must 1 Cd_open_root (must 1 Cd_chroot_here (must 1 (Cd_chdir dir) (must 1 Cd_open_here
                  (must 1 Cd_fchdir_root (must 1 Cd_chroot_here (must 1 Cd_fchdir_cur
                    (must 1 Cd_close_root (must 1 Cd_close_cur
                      (Exec [UMOUNT_PROG, ''-l'', ''-n'', ''.''] (End 1))))))))))))"

text \<open>What is unmounted is the directory the argument names below the caller's current directory.\<close>

lemma secure_umount_confined:
  assumes "\<And>root cwd path. prefix root cwd \<Longrightarrow> prefix root (resolve root cwd path)"
    "performs (secure_umount args) t (Running argv)" "cd_effects resolve t s = s'"
  shows "argv = [UMOUNT_PROG, ''-l'', ''-n'', ''.''] \<and> cd_root s' = cd_root s \<and> prefix (cd_cwd s) (cd_cwd s')"
  using assms(2) assms(3)
  by (auto simp: secure_umount_def performs_must Let_def split: if_splits list.splits intro!: assms(1))

section \<open>fakerunlevel\<close>

datatype level_call =
    Lv_chroot_here | Lv_chdir_top | Lv_setgroups u32 | Lv_setgid u32 | Lv_umask nat | Lv_open cstr | Lv_close
  | Lv_utmpname cstr | Lv_setutent | Lv_pututline int | Lv_endutent

text \<open>
  \<open>env_gid\<close> is \<^verbatim>\<open>UTMP_GID\<close> of the environment, \<open>utmp_gid\<close> the group of the configuration, \<open>getgid\<close> the
  group after the change. The number of the process in the record is \<open>('#' << 8) + runlevel + '0'\<close>.
\<close>

definition fakerunlevel :: "u32 \<Rightarrow> cstr option \<Rightarrow> (u32 \<Rightarrow> u32) \<Rightarrow> cstr list \<Rightarrow> level_call prog" where
  "fakerunlevel utmp_gid env_gid getgid args =
     (case args of
        [] \<Rightarrow> End 1
      | a # as \<Rightarrow>
          if a = ''--help'' \<or> a = ''--version'' then End 0
          else case as of
                 [fname] \<Rightarrow>
                   (let runlevel = atoi a;
                        gid = (case env_gid of None \<Rightarrow> utmp_gid | Some s \<Rightarrow> word_of_int (atoi s))
                    in if runlevel < 0 \<or> runlevel > 9 then End 1
                       else must 1 Lv_chroot_here (must 1 Lv_chdir_top
                         (must 1 (Lv_setgroups gid) (must 1 (Lv_setgid gid)
                           (if getgid gid \<noteq> gid then End 1
                            else ignore (Lv_umask 2) (must 1 (Lv_open fname) (must 1 Lv_close
                              (ignore (Lv_utmpname fname) (ignore Lv_setutent
                                (ignore (Lv_pututline (35 * 256 + runlevel + 48)) (ignore Lv_endutent (End 0))))))))))))
               | _ \<Rightarrow> End 1)"

text \<open>
  The file is only created and written inside the caller's directory and with the group changed; the record holds the
  level as a digit.
\<close>

lemma fakerunlevel_writes:
  assumes "performs (fakerunlevel utmp_gid env_gid getgid args) t e" "(Lv_pututline p, r) \<in> set t"
  shows "\<exists>f g n. {Lv_chroot_here, Lv_chdir_top, Lv_setgroups g, Lv_setgid g, Lv_open f} \<subseteq> {a. \<exists>x. (a, Done x) \<in> set t} \<and>
     args = [hd args, f] \<and> g = getgid g \<and> 0 \<le> n \<and> n \<le> 9 \<and> p = 35 * 256 + (48 + n) \<and> e = Exited 0"
  using assms
  by (auto simp: fakerunlevel_def Let_def performs_simps split: if_splits list.splits)

section \<open>Links of a command chain\<close>

datatype chain_call =
    Ch_open cstr | Ch_cloexec | Ch_write cstr bool | Ch_sigchld_default
  | Ch_getxid | Ch_readlink cstr | Ch_create cstr | Ch_append cstr | Ch_close | Ch_unlink cstr | Ch_symlink cstr cstr

definition skip_dashes :: "cstr list \<Rightarrow> cstr list" where
  "skip_dashes args = (if args \<noteq> [] \<and> hd args = ''--'' then tl args else args)"

text \<open>The flag of \<open>Ch_write\<close> says that the data goes to the standard output.\<close>

definition chain_echo :: "cstr list \<Rightarrow> chain_call prog" where
  "chain_echo args =
     (if args \<noteq> [] \<and> hd args \<in> {''--help'', ''--version''} then End 0
      else case skip_dashes args of
             f # d # cmd # argv \<Rightarrow>
               (let run = Exec (cmd # argv) (End 255);
                    out = when_do (deref d \<noteq> NUL) (must 255 (Ch_write d (deref f = NUL))) run
                in if deref f = NUL then out else must 255 (Ch_open f) (must 255 Ch_cloexec out))
           | _ \<Rightarrow> End 255)"

definition sigexec :: "cstr list \<Rightarrow> chain_call prog" where
  "sigexec args =
     (if args \<noteq> [] \<and> hd args \<in> {''--help'', ''--version''} then End 0
      else case skip_dashes args of
             cmd # argv \<Rightarrow> ignore Ch_sigchld_default (Exec (cmd # argv) (End 255))
           | [] \<Rightarrow> End 255)"

text \<open>
  \<^verbatim>\<open>save_ctxinfo\<close>: \<open>statedir\<close> is the directory of the reverse mapping, \<open>links\<close> what \<^verbatim>\<open>readlink\<close> gives.
\<close>

definition save_ctxinfo :: "cstr \<Rightarrow> (cstr \<Rightarrow> cstr) \<Rightarrow> cstr list \<Rightarrow> chain_call prog" where
  "save_ctxinfo statedir links args =
     (case args of
        vdir # cmd # argv \<Rightarrow>
          must_get 255 Ch_getxid (\<lambda>n.
            let ctx = (word_of_int n :: u32);
                num = snd (the (fmt_uint True ctx))
            in if ctx = 0 \<or> unat ctx > 99999 then End 255
               else must 255 (Ch_readlink (vdir @ ''/run''))
                 (let dst = takeWhile (\<lambda>c. c \<noteq> NUL) (take 4095 (links (vdir @ ''/run'')))
                  in must 255 (Ch_create dst) (must (-1) (Ch_append num) (must (-1) (Ch_append [NL]) (must 255 Ch_close
                       (ignore (Ch_unlink (statedir @ ''/'' @ num))
                         (must 255 (Ch_symlink vdir (statedir @ ''/'' @ num))
                           (Exec (cmd # argv) (End 255)))))))))
      | _ \<Rightarrow> End 255)"

text \<open>The size of the buffer for both names: that of the argument and of a constant with 99999 as the number.\<close>

definition runfile_size :: "cstr \<Rightarrow> cstr \<Rightarrow> nat" where
  "runfile_size statedir vdir = length vdir + (length (statedir @ ''/99999'') + 1)"

lemma small_number_text:
  assumes "unat (ctx :: u32) \<le> 99999"
  shows "length (snd (the (fmt_uint True ctx))) \<le> 5"
proof -
  obtain l s where s: "fmt_uint True ctx = Some (l, s)" "s = digits_of 10 (unat ctx)"
    using fmt_uint_base_result [of 4 10 True ctx] by (auto simp: fmt_uint_def fmt_result_def split: if_splits)
  from assms have "length (digits_of 10 (unat ctx)) \<le> 5" by (intro length_digits_of) simp_all
  with s show ?thesis by simp
qed

lemma save_ctxinfo_bounds:
  assumes "performs (save_ctxinfo statedir links (vdir # args)) t e"
  shows "\<forall>(a, r) \<in> set t. case a of
      Ch_readlink p \<Rightarrow> length p + 1 \<le> runfile_size statedir vdir
    | Ch_symlink _ p \<Rightarrow> length p + 1 \<le> runfile_size statedir vdir
    | _ \<Rightarrow> True"
  using assms
  by (auto simp: save_ctxinfo_def Let_def performs_simps runfile_size_def not_less trans_le_add1 [OF small_number_text] split: list.splits if_splits)

end
