(* ===== verification/FileTools.thy ===== *)
theory FileTools
  imports ShellTools VserverCfg "HOL-Library.Signed_Division"
begin

text \<open>
  Small programs of the scripts around one file or socket: \<^verbatim>\<open>readlink\<close>, \<^verbatim>\<open>filetime\<close>, \<^verbatim>\<open>check-unixfile\<close>, \<^verbatim>\<open>lockfile\<close>,
  \<^verbatim>\<open>vshelper-sync\<close>, \<^verbatim>\<open>vreboot\<close>, \<^verbatim>\<open>keep-ctx-alive\<close> and \<^verbatim>\<open>listdevip\<close>.
\<close>

text \<open>The first argument of most of them.\<close>

definition help_or_version :: "cstr list \<Rightarrow> bool" where
  "help_or_version args \<longleftrightarrow> args \<noteq> [] \<and> hd args \<in> {''--help'', ''--version''}"

section \<open>readlink\<close>

definition PATH_MAX :: nat where "PATH_MAX = 4096"

definition readlink_main :: "(cstr \<Rightarrow> cstr option) \<Rightarrow> cstr list \<Rightarrow> int \<times> cstr" where
  "readlink_main links args =
     (if help_or_version args then (0, [])
      else case skip_dashes args of
             [] \<Rightarrow> (1, [])
           | f # _ \<Rightarrow> (case links f of None \<Rightarrow> (1, []) | Some t \<Rightarrow> (0, take PATH_MAX t @ [NL])))"

section \<open>filetime\<close>

text \<open>
  The age in seconds is divided the way of C, towards zero; \<open>int\<close> is kept at 32 bits, and a number is printed as an
  unsigned long.
\<close>

definition ulong_text :: "int \<Rightarrow> cstr" where
  "ulong_text n = digits_of 10 (nat (n mod 2 ^ 64))"

definition to_int :: "int \<Rightarrow> int" where
  "to_int n = sint (word_of_int n :: u32)"

definition two_digits :: "int \<Rightarrow> cstr" where
  "two_digits n = (if n < 10 then ''0'' else []) @ ulong_text n"

definition age_text :: "int \<Rightarrow> cstr" where
  "age_text since =
     (let days = to_int (since sdiv (24 * 60 * 60));
          today = to_int (since smod (24 * 60 * 60));
          hours = today sdiv (60 * 60);
          minutes = (today smod (60 * 60)) sdiv 60
      in (if days > 0 then ulong_text days @ '' days, '' else []) @ two_digits hours @ '':'' @ two_digits minutes @ [NL])"

definition filetime :: "int \<Rightarrow> (cstr \<Rightarrow> int option) \<Rightarrow> cstr list \<Rightarrow> int \<times> cstr" where
  "filetime now mtime args =
     (if help_or_version args then (0, [])
      else case skip_dashes args of
             [] \<Rightarrow> (1, [])
           | f # _ \<Rightarrow> (case mtime f of None \<Rightarrow> (1, []) | Some t \<Rightarrow> (0, age_text (now - t))))"

text \<open>The age is shown to the minute, for files of the past.\<close>

lemma to_int_small: "- (2 ^ 31) \<le> n \<Longrightarrow> n < 2 ^ 31 \<Longrightarrow> to_int n = n"
  by (simp add: to_int_def sint_sbintrunc' signed_take_bit_int_eq_self)

lemma sdiv_nonneg: "0 \<le> n \<Longrightarrow> 0 < k \<Longrightarrow> n sdiv k = n div k" for n k :: int
  by (simp add: signed_divide_int_def sgn_if)

lemma smod_nonneg: "0 \<le> n \<Longrightarrow> 0 < k \<Longrightarrow> n smod k = n mod k" for n k :: int
  by (simp add: signed_modulo_int_def sgn_if)

lemma day_split:
  fixes t :: int
  assumes "0 \<le> t" "t < 86400"
  shows "t = t div 3600 * 3600 + t mod 3600 div 60 * 60 + t mod 3600 mod 60"
    "0 \<le> t div 3600" "t div 3600 < 24" "0 \<le> t mod 3600 div 60" "t mod 3600 div 60 < 60"
    "0 \<le> t mod 3600 mod 60" "t mod 3600 mod 60 < 60"
  using assms by (simp_all add: pos_imp_zdiv_nonneg_iff div_less_iff_less_mult)

lemma age_text_correct:
  assumes "0 \<le> since" "since < 2 ^ 31 * 86400"
  shows "\<exists>d h m s. since = d * 86400 + h * 3600 + m * 60 + s \<and> 0 \<le> d \<and> 0 \<le> h \<and> h < 24 \<and> 0 \<le> m \<and> m < 60 \<and> 0 \<le> s \<and> s < 60 \<and>
    age_text since = (if d > 0 then ulong_text d @ '' days, '' else []) @ two_digits h @ '':'' @ two_digits m @ [NL]"
proof -
  define d t where "d = since div 86400" and "t = since mod 86400"
  have t: "0 \<le> t" "t < 86400" by (simp_all add: t_def)
  have d: "0 \<le> d" "d < 2 ^ 31" using assms by (simp_all add: d_def pos_imp_zdiv_nonneg_iff div_less_iff_less_mult)
  have small: "to_int d = d" "to_int t = t" using t d by (simp_all add: to_int_small)
  have "age_text since = (if d > 0 then ulong_text d @ '' days, '' else []) @
      two_digits (t div 3600) @ '':'' @ two_digits (t mod 3600 div 60) @ [NL]"
    using assms(1) t(1) by (simp add: age_text_def Let_def sdiv_nonneg smod_nonneg small flip: d_def t_def)
  moreover have "since = d * 86400 + t div 3600 * 3600 + t mod 3600 div 60 * 60 + t mod 3600 mod 60"
    using day_split(1) [OF t] by (simp add: d_def t_def)
  ultimately show ?thesis using d(1) day_split(2-7) [OF t] by blast
qed

text \<open>A file of the future is shown with the complement of its age.\<close>

lemma age_text_future: "age_text (- 3600) = ''018446744073709551615:00'' @ [NL]"
proof -
  have "digits_of 10 18446744073709551615 = ''18446744073709551615''"
    by (simp add: digits_of_step digits_of_small DIGITS_def)
  moreover have "digits_of 10 0 = ''0''" by (simp add: digits_of_small DIGITS_def)
  ultimately show ?thesis
    by (simp add: age_text_def Let_def signed_divide_int_def signed_modulo_int_def to_int_small two_digits_def ulong_text_def)
qed

section \<open>check-unixfile\<close>

definition checkFile :: "cstr \<Rightarrow> bool" where
  "checkFile data \<longleftrightarrow> length data \<le> 100 * 1024 * 1024 \<and> (data = [] \<or> last data = NL)"

text \<open>The result of the loop: whether all were good, and whether one was; \<open>None\<close> is a file that cannot be opened.\<close>

fun check_files :: "(cstr \<Rightarrow> cstr option) \<Rightarrow> cstr list \<Rightarrow> bool \<times> bool \<Rightarrow> (bool \<times> bool) option" where
  "check_files files [] r = Some r"
| "check_files files (f # fs) (ok, passed) =
     (case files f of
        None \<Rightarrow> None
      | Some d \<Rightarrow> check_files files fs (if checkFile d then (ok, True) else (False, passed)))"

definition check_unixfile :: "(cstr \<Rightarrow> cstr option) \<Rightarrow> cstr list \<Rightarrow> int" where
  "check_unixfile files args =
     (if help_or_version args then 0
      else case check_files files (skip_dashes args) (True, False) of
             None \<Rightarrow> 255
           | Some (ok, passed) \<Rightarrow> if ok then 0 else if passed then 2 else 1)"

lemma check_files_result:
  "check_files files fs (ok, passed) =
     (if \<exists>f \<in> set fs. files f = None then None
      else Some (ok \<and> (\<forall>f \<in> set fs. checkFile (the (files f))), passed \<or> (\<exists>f \<in> set fs. checkFile (the (files f)))))"
  by (induction fs arbitrary: ok passed) (auto split: option.split)

lemma check_unixfile_code:
  assumes "\<not> help_or_version args" "\<forall>f \<in> set (skip_dashes args). files f \<noteq> None"
  shows "check_unixfile files args =
    (let good = (\<lambda>f. checkFile (the (files f))); fs = set (skip_dashes args)
     in if \<forall>f \<in> fs. good f then 0 else if \<exists>f \<in> fs. good f then 2 else 1)"
  using assms by (auto simp: check_unixfile_def check_files_result Let_def)

section \<open>lockfile\<close>

datatype lock_call =
    Lk_open_pipe cstr | Lk_open_lock cstr | Lk_unlink_pipe cstr | Lk_siginterrupt | Lk_signal_alarm | Lk_signal_hup
  | Lk_alarm int | Lk_lockf | Lk_ignore_alarm | Lk_write_pipe cstr | Lk_close_pipe

text \<open>
  The rounds of the loop: the time and whether the parent lives when its condition is evaluated, and the time when the
  alarm is set. The list ends where the condition would fail.
\<close>

definition lock_failed :: "lock_call prog" where
  "lock_failed = ignore (Lk_write_pipe (''#!/bin/false'' @ [NL])) (End 1)"

definition lock_granted :: "lock_call prog" where
  "lock_granted = ignore Lk_ignore_alarm (ignore (Lk_write_pipe (''#!/bin/true'' @ [NL])) (ignore Lk_close_pipe (End 0)))"

fun lock_rounds :: "int \<Rightarrow> (int \<times> bool \<times> int) list \<Rightarrow> lock_call prog" where
  "lock_rounds end_time [] = lock_failed"
| "lock_rounds end_time ((now, parent, now') # rs) =
     (if now < end_time \<and> parent
      then ignore (Lk_alarm (min 10 (max (to_int (end_time - now')) 1)))
             (Call Lk_lockf
                (\<lambda>r. case r of
                   Done _ \<Rightarrow> lock_granted
                 | Failed e \<Rightarrow> if e = EINTR then lock_rounds end_time rs else lock_failed))
      else lock_failed)"

definition or_lock_failed :: "lock_call \<Rightarrow> lock_call prog \<Rightarrow> lock_call prog" where
  "or_lock_failed a k = Call a (\<lambda>r. case r of Done _ \<Rightarrow> k | Failed _ \<Rightarrow> lock_failed)"

definition lockfile :: "int \<Rightarrow> (int \<times> bool \<times> int) list \<Rightarrow> cstr list \<Rightarrow> lock_call prog" where
  "lockfile start rounds args =
     (if help_or_version args then End 0
      else case skip_dashes args of
             lock # pipe # rest_args \<Rightarrow>
               (let end_time = start + (case rest_args of [t] \<Rightarrow> atoi t | _ \<Rightarrow> 300)
                in Call (Lk_open_pipe pipe) (\<lambda>r. case r of
                     Failed _ \<Rightarrow> End 1
                   | Done _ \<Rightarrow>
                       or_lock_failed (Lk_open_lock lock) (or_lock_failed (Lk_unlink_pipe pipe)
                         (or_lock_failed Lk_siginterrupt (or_lock_failed Lk_signal_alarm
                           (or_lock_failed Lk_signal_hup (lock_rounds end_time rounds)))))))
           | _ \<Rightarrow> End 1)"

text \<open>
  What is written to the pipe tells the reader, which executes it, whether the lock is held, and the alarms leave
  between one and ten seconds.
\<close>

definition lock_told :: "(lock_call \<times> answer) list \<Rightarrow> outcome \<Rightarrow> bool" where
  "lock_told t e \<longleftrightarrow>
     (\<forall>s r. (Lk_write_pipe s, r) \<in> set t \<longrightarrow>
        s = (if e = Exited 0 then ''#!/bin/true'' else ''#!/bin/false'') @ [NL]) \<and>
     (e = Exited 0 \<longleftrightarrow> (\<exists>n. (Lk_lockf, Done n) \<in> set t)) \<and>
     (\<forall>n r. (Lk_alarm n, r) \<in> set t \<longrightarrow> 1 \<le> n \<and> n \<le> 10)"

lemma lock_failed_told: "performs lock_failed t e \<Longrightarrow> lock_told t e"
  by (auto simp: lock_failed_def performs_simps lock_told_def)

lemma lock_told_Cons:
  "lock_told t e \<Longrightarrow> (\<forall>s. a \<noteq> Lk_write_pipe s) \<Longrightarrow> (a = Lk_lockf \<longrightarrow> (\<exists>er. r = Failed er)) \<Longrightarrow>
   (\<forall>n. a = Lk_alarm n \<longrightarrow> 1 \<le> n \<and> n \<le> 10) \<Longrightarrow> lock_told ((a, r) # t) e"
  by (auto simp: lock_told_def)

lemma lock_rounds_told: "performs (lock_rounds end_time rs) t e \<Longrightarrow> lock_told t e"
proof (induction end_time rs arbitrary: t rule: lock_rounds.induct)
  case (1 end_time)
  then show ?case by (simp add: lock_failed_told)
next
  case (2 end_time now parent now' rs)
  show ?case
  proof (cases "now < end_time \<and> parent")
    case False
    with 2(2) show ?thesis by (auto simp: lock_failed_told)
  next
    case True
    let ?n = "min 10 (max (to_int (end_time - now')) 1)"
    from 2(2) True obtain r r' u where t: "t = (Lk_alarm ?n, r) # (Lk_lockf, r') # u" and
      u: "performs (case r' of Done _ \<Rightarrow> lock_granted
                    | Failed e \<Rightarrow> if e = EINTR then lock_rounds end_time rs else lock_failed) u e"
      by (auto simp: performs_simps)
    show ?thesis
    proof (cases r')
      case (Done n)
      with u have "lock_told ((Lk_lockf, r') # u) e" by (auto simp: lock_granted_def performs_simps lock_told_def)
      then show ?thesis unfolding t by (rule lock_told_Cons) auto
    next
      case (Failed er)
      with u 2(1) [OF True refl _] have "lock_told u e" by (auto simp: lock_failed_told split: if_splits)
      then show ?thesis unfolding t Failed by (intro lock_told_Cons) auto
    qed
  qed
qed

definition tells :: "lock_call prog \<Rightarrow> bool" where
  "tells p \<longleftrightarrow> (\<forall>t e. performs p t e \<longrightarrow> lock_told t e)"

lemma or_lock_failed_tells:
  assumes "tells k" "a \<noteq> Lk_lockf" "\<forall>s. a \<noteq> Lk_write_pipe s" "\<forall>n. a \<noteq> Lk_alarm n"
  shows "tells (or_lock_failed a k)"
  using assms
  by (auto simp: tells_def or_lock_failed_def performs_call intro!: lock_told_Cons dest: lock_failed_told)

lemma lockfile_told:
  assumes "performs (lockfile start rounds args) t e" "\<not> help_or_version args"
  shows "lock_told t e"
proof (cases "\<exists>lock pipe rest_args. skip_dashes args = lock # pipe # rest_args")
  case False
  with assms have "t = [] \<and> e = Exited 1" by (auto simp: lockfile_def split: list.splits)
  then show ?thesis by (simp add: lock_told_def)
next
  case True
  then obtain lock pipe rest_args where a: "skip_dashes args = lock # pipe # rest_args" by blast
  define end_time where "end_time = start + (case rest_args of [t] \<Rightarrow> atoi t | _ \<Rightarrow> 300)"
  from assms a have "performs (Call (Lk_open_pipe pipe) (\<lambda>r. case r of
                     Failed _ \<Rightarrow> End 1
                   | Done _ \<Rightarrow>
                       or_lock_failed (Lk_open_lock lock) (or_lock_failed (Lk_unlink_pipe pipe)
                         (or_lock_failed Lk_siginterrupt (or_lock_failed Lk_signal_alarm
                           (or_lock_failed Lk_signal_hup (lock_rounds end_time rounds))))))) t e"
    by (simp add: lockfile_def Let_def flip: end_time_def)
  then consider er where "t = [(Lk_open_pipe pipe, Failed er)]" "e = Exited 1"
    | n u where "t = (Lk_open_pipe pipe, Done n) # u"
        "performs (or_lock_failed (Lk_open_lock lock) (or_lock_failed (Lk_unlink_pipe pipe)
                         (or_lock_failed Lk_siginterrupt (or_lock_failed Lk_signal_alarm
                           (or_lock_failed Lk_signal_hup (lock_rounds end_time rounds)))))) u e"
    by (auto simp: performs_call)
  then show ?thesis
  proof cases
    case 1
    then show ?thesis by (simp add: lock_told_def)
  next
    case 2
    have "tells (or_lock_failed (Lk_open_lock lock) (or_lock_failed (Lk_unlink_pipe pipe)
            (or_lock_failed Lk_siginterrupt (or_lock_failed Lk_signal_alarm
              (or_lock_failed Lk_signal_hup (lock_rounds end_time rounds))))))"
      by (intro or_lock_failed_tells) (auto simp: tells_def lock_rounds_told)
    with 2(2) have "lock_told u e" by (simp add: tells_def)
    then show ?thesis unfolding 2(1) by (rule lock_told_Cons) auto
  qed
qed

section \<open>vshelper-sync\<close>

text \<open>One round: what \<^verbatim>\<open>select\<close> and then \<^verbatim>\<open>read\<close> answered. \<open>None\<close> is the wait for the next round.\<close>

datatype sync_event = Sync_timeout | Sync_select_failed | Sync_data | Sync_closed | Sync_read_failed

fun sync_rounds :: "sync_event list \<Rightarrow> int option" where
  "sync_rounds [] = None"
| "sync_rounds (ev # evs) =
     (case ev of
        Sync_timeout \<Rightarrow> Some 1
      | Sync_select_failed \<Rightarrow> Some 1
      | Sync_data \<Rightarrow> sync_rounds evs
      | Sync_closed \<Rightarrow> Some 0
      | Sync_read_failed \<Rightarrow> Some 1)"

definition vshelper_sync :: "(cstr \<Rightarrow> bool) \<Rightarrow> sync_event list \<Rightarrow> cstr list \<Rightarrow> int option" where
  "vshelper_sync can_open evs args =
     (if help_or_version args then Some 0
      else case skip_dashes args of
             pipe # timeout # _ \<Rightarrow> if can_open pipe then sync_rounds evs else Some 1
           | _ \<Rightarrow> Some 1)"

text \<open>It succeeds exactly when the writer closes the pipe before anything else than data happens.\<close>

lemma sync_rounds_success:
  "sync_rounds evs = Some 0 \<longleftrightarrow> (\<exists>n rest. evs = replicate n Sync_data @ Sync_closed # rest)"
proof (induction evs)
  case (Cons ev evs)
  have "(\<exists>n rest. ev # evs = replicate n Sync_data @ Sync_closed # rest) \<longleftrightarrow>
      ev = Sync_closed \<or> ev = Sync_data \<and> (\<exists>n rest. evs = replicate n Sync_data @ Sync_closed # rest)" (is "?l \<longleftrightarrow> ?r")
  proof
    assume ?l
    then obtain n rest where "ev # evs = replicate n Sync_data @ Sync_closed # rest" by blast
    then show ?r by (cases n) auto
  next
    assume ?r
    then show ?l
    proof (elim disjE conjE exE)
      assume "ev = Sync_closed"
      then show ?l by (intro exI [of _ 0]) simp
    next
      fix n rest
      assume "ev = Sync_data" "evs = replicate n Sync_data @ Sync_closed # rest"
      then show ?l by (intro exI [of _ "Suc n"]) simp
    qed
  qed
  with Cons show ?case by (cases ev) auto
qed simp

section \<open>vreboot\<close>

datatype reboot_call = Rb_socket | Rb_connect cstr | Rb_write cstr | Rb_close

text \<open>
  The arguments: the path of the socket, and whether all of them were understood. The last argument has a null pointer
  behind it, which is only taken when an argument is left over.
\<close>

fun reboot_args :: "cstr list \<Rightarrow> cstr \<Rightarrow> cstr option" where
  "reboot_args [] path = Some path"
| "reboot_args (a # as) path =
     (if a = ''--socket'' then (case as of [] \<Rightarrow> None | p # as' \<Rightarrow> reboot_args as' p) else None)"

definition sun_path_size :: nat where "sun_path_size = 108"

text \<open>\<open>None\<close> is a path that overruns the address of the socket. The exit code is -1 for every failure.\<close>

definition vreboot :: "cstr \<Rightarrow> cstr list \<Rightarrow> reboot_call prog option" where
  "vreboot name args =
     (case reboot_args args ''/dev/reboot'' of
        None \<Rightarrow> Some (End (- 1))
      | Some path \<Rightarrow>
          if length path \<ge> sun_path_size then None
          else Some (must (- 1) Rb_socket (must (- 1) (Rb_connect path)
                 (ignore (Rb_write (if strstr name ''halt'' \<noteq> None then ''halt'' @ [NL] else ''reboot'' @ [NL]))
                   (ignore Rb_close (End 0))))))"

section \<open>keep-ctx-alive\<close>

datatype alive_call =
    Al_socket | Al_bind cstr | Al_listen | Al_getxid | Al_print cstr | Al_close | Al_fork | Al_select | Al_accept | Al_recv
  | Al_connect cstr | Al_send cstr

datatype alive_opt = AlHelp | AlVersion | AlSocket cstr | AlTimeout cstr | AlQuit cstr | AlOther

record alive_args =
  al_socket :: "cstr option"
  al_timeout :: "int option"
  al_quit :: "cstr option"

fun alive_option :: "alive_opt \<Rightarrow> alive_args \<Rightarrow> int + alive_args" where
  "alive_option AlHelp a = Inl 0"
| "alive_option AlVersion a = Inl 0"
| "alive_option (AlSocket s) a = Inr (a\<lparr>al_socket := Some s\<rparr>)"
| "alive_option (AlTimeout s) a = Inr (a\<lparr>al_timeout := Some (atoi s)\<rparr>)"
| "alive_option (AlQuit s) a = Inr (a\<lparr>al_quit := Some s\<rparr>)"
| "alive_option AlOther a = Inl 255"

definition sun_path :: "cstr \<Rightarrow> cstr" where
  "sun_path s = take (sun_path_size - 1) s"

definition sendQuitSignal :: "cstr \<Rightarrow> cstr \<Rightarrow> alive_call prog" where
  "sendQuitSignal filename msg =
     must 1 Al_socket (must 1 (Al_connect (sun_path filename)) (must 1 (Al_send msg) (must 1 Al_close (End 0))))"

definition handleMessage :: "alive_call prog" where
  "handleMessage = must 1 Al_accept (must_get 1 Al_recv (\<lambda>len. if len = 0 then End 1 else End 0))"

text \<open>The child waits; \<^verbatim>\<open>select\<close> answers with the number of descriptors that are ready.\<close>

definition alive_child :: "alive_call prog" where
  "alive_child = must_get 1 Al_select (\<lambda>n. if n > 0 then handleMessage else End 1)"

definition alive_doit :: "cstr \<Rightarrow> alive_call prog" where
  "alive_doit filename =
     must 1 Al_socket (must 1 (Al_bind (sun_path filename)) (must 1 Al_listen
       (must_get 1 Al_getxid (\<lambda>x.
         must 1 (Al_print (digits_of 10 (nat (x mod 2 ^ 32)))) (must 1 Al_close
           (must_get 1 Al_fork (\<lambda>pid. if pid = 0 then alive_child else End 0)))))))"

text \<open>\<open>None\<close> is the use of a null pointer as the name of the socket, of which only a message is given.\<close>

definition keep_ctx_alive :: "alive_opt list \<Rightarrow> alive_call prog option" where
  "keep_ctx_alive opts =
     (case run_options alive_option opts \<lparr>al_socket = None, al_timeout = None, al_quit = None\<rparr> of
        Inl c \<Rightarrow> Some (End c)
      | Inr a \<Rightarrow>
          (case al_socket a of
             None \<Rightarrow> None
           | Some s \<Rightarrow> Some (case al_quit a of None \<Rightarrow> alive_doit s | Some msg \<Rightarrow> sendQuitSignal s msg)))"

lemma keep_ctx_alive_no_socket: "keep_ctx_alive [] = None"
  by (simp add: keep_ctx_alive_def)

text \<open>The caller only continues after the socket is there and the context was printed, so a message can reach the child.\<close>

lemma alive_doit_ready:
  "performs (alive_doit f) t (Exited 0) \<Longrightarrow>
     {Al_socket, Al_bind (sun_path f), Al_listen, Al_getxid, Al_fork} \<subseteq> {a. \<exists>n. (a, Done n) \<in> set t}"
  by (auto simp: alive_doit_def performs_simps)

section \<open>listdevip\<close>

text \<open>
  \<open>SIOCGIFCONF\<close> fills an array and says how much of it is used. A full array may have been too small.
\<close>

function conf_loop :: "nat \<Rightarrow> nat \<Rightarrow> nat" where
  "conf_loop n numreqs = (if min n numreqs = numreqs then conf_loop n (numreqs + 10) else numreqs)"
  by pat_completeness auto
termination
  by (relation "measure (\<lambda>(n, numreqs). Suc n - numreqs)") auto

declare conf_loop.simps [simp del]

definition quad_text :: "u32 \<Rightarrow> cstr" where
  "quad_text a =
     digits_of 10 (unat (drop_bit 24 a AND 0xff)) @ ''.'' @ digits_of 10 (unat (drop_bit 16 a AND 0xff)) @ ''.'' @
     digits_of 10 (unat (drop_bit 8 a AND 0xff)) @ ''.'' @ digits_of 10 (unat (a AND 0xff))"

text \<open>The interfaces with their address and, if it can be read, their mask, both in the order of the host.\<close>

definition devlist_read2_2 :: "bool \<Rightarrow> (u32 \<times> u32 option) list option \<Rightarrow> cstr" where
  "devlist_read2_2 socket_ok ifs =
     (case ifs of
        Some l \<Rightarrow>
          if socket_ok
          then concat (map (\<lambda>(addr, m). quad_text addr @ ''/'' @ quad_text (case m of None \<Rightarrow> 0xffffff00 | Some m \<Rightarrow> m) @ [NL])
                         (take (conf_loop (length l) 30) l))
          else []
      | None \<Rightarrow> [])"

lemma conf_loop_enough: "n < conf_loop n numreqs"
proof (induction n numreqs rule: conf_loop.induct)
  case (1 n numreqs)
  then show ?case by (subst conf_loop.simps) auto
qed

text \<open>However many interfaces there are, all are listed.\<close>

lemma devlist_all:
  "devlist_read2_2 True (Some l) =
     concat (map (\<lambda>(addr, m). quad_text addr @ ''/'' @ quad_text (case m of None \<Rightarrow> 0xffffff00 | Some m \<Rightarrow> m) @ [NL]) l)"
  using conf_loop_enough [of "length l" 30] by (simp add: devlist_read2_2_def)

end
