(* ===== verification/H2ext.thy ===== *)
theory H2ext
  imports CBuffer FsTool Contexts
begin

text \<open>
  \<^verbatim>\<open>h2ext\<close>, which finds out with which command an archive is extracted: a file of descriptions is read
  into a list of formats, and a file is compared with them at its start; a compressed one is looked into with the help of
  its extractor. The descriptions are read through a buffer of 512 bytes, which is modelled with all that is left in it.
\<close>

section \<open>Formats\<close>

datatype fft = FFT_STRING cstr | FFT_SHORT u16 | FFT_LONG u32

record file_format =
  ff_offset :: nat
  ff_value :: fft
  ff_extractor :: cstr
  ff_peek :: bool

definition MAX_PEEK_SIZE :: nat where "MAX_PEEK_SIZE = 4096"

definition desc_size :: nat where "desc_size = 512"

definition fft_len :: "fft \<Rightarrow> nat" where
  "fft_len v = (case v of FFT_STRING s \<Rightarrow> length s | FFT_SHORT _ \<Rightarrow> 2 | FFT_LONG _ \<Rightarrow> 4)"

text \<open>Values are compared as the machine, which is little endian, has them in memory.\<close>

definition byte_of :: "char \<Rightarrow> nat" where
  "byte_of c = of_char c"

fun le_value :: "nat list \<Rightarrow> nat" where
  "le_value [] = 0"
| "le_value (b # bs) = b + 256 * le_value bs"

fun le_digits :: "nat \<Rightarrow> nat \<Rightarrow> nat list" where
  "le_digits 0 v = []"
| "le_digits (Suc n) v = v mod 256 # le_digits n (v div 256)"

definition le_chars :: "char list \<Rightarrow> nat" where
  "le_chars cs = le_value (map byte_of cs)"

definition byteswap :: "nat \<Rightarrow> nat \<Rightarrow> nat" where
  "byteswap n v = le_value (rev (le_digits n v))"

text \<open>
  \<open>data + offset\<close> for strings; for numbers the cast binds tighter than the sum, so the offset counts numbers. \<open>None\<close> is a
  read behind the 4096 bytes.
\<close>

definition read_bytes :: "char list \<Rightarrow> nat \<Rightarrow> nat \<Rightarrow> char list option" where
  "read_bytes data off n = (if off + n \<le> length data then Some (take n (drop off data)) else None)"

definition format_matches :: "char list \<Rightarrow> file_format \<Rightarrow> bool option" where
  "format_matches data f =
     (case ff_value f of
        FFT_STRING s \<Rightarrow> map_option (\<lambda>b. b = s) (read_bytes data (ff_offset f) (length s))
      | FFT_SHORT v \<Rightarrow> map_option (\<lambda>b. le_chars b = unat v) (read_bytes data (ff_offset f * 2) 2)
      | FFT_LONG v \<Rightarrow> map_option (\<lambda>b. le_chars b = unat v) (read_bytes data (ff_offset f * 4) 4))"

fun find_format :: "file_format list \<Rightarrow> char list \<Rightarrow> file_format option option" where
  "find_format [] data = Some None"
| "find_format (f # fs) data =
     (case format_matches data f of
        None \<Rightarrow> None
      | Some True \<Rightarrow> Some (Some f)
      | Some False \<Rightarrow> find_format fs data)"

section \<open>Reading the descriptions\<close>

text \<open>
  A step on the buffer: it goes on, it leaves for the next line without an entry, or it crashes.
\<close>

datatype 'a h2step = H2_crash | H2_skip cbuf | H2_go cbuf 'a

fun h2bind :: "'a h2step \<Rightarrow> (cbuf \<Rightarrow> 'a \<Rightarrow> 'b h2step) \<Rightarrow> 'b h2step" where
  "h2bind H2_crash f = H2_crash"
| "h2bind (H2_skip b) f = H2_skip b"
| "h2bind (H2_go b x) f = f b x"

text \<open>\<open>scan P b i\<close> is the first position from \<open>i\<close> on at which \<open>P\<close> does not hold, if the buffer has one.\<close>

definition scan :: "(char \<Rightarrow> bool) \<Rightarrow> cbuf \<Rightarrow> nat \<Rightarrow> nat option" where
  "scan P b i = (let n = length (takeWhile P (drop i b)) in if i + n < length b then Some (i + n) else None)"

definition in_field :: "char \<Rightarrow> bool" where
  "in_field c \<longleftrightarrow> c \<noteq> TAB \<and> c \<noteq> NUL"

text \<open>A field from \<open>i\<close> on; it is terminated in the buffer. The result has its end and its text.\<close>

definition cut_field :: "cbuf \<Rightarrow> nat \<Rightarrow> (nat \<times> cstr) h2step" where
  "cut_field b i =
     (case scan in_field b i of
        None \<Rightarrow> H2_crash
      | Some j \<Rightarrow> H2_go (b[j := NUL]) (j, take (j - i) (drop i b)))"

definition h2_get_field :: "cbuf \<Rightarrow> nat \<Rightarrow> (nat \<times> cstr) h2step" where
  "h2_get_field b ptr =
     (if ptr + 1 \<ge> length b then H2_crash
      else if b ! (ptr + 1) = NUL then H2_skip b
      else case scan (\<lambda>c. c = TAB) b (ptr + 1) of None \<Rightarrow> H2_crash | Some i \<Rightarrow> cut_field b i)"

lemma scan_digits_rest: "length (snd (scan_digits b a s)) \<le> length s"
  by (induction b a s rule: scan_digits.induct) auto

lemma split_sign_rest: "length (snd (split_sign s)) \<le> length s"
  by (cases s) auto

lemma strto_scan_rest:
  assumes "strto_scan base s = Some (neg, v, r)"
  shows "length r \<le> length s"
proof -
  obtain n s1 where s1: "split_sign (dropWhile isspace s) = (n, s1)" by (cases "split_sign (dropWhile isspace s)")
  define hex where "hex = (has_hex_prefix s1 \<and> (base = 0 \<or> base = 16))"
  define b where "b = (if hex then 16 else if base = 0 then (if deref s1 = CHR ''0'' then 8 else 10) else base)"
  define s2 where "s2 = (if hex then drop 2 s1 else s1)"
  have "strto_scan base s =
      (if is_base_digit b (deref s2) then (let (v, r) = scan_digits b 0 s2 in Some (n, v, r)) else None)"
    by (simp add: strto_scan_def s1 Let_def hex_def b_def s2_def)
  with assms have "r = snd (scan_digits b 0 s2)" by (auto split: if_splits prod.splits)
  moreover have "length s2 \<le> length s1" by (simp add: s2_def)
  moreover have "length s1 \<le> length s"
    using split_sign_rest [of "dropWhile isspace s"] length_dropWhile_le [of isspace s] by (simp add: s1)
  ultimately show ?thesis using scan_digits_rest [of b 0 s2] by simp
qed

lemma strtol_rest_length: "strtol b s = (v, r, x) \<Longrightarrow> length r \<le> length s"
  using strto_scan_rest [of b s] by (auto simp: strtol_def Let_def split: option.splits if_splits)

text \<open>The escapes of a string: a backslash and an octal number, which \<^verbatim>\<open>strtol\<close> reads.\<close>

function unescape :: "cstr \<Rightarrow> cstr" where
  "unescape [] = []"
| "unescape (c # cs) =
     (if c = CHR 0x5C
      then (let (v, rest, _) = strtol 8 cs in char_of (nat (v mod 256)) # unescape rest)
      else c # unescape cs)"
  by pat_completeness auto

termination
  by (relation "measure length") (auto simp: less_Suc_eq_le dest: strtol_rest_length [OF sym])

definition strtol_value :: "cstr \<Rightarrow> int" where
  "strtol_value s = fst (strtol 0 s)"

text \<open>The names of the types, with the width of a number and whether its bytes are swapped.\<close>

datatype fft_kind = Kind_string | Kind_short bool | Kind_long bool

definition fft_kind_of :: "cstr \<Rightarrow> fft_kind option" where
  "fft_kind_of s = map_of
     [(''string'', Kind_string), (''short'', Kind_short False), (''long'', Kind_long False),
      (''leshort'', Kind_short False), (''beshort'', Kind_short True), (''lelong'', Kind_long False), (''belong'', Kind_long True)] s"

definition fft_value :: "fft_kind \<Rightarrow> cstr \<Rightarrow> fft" where
  "fft_value k s =
     (case k of
        Kind_string \<Rightarrow> FFT_STRING (unescape s)
      | Kind_short swap \<Rightarrow>
          (let v = (word_of_int (strtol_value s) :: u16) in FFT_SHORT (if swap then of_nat (byteswap 2 (unat v)) else v))
      | Kind_long swap \<Rightarrow>
          (let v = (word_of_int (strtol_value s) :: u32) in FFT_LONG (if swap then of_nat (byteswap 4 (unat v)) else v)))"

text \<open>The last field and the check of the entry.\<close>

definition make_format :: "int \<Rightarrow> fft \<Rightarrow> cstr \<Rightarrow> cstr \<Rightarrow> file_format option" where
  "make_format off v extractor peek =
     (if off < 0 \<or> off + int (fft_len v) > int MAX_PEEK_SIZE then None
      else Some \<lparr>ff_offset = nat off, ff_value = v, ff_extractor = extractor,
                 ff_peek = ((word_of_int (strtol_value peek) :: u32) \<noteq> 0)\<rparr>)"

definition parse_entry :: "cbuf \<Rightarrow> file_format h2step" where
  "parse_entry b =
     h2bind (cut_field b 0) (\<lambda>b (p, off).
       if p = 0 then H2_skip b
       else h2bind (h2_get_field b p) (\<lambda>b (p, kind).
         case fft_kind_of kind of
           None \<Rightarrow> H2_skip b
         | Some k \<Rightarrow>
             h2bind (h2_get_field b p) (\<lambda>b (p, val).
               h2bind (h2_get_field b p) (\<lambda>b (p, extractor).
                 h2bind (h2_get_field b p) (\<lambda>b (p, peek).
                   case make_format (strtol_value off) (fft_value k val) extractor peek of
                     None \<Rightarrow> H2_skip b
                   | Some f \<Rightarrow> H2_go b f)))))"

text \<open>
  The list with one more entry. An entry that is given up is freed; when it is not the first one it is freed once more as
  the successor of its predecessor.
\<close>

definition add_entry :: "file_format list \<Rightarrow> file_format h2step \<Rightarrow> (cbuf \<times> file_format list) option" where
  "add_entry fs r =
     (case r of
        H2_crash \<Rightarrow> None
      | H2_skip b \<Rightarrow> if fs = [] then Some (b, []) else None
      | H2_go b f \<Rightarrow> Some (b, fs @ [f]))"

definition parse_line :: "cbuf \<Rightarrow> file_format list \<Rightarrow> (cbuf \<times> file_format list) option" where
  "parse_line b fs = (if hd b = CHR ''#'' \<or> hd b = NUL then Some (b, fs) else add_entry fs (parse_entry b))"

text \<open>\<^verbatim>\<open>strchr(buf, '\n')\<close>\<close>

definition find_eol :: "cbuf \<Rightarrow> nat option" where
  "find_eol b =
     (let n = length (takeWhile (\<lambda>c. c \<noteq> NL \<and> c \<noteq> NUL) b) in if n < length b \<and> b ! n = NL then Some n else None)"

datatype h2load = Load_crash | Load_long | Loaded "file_format list"

text \<open>
  The loop, with the rest of the file, the buffer, the end of what was read into it and the list. Reads give as much as
  there is. When the end of the line lies behind what was read, the length that is moved is negative. \<open>None\<close> is only left
  when the rounds do not suffice.
\<close>

definition read_more :: "cstr \<Rightarrow> cbuf \<Rightarrow> nat \<Rightarrow> (cstr \<times> cbuf \<times> nat) option" where
  "read_more file b e =
     (let s = take (desc_size - 1 - e) file; file' = drop (desc_size - 1 - e) file
      in if s \<noteq> [] then Some (file', take e b @ s @ [NUL] @ drop (e + length s + 1) b, e + length s)
         else if e = 0 then None
         else Some (file', take e b @ [NL, NUL] @ drop (e + 2) b, e + 1))"

definition next_line :: "cbuf \<Rightarrow> nat \<Rightarrow> nat \<Rightarrow> (cbuf \<times> nat) option" where
  "next_line b e eol =
     (if eol + 1 > e then None
      else (let rest = take (e - (eol + 1)) (drop (eol + 1) b) in Some (rest @ drop (length rest) b, e - (eol + 1))))"

fun load_loop :: "nat \<Rightarrow> cstr \<Rightarrow> cbuf \<Rightarrow> nat \<Rightarrow> file_format list \<Rightarrow> h2load option" where
  "load_loop 0 file b e fs = None"
| "load_loop (Suc n) file b e fs =
     (case find_eol b of
        None \<Rightarrow>
          if e < desc_size - 1
          then (case read_more file b e of None \<Rightarrow> Some (Loaded fs) | Some (file', b', e') \<Rightarrow> load_loop n file' b' e' fs)
          else Some Load_long
      | Some eol \<Rightarrow>
          (case parse_line (b[eol := NUL]) fs of
             None \<Rightarrow> Some Load_crash
           | Some (b', fs') \<Rightarrow>
               (case next_line b' e eol of None \<Rightarrow> Some Load_crash | Some (b'', e'') \<Rightarrow> load_loop n file b'' e'' fs')))"

definition load_description :: "nat \<Rightarrow> (nat \<Rightarrow> char) \<Rightarrow> cstr \<Rightarrow> h2load option" where
  "load_description n junk file = load_loop n file ((alloca junk desc_size)[0 := NUL]) 0 []"

section \<open>Files\<close>

text \<open>
  \<open>process_file\<close>: the first 4096 bytes are mapped, with zeros behind the end of the file; an empty file cannot be
  mapped. The extractor is asked for 4095 bytes; since this process keeps the other end of the pipe open, the end of
  shorter output is never seen.
\<close>

datatype h2file = File_crash | File_hang | File_bad | File_formats "file_format option" "file_format option"

definition pad_page :: "char list \<Rightarrow> char list" where
  "pad_page s = take MAX_PEEK_SIZE s @ replicate (MAX_PEEK_SIZE - length s) NUL"

definition process_file :: "(cstr \<Rightarrow> cstr \<Rightarrow> cstr) \<Rightarrow> file_format list \<Rightarrow> cstr \<Rightarrow> h2file" where
  "process_file worker fs content =
     (if content = [] then File_bad
      else case find_format fs (pad_page content) of
             None \<Rightarrow> File_crash
           | Some None \<Rightarrow> File_formats None None
           | Some (Some f) \<Rightarrow>
               if \<not> ff_peek f then File_formats (Some f) None
               else
                 (let out = worker (ff_extractor f) content
                  in if length out < MAX_PEEK_SIZE - 1 then File_hang
                     else case find_format fs (take (MAX_PEEK_SIZE - 1) out @ [NUL]) of
                            None \<Rightarrow> File_crash
                          | Some g \<Rightarrow> File_formats (Some f) g))"

datatype h2_opt = H2Help | H2Version | H2Desc cstr | H2Quiet | H2Other

fun h2_option :: "h2_opt \<Rightarrow> cstr option \<times> bool \<Rightarrow> int + (cstr option \<times> bool)" where
  "h2_option H2Help a = Inl 0"
| "h2_option H2Version a = Inl 0"
| "h2_option (H2Desc d) a = Inr (Some d, snd a)"
| "h2_option H2Quiet a = Inr (fst a, True)"
| "h2_option H2Other a = Inl 255"

definition h2_text :: "h2file \<Rightarrow> cstr" where
  "h2_text r =
     (case r of
        File_formats (Some f) g \<Rightarrow>
          ff_extractor f @
          (if ff_peek f then '' | '' @ (case g of None \<Rightarrow> ''unknown format'' | Some h \<Rightarrow> ff_extractor h) else [])
      | _ \<Rightarrow> ''unknown format'')"

text \<open>The exit code and the output; \<open>None\<close> is a crash or a program that does not end.\<close>

fun h2_files :: "(cstr \<Rightarrow> cstr option) \<Rightarrow> (cstr \<Rightarrow> cstr \<Rightarrow> cstr) \<Rightarrow> bool \<Rightarrow> file_format list \<Rightarrow> cstr list \<Rightarrow> cstr \<Rightarrow> (int \<times> cstr) option" where
  "h2_files files worker quiet fs [] out = Some (0, out)"
| "h2_files files worker quiet fs (f # rest) out =
     (let out' = out @ (if quiet then [] else f @ '': '')
      in case files f of
           None \<Rightarrow> Some (255, out')
         | Some content \<Rightarrow>
             (let r = process_file worker fs content
              in if r = File_crash \<or> r = File_hang then None
                 else h2_files files worker quiet fs rest (out' @ h2_text r @ [NL])))"

definition h2ext ::
  "nat \<Rightarrow> (nat \<Rightarrow> char) \<Rightarrow> (cstr \<Rightarrow> cstr option) \<Rightarrow> (cstr \<Rightarrow> cstr \<Rightarrow> cstr) \<Rightarrow> h2_opt list \<Rightarrow> cstr list \<Rightarrow> (int \<times> cstr) option" where
  "h2ext n junk files worker opts args =
     (case run_options h2_option opts (None, False) of
        Inl c \<Rightarrow> Some (c, [])
      | Inr (None, quiet) \<Rightarrow> Some (255, [])
      | Inr (Some d, quiet) \<Rightarrow>
          (case files d of
             None \<Rightarrow> Some (255, [])
           | Some desc \<Rightarrow>
               (case load_description n junk desc of
                  Some (Loaded fs) \<Rightarrow> h2_files files worker quiet fs args []
                | Some Load_long \<Rightarrow> Some (1, [])
                | _ \<Rightarrow> None)))"

section \<open>What a well-formed file says\<close>

text \<open>
  A specification of the files: comments, empty lines and entries of five fields, separated by one or more tabs.
\<close>

datatype desc_line = Blank | Comment cstr | Entry cstr "nat \<times> cstr" "nat \<times> cstr" "nat \<times> cstr" "nat \<times> cstr"

definition field_text :: "nat \<times> cstr \<Rightarrow> cstr" where
  "field_text x = TAB # replicate (fst x) TAB @ snd x"

fun desc_line_text :: "desc_line \<Rightarrow> cstr" where
  "desc_line_text Blank = []"
| "desc_line_text (Comment c) = CHR ''#'' # c"
| "desc_line_text (Entry off t v x p) = off @ field_text t @ field_text v @ field_text x @ field_text p"

fun desc_text :: "desc_line list \<Rightarrow> cstr" where
  "desc_text [] = []"
| "desc_text (l # ls) = desc_line_text l @ NL # desc_text ls"

fun desc_format :: "desc_line \<Rightarrow> file_format option" where
  "desc_format (Entry off t v x p) =
     Option.bind (fft_kind_of (snd t)) (\<lambda>k. make_format (strtol_value off) (fft_value k (snd v)) (snd x) (snd p))"
| "desc_format _ = None"

definition good_field :: "cstr \<Rightarrow> bool" where
  "good_field f \<longleftrightarrow> f \<noteq> [] \<and> (\<forall>c \<in> set f. c \<noteq> TAB \<and> c \<noteq> NUL \<and> c \<noteq> NL)"

fun desc_ok :: "desc_line \<Rightarrow> bool" where
  "desc_ok Blank = True"
| "desc_ok (Comment c) \<longleftrightarrow> NL \<notin> set c \<and> NUL \<notin> set c"
| "desc_ok (Entry off t v x p) \<longleftrightarrow>
     good_field off \<and> hd off \<noteq> CHR ''#'' \<and> good_field (snd t) \<and> good_field (snd v) \<and> good_field (snd x) \<and>
     good_field (snd p) \<and> desc_format (Entry off t v x p) \<noteq> None"

definition table_of :: "desc_line list \<Rightarrow> file_format list" where
  "table_of ls = List.map_filter desc_format ls"

lemma scan_to: "\<forall>c \<in> set f. P c \<Longrightarrow> \<not> P c \<Longrightarrow> scan P (p @ f @ c # r) (length p) = Some (length p + length f)"
  by (simp add: scan_def takeWhile_append2)

lemma cut_field_text:
  assumes "good_field f" "\<not> in_field c"
  shows "cut_field (p @ f @ c # r) (length p) = H2_go (p @ f @ NUL # r) (length p + length f, f)"
proof -
  from assms have "\<forall>c \<in> set f. in_field c" by (auto simp: good_field_def in_field_def)
  from scan_to [OF this assms(2), of p r] show ?thesis by (simp add: cut_field_def list_update_append)
qed

lemma get_field_text:
  assumes "good_field f" "\<not> in_field c"
  shows "h2_get_field (p @ x # replicate k TAB @ f @ c # r) (length p) =
    H2_go (p @ x # replicate k TAB @ f @ NUL # r) (length p + 1 + k + length f, f)"
proof -
  let ?b = "p @ x # replicate k TAB @ f @ c # r" and ?q = "p @ x # replicate k TAB"
  obtain y f' where f: "f = y # f'" using assms(1) by (cases f) (auto simp: good_field_def)
  have y: "y \<noteq> TAB" "y \<noteq> NUL" using assms(1) by (auto simp: good_field_def f)
  have "?b ! (length p + 1) \<noteq> NUL" using y by (cases k) (simp_all add: nth_append f)
  moreover have "scan (\<lambda>c. c = TAB) ?b (length p + 1) = Some (length ?q)"
    using scan_to [of "replicate k TAB" "\<lambda>c. c = TAB" y "p @ [x]" "f' @ c # r"] y(1) by (simp add: f)
  moreover have "cut_field ?b (length ?q) = H2_go (?q @ f @ NUL # r) (length ?q + length f, f)"
    using cut_field_text [OF assms, of ?q r] by simp
  ultimately show ?thesis by (simp add: h2_get_field_def)
qed

text \<open>The same with a buffer and a position given by equations, to go from field to field.\<close>

lemma get_field_at:
  assumes "b = p @ x # replicate k TAB @ f @ c # r" "i = length p" "good_field f" "\<not> in_field c"
  shows "h2_get_field b i = H2_go (p @ x # replicate k TAB @ f @ NUL # r) (length p + 1 + k + length f, f)"
  unfolding assms(1,2) by (rule get_field_text [OF assms(3,4)])

lemma not_in_field [simp]: "\<not> in_field TAB" "\<not> in_field NUL"
  by (simp_all add: in_field_def)

lemma parse_entry_text:
  assumes "desc_ok (Entry off t v x p)"
  shows "\<exists>q. parse_entry (desc_line_text (Entry off t v x p) @ NUL # r) = H2_go (q @ NUL # r) (the (desc_format (Entry off t v x p))) \<and>
    length q = length (desc_line_text (Entry off t v x p)) \<and> NL \<notin> set q"
proof -
  obtain kt ft kv fv kx fx kp fp where e: "t = (kt, ft)" "v = (kv, fv)" "x = (kx, fx)" "p = (kp, fp)"
    by (cases t; cases v; cases x; cases p)
  note good = assms [simplified e, simplified]
  obtain k f where k: "fft_kind_of ft = Some k" and f: "make_format (strtol_value off) (fft_value k fv) fx fp = Some f"
    using good by (auto simp: bind_eq_Some_conv)
  let ?T = "\<lambda>n. replicate n TAB"
  let ?b0 = "off @ TAB # ?T kt @ ft @ TAB # ?T kv @ fv @ TAB # ?T kx @ fx @ TAB # ?T kp @ fp @ NUL # r"
  let ?q1 = "off @ NUL # ?T kt @ ft" and ?q2 = "off @ NUL # ?T kt @ ft @ NUL # ?T kv @ fv"
  let ?q3 = "off @ NUL # ?T kt @ ft @ NUL # ?T kv @ fv @ NUL # ?T kx @ fx"
  let ?q4 = "?q3 @ NUL # ?T kp @ fp"
  have c0: "cut_field ?b0 0 = H2_go (off @ NUL # ?T kt @ ft @ TAB # ?T kv @ fv @ TAB # ?T kx @ fx @ TAB # ?T kp @ fp @ NUL # r) (length off, off)"
    using cut_field_text [of off TAB "[]"] good by simp
  have c1: "h2_get_field (off @ NUL # ?T kt @ ft @ TAB # ?T kv @ fv @ TAB # ?T kx @ fx @ TAB # ?T kp @ fp @ NUL # r) (length off) =
      H2_go (?q1 @ NUL # ?T kv @ fv @ TAB # ?T kx @ fx @ TAB # ?T kp @ fp @ NUL # r) (length ?q1, ft)"
    using get_field_text [of ft TAB off] good by simp
  have c2: "h2_get_field (?q1 @ NUL # ?T kv @ fv @ TAB # ?T kx @ fx @ TAB # ?T kp @ fp @ NUL # r) (length ?q1) =
      H2_go (?q2 @ NUL # ?T kx @ fx @ TAB # ?T kp @ fp @ NUL # r) (length ?q2, fv)"
    using get_field_text [of fv TAB ?q1] good by simp
  have c3: "h2_get_field (?q2 @ NUL # ?T kx @ fx @ TAB # ?T kp @ fp @ NUL # r) (length ?q2) =
      H2_go (?q3 @ NUL # ?T kp @ fp @ NUL # r) (length ?q3, fx)"
    using get_field_text [of fx TAB ?q2] good by simp
  have c4: "h2_get_field (?q3 @ NUL # ?T kp @ fp @ NUL # r) (length ?q3) = H2_go (?q4 @ NUL # r) (length ?q4, fp)"
    using get_field_text [of fp NUL ?q3] good by simp
  have off: "(length off = 0) = False" using good by (simp add: good_field_def)
  have "parse_entry ?b0 = H2_go (?q4 @ NUL # r) f"
    using off by (simp only: parse_entry_def c0 h2bind.simps prod.case c1 c2 c3 c4 k option.case f if_False)
  moreover have "NL \<notin> set f" if "good_field f" for f using that by (auto simp: good_field_def)
  then have "NL \<notin> set ?q4" using good by simp
  ultimately show ?thesis using k f
    by (intro exI [of _ ?q4]) (simp add: e field_text_def bind_eq_Some_conv)
qed

lemma desc_line_clean: "desc_ok l \<Longrightarrow> \<forall>c \<in> set (desc_line_text l). c \<noteq> NL \<and> c \<noteq> NUL"
proof (cases l)
  case (Entry off t v x p)
  assume "desc_ok l"
  moreover have "\<forall>c \<in> set f. c \<noteq> NL \<and> c \<noteq> NUL" if "good_field f" for f using that by (simp add: good_field_def)
  moreover have "\<forall>c \<in> set (field_text x). c \<noteq> NL \<and> c \<noteq> NUL" if "good_field (snd x)" for x
    using that by (simp add: field_text_def good_field_def ball_Un set_replicate_conv_if)
  ultimately show ?thesis
    unfolding Entry desc_line_text.simps desc_ok.simps set_append ball_Un by blast
qed auto

text \<open>A line in the buffer is taken into the table, and leaves no end of a line in front of its terminator.\<close>

lemma parse_line_text:
  assumes "desc_ok l"
  shows "\<exists>q. parse_line (desc_line_text l @ NUL # r) fs = Some (q @ NUL # r, fs @ table_of [l]) \<and>
    length q = length (desc_line_text l) \<and> NL \<notin> set q"
proof (cases l)
  case (Entry off t v x p)
  from parse_entry_text [of off t v x p r] assms obtain q where
    q: "parse_entry (desc_line_text l @ NUL # r) = H2_go (q @ NUL # r) (the (desc_format l))"
       "length q = length (desc_line_text l)" "NL \<notin> set q" by (auto simp: Entry)
  obtain c f' where off: "off = c # f'" "c \<noteq> CHR ''#''" "c \<noteq> NUL"
    using assms by (cases off) (auto simp: Entry good_field_def)
  have "hd (desc_line_text l @ NUL # r) = c" by (simp add: Entry off(1))
  moreover have "table_of [l] = [the (desc_format l)]"
    using assms by (auto simp: Entry table_of_def map_filter_simps)
  ultimately show ?thesis using q off by (intro exI [of _ q]) (simp add: parse_line_def add_entry_def)
qed (use assms in \<open>auto simp: parse_line_def table_of_def map_filter_simps\<close>)

lemma find_eol_line: "\<forall>c \<in> set s. c \<noteq> NL \<and> c \<noteq> NUL \<Longrightarrow> find_eol (s @ NL # r) = Some (length s)"
  by (simp add: find_eol_def takeWhile_append2 Let_def)

lemma find_eol_none: "NL \<notin> set q \<Longrightarrow> find_eol (q @ NUL # r) = None"
proof -
  assume q: "NL \<notin> set q"
  have "\<exists>k. takeWhile (\<lambda>c. c \<noteq> NL \<and> c \<noteq> NUL) (q @ NUL # r) = take k q \<and> k \<le> length q \<and> (q @ NUL # r) ! k = NUL"
    using q
  proof (induction q)
    case (Cons c q)
    then obtain k where "takeWhile (\<lambda>c. c \<noteq> NL \<and> c \<noteq> NUL) (q @ NUL # r) = take k q \<and> k \<le> length q \<and> (q @ NUL # r) ! k = NUL"
      by auto
    then show ?case using Cons.prems by (cases "c = NUL") (auto intro: exI [of _ 0] exI [of _ "Suc k"])
  qed simp
  then show ?thesis by (auto simp: find_eol_def Let_def)
qed

lemma load_lines:
  assumes "\<forall>l \<in> set ls. desc_ok l" "length ls + 1 < n" "ls \<noteq> []"
  shows "load_loop n [] (desc_text ls @ junk) (length (desc_text ls)) fs = Some (Loaded (fs @ table_of ls))"
  using assms
proof (induction ls arbitrary: n junk fs)
  case (Cons l ls)
  then obtain m where n: "n = Suc m" "length ls + 1 < m" by (cases n) auto
  let ?s = "desc_line_text l"
  from Cons.prems have ok: "desc_ok l" by simp
  from parse_line_text [OF this] obtain q where
    q: "parse_line (?s @ NUL # desc_text ls @ junk) fs = Some (q @ NUL # desc_text ls @ junk, fs @ table_of [l])"
       "length q = length ?s" "NL \<notin> set q" by blast
  have eol: "find_eol (desc_text (l # ls) @ junk) = Some (length ?s)"
    using find_eol_line [OF desc_line_clean [OF ok]] by simp
  let ?b = "q @ NUL # desc_text ls @ junk" and ?e = "length (desc_text (l # ls))"
  have next_l: "next_line ?b ?e (length ?s) = Some (desc_text ls @ drop (length (desc_text ls)) ?b, length (desc_text ls))"
    using q(2) by (simp add: next_line_def Let_def)
  have step: "load_loop n [] (desc_text (l # ls) @ junk) ?e fs =
      load_loop m [] (desc_text ls @ drop (length (desc_text ls)) ?b) (length (desc_text ls)) (fs @ table_of [l])"
    unfolding n(1) load_loop.simps eol option.case
    using q(1) next_l by (simp add: list_update_append)
  show ?case
  proof (cases "ls = []")
    case True
    have "load_loop m [] ?b 0 (fs @ table_of [l]) = Some (Loaded (fs @ table_of [l]))"
      using n(2) find_eol_none [OF q(3)] by (cases m) (simp_all add: True desc_size_def read_more_def)
    then show ?thesis unfolding step by (simp add: True)
  next
    case False
    with Cons.IH [of m "drop (length (desc_text ls)) ?b" "fs @ table_of [l]"] Cons.prems n(2) step show ?thesis
      by (simp add: table_of_def map_filter_simps split: option.split)
  qed
qed simp

text \<open>
  C0. A file of well-formed lines that fits the buffer of \<^verbatim>\<open>h2ext\<close> is read as the table it spells: its entries in order,
  whatever was in the buffer before, and whatever the lines in front leave in it.
\<close>

theorem load_description_correct:
  assumes "\<forall>l \<in> set ls. desc_ok l" "length (desc_text ls) < desc_size" "length ls + 2 < n"
  shows "load_description n junk (desc_text ls) = Some (Loaded (table_of ls))"
proof -
  let ?b = "(alloca junk desc_size)[0 := NUL]"
  obtain m where n: "n = Suc m" using assms(3) by (cases n) auto
  have "find_eol ?b = None"
    using find_eol_none [of "[]"] by (cases "alloca junk desc_size") (auto simp: alloca_def desc_size_def upt_rec)
  then have load: "load_description n junk (desc_text ls) =
      (case read_more (desc_text ls) ?b 0 of
         None \<Rightarrow> Some (Loaded []) | Some (file', b', e') \<Rightarrow> load_loop m file' b' e' [])"
    by (simp add: load_description_def n desc_size_def)
  show ?thesis
  proof (cases "ls = []")
    case True
    then show ?thesis unfolding load by (simp add: read_more_def table_of_def map_filter_simps)
  next
    case False
    then have "desc_text ls \<noteq> []" by (cases ls) auto
    with assms(2) have "read_more (desc_text ls) ?b 0 =
        Some ([], desc_text ls @ NUL # drop (length (desc_text ls) + 1) ?b, length (desc_text ls))"
      by (simp add: read_more_def Let_def)
    with load_lines [OF assms(1) _ False, of m "NUL # drop (length (desc_text ls) + 1) ?b" "[]"] assms(3) n
    show ?thesis unfolding load by simp
  qed
qed

text \<open>An excerpt of the file that comes with the program.\<close>

definition sample_desc :: "desc_line list" where
  "sample_desc =
     [Comment ''tar'', Blank,
      Entry ''257'' (0, ''string'') (1, ''ustar'' @ [CHR 0x5C] @ ''0'') (2, ''tar -x'') (1, ''0''),
      Entry ''24'' (0, ''belong'') (1, ''60012'') (1, ''restore'') (1, ''0'')]"

lemmas strtol_eval =
  strtol_value_def strtol_def strto_scan_def is_base_digit_def digit_val_def isdigit_def islower_def isupper_def
  isspace_def has_hex_prefix_def LONG_MAX_def LONG_MIN_def

lemma sample_numbers:
  "strtol_value ''257'' = 257" "strtol_value ''24'' = 24" "strtol_value ''0'' = 0" "strtol_value ''60012'' = 60012"
  by (simp_all add: strtol_eval)

lemma sample_values:
  "fft_value Kind_string (''ustar'' @ [CHR 0x5C] @ ''0'') = FFT_STRING (''ustar'' @ [NUL])"
  "fft_value (Kind_long True) ''60012'' = FFT_LONG 0x6CEA0000"
proof -
  have four: "4 = Suc (Suc (Suc (Suc 0)))" by simp
  have "byteswap 4 60012 = 0x6CEA0000" unfolding byteswap_def four le_digits.simps by simp
  then show "fft_value (Kind_long True) ''60012'' = FFT_LONG 0x6CEA0000"
    by (simp only: fft_value_def fft_kind.case sample_numbers Let_def) simp
  show "fft_value Kind_string (''ustar'' @ [CHR 0x5C] @ ''0'') = FFT_STRING (''ustar'' @ [NUL])"
    by (simp add: fft_value_def strtol_eval char_of_def)
qed

definition sample_table :: "file_format list" where
  "sample_table =
     [\<lparr>ff_offset = 257, ff_value = FFT_STRING (''ustar'' @ [NUL]), ff_extractor = ''tar -x'', ff_peek = False\<rparr>,
      \<lparr>ff_offset = 24, ff_value = FFT_LONG 0x6CEA0000, ff_extractor = ''restore'', ff_peek = False\<rparr>]"

lemma sample_formats: "map desc_format sample_desc = None # None # map Some sample_table"
proof -
  have k: "fft_kind_of ''string'' = Some Kind_string" "fft_kind_of ''belong'' = Some (Kind_long True)"
    by (simp_all add: fft_kind_of_def)
  show ?thesis
    unfolding sample_desc_def sample_table_def list.map desc_format.simps snd_conv k Option.bind.bind_lunit sample_values
      make_format_def sample_numbers
    by (simp add: fft_len_def MAX_PEEK_SIZE_def)
qed

theorem load_description_correct_witness:
  "load_description 9 (\<lambda>_. CHR ''x'') (desc_text sample_desc) =
     Some (Loaded sample_table)"
proof -
  have "\<forall>l \<in> set sample_desc. desc_ok l"
    using sample_formats by (auto simp: sample_desc_def good_field_def)
  from load_description_correct [OF this, of 9 "\<lambda>_. CHR ''x''"]
  have "load_description 9 (\<lambda>_. CHR ''x'') (desc_text sample_desc) = Some (Loaded (table_of sample_desc))"
    by (simp add: sample_desc_def field_text_def desc_size_def)
  moreover have "table_of sample_desc = map the (filter (\<lambda>x. x \<noteq> None) (map desc_format sample_desc))"
    by (simp add: table_of_def List.map_filter_def comp_def filter_map)
  ultimately show ?thesis unfolding sample_formats by (simp add: sample_table_def)
qed

text \<open>
  The second entry of the sample is looked for at byte 96 instead of 24: a file that has the value where the entry says is
  not recognised, whatever else it holds.
\<close>

lemma h2ext_offset_scaled:
  assumes "length data = MAX_PEEK_SIZE" "ff_value f = FFT_LONG v" "ff_offset f * 4 + 4 \<le> MAX_PEEK_SIZE"
  shows "format_matches data f = Some (le_chars (take 4 (drop (ff_offset f * 4) data)) = unat v)"
  using assms by (simp add: format_matches_def read_bytes_def)

text \<open>Entries that are accepted can therefore be looked for outside the file.\<close>

lemma h2ext_offset_overrun:
  assumes "ff_value f = FFT_LONG v" "ff_offset f \<ge> 1024" "length data = MAX_PEEK_SIZE"
  shows "format_matches data f = None"
  using assms by (simp add: format_matches_def read_bytes_def MAX_PEEK_SIZE_def)

text \<open>A line that is not accepted, after one that is, frees its entry twice.\<close>

lemma h2ext_double_free: "parse_entry b = H2_skip b' \<Longrightarrow> fs \<noteq> [] \<Longrightarrow> hd b \<notin> {CHR ''#'', NUL} \<Longrightarrow> parse_line b fs = None"
  by (simp add: parse_line_def add_entry_def)

text \<open>
  The terminator is not written anew when the rest of the buffer is moved to its start. A file of comments whose last line
  is longer than the one before and has no end finds the end of a line that was moved, behind what was read.
\<close>

lemma h2ext_stale_crash:
  "load_description 30 (\<lambda>_. CHR ''x'') (''#aa'' @ [NL] @ ''#'' @ [NL] @ ''#'' @ [NL] @ ''#'' @ [NL] @ ''##'') = Some Load_crash"
  by code_simp

text \<open>When the output of the extractor is shorter than what is asked for, its end is never seen.\<close>

lemma h2ext_hang:
  assumes "find_format fs (pad_page content) = Some (Some f)" "ff_peek f" "content \<noteq> []"
    "length (worker (ff_extractor f) content) < 4095"
  shows "process_file worker fs content = File_hang"
  using assms by (simp add: process_file_def MAX_PEEK_SIZE_def)

end
