(* ===== verification/Vps.thy ===== *)
theory Vps
  imports VserverCfg NetTools
begin

text \<open>
  \<^verbatim>\<open>vps\<close>, which runs \<^verbatim>\<open>ps\<close> in the context that sees all processes and inserts a column with the context behind the
  column of the process number.
\<close>

section \<open>The column\<close>

definition CTXNR_WIDTH :: nat where "CTXNR_WIDTH = 5"
definition CONTEXT_WIDTH :: nat where "CONTEXT_WIDTH = 20"

definition blank_text :: "nat \<Rightarrow> cstr" where
  "blank_text n = replicate n CHR '' ''"

text \<open>What is written, and the width that is returned.\<close>

definition writeContextInfo :: "xid_t \<Rightarrow> cstr option \<Rightarrow> cstr \<times> nat" where
  "writeContextInfo ctx name =
     (let n = (case name of None \<Rightarrow> [] | Some s \<Rightarrow> s)
      in ((if ctx = VC_NOCTX then blank_text (CTXNR_WIDTH - 3) @ ''ERR ''
           else blank_text (CTXNR_WIDTH - length (digits_of 10 (unat ctx))) @ digits_of 10 (unat ctx) @ '' '') @ n,
          CTXNR_WIDTH + 1 + length n))"

text \<open>\<open>task\<close> is \<^verbatim>\<open>vc_get_task_xid\<close>.\<close>

definition extractCtx :: "(u32 \<Rightarrow> xid_t) \<Rightarrow> cstr \<Rightarrow> xid_t" where
  "extractCtx task pid_str = task (word_of_int (atoi (dropWhile (\<lambda>c. c = CHR '' '') pid_str)))"

text \<open>The name of a context is looked up once; \<open>name_of\<close> stands for the search in the configurations.\<close>

definition context_name :: "(xid_t \<Rightarrow> cstr option) \<Rightarrow> xid_t \<Rightarrow> cstr option" where
  "context_name name_of ctx = (if ctx = 0 then Some ''MAIN'' else if ctx = 1 then Some ''ALL_PROC'' else name_of ctx)"

definition resolveCtx ::
  "(xid_t \<Rightarrow> cstr option) \<Rightarrow> xid_t \<Rightarrow> (xid_t \<times> cstr option) list \<Rightarrow> cstr option \<times> (xid_t \<times> cstr option) list" where
  "resolveCtx name_of ctx mapping =
     (case map_of mapping ctx of
        Some r \<Rightarrow> (r, mapping)
      | None \<Rightarrow> (let r = context_name name_of ctx in (r, mapping @ [(ctx, r)])))"

definition ps_cache_ok :: "(xid_t \<Rightarrow> cstr option) \<Rightarrow> (xid_t \<times> cstr option) list \<Rightarrow> bool" where
  "ps_cache_ok name_of mapping \<longleftrightarrow> (\<forall>(x, r) \<in> set mapping. r = context_name name_of x)"

lemma resolveCtx_transparent:
  assumes "ps_cache_ok name_of mapping"
  shows "fst (resolveCtx name_of ctx mapping) = context_name name_of ctx" "ps_cache_ok name_of (snd (resolveCtx name_of ctx mapping))"
proof -
  have "r = context_name name_of ctx" if "map_of mapping ctx = Some r" for r
    using map_of_SomeD [OF that] assms by (auto simp: ps_cache_ok_def)
  then show "fst (resolveCtx name_of ctx mapping) = context_name name_of ctx"
    by (auto simp: resolveCtx_def Let_def split: option.split)
  show "ps_cache_ok name_of (snd (resolveCtx name_of ctx mapping))"
    using assms by (auto simp: resolveCtx_def Let_def ps_cache_ok_def split: option.split)
qed

section \<open>Reading the output\<close>

text \<open>
  The buffer starts with two hunks and grows by one when it is full; the chunks are what the reads return, at most what
  is free. The result is the buffer's length and what was read.
\<close>

definition HUNK_SIZE :: nat where "HUNK_SIZE = 0x4000"

fun readOutput :: "nat \<Rightarrow> cstr \<Rightarrow> cstr list \<Rightarrow> nat \<times> cstr" where
  "readOutput len acc [] = (if length acc \<ge> len then len + HUNK_SIZE else len, acc)"
| "readOutput len acc (c # cs) =
     (let len' = (if length acc \<ge> len then len + HUNK_SIZE else len); got = take (len' - length acc) c
      in if got = [] then (len', acc) else readOutput len' (acc @ got) cs)"

lemma readOutput_fits:
  "length acc \<le> len \<Longrightarrow> readOutput len acc cs = (n, d) \<Longrightarrow> length d < n + 1"
  by (induction len acc cs rule: readOutput.induct) (auto simp: Let_def HUNK_SIZE_def split: if_splits)

section \<open>Inserting the column\<close>

text \<open>
  The data with its terminator; \<open>b\<close> is the whole text, \<open>d\<close> the position of a line in it. \<^verbatim>\<open>Vwrite\<close> of a range writes
  nothing when its end lies before its start, since the kernel refuses the length. \<open>None\<close> is a read behind the
  terminator.
\<close>

definition write_range :: "cstr \<Rightarrow> nat \<Rightarrow> nat \<Rightarrow> cstr option" where
  "write_range b i j =
     (if j \<le> i then Some [] else if j \<le> length b + 1 then Some (take (j - i) (drop i (b @ [NUL]))) else None)"

definition line_end :: "cstr \<Rightarrow> nat \<Rightarrow> nat" where
  "line_end b d = d + length (takeWhile (\<lambda>c. c \<noteq> NL \<and> c \<noteq> NUL) (drop d b))"

definition context_column :: "xid_t \<Rightarrow> cstr option \<Rightarrow> cstr" where
  "context_column ctx name =
     (let (text, l) = writeContextInfo ctx name
      in text @ (if l < CONTEXT_WIDTH then blank_text (CONTEXT_WIDTH - l) else '' ''))"

definition process_row ::
  "(u32 \<Rightarrow> xid_t) \<Rightarrow> (xid_t \<Rightarrow> cstr option) \<Rightarrow> nat \<Rightarrow> cstr \<Rightarrow> nat \<Rightarrow> nat \<Rightarrow> (xid_t \<times> cstr option) list \<Rightarrow>
   (cstr \<times> (xid_t \<times> cstr option) list) option" where
  "process_row task name_of pid_end b d eol mapping =
     (let ctx = extractCtx task (takeWhile (\<lambda>c. c \<noteq> NUL) (drop (d + pid_end - 6) b));
          (name, mapping') = resolveCtx name_of ctx mapping
      in case (write_range b d (d + pid_end), write_range b (d + pid_end) eol) of
           (Some s, Some t) \<Rightarrow> Some (s @ context_column ctx name @ t @ [NL], mapping')
         | _ \<Rightarrow> None)"

function process_rows ::
  "(u32 \<Rightarrow> xid_t) \<Rightarrow> (xid_t \<Rightarrow> cstr option) \<Rightarrow> nat \<Rightarrow> cstr \<Rightarrow> nat \<Rightarrow> (xid_t \<times> cstr option) list \<Rightarrow> cstr option" where
  "process_rows task name_of pid_end b d mapping =
     (if d \<ge> length b then Some []
      else
        (let eol = (if line_end b d < length b \<and> b ! line_end b d = NL then line_end b d else length b)
         in case process_row task name_of pid_end b d eol mapping of
              None \<Rightarrow> None
            | Some (out, mapping') \<Rightarrow> map_option ((@) out) (process_rows task name_of pid_end b (eol + 1) mapping')))"
  by pat_completeness auto
termination
  by (relation "measure (\<lambda>(task, name_of, pid_end, b, d, mapping). length b - d)")
     (auto simp: line_end_def split: if_splits)

declare process_rows.simps [simp del]

text \<open>The exit code with the output; the first component is \<open>None\<close> when the program goes on.\<close>

definition processOutput :: "(u32 \<Rightarrow> xid_t) \<Rightarrow> (xid_t \<Rightarrow> cstr option) \<Rightarrow> cstr \<Rightarrow> (int option \<times> cstr) option" where
  "processOutput task name_of data =
     (let eol = (if line_end data 0 < length data \<and> data ! line_end data 0 = NL then line_end data 0 else length data);
          b = (if eol < length data then data[eol := NUL] else data)
      in case strstr (takeWhile (\<lambda>c. c \<noteq> NUL) b) ''PID'' of
           None \<Rightarrow> Some (Some 254, [])
         | Some pos \<Rightarrow>
             (let pid_end = pos + 4
              in case (write_range b 0 pid_end, write_range b pid_end eol) of
                   (Some s, Some t) \<Rightarrow>
                     map_option (\<lambda>out. (None, s @ ''CONTEXT'' @ blank_text 13 @ t @ [NL] @ out))
                       (process_rows task name_of pid_end b (eol + 1) [])
                 | _ \<Rightarrow> None))"

text \<open>
  The program: \<open>watch\<close> says whether the context of all processes could be entered, \<open>ps\<close> what the child writes, in chunks,
  and how it ends, which this process imitates.
\<close>

definition vps ::
  "bool \<Rightarrow> (u32 \<Rightarrow> xid_t) \<Rightarrow> (xid_t \<Rightarrow> cstr option) \<Rightarrow> (cstr list \<Rightarrow> cstr list \<times> int) \<Rightarrow> cstr list \<Rightarrow> (int \<times> cstr) option" where
  "vps watch task name_of ps args =
     (if args \<noteq> [] \<and> hd args \<in> {''--help'', ''--version''} then Some (0, [])
      else if \<not> watch then Some (254, [])
      else
        (let (chunks, status) = ps (''ps'' # args)
         in map_option (\<lambda>(c, out). (case c of None \<Rightarrow> status | Some e \<Rightarrow> e, out))
              (processOutput task name_of (snd (readOutput (2 * HUNK_SIZE) [] chunks)))))"

section \<open>Tables of \<^verbatim>\<open>ps\<close>\<close>

text \<open>
  A row with the number of a process, right-justified in five characters or longer, so that it ends where the word
  \<^verbatim>\<open>PID\<close> of the header ends, which is at \<open>w + 5\<close>. A specification: the rows one by one, without a cache and without
  positions; of a number with more than five digits, the last five count.
\<close>

type_synonym ps_row = "cstr \<times> nat \<times> cstr"

definition number_text5 :: "nat \<Rightarrow> cstr" where
  "number_text5 n = blank_text (5 - length (digits_of 10 n)) @ digits_of 10 n @ '' ''"

fun row_text :: "ps_row \<Rightarrow> cstr" where
  "row_text (p, n, q) = p @ number_text5 n @ q"

fun row_ok :: "nat \<Rightarrow> ps_row \<Rightarrow> bool" where
  "row_ok w (p, n, q) \<longleftrightarrow> length p + length (number_text5 n) = w + 6 \<and> (\<forall>c \<in> set p \<union> set q. c \<noteq> NL \<and> c \<noteq> NUL)"

fun row_out :: "(u32 \<Rightarrow> xid_t) \<Rightarrow> (xid_t \<Rightarrow> cstr option) \<Rightarrow> ps_row \<Rightarrow> cstr" where
  "row_out task name_of (p, n, q) =
     (let ctx = task (of_nat (n mod 100000)) in p @ number_text5 n @ context_column ctx (context_name name_of ctx) @ q @ [NL])"

fun rows_text :: "ps_row list \<Rightarrow> cstr" where
  "rows_text [] = []"
| "rows_text (r # rs) = row_text r @ NL # rows_text rs"

lemma length_number_text5: "n < 100000 \<Longrightarrow> length (number_text5 n) = 6"
  using length_digits_of [of 10 n 5] by (simp add: number_text5_def blank_text_def)

lemma digits_clean: "c \<in> set (digits_of 10 n) \<Longrightarrow> isdigit c"
  using digits_isdigit by blast

lemma number_text5_clean: "\<forall>c \<in> set (number_text5 n). c \<noteq> NL \<and> c \<noteq> NUL"
  using digits_clean [of NL n] digits_clean [of NUL n] by (auto simp: number_text5_def blank_text_def isdigit_def)

lemma extractCtx_number:
  assumes "n < 100000"
  shows "extractCtx task (number_text5 n @ r) = task (of_nat n)"
proof -
  have nb: "digits_of 10 n \<noteq> [] \<and> hd (digits_of 10 n) \<noteq> CHR '' ''"
    using digits_clean [of "hd (digits_of 10 n)" n] by (auto simp: isdigit_def)
  then have drop: "dropWhile (\<lambda>c. c = CHR '' '') (digits_of 10 n @ '' '' @ r) = digits_of 10 n @ '' '' @ r"
    by (cases "digits_of 10 n") auto
  have blank: "dropWhile (\<lambda>c. c = CHR '' '') (blank_text k @ s) = dropWhile (\<lambda>c. c = CHR '' '') s" for k s
    by (induction k) (simp_all add: blank_text_def)
  have "strto_scan 10 (digits_of 10 n @ '' '' @ r) = Some (False, n, '' '' @ r)"
    by (rule strto_scan_digits) (auto simp: is_base_digit_def digit_val_def isdigit_def islower_def isupper_def)
  then have "fst (strtol 10 (digits_of 10 n @ '' '' @ r)) = int n"
    using assms by (simp add: strtol_def LONG_MAX_def LONG_MIN_def)
  moreover have "sint (word_of_int (int n) :: u32) = int n"
    using assms signed_take_bit_int_eq_self [of 31 "int n"] sint_sbintrunc' [of "int n", where ?'a = 32] by simp
  ultimately have "atoi (digits_of 10 n @ '' '' @ r) = int n" by (simp add: atoi_def)
  then show ?thesis using blank drop by (simp add: extractCtx_def number_text5_def)
qed

text \<open>The value of the last digits.\<close>

definition dec_value :: "nat \<Rightarrow> cstr \<Rightarrow> nat" where
  "dec_value acc s = foldl (\<lambda>a c. a * 10 + the (digit_val c)) acc s"

lemma dec_value_append: "dec_value acc s = acc * 10 ^ length s + dec_value 0 s"
proof (induction s rule: rev_induct)
  case (snoc c s)
  then show ?case by (simp add: dec_value_def algebra_simps)
qed (simp add: dec_value_def)

lemma dec_value_less: "\<forall>c \<in> set s. is_base_digit 10 c \<Longrightarrow> dec_value 0 s < 10 ^ length s"
proof (induction s rule: rev_induct)
  case (snoc c s)
  then have "dec_value 0 s < 10 ^ length s" "the (digit_val c) < 10" by (auto simp: is_base_digit_def split: option.splits)
  then show ?case by (simp add: dec_value_def)
qed (simp add: dec_value_def)

lemma dec_value_digits: "dec_value 0 (digits_of 10 n) = n"
  using digits_of_value [of 10 n] by (simp add: dec_value_def)

lemma dec_value_last:
  assumes "k \<le> length (digits_of 10 n)"
  shows "dec_value 0 (drop (length (digits_of 10 n) - k) (digits_of 10 n)) = n mod 10 ^ k"
proof -
  let ?d = "digits_of 10 n" let ?i = "length ?d - k"
  have "n = dec_value (dec_value 0 (take ?i ?d)) (drop ?i ?d)"
    using dec_value_digits [of n] foldl_append [of "\<lambda>a c. a * 10 + the (digit_val c)" 0 "take ?i ?d" "drop ?i ?d"]
    by (simp add: dec_value_def)
  also have "\<dots> = dec_value 0 (take ?i ?d) * 10 ^ k + dec_value 0 (drop ?i ?d)"
    using assms dec_value_append [of "dec_value 0 (take ?i ?d)" "drop ?i ?d"] by simp
  finally have "n mod 10 ^ k = dec_value 0 (drop ?i ?d) mod 10 ^ k" by (metis mod_mult_self3)
  moreover have "dec_value 0 (drop ?i ?d) < 10 ^ k"
    using dec_value_less [of "drop ?i ?d"] digits_of_base_digit [of 10 n] assms by (auto dest: in_set_dropD)
  ultimately show ?thesis by simp
qed

lemma atoi_decimal:
  assumes "\<forall>c \<in> set s. isdigit c" "s \<noteq> []" "dec_value 0 s < 2 ^ 31"
  shows "atoi (s @ '' '' @ r) = int (dec_value 0 s)"
proof -
  obtain c s' where cs: "s = c # s'" using assms(2) by (cases s) auto
  have c: "isdigit c" using assms(1) cs by simp
  then have sp: "\<not> isspace c" "c \<noteq> CHR ''-''" "c \<noteq> CHR ''+''" by (auto simp: isdigit_def isspace_def)
  have dig: "\<forall>c \<in> set s. is_base_digit 10 c" using assms(1) by (simp add: isdigit_base10)
  have "scan_digits 10 0 (s @ '' '' @ r) = (dec_value 0 s, '' '' @ r)"
    using scan_digits_all [OF dig, of "'' '' @ r" 0] by (simp add: dec_value_def is_base_digit_def digit_val_def isdigit_def islower_def isupper_def)
  then have "strto_scan 10 (s @ '' '' @ r) = Some (False, dec_value 0 s, '' '' @ r)"
    using sp dig by (simp add: strto_scan_def cs)
  then have "fst (strtol 10 (s @ '' '' @ r)) = int (dec_value 0 s)"
    using assms(3) by (simp add: strtol_def LONG_MAX_def LONG_MIN_def)
  moreover have "sint (word_of_int (int (dec_value 0 s)) :: u32) = int (dec_value 0 s)"
    using assms(3) signed_take_bit_int_eq_self [of 31 "int (dec_value 0 s)"]
      sint_sbintrunc' [of "int (dec_value 0 s)", where ?'a = 32] by simp
  ultimately show ?thesis by (simp add: atoi_def)
qed

text \<open>The program starts six characters before the place where the column goes.\<close>

lemma extractCtx_last:
  "extractCtx task (drop (length (number_text5 n) - 6) (number_text5 n) @ r) = task (of_nat (n mod 100000))"
proof (cases "n < 100000")
  case True
  then show ?thesis using length_number_text5 [OF True] extractCtx_number [OF True] by simp
next
  case False
  let ?d = "digits_of 10 n" let ?s = "drop (length ?d - 5) ?d"
  have len: "5 < length ?d" using power_le_length_digits_of [of 10 5 n] False by simp
  have "drop (length (number_text5 n) - 6) (number_text5 n) = ?s @ '' ''"
    using len by (simp add: number_text5_def blank_text_def)
  moreover have s: "\<forall>c \<in> set ?s. isdigit c" "?s \<noteq> []" using digits_clean len by (auto dest: in_set_dropD)
  moreover have v: "dec_value 0 ?s = n mod 100000" using dec_value_last [of 5 n] len by simp
  moreover have "dropWhile (\<lambda>c. c = CHR '' '') (?s @ '' '' @ r) = ?s @ '' '' @ r"
    using s by (cases ?s) (auto simp: isdigit_def)
  moreover have "n mod 100000 < 2 ^ 31"
  proof -
    have "n mod 100000 < 100000" by simp
    also have "(100000 :: nat) < 2 ^ 31" by simp
    finally show ?thesis .
  qed
  ultimately show ?thesis using atoi_decimal [OF s, of r] by (simp add: extractCtx_def)
qed

lemma line_end_clean: "\<forall>c \<in> set l. c \<noteq> NL \<and> c \<noteq> NUL \<Longrightarrow> line_end (p @ l @ NL # r) (length p) = length p + length l"
  by (simp add: line_end_def takeWhile_append2)

lemma number_text5_long: "6 \<le> length (number_text5 n)"
  by (simp add: number_text5_def blank_text_def)

lemma process_row_ok:
  assumes "row_ok w (p, n, q)" "ps_cache_ok name_of mapping" "6 \<le> length b0"
  shows "\<exists>mapping'. process_row task name_of (w + 6) (b0 @ row_text (p, n, q) @ NL # r) (length b0) (length b0 + length (row_text (p, n, q))) mapping =
      Some (row_out task name_of (p, n, q), mapping') \<and> ps_cache_ok name_of mapping'"
proof -
  let ?b = "b0 @ row_text (p, n, q) @ NL # r" and ?ctx = "task (of_nat (n mod 100000))"
  have w: "length p + length (number_text5 n) = w + 6" and cl: "\<forall>c \<in> set p \<union> set q. c \<noteq> NL \<and> c \<noteq> NUL" using assms(1) by auto
  have "extractCtx task (takeWhile (\<lambda>c. c \<noteq> NUL) (drop (length b0 + (w + 6) - 6) ?b)) = ?ctx"
  proof -
    have d: "drop (length b0 + (w + 6) - 6) ?b = drop (length (number_text5 n) - 6) (number_text5 n) @ q @ NL # r"
    proof -
      have "w - length p = length (number_text5 n) - 6" using w by linarith
      then show ?thesis using w number_text5_long [of n] by simp
    qed
    have "takeWhile (\<lambda>c. c \<noteq> NUL) (drop k (number_text5 n) @ s) = drop k (number_text5 n) @ takeWhile (\<lambda>c. c \<noteq> NUL) s" for k s
      using number_text5_clean [of n] by (intro takeWhile_append2) (auto dest: in_set_dropD)
    then show ?thesis unfolding d by (simp only: extractCtx_last)
  qed
  moreover obtain name mapping' where res: "resolveCtx name_of ?ctx mapping = (name, mapping')"
    by (cases "resolveCtx name_of ?ctx mapping")
  moreover have "write_range ?b (length b0) (length b0 + (w + 6)) = Some (p @ number_text5 n)"
    using w by (simp add: write_range_def)
  moreover have "write_range ?b (length b0 + (w + 6)) (length b0 + length (row_text (p, n, q))) = Some q"
    using w by (simp add: write_range_def flip: w)
  ultimately show ?thesis
    using resolveCtx_transparent [OF assms(2), of ?ctx] by (simp add: process_row_def Let_def)
qed

lemma process_rows_ok:
  assumes "\<forall>r \<in> set rs. row_ok w r" "ps_cache_ok name_of mapping" "6 \<le> length b0"
  shows "process_rows task name_of (w + 6) (b0 @ rows_text rs) (length b0) mapping = Some (concat (map (row_out task name_of) rs))"
  using assms
proof (induction rs arbitrary: b0 mapping)
  case Nil
  then show ?case by (subst process_rows.simps) simp
next
  case (Cons r rs)
  obtain p n q where r: "r = (p, n, q)" by (cases r)
  let ?l = "row_text r" and ?b = "b0 @ rows_text (r # rs)"
  have clean: "\<forall>c \<in> set ?l. c \<noteq> NL \<and> c \<noteq> NUL"
    using Cons.prems(1) number_text5_clean [of n] by (simp add: r ball_Un)
  have eol: "line_end ?b (length b0) = length b0 + length ?l"
    using line_end_clean [OF clean, of b0 "rows_text rs"] by simp
  have nl: "?b ! (length b0 + length ?l) = NL" by (simp add: nth_append)
  from process_row_ok [of w p n q name_of mapping b0 task "rows_text rs"] Cons.prems obtain mapping' where
    row: "process_row task name_of (w + 6) ?b (length b0) (length b0 + length ?l) mapping = Some (row_out task name_of r, mapping')"
      "ps_cache_ok name_of mapping'" by (auto simp: r)
  have "process_rows task name_of (w + 6) ?b (length b0 + length ?l + 1) mapping' = Some (concat (map (row_out task name_of) rs))"
    using Cons.IH [of mapping' "b0 @ ?l @ [NL]"] Cons.prems row(2) by simp
  then show ?case
    using row(1) eol nl by (subst process_rows.simps) (simp add: Let_def)
qed



end
