(* ===== verification/VserverInfo.thy ===== *)
theory VserverInfo
  imports VserverCfg SysSpace NetTools MatchList Contexts
begin

text \<open>
  \<^verbatim>\<open>vserver-info\<close>, with which the scripts ask for one property of a guest, a process or the kernel. A query prints
  one line and exits with 0, or prints nothing and exits with 1.
\<close>

section \<open>Tags\<close>

datatype VserverTag =
    tgNONE | tgCONTEXT | tgID | tgRUNNING | tgVDIR | tgNAME | tgCFGDIR | tgAPPDIR | tgAPIVER | tgPXID | tgINITPID
  | tgINITPID_PID | tgXID | tgUTS | tgSYSINFO | tgFEATURE | tgCANONIFY | tgVERIFYCAP | tgXIDTYPE | tgVERIFYPROC | tgNID
  | tgTAG

definition TAGS :: "(cstr \<times> VserverTag) list" where
  "TAGS =
     [(''CONTEXT'', tgCONTEXT), (''ID'', tgID), (''RUNNING'', tgRUNNING), (''VDIR'', tgVDIR), (''NAME'', tgNAME),
      (''CFGDIR'', tgCFGDIR), (''APPDIR'', tgAPPDIR), (''INITPID'', tgINITPID), (''INITPID_PID'', tgINITPID_PID),
      (''XID'', tgXID), (''APIVER'', tgAPIVER), (''UTS'', tgUTS), (''SYSINFO'', tgSYSINFO), (''FEATURE'', tgFEATURE),
      (''PXID'', tgPXID), (''CANONIFY'', tgCANONIFY), (''VERIFYCAP'', tgVERIFYCAP), (''VERIFYPROC'', tgVERIFYPROC),
      (''XIDTYPE'', tgXIDTYPE), (''NID'', tgNID), (''TAG'', tgTAG)]"

definition showTags :: cstr where
  "showTags = ''Valid tags are: '' @ fst (hd TAGS) @ concat (map (\<lambda>x. '', '' @ fst x) (tl TAGS)) @ [NL]"

definition stringToTag :: "cstr \<Rightarrow> VserverTag" where
  "stringToTag str = (case map_of TAGS str of None \<Rightarrow> tgNONE | Some t \<Rightarrow> t)"

definition utsText2Tag :: "cstr \<Rightarrow> vc_uts_type option" where
  "utsText2Tag str = map_of
     [(''context'', vcVHI_CONTEXT), (''sysname'', vcVHI_SYSNAME), (''nodename'', vcVHI_NODENAME),
      (''release'', vcVHI_RELEASE), (''version'', vcVHI_VERSION), (''machine'', vcVHI_MACHINE),
      (''domainname'', vcVHI_DOMAINNAME)] str"

section \<open>The system\<close>

text \<open>
  What the program asks the system and the library. \<open>vi_getctx\<close> stands for \<^verbatim>\<open>vc_getVserverCtx\<close> with automatic style,
  \<open>vi_status\<close> for the files \<^verbatim>\<open>/proc/<pid>/status\<close>, in the order of \<^verbatim>\<open>scandir\<close>.
\<close>

record info_env =
  vi_host :: host
  vi_junk :: "nat \<Rightarrow> char"
  vi_task :: xid_t
  vi_getctx :: "cstr \<Rightarrow> bool \<Rightarrow> vcCtxType \<Rightarrow> xid_t"
  vi_task_xid :: "u32 \<Rightarrow> xid_t"
  vi_task_nid :: "u32 \<Rightarrow> xid_t"
  vi_task_tag :: "u32 \<Rightarrow> xid_t"
  vi_init_of :: "xid_t \<Rightarrow> u32 option"
  vi_vhi_name :: "xid_t \<Rightarrow> vc_uts_type \<Rightarrow> cstr option"
  vi_compat_config :: u32
  vi_legacy :: bool
  vi_status :: "cstr option list"
  vi_release :: "cstr option"
  vi_package :: cstr
  vi_features :: "cstr option"
  vi_migrate :: bool
  vi_new_context :: bool
  vi_uptime :: bool
  vi_uid :: u32
  vi_capget :: "nat \<Rightarrow> bool \<times> nat"
  vi_capset :: "nat \<Rightarrow> bool"
  vi_chroot_root :: bool
  vi_dev_null :: bool

definition vi_kernel :: "info_env \<Rightarrow> kernel_info" where
  "vi_kernel v = h_kernel (vi_host v)"

section \<open>Numbers\<close>

definition zero_padded :: "nat \<Rightarrow> cstr \<Rightarrow> cstr" where
  "zero_padded n s = ''0x'' @ replicate (n - length s) CHR ''0'' @ s"

definition getAPIVer :: "info_env \<Rightarrow> cstr option" where
  "getAPIVer v =
     (let ver = k_version (vi_kernel v)
      in if ver = - 1 then None else Some (zero_padded 8 (snd (the (fmt_xuint True (word_of_int ver :: u32))))))"

text \<open>The configuration of the kernel has 64 bits; its lower half is printed.\<close>

definition getAPIConfig :: "info_env \<Rightarrow> cstr option" where
  "getAPIConfig v =
     (let vci = k_vci (vi_kernel v)
      in if vci = - 1 then None else Some (zero_padded 16 (snd (the (fmt_xuint True (ucast vci :: u32))))))"

definition id_text :: "xid_t \<Rightarrow> cstr" where
  "id_text x = digits_of 10 (unat x)"

definition pid_text :: "u32 \<Rightarrow> cstr" where
  "pid_text p = snd (the (fmt_int True p))"

definition getCtxId :: "cstr \<Rightarrow> (u32 \<Rightarrow> xid_t) \<Rightarrow> cstr option" where
  "getCtxId pid_str get_id =
     (let ctx = get_id (word_of_int (atoi pid_str)) in if ctx = VC_NOCTX then None else Some (id_text ctx))"

section \<open>The process with number 1\<close>

text \<open>
  On old kernels it is looked up in the status files. A search that fails in \<^verbatim>\<open>utilvserver_getProcEntry\<close> adds the
  length of the text to a null pointer; \<open>Pid_crash\<close> is the use of it. When no number is found the file is read again.
\<close>

datatype pid_search = Pid_crash | Pid_endless | Pid_other | Pid_found u32

definition getInitPid_internal :: "xid_t \<Rightarrow> cstr option \<Rightarrow> pid_search" where
  "getInitPid_internal ctx status =
     (case status of
        None \<Rightarrow> Pid_other
      | Some text \<Rightarrow>
          (case strstr text (NL # ''s_context: '') of
             None \<Rightarrow> Pid_crash
           | Some i \<Rightarrow>
               if (word_of_int (atoi (drop (i + 12) text)) :: xid_t) \<noteq> ctx then Pid_other
               else (case strstr text (NL # ''initpid: '') of
                       None \<Rightarrow> Pid_endless
                     | Some j \<Rightarrow>
                         (let pos = drop (j + 10) text; pid = word_of_int (atoi pos)
                          in if strncmp 4 pos ''none'' = 0 \<or> pid = - 1 then Pid_endless else Pid_found pid))))"

fun search_pids :: "xid_t \<Rightarrow> cstr option list \<Rightarrow> pid_search" where
  "search_pids ctx [] = Pid_other"
| "search_pids ctx (s # ss) =
     (case getInitPid_internal ctx s of Pid_other \<Rightarrow> search_pids ctx ss | r \<Rightarrow> r)"

text \<open>\<open>None\<close> is a crash or no end; \<open>Some None\<close> a failure. The list of processes is gone through from its end.\<close>

definition getInitPid_emulated :: "info_env \<Rightarrow> xid_t \<Rightarrow> cstr option option" where
  "getInitPid_emulated v ctx =
     (if \<not> vi_legacy v then Some None
      else case search_pids ctx (rev (vi_status v)) of
             Pid_found p \<Rightarrow> Some (Some (pid_text p))
           | Pid_other \<Rightarrow> Some None
           | _ \<Rightarrow> None)"

definition getInitPid_native :: "info_env \<Rightarrow> xid_t \<Rightarrow> cstr option" where
  "getInitPid_native v ctx = map_option pid_text (vi_init_of v ctx)"

definition getInitPid :: "info_env \<Rightarrow> xid_t \<Rightarrow> cstr option option" where
  "getInitPid v ctx =
     (if vc_isSupported (vi_kernel v) vcFEATURE_VINFO then Some (getInitPid_native v ctx) else getInitPid_emulated v ctx)"

definition getInitPidPid :: "info_env \<Rightarrow> cstr \<Rightarrow> cstr option" where
  "getInitPidPid v vs_name =
     (let ctx = vi_task_xid v (word_of_int (atoi vs_name))
      in if ctx = VC_NOCTX then None else map_option pid_text (vi_init_of v ctx))"

section \<open>Names of hosts\<close>

text \<open>
  A name is copied up to \<open>n\<close> characters, and at most the 65 of the kernel. For a single name the code takes the size of
  a pointer instead of that of the buffer.
\<close>

definition uts_name :: "info_env \<Rightarrow> xid_t \<Rightarrow> vc_uts_type \<Rightarrow> nat \<Rightarrow> cstr option" where
  "uts_name v ctx type n = map_option (take (min VHI_SIZE n)) (vi_vhi_name v ctx type)"

definition UTS_NAMES :: "vc_uts_type list" where
  "UTS_NAMES = [vcVHI_CONTEXT, vcVHI_SYSNAME, vcVHI_NODENAME, vcVHI_RELEASE, vcVHI_VERSION, vcVHI_MACHINE, vcVHI_DOMAINNAME]"

definition pointer_size :: nat where "pointer_size = 8"

text \<open>The first component: the exit of the program.\<close>

definition getUTS :: "info_env \<Rightarrow> xid_t \<Rightarrow> cstr list \<Rightarrow> int + cstr option" where
  "getUTS v ctx args =
     (case args of
        a # _ \<Rightarrow>
          (case utsText2Tag a of
             None \<Rightarrow> Inl 1
           | Some type \<Rightarrow> Inr (uts_name v ctx type (pointer_size - 1)))
      | [] \<Rightarrow>
          (let names = map (\<lambda>t. uts_name v ctx t 127) UTS_NAMES
           in if \<forall>n \<in> set names. n = None then Inr None
              else Inr (Some (concat (map (\<lambda>n. case n of None \<Rightarrow> ''??? '' | Some s \<Rightarrow> s @ '' '') names)))))"

section \<open>Checks\<close>

definition verifyProc :: "info_env \<Rightarrow> bool" where
  "verifyProc v \<longleftrightarrow>
     (vi_task v = 1 \<or>
      (if vc_isSupported (vi_kernel v) vcFEATURE_MIGRATE then vi_migrate v else api_compat (vi_host v) \<and> vi_new_context v)) \<and>
     vi_uptime v"

definition CAPABILITY_VERSION_1 :: nat where "CAPABILITY_VERSION_1 = 0x19980330"
definition CAPABILITY_VERSION_3 :: nat where "CAPABILITY_VERSION_3 = 0x20080522"

text \<open>
  The version for which the capabilities could be read; the kernel answers a version it does not know with the one it
  prefers. \<open>vi_chroot_root\<close> says whether the change of the root succeeds without capabilities.
\<close>

definition capget_version :: "(nat \<Rightarrow> bool \<times> nat) \<Rightarrow> nat option" where
  "capget_version capget =
     (case capget CAPABILITY_VERSION_3 of
        (True, ver) \<Rightarrow> Some ver
      | (False, ver) \<Rightarrow>
          if ver \<noteq> CAPABILITY_VERSION_3 \<and> fst (capget CAPABILITY_VERSION_1)
          then Some (snd (capget CAPABILITY_VERSION_1)) else None)"

definition verifyCap :: "info_env \<Rightarrow> bool" where
  "verifyCap v \<longleftrightarrow>
     vi_uid v = 0 \<and>
     (case capget_version (vi_capget v) of None \<Rightarrow> False | Some ver \<Rightarrow> vi_capset v ver \<and> \<not> vi_chroot_root v)"

definition getXIDType :: "info_env \<Rightarrow> xid_t \<Rightarrow> cstr list \<Rightarrow> cstr option" where
  "getXIDType v ctx args =
     (let tp = (case fst (vc_getXIDType (vi_compat_config v) ctx 0) of
                  vcTYPE_INVALID \<Rightarrow> ''invalid''
                | vcTYPE_MAIN \<Rightarrow> ''main''
                | vcTYPE_WATCH \<Rightarrow> ''watch''
                | vcTYPE_STATIC \<Rightarrow> ''static''
                | vcTYPE_DYNAMIC \<Rightarrow> ''dynamic'')
      in if args = [] \<or> (\<exists>a \<in> set args. strcasecmp a tp = 0) then Some tp else None)"

definition testFeature :: "info_env \<Rightarrow> cstr list \<Rightarrow> bool" where
  "testFeature v args \<longleftrightarrow> (case args of [] \<Rightarrow> False | a # _ \<Rightarrow> vc_isSupportedString (vi_kernel v) a)"

text \<open>\<^verbatim>\<open>strchr\<close> finds the terminator of its string, too.\<close>

definition str2bool :: "cstr \<Rightarrow> bool" where
  "str2bool s \<longleftrightarrow> atoi s \<noteq> 0 \<or> deref s \<in> set ''yYtT'' \<union> {NUL} \<or> strcasecmp ''true'' s = 0"

definition getContext :: "info_env \<Rightarrow> cstr \<Rightarrow> bool \<Rightarrow> cstr option" where
  "getContext v vs_name allow_only_static =
     (let ctx = vi_getctx v vs_name allow_only_static vcCTX_XID in if ctx = VC_NOCTX then None else Some (id_text ctx))"

definition or_unknown :: "cstr option \<Rightarrow> cstr" where
  "or_unknown r = (case r of None \<Rightarrow> ''???'' | Some s \<Rightarrow> s)"

definition spaces_text :: "nat \<Rightarrow> cstr" where
  "spaces_text n = replicate n CHR '' ''"

definition printSysInfo :: "info_env \<Rightarrow> cstr" where
  "printSysInfo v =
     (case vi_release v of
        None \<Rightarrow> []
      | Some r \<Rightarrow>
          ''Versions:'' @ [NL] @ spaces_text 19 @ ''Kernel: '' @ r @ [NL] @
          spaces_text 19 @ ''VS-API: '' @ or_unknown (getAPIVer v) @ [NL] @
          spaces_text 22 @ ''VCI: '' @ or_unknown (getAPIConfig v) @ [NL] @
          spaces_text 13 @ ''util-vserver: '' @ vi_package v @ [NL, NL]) @
     (case vi_features v of None \<Rightarrow> ''FEATURES.txt not found'' @ [NL] | Some f \<Rightarrow> f)"

section \<open>Queries\<close>

definition query_running :: "info_env \<Rightarrow> cstr \<Rightarrow> bool" where
  "query_running v vs_name =
     (case isNumber vs_name True of
        Some x \<Rightarrow> if x \<ge> 0 then vi_init_of v (word_of_int x) \<noteq> None else vi_getctx v vs_name False vcCTX_XID \<noteq> VC_NOCTX
      | None \<Rightarrow> vi_getctx v vs_name False vcCTX_XID \<noteq> VC_NOCTX)"

definition vserver_xid :: "info_env \<Rightarrow> cstr \<Rightarrow> xid_t" where
  "vserver_xid v vs_name =
     (if vs_name = [] then VC_SAMECTX else fst (vc_xidopt2xid (vi_task v) (vi_getctx v) vs_name True))"

text \<open>The answer: an exit without a line, or a line if there is one; \<open>None\<close> is a crash or no end.\<close>

definition answer_of :: "info_env \<Rightarrow> cstr \<Rightarrow> VserverTag \<Rightarrow> cstr list \<Rightarrow> (int + cstr option) option" where
  "answer_of v vs_name tag args =
     (let h = vi_host v; junk = vi_junk v; line = (\<lambda>r. Some (Inr r)); status = (\<lambda>b. Some (Inl (if b then 0 else 1)))
      in case tag of
           tgNAME \<Rightarrow> map_option Inr (vc_getVserverName h junk vs_name vcCFG_AUTO)
         | tgVDIR \<Rightarrow> map_option Inr (vc_getVserverVdir h junk vs_name vcCFG_AUTO (args \<noteq> [] \<and> atoi (hd args) \<noteq> 0))
         | tgCFGDIR \<Rightarrow> map_option Inr (vc_getVserverCfgDir h junk vs_name vcCFG_AUTO)
         | tgAPPDIR \<Rightarrow> map_option Inr (vc_getVserverAppDir h junk vs_name vcCFG_AUTO (case args of [] \<Rightarrow> [] | a # _ \<Rightarrow> a))
         | tgRUNNING \<Rightarrow> line (if query_running v vs_name then Some ''1'' else None)
         | tgCANONIFY \<Rightarrow> line (if snd (canonifyVserverName vs_name) > 0 then Some (fst (canonifyVserverName vs_name)) else None)
         | tgCONTEXT \<Rightarrow> line (getContext v vs_name (args = [] \<or> str2bool (hd args)))
         | tgINITPID_PID \<Rightarrow> line (getInitPidPid v vs_name)
         | tgAPIVER \<Rightarrow> line (getAPIVer v)
         | tgXID \<Rightarrow> line (getCtxId vs_name (vi_task_xid v))
         | tgPXID \<Rightarrow> line None
         | tgSYSINFO \<Rightarrow> status True
         | tgFEATURE \<Rightarrow> status (testFeature v args)
         | tgVERIFYCAP \<Rightarrow> status (verifyCap v)
         | tgVERIFYPROC \<Rightarrow> status (verifyProc v)
         | tgNID \<Rightarrow> line (getCtxId vs_name (vi_task_nid v))
         | tgTAG \<Rightarrow> line (getCtxId vs_name (vi_task_tag v))
         | tgID \<Rightarrow> map_option (Inr \<circ> fst) (vc_getVserverByCtx h junk (vserver_xid v vs_name) None None)
         | tgINITPID \<Rightarrow> map_option Inr (getInitPid v (vserver_xid v vs_name))
         | tgUTS \<Rightarrow> Some (getUTS v (vserver_xid v vs_name) args)
         | tgXIDTYPE \<Rightarrow> line (getXIDType v (vserver_xid v vs_name) args)
         | tgNONE \<Rightarrow> None)"

definition execQuery :: "info_env \<Rightarrow> cstr \<Rightarrow> VserverTag \<Rightarrow> cstr list \<Rightarrow> (int \<times> cstr) option" where
  "execQuery v vs_name tag args =
     map_option
       (\<lambda>a. case a of
          Inl c \<Rightarrow> (c, if tag = tgSYSINFO then printSysInfo v else [])
        | Inr None \<Rightarrow> (1, [])
        | Inr (Some s) \<Rightarrow> (0, s @ [NL]))
       (answer_of v vs_name tag args)"

datatype info_opt = InHelp | InVersion | InList | InQuiet | InOther

fun info_option :: "info_opt \<Rightarrow> bool \<Rightarrow> (int \<times> cstr) + bool" where
  "info_option InHelp q = Inl (0, [])"
| "info_option InVersion q = Inl (0, [])"
| "info_option InList q = Inl (0, showTags)"
| "info_option InQuiet q = Inr True"
| "info_option InOther q = Inl (1, [])"

fun info_options :: "info_opt list \<Rightarrow> bool \<Rightarrow> (int \<times> cstr) + bool" where
  "info_options [] q = Inr q"
| "info_options (o1 # os) q = (case info_option o1 q of Inl e \<Rightarrow> Inl e | Inr q' \<Rightarrow> info_options os q')"

definition vserver_info :: "info_env \<Rightarrow> info_opt list \<Rightarrow> cstr list \<Rightarrow> (int \<times> cstr) option" where
  "vserver_info v opts args =
     (case info_options opts False of
        Inl e \<Rightarrow> Some e
      | Inr quiet \<Rightarrow>
          (case args of
             vs_name # t # rest \<Rightarrow>
               (let tag = stringToTag t
                in if tag = tgNONE then Some (1, [])
                   else if quiet \<and> \<not> vi_dev_null v then Some (1, [])
                   else map_option (\<lambda>(c, out). (c, if quiet then [] else out)) (execQuery v vs_name tag rest))
           | _ \<Rightarrow> Some (0, printSysInfo v)))"

section \<open>What the answers say\<close>

lemma scan_zeros: "scan_digits 16 0 (replicate k CHR ''0'' @ s) = scan_digits 16 0 s"
  by (induction k) (simp_all add: is_base_digit_def digit_val_def isdigit_def)

text \<open>The version that is printed has ten characters and is read back by \<^verbatim>\<open>strtoul\<close>.\<close>

lemma zero_padded_read:
  assumes "length (digits_of 16 v) \<le> n" "int v \<le> ULONG_MAX"
  shows "length (zero_padded n (digits_of 16 v)) = n + 2"
    "strtoul 16 (zero_padded n (digits_of 16 v)) = (int v, [], False)"
proof -
  let ?s = "digits_of 16 v" and ?z = "replicate (n - length (digits_of 16 v)) CHR ''0''"
  show "length (zero_padded n ?s) = n + 2" using assms(1) by (simp add: zero_padded_def)
  have dig: "\<forall>c \<in> set ?s. is_base_digit 16 c" by (simp add: digits_of_base_digit)
  have "scan_digits 16 0 (?z @ ?s) = (v, [])"
    using scan_digits_all [of ?s 16 "[]" 0] dig digits_of_value [of 16 v] by (simp add: scan_zeros)
  moreover have "is_base_digit 16 (deref (?z @ ?s))" "?z @ ?s \<noteq> []"
    using dig by (cases "n - length ?s"; cases ?s; simp add: is_base_digit_def digit_val_def isdigit_def)+
  then obtain d r where "?z @ ?s = d # r" "is_base_digit 16 d" by (cases "?z @ ?s") auto
  ultimately have "strto_scan 16 (''0x'' @ ?z @ ?s) = Some (False, v, [])"
    by (simp add: strto_scan_def has_hex_prefix_def isspace_def tolower_def isupper_def)
  then show "strtoul 16 (zero_padded n ?s) = (int v, [], False)"
    using assms(2) by (simp add: strtoul_def zero_padded_def)
qed

lemma getAPIVer_read:
  assumes "getAPIVer v = Some s"
  shows "length s = 10 \<and> strtoul 16 s = (k_version (vi_kernel v) mod 2 ^ 32, [], False)"
proof -
  let ?w = "word_of_int (k_version (vi_kernel v)) :: u32"
  have s: "s = zero_padded 8 (digits_of 16 (unat ?w))"
    using assms fmt_xuint_result [of 4 True ?w] by (auto simp: getAPIVer_def Let_def fmt_result_def split: if_splits)
  have "unat ?w < 2 ^ 32" using unsigned_less [of ?w] by simp
  then have "length (digits_of 16 (unat ?w)) \<le> 8" by (intro length_digits_of) simp_all
  moreover have "int (unat ?w) \<le> ULONG_MAX"
    using unsigned_less [of ?w, where 'a = int] by (simp add: ULONG_MAX_def)
  ultimately show ?thesis using zero_padded_read [of "unat ?w" 8]
    by (simp add: s take_bit_eq_mod unsigned_of_int)
qed

text \<open>Two kernels that differ in the upper half of their configuration are not told apart.\<close>

lemma getAPIConfig_lower:
  assumes "take_bit 32 (k_vci (vi_kernel v)) = take_bit 32 (k_vci (vi_kernel w))"
    "k_vci (vi_kernel v) \<noteq> - 1" "k_vci (vi_kernel w) \<noteq> - 1"
  shows "getAPIConfig v = getAPIConfig w"
proof -
  have "bit (k_vci (vi_kernel v)) n = bit (k_vci (vi_kernel w)) n" if "n < 32" for n
    using arg_cong [OF assms(1), of "\<lambda>z. bit z n"] that by (simp add: bit_take_bit_iff)
  then have "(ucast (k_vci (vi_kernel v)) :: u32) = ucast (k_vci (vi_kernel w))"
    by (intro bit_word_eqI) (simp add: bit_simps)
  then show ?thesis using assms(2,3) by (simp add: getAPIConfig_def Let_def)
qed

text \<open>A name of a host is cut after seven characters when it is asked for alone, but not in the list of all.\<close>

lemma getUTS_cut:
  assumes "utsText2Tag a = Some type" "vi_vhi_name v ctx type = Some s"
  shows "getUTS v ctx (a # as) = Inr (Some (take 7 s))"
  using assms by (simp add: getUTS_def uts_name_def VHI_SIZE_def pointer_size_def)

text \<open>The list of all names fits the buffer of 1024 characters.\<close>

lemma getUTS_fits: "getUTS v ctx [] = Inr (Some s) \<Longrightarrow> length s < 1024"
proof -
  assume "getUTS v ctx [] = Inr (Some s)"
  then have s: "s = concat (map (\<lambda>n. case n of None \<Rightarrow> ''??? '' | Some s \<Rightarrow> s @ '' '') (map (\<lambda>t. uts_name v ctx t 127) UTS_NAMES))"
    by (simp add: getUTS_def Let_def split: if_splits)
  have len: "length (case uts_name v ctx t 127 of None \<Rightarrow> ''??? '' | Some s \<Rightarrow> s @ '' '') \<le> 66" for t
    by (auto simp: uts_name_def VHI_SIZE_def split: option.split)
  have "length (concat (map f ts)) \<le> 66 * length ts" if "\<And>t. length (f t) \<le> 66" for f :: "vc_uts_type \<Rightarrow> cstr" and ts
    by (induction ts) (use that in \<open>auto intro: add_mono\<close>)
  from this [of "\<lambda>t. case uts_name v ctx t 127 of None \<Rightarrow> ''??? '' | Some s \<Rightarrow> s @ '' ''" UTS_NAMES, OF len]
  show ?thesis by (simp add: s comp_def UTS_NAMES_def)
qed

text \<open>An empty word is taken as true, and an option that is neither a number nor a name as the context of no guest.\<close>

lemma str2bool_empty: "str2bool []"
  by (simp add: str2bool_def)

text \<open>A status file without a context crashes the search, and one with the context and no number keeps it going.\<close>

lemma getInitPid_no_context: "strstr text (NL # ''s_context: '') = None \<Longrightarrow> getInitPid_internal ctx (Some text) = Pid_crash"
  by (simp add: getInitPid_internal_def)

lemma getInitPid_none:
  "getInitPid_internal 49 (Some (''Name: init'' @ NL # ''s_context: 49'' @ NL # ''initpid: none'' @ [NL])) = Pid_endless"
  by code_simp

end
