(* ===== verification/Vclone.thy ===== *)
theory Vclone
  imports Vunify Mkdir NumParse
begin

text \<open>
  \<^verbatim>\<open>vclone\<close>, which makes a new vserver from an existing one: files that are already unified are linked, all others
  copied. The world, the walk and the file system are those of \<^verbatim>\<open>vunify\<close> and \<^verbatim>\<open>vcopy\<close>; the state of the walk has the one
  list of excluded files, whose skip depth this program changes itself.
\<close>

section \<open>One entry\<close>

text \<open>
  \<open>get_iattr\<close> answers the attributes of a file, \<open>set_ctx\<close> what the change of its context fails with. The first component
  is the result, or the exit of the program in \<^verbatim>\<open>Elink\<close>; the second one says whether the entry is a directory.
\<close>

record clone_env =
  cl_world :: world
  cl_iattr :: "cstr \<Rightarrow> (u32 \<times> u32) option"
  cl_set_ctx :: "fs \<Rightarrow> cstr \<Rightarrow> errno option"
  cl_ctx :: xid_t
  cl_src :: cstr
  cl_dst :: cstr

definition clone_object :: "clone_env \<Rightarrow> cstr \<Rightarrow> stat \<Rightarrow> cstr \<Rightarrow> fs \<Rightarrow> bool option \<times> fs" where
  "clone_object c src st dst fs =
     (let env = w_env (cl_world c)
      in if st_type st = S_REG \<and> Unify_isIUnlinkable (cl_iattr c) src = unifyBUSY
         then (case sys_link env src dst fs of (False, f) \<Rightarrow> (None, f) | (True, f) \<Rightarrow> (Some True, f))
         else (case Unify_copy env src st dst fs of
                 (False, f) \<Rightarrow> (Some False, f)
               | (True, f) \<Rightarrow>
                   (Some (st_type st = S_SOCK \<or> cl_ctx c = VC_NOCTX \<or>
                          (case cl_set_ctx c f dst of None \<Rightarrow> True | Some e \<Rightarrow> e = EINVAL)), f)))"

definition handleDirEntry :: "clone_env \<Rightarrow> MatchList \<Rightarrow> cstr \<Rightarrow> fs \<Rightarrow> (bool option \<times> bool) \<times> fs" where
  "handleDirEntry c excludes path fs =
     (let w = cl_world c; dst = PathInfo_append (cl_dst c) path
      in case w_here w fs path of
           None \<Rightarrow> ((Some False, False), fs)
         | Some st \<Rightarrow>
             (let is_dir = (st_type st = S_DIR)
              in if MatchList_compare (w_fnmatch w) excludes path \<noteq> stINCLUDE then ((Some True, is_dir), fs)
                 else if names fs dst \<noteq> None \<and> \<not> refuses (w_env w) (c_lstat dst) fs then ((Some True, is_dir), fs)
                 else
                   (let f = (if skip_depth excludes > 0 then snd (mkdirRecursive (sys_mkdir (w_env w)) dst fs) else fs);
                        (r, g) = clone_object c (PathInfo_append (cl_src c) path) st dst f
                    in ((r, is_dir), g))))"

definition clone_visitDirEntry ::
  "clone_env \<Rightarrow> (cstr \<Rightarrow> cstr \<Rightarrow> MatchList list \<Rightarrow> fs \<Rightarrow> walk) \<Rightarrow> cstr \<Rightarrow> cstr \<Rightarrow> MatchList list \<Rightarrow> fs \<Rightarrow> walk" where
  "clone_visitDirEntry c visit state dirname mls fs =
     (if isDotfile dirname then Walked 0 mls fs
      else
        (case handleDirEntry c (hd mls) (PathInfo_append state dirname) fs of
           ((None, _), f) \<Rightarrow> Died f
         | ((Some ok, is_dir), f) \<Rightarrow>
             (let res = (if ok then 0 else 1); m = hd mls
              in if \<not> is_dir then Walked res mls f
                 else
                   (let m1 = (if res > 0 \<or> skip_depth m > 0 then m\<lparr>skip_depth := skip_depth m + 1\<rparr> else m)
                    in case visit state dirname [m1] f of
                         Walked r l g \<Rightarrow>
                           (let m2 = hd l
                            in Walked (res + r) [if skip_depth m2 > 0 then m2\<lparr>skip_depth := skip_depth m2 - 1\<rparr> else m2] g)
                       | e \<Rightarrow> e))))"

primrec clone_visitDir :: "nat \<Rightarrow> clone_env \<Rightarrow> cstr \<Rightarrow> cstr \<Rightarrow> MatchList list \<Rightarrow> fs \<Rightarrow> walk" where
  "clone_visitDir 0 = (\<lambda>c state name mls fs. OutOfFuel)"
| "clone_visitDir (Suc n) =
     (\<lambda>c state name mls fs.
        let state' = PathInfo_append state name; w = cl_world c
        in if \<not> w_chdir w state' then Died fs
           else visit_loop (clone_visitDirEntry c (clone_visitDir n c) state') (w_readdir w state') 0 mls fs)"

section \<open>The program\<close>

datatype clone_opt = ClHelp | ClVersion | ClVerbose | ClExclude cstr | ClXid xid_t | ClOther

record clone_args =
  ca_ctx :: xid_t
  ca_exclude :: "cstr option"

fun clone_option :: "clone_opt \<Rightarrow> clone_args \<Rightarrow> int + clone_args" where
  "clone_option ClHelp a = Inl 0"
| "clone_option ClVersion a = Inl 0"
| "clone_option ClVerbose a = Inr a"
| "clone_option (ClExclude f) a = Inr (a\<lparr>ca_exclude := Some f\<rparr>)"
| "clone_option (ClXid x) a = (if x = VC_NOCTX then Inl 1 else Inr (a\<lparr>ca_ctx := x\<rparr>))"
| "clone_option ClOther a = Inl 1"

fun clone_options :: "clone_opt list \<Rightarrow> clone_args \<Rightarrow> int + clone_args" where
  "clone_options [] a = Inr a"
| "clone_options (p # ps) a = (case clone_option p a of Inl e \<Rightarrow> Inl e | Inr a' \<Rightarrow> clone_options ps a')"

text \<open>\<open>excl\<close> makes the list of excluded files for the source; \<open>None\<close> of the result is a lack of fuel.\<close>

definition vclone ::
  "nat \<Rightarrow> clone_env \<Rightarrow> (cstr \<Rightarrow> cstr \<Rightarrow> MatchList) \<Rightarrow> clone_opt list \<Rightarrow> cstr list \<Rightarrow> fs \<Rightarrow> (int \<times> fs) option" where
  "vclone n c excl opts args fs =
     (case clone_options opts \<lparr>ca_ctx = VC_NOCTX, ca_exclude = None\<rparr> of
        Inl e \<Rightarrow> Some (e, fs)
      | Inr a \<Rightarrow>
          (case args of
             [src, dst] \<Rightarrow>
               if deref dst \<noteq> CHR ''/'' then Some (1, fs)
               else
                 (let m = (case ca_exclude a of None \<Rightarrow> MatchList_init src 0 | Some e \<Rightarrow> excl src e)
                  in case clone_visitDir n (c\<lparr>cl_ctx := ca_ctx a, cl_src := src, cl_dst := dst\<rparr>) [] ''/'' [m] fs of
                       Walked r _ f \<Rightarrow> Some (if r > 0 then 1 else 0, f)
                     | Died f \<Rightarrow> Some (1, f)
                     | OutOfFuel \<Rightarrow> None)
           | _ \<Rightarrow> Some (1, fs)))"

section \<open>Nothing is changed\<close>

text \<open>Names and files only come in addition.\<close>

definition grows :: "fs \<Rightarrow> fs \<Rightarrow> bool" where
  "grows f g \<longleftrightarrow> (wf_fs f \<longrightarrow> wf_fs g \<and> keeps {} f g)"

lemma grows_refl [simp]: "grows f f"
  by (simp add: grows_def)

lemma grows_trans: "grows f g \<Longrightarrow> grows g h \<Longrightarrow> grows f h"
  unfolding grows_def using keeps_trans by blast

text \<open>Making directories does not even touch what is there.\<close>

definition only_adds :: "fs \<Rightarrow> fs \<Rightarrow> bool" where
  "only_adds f g \<longleftrightarrow>
     (wf_fs f \<longrightarrow> wf_fs g \<and> fs_dev g = fs_dev f \<and> (\<forall>n. names f n \<noteq> None \<longrightarrow> names g n = names f n) \<and>
        (\<forall>i. inodes f i \<noteq> None \<longrightarrow> inodes g i = inodes f i))"

lemma only_adds_refl [simp]: "only_adds f f"
  by (simp add: only_adds_def)

lemma only_adds_trans: "only_adds f g \<Longrightarrow> only_adds g h \<Longrightarrow> only_adds f h"
  unfolding only_adds_def by metis

lemma only_adds_new_file: "names f n = None \<Longrightarrow> only_adds f (new_file n nd f)"
  using wf_new_file [of f n nd] wf_new_free [of f] by (auto simp: only_adds_def new_file_def)

lemma only_adds_mkdir: "only_adds f (snd (sys_mkdir env p f))"
  by (auto simp: sys_mkdir_def only_adds_new_file)

lemma only_adds_single: "mkdirSingle (sys_mkdir env) path i e s = (r, s') \<Longrightarrow> only_adds s s'"
  using only_adds_mkdir [of s env "take i path"] by (auto simp: mkdirSingle_def split: prod.splits option.splits)

lemma only_adds_down: "only_adds s (snd (down_loop (sys_mkdir env) path ptr s))"
proof (induction "sys_mkdir env" path ptr s rule: down_loop.induct)
  case (1 path ptr s)
  then show ?case
    by (subst down_loop.simps)
       (auto split: option.split prod.split mkdir_result.split dest: only_adds_single intro: only_adds_trans)
qed

lemma only_adds_up: "only_adds s (snd (up_loop (sys_mkdir env) path ptr s))"
proof (induction "sys_mkdir env" path ptr s rule: up_loop.induct)
  case (1 path ptr s)
  then show ?case
    by (subst up_loop.simps)
       (auto split: option.split prod.split mkdir_result.split dest: only_adds_single intro: only_adds_trans)
qed

lemma only_adds_mkdirRecursive: "only_adds s (snd (mkdirRecursive (sys_mkdir env) path s))"
proof -
  obtain p s' where d: "down_loop (sys_mkdir env) path (int (length path) - 1) s = (p, s')"
    by (cases "down_loop (sys_mkdir env) path (int (length path) - 1) s")
  then have "only_adds s s'" using only_adds_down [of s env path "int (length path) - 1"] by simp
  then show ?thesis
    using only_adds_up [of s' env path] d by (auto simp: mkdirRecursive_def split: option.split intro: only_adds_trans)
qed

lemma only_adds_grows: "only_adds f g \<Longrightarrow> grows f g"
  unfolding only_adds_def grows_def keeps_def using same_file_refl by fastforce

text \<open>The answers of \<^verbatim>\<open>lstat\<close> for the source are true, at every moment.\<close>

definition sees_source :: "clone_env \<Rightarrow> bool" where
  "sees_source c \<longleftrightarrow>
     (\<forall>f path st. w_here (cl_world c) f path = Some st \<longrightarrow>
        (\<exists>i nd. names f (PathInfo_append (cl_src c) path) = Some i \<and> inodes f i = Some nd \<and> describes st f i nd))"

lemma grows_link: "sys_link env a b f = (ok, g) \<Longrightarrow> grows f g"
proof -
  assume l: "sys_link env a b f = (ok, g)"
  show ?thesis
  proof (cases "names f b = None")
    case True
    then show ?thesis using keeps_link [of "{}" f f b env a] wf_link [of f env a b] l by (simp add: grows_def)
  next
    case False
    then have "g = f" using l by (auto simp: sys_link_def split: option.splits if_splits)
    then show ?thesis by simp
  qed
qed

lemma grows_object:
  assumes "clone_object c src st dst f = (r, g)" "names f src = Some i" "inodes f i = Some nd" "describes st f i nd"
  shows "grows f g"
proof -
  let ?e = "w_env (cl_world c)"
  obtain ok h where cp: "Unify_copy ?e src st dst f = (ok, h)" by (cases "Unify_copy ?e src st dst f")
  have "grows f h"
    using Unify_copy_facts [OF cp _ assms(2-4)] wf_Unify_copy [of f ?e src st dst] cp by (auto simp: grows_def)
  moreover have "g = h \<or> (\<exists>ok. sys_link ?e src dst f = (ok, g))"
    using assms(1) cp by (auto simp: clone_object_def Let_def split: if_splits prod.splits bool.splits)
  ultimately show ?thesis using grows_link by blast
qed

lemma handle_grows:
  assumes "handleDirEntry c m path f = (x, g)" "sees_source c"
  shows "grows f g"
proof (cases "wf_fs f")
  case wf: True
  let ?d = "PathInfo_append (cl_dst c) path" and ?s = "PathInfo_append (cl_src c) path"
  let ?f = "if skip_depth m > 0 then snd (mkdirRecursive (sys_mkdir (w_env (cl_world c))) ?d f) else f"
  show ?thesis
  proof (cases "g = f")
    case False
    with assms(1) obtain st r where st: "w_here (cl_world c) f path = Some st" and ob: "clone_object c ?s st ?d ?f = (r, g)"
      by (auto simp: handleDirEntry_def Let_def split: option.splits if_splits prod.splits)
    from assms(2) st obtain i nd where i: "names f ?s = Some i" "inodes f i = Some nd" "describes st f i nd"
      unfolding sees_source_def by blast
    have add: "only_adds f ?f" using only_adds_mkdirRecursive by simp
    with wf i have "names ?f ?s = Some i" "inodes ?f i = Some nd" "describes st ?f i nd"
      unfolding only_adds_def describes_def by (metis option.distinct(1))+
    from grows_object [OF ob this] only_adds_grows [OF add] show ?thesis by (rule grows_trans [rotated])
  qed simp
qed (simp add: grows_def)

lemma entry_grows:
  assumes "walk_fs (clone_visitDirEntry c visit state d mls f) = Some g" "sees_source c"
    "\<And>m x y. walk_fs (visit state d m x) = Some y \<Longrightarrow> grows x y"
  shows "grows f g"
proof (cases "isDotfile d")
  case True
  then show ?thesis using assms(1) by (simp add: clone_visitDirEntry_def walk_fs_def)
next
  case False
  obtain r is_dir h where h: "handleDirEntry c (hd mls) (PathInfo_append state d) f = ((r, is_dir), h)"
    by (metis prod.exhaust)
  note fh = handle_grows [OF h assms(2)]
  show ?thesis
  proof (cases "r = None \<or> \<not> is_dir")
    case True
    then have "g = h" using assms(1) False h
      by (cases r) (auto simp: clone_visitDirEntry_def walk_fs_def Let_def split: if_splits)
    then show ?thesis using fh by simp
  next
    case dir: False
    then obtain ok m where "clone_visitDirEntry c visit state d mls f =
        (case visit state d [m] h of
           Walked r l g \<Rightarrow>
             (let m2 = hd l in Walked ((if ok then 0 else 1) + r) [if skip_depth m2 > 0 then m2\<lparr>skip_depth := skip_depth m2 - 1\<rparr> else m2] g)
         | e \<Rightarrow> e)"
      using False h by (cases r) (auto simp: clone_visitDirEntry_def Let_def)
    then have "walk_fs (visit state d [m] h) = Some g"
      using assms(1) by (cases "visit state d [m] h") (auto simp: walk_fs_def Let_def)
    from fh assms(3) [OF this] show ?thesis by (rule grows_trans)
  qed
qed

lemma clone_loop_grows:
  assumes "\<And>e m x y. walk_fs (step e m x) = Some y \<Longrightarrow> grows x y"
  shows "walk_fs (visit_loop step es res m x) = Some y \<Longrightarrow> grows x y"
proof (induction es arbitrary: res m x)
  case (Cons e es)
  show ?case
  proof (cases "step e m x")
    case (Walked r l z)
    have "grows x z" using assms [of e m x z] by (simp add: Walked walk_fs_def)
    moreover have "grows z y" using Cons.IH Cons.prems by (simp add: Walked)
    ultimately show ?thesis by (rule grows_trans)
  qed (use Cons.prems assms [of e m x y] in \<open>simp_all add: walk_fs_def\<close>)
qed (simp add: walk_fs_def)

lemma clone_walk_grows:
  "sees_source c \<Longrightarrow> walk_fs (clone_visitDir n c state name mls f) = Some g \<Longrightarrow> grows f g"
proof (induction n arbitrary: state name mls f g)
  case (Suc n)
  let ?s = "PathInfo_append state name"
  show ?case
  proof (cases "w_chdir (cl_world c) ?s")
    case True
    then have "walk_fs (visit_loop (clone_visitDirEntry c (clone_visitDir n c) ?s) (w_readdir (cl_world c) ?s) 0 mls f) = Some g"
      using Suc.prems(2) by (simp add: Let_def)
    then show ?thesis
      by (rule clone_loop_grows [rotated]) (erule entry_grows [OF _ Suc.prems(1)], erule Suc.IH [OF Suc.prems(1)])
  qed (use Suc.prems(2) in \<open>simp add: Let_def walk_fs_def\<close>)
qed (simp add: walk_fs_def)


text \<open>A source with one unified file, and the truth about it.\<close>

definition true_stat :: "fs \<Rightarrow> cstr \<Rightarrow> stat option" where
  "true_stat f p =
     (case names f p of
        None \<Rightarrow> None
      | Some i \<Rightarrow>
          map_option
            (\<lambda>nd. \<lparr>st_dev = fs_dev f, st_ino = i, st_type = i_type nd, st_perm = i_perm nd, st_uid = i_uid nd,
                    st_gid = i_gid nd, st_rdev = i_rdev nd, st_size = length (i_data nd), st_atime = i_atime nd,
                    st_mtime = i_mtime nd, st_nlink = 1\<rparr>)
            (inodes f i))"

definition clone_sample :: clone_env where
  "clone_sample =
     \<lparr>cl_world = (small_world [])\<lparr>w_here := \<lambda>f p. true_stat f (PathInfo_append ''/r'' p)\<rparr>,
      cl_iattr = (\<lambda>_. Some (0x60000, 0x60000)), cl_set_ctx = (\<lambda>_ _. None), cl_ctx = VC_NOCTX, cl_src = [], cl_dst = []\<rparr>"

lemma clone_sample_sees: "sees_source (clone_sample\<lparr>cl_src := ''/r''\<rparr>)"
  by (auto simp: sees_source_def clone_sample_def true_stat_def describes_def split: option.splits)

lemma clone_sample_run:
  "case vclone 1 clone_sample (\<lambda>src _. MatchList_init src 0) [] [''/r'', ''/n''] small_fs of
     Some (ec, f) \<Rightarrow> ec = 0 \<and> names f ''/n/a'' = Some 0 \<and> names f ''/r/a'' = Some 0 | None \<Rightarrow> False"
  by code_simp


text \<open>
  The skip depth only counts directories that could not be made. Below a directory that is excluded the parents of an
  entry that is included are therefore not made.
\<close>

lemma vclone_excluded_directory:
  assumes "w_here (cl_world c) f (PathInfo_append state d) = Some st" "st_type st = S_DIR" "\<not> isDotfile d"
    "MatchList_compare (w_fnmatch (cl_world c)) m (PathInfo_append state d) \<noteq> stINCLUDE" "skip_depth m = 0"
    "visit state d [m] f = Walked r l g"
  shows "\<exists>m'. clone_visitDirEntry c visit state d [m] f = Walked r [m'] g"
  using assms by (simp add: clone_visitDirEntry_def handleDirEntry_def Let_def)

end
